(* ===== verification/Prelude.thy ===== *)
theory Prelude
  imports Main "HOL-Library.Word"
begin

text \<open>
  Vocabulary shared by every component: addresses, machine words, the ordering of
  \<open>struct timeval\<close>, singly linked chains, and the lemmas on ordered insertion that the
  timer list of \<open>libril/ril_event.cpp\<close> rests on.
\<close>

named_theorems chain_simps \<open>rewriting for singly linked chains\<close>
named_theorems ins_simps \<open>facts about insertion into an ordered list\<close>

type_synonym addr = nat
type_synonym u8 = "8 word"
type_synonym u32 = "32 word"

section \<open>Time values\<close>

text \<open>
  \<open>struct timeval\<close>, ordered as the macro \<open>timercmp\<close> of \<open>ril_event.cpp\<close> compares: by
  \<open>tv_usec\<close> when the seconds agree, by \<open>tv_sec\<close> otherwise. The order is an instance of
  the library's \<open>linorder\<close>, so \<open>sorted\<close> and its lemmas apply to timer lists.
\<close>

datatype timeval = Timeval (tv_sec: int) (tv_usec: int)

instantiation timeval :: linorder
begin

definition less_timeval :: "timeval \<Rightarrow> timeval \<Rightarrow> bool" where
  "less_timeval a b =
     (if tv_sec a = tv_sec b then tv_usec a < tv_usec b else tv_sec a < tv_sec b)"

definition less_eq_timeval :: "timeval \<Rightarrow> timeval \<Rightarrow> bool" where
  "less_eq_timeval a b = (a < b \<or> a = b)"

instance
proof
  fix x y z :: timeval
  show "(x < y) = (x \<le> y \<and> \<not> y \<le> x)"
    by (cases x; cases y) (auto simp: less_timeval_def less_eq_timeval_def split: if_splits)
  show "x \<le> x"
    by (simp add: less_eq_timeval_def)
  show "x \<le> y \<Longrightarrow> y \<le> z \<Longrightarrow> x \<le> z"
    by (cases x; cases y; cases z)
      (auto simp: less_timeval_def less_eq_timeval_def split: if_splits)
  show "x \<le> y \<Longrightarrow> y \<le> x \<Longrightarrow> x = y"
    by (cases x; cases y) (auto simp: less_timeval_def less_eq_timeval_def split: if_splits)
  show "x \<le> y \<or> y \<le> x"
    by (cases x; cases y) (auto simp: less_timeval_def less_eq_timeval_def)
qed

end

section \<open>Ordered insertion\<close>

text \<open>
  \<open>ins_at p x xs\<close> puts \<open>x\<close> in front of the first element of \<open>xs\<close> that fails \<open>p\<close>: what
  a walk \<open>while (p cur) cur = next;\<close> followed by an insertion before \<open>cur\<close> computes.
\<close>

definition ins_at :: "('a \<Rightarrow> bool) \<Rightarrow> 'a \<Rightarrow> 'a list \<Rightarrow> 'a list" where
  "ins_at p x xs = takeWhile p xs @ x # dropWhile p xs"

lemma set_ins_at [ins_simps]: "set (ins_at p x xs) = insert x (set xs)"
  unfolding ins_at_def by (metis Un_insert_right list.simps(15) set_append takeWhile_dropWhile_id)

lemma ins_at_Nil [ins_simps]: "ins_at p x [] = [x]"
  by (simp add: ins_at_def)

lemma ins_at_Cons [ins_simps]:
  "ins_at p x (y # ys) = (if p y then y # ins_at p x ys else x # y # ys)"
  by (simp add: ins_at_def)

lemma distinct_ins_at [ins_simps]:
  "distinct (ins_at p x xs) \<longleftrightarrow> x \<notin> set xs \<and> distinct xs"
  by (induction xs) (auto simp: ins_at_Nil ins_at_Cons set_ins_at)

lemma length_ins_at [ins_simps]: "length (ins_at p x xs) = Suc (length xs)"
  unfolding ins_at_def
  by (metis add_Suc_right length_Cons length_append takeWhile_dropWhile_id)

text \<open>Insertion keeps a list sorted by a key, on either side of the equal keys.\<close>

lemma sorted_ins_at_less:
  fixes k :: "'a \<Rightarrow> 'b::linorder"
  shows "sorted (map k xs) \<Longrightarrow> sorted (map k (ins_at (\<lambda>y. k y < k x) x xs))"
  by (induction xs) (auto simp: ins_simps)

lemma sorted_ins_at_le:
  fixes k :: "'a \<Rightarrow> 'b::linorder"
  shows "sorted (map k xs) \<Longrightarrow> sorted (map k (ins_at (\<lambda>y. k y \<le> k x) x xs))"
  by (induction xs) (auto simp: ins_simps)

lemma takeWhile_sorted_filter:
  fixes k :: "'a \<Rightarrow> 'b::linorder"
  shows "sorted (map k xs) \<Longrightarrow> takeWhile (\<lambda>y. k y < b) xs = filter (\<lambda>y. k y < b) xs"
  proof (induction xs)
  case (Cons y ys)
  then have "\<not> k y < b \<Longrightarrow> \<forall>z\<in>set ys. \<not> k z < b"
    by (auto simp: not_less intro: order_trans)
  with Cons show ?case by (auto simp: filter_empty_conv)
qed simp

lemma dropWhile_sorted_filter:
  fixes k :: "'a \<Rightarrow> 'b::linorder"
  shows "sorted (map k xs) \<Longrightarrow> dropWhile (\<lambda>y. k y < b) xs = filter (\<lambda>y. \<not> k y < b) xs"
  proof (induction xs)
  case (Cons y ys)
  then have "\<not> k y < b \<Longrightarrow> \<forall>z\<in>set ys. \<not> k z < b"
    by (auto simp: not_less intro: order_trans)
  with Cons show ?case by (auto simp: filter_id_conv)
qed simp

section \<open>Singly linked chains\<close>

text \<open>
  \<open>chain nx p xs\<close>: following the link function \<open>nx\<close> (the \<open>p_next\<close> field) from the pointer
  \<open>p\<close> visits exactly the addresses \<open>xs\<close> and ends in NULL.
\<close>

fun chain :: "(addr \<Rightarrow> addr option) \<Rightarrow> addr option \<Rightarrow> addr list \<Rightarrow> bool" where
  "chain nx p [] = (p = None)"
| "chain nx p (x # xs) = (p = Some x \<and> chain nx (nx x) xs)"

lemma chain_None [chain_simps, simp]: "chain nx None xs = (xs = [])"
  by (cases xs) auto

lemma chain_Some [chain_simps]:
  "chain nx (Some x) xs \<longleftrightarrow> (\<exists>ys. xs = x # ys \<and> chain nx (nx x) ys)"
  by (cases xs) auto

lemma chain_cong:
  "(\<And>x. x \<in> set xs \<Longrightarrow> nx' x = nx x) \<Longrightarrow> chain nx' p xs = chain nx p xs"
  by (induction xs arbitrary: p) auto

lemma chain_upd [chain_simps]:
  "a \<notin> set xs \<Longrightarrow> chain (nx(a := v)) p xs = chain nx p xs"
  by (rule chain_cong) auto

lemma chain_unique: "chain nx p xs \<Longrightarrow> chain nx p ys \<Longrightarrow> xs = ys"
proof (induction xs arbitrary: p ys)
  case Nil
  then show ?case by (cases ys) auto
next
  case (Cons x xs)
  then show ?case by (cases ys) auto
qed

lemma chain_suffix: "chain nx p (xs @ x # ys) \<Longrightarrow> chain nx (nx x) ys"
  by (induction xs arbitrary: p) auto

text \<open>Two different positions of a chain hold different addresses: it would not end otherwise.\<close>

lemma chain_distinct: "chain nx p xs \<Longrightarrow> distinct xs"
proof (induction xs arbitrary: p)
  case Nil
  show ?case by simp
next
  case (Cons x xs)
  have "x \<notin> set xs"
  proof
    assume "x \<in> set xs"
    then obtain us vs where xs: "xs = us @ x # vs"
      by (auto simp: in_set_conv_decomp)
    from Cons.prems have "chain nx (nx x) xs" by simp
    moreover from Cons.prems have "chain nx p ((x # us) @ x # vs)" by (simp add: xs)
    then have "chain nx (nx x) vs" by (rule chain_suffix)
    ultimately have "xs = vs" by (rule chain_unique)
    with xs show False by simp
  qed
  with Cons show ?case by auto
qed

text \<open>Unlinking an element in the middle: its predecessor takes over its link.\<close>

lemma chain_unlink:
  assumes "chain nx p (xs @ y # x # zs)"
  shows "chain (nx(y := nx x)) p (xs @ y # zs)"
proof -
  have d: "distinct (xs @ y # x # zs)"
    using assms by (rule chain_distinct)
  show ?thesis
    using assms d
  proof (induction xs arbitrary: p)
    case Nil
    then have "chain nx (nx x) zs" by simp
    moreover have "y \<notin> set zs" using Nil.prems(2) by simp
    ultimately have "chain (nx(y := nx x)) (nx x) zs" by (simp only: chain_upd simp_thms)
    then show ?case using Nil.prems by (simp del: fun_upd_apply add: fun_upd_same)
  next
    case (Cons a xs)
    then show ?case by auto
  qed
qed

end
