(* ===== verification/RilTables.thy ===== *)
theory RilTables
  imports Prelude
begin

text \<open>
  The constants of \<open>include/telephony/ril.h\<close>, the dispatch tables \<open>s_commands\<close>
  (\<open>libril/ril_commands.h\<close>) and \<open>s_unsolResponses\<close> (\<open>libril/ril_unsol_commands.h\<close>). The tables are indexed by
  the code, so their rows must stand at the right index; this is proved here and used by
  \<open>RilCore\<close>.
\<close>

section \<open>Constants of the vendor interface\<close>

subsection \<open>Requests\<close>

definition RIL_REQUEST_GET_SIM_STATUS :: int where
  "RIL_REQUEST_GET_SIM_STATUS = 1"

definition RIL_REQUEST_ENTER_SIM_PIN :: int where
  "RIL_REQUEST_ENTER_SIM_PIN = 2"

definition RIL_REQUEST_ENTER_SIM_PUK :: int where
  "RIL_REQUEST_ENTER_SIM_PUK = 3"

definition RIL_REQUEST_ENTER_SIM_PIN2 :: int where
  "RIL_REQUEST_ENTER_SIM_PIN2 = 4"

definition RIL_REQUEST_ENTER_SIM_PUK2 :: int where
  "RIL_REQUEST_ENTER_SIM_PUK2 = 5"

definition RIL_REQUEST_CHANGE_SIM_PIN :: int where
  "RIL_REQUEST_CHANGE_SIM_PIN = 6"

definition RIL_REQUEST_CHANGE_SIM_PIN2 :: int where
  "RIL_REQUEST_CHANGE_SIM_PIN2 = 7"

definition RIL_REQUEST_ENTER_NETWORK_DEPERSONALIZATION :: int where
  "RIL_REQUEST_ENTER_NETWORK_DEPERSONALIZATION = 8"

definition RIL_REQUEST_GET_CURRENT_CALLS :: int where
  "RIL_REQUEST_GET_CURRENT_CALLS = 9"

definition RIL_REQUEST_DIAL :: int where
  "RIL_REQUEST_DIAL = 10"

definition RIL_REQUEST_GET_IMSI :: int where
  "RIL_REQUEST_GET_IMSI = 11"

definition RIL_REQUEST_HANGUP :: int where
  "RIL_REQUEST_HANGUP = 12"

definition RIL_REQUEST_HANGUP_WAITING_OR_BACKGROUND :: int where
  "RIL_REQUEST_HANGUP_WAITING_OR_BACKGROUND = 13"

definition RIL_REQUEST_HANGUP_FOREGROUND_RESUME_BACKGROUND :: int where
  "RIL_REQUEST_HANGUP_FOREGROUND_RESUME_BACKGROUND = 14"

definition RIL_REQUEST_SWITCH_WAITING_OR_HOLDING_AND_ACTIVE :: int where
  "RIL_REQUEST_SWITCH_WAITING_OR_HOLDING_AND_ACTIVE = 15"

definition RIL_REQUEST_SWITCH_HOLDING_AND_ACTIVE :: int where
  "RIL_REQUEST_SWITCH_HOLDING_AND_ACTIVE = 15"

definition RIL_REQUEST_CONFERENCE :: int where
  "RIL_REQUEST_CONFERENCE = 16"

definition RIL_REQUEST_UDUB :: int where
  "RIL_REQUEST_UDUB = 17"

definition RIL_REQUEST_LAST_CALL_FAIL_CAUSE :: int where
  "RIL_REQUEST_LAST_CALL_FAIL_CAUSE = 18"

definition RIL_REQUEST_SIGNAL_STRENGTH :: int where
  "RIL_REQUEST_SIGNAL_STRENGTH = 19"

definition RIL_REQUEST_VOICE_REGISTRATION_STATE :: int where
  "RIL_REQUEST_VOICE_REGISTRATION_STATE = 20"

definition RIL_REQUEST_DATA_REGISTRATION_STATE :: int where
  "RIL_REQUEST_DATA_REGISTRATION_STATE = 21"

definition RIL_REQUEST_OPERATOR :: int where
  "RIL_REQUEST_OPERATOR = 22"

definition RIL_REQUEST_RADIO_POWER :: int where
  "RIL_REQUEST_RADIO_POWER = 23"

definition RIL_REQUEST_DTMF :: int where
  "RIL_REQUEST_DTMF = 24"

definition RIL_REQUEST_SEND_SMS :: int where
  "RIL_REQUEST_SEND_SMS = 25"

definition RIL_REQUEST_SEND_SMS_EXPECT_MORE :: int where
  "RIL_REQUEST_SEND_SMS_EXPECT_MORE = 26"

definition RIL_REQUEST_SETUP_DATA_CALL :: int where
  "RIL_REQUEST_SETUP_DATA_CALL = 27"

definition RIL_REQUEST_SIM_IO :: int where
  "RIL_REQUEST_SIM_IO = 28"

definition RIL_REQUEST_SEND_USSD :: int where
  "RIL_REQUEST_SEND_USSD = 29"

definition RIL_REQUEST_CANCEL_USSD :: int where
  "RIL_REQUEST_CANCEL_USSD = 30"

definition RIL_REQUEST_GET_CLIR :: int where
  "RIL_REQUEST_GET_CLIR = 31"

definition RIL_REQUEST_SET_CLIR :: int where
  "RIL_REQUEST_SET_CLIR = 32"

definition RIL_REQUEST_QUERY_CALL_FORWARD_STATUS :: int where
  "RIL_REQUEST_QUERY_CALL_FORWARD_STATUS = 33"

definition RIL_REQUEST_SET_CALL_FORWARD :: int where
  "RIL_REQUEST_SET_CALL_FORWARD = 34"

definition RIL_REQUEST_QUERY_CALL_WAITING :: int where
  "RIL_REQUEST_QUERY_CALL_WAITING = 35"

definition RIL_REQUEST_SET_CALL_WAITING :: int where
  "RIL_REQUEST_SET_CALL_WAITING = 36"

definition RIL_REQUEST_SMS_ACKNOWLEDGE :: int where
  "RIL_REQUEST_SMS_ACKNOWLEDGE = 37"

definition RIL_REQUEST_GET_IMEI :: int where
  "RIL_REQUEST_GET_IMEI = 38"

definition RIL_REQUEST_GET_IMEISV :: int where
  "RIL_REQUEST_GET_IMEISV = 39"

definition RIL_REQUEST_ANSWER :: int where
  "RIL_REQUEST_ANSWER = 40"

definition RIL_REQUEST_DEACTIVATE_DATA_CALL :: int where
  "RIL_REQUEST_DEACTIVATE_DATA_CALL = 41"

definition RIL_REQUEST_QUERY_FACILITY_LOCK :: int where
  "RIL_REQUEST_QUERY_FACILITY_LOCK = 42"

definition RIL_REQUEST_SET_FACILITY_LOCK :: int where
  "RIL_REQUEST_SET_FACILITY_LOCK = 43"

definition RIL_REQUEST_CHANGE_BARRING_PASSWORD :: int where
  "RIL_REQUEST_CHANGE_BARRING_PASSWORD = 44"

definition RIL_REQUEST_QUERY_NETWORK_SELECTION_MODE :: int where
  "RIL_REQUEST_QUERY_NETWORK_SELECTION_MODE = 45"

definition RIL_REQUEST_SET_NETWORK_SELECTION_AUTOMATIC :: int where
  "RIL_REQUEST_SET_NETWORK_SELECTION_AUTOMATIC = 46"

definition RIL_REQUEST_SET_NETWORK_SELECTION_MANUAL :: int where
  "RIL_REQUEST_SET_NETWORK_SELECTION_MANUAL = 47"

definition RIL_REQUEST_QUERY_AVAILABLE_NETWORKS :: int where
  "RIL_REQUEST_QUERY_AVAILABLE_NETWORKS = 48"

definition RIL_REQUEST_DTMF_START :: int where
  "RIL_REQUEST_DTMF_START = 49"

definition RIL_REQUEST_DTMF_STOP :: int where
  "RIL_REQUEST_DTMF_STOP = 50"

definition RIL_REQUEST_BASEBAND_VERSION :: int where
  "RIL_REQUEST_BASEBAND_VERSION = 51"

definition RIL_REQUEST_SEPARATE_CONNECTION :: int where
  "RIL_REQUEST_SEPARATE_CONNECTION = 52"

definition RIL_REQUEST_SET_MUTE :: int where
  "RIL_REQUEST_SET_MUTE = 53"

definition RIL_REQUEST_GET_MUTE :: int where
  "RIL_REQUEST_GET_MUTE = 54"

definition RIL_REQUEST_QUERY_CLIP :: int where
  "RIL_REQUEST_QUERY_CLIP = 55"

definition RIL_REQUEST_LAST_DATA_CALL_FAIL_CAUSE :: int where
  "RIL_REQUEST_LAST_DATA_CALL_FAIL_CAUSE = 56"

definition RIL_REQUEST_DATA_CALL_LIST :: int where
  "RIL_REQUEST_DATA_CALL_LIST = 57"

definition RIL_REQUEST_RESET_RADIO :: int where
  "RIL_REQUEST_RESET_RADIO = 58"

definition RIL_REQUEST_OEM_HOOK_RAW :: int where
  "RIL_REQUEST_OEM_HOOK_RAW = 59"

definition RIL_REQUEST_OEM_HOOK_STRINGS :: int where
  "RIL_REQUEST_OEM_HOOK_STRINGS = 60"

definition RIL_REQUEST_SCREEN_STATE :: int where
  "RIL_REQUEST_SCREEN_STATE = 61"

definition RIL_REQUEST_SET_SUPP_SVC_NOTIFICATION :: int where
  "RIL_REQUEST_SET_SUPP_SVC_NOTIFICATION = 62"

definition RIL_REQUEST_WRITE_SMS_TO_SIM :: int where
  "RIL_REQUEST_WRITE_SMS_TO_SIM = 63"

definition RIL_REQUEST_DELETE_SMS_ON_SIM :: int where
  "RIL_REQUEST_DELETE_SMS_ON_SIM = 64"

definition RIL_REQUEST_SET_BAND_MODE :: int where
  "RIL_REQUEST_SET_BAND_MODE = 65"

definition RIL_REQUEST_QUERY_AVAILABLE_BAND_MODE :: int where
  "RIL_REQUEST_QUERY_AVAILABLE_BAND_MODE = 66"

definition RIL_REQUEST_STK_GET_PROFILE :: int where
  "RIL_REQUEST_STK_GET_PROFILE = 67"

definition RIL_REQUEST_STK_SET_PROFILE :: int where
  "RIL_REQUEST_STK_SET_PROFILE = 68"

definition RIL_REQUEST_STK_SEND_ENVELOPE_COMMAND :: int where
  "RIL_REQUEST_STK_SEND_ENVELOPE_COMMAND = 69"

definition RIL_REQUEST_STK_SEND_TERMINAL_RESPONSE :: int where
  "RIL_REQUEST_STK_SEND_TERMINAL_RESPONSE = 70"

definition RIL_REQUEST_STK_HANDLE_CALL_SETUP_REQUESTED_FROM_SIM :: int where
  "RIL_REQUEST_STK_HANDLE_CALL_SETUP_REQUESTED_FROM_SIM = 71"

definition RIL_REQUEST_EXPLICIT_CALL_TRANSFER :: int where
  "RIL_REQUEST_EXPLICIT_CALL_TRANSFER = 72"

definition RIL_REQUEST_SET_PREFERRED_NETWORK_TYPE :: int where
  "RIL_REQUEST_SET_PREFERRED_NETWORK_TYPE = 73"

definition RIL_REQUEST_GET_PREFERRED_NETWORK_TYPE :: int where
  "RIL_REQUEST_GET_PREFERRED_NETWORK_TYPE = 74"

definition RIL_REQUEST_GET_NEIGHBORING_CELL_IDS :: int where
  "RIL_REQUEST_GET_NEIGHBORING_CELL_IDS = 75"

definition RIL_REQUEST_SET_LOCATION_UPDATES :: int where
  "RIL_REQUEST_SET_LOCATION_UPDATES = 76"

definition RIL_REQUEST_CDMA_SET_SUBSCRIPTION_SOURCE :: int where
  "RIL_REQUEST_CDMA_SET_SUBSCRIPTION_SOURCE = 77"

definition RIL_REQUEST_CDMA_SET_ROAMING_PREFERENCE :: int where
  "RIL_REQUEST_CDMA_SET_ROAMING_PREFERENCE = 78"

definition RIL_REQUEST_CDMA_QUERY_ROAMING_PREFERENCE :: int where
  "RIL_REQUEST_CDMA_QUERY_ROAMING_PREFERENCE = 79"

definition RIL_REQUEST_SET_TTY_MODE :: int where
  "RIL_REQUEST_SET_TTY_MODE = 80"

definition RIL_REQUEST_QUERY_TTY_MODE :: int where
  "RIL_REQUEST_QUERY_TTY_MODE = 81"

definition RIL_REQUEST_CDMA_SET_PREFERRED_VOICE_PRIVACY_MODE :: int where
  "RIL_REQUEST_CDMA_SET_PREFERRED_VOICE_PRIVACY_MODE = 82"

definition RIL_REQUEST_CDMA_QUERY_PREFERRED_VOICE_PRIVACY_MODE :: int where
  "RIL_REQUEST_CDMA_QUERY_PREFERRED_VOICE_PRIVACY_MODE = 83"

definition RIL_REQUEST_CDMA_FLASH :: int where
  "RIL_REQUEST_CDMA_FLASH = 84"

definition RIL_REQUEST_CDMA_BURST_DTMF :: int where
  "RIL_REQUEST_CDMA_BURST_DTMF = 85"

definition RIL_REQUEST_CDMA_VALIDATE_AND_WRITE_AKEY :: int where
  "RIL_REQUEST_CDMA_VALIDATE_AND_WRITE_AKEY = 86"

definition RIL_REQUEST_CDMA_SEND_SMS :: int where
  "RIL_REQUEST_CDMA_SEND_SMS = 87"

definition RIL_REQUEST_CDMA_SMS_ACKNOWLEDGE :: int where
  "RIL_REQUEST_CDMA_SMS_ACKNOWLEDGE = 88"

definition RIL_REQUEST_GSM_GET_BROADCAST_SMS_CONFIG :: int where
  "RIL_REQUEST_GSM_GET_BROADCAST_SMS_CONFIG = 89"

definition RIL_REQUEST_GSM_SET_BROADCAST_SMS_CONFIG :: int where
  "RIL_REQUEST_GSM_SET_BROADCAST_SMS_CONFIG = 90"

definition RIL_REQUEST_GSM_SMS_BROADCAST_ACTIVATION :: int where
  "RIL_REQUEST_GSM_SMS_BROADCAST_ACTIVATION = 91"

definition RIL_REQUEST_CDMA_GET_BROADCAST_SMS_CONFIG :: int where
  "RIL_REQUEST_CDMA_GET_BROADCAST_SMS_CONFIG = 92"

definition RIL_REQUEST_CDMA_SET_BROADCAST_SMS_CONFIG :: int where
  "RIL_REQUEST_CDMA_SET_BROADCAST_SMS_CONFIG = 93"

definition RIL_REQUEST_CDMA_SMS_BROADCAST_ACTIVATION :: int where
  "RIL_REQUEST_CDMA_SMS_BROADCAST_ACTIVATION = 94"

definition RIL_REQUEST_CDMA_SUBSCRIPTION :: int where
  "RIL_REQUEST_CDMA_SUBSCRIPTION = 95"

definition RIL_REQUEST_CDMA_WRITE_SMS_TO_RUIM :: int where
  "RIL_REQUEST_CDMA_WRITE_SMS_TO_RUIM = 96"

definition RIL_REQUEST_CDMA_DELETE_SMS_ON_RUIM :: int where
  "RIL_REQUEST_CDMA_DELETE_SMS_ON_RUIM = 97"

definition RIL_REQUEST_DEVICE_IDENTITY :: int where
  "RIL_REQUEST_DEVICE_IDENTITY = 98"

definition RIL_REQUEST_EXIT_EMERGENCY_CALLBACK_MODE :: int where
  "RIL_REQUEST_EXIT_EMERGENCY_CALLBACK_MODE = 99"

definition RIL_REQUEST_GET_SMSC_ADDRESS :: int where
  "RIL_REQUEST_GET_SMSC_ADDRESS = 100"

definition RIL_REQUEST_SET_SMSC_ADDRESS :: int where
  "RIL_REQUEST_SET_SMSC_ADDRESS = 101"

definition RIL_REQUEST_REPORT_SMS_MEMORY_STATUS :: int where
  "RIL_REQUEST_REPORT_SMS_MEMORY_STATUS = 102"

definition RIL_REQUEST_REPORT_STK_SERVICE_IS_RUNNING :: int where
  "RIL_REQUEST_REPORT_STK_SERVICE_IS_RUNNING = 103"

definition RIL_REQUEST_CDMA_GET_SUBSCRIPTION_SOURCE :: int where
  "RIL_REQUEST_CDMA_GET_SUBSCRIPTION_SOURCE = 104"

definition RIL_REQUEST_ISIM_AUTHENTICATION :: int where
  "RIL_REQUEST_ISIM_AUTHENTICATION = 105"

definition RIL_REQUEST_ACKNOWLEDGE_INCOMING_GSM_SMS_WITH_PDU :: int where
  "RIL_REQUEST_ACKNOWLEDGE_INCOMING_GSM_SMS_WITH_PDU = 106"

definition RIL_REQUEST_STK_SEND_ENVELOPE_WITH_STATUS :: int where
  "RIL_REQUEST_STK_SEND_ENVELOPE_WITH_STATUS = 107"

definition RIL_REQUEST_VOICE_RADIO_TECH :: int where
  "RIL_REQUEST_VOICE_RADIO_TECH = 108"

definition RIL_REQUEST_GET_CELL_INFO_LIST :: int where
  "RIL_REQUEST_GET_CELL_INFO_LIST = 109"

definition RIL_REQUEST_SET_UNSOL_CELL_INFO_LIST_RATE :: int where
  "RIL_REQUEST_SET_UNSOL_CELL_INFO_LIST_RATE = 110"

definition RIL_REQUEST_SET_INITIAL_ATTACH_APN :: int where
  "RIL_REQUEST_SET_INITIAL_ATTACH_APN = 111"

definition RIL_REQUEST_IMS_REGISTRATION_STATE :: int where
  "RIL_REQUEST_IMS_REGISTRATION_STATE = 112"

definition RIL_REQUEST_IMS_SEND_SMS :: int where
  "RIL_REQUEST_IMS_SEND_SMS = 113"

definition RIL_REQUEST_SIM_TRANSMIT_APDU_BASIC :: int where
  "RIL_REQUEST_SIM_TRANSMIT_APDU_BASIC = 114"

definition RIL_REQUEST_SIM_OPEN_CHANNEL :: int where
  "RIL_REQUEST_SIM_OPEN_CHANNEL = 115"

definition RIL_REQUEST_SIM_CLOSE_CHANNEL :: int where
  "RIL_REQUEST_SIM_CLOSE_CHANNEL = 116"

definition RIL_REQUEST_SIM_TRANSMIT_APDU_CHANNEL :: int where
  "RIL_REQUEST_SIM_TRANSMIT_APDU_CHANNEL = 117"

definition RIL_REQUEST_NV_READ_ITEM :: int where
  "RIL_REQUEST_NV_READ_ITEM = 118"

definition RIL_REQUEST_NV_WRITE_ITEM :: int where
  "RIL_REQUEST_NV_WRITE_ITEM = 119"

definition RIL_REQUEST_NV_WRITE_CDMA_PRL :: int where
  "RIL_REQUEST_NV_WRITE_CDMA_PRL = 120"

definition RIL_REQUEST_NV_RESET_CONFIG :: int where
  "RIL_REQUEST_NV_RESET_CONFIG = 121"

definition RIL_REQUEST_SET_UICC_SUBSCRIPTION :: int where
  "RIL_REQUEST_SET_UICC_SUBSCRIPTION = 122"

definition RIL_REQUEST_ALLOW_DATA :: int where
  "RIL_REQUEST_ALLOW_DATA = 123"

definition RIL_REQUEST_GET_HARDWARE_CONFIG :: int where
  "RIL_REQUEST_GET_HARDWARE_CONFIG = 124"

definition RIL_REQUEST_SIM_AUTHENTICATION :: int where
  "RIL_REQUEST_SIM_AUTHENTICATION = 125"

definition RIL_REQUEST_GET_DC_RT_INFO :: int where
  "RIL_REQUEST_GET_DC_RT_INFO = 126"

definition RIL_REQUEST_SET_DC_RT_INFO_RATE :: int where
  "RIL_REQUEST_SET_DC_RT_INFO_RATE = 127"

definition RIL_REQUEST_SET_DATA_PROFILE :: int where
  "RIL_REQUEST_SET_DATA_PROFILE = 128"

definition RIL_REQUEST_SHUTDOWN :: int where
  "RIL_REQUEST_SHUTDOWN = 129"

definition RIL_REQUEST_GET_RADIO_CAPABILITY :: int where
  "RIL_REQUEST_GET_RADIO_CAPABILITY = 130"

definition RIL_REQUEST_SET_RADIO_CAPABILITY :: int where
  "RIL_REQUEST_SET_RADIO_CAPABILITY = 131"

definition RIL_REQUEST_START_LCE :: int where
  "RIL_REQUEST_START_LCE = 132"

definition RIL_REQUEST_STOP_LCE :: int where
  "RIL_REQUEST_STOP_LCE = 133"

definition RIL_REQUEST_PULL_LCEDATA :: int where
  "RIL_REQUEST_PULL_LCEDATA = 134"

definition RIL_REQUEST_GET_ACTIVITY_INFO :: int where
  "RIL_REQUEST_GET_ACTIVITY_INFO = 135"

definition RIL_REQUEST_SET_CARRIER_RESTRICTIONS :: int where
  "RIL_REQUEST_SET_CARRIER_RESTRICTIONS = 136"

definition RIL_REQUEST_GET_CARRIER_RESTRICTIONS :: int where
  "RIL_REQUEST_GET_CARRIER_RESTRICTIONS = 137"

definition RIL_REQUEST_SEND_DEVICE_STATE :: int where
  "RIL_REQUEST_SEND_DEVICE_STATE = 138"

definition RIL_REQUEST_SET_UNSOLICITED_RESPONSE_FILTER :: int where
  "RIL_REQUEST_SET_UNSOLICITED_RESPONSE_FILTER = 139"

definition RIL_REQUEST_SET_SIM_CARD_POWER :: int where
  "RIL_REQUEST_SET_SIM_CARD_POWER = 140"

definition RIL_REQUEST_SET_CARRIER_INFO_IMSI_ENCRYPTION :: int where
  "RIL_REQUEST_SET_CARRIER_INFO_IMSI_ENCRYPTION = 141"

definition RIL_REQUEST_START_NETWORK_SCAN :: int where
  "RIL_REQUEST_START_NETWORK_SCAN = 142"

definition RIL_REQUEST_STOP_NETWORK_SCAN :: int where
  "RIL_REQUEST_STOP_NETWORK_SCAN = 143"

definition RIL_REQUEST_START_KEEPALIVE :: int where
  "RIL_REQUEST_START_KEEPALIVE = 144"

definition RIL_REQUEST_STOP_KEEPALIVE :: int where
  "RIL_REQUEST_STOP_KEEPALIVE = 145"

subsection \<open>Acknowledgements and unsolicited responses\<close>

definition RIL_RESPONSE_ACKNOWLEDGEMENT :: int where
  "RIL_RESPONSE_ACKNOWLEDGEMENT = 800"

definition RIL_UNSOL_RESPONSE_BASE :: int where
  "RIL_UNSOL_RESPONSE_BASE = 1000"

definition RIL_UNSOL_RESPONSE_RADIO_STATE_CHANGED :: int where
  "RIL_UNSOL_RESPONSE_RADIO_STATE_CHANGED = 1000"

definition RIL_UNSOL_RESPONSE_CALL_STATE_CHANGED :: int where
  "RIL_UNSOL_RESPONSE_CALL_STATE_CHANGED = 1001"

definition RIL_UNSOL_RESPONSE_VOICE_NETWORK_STATE_CHANGED :: int where
  "RIL_UNSOL_RESPONSE_VOICE_NETWORK_STATE_CHANGED = 1002"

definition RIL_UNSOL_RESPONSE_NEW_SMS :: int where
  "RIL_UNSOL_RESPONSE_NEW_SMS = 1003"

definition RIL_UNSOL_RESPONSE_NEW_SMS_STATUS_REPORT :: int where
  "RIL_UNSOL_RESPONSE_NEW_SMS_STATUS_REPORT = 1004"

definition RIL_UNSOL_RESPONSE_NEW_SMS_ON_SIM :: int where
  "RIL_UNSOL_RESPONSE_NEW_SMS_ON_SIM = 1005"

definition RIL_UNSOL_ON_USSD :: int where
  "RIL_UNSOL_ON_USSD = 1006"

definition RIL_UNSOL_ON_USSD_REQUEST :: int where
  "RIL_UNSOL_ON_USSD_REQUEST = 1007"

definition RIL_UNSOL_NITZ_TIME_RECEIVED :: int where
  "RIL_UNSOL_NITZ_TIME_RECEIVED = 1008"

definition RIL_UNSOL_SIGNAL_STRENGTH :: int where
  "RIL_UNSOL_SIGNAL_STRENGTH = 1009"

definition RIL_UNSOL_DATA_CALL_LIST_CHANGED :: int where
  "RIL_UNSOL_DATA_CALL_LIST_CHANGED = 1010"

definition RIL_UNSOL_SUPP_SVC_NOTIFICATION :: int where
  "RIL_UNSOL_SUPP_SVC_NOTIFICATION = 1011"

definition RIL_UNSOL_STK_SESSION_END :: int where
  "RIL_UNSOL_STK_SESSION_END = 1012"

definition RIL_UNSOL_STK_PROACTIVE_COMMAND :: int where
  "RIL_UNSOL_STK_PROACTIVE_COMMAND = 1013"

definition RIL_UNSOL_STK_EVENT_NOTIFY :: int where
  "RIL_UNSOL_STK_EVENT_NOTIFY = 1014"

definition RIL_UNSOL_STK_CALL_SETUP :: int where
  "RIL_UNSOL_STK_CALL_SETUP = 1015"

definition RIL_UNSOL_SIM_SMS_STORAGE_FULL :: int where
  "RIL_UNSOL_SIM_SMS_STORAGE_FULL = 1016"

definition RIL_UNSOL_SIM_REFRESH :: int where
  "RIL_UNSOL_SIM_REFRESH = 1017"

definition RIL_UNSOL_CALL_RING :: int where
  "RIL_UNSOL_CALL_RING = 1018"

definition RIL_UNSOL_RESPONSE_SIM_STATUS_CHANGED :: int where
  "RIL_UNSOL_RESPONSE_SIM_STATUS_CHANGED = 1019"

definition RIL_UNSOL_RESPONSE_CDMA_NEW_SMS :: int where
  "RIL_UNSOL_RESPONSE_CDMA_NEW_SMS = 1020"

definition RIL_UNSOL_RESPONSE_NEW_BROADCAST_SMS :: int where
  "RIL_UNSOL_RESPONSE_NEW_BROADCAST_SMS = 1021"

definition RIL_UNSOL_CDMA_RUIM_SMS_STORAGE_FULL :: int where
  "RIL_UNSOL_CDMA_RUIM_SMS_STORAGE_FULL = 1022"

definition RIL_UNSOL_RESTRICTED_STATE_CHANGED :: int where
  "RIL_UNSOL_RESTRICTED_STATE_CHANGED = 1023"

definition RIL_UNSOL_ENTER_EMERGENCY_CALLBACK_MODE :: int where
  "RIL_UNSOL_ENTER_EMERGENCY_CALLBACK_MODE = 1024"

definition RIL_UNSOL_CDMA_CALL_WAITING :: int where
  "RIL_UNSOL_CDMA_CALL_WAITING = 1025"

definition RIL_UNSOL_CDMA_OTA_PROVISION_STATUS :: int where
  "RIL_UNSOL_CDMA_OTA_PROVISION_STATUS = 1026"

definition RIL_UNSOL_CDMA_INFO_REC :: int where
  "RIL_UNSOL_CDMA_INFO_REC = 1027"

definition RIL_UNSOL_OEM_HOOK_RAW :: int where
  "RIL_UNSOL_OEM_HOOK_RAW = 1028"

definition RIL_UNSOL_RINGBACK_TONE :: int where
  "RIL_UNSOL_RINGBACK_TONE = 1029"

definition RIL_UNSOL_RESEND_INCALL_MUTE :: int where
  "RIL_UNSOL_RESEND_INCALL_MUTE = 1030"

definition RIL_UNSOL_CDMA_SUBSCRIPTION_SOURCE_CHANGED :: int where
  "RIL_UNSOL_CDMA_SUBSCRIPTION_SOURCE_CHANGED = 1031"

definition RIL_UNSOL_CDMA_PRL_CHANGED :: int where
  "RIL_UNSOL_CDMA_PRL_CHANGED = 1032"

definition RIL_UNSOL_EXIT_EMERGENCY_CALLBACK_MODE :: int where
  "RIL_UNSOL_EXIT_EMERGENCY_CALLBACK_MODE = 1033"

definition RIL_UNSOL_RIL_CONNECTED :: int where
  "RIL_UNSOL_RIL_CONNECTED = 1034"

definition RIL_UNSOL_VOICE_RADIO_TECH_CHANGED :: int where
  "RIL_UNSOL_VOICE_RADIO_TECH_CHANGED = 1035"

definition RIL_UNSOL_CELL_INFO_LIST :: int where
  "RIL_UNSOL_CELL_INFO_LIST = 1036"

definition RIL_UNSOL_RESPONSE_IMS_NETWORK_STATE_CHANGED :: int where
  "RIL_UNSOL_RESPONSE_IMS_NETWORK_STATE_CHANGED = 1037"

definition RIL_UNSOL_UICC_SUBSCRIPTION_STATUS_CHANGED :: int where
  "RIL_UNSOL_UICC_SUBSCRIPTION_STATUS_CHANGED = 1038"

definition RIL_UNSOL_SRVCC_STATE_NOTIFY :: int where
  "RIL_UNSOL_SRVCC_STATE_NOTIFY = 1039"

definition RIL_UNSOL_HARDWARE_CONFIG_CHANGED :: int where
  "RIL_UNSOL_HARDWARE_CONFIG_CHANGED = 1040"

definition RIL_UNSOL_DC_RT_INFO_CHANGED :: int where
  "RIL_UNSOL_DC_RT_INFO_CHANGED = 1041"

definition RIL_UNSOL_RADIO_CAPABILITY :: int where
  "RIL_UNSOL_RADIO_CAPABILITY = 1042"

definition RIL_UNSOL_ON_SS :: int where
  "RIL_UNSOL_ON_SS = 1043"

definition RIL_UNSOL_STK_CC_ALPHA_NOTIFY :: int where
  "RIL_UNSOL_STK_CC_ALPHA_NOTIFY = 1044"

definition RIL_UNSOL_LCEDATA_RECV :: int where
  "RIL_UNSOL_LCEDATA_RECV = 1045"

definition RIL_UNSOL_PCO_DATA :: int where
  "RIL_UNSOL_PCO_DATA = 1046"

definition RIL_UNSOL_MODEM_RESTART :: int where
  "RIL_UNSOL_MODEM_RESTART = 1047"

definition RIL_UNSOL_CARRIER_INFO_IMSI_ENCRYPTION :: int where
  "RIL_UNSOL_CARRIER_INFO_IMSI_ENCRYPTION = 1048"

definition RIL_UNSOL_NETWORK_SCAN_RESULT :: int where
  "RIL_UNSOL_NETWORK_SCAN_RESULT = 1049"

definition RIL_UNSOL_KEEPALIVE_STATUS :: int where
  "RIL_UNSOL_KEEPALIVE_STATUS = 1050"

subsection \<open>Error codes, call states, radio states\<close>

text \<open>The enumerations of \<open>ril.h\<close> are C integers: a vendor library may pass any value.\<close>

definition RIL_E_SUCCESS :: int where
  "RIL_E_SUCCESS = 0"

definition RIL_E_RADIO_NOT_AVAILABLE :: int where
  "RIL_E_RADIO_NOT_AVAILABLE = 1"

definition RIL_E_GENERIC_FAILURE :: int where
  "RIL_E_GENERIC_FAILURE = 2"

definition RIL_E_PASSWORD_INCORRECT :: int where
  "RIL_E_PASSWORD_INCORRECT = 3"

definition RIL_E_SIM_PIN2 :: int where
  "RIL_E_SIM_PIN2 = 4"

definition RIL_E_SIM_PUK2 :: int where
  "RIL_E_SIM_PUK2 = 5"

definition RIL_E_REQUEST_NOT_SUPPORTED :: int where
  "RIL_E_REQUEST_NOT_SUPPORTED = 6"

definition RIL_E_CANCELLED :: int where
  "RIL_E_CANCELLED = 7"

definition RIL_E_OP_NOT_ALLOWED_DURING_VOICE_CALL :: int where
  "RIL_E_OP_NOT_ALLOWED_DURING_VOICE_CALL = 8"

definition RIL_E_OP_NOT_ALLOWED_BEFORE_REG_TO_NW :: int where
  "RIL_E_OP_NOT_ALLOWED_BEFORE_REG_TO_NW = 9"

definition RIL_E_SMS_SEND_FAIL_RETRY :: int where
  "RIL_E_SMS_SEND_FAIL_RETRY = 10"

definition RIL_E_SIM_ABSENT :: int where
  "RIL_E_SIM_ABSENT = 11"

definition RIL_E_SUBSCRIPTION_NOT_AVAILABLE :: int where
  "RIL_E_SUBSCRIPTION_NOT_AVAILABLE = 12"

definition RIL_E_MODE_NOT_SUPPORTED :: int where
  "RIL_E_MODE_NOT_SUPPORTED = 13"

definition RIL_E_FDN_CHECK_FAILURE :: int where
  "RIL_E_FDN_CHECK_FAILURE = 14"

definition RIL_E_ILLEGAL_SIM_OR_ME :: int where
  "RIL_E_ILLEGAL_SIM_OR_ME = 15"

definition RIL_E_MISSING_RESOURCE :: int where
  "RIL_E_MISSING_RESOURCE = 16"

definition RIL_E_NO_SUCH_ELEMENT :: int where
  "RIL_E_NO_SUCH_ELEMENT = 17"

definition RIL_E_DIAL_MODIFIED_TO_USSD :: int where
  "RIL_E_DIAL_MODIFIED_TO_USSD = 18"

definition RIL_E_DIAL_MODIFIED_TO_SS :: int where
  "RIL_E_DIAL_MODIFIED_TO_SS = 19"

definition RIL_E_DIAL_MODIFIED_TO_DIAL :: int where
  "RIL_E_DIAL_MODIFIED_TO_DIAL = 20"

definition RIL_E_USSD_MODIFIED_TO_DIAL :: int where
  "RIL_E_USSD_MODIFIED_TO_DIAL = 21"

definition RIL_E_USSD_MODIFIED_TO_SS :: int where
  "RIL_E_USSD_MODIFIED_TO_SS = 22"

definition RIL_E_USSD_MODIFIED_TO_USSD :: int where
  "RIL_E_USSD_MODIFIED_TO_USSD = 23"

definition RIL_E_SS_MODIFIED_TO_DIAL :: int where
  "RIL_E_SS_MODIFIED_TO_DIAL = 24"

definition RIL_E_SS_MODIFIED_TO_USSD :: int where
  "RIL_E_SS_MODIFIED_TO_USSD = 25"

definition RIL_E_SUBSCRIPTION_NOT_SUPPORTED :: int where
  "RIL_E_SUBSCRIPTION_NOT_SUPPORTED = 26"

definition RIL_E_SS_MODIFIED_TO_SS :: int where
  "RIL_E_SS_MODIFIED_TO_SS = 27"

definition RIL_E_LCE_NOT_SUPPORTED :: int where
  "RIL_E_LCE_NOT_SUPPORTED = 36"

definition RIL_E_NO_MEMORY :: int where
  "RIL_E_NO_MEMORY = 37"

definition RIL_E_INTERNAL_ERR :: int where
  "RIL_E_INTERNAL_ERR = 38"

definition RIL_E_SYSTEM_ERR :: int where
  "RIL_E_SYSTEM_ERR = 39"

definition RIL_E_MODEM_ERR :: int where
  "RIL_E_MODEM_ERR = 40"

definition RIL_E_INVALID_STATE :: int where
  "RIL_E_INVALID_STATE = 41"

definition RIL_E_NO_RESOURCES :: int where
  "RIL_E_NO_RESOURCES = 42"

definition RIL_E_SIM_ERR :: int where
  "RIL_E_SIM_ERR = 43"

definition RIL_E_INVALID_ARGUMENTS :: int where
  "RIL_E_INVALID_ARGUMENTS = 44"

definition RIL_E_INVALID_SIM_STATE :: int where
  "RIL_E_INVALID_SIM_STATE = 45"

definition RIL_E_INVALID_MODEM_STATE :: int where
  "RIL_E_INVALID_MODEM_STATE = 46"

definition RIL_E_INVALID_CALL_ID :: int where
  "RIL_E_INVALID_CALL_ID = 47"

definition RIL_E_NO_SMS_TO_ACK :: int where
  "RIL_E_NO_SMS_TO_ACK = 48"

definition RIL_E_NETWORK_ERR :: int where
  "RIL_E_NETWORK_ERR = 49"

definition RIL_E_REQUEST_RATE_LIMITED :: int where
  "RIL_E_REQUEST_RATE_LIMITED = 50"

definition RIL_E_SIM_BUSY :: int where
  "RIL_E_SIM_BUSY = 51"

definition RIL_E_SIM_FULL :: int where
  "RIL_E_SIM_FULL = 52"

definition RIL_E_NETWORK_REJECT :: int where
  "RIL_E_NETWORK_REJECT = 53"

definition RIL_E_OPERATION_NOT_ALLOWED :: int where
  "RIL_E_OPERATION_NOT_ALLOWED = 54"

definition RIL_E_EMPTY_RECORD :: int where
  "RIL_E_EMPTY_RECORD = 55"

definition RIL_E_INVALID_SMS_FORMAT :: int where
  "RIL_E_INVALID_SMS_FORMAT = 56"

definition RIL_E_ENCODING_ERR :: int where
  "RIL_E_ENCODING_ERR = 57"

definition RIL_E_INVALID_SMSC_ADDRESS :: int where
  "RIL_E_INVALID_SMSC_ADDRESS = 58"

definition RIL_E_NO_SUCH_ENTRY :: int where
  "RIL_E_NO_SUCH_ENTRY = 59"

definition RIL_E_NETWORK_NOT_READY :: int where
  "RIL_E_NETWORK_NOT_READY = 60"

definition RIL_E_NOT_PROVISIONED :: int where
  "RIL_E_NOT_PROVISIONED = 61"

definition RIL_E_NO_SUBSCRIPTION :: int where
  "RIL_E_NO_SUBSCRIPTION = 62"

definition RIL_E_NO_NETWORK_FOUND :: int where
  "RIL_E_NO_NETWORK_FOUND = 63"

definition RIL_E_DEVICE_IN_USE :: int where
  "RIL_E_DEVICE_IN_USE = 64"

definition RIL_E_ABORTED :: int where
  "RIL_E_ABORTED = 65"

definition RIL_E_INVALID_RESPONSE :: int where
  "RIL_E_INVALID_RESPONSE = 66"

definition RIL_E_OEM_ERROR_1 :: int where
  "RIL_E_OEM_ERROR_1 = 501"

definition RIL_E_OEM_ERROR_2 :: int where
  "RIL_E_OEM_ERROR_2 = 502"

definition RIL_E_OEM_ERROR_3 :: int where
  "RIL_E_OEM_ERROR_3 = 503"

definition RIL_E_OEM_ERROR_4 :: int where
  "RIL_E_OEM_ERROR_4 = 504"

definition RIL_E_OEM_ERROR_5 :: int where
  "RIL_E_OEM_ERROR_5 = 505"

definition RIL_E_OEM_ERROR_6 :: int where
  "RIL_E_OEM_ERROR_6 = 506"

definition RIL_E_OEM_ERROR_7 :: int where
  "RIL_E_OEM_ERROR_7 = 507"

definition RIL_E_OEM_ERROR_8 :: int where
  "RIL_E_OEM_ERROR_8 = 508"

definition RIL_E_OEM_ERROR_9 :: int where
  "RIL_E_OEM_ERROR_9 = 509"

definition RIL_E_OEM_ERROR_10 :: int where
  "RIL_E_OEM_ERROR_10 = 510"

definition RIL_E_OEM_ERROR_11 :: int where
  "RIL_E_OEM_ERROR_11 = 511"

definition RIL_E_OEM_ERROR_12 :: int where
  "RIL_E_OEM_ERROR_12 = 512"

definition RIL_E_OEM_ERROR_13 :: int where
  "RIL_E_OEM_ERROR_13 = 513"

definition RIL_E_OEM_ERROR_14 :: int where
  "RIL_E_OEM_ERROR_14 = 514"

definition RIL_E_OEM_ERROR_15 :: int where
  "RIL_E_OEM_ERROR_15 = 515"

definition RIL_E_OEM_ERROR_16 :: int where
  "RIL_E_OEM_ERROR_16 = 516"

definition RIL_E_OEM_ERROR_17 :: int where
  "RIL_E_OEM_ERROR_17 = 517"

definition RIL_E_OEM_ERROR_18 :: int where
  "RIL_E_OEM_ERROR_18 = 518"

definition RIL_E_OEM_ERROR_19 :: int where
  "RIL_E_OEM_ERROR_19 = 519"

definition RIL_E_OEM_ERROR_20 :: int where
  "RIL_E_OEM_ERROR_20 = 520"

definition RIL_E_OEM_ERROR_21 :: int where
  "RIL_E_OEM_ERROR_21 = 521"

definition RIL_E_OEM_ERROR_22 :: int where
  "RIL_E_OEM_ERROR_22 = 522"

definition RIL_E_OEM_ERROR_23 :: int where
  "RIL_E_OEM_ERROR_23 = 523"

definition RIL_E_OEM_ERROR_24 :: int where
  "RIL_E_OEM_ERROR_24 = 524"

definition RIL_E_OEM_ERROR_25 :: int where
  "RIL_E_OEM_ERROR_25 = 525"

definition RIL_CALL_ACTIVE :: int where
  "RIL_CALL_ACTIVE = 0"

definition RIL_CALL_HOLDING :: int where
  "RIL_CALL_HOLDING = 1"

definition RIL_CALL_DIALING :: int where
  "RIL_CALL_DIALING = 2"

definition RIL_CALL_ALERTING :: int where
  "RIL_CALL_ALERTING = 3"

definition RIL_CALL_INCOMING :: int where
  "RIL_CALL_INCOMING = 4"

definition RIL_CALL_WAITING :: int where
  "RIL_CALL_WAITING = 5"

definition RADIO_STATE_OFF :: int where
  "RADIO_STATE_OFF = 0"

definition RADIO_STATE_UNAVAILABLE :: int where
  "RADIO_STATE_UNAVAILABLE = 1"

definition RADIO_STATE_ON :: int where
  "RADIO_STATE_ON = 10"

definition RIL_VERSION :: int where
  "RIL_VERSION = 12"

definition LAST_IMPRECISE_RIL_VERSION :: int where
  "LAST_IMPRECISE_RIL_VERSION = 12"

definition RIL_VERSION_MIN :: int where
  "RIL_VERSION_MIN = 6"

lemmas req_consts =
  RIL_REQUEST_GET_SIM_STATUS_def RIL_REQUEST_ENTER_SIM_PIN_def RIL_REQUEST_ENTER_SIM_PUK_def
  RIL_REQUEST_ENTER_SIM_PIN2_def RIL_REQUEST_ENTER_SIM_PUK2_def RIL_REQUEST_CHANGE_SIM_PIN_def
  RIL_REQUEST_CHANGE_SIM_PIN2_def RIL_REQUEST_ENTER_NETWORK_DEPERSONALIZATION_def RIL_REQUEST_GET_CURRENT_CALLS_def
  RIL_REQUEST_DIAL_def RIL_REQUEST_GET_IMSI_def RIL_REQUEST_HANGUP_def
  RIL_REQUEST_HANGUP_WAITING_OR_BACKGROUND_def RIL_REQUEST_HANGUP_FOREGROUND_RESUME_BACKGROUND_def RIL_REQUEST_SWITCH_WAITING_OR_HOLDING_AND_ACTIVE_def
  RIL_REQUEST_SWITCH_HOLDING_AND_ACTIVE_def RIL_REQUEST_CONFERENCE_def RIL_REQUEST_UDUB_def
  RIL_REQUEST_LAST_CALL_FAIL_CAUSE_def RIL_REQUEST_SIGNAL_STRENGTH_def RIL_REQUEST_VOICE_REGISTRATION_STATE_def
  RIL_REQUEST_DATA_REGISTRATION_STATE_def RIL_REQUEST_OPERATOR_def RIL_REQUEST_RADIO_POWER_def
  RIL_REQUEST_DTMF_def RIL_REQUEST_SEND_SMS_def RIL_REQUEST_SEND_SMS_EXPECT_MORE_def
  RIL_REQUEST_SETUP_DATA_CALL_def RIL_REQUEST_SIM_IO_def RIL_REQUEST_SEND_USSD_def
  RIL_REQUEST_CANCEL_USSD_def RIL_REQUEST_GET_CLIR_def RIL_REQUEST_SET_CLIR_def
  RIL_REQUEST_QUERY_CALL_FORWARD_STATUS_def RIL_REQUEST_SET_CALL_FORWARD_def RIL_REQUEST_QUERY_CALL_WAITING_def
  RIL_REQUEST_SET_CALL_WAITING_def RIL_REQUEST_SMS_ACKNOWLEDGE_def RIL_REQUEST_GET_IMEI_def
  RIL_REQUEST_GET_IMEISV_def RIL_REQUEST_ANSWER_def RIL_REQUEST_DEACTIVATE_DATA_CALL_def
  RIL_REQUEST_QUERY_FACILITY_LOCK_def RIL_REQUEST_SET_FACILITY_LOCK_def RIL_REQUEST_CHANGE_BARRING_PASSWORD_def
  RIL_REQUEST_QUERY_NETWORK_SELECTION_MODE_def RIL_REQUEST_SET_NETWORK_SELECTION_AUTOMATIC_def RIL_REQUEST_SET_NETWORK_SELECTION_MANUAL_def
  RIL_REQUEST_QUERY_AVAILABLE_NETWORKS_def RIL_REQUEST_DTMF_START_def RIL_REQUEST_DTMF_STOP_def
  RIL_REQUEST_BASEBAND_VERSION_def RIL_REQUEST_SEPARATE_CONNECTION_def RIL_REQUEST_SET_MUTE_def
  RIL_REQUEST_GET_MUTE_def RIL_REQUEST_QUERY_CLIP_def RIL_REQUEST_LAST_DATA_CALL_FAIL_CAUSE_def
  RIL_REQUEST_DATA_CALL_LIST_def RIL_REQUEST_RESET_RADIO_def RIL_REQUEST_OEM_HOOK_RAW_def
  RIL_REQUEST_OEM_HOOK_STRINGS_def RIL_REQUEST_SCREEN_STATE_def RIL_REQUEST_SET_SUPP_SVC_NOTIFICATION_def
  RIL_REQUEST_WRITE_SMS_TO_SIM_def RIL_REQUEST_DELETE_SMS_ON_SIM_def RIL_REQUEST_SET_BAND_MODE_def
  RIL_REQUEST_QUERY_AVAILABLE_BAND_MODE_def RIL_REQUEST_STK_GET_PROFILE_def RIL_REQUEST_STK_SET_PROFILE_def
  RIL_REQUEST_STK_SEND_ENVELOPE_COMMAND_def RIL_REQUEST_STK_SEND_TERMINAL_RESPONSE_def RIL_REQUEST_STK_HANDLE_CALL_SETUP_REQUESTED_FROM_SIM_def
  RIL_REQUEST_EXPLICIT_CALL_TRANSFER_def RIL_REQUEST_SET_PREFERRED_NETWORK_TYPE_def RIL_REQUEST_GET_PREFERRED_NETWORK_TYPE_def
  RIL_REQUEST_GET_NEIGHBORING_CELL_IDS_def RIL_REQUEST_SET_LOCATION_UPDATES_def RIL_REQUEST_CDMA_SET_SUBSCRIPTION_SOURCE_def
  RIL_REQUEST_CDMA_SET_ROAMING_PREFERENCE_def RIL_REQUEST_CDMA_QUERY_ROAMING_PREFERENCE_def RIL_REQUEST_SET_TTY_MODE_def
  RIL_REQUEST_QUERY_TTY_MODE_def RIL_REQUEST_CDMA_SET_PREFERRED_VOICE_PRIVACY_MODE_def RIL_REQUEST_CDMA_QUERY_PREFERRED_VOICE_PRIVACY_MODE_def
  RIL_REQUEST_CDMA_FLASH_def RIL_REQUEST_CDMA_BURST_DTMF_def RIL_REQUEST_CDMA_VALIDATE_AND_WRITE_AKEY_def
  RIL_REQUEST_CDMA_SEND_SMS_def RIL_REQUEST_CDMA_SMS_ACKNOWLEDGE_def RIL_REQUEST_GSM_GET_BROADCAST_SMS_CONFIG_def
  RIL_REQUEST_GSM_SET_BROADCAST_SMS_CONFIG_def RIL_REQUEST_GSM_SMS_BROADCAST_ACTIVATION_def RIL_REQUEST_CDMA_GET_BROADCAST_SMS_CONFIG_def
  RIL_REQUEST_CDMA_SET_BROADCAST_SMS_CONFIG_def RIL_REQUEST_CDMA_SMS_BROADCAST_ACTIVATION_def RIL_REQUEST_CDMA_SUBSCRIPTION_def
  RIL_REQUEST_CDMA_WRITE_SMS_TO_RUIM_def RIL_REQUEST_CDMA_DELETE_SMS_ON_RUIM_def RIL_REQUEST_DEVICE_IDENTITY_def
  RIL_REQUEST_EXIT_EMERGENCY_CALLBACK_MODE_def RIL_REQUEST_GET_SMSC_ADDRESS_def RIL_REQUEST_SET_SMSC_ADDRESS_def
  RIL_REQUEST_REPORT_SMS_MEMORY_STATUS_def RIL_REQUEST_REPORT_STK_SERVICE_IS_RUNNING_def RIL_REQUEST_CDMA_GET_SUBSCRIPTION_SOURCE_def
  RIL_REQUEST_ISIM_AUTHENTICATION_def RIL_REQUEST_ACKNOWLEDGE_INCOMING_GSM_SMS_WITH_PDU_def RIL_REQUEST_STK_SEND_ENVELOPE_WITH_STATUS_def
  RIL_REQUEST_VOICE_RADIO_TECH_def RIL_REQUEST_GET_CELL_INFO_LIST_def RIL_REQUEST_SET_UNSOL_CELL_INFO_LIST_RATE_def
  RIL_REQUEST_SET_INITIAL_ATTACH_APN_def RIL_REQUEST_IMS_REGISTRATION_STATE_def RIL_REQUEST_IMS_SEND_SMS_def
  RIL_REQUEST_SIM_TRANSMIT_APDU_BASIC_def RIL_REQUEST_SIM_OPEN_CHANNEL_def RIL_REQUEST_SIM_CLOSE_CHANNEL_def
  RIL_REQUEST_SIM_TRANSMIT_APDU_CHANNEL_def RIL_REQUEST_NV_READ_ITEM_def RIL_REQUEST_NV_WRITE_ITEM_def
  RIL_REQUEST_NV_WRITE_CDMA_PRL_def RIL_REQUEST_NV_RESET_CONFIG_def RIL_REQUEST_SET_UICC_SUBSCRIPTION_def
  RIL_REQUEST_ALLOW_DATA_def RIL_REQUEST_GET_HARDWARE_CONFIG_def RIL_REQUEST_SIM_AUTHENTICATION_def
  RIL_REQUEST_GET_DC_RT_INFO_def RIL_REQUEST_SET_DC_RT_INFO_RATE_def RIL_REQUEST_SET_DATA_PROFILE_def
  RIL_REQUEST_SHUTDOWN_def RIL_REQUEST_GET_RADIO_CAPABILITY_def RIL_REQUEST_SET_RADIO_CAPABILITY_def
  RIL_REQUEST_START_LCE_def RIL_REQUEST_STOP_LCE_def RIL_REQUEST_PULL_LCEDATA_def
  RIL_REQUEST_GET_ACTIVITY_INFO_def RIL_REQUEST_SET_CARRIER_RESTRICTIONS_def RIL_REQUEST_GET_CARRIER_RESTRICTIONS_def
  RIL_REQUEST_SEND_DEVICE_STATE_def RIL_REQUEST_SET_UNSOLICITED_RESPONSE_FILTER_def RIL_REQUEST_SET_SIM_CARD_POWER_def
  RIL_REQUEST_SET_CARRIER_INFO_IMSI_ENCRYPTION_def RIL_REQUEST_START_NETWORK_SCAN_def RIL_REQUEST_STOP_NETWORK_SCAN_def
  RIL_REQUEST_START_KEEPALIVE_def RIL_REQUEST_STOP_KEEPALIVE_def

lemmas unsol_consts =
  RIL_RESPONSE_ACKNOWLEDGEMENT_def RIL_UNSOL_RESPONSE_BASE_def RIL_UNSOL_RESPONSE_RADIO_STATE_CHANGED_def
  RIL_UNSOL_RESPONSE_CALL_STATE_CHANGED_def RIL_UNSOL_RESPONSE_VOICE_NETWORK_STATE_CHANGED_def RIL_UNSOL_RESPONSE_NEW_SMS_def
  RIL_UNSOL_RESPONSE_NEW_SMS_STATUS_REPORT_def RIL_UNSOL_RESPONSE_NEW_SMS_ON_SIM_def RIL_UNSOL_ON_USSD_def
  RIL_UNSOL_ON_USSD_REQUEST_def RIL_UNSOL_NITZ_TIME_RECEIVED_def RIL_UNSOL_SIGNAL_STRENGTH_def
  RIL_UNSOL_DATA_CALL_LIST_CHANGED_def RIL_UNSOL_SUPP_SVC_NOTIFICATION_def RIL_UNSOL_STK_SESSION_END_def
  RIL_UNSOL_STK_PROACTIVE_COMMAND_def RIL_UNSOL_STK_EVENT_NOTIFY_def RIL_UNSOL_STK_CALL_SETUP_def
  RIL_UNSOL_SIM_SMS_STORAGE_FULL_def RIL_UNSOL_SIM_REFRESH_def RIL_UNSOL_CALL_RING_def
  RIL_UNSOL_RESPONSE_SIM_STATUS_CHANGED_def RIL_UNSOL_RESPONSE_CDMA_NEW_SMS_def RIL_UNSOL_RESPONSE_NEW_BROADCAST_SMS_def
  RIL_UNSOL_CDMA_RUIM_SMS_STORAGE_FULL_def RIL_UNSOL_RESTRICTED_STATE_CHANGED_def RIL_UNSOL_ENTER_EMERGENCY_CALLBACK_MODE_def
  RIL_UNSOL_CDMA_CALL_WAITING_def RIL_UNSOL_CDMA_OTA_PROVISION_STATUS_def RIL_UNSOL_CDMA_INFO_REC_def
  RIL_UNSOL_OEM_HOOK_RAW_def RIL_UNSOL_RINGBACK_TONE_def RIL_UNSOL_RESEND_INCALL_MUTE_def
  RIL_UNSOL_CDMA_SUBSCRIPTION_SOURCE_CHANGED_def RIL_UNSOL_CDMA_PRL_CHANGED_def RIL_UNSOL_EXIT_EMERGENCY_CALLBACK_MODE_def
  RIL_UNSOL_RIL_CONNECTED_def RIL_UNSOL_VOICE_RADIO_TECH_CHANGED_def RIL_UNSOL_CELL_INFO_LIST_def
  RIL_UNSOL_RESPONSE_IMS_NETWORK_STATE_CHANGED_def RIL_UNSOL_UICC_SUBSCRIPTION_STATUS_CHANGED_def RIL_UNSOL_SRVCC_STATE_NOTIFY_def
  RIL_UNSOL_HARDWARE_CONFIG_CHANGED_def RIL_UNSOL_DC_RT_INFO_CHANGED_def RIL_UNSOL_RADIO_CAPABILITY_def
  RIL_UNSOL_ON_SS_def RIL_UNSOL_STK_CC_ALPHA_NOTIFY_def RIL_UNSOL_LCEDATA_RECV_def
  RIL_UNSOL_PCO_DATA_def RIL_UNSOL_MODEM_RESTART_def RIL_UNSOL_CARRIER_INFO_IMSI_ENCRYPTION_def
  RIL_UNSOL_NETWORK_SCAN_RESULT_def RIL_UNSOL_KEEPALIVE_STATUS_def

lemmas errno_consts =
  RIL_E_SUCCESS_def RIL_E_RADIO_NOT_AVAILABLE_def RIL_E_GENERIC_FAILURE_def
  RIL_E_PASSWORD_INCORRECT_def RIL_E_SIM_PIN2_def RIL_E_SIM_PUK2_def
  RIL_E_REQUEST_NOT_SUPPORTED_def RIL_E_CANCELLED_def RIL_E_OP_NOT_ALLOWED_DURING_VOICE_CALL_def
  RIL_E_OP_NOT_ALLOWED_BEFORE_REG_TO_NW_def RIL_E_SMS_SEND_FAIL_RETRY_def RIL_E_SIM_ABSENT_def
  RIL_E_SUBSCRIPTION_NOT_AVAILABLE_def RIL_E_MODE_NOT_SUPPORTED_def RIL_E_FDN_CHECK_FAILURE_def
  RIL_E_ILLEGAL_SIM_OR_ME_def RIL_E_MISSING_RESOURCE_def RIL_E_NO_SUCH_ELEMENT_def
  RIL_E_DIAL_MODIFIED_TO_USSD_def RIL_E_DIAL_MODIFIED_TO_SS_def RIL_E_DIAL_MODIFIED_TO_DIAL_def
  RIL_E_USSD_MODIFIED_TO_DIAL_def RIL_E_USSD_MODIFIED_TO_SS_def RIL_E_USSD_MODIFIED_TO_USSD_def
  RIL_E_SS_MODIFIED_TO_DIAL_def RIL_E_SS_MODIFIED_TO_USSD_def RIL_E_SUBSCRIPTION_NOT_SUPPORTED_def
  RIL_E_SS_MODIFIED_TO_SS_def RIL_E_LCE_NOT_SUPPORTED_def RIL_E_NO_MEMORY_def
  RIL_E_INTERNAL_ERR_def RIL_E_SYSTEM_ERR_def RIL_E_MODEM_ERR_def
  RIL_E_INVALID_STATE_def RIL_E_NO_RESOURCES_def RIL_E_SIM_ERR_def
  RIL_E_INVALID_ARGUMENTS_def RIL_E_INVALID_SIM_STATE_def RIL_E_INVALID_MODEM_STATE_def
  RIL_E_INVALID_CALL_ID_def RIL_E_NO_SMS_TO_ACK_def RIL_E_NETWORK_ERR_def
  RIL_E_REQUEST_RATE_LIMITED_def RIL_E_SIM_BUSY_def RIL_E_SIM_FULL_def
  RIL_E_NETWORK_REJECT_def RIL_E_OPERATION_NOT_ALLOWED_def RIL_E_EMPTY_RECORD_def
  RIL_E_INVALID_SMS_FORMAT_def RIL_E_ENCODING_ERR_def RIL_E_INVALID_SMSC_ADDRESS_def
  RIL_E_NO_SUCH_ENTRY_def RIL_E_NETWORK_NOT_READY_def RIL_E_NOT_PROVISIONED_def
  RIL_E_NO_SUBSCRIPTION_def RIL_E_NO_NETWORK_FOUND_def RIL_E_DEVICE_IN_USE_def
  RIL_E_ABORTED_def RIL_E_INVALID_RESPONSE_def RIL_E_OEM_ERROR_1_def
  RIL_E_OEM_ERROR_2_def RIL_E_OEM_ERROR_3_def RIL_E_OEM_ERROR_4_def
  RIL_E_OEM_ERROR_5_def RIL_E_OEM_ERROR_6_def RIL_E_OEM_ERROR_7_def
  RIL_E_OEM_ERROR_8_def RIL_E_OEM_ERROR_9_def RIL_E_OEM_ERROR_10_def
  RIL_E_OEM_ERROR_11_def RIL_E_OEM_ERROR_12_def RIL_E_OEM_ERROR_13_def
  RIL_E_OEM_ERROR_14_def RIL_E_OEM_ERROR_15_def RIL_E_OEM_ERROR_16_def
  RIL_E_OEM_ERROR_17_def RIL_E_OEM_ERROR_18_def RIL_E_OEM_ERROR_19_def
  RIL_E_OEM_ERROR_20_def RIL_E_OEM_ERROR_21_def RIL_E_OEM_ERROR_22_def
  RIL_E_OEM_ERROR_23_def RIL_E_OEM_ERROR_24_def RIL_E_OEM_ERROR_25_def

lemmas state_consts =
  RIL_CALL_ACTIVE_def RIL_CALL_HOLDING_def RIL_CALL_DIALING_def
  RIL_CALL_ALERTING_def RIL_CALL_INCOMING_def RIL_CALL_WAITING_def
  RADIO_STATE_OFF_def RADIO_STATE_UNAVAILABLE_def RADIO_STATE_ON_def
  RIL_VERSION_def LAST_IMPRECISE_RIL_VERSION_def RIL_VERSION_MIN_def

section \<open>Dispatch tables\<close>

text \<open>
  \<open>struct CommandInfo\<close> and \<open>UnsolResponseInfo\<close>. A response function is named by its C++
  symbol (all of them are in the namespace \<open>radio\<close>), \<open>None\<close> is NULL.
\<close>

record command_info =
  requestNumber :: int
  responseFunction :: "string option"

datatype wake_type = DONT_WAKE | WAKE_PARTIAL

record unsol_response_info =
  u_requestNumber :: int
  u_responseFunction :: "string option"
  wakeType :: wake_type

definition cmd :: "int \<Rightarrow> string option \<Rightarrow> command_info" where
  "cmd n f = \<lparr>requestNumber = n, responseFunction = f\<rparr>"

definition unsol :: "int \<Rightarrow> string option \<Rightarrow> wake_type \<Rightarrow> unsol_response_info" where
  "unsol n f w = \<lparr>u_requestNumber = n, u_responseFunction = f, wakeType = w\<rparr>"

definition s_commands :: "command_info list" where
  "s_commands =
   [cmd 0 None,
    cmd RIL_REQUEST_GET_SIM_STATUS (Some ''getIccCardStatusResponse''),
    cmd RIL_REQUEST_ENTER_SIM_PIN (Some ''supplyIccPinForAppResponse''),
    cmd RIL_REQUEST_ENTER_SIM_PUK (Some ''supplyIccPukForAppResponse''),
    cmd RIL_REQUEST_ENTER_SIM_PIN2 (Some ''supplyIccPin2ForAppResponse''),
    cmd RIL_REQUEST_ENTER_SIM_PUK2 (Some ''supplyIccPuk2ForAppResponse''),
    cmd RIL_REQUEST_CHANGE_SIM_PIN (Some ''changeIccPinForAppResponse''),
    cmd RIL_REQUEST_CHANGE_SIM_PIN2 (Some ''changeIccPin2ForAppResponse''),
    cmd RIL_REQUEST_ENTER_NETWORK_DEPERSONALIZATION (Some ''supplyNetworkDepersonalizationResponse''),
    cmd RIL_REQUEST_GET_CURRENT_CALLS (Some ''getCurrentCallsResponse''),
    cmd RIL_REQUEST_DIAL (Some ''dialResponse''),
    cmd RIL_REQUEST_GET_IMSI (Some ''getIMSIForAppResponse''),
    cmd RIL_REQUEST_HANGUP (Some ''hangupConnectionResponse''),
    cmd RIL_REQUEST_HANGUP_WAITING_OR_BACKGROUND (Some ''hangupWaitingOrBackgroundResponse''),
    cmd RIL_REQUEST_HANGUP_FOREGROUND_RESUME_BACKGROUND (Some ''hangupForegroundResumeBackgroundResponse''),
    cmd RIL_REQUEST_SWITCH_WAITING_OR_HOLDING_AND_ACTIVE (Some ''switchWaitingOrHoldingAndActiveResponse''),
    cmd RIL_REQUEST_CONFERENCE (Some ''conferenceResponse''),
    cmd RIL_REQUEST_UDUB (Some ''rejectCallResponse''),
    cmd RIL_REQUEST_LAST_CALL_FAIL_CAUSE (Some ''getLastCallFailCauseResponse''),
    cmd RIL_REQUEST_SIGNAL_STRENGTH (Some ''getSignalStrengthResponse''),
    cmd RIL_REQUEST_VOICE_REGISTRATION_STATE (Some ''getVoiceRegistrationStateResponse''),
    cmd RIL_REQUEST_DATA_REGISTRATION_STATE (Some ''getDataRegistrationStateResponse''),
    cmd RIL_REQUEST_OPERATOR (Some ''getOperatorResponse''),
    cmd RIL_REQUEST_RADIO_POWER (Some ''setRadioPowerResponse''),
    cmd RIL_REQUEST_DTMF (Some ''sendDtmfResponse''),
    cmd RIL_REQUEST_SEND_SMS (Some ''sendSmsResponse''),
    cmd RIL_REQUEST_SEND_SMS_EXPECT_MORE (Some ''sendSMSExpectMoreResponse''),
    cmd RIL_REQUEST_SETUP_DATA_CALL (Some ''setupDataCallResponse''),
    cmd RIL_REQUEST_SIM_IO (Some ''iccIOForAppResponse''),
    cmd RIL_REQUEST_SEND_USSD (Some ''sendUssdResponse''),
    cmd RIL_REQUEST_CANCEL_USSD (Some ''cancelPendingUssdResponse''),
    cmd RIL_REQUEST_GET_CLIR (Some ''getClirResponse''),
    cmd RIL_REQUEST_SET_CLIR (Some ''setClirResponse''),
    cmd RIL_REQUEST_QUERY_CALL_FORWARD_STATUS (Some ''getCallForwardStatusResponse''),
    cmd RIL_REQUEST_SET_CALL_FORWARD (Some ''setCallForwardResponse''),
    cmd RIL_REQUEST_QUERY_CALL_WAITING (Some ''getCallWaitingResponse''),
    cmd RIL_REQUEST_SET_CALL_WAITING (Some ''setCallWaitingResponse''),
    cmd RIL_REQUEST_SMS_ACKNOWLEDGE (Some ''acknowledgeLastIncomingGsmSmsResponse''),
    cmd RIL_REQUEST_GET_IMEI None,
    cmd RIL_REQUEST_GET_IMEISV None,
    cmd RIL_REQUEST_ANSWER (Some ''acceptCallResponse''),
    cmd RIL_REQUEST_DEACTIVATE_DATA_CALL (Some ''deactivateDataCallResponse''),
    cmd RIL_REQUEST_QUERY_FACILITY_LOCK (Some ''getFacilityLockForAppResponse''),
    cmd RIL_REQUEST_SET_FACILITY_LOCK (Some ''setFacilityLockForAppResponse''),
    cmd RIL_REQUEST_CHANGE_BARRING_PASSWORD (Some ''setBarringPasswordResponse''),
    cmd RIL_REQUEST_QUERY_NETWORK_SELECTION_MODE (Some ''getNetworkSelectionModeResponse''),
    cmd RIL_REQUEST_SET_NETWORK_SELECTION_AUTOMATIC (Some ''setNetworkSelectionModeAutomaticResponse''),
    cmd RIL_REQUEST_SET_NETWORK_SELECTION_MANUAL (Some ''setNetworkSelectionModeManualResponse''),
    cmd RIL_REQUEST_QUERY_AVAILABLE_NETWORKS (Some ''getAvailableNetworksResponse''),
    cmd RIL_REQUEST_DTMF_START (Some ''startDtmfResponse''),
    cmd RIL_REQUEST_DTMF_STOP (Some ''stopDtmfResponse''),
    cmd RIL_REQUEST_BASEBAND_VERSION (Some ''getBasebandVersionResponse''),
    cmd RIL_REQUEST_SEPARATE_CONNECTION (Some ''separateConnectionResponse''),
    cmd RIL_REQUEST_SET_MUTE (Some ''setMuteResponse''),
    cmd RIL_REQUEST_GET_MUTE (Some ''getMuteResponse''),
    cmd RIL_REQUEST_QUERY_CLIP (Some ''getClipResponse''),
    cmd RIL_REQUEST_LAST_DATA_CALL_FAIL_CAUSE None,
    cmd RIL_REQUEST_DATA_CALL_LIST (Some ''getDataCallListResponse''),
    cmd RIL_REQUEST_RESET_RADIO None,
    cmd RIL_REQUEST_OEM_HOOK_RAW (Some ''sendRequestRawResponse''),
    cmd RIL_REQUEST_OEM_HOOK_STRINGS (Some ''sendRequestStringsResponse''),
    cmd RIL_REQUEST_SCREEN_STATE (Some ''sendDeviceStateResponse''),
    cmd RIL_REQUEST_SET_SUPP_SVC_NOTIFICATION (Some ''setSuppServiceNotificationsResponse''),
    cmd RIL_REQUEST_WRITE_SMS_TO_SIM (Some ''writeSmsToSimResponse''),
    cmd RIL_REQUEST_DELETE_SMS_ON_SIM (Some ''deleteSmsOnSimResponse''),
    cmd RIL_REQUEST_SET_BAND_MODE (Some ''setBandModeResponse''),
    cmd RIL_REQUEST_QUERY_AVAILABLE_BAND_MODE (Some ''getAvailableBandModesResponse''),
    cmd RIL_REQUEST_STK_GET_PROFILE None,
    cmd RIL_REQUEST_STK_SET_PROFILE None,
    cmd RIL_REQUEST_STK_SEND_ENVELOPE_COMMAND (Some ''sendEnvelopeResponse''),
    cmd RIL_REQUEST_STK_SEND_TERMINAL_RESPONSE (Some ''sendTerminalResponseToSimResponse''),
    cmd RIL_REQUEST_STK_HANDLE_CALL_SETUP_REQUESTED_FROM_SIM (Some ''handleStkCallSetupRequestFromSimResponse''),
    cmd RIL_REQUEST_EXPLICIT_CALL_TRANSFER (Some ''explicitCallTransferResponse''),
    cmd RIL_REQUEST_SET_PREFERRED_NETWORK_TYPE (Some ''setPreferredNetworkTypeResponse''),
    cmd RIL_REQUEST_GET_PREFERRED_NETWORK_TYPE (Some ''getPreferredNetworkTypeResponse''),
    cmd RIL_REQUEST_GET_NEIGHBORING_CELL_IDS (Some ''getNeighboringCidsResponse''),
    cmd RIL_REQUEST_SET_LOCATION_UPDATES (Some ''setLocationUpdatesResponse''),
    cmd RIL_REQUEST_CDMA_SET_SUBSCRIPTION_SOURCE (Some ''setCdmaSubscriptionSourceResponse''),
    cmd RIL_REQUEST_CDMA_SET_ROAMING_PREFERENCE (Some ''setCdmaRoamingPreferenceResponse''),
    cmd RIL_REQUEST_CDMA_QUERY_ROAMING_PREFERENCE (Some ''getCdmaRoamingPreferenceResponse''),
    cmd RIL_REQUEST_SET_TTY_MODE (Some ''setTTYModeResponse''),
    cmd RIL_REQUEST_QUERY_TTY_MODE (Some ''getTTYModeResponse''),
    cmd RIL_REQUEST_CDMA_SET_PREFERRED_VOICE_PRIVACY_MODE (Some ''setPreferredVoicePrivacyResponse''),
    cmd RIL_REQUEST_CDMA_QUERY_PREFERRED_VOICE_PRIVACY_MODE (Some ''getPreferredVoicePrivacyResponse''),
    cmd RIL_REQUEST_CDMA_FLASH (Some ''sendCDMAFeatureCodeResponse''),
    cmd RIL_REQUEST_CDMA_BURST_DTMF (Some ''sendBurstDtmfResponse''),
    cmd RIL_REQUEST_CDMA_VALIDATE_AND_WRITE_AKEY None,
    cmd RIL_REQUEST_CDMA_SEND_SMS (Some ''sendCdmaSmsResponse''),
    cmd RIL_REQUEST_CDMA_SMS_ACKNOWLEDGE (Some ''acknowledgeLastIncomingCdmaSmsResponse''),
    cmd RIL_REQUEST_GSM_GET_BROADCAST_SMS_CONFIG (Some ''getGsmBroadcastConfigResponse''),
    cmd RIL_REQUEST_GSM_SET_BROADCAST_SMS_CONFIG (Some ''setGsmBroadcastConfigResponse''),
    cmd RIL_REQUEST_GSM_SMS_BROADCAST_ACTIVATION (Some ''setGsmBroadcastActivationResponse''),
    cmd RIL_REQUEST_CDMA_GET_BROADCAST_SMS_CONFIG (Some ''getCdmaBroadcastConfigResponse''),
    cmd RIL_REQUEST_CDMA_SET_BROADCAST_SMS_CONFIG (Some ''setCdmaBroadcastConfigResponse''),
    cmd RIL_REQUEST_CDMA_SMS_BROADCAST_ACTIVATION (Some ''setCdmaBroadcastActivationResponse''),
    cmd RIL_REQUEST_CDMA_SUBSCRIPTION (Some ''getCDMASubscriptionResponse''),
    cmd RIL_REQUEST_CDMA_WRITE_SMS_TO_RUIM (Some ''writeSmsToRuimResponse''),
    cmd RIL_REQUEST_CDMA_DELETE_SMS_ON_RUIM (Some ''deleteSmsOnRuimResponse''),
    cmd RIL_REQUEST_DEVICE_IDENTITY (Some ''getDeviceIdentityResponse''),
    cmd RIL_REQUEST_EXIT_EMERGENCY_CALLBACK_MODE (Some ''exitEmergencyCallbackModeResponse''),
    cmd RIL_REQUEST_GET_SMSC_ADDRESS (Some ''getSmscAddressResponse''),
    cmd RIL_REQUEST_SET_SMSC_ADDRESS (Some ''setSmscAddressResponse''),
    cmd RIL_REQUEST_REPORT_SMS_MEMORY_STATUS (Some ''reportSmsMemoryStatusResponse''),
    cmd RIL_REQUEST_REPORT_STK_SERVICE_IS_RUNNING (Some ''reportStkServiceIsRunningResponse''),
    cmd RIL_REQUEST_CDMA_GET_SUBSCRIPTION_SOURCE (Some ''getCdmaSubscriptionSourceResponse''),
    cmd RIL_REQUEST_ISIM_AUTHENTICATION (Some ''requestIsimAuthenticationResponse''),
    cmd RIL_REQUEST_ACKNOWLEDGE_INCOMING_GSM_SMS_WITH_PDU (Some ''acknowledgeIncomingGsmSmsWithPduResponse''),
    cmd RIL_REQUEST_STK_SEND_ENVELOPE_WITH_STATUS (Some ''sendEnvelopeWithStatusResponse''),
    cmd RIL_REQUEST_VOICE_RADIO_TECH (Some ''getVoiceRadioTechnologyResponse''),
    cmd RIL_REQUEST_GET_CELL_INFO_LIST (Some ''getCellInfoListResponse''),
    cmd RIL_REQUEST_SET_UNSOL_CELL_INFO_LIST_RATE (Some ''setCellInfoListRateResponse''),
    cmd RIL_REQUEST_SET_INITIAL_ATTACH_APN (Some ''setInitialAttachApnResponse''),
    cmd RIL_REQUEST_IMS_REGISTRATION_STATE (Some ''getImsRegistrationStateResponse''),
    cmd RIL_REQUEST_IMS_SEND_SMS (Some ''sendImsSmsResponse''),
    cmd RIL_REQUEST_SIM_TRANSMIT_APDU_BASIC (Some ''iccTransmitApduBasicChannelResponse''),
    cmd RIL_REQUEST_SIM_OPEN_CHANNEL (Some ''iccOpenLogicalChannelResponse''),
    cmd RIL_REQUEST_SIM_CLOSE_CHANNEL (Some ''iccCloseLogicalChannelResponse''),
    cmd RIL_REQUEST_SIM_TRANSMIT_APDU_CHANNEL (Some ''iccTransmitApduLogicalChannelResponse''),
    cmd RIL_REQUEST_NV_READ_ITEM (Some ''nvReadItemResponse''),
    cmd RIL_REQUEST_NV_WRITE_ITEM (Some ''nvWriteItemResponse''),
    cmd RIL_REQUEST_NV_WRITE_CDMA_PRL (Some ''nvWriteCdmaPrlResponse''),
    cmd RIL_REQUEST_NV_RESET_CONFIG (Some ''nvResetConfigResponse''),
    cmd RIL_REQUEST_SET_UICC_SUBSCRIPTION (Some ''setUiccSubscriptionResponse''),
    cmd RIL_REQUEST_ALLOW_DATA (Some ''setDataAllowedResponse''),
    cmd RIL_REQUEST_GET_HARDWARE_CONFIG (Some ''getHardwareConfigResponse''),
    cmd RIL_REQUEST_SIM_AUTHENTICATION (Some ''requestIccSimAuthenticationResponse''),
    cmd RIL_REQUEST_GET_DC_RT_INFO None,
    cmd RIL_REQUEST_SET_DC_RT_INFO_RATE None,
    cmd RIL_REQUEST_SET_DATA_PROFILE (Some ''setDataProfileResponse''),
    cmd RIL_REQUEST_SHUTDOWN (Some ''requestShutdownResponse''),
    cmd RIL_REQUEST_GET_RADIO_CAPABILITY (Some ''getRadioCapabilityResponse''),
    cmd RIL_REQUEST_SET_RADIO_CAPABILITY (Some ''setRadioCapabilityResponse''),
    cmd RIL_REQUEST_START_LCE (Some ''startLceServiceResponse''),
    cmd RIL_REQUEST_STOP_LCE (Some ''stopLceServiceResponse''),
    cmd RIL_REQUEST_PULL_LCEDATA (Some ''pullLceDataResponse''),
    cmd RIL_REQUEST_GET_ACTIVITY_INFO (Some ''getModemActivityInfoResponse''),
    cmd RIL_REQUEST_SET_CARRIER_RESTRICTIONS (Some ''setAllowedCarriersResponse''),
    cmd RIL_REQUEST_GET_CARRIER_RESTRICTIONS (Some ''getAllowedCarriersResponse''),
    cmd RIL_REQUEST_SEND_DEVICE_STATE (Some ''sendDeviceStateResponse''),
    cmd RIL_REQUEST_SET_UNSOLICITED_RESPONSE_FILTER (Some ''setIndicationFilterResponse''),
    cmd RIL_REQUEST_SET_SIM_CARD_POWER (Some ''setSimCardPowerResponse''),
    cmd RIL_REQUEST_SET_CARRIER_INFO_IMSI_ENCRYPTION (Some ''setCarrierInfoForImsiEncryptionResponse''),
    cmd RIL_REQUEST_START_NETWORK_SCAN (Some ''startNetworkScanResponse''),
    cmd RIL_REQUEST_STOP_NETWORK_SCAN (Some ''stopNetworkScanResponse''),
    cmd RIL_REQUEST_START_KEEPALIVE (Some ''startKeepaliveResponse''),
    cmd RIL_REQUEST_STOP_KEEPALIVE (Some ''stopKeepaliveResponse'')]"

definition s_unsolResponses :: "unsol_response_info list" where
  "s_unsolResponses =
   [unsol RIL_UNSOL_RESPONSE_RADIO_STATE_CHANGED (Some ''radioStateChangedInd'') WAKE_PARTIAL,
    unsol RIL_UNSOL_RESPONSE_CALL_STATE_CHANGED (Some ''callStateChangedInd'') WAKE_PARTIAL,
    unsol RIL_UNSOL_RESPONSE_VOICE_NETWORK_STATE_CHANGED (Some ''networkStateChangedInd'') WAKE_PARTIAL,
    unsol RIL_UNSOL_RESPONSE_NEW_SMS (Some ''newSmsInd'') WAKE_PARTIAL,
    unsol RIL_UNSOL_RESPONSE_NEW_SMS_STATUS_REPORT (Some ''newSmsStatusReportInd'') WAKE_PARTIAL,
    unsol RIL_UNSOL_RESPONSE_NEW_SMS_ON_SIM (Some ''newSmsOnSimInd'') WAKE_PARTIAL,
    unsol RIL_UNSOL_ON_USSD (Some ''onUssdInd'') WAKE_PARTIAL,
    unsol RIL_UNSOL_ON_USSD_REQUEST (Some ''onUssdInd'') DONT_WAKE,
    unsol RIL_UNSOL_NITZ_TIME_RECEIVED (Some ''nitzTimeReceivedInd'') WAKE_PARTIAL,
    unsol RIL_UNSOL_SIGNAL_STRENGTH (Some ''currentSignalStrengthInd'') DONT_WAKE,
    unsol RIL_UNSOL_DATA_CALL_LIST_CHANGED (Some ''dataCallListChangedInd'') WAKE_PARTIAL,
    unsol RIL_UNSOL_SUPP_SVC_NOTIFICATION (Some ''suppSvcNotifyInd'') WAKE_PARTIAL,
    unsol RIL_UNSOL_STK_SESSION_END (Some ''stkSessionEndInd'') WAKE_PARTIAL,
    unsol RIL_UNSOL_STK_PROACTIVE_COMMAND (Some ''stkProactiveCommandInd'') WAKE_PARTIAL,
    unsol RIL_UNSOL_STK_EVENT_NOTIFY (Some ''stkEventNotifyInd'') WAKE_PARTIAL,
    unsol RIL_UNSOL_STK_CALL_SETUP (Some ''stkCallSetupInd'') WAKE_PARTIAL,
    unsol RIL_UNSOL_SIM_SMS_STORAGE_FULL (Some ''simSmsStorageFullInd'') WAKE_PARTIAL,
    unsol RIL_UNSOL_SIM_REFRESH (Some ''simRefreshInd'') WAKE_PARTIAL,
    unsol RIL_UNSOL_CALL_RING (Some ''callRingInd'') WAKE_PARTIAL,
    unsol RIL_UNSOL_RESPONSE_SIM_STATUS_CHANGED (Some ''simStatusChangedInd'') WAKE_PARTIAL,
    unsol RIL_UNSOL_RESPONSE_CDMA_NEW_SMS (Some ''cdmaNewSmsInd'') WAKE_PARTIAL,
    unsol RIL_UNSOL_RESPONSE_NEW_BROADCAST_SMS (Some ''newBroadcastSmsInd'') WAKE_PARTIAL,
    unsol RIL_UNSOL_CDMA_RUIM_SMS_STORAGE_FULL (Some ''cdmaRuimSmsStorageFullInd'') WAKE_PARTIAL,
    unsol RIL_UNSOL_RESTRICTED_STATE_CHANGED (Some ''restrictedStateChangedInd'') WAKE_PARTIAL,
    unsol RIL_UNSOL_ENTER_EMERGENCY_CALLBACK_MODE (Some ''enterEmergencyCallbackModeInd'') WAKE_PARTIAL,
    unsol RIL_UNSOL_CDMA_CALL_WAITING (Some ''cdmaCallWaitingInd'') WAKE_PARTIAL,
    unsol RIL_UNSOL_CDMA_OTA_PROVISION_STATUS (Some ''cdmaOtaProvisionStatusInd'') WAKE_PARTIAL,
    unsol RIL_UNSOL_CDMA_INFO_REC (Some ''cdmaInfoRecInd'') WAKE_PARTIAL,
    unsol RIL_UNSOL_OEM_HOOK_RAW (Some ''oemHookRawInd'') WAKE_PARTIAL,
    unsol RIL_UNSOL_RINGBACK_TONE (Some ''indicateRingbackToneInd'') WAKE_PARTIAL,
    unsol RIL_UNSOL_RESEND_INCALL_MUTE (Some ''resendIncallMuteInd'') WAKE_PARTIAL,
    unsol RIL_UNSOL_CDMA_SUBSCRIPTION_SOURCE_CHANGED (Some ''cdmaSubscriptionSourceChangedInd'') WAKE_PARTIAL,
    unsol RIL_UNSOL_CDMA_PRL_CHANGED (Some ''cdmaPrlChangedInd'') WAKE_PARTIAL,
    unsol RIL_UNSOL_EXIT_EMERGENCY_CALLBACK_MODE (Some ''exitEmergencyCallbackModeInd'') WAKE_PARTIAL,
    unsol RIL_UNSOL_RIL_CONNECTED (Some ''rilConnectedInd'') WAKE_PARTIAL,
    unsol RIL_UNSOL_VOICE_RADIO_TECH_CHANGED (Some ''voiceRadioTechChangedInd'') WAKE_PARTIAL,
    unsol RIL_UNSOL_CELL_INFO_LIST (Some ''cellInfoListInd'') WAKE_PARTIAL,
    unsol RIL_UNSOL_RESPONSE_IMS_NETWORK_STATE_CHANGED (Some ''imsNetworkStateChangedInd'') WAKE_PARTIAL,
    unsol RIL_UNSOL_UICC_SUBSCRIPTION_STATUS_CHANGED (Some ''subscriptionStatusChangedInd'') WAKE_PARTIAL,
    unsol RIL_UNSOL_SRVCC_STATE_NOTIFY (Some ''srvccStateNotifyInd'') WAKE_PARTIAL,
    unsol RIL_UNSOL_HARDWARE_CONFIG_CHANGED (Some ''hardwareConfigChangedInd'') WAKE_PARTIAL,
    unsol RIL_UNSOL_DC_RT_INFO_CHANGED None WAKE_PARTIAL,
    unsol RIL_UNSOL_RADIO_CAPABILITY (Some ''radioCapabilityIndicationInd'') WAKE_PARTIAL,
    unsol RIL_UNSOL_ON_SS (Some ''onSupplementaryServiceIndicationInd'') WAKE_PARTIAL,
    unsol RIL_UNSOL_STK_CC_ALPHA_NOTIFY (Some ''stkCallControlAlphaNotifyInd'') WAKE_PARTIAL,
    unsol RIL_UNSOL_LCEDATA_RECV (Some ''lceDataInd'') WAKE_PARTIAL,
    unsol RIL_UNSOL_PCO_DATA (Some ''pcoDataInd'') WAKE_PARTIAL,
    unsol RIL_UNSOL_MODEM_RESTART (Some ''modemResetInd'') WAKE_PARTIAL,
    unsol RIL_UNSOL_CARRIER_INFO_IMSI_ENCRYPTION (Some ''carrierInfoForImsiEncryption'') WAKE_PARTIAL,
    unsol RIL_UNSOL_NETWORK_SCAN_RESULT (Some ''networkScanResultInd'') WAKE_PARTIAL,
    unsol RIL_UNSOL_KEEPALIVE_STATUS (Some ''keepaliveStatusInd'') WAKE_PARTIAL]"

section \<open>Well-formed tables\<close>

lemma requestNumbers: "map requestNumber s_commands = map int [0..<146]"
  by code_simp

lemma length_s_commands: "length s_commands = 146"
  using arg_cong [OF requestNumbers, of length] by simp

lemma requestNumber_nth: "i < length s_commands \<Longrightarrow> requestNumber (s_commands ! i) = int i"
  using arg_cong [OF requestNumbers, of "\<lambda>xs. xs ! i"] by (simp add: length_s_commands)

lemma unsolNumbers: "map u_requestNumber s_unsolResponses = map (\<lambda>i. 1000 + int i) [0..<51]"
  by code_simp

lemma length_s_unsolResponses: "length s_unsolResponses = 51"
  using arg_cong [OF unsolNumbers, of length] by simp

lemma unsolNumber_nth:
  "i < length s_unsolResponses \<Longrightarrow> u_requestNumber (s_unsolResponses ! i) = 1000 + int i"
  using arg_cong [OF unsolNumbers, of "\<lambda>xs. xs ! i"] by (simp add: length_s_unsolResponses)

lemma null_responders:
  "filter (\<lambda>c. responseFunction c = None) s_commands =
     map (\<lambda>i. s_commands ! i) [0, 38, 39, 56, 58, 67, 68, 86, 126, 127]"
  by code_simp

lemma null_unsol_responders:
  "filter (\<lambda>u. u_responseFunction u = None) s_unsolResponses = [s_unsolResponses ! 41]"
  by code_simp

lemma null_unsol_row:
  assumes "i < length s_unsolResponses"
  shows "(u_responseFunction (s_unsolResponses ! i) = None) = (i = 41)"
proof -
  have "map (\<lambda>u. u_responseFunction u = None) s_unsolResponses = map (\<lambda>i. i = 41) [0..<51]"
    by code_simp
  from arg_cong [OF this, of "\<lambda>xs. xs ! i"] show ?thesis
    using assms by (simp add: length_s_unsolResponses)
qed

end
