(* ===== verification/RilNames.thy ===== *)
theory RilNames
  imports RilTables
begin

text \<open>
  The functions of \<open>libril/ril.cpp\<close> that name codes for the log: error codes, radio and call
  states, requests and unsolicited responses. The lemmas compare the names with the dispatch
  tables of \<open>RilTables\<close>.
\<close>

section \<open>Names for the log\<close>

text \<open>The labels of a C switch are distinct, so its first match is its only match.\<close>

text \<open>\<open>FEATURE_MULTIMODE_ANDROID\<close> is not defined in this build: its two cases are left out.\<close>

definition fail_cause_names :: "(int \<times> string) list" where
  "fail_cause_names =
   [(RIL_E_SUCCESS, ''E_SUCCESS''),
    (RIL_E_RADIO_NOT_AVAILABLE, ''E_RADIO_NOT_AVAILABLE''),
    (RIL_E_GENERIC_FAILURE, ''E_GENERIC_FAILURE''),
    (RIL_E_PASSWORD_INCORRECT, ''E_PASSWORD_INCORRECT''),
    (RIL_E_SIM_PIN2, ''E_SIM_PIN2''),
    (RIL_E_SIM_PUK2, ''E_SIM_PUK2''),
    (RIL_E_REQUEST_NOT_SUPPORTED, ''E_REQUEST_NOT_SUPPORTED''),
    (RIL_E_CANCELLED, ''E_CANCELLED''),
    (RIL_E_OP_NOT_ALLOWED_DURING_VOICE_CALL, ''E_OP_NOT_ALLOWED_DURING_VOICE_CALL''),
    (RIL_E_OP_NOT_ALLOWED_BEFORE_REG_TO_NW, ''E_OP_NOT_ALLOWED_BEFORE_REG_TO_NW''),
    (RIL_E_SMS_SEND_FAIL_RETRY, ''E_SMS_SEND_FAIL_RETRY''),
    (RIL_E_SIM_ABSENT, ''E_SIM_ABSENT''),
    (RIL_E_ILLEGAL_SIM_OR_ME, ''E_ILLEGAL_SIM_OR_ME''),
    (RIL_E_FDN_CHECK_FAILURE, ''E_FDN_CHECK_FAILURE''),
    (RIL_E_MISSING_RESOURCE, ''E_MISSING_RESOURCE''),
    (RIL_E_NO_SUCH_ELEMENT, ''E_NO_SUCH_ELEMENT''),
    (RIL_E_DIAL_MODIFIED_TO_USSD, ''E_DIAL_MODIFIED_TO_USSD''),
    (RIL_E_DIAL_MODIFIED_TO_SS, ''E_DIAL_MODIFIED_TO_SS''),
    (RIL_E_DIAL_MODIFIED_TO_DIAL, ''E_DIAL_MODIFIED_TO_DIAL''),
    (RIL_E_USSD_MODIFIED_TO_DIAL, ''E_USSD_MODIFIED_TO_DIAL''),
    (RIL_E_USSD_MODIFIED_TO_SS, ''E_USSD_MODIFIED_TO_SS''),
    (RIL_E_USSD_MODIFIED_TO_USSD, ''E_USSD_MODIFIED_TO_USSD''),
    (RIL_E_SS_MODIFIED_TO_DIAL, ''E_SS_MODIFIED_TO_DIAL''),
    (RIL_E_SS_MODIFIED_TO_USSD, ''E_SS_MODIFIED_TO_USSD''),
    (RIL_E_SUBSCRIPTION_NOT_SUPPORTED, ''E_SUBSCRIPTION_NOT_SUPPORTED''),
    (RIL_E_SS_MODIFIED_TO_SS, ''E_SS_MODIFIED_TO_SS''),
    (RIL_E_LCE_NOT_SUPPORTED, ''E_LCE_NOT_SUPPORTED''),
    (RIL_E_NO_MEMORY, ''E_NO_MEMORY''),
    (RIL_E_INTERNAL_ERR, ''E_INTERNAL_ERR''),
    (RIL_E_SYSTEM_ERR, ''E_SYSTEM_ERR''),
    (RIL_E_MODEM_ERR, ''E_MODEM_ERR''),
    (RIL_E_INVALID_STATE, ''E_INVALID_STATE''),
    (RIL_E_NO_RESOURCES, ''E_NO_RESOURCES''),
    (RIL_E_SIM_ERR, ''E_SIM_ERR''),
    (RIL_E_INVALID_ARGUMENTS, ''E_INVALID_ARGUMENTS''),
    (RIL_E_INVALID_SIM_STATE, ''E_INVALID_SIM_STATE''),
    (RIL_E_INVALID_MODEM_STATE, ''E_INVALID_MODEM_STATE''),
    (RIL_E_INVALID_CALL_ID, ''E_INVALID_CALL_ID''),
    (RIL_E_NO_SMS_TO_ACK, ''E_NO_SMS_TO_ACK''),
    (RIL_E_NETWORK_ERR, ''E_NETWORK_ERR''),
    (RIL_E_REQUEST_RATE_LIMITED, ''E_REQUEST_RATE_LIMITED''),
    (RIL_E_SIM_BUSY, ''E_SIM_BUSY''),
    (RIL_E_SIM_FULL, ''E_SIM_FULL''),
    (RIL_E_NETWORK_REJECT, ''E_NETWORK_REJECT''),
    (RIL_E_OPERATION_NOT_ALLOWED, ''E_OPERATION_NOT_ALLOWED''),
    (RIL_E_EMPTY_RECORD, ''E_EMPTY_RECORD''),
    (RIL_E_INVALID_SMS_FORMAT, ''E_INVALID_SMS_FORMAT''),
    (RIL_E_ENCODING_ERR, ''E_ENCODING_ERR''),
    (RIL_E_INVALID_SMSC_ADDRESS, ''E_INVALID_SMSC_ADDRESS''),
    (RIL_E_NO_SUCH_ENTRY, ''E_NO_SUCH_ENTRY''),
    (RIL_E_NETWORK_NOT_READY, ''E_NETWORK_NOT_READY''),
    (RIL_E_NOT_PROVISIONED, ''E_NOT_PROVISIONED''),
    (RIL_E_NO_SUBSCRIPTION, ''E_NO_SUBSCRIPTION''),
    (RIL_E_NO_NETWORK_FOUND, ''E_NO_NETWORK_FOUND''),
    (RIL_E_DEVICE_IN_USE, ''E_DEVICE_IN_USE''),
    (RIL_E_ABORTED, ''E_ABORTED''),
    (RIL_E_INVALID_RESPONSE, ''INVALID_RESPONSE''),
    (RIL_E_OEM_ERROR_1, ''E_OEM_ERROR_1''),
    (RIL_E_OEM_ERROR_2, ''E_OEM_ERROR_2''),
    (RIL_E_OEM_ERROR_3, ''E_OEM_ERROR_3''),
    (RIL_E_OEM_ERROR_4, ''E_OEM_ERROR_4''),
    (RIL_E_OEM_ERROR_5, ''E_OEM_ERROR_5''),
    (RIL_E_OEM_ERROR_6, ''E_OEM_ERROR_6''),
    (RIL_E_OEM_ERROR_7, ''E_OEM_ERROR_7''),
    (RIL_E_OEM_ERROR_8, ''E_OEM_ERROR_8''),
    (RIL_E_OEM_ERROR_9, ''E_OEM_ERROR_9''),
    (RIL_E_OEM_ERROR_10, ''E_OEM_ERROR_10''),
    (RIL_E_OEM_ERROR_11, ''E_OEM_ERROR_11''),
    (RIL_E_OEM_ERROR_12, ''E_OEM_ERROR_12''),
    (RIL_E_OEM_ERROR_13, ''E_OEM_ERROR_13''),
    (RIL_E_OEM_ERROR_14, ''E_OEM_ERROR_14''),
    (RIL_E_OEM_ERROR_15, ''E_OEM_ERROR_15''),
    (RIL_E_OEM_ERROR_16, ''E_OEM_ERROR_16''),
    (RIL_E_OEM_ERROR_17, ''E_OEM_ERROR_17''),
    (RIL_E_OEM_ERROR_18, ''E_OEM_ERROR_18''),
    (RIL_E_OEM_ERROR_19, ''E_OEM_ERROR_19''),
    (RIL_E_OEM_ERROR_20, ''E_OEM_ERROR_20''),
    (RIL_E_OEM_ERROR_21, ''E_OEM_ERROR_21''),
    (RIL_E_OEM_ERROR_22, ''E_OEM_ERROR_22''),
    (RIL_E_OEM_ERROR_23, ''E_OEM_ERROR_23''),
    (RIL_E_OEM_ERROR_24, ''E_OEM_ERROR_24''),
    (RIL_E_OEM_ERROR_25, ''E_OEM_ERROR_25'')]"

definition failCauseToString :: "int \<Rightarrow> string" where
  "failCauseToString x = (case map_of fail_cause_names x of Some s \<Rightarrow> s | None \<Rightarrow> ''<unknown error>'')"

text \<open>The cases of \<open>radioStateToString\<close>.\<close>

definition radio_state_names :: "(int \<times> string) list" where
  "radio_state_names =
   [(RADIO_STATE_OFF, ''RADIO_OFF''),
    (RADIO_STATE_UNAVAILABLE, ''RADIO_UNAVAILABLE''),
    (RADIO_STATE_ON, ''RADIO_ON'')]"

definition radioStateToString :: "int \<Rightarrow> string" where
  "radioStateToString x = (case map_of radio_state_names x of Some s \<Rightarrow> s | None \<Rightarrow> ''<unknown state>'')"

text \<open>The cases of \<open>callStateToString\<close>.\<close>

definition call_state_names :: "(int \<times> string) list" where
  "call_state_names =
   [(RIL_CALL_ACTIVE, ''ACTIVE''),
    (RIL_CALL_HOLDING, ''HOLDING''),
    (RIL_CALL_DIALING, ''DIALING''),
    (RIL_CALL_ALERTING, ''ALERTING''),
    (RIL_CALL_INCOMING, ''INCOMING''),
    (RIL_CALL_WAITING, ''WAITING'')]"

definition callStateToString :: "int \<Rightarrow> string" where
  "callStateToString x = (case map_of call_state_names x of Some s \<Rightarrow> s | None \<Rightarrow> ''<unknown state>'')"

text \<open>The cases of \<open>requestToString\<close>: requests, then unsolicited responses.\<close>

definition request_names :: "(int \<times> string) list" where
  "request_names =
   [(RIL_REQUEST_GET_SIM_STATUS, ''GET_SIM_STATUS''),
    (RIL_REQUEST_ENTER_SIM_PIN, ''ENTER_SIM_PIN''),
    (RIL_REQUEST_ENTER_SIM_PUK, ''ENTER_SIM_PUK''),
    (RIL_REQUEST_ENTER_SIM_PIN2, ''ENTER_SIM_PIN2''),
    (RIL_REQUEST_ENTER_SIM_PUK2, ''ENTER_SIM_PUK2''),
    (RIL_REQUEST_CHANGE_SIM_PIN, ''CHANGE_SIM_PIN''),
    (RIL_REQUEST_CHANGE_SIM_PIN2, ''CHANGE_SIM_PIN2''),
    (RIL_REQUEST_ENTER_NETWORK_DEPERSONALIZATION, ''ENTER_NETWORK_DEPERSONALIZATION''),
    (RIL_REQUEST_GET_CURRENT_CALLS, ''GET_CURRENT_CALLS''),
    (RIL_REQUEST_DIAL, ''DIAL''),
    (RIL_REQUEST_GET_IMSI, ''GET_IMSI''),
    (RIL_REQUEST_HANGUP, ''HANGUP''),
    (RIL_REQUEST_HANGUP_WAITING_OR_BACKGROUND, ''HANGUP_WAITING_OR_BACKGROUND''),
    (RIL_REQUEST_HANGUP_FOREGROUND_RESUME_BACKGROUND, ''HANGUP_FOREGROUND_RESUME_BACKGROUND''),
    (RIL_REQUEST_SWITCH_WAITING_OR_HOLDING_AND_ACTIVE, ''SWITCH_WAITING_OR_HOLDING_AND_ACTIVE''),
    (RIL_REQUEST_CONFERENCE, ''CONFERENCE''),
    (RIL_REQUEST_UDUB, ''UDUB''),
    (RIL_REQUEST_LAST_CALL_FAIL_CAUSE, ''LAST_CALL_FAIL_CAUSE''),
    (RIL_REQUEST_SIGNAL_STRENGTH, ''SIGNAL_STRENGTH''),
    (RIL_REQUEST_VOICE_REGISTRATION_STATE, ''VOICE_REGISTRATION_STATE''),
    (RIL_REQUEST_DATA_REGISTRATION_STATE, ''DATA_REGISTRATION_STATE''),
    (RIL_REQUEST_OPERATOR, ''OPERATOR''),
    (RIL_REQUEST_RADIO_POWER, ''RADIO_POWER''),
    (RIL_REQUEST_DTMF, ''DTMF''),
    (RIL_REQUEST_SEND_SMS, ''SEND_SMS''),
    (RIL_REQUEST_SEND_SMS_EXPECT_MORE, ''SEND_SMS_EXPECT_MORE''),
    (RIL_REQUEST_SETUP_DATA_CALL, ''SETUP_DATA_CALL''),
    (RIL_REQUEST_SIM_IO, ''SIM_IO''),
    (RIL_REQUEST_SEND_USSD, ''SEND_USSD''),
    (RIL_REQUEST_CANCEL_USSD, ''CANCEL_USSD''),
    (RIL_REQUEST_GET_CLIR, ''GET_CLIR''),
    (RIL_REQUEST_SET_CLIR, ''SET_CLIR''),
    (RIL_REQUEST_QUERY_CALL_FORWARD_STATUS, ''QUERY_CALL_FORWARD_STATUS''),
    (RIL_REQUEST_SET_CALL_FORWARD, ''SET_CALL_FORWARD''),
    (RIL_REQUEST_QUERY_CALL_WAITING, ''QUERY_CALL_WAITING''),
    (RIL_REQUEST_SET_CALL_WAITING, ''SET_CALL_WAITING''),
    (RIL_REQUEST_SMS_ACKNOWLEDGE, ''SMS_ACKNOWLEDGE''),
    (RIL_REQUEST_GET_IMEI, ''GET_IMEI''),
    (RIL_REQUEST_GET_IMEISV, ''GET_IMEISV''),
    (RIL_REQUEST_ANSWER, ''ANSWER''),
    (RIL_REQUEST_DEACTIVATE_DATA_CALL, ''DEACTIVATE_DATA_CALL''),
    (RIL_REQUEST_QUERY_FACILITY_LOCK, ''QUERY_FACILITY_LOCK''),
    (RIL_REQUEST_SET_FACILITY_LOCK, ''SET_FACILITY_LOCK''),
    (RIL_REQUEST_CHANGE_BARRING_PASSWORD, ''CHANGE_BARRING_PASSWORD''),
    (RIL_REQUEST_QUERY_NETWORK_SELECTION_MODE, ''QUERY_NETWORK_SELECTION_MODE''),
    (RIL_REQUEST_SET_NETWORK_SELECTION_AUTOMATIC, ''SET_NETWORK_SELECTION_AUTOMATIC''),
    (RIL_REQUEST_SET_NETWORK_SELECTION_MANUAL, ''SET_NETWORK_SELECTION_MANUAL''),
    (RIL_REQUEST_QUERY_AVAILABLE_NETWORKS, ''QUERY_AVAILABLE_NETWORKS''),
    (RIL_REQUEST_DTMF_START, ''DTMF_START''),
    (RIL_REQUEST_DTMF_STOP, ''DTMF_STOP''),
    (RIL_REQUEST_BASEBAND_VERSION, ''BASEBAND_VERSION''),
    (RIL_REQUEST_SEPARATE_CONNECTION, ''SEPARATE_CONNECTION''),
    (RIL_REQUEST_SET_MUTE, ''SET_MUTE''),
    (RIL_REQUEST_GET_MUTE, ''GET_MUTE''),
    (RIL_REQUEST_QUERY_CLIP, ''QUERY_CLIP''),
    (RIL_REQUEST_LAST_DATA_CALL_FAIL_CAUSE, ''LAST_DATA_CALL_FAIL_CAUSE''),
    (RIL_REQUEST_DATA_CALL_LIST, ''DATA_CALL_LIST''),
    (RIL_REQUEST_RESET_RADIO, ''RESET_RADIO''),
    (RIL_REQUEST_OEM_HOOK_RAW, ''OEM_HOOK_RAW''),
    (RIL_REQUEST_OEM_HOOK_STRINGS, ''OEM_HOOK_STRINGS''),
    (RIL_REQUEST_SCREEN_STATE, ''SCREEN_STATE''),
    (RIL_REQUEST_SET_SUPP_SVC_NOTIFICATION, ''SET_SUPP_SVC_NOTIFICATION''),
    (RIL_REQUEST_WRITE_SMS_TO_SIM, ''WRITE_SMS_TO_SIM''),
    (RIL_REQUEST_DELETE_SMS_ON_SIM, ''DELETE_SMS_ON_SIM''),
    (RIL_REQUEST_SET_BAND_MODE, ''SET_BAND_MODE''),
    (RIL_REQUEST_QUERY_AVAILABLE_BAND_MODE, ''QUERY_AVAILABLE_BAND_MODE''),
    (RIL_REQUEST_STK_GET_PROFILE, ''STK_GET_PROFILE''),
    (RIL_REQUEST_STK_SET_PROFILE, ''STK_SET_PROFILE''),
    (RIL_REQUEST_STK_SEND_ENVELOPE_COMMAND, ''STK_SEND_ENVELOPE_COMMAND''),
    (RIL_REQUEST_STK_SEND_TERMINAL_RESPONSE, ''STK_SEND_TERMINAL_RESPONSE''),
    (RIL_REQUEST_STK_HANDLE_CALL_SETUP_REQUESTED_FROM_SIM, ''STK_HANDLE_CALL_SETUP_REQUESTED_FROM_SIM''),
    (RIL_REQUEST_EXPLICIT_CALL_TRANSFER, ''EXPLICIT_CALL_TRANSFER''),
    (RIL_REQUEST_SET_PREFERRED_NETWORK_TYPE, ''SET_PREFERRED_NETWORK_TYPE''),
    (RIL_REQUEST_GET_PREFERRED_NETWORK_TYPE, ''GET_PREFERRED_NETWORK_TYPE''),
    (RIL_REQUEST_GET_NEIGHBORING_CELL_IDS, ''GET_NEIGHBORING_CELL_IDS''),
    (RIL_REQUEST_SET_LOCATION_UPDATES, ''SET_LOCATION_UPDATES''),
    (RIL_REQUEST_CDMA_SET_SUBSCRIPTION_SOURCE, ''CDMA_SET_SUBSCRIPTION_SOURCE''),
    (RIL_REQUEST_CDMA_SET_ROAMING_PREFERENCE, ''CDMA_SET_ROAMING_PREFERENCE''),
    (RIL_REQUEST_CDMA_QUERY_ROAMING_PREFERENCE, ''CDMA_QUERY_ROAMING_PREFERENCE''),
    (RIL_REQUEST_SET_TTY_MODE, ''SET_TTY_MODE''),
    (RIL_REQUEST_QUERY_TTY_MODE, ''QUERY_TTY_MODE''),
    (RIL_REQUEST_CDMA_SET_PREFERRED_VOICE_PRIVACY_MODE, ''CDMA_SET_PREFERRED_VOICE_PRIVACY_MODE''),
    (RIL_REQUEST_CDMA_QUERY_PREFERRED_VOICE_PRIVACY_MODE, ''CDMA_QUERY_PREFERRED_VOICE_PRIVACY_MODE''),
    (RIL_REQUEST_CDMA_FLASH, ''CDMA_FLASH''),
    (RIL_REQUEST_CDMA_BURST_DTMF, ''CDMA_BURST_DTMF''),
    (RIL_REQUEST_CDMA_VALIDATE_AND_WRITE_AKEY, ''CDMA_VALIDATE_AND_WRITE_AKEY''),
    (RIL_REQUEST_CDMA_SEND_SMS, ''CDMA_SEND_SMS''),
    (RIL_REQUEST_CDMA_SMS_ACKNOWLEDGE, ''CDMA_SMS_ACKNOWLEDGE''),
    (RIL_REQUEST_GSM_GET_BROADCAST_SMS_CONFIG, ''GSM_GET_BROADCAST_SMS_CONFIG''),
    (RIL_REQUEST_GSM_SET_BROADCAST_SMS_CONFIG, ''GSM_SET_BROADCAST_SMS_CONFIG''),
    (RIL_REQUEST_GSM_SMS_BROADCAST_ACTIVATION, ''GSM_SMS_BROADCAST_ACTIVATION''),
    (RIL_REQUEST_CDMA_GET_BROADCAST_SMS_CONFIG, ''CDMA_GET_BROADCAST_SMS_CONFIG''),
    (RIL_REQUEST_CDMA_SET_BROADCAST_SMS_CONFIG, ''CDMA_SET_BROADCAST_SMS_CONFIG''),
    (RIL_REQUEST_CDMA_SMS_BROADCAST_ACTIVATION, ''CDMA_SMS_BROADCAST_ACTIVATION''),
    (RIL_REQUEST_CDMA_SUBSCRIPTION, ''CDMA_SUBSCRIPTION''),
    (RIL_REQUEST_CDMA_WRITE_SMS_TO_RUIM, ''CDMA_WRITE_SMS_TO_RUIM''),
    (RIL_REQUEST_CDMA_DELETE_SMS_ON_RUIM, ''CDMA_DELETE_SMS_ON_RUIM''),
    (RIL_REQUEST_DEVICE_IDENTITY, ''DEVICE_IDENTITY''),
    (RIL_REQUEST_EXIT_EMERGENCY_CALLBACK_MODE, ''EXIT_EMERGENCY_CALLBACK_MODE''),
    (RIL_REQUEST_GET_SMSC_ADDRESS, ''GET_SMSC_ADDRESS''),
    (RIL_REQUEST_SET_SMSC_ADDRESS, ''SET_SMSC_ADDRESS''),
    (RIL_REQUEST_REPORT_SMS_MEMORY_STATUS, ''REPORT_SMS_MEMORY_STATUS''),
    (RIL_REQUEST_REPORT_STK_SERVICE_IS_RUNNING, ''REPORT_STK_SERVICE_IS_RUNNING''),
    (RIL_REQUEST_CDMA_GET_SUBSCRIPTION_SOURCE, ''CDMA_GET_SUBSCRIPTION_SOURCE''),
    (RIL_REQUEST_ISIM_AUTHENTICATION, ''ISIM_AUTHENTICATION''),
    (RIL_REQUEST_ACKNOWLEDGE_INCOMING_GSM_SMS_WITH_PDU, ''ACKNOWLEDGE_INCOMING_GSM_SMS_WITH_PDU''),
    (RIL_REQUEST_STK_SEND_ENVELOPE_WITH_STATUS, ''STK_SEND_ENVELOPE_WITH_STATUS''),
    (RIL_REQUEST_VOICE_RADIO_TECH, ''VOICE_RADIO_TECH''),
    (RIL_REQUEST_GET_CELL_INFO_LIST, ''GET_CELL_INFO_LIST''),
    (RIL_REQUEST_SET_UNSOL_CELL_INFO_LIST_RATE, ''SET_UNSOL_CELL_INFO_LIST_RATE''),
    (RIL_REQUEST_SET_INITIAL_ATTACH_APN, ''SET_INITIAL_ATTACH_APN''),
    (RIL_REQUEST_IMS_REGISTRATION_STATE, ''IMS_REGISTRATION_STATE''),
    (RIL_REQUEST_IMS_SEND_SMS, ''IMS_SEND_SMS''),
    (RIL_REQUEST_SIM_TRANSMIT_APDU_BASIC, ''SIM_TRANSMIT_APDU_BASIC''),
    (RIL_REQUEST_SIM_OPEN_CHANNEL, ''SIM_OPEN_CHANNEL''),
    (RIL_REQUEST_SIM_CLOSE_CHANNEL, ''SIM_CLOSE_CHANNEL''),
    (RIL_REQUEST_SIM_TRANSMIT_APDU_CHANNEL, ''SIM_TRANSMIT_APDU_CHANNEL''),
    (RIL_REQUEST_NV_READ_ITEM, ''NV_READ_ITEM''),
    (RIL_REQUEST_NV_WRITE_ITEM, ''NV_WRITE_ITEM''),
    (RIL_REQUEST_NV_WRITE_CDMA_PRL, ''NV_WRITE_CDMA_PRL''),
    (RIL_REQUEST_NV_RESET_CONFIG, ''NV_RESET_CONFIG''),
    (RIL_REQUEST_SET_UICC_SUBSCRIPTION, ''SET_UICC_SUBSCRIPTION''),
    (RIL_REQUEST_ALLOW_DATA, ''ALLOW_DATA''),
    (RIL_REQUEST_GET_HARDWARE_CONFIG, ''GET_HARDWARE_CONFIG''),
    (RIL_REQUEST_SIM_AUTHENTICATION, ''SIM_AUTHENTICATION''),
    (RIL_REQUEST_GET_DC_RT_INFO, ''GET_DC_RT_INFO''),
    (RIL_REQUEST_SET_DC_RT_INFO_RATE, ''SET_DC_RT_INFO_RATE''),
    (RIL_REQUEST_SET_DATA_PROFILE, ''SET_DATA_PROFILE''),
    (RIL_REQUEST_SHUTDOWN, ''SHUTDOWN''),
    (RIL_REQUEST_GET_RADIO_CAPABILITY, ''GET_RADIO_CAPABILITY''),
    (RIL_REQUEST_SET_RADIO_CAPABILITY, ''SET_RADIO_CAPABILITY''),
    (RIL_REQUEST_START_LCE, ''START_LCE''),
    (RIL_REQUEST_STOP_LCE, ''STOP_LCE''),
    (RIL_REQUEST_PULL_LCEDATA, ''PULL_LCEDATA''),
    (RIL_REQUEST_GET_ACTIVITY_INFO, ''GET_ACTIVITY_INFO''),
    (RIL_REQUEST_SET_CARRIER_RESTRICTIONS, ''SET_CARRIER_RESTRICTIONS''),
    (RIL_REQUEST_GET_CARRIER_RESTRICTIONS, ''GET_CARRIER_RESTRICTIONS''),
    (RIL_REQUEST_SET_CARRIER_INFO_IMSI_ENCRYPTION, ''SET_CARRIER_INFO_IMSI_ENCRYPTION''),
    (RIL_RESPONSE_ACKNOWLEDGEMENT, ''RESPONSE_ACKNOWLEDGEMENT'')]"

text \<open>The second half of the same switch.\<close>

definition unsol_names :: "(int \<times> string) list" where
  "unsol_names =
   [(RIL_UNSOL_RESPONSE_RADIO_STATE_CHANGED, ''UNSOL_RESPONSE_RADIO_STATE_CHANGED''),
    (RIL_UNSOL_RESPONSE_CALL_STATE_CHANGED, ''UNSOL_RESPONSE_CALL_STATE_CHANGED''),
    (RIL_UNSOL_RESPONSE_VOICE_NETWORK_STATE_CHANGED, ''UNSOL_RESPONSE_VOICE_NETWORK_STATE_CHANGED''),
    (RIL_UNSOL_RESPONSE_NEW_SMS, ''UNSOL_RESPONSE_NEW_SMS''),
    (RIL_UNSOL_RESPONSE_NEW_SMS_STATUS_REPORT, ''UNSOL_RESPONSE_NEW_SMS_STATUS_REPORT''),
    (RIL_UNSOL_RESPONSE_NEW_SMS_ON_SIM, ''UNSOL_RESPONSE_NEW_SMS_ON_SIM''),
    (RIL_UNSOL_ON_USSD, ''UNSOL_ON_USSD''),
    (RIL_UNSOL_ON_USSD_REQUEST, ''UNSOL_ON_USSD_REQUEST''),
    (RIL_UNSOL_NITZ_TIME_RECEIVED, ''UNSOL_NITZ_TIME_RECEIVED''),
    (RIL_UNSOL_SIGNAL_STRENGTH, ''UNSOL_SIGNAL_STRENGTH''),
    (RIL_UNSOL_DATA_CALL_LIST_CHANGED, ''UNSOL_DATA_CALL_LIST_CHANGED''),
    (RIL_UNSOL_SUPP_SVC_NOTIFICATION, ''UNSOL_SUPP_SVC_NOTIFICATION''),
    (RIL_UNSOL_STK_SESSION_END, ''UNSOL_STK_SESSION_END''),
    (RIL_UNSOL_STK_PROACTIVE_COMMAND, ''UNSOL_STK_PROACTIVE_COMMAND''),
    (RIL_UNSOL_STK_EVENT_NOTIFY, ''UNSOL_STK_EVENT_NOTIFY''),
    (RIL_UNSOL_STK_CALL_SETUP, ''UNSOL_STK_CALL_SETUP''),
    (RIL_UNSOL_SIM_SMS_STORAGE_FULL, ''UNSOL_SIM_SMS_STORAGE_FULL''),
    (RIL_UNSOL_SIM_REFRESH, ''UNSOL_SIM_REFRESH''),
    (RIL_UNSOL_CALL_RING, ''UNSOL_CALL_RING''),
    (RIL_UNSOL_RESPONSE_SIM_STATUS_CHANGED, ''UNSOL_RESPONSE_SIM_STATUS_CHANGED''),
    (RIL_UNSOL_RESPONSE_CDMA_NEW_SMS, ''UNSOL_RESPONSE_CDMA_NEW_SMS''),
    (RIL_UNSOL_RESPONSE_NEW_BROADCAST_SMS, ''UNSOL_RESPONSE_NEW_BROADCAST_SMS''),
    (RIL_UNSOL_CDMA_RUIM_SMS_STORAGE_FULL, ''UNSOL_CDMA_RUIM_SMS_STORAGE_FULL''),
    (RIL_UNSOL_RESTRICTED_STATE_CHANGED, ''UNSOL_RESTRICTED_STATE_CHANGED''),
    (RIL_UNSOL_ENTER_EMERGENCY_CALLBACK_MODE, ''UNSOL_ENTER_EMERGENCY_CALLBACK_MODE''),
    (RIL_UNSOL_CDMA_CALL_WAITING, ''UNSOL_CDMA_CALL_WAITING''),
    (RIL_UNSOL_CDMA_OTA_PROVISION_STATUS, ''UNSOL_CDMA_OTA_PROVISION_STATUS''),
    (RIL_UNSOL_CDMA_INFO_REC, ''UNSOL_CDMA_INFO_REC''),
    (RIL_UNSOL_OEM_HOOK_RAW, ''UNSOL_OEM_HOOK_RAW''),
    (RIL_UNSOL_RINGBACK_TONE, ''UNSOL_RINGBACK_TONE''),
    (RIL_UNSOL_RESEND_INCALL_MUTE, ''UNSOL_RESEND_INCALL_MUTE''),
    (RIL_UNSOL_CDMA_SUBSCRIPTION_SOURCE_CHANGED, ''UNSOL_CDMA_SUBSCRIPTION_SOURCE_CHANGED''),
    (RIL_UNSOL_CDMA_PRL_CHANGED, ''UNSOL_CDMA_PRL_CHANGED''),
    (RIL_UNSOL_EXIT_EMERGENCY_CALLBACK_MODE, ''UNSOL_EXIT_EMERGENCY_CALLBACK_MODE''),
    (RIL_UNSOL_RIL_CONNECTED, ''UNSOL_RIL_CONNECTED''),
    (RIL_UNSOL_VOICE_RADIO_TECH_CHANGED, ''UNSOL_VOICE_RADIO_TECH_CHANGED''),
    (RIL_UNSOL_CELL_INFO_LIST, ''UNSOL_CELL_INFO_LIST''),
    (RIL_UNSOL_RESPONSE_IMS_NETWORK_STATE_CHANGED, ''UNSOL_RESPONSE_IMS_NETWORK_STATE_CHANGED''),
    (RIL_UNSOL_UICC_SUBSCRIPTION_STATUS_CHANGED, ''UNSOL_UICC_SUBSCRIPTION_STATUS_CHANGED''),
    (RIL_UNSOL_SRVCC_STATE_NOTIFY, ''UNSOL_SRVCC_STATE_NOTIFY''),
    (RIL_UNSOL_HARDWARE_CONFIG_CHANGED, ''UNSOL_HARDWARE_CONFIG_CHANGED''),
    (RIL_UNSOL_DC_RT_INFO_CHANGED, ''UNSOL_DC_RT_INFO_CHANGED''),
    (RIL_UNSOL_RADIO_CAPABILITY, ''UNSOL_RADIO_CAPABILITY''),
    (RIL_UNSOL_MODEM_RESTART, ''UNSOL_MODEM_RESTART''),
    (RIL_UNSOL_CARRIER_INFO_IMSI_ENCRYPTION, ''UNSOL_CARRIER_INFO_IMSI_ENCRYPTION''),
    (RIL_UNSOL_ON_SS, ''UNSOL_ON_SS''),
    (RIL_UNSOL_STK_CC_ALPHA_NOTIFY, ''UNSOL_STK_CC_ALPHA_NOTIFY''),
    (RIL_UNSOL_LCEDATA_RECV, ''UNSOL_LCEDATA_RECV''),
    (RIL_UNSOL_PCO_DATA, ''UNSOL_PCO_DATA'')]"

definition requestToString :: "int \<Rightarrow> string" where
  "requestToString x = (case map_of (request_names @ unsol_names) x of Some s \<Rightarrow> s | None \<Rightarrow> ''<unknown request>'')"

text \<open>
  \<open>rilSocketIdToString\<close>. The labels after the first are compiled in by \<open>SIM_COUNT\<close>, which is
  an argument here; \<open>RIL_SOCKET_1\<close> to \<open>RIL_SOCKET_4\<close> are 0 to 3.
\<close>

definition rilSocketIdToString :: "nat \<Rightarrow> int \<Rightarrow> string" where
  "rilSocketIdToString sim_count socket_id =
     (if socket_id = 0 then ''RIL_SOCKET_1''
      else if 2 \<le> sim_count \<and> socket_id = 1 then ''RIL_SOCKET_2''
      else if 3 \<le> sim_count \<and> socket_id = 2 then ''RIL_SOCKET_3''
      else if 4 \<le> sim_count \<and> socket_id = 3 then ''RIL_SOCKET_4''
      else ''not a valid RIL'')"

section \<open>Names determine codes\<close>

lemma map_of_inj:
  assumes "distinct (map snd xs)" "map_of xs a = Some s" "map_of xs b = Some s"
  shows "a = b"
proof -
  have "(a, s) \<in> set xs" "(b, s) \<in> set xs"
    using assms(2,3) by (auto dest: map_of_SomeD)
  then show ?thesis
    using assms(1) by (metis distinct_map inj_onD prod.inject snd_conv)
qed

lemma request_codes:
  "map fst (request_names @ unsol_names) =
     [1..137] @ [141, 800] @ [1000..1042] @ [1047, 1048] @ [1043..1046]"
  by code_simp

lemma request_code_set: "set (map fst (request_names @ unsol_names)) = {1..137} \<union> {141, 800} \<union> {1000..1048}"
  unfolding request_codes by (simp only: set_append set_upto list.set) auto

text \<open>
  The 188 strings are compared through a hash without collisions on them: small
  numbers are compared much faster than strings.
\<close>

definition name_hash :: "string \<Rightarrow> int" where
  "name_hash s = foldl (\<lambda>h c. (7 * h + of_char c) mod 16381) 0 s"

lemma name_hashes_distinct:
  "distinct (map name_hash (''<unknown request>'' # map snd (request_names @ unsol_names)))"
  by code_simp

lemma request_strings_distinct: "distinct (map snd (request_names @ unsol_names))"
  and request_strings_known: "''<unknown request>'' \<notin> set (map snd (request_names @ unsol_names))"
  using name_hashes_distinct [unfolded distinct_map] by auto

lemma requestToString_known:
  "requestToString a \<noteq> ''<unknown request>'' \<Longrightarrow>
     map_of (request_names @ unsol_names) a = Some (requestToString a)"
  by (auto simp: requestToString_def split: option.splits)

lemma map_of_default:
  assumes "d \<notin> set (map snd xs)"
  shows "(case map_of xs a of Some s \<Rightarrow> s | None \<Rightarrow> d) = d \<longleftrightarrow> a \<notin> set (map fst xs)"
  using assms by (induction xs) auto

lemma requestToString_unknown:
  "requestToString a = ''<unknown request>'' \<longleftrightarrow> a \<notin> set (map fst (request_names @ unsol_names))"
  unfolding requestToString_def by (rule map_of_default [OF request_strings_known])

section \<open>Properties\<close>

text \<open>
  The log names of requests and unsolicited responses identify them: two codes with the same
  name other than the default are the same code.
\<close>

theorem request_names_identify:
  assumes "requestToString a = requestToString b" "requestToString a \<noteq> ''<unknown request>''"
  shows "a = b"
  using map_of_inj [OF request_strings_distinct requestToString_known [OF assms(2)]]
    requestToString_known [of b] assms by simp

theorem request_names_identify_witness:
  "{a. requestToString a = requestToString RIL_REQUEST_DIAL} = {RIL_REQUEST_DIAL}"
proof -
  have named: "requestToString RIL_REQUEST_DIAL \<noteq> ''<unknown request>''"
    by (simp only: requestToString_unknown request_code_set RIL_REQUEST_DIAL_def) simp
  have "RIL_REQUEST_DIAL = a" if "requestToString a = requestToString RIL_REQUEST_DIAL" for a
    by (rule request_names_identify [OF that [symmetric] named])
  then show ?thesis
    by fastforce
qed

text \<open>
  The codes of the two dispatch tables that \<open>requestToString\<close> does not know are exactly
  request 0 of the placeholder row, seven requests and two unsolicited responses; every other row
  has a name.
\<close>

theorem unnamed_codes:
  "{r \<in> requestNumber ` set s_commands. requestToString r = ''<unknown request>''} =
     {0, 138, 139, 140, 142, 143, 144, 145} \<and>
   {r \<in> u_requestNumber ` set s_unsolResponses. requestToString r = ''<unknown request>''} =
     {1049, 1050}"
proof
  have "requestNumber ` set s_commands = {0..145}"
    using arg_cong [OF requestNumbers, of set] by (simp add: image_int_atLeastLessThan) auto
  then show "{r \<in> requestNumber ` set s_commands. requestToString r = ''<unknown request>''} =
     {0, 138, 139, 140, 142, 143, 144, 145}"
    unfolding requestToString_unknown request_code_set by auto
next
  have "u_requestNumber ` set s_unsolResponses = (\<lambda>i. 1000 + i) ` int ` {0..<51}"
    using arg_cong [OF unsolNumbers, of set] by (simp add: image_image)
  then have "u_requestNumber ` set s_unsolResponses = {1000..1050}"
    by (simp add: image_int_atLeastLessThan) auto
  then show "{r \<in> u_requestNumber ` set s_unsolResponses. requestToString r = ''<unknown request>''} =
     {1049, 1050}"
    unfolding requestToString_unknown request_code_set by auto
qed

end
