(* ===== verification/RilEvent.thy ===== *)
theory RilEvent
  imports Prelude
begin

text \<open>
  The event loop of the radio daemon, \<open>libril/ril_event.cpp\<close>. Events are C structs in
  memory, linked into two circular doubly linked lists (\<open>timer_list\<close>, sorted by timeout, and
  \<open>pending_list\<close>) and referenced from the table of watched descriptors. The memory is the
  field \<open>ev\<close>; following a NULL link is the value \<open>None\<close>. The lists are refined to Isabelle
  lists by \<open>ring\<close>; \<open>wf_lists\<close> and \<open>wf_watch\<close> are the invariants of the lists and of the
  table. The clock and the result of \<open>select\<close> are inputs.
\<close>

section \<open>Data\<close>

definition MAX_FD_EVENTS :: nat where
  "MAX_FD_EVENTS = 8"

text \<open>
  \<open>struct ril_event\<close>. Function pointers are the addresses of code (0 is NULL); \<open>param\<close> is the
  \<open>void *\<close> handed to the callback.
\<close>

record ril_event =
  e_next :: "addr option"
  e_prev :: "addr option"
  e_fd :: int
  e_index :: int
  e_persist :: bool
  e_timeout :: timeval
  e_func :: addr
  e_param :: "addr option"

text \<open>
  The static data of the file: the memory the events live in, \<open>readFds\<close>, \<open>nfds\<close> and
  \<open>watch_table\<close>. \<open>timer_list\<close> and \<open>pending_list\<close> are events of static storage, at fixed
  addresses; the record is extended by the modules that use the loop.
\<close>

record ril_event_state =
  ev :: "addr \<Rightarrow> ril_event"
  readFds :: "int set"
  nfds :: int
  watch_table :: "addr option list"

definition timer_list :: addr where
  "timer_list = 0"

definition pending_list :: addr where
  "pending_list = 1"

lemma sentinels_neq [simp]: "timer_list \<noteq> pending_list" "pending_list \<noteq> timer_list"
  by (simp_all add: timer_list_def pending_list_def)

section \<open>Operations\<close>

subsection \<open>Time arithmetic\<close>

definition timeradd :: "timeval \<Rightarrow> timeval \<Rightarrow> timeval" where
  "timeradd a b =
     (let s = tv_sec a + tv_sec b; u = tv_usec a + tv_usec b
      in if u \<ge> 1000000 then Timeval (s + 1) (u - 1000000) else Timeval s u)"

definition timersub :: "timeval \<Rightarrow> timeval \<Rightarrow> timeval" where
  "timersub a b =
     (let s = tv_sec a - tv_sec b; u = tv_usec a - tv_usec b
      in if u < 0 then Timeval (s - 1) (u + 1000000) else Timeval s u)"

text \<open>\<open>clock_gettime\<close> counts nanoseconds, \<open>struct timeval\<close> microseconds.\<close>

definition getNow :: "int \<Rightarrow> int \<Rightarrow> timeval" where
  "getNow ts_sec ts_nsec = Timeval ts_sec (ts_nsec div 1000)"

subsection \<open>Intrusive lists\<close>

definition set_next :: "addr \<Rightarrow> addr option \<Rightarrow> 'm ril_event_state_scheme \<Rightarrow> 'm ril_event_state_scheme" where
  "set_next a v s = s\<lparr>ev := (ev s)(a := (ev s a)\<lparr>e_next := v\<rparr>)\<rparr>"

definition set_prev :: "addr \<Rightarrow> addr option \<Rightarrow> 'm ril_event_state_scheme \<Rightarrow> 'm ril_event_state_scheme" where
  "set_prev a v s = s\<lparr>ev := (ev s)(a := (ev s a)\<lparr>e_prev := v\<rparr>)\<rparr>"

definition init_list :: "addr \<Rightarrow> 'm ril_event_state_scheme \<Rightarrow> 'm ril_event_state_scheme" where
  "init_list l s = s\<lparr>ev := (ev s)(l := \<lparr>e_next = Some l, e_prev = Some l, e_fd = -1, e_index = 0,
       e_persist = False, e_timeout = Timeval 0 0, e_func = 0, e_param = None\<rparr>)\<rparr>"

definition addToList :: "addr \<Rightarrow> addr \<Rightarrow> 'm ril_event_state_scheme \<Rightarrow> 'm ril_event_state_scheme option" where
  "addToList e l s =
     (let s1 = set_next e (Some l) s;
          s2 = set_prev e (e_prev (ev s1 l)) s1
      in case e_prev (ev s2 e) of
           None \<Rightarrow> None
         | Some p \<Rightarrow> Some (set_prev l (Some e) (set_next p (Some e) s2)))"

definition removeFromList :: "addr \<Rightarrow> 'm ril_event_state_scheme \<Rightarrow> 'm ril_event_state_scheme option" where
  "removeFromList e s =
     (case e_next (ev s e) of
        None \<Rightarrow> None
      | Some n \<Rightarrow>
          (let s1 = set_prev n (e_prev (ev s e)) s
           in case e_prev (ev s1 e) of
                None \<Rightarrow> None
              | Some p \<Rightarrow>
                  (let s2 = set_next p (e_next (ev s1 e)) s1
                   in Some (set_prev e None (set_next e None s2)))))"

subsection \<open>The watch table\<close>

definition max_watched :: "'m ril_event_state_scheme \<Rightarrow> int" where
  "max_watched s =
     foldl (\<lambda>n w. case w of None \<Rightarrow> n | Some r \<Rightarrow> if e_fd (ev s r) > n then e_fd (ev s r) else n)
       0 (watch_table s)"

definition removeWatch :: "addr \<Rightarrow> nat \<Rightarrow> 'm ril_event_state_scheme \<Rightarrow> 'm ril_event_state_scheme" where
  "removeWatch e i s =
     (let s1 = s\<lparr>watch_table := (watch_table s)[i := None]\<rparr>;
          s2 = s1\<lparr>ev := (ev s1)(e := (ev s1 e)\<lparr>e_index := -1\<rparr>)\<rparr>;
          s3 = s2\<lparr>readFds := readFds s2 - {e_fd (ev s2 e)}\<rparr>
      in if e_fd (ev s3 e) + 1 = nfds s3 then s3\<lparr>nfds := max_watched s3 + 1\<rparr> else s3)"

text \<open>The first free slot at or after \<open>i\<close>; \<open>None\<close> when the loop runs off the table.\<close>

fun find_slot :: "nat \<Rightarrow> addr option list \<Rightarrow> nat option" where
  "find_slot i [] = None"
| "find_slot i (w # ws) = (if w = None then Some i else find_slot (Suc i) ws)"

definition ril_event_init :: "'m ril_event_state_scheme \<Rightarrow> 'm ril_event_state_scheme" where
  "ril_event_init s =
     (init_list pending_list (init_list timer_list (s\<lparr>readFds := {}\<rparr>)))
       \<lparr>watch_table := replicate MAX_FD_EVENTS None\<rparr>"

definition ril_event_set ::
  "addr \<Rightarrow> int \<Rightarrow> bool \<Rightarrow> addr \<Rightarrow> addr option \<Rightarrow> 'm ril_event_state_scheme \<Rightarrow> 'm ril_event_state_scheme" where
  "ril_event_set e fd persist func param s =
     s\<lparr>ev := (ev s)(e := \<lparr>e_next = None, e_prev = None, e_fd = fd, e_index = -1,
        e_persist = persist, e_timeout = Timeval 0 0, e_func = func, e_param = param\<rparr>)\<rparr>"

definition ril_event_add :: "addr \<Rightarrow> 'm ril_event_state_scheme \<Rightarrow> 'm ril_event_state_scheme" where
  "ril_event_add e s =
     (case find_slot 0 (watch_table s) of
        None \<Rightarrow> s
      | Some i \<Rightarrow>
          (let s1 = s\<lparr>watch_table := (watch_table s)[i := Some e]\<rparr>;
               s2 = s1\<lparr>ev := (ev s1)(e := (ev s1 e)\<lparr>e_index := int i\<rparr>)\<rparr>;
               s3 = s2\<lparr>readFds := insert (e_fd (ev s2 e)) (readFds s2)\<rparr>
           in if e_fd (ev s3 e) \<ge> nfds s3 then s3\<lparr>nfds := e_fd (ev s3 e) + 1\<rparr> else s3))"

definition ril_event_del :: "addr \<Rightarrow> 'm ril_event_state_scheme \<Rightarrow> 'm ril_event_state_scheme" where
  "ril_event_del e s =
     (if e_index (ev s e) < 0 \<or> e_index (ev s e) \<ge> int MAX_FD_EVENTS then s
      else removeWatch e (nat (e_index (ev s e))) s)"

subsection \<open>Timers\<close>

text \<open>
  The walks over the lists follow \<open>e_next\<close> until they meet the sentinel; that they end is a
  property of the lists, not of the code, so they are \<open>partial_function\<close>s and termination is
  part of the theorems below.
\<close>

partial_function (option) timer_add_walk ::
  "timeval \<Rightarrow> addr \<Rightarrow> 'm ril_event_state_scheme \<Rightarrow> addr option" where
  "timer_add_walk t l s =
     (if e_timeout (ev s l) < t \<and> l \<noteq> timer_list
      then case e_next (ev s l) of None \<Rightarrow> None | Some n \<Rightarrow> timer_add_walk t n s
      else Some l)"

definition ril_timer_add ::
  "addr \<Rightarrow> timeval option \<Rightarrow> timeval \<Rightarrow> 'm ril_event_state_scheme \<Rightarrow> 'm ril_event_state_scheme option" where
  "ril_timer_add e tv now s =
     (case tv of
        None \<Rightarrow> Some s
      | Some tv \<Rightarrow>
          (case e_next (ev s timer_list) of
             None \<Rightarrow> None
           | Some l \<Rightarrow>
               (let s1 = s\<lparr>ev := (ev s)(e := (ev s e)\<lparr>e_fd := -1\<rparr>)\<rparr>;
                    s2 = s1\<lparr>ev := (ev s1)(e := (ev s1 e)\<lparr>e_timeout := timeradd now tv\<rparr>)\<rparr>
                in case timer_add_walk (e_timeout (ev s2 e)) l s2 of
                     None \<Rightarrow> None
                   | Some l' \<Rightarrow> addToList e l' s2)))"

partial_function (option) processTimeouts_loop ::
  "timeval \<Rightarrow> addr \<Rightarrow> 'm ril_event_state_scheme \<Rightarrow> 'm ril_event_state_scheme option" where
  "processTimeouts_loop now tev s =
     (if tev \<noteq> timer_list \<and> e_timeout (ev s tev) < now
      then case e_next (ev s tev) of
             None \<Rightarrow> None
           | Some next \<Rightarrow>
               Option.bind (removeFromList tev s) (\<lambda>s1.
               Option.bind (addToList tev pending_list s1) (\<lambda>s2.
               processTimeouts_loop now next s2))
      else Some s)"

definition processTimeouts :: "timeval \<Rightarrow> 'm ril_event_state_scheme \<Rightarrow> 'm ril_event_state_scheme option" where
  "processTimeouts now s =
     (case e_next (ev s timer_list) of
        None \<Rightarrow> None
      | Some tev \<Rightarrow> processTimeouts_loop now tev s)"

text \<open>\<open>None\<close> is the result \<open>-1\<close> (no timer), \<open>Some (Some tv)\<close> the relative timeout.\<close>

definition calcNextTimeout :: "timeval \<Rightarrow> 'm ril_event_state_scheme \<Rightarrow> timeval option option" where
  "calcNextTimeout now s =
     (case e_next (ev s timer_list) of
        None \<Rightarrow> None
      | Some tev \<Rightarrow>
          Some (if tev = timer_list then None
                else if now < e_timeout (ev s tev) then Some (timersub (e_timeout (ev s tev)) now)
                else Some (Timeval 0 0)))"

subsection \<open>One turn of the loop\<close>

fun processReadReadies_loop ::
  "int set \<Rightarrow> nat list \<Rightarrow> int \<Rightarrow> 'm ril_event_state_scheme \<Rightarrow> 'm ril_event_state_scheme option" where
  "processReadReadies_loop rfds [] n s = Some s"
| "processReadReadies_loop rfds (i # is) n s =
     (if n > 0 then
        (case watch_table s ! i of
           None \<Rightarrow> processReadReadies_loop rfds is n s
         | Some w \<Rightarrow>
             if e_fd (ev s w) \<in> rfds then
               Option.bind (addToList w pending_list s) (\<lambda>s1.
                 processReadReadies_loop rfds is (n - 1)
                   (if e_persist (ev s1 w) then s1 else removeWatch w i s1))
             else processReadReadies_loop rfds is n s)
      else Some s)"

definition processReadReadies ::
  "int set \<Rightarrow> int \<Rightarrow> 'm ril_event_state_scheme \<Rightarrow> 'm ril_event_state_scheme option" where
  "processReadReadies rfds n s = processReadReadies_loop rfds [0..<MAX_FD_EVENTS] n s"

text \<open>
  The callbacks are functions of the rest of the program: \<open>cb func fd param\<close> runs the code at
  the address \<open>func\<close>.
\<close>

partial_function (option) firePending_loop ::
  "(addr \<Rightarrow> int \<Rightarrow> addr option \<Rightarrow> 'm ril_event_state_scheme \<Rightarrow> 'm ril_event_state_scheme option) \<Rightarrow>
   addr \<Rightarrow> 'm ril_event_state_scheme \<Rightarrow> 'm ril_event_state_scheme option" where
  "firePending_loop cb e s =
     (if e \<noteq> pending_list
      then case e_next (ev s e) of
             None \<Rightarrow> None
           | Some next \<Rightarrow>
               Option.bind (removeFromList e s) (\<lambda>s1.
               Option.bind (cb (e_func (ev s1 e)) (e_fd (ev s1 e)) (e_param (ev s1 e)) s1) (\<lambda>s2.
               firePending_loop cb next s2))
      else Some s)"

definition firePending ::
  "(addr \<Rightarrow> int \<Rightarrow> addr option \<Rightarrow> 'm ril_event_state_scheme \<Rightarrow> 'm ril_event_state_scheme option) \<Rightarrow>
   'm ril_event_state_scheme \<Rightarrow> 'm ril_event_state_scheme option" where
  "firePending cb s =
     (case e_next (ev s pending_list) of
        None \<Rightarrow> None
      | Some e \<Rightarrow> firePending_loop cb e s)"

text \<open>
  What \<open>select\<close> answers: a negative count with \<open>errno\<close> (whether it is \<open>EINTR\<close>), or the
  number of ready descriptors and the descriptors left in \<open>rfds\<close>.
\<close>

datatype select_result = SelectError bool | Ready int "int set"

datatype 's loop_turn = Continue 's | Return 's

text \<open>
  The body of \<open>for (;;)\<close>. The arguments are the clock at \<open>calcNextTimeout\<close>, \<open>select\<close> as a
  function of \<open>nfds\<close>, the copied set and the timeout, and the clock at \<open>processTimeouts\<close>.
\<close>

definition ril_event_loop_body ::
  "(addr \<Rightarrow> int \<Rightarrow> addr option \<Rightarrow> 'm ril_event_state_scheme \<Rightarrow> 'm ril_event_state_scheme option) \<Rightarrow>
   timeval \<Rightarrow> (int \<Rightarrow> int set \<Rightarrow> timeval option \<Rightarrow> select_result) \<Rightarrow> timeval \<Rightarrow>
   'm ril_event_state_scheme \<Rightarrow> 'm ril_event_state_scheme loop_turn option" where
  "ril_event_loop_body cb now1 select now2 s =
     Option.bind (calcNextTimeout now1 s) (\<lambda>ptv.
       case select (nfds s) (readFds s) ptv of
         SelectError eintr \<Rightarrow> Some (if eintr then Continue s else Return s)
       | Ready n rfds \<Rightarrow>
           Option.bind (processTimeouts now2 s) (\<lambda>s1.
           Option.bind (processReadReadies rfds n s1) (\<lambda>s2.
           Option.bind (firePending cb s2) (\<lambda>s3. Some (Continue s3)))))"

section \<open>Lists in memory\<close>

text \<open>
  \<open>path N P a xs b\<close>: following \<open>N\<close> from \<open>a\<close> visits \<open>xs\<close> and then \<open>b\<close>, and \<open>P\<close> leads back.
  A circular list is a path from its sentinel to itself.
\<close>

fun path :: "(addr \<Rightarrow> addr option) \<Rightarrow> (addr \<Rightarrow> addr option) \<Rightarrow> addr \<Rightarrow> addr list \<Rightarrow> addr \<Rightarrow> bool" where
  "path N P a [] b = (N a = Some b \<and> P b = Some a)"
| "path N P a (x # xs) b = (N a = Some x \<and> P x = Some a \<and> path N P x xs b)"

abbreviation nx :: "'m ril_event_state_scheme \<Rightarrow> addr \<Rightarrow> addr option" where
  "nx s \<equiv> (\<lambda>a. e_next (ev s a))"

abbreviation pv :: "'m ril_event_state_scheme \<Rightarrow> addr \<Rightarrow> addr option" where
  "pv s \<equiv> (\<lambda>a. e_prev (ev s a))"

abbreviation tmo :: "'m ril_event_state_scheme \<Rightarrow> addr \<Rightarrow> timeval" where
  "tmo s \<equiv> (\<lambda>a. e_timeout (ev s a))"

definition ring :: "'m ril_event_state_scheme \<Rightarrow> addr \<Rightarrow> addr list \<Rightarrow> bool" where
  "ring s l xs \<longleftrightarrow> path (nx s) (pv s) l xs l \<and> distinct (l # xs)"

lemma path_append:
  "path N P a (xs @ y # ys) b \<longleftrightarrow> path N P a xs y \<and> path N P y ys b"
  by (induction xs arbitrary: a) auto

lemma path_cong:
  "(\<And>x. x \<in> set (a # xs) \<Longrightarrow> N' x = N x) \<Longrightarrow> (\<And>x. x \<in> set (xs @ [b]) \<Longrightarrow> P' x = P x) \<Longrightarrow>
   path N' P' a xs b = path N P a xs b"
  by (induction xs arbitrary: a) auto

lemma path_next: "path N P a xs b \<Longrightarrow> N a = Some (hd (xs @ [b]))"
  by (cases xs) auto

lemma path_prev: "path N P a xs b \<Longrightarrow> P b = Some (last (a # xs))"
  by (induction xs arbitrary: a) auto

lemma path_insert:
  assumes "path N P a xs b" "e \<notin> set (a # xs)" "e \<noteq> b" "distinct (a # xs)" "b \<notin> set xs"
    and "p = last (a # xs)"
  shows "path (N(e := Some b, p := Some e)) (P(e := Some p, b := Some e)) a (xs @ [e]) b"
proof (cases xs rule: rev_cases)
  case Nil
  with assms show ?thesis by simp
next
  case (snoc us q)
  with assms have p: "p = q" and "path N P a us q" by (auto simp: path_append)
  then have "path (N(e := Some b, p := Some e)) (P(e := Some p, b := Some e)) a us q"
    using assms(2-5) snoc by (subst path_cong [where N = N and P = P]) auto
  with snoc p assms(2,3,5) show ?thesis by (auto simp: path_append)
qed

lemma path_remove_head:
  assumes "path N P a (e # xs) b" "distinct (a # e # xs)" "b \<notin> set (e # xs)"
    and "n = hd (xs @ [b])"
  shows "path (N(a := Some n, e := None)) (P(n := Some a, e := None)) a xs b"
proof (cases xs)
  case Nil
  with assms show ?thesis by auto
next
  case (Cons x us)
  with assms have n: "n = x" and "path N P x us b" by auto
  then have "path (N(a := Some n, e := None)) (P(n := Some a, e := None)) x us b"
    using assms(2,3) Cons by (subst path_cong [where N = N and P = P]) auto
  with Cons n assms(2,3) show ?thesis by auto
qed

text \<open>The fields the list operations do not touch.\<close>

definition same_payload :: "'m ril_event_state_scheme \<Rightarrow> 'm ril_event_state_scheme \<Rightarrow> bool" where
  "same_payload s s' \<longleftrightarrow> s' = s\<lparr>ev := ev s'\<rparr> \<and>
     (\<forall>a. ev s' a = (ev s a)\<lparr>e_next := e_next (ev s' a), e_prev := e_prev (ev s' a)\<rparr>)"

lemma same_payload_refl [simp]: "same_payload s s"
  by (simp add: same_payload_def)

lemma same_payload_trans: "same_payload s t \<Longrightarrow> same_payload t u \<Longrightarrow> same_payload s u"
  unfolding same_payload_def
  by (metis (no_types, lifting) ril_event.surjective ril_event.update_convs(1,2)
      ril_event_state.surjective ril_event_state.update_convs(1))

lemma same_payload_fields:
  assumes "same_payload s s'"
  shows "readFds s' = readFds s" "nfds s' = nfds s" "watch_table s' = watch_table s"
    "ril_event_state.more s' = ril_event_state.more s"
    "e_fd (ev s' a) = e_fd (ev s a)" "e_index (ev s' a) = e_index (ev s a)"
    "e_persist (ev s' a) = e_persist (ev s a)" "e_timeout (ev s' a) = e_timeout (ev s a)"
    "e_func (ev s' a) = e_func (ev s a)" "e_param (ev s' a) = e_param (ev s a)"
proof -
  from assms have s: "s' = s\<lparr>ev := ev s'\<rparr>"
    and a: "\<And>a. ev s' a = (ev s a)\<lparr>e_next := e_next (ev s' a), e_prev := e_prev (ev s' a)\<rparr>"
    by (simp_all add: same_payload_def)
  show "readFds s' = readFds s" "nfds s' = nfds s" "watch_table s' = watch_table s"
    "ril_event_state.more s' = ril_event_state.more s"
    by (subst s, simp)+
  show "e_fd (ev s' a) = e_fd (ev s a)" "e_index (ev s' a) = e_index (ev s a)"
    "e_persist (ev s' a) = e_persist (ev s a)" "e_timeout (ev s' a) = e_timeout (ev s a)"
    "e_func (ev s' a) = e_func (ev s a)" "e_param (ev s' a) = e_param (ev s a)"
    by (subst a, simp)+
qed

lemma link_fields [simp]:
  "nx (set_next a v s) = (nx s)(a := v)" "pv (set_next a v s) = pv s"
  "nx (set_prev a v s) = nx s" "pv (set_prev a v s) = (pv s)(a := v)"
  "e_next (ev (set_next a v s) b) = (if b = a then v else e_next (ev s b))"
  "e_prev (ev (set_next a v s) b) = e_prev (ev s b)"
  "e_next (ev (set_prev a v s) b) = e_next (ev s b)"
  "e_prev (ev (set_prev a v s) b) = (if b = a then v else e_prev (ev s b))"
  by (auto simp: set_next_def set_prev_def)

lemma same_payload_set [simp]: "same_payload s (set_next a v s)" "same_payload s (set_prev a v s)"
  by (auto simp: same_payload_def set_next_def set_prev_def)

lemma addToList_links:
  assumes "pv s l = Some p"
  obtains s' where "addToList e l s = Some s'" "same_payload s s'"
    "nx s' = (nx s)(e := Some l, p := Some e)" "pv s' = (pv s)(e := Some p, l := Some e)"
proof -
  let ?s' = "set_prev l (Some e) (set_next p (Some e) (set_prev e (Some p) (set_next e (Some l) s)))"
  from assms have s': "addToList e l s = Some ?s'"
    by (simp add: addToList_def Let_def)
  show thesis
  proof (rule that [OF s'])
    show "same_payload s ?s'"
      by (meson same_payload_set same_payload_trans)
    show "nx ?s' = (nx s)(e := Some l, p := Some e)"
      by (auto simp: fun_eq_iff)
    show "pv ?s' = (pv s)(e := Some p, l := Some e)"
      by (auto simp: fun_eq_iff)
  qed
qed

lemma removeFromList_links:
  assumes "nx s e = Some n" "pv s e = Some p" "n \<noteq> e"
  obtains s' where "removeFromList e s = Some s'" "same_payload s s'"
    "nx s' = (nx s)(p := Some n, e := None)" "pv s' = (pv s)(n := Some p, e := None)"
proof -
  let ?s' = "set_prev e None (set_next e None (set_next p (Some n) (set_prev n (Some p) s)))"
  from assms have s': "removeFromList e s = Some ?s'"
    by (simp add: removeFromList_def Let_def)
  show thesis
  proof (rule that [OF s'])
    show "same_payload s ?s'"
      by (meson same_payload_set same_payload_trans)
    show "nx ?s' = (nx s)(p := Some n, e := None)"
      by (auto simp: fun_eq_iff)
    show "pv ?s' = (pv s)(n := Some p, e := None)"
      by (auto simp: fun_eq_iff)
  qed
qed

lemma ring_cong:
  "(\<And>x. x \<in> set (l # xs) \<Longrightarrow> nx s' x = nx s x \<and> pv s' x = pv s x) \<Longrightarrow> ring s' l xs = ring s l xs"
  unfolding ring_def by (subst path_cong [where N = "nx s" and P = "pv s"]) auto

lemma ring_frame:
  assumes "ring s l xs" and "\<And>x. x \<notin> A \<Longrightarrow> nx s' x = nx s x \<and> pv s' x = pv s x"
    and "A \<inter> set (l # xs) = {}"
  shows "ring s' l xs"
proof -
  have "ring s' l xs = ring s l xs"
    by (rule ring_cong) (metis assms(2,3) disjoint_iff)
  with assms(1) show ?thesis by simp
qed

section \<open>The invariant of the lists\<close>

text \<open>
  \<open>wf_lists s ts ps\<close>: the timer list holds the events \<open>ts\<close> in order of timeout, the pending
  list the events \<open>ps\<close>, and no event is on both.
\<close>

definition wf_lists :: "'m ril_event_state_scheme \<Rightarrow> addr list \<Rightarrow> addr list \<Rightarrow> bool" where
  "wf_lists s ts ps \<longleftrightarrow>
     ring s timer_list ts \<and> ring s pending_list ps \<and>
     set (timer_list # ts) \<inter> set (pending_list # ps) = {} \<and> sorted (map (tmo s) ts)"

lemma wf_lists_cong:
  assumes "\<And>x. x \<in> set (timer_list # ts) \<union> set (pending_list # ps) \<Longrightarrow>
      nx s' x = nx s x \<and> pv s' x = pv s x \<and> tmo s' x = tmo s x"
  shows "wf_lists s' ts ps = wf_lists s ts ps"
proof -
  have "ring s' timer_list ts = ring s timer_list ts"
    by (rule ring_cong) (use assms in auto)
  moreover have "ring s' pending_list ps = ring s pending_list ps"
    by (rule ring_cong) (use assms in auto)
  moreover have "map (tmo s') ts = map (tmo s) ts" using assms by auto
  ultimately show ?thesis unfolding wf_lists_def by metis
qed

text \<open>Appending to a list, and removing its first element.\<close>

lemma addToList_append:
  assumes "ring s l xs" "e \<notin> set (l # xs)"
  obtains s' where "addToList e l s = Some s'" "same_payload s s'" "ring s' l (xs @ [e])"
    "\<And>x. x \<notin> set (e # l # xs) \<Longrightarrow> nx s' x = nx s x \<and> pv s' x = pv s x"
proof -
  from assms have path: "path (nx s) (pv s) l xs l" and d: "distinct (l # xs)"
    by (auto simp: ring_def)
  have l: "pv s l = Some (last (l # xs))" using path by (rule path_prev)
  from addToList_links [OF l, of e] obtain s' where s': "addToList e l s = Some s'" "same_payload s s'"
    "nx s' = (nx s)(e := Some l, last (l # xs) := Some e)"
    "pv s' = (pv s)(e := Some (last (l # xs)), l := Some e)" by blast
  show thesis
  proof (rule that [OF s'(1,2)])
    have "path (nx s') (pv s') l (xs @ [e]) l"
      unfolding s'(3,4) by (rule path_insert [OF path]) (use assms(2) d in auto)
    then show "ring s' l (xs @ [e])" using d assms(2) by (auto simp: ring_def)
    show "nx s' x = nx s x \<and> pv s' x = pv s x" if "x \<notin> set (e # l # xs)" for x
      using that last_in_set [of "l # xs"] fun_cong [OF s'(3), of x] fun_cong [OF s'(4), of x]
      by auto
  qed
qed

lemma addToList_before:
  assumes "ring s r (us @ l # vs)" "e \<notin> set (r # us @ l # vs)"
  obtains s' where "addToList e l s = Some s'" "same_payload s s'" "ring s' r (us @ e # l # vs)"
    "\<And>x. x \<notin> set (e # r # us @ l # vs) \<Longrightarrow> nx s' x = nx s x \<and> pv s' x = pv s x"
proof -
  from assms have path: "path (nx s) (pv s) r us l" "path (nx s) (pv s) l vs r"
    and d: "distinct (r # us @ l # vs)"
    by (auto simp: ring_def path_append)
  let ?p = "last (r # us)"
  have p: "?p \<in> set (r # us)" by (rule last_in_set) simp
  have l: "pv s l = Some ?p" using path(1) by (rule path_prev)
  from addToList_links [OF l, of e] obtain s' where s': "addToList e l s = Some s'" "same_payload s s'"
    "nx s' = (nx s)(e := Some l, ?p := Some e)" "pv s' = (pv s)(e := Some ?p, l := Some e)"
    by blast
  show thesis
  proof (rule that [OF s'(1,2)])
    have "path (nx s') (pv s') r (us @ [e]) l"
      unfolding s'(3,4) by (rule path_insert [OF path(1)]) (use assms(2) d in auto)
    moreover have "path (nx s') (pv s') l vs r"
      unfolding s'(3,4) using path(2) p d assms(2)
      by (subst path_cong [where N = "nx s" and P = "pv s"]) auto
    ultimately have "path (nx s') (pv s') r ((us @ [e]) @ l # vs) r" by (simp only: path_append)
    then show "ring s' r (us @ e # l # vs)" using d assms(2) by (auto simp: ring_def)
    show "nx s' x = nx s x \<and> pv s' x = pv s x" if "x \<notin> set (e # r # us @ l # vs)" for x
      using that p fun_cong [OF s'(3), of x] fun_cong [OF s'(4), of x] by auto
  qed
qed

text \<open>The two positions at once: in front of whatever follows \<open>us\<close>, the sentinel included.\<close>

lemma addToList_at:
  assumes r: "ring s r (us @ vs)" and e: "e \<notin> set (r # us @ vs)"
  obtains s' where "addToList e (hd (vs @ [r])) s = Some s'" "same_payload s s'"
    "ring s' r (us @ e # vs)"
    "\<And>x. x \<notin> set (e # r # us @ vs) \<Longrightarrow> nx s' x = nx s x \<and> pv s' x = pv s x"
proof (cases vs)
  case Nil
  with r e have "ring s r us" "e \<notin> set (r # us)" by auto
  from addToList_append [OF this] obtain s' where "addToList e r s = Some s'" "same_payload s s'"
    "ring s' r (us @ [e])" "\<And>x. x \<notin> set (e # r # us) \<Longrightarrow> nx s' x = nx s x \<and> pv s' x = pv s x"
    by metis
  with that [of s'] show thesis by (simp add: Nil)
next
  case (Cons v vs')
  with r e have "ring s r (us @ v # vs')" "e \<notin> set (r # us @ v # vs')" by auto
  from addToList_before [OF this] obtain s' where "addToList e v s = Some s'" "same_payload s s'"
    "ring s' r (us @ e # v # vs')"
    "\<And>x. x \<notin> set (e # r # us @ v # vs') \<Longrightarrow> nx s' x = nx s x \<and> pv s' x = pv s x"
    by metis
  with that [of s'] show thesis by (simp add: Cons)
qed

lemma removeFromList_head:
  assumes "ring s l (e # xs)"
  obtains s' where "removeFromList e s = Some s'" "same_payload s s'" "ring s' l xs"
    "nx s e = Some (hd (xs @ [l]))" "\<And>x. x \<notin> set (l # e # xs) \<Longrightarrow> nx s' x = nx s x \<and> pv s' x = pv s x"
proof -
  from assms have path: "path (nx s) (pv s) l (e # xs) l" and d: "distinct (l # e # xs)"
    by (auto simp: ring_def)
  let ?n = "hd (xs @ [l])"
  have n: "?n \<in> set (l # xs)" by (cases xs) auto
  have e: "nx s e = Some ?n" "pv s e = Some l" "?n \<noteq> e"
    using path path_next [of "nx s" "pv s" e xs l] n d by auto
  from removeFromList_links [OF e] obtain s' where s': "removeFromList e s = Some s'"
    "same_payload s s'" "nx s' = (nx s)(l := Some ?n, e := None)"
    "pv s' = (pv s)(?n := Some l, e := None)" by blast
  show thesis
  proof (rule that [OF s'(1,2)])
    have "path (nx s') (pv s') l xs l"
      unfolding s'(3,4) by (rule path_remove_head [OF path]) (use d in auto)
    then show "ring s' l xs" using d by (auto simp: ring_def)
    show "nx s e = Some ?n" by (rule e)
    show "nx s' x = nx s x \<and> pv s' x = pv s x" if "x \<notin> set (l # e # xs)" for x
      using that n fun_cong [OF s'(3), of x] fun_cong [OF s'(4), of x] by auto
  qed
qed

text \<open>Taking the first event off the pending list.\<close>

lemma fire_head_lists:
  assumes wf: "wf_lists s ts (e # ps)" and r: "removeFromList e s = Some s1"
  shows "wf_lists s1 ts ps" "same_payload s s1"
proof -
  have R: "ring s pending_list (e # ps)" and T: "ring s timer_list ts"
    and D: "set (timer_list # ts) \<inter> set (pending_list # e # ps) = {}" and S: "sorted (map (tmo s) ts)"
    using wf by (simp_all add: wf_lists_def)
  from removeFromList_head [OF R] obtain s' where s': "removeFromList e s = Some s'" "same_payload s s'"
    "ring s' pending_list ps" "\<And>x. x \<notin> set (pending_list # e # ps) \<Longrightarrow> nx s' x = nx s x \<and> pv s' x = pv s x"
    by metis
  with r have eq: "s1 = s'" by simp
  then show "same_payload s s1" using s'(2) by simp
  have "x \<notin> set (pending_list # e # ps)" if "x \<in> set (timer_list # ts)" for x
    using D that by auto
  then have "ring s' timer_list ts = ring s timer_list ts"
    by (intro ring_cong s'(4))
  then have "ring s1 timer_list ts" using T eq by simp
  moreover have "tmo s1 = tmo s" using s'(2) eq by (simp add: same_payload_fields)
  ultimately show "wf_lists s1 ts ps" using s'(3) S D eq by (auto simp: wf_lists_def)
qed

section \<open>Timers\<close>

lemma timer_add_walk_end:
  "path (nx s) (pv s) a xs timer_list \<Longrightarrow> timer_list \<notin> set xs \<Longrightarrow>
   timer_add_walk t (hd (xs @ [timer_list])) s =
     Some (hd (dropWhile (\<lambda>y. tmo s y < t) xs @ [timer_list]))"
proof (induction xs arbitrary: a)
  case Nil
  show ?case by (simp add: timer_add_walk.simps)
next
  case (Cons x xs)
  then have "nx s x = Some (hd (xs @ [timer_list]))" by (auto dest: path_next)
  with Cons show ?case by (auto simp: timer_add_walk.simps [of t x])
qed

text \<open>
  The function \<open>ril_timer_add\<close> puts the event in front of the first timer that is due no
  earlier, and the list stays sorted. No other event is touched.
\<close>

lemma ril_timer_add_lists:
  assumes wf: "wf_lists s ts ps" and e: "e \<notin> set (timer_list # ts) \<union> set (pending_list # ps)"
    and t_def: "t = timeradd now tv"
  obtains s' where "ril_timer_add e (Some tv) now s = Some s'"
    "wf_lists s' (ins_at (\<lambda>y. tmo s y < t) e ts) ps"
    "same_payload (s\<lparr>ev := (ev s)(e := (ev s e)\<lparr>e_fd := -1, e_timeout := t\<rparr>)\<rparr>) s'"
proof -
  let ?s = "s\<lparr>ev := (ev s)(e := (ev s e)\<lparr>e_fd := -1, e_timeout := t\<rparr>)\<rparr>"
  let ?us = "takeWhile (\<lambda>y. tmo s y < t) ts" and ?vs = "dropWhile (\<lambda>y. tmo s y < t) ts"
  have wf': "wf_lists ?s ts ps"
    by (subst wf_lists_cong [where s = s]) (use wf e in \<open>auto simp: wf_lists_def\<close>)
  have tm: "tmo ?s e = t" "\<And>y. y \<in> set ts \<Longrightarrow> tmo ?s y = tmo s y" using e by auto
  have path: "path (nx ?s) (pv ?s) timer_list ts timer_list" and d: "timer_list \<notin> set ts"
    using wf' by (auto simp: wf_lists_def ring_def)
  have drop: "dropWhile (\<lambda>y. tmo ?s y < t) ts = ?vs" by (rule dropWhile_cong) (use tm in auto)
  have take: "takeWhile (\<lambda>y. tmo ?s y < t) ts = ?us" by (rule takeWhile_cong) (use tm in auto)
  have "timer_add_walk t (hd (ts @ [timer_list])) ?s = Some (hd (?vs @ [timer_list]))"
    using timer_add_walk_end [OF path d, of t] unfolding drop .
  moreover have "nx s timer_list = Some (hd (ts @ [timer_list]))"
    using wf by (auto simp: wf_lists_def ring_def intro: path_next)
  ultimately have eq: "ril_timer_add e (Some tv) now s = addToList e (hd (?vs @ [timer_list])) ?s"
    by (simp add: ril_timer_add_def t_def)
  have r: "ring ?s timer_list (?us @ ?vs)" using wf' by (simp add: wf_lists_def)
  have fr: "e \<notin> set (timer_list # ?us @ ?vs)" using e by simp
  obtain s' where s': "addToList e (hd (?vs @ [timer_list])) ?s = Some s'" "same_payload ?s s'"
    "ring s' timer_list (?us @ e # ?vs)"
    "\<And>x. x \<notin> set (e # timer_list # ?us @ ?vs) \<Longrightarrow> nx s' x = nx ?s x \<and> pv s' x = pv ?s x"
    using addToList_at [OF r fr] by metis
  let ?L = "ins_at (\<lambda>y. tmo s y < t) e ts"
  have p: "ring s' pending_list ps"
    using wf' e s'(4) by (subst ring_cong [where s = ?s]) (auto simp: wf_lists_def)
  have tmo': "tmo s' = tmo ?s" using s'(2) by (simp add: same_payload_fields)
  have L: "?L = ins_at (\<lambda>y. tmo ?s y < tmo ?s e) e ts"
    unfolding ins_at_def tm(1) drop take ..
  have "sorted (map (tmo ?s) ts)" using wf' by (simp add: wf_lists_def)
  then have "sorted (map (tmo s') ?L)"
    unfolding tmo' L by (rule sorted_ins_at_less)
  moreover have "ring s' timer_list ?L" using s'(3) by (simp add: ins_at_def)
  moreover have "set (timer_list # ?L) \<inter> set (pending_list # ps) = {}"
    using wf e by (auto simp: wf_lists_def ins_simps)
  ultimately have "wf_lists s' ?L ps" using p by (simp only: wf_lists_def simp_thms)
  with that eq s'(1,2) show thesis by simp
qed

lemma wf_timer_head: "wf_lists s ts ps \<Longrightarrow> nx s timer_list = Some (hd (ts @ [timer_list]))"
  by (auto simp: wf_lists_def ring_def intro: path_next)

lemma wf_pending_head: "wf_lists s ts ps \<Longrightarrow> nx s pending_list = Some (hd (ps @ [pending_list]))"
  by (auto simp: wf_lists_def ring_def intro: path_next)

text \<open>Moving the first timer to the end of the pending list.\<close>

lemma expire_head:
  assumes "wf_lists s (e # ts) ps"
  obtains s1 s2 where "nx s e = Some (hd (ts @ [timer_list]))"
    "removeFromList e s = Some s1" "addToList e pending_list s1 = Some s2"
    "same_payload s s2" "wf_lists s2 ts (ps @ [e])"
proof -
  from assms have r: "ring s timer_list (e # ts)" "ring s pending_list ps"
    and dj: "set (timer_list # e # ts) \<inter> set (pending_list # ps) = {}"
    and so: "sorted (map (tmo s) (e # ts))"
    by (auto simp: wf_lists_def)
  from removeFromList_head [OF r(1)] obtain s1 where s1: "removeFromList e s = Some s1"
    "same_payload s s1" "ring s1 timer_list ts" "nx s e = Some (hd (ts @ [timer_list]))"
    "\<And>x. x \<notin> set (timer_list # e # ts) \<Longrightarrow> nx s1 x = nx s x \<and> pv s1 x = pv s x"
    by metis
  have p1: "ring s1 pending_list ps"
    by (rule ring_frame [where A = "set (timer_list # e # ts)", OF r(2) s1(5)]) (use dj in auto)
  have "e \<notin> set (pending_list # ps)" using dj by auto
  from addToList_append [OF p1 this] obtain s2 where s2: "addToList e pending_list s1 = Some s2"
    "same_payload s1 s2" "ring s2 pending_list (ps @ [e])"
    "\<And>x. x \<notin> set (e # pending_list # ps) \<Longrightarrow> nx s2 x = nx s1 x \<and> pv s2 x = pv s1 x"
    by metis
  have "ring s2 timer_list ts"
    by (rule ring_frame [where A = "set (e # pending_list # ps)", OF s1(3) s2(4)])
      (use dj r(1) in \<open>auto simp: ring_def\<close>)
  moreover have same: "same_payload s s2" using s1(2) s2(2) by (rule same_payload_trans)
  moreover have "e \<notin> set (timer_list # ts)" using r(1) by (auto simp: ring_def)
  moreover have "sorted (map (tmo s2) ts)"
    using so same by (simp add: same_payload_fields)
  ultimately have "wf_lists s2 ts (ps @ [e])" using s2(3) dj by (auto simp: wf_lists_def)
  with s1 s2 same that show thesis by blast
qed

lemma processTimeouts_loop_lists:
  assumes "wf_lists s ts ps"
  obtains s' where "processTimeouts_loop now (hd (ts @ [timer_list])) s = Some s'"
    "wf_lists s' (dropWhile (\<lambda>y. tmo s y < now) ts) (ps @ takeWhile (\<lambda>y. tmo s y < now) ts)"
    "same_payload s s'"
proof -
  have "\<exists>s'. processTimeouts_loop now (hd (ts @ [timer_list])) s = Some s' \<and>
     wf_lists s' (dropWhile (\<lambda>y. tmo s y < now) ts) (ps @ takeWhile (\<lambda>y. tmo s y < now) ts) \<and>
     same_payload s s'"
    using assms
  proof (induction ts arbitrary: s ps)
    case Nil
    then show ?case by (simp add: processTimeouts_loop.simps)
  next
    case (Cons e ts)
    have ne: "e \<noteq> timer_list" using Cons.prems by (auto simp: wf_lists_def ring_def)
    show ?case
    proof (cases "tmo s e < now")
      case False
      with Cons.prems show ?thesis by (simp add: processTimeouts_loop.simps)
    next
      case True
      from expire_head [OF Cons.prems] obtain s1 s2 where s2: "nx s e = Some (hd (ts @ [timer_list]))"
        "removeFromList e s = Some s1" "addToList e pending_list s1 = Some s2"
        "same_payload s s2" "wf_lists s2 ts (ps @ [e])"
        by metis
      have tmo: "\<And>y. tmo s2 y = tmo s y" using s2(4) by (simp add: same_payload_fields)
      from Cons.IH [OF s2(5)] obtain s' where
        s': "processTimeouts_loop now (hd (ts @ [timer_list])) s2 = Some s'"
        "wf_lists s' (dropWhile (\<lambda>y. tmo s2 y < now) ts)
           ((ps @ [e]) @ takeWhile (\<lambda>y. tmo s2 y < now) ts)"
        "same_payload s2 s'" by blast
      have "processTimeouts_loop now e s = Some s'"
        using True ne s2(1-3) s'(1) by (subst processTimeouts_loop.simps) simp
      with True s'(2,3) s2(4) tmo show ?thesis
        by (auto intro: same_payload_trans)
    qed
  qed
  with that show thesis by blast
qed

text \<open>
  The function \<open>processTimeouts\<close> ends, moves exactly the timers that are due to the pending
  list, in order, and leaves the others.
\<close>

lemma processTimeouts_lists:
  assumes "wf_lists s ts ps"
  obtains s' where "processTimeouts now s = Some s'"
    "wf_lists s' (filter (\<lambda>y. \<not> tmo s y < now) ts) (ps @ filter (\<lambda>y. tmo s y < now) ts)"
    "same_payload s s'"
proof -
  from assms have so: "sorted (map (tmo s) ts)" by (simp add: wf_lists_def)
  note split = takeWhile_sorted_filter [OF so] dropWhile_sorted_filter [OF so]
  from processTimeouts_loop_lists [OF assms, of now] obtain s' where
    "processTimeouts_loop now (hd (ts @ [timer_list])) s = Some s'"
    "wf_lists s' (dropWhile (\<lambda>y. tmo s y < now) ts) (ps @ takeWhile (\<lambda>y. tmo s y < now) ts)"
    "same_payload s s'" by metis
  moreover from this have "processTimeouts now s = Some s'"
    using wf_timer_head [OF assms] by (simp add: processTimeouts_def)
  ultimately show thesis using that unfolding split by blast
qed

section \<open>Time arithmetic\<close>

definition normal :: "timeval \<Rightarrow> bool" where
  "normal t \<longleftrightarrow> 0 \<le> tv_usec t \<and> tv_usec t < 1000000"

definition usecs :: "timeval \<Rightarrow> int" where
  "usecs t = tv_sec t * 1000000 + tv_usec t"

lemma less_usecs: "normal a \<Longrightarrow> normal b \<Longrightarrow> a < b \<longleftrightarrow> usecs a < usecs b"
  by (cases a; cases b) (auto simp: normal_def usecs_def less_timeval_def)

lemma timeradd_normal:
  "normal a \<Longrightarrow> normal b \<Longrightarrow> normal (timeradd a b) \<and> usecs (timeradd a b) = usecs a + usecs b"
  by (auto simp: timeradd_def normal_def usecs_def Let_def algebra_simps)

lemma timersub_normal:
  "normal a \<Longrightarrow> normal b \<Longrightarrow> normal (timersub a b) \<and> usecs (timersub a b) = usecs a - usecs b"
  by (auto simp: timersub_def normal_def usecs_def Let_def algebra_simps)

section \<open>The watch table\<close>

definition watched :: "'m ril_event_state_scheme \<Rightarrow> addr set" where
  "watched s = {e. Some e \<in> set (watch_table s)}"

text \<open>
  \<open>wf_watch s\<close>: every watched event knows its slot, the descriptors are distinct, \<open>readFds\<close> is
  the set of their descriptors and \<open>nfds\<close> lies above them, as \<open>select\<close> needs.
\<close>

definition wf_watch :: "'m ril_event_state_scheme \<Rightarrow> bool" where
  "wf_watch s \<longleftrightarrow>
     length (watch_table s) = MAX_FD_EVENTS \<and>
     (\<forall>i e. i < MAX_FD_EVENTS \<longrightarrow> watch_table s ! i = Some e \<longrightarrow>
        e_index (ev s e) = int i \<and> 0 \<le> e_fd (ev s e) \<and> e_fd (ev s e) < nfds s \<and>
        e \<noteq> timer_list \<and> e \<noteq> pending_list) \<and>
     inj_on (\<lambda>e. e_fd (ev s e)) (watched s) \<and>
     readFds s = (\<lambda>e. e_fd (ev s e)) ` watched s"

lemma find_slot_Some:
  "find_slot i ws = Some j \<Longrightarrow> i \<le> j \<and> j < i + length ws \<and> ws ! (j - i) = None"
proof (induction i ws rule: find_slot.induct)
  case (2 i w ws)
  then show ?case
    by (auto split: if_splits simp: Suc_le_eq nth_Cons' dest: Suc_diff_le)
qed simp

lemma find_slot_None: "find_slot i ws = None \<longleftrightarrow> None \<notin> set ws"
  by (induction i ws rule: find_slot.induct) auto

lemma max_watched_bounds:
  "0 \<le> max_watched s \<and> (\<forall>e \<in> watched s. e_fd (ev s e) \<le> max_watched s)"
proof -
  let ?f = "\<lambda>n w. case w of None \<Rightarrow> n | Some r \<Rightarrow> if e_fd (ev s r) > n then e_fd (ev s r) else n"
  have "n \<le> foldl ?f n ws \<and> (\<forall>e. Some e \<in> set ws \<longrightarrow> e_fd (ev s e) \<le> foldl ?f n ws)" for n ws
  proof (induction ws arbitrary: n)
    case (Cons w ws)
    have "n \<le> ?f n w" by (auto split: option.splits)
    moreover have "\<And>e. w = Some e \<Longrightarrow> e_fd (ev s e) \<le> ?f n w" by auto
    ultimately show ?case using Cons [of "?f n w"] by (auto intro: order_trans simp del: split_paired_All)
  qed simp
  from this [of 0 "watch_table s"] show ?thesis by (auto simp: max_watched_def watched_def)
qed

lemma watched_nth:
  "length (watch_table s) = MAX_FD_EVENTS \<Longrightarrow>
   e \<in> watched s \<longleftrightarrow> (\<exists>i < MAX_FD_EVENTS. watch_table s ! i = Some e)"
  unfolding watched_def by (metis in_set_conv_nth mem_Collect_eq)

lemma wf_watch_slot:
  assumes "wf_watch s" "i < MAX_FD_EVENTS" "watch_table s ! i = Some e"
  shows "e_index (ev s e) = int i" "0 \<le> e_fd (ev s e)" "e_fd (ev s e) < nfds s"
    "e \<noteq> timer_list" "e \<noteq> pending_list" "e \<in> watched s"
  using assms watched_nth [of s e] by (auto simp: wf_watch_def)

lemma wf_watchI:
  assumes "length (watch_table s) = MAX_FD_EVENTS"
    and "\<And>i e. i < MAX_FD_EVENTS \<Longrightarrow> watch_table s ! i = Some e \<Longrightarrow>
        e_index (ev s e) = int i \<and> 0 \<le> e_fd (ev s e) \<and> e_fd (ev s e) < nfds s \<and>
        e \<noteq> timer_list \<and> e \<noteq> pending_list"
    and "inj_on (\<lambda>e. e_fd (ev s e)) (watched s)"
    and "readFds s = (\<lambda>e. e_fd (ev s e)) ` watched s"
  shows "wf_watch s"
  using assms by (simp add: wf_watch_def)

text \<open>The fields of events that only \<open>ril_event_set\<close> and \<open>ril_timer_add\<close> write.\<close>

definition same_core :: "'m ril_event_state_scheme \<Rightarrow> 'm ril_event_state_scheme \<Rightarrow> bool" where
  "same_core s s' \<longleftrightarrow> ril_event_state.more s' = ril_event_state.more s \<and>
     (\<forall>a. e_fd (ev s' a) = e_fd (ev s a) \<and> e_persist (ev s' a) = e_persist (ev s a) \<and>
          e_timeout (ev s' a) = e_timeout (ev s a) \<and> e_func (ev s' a) = e_func (ev s a) \<and>
          e_param (ev s' a) = e_param (ev s a))"

lemma same_core_refl [simp]: "same_core s s"
  by (simp add: same_core_def)

lemma same_core_trans: "same_core s t \<Longrightarrow> same_core t u \<Longrightarrow> same_core s u"
  by (simp add: same_core_def)

lemma same_payload_core: "same_payload s s' \<Longrightarrow> same_core s s'"
  by (simp add: same_core_def same_payload_fields)

lemma wf_watch_same:
  assumes "same_payload s s'"
  shows "wf_watch s' = wf_watch s" "watched s' = watched s"
  using same_payload_fields [OF assms] by (simp_all add: wf_watch_def watched_def)

lemma removeWatch_fields:
  "watch_table (removeWatch e i s) = (watch_table s)[i := None]"
  "readFds (removeWatch e i s) = readFds s - {e_fd (ev s e)}"
  "nx (removeWatch e i s) = nx s" "pv (removeWatch e i s) = pv s"
  "e_index (ev (removeWatch e i s) a) = (if a = e then -1 else e_index (ev s a))"
  "same_core s (removeWatch e i s)"
  by (auto simp: removeWatch_def Let_def same_core_def)

lemma removeWatch_nfds:
  "nfds (removeWatch e i s) = nfds s \<or>
   (\<forall>a \<in> watched (removeWatch e i s). e_fd (ev (removeWatch e i s) a) < nfds (removeWatch e i s))"
proof -
  let ?s = "s\<lparr>watch_table := (watch_table s)[i := None],
      ev := (ev s)(e := (ev s e)\<lparr>e_index := -1\<rparr>), readFds := readFds s - {e_fd (ev s e)}\<rparr>"
  have "removeWatch e i s = (if e_fd (ev ?s e) + 1 = nfds s then ?s\<lparr>nfds := max_watched ?s + 1\<rparr> else ?s)"
    by (simp add: removeWatch_def Let_def)
  moreover have "watched (?s\<lparr>nfds := n\<rparr>) = watched ?s" for n by (simp add: watched_def)
  ultimately show ?thesis using max_watched_bounds [of ?s] by (auto simp del: fun_upd_apply)
qed

lemma removeWatch_wf:
  assumes wf: "wf_watch s" and i: "i < MAX_FD_EVENTS" "watch_table s ! i = Some e"
  shows "wf_watch (removeWatch e i s)" "watched (removeWatch e i s) = watched s - {e}"
proof -
  let ?s = "removeWatch e i s"
  note len = wf [unfolded wf_watch_def, THEN conjunct1]
  note core = removeWatch_fields(6) [of s e i, unfolded same_core_def]
  have slot: "watch_table ?s ! j = Some a \<longleftrightarrow> watch_table s ! j = Some a \<and> a \<noteq> e"
    if "j < MAX_FD_EVENTS" for j a
  proof (cases "j = i")
    case True
    with i len show ?thesis by (auto simp: removeWatch_fields)
  next
    case False
    then have "watch_table ?s ! j = watch_table s ! j" by (simp add: removeWatch_fields)
    moreover have "watch_table s ! j \<noteq> Some e"
      using False wf_watch_slot(1) [OF wf that] wf_watch_slot(1) [OF wf i] by fastforce
    ultimately show ?thesis by auto
  qed
  show W: "watched ?s = watched s - {e}"
    using slot len by (auto simp: set_eq_iff watched_nth removeWatch_fields)
  show "wf_watch ?s"
  proof (rule wf_watchI)
    show "length (watch_table ?s) = MAX_FD_EVENTS" using len by (simp add: removeWatch_fields)
    fix j a assume j: "j < MAX_FD_EVENTS" "watch_table ?s ! j = Some a"
    then have ja: "watch_table s ! j = Some a" "a \<noteq> e" using slot by auto
    note sl = wf_watch_slot [OF wf j(1) ja(1)]
    have "a \<in> watched ?s" using sl(6) ja(2) W by simp
    then have "e_fd (ev ?s a) < nfds ?s" using removeWatch_nfds [of e i s] sl(3) core by auto
    with sl ja(2) core show "e_index (ev ?s a) = int j \<and> 0 \<le> e_fd (ev ?s a) \<and>
        e_fd (ev ?s a) < nfds ?s \<and> a \<noteq> timer_list \<and> a \<noteq> pending_list"
      by (simp add: removeWatch_fields)
  next
    have inj: "inj_on (\<lambda>a. e_fd (ev s a)) (watched s)" using wf by (simp add: wf_watch_def)
    then show "inj_on (\<lambda>a. e_fd (ev ?s a)) (watched ?s)"
      unfolding W using core by (auto simp: inj_on_def)
    have "e \<in> watched s" by (rule wf_watch_slot [OF wf i])
    then show "readFds ?s = (\<lambda>a. e_fd (ev ?s a)) ` watched ?s"
      using inj wf core unfolding W by (auto simp: removeWatch_fields wf_watch_def inj_on_def)
  qed
qed

text \<open>
  \<open>ril_event_add\<close> registers an event that is not registered yet and whose descriptor is not;
  when all the slots are taken it does nothing.
\<close>

lemma ril_event_add_full:
  "None \<notin> set (watch_table s) \<Longrightarrow> ril_event_add e s = s"
  by (simp add: ril_event_add_def find_slot_None [THEN iffD2])

lemma ril_event_add_wf:
  assumes wf: "wf_watch s" and free: "None \<in> set (watch_table s)"
    and e: "e \<notin> watched s" "e \<noteq> timer_list" "e \<noteq> pending_list"
    and fd: "0 \<le> e_fd (ev s e)" "e_fd (ev s e) \<notin> readFds s"
  shows "wf_watch (ril_event_add e s)" "watched (ril_event_add e s) = insert e (watched s)"
    "same_core s (ril_event_add e s)" "nx (ril_event_add e s) = nx s" "pv (ril_event_add e s) = pv s"
proof -
  let ?s = "ril_event_add e s"
  note len = wf [unfolded wf_watch_def, THEN conjunct1]
  from free obtain i where slot: "find_slot 0 (watch_table s) = Some i"
    using find_slot_None [of 0 "watch_table s"] by fastforce
  then have i: "i < MAX_FD_EVENTS" "watch_table s ! i = None"
    using find_slot_Some [OF slot] len by auto
  have t: "watch_table ?s = (watch_table s)[i := Some e]"
    and x: "\<And>a. e_index (ev ?s a) = (if a = e then int i else e_index (ev s a))"
    and r: "readFds ?s = insert (e_fd (ev s e)) (readFds s)"
    and n: "nfds s \<le> nfds ?s" "e_fd (ev s e) < nfds ?s"
    using slot by (auto simp: ril_event_add_def Let_def)
  show core: "same_core s ?s" and "nx ?s = nx s" "pv ?s = pv s"
    using slot by (auto simp: ril_event_add_def Let_def same_core_def)
  note core' = core [unfolded same_core_def]
  have sl: "watch_table ?s ! j = Some a \<longleftrightarrow> (if a = e then j = i else watch_table s ! j = Some a)"
    if "j < MAX_FD_EVENTS" for j a
    using that i len e(1) by (auto simp: t nth_list_update watched_nth)
  show W: "watched ?s = insert e (watched s)"
  proof (rule set_eqI)
    fix a show "a \<in> watched ?s \<longleftrightarrow> a \<in> insert e (watched s)"
      using sl i len by (cases "a = e") (auto simp: watched_nth t)
  qed
  show "wf_watch ?s"
  proof (rule wf_watchI)
    show "length (watch_table ?s) = MAX_FD_EVENTS" using len by (simp add: t)
    fix j a assume "j < MAX_FD_EVENTS" "watch_table ?s ! j = Some a"
    then show "e_index (ev ?s a) = int j \<and> 0 \<le> e_fd (ev ?s a) \<and> e_fd (ev ?s a) < nfds ?s \<and>
        a \<noteq> timer_list \<and> a \<noteq> pending_list"
      using sl e fd n core' wf_watch_slot [OF wf, of j a] by (cases "a = e") (auto simp: x)
  next
    have fdeq: "(\<lambda>a. e_fd (ev ?s a)) = (\<lambda>a. e_fd (ev s a))" using core' by simp
    have rd: "readFds s = (\<lambda>a. e_fd (ev s a)) ` watched s" using wf by (simp add: wf_watch_def)
    have "inj_on (\<lambda>a. e_fd (ev s a)) (watched s)" using wf by (simp add: wf_watch_def)
    then show "inj_on (\<lambda>a. e_fd (ev ?s a)) (watched ?s)"
      unfolding W fdeq inj_on_insert using fd(2) rd e(1) by simp
    show "readFds ?s = (\<lambda>a. e_fd (ev ?s a)) ` watched ?s"
      unfolding W r fdeq rd by simp
  qed
qed

lemma ril_event_del_watched:
  assumes "wf_watch s" "e \<in> watched s"
  shows "wf_watch (ril_event_del e s)" "watched (ril_event_del e s) = watched s - {e}"
    "same_core s (ril_event_del e s)" "nx (ril_event_del e s) = nx s" "pv (ril_event_del e s) = pv s"
proof -
  from assms obtain i where i: "i < MAX_FD_EVENTS" "watch_table s ! i = Some e"
    by (auto simp: watched_nth wf_watch_def)
  then have "ril_event_del e s = removeWatch e i s"
    using wf_watch_slot(1) [OF assms(1) i] by (simp add: ril_event_del_def)
  then show "wf_watch (ril_event_del e s)" "watched (ril_event_del e s) = watched s - {e}"
    "same_core s (ril_event_del e s)" "nx (ril_event_del e s) = nx s" "pv (ril_event_del e s) = pv s"
    using removeWatch_wf [OF assms(1) i] removeWatch_fields [where e = e and i = i and s = s] by simp_all
qed

lemma ril_event_del_unwatched: "e_index (ev s e) < 0 \<Longrightarrow> ril_event_del e s = s"
  by (simp add: ril_event_del_def)

section \<open>Read readies\<close>

definition slot_ready :: "'m ril_event_state_scheme \<Rightarrow> int set \<Rightarrow> nat \<Rightarrow> bool" where
  "slot_ready s rfds i =
     (case watch_table s ! i of None \<Rightarrow> False | Some w \<Rightarrow> e_fd (ev s w) \<in> rfds)"

definition ready_slots :: "'m ril_event_state_scheme \<Rightarrow> int set \<Rightarrow> nat list \<Rightarrow> int \<Rightarrow> nat list" where
  "ready_slots s rfds is n = take (nat n) (filter (slot_ready s rfds) is)"

definition slot_events :: "'m ril_event_state_scheme \<Rightarrow> nat list \<Rightarrow> addr list" where
  "slot_events s is = map (\<lambda>i. the (watch_table s ! i)) is"

lemma ready_slots_Cons:
  "ready_slots s rfds (i # is) n =
     (if 0 < n \<and> slot_ready s rfds i then i # ready_slots s rfds is (n - 1)
      else if 0 < n then ready_slots s rfds is n else [])"
  by (cases "nat n") (auto simp: ready_slots_def nat_diff_distrib)

text \<open>One ready slot: its event goes to the end of the pending list, and leaves the table
  unless it is persistent.\<close>

lemma ready_step:
  assumes wf: "wf_lists s ts ps" "wf_watch s"
    and i: "i < MAX_FD_EVENTS" "watch_table s ! i = Some w" "w \<notin> set ts \<union> set ps"
  obtains s1 s2 where "addToList w pending_list s = Some s1"
    "s2 = (if e_persist (ev s1 w) then s1 else removeWatch w i s1)"
    "wf_lists s2 ts (ps @ [w])" "wf_watch s2" "same_core s s2"
    "watched s2 = watched s - (if e_persist (ev s w) then {} else {w})"
    "\<And>j. j \<noteq> i \<Longrightarrow> watch_table s2 ! j = watch_table s ! j"
proof -
  note sl = wf_watch_slot [OF wf(2) i(1,2)]
  from wf(1) have r: "ring s timer_list ts" "ring s pending_list ps" by (auto simp: wf_lists_def)
  have w: "w \<notin> set (pending_list # ps)" "w \<notin> set (timer_list # ts)" using i(3) sl(4,5) by auto
  from addToList_append [OF r(2) w(1)] obtain s1 where s1: "addToList w pending_list s = Some s1"
    "same_payload s s1" "ring s1 pending_list (ps @ [w])"
    "\<And>x. x \<notin> set (w # pending_list # ps) \<Longrightarrow> nx s1 x = nx s x \<and> pv s1 x = pv s x"
    by metis
  have "ring s1 timer_list ts"
    by (rule ring_frame [where A = "set (w # pending_list # ps)", OF r(1) s1(4)])
      (use wf(1) w(2) in \<open>auto simp: wf_lists_def\<close>)
  then have l1: "wf_lists s1 ts (ps @ [w])"
    using s1(2,3) wf(1) w by (auto simp: wf_lists_def same_payload_fields)
  have w1: "wf_watch s1" "watched s1 = watched s" "watch_table s1 = watch_table s"
    using wf(2) wf_watch_same [OF s1(2)] same_payload_fields(3) [OF s1(2)] by simp_all
  define s2 where "s2 = (if e_persist (ev s1 w) then s1 else removeWatch w i s1)"
  have per: "e_persist (ev s1 w) = e_persist (ev s w)" using s1(2) by (simp add: same_payload_fields)
  show thesis
  proof (cases "e_persist (ev s1 w)")
    case True
    then show thesis
      using that [OF s1(1) refl] l1 w1 per same_payload_core [OF s1(2)] by simp
  next
    case False
    have i': "watch_table s1 ! i = Some w" using i w1(3) by simp
    note rm = removeWatch_wf [OF w1(1) i(1) i'] removeWatch_fields [where e = w and i = i and ?s = s1]
    have "tmo (removeWatch w i s1) = tmo s1" using rm(8) by (simp add: same_core_def)
    then have "wf_lists (removeWatch w i s1) ts (ps @ [w]) = wf_lists s1 ts (ps @ [w])"
      using rm(5,6) by (intro wf_lists_cong) (metis (no_types, lifting))
    then show thesis
      using that [OF s1(1) refl] False l1 per rm w1(2,3)
        same_core_trans [OF same_payload_core [OF s1(2)] rm(8)] by simp
  qed
qed

lemma processReadReadies_loop_lists:
  assumes "wf_lists s ts ps" "wf_watch s" "distinct is" "set is \<subseteq> {..<MAX_FD_EVENTS}"
    and "\<And>i w. i \<in> set is \<Longrightarrow> watch_table s ! i = Some w \<Longrightarrow> w \<notin> set ts \<union> set ps"
  shows "\<exists>s'. processReadReadies_loop rfds is n s = Some s' \<and>
     wf_lists s' ts (ps @ slot_events s (ready_slots s rfds is n)) \<and> wf_watch s' \<and> same_core s s' \<and>
     watched s' = watched s - {w \<in> set (slot_events s (ready_slots s rfds is n)). \<not> e_persist (ev s w)}"
  using assms
proof (induction "is" arbitrary: n s ps)
  case Nil
  then show ?case by (auto simp: ready_slots_def slot_events_def)
next
  case (Cons i "is")
  show ?case
  proof (cases "0 < n \<and> slot_ready s rfds i")
    case False
    from Cons.IH [of s ps n] Cons.prems show ?thesis using False
      by (cases "watch_table s ! i")
        (auto simp: ready_slots_Cons slot_ready_def slot_events_def)
  next
    case True
    then obtain w where w: "watch_table s ! i = Some w" "e_fd (ev s w) \<in> rfds"
      by (auto simp: slot_ready_def split: option.splits)
    have i: "i < MAX_FD_EVENTS" using Cons.prems(4) by simp
    have wn: "w \<notin> set ts \<union> set ps" using Cons.prems(5) [of i w] w by simp
    from ready_step [OF Cons.prems(1,2) i w(1) wn] obtain s1 s2 where st:
      "addToList w pending_list s = Some s1"
      "s2 = (if e_persist (ev s1 w) then s1 else removeWatch w i s1)"
      "wf_lists s2 ts (ps @ [w])" "wf_watch s2" "same_core s s2"
      "watched s2 = watched s - (if e_persist (ev s w) then {} else {w})"
      "\<And>j. j \<noteq> i \<Longrightarrow> watch_table s2 ! j = watch_table s ! j" by metis
    note core = st(5) [unfolded same_core_def]
    have tab: "watch_table s2 ! j = watch_table s ! j" if "j \<in> set is" for j
      by (rule st(7)) (use Cons.prems(3) that in auto)
    have same: "ready_slots s2 rfds is (n - 1) = ready_slots s rfds is (n - 1)"
      unfolding ready_slots_def using tab core
      by (intro arg_cong [where f = "take _"] filter_cong) (auto simp: slot_ready_def split: option.splits)
    have sub: "set (ready_slots s rfds is (n - 1)) \<subseteq> set is"
      by (auto simp: ready_slots_def dest: in_set_takeD)
    have ev: "slot_events s2 (ready_slots s rfds is (n - 1)) = slot_events s (ready_slots s rfds is (n - 1))"
      unfolding slot_events_def using tab sub by auto
    have "j \<in> set is \<Longrightarrow> watch_table s2 ! j = Some v \<Longrightarrow> v \<notin> set ts \<union> set (ps @ [w])" for j v
    proof -
      assume j: "j \<in> set is" and v: "watch_table s2 ! j = Some v"
      have jn: "j \<noteq> i" using j Cons.prems(3) by auto
      have "watch_table s ! j = Some v" using v tab j by simp
      moreover have "j < MAX_FD_EVENTS" using j Cons.prems(4) by auto
      ultimately have "v \<noteq> w" "v \<notin> set ts \<union> set ps"
        using jn wf_watch_slot(1) [OF Cons.prems(2), of j v] wf_watch_slot(1) [OF Cons.prems(2) i w(1)]
          Cons.prems(5) [of j v] j by auto
      then show "v \<notin> set ts \<union> set (ps @ [w])" by simp
    qed
    with Cons.IH [OF st(3,4), of "n - 1"] Cons.prems obtain s' where s':
      "processReadReadies_loop rfds is (n - 1) s2 = Some s'"
      "wf_lists s' ts ((ps @ [w]) @ slot_events s (ready_slots s rfds is (n - 1)))" "wf_watch s'"
      "same_core s2 s'"
      "watched s' = watched s2 - {v \<in> set (slot_events s (ready_slots s rfds is (n - 1))). \<not> e_persist (ev s2 v)}"
      unfolding same ev by auto
    have rs: "slot_events s (ready_slots s rfds (i # is) n) = w # slot_events s (ready_slots s rfds is (n - 1))"
      using True w by (simp add: ready_slots_Cons slot_events_def)
    have "processReadReadies_loop rfds (i # is) n s = Some s'"
      using True w st(1,2) s'(1) by simp
    moreover have "watched s' = watched s - {v \<in> set (slot_events s (ready_slots s rfds (i # is) n)).
        \<not> e_persist (ev s v)}"
      unfolding rs using s'(5) st(6) core by auto
    ultimately show ?thesis
      unfolding rs using s' same_core_trans [OF st(5)] by auto
  qed
qed

lemma processReadReadies_lists:
  assumes "wf_lists s ts ps" "wf_watch s" "watched s \<inter> (set ts \<union> set ps) = {}"
    and fired_def: "fired = slot_events s (ready_slots s rfds [0..<MAX_FD_EVENTS] n)"
  shows "\<exists>s'. processReadReadies rfds n s = Some s' \<and>
     wf_lists s' ts (ps @ fired) \<and> wf_watch s' \<and> same_core s s' \<and>
     watched s' = watched s - {w \<in> set fired. \<not> e_persist (ev s w)}"
  unfolding processReadReadies_def fired_def
proof (rule processReadReadies_loop_lists [OF assms(1,2)])
  fix i w assume i: "i \<in> set [0..<MAX_FD_EVENTS]" and w: "watch_table s ! i = Some w"
  have "w \<in> watched s" by (rule wf_watch_slot(6) [OF assms(2) _ w]) (use i in simp)
  with assms(3) show "w \<notin> set ts \<union> set ps" by blast
qed auto

lemma ready_slots_watched:
  "wf_watch s \<Longrightarrow> set (slot_events s (ready_slots s rfds [0..<MAX_FD_EVENTS] n)) \<subseteq> watched s"
  by (auto simp: slot_events_def ready_slots_def slot_ready_def dest!: in_set_takeD
      dest: wf_watch_slot(6) split: option.splits)

section \<open>Initialisation\<close>

lemma ril_event_init_wf:
  "wf_lists (ril_event_init s) [] []" "wf_watch (ril_event_init s\<lparr>nfds := n\<rparr>)"
  "wf_watch (ril_event_init s)" "watched (ril_event_init s) = {}"
  by (auto simp: wf_lists_def ring_def ril_event_init_def init_list_def wf_watch_def watched_def
      MAX_FD_EVENTS_def)

text \<open>Setting up an event that is on no list and in no slot touches neither.\<close>

lemma ril_event_set_watch:
  assumes "e \<notin> watched s"
  shows "watched (ril_event_set e fd p f x s) = watched s"
    "wf_watch s \<Longrightarrow> wf_watch (ril_event_set e fd p f x s)"
proof -
  let ?s = "ril_event_set e fd p f x s"
  show W: "watched ?s = watched s" by (simp add: watched_def ril_event_set_def)
  have ev: "ev ?s a = ev s a" if "a \<noteq> e" for a using that by (simp add: ril_event_set_def)
  have oth: "watch_table ?s = watch_table s" "readFds ?s = readFds s" "nfds ?s = nfds s"
    by (simp_all add: ril_event_set_def)
  assume wf: "wf_watch s"
  have fd: "e_fd (ev ?s a) = e_fd (ev s a)" if "a \<in> watched s" for a using ev that assms by metis
  show "wf_watch ?s"
  proof (rule wf_watchI)
    show "length (watch_table ?s) = MAX_FD_EVENTS" using wf oth by (simp add: wf_watch_def)
    fix i a assume i: "i < MAX_FD_EVENTS" "watch_table ?s ! i = Some a"
    then have "watch_table s ! i = Some a" using oth by simp
    note sl = wf_watch_slot [OF wf i(1) this]
    have "a \<noteq> e" using sl(6) assms by auto
    with sl ev oth show "e_index (ev ?s a) = int i \<and> 0 \<le> e_fd (ev ?s a) \<and> e_fd (ev ?s a) < nfds ?s \<and>
        a \<noteq> timer_list \<and> a \<noteq> pending_list" by simp
  next
    have "inj_on (\<lambda>a. e_fd (ev s a)) (watched s)" using wf by (simp add: wf_watch_def)
    then show "inj_on (\<lambda>a. e_fd (ev ?s a)) (watched ?s)"
      unfolding W by (simp add: inj_on_def fd)
    show "readFds ?s = (\<lambda>a. e_fd (ev ?s a)) ` watched ?s"
      unfolding W oth using wf fd by (simp add: wf_watch_def)
  qed
qed

lemma ril_event_set_lists:
  "e \<notin> set (timer_list # ts) \<union> set (pending_list # ps) \<Longrightarrow>
   wf_lists (ril_event_set e fd p f x s) ts ps = wf_lists s ts ps"
  by (rule wf_lists_cong) (auto simp: ril_event_set_def)

lemma links_kept_lists:
  "nx s' = nx s \<Longrightarrow> pv s' = pv s \<Longrightarrow> same_core s s' \<Longrightarrow> wf_lists s' ts ps = wf_lists s ts ps"
  by (rule wf_lists_cong) (metis same_core_def)

section \<open>What the loop asks of its callbacks\<close>

text \<open>
  The callbacks belong to the modules that use the loop. \<open>event_client\<close> is the contract the
  loop relies on: an invariant \<open>J\<close> that implies the two list and table invariants, that
  moving events between the lists preserves, and that every callback keeps, without touching
  the events still pending. Under it a turn of the loop terminates, follows no NULL link,
  leaves the pending list empty and keeps \<open>J\<close>.
\<close>

fun fire_seq ::
  "(addr \<Rightarrow> int \<Rightarrow> addr option \<Rightarrow> 'm ril_event_state_scheme \<Rightarrow> 'm ril_event_state_scheme option) \<Rightarrow>
   addr list \<Rightarrow> 'm ril_event_state_scheme \<Rightarrow> 'm ril_event_state_scheme option" where
  "fire_seq cb [] s = Some s"
| "fire_seq cb (e # es) s =
     Option.bind (removeFromList e s) (\<lambda>s1.
     Option.bind (cb (e_func (ev s1 e)) (e_fd (ev s1 e)) (e_param (ev s1 e)) s1) (fire_seq cb es))"

fun turn_state :: "'s loop_turn \<Rightarrow> 's" where
  "turn_state (Continue s) = s"
| "turn_state (Return s) = s"

locale event_client =
  fixes cb :: "addr \<Rightarrow> int \<Rightarrow> addr option \<Rightarrow> 'm ril_event_state_scheme \<Rightarrow> 'm ril_event_state_scheme option"
    and J :: "'m ril_event_state_scheme \<Rightarrow> addr list \<Rightarrow> addr list \<Rightarrow> bool"
  assumes J_lists: "J s ts ps \<Longrightarrow> wf_lists s ts ps"
    and J_watch: "J s ts ps \<Longrightarrow> wf_watch s"
    and J_apart: "J s ts ps \<Longrightarrow> watched s \<inter> set ts = {}"
    and J_move: "J s ts ps \<Longrightarrow> same_payload s s' \<Longrightarrow> wf_lists s' ts1 (ps @ ts2) \<Longrightarrow>
        set ts = set ts1 \<union> set ts2 \<Longrightarrow> J s' ts1 (ps @ ts2)"
    and J_ready: "J s ts ps \<Longrightarrow> same_core s s' \<Longrightarrow> wf_lists s' ts (ps @ ws) \<Longrightarrow> wf_watch s' \<Longrightarrow>
        watched s' \<subseteq> watched s \<Longrightarrow> set ws \<subseteq> watched s \<Longrightarrow> J s' ts (ps @ ws)"
    and J_fire: "J s ts (e # ps) \<Longrightarrow> removeFromList e s = Some s1 \<Longrightarrow>
        \<exists>s2 ts2. cb (e_func (ev s1 e)) (e_fd (ev s1 e)) (e_param (ev s1 e)) s1 = Some s2 \<and> J s2 ts2 ps"
begin

lemma firePending_loop_total:
  "J s ts ps \<Longrightarrow> \<exists>s' ts'. firePending_loop cb (hd (ps @ [pending_list])) s = Some s' \<and>
     fire_seq cb ps s = Some s' \<and> J s' ts' []"
proof (induction ps arbitrary: s ts)
  case Nil
  then show ?case by (auto simp: firePending_loop.simps)
next
  case (Cons e ps)
  have r: "ring s pending_list (e # ps)" using J_lists [OF Cons.prems] by (simp add: wf_lists_def)
  from removeFromList_head [OF r] obtain s1 where s1: "removeFromList e s = Some s1"
    "nx s e = Some (hd (ps @ [pending_list]))" by metis
  from J_fire [OF Cons.prems s1(1)] obtain s2 ts2 where
    s2: "cb (e_func (ev s1 e)) (e_fd (ev s1 e)) (e_param (ev s1 e)) s1 = Some s2" "J s2 ts2 ps"
    by blast
  from Cons.IH [OF s2(2)] obtain s' ts' where
    s': "firePending_loop cb (hd (ps @ [pending_list])) s2 = Some s'" "fire_seq cb ps s2 = Some s'"
      "J s' ts' []" by blast
  have "e \<noteq> pending_list" using r by (auto simp: ring_def)
  then have "firePending_loop cb e s = Some s'"
    using s1 s2(1) s'(1) by (subst firePending_loop.simps) simp
  with s1 s2 s' show ?case by auto
qed

lemma firePending_total:
  assumes "J s ts ps"
  shows "\<exists>s' ts'. firePending cb s = Some s' \<and> fire_seq cb ps s = Some s' \<and> J s' ts' []"
  using firePending_loop_total [OF assms] wf_pending_head [OF J_lists [OF assms]]
  by (simp add: firePending_def)

lemma collect_total:
  assumes "J s ts []"
  shows "\<exists>s1 s2 ts' ps. processTimeouts now s = Some s1 \<and> processReadReadies rfds n s1 = Some s2 \<and>
     J s2 ts' ps \<and>
     ps = filter (\<lambda>y. tmo s y < now) ts @ slot_events s (ready_slots s rfds [0..<MAX_FD_EVENTS] n)"
proof -
  let ?due = "filter (\<lambda>y. tmo s y < now) ts" and ?rest = "filter (\<lambda>y. \<not> tmo s y < now) ts"
  from processTimeouts_lists [OF J_lists [OF assms], of now] obtain s1 where
    s1: "processTimeouts now s = Some s1" "wf_lists s1 ?rest ([] @ ?due)" "same_payload s s1"
    by metis
  have ts: "set ts = set ?rest \<union> set ?due" by auto
  have J1: "J s1 ?rest ([] @ ?due)" by (rule J_move [OF assms s1(3,2) ts])
  have w1: "watched s1 = watched s" "wf_watch s1"
    using wf_watch_same [OF s1(3)] J_watch [OF assms] by (simp_all only:)
  have "set ?rest \<union> set ([] @ ?due) = set ts" using ts by (simp only: append_Nil)
  then have apart: "watched s1 \<inter> (set ?rest \<union> set ([] @ ?due)) = {}"
    using J_apart [OF assms] w1(1) by (simp only:)
  from processReadReadies_lists [OF s1(2) w1(2) apart refl, of rfds n]
  obtain s2 where s2: "processReadReadies rfds n s1 = Some s2"
    "wf_lists s2 ?rest (([] @ ?due) @ slot_events s1 (ready_slots s1 rfds [0..<MAX_FD_EVENTS] n))"
    "wf_watch s2" "same_core s1 s2" "watched s2 \<subseteq> watched s1"
    by blast
  note ws = ready_slots_watched [OF w1(2), of rfds n]
  have J2: "J s2 ?rest (([] @ ?due) @ slot_events s1 (ready_slots s1 rfds [0..<MAX_FD_EVENTS] n))"
    by (rule J_ready [OF J1 s2(4,2,3,5) ws])
  have "slot_ready s1 rfds = slot_ready s rfds" "slot_events s1 = slot_events s"
    using same_payload_fields [OF s1(3)]
    by (auto simp: fun_eq_iff slot_ready_def slot_events_def split: option.splits)
  then have "slot_events s1 (ready_slots s1 rfds [0..<MAX_FD_EVENTS] n) =
      slot_events s (ready_slots s rfds [0..<MAX_FD_EVENTS] n)" by (simp add: ready_slots_def)
  with J2 s1(1) s2(1) show ?thesis by fastforce
qed

lemma loop_turn_total:
  assumes "J s ts []"
  shows "\<exists>r ts'. ril_event_loop_body cb now1 select now2 s = Some r \<and> J (turn_state r) ts' []"
proof -
  from wf_timer_head [OF J_lists [OF assms]] obtain ptv where ptv: "calcNextTimeout now1 s = Some ptv"
    by (simp add: calcNextTimeout_def)
  show ?thesis
  proof (cases "select (nfds s) (readFds s) ptv")
    case (SelectError eintr)
    with ptv assms show ?thesis by (cases eintr) (auto simp: ril_event_loop_body_def)
  next
    case (Ready n rfds)
    from collect_total [OF assms, of now2 rfds n] obtain s1 s2 ts2 ps where
      c: "processTimeouts now2 s = Some s1" "processReadReadies rfds n s1 = Some s2" "J s2 ts2 ps"
      by blast
    from firePending_total [OF c(3)] obtain s3 ts3 where "firePending cb s2 = Some s3" "J s3 ts3 []"
      by blast
    with ptv Ready c show ?thesis by (auto simp: ril_event_loop_body_def)
  qed
qed

end

section \<open>Properties of the event loop\<close>

text \<open>The static storage of the daemon before \<open>ril_event_init\<close>: all zeroes.\<close>

definition zero_event :: ril_event where
  "zero_event = \<lparr>e_next = None, e_prev = None, e_fd = 0, e_index = 0, e_persist = False,
     e_timeout = Timeval 0 0, e_func = 0, e_param = None\<rparr>"

definition zero_storage :: ril_event_state where
  "zero_storage = \<lparr>ev = \<lambda>_. zero_event, readFds = {}, nfds = 0, watch_table = replicate MAX_FD_EVENTS None\<rparr>"

abbreviation booted :: ril_event_state where
  "booted \<equiv> ril_event_init zero_storage"

lemma ril_timer_add_ex:
  assumes "wf_lists s ts ps" "e \<notin> set (timer_list # ts) \<union> set (pending_list # ps)"
  shows "\<exists>s'. ril_timer_add e (Some tv) now s = Some s' \<and>
    wf_lists s' (ins_at (\<lambda>y. tmo s y < timeradd now tv) e ts) ps \<and>
    same_payload (s\<lparr>ev := (ev s)(e := (ev s e)\<lparr>e_fd := -1, e_timeout := timeradd now tv\<rparr>)\<rparr>) s'"
  by (rule ril_timer_add_lists [OF assms refl, where now = now and tv = tv]) (intro exI conjI)

lemma one_timer: "\<exists>s :: ril_event_state. wf_lists s [2] [] \<and> tmo s 2 = Timeval 6 100000"
proof -
  let ?now = "Timeval 5 900000" and ?tv = "Timeval 0 200000"
  have "2 \<notin> set (timer_list # []) \<union> set (pending_list # [])"
    by (simp add: timer_list_def pending_list_def)
  from ril_timer_add_ex [OF ril_event_init_wf(1) this, of ?tv ?now zero_storage]
  obtain s where s: "wf_lists s (ins_at (\<lambda>y. tmo booted y < timeradd ?now ?tv) 2 []) []"
    "same_payload (booted\<lparr>ev := (ev booted)(2 := (ev booted 2)\<lparr>e_fd := -1,
       e_timeout := timeradd ?now ?tv\<rparr>)\<rparr>) s"
    by blast
  have "tmo s 2 = Timeval 6 100000"
    using same_payload_fields(8) [OF s(2), of 2] by (simp add: timeradd_def)
  with s(1) show ?thesis by (auto simp: ins_simps)
qed

text \<open>
  C15. \<open>ril_timer_add\<close> on well-formed lists never follows a NULL link, ends, and inserts the
  event in front of the first timer that is not due earlier, so that the timer list stays
  sorted by timeout; the pending list and every other timeout are untouched.
\<close>

theorem timer_add_sorted:
  assumes "wf_lists s ts ps" and "e \<notin> set (timer_list # ts) \<union> set (pending_list # ps)"
  shows "\<exists>s'. ril_timer_add e (Some tv) now s = Some s' \<and>
    wf_lists s' (ins_at (\<lambda>y. tmo s y < timeradd now tv) e ts) ps \<and>
    tmo s' e = timeradd now tv \<and> (\<forall>a. a \<noteq> e \<longrightarrow> tmo s' a = tmo s a)"
proof -
  from ril_timer_add_ex [OF assms, of tv now] obtain s' where
    s': "ril_timer_add e (Some tv) now s = Some s'"
      "wf_lists s' (ins_at (\<lambda>y. tmo s y < timeradd now tv) e ts) ps"
      "same_payload (s\<lparr>ev := (ev s)(e := (ev s e)\<lparr>e_fd := -1, e_timeout := timeradd now tv\<rparr>)\<rparr>) s'"
    by blast
  have "tmo s' a = (if a = e then timeradd now tv else tmo s a)" for a
    using same_payload_fields(8) [OF s'(3), of a] by simp
  with s'(1,2) show ?thesis by auto
qed

theorem timer_add_sorted_witness:
  "\<exists>s'. ril_timer_add 2 (Some (Timeval 0 200000)) (Timeval 5 900000) booted = Some s' \<and>
     wf_lists s' [2] [] \<and> tmo s' 2 = Timeval 6 100000"
proof -
  have "2 \<notin> set (timer_list # []) \<union> set (pending_list # [])"
    by (simp add: timer_list_def pending_list_def)
  from timer_add_sorted [OF ril_event_init_wf(1) this, of "Timeval 0 200000" "Timeval 5 900000" zero_storage]
  show ?thesis by (auto simp: ins_simps timeradd_def)
qed

text \<open>
  C16. \<open>processTimeouts\<close> ends and splits the timers exactly: those whose timeout lies strictly
  before the clock go to the end of the pending list, in the order of their timeouts, and
  the others stay, a timer that is due at the very instant of the clock among them: the code compares with
  \<open>timercmp\<close> and \<open>>\<close>, although its comment and its log speak of timers not later than now.
\<close>

theorem process_timeouts_exact:
  assumes "wf_lists s ts ps"
  shows "\<exists>s'. processTimeouts now s = Some s' \<and>
    wf_lists s' (filter (\<lambda>y. \<not> tmo s y < now) ts) (ps @ filter (\<lambda>y. tmo s y < now) ts) \<and>
    tmo s' = tmo s \<and> watched s' = watched s \<and> readFds s' = readFds s"
proof (rule processTimeouts_lists [OF assms, of now])
  fix s' assume s': "processTimeouts now s = Some s'"
    "wf_lists s' (filter (\<lambda>y. \<not> tmo s y < now) ts) (ps @ filter (\<lambda>y. tmo s y < now) ts)"
    and same: "same_payload s s'"
  have "tmo s' = tmo s" using same_payload_fields(8) [OF same] by simp
  with s' same_payload_fields(1) [OF same] wf_watch_same(2) [OF same] show ?thesis
    by (intro exI conjI)
qed

theorem process_timeouts_exact_witness:
  "\<exists>(s::ril_event_state) s'. wf_lists s [2] [] \<and> processTimeouts (Timeval 7 0) s = Some s' \<and> wf_lists s' [] [2]"
proof -
  from one_timer obtain s :: ril_event_state where s: "wf_lists s [2] []" "tmo s 2 = Timeval 6 100000"
    by blast
  have "tmo s 2 < Timeval 7 0" using s(2) by (simp add: less_timeval_def)
  with process_timeouts_exact [OF s(1), of "Timeval 7 0"] s(1) show ?thesis by auto
qed

text \<open>
  \<open>calcNextTimeout\<close> answers \<open>-1\<close> exactly when no timer is set; otherwise the timeval it
  computes is normalised and is the time left until the earliest of all timers, or zero.
\<close>

theorem next_timeout_is_minimum:
  assumes "wf_lists s ts ps" "normal now" "\<forall>e \<in> set ts. normal (tmo s e)"
  shows "\<exists>r. calcNextTimeout now s = Some r \<and> (r = None \<longleftrightarrow> ts = []) \<and>
    (\<forall>tv. r = Some tv \<longrightarrow> normal tv \<and>
       usecs tv = max 0 (Min ((\<lambda>e. usecs (tmo s e)) ` set ts) - usecs now))"
proof (cases ts)
  case Nil
  with wf_timer_head [OF assms(1)] show ?thesis by (simp add: calcNextTimeout_def)
next
  case (Cons t ts')
  have t: "t \<noteq> timer_list" using assms(1) Cons by (auto simp: wf_lists_def ring_def)
  have "tmo s t \<le> tmo s e" if "e \<in> set ts" for e
    using assms(1) that Cons by (auto simp: wf_lists_def)
  moreover have "normal (tmo s e)" if "e \<in> set ts" for e using that assms(3) by blast
  ultimately have "usecs (tmo s t) \<le> usecs (tmo s e)" if "e \<in> set ts" for e
    using that less_usecs [of "tmo s e" "tmo s t"] Cons by (metis leD leI list.set_intros(1))
  then have m: "Min ((\<lambda>e. usecs (tmo s e)) ` set ts) = usecs (tmo s t)"
    using Cons by (intro Min_eqI) auto
  have nt: "normal (tmo s t)" using assms(3) Cons by simp
  have "normal (Timeval 0 0)" "usecs (Timeval 0 0) = 0" by (simp_all add: normal_def usecs_def)
  with t nt assms(2) wf_timer_head [OF assms(1)] timersub_normal [OF nt assms(2)]
    less_usecs [OF assms(2) nt]
  show ?thesis unfolding m by (auto simp: calcNextTimeout_def Cons)
qed

theorem next_timeout_is_minimum_witness:
  "\<exists>s::ril_event_state. wf_lists s [2] [] \<and> calcNextTimeout (Timeval 6 0) s = Some (Some (Timeval 0 100000))"
proof -
  from one_timer obtain s :: ril_event_state where s: "wf_lists s [2] []" "tmo s 2 = Timeval 6 100000"
    by blast
  have "\<exists>r. calcNextTimeout (Timeval 6 0) s = Some r \<and> (r = None \<longleftrightarrow> [2::addr] = []) \<and>
    (\<forall>tv. r = Some tv \<longrightarrow> normal tv \<and>
       usecs tv = max 0 (Min ((\<lambda>e. usecs (tmo s e)) ` set [2]) - usecs (Timeval 6 0)))"
    by (rule next_timeout_is_minimum [OF s(1)]) (simp_all add: s(2) normal_def)
  then obtain tv where tv: "calcNextTimeout (Timeval 6 0) s = Some (Some tv)" "normal tv"
    "usecs tv = 100000" using s(2) by (auto simp: usecs_def)
  have "tv_sec tv < 1" "-1 < tv_sec tv" using tv(2,3) unfolding normal_def usecs_def by linarith+
  then have sec: "tv_sec tv = 0" by simp
  with tv(3) have "tv_usec tv = 100000" by (simp add: usecs_def)
  with sec have "tv = Timeval 0 100000" by (cases tv) simp
  with s(1) tv(1) show ?thesis by blast
qed

lemma one_watched:
  defines "s0 \<equiv> \<lambda>p. ril_event_set 2 7 p 3 None booted"
  shows "wf_watch (s0 p)" "2 \<notin> watched (s0 p)" "e_fd (ev (s0 p) 2) = 7" "readFds (s0 p) = {}"
    "None \<in> set (watch_table (s0 p))" "(2::addr) \<noteq> timer_list" "(2::addr) \<noteq> pending_list"
    "wf_watch (ril_event_add 2 (s0 p))" "watched (ril_event_add 2 (s0 p)) = {2}"
    "wf_lists (ril_event_add 2 (s0 p)) [] []" "e_fd (ev (ril_event_add 2 (s0 p)) 2) = 7"
    "e_persist (ev (ril_event_add 2 (s0 p)) 2) = p" "watch_table (ril_event_add 2 (s0 p)) ! 0 = Some 2"
proof -
  have off: "2 \<notin> set (timer_list # []) \<union> set (pending_list # [])"
    by (simp add: timer_list_def pending_list_def)
  show *: "wf_watch (s0 p)" "2 \<notin> watched (s0 p)" "e_fd (ev (s0 p) 2) = 7" "readFds (s0 p) = {}"
    "None \<in> set (watch_table (s0 p))" "(2::addr) \<noteq> timer_list" "(2::addr) \<noteq> pending_list"
    using ril_event_set_watch [of 2 booted 7 p 3 None] ril_event_init_wf(3,4) [of zero_storage] off
    by (simp_all add: s0_def, simp_all add: ril_event_set_def ril_event_init_def init_list_def MAX_FD_EVENTS_def)
  note add = ril_event_add_wf [OF *(1,5,2,6,7), unfolded *(3,4), simplified]
  have "watched (s0 p) = {}"
    using ril_event_set_watch(1) [of 2 booted 7 p 3 None] ril_event_init_wf(4) [of zero_storage]
    by (simp add: s0_def)
  with add show "wf_watch (ril_event_add 2 (s0 p))" "watched (ril_event_add 2 (s0 p)) = {2}"
    by simp_all
  have "wf_lists (s0 p) [] []" unfolding s0_def ril_event_set_lists [OF off] by (rule ril_event_init_wf)
  then show "wf_lists (ril_event_add 2 (s0 p)) [] []" using links_kept_lists [OF add(4,5,3)] by simp
  have p: "e_persist (ev (s0 p) 2) = p" by (simp add: s0_def ril_event_set_def)
  show "e_fd (ev (ril_event_add 2 (s0 p)) 2) = 7" "e_persist (ev (ril_event_add 2 (s0 p)) 2) = p"
    using add(3) *(3) p by (simp_all add: same_core_def)
  have "find_slot 0 (watch_table (s0 p)) = Some 0"
    by (simp add: s0_def ril_event_set_def ril_event_init_def MAX_FD_EVENTS_def eval_nat_numeral)
  then show "watch_table (ril_event_add 2 (s0 p)) ! 0 = Some 2"
    using *(1) by (simp add: ril_event_add_def Let_def wf_watch_def MAX_FD_EVENTS_def)
qed

text \<open>
  Registering a descriptor keeps the watch table, \<open>readFds\<close> and \<open>nfds\<close> consistent and
  adds exactly that event; with all eight slots taken the call changes nothing at all, so
  the event is silently not watched.
\<close>

theorem event_add_registers:
  assumes "wf_watch s" "e \<notin> watched s" "e \<noteq> timer_list" "e \<noteq> pending_list"
    and "0 \<le> e_fd (ev s e)" "e_fd (ev s e) \<notin> readFds s"
  shows "wf_watch (ril_event_add e s) \<and>
    (if None \<in> set (watch_table s)
     then watched (ril_event_add e s) = insert e (watched s) \<and>
          readFds (ril_event_add e s) = insert (e_fd (ev s e)) (readFds s)
     else ril_event_add e s = s)"
proof (cases "None \<in> set (watch_table s)")
  case True
  note add = ril_event_add_wf [OF assms(1) True assms(2-6)]
  from add(1) have "readFds (ril_event_add e s) =
      (\<lambda>a. e_fd (ev (ril_event_add e s) a)) ` watched (ril_event_add e s)"
    by (simp add: wf_watch_def)
  also have "\<dots> = insert (e_fd (ev s e)) ((\<lambda>a. e_fd (ev s a)) ` watched s)"
    using add(2,3) by (simp add: same_core_def)
  finally show ?thesis using True add(1,2) assms(1) by (simp add: wf_watch_def)
next
  case False
  with assms(1) show ?thesis by (simp add: ril_event_add_full)
qed

theorem event_add_registers_witness:
  "watched (ril_event_add 2 (ril_event_set 2 7 True 3 None booted)) = {2} \<and>
   wf_watch (ril_event_add 2 (ril_event_set 2 7 True 3 None booted))"
proof -
  let ?s = "ril_event_set 2 7 True 3 None booted"
  have "0 \<le> e_fd (ev ?s 2)" "e_fd (ev ?s 2) \<notin> readFds ?s"
    unfolding one_watched(3,4) by simp_all
  from event_add_registers [OF one_watched(1,2,6,7) this] show ?thesis
    using one_watched(9) by simp
qed

text \<open>
  Removing a watched event keeps the table consistent, takes exactly that event and its
  descriptor out, and keeps \<open>nfds\<close> above every descriptor still watched.
\<close>

theorem event_del_unregisters:
  assumes "wf_watch s" "e \<in> watched s"
  shows "wf_watch (ril_event_del e s) \<and> watched (ril_event_del e s) = watched s - {e} \<and>
    readFds (ril_event_del e s) = readFds s - {e_fd (ev s e)} \<and>
    (\<forall>a \<in> watched s - {e}. e_fd (ev s a) < nfds (ril_event_del e s))"
proof -
  note del = ril_event_del_watched [OF assms]
  have slot: "\<And>a. a \<in> watched (ril_event_del e s) \<Longrightarrow> e_fd (ev (ril_event_del e s) a) < nfds (ril_event_del e s)"
    using del(1) by (auto simp: wf_watch_def watched_nth)
  have fd: "\<And>a. e_fd (ev (ril_event_del e s) a) = e_fd (ev s a)" using del(3) by (simp add: same_core_def)
  have "readFds (ril_event_del e s) = (\<lambda>a. e_fd (ev s a)) ` (watched s - {e})"
    using del(1,2) fd by (simp add: wf_watch_def)
  also have "\<dots> = readFds s - {e_fd (ev s e)}"
    using assms by (auto simp: wf_watch_def inj_on_def)
  finally show ?thesis using del(1,2) slot fd by auto
qed

theorem event_del_unregisters_witness:
  "watched (ril_event_del 2 (ril_event_add 2 (ril_event_set 2 7 True 3 None booted))) = {}"
proof -
  have "2 \<in> watched (ril_event_add 2 (ril_event_set 2 7 True 3 None booted))"
    by (simp add: one_watched)
  from event_del_unregisters [OF one_watched(8) this] show ?thesis by (simp add: one_watched)
qed

text \<open>
  \<open>processReadReadies\<close> appends to the pending list the events of the first \<open>n\<close> slots, in
  table order, whose descriptor \<open>select\<close> reported, and unregisters exactly those of them that
  are not persistent.
\<close>

theorem read_readies_exact:
  assumes "wf_lists s ts ps" "wf_watch s" "watched s \<inter> (set ts \<union> set ps) = {}"
  shows "\<exists>s'. processReadReadies rfds n s = Some s' \<and>
    wf_lists s' ts (ps @ slot_events s (ready_slots s rfds [0..<MAX_FD_EVENTS] n)) \<and> wf_watch s' \<and>
    watched s' = watched s -
      {w \<in> set (slot_events s (ready_slots s rfds [0..<MAX_FD_EVENTS] n)). \<not> e_persist (ev s w)}"
  using processReadReadies_lists [OF assms refl, of rfds n] by blast

theorem read_readies_exact_witness:
  "\<exists>(s::ril_event_state) s'. watched s = {2} \<and> processReadReadies {7} 1 s = Some s' \<and> wf_lists s' [] [2] \<and> watched s' = {}"
proof -
  let ?s = "ril_event_add 2 (ril_event_set 2 7 False 3 None booted)"
  have "slot_ready ?s {7} i = (i = 0)" if "i < MAX_FD_EVENTS" for i
  proof
    assume "slot_ready ?s {7} i"
    then obtain w where w: "watch_table ?s ! i = Some w" by (auto simp: slot_ready_def split: option.splits)
    from wf_watch_slot(1,6) [OF one_watched(8) that w] have "w = 2" "e_index (ev ?s w) = int i"
      unfolding one_watched by auto
    moreover have "e_index (ev ?s 2) = int 0"
      by (rule wf_watch_slot(1) [OF one_watched(8) _ one_watched(13)]) (simp add: MAX_FD_EVENTS_def)
    ultimately show "i = 0" by simp
  qed (simp add: slot_ready_def one_watched)
  then have "filter (slot_ready ?s {7}) [0..<MAX_FD_EVENTS] = filter (\<lambda>i. i = 0) [0..<MAX_FD_EVENTS]"
    by (intro filter_cong) auto
  then have r: "ready_slots ?s {7} [0..<MAX_FD_EVENTS] 1 = [0]"
    by (simp add: ready_slots_def MAX_FD_EVENTS_def upt_rec)
  have "watched ?s \<inter> (set [] \<union> set []) = {}" by simp
  from read_readies_exact [OF one_watched(10,8) this, of "{7}" 1]
  have "\<exists>s'. processReadReadies {7} 1 ?s = Some s' \<and> wf_lists s' [] [2] \<and> watched s' = {}"
    by (simp add: slot_events_def r one_watched) blast
  with one_watched(9) show ?thesis by blast
qed

end
