(* ===== verification/PendingList.thy ===== *)
theory PendingList
  imports Prelude
begin

text \<open>
  The idiom both request lists of the daemon use, the pending requests of \<open>libril/ril.cpp\<close> and
  \<open>Ril_queue\<close> of \<open>libril/rilSocketQueue.h\<close>: a singly linked list that grows at the front and
  from which an element is unlinked through a pointer to the link that leads to it,
  \<open>for (T **ppCur = &front; *ppCur != NULL; ppCur = &((*ppCur)->p_next))\<close>. The nodes live on the
  heap; reading a node that is not allocated is the value \<open>None\<close>. \<open>token_store\<close> is the contract
  the two lists give to the code that completes requests.
\<close>

section \<open>Links\<close>

text \<open>What \<open>ppCur\<close> points to: the head of the list or the \<open>p_next\<close> field of a node.\<close>

datatype link = Head | After addr

text \<open>
  \<open>nx a\<close> is the \<open>p_next\<close> field of the node at \<open>a\<close>, and \<open>None\<close> when no node is allocated there.
\<close>

definition deref :: "(addr \<Rightarrow> addr option option) \<Rightarrow> addr option \<Rightarrow> link \<Rightarrow> addr option option" where
  "deref nx front l = (case l of Head \<Rightarrow> Some front | After a \<Rightarrow> nx a)"

text \<open>
  The loop: \<open>None\<close> when it reads freed memory (or never ends), \<open>Some None\<close> when it reaches
  NULL, \<open>Some (Some l)\<close> when \<open>*ppCur\<close> satisfies the condition with \<open>ppCur = l\<close>. The condition may
  itself read memory that is not allocated.
\<close>

partial_function (option) find_link ::
  "(addr \<Rightarrow> addr option option) \<Rightarrow> addr option \<Rightarrow> (addr \<Rightarrow> bool option) \<Rightarrow> link \<Rightarrow> link option option" where
  "find_link nx front P l =
     (case deref nx front l of
        None \<Rightarrow> None
      | Some None \<Rightarrow> Some None
      | Some (Some c) \<Rightarrow>
          (case P c of
             None \<Rightarrow> None
           | Some b \<Rightarrow> if b then Some (Some l) else find_link nx front P (After c)))"

section \<open>Well-formed lists\<close>

definition nxt :: "(addr \<Rightarrow> addr option option) \<Rightarrow> addr \<Rightarrow> addr option" where
  "nxt nx a = Option.bind (nx a) id"

definition linked :: "(addr \<Rightarrow> addr option option) \<Rightarrow> addr option \<Rightarrow> addr list \<Rightarrow> bool" where
  "linked nx p xs \<longleftrightarrow> chain (nxt nx) p xs \<and> (\<forall>x \<in> set xs. nx x \<noteq> None)"

text \<open>The link that leads to the first element satisfying \<open>P\<close>, seen from \<open>l\<close>.\<close>

fun link_to :: "link \<Rightarrow> (addr \<Rightarrow> bool) \<Rightarrow> addr list \<Rightarrow> link option" where
  "link_to l P [] = None"
| "link_to l P (x # xs) = (if P x then Some l else link_to (After x) P xs)"

lemma linked_Nil [simp]: "linked nx p [] \<longleftrightarrow> p = None"
  by (simp add: linked_def)

lemma linked_Cons [simp]:
  "linked nx p (x # xs) \<longleftrightarrow> p = Some x \<and> (\<exists>n. nx x = Some n \<and> linked nx n xs)"
  by (auto simp: linked_def nxt_def)

lemma linked_distinct: "linked nx p xs \<Longrightarrow> distinct xs"
  by (auto simp: linked_def dest: chain_distinct)

lemma linked_cong:
  "(\<And>x. x \<in> set xs \<Longrightarrow> nx' x = nx x) \<Longrightarrow> linked nx' p xs = linked nx p xs"
  by (induction xs arbitrary: p) auto

lemma linked_upd: "a \<notin> set xs \<Longrightarrow> linked (nx(a := v)) p xs = linked nx p xs"
  by (rule linked_cong) auto

lemma find_link_at:
  "deref nx front l = Some p \<Longrightarrow> linked nx p xs \<Longrightarrow> (\<And>x. x \<in> set xs \<Longrightarrow> P x = Some (Q x)) \<Longrightarrow>
     find_link nx front P l = Some (link_to l Q xs)"
proof (induction xs arbitrary: l p)
  case Nil
  then show ?case by (subst find_link.simps) simp
next
  case (Cons x xs)
  then obtain n where n: "p = Some x" "nx x = Some n" "linked nx n xs" by auto
  then have "deref nx front (After x) = Some n" by (simp add: deref_def)
  from Cons.IH [OF this n(3)] Cons.prems(3) show ?case
    using Cons.prems(1) n(1) by (subst find_link.simps) simp
qed

lemma find_link_linked:
  "linked nx front xs \<Longrightarrow> (\<And>x. x \<in> set xs \<Longrightarrow> P x = Some (Q x)) \<Longrightarrow>
     find_link nx front P Head = Some (link_to Head Q xs)"
  by (rule find_link_at [where p = front]) (simp_all add: deref_def)

text \<open>The first element that satisfies \<open>P\<close> splits the list; its link tells what is before it.\<close>

lemma link_to_split:
  "link_to l P xs = Some l' \<Longrightarrow>
     \<exists>us x vs. xs = us @ x # vs \<and> P x \<and> (\<forall>u \<in> set us. \<not> P u) \<and>
       l' = (if us = [] then l else After (last us))"
proof (induction xs arbitrary: l)
  case (Cons y ys)
  show ?case
  proof (cases "P y")
    case True
    with Cons.prems show ?thesis by (intro exI [of _ "[]"] exI [of _ y] exI [of _ ys]) simp
  next
    case False
    with Cons.prems have "link_to (After y) P ys = Some l'" by simp
    from Cons.IH [OF this] obtain us x vs where
      "ys = us @ x # vs" "P x" "\<forall>u \<in> set us. \<not> P u" "l' = (if us = [] then After y else After (last us))"
      by blast
    with False show ?thesis by (intro exI [of _ "y # us"] exI [of _ x] exI [of _ vs]) auto
  qed
qed simp

lemma link_to_None: "link_to l P xs = None \<longleftrightarrow> (\<forall>x \<in> set xs. \<not> P x)"
  by (induction xs arbitrary: l) auto

text \<open>Dropping the first element that satisfies \<open>P\<close>.\<close>

fun drop_first :: "('a \<Rightarrow> bool) \<Rightarrow> 'a list \<Rightarrow> 'a list" where
  "drop_first P [] = []"
| "drop_first P (x # xs) = (if P x then xs else x # drop_first P xs)"

lemma drop_first_split: "\<forall>u \<in> set us. \<not> P u \<Longrightarrow> P x \<Longrightarrow> drop_first P (us @ x # vs) = us @ vs"
  by (induction us) auto

lemma drop_first_remove1: "drop_first (\<lambda>x. x = y) xs = remove1 y xs"
  by (induction xs) auto

lemma drop_first_none: "\<forall>x \<in> set xs. \<not> P x \<Longrightarrow> drop_first P xs = xs"
  by (induction xs) auto

lemma set_drop_first_subset: "set (drop_first P xs) \<subseteq> set xs"
  by (induction xs) auto

text \<open>Writing the link: the effect of \<open>*ppCur = (*ppCur)->p_next\<close> on the list.\<close>

lemma linked_unlink_after:
  assumes "linked nx p (us @ y # x # vs)" "nx x = Some n"
  shows "linked (nx(y \<mapsto> n)) p (us @ y # vs)"
  using assms(1)
proof (induction us arbitrary: p)
  case Nil
  then have d: "y \<notin> set vs" "distinct (y # x # vs)" using linked_distinct [OF Nil] by auto
  from Nil assms(2) have "linked nx n vs" "p = Some y" by auto
  with d(1) show ?case by (simp add: linked_upd fun_upd_same del: fun_upd_apply)
next
  case (Cons u us)
  have "u \<noteq> y" using linked_distinct [OF Cons.prems] by auto
  with Cons show ?case by auto
qed

lemma linked_unlink_head:
  "linked nx p (x # vs) \<Longrightarrow> nx x = Some n \<Longrightarrow> linked nx n vs"
  by simp

lemma linked_push:
  "linked nx p xs \<Longrightarrow> x \<notin> set xs \<Longrightarrow> linked (nx(x \<mapsto> p)) (Some x) (x # xs)"
  by (simp add: linked_upd fun_upd_same del: fun_upd_apply)

section \<open>What a list of outstanding tokens promises\<close>

text \<open>
  \<open>toks s\<close> are the tokens of a state, \<open>add\<close> enters a fresh one and \<open>claim\<close> claims one: it answers
  whether the token was outstanding and removes it. Whoever completes requests may rely on this:
  in any sequence of claims each outstanding token is granted exactly once.
\<close>

locale token_store =
  fixes inv :: "'s \<Rightarrow> bool" and toks :: "'s \<Rightarrow> 't set"
    and add :: "'t \<Rightarrow> 's \<Rightarrow> 's" and claim :: "'t \<Rightarrow> 's \<Rightarrow> (bool \<times> 's) option"
    and fresh :: "'t \<Rightarrow> 's \<Rightarrow> bool"
  assumes fresh_add: "inv s \<Longrightarrow> fresh t s \<Longrightarrow> inv (add t s) \<and> toks (add t s) = insert t (toks s)"
    and fresh_new: "inv s \<Longrightarrow> fresh t s \<Longrightarrow> t \<notin> toks s"
    and claim_ok: "inv s \<Longrightarrow> \<exists>s'. claim t s = Some (t \<in> toks s, s') \<and> inv s' \<and> toks s' = toks s - {t}"
begin

fun claim_all :: "'t list \<Rightarrow> 's \<Rightarrow> (bool list \<times> 's) option" where
  "claim_all [] s = Some ([], s)"
| "claim_all (t # ts) s =
     Option.bind (claim t s) (\<lambda>(b, s1). Option.bind (claim_all ts s1) (\<lambda>(bs, s2). Some (b # bs, s2)))"

text \<open>The first claim of an outstanding token succeeds, every other one fails.\<close>

fun grants :: "'t set \<Rightarrow> 't list \<Rightarrow> bool list" where
  "grants T [] = []"
| "grants T (t # ts) = (t \<in> T) # grants (T - {t}) ts"

lemma claim_all_grants:
  "inv s \<Longrightarrow> \<exists>s'. claim_all ts s = Some (grants (toks s) ts, s') \<and> inv s' \<and> toks s' = toks s - set ts"
proof (induction ts arbitrary: s)
  case (Cons t ts)
  from claim_ok [OF Cons.prems, of t] obtain s1 where
    s1: "claim t s = Some (t \<in> toks s, s1)" "inv s1" "toks s1 = toks s - {t}" by blast
  from Cons.IH [OF s1(2)] obtain s2 where
    "claim_all ts s1 = Some (grants (toks s1) ts, s2)" "inv s2" "toks s2 = toks s1 - set ts" by blast
  with s1 show ?case by auto
qed simp

lemma claim_added:
  assumes "inv s" "fresh t s"
  shows "\<exists>s'. claim t (add t s) = Some (True, s') \<and> inv s' \<and> toks s' = toks s"
  using claim_ok [of "add t s" t] fresh_add [OF assms] fresh_new [OF assms] by auto

lemma claim_twice:
  assumes "inv s" "claim t s = Some (b, s1)"
  shows "\<exists>s2. claim t s1 = Some (False, s2) \<and> toks s2 = toks s1"
  using claim_ok [OF assms(1), of t] claim_ok [of s1 t] assms(2) by auto

end

end
