(* ===== verification/RilCore.thy ===== *)
theory RilCore
  imports RilEvent RilTables PendingList
begin

text \<open>
  The radio interface daemon, \<open>libril/ril.cpp\<close> and \<open>libril/ril_internal.h\<close>: registration of the
  vendor library, the lists of pending requests, solicited, acknowledged and unsolicited responses,
  the wake lock with its timeout, and the callbacks the event loop fires. The state extends the
  state of the event loop. This theory holds the definitions; \<open>RilWakeLock\<close>, \<open>RilRequests\<close> and
  \<open>RilDaemon\<close> hold the proofs.

  What the code reads from outside is an input: the clock, the address \<open>calloc\<close> returns, the thread
  it runs on, and the result of a response function of the HIDL service. What it does outside is a
  trace of effects. Function pointers that are stored (\<open>ril_event.func\<close>, \<open>p_callback\<close>) are code
  addresses. Undefined behaviour (reading freed memory, calling NULL, a failed \<open>assert\<close>) is \<open>None\<close>.
\<close>

section \<open>State\<close>

text \<open>A pointer and a length handed through: \<open>None\<close> is NULL with length 0.\<close>

type_synonym buffer = "u8 list option"

text \<open>What the daemon does to the outside, in program order.\<close>

datatype effect =
    AcquireWakeLock
  | ReleaseWakeLock
  | WakeupWrite
  | WakeupDrain
  | AcknowledgeRequest int int
  | Respond string int int int int buffer
  | SetNitzTimeReceived int int
  | RegisterService
  | PropertySet string
  | InitSapSocket string
  | SapRegisterService

text \<open>\<open>struct RequestInfo\<close>; \<open>pCI\<close> points into \<open>s_commands\<close> and is kept as the index.\<close>

record request_info =
  token :: int
  pCI :: int
  p_next :: "addr option"
  cancelled :: int
  local_cmd :: int
  socket_id :: int
  wasAckSent :: int

text \<open>
  \<open>struct UserCallbackInfo\<close>. The embedded \<open>event\<close> is the event at the same address; the field
  \<open>p_next\<close> is never used by the code.
\<close>

record user_callback_info =
  p_callback :: addr
  userParam :: "addr option"

text \<open>What the daemon reads of \<open>RIL_RadioFunctions\<close>: \<open>getVersion\<close> is NULL or yields a string.\<close>

record radio_functions =
  rf_version :: int
  rf_getVersion :: "string option"

text \<open>
  The static data. \<open>SIM_COUNT\<close> is a constant of the build. The four \<open>s_pendingRequests\<close> heads are
  one function on 0 to 3; \<open>requests\<close> and \<open>ucis\<close> are the heap cells \<open>calloc\<close> gave out.
\<close>

record ril_state = ril_event_state +
  SIM_COUNT :: nat
  callbacks :: radio_functions
  registerCalled :: int
  started :: int
  fdWakeupRead :: int
  fdWakeupWrite :: int
  wakelock_count :: int
  requests :: "addr \<Rightarrow> request_info option"
  pendingRequests :: "nat \<Rightarrow> addr option"
  ucis :: "addr \<Rightarrow> user_callback_info option"
  last_wake_timeout_info :: "addr option"
  lastNITZTimeData :: buffer
  out :: "effect list"

text \<open>
  What one call of the library sees of its environment: the clock, the result of \<open>calloc\<close> for a
  structure, whether it runs on the thread of the event loop, the result of the response function,
  whether \<open>calloc\<close> finds room for a copy of the NITZ data, and \<open>elapsedRealtime\<close>.
\<close>

record env =
  now :: timeval
  calloc_at :: "addr option"
  on_loop_thread :: bool
  response_ret :: int
  calloc_data :: bool
  elapsed :: int

definition RESPONSE_SOLICITED :: int where "RESPONSE_SOLICITED = 0"
definition RESPONSE_UNSOLICITED :: int where "RESPONSE_UNSOLICITED = 1"
definition RESPONSE_SOLICITED_ACK :: int where "RESPONSE_SOLICITED_ACK = 2"
definition RESPONSE_SOLICITED_ACK_EXP :: int where "RESPONSE_SOLICITED_ACK_EXP = 3"
definition RESPONSE_UNSOLICITED_ACK_EXP :: int where "RESPONSE_UNSOLICITED_ACK_EXP = 4"

lemmas response_types = RESPONSE_SOLICITED_def RESPONSE_UNSOLICITED_def RESPONSE_SOLICITED_ACK_def
  RESPONSE_SOLICITED_ACK_EXP_def RESPONSE_UNSOLICITED_ACK_EXP_def

definition TIMEVAL_WAKE_TIMEOUT :: timeval where
  "TIMEVAL_WAKE_TIMEOUT = Timeval 0 200000"

text \<open>Code addresses of the three static callbacks, and the address of \<open>s_wakeupfd_event\<close>.\<close>

definition userTimerCallback_fn :: addr where "userTimerCallback_fn = 1"
definition processWakeupCallback_fn :: addr where "processWakeupCallback_fn = 2"
definition wakeTimeoutCallback_fn :: addr where "wakeTimeoutCallback_fn = 3"
definition wakeupfd_event :: addr where "wakeupfd_event = 2"

lemma fn_neq [simp]:
  "userTimerCallback_fn \<noteq> processWakeupCallback_fn" "processWakeupCallback_fn \<noteq> userTimerCallback_fn"
  by (simp_all add: userTimerCallback_fn_def processWakeupCallback_fn_def)

lemma wakeupfd_event_neq [simp]: "wakeupfd_event \<noteq> timer_list" "wakeupfd_event \<noteq> pending_list"
  by (simp_all add: wakeupfd_event_def timer_list_def pending_list_def)

abbreviation version :: "ril_state \<Rightarrow> int" where
  "version s \<equiv> rf_version (callbacks s)"

definition emit :: "effect \<Rightarrow> ril_state \<Rightarrow> ril_state" where
  "emit x s = s\<lparr>out := out s @ [x]\<rparr>"

text \<open>
  \<open>calloc\<close>: NULL, or memory that is not in use. An environment that proposes memory in use (a
  static event, a live structure) counts as NULL.
\<close>

definition calloc :: "env \<Rightarrow> ril_state \<Rightarrow> addr option" where
  "calloc en s =
     (case calloc_at en of
        None \<Rightarrow> None
      | Some p \<Rightarrow>
          if p \<in> {timer_list, pending_list, wakeupfd_event} \<or> ucis s p \<noteq> None \<or> requests s p \<noteq> None
          then None else Some p)"

section \<open>Pending requests\<close>

text \<open>
  \<open>pendingRequestsHook\<close>: which of the list heads a socket uses, with the preprocessor conditions
  on \<open>SIM_COUNT\<close> around the comparisons.
\<close>

definition pendingRequestsHook :: "nat \<Rightarrow> int \<Rightarrow> nat" where
  "pendingRequestsHook sims sock =
     (if 2 \<le> sims \<and> sock = 1 then 1
      else if 3 \<le> sims \<and> sock = 2 then 2
      else if 4 \<le> sims \<and> sock = 3 then 3
      else 0)"

text \<open>A negative index into \<open>s_commands\<close> is outside the array, hence \<open>None\<close>.\<close>

definition addRequestToList :: "env \<Rightarrow> int \<Rightarrow> int \<Rightarrow> int \<Rightarrow> ril_state \<Rightarrow> (addr option \<times> ril_state) option" where
  "addRequestToList en serial slotId request s =
     (if request \<ge> int (length s_commands) then Some (None, s)
      else case calloc en s of
             None \<Rightarrow> Some (None, s)
           | Some pRI \<Rightarrow>
               if request < 0 then None
               else
                 (let hook = pendingRequestsHook (SIM_COUNT s) slotId;
                      r = \<lparr>token = serial, pCI = request, p_next = pendingRequests s hook,
                           cancelled = 0, local_cmd = 0, socket_id = slotId, wasAckSent = 0\<rparr>
                  in Some (Some pRI,
                       s\<lparr>requests := (requests s)(pRI \<mapsto> r),
                         pendingRequests := (pendingRequests s)(hook := Some pRI)\<rparr>)))"

text \<open>The \<open>p_next\<close> fields, and the list behind a head.\<close>

definition req_next :: "ril_state \<Rightarrow> addr \<Rightarrow> addr option option" where
  "req_next s a = map_option p_next (requests s a)"

definition set_link :: "nat \<Rightarrow> link \<Rightarrow> addr option \<Rightarrow> ril_state \<Rightarrow> ril_state" where
  "set_link hook l v s =
     (case l of
        Head \<Rightarrow> s\<lparr>pendingRequests := (pendingRequests s)(hook := v)\<rparr>
      | After a \<Rightarrow> s\<lparr>requests := (requests s)(a := map_option (\<lambda>r. r\<lparr>p_next := v\<rparr>) (requests s a))\<rparr>)"

definition checkAndDequeueRequestInfoIfAck ::
  "addr option \<Rightarrow> bool \<Rightarrow> ril_state \<Rightarrow> (bool \<times> ril_state) option" where
  "checkAndDequeueRequestInfoIfAck pRI isAck s =
     (case pRI of
        None \<Rightarrow> Some (False, s)
      | Some p \<Rightarrow>
          (let sock = (if 2 \<le> SIM_COUNT s then map_option socket_id (requests s p) else Some 0)
           in case sock of
                None \<Rightarrow> None
              | Some k \<Rightarrow>
                  (let hook = pendingRequestsHook (SIM_COUNT s) k
                   in case find_link (req_next s) (pendingRequests s hook) (\<lambda>c. Some (p = c)) Head of
                        None \<Rightarrow> None
                      | Some None \<Rightarrow> Some (False, s)
                      | Some (Some l) \<Rightarrow>
                          (case requests s p of
                             None \<Rightarrow> None
                           | Some r \<Rightarrow>
                               if isAck then
                                 Some (True,
                                   if wasAckSent r = 1 then s
                                   else s\<lparr>requests := (requests s)(p \<mapsto> r\<lparr>wasAckSent := 1\<rparr>)\<rparr>)
                               else Some (True, set_link hook l (p_next r) s)))))"

definition free_request :: "addr \<Rightarrow> ril_state \<Rightarrow> ril_state option" where
  "free_request p s =
     (case requests s p of None \<Rightarrow> None | Some _ \<Rightarrow> Some (s\<lparr>requests := (requests s)(p := None)\<rparr>))"

section \<open>Timers\<close>

text \<open>One byte to the wakeup pipe, repeated on \<open>EINTR\<close>, when the caller is another thread.\<close>

definition triggerEvLoop :: "env \<Rightarrow> ril_state \<Rightarrow> ril_state" where
  "triggerEvLoop en s = (if on_loop_thread en then s else emit WakeupWrite s)"

definition rilEventAddWakeup :: "env \<Rightarrow> addr \<Rightarrow> ril_state \<Rightarrow> ril_state" where
  "rilEventAddWakeup en e s = triggerEvLoop en (ril_event_add e s)"

definition processWakeupCallback :: "ril_state \<Rightarrow> ril_state" where
  "processWakeupCallback s = emit WakeupDrain s"

definition internalRequestTimedCallback ::
  "env \<Rightarrow> addr \<Rightarrow> addr option \<Rightarrow> timeval option \<Rightarrow> ril_state \<Rightarrow> (addr option \<times> ril_state) option" where
  "internalRequestTimedCallback en callback param relativeTime s =
     (case calloc en s of
        None \<Rightarrow> Some (None, s)
      | Some p_info \<Rightarrow>
          (let s1 = s\<lparr>ucis := (ucis s)(p_info \<mapsto> \<lparr>p_callback = callback, userParam = param\<rparr>)\<rparr>;
               myRelativeTime = (case relativeTime of None \<Rightarrow> Timeval 0 0 | Some t \<Rightarrow> t);
               s2 = ril_event_set p_info (-1) False userTimerCallback_fn (Some p_info) s1
           in case ril_timer_add p_info (Some myRelativeTime) (now en) s2 of
                None \<Rightarrow> None
              | Some s3 \<Rightarrow> Some (Some p_info, triggerEvLoop en s3)))"

definition RIL_requestTimedCallback ::
  "env \<Rightarrow> addr \<Rightarrow> addr option \<Rightarrow> timeval option \<Rightarrow> ril_state \<Rightarrow> ril_state option" where
  "RIL_requestTimedCallback en callback param relativeTime s =
     map_option snd (internalRequestTimedCallback en callback param relativeTime s)"

section \<open>The wake lock\<close>

text \<open>\<open>s_last_wake_timeout_info->userParam = (void *)1\<close>, guarded by the comparison with NULL.\<close>

definition cancel_last_wake :: "ril_state \<Rightarrow> ril_state option" where
  "cancel_last_wake s =
     (case last_wake_timeout_info s of
        None \<Rightarrow> Some s
      | Some p \<Rightarrow>
          (case ucis s p of
             None \<Rightarrow> None
           | Some u \<Rightarrow> Some (s\<lparr>ucis := (ucis s)(p \<mapsto> u\<lparr>userParam := Some 1\<rparr>)\<rparr>)))"

definition grabPartialWakeLock :: "env \<Rightarrow> ril_state \<Rightarrow> ril_state option" where
  "grabPartialWakeLock en s =
     (if version s \<ge> 13 then
        Option.bind
          (internalRequestTimedCallback en wakeTimeoutCallback_fn None (Some TIMEVAL_WAKE_TIMEOUT)
            (emit AcquireWakeLock s))
          (\<lambda>(p_info, s1).
             if p_info = None then Some (emit ReleaseWakeLock s1)
             else
               Option.bind (cancel_last_wake (s1\<lparr>wakelock_count := wakelock_count s1 + 1\<rparr>))
                 (\<lambda>s2. Some (s2\<lparr>last_wake_timeout_info := p_info\<rparr>)))
      else Some (emit AcquireWakeLock s))"

definition releaseWakeLock :: "ril_state \<Rightarrow> ril_state option" where
  "releaseWakeLock s =
     (if version s \<ge> 13 then
        if wakelock_count s > 1 then Some (s\<lparr>wakelock_count := wakelock_count s - 1\<rparr>)
        else cancel_last_wake (emit ReleaseWakeLock (s\<lparr>wakelock_count := 0\<rparr>))
      else Some (emit ReleaseWakeLock s))"

definition wakeTimeoutCallback :: "addr option \<Rightarrow> ril_state \<Rightarrow> ril_state option" where
  "wakeTimeoutCallback param s =
     (if version s \<ge> 13 then
        if param = None then Some (emit ReleaseWakeLock (s\<lparr>wakelock_count := 0\<rparr>)) else Some s
      else if param = None then releaseWakeLock s else Some s)"

text \<open>
  A stored \<open>RIL_TimedCallback\<close> is \<open>wakeTimeoutCallback\<close> or a function of the vendor library,
  \<open>vendor\<close>, which may call back into the daemon.
\<close>

definition run_callback ::
  "(addr \<Rightarrow> addr option \<Rightarrow> ril_state \<Rightarrow> ril_state option) \<Rightarrow> addr \<Rightarrow> addr option \<Rightarrow> ril_state \<Rightarrow> ril_state option" where
  "run_callback vendor f x s = (if f = wakeTimeoutCallback_fn then wakeTimeoutCallback x s else vendor f x s)"

definition userTimerCallback ::
  "(addr \<Rightarrow> addr option \<Rightarrow> ril_state \<Rightarrow> ril_state option) \<Rightarrow> addr option \<Rightarrow> ril_state \<Rightarrow> ril_state option" where
  "userTimerCallback vendor param s =
     (case param of
        None \<Rightarrow> None
      | Some p_info \<Rightarrow>
          (case ucis s p_info of
             None \<Rightarrow> None
           | Some u \<Rightarrow>
               Option.bind (run_callback vendor (p_callback u) (userParam u) s) (\<lambda>s1.
                 let s2 = (if last_wake_timeout_info s1 \<noteq> None \<and> last_wake_timeout_info s1 = Some p_info
                           then s1\<lparr>last_wake_timeout_info := None\<rparr> else s1)
                 in if ucis s2 p_info = None then None
                    else Some (s2\<lparr>ucis := (ucis s2)(p_info := None)\<rparr>))))"

text \<open>The callbacks of the events of this module, as the event loop calls them.\<close>

definition ril_callback ::
  "(addr \<Rightarrow> addr option \<Rightarrow> ril_state \<Rightarrow> ril_state option) \<Rightarrow>
   addr \<Rightarrow> int \<Rightarrow> addr option \<Rightarrow> ril_state \<Rightarrow> ril_state option" where
  "ril_callback vendor func fd param s =
     (if func = processWakeupCallback_fn then Some (processWakeupCallback s)
      else if func = userTimerCallback_fn then userTimerCallback vendor param s
      else None)"

section \<open>Responses\<close>

definition RIL_onRequestAck :: "addr option \<Rightarrow> ril_state \<Rightarrow> ril_state option" where
  "RIL_onRequestAck t s =
     Option.bind (checkAndDequeueRequestInfoIfAck t True s) (\<lambda>(found, s1).
       if \<not> found then Some s1
       else
         (case Option.bind t (requests s1) of
            None \<Rightarrow> None
          | Some r \<Rightarrow>
              Some (if cancelled r = 0 then emit (AcknowledgeRequest (socket_id r) (token r)) s1 else s1)))"

text \<open>
  \<open>RIL_onRequestComplete\<close>. The response function is called without a test for NULL.
\<close>

definition RIL_onRequestComplete :: "env \<Rightarrow> addr option \<Rightarrow> int \<Rightarrow> buffer \<Rightarrow> ril_state \<Rightarrow> ril_state option" where
  "RIL_onRequestComplete en t e response s =
     Option.bind (checkAndDequeueRequestInfoIfAck t False s) (\<lambda>(found, s1).
       if \<not> found then Some s1
       else
         (case t of
            None \<Rightarrow> None
          | Some p \<Rightarrow>
              (case requests s1 p of
                 None \<Rightarrow> None
               | Some r \<Rightarrow>
                   if local_cmd r > 0 then free_request p s1
                   else if cancelled r = 0 then
                     (let ack_exp = version s1 \<ge> 13 \<and> wasAckSent r = 1;
                          responseType = (if ack_exp then RESPONSE_SOLICITED_ACK_EXP else RESPONSE_SOLICITED)
                      in Option.bind (if ack_exp then grabPartialWakeLock en s1 else Some s1) (\<lambda>s2.
                           case responseFunction (s_commands ! nat (pCI r)) of
                             None \<Rightarrow> None
                           | Some f \<Rightarrow>
                               free_request p
                                 (emit (Respond f (socket_id r) responseType (token r) e response) s2)))
                   else free_request p s1)))"

text \<open>
  \<open>RIL_onUnsolicitedResponse\<close>. The socket is a parameter only when \<open>ANDROID_MULTI_SIM\<close> is
  defined, that is when \<open>SIM_COUNT\<close> is at least 2. When there is no response function, \<open>ret\<close> is
  not initialised; it is read only for NITZ, which has one.
\<close>

definition unsol_timeout :: "env \<Rightarrow> bool \<Rightarrow> ril_state \<Rightarrow> (bool \<times> ril_state) option" where
  "unsol_timeout en shouldScheduleTimeout s =
     (if version s < 13 \<and> shouldScheduleTimeout then
        Option.bind
          (internalRequestTimedCallback en wakeTimeoutCallback_fn None (Some TIMEVAL_WAKE_TIMEOUT) s)
          (\<lambda>(p_info, s1).
             if p_info = None then Some (False, s1)
             else Option.bind (cancel_last_wake s1) (\<lambda>s2. Some (True, s2\<lparr>last_wake_timeout_info := p_info\<rparr>)))
      else Some (True, s))"

definition keep_nitz :: "env \<Rightarrow> int \<Rightarrow> buffer \<Rightarrow> ril_state \<Rightarrow> bool \<times> ril_state" where
  "keep_nitz en unsolResponse data s =
     (if response_ret en \<noteq> 0 \<and> unsolResponse = RIL_UNSOL_NITZ_TIME_RECEIVED then
        (let s1 = s\<lparr>lastNITZTimeData := None\<rparr>
         in if calloc_data en
            then (True, s1\<lparr>lastNITZTimeData := Some (case data of None \<Rightarrow> [] | Some bs \<Rightarrow> bs)\<rparr>)
            else (False, s1))
      else (True, s))"

definition RIL_onUnsolicitedResponse :: "env \<Rightarrow> int \<Rightarrow> buffer \<Rightarrow> int \<Rightarrow> ril_state \<Rightarrow> ril_state option" where
  "RIL_onUnsolicitedResponse en unsolResponse data sock s =
     (let soc_id = (if 2 \<le> SIM_COUNT s then sock else 0);
          unsolResponseIndex = unsolResponse - RIL_UNSOL_RESPONSE_BASE
      in if registerCalled s = 0 then Some s
         else if unsolResponseIndex < 0 \<or> unsolResponseIndex \<ge> int (length s_unsolResponses) then Some s
         else
           (let info = s_unsolResponses ! nat unsolResponseIndex;
                wake = (wakeType info = WAKE_PARTIAL);
                responseType = (if version s \<ge> 13 \<and> wake then RESPONSE_UNSOLICITED_ACK_EXP
                                else RESPONSE_UNSOLICITED)
            in Option.bind (if wake then grabPartialWakeLock en s else Some s) (\<lambda>s1.
               let s2 = (if unsolResponse = RIL_UNSOL_NITZ_TIME_RECEIVED
                         then emit (SetNitzTimeReceived soc_id (elapsed en)) s1 else s1);
                   s3 = (case u_responseFunction info of
                           None \<Rightarrow> s2
                         | Some f \<Rightarrow> emit (Respond f soc_id responseType 0 RIL_E_SUCCESS data) s2)
               in Option.bind (unsol_timeout en wake s3) (\<lambda>(ok, s4).
                    let (kept, s5) = (if ok then keep_nitz en unsolResponse data s4 else (False, s4))
                    in if kept then Some s5 else if wake then releaseWakeLock s5 else Some s5))))"

definition resendLastNITZTimeData :: "env \<Rightarrow> int \<Rightarrow> ril_state \<Rightarrow> ril_state" where
  "resendLastNITZTimeData en sock s =
     (case lastNITZTimeData s of
        None \<Rightarrow> s
      | Some bs \<Rightarrow>
          (let responseType = (if version s \<ge> 13 then RESPONSE_UNSOLICITED_ACK_EXP else RESPONSE_UNSOLICITED);
               s1 = emit (Respond ''nitzTimeReceivedInd'' sock responseType 0 RIL_E_SUCCESS (Some bs)) s
           in if response_ret en = 0 then s1\<lparr>lastNITZTimeData := None\<rparr> else s1))"

text \<open>The memory of an \<open>int\<close> on the little-endian target.\<close>

definition int_bytes :: "int \<Rightarrow> u8 list" where
  "int_bytes v = map (\<lambda>i. word_of_int (v div 256 ^ i)) [0..<4]"

text \<open>
  \<open>onNewCommandConnect\<close> reports the connection (with the memory of \<open>rilVer\<close>), the radio state and
  the pending NITZ time; the three reports see the environments \<open>en1\<close> to \<open>en3\<close>.
\<close>

definition onNewCommandConnect :: "env \<Rightarrow> env \<Rightarrow> env \<Rightarrow> int \<Rightarrow> ril_state \<Rightarrow> ril_state option" where
  "onNewCommandConnect en1 en2 en3 sock s =
     Option.bind
       (RIL_onUnsolicitedResponse en1 RIL_UNSOL_RIL_CONNECTED (Some (int_bytes (version s))) sock s) (\<lambda>s1.
     Option.bind
       (RIL_onUnsolicitedResponse en2 RIL_UNSOL_RESPONSE_RADIO_STATE_CHANGED None sock s1) (\<lambda>s2.
     let s3 = (if lastNITZTimeData s2 \<noteq> None then resendLastNITZTimeData en3 sock s2 else s2)
     in Some (case rf_getVersion (callbacks s3) of
                Some v \<Rightarrow> emit (PropertySet v) s3
              | None \<Rightarrow> emit (PropertySet ''unavailable'') s3)))"

section \<open>Start and registration\<close>

text \<open>
  \<open>eventLoop\<close> up to \<open>ril_event_loop\<close>; \<open>filedes\<close> is the result of \<open>pipe\<close>. The result tells whether
  the loop is entered.
\<close>

definition eventLoop :: "(int \<times> int) option \<Rightarrow> env \<Rightarrow> ril_state \<Rightarrow> bool \<times> ril_state" where
  "eventLoop filedes en s =
     (let s1 = (ril_event_init s)\<lparr>started := 1\<rparr>
      in case filedes of
           None \<Rightarrow> (False, s1)
         | Some (r, w) \<Rightarrow>
             (let s2 = s1\<lparr>fdWakeupRead := r, fdWakeupWrite := w\<rparr>;
                  s3 = ril_event_set wakeupfd_event (fdWakeupRead s2) True processWakeupCallback_fn None s2
              in (True, rilEventAddWakeup en wakeupfd_event s3)))"

definition RIL_setcallbacks :: "radio_functions \<Rightarrow> ril_state \<Rightarrow> ril_state" where
  "RIL_setcallbacks cb s = s\<lparr>callbacks := cb\<rparr>"

text \<open>The self-check of the two tables; a failed \<open>assert\<close> is \<open>None\<close>.\<close>

definition RIL_register :: "radio_functions option \<Rightarrow> ril_state \<Rightarrow> ril_state option" where
  "RIL_register cbs s =
     (case cbs of
        None \<Rightarrow> Some s
      | Some cb \<Rightarrow>
          if rf_version cb < RIL_VERSION_MIN then Some s
          else if registerCalled s > 0 then Some s
          else
            (let s1 = s\<lparr>callbacks := cb, registerCalled := 1\<rparr>
             in if (\<forall>i \<in> set [0..<length s_commands]. int i = requestNumber (s_commands ! i)) \<and>
                   (\<forall>i \<in> set [0..<length s_unsolResponses].
                      int i + RIL_UNSOL_RESPONSE_BASE = u_requestNumber (s_unsolResponses ! i))
                then Some (emit RegisterService s1) else None))"

text \<open>
  \<open>RIL_register_socket\<close>: \<open>Init\<close> is NULL or present (its result is handed on), \<open>sap\<close> tells whether
  the type is \<open>RIL_SAP_SOCKET\<close>.
\<close>

definition RIL_register_socket :: "bool \<Rightarrow> bool \<Rightarrow> ril_state \<Rightarrow> ril_state" where
  "RIL_register_socket Init sap s =
     (if Init then
        (let s1 = (if sap then
                     foldl (\<lambda>s (n, nm). if n \<le> SIM_COUNT s then emit (InitSapSocket nm) s else s) s
                       [(1, ''slot1''), (2, ''slot2''), (3, ''slot3''), (4, ''slot4'')]
                   else s)
         in emit SapRegisterService s1)
      else s)"

end
