(* ===== verification/RilWakeLock.thy ===== *)
theory RilWakeLock
  imports RilCore
begin

text \<open>
  The wake lock of \<open>libril/ril.cpp\<close>. \<open>list_inv\<close> ties the heap of \<open>UserCallbackInfo\<close> structures to
  the lists of the event loop: exactly the timers on the two lists are allocated (and those in \<open>F\<close>,
  which the loop has taken off its list to fire). \<open>wake_inv\<close> states that the wake lock cannot leak:
  while it is held, a wake timer that is not cancelled is still going to fire. Every operation on
  timers and on the wake lock keeps both.
\<close>

section \<open>The wake lock in the trace\<close>

definition is_wake :: "effect \<Rightarrow> bool" where
  "is_wake x \<longleftrightarrow> x = AcquireWakeLock \<or> x = ReleaseWakeLock"

definition wake_held :: "effect list \<Rightarrow> bool" where
  "wake_held tr = (filter is_wake tr \<noteq> [] \<and> last (filter is_wake tr) = AcquireWakeLock)"

lemma wake_held_simps [simp]:
  "wake_held [] = False"
  "wake_held (tr @ [AcquireWakeLock])"
  "\<not> wake_held (tr @ [ReleaseWakeLock])"
  "\<not> is_wake x \<Longrightarrow> wake_held (tr @ [x]) = wake_held tr"
  by (auto simp: wake_held_def is_wake_def)

lemma wake_held_other [simp]:
  "wake_held (tr @ [WakeupWrite]) = wake_held tr" "wake_held (tr @ [WakeupDrain]) = wake_held tr"
  "wake_held (tr @ [Respond f k ty tk e b]) = wake_held tr"
  "wake_held (tr @ [AcknowledgeRequest k tk]) = wake_held tr"
  "wake_held (tr @ [SetNitzTimeReceived k i]) = wake_held tr"
  "wake_held (tr @ [RegisterService]) = wake_held tr" "wake_held (tr @ [PropertySet v]) = wake_held tr"
  "wake_held (tr @ [InitSapSocket v]) = wake_held tr" "wake_held (tr @ [SapRegisterService]) = wake_held tr"
  by (simp_all add: is_wake_def)

section \<open>Invariants\<close>

definition list_inv :: "addr set \<Rightarrow> ril_state \<Rightarrow> addr list \<Rightarrow> addr list \<Rightarrow> bool" where
  "list_inv F s ts ps \<longleftrightarrow>
     wf_lists s ts ps \<and> wf_watch s \<and> watched s \<subseteq> {wakeupfd_event} \<and> wakeupfd_event \<notin> set ts \<and>
     dom (ucis s) = set ts \<union> (set ps - {wakeupfd_event}) \<union> F \<and>
     F \<inter> (set ts \<union> set ps) = {} \<and>
     dom (ucis s) \<inter> {timer_list, pending_list, wakeupfd_event} = {} \<and>
     (\<forall>p \<in> dom (ucis s). e_func (ev s p) = userTimerCallback_fn \<and> e_param (ev s p) = Some p) \<and>
     e_func (ev s wakeupfd_event) = processWakeupCallback_fn"

text \<open>The wake timer that will release the lock: the last one, not cancelled, not yet fired.\<close>

definition live :: "addr set \<Rightarrow> ril_state \<Rightarrow> bool" where
  "live F s \<longleftrightarrow> (\<exists>p u. last_wake_timeout_info s = Some p \<and> ucis s p = Some u \<and> userParam u = None \<and> p \<notin> F)"

definition wake_inv :: "addr set \<Rightarrow> ril_state \<Rightarrow> bool" where
  "wake_inv F s \<longleftrightarrow>
     (\<forall>p u. ucis s p = Some u \<longrightarrow> p_callback u = wakeTimeoutCallback_fn \<longrightarrow> userParam u = None \<longrightarrow>
        last_wake_timeout_info s = Some p) \<and>
     (\<forall>p. last_wake_timeout_info s = Some p \<longrightarrow>
        (\<exists>u. ucis s p = Some u \<and> p_callback u = wakeTimeoutCallback_fn)) \<and>
     (wake_held (out s) \<or> 0 < wakelock_count s \<longrightarrow> live F s) \<and>
     0 \<le> wakelock_count s \<and> (version s < 13 \<longrightarrow> wakelock_count s = 0) \<and>
     (13 \<le> version s \<longrightarrow> wake_held (out s) \<longrightarrow> 0 < wakelock_count s) \<and>
     (registerCalled s = 0 \<longrightarrow> version s = 0 \<and> \<not> wake_held (out s))"

lemma wake_invI:
  assumes "\<And>p u. ucis s p = Some u \<Longrightarrow> p_callback u = wakeTimeoutCallback_fn \<Longrightarrow> userParam u = None \<Longrightarrow>
        last_wake_timeout_info s = Some p"
    and "\<And>p. last_wake_timeout_info s = Some p \<Longrightarrow>
        \<exists>u. ucis s p = Some u \<and> p_callback u = wakeTimeoutCallback_fn"
    and "wake_held (out s) \<or> 0 < wakelock_count s \<Longrightarrow> live F s"
    and "0 \<le> wakelock_count s" "version s < 13 \<Longrightarrow> wakelock_count s = 0"
    and "13 \<le> version s \<Longrightarrow> wake_held (out s) \<Longrightarrow> 0 < wakelock_count s"
    and "registerCalled s = 0 \<Longrightarrow> version s = 0 \<and> \<not> wake_held (out s)"
  shows "wake_inv F s"
  unfolding wake_inv_def using assms by blast

lemma wake_invD:
  assumes "wake_inv F s"
  shows "ucis s p = Some u \<Longrightarrow> p_callback u = wakeTimeoutCallback_fn \<Longrightarrow> userParam u = None \<Longrightarrow>
        last_wake_timeout_info s = Some p"
    and "last_wake_timeout_info s = Some p \<Longrightarrow> \<exists>u. ucis s p = Some u \<and> p_callback u = wakeTimeoutCallback_fn"
    and "wake_held (out s) \<or> 0 < wakelock_count s \<Longrightarrow> live F s"
    and "0 \<le> wakelock_count s" and "version s < 13 \<Longrightarrow> wakelock_count s = 0"
    and "13 \<le> version s \<Longrightarrow> wake_held (out s) \<Longrightarrow> 0 < wakelock_count s"
    and "registerCalled s = 0 \<Longrightarrow> version s = 0" "registerCalled s = 0 \<Longrightarrow> \<not> wake_held (out s)"
  using assms unfolding wake_inv_def by blast+

lemma list_inv_cong:
  assumes "ev s' = ev s" "readFds s' = readFds s" "nfds s' = nfds s" "watch_table s' = watch_table s"
    "dom (ucis s') = dom (ucis s)"
  shows "list_inv F s' ts ps = list_inv F s ts ps"
proof -
  have "wf_lists s' ts ps = wf_lists s ts ps" by (rule wf_lists_cong) (simp add: assms(1))
  moreover have "wf_watch s' = wf_watch s" "watched s' = watched s"
    using assms by (simp_all add: wf_watch_def watched_def)
  ultimately show ?thesis using assms by (simp add: list_inv_def)
qed

lemma list_inv_emit [simp]: "list_inv F (emit x s) ts ps = list_inv F s ts ps"
  by (rule list_inv_cong) (simp_all add: emit_def)

lemma emit_fields [simp]:
  "ucis (emit x s) = ucis s" "last_wake_timeout_info (emit x s) = last_wake_timeout_info s"
  "wakelock_count (emit x s) = wakelock_count s" "callbacks (emit x s) = callbacks s"
  "registerCalled (emit x s) = registerCalled s" "out (emit x s) = out s @ [x]"
  "requests (emit x s) = requests s" "pendingRequests (emit x s) = pendingRequests s"
  "lastNITZTimeData (emit x s) = lastNITZTimeData s" "SIM_COUNT (emit x s) = SIM_COUNT s"
  "ev (emit x s) = ev s"
  by (simp_all add: emit_def)

lemma wake_inv_emit: "\<not> is_wake x \<Longrightarrow> wake_inv F (emit x s) = wake_inv F s"
  by (simp add: wake_inv_def live_def)

lemma calloc_Some:
  "calloc en s = Some p \<Longrightarrow>
     p \<notin> {timer_list, pending_list, wakeupfd_event} \<and> ucis s p = None \<and> requests s p = None \<and> calloc_at en = Some p"
  by (auto simp: calloc_def split: option.splits if_splits)

lemma calloc_emit [simp]: "calloc en (emit x s) = calloc en s"
  by (simp add: calloc_def split: option.split)

section \<open>Timers\<close>

text \<open>
  \<open>internalRequestTimedCallback\<close>: with memory, one more timer, due after the given time; without,
  nothing happens.
\<close>

lemma internal_timer:
  assumes inv: "list_inv F s ts ps" and c: "calloc en s = Some p"
  shows "\<exists>s'. internalRequestTimedCallback en f x (Some tv) s = Some (Some p, s') \<and>
     list_inv F s' (ins_at (\<lambda>y. tmo s y < timeradd (now en) tv) p ts) ps \<and>
     tmo s' p = timeradd (now en) tv \<and>
     s' = s\<lparr>ev := ev s', ucis := (ucis s)(p \<mapsto> \<lparr>p_callback = f, userParam = x\<rparr>),
            out := out s @ (if on_loop_thread en then [] else [WakeupWrite])\<rparr>"
proof -
  note I = inv [unfolded list_inv_def]
  note p = calloc_Some [OF c]
  define t where "t = timeradd (now en) tv"
  let ?s1 = "s\<lparr>ucis := (ucis s)(p \<mapsto> \<lparr>p_callback = f, userParam = x\<rparr>)\<rparr>"
  let ?s2 = "ril_event_set p (-1) False userTimerCallback_fn (Some p) ?s1"
  let ?ts = "ins_at (\<lambda>y. tmo s y < t) p ts"
  have notin: "p \<notin> set (timer_list # ts) \<union> set (pending_list # ps)" "p \<notin> F"
    using I p by auto
  have W1: "wf_lists ?s1 ts ps = wf_lists s ts ps" by (rule wf_lists_cong) simp
  have w1: "wf_watch ?s1" "watched ?s1 = watched s"
    using I by (simp_all add: wf_watch_def watched_def)
  have l2: "wf_lists ?s2 ts ps"
    using ril_event_set_lists [OF notin(1), of "-1" False userTimerCallback_fn "Some p" ?s1] W1 I by simp
  have unw: "p \<notin> watched ?s1" using w1 I p by auto
  note w2 = ril_event_set_watch [OF unw, of "-1" False userTimerCallback_fn "Some p"]
  from ril_timer_add_ex [OF l2 notin(1), of tv "now en"] obtain s3 where
    s3: "ril_timer_add p (Some tv) (now en) ?s2 = Some s3"
    "wf_lists s3 (ins_at (\<lambda>y. tmo ?s2 y < t) p ts) ps"
    "same_payload (?s2\<lparr>ev := (ev ?s2)(p := (ev ?s2 p)\<lparr>e_fd := -1, e_timeout := t\<rparr>)\<rparr>) s3"
    unfolding t_def by blast
  let ?s2' = "?s2\<lparr>ev := (ev ?s2)(p := (ev ?s2 p)\<lparr>e_fd := -1, e_timeout := t\<rparr>)\<rparr>"
  have ins: "ins_at (\<lambda>y. tmo ?s2 y < t) p ts = ?ts"
    unfolding ins_at_def using notin(1)
    by (intro arg_cong2 [where f = "(@)"] arg_cong2 [where f = Cons] takeWhile_cong dropWhile_cong refl)
      (auto simp: ril_event_set_def)
  have eq3: "s3 = ?s2'\<lparr>ev := ev s3\<rparr>" using s3(3) by (simp add: same_payload_def)
  have w2': "wf_watch ?s2'" "watched ?s2' = watched s"
  proof -
    have "watched ?s2' = watched ?s2" by (simp add: watched_def)
    then show W: "watched ?s2' = watched s" using w2(1) w1(2) by simp
    have "wf_watch ?s2" by (rule w2(2) [OF w1(1)])
    moreover have "p \<notin> watched ?s2" using w2(1) unw by simp
    ultimately show "wf_watch ?s2'"
      by (auto simp: wf_watch_def watched_def inj_on_def image_iff in_set_conv_nth) metis+
  qed
  have w3: "wf_watch s3" "watched s3 = watched s"
    using wf_watch_same [OF s3(3)] w2' by simp_all
  have u3: "ucis s3 = (ucis s)(p \<mapsto> \<lparr>p_callback = f, userParam = x\<rparr>)"
    by (subst eq3) (simp add: ril_event_set_def)
  have f3: "e_func (ev s3 a) = (if a = p then userTimerCallback_fn else e_func (ev s a))"
    "e_param (ev s3 a) = (if a = p then Some p else e_param (ev s a))" for a
    using same_payload_fields(9,10) [OF s3(3), of a] by (auto simp: ril_event_set_def)
  have L: "list_inv F s3 ?ts ps"
    unfolding list_inv_def u3 f3
  proof (intro conjI)
    show "wf_lists s3 ?ts ps" using s3(2) unfolding ins .
  qed (use w3 I p notin in \<open>auto simp: ins_simps\<close>)
  let ?s' = "triggerEvLoop en s3"
  have "internalRequestTimedCallback en f x (Some tv) s = Some (Some p, ?s')"
    unfolding internalRequestTimedCallback_def c using s3(1) by (simp add: Let_def)
  moreover have "list_inv F ?s' ?ts ps" using L by (simp add: triggerEvLoop_def)
  moreover have "tmo ?s' p = t"
    using same_payload_fields(8) [OF s3(3), of p] by (simp add: triggerEvLoop_def)
  moreover have "?s' = s\<lparr>ev := ev ?s', ucis := (ucis s)(p \<mapsto> \<lparr>p_callback = f, userParam = x\<rparr>),
      out := out s @ (if on_loop_thread en then [] else [WakeupWrite])\<rparr>"
    by (subst (1 2) eq3) (simp add: triggerEvLoop_def emit_def ril_event_set_def)
  ultimately show ?thesis unfolding t_def by blast
qed

lemma internal_no_memory:
  "calloc en s = None \<Longrightarrow> internalRequestTimedCallback en f x tv s = Some (None, s)"
  by (simp add: internalRequestTimedCallback_def)

section \<open>Taking and giving back the lock\<close>

text \<open>A wake timer was entered: the previous one is cancelled and the new one is the live one.\<close>

lemma new_wake_timer:
  assumes inv: "wake_inv F s" and p: "ucis s p = None" "p \<notin> F"
    and s1: "ucis s1 = (ucis s)(p \<mapsto> \<lparr>p_callback = wakeTimeoutCallback_fn, userParam = None\<rparr>)"
      "last_wake_timeout_info s1 = last_wake_timeout_info s" "callbacks s1 = callbacks s"
      "registerCalled s1 = registerCalled s" "registerCalled s \<noteq> 0"
    and n: "0 \<le> wakelock_count s1" "version s < 13 \<Longrightarrow> wakelock_count s1 = 0"
      "13 \<le> version s \<Longrightarrow> 0 < wakelock_count s1"
  shows "\<exists>s2. cancel_last_wake s1 = Some s2 \<and> wake_inv F (s2\<lparr>last_wake_timeout_info := Some p\<rparr>) \<and>
     s2 = s1\<lparr>ucis := ucis s2\<rparr> \<and> dom (ucis s2) = insert p (dom (ucis s)) \<and>
     ucis s2 p = Some \<lparr>p_callback = wakeTimeoutCallback_fn, userParam = None\<rparr>"
proof (cases "last_wake_timeout_info s")
  case None
  then have "cancel_last_wake s1 = Some s1" by (simp add: cancel_last_wake_def s1)
  with None inv p s1 n show ?thesis
    by (intro exI [of _ s1]) (auto simp: wake_inv_def live_def)
next
  case (Some q)
  with inv obtain u where u: "ucis s q = Some u" "p_callback u = wakeTimeoutCallback_fn"
    by (auto simp: wake_inv_def)
  then have qp: "q \<noteq> p" using p by auto
  let ?s2 = "s1\<lparr>ucis := (ucis s1)(q \<mapsto> u\<lparr>userParam := Some 1\<rparr>)\<rparr>"
  have "cancel_last_wake s1 = Some ?s2" using Some u qp by (simp add: cancel_last_wake_def s1)
  moreover have "wake_inv F (?s2\<lparr>last_wake_timeout_info := Some p\<rparr>)"
  proof (rule wake_invI)
    fix a v
    assume "ucis (?s2\<lparr>last_wake_timeout_info := Some p\<rparr>) a = Some v"
      "p_callback v = wakeTimeoutCallback_fn" "userParam v = None"
    then show "last_wake_timeout_info (?s2\<lparr>last_wake_timeout_info := Some p\<rparr>) = Some a"
      using wake_invD(1) [OF inv, of a v] Some s1(1) by (auto split: if_splits)
  qed (use p s1 n qp in \<open>auto simp: live_def\<close>)
  moreover have "dom (ucis ?s2) = insert p (dom (ucis s))" using u s1(1) by auto
  ultimately show ?thesis using qp s1(1) by (intro exI [of _ ?s2]) simp
qed

text \<open>Cancelling without a successor is sound when the lock is not held any more.\<close>

lemma cancel_released:
  assumes inv: "wake_inv F s" and s1: "ucis s1 = ucis s" "callbacks s1 = callbacks s"
      "last_wake_timeout_info s1 = last_wake_timeout_info s" "registerCalled s1 = registerCalled s"
    and n: "wakelock_count s1 = 0" "\<not> wake_held (out s1)"
  shows "\<exists>s2. cancel_last_wake s1 = Some s2 \<and> wake_inv F s2 \<and> s2 = s1\<lparr>ucis := ucis s2\<rparr> \<and>
     dom (ucis s2) = dom (ucis s)"
proof (cases "last_wake_timeout_info s")
  case None
  then have "cancel_last_wake s1 = Some s1" by (simp add: cancel_last_wake_def s1)
  with None inv s1 n show ?thesis
    by (intro exI [of _ s1]) (auto simp: wake_inv_def live_def)
next
  case (Some q)
  with inv obtain u where u: "ucis s q = Some u" "p_callback u = wakeTimeoutCallback_fn"
    by (auto simp: wake_inv_def)
  let ?s2 = "s1\<lparr>ucis := (ucis s1)(q \<mapsto> u\<lparr>userParam := Some 1\<rparr>)\<rparr>"
  have "cancel_last_wake s1 = Some ?s2" using Some u by (simp add: cancel_last_wake_def s1)
  moreover have "wake_inv F ?s2"
  proof (rule wake_invI)
    fix a v
    assume "ucis ?s2 a = Some v" "p_callback v = wakeTimeoutCallback_fn" "userParam v = None"
    then show "last_wake_timeout_info ?s2 = Some a"
      using wake_invD(1) [OF inv, of a v] s1 by (auto split: if_splits)
  next
    show "registerCalled ?s2 = 0 \<Longrightarrow> version ?s2 = 0 \<and> \<not> wake_held (out ?s2)"
      using wake_invD(7) [OF inv] s1 n by simp
  qed (use s1 n Some u in auto)
  moreover have "dom (ucis ?s2) = dom (ucis s)" using u s1(1) by auto
  ultimately show ?thesis by (intro exI [of _ ?s2]) simp
qed

text \<open>What the wake lock operations leave alone: requests, registration and the responses sent.\<close>

fun is_response :: "effect \<Rightarrow> bool" where
  "is_response (Respond _ _ _ _ _ _) = True"
| "is_response (AcknowledgeRequest _ _) = True"
| "is_response _ = False"

definition req_frame :: "ril_state \<Rightarrow> ril_state \<Rightarrow> bool" where
  "req_frame s s' \<longleftrightarrow> filter is_response (out s') = filter is_response (out s) \<and>
     requests s' = requests s \<and> pendingRequests s' = pendingRequests s \<and>
     SIM_COUNT s' = SIM_COUNT s \<and> callbacks s' = callbacks s \<and> registerCalled s' = registerCalled s"

lemma req_frame_refl [simp]: "req_frame s s"
  by (simp add: req_frame_def)

lemma req_frame_trans: "req_frame s t \<Longrightarrow> req_frame t u \<Longrightarrow> req_frame s u"
  by (simp add: req_frame_def)

lemma req_frame_emit [simp]: "\<not> is_response x \<Longrightarrow> req_frame s (emit x s)"
  by (simp add: req_frame_def)

lemma wake_inv_released: "wake_inv F (s\<lparr>out := []\<rparr>) \<Longrightarrow> \<not> wake_held (out s) \<Longrightarrow> wake_inv F s"
  by (simp add: wake_inv_def live_def)

lemma wake_inv_core: "wake_inv F s \<Longrightarrow> wake_inv F (s\<lparr>out := []\<rparr>)"
  by (simp add: wake_inv_def live_def)

lemma wake_inv_cong:
  assumes "wake_inv F s" "ucis s' = ucis s" "last_wake_timeout_info s' = last_wake_timeout_info s"
    "wakelock_count s' = wakelock_count s" "callbacks s' = callbacks s"
    "registerCalled s' = registerCalled s" "wake_held (out s') = wake_held (out s)"
  shows "wake_inv F s'"
  using assms by (simp add: wake_inv_def live_def)

text \<open>A wake timer for 200 ms, replacing the last one.\<close>

lemma wake_timer_set:
  assumes L: "list_inv F s ts ps" and W: "wake_inv F (s\<lparr>out := []\<rparr>)" and reg: "registerCalled s \<noteq> 0"
    and c: "calloc en s = Some p" and cnt: "n = (if 13 \<le> version s then wakelock_count s + 1 else wakelock_count s)"
  shows "\<exists>s1 s2 ts'. internalRequestTimedCallback en wakeTimeoutCallback_fn None (Some TIMEVAL_WAKE_TIMEOUT) s =
       Some (Some p, s1) \<and> wakelock_count s1 = wakelock_count s \<and>
     cancel_last_wake (s1\<lparr>wakelock_count := n\<rparr>) = Some s2 \<and>
     list_inv F (s2\<lparr>last_wake_timeout_info := Some p\<rparr>) ts' ps \<and>
     wake_inv F (s2\<lparr>last_wake_timeout_info := Some p\<rparr>) \<and> req_frame s s2 \<and>
     lastNITZTimeData s2 = lastNITZTimeData s \<and>
     wakelock_count s2 = n \<and> wake_held (out s2) = wake_held (out s) \<and>
     set ts' = insert p (set ts) \<and> tmo s2 p = timeradd (now en) TIMEVAL_WAKE_TIMEOUT \<and>
     ucis s2 p = Some \<lparr>p_callback = wakeTimeoutCallback_fn, userParam = None\<rparr>"
proof -
  let ?ts = "ins_at (\<lambda>y. tmo s y < timeradd (now en) TIMEVAL_WAKE_TIMEOUT) p ts"
  from internal_timer [OF L c, of wakeTimeoutCallback_fn None TIMEVAL_WAKE_TIMEOUT] obtain s1 where
    s1: "internalRequestTimedCallback en wakeTimeoutCallback_fn None (Some TIMEVAL_WAKE_TIMEOUT) s = Some (Some p, s1)"
      "list_inv F s1 ?ts ps" "tmo s1 p = timeradd (now en) TIMEVAL_WAKE_TIMEOUT" and
    eq: "s1 = s\<lparr>ev := ev s1, ucis := (ucis s)(p \<mapsto> \<lparr>p_callback = wakeTimeoutCallback_fn, userParam = None\<rparr>),
            out := out s @ (if on_loop_thread en then [] else [WakeupWrite])\<rparr>"
    by blast
  have fields: "ucis s1 = (ucis s)(p \<mapsto> \<lparr>p_callback = wakeTimeoutCallback_fn, userParam = None\<rparr>)"
    "last_wake_timeout_info s1 = last_wake_timeout_info s" "callbacks s1 = callbacks s"
    "registerCalled s1 = registerCalled s" "wake_held (out s1) = wake_held (out s)"
    "requests s1 = requests s" "pendingRequests s1 = pendingRequests s" "SIM_COUNT s1 = SIM_COUNT s"
    "filter is_response (out s1) = filter is_response (out s)"
    "lastNITZTimeData s1 = lastNITZTimeData s" "wakelock_count s1 = wakelock_count s"
    by (subst eq, simp)+
  note p = calloc_Some [OF c]
  have F: "F \<subseteq> dom (ucis s)" using L by (auto simp: list_inv_def)
  then have pF: "p \<notin> F" using p by auto
  let ?s = "s\<lparr>out := []\<rparr>" and ?s1 = "s1\<lparr>wakelock_count := n\<rparr>"
  have "\<exists>s2. cancel_last_wake ?s1 = Some s2 \<and> wake_inv F (s2\<lparr>last_wake_timeout_info := Some p\<rparr>) \<and>
     s2 = ?s1\<lparr>ucis := ucis s2\<rparr> \<and> dom (ucis s2) = insert p (dom (ucis ?s)) \<and>
     ucis s2 p = Some \<lparr>p_callback = wakeTimeoutCallback_fn, userParam = None\<rparr>"
    by (rule new_wake_timer [OF W]) (use fields reg p pF cnt wake_invD(4,5) [OF W] in auto)
  then obtain s2 where s2: "cancel_last_wake ?s1 = Some s2" "wake_inv F (s2\<lparr>last_wake_timeout_info := Some p\<rparr>)"
    "s2 = ?s1\<lparr>ucis := ucis s2\<rparr>" "dom (ucis s2) = insert p (dom (ucis s))"
    "ucis s2 p = Some \<lparr>p_callback = wakeTimeoutCallback_fn, userParam = None\<rparr>" by auto
  have f2: "ev s2 = ev s1" "readFds s2 = readFds s1" "nfds s2 = nfds s1" "watch_table s2 = watch_table s1"
    "callbacks s2 = callbacks s1" "registerCalled s2 = registerCalled s1" "out s2 = out s1"
    "requests s2 = requests s1" "pendingRequests s2 = pendingRequests s1" "SIM_COUNT s2 = SIM_COUNT s1"
    "wakelock_count s2 = n" "lastNITZTimeData s2 = lastNITZTimeData s1"
    by (subst s2(3), simp)+
  have "list_inv F (s2\<lparr>last_wake_timeout_info := Some p\<rparr>) ?ts ps"
    using s1(2) by (subst list_inv_cong [where s = s1]) (auto simp: f2 s2(4) fields)
  with s1(1,3) s2(1,2,5) show ?thesis
    by (intro exI [of _ s1] exI [of _ s2] exI [of _ ?ts])
      (simp add: req_frame_def f2 fields ins_simps)
qed

text \<open>\<open>grabPartialWakeLock\<close> from version 13 on.\<close>

lemma grab_alloc:
  assumes L: "list_inv F s ts ps" and W: "wake_inv F s" and reg: "registerCalled s \<noteq> 0"
    and v: "13 \<le> version s" and c: "calloc en s = Some p"
  shows "\<exists>s' ts'. grabPartialWakeLock en s = Some s' \<and> list_inv F s' ts' ps \<and> wake_inv F s' \<and> req_frame s s' \<and>
     lastNITZTimeData s' = lastNITZTimeData s \<and>
     wake_held (out s') \<and> wakelock_count s' = wakelock_count s + 1 \<and> last_wake_timeout_info s' = Some p \<and>
     set ts' = insert p (set ts) \<and> tmo s' p = timeradd (now en) TIMEVAL_WAKE_TIMEOUT \<and>
     ucis s' p = Some \<lparr>p_callback = wakeTimeoutCallback_fn, userParam = None\<rparr>"
proof -
  let ?s = "emit AcquireWakeLock s"
  have 1: "list_inv F ?s ts ps" "registerCalled ?s \<noteq> 0" using L reg by simp_all
  have 2: "wake_inv F (?s\<lparr>out := []\<rparr>)"
    using wake_inv_core [OF W] by (simp add: wake_inv_def live_def)
  have 3: "calloc en ?s = Some p" using c by simp
  from wake_timer_set [OF 1(1) 2 1(2) 3 refl] obtain s1 s2 ts' where
    s: "internalRequestTimedCallback en wakeTimeoutCallback_fn None (Some TIMEVAL_WAKE_TIMEOUT) ?s = Some (Some p, s1)"
      "wakelock_count s1 = wakelock_count s"
      "cancel_last_wake (s1\<lparr>wakelock_count := wakelock_count s + 1\<rparr>) = Some s2"
      "list_inv F (s2\<lparr>last_wake_timeout_info := Some p\<rparr>) ts' ps"
      "wake_inv F (s2\<lparr>last_wake_timeout_info := Some p\<rparr>)" "req_frame ?s s2"
      "lastNITZTimeData s2 = lastNITZTimeData s"
      "wakelock_count s2 = wakelock_count s + 1" "wake_held (out s2)"
      "set ts' = insert p (set ts)" "tmo s2 p = timeradd (now en) TIMEVAL_WAKE_TIMEOUT"
      "ucis s2 p = Some \<lparr>p_callback = wakeTimeoutCallback_fn, userParam = None\<rparr>"
    using v by auto
  have "grabPartialWakeLock en s = Some (s2\<lparr>last_wake_timeout_info := Some p\<rparr>)"
    using v s(1,2,3) by (simp add: grabPartialWakeLock_def)
  with s show ?thesis
    by (intro exI [of _ "s2\<lparr>last_wake_timeout_info := Some p\<rparr>"] exI [of _ ts'])
      (simp add: req_frame_def)
qed

lemma grab_no_memory:
  "13 \<le> version s \<Longrightarrow> calloc en s = None \<Longrightarrow>
     grabPartialWakeLock en s = Some (emit ReleaseWakeLock (emit AcquireWakeLock s))"
  by (simp add: grabPartialWakeLock_def internal_no_memory)

lemma grab_total:
  assumes "list_inv F s ts ps" "wake_inv F s" "13 \<le> version s"
  shows "\<exists>s' ts'. grabPartialWakeLock en s = Some s' \<and> list_inv F s' ts' ps \<and> wake_inv F s' \<and>
     req_frame s s' \<and> lastNITZTimeData s' = lastNITZTimeData s"
proof (cases "calloc en s")
  case None
  have "wake_inv F ((emit ReleaseWakeLock (emit AcquireWakeLock s))\<lparr>out := []\<rparr>)"
    by (rule wake_inv_cong [OF wake_inv_core [OF assms(2)]]) simp_all
  then have "wake_inv F (emit ReleaseWakeLock (emit AcquireWakeLock s))"
    by (rule wake_inv_released) (simp add: wake_held_def is_wake_def)
  with grab_no_memory [OF assms(3) None] assms(1) show ?thesis
    by (auto simp: req_frame_def)
next
  case (Some p)
  have "registerCalled s \<noteq> 0" using wake_invD(7) [OF assms(2)] assms(3) by auto
  from grab_alloc [OF assms(1,2) this assms(3) Some] show ?thesis by blast
qed

text \<open>
  \<open>releaseWakeLock\<close>. Before version 13 it may be called while the lock is held without a live
  timer, between \<open>grabPartialWakeLock\<close> and the timer.
\<close>

lemma release_total:
  assumes L: "list_inv F s ts ps" and W: "wake_inv F (s\<lparr>out := []\<rparr>)"
    and H: "13 \<le> version s \<Longrightarrow> wake_inv F s"
  shows "\<exists>s'. releaseWakeLock s = Some s' \<and> list_inv F s' ts ps \<and> wake_inv F s' \<and> req_frame s s' \<and>
     lastNITZTimeData s' = lastNITZTimeData s \<and>
     (wakelock_count s \<le> 1 \<longrightarrow> \<not> wake_held (out s') \<and> wakelock_count s' = 0) \<and>
     (1 < wakelock_count s \<longrightarrow> wake_held (out s') = wake_held (out s) \<and> wakelock_count s' = wakelock_count s - 1)"
proof (cases "13 \<le> version s")
  case v: True
  note W' = H [OF v]
  show ?thesis
  proof (cases "1 < wakelock_count s")
    case True
    let ?s = "s\<lparr>wakelock_count := wakelock_count s - 1\<rparr>"
    have "releaseWakeLock s = Some ?s" using v True by (simp add: releaseWakeLock_def)
    moreover have "list_inv F ?s ts ps" using L by (subst list_inv_cong [where s = s]) simp_all
    moreover have "wake_inv F ?s"
    proof (rule wake_invI)
      show "wake_held (out ?s) \<or> 0 < wakelock_count ?s \<Longrightarrow> live F ?s"
        using wake_invD(3) [OF W'] True by (simp add: live_def)
      show "registerCalled ?s = 0 \<Longrightarrow> version ?s = 0 \<and> \<not> wake_held (out ?s)"
        using wake_invD(7) [OF W'] v by simp
    qed (use True v wake_invD(1,2) [OF W'] in auto)
    ultimately show ?thesis using True by (simp add: req_frame_def)
  next
    case False
    let ?s = "emit ReleaseWakeLock (s\<lparr>wakelock_count := 0\<rparr>)"
    have "\<exists>s2. cancel_last_wake ?s = Some s2 \<and> wake_inv F s2 \<and> s2 = ?s\<lparr>ucis := ucis s2\<rparr> \<and>
       dom (ucis s2) = dom (ucis s)"
      by (rule cancel_released [OF W']) simp_all
    then obtain s2 where s2: "cancel_last_wake ?s = Some s2" "wake_inv F s2"
      "s2 = ?s\<lparr>ucis := ucis s2\<rparr>" "dom (ucis s2) = dom (ucis s)" by blast
    have f2: "ev s2 = ev s" "readFds s2 = readFds s" "nfds s2 = nfds s" "watch_table s2 = watch_table s"
      "req_frame s s2" "out s2 = out s @ [ReleaseWakeLock]" "wakelock_count s2 = 0"
      "lastNITZTimeData s2 = lastNITZTimeData s"
      by (subst s2(3), simp add: emit_def req_frame_def)+
    have "list_inv F s2 ts ps" using L by (subst list_inv_cong [where s = s]) (simp_all add: f2 s2(4))
    with s2 v False f2 show ?thesis by (intro exI [of _ s2]) (simp add: releaseWakeLock_def)
  qed
next
  case False
  have "wakelock_count s = 0" using wake_invD(5) [OF W] False by simp
  moreover have "wake_inv F ((emit ReleaseWakeLock s)\<lparr>out := []\<rparr>)"
    by (rule wake_inv_cong [OF W]) simp_all
  then have "wake_inv F (emit ReleaseWakeLock s)"
    by (rule wake_inv_released) simp
  ultimately show ?thesis using False L by (simp add: releaseWakeLock_def)
qed

text \<open>Before version 13, the timer of \<open>RIL_onUnsolicitedResponse\<close> guards the lock just taken.\<close>

lemma unsol_timeout_total:
  assumes L: "list_inv F s ts ps" and W: "wake_inv F (s\<lparr>out := []\<rparr>)" and reg: "registerCalled s \<noteq> 0"
    and H: "13 \<le> version s \<or> \<not> w \<Longrightarrow> wake_inv F s"
  shows "\<exists>ok s' ts'. unsol_timeout en w s = Some (ok, s') \<and> list_inv F s' ts' ps \<and>
     wake_inv F (s'\<lparr>out := []\<rparr>) \<and> (ok \<or> 13 \<le> version s \<or> \<not> w \<longrightarrow> wake_inv F s') \<and>
     req_frame s s' \<and> lastNITZTimeData s' = lastNITZTimeData s"
proof (cases "version s < 13 \<and> w")
  case False
  then have "wake_inv F s" using H by auto
  with False L wake_inv_core [OF this] show ?thesis by (auto simp: unsol_timeout_def)
next
  case True
  show ?thesis
  proof (cases "calloc en s")
    case None
    with True L W show ?thesis by (auto simp: unsol_timeout_def internal_no_memory)
  next
    case (Some p)
    have cnt: "wakelock_count s = (if 13 \<le> version s then wakelock_count s + 1 else wakelock_count s)"
      using True by simp
    from wake_timer_set [OF L W reg Some cnt] obtain s1 s2 ts' where
      s: "internalRequestTimedCallback en wakeTimeoutCallback_fn None (Some TIMEVAL_WAKE_TIMEOUT) s = Some (Some p, s1)"
        "wakelock_count s1 = wakelock_count s"
        "cancel_last_wake (s1\<lparr>wakelock_count := wakelock_count s\<rparr>) = Some s2"
        "list_inv F (s2\<lparr>last_wake_timeout_info := Some p\<rparr>) ts' ps"
        "wake_inv F (s2\<lparr>last_wake_timeout_info := Some p\<rparr>)" "req_frame s s2"
        "lastNITZTimeData s2 = lastNITZTimeData s"
      by blast
    have "s1\<lparr>wakelock_count := wakelock_count s\<rparr> = s1" using s(2) by (simp flip: s(2))
    then have "unsol_timeout en w s = Some (True, s2\<lparr>last_wake_timeout_info := Some p\<rparr>)"
      using True s(1,3) by (simp add: unsol_timeout_def)
    with s wake_inv_core [OF s(5)] show ?thesis
      by (intro exI [of _ True] exI [of _ "s2\<lparr>last_wake_timeout_info := Some p\<rparr>"] exI [of _ ts'])
        (simp add: req_frame_def)
  qed
qed

section \<open>Firing a timer\<close>

text \<open>The loop takes a timer off its list: it joins the structures that are about to fire.\<close>

lemma fire_head:
  assumes L: "list_inv {} s ts (e # ps)" and r: "removeFromList e s = Some s1" and e: "e \<noteq> wakeupfd_event"
  shows "list_inv {e} s1 ts ps" "ucis s1 = ucis s" "same_payload s s1"
proof -
  note I = L [unfolded list_inv_def]
  have W: "wf_lists s ts (e # ps)" using I by simp
  then have "ring s pending_list (e # ps)" by (simp add: wf_lists_def)
  then have d: "e \<notin> set ps" by (auto simp: ring_def)
  from fire_head_lists [OF W r] have wf1: "wf_lists s1 ts ps" and pl: "same_payload s s1"
    by simp_all
  show "same_payload s s1" by (rule pl)
  have "s1 = s\<lparr>ev := ev s1\<rparr>" using pl by (simp add: same_payload_def)
  then show u: "ucis s1 = ucis s" by (metis ril_state.select_convs(10) ril_event_state.update_convs(1) ril_state.surjective)
  show "list_inv {e} s1 ts ps"
    unfolding list_inv_def u same_payload_fields(9,10) [OF pl] wf_watch_same [OF pl]
    using I wf1 e d by (auto simp: wf_lists_def)
qed

end
