(* ===== verification/RilRequests.thy ===== *)
theory RilRequests
  imports RilWakeLock
begin

text \<open>
  The lists of pending requests of \<open>libril/ril.cpp\<close>. \<open>pend_inv\<close> refines the linked \<open>RequestInfo\<close>
  structures of the four heads to lists of tokens \<open>q k\<close>, newest first; all allocated structures are on
  exactly one of them (or in \<open>G\<close>: taken off to be completed). The lemmas give the effect of entering,
  acknowledging and completing a request on \<open>q\<close>; \<open>token_store\<close> is interpreted on them.
\<close>

definition pend_inv :: "addr set \<Rightarrow> ril_state \<Rightarrow> (nat \<Rightarrow> addr list) \<Rightarrow> bool" where
  "pend_inv G s q \<longleftrightarrow>
     (\<forall>k. linked (req_next s) (pendingRequests s k) (q k)) \<and>
     (\<forall>k l. k \<noteq> l \<longrightarrow> set (q k) \<inter> set (q l) = {}) \<and>
     dom (requests s) = (\<Union>k. set (q k)) \<union> G \<and> (\<forall>k. set (q k) \<inter> G = {}) \<and>
     (\<forall>k a r. a \<in> set (q k) \<longrightarrow> requests s a = Some r \<longrightarrow> pendingRequestsHook (SIM_COUNT s) (socket_id r) = k) \<and>
     (\<forall>a r. requests s a = Some r \<longrightarrow> 0 \<le> pCI r \<and> pCI r < int (length s_commands))"

definition outstanding :: "(nat \<Rightarrow> addr list) \<Rightarrow> addr set" where
  "outstanding q = (\<Union>k. set (q k))"

lemma req_next_cong: "requests s' = requests s \<Longrightarrow> req_next s' = req_next s"
  by (simp add: req_next_def fun_eq_iff)

lemma pend_inv_cong:
  "requests s' = requests s \<Longrightarrow> pendingRequests s' = pendingRequests s \<Longrightarrow> SIM_COUNT s' = SIM_COUNT s \<Longrightarrow>
     pend_inv G s' q = pend_inv G s q"
  using req_next_cong [of s' s] unfolding pend_inv_def by (simp only: simp_thms)

lemma pend_inv_frame: "req_frame s s' \<Longrightarrow> pend_inv G s' q = pend_inv G s q"
  by (rule pend_inv_cong) (simp_all add: req_frame_def)

lemma pend_inv_emit [simp]: "pend_inv G (emit x s) q = pend_inv G s q"
  by (rule pend_inv_cong) simp_all

lemma outstanding_upd: "outstanding (q(h := xs)) = set xs \<union> (\<Union>k \<in> - {h}. set (q k))"
  by (auto simp: outstanding_def split: if_splits)

lemma outstanding_split: "outstanding q = set (q h) \<union> (\<Union>k \<in> - {h}. set (q k))"
  using outstanding_upd [of q h "q h"] by simp

lemma pend_invD:
  assumes "pend_inv G s q"
  shows "linked (req_next s) (pendingRequests s k) (q k)"
    "k \<noteq> l \<Longrightarrow> set (q k) \<inter> set (q l) = {}" "dom (requests s) = outstanding q \<union> G" "set (q k) \<inter> G = {}"
    "a \<in> set (q k) \<Longrightarrow> requests s a = Some r \<Longrightarrow> pendingRequestsHook (SIM_COUNT s) (socket_id r) = k"
    "requests s a = Some r \<Longrightarrow> 0 \<le> pCI r" "requests s a = Some r \<Longrightarrow> pCI r < int (length s_commands)"
  using assms by (auto simp: pend_inv_def outstanding_def)

lemma pend_invI:
  assumes "\<And>k. linked (req_next s) (pendingRequests s k) (q k)"
    and "\<And>k l. k \<noteq> l \<Longrightarrow> set (q k) \<inter> set (q l) = {}"
    and "dom (requests s) = outstanding q \<union> G" and "\<And>k. set (q k) \<inter> G = {}"
    and "\<And>k a r. a \<in> set (q k) \<Longrightarrow> requests s a = Some r \<Longrightarrow> pendingRequestsHook (SIM_COUNT s) (socket_id r) = k"
    and "\<And>a r. requests s a = Some r \<Longrightarrow> 0 \<le> pCI r \<and> pCI r < int (length s_commands)"
  shows "pend_inv G s q"
  using assms by (simp add: pend_inv_def outstanding_def)

text \<open>A request on a list: its structure, and the list its socket selects.\<close>

lemma outstanding_request:
  assumes inv: "pend_inv G s q" and p: "p \<in> outstanding q"
  shows "\<exists>r. requests s p = Some r \<and> p \<in> set (q (pendingRequestsHook (SIM_COUNT s) (socket_id r)))"
proof -
  from p obtain k where k: "p \<in> set (q k)" by (auto simp: outstanding_def)
  from p pend_invD(3) [OF inv] obtain r where "requests s p = Some r" by auto
  with k pend_invD(5) [OF inv k this] show ?thesis by auto
qed

text \<open>Writing only \<open>wasAckSent\<close> keeps the lists.\<close>

lemma pend_inv_ack:
  assumes inv: "pend_inv G s q" and r: "requests s p = Some r"
  shows "pend_inv G (s\<lparr>requests := (requests s)(p \<mapsto> r\<lparr>wasAckSent := 1\<rparr>)\<rparr>) q" (is "pend_inv G ?s q")
proof (rule pend_invI)
  have eq: "req_next ?s = req_next s" using r by (auto simp: req_next_def fun_eq_iff)
  show "linked (req_next ?s) (pendingRequests ?s k) (q k)" for k
    unfolding eq using pend_invD(1) [OF inv] by simp
  show "dom (requests ?s) = outstanding q \<union> G" using pend_invD(3) [OF inv] r by auto
  show "pendingRequestsHook (SIM_COUNT ?s) (socket_id r') = k"
    if "a \<in> set (q k)" "requests ?s a = Some r'" for k a r'
    using that pend_invD(5) [OF inv, of a k] r by (auto split: if_splits)
  show "0 \<le> pCI r' \<and> pCI r' < int (length s_commands)" if "requests ?s a = Some r'" for a r'
    using that pend_invD(6,7) [OF inv, of a] pend_invD(6,7) [OF inv r] by (auto split: if_splits)
qed (use pend_invD(2,4) [OF inv] in blast)+

text \<open>\<open>addRequestToList\<close> puts the request at the front of the list of its socket.\<close>

lemma addRequest_ok:
  assumes inv: "pend_inv G s q" and c: "calloc en s = Some p"
    and n: "0 \<le> request" "request < int (length s_commands)"
    and h: "h = pendingRequestsHook (SIM_COUNT s) slot"
  shows "\<exists>s'. addRequestToList en serial slot request s = Some (Some p, s') \<and>
     pend_inv G s' (q(h := p # q h)) \<and> p \<notin> outstanding q \<and>
     s' = s\<lparr>requests := (requests s)(p \<mapsto> \<lparr>token = serial, pCI = request, p_next = pendingRequests s h,
             cancelled = 0, local_cmd = 0, socket_id = slot, wasAckSent = 0\<rparr>),
            pendingRequests := (pendingRequests s)(h := Some p)\<rparr>"
proof -
  let ?r = "\<lparr>token = serial, pCI = request, p_next = pendingRequests s h,
             cancelled = 0, local_cmd = 0, socket_id = slot, wasAckSent = 0\<rparr>"
  let ?s = "s\<lparr>requests := (requests s)(p \<mapsto> ?r), pendingRequests := (pendingRequests s)(h := Some p)\<rparr>"
  let ?q = "q(h := p # q h)"
  have fresh: "requests s p = None" using calloc_Some [OF c] by simp
  then have new: "p \<notin> outstanding q" "p \<notin> G" using pend_invD(3) [OF inv] by auto
  then have new': "p \<notin> set (q k)" for k by (auto simp: outstanding_def)
  have eq: "req_next ?s = (req_next s)(p \<mapsto> pendingRequests s h)"
    by (auto simp: req_next_def fun_eq_iff)
  have "addRequestToList en serial slot request s = Some (Some p, ?s)"
    using n c h by (simp add: addRequestToList_def Let_def)
  moreover have "pend_inv G ?s ?q"
  proof (rule pend_invI)
    show "linked (req_next ?s) (pendingRequests ?s k) (?q k)" for k
    proof (cases "k = h")
      case True
      with linked_push [OF pend_invD(1) [OF inv, of h] new'] show ?thesis unfolding eq by simp
    next
      case False
      with pend_invD(1) [OF inv, of k] show ?thesis unfolding eq by (simp add: linked_upd new')
    qed
    show "set (?q k) \<inter> set (?q l) = {}" if "k \<noteq> l" for k l
      using that pend_invD(2) [OF inv, of k l] new' by auto
    show "dom (requests ?s) = outstanding ?q \<union> G"
      using pend_invD(3) [OF inv] by (auto simp: outstanding_def split: if_splits)
    show "set (?q k) \<inter> G = {}" for k using pend_invD(4) [OF inv, of k] pend_invD(4) [OF inv, of h] new by auto
    show "pendingRequestsHook (SIM_COUNT ?s) (socket_id r) = k" if "a \<in> set (?q k)" "requests ?s a = Some r" for k a r
      using that pend_invD(5) [OF inv, of a k] new' h by (auto split: if_splits)
    show "0 \<le> pCI r \<and> pCI r < int (length s_commands)" if "requests ?s a = Some r" for a r
      using that n pend_invD(6,7) [OF inv, of a] by (auto split: if_splits)
  qed
  ultimately show ?thesis using new by blast
qed

section \<open>Finding a request\<close>

text \<open>The search meets a token that is on a list, and answers where its link is.\<close>

lemma check_search:
  assumes inv: "pend_inv G s q" and r: "requests s p = Some r"
    and h: "h = pendingRequestsHook (SIM_COUNT s) (if 2 \<le> SIM_COUNT s then socket_id r else 0)"
  shows "checkAndDequeueRequestInfoIfAck (Some p) ack s =
     (case link_to Head (\<lambda>c. p = c) (q h) of
        None \<Rightarrow> Some (False, s)
      | Some l \<Rightarrow> Some (True, if ack then if wasAckSent r = 1 then s
                                    else s\<lparr>requests := (requests s)(p \<mapsto> r\<lparr>wasAckSent := 1\<rparr>)\<rparr>
                            else set_link h l (p_next r) s))"
proof -
  have sock: "(if 2 \<le> SIM_COUNT s then map_option socket_id (requests s p) else Some 0) =
      Some (if 2 \<le> SIM_COUNT s then socket_id r else 0)" using r by simp
  have "find_link (req_next s) (pendingRequests s h) (\<lambda>c. Some (p = c)) Head = Some (link_to Head (\<lambda>c. p = c) (q h))"
    by (rule find_link_linked [OF pend_invD(1) [OF inv]]) simp
  then show ?thesis
    unfolding checkAndDequeueRequestInfoIfAck_def sock Let_def option.case h [symmetric]
    by (cases "link_to Head (\<lambda>c. p = c) (q h)") (simp_all add: r)
qed

lemma hook_single: "SIM_COUNT s < 2 \<Longrightarrow> pendingRequestsHook (SIM_COUNT s) k = 0"
  by (simp add: pendingRequestsHook_def)

lemma check_hook:
  "pendingRequestsHook (SIM_COUNT s) (if 2 \<le> SIM_COUNT s then k else 0) = pendingRequestsHook (SIM_COUNT s) k"
  by (simp add: pendingRequestsHook_def)

lemma check_found:
  assumes inv: "pend_inv G s q" and p: "p \<in> outstanding q" and r: "requests s p = Some r"
    and h: "h = pendingRequestsHook (SIM_COUNT s) (socket_id r)"
  shows "\<exists>l us vs. q h = us @ p # vs \<and> p \<notin> set us \<and> l = (if us = [] then Head else After (last us)) \<and>
     checkAndDequeueRequestInfoIfAck (Some p) ack s =
       Some (True, if ack then if wasAckSent r = 1 then s
                               else s\<lparr>requests := (requests s)(p \<mapsto> r\<lparr>wasAckSent := 1\<rparr>)\<rparr>
                   else set_link h l (p_next r) s)"
proof -
  from outstanding_request [OF inv p] r h have "p \<in> set (q h)" by auto
  then obtain l where l: "link_to Head (\<lambda>c. p = c) (q h) = Some l"
    using link_to_None [of Head "\<lambda>c. p = c" "q h"] by fastforce
  have h': "h = pendingRequestsHook (SIM_COUNT s) (if 2 \<le> SIM_COUNT s then socket_id r else 0)"
    by (simp only: h check_hook)
  from link_to_split [OF l] obtain us x vs where
    "q h = us @ x # vs" "p = x" "\<forall>u \<in> set us. p \<noteq> u" "l = (if us = [] then Head else After (last us))"
    by blast
  moreover have "checkAndDequeueRequestInfoIfAck (Some p) ack s =
       Some (True, if ack then if wasAckSent r = 1 then s
                               else s\<lparr>requests := (requests s)(p \<mapsto> r\<lparr>wasAckSent := 1\<rparr>)\<rparr>
                   else set_link h l (p_next r) s)"
    unfolding check_search [OF inv r h'] l option.case ..
  ultimately show ?thesis by blast
qed

text \<open>Unlinking takes exactly this token off its list.\<close>

lemma unlink_ok:
  assumes inv: "pend_inv G s q" and r: "requests s p = Some r"
    and split: "q h = us @ p # vs" "p \<notin> set us" "l = (if us = [] then Head else After (last us))"
  defines "s' \<equiv> set_link h l (p_next r) s"
  shows "pend_inv (insert p G) s' (q(h := us @ vs)) \<and> requests s' p = Some r \<and>
     outstanding (q(h := us @ vs)) = outstanding q - {p} \<and> dom (requests s') = dom (requests s)"
proof -
  let ?q = "q(h := us @ vs)"
  have d: "distinct (q h)" by (rule linked_distinct [OF pend_invD(1) [OF inv]])
  then have pvs: "p \<notin> set us" "p \<notin> set vs" using split by auto
  have pother: "p \<notin> set (q k)" if "k \<noteq> h" for k using pend_invD(2) [OF inv that] split(1) by auto
  have out: "outstanding ?q = outstanding q - {p}"
  proof -
    let ?R = "\<Union>k \<in> - {h}. set (q k)"
    have "outstanding ?q = set (us @ vs) \<union> ?R" by (rule outstanding_upd)
    moreover have "outstanding q = set (us @ p # vs) \<union> ?R"
      using outstanding_split [of q h] split(1) by simp
    moreover have "p \<notin> ?R" using pother by auto
    ultimately show ?thesis using pvs by auto
  qed
  have pG: "p \<notin> G" using pend_invD(4) [OF inv, of h] split(1) by auto
  have L: "linked (req_next s) (pendingRequests s h) (us @ p # vs)" using pend_invD(1) [OF inv, of h] split(1) by simp
  have pn: "req_next s p = Some (p_next r)" using r by (simp add: req_next_def)
  show ?thesis
  proof (cases "us = []")
    case True
    then have s': "s' = s\<lparr>pendingRequests := (pendingRequests s)(h := p_next r)\<rparr>"
      by (simp add: s'_def split(3) set_link_def)
    have eq: "req_next s' = req_next s" by (simp add: s' req_next_def fun_eq_iff)
    have "pend_inv (insert p G) s' ?q"
    proof (rule pend_invI)
      show "linked (req_next s') (pendingRequests s' k) (?q k)" for k
        using pend_invD(1) [OF inv, of k] L pn True unfolding eq by (simp add: s')
      show "dom (requests s') = outstanding ?q \<union> insert p G"
        using pend_invD(3) [OF inv] out r by (auto simp: s')
      show "set (?q k) \<inter> set (?q m) = {}" if "k \<noteq> m" for k m
        using pend_invD(2) [OF inv that] split(1) by auto
      show "set (?q k) \<inter> insert p G = {}" for k
        using pend_invD(4) [OF inv, of k] pvs pother split(1) by auto
      show "pendingRequestsHook (SIM_COUNT s') (socket_id r') = k"
        if "a \<in> set (?q k)" "requests s' a = Some r'" for k a r'
        using that pend_invD(5) [OF inv, of a k] split(1) by (auto simp: s' split: if_splits)
      show "0 \<le> pCI r' \<and> pCI r' < int (length s_commands)" if "requests s' a = Some r'" for a r'
        using that pend_invD(6,7) [OF inv, of a] by (auto simp: s')
    qed
    with out r show ?thesis by (simp add: s')
  next
    case False
    define y where "y = last us"
    define us' where "us' = butlast us"
    have us: "us = us' @ [y]" using False by (simp add: y_def us'_def)
    have "y \<in> set (q h)" using split(1) us by simp
    then obtain ry where ry: "requests s y = Some ry"
      using pend_invD(3) [OF inv] by (auto simp: outstanding_def)
    have yp: "y \<noteq> p" using pvs us by auto
    have yother: "y \<notin> set (q k)" if "k \<noteq> h" for k using pend_invD(2) [OF inv that] split(1) us by auto
    have s': "s' = s\<lparr>requests := (requests s)(y \<mapsto> ry\<lparr>p_next := p_next r\<rparr>)\<rparr>"
      using False ry by (simp add: s'_def split(3) set_link_def y_def)
    have eq: "req_next s' = (req_next s)(y \<mapsto> p_next r)" using ry by (auto simp: s' req_next_def fun_eq_iff)
    have L': "linked (req_next s') (pendingRequests s h) (us @ vs)"
      using linked_unlink_after [of "req_next s" "pendingRequests s h" us' y p vs] L pn unfolding eq us by simp
    have "pend_inv (insert p G) s' ?q"
    proof (rule pend_invI)
      show "linked (req_next s') (pendingRequests s' k) (?q k)" for k
      proof (cases "k = h")
        case True
        with L' show ?thesis by (simp add: s')
      next
        case k: False
        have "linked (req_next s') (pendingRequests s k) (q k)"
          unfolding eq using pend_invD(1) [OF inv, of k] yother [OF k] by (simp add: linked_upd)
        with k show ?thesis by (simp add: s')
      qed
      show "dom (requests s') = outstanding ?q \<union> insert p G"
        using pend_invD(3) [OF inv] out r ry by (auto simp: s')
      show "set (?q k) \<inter> set (?q m) = {}" if "k \<noteq> m" for k m
        using pend_invD(2) [OF inv that] split(1) by auto
      show "set (?q k) \<inter> insert p G = {}" for k
        using pend_invD(4) [OF inv, of k] pvs pother split(1) by auto
      show "pendingRequestsHook (SIM_COUNT s') (socket_id r') = k"
        if "a \<in> set (?q k)" "requests s' a = Some r'" for k a r'
        using that pend_invD(5) [OF inv, of a k] split(1) ry by (auto simp: s' split: if_splits)
      show "0 \<le> pCI r' \<and> pCI r' < int (length s_commands)" if "requests s' a = Some r'" for a r'
        using that pend_invD(6,7) [OF inv, of a] pend_invD(6,7) [OF inv ry] by (auto simp: s' split: if_splits)
    qed
    with out r ry yp show ?thesis by (auto simp: s')
  qed
qed

text \<open>\<open>remove1\<close> in place of the split.\<close>

lemma split_remove1: "xs = us @ p # vs \<Longrightarrow> p \<notin> set us \<Longrightarrow> remove1 p xs = us @ vs"
  by (simp add: remove1_append)

text \<open>Taking a request off its list, seen from outside.\<close>

lemma dequeue_ok:
  assumes inv: "pend_inv {} s q" and p: "p \<in> outstanding q" and r: "requests s p = Some r"
    and h: "h = pendingRequestsHook (SIM_COUNT s) (socket_id r)"
  shows "\<exists>s1. checkAndDequeueRequestInfoIfAck (Some p) False s = Some (True, s1) \<and>
     pend_inv {p} s1 (q(h := remove1 p (q h))) \<and> requests s1 p = Some r \<and>
     outstanding (q(h := remove1 p (q h))) = outstanding q - {p} \<and>
     s1 = s\<lparr>requests := requests s1, pendingRequests := pendingRequests s1\<rparr> \<and>
     dom (requests s1) = dom (requests s)"
proof -
  from check_found [OF inv p r h, of False] obtain l us vs where
    c: "q h = us @ p # vs" "p \<notin> set us" "l = (if us = [] then Head else After (last us))"
      "checkAndDequeueRequestInfoIfAck (Some p) False s = Some (True, set_link h l (p_next r) s)"
    by auto
  have "set_link h l (p_next r) s = s\<lparr>requests := requests (set_link h l (p_next r) s),
      pendingRequests := pendingRequests (set_link h l (p_next r) s)\<rparr>"
    by (simp add: set_link_def split: link.split)
  with unlink_ok [OF inv r c(1-3)] c(4) split_remove1 [OF c(1,2)] show ?thesis
    by (intro exI [of _ "set_link h l (p_next r) s"]) simp
qed

text \<open>A token that is on no list is refused when only one SIM is built in, and nothing changes.\<close>

lemma check_missing:
  assumes inv: "pend_inv G s q" and p: "p \<notin> outstanding q" and one: "SIM_COUNT s < 2"
  shows "checkAndDequeueRequestInfoIfAck (Some p) ack s = Some (False, s)"
proof -
  have "find_link (req_next s) (pendingRequests s 0) (\<lambda>c. Some (p = c)) Head = Some (link_to Head (\<lambda>c. p = c) (q 0))"
    by (rule find_link_linked [OF pend_invD(1) [OF inv]]) simp
  moreover have "link_to Head (\<lambda>c. p = c) (q 0) = None"
    using p by (auto simp: link_to_None outstanding_def)
  ultimately show ?thesis
    using one by (simp add: checkAndDequeueRequestInfoIfAck_def hook_single Let_def)
qed

text \<open>Freeing the request that was taken off.\<close>

lemma free_ok:
  assumes "pend_inv {p} s q"
  shows "\<exists>s'. free_request p s = Some s' \<and> s' = s\<lparr>requests := (requests s)(p := None)\<rparr> \<and> pend_inv {} s' q"
proof -
  from pend_invD(3) [OF assms] obtain r where r: "requests s p = Some r" by auto
  let ?s = "s\<lparr>requests := (requests s)(p := None)\<rparr>"
  have new: "p \<notin> set (q k)" for k using pend_invD(4) [OF assms, of k] by auto
  have eq: "req_next ?s = (req_next s)(p := None)" by (auto simp: req_next_def fun_eq_iff)
  have "pend_inv {} ?s q"
  proof (rule pend_invI)
    show "linked (req_next ?s) (pendingRequests ?s k) (q k)" for k
      unfolding eq using pend_invD(1) [OF assms, of k] by (simp add: linked_upd new)
    show "dom (requests ?s) = outstanding q \<union> {}"
      using pend_invD(3) [OF assms] new by (auto simp: outstanding_def)
    show "pendingRequestsHook (SIM_COUNT ?s) (socket_id r') = k" if "a \<in> set (q k)" "requests ?s a = Some r'" for k a r'
      using that pend_invD(5) [OF assms, of a k] by (auto split: if_splits)
    show "0 \<le> pCI r' \<and> pCI r' < int (length s_commands)" if "requests ?s a = Some r'" for a r'
      using that pend_invD(6,7) [OF assms, of a] by (auto split: if_splits)
  qed (use pend_invD(2) [OF assms] in auto)
  with r show ?thesis by (simp add: free_request_def)
qed

text \<open>Changing the request lists leaves the timers and the wake lock alone.\<close>

lemma inv_requests:
  assumes "s1 = s\<lparr>requests := R, pendingRequests := P\<rparr>"
  shows "list_inv F s1 ts ps = list_inv F s ts ps" "wake_inv F s1 = wake_inv F s"
proof -
  show "list_inv F s1 ts ps = list_inv F s ts ps" by (rule list_inv_cong) (simp_all add: assms)
  show "wake_inv F s1 = wake_inv F s"
    by (rule iffI; erule wake_inv_cong) (simp_all add: assms)
qed

section \<open>Completion and acknowledgement\<close>

text \<open>The response a completed request causes.\<close>

definition completion :: "ril_state \<Rightarrow> request_info \<Rightarrow> string \<Rightarrow> int \<Rightarrow> buffer \<Rightarrow> effect list" where
  "completion s r f e response =
     (if local_cmd r > 0 \<or> cancelled r \<noteq> 0 then []
      else [Respond f (socket_id r)
              (if version s \<ge> 13 \<and> wasAckSent r = 1 then RESPONSE_SOLICITED_ACK_EXP else RESPONSE_SOLICITED)
              (token r) e response])"

lemma complete_total:
  assumes L: "list_inv F s ts ps" and W: "wake_inv F s" and inv: "pend_inv {} s q"
    and p: "p \<in> outstanding q" and r: "requests s p = Some r"
    and f: "responseFunction (s_commands ! nat (pCI r)) = Some f"
  shows "\<exists>s' ts' h. RIL_onRequestComplete en (Some p) e response s = Some s' \<and>
     list_inv F s' ts' ps \<and> wake_inv F s' \<and> pend_inv {} s' (q(h := remove1 p (q h))) \<and>
     outstanding (q(h := remove1 p (q h))) = outstanding q - {p} \<and> requests s' p = None \<and>
     filter is_response (out s') = filter is_response (out s) @ completion s r f e response \<and>
     callbacks s' = callbacks s \<and> registerCalled s' = registerCalled s \<and> SIM_COUNT s' = SIM_COUNT s"
proof -
  let ?h = "pendingRequestsHook (SIM_COUNT s) (socket_id r)"
  let ?q = "q(?h := remove1 p (q ?h))"
  from dequeue_ok [OF inv p r refl] obtain s1 where
    s1: "checkAndDequeueRequestInfoIfAck (Some p) False s = Some (True, s1)" "pend_inv {p} s1 ?q"
      "requests s1 p = Some r" "outstanding ?q = outstanding q - {p}" and
    eq1: "s1 = s\<lparr>requests := requests s1, pendingRequests := pendingRequests s1\<rparr>"
    by blast
  have f1: "callbacks s1 = callbacks s" "registerCalled s1 = registerCalled s" "SIM_COUNT s1 = SIM_COUNT s"
    "out s1 = out s" by (subst eq1, simp)+
  have L1: "list_inv F s1 ts ps" and W1: "wake_inv F s1"
    using L W by (simp_all only: inv_requests [OF eq1])
  define ack where "ack \<longleftrightarrow> version s1 \<ge> 13 \<and> wasAckSent r = 1"
  define answers where "answers \<longleftrightarrow> \<not> local_cmd r > 0 \<and> cancelled r = 0"
  obtain s2 ts2 where s2: "(if answers \<and> ack then grabPartialWakeLock en s1 else Some s1) = Some s2"
    "list_inv F s2 ts2 ps" "wake_inv F s2" "req_frame s1 s2"
  proof (cases "answers \<and> ack")
    case True
    then have "13 \<le> version s1" by (simp add: ack_def)
    from grab_total [OF L1 W1 this] True that show thesis by fastforce
  next
    case False
    with that L1 W1 show thesis by simp
  qed
  define s3 where "s3 = (if answers then
      emit (Respond f (socket_id r) (if ack then RESPONSE_SOLICITED_ACK_EXP else RESPONSE_SOLICITED) (token r) e response) s2
      else s2)"
  have L3: "list_inv F s3 ts2 ps" using s2(2) by (simp add: s3_def)
  have W3: "wake_inv F s3" using s2(3) by (simp add: s3_def wake_inv_emit is_wake_def)
  have P3: "pend_inv {p} s3 ?q"
    using s1(2) by (simp add: s3_def pend_inv_frame [OF s2(4)])
  have o3: "filter is_response (out s3) = filter is_response (out s) @ completion s r f e response"
    using s2(4) f1 by (auto simp: s3_def req_frame_def completion_def answers_def ack_def)
  have f3: "callbacks s3 = callbacks s" "registerCalled s3 = registerCalled s" "SIM_COUNT s3 = SIM_COUNT s"
    using s2(4) f1 by (auto simp: s3_def req_frame_def)
  from free_ok [OF P3] obtain s4 where s4: "free_request p s3 = Some s4"
    "s4 = s3\<lparr>requests := (requests s3)(p := None)\<rparr>" "pend_inv {} s4 ?q" by blast
  have "RIL_onRequestComplete en (Some p) e response s = Some s4"
  proof (cases answers)
    case True
    then have "\<not> 0 < local_cmd r" "cancelled r = 0" by (simp_all add: answers_def)
    moreover have "(if version s1 \<ge> 13 \<and> wasAckSent r = 1 then grabPartialWakeLock en s1 else Some s1) = Some s2"
      using s2(1) True by (simp add: ack_def)
    ultimately show ?thesis
      using s1(1,3) s4(1) f True by (simp add: RIL_onRequestComplete_def s3_def ack_def Let_def)
  next
    case False
    then have "s3 = s1" using s2(1) by (simp add: s3_def)
    with False s1(1,3) s4(1) show ?thesis
      by (auto simp: RIL_onRequestComplete_def answers_def)
  qed
  moreover have eq4: "s4 = s3\<lparr>requests := (requests s3)(p := None), pendingRequests := pendingRequests s3\<rparr>"
    using s4(2) by simp
  have "list_inv F s4 ts2 ps" "wake_inv F s4"
    using L3 W3 by (simp_all only: inv_requests [OF eq4])
  moreover have "requests s4 p = None" "out s4 = out s3" "callbacks s4 = callbacks s3"
    "registerCalled s4 = registerCalled s3" "SIM_COUNT s4 = SIM_COUNT s3"
    by (simp_all add: s4(2))
  ultimately show ?thesis
    using s4(3) s1(4) o3 f3 by (intro exI [of _ s4] exI [of _ ts2] exI [of _ ?h]) simp
qed

text \<open>With one SIM, completing or acknowledging a token that is not outstanding does nothing.\<close>

lemma complete_stale:
  assumes "pend_inv {} s q" "t = None \<or> (\<exists>p. t = Some p \<and> p \<notin> outstanding q \<and> SIM_COUNT s < 2)"
  shows "RIL_onRequestComplete en t e response s = Some s" "RIL_onRequestAck t s = Some s"
proof -
  have "checkAndDequeueRequestInfoIfAck t ack s = Some (False, s)" for ack
    using assms check_missing [OF assms(1)] by (auto simp: checkAndDequeueRequestInfoIfAck_def)
  then show "RIL_onRequestComplete en t e response s = Some s" "RIL_onRequestAck t s = Some s"
    by (simp_all add: RIL_onRequestComplete_def RIL_onRequestAck_def)
qed

text \<open>An acknowledgement is sent on and marks the request, which stays outstanding.\<close>

lemma ack_total:
  assumes inv: "pend_inv {} s q" and p: "p \<in> outstanding q" and r: "requests s p = Some r"
  shows "\<exists>s'. RIL_onRequestAck (Some p) s = Some s' \<and> pend_inv {} s' q \<and>
     requests s' = (requests s)(p \<mapsto> r\<lparr>wasAckSent := 1\<rparr>) \<and>
     s' = s\<lparr>requests := requests s', pendingRequests := pendingRequests s,
            out := out s @ (if cancelled r = 0 then [AcknowledgeRequest (socket_id r) (token r)] else [])\<rparr>"
proof -
  let ?s1 = "s\<lparr>requests := (requests s)(p \<mapsto> r\<lparr>wasAckSent := 1\<rparr>)\<rparr>"
  have same: "?s1 = s" if "wasAckSent r = 1"
  proof -
    have "(requests s)(p \<mapsto> r\<lparr>wasAckSent := 1\<rparr>) = requests s" using that r by (auto simp: fun_eq_iff)
    then show ?thesis by simp
  qed
  from check_found [OF inv p r refl, of True]
  have c: "checkAndDequeueRequestInfoIfAck (Some p) True s = Some (True, ?s1)" using same by auto
  let ?s2 = "if cancelled r = 0 then emit (AcknowledgeRequest (socket_id r) (token r)) ?s1 else ?s1"
  have "RIL_onRequestAck (Some p) s = Some ?s2"
    using c by (simp add: RIL_onRequestAck_def)
  moreover have "pend_inv {} ?s2 q"
    using pend_inv_ack [OF inv r] by simp
  ultimately show ?thesis by (intro exI [of _ ?s2]) (simp add: emit_def)
qed

end
