(* ===== verification/RilDaemon.thy ===== *)
theory RilDaemon
  imports RilRequests
begin

text \<open>
  The daemon as a whole. \<open>full_inv\<close> joins the invariants of the timers, of the wake lock and of the
  pending requests. The calls that reach the daemon from the vendor library and from the HIDL
  service are the constructors of \<open>api_call\<close>; every call within its contract keeps \<open>full_inv\<close>, also
  when the vendor library issues it from inside a timer callback. With that, the daemon's callbacks
  satisfy the contract \<open>event_client\<close> of the event loop, and every reachable state satisfies
  \<open>full_inv\<close>.
\<close>

definition full_inv :: "addr set \<Rightarrow> ril_state \<Rightarrow> addr list \<Rightarrow> addr list \<Rightarrow> bool" where
  "full_inv F s ts ps \<longleftrightarrow>
     list_inv F s ts ps \<and> wake_inv F s \<and> (\<exists>q. pend_inv {} s q) \<and> 0 \<le> registerCalled s"

section \<open>Unsolicited responses\<close>

text \<open>The response an unsolicited code causes.\<close>

definition unsol_effect :: "ril_state \<Rightarrow> int \<Rightarrow> buffer \<Rightarrow> int \<Rightarrow> effect list" where
  "unsol_effect s code data sock =
     (if registerCalled s = 0 \<or> code < 1000 \<or> 1050 < code then []
      else case u_responseFunction (s_unsolResponses ! nat (code - 1000)) of
             None \<Rightarrow> []
           | Some f \<Rightarrow>
               [Respond f (if 2 \<le> SIM_COUNT s then sock else 0)
                  (if 13 \<le> version s \<and> wakeType (s_unsolResponses ! nat (code - 1000)) = WAKE_PARTIAL
                   then RESPONSE_UNSOLICITED_ACK_EXP else RESPONSE_UNSOLICITED) 0 RIL_E_SUCCESS data])"

lemma keep_nitz_frame:
  "keep_nitz en code data s = (b, s') \<Longrightarrow>
     s' = s\<lparr>lastNITZTimeData := lastNITZTimeData s'\<rparr>"
  by (auto simp: keep_nitz_def Let_def split: if_splits)

lemma nitz_inv:
  assumes "s' = s\<lparr>lastNITZTimeData := x\<rparr>"
  shows "list_inv F s' ts ps = list_inv F s ts ps" "wake_inv F s' = wake_inv F s"
    "wake_inv F (s'\<lparr>out := []\<rparr>) = wake_inv F (s\<lparr>out := []\<rparr>)" "req_frame s s'"
proof -
  show "list_inv F s' ts ps = list_inv F s ts ps" by (rule list_inv_cong) (simp_all add: assms)
  show "wake_inv F s' = wake_inv F s" by (rule iffI; erule wake_inv_cong) (simp_all add: assms)
  show "wake_inv F (s'\<lparr>out := []\<rparr>) = wake_inv F (s\<lparr>out := []\<rparr>)"
    by (rule iffI; erule wake_inv_cong) (simp_all add: assms)
  show "req_frame s s'" by (simp add: assms req_frame_def)
qed

lemma req_frame_simps:
  assumes "req_frame s s'"
  shows "filter is_response (out s') = filter is_response (out s)" "requests s' = requests s"
    "pendingRequests s' = pendingRequests s" "SIM_COUNT s' = SIM_COUNT s" "callbacks s' = callbacks s"
    "registerCalled s' = registerCalled s"
  using assms by (simp_all add: req_frame_def)

text \<open>Where the wake lock is taken for an unsolicited response.\<close>

lemma unsol_grab:
  assumes L: "list_inv F s ts ps" and W: "wake_inv F s"
  shows "\<exists>s1 ts1. (if w then grabPartialWakeLock en s else Some s) = Some s1 \<and> list_inv F s1 ts1 ps \<and>
     wake_inv F (s1\<lparr>out := []\<rparr>) \<and> (13 \<le> version s \<or> \<not> w \<longrightarrow> wake_inv F s1) \<and> req_frame s s1 \<and>
     lastNITZTimeData s1 = lastNITZTimeData s"
proof (cases "w \<and> 13 \<le> version s")
  case True
  from grab_total [OF L W, where en = en] True wake_inv_core show ?thesis by fastforce
next
  case False
  show ?thesis
  proof (cases w)
    case True
    with False have "grabPartialWakeLock en s = Some (emit AcquireWakeLock s)"
      by (simp add: grabPartialWakeLock_def)
    moreover have "wake_inv F ((emit AcquireWakeLock s)\<lparr>out := []\<rparr>)"
      by (rule wake_inv_cong [OF wake_inv_core [OF W]]) simp_all
    ultimately show ?thesis using True False L by auto
  next
    case False
    with L W wake_inv_core [OF W] show ?thesis by auto
  qed
qed

lemma unsol_total:
  assumes L: "list_inv F s ts ps" and W: "wake_inv F s"
  shows "\<exists>s' ts'. RIL_onUnsolicitedResponse en code data sock s = Some s' \<and> list_inv F s' ts' ps \<and>
     wake_inv F s' \<and> requests s' = requests s \<and> pendingRequests s' = pendingRequests s \<and>
     SIM_COUNT s' = SIM_COUNT s \<and> callbacks s' = callbacks s \<and> registerCalled s' = registerCalled s \<and>
     filter is_response (out s') = filter is_response (out s) @ unsol_effect s code data sock"
proof (cases "registerCalled s = 0 \<or> code < 1000 \<or> 1050 < code")
  case True
  then have "RIL_onUnsolicitedResponse en code data sock s = Some s"
    by (auto simp: RIL_onUnsolicitedResponse_def Let_def RIL_UNSOL_RESPONSE_BASE_def length_s_unsolResponses)
  with True L W show ?thesis by (auto simp: unsol_effect_def)
next
  case False
  let ?i = "s_unsolResponses ! nat (code - 1000)"
  let ?soc = "if 2 \<le> SIM_COUNT s then sock else 0"
  define w where "w \<longleftrightarrow> wakeType ?i = WAKE_PARTIAL"
  define ty where "ty = (if 13 \<le> version s \<and> w then RESPONSE_UNSOLICITED_ACK_EXP else RESPONSE_UNSOLICITED)"
  from unsol_grab [OF L W, where w = w and en = en] obtain s1 ts1 where
    s1: "(if w then grabPartialWakeLock en s else Some s) = Some s1" "list_inv F s1 ts1 ps"
      "wake_inv F (s1\<lparr>out := []\<rparr>)" "13 \<le> version s \<or> \<not> w \<longrightarrow> wake_inv F s1" "req_frame s s1"
    by blast
  define s2 where "s2 = (if code = RIL_UNSOL_NITZ_TIME_RECEIVED then emit (SetNitzTimeReceived ?soc (elapsed en)) s1 else s1)"
  define s3 where "s3 = (case u_responseFunction ?i of None \<Rightarrow> s2
      | Some f \<Rightarrow> emit (Respond f ?soc ty 0 RIL_E_SUCCESS data) s2)"
  have L3: "list_inv F s3 ts1 ps" using s1(2) by (simp add: s3_def s2_def split: option.split)
  have emits: "wake_inv F s3 = wake_inv F s1"
    by (simp add: s3_def s2_def wake_inv_emit is_wake_def split: option.split)
  have "ucis s3 = ucis s1 \<and> last_wake_timeout_info s3 = last_wake_timeout_info s1 \<and>
      wakelock_count s3 = wakelock_count s1 \<and> callbacks s3 = callbacks s1 \<and> registerCalled s3 = registerCalled s1"
    by (simp add: s3_def s2_def split: option.split)
  then have C3: "wake_inv F (s3\<lparr>out := []\<rparr>)" using wake_inv_cong [OF s1(3), of "s3\<lparr>out := []\<rparr>"] by simp
  have f3: "callbacks s3 = callbacks s" "registerCalled s3 = registerCalled s" "SIM_COUNT s3 = SIM_COUNT s"
    "requests s3 = requests s" "pendingRequests s3 = pendingRequests s"
    using req_frame_simps [OF s1(5)] by (simp_all add: s3_def s2_def split: option.split)
  have o3: "filter is_response (out s3) = filter is_response (out s) @ unsol_effect s code data sock"
    using False req_frame_simps(1) [OF s1(5)]
    by (simp add: s3_def s2_def unsol_effect_def ty_def w_def split: option.split)
  have H3: "wake_inv F s3" if "13 \<le> version s3 \<or> \<not> w" using that s1(4) emits f3(1) by simp
  have reg: "registerCalled s3 \<noteq> 0" using False f3 by simp
  from unsol_timeout_total [OF L3 C3 reg H3, where en = en] obtain ok s4 ts4 where
    s4: "unsol_timeout en w s3 = Some (ok, s4)" "list_inv F s4 ts4 ps" "wake_inv F (s4\<lparr>out := []\<rparr>)"
      "ok \<or> 13 \<le> version s3 \<or> \<not> w \<longrightarrow> wake_inv F s4" "req_frame s3 s4"
    by blast
  obtain kept s5 where s5: "(if ok then keep_nitz en code data s4 else (False, s4)) = (kept, s5)"
    by fastforce
  have eq5: "s5 = s4\<lparr>lastNITZTimeData := lastNITZTimeData s5\<rparr>"
    using s5 keep_nitz_frame by (auto split: if_splits)
  note n5 = nitz_inv [OF eq5]
  have f5: "version s5 = version s" using req_frame_simps [OF s4(5)] req_frame_simps [OF n5(4)] f3 by simp
  have idx: "code - RIL_UNSOL_RESPONSE_BASE = code - 1000" by (simp add: RIL_UNSOL_RESPONSE_BASE_def)
  have c: "(registerCalled s = 0) = False" "(code - 1000 < 0 \<or> int (length s_unsolResponses) \<le> code - 1000) = False"
    using False by (simp_all add: length_s_unsolResponses)
  have run: "RIL_onUnsolicitedResponse en code data sock s =
      (if kept then Some s5 else if w then releaseWakeLock s5 else Some s5)"
    unfolding RIL_onUnsolicitedResponse_def Let_def idx c if_False w_def [symmetric] ty_def [symmetric]
      s1(1) Option.bind.bind_lunit s2_def [symmetric] s3_def [symmetric] s4(1) prod.case s5 ..
  have "\<exists>s6. (if kept then Some s5 else if w then releaseWakeLock s5 else Some s5) = Some s6 \<and>
      list_inv F s6 ts4 ps \<and> wake_inv F s6 \<and> req_frame s5 s6"
  proof (cases "\<not> kept \<and> w")
    case True
    have "wake_inv F s5" if "13 \<le> version s5" using that n5(2) s4(4) f5 f3(1) by simp
    from release_total [OF n5(1) [THEN iffD2, OF s4(2)] n5(3) [THEN iffD2, OF s4(3)] this] True
    show ?thesis by auto
  next
    case False
    then have "ok \<or> \<not> w" using s5 by (auto split: if_splits)
    then have "wake_inv F s5" using s4(4) n5(2) [of F] by auto
    with False n5(1) s4(2) show ?thesis by auto
  qed
  then obtain s6 where s6: "(if kept then Some s5 else if w then releaseWakeLock s5 else Some s5) = Some s6"
    "list_inv F s6 ts4 ps" "wake_inv F s6" "req_frame s5 s6" by blast
  have "req_frame s3 s6" using s4(5) n5(4) s6(4) by (blast intro: req_frame_trans)
  from run s6(1-3) req_frame_simps [OF this] f3 o3 show ?thesis
    by (intro exI [of _ s6] exI [of _ ts4]) simp
qed

section \<open>The other operations\<close>

lemma register_total:
  assumes I: "full_inv F s ts ps"
  shows "\<exists>s'. RIL_register cbs s = Some s' \<and> full_inv F s' ts ps"
proof (cases "\<exists>cb. cbs = Some cb \<and> RIL_VERSION_MIN \<le> rf_version cb \<and> registerCalled s \<le> 0")
  case False
  show ?thesis
  proof (cases cbs)
    case None
    with I show ?thesis by (simp add: RIL_register_def)
  next
    case (Some cb)
    with False have "rf_version cb < RIL_VERSION_MIN \<or> 0 < registerCalled s" by auto
    with Some I show ?thesis by (auto simp: RIL_register_def)
  qed
next
  case True
  then obtain cb where cb: "cbs = Some cb" "RIL_VERSION_MIN \<le> rf_version cb" "registerCalled s \<le> 0" by blast
  let ?s = "s\<lparr>callbacks := cb, registerCalled := 1\<rparr>"
  have check: "(\<forall>i \<in> set [0..<length s_commands]. int i = requestNumber (s_commands ! i)) \<and>
      (\<forall>i \<in> set [0..<length s_unsolResponses].
         int i + RIL_UNSOL_RESPONSE_BASE = u_requestNumber (s_unsolResponses ! i))"
    by (simp add: requestNumber_nth unsolNumber_nth RIL_UNSOL_RESPONSE_BASE_def)
  have run: "RIL_register cbs s = Some (emit RegisterService ?s)"
    using cb unfolding RIL_register_def cb(1) option.case Let_def if_P [OF check] by simp
  have L: "list_inv F s ts ps" and W: "wake_inv F s" and P: "\<exists>q. pend_inv {} s q" and r: "registerCalled s = 0"
    using I cb by (auto simp: full_inv_def)
  have z: "\<not> wake_held (out s)" "wakelock_count s = 0"
    using wake_invD(8) [OF W r] wake_invD(5) [OF W] wake_invD(7) [OF W r] by simp_all
  have "list_inv F ?s ts ps" using L by (subst list_inv_cong [where s = s]) simp_all
  moreover have "wake_inv F ?s"
    by (rule wake_invI) (use z wake_invD(1,2) [OF W] in auto)
  moreover from P obtain q where "pend_inv {} s q" by blast
  then have "pend_inv {} ?s q" by (subst pend_inv_cong [where s = s]) simp_all
  ultimately have "full_inv F (emit RegisterService ?s) ts ps"
    by (auto simp: full_inv_def wake_inv_emit is_wake_def)
  with run show ?thesis by blast
qed

lemma timer_total:
  assumes I: "full_inv F s ts ps" and f: "f \<noteq> wakeTimeoutCallback_fn"
  shows "\<exists>s' ts'. RIL_requestTimedCallback en f x tv s = Some s' \<and> full_inv F s' ts' ps"
proof (cases "calloc en s")
  case None
  with I show ?thesis by (auto simp: RIL_requestTimedCallback_def internal_no_memory)
next
  case (Some p)
  have L: "list_inv F s ts ps" and W: "wake_inv F s" and P: "\<exists>q. pend_inv {} s q"
    using I by (auto simp: full_inv_def)
  define t where "t = (case tv of None \<Rightarrow> Timeval 0 0 | Some t \<Rightarrow> t)"
  have tv: "internalRequestTimedCallback en f x tv s = internalRequestTimedCallback en f x (Some t) s"
    unfolding internalRequestTimedCallback_def t_def option.case ..
  from internal_timer [OF L Some, of f x t] obtain s' ts' where
    s': "internalRequestTimedCallback en f x (Some t) s = Some (Some p, s')" "list_inv F s' ts' ps" and
    eq: "s' = s\<lparr>ev := ev s', ucis := (ucis s)(p \<mapsto> \<lparr>p_callback = f, userParam = x\<rparr>),
            out := out s @ (if on_loop_thread en then [] else [WakeupWrite])\<rparr>"
    by blast
  have fields: "ucis s' = (ucis s)(p \<mapsto> \<lparr>p_callback = f, userParam = x\<rparr>)"
    "last_wake_timeout_info s' = last_wake_timeout_info s" "callbacks s' = callbacks s"
    "wakelock_count s' = wakelock_count s" "registerCalled s' = registerCalled s"
    "wake_held (out s') = wake_held (out s)" "requests s' = requests s"
    "pendingRequests s' = pendingRequests s" "SIM_COUNT s' = SIM_COUNT s"
    by (subst eq, simp)+
  have fresh: "ucis s p = None" using calloc_Some [OF Some] by simp
  have "wake_inv F s'"
  proof (rule wake_invI)
    show "last_wake_timeout_info s' = Some a"
      if "ucis s' a = Some u" "p_callback u = wakeTimeoutCallback_fn" "userParam u = None" for a u
      using that wake_invD(1) [OF W, of a u] f by (auto simp: fields split: if_splits)
    show "\<exists>u. ucis s' a = Some u \<and> p_callback u = wakeTimeoutCallback_fn" if "last_wake_timeout_info s' = Some a" for a
      using that wake_invD(2) [OF W, of a] fresh by (auto simp: fields)
    show "live F s'" if "wake_held (out s') \<or> 0 < wakelock_count s'"
      using wake_invD(3) [OF W] that fresh by (auto simp: fields live_def)
    show "registerCalled s' = 0 \<Longrightarrow> version s' = 0 \<and> \<not> wake_held (out s')"
      using wake_invD(7,8) [OF W] by (simp add: fields)
  qed (use wake_invD(4,5,6) [OF W] in \<open>simp_all add: fields\<close>)
  moreover from P obtain q where "pend_inv {} s q" by blast
  then have "pend_inv {} s' q" by (subst pend_inv_cong [where s = s]) (simp_all add: fields)
  ultimately show ?thesis
    using s' I tv by (auto simp: RIL_requestTimedCallback_def full_inv_def fields)
qed

lemma add_total:
  assumes I: "full_inv F s ts ps" and n: "0 \<le> request"
  shows "\<exists>r s'. addRequestToList en serial slot request s = Some (r, s') \<and> full_inv F s' ts ps"
proof (cases "request < int (length s_commands)")
  case False
  with I show ?thesis by (simp add: addRequestToList_def)
next
  case True
  show ?thesis
  proof (cases "calloc en s")
    case None
    with I show ?thesis by (simp add: addRequestToList_def)
  next
    case (Some p)
    from I obtain q where q: "pend_inv {} s q" by (auto simp: full_inv_def)
    from addRequest_ok [OF q Some n True refl, of serial slot] obtain s' q' where
      s': "addRequestToList en serial slot request s = Some (Some p, s')" "pend_inv {} s' q'" and
      eq: "\<exists>R P. s' = s\<lparr>requests := R, pendingRequests := P\<rparr>"
      by blast
    from eq obtain R P where eq: "s' = s\<lparr>requests := R, pendingRequests := P\<rparr>" by blast
    have "full_inv F s' ts ps"
      using I s'(2) inv_requests [OF eq] by (auto simp: full_inv_def eq)
    with s' show ?thesis by blast
  qed
qed

lemma ack_keeps:
  assumes I: "full_inv F s ts ps" and t: "\<And>p. t = Some p \<Longrightarrow> requests s p \<noteq> None \<or> SIM_COUNT s < 2"
  shows "\<exists>s'. RIL_onRequestAck t s = Some s' \<and> full_inv F s' ts ps"
proof -
  from I obtain q where q: "pend_inv {} s q" by (auto simp: full_inv_def)
  show ?thesis
  proof (cases "\<exists>p. t = Some p \<and> p \<in> outstanding q")
    case False
    have "t = None \<or> (\<exists>p. t = Some p \<and> p \<notin> outstanding q \<and> SIM_COUNT s < 2)"
      using False t pend_invD(3) [OF q] by (cases t) auto
    then have "RIL_onRequestAck t s = Some s" by (rule complete_stale(2) [OF q])
    with I show ?thesis by blast
  next
    case True
    then obtain p where p: "t = Some p" "p \<in> outstanding q" by blast
    then obtain r where r: "requests s p = Some r" using pend_invD(3) [OF q] by auto
    from ack_total [OF q p(2) r] obtain s' where s': "RIL_onRequestAck (Some p) s = Some s'" "pend_inv {} s' q" and
      eq: "s' = s\<lparr>requests := requests s', pendingRequests := pendingRequests s,
            out := out s @ (if cancelled r = 0 then [AcknowledgeRequest (socket_id r) (token r)] else [])\<rparr>"
      by blast
    define R where "R = requests s'"
    let ?s1 = "s\<lparr>requests := R, pendingRequests := pendingRequests s\<rparr>"
    have "s' = (if cancelled r = 0 then emit (AcknowledgeRequest (socket_id r) (token r)) ?s1 else ?s1)"
      by (subst eq) (simp add: emit_def R_def)
    moreover have "list_inv F s ts ps" "wake_inv F s" using I by (simp_all add: full_inv_def)
    then have "list_inv F ?s1 ts ps" "wake_inv F ?s1" by (simp_all only: inv_requests [OF refl])
    ultimately have "full_inv F s' ts ps"
      using s'(2) I by (auto simp: full_inv_def wake_inv_emit is_wake_def split: if_splits)
    with s' p show ?thesis by blast
  qed
qed

lemma complete_keeps:
  assumes I: "full_inv F s ts ps" and t: "\<And>p. t = Some p \<Longrightarrow> requests s p \<noteq> None \<or> SIM_COUNT s < 2"
    and f: "\<And>p r. t = Some p \<Longrightarrow> requests s p = Some r \<Longrightarrow> responseFunction (s_commands ! nat (pCI r)) \<noteq> None"
  shows "\<exists>s' ts'. RIL_onRequestComplete en t e response s = Some s' \<and> full_inv F s' ts' ps"
proof -
  from I obtain q where q: "pend_inv {} s q" by (auto simp: full_inv_def)
  show ?thesis
  proof (cases "\<exists>p. t = Some p \<and> p \<in> outstanding q")
    case False
    have "t = None \<or> (\<exists>p. t = Some p \<and> p \<notin> outstanding q \<and> SIM_COUNT s < 2)"
      using False t pend_invD(3) [OF q] by (cases t) auto
    then have "RIL_onRequestComplete en t e response s = Some s" by (rule complete_stale(1) [OF q])
    with I show ?thesis by blast
  next
    case True
    then obtain p where p: "t = Some p" "p \<in> outstanding q" by blast
    then obtain r where r: "requests s p = Some r" using pend_invD(3) [OF q] by auto
    from f [OF p(1) r] obtain g where g: "responseFunction (s_commands ! nat (pCI r)) = Some g" by blast
    have "list_inv F s ts ps" "wake_inv F s" using I by (simp_all add: full_inv_def)
    from complete_total [OF this q p(2) r g, of en e response] p(1) I show ?thesis
      by (fastforce simp: full_inv_def)
  qed
qed

lemma release_keeps:
  assumes "full_inv F s ts ps"
  shows "\<exists>s'. releaseWakeLock s = Some s' \<and> full_inv F s' ts ps"
proof -
  have L: "list_inv F s ts ps" and W: "wake_inv F s" using assms by (simp_all add: full_inv_def)
  from release_total [OF L wake_inv_core [OF W] W] obtain s' where
    s': "releaseWakeLock s = Some s'" "list_inv F s' ts ps" "wake_inv F s'" "req_frame s s'" by blast
  with assms pend_inv_frame [OF s'(4)] req_frame_simps(6) [OF s'(4)] show ?thesis
    by (auto simp: full_inv_def)
qed

lemma unsol_keeps:
  assumes "full_inv F s ts ps"
  shows "\<exists>s' ts'. RIL_onUnsolicitedResponse en code data sock s = Some s' \<and> full_inv F s' ts' ps"
proof -
  have L: "list_inv F s ts ps" and W: "wake_inv F s" using assms by (simp_all add: full_inv_def)
  from unsol_total [OF L W, of en code data sock] obtain s' ts' where
    s': "RIL_onUnsolicitedResponse en code data sock s = Some s'" "list_inv F s' ts' ps" "wake_inv F s'"
      "requests s' = requests s" "pendingRequests s' = pendingRequests s" "SIM_COUNT s' = SIM_COUNT s"
      "registerCalled s' = registerCalled s"
    by blast
  from assms obtain q where "pend_inv {} s q" by (auto simp: full_inv_def)
  then have "pend_inv {} s' q" by (subst pend_inv_cong [where s = s]) (simp_all add: s')
  with assms s' show ?thesis by (auto simp: full_inv_def)
qed

lemma full_inv_emit: "\<not> is_wake x \<Longrightarrow> full_inv F (emit x s) ts ps = full_inv F s ts ps"
  by (simp add: full_inv_def wake_inv_emit)

lemma connect_keeps:
  assumes "full_inv F s ts ps"
  shows "\<exists>s' ts'. onNewCommandConnect en1 en2 en3 sock s = Some s' \<and> full_inv F s' ts' ps"
proof -
  from unsol_keeps [OF assms] obtain s1 ts1 where s1:
    "RIL_onUnsolicitedResponse en1 RIL_UNSOL_RIL_CONNECTED (Some (int_bytes (version s))) sock s = Some s1"
    "full_inv F s1 ts1 ps" by blast
  from unsol_keeps [OF s1(2)] obtain s2 ts2 where s2:
    "RIL_onUnsolicitedResponse en2 RIL_UNSOL_RESPONSE_RADIO_STATE_CHANGED None sock s1 = Some s2"
    "full_inv F s2 ts2 ps" by blast
  have nitz: "full_inv F (u\<lparr>lastNITZTimeData := x\<rparr>) ts2 ps" if "full_inv F u ts2 ps" for u x
  proof -
    note n = nitz_inv [where s = u and x = x, OF refl]
    from that n(1,2) pend_inv_frame [OF n(4)] show ?thesis by (auto simp: full_inv_def)
  qed
  define s3 where "s3 = (if lastNITZTimeData s2 \<noteq> None then resendLastNITZTimeData en3 sock s2 else s2)"
  have 3: "full_inv F s3 ts2 ps"
    using s2(2) by (auto simp: s3_def resendLastNITZTimeData_def Let_def full_inv_emit is_wake_def nitz
        split: option.splits)
  have "onNewCommandConnect en1 en2 en3 sock s = Some (case rf_getVersion (callbacks s3) of
      Some v \<Rightarrow> emit (PropertySet v) s3 | None \<Rightarrow> emit (PropertySet ''unavailable'') s3)"
    unfolding onNewCommandConnect_def s1(1) s2(1) Option.bind.bind_lunit Let_def s3_def ..
  with 3 show ?thesis by (auto simp: full_inv_emit is_wake_def split: option.split)
qed

section \<open>Calls of the library\<close>

text \<open>
  What the vendor library and the HIDL service call. \<open>call_ok\<close> is their contract: request numbers
  are not negative, a token is NULL or one the daemon handed out and has not freed (with one SIM any
  pointer will do, it is compared and not followed), a completed request has a response function, and
  the static function \<open>wakeTimeoutCallback\<close> is not passed as a callback.
\<close>

datatype api_call =
    ApiAdd env int int int
  | ApiAck "addr option"
  | ApiComplete env "addr option" int buffer
  | ApiUnsol env int buffer int
  | ApiTimer env addr "addr option" "timeval option"
  | ApiRelease
  | ApiConnect env env env int
  | ApiRegister "radio_functions option"

fun run_call :: "api_call \<Rightarrow> ril_state \<Rightarrow> ril_state option" where
  "run_call (ApiAdd en serial slot request) s = map_option snd (addRequestToList en serial slot request s)"
| "run_call (ApiAck t) s = RIL_onRequestAck t s"
| "run_call (ApiComplete en t e response) s = RIL_onRequestComplete en t e response s"
| "run_call (ApiUnsol en code data sock) s = RIL_onUnsolicitedResponse en code data sock s"
| "run_call (ApiTimer en f x tv) s = RIL_requestTimedCallback en f x tv s"
| "run_call ApiRelease s = releaseWakeLock s"
| "run_call (ApiConnect en1 en2 en3 sock) s = onNewCommandConnect en1 en2 en3 sock s"
| "run_call (ApiRegister cbs) s = RIL_register cbs s"

definition token_ok :: "addr option \<Rightarrow> ril_state \<Rightarrow> bool" where
  "token_ok t s = (case t of None \<Rightarrow> True | Some p \<Rightarrow> requests s p \<noteq> None \<or> SIM_COUNT s < 2)"

definition responder_ok :: "addr option \<Rightarrow> ril_state \<Rightarrow> bool" where
  "responder_ok t s =
     (case Option.bind t (requests s) of
        None \<Rightarrow> True
      | Some r \<Rightarrow> responseFunction (s_commands ! nat (pCI r)) \<noteq> None)"

fun call_ok :: "api_call \<Rightarrow> ril_state \<Rightarrow> bool" where
  "call_ok (ApiAdd en serial slot request) s = (0 \<le> request)"
| "call_ok (ApiAck t) s = token_ok t s"
| "call_ok (ApiComplete en t e response) s = (token_ok t s \<and> responder_ok t s)"
| "call_ok (ApiTimer en f x tv) s = (f \<noteq> wakeTimeoutCallback_fn)"
| "call_ok _ s = True"

lemma call_total:
  assumes I: "full_inv F s ts ps" and ok: "call_ok c s"
  shows "\<exists>s' ts'. run_call c s = Some s' \<and> full_inv F s' ts' ps"
proof (cases c)
  case (ApiAdd en serial slot request)
  with add_total [OF I, where request = request and en = en and serial = serial and slot = slot] ok show ?thesis by auto
next
  case (ApiAck t)
  with ok have "\<And>p. t = Some p \<Longrightarrow> requests s p \<noteq> None \<or> SIM_COUNT s < 2" by (auto simp: token_ok_def)
  from ack_keeps [OF I this] ApiAck show ?thesis by fastforce
next
  case (ApiComplete en t e response)
  with ok have t: "\<And>p. t = Some p \<Longrightarrow> requests s p \<noteq> None \<or> SIM_COUNT s < 2"
    and f: "\<And>p r. t = Some p \<Longrightarrow> requests s p = Some r \<Longrightarrow> responseFunction (s_commands ! nat (pCI r)) \<noteq> None"
    by (auto simp: token_ok_def responder_ok_def)
  from complete_keeps [OF I t f, where en = en and e = e and response = response] ApiComplete show ?thesis by fastforce
next
  case (ApiUnsol en code data sock)
  with unsol_keeps [OF I, where en = en and code = code and data = data and sock = sock] show ?thesis by simp
next
  case (ApiTimer en f x tv)
  with timer_total [OF I, where f = f and en = en and x = x and tv = tv] ok show ?thesis by simp
next
  case ApiRelease
  with release_keeps [OF I] show ?thesis by auto
next
  case (ApiConnect en1 en2 en3 sock)
  with connect_keeps [OF I, where ?en1.0 = en1 and ?en2.0 = en2 and ?en3.0 = en3 and sock = sock] show ?thesis by simp
next
  case (ApiRegister cbs)
  with register_total [OF I, of cbs] show ?thesis by auto
qed

text \<open>
  A vendor callback is a program that issues calls within the contract; \<open>prog f x s\<close> are the calls
  the function \<open>f\<close> makes on parameter \<open>x\<close>, which may depend on all it can observe.
\<close>

fun run_calls :: "api_call list \<Rightarrow> ril_state \<Rightarrow> ril_state option" where
  "run_calls [] s = Some s"
| "run_calls (c # cs) s = (if call_ok c s then Option.bind (run_call c s) (run_calls cs) else Some s)"

definition vendor_of ::
  "(addr \<Rightarrow> addr option \<Rightarrow> ril_state \<Rightarrow> api_call list) \<Rightarrow> addr \<Rightarrow> addr option \<Rightarrow> ril_state \<Rightarrow> ril_state option" where
  "vendor_of prog f x s = run_calls (prog f x s) s"

lemma run_calls_total:
  "full_inv F s ts ps \<Longrightarrow> \<exists>s' ts'. run_calls cs s = Some s' \<and> full_inv F s' ts' ps"
proof (induction cs arbitrary: s ts)
  case (Cons c cs)
  show ?case
  proof (cases "call_ok c s")
    case True
    from call_total [OF Cons.prems this] obtain s1 ts1 where "run_call c s = Some s1" "full_inv F s1 ts1 ps"
      by blast
    with Cons.IH True show ?thesis by auto
  qed (use Cons.prems in auto)
qed auto

section \<open>The callbacks of the daemon in the event loop\<close>

lemma ril_state_links:
  assumes "same_payload s s'"
  shows "s' = s\<lparr>ev := ev s'\<rparr>"
  using assms by (simp add: same_payload_def)

lemma more_fields:
  fixes s s' :: ril_state
  assumes "ril_event_state.more s' = ril_event_state.more s"
  shows "ucis s' = ucis s" "last_wake_timeout_info s' = last_wake_timeout_info s"
    "wakelock_count s' = wakelock_count s" "callbacks s' = callbacks s"
    "registerCalled s' = registerCalled s" "out s' = out s" "requests s' = requests s"
    "pendingRequests s' = pendingRequests s" "SIM_COUNT s' = SIM_COUNT s"
  using assms by (cases s; cases s'; simp)+

text \<open>The lists may change hands between timers, pending events and the descriptor table.\<close>

lemma list_inv_move:
  assumes L: "list_inv F s ts ps" and core: "same_core s s'" and wf: "wf_lists s' ts1 ps1"
    and w: "wf_watch s'" "watched s' \<subseteq> watched s" "wakeupfd_event \<notin> set ts1"
    and D: "set ts \<union> (set ps - {wakeupfd_event}) \<union> F = set ts1 \<union> (set ps1 - {wakeupfd_event}) \<union> G"
      "G \<inter> (set ts1 \<union> set ps1) = {}"
  shows "list_inv G s' ts1 ps1"
proof -
  note c = core [unfolded same_core_def]
  note m = more_fields [OF c [THEN conjunct1]]
  show ?thesis using L wf w D c unfolding list_inv_def m by auto
qed

lemma full_inv_lists:
  assumes I: "full_inv F s ts ps" and core: "same_core s s'" and wf: "wf_lists s' ts1 ps1"
    and w: "wf_watch s'" "watched s' \<subseteq> watched s" "wakeupfd_event \<notin> set ts1"
    and D: "set ts \<union> (set ps - {wakeupfd_event}) \<union> F = set ts1 \<union> (set ps1 - {wakeupfd_event}) \<union> G"
      "G \<inter> (set ts1 \<union> set ps1) = {}"
    and W: "wake_inv G s"
  shows "full_inv G s' ts1 ps1"
proof -
  have L: "list_inv F s ts ps" and P: "\<exists>q. pend_inv {} s q" and r: "0 \<le> registerCalled s"
    using I by (auto simp: full_inv_def)
  note c = core [unfolded same_core_def]
  note m = more_fields [OF c [THEN conjunct1]]
  have "list_inv G s' ts1 ps1" by (rule list_inv_move [OF L core wf w D])
  moreover have "wake_inv G s'" by (rule wake_inv_cong [OF W]) (simp_all add: m)
  moreover from P obtain q where "pend_inv {} s q" by blast
  then have "pend_inv {} s' q" by (subst pend_inv_cong [where s = s]) (simp_all add: m)
  ultimately show ?thesis using r by (auto simp: full_inv_def m)
qed

text \<open>
  \<open>wakeTimeoutCallback\<close> on a live timer: the count is reset and the lock released, whatever the
  version.
\<close>

lemma wakeTimeout_live:
  assumes "wake_inv {} s"
  shows "\<exists>s'. wakeTimeoutCallback None s = Some s' \<and>
     s' = s\<lparr>wakelock_count := 0, out := out s @ [ReleaseWakeLock]\<rparr>"
  using wake_invD(5) [OF assms]
  by (auto simp: wakeTimeoutCallback_def releaseWakeLock_def emit_def)

text \<open>The rest of \<open>userTimerCallback\<close>: forget the timer and free it.\<close>

lemma drop_fired:
  assumes I: "full_inv {p} s ts ps" and p: "ucis s p = Some u"
  defines "s2 \<equiv> (if last_wake_timeout_info s = Some p then s\<lparr>last_wake_timeout_info := None\<rparr> else s)"
  shows "full_inv {} (s2\<lparr>ucis := (ucis s2)(p := None)\<rparr>) ts ps"
proof -
  let ?s = "s2\<lparr>ucis := (ucis s2)(p := None)\<rparr>"
  have L: "list_inv {p} s ts ps" and W: "wake_inv {p} s" and P: "\<exists>q. pend_inv {} s q" and r: "0 \<le> registerCalled s"
    using I by (auto simp: full_inv_def)
  have fields: "ucis ?s = (ucis s)(p := None)" "ev ?s = ev s" "readFds ?s = readFds s" "nfds ?s = nfds s"
    "watch_table ?s = watch_table s" "out ?s = out s" "wakelock_count ?s = wakelock_count s"
    "callbacks ?s = callbacks s" "registerCalled ?s = registerCalled s" "requests ?s = requests s"
    "pendingRequests ?s = pendingRequests s" "SIM_COUNT ?s = SIM_COUNT s"
    "last_wake_timeout_info ?s = (if last_wake_timeout_info s = Some p then None else last_wake_timeout_info s)"
    by (simp_all add: s2_def)
  have wf: "wf_lists ?s ts ps = wf_lists s ts ps" by (rule wf_lists_cong) (simp add: fields)
  have ww: "wf_watch ?s = wf_watch s" "watched ?s = watched s" using fields by (simp_all add: wf_watch_def watched_def)
  have "list_inv {} ?s ts ps"
    unfolding list_inv_def wf ww fields using L by (auto simp: list_inv_def)
  moreover have "wake_inv {} ?s"
  proof (rule wake_invI)
    show "last_wake_timeout_info ?s = Some a"
      if "ucis ?s a = Some v" "p_callback v = wakeTimeoutCallback_fn" "userParam v = None" for a v
      using that wake_invD(1) [OF W, of a v] unfolding fields by (auto split: if_splits)
    show "\<exists>v. ucis ?s a = Some v \<and> p_callback v = wakeTimeoutCallback_fn" if "last_wake_timeout_info ?s = Some a" for a
      using that wake_invD(2) [OF W, of a] unfolding fields by (auto split: if_splits)
    show "live {} ?s" if "wake_held (out ?s) \<or> 0 < wakelock_count ?s"
      using wake_invD(3) [OF W] that unfolding live_def fields by (auto split: if_splits)
    show "registerCalled ?s = 0 \<Longrightarrow> version ?s = 0 \<and> \<not> wake_held (out ?s)"
      using wake_invD(7,8) [OF W] unfolding fields by simp
  qed (use wake_invD(4,5,6) [OF W] in \<open>simp_all only: fields\<close>)
  moreover from P obtain q where "pend_inv {} s q" by blast
  then have "pend_inv {} ?s q" by (subst pend_inv_cong [where s = s]) (simp_all only: fields)
  ultimately show ?thesis using r unfolding full_inv_def fields by auto
qed

text \<open>
  The contract of a vendor library, and what it gives: the event loop's contract for the callbacks of
  the daemon.
\<close>

locale vendor_contract =
  fixes vendor :: "addr \<Rightarrow> addr option \<Rightarrow> ril_state \<Rightarrow> ril_state option"
  assumes keeps: "full_inv F s ts ps \<Longrightarrow> \<exists>s' ts'. vendor f x s = Some s' \<and> full_inv F s' ts' ps"
begin

lemma userTimer_total:
  assumes I: "full_inv {} s ts (p # ps)" and r: "removeFromList p s = Some s1" and p: "p \<noteq> wakeupfd_event"
  shows "\<exists>s2 ts2. userTimerCallback vendor (Some p) s1 = Some s2 \<and> full_inv {} s2 ts2 ps"
proof -
  have L: "list_inv {} s ts (p # ps)" and W: "wake_inv {} s" using I by (simp_all add: full_inv_def)
  have wf: "wf_lists s ts (p # ps)" using L by (simp add: list_inv_def)
  note h = fire_head_lists [OF wf r]
  have core: "same_core s s1" by (rule same_payload_core [OF h(2)])
  have d: "p \<notin> set ps" "p \<notin> set ts" using wf by (auto simp: wf_lists_def ring_def)
  have "p \<in> dom (ucis s)" using L p by (simp add: list_inv_def)
  then obtain u where u: "ucis s p = Some u" by blast
  have base: "full_inv {p} s1 ts ps" if "wake_inv {p} s"
    by (rule full_inv_lists [OF I core h(1)])
      (use wf_watch_same [OF h(2)] L d p that in \<open>auto simp: list_inv_def\<close>)
  have u1: "ucis s1 = ucis s" by (rule more_fields(1)) (use core in \<open>simp add: same_core_def\<close>)
  show ?thesis
  proof (cases "p_callback u = wakeTimeoutCallback_fn \<and> userParam u = None")
    case True
    let ?r = "\<lambda>s :: ril_state. s\<lparr>wakelock_count := 0, out := out s @ [ReleaseWakeLock]\<rparr>"
    have W1: "wake_inv {} s1"
      using more_fields [of s1 s] core by (intro wake_inv_cong [OF W]) (simp_all add: same_core_def)
    from wakeTimeout_live [OF W1] have run: "run_callback vendor (p_callback u) (userParam u) s1 = Some (?r s1)"
      using True by (simp add: run_callback_def)
    have "list_inv {p} s1 ts ps"
      by (rule list_inv_move [OF L core h(1)])
        (use wf_watch_same [OF h(2)] L d p in \<open>auto simp: list_inv_def\<close>)
    then have "list_inv {p} (?r s1) ts ps" by (subst list_inv_cong [where s = s1]) simp_all
    moreover have "wake_inv {p} (?r s1)"
    proof (rule wake_invI)
      show "registerCalled (?r s1) = 0 \<Longrightarrow> version (?r s1) = 0 \<and> \<not> wake_held (out (?r s1))"
        using wake_invD(7) [OF W1] by simp
    qed (use wake_invD(1,2) [OF W1] in simp_all)
    moreover from I obtain q where "pend_inv {} s q" by (auto simp: full_inv_def)
    then have "pend_inv {} (?r s1) q"
      using more_fields [of s1 s] core by (subst pend_inv_cong [where s = s]) (simp_all add: same_core_def)
    moreover have "0 \<le> registerCalled (?r s1)"
      using I more_fields [of s1 s] core by (simp add: full_inv_def same_core_def)
    ultimately have "full_inv {p} (?r s1) ts ps" by (auto simp: full_inv_def)
    from drop_fired [OF this, of u] u u1 run show ?thesis
      by (auto simp: userTimerCallback_def Let_def)
  next
    case False
    have "wake_inv {p} s"
    proof (rule wake_invI)
      show "live {p} s" if "wake_held (out s) \<or> 0 < wakelock_count s"
        using wake_invD(3) [OF W that] wake_invD(2) [OF W] False u by (fastforce simp: live_def)
    qed (use wake_invD [OF W] in auto)
    note B = base [OF this]
    have "\<exists>s2 ts2. run_callback vendor (p_callback u) (userParam u) s1 = Some s2 \<and> full_inv {p} s2 ts2 ps"
    proof (cases "p_callback u = wakeTimeoutCallback_fn")
      case True
      then have "run_callback vendor (p_callback u) (userParam u) s1 = Some s1"
        using False by (auto simp: run_callback_def wakeTimeoutCallback_def)
      with B show ?thesis by blast
    next
      case False
      with keeps [OF B] show ?thesis by (simp add: run_callback_def)
    qed
    then obtain s2 ts2 where s2: "run_callback vendor (p_callback u) (userParam u) s1 = Some s2" "full_inv {p} s2 ts2 ps"
      by blast
    have "p \<in> dom (ucis s2)" using s2(2) by (simp add: full_inv_def list_inv_def)
    then obtain u2 where u2: "ucis s2 p = Some u2" by blast
    from drop_fired [OF s2(2) u2] u u1 u2 s2(1) show ?thesis
      by (auto simp: userTimerCallback_def Let_def)
  qed
qed

lemma fire_total:
  assumes I: "full_inv {} s ts (e # ps)" and r: "removeFromList e s = Some s1"
  shows "\<exists>s2 ts2. ril_callback vendor (e_func (ev s1 e)) (e_fd (ev s1 e)) (e_param (ev s1 e)) s1 = Some s2 \<and>
     full_inv {} s2 ts2 ps"
proof -
  have L: "list_inv {} s ts (e # ps)" and W: "wake_inv {} s" using I by (simp_all add: full_inv_def)
  have wf: "wf_lists s ts (e # ps)" using L by (simp add: list_inv_def)
  note h = fire_head_lists [OF wf r]
  have same: "e_func (ev s1 e) = e_func (ev s e)" "e_param (ev s1 e) = e_param (ev s e)"
    using same_payload_fields(9,10) [OF h(2)] by simp_all
  show ?thesis
  proof (cases "e = wakeupfd_event")
    case True
    have "full_inv {} s1 ts ps"
      by (rule full_inv_lists [OF I same_payload_core [OF h(2)] h(1)])
        (use wf_watch_same [OF h(2)] L W True in \<open>auto simp: list_inv_def\<close>)
    then have "full_inv {} (processWakeupCallback s1) ts ps"
      by (simp add: processWakeupCallback_def full_inv_emit is_wake_def)
    moreover have "e_func (ev s1 e) = processWakeupCallback_fn" using L True same by (simp add: list_inv_def)
    ultimately show ?thesis by (auto simp: ril_callback_def)
  next
    case False
    then have "e_func (ev s1 e) = userTimerCallback_fn" "e_param (ev s1 e) = Some e"
      using L same by (auto simp: list_inv_def)
    with userTimer_total [OF I r False] show ?thesis by (simp add: ril_callback_def)
  qed
qed

end

sublocale vendor_contract \<subseteq> loop: event_client "ril_callback vendor" "full_inv {}"
proof
  show "wf_lists s ts ps" if "full_inv {} s ts ps" for s ts ps
    using that by (simp add: full_inv_def list_inv_def)
  show "wf_watch s" if "full_inv {} s ts ps" for s ts ps
    using that by (simp add: full_inv_def list_inv_def)
  show "watched s \<inter> set ts = {}" if "full_inv {} s ts ps" for s ts ps
    using that by (auto simp: full_inv_def list_inv_def)
  show "full_inv {} s' ts1 (ps @ ts2)"
    if "full_inv {} s ts ps" "same_payload s s'" "wf_lists s' ts1 (ps @ ts2)" "set ts = set ts1 \<union> set ts2"
    for s ts ps s' ts1 ts2
    by (rule full_inv_lists [OF that(1) same_payload_core [OF that(2)] that(3)])
      (use wf_watch_same [OF that(2)] that in \<open>auto simp: full_inv_def list_inv_def\<close>)
  show "full_inv {} s' ts (ps @ ws)"
    if "full_inv {} s ts ps" "same_core s s'" "wf_lists s' ts (ps @ ws)" "wf_watch s'"
      "watched s' \<subseteq> watched s" "set ws \<subseteq> watched s" for s ts ps s' ws
    by (rule full_inv_lists [OF that(1,2,3,4,5)])
      (use that in \<open>auto simp: full_inv_def list_inv_def\<close>)
qed (rule fire_total)

text \<open>Every vendor library that keeps to the calls of the interface meets the contract.\<close>

interpretation rild: vendor_contract "vendor_of prog" for prog
  by unfold_locales (unfold vendor_of_def, rule run_calls_total)

end
