(* ===== verification/RilProps.thy ===== *)
theory RilProps
  imports RilDaemon
begin

text \<open>
  The properties of the radio daemon: reachable states, the wake lock, requests, unsolicited
  responses and the event loop with the daemon's callbacks.
\<close>

section \<open>Start of the daemon\<close>

text \<open>Static storage before the event loop starts.\<close>

definition zero_ril :: "nat \<Rightarrow> ril_state" where
  "zero_ril sims = \<lparr>ev = \<lambda>_. zero_event, readFds = {}, nfds = 0, watch_table = replicate MAX_FD_EVENTS None,
     SIM_COUNT = sims, callbacks = \<lparr>rf_version = 0, rf_getVersion = None\<rparr>, registerCalled = 0, started = 0,
     fdWakeupRead = 0, fdWakeupWrite = 0, wakelock_count = 0, requests = \<lambda>_. None,
     pendingRequests = \<lambda>_. None, ucis = \<lambda>_. None, last_wake_timeout_info = None,
     lastNITZTimeData = None, out = []\<rparr>"

lemma eventLoop_start:
  assumes "0 \<le> r"
  shows "full_inv {} (snd (eventLoop (Some (r, w)) en (zero_ril sims))) [] []"
proof -
  let ?s0 = "ril_event_init (zero_ril sims)"
  let ?s1 = "?s0\<lparr>started := 1, fdWakeupRead := r, fdWakeupWrite := w\<rparr>"
  let ?s2 = "ril_event_set wakeupfd_event r True processWakeupCallback_fn None ?s1"
  let ?s3 = "ril_event_add wakeupfd_event ?s2"
  have W1: "watched ?s1 = {}" "wf_watch ?s1" "wf_lists ?s1 [] []"
    using ril_event_init_wf(1,3,4) [where s = "zero_ril sims"]
    by (simp_all add: watched_def wf_watch_def wf_lists_cong [where s = ?s0 and s' = ?s1])
  have e: "wakeupfd_event \<notin> watched ?s1" "wakeupfd_event \<notin> set (timer_list # []) \<union> set (pending_list # [])"
    using W1 by auto
  have W2: "watched ?s2 = {}" "wf_watch ?s2" "wf_lists ?s2 [] []"
    using ril_event_set_watch [OF e(1)] ril_event_set_lists [OF e(2), where s = ?s1] W1 by simp_all
  have tab: "watch_table ?s2 = replicate MAX_FD_EVENTS None"
    by (simp add: ril_event_set_def ril_event_init_def)
  have free: "None \<in> set (watch_table ?s2)" by (simp add: tab MAX_FD_EVENTS_def)
  have fd: "0 \<le> e_fd (ev ?s2 wakeupfd_event)" "e_fd (ev ?s2 wakeupfd_event) \<notin> readFds ?s2"
    using assms by (simp_all add: ril_event_set_def ril_event_init_def init_list_def)
  have nw: "wakeupfd_event \<notin> watched ?s2" using W2(1) by simp
  note W3 = ril_event_add_wf [OF W2(2) free nw wakeupfd_event_neq fd]
  have L3: "wf_lists ?s3 [] []" using links_kept_lists [OF W3(4,5,3)] W2(3) by simp
  note m = more_fields [OF W3(3) [unfolded same_core_def, THEN conjunct1]]
  have f: "e_func (ev ?s3 wakeupfd_event) = processWakeupCallback_fn"
    using W3(3) by (simp add: same_core_def ril_event_set_def)
  have z: "ucis ?s2 = (\<lambda>_. None)" "last_wake_timeout_info ?s2 = None" "wakelock_count ?s2 = 0"
    "rf_version (callbacks ?s2) = 0" "registerCalled ?s2 = 0" "out ?s2 = []" "requests ?s2 = (\<lambda>_. None)"
    "pendingRequests ?s2 = (\<lambda>_. None)"
    by (simp_all add: zero_ril_def ril_event_init_def init_list_def ril_event_set_def)
  have "list_inv {} ?s3 [] []"
    unfolding list_inv_def m z using W3(1,2) W2(1) L3 f by auto
  moreover have "wake_inv {} ?s3" by (rule wake_invI) (simp_all add: m z)
  moreover have "pend_inv {} ?s3 (\<lambda>_. [])"
    by (rule pend_invI) (simp_all add: m z outstanding_def)
  ultimately have "full_inv {} ?s3 [] []" by (auto simp: full_inv_def m z)
  moreover have "snd (eventLoop (Some (r, w)) en (zero_ril sims)) = triggerEvLoop en ?s3"
    by (simp add: eventLoop_def rilEventAddWakeup_def Let_def)
  ultimately show ?thesis by (simp add: triggerEvLoop_def full_inv_emit is_wake_def)
qed

section \<open>Reachable states\<close>

text \<open>
  Between two turns of the event loop, any thread may make a call of the library; a turn fires the
  callbacks.
\<close>

inductive ril_step :: "(addr \<Rightarrow> addr option \<Rightarrow> ril_state \<Rightarrow> api_call list) \<Rightarrow> ril_state \<Rightarrow> ril_state \<Rightarrow> bool"
  for prog where
  call: "call_ok c s \<Longrightarrow> run_call c s = Some s' \<Longrightarrow> ril_step prog s s'"
| turn: "ril_event_loop_body (ril_callback (vendor_of prog)) now1 select now2 s = Some r \<Longrightarrow>
    ril_step prog s (turn_state r)"

inductive reachable :: "(addr \<Rightarrow> addr option \<Rightarrow> ril_state \<Rightarrow> api_call list) \<Rightarrow> ril_state \<Rightarrow> bool" for prog where
  start: "0 \<le> r \<Longrightarrow> reachable prog (snd (eventLoop (Some (r, w)) en (zero_ril sims)))"
| step: "reachable prog s \<Longrightarrow> ril_step prog s s' \<Longrightarrow> reachable prog s'"

inductive_cases ril_stepE: "ril_step prog s s'"

lemma step_inv:
  assumes I: "full_inv {} s ts []" and st: "ril_step prog s s'"
  shows "\<exists>ts'. full_inv {} s' ts' []"
  using st
proof (rule ril_stepE)
  fix c assume "call_ok c s" "run_call c s = Some s'"
  with call_total [OF I, of c] show ?thesis by auto
next
  fix now1 select now2 r
  assume r: "s' = turn_state r" "ril_event_loop_body (ril_callback (vendor_of prog)) now1 select now2 s = Some r"
  from rild.loop.loop_turn_total [OF I, of prog now1 select now2] r show ?thesis by auto
qed

lemma reachable_inv: "reachable prog s \<Longrightarrow> \<exists>ts. full_inv {} s ts []"
proof (induction rule: reachable.induct)
  case (start r w en sims)
  then show ?case using eventLoop_start by blast
next
  case (step s s')
  then show ?case using step_inv by blast
qed

section \<open>Concrete environments and states\<close>

definition env0 :: env where
  "env0 = \<lparr>now = Timeval 5 900000, calloc_at = Some 10, on_loop_thread = True, response_ret = 0,
     calloc_data = True, elapsed = 77\<rparr>"

definition silent :: "addr \<Rightarrow> addr option \<Rightarrow> ril_state \<Rightarrow> api_call list" where
  "silent f x s = []"

definition booted_ril :: ril_state where
  "booted_ril = snd (eventLoop (Some (5, 6)) env0 (zero_ril 1))"

definition vendor13 :: radio_functions where
  "vendor13 = \<lparr>rf_version = 13, rf_getVersion = Some ''huashan''\<rparr>"

lemma booted_reachable: "reachable silent booted_ril"
  unfolding booted_ril_def by (rule reachable.start) simp

lemma booted_fields [simp]:
  "registerCalled booted_ril = 0" "requests booted_ril = (\<lambda>_. None)" "ucis booted_ril = (\<lambda>_. None)"
  "SIM_COUNT booted_ril = 1" "out booted_ril = []" "version booted_ril = 0"
  "last_wake_timeout_info booted_ril = None" "lastNITZTimeData booted_ril = None" "wakelock_count booted_ril = 0"
  by (simp_all add: booted_ril_def eventLoop_def Let_def zero_ril_def ril_event_init_def init_list_def
      ril_event_set_def rilEventAddWakeup_def triggerEvLoop_def env0_def ril_event_add_def split: option.split)

definition registered_ril :: ril_state where
  "registered_ril = emit RegisterService (booted_ril\<lparr>callbacks := vendor13, registerCalled := 1\<rparr>)"

text \<open>
  The self-check of \<open>RIL_register\<close> passes on the tables of the build.
\<close>

lemma self_check:
  "(\<forall>i \<in> set [0..<length s_commands]. int i = requestNumber (s_commands ! i)) \<and>
   (\<forall>i \<in> set [0..<length s_unsolResponses].
      int i + RIL_UNSOL_RESPONSE_BASE = u_requestNumber (s_unsolResponses ! i))"
  by (simp add: requestNumber_nth unsolNumber_nth RIL_UNSOL_RESPONSE_BASE_def)

lemma RIL_register_run:
  "RIL_register (Some cb) s =
     Some (if rf_version cb < RIL_VERSION_MIN \<or> 0 < registerCalled s then s
           else emit RegisterService (s\<lparr>callbacks := cb, registerCalled := 1\<rparr>))"
  unfolding RIL_register_def option.case Let_def if_P [OF self_check] by simp

lemma registered_reachable: "reachable silent registered_ril"
proof -
  have "run_call (ApiRegister (Some vendor13)) booted_ril = Some registered_ril"
    by (simp add: RIL_register_run registered_ril_def vendor13_def RIL_VERSION_MIN_def)
  from reachable.step [OF booted_reachable ril_step.call [OF _ this]] show ?thesis by simp
qed

lemma registered_fields [simp]:
  "registerCalled registered_ril = 1" "requests registered_ril = (\<lambda>_. None)" "ucis registered_ril = (\<lambda>_. None)"
  "SIM_COUNT registered_ril = 1" "version registered_ril = 13" "last_wake_timeout_info registered_ril = None"
  "wakelock_count registered_ril = 0" "lastNITZTimeData registered_ril = None" "out registered_ril = [RegisterService]"
  by (simp_all add: registered_ril_def vendor13_def)

lemma calloc_env0 [simp]: "calloc env0 registered_ril = Some 10"
  by (simp add: calloc_def env0_def timer_list_def pending_list_def wakeupfd_event_def)

text \<open>An unsolicited response that wakes, from version 13 on and with memory.\<close>

lemma unsol_v13:
  assumes L: "list_inv F s ts ps" and W: "wake_inv F s" and reg: "registerCalled s \<noteq> 0"
    and v: "13 \<le> version s" and c: "calloc en s = Some p" and code: "1000 \<le> code" "code \<le> 1050"
    and w: "wakeType (s_unsolResponses ! nat (code - 1000)) = WAKE_PARTIAL"
    and n: "code \<noteq> RIL_UNSOL_NITZ_TIME_RECEIVED \<or> response_ret en = 0 \<or> calloc_data en"
  shows "\<exists>s'. RIL_onUnsolicitedResponse en code data sock s = Some s' \<and> wake_held (out s') \<and>
     wakelock_count s' = wakelock_count s + 1 \<and> last_wake_timeout_info s' = Some p \<and>
     tmo s' p = timeradd (now en) TIMEVAL_WAKE_TIMEOUT \<and> dom (ucis s') = insert p (dom (ucis s)) \<and>
     ucis s' p = Some \<lparr>p_callback = wakeTimeoutCallback_fn, userParam = None\<rparr> \<and>
     lastNITZTimeData s' =
       (if code = RIL_UNSOL_NITZ_TIME_RECEIVED \<and> response_ret en \<noteq> 0
        then Some (case data of None \<Rightarrow> [] | Some bs \<Rightarrow> bs) else lastNITZTimeData s)"
proof -
  let ?i = "s_unsolResponses ! nat (code - 1000)"
  let ?soc = "if 2 \<le> SIM_COUNT s then sock else 0"
  from grab_alloc [OF L W reg v c] obtain s1 ts1 where
    L1: "list_inv F s1 ts1 ps" "set ts1 = insert p (set ts)" and
    s1: "grabPartialWakeLock en s = Some s1" "req_frame s s1" "lastNITZTimeData s1 = lastNITZTimeData s"
      "wake_held (out s1)" "wakelock_count s1 = wakelock_count s + 1" "last_wake_timeout_info s1 = Some p"
      "tmo s1 p = timeradd (now en) TIMEVAL_WAKE_TIMEOUT"
      "ucis s1 p = Some \<lparr>p_callback = wakeTimeoutCallback_fn, userParam = None\<rparr>"
    by blast
  have D1: "dom (ucis s1) = insert p (dom (ucis s))"
    using L L1 calloc_Some [OF c] by (auto simp: list_inv_def)
  define ty where "ty = (if 13 \<le> version s \<and> True then RESPONSE_UNSOLICITED_ACK_EXP else RESPONSE_UNSOLICITED)"
  define s2 where "s2 = (if code = RIL_UNSOL_NITZ_TIME_RECEIVED then emit (SetNitzTimeReceived ?soc (elapsed en)) s1 else s1)"
  define s3 where "s3 = (case u_responseFunction ?i of None \<Rightarrow> s2
      | Some f \<Rightarrow> emit (Respond f ?soc ty 0 RIL_E_SUCCESS data) s2)"
  have f3: "callbacks s3 = callbacks s" "lastNITZTimeData s3 = lastNITZTimeData s" "wake_held (out s3)"
    "wakelock_count s3 = wakelock_count s + 1" "last_wake_timeout_info s3 = Some p"
    "ev s3 = ev s1" "ucis s3 = ucis s1"
    using s1 by (simp_all add: s3_def s2_def req_frame_def split: option.split)
  have t: "unsol_timeout en True s3 = Some (True, s3)" using v f3(1) by (simp add: unsol_timeout_def)
  have k: "fst (keep_nitz en code data s3)" using n by (auto simp: keep_nitz_def Let_def)
  have idx: "code - RIL_UNSOL_RESPONSE_BASE = code - 1000" by (simp add: RIL_UNSOL_RESPONSE_BASE_def)
  have cnd: "(registerCalled s = 0) = False"
    "(code - 1000 < 0 \<or> int (length s_unsolResponses) \<le> code - 1000) = False"
    "(wakeType ?i = WAKE_PARTIAL) = True"
    using reg code w by (simp_all add: length_s_unsolResponses)
  have "RIL_onUnsolicitedResponse en code data sock s =
      (let (kept, s5) = keep_nitz en code data s3 in if kept then Some s5 else releaseWakeLock s5)"
    unfolding RIL_onUnsolicitedResponse_def Let_def idx cnd if_False if_True ty_def [symmetric]
      s1(1) Option.bind.bind_lunit s2_def [symmetric] s3_def [symmetric] t prod.case ..
  then have "RIL_onUnsolicitedResponse en code data sock s = Some (snd (keep_nitz en code data s3))"
    using k by (simp add: split_def)
  then show ?thesis using n f3 s1 D1
    by (auto simp: keep_nitz_def Let_def)
qed

lemma full_invD:
  "full_inv F s ts ps \<Longrightarrow> list_inv F s ts ps" "full_inv F s ts ps \<Longrightarrow> wake_inv F s"
  "full_inv F s ts ps \<Longrightarrow> \<exists>q. pend_inv {} s q"
  by (simp_all add: full_inv_def)

text \<open>A reachable state in which the wake lock is held.\<close>

lemma awake_reachable:
  "\<exists>s. reachable silent s \<and> wake_held (out s) \<and> wakelock_count s = 1 \<and> registerCalled s = 1 \<and>
     version s = 13 \<and> SIM_COUNT s = 1 \<and> requests s = (\<lambda>_. None) \<and> last_wake_timeout_info s = Some 10 \<and>
     tmo s 10 = Timeval 6 100000 \<and> dom (ucis s) = {10} \<and>
     ucis s 10 = Some \<lparr>p_callback = wakeTimeoutCallback_fn, userParam = None\<rparr>"
proof -
  from reachable_inv [OF registered_reachable] obtain ts where I: "full_inv {} registered_ril ts []" by blast
  have w: "wakeType (s_unsolResponses ! nat (1000 - 1000)) = WAKE_PARTIAL"
    by (simp add: s_unsolResponses_def unsol_def)
  have "\<exists>s'. RIL_onUnsolicitedResponse env0 1000 None 0 registered_ril = Some s' \<and> wake_held (out s') \<and>
     wakelock_count s' = wakelock_count registered_ril + 1 \<and> last_wake_timeout_info s' = Some 10 \<and>
     tmo s' 10 = timeradd (now env0) TIMEVAL_WAKE_TIMEOUT \<and> dom (ucis s') = insert 10 (dom (ucis registered_ril)) \<and>
     ucis s' 10 = Some \<lparr>p_callback = wakeTimeoutCallback_fn, userParam = None\<rparr> \<and>
     lastNITZTimeData s' =
       (if (1000::int) = RIL_UNSOL_NITZ_TIME_RECEIVED \<and> response_ret env0 \<noteq> 0
        then Some (case None of None \<Rightarrow> [] | Some bs \<Rightarrow> bs) else lastNITZTimeData registered_ril)"
    by (rule unsol_v13 [OF full_invD(1,2) [OF I] _ _ calloc_env0 _ _ w]) (simp_all add: env0_def)
  then obtain s where s: "RIL_onUnsolicitedResponse env0 1000 None 0 registered_ril = Some s" "wake_held (out s)"
    "wakelock_count s = 1" "last_wake_timeout_info s = Some 10" "tmo s 10 = timeradd (now env0) TIMEVAL_WAKE_TIMEOUT"
    "dom (ucis s) = {10}" "ucis s 10 = Some \<lparr>p_callback = wakeTimeoutCallback_fn, userParam = None\<rparr>"
    by auto
  from unsol_total [OF full_invD(1,2) [OF I], of env0 1000 None 0] s(1)
  have f: "requests s = requests registered_ril" "SIM_COUNT s = SIM_COUNT registered_ril"
    "callbacks s = callbacks registered_ril" "registerCalled s = registerCalled registered_ril" by auto
  have "reachable silent s"
    by (rule reachable.step [OF registered_reachable ril_step.call [of "ApiUnsol env0 1000 None 0"]]) (simp_all add: s(1))
  with s f show ?thesis
    by (intro exI [of _ s]) (simp add: timeradd_def TIMEVAL_WAKE_TIMEOUT_def env0_def)
qed

text \<open>Its wake timer moved to the pending list by \<open>processTimeouts\<close>.\<close>

lemma expired_awake:
  "\<exists>s. full_inv {} s [] [10] \<and> wake_held (out s) \<and>
     ucis s 10 = Some \<lparr>p_callback = wakeTimeoutCallback_fn, userParam = None\<rparr>"
proof -
  from awake_reachable obtain s where s: "reachable silent s" "wake_held (out s)" "tmo s 10 = Timeval 6 100000"
    "dom (ucis s) = {10}" "ucis s 10 = Some \<lparr>p_callback = wakeTimeoutCallback_fn, userParam = None\<rparr>" by blast
  from reachable_inv [OF s(1)] obtain ts where I: "full_inv {} s ts []" by blast
  have wf: "wf_lists s ts []" and "set ts = {10}"
    using full_invD(1) [OF I] s(4) by (auto simp: list_inv_def)
  moreover have "distinct ts" using wf by (auto simp: wf_lists_def ring_def)
  ultimately have ts: "ts = [10]"
    by (cases ts) (auto simp: subset_singleton_iff)
  let ?now = "Timeval 7 0"
  from processTimeouts_lists [OF wf, of ?now] obtain s1 where
    s1: "wf_lists s1 (filter (\<lambda>y. \<not> tmo s y < ?now) ts) ([] @ filter (\<lambda>y. tmo s y < ?now) ts)" "same_payload s s1"
    by metis
  have eq: "filter (\<lambda>y. \<not> tmo s y < ?now) ts = []" "filter (\<lambda>y. tmo s y < ?now) ts = [10]"
    using s(3) by (simp_all add: ts less_timeval_def)
  have "full_inv {} s1 [] ([] @ [10])"
    by (rule rild.loop.J_move [OF I s1(2)]) (use s1(1) eq ts in simp_all)
  moreover have "out s1 = out s" "ucis s1 = ucis s"
    using more_fields [OF same_payload_fields(4) [OF s1(2)]] by simp_all
  ultimately show ?thesis using s(2,5) by auto
qed

section \<open>The event loop with the daemon's callbacks\<close>

text \<open>
  C1. In every reachable state a turn of the event loop ends, whatever \<open>select\<close> reports and whatever
  calls the vendor's timer callbacks make: no NULL or freed pointer is followed, the pending list is
  empty again, and the allocated \<open>UserCallbackInfo\<close> structures are exactly the timers on the timer
  list.
\<close>

theorem daemon_turn_total:
  assumes "reachable prog s"
  shows "\<exists>r ts. ril_event_loop_body (ril_callback (vendor_of prog)) now1 select now2 s = Some r \<and>
    wf_lists (turn_state r) ts [] \<and> dom (ucis (turn_state r)) = set ts"
proof -
  from reachable_inv [OF assms] obtain ts where "full_inv {} s ts []" by blast
  from rild.loop.loop_turn_total [OF this, of prog now1 select now2] obtain r ts' where
    r: "ril_event_loop_body (ril_callback (vendor_of prog)) now1 select now2 s = Some r"
      "full_inv {} (turn_state r) ts' []" by blast
  then have "wf_lists (turn_state r) ts' []" "dom (ucis (turn_state r)) = set ts'"
    by (simp_all add: full_inv_def list_inv_def)
  with r(1) show ?thesis by blast
qed

theorem daemon_turn_total_witness:
  "\<exists>r ts. ril_event_loop_body (ril_callback (vendor_of silent)) (Timeval 5 0)
      (\<lambda>n fds tv. Ready 1 {5}) (Timeval 7 0) registered_ril = Some r \<and>
    wf_lists (turn_state r) ts [] \<and> dom (ucis (turn_state r)) = set ts"
  by (rule daemon_turn_total [OF registered_reachable])

section \<open>The wake lock\<close>

text \<open>
  C2. The wake lock never leaks: in every reachable state in which it is held, a wake timer that is
  not cancelled is on the timer list, and it is the one the daemon remembers.
\<close>

theorem wake_lock_never_leaks:
  assumes "reachable prog s" and "wake_held (out s)"
  shows "\<exists>ts p u. wf_lists s ts [] \<and> p \<in> set ts \<and> last_wake_timeout_info s = Some p \<and> ucis s p = Some u \<and>
    p_callback u = wakeTimeoutCallback_fn \<and> userParam u = None"
proof -
  from reachable_inv [OF assms(1)] obtain ts where I: "full_inv {} s ts []" by blast
  note W = full_invD(2) [OF I] and L = full_invD(1) [OF I]
  from wake_invD(3) [OF W] assms(2) have "live {} s" by simp
  then obtain p u where p: "last_wake_timeout_info s = Some p" "ucis s p = Some u" "userParam u = None"
    by (auto simp: live_def)
  from wake_invD(2) [OF W p(1)] p(2) have "p_callback u = wakeTimeoutCallback_fn" by auto
  moreover have "p \<in> dom (ucis s)" using p(2) by blast
  then have "p \<in> set ts" using L by (simp add: list_inv_def)
  moreover have "wf_lists s ts []" using L by (simp add: list_inv_def)
  ultimately show ?thesis using p by blast
qed

theorem wake_lock_never_leaks_witness:
  "\<exists>s ts p u. reachable silent s \<and> wake_held (out s) \<and> wf_lists s ts [] \<and> p \<in> set ts \<and>
    last_wake_timeout_info s = Some p \<and> ucis s p = Some u \<and>
    p_callback u = wakeTimeoutCallback_fn \<and> userParam u = None"
proof -
  from awake_reachable obtain s where s: "reachable silent s" "wake_held (out s)" by blast
  from wake_lock_never_leaks [OF this] s show ?thesis by blast
qed

text \<open>
  At most one wake timer is not cancelled, so an expired wake timer cannot release a lock that a
  later response took with a timer of its own.
\<close>

theorem one_live_wake_timer:
  assumes "reachable prog s"
    and "ucis s p = Some u" "p_callback u = wakeTimeoutCallback_fn" "userParam u = None"
    and "ucis s q = Some v" "p_callback v = wakeTimeoutCallback_fn" "userParam v = None"
  shows "p = q"
proof -
  from reachable_inv [OF assms(1)] obtain ts where "full_inv {} s ts []" by blast
  note W = full_invD(2) [OF this]
  from wake_invD(1) [OF W assms(2-4)] wake_invD(1) [OF W assms(5-7)] show ?thesis by simp
qed

theorem one_live_wake_timer_witness:
  "\<exists>s p. reachable silent s \<and>
     {q. \<exists>v. ucis s q = Some v \<and> p_callback v = wakeTimeoutCallback_fn \<and> userParam v = None} = {p}"
proof -
  from awake_reachable obtain s where s: "reachable silent s" "wake_held (out s)" by blast
  from reachable_inv [OF s(1)] obtain ts where "full_inv {} s ts []" by blast
  note W = full_invD(2) [OF this]
  from wake_invD(3) [OF W] s(2) obtain p u where p: "last_wake_timeout_info s = Some p" "ucis s p = Some u"
    "userParam u = None" by (auto simp: live_def)
  with wake_invD(2) [OF W p(1)] have cb: "p_callback u = wakeTimeoutCallback_fn" by auto
  have "q = p" if "ucis s q = Some v" "p_callback v = wakeTimeoutCallback_fn" "userParam v = None" for q v
    by (rule one_live_wake_timer [OF s(1) that p(2) cb p(3)])
  moreover have "\<exists>v. ucis s p = Some v \<and> p_callback v = wakeTimeoutCallback_fn \<and> userParam v = None"
    using p cb by blast
  ultimately have "{q. \<exists>v. ucis s q = Some v \<and> p_callback v = wakeTimeoutCallback_fn \<and> userParam v = None} = {p}"
    by blast
  with s(1) show ?thesis by blast
qed

text \<open>
  C14. When the live wake timer fires, the wake lock is released, the count of holders is reset, and
  the timer is freed and forgotten, whatever the version of the vendor library.
\<close>

theorem live_timer_releases:
  assumes I: "full_inv {} s ts (p # ps)" and r: "removeFromList p s = Some s1"
    and u: "ucis s p = Some u" "p_callback u = wakeTimeoutCallback_fn" "userParam u = None"
  shows "\<exists>s2. userTimerCallback vendor (Some p) s1 = Some s2 \<and> \<not> wake_held (out s2) \<and>
    wakelock_count s2 = 0 \<and> ucis s2 p = None \<and> last_wake_timeout_info s2 = None"
proof -
  have wf: "wf_lists s ts (p # ps)" using full_invD(1) [OF I] by (simp add: list_inv_def)
  note h = fire_head_lists [OF wf r]
  note m = more_fields [OF same_payload_fields(4) [OF h(2)]]
  have W1: "wake_inv {} s1" by (rule wake_inv_cong [OF full_invD(2) [OF I]]) (simp_all add: m)
  have last: "last_wake_timeout_info s1 = Some p" using wake_invD(1) [OF W1, of p u] u m by simp
  let ?s2 = "s1\<lparr>wakelock_count := 0, out := out s1 @ [ReleaseWakeLock]\<rparr>"
  have run: "run_callback vendor (p_callback u) (userParam u) s1 = Some ?s2"
    using wakeTimeout_live [OF W1] u by (auto simp: run_callback_def)
  show ?thesis
    using run u last m by (simp add: userTimerCallback_def Let_def)
qed

theorem live_timer_releases_witness:
  "\<exists>s s1 s2 p. removeFromList p s = Some s1 \<and> wake_held (out s) \<and>
    userTimerCallback (vendor_of silent) (Some p) s1 = Some s2 \<and> \<not> wake_held (out s2) \<and> ucis s2 p = None"
proof -
  obtain s' where s': "full_inv {} s' [] [10]"
    "ucis s' 10 = Some \<lparr>p_callback = wakeTimeoutCallback_fn, userParam = None\<rparr>" "wake_held (out s')"
    using expired_awake by blast
  have wf: "wf_lists s' [] [10]" using full_invD(1) [OF s'(1)] by (simp add: list_inv_def)
  then have "ring s' pending_list (10 # [])" by (simp add: wf_lists_def)
  from removeFromList_head [OF this] obtain s1 where s1: "removeFromList 10 s' = Some s1" by blast
  from live_timer_releases [OF s'(1) s1 s'(2), of "vendor_of silent"] s1 s'(3) show ?thesis by auto
qed

text \<open>
  \<open>RIL_onUnsolicitedResponse\<close> from version 13 on, for a code that wakes and with memory: the
  wake lock is held, one more holder is counted, and the timer that will release it is due 200 ms
  later.
\<close>

theorem unsolicited_takes_lock:
  assumes "reachable prog s" "registerCalled s \<noteq> 0" "13 \<le> version s" "calloc en s = Some p"
    and "1000 \<le> code" "code \<le> 1050" "wakeType (s_unsolResponses ! nat (code - 1000)) = WAKE_PARTIAL"
    and "code \<noteq> RIL_UNSOL_NITZ_TIME_RECEIVED \<or> response_ret en = 0 \<or> calloc_data en"
  shows "\<exists>s'. RIL_onUnsolicitedResponse en code data sock s = Some s' \<and> wake_held (out s') \<and>
    wakelock_count s' = wakelock_count s + 1 \<and> last_wake_timeout_info s' = Some p \<and>
    tmo s' p = timeradd (now en) (Timeval 0 200000)"
proof -
  from reachable_inv [OF assms(1)] obtain ts where "full_inv {} s ts []" by blast
  from unsol_v13 [OF full_invD(1,2) [OF this] assms(2-8), of data sock] show ?thesis
    by (auto simp: TIMEVAL_WAKE_TIMEOUT_def)
qed

theorem unsolicited_takes_lock_witness:
  "\<exists>s'. RIL_onUnsolicitedResponse env0 1018 (Some [1]) 0 registered_ril = Some s' \<and> wake_held (out s') \<and>
    wakelock_count s' = wakelock_count registered_ril + 1 \<and> last_wake_timeout_info s' = Some 10 \<and>
    tmo s' 10 = timeradd (now env0) (Timeval 0 200000)"
proof (rule unsolicited_takes_lock [OF registered_reachable])
  show "wakeType (s_unsolResponses ! nat (1018 - 1000)) = WAKE_PARTIAL"
    by (simp add: s_unsolResponses_def unsol_def)
qed (simp_all add: RIL_UNSOL_NITZ_TIME_RECEIVED_def)

text \<open>
  When \<open>calloc\<close> fails, \<open>grabPartialWakeLock\<close> releases the wake lock although earlier holders
  are still counted: the lock is shared, so they lose it before their timeout.
\<close>

theorem grab_without_memory_drops_lock:
  assumes "13 \<le> version s" "calloc en s = None" "wake_held (out s)"
  shows "\<exists>s'. grabPartialWakeLock en s = Some s' \<and> \<not> wake_held (out s') \<and>
    wakelock_count s' = wakelock_count s"
  using grab_no_memory [OF assms(1,2)] by (simp add: wake_held_def is_wake_def)

theorem grab_without_memory_drops_lock_witness:
  "\<exists>s s'. reachable silent s \<and> wake_held (out s) \<and> 0 < wakelock_count s \<and>
    grabPartialWakeLock (env0\<lparr>calloc_at := None\<rparr>) s = Some s' \<and> \<not> wake_held (out s') \<and> 0 < wakelock_count s'"
proof -
  from awake_reachable obtain s where s: "reachable silent s" "wake_held (out s)" "wakelock_count s = 1"
    "version s = 13" by blast
  have "calloc (env0\<lparr>calloc_at := None\<rparr>) s = None" by (simp add: calloc_def)
  from grab_without_memory_drops_lock [OF _ this s(2)] s show ?thesis by auto
qed

text \<open>
  \<open>releaseWakeLock\<close> gives back one hold: the lock is released exactly when the last one is given
  back, and the count never becomes negative.
\<close>

theorem release_counts_down:
  assumes "reachable prog s"
  shows "\<exists>s'. releaseWakeLock s = Some s' \<and> wakelock_count s' = max 0 (wakelock_count s - 1) \<and>
    wake_held (out s') = (1 < wakelock_count s \<and> wake_held (out s))"
proof -
  from reachable_inv [OF assms] obtain ts where I: "full_inv {} s ts []" by blast
  note W = full_invD(2) [OF I]
  from release_total [OF full_invD(1) [OF I] wake_inv_core [OF W] W] obtain s' where
    "releaseWakeLock s = Some s'"
    "wakelock_count s \<le> 1 \<longrightarrow> \<not> wake_held (out s') \<and> wakelock_count s' = 0"
    "1 < wakelock_count s \<longrightarrow> wake_held (out s') = wake_held (out s) \<and> wakelock_count s' = wakelock_count s - 1"
    by blast
  then show ?thesis by (cases "1 < wakelock_count s") auto
qed

theorem release_counts_down_witness:
  "\<exists>s s'. reachable silent s \<and> wake_held (out s) \<and> wakelock_count s = 1 \<and>
    releaseWakeLock s = Some s' \<and> wakelock_count s' = 0 \<and> \<not> wake_held (out s')"
proof -
  from awake_reachable obtain s where s: "reachable silent s" "wake_held (out s)" "wakelock_count s = 1" by blast
  from release_counts_down [OF s(1)] s show ?thesis by auto
qed

section \<open>Requests\<close>

text \<open>
  C3. A pending request is completed exactly once. Completing it ends without an error, frees its
  structure and sends the response its table row names, once, with the token and the socket it was
  entered with; it asks for an acknowledgement exactly when the vendor library acknowledged the
  request before and speaks version 13. With one SIM a second completion of the same token is
  ignored.
\<close>

theorem request_completed_once:
  assumes "reachable prog s" "requests s p = Some r" "responseFunction (s_commands ! nat (pCI r)) = Some f"
  shows "\<exists>s'. RIL_onRequestComplete en (Some p) e response s = Some s' \<and> requests s' p = None \<and>
    filter is_response (out s') = filter is_response (out s) @
      (if local_cmd r > 0 \<or> cancelled r \<noteq> 0 then []
       else [Respond f (socket_id r)
               (if 13 \<le> version s \<and> wasAckSent r = 1 then RESPONSE_SOLICITED_ACK_EXP else RESPONSE_SOLICITED)
               (token r) e response]) \<and>
    (SIM_COUNT s < 2 \<longrightarrow> RIL_onRequestComplete en' (Some p) e' response' s' = Some s')"
proof -
  from reachable_inv [OF assms(1)] obtain ts where I: "full_inv {} s ts []" by blast
  from full_invD(3) [OF I] obtain q where q: "pend_inv {} s q" by blast
  have p: "p \<in> outstanding q" using pend_invD(3) [OF q] assms(2) by auto
  from complete_total [OF full_invD(1,2) [OF I] q p assms(2,3)] obtain s' h where
    s': "RIL_onRequestComplete en (Some p) e response s = Some s'"
      "pend_inv {} s' (q(h := remove1 p (q h)))" "outstanding (q(h := remove1 p (q h))) = outstanding q - {p}"
      "requests s' p = None" "filter is_response (out s') = filter is_response (out s) @ completion s r f e response"
      "SIM_COUNT s' = SIM_COUNT s"
    by blast
  have "RIL_onRequestComplete en' (Some p) e' response' s' = Some s'" if "SIM_COUNT s < 2"
    by (rule complete_stale(1) [OF s'(2)]) (use that s'(3,6) in auto)
  with s' show ?thesis by (auto simp: completion_def)
qed

text \<open>A reachable state with one pending request, DIAL for token 7.\<close>

lemma dial_responder: "responseFunction (s_commands ! nat 10) = Some ''dialResponse''"
  by (simp add: s_commands_def cmd_def)

lemma pending_dial:
  "\<exists>s r. reachable silent s \<and> requests s 10 = Some r \<and> pCI r = 10 \<and> token r = 7 \<and> socket_id r = 0 \<and>
     wasAckSent r = 0 \<and> cancelled r = 0 \<and> local_cmd r = 0 \<and> version s = 13 \<and> SIM_COUNT s = 1 \<and>
     registerCalled s = 1 \<and> ucis s = (\<lambda>_. None) \<and> out s = [RegisterService] \<and>
     addRequestToList env0 7 0 10 registered_ril = Some (Some 10, s)"
proof -
  from reachable_inv [OF registered_reachable] obtain ts where I: "full_inv {} registered_ril ts []" by blast
  from full_invD(3) [OF I] obtain q where q: "pend_inv {} registered_ril q" by blast
  have n: "(0::int) \<le> 10" "10 < int (length s_commands)" by (simp_all add: length_s_commands)
  from addRequest_ok [OF q calloc_env0 n refl, of 7 0] obtain s where
    s: "addRequestToList env0 7 0 10 registered_ril = Some (Some 10, s)" and
    eq: "s = registered_ril\<lparr>requests := (requests registered_ril)(10 \<mapsto> \<lparr>token = 7, pCI = 10,
             p_next = pendingRequests registered_ril (pendingRequestsHook (SIM_COUNT registered_ril) 0),
             cancelled = 0, local_cmd = 0, socket_id = 0, wasAckSent = 0\<rparr>),
            pendingRequests := (pendingRequests registered_ril)(pendingRequestsHook (SIM_COUNT registered_ril) 0 := Some 10)\<rparr>"
    by blast
  have "run_call (ApiAdd env0 7 0 10) registered_ril = Some s" by (simp add: s)
  then have "reachable silent s"
    by (rule reachable.step [OF registered_reachable ril_step.call [rotated]]) simp
  with s show ?thesis by (intro exI [of _ s]) (simp add: eq)
qed

theorem request_completed_once_witness:
  "\<exists>s s'. reachable silent s \<and> RIL_onRequestComplete env0 (Some 10) 0 None s = Some s' \<and> requests s' 10 = None \<and>
    filter is_response (out s') = [Respond ''dialResponse'' 0 RESPONSE_SOLICITED 7 0 None] \<and>
    RIL_onRequestComplete env0 (Some 10) 2 None s' = Some s'"
proof -
  from pending_dial obtain s r where s: "reachable silent s" "requests s 10 = Some r" "pCI r = 10" "token r = 7"
    "socket_id r = 0" "wasAckSent r = 0" "cancelled r = 0" "local_cmd r = 0" "SIM_COUNT s = 1" "out s = [RegisterService]"
    by blast
  have "responseFunction (s_commands ! nat (pCI r)) = Some ''dialResponse''" using dial_responder s(3) by simp
  from request_completed_once [OF s(1,2) this, of env0 0 None env0 2 None] s show ?thesis by auto
qed

text \<open>
  A completion after an acknowledgement: from version 13 on it takes the wake lock (when there is
  memory for its timer) and marks the response \<open>RESPONSE_SOLICITED_ACK_EXP\<close>.
\<close>

theorem acknowledged_completion_wakes:
  assumes "reachable prog s" "requests s p = Some r" "responseFunction (s_commands ! nat (pCI r)) = Some f"
    and "13 \<le> version s" "cancelled r = 0" "local_cmd r = 0" "calloc en s = Some t"
  shows "\<exists>s1 s2. RIL_onRequestAck (Some p) s = Some s1 \<and>
    out s1 = out s @ [AcknowledgeRequest (socket_id r) (token r)] \<and>
    RIL_onRequestComplete en (Some p) e response s1 = Some s2 \<and> wake_held (out s2) \<and>
    wakelock_count s2 = wakelock_count s + 1 \<and>
    last (out s2) = Respond f (socket_id r) RESPONSE_SOLICITED_ACK_EXP (token r) e response"
proof -
  from reachable_inv [OF assms(1)] obtain ts where I: "full_inv {} s ts []" by blast
  from full_invD(3) [OF I] obtain q where q: "pend_inv {} s q" by blast
  have p: "p \<in> outstanding q" using pend_invD(3) [OF q] assms(2) by auto
  from ack_total [OF q p assms(2)] obtain s1 where
    s1: "RIL_onRequestAck (Some p) s = Some s1" "pend_inv {} s1 q"
      "requests s1 = (requests s)(p \<mapsto> r\<lparr>wasAckSent := 1\<rparr>)" and
    eq: "s1 = s\<lparr>requests := requests s1, pendingRequests := pendingRequests s,
            out := out s @ (if cancelled r = 0 then [AcknowledgeRequest (socket_id r) (token r)] else [])\<rparr>"
    by blast
  have o1: "out s1 = out s @ [AcknowledgeRequest (socket_id r) (token r)]" by (subst eq) (simp add: assms)
  have f1: "callbacks s1 = callbacks s" "wakelock_count s1 = wakelock_count s" "ucis s1 = ucis s"
    "registerCalled s1 = registerCalled s"
    by (subst eq, simp)+
  have "\<exists>s'. RIL_onRequestAck (Some p) s = Some s' \<and> full_inv {} s' ts []"
    by (rule ack_keeps [OF I]) (simp add: assms(2))
  then have I1: "full_inv {} s1 ts []" using s1(1) by simp
  let ?r = "r\<lparr>wasAckSent := 1\<rparr>"
  have r1: "requests s1 p = Some ?r" using s1(3) by simp
  from dequeue_ok [OF s1(2) p r1 refl] obtain s2 q' where
    s2: "checkAndDequeueRequestInfoIfAck (Some p) False s1 = Some (True, s2)" "requests s2 p = Some ?r"
      "pend_inv {p} s2 q'" "dom (requests s2) = dom (requests s1)" and
    eq2: "s2 = s1\<lparr>requests := requests s2, pendingRequests := pendingRequests s2\<rparr>" by blast
  have f2: "callbacks s2 = callbacks s" "wakelock_count s2 = wakelock_count s" "registerCalled s2 = registerCalled s"
    "ucis s2 = ucis s" using f1 by (subst eq2, simp)+
  have L2: "list_inv {} s2 ts []" and W2: "wake_inv {} s2"
    using full_invD(1,2) [OF I1] by (simp_all only: inv_requests [OF eq2])
  have "registerCalled s \<noteq> 0" using wake_invD(7) [OF full_invD(2) [OF I]] assms(4) by auto
  then have reg: "registerCalled s2 \<noteq> 0" using f2 by simp
  note ct = calloc_Some [OF assms(7)]
  have "t \<noteq> p" "t \<notin> dom (requests s)" using ct assms(2) by auto
  then have "t \<notin> dom (requests s2)" using s2(4) s1(3) by simp
  then have "requests s2 t = None" "t \<notin> {timer_list, pending_list, wakeupfd_event}" "ucis s2 t = None" "calloc_at en = Some t"
    using ct f2 by (simp_all add: domIff)
  then have c2: "calloc en s2 = Some t" by (simp add: calloc_def)
  from grab_alloc [OF L2 W2 reg _ c2] assms(4) f2 obtain s3 where
    s3: "grabPartialWakeLock en s2 = Some s3" "req_frame s2 s3" "wake_held (out s3)"
      "wakelock_count s3 = wakelock_count s + 1" by auto
  let ?s4 = "emit (Respond f (socket_id r) RESPONSE_SOLICITED_ACK_EXP (token r) e response) s3"
  let ?s5 = "?s4\<lparr>requests := (requests s3)(p := None)\<rparr>"
  have "requests ?s4 p = Some ?r" using s2(2) s3(2) by (simp add: req_frame_def)
  then have "free_request p ?s4 = Some ?s5" by (simp add: free_request_def)
  then have "RIL_onRequestComplete en (Some p) e response s1 = Some ?s5"
    using s2(1,2) s3(1) assms f2 by (simp add: RIL_onRequestComplete_def Let_def)
  with s1(1) o1 s3 show ?thesis by auto
qed

theorem acknowledged_completion_wakes_witness:
  "\<exists>s s1 s2. reachable silent s \<and> RIL_onRequestAck (Some 10) s = Some s1 \<and>
    out s1 = [RegisterService, AcknowledgeRequest 0 7] \<and>
    RIL_onRequestComplete (env0\<lparr>calloc_at := Some 11\<rparr>) (Some 10) 0 None s1 = Some s2 \<and> wake_held (out s2) \<and>
    last (out s2) = Respond ''dialResponse'' 0 RESPONSE_SOLICITED_ACK_EXP 7 0 None"
proof -
  from pending_dial obtain s r where s: "reachable silent s" "requests s 10 = Some r" "pCI r = 10" "token r = 7"
    "socket_id r = 0" "cancelled r = 0" "local_cmd r = 0" "version s = 13" "out s = [RegisterService]"
    "ucis s = (\<lambda>_. None)" and
    add: "addRequestToList env0 7 0 10 registered_ril = Some (Some 10, s)"
    by blast
  have f: "responseFunction (s_commands ! nat (pCI r)) = Some ''dialResponse''" using dial_responder s(3) by simp
  have "requests s 11 = None"
    using add by (auto simp: addRequestToList_def length_s_commands Let_def)
  then have c: "calloc (env0\<lparr>calloc_at := Some 11\<rparr>) s = Some 11"
    using s(10) by (simp add: calloc_def timer_list_def pending_list_def wakeupfd_event_def)
  from acknowledged_completion_wakes [OF s(1,2) f _ s(6,7) c, of 0 None] s show ?thesis by auto
qed

text \<open>
  \<open>addRequestToList\<close> enters a fresh token with the serial number and the socket of the caller;
  requests beyond the command table are refused without a change, and so are all when memory is out.
\<close>

theorem request_entered:
  assumes "reachable prog s" "0 \<le> request"
  shows "\<exists>t s'. addRequestToList en serial slot request s = Some (t, s') \<and>
    (if 145 < request \<or> calloc en s = None then t = None \<and> s' = s
     else \<exists>p r. t = Some p \<and> calloc en s = Some p \<and> requests s p = None \<and> requests s' = (requests s)(p \<mapsto> r) \<and>
       token r = serial \<and> socket_id r = slot \<and> pCI r = request \<and> wasAckSent r = 0)"
proof -
  from reachable_inv [OF assms(1)] obtain ts where I: "full_inv {} s ts []" by blast
  from full_invD(3) [OF I] obtain q where q: "pend_inv {} s q" by blast
  show ?thesis
  proof (cases "145 < request \<or> calloc en s = None")
    case True
    then show ?thesis by (auto simp: addRequestToList_def length_s_commands)
  next
    case False
    then obtain p where p: "calloc en s = Some p" "request < int (length s_commands)"
      by (auto simp: length_s_commands)
    from addRequest_ok [OF q p(1) assms(2) p(2) refl, of serial slot] obtain s' where
      s': "addRequestToList en serial slot request s = Some (Some p, s')" and
      eq: "s' = s\<lparr>requests := (requests s)(p \<mapsto> \<lparr>token = serial, pCI = request,
             p_next = pendingRequests s (pendingRequestsHook (SIM_COUNT s) slot),
             cancelled = 0, local_cmd = 0, socket_id = slot, wasAckSent = 0\<rparr>),
            pendingRequests := (pendingRequests s)(pendingRequestsHook (SIM_COUNT s) slot := Some p)\<rparr>"
      by blast
    have "\<exists>r. requests s' = (requests s)(p \<mapsto> r) \<and> token r = serial \<and> socket_id r = slot \<and>
       pCI r = request \<and> wasAckSent r = 0"
      by (subst eq, rule exI [of _ "\<lparr>token = serial, pCI = request,
             p_next = pendingRequests s (pendingRequestsHook (SIM_COUNT s) slot),
             cancelled = 0, local_cmd = 0, socket_id = slot, wasAckSent = 0\<rparr>"]) simp
    with s' False p(1) calloc_Some [OF p(1)] show ?thesis by auto
  qed
qed

theorem request_entered_witness:
  "\<exists>t s'. addRequestToList env0 9 0 146 registered_ril = Some (t, s') \<and>
    (if 145 < (146::int) \<or> calloc env0 registered_ril = None then t = None \<and> s' = registered_ril
     else \<exists>p r. t = Some p \<and> calloc env0 registered_ril = Some p \<and> requests registered_ril p = None \<and>
       requests s' = (requests registered_ril)(p \<mapsto> r) \<and>
       token r = 9 \<and> socket_id r = 0 \<and> pCI r = 146 \<and> wasAckSent r = 0)"
  by (rule request_entered [OF registered_reachable]) simp

text \<open>
  \<open>RIL_onRequestComplete\<close> calls the response function of the table row without a test: completing
  a request whose row has none (ten rows, among them GET_IMEI) is a call of NULL.
\<close>

theorem complete_calls_null:
  assumes "reachable prog s" "requests s p = Some r" "cancelled r = 0" "local_cmd r = 0"
    and "responseFunction (s_commands ! nat (pCI r)) = None"
  shows "RIL_onRequestComplete en (Some p) e response s = None"
proof -
  from reachable_inv [OF assms(1)] obtain ts where I: "full_inv {} s ts []" by blast
  from full_invD(3) [OF I] obtain q where q: "pend_inv {} s q" by blast
  have p: "p \<in> outstanding q" using pend_invD(3) [OF q] assms(2) by auto
  from dequeue_ok [OF q p assms(2) refl] obtain s1 where
    "checkAndDequeueRequestInfoIfAck (Some p) False s = Some (True, s1)" "requests s1 p = Some r" by blast
  with assms(3-5) show ?thesis
    by (cases "grabPartialWakeLock en s1") (simp_all add: RIL_onRequestComplete_def Let_def)
qed

theorem complete_calls_null_witness:
  "\<exists>s p s'. addRequestToList env0 7 0 RIL_REQUEST_GET_IMEI registered_ril = Some (p, s) \<and>
    RIL_onRequestComplete env0 p 0 None s = None \<and> reachable silent s' \<and> s' = s"
proof -
  from reachable_inv [OF registered_reachable] obtain ts where I: "full_inv {} registered_ril ts []" by blast
  from full_invD(3) [OF I] obtain q where q: "pend_inv {} registered_ril q" by blast
  have n: "(0::int) \<le> RIL_REQUEST_GET_IMEI" "RIL_REQUEST_GET_IMEI < int (length s_commands)"
    by (simp_all add: length_s_commands RIL_REQUEST_GET_IMEI_def)
  from addRequest_ok [OF q calloc_env0 n refl, of 7 0] obtain s r where
    s: "addRequestToList env0 7 0 RIL_REQUEST_GET_IMEI registered_ril = Some (Some 10, s)"
      "requests s 10 = Some r" "cancelled r = 0" "local_cmd r = 0" "pCI r = RIL_REQUEST_GET_IMEI"
    by auto
  have "run_call (ApiAdd env0 7 0 RIL_REQUEST_GET_IMEI) registered_ril = Some s" by (simp add: s)
  then have R: "reachable silent s"
    by (rule reachable.step [OF registered_reachable ril_step.call [rotated]]) (simp add: n)
  have "responseFunction (s_commands ! nat (pCI r)) = None"
    by (simp add: s(5) RIL_REQUEST_GET_IMEI_def s_commands_def cmd_def)
  from complete_calls_null [OF R s(2,3,4) this] R s(1) show ?thesis by blast
qed

text \<open>
  The claim inside \<open>RIL_onRequestComplete\<close>: the request is taken off its list and freed. It meets the
  contract \<open>token_store\<close> when one SIM is built in.
\<close>

definition retire :: "addr \<Rightarrow> ril_state \<Rightarrow> (bool \<times> ril_state) option" where
  "retire p s =
     Option.bind (checkAndDequeueRequestInfoIfAck (Some p) False s) (\<lambda>(found, s1).
       if found then map_option (Pair True) (free_request p s1) else Some (False, s1))"

definition enter :: "env \<Rightarrow> int \<Rightarrow> int \<Rightarrow> int \<Rightarrow> addr \<Rightarrow> ril_state \<Rightarrow> ril_state" where
  "enter en serial slot request p s =
     (case addRequestToList (en\<lparr>calloc_at := Some p\<rparr>) serial slot request s of
        None \<Rightarrow> s | Some (_, s') \<Rightarrow> s')"

lemma retire_ok:
  assumes q: "pend_inv {} s q" and one: "SIM_COUNT s < 2"
  shows "\<exists>s' q'. retire p s = Some (p \<in> dom (requests s), s') \<and> pend_inv {} s' q' \<and> SIM_COUNT s' < 2 \<and>
    dom (requests s') = dom (requests s) - {p}"
proof (cases "p \<in> outstanding q")
  case False
  then have "retire p s = Some (False, s)" "p \<notin> dom (requests s)"
    using check_missing [OF q False one] pend_invD(3) [OF q] by (simp_all add: retire_def)
  with q one show ?thesis by auto
next
  case True
  then obtain r where r: "requests s p = Some r" using pend_invD(3) [OF q] by auto
  from dequeue_ok [OF q True r refl] obtain s1 q' where
    s1: "checkAndDequeueRequestInfoIfAck (Some p) False s = Some (True, s1)" "pend_inv {p} s1 q'"
      "dom (requests s1) = dom (requests s)" and
    eq: "s1 = s\<lparr>requests := requests s1, pendingRequests := pendingRequests s1\<rparr>" by blast
  have c: "SIM_COUNT s1 = SIM_COUNT s" by (subst eq) simp
  from free_ok [OF s1(2)] obtain s2 where s2: "free_request p s1 = Some s2"
    "s2 = s1\<lparr>requests := (requests s1)(p := None)\<rparr>" "pend_inv {} s2 q'" by blast
  have "retire p s = Some (True, s2)" using s1(1) s2(1) by (simp add: retire_def)
  with s1(3) s2 one c r show ?thesis by auto
qed

interpretation pending: token_store
  "\<lambda>s. (\<exists>q. pend_inv {} s q) \<and> SIM_COUNT s < 2" "\<lambda>s. dom (requests s)" "enter en serial slot request" retire
  "\<lambda>p s. 0 \<le> request \<and> request \<le> 145 \<and> calloc (en\<lparr>calloc_at := Some p\<rparr>) s = Some p"
  for en serial slot request
proof
  fix s p
  assume "(\<exists>q. pend_inv {} s q) \<and> SIM_COUNT s < 2"
  then obtain q where q: "pend_inv {} s q" "SIM_COUNT s < 2" by blast
  assume f: "0 \<le> request \<and> request \<le> 145 \<and> calloc (en\<lparr>calloc_at := Some p\<rparr>) s = Some p"
  then have n: "0 \<le> request" "request < int (length s_commands)" by (simp_all add: length_s_commands)
  from addRequest_ok [OF q(1) f [THEN conjunct2, THEN conjunct2] n refl, of serial slot] obtain s' q' r P where
    s': "addRequestToList (en\<lparr>calloc_at := Some p\<rparr>) serial slot request s = Some (Some p, s')"
      "pend_inv {} s' q'" "s' = s\<lparr>requests := (requests s)(p \<mapsto> r), pendingRequests := P\<rparr>"
    by blast
  then have "enter en serial slot request p s = s'" by (simp add: enter_def)
  with s' q(2) show "((\<exists>q. pend_inv {} (enter en serial slot request p s) q) \<and>
      SIM_COUNT (enter en serial slot request p s) < 2) \<and>
      dom (requests (enter en serial slot request p s)) = insert p (dom (requests s))"
    by auto
  show "p \<notin> dom (requests s)" using f calloc_Some by fastforce
next
  fix s p
  assume "(\<exists>q. pend_inv {} s q) \<and> SIM_COUNT s < 2"
  then obtain q where q: "pend_inv {} s q" "SIM_COUNT s < 2" by blast
  from retire_ok [OF q, of p] show "\<exists>s'. retire p s = Some (p \<in> dom (requests s), s') \<and>
      ((\<exists>q. pend_inv {} s' q) \<and> SIM_COUNT s' < 2) \<and> dom (requests s') = dom (requests s) - {p}"
    by blast
qed

text \<open>A sequence of completions, and what each of them is answered.\<close>

fun retire_all :: "addr list \<Rightarrow> ril_state \<Rightarrow> (bool list \<times> ril_state) option" where
  "retire_all [] s = Some ([], s)"
| "retire_all (p # ps) s =
     Option.bind (retire p s) (\<lambda>(b, s1). Option.bind (retire_all ps s1) (\<lambda>(bs, s2). Some (b # bs, s2)))"

fun first_claims :: "addr set \<Rightarrow> addr list \<Rightarrow> bool list" where
  "first_claims T [] = []"
| "first_claims T (p # ps) = (p \<in> T) # first_claims (T - {p}) ps"

lemma retire_all_claims: "retire_all ps s = pending.claim_all ps s"
  by (induction ps arbitrary: s) simp_all

lemma first_claims_grants: "first_claims T ps = pending.grants T ps"
  by (induction ps arbitrary: T) simp_all

text \<open>
  C4. With one SIM, in any sequence of completions every pending token is granted exactly at its first
  occurrence, every other claim is refused, and the tokens that were not named stay pending.
\<close>

theorem completions_granted_once:
  assumes "reachable prog s" "SIM_COUNT s < 2"
  shows "\<exists>s'. retire_all ps s = Some (first_claims (dom (requests s)) ps, s') \<and>
    dom (requests s') = dom (requests s) - set ps"
proof -
  from reachable_inv [OF assms(1)] obtain ts where "full_inv {} s ts []" by blast
  then have "(\<exists>q. pend_inv {} s q) \<and> SIM_COUNT s < 2" using assms(2) by (simp add: full_inv_def)
  from pending.claim_all_grants [OF this, of ps] show ?thesis
    unfolding retire_all_claims first_claims_grants by blast
qed

theorem completions_granted_once_witness:
  "\<exists>s s'. reachable silent s \<and> dom (requests s) = {10} \<and>
    retire_all [11, 10, 10] s = Some ([False, True, False], s') \<and> dom (requests s') = {}"
proof -
  from pending_dial obtain s where s: "reachable silent s" "SIM_COUNT s = 1"
    "addRequestToList env0 7 0 10 registered_ril = Some (Some 10, s)" by blast
  have d: "dom (requests s) = {10}"
    using s(3) by (auto simp: addRequestToList_def length_s_commands Let_def split: if_splits)
  from completions_granted_once [OF s(1), of "[11, 10, 10]"] s(1,2) d show ?thesis by auto
qed

section \<open>Unsolicited responses\<close>

text \<open>
  C5. \<open>RIL_onUnsolicitedResponse\<close> ends without an error in every reachable state and sends exactly the
  response of its table row, to the socket of the caller (the first one in a single SIM build);
  before registration, for codes outside 1000 to 1050 and for the row without a response function it
  sends none. It leaves the pending requests alone.
\<close>

theorem unsolicited_exact:
  assumes "reachable prog s"
  shows "\<exists>s'. RIL_onUnsolicitedResponse en code data sock s = Some s' \<and>
    filter is_response (out s') = filter is_response (out s) @
      (if registerCalled s = 0 \<or> code < 1000 \<or> 1050 < code \<or> code = RIL_UNSOL_DC_RT_INFO_CHANGED then []
       else [Respond (the (u_responseFunction (s_unsolResponses ! nat (code - 1000))))
              (if 2 \<le> SIM_COUNT s then sock else 0)
              (if 13 \<le> version s \<and> wakeType (s_unsolResponses ! nat (code - 1000)) = WAKE_PARTIAL
               then RESPONSE_UNSOLICITED_ACK_EXP else RESPONSE_UNSOLICITED) 0 RIL_E_SUCCESS data]) \<and>
    requests s' = requests s \<and> pendingRequests s' = pendingRequests s"
proof -
  from reachable_inv [OF assms] obtain ts where I: "full_inv {} s ts []" by blast
  have row: "(u_responseFunction (s_unsolResponses ! nat (code - 1000)) = None) = (code = RIL_UNSOL_DC_RT_INFO_CHANGED)"
    if "1000 \<le> code" "code \<le> 1050"
  proof -
    have "nat (code - 1000) < length s_unsolResponses" using that by (simp add: length_s_unsolResponses)
    moreover have "(nat (code - 1000) = 41) = (code = 1041)" using that by auto
    ultimately show ?thesis using null_unsol_row [of "nat (code - 1000)"]
      by (simp add: RIL_UNSOL_DC_RT_INFO_CHANGED_def)
  qed
  from unsol_total [OF full_invD(1,2) [OF I], of en code data sock] obtain s' where
    s': "RIL_onUnsolicitedResponse en code data sock s = Some s'" "requests s' = requests s"
      "pendingRequests s' = pendingRequests s"
      "filter is_response (out s') = filter is_response (out s) @ unsol_effect s code data sock"
    by blast
  have "unsol_effect s code data sock =
      (if registerCalled s = 0 \<or> code < 1000 \<or> 1050 < code \<or> code = RIL_UNSOL_DC_RT_INFO_CHANGED then []
       else [Respond (the (u_responseFunction (s_unsolResponses ! nat (code - 1000))))
              (if 2 \<le> SIM_COUNT s then sock else 0)
              (if 13 \<le> version s \<and> wakeType (s_unsolResponses ! nat (code - 1000)) = WAKE_PARTIAL
               then RESPONSE_UNSOLICITED_ACK_EXP else RESPONSE_UNSOLICITED) 0 RIL_E_SUCCESS data])"
  proof (cases "registerCalled s = 0 \<or> code < 1000 \<or> 1050 < code")
    case True
    then show ?thesis by (auto simp: unsol_effect_def)
  next
    case False
    with row show ?thesis
      by (cases "u_responseFunction (s_unsolResponses ! nat (code - 1000))") (simp_all add: unsol_effect_def)
  qed
  with s' show ?thesis by auto
qed

theorem unsolicited_exact_witness:
  "\<exists>s'. RIL_onUnsolicitedResponse env0 RIL_UNSOL_CALL_RING None 3 registered_ril = Some s' \<and>
    filter is_response (out s') = [Respond ''callRingInd'' 0 RESPONSE_UNSOLICITED_ACK_EXP 0 RIL_E_SUCCESS None]"
proof -
  have "u_responseFunction (s_unsolResponses ! 18) = Some ''callRingInd''" "wakeType (s_unsolResponses ! 18) = WAKE_PARTIAL"
    by (simp_all add: s_unsolResponses_def unsol_def)
  with unsolicited_exact [OF registered_reachable, of env0 RIL_UNSOL_CALL_RING None 3] show ?thesis
    by (auto simp: RIL_UNSOL_CALL_RING_def RIL_UNSOL_DC_RT_INFO_CHANGED_def)
qed

text \<open>
  A NITZ time no client took (the response function reports failure) is kept, and
  \<open>resendLastNITZTimeData\<close> delivers the kept bytes and forgets them exactly when the delivery
  succeeds.
\<close>

theorem nitz_kept_until_delivered:
  assumes "reachable prog s" "registerCalled s \<noteq> 0" "13 \<le> version s" "calloc en s = Some p"
    and "response_ret en \<noteq> 0" "calloc_data en"
  shows "\<exists>s'. RIL_onUnsolicitedResponse en RIL_UNSOL_NITZ_TIME_RECEIVED (Some bs) sock s = Some s' \<and>
    lastNITZTimeData s' = Some bs \<and>
    out (resendLastNITZTimeData en' k s') =
      out s' @ [Respond ''nitzTimeReceivedInd'' k RESPONSE_UNSOLICITED_ACK_EXP 0 RIL_E_SUCCESS (Some bs)] \<and>
    lastNITZTimeData (resendLastNITZTimeData en' k s') = (if response_ret en' = 0 then None else Some bs)"
proof -
  from reachable_inv [OF assms(1)] obtain ts where I: "full_inv {} s ts []" by blast
  have code: "1000 \<le> RIL_UNSOL_NITZ_TIME_RECEIVED" "RIL_UNSOL_NITZ_TIME_RECEIVED \<le> 1050"
    by (simp_all add: RIL_UNSOL_NITZ_TIME_RECEIVED_def)
  have w: "wakeType (s_unsolResponses ! nat (RIL_UNSOL_NITZ_TIME_RECEIVED - 1000)) = WAKE_PARTIAL"
    by (simp add: RIL_UNSOL_NITZ_TIME_RECEIVED_def s_unsolResponses_def unsol_def)
  from unsol_v13 [OF full_invD(1,2) [OF I] assms(2-4) code w, of "Some bs" sock] assms(5,6) obtain s' where
    s': "RIL_onUnsolicitedResponse en RIL_UNSOL_NITZ_TIME_RECEIVED (Some bs) sock s = Some s'"
      "lastNITZTimeData s' = Some bs" by auto
  have "callbacks s' = callbacks s"
    using unsol_total [OF full_invD(1,2) [OF I], of en RIL_UNSOL_NITZ_TIME_RECEIVED "Some bs" sock] s'(1) by auto
  with s' assms(3) show ?thesis by (simp add: resendLastNITZTimeData_def Let_def)
qed

theorem nitz_kept_until_delivered_witness:
  "\<exists>s'. RIL_onUnsolicitedResponse (env0\<lparr>response_ret := 1\<rparr>) RIL_UNSOL_NITZ_TIME_RECEIVED (Some [50, 54]) 0 registered_ril = Some s' \<and>
    lastNITZTimeData s' = Some [50, 54] \<and> lastNITZTimeData (resendLastNITZTimeData env0 0 s') = None"
proof -
  have c: "calloc (env0\<lparr>response_ret := 1\<rparr>) registered_ril = Some 10"
    using calloc_env0 by (simp add: calloc_def env0_def)
  show ?thesis
    using nitz_kept_until_delivered [OF registered_reachable _ _ c, of "[50, 54]" 0 env0 0] by (auto simp: env0_def)
qed

section \<open>Registration\<close>

text \<open>
  \<open>RIL_register\<close> never fails its self-check; it takes the callbacks of the first caller with a
  version of at least 6, and nothing later changes them.
\<close>

theorem register_first_wins:
  assumes "reachable prog s" "RIL_VERSION_MIN \<le> rf_version cb" "registerCalled s = 0"
  shows "\<exists>s1. RIL_register (Some cb) s = Some s1 \<and> callbacks s1 = cb \<and> registerCalled s1 = 1 \<and>
    out s1 = out s @ [RegisterService] \<and> (\<forall>cbs. RIL_register cbs s1 = Some s1)"
proof -
  let ?s1 = "emit RegisterService (s\<lparr>callbacks := cb, registerCalled := 1\<rparr>)"
  have "RIL_register (Some cb) s = Some ?s1" using assms(2,3) by (simp add: RIL_register_run)
  moreover have "RIL_register cbs ?s1 = Some ?s1" for cbs
    by (cases cbs) (simp_all add: RIL_register_run, simp add: RIL_register_def)
  ultimately show ?thesis by (intro exI [of _ ?s1]) simp
qed

theorem register_first_wins_witness:
  "\<exists>s1. RIL_register (Some vendor13) booted_ril = Some s1 \<and> callbacks s1 = vendor13 \<and> registerCalled s1 = 1 \<and>
    out s1 = out booted_ril @ [RegisterService] \<and> (\<forall>cbs. RIL_register cbs s1 = Some s1)"
  by (rule register_first_wins [OF booted_reachable]) (simp_all add: vendor13_def RIL_VERSION_MIN_def)

end
