(* ===== verification/SapSocket.thy ===== *)
theory SapSocket
  imports PendingList
begin

text \<open>
  The sockets of the SIM access profile, \<open>libril/RilSapSocket.cpp\<close>, and their request queue
  \<open>Ril_queue\<close>, \<open>libril/rilSocketQueue.h\<close>. Requests and message headers live on the heap; a socket's
  queue links the requests that wait for a response of the vendor library. \<open>sap_inv\<close> refines the
  queues to lists; under it, and while no two pending requests of a socket have the same message id
  and token, the queue meets the contract \<open>token_store\<close>. Freed memory that is read is \<open>None\<close>. The
  vendor's \<open>onRequest\<close> and the SAP service are effects of the trace \<open>sap_out\<close>.
\<close>

section \<open>State\<close>

datatype msg_type = MsgType_REQUEST | MsgType_RESPONSE | MsgType_UNSOL_RESPONSE

text \<open>\<open>MsgHeader\<close> of the SAP interface, with its payload bytes.\<close>

record msg_header =
  h_token :: int
  h_type :: msg_type
  h_id :: int
  h_error :: int
  h_payload :: "u8 list"

record sap_request =
  s_token :: int
  s_curr :: "addr option"
  s_next :: "addr option"
  s_socketId :: int

text \<open>
  A \<open>RilSapSocket\<close>: \<open>uimFuncs\<close> is \<open>Some True\<close> when the constructor received functions; otherwise
  it is never written (\<open>None\<close>).
\<close>

record sap_socket =
  sk_name :: string
  sk_id :: int
  sk_uimFuncs :: "bool option"

datatype sap_effect =
    SapOnRequest int "u8 list" addr int
  | SapResponse string int int int "u8 list"
  | SapUnsol string int "u8 list"

text \<open>
  \<open>sockets\<close> is the list behind \<open>head\<close>, to which sockets are only appended; \<open>front k\<close> is the front
  of \<open>pendingResponseQueue\<close> of the socket with id \<open>k\<close>.
\<close>

record sap_state =
  sims :: nat
  sockets :: "sap_socket list"
  front :: "int \<Rightarrow> addr option"
  sreqs :: "addr \<Rightarrow> sap_request option"
  hdrs :: "addr \<Rightarrow> msg_header option"
  sap_out :: "sap_effect list"

definition sap_emit :: "sap_effect \<Rightarrow> sap_state \<Rightarrow> sap_state" where
  "sap_emit x s = s\<lparr>sap_out := sap_out s @ [x]\<rparr>"

section \<open>The queue\<close>

definition snext :: "sap_state \<Rightarrow> addr \<Rightarrow> addr option option" where
  "snext s a = map_option s_next (sreqs s a)"

definition empty_queue :: "int \<Rightarrow> sap_state \<Rightarrow> bool" where
  "empty_queue k s = (front s k = None)"

definition enqueue :: "int \<Rightarrow> addr \<Rightarrow> sap_state \<Rightarrow> sap_state option" where
  "enqueue k request s =
     (case sreqs s request of
        None \<Rightarrow> None
      | Some r \<Rightarrow>
          Some (if front s k = None
                then s\<lparr>front := (front s)(k := Some request), sreqs := (sreqs s)(request \<mapsto> r\<lparr>s_next := None\<rparr>)\<rparr>
                else s\<lparr>sreqs := (sreqs s)(request \<mapsto> r\<lparr>s_next := front s k\<rparr>),
                       front := (front s)(k := Some request)\<rparr>))"

text \<open>\<open>dequeue\<close> waits on an empty queue: then there is no result yet and nothing has changed.\<close>

definition dequeue :: "int \<Rightarrow> sap_state \<Rightarrow> (addr option \<times> sap_state) option" where
  "dequeue k s =
     (if empty_queue k s then Some (None, s)
      else case front s k of
             None \<Rightarrow> None
           | Some temp \<Rightarrow>
               (case sreqs s temp of
                  None \<Rightarrow> None
                | Some r \<Rightarrow>
                    Some (Some temp,
                      if s_next r \<noteq> None then s\<lparr>front := (front s)(k := s_next r)\<rparr>
                      else s\<lparr>front := (front s)(k := None)\<rparr>)))"

text \<open>\<open>token == (*ppCur)->token && id == (*ppCur)->curr->id\<close>\<close>

definition key_at :: "sap_state \<Rightarrow> int \<Rightarrow> int \<Rightarrow> addr \<Rightarrow> bool option" where
  "key_at s mid tok c =
     (case sreqs s c of
        None \<Rightarrow> None
      | Some r \<Rightarrow>
          if tok = s_token r then
            (case Option.bind (s_curr r) (hdrs s) of None \<Rightarrow> None | Some m \<Rightarrow> Some (mid = h_id m))
          else Some False)"

definition set_slink :: "int \<Rightarrow> link \<Rightarrow> addr option \<Rightarrow> sap_state \<Rightarrow> sap_state" where
  "set_slink k l v s =
     (case l of
        Head \<Rightarrow> s\<lparr>front := (front s)(k := v)\<rparr>
      | After a \<Rightarrow> s\<lparr>sreqs := (sreqs s)(a := map_option (\<lambda>r. r\<lparr>s_next := v\<rparr>) (sreqs s a))\<rparr>)"

definition checkAndDequeue :: "int \<Rightarrow> int \<Rightarrow> int \<Rightarrow> sap_state \<Rightarrow> (bool \<times> sap_state) option" where
  "checkAndDequeue k mid tok s =
     (case find_link (snext s) (front s k) (key_at s mid tok) Head of
        None \<Rightarrow> None
      | Some None \<Rightarrow> Some (False, s)
      | Some (Some l) \<Rightarrow>
          (case deref (snext s) (front s k) l of
             Some (Some temp) \<Rightarrow>
               (case sreqs s temp of
                  None \<Rightarrow> None
                | Some r \<Rightarrow>
                    (let s1 = set_slink k l (s_next r) s
                     in Some (True, s1\<lparr>sreqs := (sreqs s1)(temp := None)\<rparr>)))
           | _ \<Rightarrow> None))"

section \<open>Sockets\<close>

definition getSocketById :: "int \<Rightarrow> sap_state \<Rightarrow> sap_socket option" where
  "getSocketById socketId s = List.find (\<lambda>k. socketId = sk_id k) (sockets s)"

definition SocketExists :: "string \<Rightarrow> sap_state \<Rightarrow> bool" where
  "SocketExists socketName s = list_ex (\<lambda>k. sk_name k = socketName) (sockets s)"

text \<open>\<open>memory\<close> tells whether \<open>malloc\<close> of the list item succeeds.\<close>

definition addSocketToList :: "bool \<Rightarrow> string \<Rightarrow> int \<Rightarrow> bool \<Rightarrow> sap_state \<Rightarrow> sap_state" where
  "addSocketToList memory socketName socketid uimFuncs s =
     (if \<not> SocketExists socketName s \<and> memory
      then s\<lparr>sockets := sockets s @ [\<lparr>sk_name = socketName, sk_id = socketid,
               sk_uimFuncs = (if uimFuncs then Some True else None)\<rparr>],
             front := (front s)(socketid := None)\<rparr>
      else s)"

definition initSapSocket :: "bool \<Rightarrow> string \<Rightarrow> bool \<Rightarrow> sap_state \<Rightarrow> sap_state" where
  "initSapSocket memory socketName uimFuncs s =
     (let add = (\<lambda>name i s. if socketName = name \<and> \<not> SocketExists socketName s
                             then addSocketToList memory socketName i uimFuncs s else s);
          s1 = add ''slot1'' 0 s;
          s2 = (if 2 \<le> sims s1 then add ''slot2'' 1 s1 else s1);
          s3 = (if 3 \<le> sims s2 then add ''slot3'' 2 s2 else s2)
      in if 4 \<le> sims s3 then add ''slot4'' 3 s3 else s3)"

section \<open>Requests and responses\<close>

text \<open>\<open>malloc\<close> gives the address \<open>mem\<close> when nothing is allocated there.\<close>

definition salloc :: "addr option \<Rightarrow> sap_state \<Rightarrow> addr option" where
  "salloc mem s =
     (case mem of None \<Rightarrow> None | Some p \<Rightarrow> if sreqs s p \<noteq> None \<or> hdrs s p \<noteq> None then None else Some p)"

definition dispatchRequest :: "sap_socket \<Rightarrow> addr option \<Rightarrow> addr \<Rightarrow> sap_state \<Rightarrow> sap_state option" where
  "dispatchRequest sk mem req s =
     (case hdrs s req of
        None \<Rightarrow> None
      | Some m \<Rightarrow>
          (case salloc mem s of
             None \<Rightarrow> Some (s\<lparr>hdrs := (hdrs s)(req := None)\<rparr>)
           | Some currRequest \<Rightarrow>
               Option.bind
                 (enqueue (sk_id sk) currRequest
                   (s\<lparr>sreqs := (sreqs s)(currRequest \<mapsto>
                        \<lparr>s_token = h_token m, s_curr = Some req, s_next = None, s_socketId = sk_id sk\<rparr>)\<rparr>))
                 (\<lambda>s1. case sk_uimFuncs sk of
                         None \<Rightarrow> None
                       | Some uim \<Rightarrow>
                           Some (if uim
                                 then sap_emit (SapOnRequest (h_id m) (h_payload m) currRequest (sk_id sk)) s1
                                 else s1))))"

definition free_hdr :: "addr \<Rightarrow> sap_state \<Rightarrow> sap_state option" where
  "free_hdr h s = (if hdrs s h = None then None else Some (s\<lparr>hdrs := (hdrs s)(h := None)\<rparr>))"

text \<open>\<open>onRequestComplete\<close>; \<open>memory\<close> tells whether \<open>calloc\<close> of the payload succeeds.\<close>

definition onRequestComplete ::
  "bool \<Rightarrow> sap_socket \<Rightarrow> addr option \<Rightarrow> int \<Rightarrow> u8 list option \<Rightarrow> sap_state \<Rightarrow> sap_state option" where
  "onRequestComplete memory sk t e response s =
     (case t of
        None \<Rightarrow> Some s
      | Some request \<Rightarrow>
          (case sreqs s request of
             None \<Rightarrow> None
           | Some r \<Rightarrow>
               (case s_curr r of
                  None \<Rightarrow> Some s
                | Some hdr \<Rightarrow>
                    (case hdrs s hdr of
                       None \<Rightarrow> None
                     | Some m \<Rightarrow>
                         (let payload = (case response of None \<Rightarrow> [] | Some bs \<Rightarrow> bs);
                              s1 = (if memory
                                    then sap_emit (SapResponse (sk_name sk) (h_token m) (h_id m) e payload) s
                                    else s)
                          in Option.bind (checkAndDequeue (sk_id sk) (h_id m) (h_token m) s1)
                               (\<lambda>(found, s2). free_hdr hdr s2))))))"

definition sOnRequestComplete :: "bool \<Rightarrow> addr \<Rightarrow> int \<Rightarrow> u8 list option \<Rightarrow> sap_state \<Rightarrow> sap_state option" where
  "sOnRequestComplete memory t e response s =
     (case sreqs s t of
        None \<Rightarrow> None
      | Some r \<Rightarrow>
          (case getSocketById (s_socketId r) s of
             Some sk \<Rightarrow> onRequestComplete memory sk (Some t) e response s
           | None \<Rightarrow>
               Option.bind (case s_curr r of None \<Rightarrow> Some s | Some h \<Rightarrow> free_hdr h s)
                 (\<lambda>s1. Some (s1\<lparr>sreqs := (sreqs s1)(t := None)\<rparr>))))"

definition onUnsolicitedResponse :: "bool \<Rightarrow> sap_socket \<Rightarrow> int \<Rightarrow> u8 list option \<Rightarrow> sap_state \<Rightarrow> sap_state" where
  "onUnsolicitedResponse memory sk unsolResponse data s =
     (case data of
        None \<Rightarrow> s
      | Some bs \<Rightarrow> if bs \<noteq> [] \<and> memory then sap_emit (SapUnsol (sk_name sk) unsolResponse bs) s else s)"

text \<open>With one SIM the function has no socket argument and takes \<open>RIL_SOCKET_1\<close>, which is 0.\<close>

definition sOnUnsolicitedResponse :: "bool \<Rightarrow> int \<Rightarrow> u8 list option \<Rightarrow> int \<Rightarrow> sap_state \<Rightarrow> sap_state" where
  "sOnUnsolicitedResponse memory unsolResponse data socketId s =
     (case getSocketById (if 2 \<le> sims s then socketId else 0) s of
        None \<Rightarrow> s
      | Some sk \<Rightarrow> onUnsolicitedResponse memory sk unsolResponse data s)"

section \<open>The queues as lists\<close>

definition sap_inv :: "sap_state \<Rightarrow> (int \<Rightarrow> addr list) \<Rightarrow> bool" where
  "sap_inv s qs \<longleftrightarrow>
     (\<forall>k. linked (snext s) (front s k) (qs k)) \<and>
     (\<forall>k l. k \<noteq> l \<longrightarrow> set (qs k) \<inter> set (qs l) = {}) \<and>
     dom (sreqs s) = (\<Union>k. set (qs k)) \<and>
     (\<forall>k a r. a \<in> set (qs k) \<longrightarrow> sreqs s a = Some r \<longrightarrow> s_socketId r = k) \<and>
     (\<forall>a r. sreqs s a = Some r \<longrightarrow>
        (\<exists>h m. s_curr r = Some h \<and> hdrs s h = Some m \<and> h_token m = s_token r)) \<and>
     (\<forall>a b r v. sreqs s a = Some r \<longrightarrow> sreqs s b = Some v \<longrightarrow> s_curr r = s_curr v \<longrightarrow> a = b)"

lemma sap_invD:
  assumes "sap_inv s qs"
  shows "linked (snext s) (front s k) (qs k)" "k \<noteq> l \<Longrightarrow> set (qs k) \<inter> set (qs l) = {}"
    "dom (sreqs s) = (\<Union>k. set (qs k))" "a \<in> set (qs k) \<Longrightarrow> sreqs s a = Some r \<Longrightarrow> s_socketId r = k"
    "sreqs s a = Some r \<Longrightarrow> \<exists>h m. s_curr r = Some h \<and> hdrs s h = Some m \<and> h_token m = s_token r"
    "sreqs s a = Some r \<Longrightarrow> sreqs s b = Some v \<Longrightarrow> s_curr r = s_curr v \<Longrightarrow> a = b"
  using assms unfolding sap_inv_def by blast+

lemma sap_invI:
  assumes "\<And>k. linked (snext s) (front s k) (qs k)"
    and "\<And>k l. k \<noteq> l \<Longrightarrow> set (qs k) \<inter> set (qs l) = {}"
    and "dom (sreqs s) = (\<Union>k. set (qs k))"
    and "\<And>k a r. a \<in> set (qs k) \<Longrightarrow> sreqs s a = Some r \<Longrightarrow> s_socketId r = k"
    and "\<And>a r. sreqs s a = Some r \<Longrightarrow> \<exists>h m. s_curr r = Some h \<and> hdrs s h = Some m \<and> h_token m = s_token r"
    and "\<And>a b r v. sreqs s a = Some r \<Longrightarrow> sreqs s b = Some v \<Longrightarrow> s_curr r = s_curr v \<Longrightarrow> a = b"
  shows "sap_inv s qs"
  unfolding sap_inv_def using assms by blast

text \<open>The message id and token of a pending request.\<close>

definition skey :: "sap_state \<Rightarrow> addr \<Rightarrow> int \<times> int" where
  "skey s a =
     (case sreqs s a of
        None \<Rightarrow> (0, 0)
      | Some r \<Rightarrow> (case Option.bind (s_curr r) (hdrs s) of None \<Rightarrow> (0, s_token r) | Some m \<Rightarrow> (h_id m, s_token r)))"

lemma key_at_pending:
  assumes "sap_inv s qs" "a \<in> set (qs k)"
  shows "key_at s mid tok a = Some (skey s a = (mid, tok))"
proof -
  have "a \<in> dom (sreqs s)" unfolding sap_invD(3) [OF assms(1)] using assms(2) by blast
  then obtain r where r: "sreqs s a = Some r" by blast
  from sap_invD(5) [OF assms(1) r] obtain h m where "s_curr r = Some h" "hdrs s h = Some m" by blast
  with r show ?thesis by (auto simp: key_at_def skey_def)
qed

lemma snext_cong: "sreqs s' = sreqs s \<Longrightarrow> snext s' = snext s"
  by (simp add: snext_def fun_eq_iff)

text \<open>\<open>checkAndDequeue\<close> removes and frees the first request with the key, if there is one.\<close>

lemma checkAndDequeue_ok:
  assumes inv: "sap_inv s qs"
  shows "if (mid, tok) \<in> skey s ` set (qs k)
    then \<exists>us x vs s'. qs k = us @ x # vs \<and> skey s x = (mid, tok) \<and> (mid, tok) \<notin> skey s ` set us \<and>
      checkAndDequeue k mid tok s = Some (True, s') \<and> sap_inv s' (qs(k := us @ vs)) \<and>
      sreqs s' x = None \<and> hdrs s' = hdrs s \<and> sap_out s' = sap_out s \<and> sockets s' = sockets s \<and> sims s' = sims s \<and>
      (\<forall>a. a \<noteq> x \<longrightarrow> skey s' a = skey s a) \<and>
      (\<forall>a r. sreqs s' a = Some r \<longrightarrow> (\<exists>v. sreqs s a = Some v \<and> s_curr r = s_curr v))
    else checkAndDequeue k mid tok s = Some (False, s)"
proof -
  let ?Q = "\<lambda>a. skey s a = (mid, tok)"
  have fl: "find_link (snext s) (front s k) (key_at s mid tok) Head = Some (link_to Head ?Q (qs k))"
    by (rule find_link_linked [OF sap_invD(1) [OF inv]]) (rule key_at_pending [OF inv])
  show ?thesis
  proof (cases "link_to Head ?Q (qs k)")
    case None
    then have "(mid, tok) \<notin> skey s ` set (qs k)" by (force simp: link_to_None)
    with None fl show ?thesis by (simp add: checkAndDequeue_def)
  next
    case (Some l)
    from link_to_split [OF Some] obtain us x vs where
      q: "qs k = us @ x # vs" "?Q x" "\<forall>u \<in> set us. \<not> ?Q u" "l = (if us = [] then Head else After (last us))"
      by blast
    have in_k: "(mid, tok) \<in> skey s ` set (qs k)" using q by force
    note L = sap_invD(1) [OF inv, of k, unfolded q(1)]
    have "distinct (qs k)" by (rule linked_distinct [OF sap_invD(1) [OF inv]])
    then have xd: "x \<notin> set us" "x \<notin> set vs" using q(1) by auto
    have xo: "x \<notin> set (qs j)" if "j \<noteq> k" for j using sap_invD(2) [OF inv that] q(1) by auto
    have "x \<in> dom (sreqs s)" unfolding sap_invD(3) [OF inv] using q(1) by (intro UN_I [of k]) simp_all
    then obtain r where r: "sreqs s x = Some r" by blast
    have sx: "snext s x = Some (s_next r)" using r by (simp add: snext_def)
    define s1 where "s1 = set_slink k l (s_next r) s"
    define s' where "s' = s1\<lparr>sreqs := (sreqs s1)(x := None)\<rparr>"
    have deref: "deref (snext s) (front s k) l = Some (Some x)"
    proof (cases "us = []")
      case True
      then show ?thesis using L q(4) by (simp add: deref_def)
    next
      case False
      then obtain us' y where us: "us = us' @ [y]" by (cases us rule: rev_cases) auto
      have LL: "linked (snext s) (front s k) (us' @ y # x # vs)" using L us by simp
      then have "\<forall>z \<in> set (us' @ y # x # vs). snext s z \<noteq> None" unfolding linked_def by (rule conjunct2)
      then have "snext s y \<noteq> None" by (rule bspec) simp
      moreover have "chain (nxt (snext s)) (front s k) (us' @ y # x # vs)"
        using LL unfolding linked_def by (rule conjunct1)
      ultimately have "nxt (snext s) y = Some x" using chain_suffix [of "nxt (snext s)" "front s k" us' y "x # vs"] by simp
      with \<open>snext s y \<noteq> None\<close> us q(4) show ?thesis by (auto simp: deref_def nxt_def)
    qed
    have run: "checkAndDequeue k mid tok s = Some (True, s')"
      unfolding checkAndDequeue_def fl Some option.case deref r Let_def s'_def s1_def ..
    have same: "hdrs s' = hdrs s" "sap_out s' = sap_out s" "sockets s' = sockets s" "sims s' = sims s"
      by (simp_all add: s'_def s1_def set_slink_def split: link.split)
    have fields: "\<exists>v. sreqs s a = Some v \<and> s_token w = s_token v \<and> s_curr w = s_curr v \<and> s_socketId w = s_socketId v \<and> a \<noteq> x"
      if "sreqs s' a = Some w" for a w
      using that by (auto simp: s'_def s1_def set_slink_def split: link.splits if_splits)
    have kept: "\<exists>w. sreqs s' a = Some w \<and> s_token w = s_token v \<and> s_curr w = s_curr v"
      if "sreqs s a = Some v" "a \<noteq> x" for a v
      using that by (auto simp: s'_def s1_def set_slink_def split: link.splits)
    have linked': "linked (snext s') (front s' j) ((qs(k := us @ vs)) j)" for j
    proof (cases "us = []")
      case True
      then have s1: "s1 = s\<lparr>front := (front s)(k := s_next r)\<rparr>" by (simp add: s1_def q(4) set_slink_def)
      have sn: "snext s' = (snext s)(x := None)" by (auto simp: s'_def s1 snext_def fun_eq_iff)
      have f: "front s' = (front s)(k := s_next r)" by (simp add: s'_def s1)
      show ?thesis
      proof (cases "j = k")
        case j: True
        have "linked (snext s) (s_next r) vs" using L True sx by simp
        then show ?thesis using j True xd(2) unfolding sn f by (simp add: linked_upd)
      next
        case False
        then show ?thesis
          using sap_invD(1) [OF inv, of j] xo [OF False] unfolding sn f by (simp add: linked_upd)
      qed
    next
      case False
      then obtain us' y where us: "us = us' @ [y]" by (cases us rule: rev_cases) auto
      have "y \<in> dom (sreqs s)" unfolding sap_invD(3) [OF inv] using q(1) us by (intro UN_I [of k]) simp_all
      then obtain ry where ry: "sreqs s y = Some ry" by blast
      have s1: "s1 = s\<lparr>sreqs := (sreqs s)(y \<mapsto> ry\<lparr>s_next := s_next r\<rparr>)\<rparr>"
        using False ry us by (simp add: s1_def q(4) set_slink_def)
      have yx: "y \<noteq> x" using xd us by auto
      have sn: "snext s' = ((snext s)(y \<mapsto> s_next r))(x := None)"
        using yx by (auto simp: s'_def s1 snext_def fun_eq_iff)
      have f: "front s' = front s" by (simp add: s'_def s1)
      show ?thesis
      proof (cases "j = k")
        case True
        have "linked ((snext s)(y \<mapsto> s_next r)) (front s k) (us @ vs)"
          using linked_unlink_after [of "snext s" "front s k" us' y x vs] L sx unfolding us by simp
        then have "linked (snext s') (front s k) (us @ vs)" unfolding sn using xd by (simp add: linked_upd)
        with True f show ?thesis by simp
      next
        case j: False
        have "y \<notin> set (qs j)" using sap_invD(2) [OF inv j] q(1) us by auto
        then have "linked (snext s') (front s j) (qs j)"
          unfolding sn using sap_invD(1) [OF inv, of j] xo [OF j] by (simp add: linked_upd)
        with j f show ?thesis by simp
      qed
    qed
    have d': "dom (sreqs s') = dom (sreqs s) - {x}"
      using fields kept by (fastforce simp: dom_def)
    have "sap_inv s' (qs(k := us @ vs))"
    proof (rule sap_invI)
      show "linked (snext s') (front s' j) ((qs(k := us @ vs)) j)" for j by (rule linked')
      show "set ((qs(k := us @ vs)) i) \<inter> set ((qs(k := us @ vs)) j) = {}" if "i \<noteq> j" for i j
        using sap_invD(2) [OF inv that] q(1) by (auto split: if_splits)
      show "dom (sreqs s') = (\<Union>j. set ((qs(k := us @ vs)) j))"
        unfolding d' sap_invD(3) [OF inv]
      proof (intro set_eqI iffI)
        fix a assume "a \<in> (\<Union>j. set (qs j)) - {x}"
        then obtain j where "a \<in> set (qs j)" "a \<noteq> x" by auto
        then show "a \<in> (\<Union>j. set ((qs(k := us @ vs)) j))" using q(1)
          by (intro UN_I [of j]) auto
      next
        fix a assume "a \<in> (\<Union>j. set ((qs(k := us @ vs)) j))"
        then obtain j where "a \<in> set ((qs(k := us @ vs)) j)" by auto
        then have "a \<in> set (qs j)" "a \<noteq> x" using q(1) xd xo [of j] by (cases "j = k"; auto)+
        then show "a \<in> (\<Union>j. set (qs j)) - {x}" by blast
      qed
      show "s_socketId w = j" if "a \<in> set ((qs(k := us @ vs)) j)" "sreqs s' a = Some w" for j a w
      proof -
        from fields [OF that(2)] obtain v where "sreqs s a = Some v" "s_socketId w = s_socketId v" by blast
        moreover have "a \<in> set (qs j)" using that(1) q(1) by (auto split: if_splits)
        ultimately show ?thesis using sap_invD(4) [OF inv] by simp
      qed
      show "\<exists>h m. s_curr w = Some h \<and> hdrs s' h = Some m \<and> h_token m = s_token w" if "sreqs s' a = Some w" for a w
        using fields [OF that] sap_invD(5) [OF inv, of a] by (auto simp: same)
      show "a = b" if "sreqs s' a = Some w" "sreqs s' b = Some v" "s_curr w = s_curr v" for a b w v
        using fields [OF that(1)] fields [OF that(2)] that(3) sap_invD(6) [OF inv, of a _ b] by auto
    qed
    moreover have "skey s' a = skey s a" if "a \<noteq> x" for a
    proof (cases "sreqs s a")
      case None
      then have "sreqs s' a = None" using fields [of a] by (cases "sreqs s' a") auto
      with None show ?thesis by (simp add: skey_def)
    next
      case (Some v)
      from kept [OF this that] Some show ?thesis by (auto simp: skey_def same split: option.split)
    qed
    moreover have "sreqs s' x = None" by (simp add: s'_def)
    moreover have "(mid, tok) \<notin> skey s ` set us" using q(3) by force
    moreover have "\<forall>a r. sreqs s' a = Some r \<longrightarrow> (\<exists>v. sreqs s a = Some v \<and> s_curr r = s_curr v)"
      using fields by blast
    ultimately show ?thesis
      unfolding if_P [OF in_k] using q(1,2) run same
      by - (rule exI [where x = us], rule exI [where x = x], rule exI [where x = vs], rule exI [where x = s'], simp)
  qed
qed

text \<open>With distinct keys the request that is found is the one that was asked for.\<close>

lemma remove1_key:
  assumes "xs = us @ x # vs" "x = t" "distinct xs"
  shows "remove1 t xs = us @ vs"
  using assms by (simp add: remove1_append)

text \<open>Freeing a header no pending request uses.\<close>

lemma free_hdr_inv:
  assumes inv: "sap_inv s qs" and un: "\<And>a r. sreqs s a = Some r \<Longrightarrow> s_curr r \<noteq> Some h"
  shows "sap_inv (s\<lparr>hdrs := (hdrs s)(h := None)\<rparr>) qs"
proof (rule sap_invI)
  let ?s = "s\<lparr>hdrs := (hdrs s)(h := None)\<rparr>"
  show "linked (snext ?s) (front ?s k) (qs k)" for k
    using sap_invD(1) [OF inv, of k] snext_cong [of ?s s] by simp
  show "\<exists>g m. s_curr r = Some g \<and> hdrs ?s g = Some m \<and> h_token m = s_token r" if "sreqs ?s a = Some r" for a r
    using that sap_invD(5) [OF inv, of a r] un [of a r] by auto
qed (use sap_invD(2,3,4,6) [OF inv] in \<open>simp_all\<close>)

lemma sap_inv_emit: "sap_inv (sap_emit x s) qs = sap_inv s qs"
  using snext_cong [of "sap_emit x s" s] by (simp add: sap_inv_def sap_emit_def)

lemma skey_emit [simp]: "skey (sap_emit x s) = skey s"
  by (simp add: skey_def sap_emit_def fun_eq_iff split: option.split)

lemma sap_emit_fields [simp]:
  "sreqs (sap_emit x s) = sreqs s" "hdrs (sap_emit x s) = hdrs s" "sockets (sap_emit x s) = sockets s"
  "sap_out (sap_emit x s) = sap_out s @ [x]" "front (sap_emit x s) = front s" "sims (sap_emit x s) = sims s"
  by (simp_all add: sap_emit_def)

lemma getSocketById_id: "getSocketById k s = Some sk \<Longrightarrow> sk_id sk = k"
  unfolding getSocketById_def by (auto simp: find_Some_iff)

text \<open>The header and the key of a pending request.\<close>

lemma pending_header:
  assumes "sap_inv s qs" "t \<in> set (qs k)"
  shows "\<exists>r h m. sreqs s t = Some r \<and> s_curr r = Some h \<and> hdrs s h = Some m \<and> h_token m = s_token r \<and>
    s_socketId r = k \<and> skey s t = (h_id m, h_token m)"
proof -
  have "t \<in> dom (sreqs s)" unfolding sap_invD(3) [OF assms(1)] using assms(2) by blast
  then obtain r where r: "sreqs s t = Some r" by blast
  from sap_invD(5) [OF assms(1) r] obtain h m where "s_curr r = Some h" "hdrs s h = Some m" "h_token m = s_token r"
    by blast
  with r sap_invD(4) [OF assms(1,2) r] show ?thesis by (auto simp: skey_def)
qed

text \<open>
  The common part of both completions below: the first request with the key of \<open>t\<close> is freed, and the
  header of \<open>t\<close>.
\<close>

lemma complete_first:
  assumes inv: "sap_inv s qs" and t: "t \<in> set (qs k)" and sk: "getSocketById k s = Some sk"
  shows "\<exists>us x vs h s2 s'. qs k = us @ x # vs \<and> skey s x = skey s t \<and> skey s t \<notin> skey s ` set us \<and>
    sOnRequestComplete memory t e response s = Some s' \<and> sap_inv s2 (qs(k := us @ vs)) \<and>
    sreqs s' = sreqs s2 \<and> sreqs s2 x = None \<and> hdrs s' = (hdrs s)(h := None) \<and> map_option s_curr (sreqs s t) = Some (Some h) \<and>
    s' = s2\<lparr>hdrs := (hdrs s2)(h := None)\<rparr> \<and>
    sap_out s' = sap_out s @
      (if memory then [SapResponse (sk_name sk) (snd (skey s t)) (fst (skey s t)) e
                        (case response of None \<Rightarrow> [] | Some bs \<Rightarrow> bs)] else []) \<and>
    (\<forall>a r. sreqs s' a = Some r \<longrightarrow> (\<exists>v. sreqs s a = Some v \<and> s_curr r = s_curr v)) \<and> sockets s' = sockets s"
proof -
  from pending_header [OF inv t] obtain r h m where
    r: "sreqs s t = Some r" "s_curr r = Some h" "hdrs s h = Some m" "h_token m = s_token r" "s_socketId r = k"
      "skey s t = (h_id m, h_token m)" by blast
  define s1 where "s1 = (if memory then sap_emit (SapResponse (sk_name sk) (h_token m) (h_id m) e
      (case response of None \<Rightarrow> [] | Some bs \<Rightarrow> bs)) s else s)"
  have inv1: "sap_inv s1 qs" using inv by (simp add: s1_def sap_inv_emit)
  have k1: "skey s1 = skey s" by (simp add: s1_def)
  have f1: "sreqs s1 = sreqs s" "hdrs s1 = hdrs s" "sockets s1 = sockets s" by (simp_all add: s1_def)
  have "(h_id m, h_token m) \<in> skey s1 ` set (qs k)" using t r(6) k1 by force
  with checkAndDequeue_ok [OF inv1, of "h_id m" "h_token m" k] obtain us x vs s2 where
    x: "qs k = us @ x # vs" "skey s x = skey s t" "skey s t \<notin> skey s ` set us"
      "checkAndDequeue k (h_id m) (h_token m) s1 = Some (True, s2)" "sap_inv s2 (qs(k := us @ vs))"
      "sreqs s2 x = None" "hdrs s2 = hdrs s" "sap_out s2 = sap_out s1" "sockets s2 = sockets s"
      "\<forall>a r. sreqs s2 a = Some r \<longrightarrow> (\<exists>v. sreqs s a = Some v \<and> s_curr r = s_curr v)"
    using r(6) k1 f1 by auto
  let ?s' = "s2\<lparr>hdrs := (hdrs s2)(h := None)\<rparr>"
  have "free_hdr h s2 = Some ?s'" using r(3) x(7) by (simp add: free_hdr_def)
  then have "onRequestComplete memory sk (Some t) e response s = Some ?s'"
    using r x(4) getSocketById_id [OF sk] by (simp add: onRequestComplete_def s1_def [symmetric] Let_def)
  then have "sOnRequestComplete memory t e response s = Some ?s'"
    using r sk by (simp add: sOnRequestComplete_def)
  moreover have "sap_out ?s' = sap_out s @
      (if memory then [SapResponse (sk_name sk) (snd (skey s t)) (fst (skey s t)) e
                        (case response of None \<Rightarrow> [] | Some bs \<Rightarrow> bs)] else [])"
    using x(8) r(6) by (simp add: s1_def)
  ultimately show ?thesis
    using x r
    by - (rule exI [where x = us], rule exI [where x = x], rule exI [where x = vs], rule exI [where x = h],
        rule exI [where x = s2], rule exI [where x = ?s'], simp)
qed

section \<open>Dispatch\<close>

lemma dispatch_ok:
  assumes inv: "sap_inv s qs" and m: "hdrs s req = Some m"
    and un: "\<forall>a r. sreqs s a = Some r \<longrightarrow> s_curr r \<noteq> Some req"
    and p: "salloc mem s = Some p" and uim: "sk_uimFuncs sk = Some True" and k: "k = sk_id sk"
  shows "\<exists>s'. dispatchRequest sk mem req s = Some s' \<and> sap_inv s' (qs(k := p # qs k)) \<and>
    skey s' p = (h_id m, h_token m) \<and> (\<forall>a. a \<noteq> p \<longrightarrow> skey s' a = skey s a) \<and>
    sap_out s' = sap_out s @ [SapOnRequest (h_id m) (h_payload m) p k] \<and>
    hdrs s' = hdrs s \<and> sockets s' = sockets s \<and> sims s' = sims s \<and>
    sreqs s' = (sreqs s)(p \<mapsto> \<lparr>s_token = h_token m, s_curr = Some req, s_next = front s k, s_socketId = k\<rparr>)"
proof -
  have fresh: "sreqs s p = None" "mem = Some p" using p by (auto simp: salloc_def split: option.splits if_splits)
  let ?r = "\<lparr>s_token = h_token m, s_curr = Some req, s_next = front s k, s_socketId = k\<rparr>"
  let ?s1 = "s\<lparr>sreqs := (sreqs s)(p \<mapsto> ?r), front := (front s)(k := Some p)\<rparr>"
  let ?s' = "sap_emit (SapOnRequest (h_id m) (h_payload m) p k) ?s1"
  have enq: "enqueue k p (s\<lparr>sreqs := (sreqs s)(p \<mapsto>
      \<lparr>s_token = h_token m, s_curr = Some req, s_next = None, s_socketId = k\<rparr>)\<rparr>) = Some ?s1"
    by (cases "front s k") (simp_all add: enqueue_def)
  have run: "dispatchRequest sk mem req s = Some ?s'"
    using m p uim enq by (simp add: dispatchRequest_def flip: k)
  have sn: "snext ?s1 = (snext s)(p \<mapsto> front s k)" by (auto simp: snext_def fun_eq_iff)
  have new: "p \<notin> set (qs j)" for j using fresh sap_invD(3) [OF inv] by blast
  have "sap_inv ?s1 (qs(k := p # qs k))"
  proof (rule sap_invI)
    show "linked (snext ?s1) (front ?s1 j) ((qs(k := p # qs k)) j)" for j
    proof (cases "j = k")
      case True
      with linked_push [OF sap_invD(1) [OF inv, of k] new] show ?thesis unfolding sn by simp
    next
      case False
      with sap_invD(1) [OF inv, of j] show ?thesis unfolding sn by (simp add: linked_upd new)
    qed
    show "set ((qs(k := p # qs k)) i) \<inter> set ((qs(k := p # qs k)) j) = {}" if "i \<noteq> j" for i j
      using sap_invD(2) [OF inv that] new that by auto
    show "dom (sreqs ?s1) = (\<Union>j. set ((qs(k := p # qs k)) j))"
      using sap_invD(3) [OF inv] by (auto split: if_splits)
    show "s_socketId w = j" if "a \<in> set ((qs(k := p # qs k)) j)" "sreqs ?s1 a = Some w" for j a w
      using that sap_invD(4) [OF inv, of a j] new by (auto split: if_splits)
    show "\<exists>h m. s_curr w = Some h \<and> hdrs ?s1 h = Some m \<and> h_token m = s_token w" if "sreqs ?s1 a = Some w" for a w
      using that sap_invD(5) [OF inv, of a] m by (auto split: if_splits)
    show "a = b" if "sreqs ?s1 a = Some w" "sreqs ?s1 b = Some v" "s_curr w = s_curr v" for a b w v
      using that sap_invD(6) [OF inv, of a _ b] un [rule_format, of a] un [rule_format, of b] by (auto split: if_splits)
  qed
  moreover have "skey ?s1 p = (h_id m, h_token m)" using m by (simp add: skey_def)
  moreover have "skey ?s1 a = skey s a" if "a \<noteq> p" for a
    using that by (simp add: skey_def split: option.split)
  ultimately show ?thesis using run by (intro exI [of _ ?s']) (simp add: sap_inv_emit)
qed

lemma receive_inv:
  assumes inv: "sap_inv s qs" and h: "hdrs s h = None"
  shows "sap_inv (s\<lparr>hdrs := (hdrs s)(h \<mapsto> m)\<rparr>) qs"
    "\<forall>a r. sreqs (s\<lparr>hdrs := (hdrs s)(h \<mapsto> m)\<rparr>) a = Some r \<longrightarrow> s_curr r \<noteq> Some h"
    "\<And>a. skey (s\<lparr>hdrs := (hdrs s)(h \<mapsto> m)\<rparr>) a = skey s a"
proof -
  let ?s = "s\<lparr>hdrs := (hdrs s)(h \<mapsto> m)\<rparr>"
  have un: "s_curr r \<noteq> Some h" if "sreqs ?s a = Some r" for a r
    using that sap_invD(5) [OF inv, of a r] h by auto
  then show "\<forall>a r. sreqs ?s a = Some r \<longrightarrow> s_curr r \<noteq> Some h" by blast
  show "sap_inv ?s qs"
  proof (rule sap_invI)
    show "linked (snext ?s) (front ?s k) (qs k)" for k
      using sap_invD(1) [OF inv, of k] snext_cong [of ?s s] by simp
    show "\<exists>g m. s_curr r = Some g \<and> hdrs ?s g = Some m \<and> h_token m = s_token r" if "sreqs ?s a = Some r" for a r
      using that sap_invD(5) [OF inv, of a r] un [of a r] by auto
  qed (use sap_invD(2,3,4,6) [OF inv] in \<open>simp_all\<close>)
  show "skey ?s a = skey s a" for a
  proof (cases "sreqs s a")
    case (Some r)
    with sap_invD(5) [OF inv Some] h show ?thesis by (auto simp: skey_def)
  qed (simp add: skey_def)
qed

section \<open>The queue as a store of keys\<close>

definition pend_of :: "int \<Rightarrow> sap_state \<Rightarrow> addr set" where
  "pend_of k s = {a. \<exists>r. sreqs s a = Some r \<and> s_socketId r = k}"

lemma pend_of_queue: "sap_inv s qs \<Longrightarrow> pend_of k s = set (qs k)"
proof (rule set_eqI)
  fix a assume inv: "sap_inv s qs"
  show "a \<in> pend_of k s \<longleftrightarrow> a \<in> set (qs k)"
  proof
    assume "a \<in> pend_of k s"
    then obtain r where r: "sreqs s a = Some r" "s_socketId r = k" by (auto simp: pend_of_def)
    then have "a \<in> dom (sreqs s)" by blast
    then obtain j where j: "a \<in> set (qs j)" using sap_invD(3) [OF inv] by blast
    from sap_invD(4) [OF inv j r(1)] r(2) j show "a \<in> set (qs k)" by simp
  next
    assume "a \<in> set (qs k)"
    from pending_header [OF inv this] show "a \<in> pend_of k s" by (auto simp: pend_of_def)
  qed
qed

definition claim_key :: "int \<Rightarrow> int \<times> int \<Rightarrow> sap_state \<Rightarrow> (bool \<times> sap_state) option" where
  "claim_key k key s = checkAndDequeue k (fst key) (snd key) s"

definition unique_keys :: "int \<Rightarrow> sap_state \<Rightarrow> bool" where
  "unique_keys k s \<longleftrightarrow> (\<exists>qs. sap_inv s qs \<and> distinct (map (skey s) (qs k)))"

text \<open>A message arrives at address \<open>h\<close> and is dispatched with a request at \<open>p\<close>.\<close>

definition enter_message :: "int \<Rightarrow> addr \<Rightarrow> addr \<Rightarrow> u8 list \<Rightarrow> int \<times> int \<Rightarrow> sap_state \<Rightarrow> sap_state" where
  "enter_message k p h payload key s =
     (let m = \<lparr>h_token = snd key, h_type = MsgType_REQUEST, h_id = fst key, h_error = 0, h_payload = payload\<rparr>;
          sk = \<lparr>sk_name = ''slot1'', sk_id = k, sk_uimFuncs = Some True\<rparr>
      in case dispatchRequest sk (Some p) h (s\<lparr>hdrs := (hdrs s)(h \<mapsto> m)\<rparr>) of
           None \<Rightarrow> s | Some s' \<Rightarrow> s')"

lemma claim_key_ok:
  assumes "unique_keys k s"
  shows "\<exists>s'. claim_key k key s = Some (key \<in> skey s ` pend_of k s, s') \<and> unique_keys k s' \<and>
    skey s' ` pend_of k s' = skey s ` pend_of k s - {key}"
proof -
  from assms obtain qs where qs: "sap_inv s qs" "distinct (map (skey s) (qs k))" by (auto simp: unique_keys_def)
  note P = pend_of_queue [OF qs(1), of k]
  show ?thesis
  proof (cases "key \<in> skey s ` set (qs k)")
    case False
    then have "claim_key k key s = Some (False, s)"
      using checkAndDequeue_ok [OF qs(1), of "fst key" "snd key" k] by (simp add: claim_key_def)
    with False assms P show ?thesis by simp
  next
    case True
    with checkAndDequeue_ok [OF qs(1), of "fst key" "snd key" k] obtain us x vs s' where
      c: "qs k = us @ x # vs" "skey s x = key" "checkAndDequeue k (fst key) (snd key) s = Some (True, s')"
        "sap_inv s' (qs(k := us @ vs))" "\<forall>a. a \<noteq> x \<longrightarrow> skey s' a = skey s a"
      by auto
    have d: "key \<notin> skey s ` set (us @ vs)" "x \<notin> set (us @ vs)" "distinct (map (skey s) (us @ vs))"
      using qs(2) c(1,2) by auto
    have same: "map (skey s') (us @ vs) = map (skey s) (us @ vs)" using c(5) d(2) by auto
    have P': "pend_of k s' = set (us @ vs)" using pend_of_queue [OF c(4), of k] by simp
    have "skey s' ` set (us @ vs) = skey s ` set (us @ vs)"
      using arg_cong [OF same, of set] by (simp only: set_map)
    moreover have "skey s ` set (qs k) = insert key (skey s ` set (us @ vs))" using c(1,2) by auto
    ultimately have "skey s' ` pend_of k s' = skey s ` pend_of k s - {key}" using d(1) P P' by simp
    moreover have "unique_keys k s'" using c(4) d(3)
      unfolding unique_keys_def same [symmetric] by (intro exI [of _ "qs(k := us @ vs)"]) simp
    ultimately show ?thesis using c(3) True P by (simp add: claim_key_def)
  qed
qed

interpretation sapq: token_store "unique_keys k" "\<lambda>s. skey s ` pend_of k s" "enter_message k p h payload" "claim_key k"
  "\<lambda>key s. key \<notin> skey s ` pend_of k s \<and> hdrs s h = None \<and> sreqs s p = None \<and> hdrs s p = None \<and> p \<noteq> h"
  for k p h payload
proof
  fix s key
  assume inv: "unique_keys k s"
    and f: "key \<notin> skey s ` pend_of k s \<and> hdrs s h = None \<and> sreqs s p = None \<and> hdrs s p = None \<and> p \<noteq> h"
  from inv obtain qs where qs: "sap_inv s qs" "distinct (map (skey s) (qs k))" by (auto simp: unique_keys_def)
  let ?m = "\<lparr>h_token = snd key, h_type = MsgType_REQUEST, h_id = fst key, h_error = 0, h_payload = payload\<rparr>"
  let ?sk = "\<lparr>sk_name = ''slot1'', sk_id = k, sk_uimFuncs = Some True\<rparr>"
  let ?s1 = "s\<lparr>hdrs := (hdrs s)(h \<mapsto> ?m)\<rparr>"
  note R = receive_inv [OF qs(1) f [THEN conjunct2, THEN conjunct1], of ?m]
  have "hdrs ?s1 h = Some ?m" "salloc (Some p) ?s1 = Some p" "sk_uimFuncs ?sk = Some True" "k = sk_id ?sk"
    using f by (simp_all add: salloc_def)
  from dispatch_ok [OF R(1) this(1) R(2) this(2-4)] obtain s' where
    s': "dispatchRequest ?sk (Some p) h ?s1 = Some s'" "sap_inv s' (qs(k := p # qs k))" "skey s' p = key"
      "\<forall>a. a \<noteq> p \<longrightarrow> skey s' a = skey ?s1 a"
    by auto
  have run: "enter_message k p h payload key s = s'" using s'(1) by (simp add: enter_message_def)
  have "p \<notin> set (qs k)" using f sap_invD(3) [OF qs(1)] by blast
  then have same: "map (skey s') (qs k) = map (skey s) (qs k)" using s'(4) R(3) by (metis map_cong)
  have P: "pend_of k s = set (qs k)" "pend_of k s' = insert p (set (qs k))"
    using pend_of_queue [OF qs(1), of k] pend_of_queue [OF s'(2), of k] by simp_all
  have img: "skey s' ` set (qs k) = skey s ` set (qs k)" using arg_cong [OF same, of set] by (simp only: set_map)
  have "distinct (map (skey s') (p # qs k))"
    using qs(2) f P(1) unfolding list.map distinct.simps set_map same img s'(3) by simp
  then have "unique_keys k s'"
    using s'(2) unfolding unique_keys_def by (intro exI [of _ "qs(k := p # qs k)"]) simp
  moreover have "skey s' ` pend_of k s' = insert key (skey s ` pend_of k s)" using P img s'(3) by simp
  ultimately show "unique_keys k (enter_message k p h payload key s) \<and>
      skey (enter_message k p h payload key s) ` pend_of k (enter_message k p h payload key s) =
        insert key (skey s ` pend_of k s)"
    unfolding run by simp
  show "key \<notin> skey s ` pend_of k s" using f by simp
next
  fix s key
  assume "unique_keys k s"
  from claim_key_ok [OF this] show "\<exists>s'. claim_key k key s = Some (key \<in> skey s ` pend_of k s, s') \<and> unique_keys k s' \<and>
      skey s' ` pend_of k s' = skey s ` pend_of k s - {key}" .
qed

section \<open>A running example\<close>

text \<open>One socket, the first SIM's, and the requests with the given keys dispatched in turn.\<close>

definition sap0 :: sap_state where
  "sap0 = \<lparr>sims = 1, sockets = [], front = (\<lambda>_. None), sreqs = (\<lambda>_. None), hdrs = (\<lambda>_. None), sap_out = []\<rparr>"

definition sap1 :: sap_state where
  "sap1 = initSapSocket True ''slot1'' True sap0"

definition sap2 :: "int \<times> int \<Rightarrow> sap_state" where
  "sap2 key = enter_message 0 11 10 [1] (3, 7) (enter_message 0 21 20 [2] key sap1)"

lemmas sap_eval = sap0_def sap1_def sap2_def enter_message_def dispatchRequest_def enqueue_def salloc_def sap_emit_def
  initSapSocket_def addSocketToList_def SocketExists_def getSocketById_def skey_def

lemma sap1_inv: "sap_inv sap1 (\<lambda>_. [])"
  by (simp add: sap_inv_def sap_eval)

lemma sap2_queue: "sap_inv (sap2 key) ((\<lambda>_. [])(0 := [11, 21]))"
  by (auto simp: sap_inv_def sap_eval snext_def split: if_splits)

section \<open>Properties\<close>

text \<open>
  C18. Completing a pending SAP request whose key (message id and token) no other pending request of
  the socket has: the response carries its token and message id, the request and its header are
  freed, the other requests of the queue stay in order, and no freed memory is read.
\<close>

theorem sap_completed:
  assumes inv: "sap_inv s qs" and t: "t \<in> set (qs k)" and sk: "getSocketById k s = Some sk"
    and key: "distinct (map (skey s) (qs k))"
  shows "\<exists>s' h. sOnRequestComplete memory t e response s = Some s' \<and>
    sap_inv s' (qs(k := remove1 t (qs k))) \<and> sreqs s' t = None \<and>
    map_option s_curr (sreqs s t) = Some (Some h) \<and> hdrs s' = (hdrs s)(h := None) \<and>
    sap_out s' = sap_out s @
      (if memory then [SapResponse (sk_name sk) (snd (skey s t)) (fst (skey s t)) e
                        (case response of None \<Rightarrow> [] | Some bs \<Rightarrow> bs)] else [])"
proof -
  from complete_first [OF inv t sk, of memory e response] obtain us x vs h s2 s' where
    c: "qs k = us @ x # vs" "skey s x = skey s t" "sOnRequestComplete memory t e response s = Some s'"
      "sap_inv s2 (qs(k := us @ vs))" "sreqs s' = sreqs s2" "sreqs s2 x = None" "hdrs s' = (hdrs s)(h := None)"
      "map_option s_curr (sreqs s t) = Some (Some h)" "s' = s2\<lparr>hdrs := (hdrs s2)(h := None)\<rparr>"
      "sap_out s' = sap_out s @
        (if memory then [SapResponse (sk_name sk) (snd (skey s t)) (fst (skey s t)) e
                          (case response of None \<Rightarrow> [] | Some bs \<Rightarrow> bs)] else [])" and
    cur: "\<forall>a r. sreqs s' a = Some r \<longrightarrow> (\<exists>v. sreqs s a = Some v \<and> s_curr r = s_curr v)"
    by blast
  have d: "distinct (qs k)" using key by (simp add: distinct_map)
  have "x \<in> set (qs k)" using c(1) by simp
  then have xt: "x = t" using key t c(2) by (auto simp: distinct_map inj_on_def)
  have un: "s_curr r \<noteq> Some h" if "sreqs s2 a = Some r" for a r
  proof
    assume eq: "s_curr r = Some h"
    from cur that c(5) obtain v where v: "sreqs s a = Some v" "s_curr v = Some h" using eq by force
    from c(8) obtain w where w: "sreqs s t = Some w" "s_curr w = Some h" by auto
    have "a = t" by (rule sap_invD(6) [OF inv v(1) w(1)]) (simp add: v w)
    with that c(6) xt show False by simp
  qed
  have "sap_inv s' (qs(k := us @ vs))" unfolding c(9) by (rule free_hdr_inv [OF c(4) un])
  moreover have "remove1 t (qs k) = us @ vs" by (rule remove1_key [OF c(1) xt d])
  ultimately show ?thesis using c xt by (intro exI [of _ s'] exI [of _ h]) simp
qed

theorem sap_completed_witness:
  "\<exists>s' h. sOnRequestComplete True 21 0 (Some [5]) (sap2 (4, 8)) = Some s' \<and>
    sap_inv s' ((\<lambda>_. [])(0 := [11])) \<and> sreqs s' 21 = None \<and>
    sap_out s' = [SapOnRequest 4 [2] 21 0, SapOnRequest 3 [1] 11 0, SapResponse ''slot1'' 8 4 0 [5]]"
  using sap_completed [OF sap2_queue [of "(4, 8)"], where t = 21 and k = 0 and memory = True and e = 0
      and response = "Some [5]" and sk = "\<lparr>sk_name = ''slot1'', sk_id = 0, sk_uimFuncs = Some True\<rparr>"]
  by (simp add: sap_eval) blast

text \<open>
  C19. Two pending requests of a socket with the same message id and token: completing the older one
  frees the newer one, leaves the older one queued with a freed header, and the vendor's completion of
  the newer one then reads freed memory.
\<close>

theorem sap_duplicate_key:
  assumes inv: "sap_inv s qs" and sk: "getSocketById k s = Some sk"
    and q: "qs k = u # vs" "t \<in> set vs" "skey s u = skey s t"
  shows "\<exists>s' r h. sOnRequestComplete memory t e response s = Some s' \<and> sreqs s' u = None \<and>
    sreqs s' t = Some r \<and> s_curr r = Some h \<and> hdrs s' h = None \<and>
    sOnRequestComplete memory' u e' response' s' = None"
proof -
  have t: "t \<in> set (qs k)" using q by simp
  from complete_first [OF inv t sk, of memory e response] obtain us x ws h s2 s' where
    c: "qs k = us @ x # ws" "skey s x = skey s t" "skey s t \<notin> skey s ` set us"
      "sOnRequestComplete memory t e response s = Some s'"
      "sap_inv s2 (qs(k := us @ ws))" "sreqs s' = sreqs s2" "sreqs s2 x = None" "hdrs s' = (hdrs s)(h := None)"
      "map_option s_curr (sreqs s t) = Some (Some h)" and
    cur: "\<forall>a r. sreqs s' a = Some r \<longrightarrow> (\<exists>v. sreqs s a = Some v \<and> s_curr r = s_curr v)"
    by blast
  have "us = []" using c(1,3) q(1,3) by (cases us) auto
  then have x: "x = u" "ws = vs" using c(1) q(1) by simp_all
  have "t \<in> set ((qs(k := us @ ws)) k)" using q(2) \<open>us = []\<close> x by simp
  then have "t \<in> dom (sreqs s2)" unfolding sap_invD(3) [OF c(5)] by blast
  then obtain r where r: "sreqs s' t = Some r" using c(6) by auto
  from cur [rule_format, OF r] c(9) have "s_curr r = Some h" by auto
  with r c x show ?thesis by (auto simp: sOnRequestComplete_def)
qed

theorem sap_duplicate_key_witness:
  "\<exists>s' r h. sOnRequestComplete True 21 0 None (sap2 (3, 7)) = Some s' \<and> sreqs s' 11 = None \<and>
    sreqs s' 21 = Some r \<and> s_curr r = Some h \<and> hdrs s' h = None \<and>
    sOnRequestComplete True 11 0 None s' = None"
  using sap_duplicate_key [OF sap2_queue [of "(3, 7)"], where t = 21 and u = 11 and k = 0 and vs = "[21]"
      and sk = "\<lparr>sk_name = ''slot1'', sk_id = 0, sk_uimFuncs = Some True\<rparr>" and memory = True and e = 0
      and response = None and memory' = True and e' = 0 and response' = None]
  by (simp add: sap_eval)

text \<open>
  C17. A SAP message that arrives is handed to the vendor library with its id and payload, as the newest
  request of its socket; when the vendor completes it, the answer carries the message's token and id,
  and the queues, the pending requests and the headers in memory are again those from before the
  message: nothing leaks. This holds whatever keys the other pending requests have.
\<close>

theorem sap_request_roundtrip:
  assumes inv: "sap_inv s qs" and h: "hdrs s h = None"
    and p: "sreqs s p = None" "hdrs s p = None" "p \<noteq> h"
    and sk: "getSocketById k s = Some sk" "sk_uimFuncs sk = Some True"
  shows "\<exists>s1 s2. dispatchRequest sk (Some p) h (s\<lparr>hdrs := (hdrs s)(h \<mapsto> m)\<rparr>) = Some s1 \<and>
    sap_inv s1 (qs(k := p # qs k)) \<and> sOnRequestComplete True p e (Some bs) s1 = Some s2 \<and>
    sap_inv s2 qs \<and> hdrs s2 = hdrs s \<and> dom (sreqs s2) = dom (sreqs s) \<and>
    sap_out s2 = sap_out s @ [SapOnRequest (h_id m) (h_payload m) p k,
                              SapResponse (sk_name sk) (h_token m) (h_id m) e bs]"
proof -
  let ?s = "s\<lparr>hdrs := (hdrs s)(h \<mapsto> m)\<rparr>"
  have id: "k = sk_id sk" using sk(1) by (auto simp: getSocketById_def find_Some_iff)
  note R = receive_inv [OF inv h, of m]
  have "hdrs ?s h = Some m" "salloc (Some p) ?s = Some p" using p by (simp_all add: salloc_def)
  from dispatch_ok [OF R(1) this(1) R(2) this(2) sk(2) id] obtain s1 where
    s1: "dispatchRequest sk (Some p) h ?s = Some s1" "sap_inv s1 (qs(k := p # qs k))"
      "skey s1 p = (h_id m, h_token m)" "hdrs s1 = hdrs ?s" "sockets s1 = sockets ?s"
      "sap_out s1 = sap_out s @ [SapOnRequest (h_id m) (h_payload m) p k]"
      "map_option s_curr (sreqs s1 p) = Some (Some h)"
    by auto
  have "getSocketById k s1 = Some sk" using sk(1) s1(5) by (simp add: getSocketById_def)
  moreover have "p \<in> set ((qs(k := p # qs k)) k)" by simp
  ultimately obtain us x vs g s2 s3 where
    c: "p # qs k = us @ x # vs" "skey s1 p \<notin> skey s1 ` set us"
      "sOnRequestComplete True p e (Some bs) s1 = Some s3" "sap_inv s2 (qs(k := us @ vs))"
      "sreqs s3 = sreqs s2" "sreqs s2 x = None" "hdrs s3 = (hdrs s1)(g := None)"
      "map_option s_curr (sreqs s1 p) = Some (Some g)" "s3 = s2\<lparr>hdrs := (hdrs s2)(g := None)\<rparr>"
      "sap_out s3 = sap_out s1 @ [SapResponse (sk_name sk) (snd (skey s1 p)) (fst (skey s1 p)) e bs]" and
    cur: "\<forall>a r. sreqs s3 a = Some r \<longrightarrow> (\<exists>v. sreqs s1 a = Some v \<and> s_curr r = s_curr v)"
    using complete_first [OF s1(2), of p k sk True e "Some bs"] by (auto simp del: map_option_eq_Some) 
  have "us = []" using c(1,2) by (cases us) auto
  then have x: "x = p" "vs = qs k" using c(1) by simp_all
  have g: "g = h" using c(8) s1(7) by simp
  have un: "s_curr r \<noteq> Some g" if "sreqs s2 a = Some r" for a r
  proof
    assume eq: "s_curr r = Some g"
    from cur that c(5) obtain v where v: "sreqs s1 a = Some v" "s_curr v = Some g" using eq by force
    from c(8) obtain w where w: "sreqs s1 p = Some w" "s_curr w = Some g" by auto
    have "a = p" by (rule sap_invD(6) [OF s1(2) v(1) w(1)]) (simp add: v w)
    with that c(6) x show False by simp
  qed
  have i3: "sap_inv s3 qs" using free_hdr_inv [OF c(4) un] c(9) x \<open>us = []\<close> by simp
  have "hdrs s3 = hdrs s" using c(7) s1(4) g h by (simp add: fun_eq_iff)
  moreover have "dom (sreqs s3) = dom (sreqs s)" using sap_invD(3) [OF i3] sap_invD(3) [OF inv] by simp
  ultimately show ?thesis using s1 c i3 by auto
qed

theorem sap_request_roundtrip_witness:
  "\<exists>s1 s2. dispatchRequest \<lparr>sk_name = ''slot1'', sk_id = 0, sk_uimFuncs = Some True\<rparr> (Some 5) 4
      (sap1\<lparr>hdrs := (hdrs sap1)(4 \<mapsto> \<lparr>h_token = 9, h_type = MsgType_REQUEST, h_id = 2, h_error = 0, h_payload = [6]\<rparr>)\<rparr>) =
      Some s1 \<and> sOnRequestComplete True 5 1 (Some [8]) s1 = Some s2 \<and> dom (sreqs s2) = {} \<and>
    sap_out s2 = [SapOnRequest 2 [6] 5 0, SapResponse ''slot1'' 9 2 1 [8]]"
  using sap_request_roundtrip [OF sap1_inv, where h = 4 and p = 5 and k = 0 and e = 1 and bs = "[8]"
      and sk = "\<lparr>sk_name = ''slot1'', sk_id = 0, sk_uimFuncs = Some True\<rparr>"
      and m = "\<lparr>h_token = 9, h_type = MsgType_REQUEST, h_id = 2, h_error = 0, h_payload = [6]\<rparr>"]
  by (simp add: sap_eval) blast

text \<open>
  While the keys of a socket's pending requests are distinct, a message that enters the queue is
  found by the first lookup of its key and by no later one, and the lookups leave the keys of the
  other requests pending.
\<close>

theorem sap_key_found_once:
  assumes "unique_keys k s" "key \<notin> skey s ` pend_of k s"
    and "hdrs s h = None" "sreqs s p = None" "hdrs s p = None" "p \<noteq> h"
  shows "\<exists>s1 s2. checkAndDequeue k (fst key) (snd key) (enter_message k p h payload key s) = Some (True, s1) \<and>
    skey s1 ` pend_of k s1 = skey s ` pend_of k s \<and>
    checkAndDequeue k (fst key) (snd key) s1 = Some (False, s2) \<and>
    skey s2 ` pend_of k s2 = skey s ` pend_of k s"
proof -
  from assms have "key \<notin> skey s ` pend_of k s \<and> hdrs s h = None \<and> sreqs s p = None \<and> hdrs s p = None \<and> p \<noteq> h" by simp
  note fresh = sapq.fresh_add [OF assms(1) this, where payload = payload]
  from sapq.claim_added [OF assms(1) \<open>key \<notin> _ \<and> _\<close>, where payload = payload] obtain s1 where
    s1: "claim_key k key (enter_message k p h payload key s) = Some (True, s1)"
      "skey s1 ` pend_of k s1 = skey s ` pend_of k s" by blast
  from sapq.claim_twice [OF fresh [THEN conjunct1] s1(1)] s1 show ?thesis
    by (auto simp: claim_key_def)
qed

theorem sap_key_found_once_witness:
  "\<exists>s1 s2. checkAndDequeue 0 3 7 (enter_message 0 5 4 [] (3, 7) sap1) = Some (True, s1) \<and>
    checkAndDequeue 0 3 7 s1 = Some (False, s2)"
proof -
  have "unique_keys 0 sap1" using sap1_inv unfolding unique_keys_def by (intro exI [of _ "\<lambda>_. []"]) simp
  from sap_key_found_once [OF this, where key = "(3, 7)" and h = 4 and p = 5 and payload = "[]"] show ?thesis
    by (simp add: pend_of_def) (auto simp: sap_eval)
qed

text \<open>The socket list: every socket has the name and id of one of the build's SIM slots, once.\<close>

definition slot_names :: "string list" where
  "slot_names = [''slot1'', ''slot2'', ''slot3'', ''slot4'']"

definition sockets_ok :: "sap_state \<Rightarrow> bool" where
  "sockets_ok s \<longleftrightarrow> distinct (map sk_name (sockets s)) \<and>
     (\<forall>k\<in>set (sockets s). \<exists>i<4. (i = 0 \<or> i < sims s) \<and> sk_name k = slot_names ! i \<and> sk_id k = int i)"

definition add_slot :: "bool \<Rightarrow> string \<Rightarrow> nat \<Rightarrow> bool \<Rightarrow> sap_state \<Rightarrow> sap_state" where
  "add_slot memory name i uim s =
     (if name = slot_names ! i \<and> (i = 0 \<or> i < sims s) \<and> \<not> SocketExists name s
      then addSocketToList memory name (int i) uim s else s)"

lemma initSapSocket_slots:
  "initSapSocket memory name uim s =
     add_slot memory name 3 uim (add_slot memory name 2 uim (add_slot memory name 1 uim (add_slot memory name 0 uim s)))"
proof -
  have n: "slot_names ! 0 = ''slot1''" "slot_names ! 1 = ''slot2''" "slot_names ! 2 = ''slot3''" "slot_names ! 3 = ''slot4''"
    by (simp_all add: slot_names_def)
  have le: "(2 \<le> k ) = (1 < k)" "(3 \<le> k) = (2 < k)" "(4 \<le> k) = (3 < k)" for k :: nat by auto
  have step: "(if name = ''slot1'' \<and> \<not> SocketExists name t then addSocketToList memory name 0 uim t else t) =
      add_slot memory name 0 uim t"
    "(if 2 \<le> sims t then if name = ''slot2'' \<and> \<not> SocketExists name t then addSocketToList memory name 1 uim t
      else t else t) = add_slot memory name 1 uim t"
    "(if 3 \<le> sims t then if name = ''slot3'' \<and> \<not> SocketExists name t then addSocketToList memory name 2 uim t
      else t else t) = add_slot memory name 2 uim t"
    "(if 4 \<le> sims t then if name = ''slot4'' \<and> \<not> SocketExists name t then addSocketToList memory name 3 uim t
      else t else t) = add_slot memory name 3 uim t" for t
    by (simp_all only: add_slot_def n le) auto
  show ?thesis unfolding initSapSocket_def Let_def step ..
qed

lemma slot_names_inj: "i < 4 \<Longrightarrow> j < 4 \<Longrightarrow> slot_names ! i = slot_names ! j \<Longrightarrow> i = j"
proof -
  assume "i < 4" "j < 4" "slot_names ! i = slot_names ! j"
  moreover have "distinct slot_names" "length slot_names = 4" by (simp_all add: slot_names_def)
  ultimately show "i = j" by (simp add: nth_eq_iff_index_eq)
qed

lemma add_slot_ok:
  assumes "sockets_ok s" "i < 4"
  shows "sockets_ok (add_slot memory name i uim s)" "sims (add_slot memory name i uim s) = sims s"
    "set (sockets s) \<subseteq> set (sockets (add_slot memory name i uim s))"
    "memory \<Longrightarrow> name = slot_names ! i \<Longrightarrow> i = 0 \<or> i < sims s \<Longrightarrow> SocketExists name (add_slot memory name i uim s)"
  using assms
  by (auto simp: add_slot_def addSocketToList_def sockets_ok_def SocketExists_def list_ex_iff)

lemma socket_of_name:
  assumes "sockets_ok s" "SocketExists (slot_names ! i) s" "i < 4"
  shows "\<exists>k. getSocketById (int i) s = Some k \<and> sk_name k = slot_names ! i"
proof -
  from assms(2) obtain k where k: "k \<in> set (sockets s)" "sk_name k = slot_names ! i"
    by (auto simp: SocketExists_def list_ex_iff)
  with assms(1,3) slot_names_inj have "sk_id k = int i" by (fastforce simp: sockets_ok_def)
  then obtain g where g: "getSocketById (int i) s = Some g"
    using k(1) by (cases "getSocketById (int i) s") (auto simp: getSocketById_def find_None_iff)
  then have "g \<in> set (sockets s)" "sk_id g = int i" by (auto simp: getSocketById_def find_Some_iff)
  with assms(1) g show ?thesis by (fastforce simp: sockets_ok_def)
qed

text \<open>
  \<open>initSapSocket\<close> keeps the socket list well formed (names distinct, each socket with the id of its
  slot), and after it has run with memory available for a slot name of the build, looking up the
  slot's id finds the socket of that name; the sockets registered before are still there, and running
  it again changes nothing.
\<close>

theorem sap_socket_registered:
  assumes ok: "sockets_ok s" and i: "i < 4" "i = 0 \<or> i < sims s"
  shows "\<exists>s' k. initSapSocket True (slot_names ! i) uim s = s' \<and> sockets_ok s' \<and>
    getSocketById (int i) s' = Some k \<and> sk_name k = slot_names ! i \<and>
    set (sockets s) \<subseteq> set (sockets s') \<and> initSapSocket True (slot_names ! i) uim' s' = s'"
proof -
  define s1 where "s1 = add_slot True (slot_names ! i) 0 uim s"
  define s2 where "s2 = add_slot True (slot_names ! i) 1 uim s1"
  define s3 where "s3 = add_slot True (slot_names ! i) 2 uim s2"
  define s4 where "s4 = add_slot True (slot_names ! i) 3 uim s3"
  have run: "initSapSocket True (slot_names ! i) uim s = s4"
    by (simp add: initSapSocket_slots s1_def s2_def s3_def s4_def)
  note o1 = add_slot_ok [OF ok, where i = 0 and memory = True and name = "slot_names ! i" and uim = uim, folded s1_def]
  note o2 = add_slot_ok [OF o1(1), where i = 1 and memory = True and name = "slot_names ! i" and uim = uim, folded s2_def]
  note o3 = add_slot_ok [OF o2(1), where i = 2 and memory = True and name = "slot_names ! i" and uim = uim, folded s3_def]
  note o4 = add_slot_ok [OF o3(1), where i = 3 and memory = True and name = "slot_names ! i" and uim = uim, folded s4_def]
  have grow: "set (sockets s) \<subseteq> set (sockets s1)" "set (sockets s1) \<subseteq> set (sockets s2)"
    "set (sockets s2) \<subseteq> set (sockets s3)" "set (sockets s3) \<subseteq> set (sockets s4)" "sims s1 = sims s" "sims s2 = sims s1" "sims s3 = sims s2"
    using o1 o2 o3 o4 by simp_all
  have more: "SocketExists n s' \<Longrightarrow> set (sockets s') \<subseteq> set (sockets s'') \<Longrightarrow> SocketExists n s''" for n s' s''
    by (auto simp: SocketExists_def list_ex_iff)
  consider "i = 0" | "i = 1" | "i = 2" | "i = 3" using i(1) by linarith
  then have "SocketExists (slot_names ! i) s1 \<or> SocketExists (slot_names ! i) s2 \<or>
      SocketExists (slot_names ! i) s3 \<or> SocketExists (slot_names ! i) s4"
    using o1(4) o2(4) o3(4) o4(4) i(2) grow(5-7) by cases auto
  then have ex: "SocketExists (slot_names ! i) s4" using more grow(2-4) by blast
  have "sockets_ok s4" using o4(1) o3 by simp
  moreover from socket_of_name [OF this ex i(1)] obtain k where
    "getSocketById (int i) s4 = Some k" "sk_name k = slot_names ! i" by blast
  moreover have "initSapSocket True (slot_names ! i) uim' s4 = s4"
    using ex by (simp add: initSapSocket_def Let_def)
  ultimately show ?thesis using run grow by blast
qed

theorem sap_socket_registered_witness:
  "\<exists>s' k. initSapSocket True ''slot2'' True (sap1\<lparr>sims := 2\<rparr>) = s' \<and>
    getSocketById 1 s' = Some k \<and> sk_name k = ''slot2'' \<and> length (sockets s') = 2"
proof -
  have "sockets_ok (sap1\<lparr>sims := 2\<rparr>)" by (auto simp: sockets_ok_def sap_eval slot_names_def intro!: exI [of _ 0])
  from sap_socket_registered [OF this, where i = 1 and uim = True and uim' = True] show ?thesis
    by (simp add: slot_names_def) (auto simp: sap_eval)
qed

end
