(* ===== verification/SapService.thy ===== *)
theory SapService
  imports SapSocket "HOL-Library.Monad_Syntax"
begin

text \<open>
  The SIM access service, \<open>libril/sap_service.cpp\<close>: the methods of \<open>ISap\<close> encode a request, put it in
  a message for the socket of the slot (theory \<open>SapSocket\<close>) and dispatch it; the responses and indications of
  the socket are decoded and handed to the client. The protocol buffer functions, the values of the
  message ids and libhidl are not part of the repository: they are fields of the environment. A NULL
  client that is called and freed memory that is read are \<open>None\<close>.
\<close>

section \<open>Data\<close>

text \<open>The message ids the code names; the other values are \<open>OtherId\<close>.\<close>

datatype sap_id =
    SAP_CONNECT | SAP_DISCONNECT | SAP_APDU | SAP_TRANSFER_ATR | SAP_POWER | SAP_RESET_SIM | SAP_STATUS
  | SAP_TRANSFER_CARD_READER_STATUS | SAP_ERROR_RESP | SAP_SET_TRANSFER_PROTOCOL | OtherId int

text \<open>The request structures; the command of an APDU request may be absent.\<close>

datatype sap_req =
    ConnectReq int
  | DisconnectReq
  | ApduReq int "u8 list option"
  | TransferAtrReq
  | PowerReq bool
  | ResetSimReq
  | TransferCardReaderStatusReq
  | SetTransferProtocolReq int

text \<open>The response codes of the messages; another value, or one that a conversion does not name, is \<open>RspOther\<close>.\<close>

datatype proto_rsp =
    RspSUCCESS | RspGENERIC_FAILURE | RspSIM_NOT_READY | RspSIM_ALREADY_POWERED_OFF | RspSIM_ALREADY_POWERED_ON
  | RspSIM_ABSENT | RspSIM_DATA_NOT_AVAILABLE | RspOther int

text \<open>The descriptions of the message types a message is decoded with, and the decoded messages.\<close>

datatype sap_fields =
    CONNECT_RSP_fields | DISCONNECT_RSP_fields | DISCONNECT_IND_fields | APDU_RSP_fields | TRANSFER_ATR_RSP_fields
  | POWER_RSP_fields | RESET_SIM_RSP_fields | STATUS_IND_fields | TRANSFER_CARD_READER_STATUS_RSP_fields
  | ERROR_RSP_fields | SET_TRANSFER_PROTOCOL_RSP_fields

datatype sap_msg =
    ConnectRsp int int
  | DisconnectRsp
  | DisconnectInd int
  | ApduRsp proto_rsp "u8 list option"
  | TransferAtrRsp proto_rsp "u8 list option"
  | PowerRsp proto_rsp
  | ResetSimRsp proto_rsp
  | StatusInd int
  | TransferCardReaderStatusRsp proto_rsp int
  | ErrorRsp
  | SetTransferProtocolRsp proto_rsp

text \<open>\<open>SapResultCode\<close> of the HIDL interface, and the calls of the client.\<close>

datatype sap_result =
    ResSUCCESS | ResGENERIC_FAILURE | ResCARD_NOT_ACCESSSIBLE | ResCARD_ALREADY_POWERED_OFF | ResCARD_REMOVED
  | ResCARD_ALREADY_POWERED_ON | ResDATA_NOT_AVAILABLE | ResNOT_SUPPORTED

datatype connect_rsp = ConnectCast int | CONNECT_FAILURE

datatype sap_call =
    ConnectResponse int connect_rsp int
  | DisconnectResponse int
  | DisconnectIndication int int
  | ApduResponse int sap_result "u8 list"
  | TransferAtrResponse int sap_result "u8 list"
  | PowerResponse int sap_result
  | ResetSimResponse int sap_result
  | StatusIndication int int
  | TransferCardReaderStatusResponse int sap_result int
  | ErrorResponse int
  | TransferProtocolResponse int sap_result

section \<open>State\<close>

record sap_impl =
  sapCallback :: "addr option"
  rilSocketId :: int

text \<open>
  The sockets with their message headers, the other blocks of the heap, the next address, the services by
  slot, and the calls of clients so far.
\<close>

record sap_service =
  sv_sap :: sap_state
  sv_mem :: "addr \<Rightarrow> u8 list option"
  sv_allocs :: nat
  sapService :: "int \<Rightarrow> sap_impl option"
  sv_sent :: "(addr \<times> sap_call) list"

text \<open>
  The outside: the values of the ids and their inverse, which allocations fail, the encoded size of a
  request and its encoding into a buffer of a size, the decoding of a message, whether
  the last of a list of calls reached its client, what the vendor does to the sockets while its
  \<open>onRequest\<close> runs, and the token of a header nobody has set.
\<close>

record sap_env =
  MsgId :: "sap_id \<Rightarrow> int"
  id_of :: "int \<Rightarrow> sap_id"
  sap_oom :: "nat \<Rightarrow> bool"
  pb_get_encoded_size :: "sap_req \<Rightarrow> nat option"
  pb_encode :: "sap_req \<Rightarrow> nat \<Rightarrow> u8 list option"
  pb_decode :: "sap_fields \<Rightarrow> u8 list \<Rightarrow> sap_msg option"
  sap_reached :: "(addr \<times> sap_call) list \<Rightarrow> bool"
  sap_vendor :: "sap_state \<Rightarrow> sap_state option"
  unset_token :: int

section \<open>Memory and calls\<close>

definition sap_malloc :: "sap_env \<Rightarrow> u8 list \<Rightarrow> sap_service \<Rightarrow> addr option \<times> sap_service" where
  "sap_malloc E bs s =
     (if sap_oom E (sv_allocs s) then (None, s\<lparr>sv_allocs := Suc (sv_allocs s)\<rparr>)
      else (Some (sv_allocs s), s\<lparr>sv_allocs := Suc (sv_allocs s), sv_mem := (sv_mem s)(sv_allocs s \<mapsto> bs)\<rparr>))"

datatype sap_ptr = HdrPtr addr | MemPtr "addr option"

definition sap_free :: "sap_ptr \<Rightarrow> sap_service \<Rightarrow> sap_service option" where
  "sap_free p s =
     (case p of
        HdrPtr h \<Rightarrow> map_option (\<lambda>k. s\<lparr>sv_sap := k\<rparr>) (free_hdr h (sv_sap s))
      | MemPtr None \<Rightarrow> Some s
      | MemPtr (Some a) \<Rightarrow> if sv_mem s a = None then None else Some (s\<lparr>sv_mem := (sv_mem s)(a := None)\<rparr>))"

fun sap_free_all :: "sap_ptr list \<Rightarrow> sap_service \<Rightarrow> sap_service option" where
  "sap_free_all [] s = Some s"
| "sap_free_all (p # ps) s = do { s1 \<leftarrow> sap_free p s; sap_free_all ps s1 }"

definition sap_checkReturnStatus :: "int \<Rightarrow> bool \<Rightarrow> sap_service \<Rightarrow> sap_service option" where
  "sap_checkReturnStatus slotId isOk s =
     (case sapService s slotId of
        None \<Rightarrow> None
      | Some v \<Rightarrow>
          Some (if isOk then s else s\<lparr>sapService := (sapService s)(slotId \<mapsto> v\<lparr>sapCallback := None\<rparr>)\<rparr>))"

text \<open>A call of the client with the check of its status; there is no test that the client is not NULL.\<close>

definition call_sap_client :: "sap_env \<Rightarrow> int \<Rightarrow> sap_call \<Rightarrow> sap_service \<Rightarrow> sap_service option" where
  "call_sap_client E slotId c s =
     (case Option.bind (sapService s slotId) sapCallback of
        None \<Rightarrow> None
      | Some cb \<Rightarrow>
          (let s1 = s\<lparr>sv_sent := sv_sent s @ [(cb, c)]\<rparr>
           in sap_checkReturnStatus slotId (sap_reached E (sv_sent s1)) s1))"

definition setCallback :: "int \<Rightarrow> addr option \<Rightarrow> sap_service \<Rightarrow> sap_service option" where
  "setCallback slotId cb s =
     (case sapService s slotId of
        None \<Rightarrow> None
      | Some v \<Rightarrow> Some (s\<lparr>sapService := (sapService s)(slotId \<mapsto> v\<lparr>sapCallback := cb\<rparr>)\<rparr>))"

section \<open>Requests\<close>

definition createMsgHeader :: "sap_env \<Rightarrow> sap_id \<Rightarrow> int \<Rightarrow> sap_service \<Rightarrow> addr option \<times> sap_service" where
  "createMsgHeader E msgId tok s =
     (let s1 = s\<lparr>sv_allocs := Suc (sv_allocs s)\<rparr>
      in if sap_oom E (sv_allocs s) then (None, s1)
         else (Some (sv_allocs s),
               s1\<lparr>sv_sap := (sv_sap s)\<lparr>hdrs := (hdrs (sv_sap s))(sv_allocs s \<mapsto>
                    \<lparr>h_token = tok, h_type = MsgType_REQUEST, h_id = MsgId E msgId, h_error = 0, h_payload = []\<rparr>)\<rparr>\<rparr>))"

text \<open>The call that reports a failure; \<open>None\<close> is an id for which there is none.\<close>

definition failed_call :: "sap_id \<Rightarrow> int \<Rightarrow> sap_call option" where
  "failed_call msgId tok =
     (case msgId of
        SAP_CONNECT \<Rightarrow> Some (ConnectResponse tok CONNECT_FAILURE 0)
      | SAP_DISCONNECT \<Rightarrow> Some (DisconnectResponse tok)
      | SAP_APDU \<Rightarrow> Some (ApduResponse tok ResGENERIC_FAILURE [])
      | SAP_TRANSFER_ATR \<Rightarrow> Some (TransferAtrResponse tok ResGENERIC_FAILURE [])
      | SAP_POWER \<Rightarrow> Some (PowerResponse tok ResGENERIC_FAILURE)
      | SAP_RESET_SIM \<Rightarrow> Some (ResetSimResponse tok ResGENERIC_FAILURE)
      | SAP_TRANSFER_CARD_READER_STATUS \<Rightarrow> Some (TransferCardReaderStatusResponse tok ResGENERIC_FAILURE 0)
      | SAP_SET_TRANSFER_PROTOCOL \<Rightarrow> Some (TransferProtocolResponse tok ResNOT_SUPPORTED)
      | _ \<Rightarrow> None)"

definition sendFailedResponse ::
  "sap_env \<Rightarrow> int \<Rightarrow> sap_id \<Rightarrow> int \<Rightarrow> sap_ptr list \<Rightarrow> sap_service \<Rightarrow> sap_service option" where
  "sendFailedResponse E slotId msgId tok ptrs s = do {
     s1 \<leftarrow> sap_free_all ptrs s;
     case failed_call msgId tok of
       None \<Rightarrow> Some s1
     | Some c \<Rightarrow> call_sap_client E slotId c s1 }"

text \<open>
  The length is cut to 16 bits. The payload is freed through the message after the vendor was called, so
  the message must still be there then.
\<close>

definition addPayloadAndDispatchRequest ::
  "sap_env \<Rightarrow> int \<Rightarrow> addr \<Rightarrow> nat \<Rightarrow> addr \<Rightarrow> sap_service \<Rightarrow> sap_service option" where
  "addPayloadAndDispatchRequest E slotId msg bytes_written reqPtr s = do {
     m \<leftarrow> hdrs (sv_sap s) msg;
     bs \<leftarrow> sv_mem s reqPtr;
     let reqLen = bytes_written mod 2 ^ 16;
         data = take reqLen bs;
         (payload, s1) = sap_malloc E data s
     in case payload of
          None \<Rightarrow> sendFailedResponse E slotId (id_of E (h_id m)) (h_token m) [MemPtr (Some reqPtr), HdrPtr msg] s1
        | Some p \<Rightarrow>
            (let s2 = s1\<lparr>sv_sap := (sv_sap s1)\<lparr>hdrs := (hdrs (sv_sap s1))(msg \<mapsto> m\<lparr>h_payload := data\<rparr>)\<rparr>\<rparr>
             in case Option.bind (sapService s2 slotId) (\<lambda>v. getSocketById (rilSocketId v) (sv_sap s2)) of
                  None \<Rightarrow>
                    sendFailedResponse E slotId (id_of E (h_id m)) (h_token m)
                      [MemPtr (Some p), MemPtr (Some reqPtr), HdrPtr msg] s2
                | Some sapSocket \<Rightarrow> do {
                    let mem = (if sap_oom E (sv_allocs s2) then None else Some (sv_allocs s2));
                    k \<leftarrow> dispatchRequest sapSocket mem msg (sv_sap s2);
                    k1 \<leftarrow> (if mem = None then Some k else sap_vendor E k);
                    _ \<leftarrow> hdrs k1 msg;
                    sap_free_all [MemPtr (Some p), MemPtr (Some reqPtr)]
                      (s2\<lparr>sv_sap := k1, sv_allocs := Suc (sv_allocs s2)\<rparr>) }) }"

text \<open>What all methods do with their request; \<open>cmd\<close> is the block of an APDU's command.\<close>

definition encode_and_dispatch ::
  "sap_env \<Rightarrow> int \<Rightarrow> sap_id \<Rightarrow> int \<Rightarrow> sap_req \<Rightarrow> addr option \<Rightarrow> addr \<Rightarrow> sap_service \<Rightarrow> sap_service option" where
  "encode_and_dispatch E slotId msgId tok req cmd msg s =
     (case pb_get_encoded_size E req of
        None \<Rightarrow> sendFailedResponse E slotId msgId tok [MemPtr cmd, HdrPtr msg] s
      | Some encodedSize \<Rightarrow>
          (case sap_malloc E (replicate encodedSize 0) s of
             (None, s1) \<Rightarrow> sendFailedResponse E slotId msgId tok [MemPtr cmd, HdrPtr msg] s1
           | (Some buffer, s1) \<Rightarrow>
               (case pb_encode E req encodedSize of
                  None \<Rightarrow>
                    sendFailedResponse E slotId msgId tok [MemPtr cmd, MemPtr (Some buffer), HdrPtr msg] s1
                | Some bs \<Rightarrow>
                    addPayloadAndDispatchRequest E slotId msg (length bs) buffer
                      (s1\<lparr>sv_mem := (sv_mem s1)(buffer \<mapsto> bs @ replicate (encodedSize - length bs) 0)\<rparr>))))"

definition with_header ::
  "sap_env \<Rightarrow> int \<Rightarrow> sap_id \<Rightarrow> int \<Rightarrow> (addr \<Rightarrow> sap_service \<Rightarrow> sap_service option) \<Rightarrow> sap_service \<Rightarrow> sap_service option" where
  "with_header E slotId msgId tok body s =
     (case createMsgHeader E msgId tok s of
        (None, s1) \<Rightarrow> sendFailedResponse E slotId msgId tok [] s1
      | (Some msg, s1) \<Rightarrow> body msg s1)"

definition connectReq :: "sap_env \<Rightarrow> int \<Rightarrow> int \<Rightarrow> int \<Rightarrow> sap_service \<Rightarrow> sap_service option" where
  "connectReq E slotId tok maxMsgSize =
     with_header E slotId SAP_CONNECT tok (encode_and_dispatch E slotId SAP_CONNECT tok (ConnectReq maxMsgSize) None)"

definition disconnectReq :: "sap_env \<Rightarrow> int \<Rightarrow> int \<Rightarrow> sap_service \<Rightarrow> sap_service option" where
  "disconnectReq E slotId tok =
     with_header E slotId SAP_DISCONNECT tok (encode_and_dispatch E slotId SAP_DISCONNECT tok DisconnectReq None)"

text \<open>The copy of the command is freed on every error, but not after the request was dispatched.\<close>

definition apduReq :: "sap_env \<Rightarrow> int \<Rightarrow> int \<Rightarrow> int \<Rightarrow> u8 list \<Rightarrow> sap_service \<Rightarrow> sap_service option" where
  "apduReq E slotId tok type command =
     with_header E slotId SAP_APDU tok (\<lambda>msg s.
       if command = [] then encode_and_dispatch E slotId SAP_APDU tok (ApduReq type None) None msg s
       else case sap_malloc E command s of
              (None, s1) \<Rightarrow> sendFailedResponse E slotId SAP_APDU tok [HdrPtr msg] s1
            | (Some cmd, s1) \<Rightarrow>
                encode_and_dispatch E slotId SAP_APDU tok (ApduReq type (Some command)) (Some cmd) msg s1)"

definition transferAtrReq :: "sap_env \<Rightarrow> int \<Rightarrow> int \<Rightarrow> sap_service \<Rightarrow> sap_service option" where
  "transferAtrReq E slotId tok =
     with_header E slotId SAP_TRANSFER_ATR tok (encode_and_dispatch E slotId SAP_TRANSFER_ATR tok TransferAtrReq None)"

definition powerReq :: "sap_env \<Rightarrow> int \<Rightarrow> int \<Rightarrow> bool \<Rightarrow> sap_service \<Rightarrow> sap_service option" where
  "powerReq E slotId tok state =
     with_header E slotId SAP_POWER tok (encode_and_dispatch E slotId SAP_POWER tok (PowerReq state) None)"

definition resetSimReq :: "sap_env \<Rightarrow> int \<Rightarrow> int \<Rightarrow> sap_service \<Rightarrow> sap_service option" where
  "resetSimReq E slotId tok =
     with_header E slotId SAP_RESET_SIM tok (encode_and_dispatch E slotId SAP_RESET_SIM tok ResetSimReq None)"

definition transferCardReaderStatusReq :: "sap_env \<Rightarrow> int \<Rightarrow> int \<Rightarrow> sap_service \<Rightarrow> sap_service option" where
  "transferCardReaderStatusReq E slotId tok =
     with_header E slotId SAP_TRANSFER_CARD_READER_STATUS tok
       (encode_and_dispatch E slotId SAP_TRANSFER_CARD_READER_STATUS tok TransferCardReaderStatusReq None)"

definition setTransferProtocolReq :: "sap_env \<Rightarrow> int \<Rightarrow> int \<Rightarrow> int \<Rightarrow> sap_service \<Rightarrow> sap_service option" where
  "setTransferProtocolReq E slotId tok transferProtocol =
     with_header E slotId SAP_SET_TRANSFER_PROTOCOL tok
       (encode_and_dispatch E slotId SAP_SET_TRANSFER_PROTOCOL tok (SetTransferProtocolReq transferProtocol) None)"

section \<open>Responses\<close>

definition message_fields :: "sap_id \<Rightarrow> msg_type \<Rightarrow> sap_fields option" where
  "message_fields msgId msgType =
     (case msgId of
        SAP_CONNECT \<Rightarrow> Some CONNECT_RSP_fields
      | SAP_DISCONNECT \<Rightarrow> Some (if msgType = MsgType_RESPONSE then DISCONNECT_RSP_fields else DISCONNECT_IND_fields)
      | SAP_APDU \<Rightarrow> Some APDU_RSP_fields
      | SAP_TRANSFER_ATR \<Rightarrow> Some TRANSFER_ATR_RSP_fields
      | SAP_POWER \<Rightarrow> Some POWER_RSP_fields
      | SAP_RESET_SIM \<Rightarrow> Some RESET_SIM_RSP_fields
      | SAP_STATUS \<Rightarrow> Some STATUS_IND_fields
      | SAP_TRANSFER_CARD_READER_STATUS \<Rightarrow> Some TRANSFER_CARD_READER_STATUS_RSP_fields
      | SAP_ERROR_RESP \<Rightarrow> Some ERROR_RSP_fields
      | SAP_SET_TRANSFER_PROTOCOL \<Rightarrow> Some SET_TRANSFER_PROTOCOL_RSP_fields
      | OtherId _ \<Rightarrow> None)"

text \<open>The memory of the message is not freed, neither when decoding fails nor by the caller.\<close>

definition sapDecodeMessage ::
  "sap_env \<Rightarrow> sap_id \<Rightarrow> msg_type \<Rightarrow> u8 list \<Rightarrow> sap_service \<Rightarrow> sap_msg option \<times> sap_service" where
  "sapDecodeMessage E msgId msgType payload s =
     (case message_fields msgId msgType of
        None \<Rightarrow> (None, s)
      | Some descr \<Rightarrow>
          (case sap_malloc E payload s of
             (None, s1) \<Rightarrow> (None, s1)
           | (Some responsePtr, s1) \<Rightarrow> (pb_decode E descr payload, s1)))"

definition getSapImpl :: "sap_socket \<Rightarrow> sap_service \<Rightarrow> sap_impl option" where
  "getSapImpl sapSocket s =
     (if 0 \<le> sk_id sapSocket \<and> (sk_id sapSocket = 0 \<or> sk_id sapSocket < int (min 4 (sims (sv_sap s))))
      then sapService s (sk_id sapSocket) else None)"

fun convertApduResponseProtoToHal :: "proto_rsp \<Rightarrow> sap_result" where
  "convertApduResponseProtoToHal RspSUCCESS = ResSUCCESS"
| "convertApduResponseProtoToHal RspGENERIC_FAILURE = ResGENERIC_FAILURE"
| "convertApduResponseProtoToHal RspSIM_NOT_READY = ResCARD_NOT_ACCESSSIBLE"
| "convertApduResponseProtoToHal RspSIM_ALREADY_POWERED_OFF = ResCARD_ALREADY_POWERED_OFF"
| "convertApduResponseProtoToHal RspSIM_ABSENT = ResCARD_REMOVED"
| "convertApduResponseProtoToHal _ = ResGENERIC_FAILURE"

fun convertTransferAtrResponseProtoToHal :: "proto_rsp \<Rightarrow> sap_result" where
  "convertTransferAtrResponseProtoToHal RspSUCCESS = ResSUCCESS"
| "convertTransferAtrResponseProtoToHal RspGENERIC_FAILURE = ResGENERIC_FAILURE"
| "convertTransferAtrResponseProtoToHal RspSIM_ALREADY_POWERED_OFF = ResCARD_ALREADY_POWERED_OFF"
| "convertTransferAtrResponseProtoToHal RspSIM_ABSENT = ResCARD_REMOVED"
| "convertTransferAtrResponseProtoToHal RspSIM_DATA_NOT_AVAILABLE = ResDATA_NOT_AVAILABLE"
| "convertTransferAtrResponseProtoToHal _ = ResGENERIC_FAILURE"

fun convertPowerResponseProtoToHal :: "proto_rsp \<Rightarrow> sap_result" where
  "convertPowerResponseProtoToHal RspSUCCESS = ResSUCCESS"
| "convertPowerResponseProtoToHal RspGENERIC_FAILURE = ResGENERIC_FAILURE"
| "convertPowerResponseProtoToHal RspSIM_ABSENT = ResCARD_REMOVED"
| "convertPowerResponseProtoToHal RspSIM_ALREADY_POWERED_OFF = ResCARD_ALREADY_POWERED_OFF"
| "convertPowerResponseProtoToHal RspSIM_ALREADY_POWERED_ON = ResCARD_ALREADY_POWERED_ON"
| "convertPowerResponseProtoToHal _ = ResGENERIC_FAILURE"

fun convertResetSimResponseProtoToHal :: "proto_rsp \<Rightarrow> sap_result" where
  "convertResetSimResponseProtoToHal RspSUCCESS = ResSUCCESS"
| "convertResetSimResponseProtoToHal RspGENERIC_FAILURE = ResGENERIC_FAILURE"
| "convertResetSimResponseProtoToHal RspSIM_ABSENT = ResCARD_REMOVED"
| "convertResetSimResponseProtoToHal RspSIM_NOT_READY = ResCARD_NOT_ACCESSSIBLE"
| "convertResetSimResponseProtoToHal RspSIM_ALREADY_POWERED_OFF = ResCARD_ALREADY_POWERED_OFF"
| "convertResetSimResponseProtoToHal _ = ResGENERIC_FAILURE"

fun convertTransferCardReaderStatusResponseProtoToHal :: "proto_rsp \<Rightarrow> sap_result" where
  "convertTransferCardReaderStatusResponseProtoToHal RspSUCCESS = ResSUCCESS"
| "convertTransferCardReaderStatusResponseProtoToHal RspGENERIC_FAILURE = ResGENERIC_FAILURE"
| "convertTransferCardReaderStatusResponseProtoToHal RspSIM_DATA_NOT_AVAILABLE = ResDATA_NOT_AVAILABLE"
| "convertTransferCardReaderStatusResponseProtoToHal _ = ResGENERIC_FAILURE"

text \<open>The bytes of an optional array of a message.\<close>

definition sap_bytes :: "u8 list option \<Rightarrow> u8 list" where
  "sap_bytes b = (case b of None \<Rightarrow> [] | Some bs \<Rightarrow> bs)"

text \<open>The call for a decoded message; a message that is read as one of another type is \<open>None\<close>.\<close>

definition response_call :: "sap_id \<Rightarrow> msg_type \<Rightarrow> int \<Rightarrow> sap_msg \<Rightarrow> sap_call option" where
  "response_call msgId msgType tok msg =
     (case (msgId, msg) of
        (SAP_CONNECT, ConnectRsp response max_message_size) \<Rightarrow>
          Some (ConnectResponse tok (ConnectCast response) max_message_size)
      | (SAP_DISCONNECT, DisconnectRsp) \<Rightarrow>
          if msgType = MsgType_RESPONSE then Some (DisconnectResponse tok) else None
      | (SAP_DISCONNECT, DisconnectInd disconnectType) \<Rightarrow>
          if msgType = MsgType_RESPONSE then None else Some (DisconnectIndication tok disconnectType)
      | (SAP_APDU, ApduRsp response b) \<Rightarrow> Some (ApduResponse tok (convertApduResponseProtoToHal response) (sap_bytes b))
      | (SAP_TRANSFER_ATR, TransferAtrRsp response b) \<Rightarrow>
          Some (TransferAtrResponse tok (convertTransferAtrResponseProtoToHal response) (sap_bytes b))
      | (SAP_POWER, PowerRsp response) \<Rightarrow> Some (PowerResponse tok (convertPowerResponseProtoToHal response))
      | (SAP_RESET_SIM, ResetSimRsp response) \<Rightarrow>
          Some (ResetSimResponse tok (convertResetSimResponseProtoToHal response))
      | (SAP_STATUS, StatusInd statusChange) \<Rightarrow> Some (StatusIndication tok statusChange)
      | (SAP_TRANSFER_CARD_READER_STATUS, TransferCardReaderStatusRsp response st) \<Rightarrow>
          Some (TransferCardReaderStatusResponse tok (convertTransferCardReaderStatusResponseProtoToHal response) st)
      | (SAP_ERROR_RESP, ErrorRsp) \<Rightarrow> Some (ErrorResponse tok)
      | (SAP_SET_TRANSFER_PROTOCOL, SetTransferProtocolRsp response) \<Rightarrow>
          Some (TransferProtocolResponse tok (if response = RspSUCCESS then ResSUCCESS else ResNOT_SUPPORTED))
      | _ \<Rightarrow> None)"

definition processResponse ::
  "sap_env \<Rightarrow> int \<Rightarrow> int \<Rightarrow> u8 list \<Rightarrow> sap_socket \<Rightarrow> msg_type \<Rightarrow> sap_service \<Rightarrow> sap_service option" where
  "processResponse E tok mid payload sapSocket msgType s =
     (let msgId = id_of E mid;
          (messagePtr, s1) = sapDecodeMessage E msgId msgType payload s
      in case getSapImpl sapSocket s1 of
           None \<Rightarrow> None
         | Some sapImpl \<Rightarrow>
             if sapCallback sapImpl = None then Some s1
             else case messagePtr of
                    None \<Rightarrow> sendFailedResponse E (sk_id sapSocket) msgId tok [] s1
                  | Some msg \<Rightarrow> do {
                      c \<leftarrow> response_call msgId msgType tok msg;
                      call_sap_client E (sk_id sapSocket) c s1 })"

text \<open>
  The calls of the sockets into the service. The header of an indication is a local variable whose token
  is never set.
\<close>

definition sap_deliver :: "sap_env \<Rightarrow> sap_effect \<Rightarrow> sap_service \<Rightarrow> sap_service option" where
  "sap_deliver E x s =
     (case x of
        SapOnRequest _ _ _ _ \<Rightarrow> Some s
      | SapResponse name tok mid e payload \<Rightarrow>
          (case List.find (\<lambda>k. sk_name k = name) (sockets (sv_sap s)) of
             None \<Rightarrow> None
           | Some sk \<Rightarrow> processResponse E tok mid payload sk MsgType_RESPONSE s)
      | SapUnsol name mid payload \<Rightarrow>
          (case List.find (\<lambda>k. sk_name k = name) (sockets (sv_sap s)) of
             None \<Rightarrow> None
           | Some sk \<Rightarrow> processResponse E (unset_token E) mid payload sk MsgType_UNSOL_RESPONSE s))"

text \<open>\<open>registerService\<close>: a service without a client for each slot.\<close>

definition sap_registerService :: "sap_service \<Rightarrow> sap_service" where
  "sap_registerService s = s\<lparr>sapService := (\<lambda>i.
     if 0 \<le> i \<and> i < int (max 1 (sims (sv_sap s))) then Some \<lparr>sapCallback = None, rilSocketId = i\<rparr>
     else sapService s i)\<rparr>"

section \<open>What a request does\<close>

definition sap_fresh :: "sap_service \<Rightarrow> bool" where
  "sap_fresh s \<longleftrightarrow> (\<forall>a \<ge> sv_allocs s. sv_mem s a = None \<and> hdrs (sv_sap s) a = None \<and> sreqs (sv_sap s) a = None)"

text \<open>A slot with a client \<open>cb\<close> whose socket \<open>sk\<close> has a vendor, and ids that can be told apart.\<close>

definition sap_ready :: "sap_env \<Rightarrow> int \<Rightarrow> addr \<Rightarrow> sap_socket \<Rightarrow> sap_service \<Rightarrow> bool" where
  "sap_ready E slotId cb sk s \<longleftrightarrow> sap_fresh s \<and> (\<forall>i. (\<exists>n. i = OtherId n) \<or> id_of E (MsgId E i) = i) \<and>
     (\<exists>v. sapService s slotId = Some v \<and> sapCallback v = Some cb \<and>
        getSocketById (rilSocketId v) (sv_sap s) = Some sk) \<and> sk_uimFuncs sk = Some True"

text \<open>The client was told of a failure, the sockets are as before, and \<open>M\<close> is the memory.\<close>

definition sap_failed ::
  "sap_env \<Rightarrow> int \<Rightarrow> addr \<Rightarrow> sap_call \<Rightarrow> (addr \<Rightarrow> u8 list option) \<Rightarrow> sap_service \<Rightarrow> sap_service \<Rightarrow> bool" where
  "sap_failed E slotId cb c M s s' \<longleftrightarrow> sv_sent s' = sv_sent s @ [(cb, c)] \<and> sv_mem s' = M \<and> sv_sap s' = sv_sap s \<and>
     (sap_reached E (sv_sent s') \<longrightarrow> sapService s' = sapService s)"

text \<open>The vendor got the message, a request with its header waits for the answer; \<open>M\<close> is the memory.\<close>

definition sap_dispatched ::
  "sap_env \<Rightarrow> sap_id \<Rightarrow> int \<Rightarrow> u8 list \<Rightarrow> sap_socket \<Rightarrow> (addr \<Rightarrow> u8 list option) \<Rightarrow> sap_service \<Rightarrow> sap_service \<Rightarrow> bool" where
  "sap_dispatched E msgId tok payload sk M s s' \<longleftrightarrow> sv_sent s' = sv_sent s \<and> sapService s' = sapService s \<and> sv_mem s' = M \<and>
     (\<exists>h r. hdrs (sv_sap s) h = None \<and> sreqs (sv_sap s) r = None \<and>
        sv_sap s' = (sv_sap s)
          \<lparr>front := (front (sv_sap s))(sk_id sk := Some r),
           sreqs := (sreqs (sv_sap s))(r \<mapsto>
             \<lparr>s_token = tok, s_curr = Some h, s_next = front (sv_sap s) (sk_id sk), s_socketId = sk_id sk\<rparr>),
           hdrs := (hdrs (sv_sap s))(h \<mapsto>
             \<lparr>h_token = tok, h_type = MsgType_REQUEST, h_id = MsgId E msgId, h_error = 0, h_payload = payload\<rparr>),
           sap_out := sap_out (sv_sap s) @ [SapOnRequest (MsgId E msgId) payload r (sk_id sk)]\<rparr>)"

lemma sap_failed_call:
  assumes "sapService s0 slotId = Some v" "sapCallback v = Some cb" "failed_call msgId tok = Some c"
    and "\<exists>t. sap_free_all ptrs s = Some t \<and> sapService t = sapService s0 \<and> sv_sent t = sv_sent s0 \<and>
      sv_mem t = M \<and> sv_sap t = sv_sap s0"
  shows "\<exists>s'. sendFailedResponse E slotId msgId tok ptrs s = Some s' \<and> sap_failed E slotId cb c M s0 s'"
  using assms
  by (auto simp: sendFailedResponse_def call_sap_client_def sap_checkReturnStatus_def sap_failed_def Let_def)

text \<open>The part of a request after its header was made.\<close>

lemma encode_and_dispatch_outcome:
  assumes ready: "sapService s0 slotId = Some v" "sapCallback v = Some cb" "getSocketById (rilSocketId v) (sv_sap s0) = Some sk"
      "sk_uimFuncs sk = Some True" "\<forall>i. (\<exists>n. i = OtherId n) \<or> id_of E (MsgId E i) = i"
    and fresh: "sap_fresh s" "sap_fresh s0" "sv_allocs s0 \<le> msg" "msg < sv_allocs s" "\<forall>a. cmd = Some a \<longrightarrow> sv_allocs s0 \<le> a \<and> a < sv_allocs s"
    and s: "sv_sap s = (sv_sap s0)\<lparr>hdrs := (hdrs (sv_sap s0))(msg \<mapsto>
        \<lparr>h_token = tok, h_type = MsgType_REQUEST, h_id = MsgId E msgId, h_error = 0, h_payload = []\<rparr>)\<rparr>"
      "sv_mem s = (case cmd of None \<Rightarrow> sv_mem s0 | Some a \<Rightarrow> (sv_mem s0)(a \<mapsto> command))"
      "sapService s = sapService s0" "sv_sent s = sv_sent s0"
    and c: "failed_call msgId tok = Some c" and E: "sap_vendor E = Some" "\<not> sap_oom E (sv_allocs s + 2)"
  shows "\<exists>s'. encode_and_dispatch E slotId msgId tok req cmd msg s = Some s' \<and>
    ((sap_oom E (sv_allocs s) \<or> sap_oom E (Suc (sv_allocs s)) \<or> Option.bind (pb_get_encoded_size E req) (pb_encode E req) = None) \<and>
     (sap_failed E slotId cb c (sv_mem s0) s0 s' \<or> sap_failed E slotId cb c (sv_mem s) s0 s') \<or>
     (\<not> sap_oom E (sv_allocs s) \<and> \<not> sap_oom E (Suc (sv_allocs s)) \<and>
      (\<exists>n bs. pb_get_encoded_size E req = Some n \<and> pb_encode E req n = Some bs \<and>
        sap_dispatched E msgId tok (take (length bs mod 2 ^ 16) bs) sk (sv_mem s) s0 s')))"
proof -
  have id: "id_of E (MsgId E msgId) = msgId" using spec [OF ready(5), of msgId] c by (auto simp: failed_call_def)
  note fail = sap_failed_call [where ?s0.0 = s0, OF ready(1,2) c]
  have mem0: "(hdrs (sv_sap s0))(msg := None) = hdrs (sv_sap s0)"
    using fresh(2,3) by (intro fun_upd_idem) (simp add: sap_fresh_def)
  have cmd0: "(sv_mem s0)(a := None) = sv_mem s0" if "cmd = Some a" for a
    using fresh(2,5) that by (intro fun_upd_idem) (simp add: sap_fresh_def)
  have new: "(sv_mem s)(a := None) = sv_mem s" if "sv_allocs s \<le> a" for a
    using fresh(1) that by (intro fun_upd_idem) (simp add: sap_fresh_def)
  have new0: "(sv_mem s0)(a := None) = sv_mem s0" if "sv_allocs s \<le> a" for a
    using fresh(2-4) that by (intro fun_upd_idem) (simp add: sap_fresh_def)
  have old: "\<exists>t. sap_free_all [MemPtr cmd, HdrPtr msg] u = Some t \<and> sapService t = sapService s0 \<and> sv_sent t = sv_sent s0 \<and>
      sv_mem t = sv_mem s0 \<and> sv_sap t = sv_sap s0"
    if "sv_sap u = sv_sap s" "sv_mem u = sv_mem s" "sapService u = sapService s0" "sv_sent u = sv_sent s0" for u
    using that s mem0 cmd0 by (cases cmd) (simp_all add: sap_free_def free_hdr_def)
  define b where "b = sv_allocs s"
  have cmdb: "cmd \<noteq> Some b" using fresh(5) by (auto simp: b_def)
  show ?thesis
  proof (cases "pb_get_encoded_size E req")
    case None
    with fail [OF old] s(3,4) show ?thesis by (fastforce simp: encode_and_dispatch_def)
  next
    case n: (Some n)
    show ?thesis
    proof (cases "sap_oom E b")
      case True
      have "\<exists>s'. sendFailedResponse E slotId msgId tok [MemPtr cmd, HdrPtr msg] (s\<lparr>sv_allocs := Suc b\<rparr>) = Some s' \<and>
          sap_failed E slotId cb c (sv_mem s0) s0 s'"
        by (rule fail [OF old]) (simp_all add: s(3,4))
      with n True show ?thesis by (fastforce simp: encode_and_dispatch_def sap_malloc_def b_def)
    next
      case ab: False
      define t where "t = (\<lambda>bs. s\<lparr>sv_allocs := Suc b, sv_mem := (sv_mem s)(b \<mapsto> bs)\<rparr>)"
      have m: "sap_malloc E bs s = (Some b, t bs)" for bs using ab by (simp add: sap_malloc_def t_def b_def)
      show ?thesis
      proof (cases "pb_encode E req n")
        case None
        have "\<exists>s'. sendFailedResponse E slotId msgId tok [MemPtr cmd, MemPtr (Some b), HdrPtr msg] (t (replicate n 0)) = Some s' \<and>
            sap_failed E slotId cb c (sv_mem s0) s0 s'"
          by (rule fail) (use s mem0 cmd0 new [of b] new0 [of b] cmdb in \<open>cases cmd; simp add: sap_free_def free_hdr_def t_def b_def fun_upd_twist\<close>)
        with n m None show ?thesis by (fastforce simp: encode_and_dispatch_def)
      next
        case (Some bs)
        define B where "B = bs @ replicate (n - length bs) 0"
        define data where "data = take (length bs mod 2 ^ 16) bs"
        have data: "take (length bs mod 2 ^ 16) B = data" by (simp add: B_def data_def)
        let ?hdr = "\<lparr>h_token = tok, h_type = MsgType_REQUEST, h_id = MsgId E msgId, h_error = 0, h_payload = []\<rparr>"
        have run: "encode_and_dispatch E slotId msgId tok req cmd msg s =
            addPayloadAndDispatchRequest E slotId msg (length bs) b (t B)"
          using n m Some by (simp add: encode_and_dispatch_def t_def B_def)
        have h: "hdrs (sv_sap (t B)) msg = Some ?hdr" "sv_mem (t B) b = Some B" by (simp_all add: t_def s(1))
        have msgb: "msg \<noteq> b" "msg < b" using fresh(4) by (simp_all add: b_def)
        show ?thesis
        proof (cases "sap_oom E (Suc b)")
          case True
          have "\<exists>s'. sendFailedResponse E slotId msgId tok [MemPtr (Some b), HdrPtr msg] ((t B)\<lparr>sv_allocs := Suc (Suc b)\<rparr>) = Some s' \<and>
              sap_failed E slotId cb c (sv_mem s) s0 s'"
            by (rule fail) (use s mem0 new [of b] in \<open>simp add: sap_free_def free_hdr_def t_def b_def\<close>)
          then show ?thesis
            unfolding run using True h id
            by (fastforce simp: addPayloadAndDispatchRequest_def sap_malloc_def t_def b_def)
        next
          case p: False
          let ?k = "(sv_sap s0)\<lparr>hdrs := (hdrs (sv_sap s0))(msg \<mapsto> ?hdr\<lparr>h_payload := data\<rparr>)\<rparr>"
          have free: "sreqs (sv_sap s0) (Suc (Suc b)) = None" "hdrs (sv_sap s0) (Suc (Suc b)) = None" "Suc (Suc b) \<noteq> msg"
            using fresh(1,2,4) s(1) by (auto simp: sap_fresh_def b_def)
          define k where "k = ?k
              \<lparr>front := (front (sv_sap s0))(sk_id sk := Some (Suc (Suc b))),
               sreqs := (sreqs (sv_sap s0))(Suc (Suc b) \<mapsto>
                 \<lparr>s_token = tok, s_curr = Some msg, s_next = front (sv_sap s0) (sk_id sk), s_socketId = sk_id sk\<rparr>),
               sap_out := sap_out (sv_sap s0) @ [SapOnRequest (MsgId E msgId) data (Suc (Suc b)) (sk_id sk)]\<rparr>"
          have d: "dispatchRequest sk (Some (Suc (Suc b))) msg ?k = Some k"
            using ready(4) free by (simp add: dispatchRequest_def salloc_def enqueue_def sap_emit_def k_def)
          have sock: "getSocketById (rilSocketId v) ?k = Some sk" using ready(3) by (simp add: getSocketById_def)
          obtain y where hk: "hdrs k msg = Some y" by (simp add: k_def)
          let ?F = "s\<lparr>sv_allocs := Suc (Suc (Suc b)), sv_sap := k\<rparr>"
          have "\<not> sap_oom E (Suc (Suc b))" using E(2) by (simp add: b_def)
          then have "addPayloadAndDispatchRequest E slotId msg (length bs) b (t B) = Some ?F"
            using p h d sock hk E(1) ready(1) new [of b] new [of "Suc b"] s(1,3) data
            by (simp add: addPayloadAndDispatchRequest_def sap_malloc_def t_def Let_def sap_free_def b_def [symmetric]
                fun_upd_twist)
          moreover have "sap_dispatched E msgId tok data sk (sv_mem s) s0 ?F"
            unfolding sap_dispatched_def
            by (intro conjI; (rule exI [of _ msg], rule exI [of _ "Suc (Suc b)"])?;
              use s(3,4) free(1) fresh(2,3) in \<open>simp add: k_def sap_fresh_def\<close>)
          ultimately show ?thesis unfolding run using n Some ab p by (auto simp: data_def b_def)
        qed
      qed
    qed
  qed
qed

text \<open>
  The methods without a command. What the vendor is to get, unless one of the first three allocations (of the header, of the
  encoded request and of its copy) or the encoding fails.
\<close>

definition sap_payload :: "sap_env \<Rightarrow> sap_req \<Rightarrow> sap_service \<Rightarrow> u8 list option" where
  "sap_payload E req s =
     (if sap_oom E (sv_allocs s) \<or> sap_oom E (sv_allocs s + 1) \<or> sap_oom E (sv_allocs s + 2) then None
      else Option.bind (pb_get_encoded_size E req) (pb_encode E req))"

lemma with_header_outcome:
  assumes ready: "sap_ready E slotId cb sk s" and c: "failed_call msgId tok = Some c"
    and E: "sap_vendor E = Some" "\<not> sap_oom E (sv_allocs s + 3)"
  shows "\<exists>s'. with_header E slotId msgId tok (encode_and_dispatch E slotId msgId tok req None) s = Some s' \<and>
    (case sap_payload E req s of
       None \<Rightarrow> sap_failed E slotId cb c (sv_mem s) s s'
     | Some bs \<Rightarrow> sap_dispatched E msgId tok (take (length bs mod 2 ^ 16) bs) sk (sv_mem s) s s')"
proof -
  from ready obtain v where v: "sapService s slotId = Some v" "sapCallback v = Some cb"
    "getSocketById (rilSocketId v) (sv_sap s) = Some sk" "sk_uimFuncs sk = Some True" "\<forall>i. (\<exists>n. i = OtherId n) \<or> id_of E (MsgId E i) = i"
    and fresh: "sap_fresh s" by (auto simp: sap_ready_def)
  show ?thesis
  proof (cases "sap_oom E (sv_allocs s)")
    case True
    have "\<exists>s'. sendFailedResponse E slotId msgId tok [] (s\<lparr>sv_allocs := Suc (sv_allocs s)\<rparr>) = Some s' \<and>
        sap_failed E slotId cb c (sv_mem s) s s'"
      by (rule sap_failed_call [OF v(1,2) c]) simp
    with True show ?thesis by (auto simp: with_header_def createMsgHeader_def Let_def sap_payload_def)
  next
    case False
    define t where "t = snd (createMsgHeader E msgId tok s)"
    have t: "createMsgHeader E msgId tok s = (Some (sv_allocs s), t)" using False by (simp add: t_def createMsgHeader_def Let_def)
    have f: "sv_allocs t = Suc (sv_allocs s)" "sv_mem t = sv_mem s" "sapService t = sapService s" "sv_sent t = sv_sent s"
      "sv_sap t = (sv_sap s)\<lparr>hdrs := (hdrs (sv_sap s))(sv_allocs s \<mapsto>
        \<lparr>h_token = tok, h_type = MsgType_REQUEST, h_id = MsgId E msgId, h_error = 0, h_payload = []\<rparr>)\<rparr>"
      using False by (simp_all add: t_def createMsgHeader_def Let_def)
    have ft: "sap_fresh t" using fresh f by (simp add: sap_fresh_def)
    have "\<not> sap_oom E (sv_allocs t + 2)" using E(2) f(1) by (simp add: eval_nat_numeral)
    from encode_and_dispatch_outcome [OF v ft fresh order_refl _ _ f(5) _ f(3,4) c E(1) this, of None _ req] f(1,2)
    obtain s' where s': "encode_and_dispatch E slotId msgId tok req None (sv_allocs s) t = Some s'"
      "(sap_oom E (Suc (sv_allocs s)) \<or> sap_oom E (Suc (Suc (sv_allocs s))) \<or> Option.bind (pb_get_encoded_size E req) (pb_encode E req) = None) \<and>
         sap_failed E slotId cb c (sv_mem s) s s' \<or>
       (\<not> sap_oom E (Suc (sv_allocs s)) \<and> \<not> sap_oom E (Suc (Suc (sv_allocs s))) \<and>
        (\<exists>n bs. pb_get_encoded_size E req = Some n \<and> pb_encode E req n = Some bs \<and>
          sap_dispatched E msgId tok (take (length bs mod 2 ^ 16) bs) sk (sv_mem s) s s'))"
      by (simp only: option.case) auto
    have "case sap_payload E req s of
       None \<Rightarrow> sap_failed E slotId cb c (sv_mem s) s s'
     | Some bs \<Rightarrow> sap_dispatched E msgId tok (take (length bs mod 2 ^ 16) bs) sk (sv_mem s) s s'"
      using s'(2) False by (auto simp: sap_payload_def)
    with s'(1) show ?thesis by (intro exI [of _ s']) (simp only: with_header_def t prod.case option.case simp_thms)
  qed
qed

text \<open>
  C20. Every request of the client is answered for: each method without data, called when the slot has a client, a socket and a vendor's
  functions, tells the client of the failure once, with the token, and changes no socket, exactly when the allocation of the message,
  of the encoded request or of its copy fails or the request cannot be encoded. Otherwise it dispatches one message to
  the vendor, with the id of the method, the client's token and the encoded request (cut to 16 bits of
  length), and leaves one request waiting for the answer. All other memory is freed. This holds for a vendor that does not complete the
  request before its \<open>onRequest\<close> returns, and if the allocation of the request in the socket succeeds; in both
  other cases the message is read after it was freed (\<open>sap_message_freed_early\<close> below).
\<close>

theorem sap_requests_answered:
  assumes "sap_ready E slotId cb sk s" "sap_vendor E = Some" "\<not> sap_oom E (sv_allocs s + 3)"
    and "(msgId, req, m) \<in> {(SAP_CONNECT, ConnectReq maxSize, connectReq E slotId tok maxSize),
      (SAP_DISCONNECT, DisconnectReq, disconnectReq E slotId tok),
      (SAP_APDU, ApduReq type None, apduReq E slotId tok type []),
      (SAP_TRANSFER_ATR, TransferAtrReq, transferAtrReq E slotId tok),
      (SAP_POWER, PowerReq on, powerReq E slotId tok on),
      (SAP_RESET_SIM, ResetSimReq, resetSimReq E slotId tok),
      (SAP_TRANSFER_CARD_READER_STATUS, TransferCardReaderStatusReq, transferCardReaderStatusReq E slotId tok),
      (SAP_SET_TRANSFER_PROTOCOL, SetTransferProtocolReq proto, setTransferProtocolReq E slotId tok proto)}"
  shows "\<exists>s' c. m s = Some s' \<and> failed_call msgId tok = Some c \<and>
    (case sap_payload E req s of
       None \<Rightarrow> sap_failed E slotId cb c (sv_mem s) s s'
     | Some bs \<Rightarrow> sap_dispatched E msgId tok (take (length bs mod 2 ^ 16) bs) sk (sv_mem s) s s')"
proof -
  obtain c where c: "failed_call msgId tok = Some c" using assms(4) by (auto simp: failed_call_def)
  have m: "m = with_header E slotId msgId tok (encode_and_dispatch E slotId msgId tok req None)"
    using assms(4) by (auto simp: connectReq_def disconnectReq_def apduReq_def transferAtrReq_def powerReq_def
        resetSimReq_def transferCardReaderStatusReq_def setTransferProtocolReq_def)
  from with_header_outcome [OF assms(1) c assms(2,3), of req] show ?thesis unfolding m using c by blast
qed

section \<open>The answer\<close>

text \<open>Completing the request that was dispatched last.\<close>

lemma complete_newest:
  assumes "front k (sk_id sk) = Some r" "sreqs k r = Some q" "s_curr q = Some h" "hdrs k h = Some m"
    and "h_token m = s_token q" "s_socketId q = sk_id sk" "getSocketById (sk_id sk) k = Some sk"
  shows "sOnRequestComplete True r e (Some bs) k = Some (k
    \<lparr>front := (front k)(sk_id sk := s_next q), sreqs := (sreqs k)(r := None), hdrs := (hdrs k)(h := None),
     sap_out := sap_out k @ [SapResponse (sk_name sk) (h_token m) (h_id m) e bs]\<rparr>)"
proof -
  let ?k = "sap_emit (SapResponse (sk_name sk) (h_token m) (h_id m) e bs) k"
  have "find_link (snext ?k) (front ?k (sk_id sk)) (key_at ?k (h_id m) (h_token m)) Head = Some (Some Head)"
    using assms(1-5) by (subst find_link.simps) (simp add: deref_def key_at_def sap_emit_def)
  then have "checkAndDequeue (sk_id sk) (h_id m) (h_token m) ?k = Some (True, ?k
      \<lparr>front := (front k)(sk_id sk := s_next q), sreqs := (sreqs k)(r := None)\<rparr>)"
    using assms(1-5) by (simp add: checkAndDequeue_def deref_def set_slink_def Let_def sap_emit_def)
  with assms show ?thesis
    by (simp add: sOnRequestComplete_def onRequestComplete_def Let_def free_hdr_def sap_emit_def)
qed

lemma find_name_id:
  assumes "getSocketById i k = Some sk" "\<forall>a \<in> set (sockets k). \<forall>b \<in> set (sockets k). sk_name a = sk_name b \<longrightarrow> a = b"
  shows "List.find (\<lambda>a. sk_name a = sk_name sk) (sockets k) = Some sk"
proof -
  have "sk \<in> set (sockets k)" using assms(1) by (auto simp: getSocketById_def find_Some_iff)
  then have "List.find (\<lambda>a. sk_name a = sk_name sk) (sockets k) \<noteq> None" by (auto simp: find_None_iff)
  then obtain a where "List.find (\<lambda>a. sk_name a = sk_name sk) (sockets k) = Some a" by blast
  moreover from this have "a \<in> set (sockets k)" "sk_name a = sk_name sk" by (auto simp: find_Some_iff)
  ultimately show ?thesis using assms(2) \<open>sk \<in> set (sockets k)\<close> by auto
qed

text \<open>
  C21. The vendor's answer to a dispatched request reaches the client that sent it: completing the request
  restores the queue, the requests and the headers, and the one response it causes becomes one call of
  the client's method for the message, with the client's token and the decoded answer. The memory of the
  decoded message is never freed.
\<close>

theorem sap_answer_reaches_client:
  assumes "sap_ready E (sk_id sk) cb sk s0" "sap_dispatched E msgId tok payload sk M s0 s"
    and "0 \<le> sk_id sk" "sk_id sk = 0 \<or> sk_id sk < int (min 4 (sims (sv_sap s0)))"
    and "\<forall>a \<in> set (sockets (sv_sap s0)). \<forall>b \<in> set (sockets (sv_sap s0)). sk_name a = sk_name b \<longrightarrow> a = b"
    and "message_fields msgId MsgType_RESPONSE = Some d" "pb_decode E d bs = Some msg"
    and "response_call msgId MsgType_RESPONSE tok msg = Some c" "\<not> sap_oom E (sv_allocs s)"
  shows "\<exists>r k x s'. sap_out (sv_sap s) = sap_out (sv_sap s0) @ [SapOnRequest (MsgId E msgId) payload r (sk_id sk)] \<and>
    sOnRequestComplete True r e (Some bs) (sv_sap s) = Some k \<and> sap_out k = sap_out (sv_sap s) @ [x] \<and>
    front k = front (sv_sap s0) \<and> sreqs k = sreqs (sv_sap s0) \<and> hdrs k = hdrs (sv_sap s0) \<and>
    sap_deliver E x (s\<lparr>sv_sap := k\<rparr>) = Some s' \<and> sv_sent s' = sv_sent s @ [(cb, c)] \<and>
    sv_mem s' = (sv_mem s)(sv_allocs s \<mapsto> bs)"
proof -
  from assms(1) obtain v where v: "sapService s0 (sk_id sk) = Some v" "sapCallback v = Some cb"
    "getSocketById (rilSocketId v) (sv_sap s0) = Some sk" and ids: "\<forall>i. (\<exists>n. i = OtherId n) \<or> id_of E (MsgId E i) = i"
    by (auto simp: sap_ready_def)
  have id: "id_of E (MsgId E msgId) = msgId" using spec [OF ids, of msgId] assms(6) by (auto simp: message_fields_def)
  have sk: "getSocketById (sk_id sk) (sv_sap s0) = Some sk"
    using v(3) getSocketById_id [OF v(3)] by simp
  from assms(2) obtain h r where f: "hdrs (sv_sap s0) h = None" "sreqs (sv_sap s0) r = None"
    "sv_sent s = sv_sent s0" "sapService s = sapService s0" "sv_mem s = M" and
    k: "sv_sap s = (sv_sap s0)
          \<lparr>front := (front (sv_sap s0))(sk_id sk := Some r),
           sreqs := (sreqs (sv_sap s0))(r \<mapsto>
             \<lparr>s_token = tok, s_curr = Some h, s_next = front (sv_sap s0) (sk_id sk), s_socketId = sk_id sk\<rparr>),
           hdrs := (hdrs (sv_sap s0))(h \<mapsto>
             \<lparr>h_token = tok, h_type = MsgType_REQUEST, h_id = MsgId E msgId, h_error = 0, h_payload = payload\<rparr>),
           sap_out := sap_out (sv_sap s0) @ [SapOnRequest (MsgId E msgId) payload r (sk_id sk)]\<rparr>"
    unfolding sap_dispatched_def by blast
  define k where "k = (sv_sap s0)\<lparr>sap_out := sap_out (sv_sap s) @ [SapResponse (sk_name sk) tok (MsgId E msgId) e bs]\<rparr>"
  have sks: "getSocketById (sk_id sk) (sv_sap s) = Some sk" using sk unfolding k by (simp add: getSocketById_def)
  have fin: "sOnRequestComplete True r e (Some bs) (sv_sap s) = Some k"
    using complete_newest [where m = "\<lparr>h_token = tok, h_type = MsgType_REQUEST, h_id = MsgId E msgId, h_error = 0, h_payload = payload\<rparr>"
        and q = "\<lparr>s_token = tok, s_curr = Some h, s_next = front (sv_sap s0) (sk_id sk), s_socketId = sk_id sk\<rparr>"
        and h = h, OF _ _ _ _ _ _ sks, of r e bs] f(1,2)
    by (simp add: k k_def fun_upd_idem)
  have name: "List.find (\<lambda>a. sk_name a = sk_name sk) (sockets k) = Some sk"
    using find_name_id [OF sk assms(5)] by (simp add: k_def)
  let ?x = "SapResponse (sk_name sk) tok (MsgId E msgId) e bs"
  define t where "t = s\<lparr>sv_sap := k, sv_allocs := Suc (sv_allocs s), sv_mem := (sv_mem s)(sv_allocs s \<mapsto> bs)\<rparr>"
  have "sap_deliver E ?x (s\<lparr>sv_sap := k\<rparr>) = call_sap_client E (sk_id sk) c t"
    using name id assms(3,4,6-9) v(1,2) f(4)
    by (simp add: sap_deliver_def processResponse_def sapDecodeMessage_def sap_malloc_def getSapImpl_def Let_def k_def t_def)
  moreover have "\<exists>s'. call_sap_client E (sk_id sk) c t = Some s' \<and> sv_sent s' = sv_sent s @ [(cb, c)] \<and> sv_mem s' = sv_mem t"
    using v(1,2) f(4) by (simp add: call_sap_client_def sap_checkReturnStatus_def Let_def t_def)
  ultimately obtain s' where s': "sap_deliver E ?x (s\<lparr>sv_sap := k\<rparr>) = Some s'" "sv_sent s' = sv_sent s @ [(cb, c)]"
    "sv_mem s' = (sv_mem s)(sv_allocs s \<mapsto> bs)" by (auto simp: t_def)
  have "sap_out (sv_sap s) = sap_out (sv_sap s0) @ [SapOnRequest (MsgId E msgId) payload r (sk_id sk)]"
    by (simp add: k)
  moreover have "sap_out k = sap_out (sv_sap s) @ [?x]" "front k = front (sv_sap s0)" "sreqs k = sreqs (sv_sap s0)"
    "hdrs k = hdrs (sv_sap s0)" by (simp_all add: k_def)
  ultimately show ?thesis using fin s' by blast
qed

section \<open>Failures\<close>

text \<open>A vendor that completes a request while its \<open>onRequest\<close> runs.\<close>

definition complete_now :: "sap_socket \<Rightarrow> sap_state \<Rightarrow> sap_state option" where
  "complete_now sk k =
     (case front k (sk_id sk) of None \<Rightarrow> Some k | Some r \<Rightarrow> sOnRequestComplete True r 0 (Some []) k)"

text \<open>
  The message is used after it was freed: when the request cannot be allocated, or when the vendor completes
  it before its \<open>onRequest\<close> returns, the socket frees the message, and the service then reads the payload
  pointer in it.
\<close>

theorem sap_message_freed_early:
  assumes "sap_ready E slotId cb sk s"
    and "\<not> sap_oom E (sv_allocs s)" "\<not> sap_oom E (sv_allocs s + 1)" "\<not> sap_oom E (sv_allocs s + 2)"
    and "pb_get_encoded_size E (PowerReq on) = Some n" "pb_encode E (PowerReq on) n = Some bs"
    and "sap_oom E (sv_allocs s + 3) \<or> sap_vendor E = complete_now sk"
  shows "powerReq E slotId tok on s = None"
proof -
  from assms(1) obtain v where v: "sapService s slotId = Some v" "sapCallback v = Some cb"
    "getSocketById (rilSocketId v) (sv_sap s) = Some sk" "sk_uimFuncs sk = Some True" "\<forall>i. (\<exists>n. i = OtherId n) \<or> id_of E (MsgId E i) = i"
    and fresh: "sap_fresh s" by (auto simp: sap_ready_def)
  define a where "a = sv_allocs s"
  define data where "data = take (length bs mod 65536) bs"
  let ?m = "\<lparr>h_token = tok, h_type = MsgType_REQUEST, h_id = MsgId E SAP_POWER, h_error = 0, h_payload = data\<rparr>"
  define k where "k = (sv_sap s)\<lparr>hdrs := (hdrs (sv_sap s))(a \<mapsto> ?m)\<rparr>"
  define mem where "mem = (if sap_oom E (Suc (Suc (Suc a))) then None else Some (Suc (Suc (Suc a))))"
  have oom: "\<not> sap_oom E a" "\<not> sap_oom E (Suc a)" "\<not> sap_oom E (Suc (Suc a))"
    using assms(2-4) by (simp_all add: a_def)
  have sock: "getSocketById (rilSocketId v) k = Some sk" using v(3) by (simp add: getSocketById_def k_def)
  have vendor: "k1 = None \<or> hdrs (the k1) a = None"
    if d: "dispatchRequest sk mem a k = Some k0" and k1: "k1 = (if mem = None then Some k0 else sap_vendor E k0)" for k0 k1
  proof (cases "sap_oom E (Suc (Suc (Suc a)))")
    case True
    then show ?thesis using d k1 by (auto simp: mem_def dispatchRequest_def salloc_def k_def)
  next
    case False
    then have V: "sap_vendor E = complete_now sk" using assms(7) by (simp add: a_def eval_nat_numeral)
    have free: "sreqs k (Suc (Suc (Suc a))) = None" "hdrs k (Suc (Suc (Suc a))) = None"
      using fresh by (simp_all add: sap_fresh_def k_def a_def)
    let ?q = "\<lparr>s_token = tok, s_curr = Some a, s_next = front k (sk_id sk), s_socketId = sk_id sk\<rparr>"
    have k0: "k0 = k\<lparr>front := (front k)(sk_id sk := Some (Suc (Suc (Suc a)))), sreqs := (sreqs k)(Suc (Suc (Suc a)) \<mapsto> ?q),
        sap_out := sap_out k @ [SapOnRequest (MsgId E SAP_POWER) data (Suc (Suc (Suc a))) (sk_id sk)]\<rparr>"
      using d False v(4) free by (auto simp: mem_def dispatchRequest_def salloc_def enqueue_def sap_emit_def k_def)
    have "getSocketById (sk_id sk) k0 = Some sk"
      using sock getSocketById_id [OF sock] by (simp add: k0 getSocketById_def)
    from complete_newest [where q = ?q and h = a and m = ?m, OF _ _ _ _ _ _ this, of "Suc (Suc (Suc a))" 0 "[]"]
    show ?thesis using k1 False V by (simp add: k0 mem_def complete_now_def k_def)
  qed
  have power: "powerReq E slotId tok on s = do {
      k0 \<leftarrow> dispatchRequest sk mem a k;
      k1 \<leftarrow> (if mem = None then Some k0 else sap_vendor E k0);
      _ \<leftarrow> hdrs k1 a;
      sap_free_all [MemPtr (Some (Suc (Suc a))), MemPtr (Some (Suc a))]
        (s\<lparr>sv_mem := (sv_mem s)(Suc a \<mapsto> bs @ replicate (n - length bs) 0, Suc (Suc a) \<mapsto> data),
           sv_sap := k1, sv_allocs := Suc (Suc (Suc (Suc a)))\<rparr>) }"
    using oom assms(5,6) v(1) sock
    by (simp add: powerReq_def with_header_def createMsgHeader_def encode_and_dispatch_def sap_malloc_def
        addPayloadAndDispatchRequest_def Let_def a_def [symmetric] data_def [symmetric] k_def mem_def)
  show ?thesis
  proof (cases "dispatchRequest sk mem a k")
    case (Some k0)
    define k1 where "k1 = (if mem = None then Some k0 else sap_vendor E k0)"
    have run: "powerReq E slotId tok on s = do {
      k1 \<leftarrow> k1;
      _ \<leftarrow> hdrs k1 a;
      sap_free_all [MemPtr (Some (Suc (Suc a))), MemPtr (Some (Suc a))]
        (s\<lparr>sv_mem := (sv_mem s)(Suc a \<mapsto> bs @ replicate (n - length bs) 0, Suc (Suc a) \<mapsto> data),
           sv_sap := k1, sv_allocs := Suc (Suc (Suc (Suc a)))\<rparr>) }"
      unfolding power k1_def using Some by (simp only: Option.bind.simps)
    show ?thesis using vendor [OF Some k1_def] unfolding run by (cases k1) (simp_all only: Option.bind.simps option.sel simp_thms option.distinct)
  qed (simp only: power Option.bind.simps)
qed

text \<open>
  A client that died is dropped, and from then on a request that fails calls the client object that is not
  there: the failure message is sent without a test for NULL.
\<close>

theorem sap_dead_client_crashes:
  assumes "sapService s slotId = Some v" "sapCallback v = Some cb" "\<not> sap_reached E (sv_sent s @ [(cb, c)])"
  shows "\<exists>s'. call_sap_client E slotId c s = Some s' \<and> Option.bind (sapService s' slotId) sapCallback = None \<and>
    (sap_oom E (sv_allocs s') \<longrightarrow>
       connectReq E slotId tok maxSize s' = None \<and> apduReq E slotId tok type cmd s' = None \<and> powerReq E slotId tok on s' = None)"
  using assms
  by (simp add: call_sap_client_def sap_checkReturnStatus_def Let_def connectReq_def apduReq_def powerReq_def with_header_def
      createMsgHeader_def sendFailedResponse_def failed_call_def)

text \<open>
  The copy of a command leaks: when an APDU request with a command is dispatched, the memory afterwards holds
  the command at a new address, and nothing refers to it any more.
\<close>

theorem apdu_command_leaks:
  assumes "sap_ready E slotId cb sk s" "sap_vendor E = Some" "\<forall>a. \<not> sap_oom E a" "cmd \<noteq> []"
    and "pb_get_encoded_size E (ApduReq type (Some cmd)) = Some n" "pb_encode E (ApduReq type (Some cmd)) n = Some bs"
  shows "\<exists>s' a. apduReq E slotId tok type cmd s = Some s' \<and> sv_mem s a = None \<and> sv_mem s' = (sv_mem s)(a \<mapsto> cmd) \<and>
    sap_dispatched E SAP_APDU tok (take (length bs mod 2 ^ 16) bs) sk (sv_mem s') s s'"
proof -
  from assms(1) obtain v where v: "sapService s slotId = Some v" "sapCallback v = Some cb"
    "getSocketById (rilSocketId v) (sv_sap s) = Some sk" "sk_uimFuncs sk = Some True" "\<forall>i. (\<exists>n. i = OtherId n) \<or> id_of E (MsgId E i) = i"
    and fresh: "sap_fresh s" by (auto simp: sap_ready_def)
  let ?h = "sv_allocs s" and ?a = "Suc (sv_allocs s)"
  let ?m = "\<lparr>h_token = tok, h_type = MsgType_REQUEST, h_id = MsgId E SAP_APDU, h_error = 0, h_payload = []\<rparr>"
  define t where "t = s\<lparr>sv_sap := (sv_sap s)\<lparr>hdrs := (hdrs (sv_sap s))(?h \<mapsto> ?m)\<rparr>, sv_allocs := Suc ?a,
    sv_mem := (sv_mem s)(?a \<mapsto> cmd)\<rparr>"
  have run: "apduReq E slotId tok type cmd s =
      encode_and_dispatch E slotId SAP_APDU tok (ApduReq type (Some cmd)) (Some ?a) ?h t"
    using assms(3,4) by (simp add: apduReq_def with_header_def createMsgHeader_def sap_malloc_def Let_def t_def)
  have ft: "sap_fresh t" using fresh by (simp add: sap_fresh_def t_def)
  have c: "failed_call SAP_APDU tok = Some (ApduResponse tok ResGENERIC_FAILURE [])" by (simp add: failed_call_def)
  have m: "sv_mem t = (case Some ?a of None \<Rightarrow> sv_mem s | Some a \<Rightarrow> (sv_mem s)(a \<mapsto> cmd))" by (simp add: t_def)
  have "\<exists>s'. encode_and_dispatch E slotId SAP_APDU tok (ApduReq type (Some cmd)) (Some ?a) ?h t = Some s' \<and>
      sap_dispatched E SAP_APDU tok (take (length bs mod 2 ^ 16) bs) sk (sv_mem t) s s'"
    using encode_and_dispatch_outcome [OF v ft fresh order_refl _ _ _ m _ _ c assms(2), of "ApduReq type (Some cmd)"] assms(3,5,6)
    by (simp add: t_def)
  then obtain s' where s': "encode_and_dispatch E slotId SAP_APDU tok (ApduReq type (Some cmd)) (Some ?a) ?h t = Some s'"
    "sap_dispatched E SAP_APDU tok (take (length bs mod 2 ^ 16) bs) sk (sv_mem t) s s'" by blast
  from s'(2) have "sv_mem s' = sv_mem t" by (simp add: sap_dispatched_def)
  moreover have "sv_mem s ?a = None" using fresh by (simp add: sap_fresh_def)
  ultimately show ?thesis
    unfolding run using s' by (intro exI [of _ s'] exI [of _ ?a]) (simp add: t_def)
qed

section \<open>Concrete runs\<close>

text \<open>One slot with a client at address 9, and codecs that know the answer to a power request.\<close>

definition sap_env0 :: sap_env where
  "sap_env0 = \<lparr>MsgId = (\<lambda>i. case i of SAP_CONNECT \<Rightarrow> 1 | SAP_DISCONNECT \<Rightarrow> 2 | SAP_APDU \<Rightarrow> 3 | SAP_TRANSFER_ATR \<Rightarrow> 4
       | SAP_POWER \<Rightarrow> 5 | SAP_RESET_SIM \<Rightarrow> 6 | SAP_STATUS \<Rightarrow> 7 | SAP_TRANSFER_CARD_READER_STATUS \<Rightarrow> 8
       | SAP_ERROR_RESP \<Rightarrow> 9 | SAP_SET_TRANSFER_PROTOCOL \<Rightarrow> 10 | OtherId n \<Rightarrow> n),
     id_of = (\<lambda>n. if n = 1 then SAP_CONNECT else if n = 2 then SAP_DISCONNECT else if n = 3 then SAP_APDU
       else if n = 4 then SAP_TRANSFER_ATR else if n = 5 then SAP_POWER else if n = 6 then SAP_RESET_SIM
       else if n = 7 then SAP_STATUS else if n = 8 then SAP_TRANSFER_CARD_READER_STATUS
       else if n = 9 then SAP_ERROR_RESP else if n = 10 then SAP_SET_TRANSFER_PROTOCOL else OtherId n),
     sap_oom = (\<lambda>_. False), pb_get_encoded_size = (\<lambda>_. Some 2), pb_encode = (\<lambda>_ _. Some [8, 1]),
     pb_decode = (\<lambda>d _. if d = POWER_RSP_fields then Some (PowerRsp RspSUCCESS) else None),
     sap_reached = (\<lambda>_. True), sap_vendor = Some, unset_token = 0\<rparr>"

definition sap_svc0 :: sap_service where
  "sap_svc0 = \<lparr>sv_sap = sap1, sv_mem = (\<lambda>_. None), sv_allocs = 0,
     sapService = (\<lambda>i. if i = 0 then Some \<lparr>sapCallback = Some 9, rilSocketId = 0\<rparr> else None), sv_sent = []\<rparr>"

definition slot1 :: sap_socket where
  "slot1 = \<lparr>sk_name = ''slot1'', sk_id = 0, sk_uimFuncs = Some True\<rparr>"

lemma sap_env0_simps [simp]:
  "sap_oom sap_env0 a = False" "pb_get_encoded_size sap_env0 r = Some 2" "pb_encode sap_env0 r n = Some [8, 1]"
  "sap_vendor sap_env0 = Some" "sap_reached sap_env0 c = True"
  by (simp_all add: sap_env0_def)

lemma sap_ready0:
  assumes "id_of E = id_of sap_env0" "MsgId E = MsgId sap_env0"
  shows "sap_ready E 0 9 slot1 sap_svc0"
proof -
  have "(\<exists>n. i = OtherId n) \<or> id_of E (MsgId E i) = i" for i
    unfolding assms by (cases i) (simp_all add: sap_env0_def)
  then show ?thesis by (simp add: sap_ready_def sap_fresh_def sap_svc0_def slot1_def sap_eval)
qed

lemma sap_payload0: "sap_payload sap_env0 req s = Some [8, 1]"
  by (simp add: sap_payload_def)

theorem sap_requests_answered_witness:
  "\<exists>s'. powerReq sap_env0 0 7 True sap_svc0 = Some s' \<and>
     sap_dispatched sap_env0 SAP_POWER 7 [8, 1] slot1 (sv_mem sap_svc0) sap_svc0 s'"
proof -
  have "(SAP_POWER, PowerReq True, powerReq sap_env0 0 7 True) \<in> {(SAP_CONNECT, ConnectReq 0, connectReq sap_env0 0 7 0),
      (SAP_DISCONNECT, DisconnectReq, disconnectReq sap_env0 0 7),
      (SAP_APDU, ApduReq 0 None, apduReq sap_env0 0 7 0 []),
      (SAP_TRANSFER_ATR, TransferAtrReq, transferAtrReq sap_env0 0 7),
      (SAP_POWER, PowerReq True, powerReq sap_env0 0 7 True),
      (SAP_RESET_SIM, ResetSimReq, resetSimReq sap_env0 0 7),
      (SAP_TRANSFER_CARD_READER_STATUS, TransferCardReaderStatusReq, transferCardReaderStatusReq sap_env0 0 7),
      (SAP_SET_TRANSFER_PROTOCOL, SetTransferProtocolReq 0, setTransferProtocolReq sap_env0 0 7 0)}"
    by (simp only: insert_iff simp_thms)
  from sap_requests_answered [OF sap_ready0 [OF refl refl] sap_env0_simps(4) _ this] sap_payload0
  show ?thesis by auto
qed

lemma power0: "\<exists>s. powerReq sap_env0 0 7 True sap_svc0 = Some s \<and>
    sap_dispatched sap_env0 SAP_POWER 7 [8, 1] slot1 (\<lambda>_. None) sap_svc0 s"
proof -
  have f: "failed_call SAP_POWER 7 = Some (PowerResponse 7 ResGENERIC_FAILURE)" by (simp add: failed_call_def)
  have "sv_mem sap_svc0 = (\<lambda>_. None)" by (simp add: sap_svc0_def)
  with with_header_outcome [OF sap_ready0 [OF refl refl] f sap_env0_simps(4), of "PowerReq True"] sap_payload0
  show ?thesis by (simp add: powerReq_def)
qed

theorem sap_answer_reaches_client_witness:
  "\<exists>s r k x s'. powerReq sap_env0 0 7 True sap_svc0 = Some s \<and>
     sOnRequestComplete True r 0 (Some [8, 0]) (sv_sap s) = Some k \<and> sap_out k = sap_out (sv_sap s) @ [x] \<and>
     sap_deliver sap_env0 x (s\<lparr>sv_sap := k\<rparr>) = Some s' \<and> sv_sent s' = sv_sent s @ [(9, PowerResponse 7 ResSUCCESS)]"
proof -
  from power0 obtain s where s: "powerReq sap_env0 0 7 True sap_svc0 = Some s"
    "sap_dispatched sap_env0 SAP_POWER 7 [8, 1] slot1 (\<lambda>_. None) sap_svc0 s" by blast
  have i: "sk_id slot1 = 0" by (simp add: slot1_def)
  have ready: "sap_ready sap_env0 (sk_id slot1) 9 slot1 sap_svc0" unfolding i by (rule sap_ready0 [OF refl refl])
  have socks: "\<forall>a \<in> set (sockets (sv_sap sap_svc0)). \<forall>b \<in> set (sockets (sv_sap sap_svc0)). sk_name a = sk_name b \<longrightarrow> a = b"
    by (simp add: sap_svc0_def sap_eval)
  have d: "pb_decode sap_env0 POWER_RSP_fields [8, 0] = Some (PowerRsp RspSUCCESS)" by (simp add: sap_env0_def)
  have f: "message_fields SAP_POWER MsgType_RESPONSE = Some POWER_RSP_fields" by (simp add: message_fields_def)
  have c: "response_call SAP_POWER MsgType_RESPONSE 7 (PowerRsp RspSUCCESS) = Some (PowerResponse 7 ResSUCCESS)"
    by (simp add: response_call_def)
  from sap_answer_reaches_client [OF ready s(2) _ _ socks f d c, of 0] i s(1) show ?thesis by auto
qed

theorem sap_message_freed_early_witness:
  "powerReq (sap_env0\<lparr>sap_vendor := complete_now slot1\<rparr>) 0 7 True sap_svc0 = None"
  by (rule sap_message_freed_early [OF sap_ready0, where n = 2 and bs = "[8, 1]"]) (simp_all add: sap_env0_def)

theorem sap_dead_client_crashes_witness:
  "\<exists>s'. call_sap_client (sap_env0\<lparr>sap_reached := \<lambda>_. False, sap_oom := \<lambda>_. True\<rparr>) 0 (PowerResponse 7 ResSUCCESS) sap_svc0 = Some s' \<and>
     powerReq (sap_env0\<lparr>sap_reached := \<lambda>_. False, sap_oom := \<lambda>_. True\<rparr>) 0 8 True s' = None"
proof -
  have "sapService sap_svc0 0 = Some \<lparr>sapCallback = Some 9, rilSocketId = 0\<rparr>" by (simp add: sap_svc0_def)
  from sap_dead_client_crashes [OF this, of 9 "sap_env0\<lparr>sap_reached := \<lambda>_. False, sap_oom := \<lambda>_. True\<rparr>"
      "PowerResponse 7 ResSUCCESS" 8 0 0 "[]" True]
  show ?thesis by auto
qed

theorem apdu_command_leaks_witness:
  "\<exists>s' a. apduReq sap_env0 0 7 0 [1, 2] sap_svc0 = Some s' \<and> sv_mem s' a = Some [1, 2]"
proof -
  from apdu_command_leaks [OF sap_ready0 [OF refl refl] sap_env0_simps(4), of "[1, 2]" 0 2 "[8, 1]" 7] obtain s' a where
    "apduReq sap_env0 0 7 0 [1, 2] sap_svc0 = Some s'" "sv_mem s' = (sv_mem sap_svc0)(a \<mapsto> [1, 2])" by auto
  then show ?thesis by (intro exI [of _ s'] exI [of _ a]) simp
qed

end
