(* ===== verification/RadioTypes.thy ===== *)
theory RadioTypes
  imports RilDaemon "HOL-Library.Monad_Syntax"
begin

text \<open>
  Data of the radio service, \<open>libril/ril_service.cpp\<close>: the structures of \<open>telephony/ril.h\<close> that
  requests carry to the vendor library, the HIDL types they are built from, the state of the
  service, and its heap. Blocks live at fresh addresses; freed memory that is read or freed again is
  \<open>None\<close>. The vendor's \<open>onRequest\<close> is an argument that changes the daemon's state; what it is handed
  is the payload as it reads it at that moment, with every \<open>char *\<close> followed. The payload's length
  argument is the size of the payload and is not kept apart.
\<close>

section \<open>HIDL values\<close>

text \<open>
  \<open>hidl_string\<close> of libhidl, as far as the code uses it: \<open>size()\<close>, and the characters of \<open>c_str()\<close>
  in front of the first NUL. A string made from a C string has the size of its characters.
\<close>

record hidl_string =
  hs_size :: nat
  hs_chars :: string

definition hidl_string_of :: "string \<Rightarrow> hidl_string" where
  "hidl_string_of c = \<lparr>hs_size = length c, hs_chars = c\<rparr>"

lemma hidl_string_of_simps [simp]: "hs_size (hidl_string_of c) = length c" "hs_chars (hidl_string_of c) = c"
  by (simp_all add: hidl_string_of_def)

record hidl_uus_info =
  hu_type :: int
  hu_dcs :: int
  hu_data :: hidl_string

record hidl_dial =
  hd_address :: hidl_string
  hd_clir :: int
  hd_uusInfo :: "hidl_uus_info list"

record hidl_icc_io =
  hi_command :: int
  hi_fileId :: int
  hi_path :: hidl_string
  hi_p1 :: int
  hi_p2 :: int
  hi_p3 :: int
  hi_data :: hidl_string
  hi_pin2 :: hidl_string
  hi_aid :: hidl_string

record hidl_call_forward =
  hc_status :: int
  hc_reason :: int
  hc_serviceClass :: int
  hc_toa :: int
  hc_number :: hidl_string
  hc_timeSeconds :: int

record hidl_sim_apdu =
  ha_sessionId :: int
  ha_cla :: int
  ha_instruction :: int
  ha_p1 :: int
  ha_p2 :: int
  ha_p3 :: int
  ha_data :: hidl_string

record hidl_gsm_sms =
  hg_smscPdu :: hidl_string
  hg_pdu :: hidl_string

record hidl_sms_write =
  hw_status :: int
  hw_pdu :: hidl_string
  hw_smsc :: hidl_string

text \<open>An enumeration value that is none of the named ones is \<open>MvnoOther\<close>, \<open>NvOther\<close>.\<close>

datatype mvno_type = MvnoIMSI | MvnoGID | MvnoSPN | MvnoNONE | MvnoOther int

datatype reset_nv_type = NvRELOAD | NvERASE | NvFACTORY_RESET | NvOther int

record hidl_data_profile =
  hp_profileId :: int
  hp_apn :: hidl_string
  hp_protocol :: hidl_string
  hp_roamingProtocol :: hidl_string
  hp_authType :: int
  hp_user :: hidl_string
  hp_password :: hidl_string
  hp_supportedApnTypesBitmap :: int
  hp_bearerBitmap :: int
  hp_mtu :: int
  hp_mvnoType :: mvno_type
  hp_mvnoMatchData :: hidl_string
  hp_type :: int
  hp_maxConnsTime :: int
  hp_maxConns :: int
  hp_waitTime :: int
  hp_enabled :: bool

record hidl_cdma_sms =
  hs_teleserviceId :: int
  hs_isServicePresent :: bool
  hs_serviceCategory :: int
  hs_digitMode :: int
  hs_numberMode :: int
  hs_numberType :: int
  hs_numberPlan :: int
  hs_digits :: "u8 list"
  hs_subaddressType :: int
  hs_odd :: bool
  hs_subDigits :: "u8 list"
  hs_bearerData :: "u8 list"

record hidl_gsm_broadcast =
  hb_fromServiceId :: int
  hb_toServiceId :: int
  hb_fromCodeScheme :: int
  hb_toCodeScheme :: int
  hb_selected :: bool

record hidl_cdma_broadcast =
  hx_serviceCategory :: int
  hx_language :: int
  hx_selected :: bool

record hidl_ims_sms =
  hm_tech :: int
  hm_retry :: bool
  hm_messageRef :: int
  hm_cdmaMessage :: "hidl_cdma_sms list"
  hm_gsmMessage :: "hidl_gsm_sms list"

record hidl_imsi_encryption =
  he_mcc :: hidl_string
  he_mnc :: hidl_string
  he_carrierKey :: "u8 list"
  he_keyIdentifier :: hidl_string
  he_expirationTime :: int

record hidl_keepalive =
  hk_type :: int
  hk_sourceAddress :: "u8 list"
  hk_sourcePort :: int
  hk_destinationAddress :: "u8 list"
  hk_destinationPort :: int
  hk_interval :: int
  hk_cid :: int

record radio_capability =
  hr_session :: int
  hr_phase :: int
  hr_raf :: int
  hr_logicalModemUuid :: hidl_string
  hr_status :: int

record carrier =
  hv_mcc :: hidl_string
  hv_mnc :: hidl_string
  hv_matchType :: int
  hv_matchData :: hidl_string

text \<open>The enumeration \<open>RadioAccessNetworks\<close>; another value is \<open>RanOther\<close>.\<close>

datatype access_network = RanGERAN | RanUTRAN | RanEUTRAN | RanOther int

record hidl_radio_access_specifier =
  hn_radioAccessNetwork :: access_network
  hn_geranBands :: "u32 list"
  hn_utranBands :: "u32 list"
  hn_eutranBands :: "u32 list"
  hn_channels :: "u32 list"

record hidl_network_scan =
  hn_scanType :: int
  hn_scanInterval :: int
  hn_specifiers :: "hidl_radio_access_specifier list"

section \<open>Request structures of the vendor interface\<close>

text \<open>A \<open>char *\<close> as the vendor reads it: NULL, or the characters in front of the NUL.\<close>

type_synonym cstr = "string option"

record RIL_UUS_Info =
  uusType :: int
  uusDcs :: int
  uusLength :: int
  uusData :: cstr

record RIL_Dial =
  dial_address :: cstr
  dial_clir :: int
  dial_uusInfo :: "RIL_UUS_Info option"

record RIL_SIM_IO_v6 =
  io_cla :: int
  io_command :: int
  io_fileid :: int
  io_path :: cstr
  io_p1 :: int
  io_p2 :: int
  io_p3 :: int
  io_data :: cstr
  io_pin2 :: cstr
  io_aidPtr :: cstr

record RIL_SIM_APDU =
  ap_sessionid :: int
  ap_cla :: int
  ap_instruction :: int
  ap_p1 :: int
  ap_p2 :: int
  ap_p3 :: int
  ap_data :: cstr

record RIL_CallForwardInfo =
  cf_status :: int
  cf_reason :: int
  cf_serviceClass :: int
  cf_toa :: int
  cf_number :: cstr
  cf_timeSeconds :: int

record RIL_SMS_WriteArgs =
  wa_status :: int
  wa_pdu :: cstr
  wa_smsc :: cstr

record RIL_OpenChannelParams =
  oc_aidPtr :: cstr
  oc_p2 :: int

record RIL_SelectUiccSub =
  su_slot :: int
  su_app_index :: int
  su_sub_type :: int
  su_act_status :: int

record RIL_SimAuthentication =
  sa_authContext :: int
  sa_authData :: cstr
  sa_aid :: cstr

record RIL_GSM_BroadcastSmsConfigInfo =
  gb_fromServiceId :: int
  gb_toServiceId :: int
  gb_fromCodeScheme :: int
  gb_toCodeScheme :: int
  gb_selected :: u8

record RIL_InitialAttachApn =
  ia_apn :: cstr
  ia_protocol :: cstr
  ia_authtype :: int
  ia_username :: cstr
  ia_password :: cstr

record RIL_InitialAttachApn_v15 = RIL_InitialAttachApn +
  ia_roamingProtocol :: cstr
  ia_supportedTypesBitmask :: int
  ia_bearerBitmask :: int
  ia_modemCognitive :: int
  ia_mtu :: int
  ia_mvnoType :: cstr
  ia_mvnoMatchData :: cstr

record RIL_CarrierInfoForImsiEncryption =
  ie_mcc :: cstr
  ie_mnc :: cstr
  ie_carrierKey :: "u8 list"
  ie_carrierKeyLength :: int
  ie_keyIdentifier :: cstr
  ie_expirationTime :: int

record RIL_KeepaliveRequest =
  ka_type :: int
  ka_sourceAddress :: "u8 list"
  ka_sourcePort :: int
  ka_destinationAddress :: "u8 list"
  ka_destinationPort :: int
  ka_maxKeepaliveIntervalMillis :: int
  ka_cid :: int

record RIL_RadioCapability =
  rp_version :: int
  rp_session :: int
  rp_phase :: int
  rp_rat :: int
  rp_logicalModemUuid :: string
  rp_status :: int

record RIL_Carrier =
  ca_mcc :: cstr
  ca_mnc :: cstr
  ca_match_type :: int
  ca_match_data :: cstr

record RIL_CarrierRestrictions =
  cr_len_allowed_carriers :: int
  cr_len_excluded_carriers :: int
  cr_allowed_carriers :: "RIL_Carrier list"
  cr_excluded_carriers :: "RIL_Carrier list"

text \<open>The pointers to the carriers of a list are the list; its memory belongs to the HIDL argument.\<close>

record RIL_DataProfileInfo =
  dp_profileId :: int
  dp_apn :: cstr
  dp_protocol :: cstr
  dp_authType :: int
  dp_user :: cstr
  dp_password :: cstr
  dp_type :: int
  dp_maxConnsTime :: int
  dp_maxConns :: int
  dp_waitTime :: int
  dp_enabled :: int

record RIL_DataProfileInfo_v15 = RIL_DataProfileInfo +
  dp_roamingProtocol :: cstr
  dp_supportedTypesBitmask :: int
  dp_bearerBitmask :: int
  dp_mtu :: int
  dp_mvnoType :: cstr
  dp_mvnoMatchData :: cstr

text \<open>The union of three arrays of bands is one array; elements after the copied ones are 0 and not kept.\<close>

record RIL_RadioAccessSpecifier =
  sp_radio_access_network :: int
  sp_bands_length :: u32
  sp_bands :: "u32 list"
  sp_channels_length :: u32
  sp_channels :: "u32 list"

record RIL_NetworkScanRequest =
  ns_type :: int
  ns_interval :: int
  ns_specifiers_length :: u32
  ns_specifiers :: "RIL_RadioAccessSpecifier list"

text \<open>
  \<open>RIL_CDMA_SMS_Message\<close>, of a header that is not part of the repository, as far as the code fills it:
  the lengths the vendor reads are unsigned characters (integers for the bearer data), the
  arrays hold the bytes that were copied.
\<close>

record RIL_CDMA_SMS_Message =
  cd_uTeleserviceID :: int
  cd_bIsServicePresent :: int
  cd_uServicecategory :: int
  cd_digit_mode :: int
  cd_number_mode :: int
  cd_number_type :: int
  cd_number_plan :: int
  cd_number_of_digits :: u8
  cd_digits :: "u8 list"
  cd_subaddressType :: int
  cd_odd :: int
  cd_sub_number_of_digits :: u8
  cd_subDigits :: "u8 list"
  cd_uBearerDataLen :: int
  cd_aBearerData :: "u8 list"

datatype payload =
    NoData
  | PString cstr
  | PStrings "cstr list"
  | PInts "int list"
  | PRaw "u8 list"
  | PDial RIL_Dial
  | PSimIo RIL_SIM_IO_v6
  | PApdu RIL_SIM_APDU
  | PCallForward RIL_CallForwardInfo
  | PSmsWrite RIL_SMS_WriteArgs
  | POpenChannel RIL_OpenChannelParams
  | PNvRead int
  | PNvWrite int cstr
  | PUiccSub RIL_SelectUiccSub
  | PSimAuth RIL_SimAuthentication
  | PGsmBroadcast "RIL_GSM_BroadcastSmsConfigInfo list"
  | PCdmaBroadcast "(int \<times> int \<times> int) list"
  | PCdmaSms RIL_CDMA_SMS_Message
  | PCdmaAck int int
  | PCdmaWrite int RIL_CDMA_SMS_Message
  | PAttachApn RIL_InitialAttachApn
  | PAttachApn15 RIL_InitialAttachApn_v15
  | PImsiEncryption RIL_CarrierInfoForImsiEncryption
  | PKeepalive RIL_KeepaliveRequest
  | PImsGsm int int "cstr list"
  | PImsCdma int int RIL_CDMA_SMS_Message
  | PNetworkScan RIL_NetworkScanRequest
  | PDataProfiles "RIL_DataProfileInfo list"
  | PDataProfiles15 "RIL_DataProfileInfo_v15 list"
  | PRadioCapability RIL_RadioCapability
  | PCarriers RIL_CarrierRestrictions

section \<open>State of the service\<close>

text \<open>
  A block of the heap: characters, an array of \<open>char *\<close> (or of structures, whose \<open>char *\<close> members are kept), an
  array of integers or bytes, or an array of so many structures whose contents are not read again.
\<close>

datatype block = Chars string | CharPtrs "addr option list" | Ints "int list" | Bytes "u8 list" | Structs nat

text \<open>
  \<open>allocs\<close> counts the allocations; it is also the next address. \<open>calls\<close> are the calls of the vendor's
  \<open>onRequest\<close>: request, payload, token and socket.
\<close>

record svc =
  rild :: ril_state
  blocks :: "addr \<Rightarrow> block option"
  allocs :: nat
  calls :: "(int \<times> payload \<times> addr \<times> int) list"

text \<open>
  What the service sees of the outside: the environments of \<open>addRequestToList\<close> and of a completion it
  causes itself, its slot, which of the allocations fail, a flag of the build, the array sizes of
  \<open>ril_cdma_sms.h\<close>, an enumeration value of the HIDL interface, and the vendor's \<open>onRequest\<close>.
\<close>

record radio_env =
  add_env :: env
  done_env :: env
  mSlotId :: int
  oom :: "nat \<Rightarrow> bool"
  OLD_MNC_FORMAT :: bool
  ADDRESS_MAX :: nat
  SUBADDRESS_MAX :: nat
  BEARER_DATA_MAX :: nat
  LOW_DATA_EXPECTED :: int
  onRequest :: "int \<Rightarrow> payload \<Rightarrow> addr \<Rightarrow> int \<Rightarrow> ril_state \<Rightarrow> ril_state option"

definition BOOL_TO_INT :: "bool \<Rightarrow> int" where
  "BOOL_TO_INT x = (if x then 1 else 0)"

text \<open>\<open>std::to_string\<close> of an integer.\<close>

fun digits :: "nat \<Rightarrow> string" where
  "digits n = (if n < 10 then [char_of (48 + n)] else digits (n div 10) @ [char_of (48 + n mod 10)])"

declare digits.simps [simp del]

definition to_string :: "int \<Rightarrow> string" where
  "to_string n = (if n < 0 then CHR ''-'' # digits (nat (- n)) else digits (nat n))"

section \<open>The heap\<close>

definition new_block :: "radio_env \<Rightarrow> block \<Rightarrow> svc \<Rightarrow> addr option \<times> svc" where
  "new_block W b s =
     (if oom W (allocs s) then (None, s\<lparr>allocs := Suc (allocs s)\<rparr>)
      else (Some (allocs s), s\<lparr>allocs := Suc (allocs s), blocks := (blocks s)(allocs s \<mapsto> b)\<rparr>))"

definition free_block :: "addr \<Rightarrow> svc \<Rightarrow> svc option" where
  "free_block p s = (if blocks s p = None then None else Some (s\<lparr>blocks := (blocks s)(p := None)\<rparr>))"

fun memsetAndFreeStrings :: "addr option list \<Rightarrow> svc \<Rightarrow> svc option" where
  "memsetAndFreeStrings [] s = Some s"
| "memsetAndFreeStrings (ptr # ps) s =
     (case ptr of
        None \<Rightarrow> memsetAndFreeStrings ps s
      | Some p \<Rightarrow> do { s1 \<leftarrow> free_block p s; memsetAndFreeStrings ps s1 })"

text \<open>The string behind a pointer, and the strings behind an array of pointers.\<close>

definition str_at :: "svc \<Rightarrow> addr option \<Rightarrow> cstr option" where
  "str_at s ptr =
     (case ptr of
        None \<Rightarrow> Some None
      | Some p \<Rightarrow> (case blocks s p of Some (Chars c) \<Rightarrow> Some (Some c) | _ \<Rightarrow> None))"

fun strs_at :: "svc \<Rightarrow> addr option list \<Rightarrow> cstr list option" where
  "strs_at s [] = Some []"
| "strs_at s (p # ps) = do { c \<leftarrow> str_at s p; cs \<leftarrow> strs_at s ps; Some (c # cs) }"

definition ptrs_at :: "svc \<Rightarrow> addr \<Rightarrow> addr option list option" where
  "ptrs_at s arr = (case blocks s arr of Some (CharPtrs ps) \<Rightarrow> Some ps | _ \<Rightarrow> None)"

definition store_ptr :: "addr \<Rightarrow> nat \<Rightarrow> addr option \<Rightarrow> svc \<Rightarrow> svc option" where
  "store_ptr arr i ptr s =
     (case ptrs_at s arr of
        None \<Rightarrow> None
      | Some ps \<Rightarrow> if i < length ps then Some (s\<lparr>blocks := (blocks s)(arr \<mapsto> CharPtrs (ps[i := ptr]))\<rparr>) else None)"

section \<open>Ownership\<close>

text \<open>Addresses from the counter on are unused; \<open>since n s\<close> are the live blocks allocated from \<open>n\<close> on.\<close>

definition heap_ok :: "svc \<Rightarrow> bool" where
  "heap_ok s \<longleftrightarrow> (\<forall>a \<ge> allocs s. blocks s a = None)"

text \<open>\<open>heap_ext s0 A s\<close>: \<open>s\<close> has the blocks of \<open>s0\<close> and, of the later allocations, exactly those in \<open>A\<close>.\<close>

definition heap_ext :: "svc \<Rightarrow> addr set \<Rightarrow> svc \<Rightarrow> bool" where
  "heap_ext s0 A s \<longleftrightarrow> allocs s0 \<le> allocs s \<and> A \<subseteq> {allocs s0..<allocs s} \<and>
     (\<forall>a. a \<notin> A \<longrightarrow> blocks s a = blocks s0 a) \<and> A \<subseteq> dom (blocks s) \<and> heap_ok s0"

lemma heap_ext_refl: "heap_ok s \<Longrightarrow> heap_ext s {} s"
  by (simp add: heap_ext_def)

lemma heap_ext_ok: "heap_ext s0 A s \<Longrightarrow> heap_ok s"
  unfolding heap_ext_def heap_ok_def by (metis atLeastLessThan_iff linorder_not_less order_trans subset_iff)

lemma heap_ext_none: "heap_ext s0 {} s \<Longrightarrow> blocks s = blocks s0"
  by (auto simp: heap_ext_def)

lemma heap_ext_rild [simp]: "heap_ext s0 A (s\<lparr>rild := r\<rparr>) = heap_ext s0 A s"
  "heap_ext s0 A (s\<lparr>calls := c\<rparr>) = heap_ext s0 A s"
  by (simp_all add: heap_ext_def)

lemma heap_ext_alloc:
  assumes "heap_ext s0 A s" "\<not> oom W (allocs s)"
  shows "heap_ext s0 (insert (allocs s) A) (snd (new_block W b s))"
  using assms by (auto simp: heap_ext_def new_block_def)

lemma heap_ext_oom: "heap_ext s0 A s \<Longrightarrow> heap_ext s0 A (s\<lparr>allocs := Suc (allocs s)\<rparr>)"
  by (auto simp: heap_ext_def)

lemma heap_ext_new: "heap_ext s0 A s \<Longrightarrow> allocs s \<notin> A"
  by (auto simp: heap_ext_def)

lemma heap_ext_free:
  assumes "heap_ext s0 A s" "p \<in> A"
  shows "\<exists>s'. free_block p s = Some s' \<and> s' = s\<lparr>blocks := (blocks s)(p := None)\<rparr> \<and> heap_ext s0 (A - {p}) s'"
proof -
  from assms have "blocks s p \<noteq> None" "blocks s0 p = None" by (auto simp: heap_ext_def heap_ok_def)
  with assms show ?thesis by (auto simp: heap_ext_def free_block_def)
qed

end
