(* ===== verification/RadioDispatch.thy ===== *)
theory RadioDispatch
  imports RadioTypes
begin

text \<open>
  The dispatch helpers of \<open>libril/ril_service.cpp\<close>: each enters a request in the daemon's list,
  copies its arguments to the heap, calls the vendor's \<open>onRequest\<close> and frees the copies, or answers the
  request with an error itself. The lemmas say what every helper does on every outcome of the
  allocations, and that the heap afterwards is the heap before.
\<close>

section \<open>Copying strings\<close>

text \<open>The request must be alive and its row must have a response function.\<close>

definition respond_error :: "addr \<Rightarrow> int \<Rightarrow> ril_state \<Rightarrow> ril_state option" where
  "respond_error p e r =
     (case requests r p of
        None \<Rightarrow> None
      | Some q \<Rightarrow>
          (case responseFunction (s_commands ! nat (pCI q)) of
             None \<Rightarrow> None
           | Some f \<Rightarrow> Some (emit (Respond f (socket_id q) RESPONSE_SOLICITED (token q) e None) r)))"

definition sendErrorResponse :: "addr option \<Rightarrow> int \<Rightarrow> svc \<Rightarrow> svc option" where
  "sendErrorResponse pRI e s =
     (case pRI of
        None \<Rightarrow> None
      | Some p \<Rightarrow> map_option (\<lambda>r. s\<lparr>rild := r\<rparr>) (respond_error p e (rild s)))"

text \<open>
  The result is the new value of \<open>*dest\<close>, or \<open>None\<close> when the copy failed and the error was
  reported. \<open>strlcpy\<close> returns the length of its source and copies \<open>len\<close> characters at most.
\<close>

definition copyHidlStringToRil ::
  "radio_env \<Rightarrow> hidl_string \<Rightarrow> addr \<Rightarrow> bool \<Rightarrow> svc \<Rightarrow> (addr option option \<times> svc) option" where
  "copyHidlStringToRil W src pRI allowEmpty s =
     (let len = hs_size src
      in if len = 0 \<and> \<not> allowEmpty then Some (Some None, s)
         else
           (case new_block W (Chars (take len (hs_chars src))) s of
              (None, s1) \<Rightarrow> do { s2 \<leftarrow> sendErrorResponse (Some pRI) RIL_E_NO_MEMORY s1; Some (None, s2) }
            | (Some dest, s1) \<Rightarrow>
                if length (hs_chars src) \<ge> len + 1 then do {
                  s2 \<leftarrow> free_block dest s1;
                  s3 \<leftarrow> sendErrorResponse (Some pRI) RIL_E_INTERNAL_ERR s2;
                  Some (None, s3) }
                else Some (Some (Some dest), s1)))"

section \<open>Entering a request and calling the vendor\<close>

definition addRequest :: "radio_env \<Rightarrow> int \<Rightarrow> int \<Rightarrow> svc \<Rightarrow> (addr option \<times> svc) option" where
  "addRequest W serial request s = do {
     (p, r) \<leftarrow> addRequestToList (add_env W) serial (mSlotId W) request (rild s);
     Some (p, s\<lparr>rild := r\<rparr>) }"

definition CALL_ONREQUEST :: "radio_env \<Rightarrow> int \<Rightarrow> payload \<Rightarrow> addr \<Rightarrow> int \<Rightarrow> svc \<Rightarrow> svc option" where
  "CALL_ONREQUEST W a b d e s =
     (let sock = (if 2 \<le> SIM_COUNT (rild s) then e else 0)
      in map_option (\<lambda>r. s\<lparr>rild := r, calls := calls s @ [(a, b, d, sock)]\<rparr>)
           (onRequest W a b d sock (rild s)))"

text \<open>Every helper starts alike: without a request it returns false.\<close>

definition with_request ::
  "radio_env \<Rightarrow> int \<Rightarrow> int \<Rightarrow> (addr \<Rightarrow> svc \<Rightarrow> (bool \<times> svc) option) \<Rightarrow> svc \<Rightarrow> (bool \<times> svc) option" where
  "with_request W serial request body s = do {
     (pRI, s1) \<leftarrow> addRequest W serial request s;
     case pRI of None \<Rightarrow> Some (False, s1) | Some p \<Rightarrow> body p s1 }"

section \<open>The helpers\<close>

definition dispatchVoid :: "radio_env \<Rightarrow> int \<Rightarrow> int \<Rightarrow> svc \<Rightarrow> (bool \<times> svc) option" where
  "dispatchVoid W serial request =
     with_request W serial request (\<lambda>pRI s. do {
       s1 \<leftarrow> CALL_ONREQUEST W request NoData pRI (mSlotId W) s;
       Some (True, s1) })"

definition dispatchString :: "radio_env \<Rightarrow> int \<Rightarrow> int \<Rightarrow> string \<Rightarrow> svc \<Rightarrow> (bool \<times> svc) option" where
  "dispatchString W serial request str =
     with_request W serial request (\<lambda>pRI s. do {
       (copied, s1) \<leftarrow> copyHidlStringToRil W (hidl_string_of str) pRI False s;
       case copied of
         None \<Rightarrow> Some (False, s1)
       | Some pString \<Rightarrow> do {
           c \<leftarrow> str_at s1 pString;
           s2 \<leftarrow> CALL_ONREQUEST W request (PString c) pRI (mSlotId W) s1;
           s3 \<leftarrow> memsetAndFreeStrings [pString] s2;
           Some (True, s3) } })"

text \<open>The copying loop, from index \<open>i\<close> on; a failed copy frees the earlier ones and the array.\<close>

fun fill_strings :: "radio_env \<Rightarrow> addr \<Rightarrow> addr \<Rightarrow> bool \<Rightarrow> nat \<Rightarrow> hidl_string list \<Rightarrow> svc \<Rightarrow> (bool \<times> svc) option" where
  "fill_strings W pStrings pRI allowEmpty i [] s = Some (True, s)"
| "fill_strings W pStrings pRI allowEmpty i (str # strs) s = do {
     (copied, s1) \<leftarrow> copyHidlStringToRil W str pRI allowEmpty s;
     case copied of
       Some dest \<Rightarrow> do {
         s2 \<leftarrow> store_ptr pStrings i dest s1;
         fill_strings W pStrings pRI allowEmpty (Suc i) strs s2 }
     | None \<Rightarrow> do {
         ps \<leftarrow> ptrs_at s1 pStrings;
         s2 \<leftarrow> memsetAndFreeStrings (take i ps) s1;
         s3 \<leftarrow> free_block pStrings s2;
         Some (False, s3) } }"

text \<open>
  The part both overloads of \<open>dispatchStrings\<close> and \<open>dispatchImsGsmSms\<close> share; \<open>f\<close> makes the payload from
  the array of strings.
\<close>

definition send_strings ::
  "radio_env \<Rightarrow> int \<Rightarrow> (cstr list \<Rightarrow> payload) \<Rightarrow> bool \<Rightarrow> hidl_string list \<Rightarrow> addr \<Rightarrow> svc \<Rightarrow> (bool \<times> svc) option" where
  "send_strings W request f allowEmpty strs pRI s =
     (case new_block W (CharPtrs (replicate (length strs) None)) s of
        (None, s1) \<Rightarrow> do { s2 \<leftarrow> sendErrorResponse (Some pRI) RIL_E_NO_MEMORY s1; Some (False, s2) }
      | (Some pStrings, s1) \<Rightarrow> do {
          (filled, s2) \<leftarrow> fill_strings W pStrings pRI allowEmpty 0 strs s1;
          if \<not> filled then Some (False, s2)
          else do {
            ps \<leftarrow> ptrs_at s2 pStrings;
            cs \<leftarrow> strs_at s2 ps;
            s3 \<leftarrow> CALL_ONREQUEST W request (f cs) pRI (mSlotId W) s2;
            s4 \<leftarrow> memsetAndFreeStrings ps s3;
            s5 \<leftarrow> free_block pStrings s4;
            Some (True, s5) } })"

definition dispatchStrings :: "radio_env \<Rightarrow> int \<Rightarrow> int \<Rightarrow> bool \<Rightarrow> string list \<Rightarrow> svc \<Rightarrow> (bool \<times> svc) option" where
  "dispatchStrings W serial request allowEmpty strs =
     with_request W serial request (\<lambda>pRI s. do {
       (sent, s1) \<leftarrow> send_strings W request PStrings allowEmpty (map hidl_string_of strs) pRI s;
       if sent \<and> request = RIL_REQUEST_SET_NETWORK_SELECTION_MANUAL
       then do {
         r \<leftarrow> RIL_onRequestComplete (done_env W) (Some pRI) RIL_E_SUCCESS None (rild s1);
         Some (True, s1\<lparr>rild := r\<rparr>) }
       else Some (sent, s1) })"

definition dispatchStringsVec :: "radio_env \<Rightarrow> int \<Rightarrow> int \<Rightarrow> hidl_string list \<Rightarrow> svc \<Rightarrow> (bool \<times> svc) option" where
  "dispatchStringsVec W serial request data =
     with_request W serial request (send_strings W request PStrings False data)"

definition dispatchInts :: "radio_env \<Rightarrow> int \<Rightarrow> int \<Rightarrow> int list \<Rightarrow> svc \<Rightarrow> (bool \<times> svc) option" where
  "dispatchInts W serial request ints =
     with_request W serial request (\<lambda>pRI s.
       case new_block W (Ints ints) s of
         (None, s1) \<Rightarrow> do { s2 \<leftarrow> sendErrorResponse (Some pRI) RIL_E_NO_MEMORY s1; Some (False, s2) }
       | (Some pInts, s1) \<Rightarrow> do {
           s2 \<leftarrow> CALL_ONREQUEST W request (PInts ints) pRI (mSlotId W) s1;
           s3 \<leftarrow> free_block pInts s2;
           Some (True, s3) })"

text \<open>Requests with a structure that holds one string: copy, call, free.\<close>

definition with_string ::
  "radio_env \<Rightarrow> hidl_string \<Rightarrow> addr \<Rightarrow> (addr option \<Rightarrow> svc \<Rightarrow> (bool \<times> svc) option) \<Rightarrow> svc \<Rightarrow> (bool \<times> svc) option" where
  "with_string W src pRI body s = do {
     (copied, s1) \<leftarrow> copyHidlStringToRil W src pRI False s;
     case copied of None \<Rightarrow> Some (False, s1) | Some dest \<Rightarrow> body dest s1 }"

definition dispatchCallForwardStatus ::
  "radio_env \<Rightarrow> int \<Rightarrow> int \<Rightarrow> hidl_call_forward \<Rightarrow> svc \<Rightarrow> (bool \<times> svc) option" where
  "dispatchCallForwardStatus W serial request callInfo =
     with_request W serial request (\<lambda>pRI. with_string W (hc_number callInfo) pRI (\<lambda>number s. do {
       c \<leftarrow> str_at s number;
       s1 \<leftarrow> CALL_ONREQUEST W request
         (PCallForward \<lparr>cf_status = hc_status callInfo, cf_reason = hc_reason callInfo,
            cf_serviceClass = hc_serviceClass callInfo, cf_toa = hc_toa callInfo, cf_number = c,
            cf_timeSeconds = hc_timeSeconds callInfo\<rparr>) pRI (mSlotId W) s;
       s2 \<leftarrow> memsetAndFreeStrings [number] s1;
       Some (True, s2) }))"

definition dispatchRaw :: "radio_env \<Rightarrow> int \<Rightarrow> int \<Rightarrow> u8 list \<Rightarrow> svc \<Rightarrow> (bool \<times> svc) option" where
  "dispatchRaw W serial request rawBytes =
     with_request W serial request (\<lambda>pRI s. do {
       s1 \<leftarrow> CALL_ONREQUEST W request (PRaw rawBytes) pRI (mSlotId W) s;
       Some (True, s1) })"

definition dispatchIccApdu :: "radio_env \<Rightarrow> int \<Rightarrow> int \<Rightarrow> hidl_sim_apdu \<Rightarrow> svc \<Rightarrow> (bool \<times> svc) option" where
  "dispatchIccApdu W serial request message =
     with_request W serial request (\<lambda>pRI. with_string W (ha_data message) pRI (\<lambda>data s. do {
       c \<leftarrow> str_at s data;
       s1 \<leftarrow> CALL_ONREQUEST W request
         (PApdu \<lparr>ap_sessionid = ha_sessionId message, ap_cla = ha_cla message,
            ap_instruction = ha_instruction message, ap_p1 = ha_p1 message, ap_p2 = ha_p2 message,
            ap_p3 = ha_p3 message, ap_data = c\<rparr>) pRI (mSlotId W) s;
       s2 \<leftarrow> memsetAndFreeStrings [data] s1;
       Some (True, s2) }))"

section \<open>What the helpers do\<close>

subsection \<open>Freeing\<close>

fun somes :: "addr option list \<Rightarrow> addr list" where
  "somes [] = []"
| "somes (p # ps) = (case p of None \<Rightarrow> somes ps | Some a \<Rightarrow> a # somes ps)"

lemma somes_append [simp]: "somes (xs @ ys) = somes xs @ somes ys"
  by (induction xs) (auto split: option.splits)

lemma somes_replicate [simp]: "somes (replicate n None) = []"
  by (induction n) simp_all

lemma free_strings_ok:
  "heap_ext s0 A s \<Longrightarrow> set (somes ps) \<subseteq> A \<Longrightarrow> distinct (somes ps) \<Longrightarrow>
     \<exists>s'. memsetAndFreeStrings ps s = Some s' \<and> heap_ext s0 (A - set (somes ps)) s' \<and>
       rild s' = rild s \<and> calls s' = calls s \<and> (\<forall>a. a \<notin> set (somes ps) \<longrightarrow> blocks s' a = blocks s a)"
proof (induction ps arbitrary: s A)
  case (Cons q ps)
  show ?case
  proof (cases q)
    case None
    with Cons show ?thesis by simp
  next
    case (Some p)
    with Cons.prems have "p \<in> A" by simp
    from heap_ext_free [OF Cons.prems(1) this] obtain s1 where
      s1: "free_block p s = Some s1" "s1 = s\<lparr>blocks := (blocks s)(p := None)\<rparr>" "heap_ext s0 (A - {p}) s1" by blast
    have "set (somes ps) \<subseteq> A - {p}" "distinct (somes ps)" using Cons.prems Some by auto
    from Cons.IH [OF s1(3) this] obtain s2 where
      "memsetAndFreeStrings ps s1 = Some s2" "heap_ext s0 (A - {p} - set (somes ps)) s2"
      "rild s2 = rild s1" "calls s2 = calls s1" "\<forall>a. a \<notin> set (somes ps) \<longrightarrow> blocks s2 a = blocks s1 a" by blast
    with s1 Some show ?thesis by (simp add: Diff_insert2 [symmetric] set_diff_eq)
  qed
qed simp

lemma free_append: "memsetAndFreeStrings (xs @ [Some p]) t = do { t1 \<leftarrow> memsetAndFreeStrings xs t; free_block p t1 }"
proof (induction xs arbitrary: t)
  case Nil
  then show ?case by (cases "free_block p t") simp_all
next
  case (Cons x xs)
  show ?case
  proof (cases x)
    case (Some a)
    with Cons show ?thesis by (cases "free_block a t") simp_all
  qed (simp add: Cons)
qed

lemma str_at_cong: "(\<And>a. p = Some a \<Longrightarrow> blocks s' a = blocks s a) \<Longrightarrow> str_at s' p = str_at s p"
  by (cases p) (simp_all add: str_at_def)

lemma strs_at_cong: "(\<And>a. a \<in> set (somes ps) \<Longrightarrow> blocks s' a = blocks s a) \<Longrightarrow> strs_at s' ps = strs_at s ps"
proof (induction ps)
  case (Cons p ps)
  have "str_at s' p = str_at s p" using Cons.prems by (intro str_at_cong) auto
  moreover have "strs_at s' ps = strs_at s ps" using Cons by (cases p) auto
  ultimately show ?case by simp
qed simp

lemma strs_at_append:
  "strs_at s (xs @ ys) = do { a \<leftarrow> strs_at s xs; b \<leftarrow> strs_at s ys; Some (a @ b) }"
  by (induction xs) (auto simp: bind_eq_Some_conv split: Option.bind_split)

subsection \<open>Copying\<close>

text \<open>The C string a copy of \<open>src\<close> is.\<close>

definition copied_as :: "bool \<Rightarrow> hidl_string \<Rightarrow> cstr" where
  "copied_as allowEmpty src = (if hs_size src = 0 \<and> \<not> allowEmpty then None else Some (hs_chars src))"

lemma copied_as_of [simp]: "copied_as ae (hidl_string_of c) = (if c = [] \<and> \<not> ae then None else Some c)"
  by (simp add: copied_as_def)

text \<open>A request that can be answered with an error.\<close>

definition answerable :: "addr \<Rightarrow> ril_state \<Rightarrow> bool" where
  "answerable p r \<longleftrightarrow> (\<exists>q f. requests r p = Some q \<and> responseFunction (s_commands ! nat (pCI q)) = Some f)"

lemma respond_error_total: "answerable p r \<Longrightarrow> \<exists>r'. respond_error p e r = Some r'"
  by (auto simp: answerable_def respond_error_def)

text \<open>
  What can go wrong while strings are copied, with its cause: no memory only if an allocation fails, an internal error only if one of
  the strings is longer than it says.
\<close>

definition copy_errors :: "radio_env \<Rightarrow> hidl_string list \<Rightarrow> int set" where
  "copy_errors W strs = {e. e = RIL_E_NO_MEMORY \<and> (\<exists>a. oom W a) \<or>
     e = RIL_E_INTERNAL_ERR \<and> (\<exists>str \<in> set strs. hs_size str < length (hs_chars str))}"

lemma copy_errors_mono: "set strs \<subseteq> set strs' \<Longrightarrow> copy_errors W strs \<subseteq> copy_errors W strs'"
  by (auto simp: copy_errors_def)

lemma no_memory_error: "oom W a \<Longrightarrow> RIL_E_NO_MEMORY \<in> copy_errors W strs"
  by (auto simp: copy_errors_def)

lemma copy_errors_of [simp]: "copy_errors W (map hidl_string_of cs) = copy_errors W []" "copy_errors W [hidl_string_of c] = copy_errors W []"
  by (auto simp: copy_errors_def)

lemma copy_ok:
  assumes H: "heap_ext s0 A s" and q: "answerable pRI (rild s)"
  shows "(\<exists>dest s1. copyHidlStringToRil W src pRI allowEmpty s = Some (Some dest, s1) \<and>
      rild s1 = rild s \<and> calls s1 = calls s \<and> heap_ext s0 (A \<union> set (somes [dest])) s1 \<and>
      set (somes [dest]) \<inter> A = {} \<and> str_at s1 dest = Some (copied_as allowEmpty src) \<and>
      (\<forall>a\<in>A. blocks s1 a = blocks s a)) \<or>
    (\<exists>e s1. e \<in> copy_errors W [src] \<and> copyHidlStringToRil W src pRI allowEmpty s = Some (None, s1) \<and>
      respond_error pRI e (rild s) = Some (rild s1) \<and> calls s1 = calls s \<and> heap_ext s0 A s1 \<and>
      (\<forall>a\<in>A. blocks s1 a = blocks s a))"
proof (cases "hs_size src = 0 \<and> \<not> allowEmpty")
  case True
  then have "copyHidlStringToRil W src pRI allowEmpty s = Some (Some None, s)"
    by (simp add: copyHidlStringToRil_def)
  with True H show ?thesis
    by (intro disjI1 exI [of _ None] exI [of _ s]) (simp add: copied_as_def str_at_def)
next
  case copies: False
  show ?thesis
  proof (cases "oom W (allocs s)")
    case True
    let ?s = "s\<lparr>allocs := Suc (allocs s)\<rparr>"
    from respond_error_total [OF q] obtain r where r: "respond_error pRI RIL_E_NO_MEMORY (rild s) = Some r" by blast
    have "copyHidlStringToRil W src pRI allowEmpty s = Some (None, ?s\<lparr>rild := r\<rparr>)"
      using copies True r by (auto simp: copyHidlStringToRil_def new_block_def sendErrorResponse_def Let_def)
    with r heap_ext_oom [OF H] show ?thesis
      by (intro disjI2 exI [of _ RIL_E_NO_MEMORY] exI [of _ "?s\<lparr>rild := r\<rparr>"]) (simp add: no_memory_error [OF True])
  next
    case False
    let ?d = "allocs s"
    define s1 where "s1 = snd (new_block W (Chars (take (hs_size src) (hs_chars src))) s)"
    have nb: "new_block W (Chars (take (hs_size src) (hs_chars src))) s = (Some ?d, s1)"
      using False by (simp add: s1_def new_block_def)
    have H1: "heap_ext s0 (insert ?d A) s1" unfolding s1_def by (rule heap_ext_alloc [OF H False])
    have f: "rild s1 = rild s" "calls s1 = calls s" "blocks s1 ?d = Some (Chars (take (hs_size src) (hs_chars src)))"
      "\<And>a. a \<noteq> ?d \<Longrightarrow> blocks s1 a = blocks s a"
      using False by (simp_all add: s1_def new_block_def)
    note new = heap_ext_new [OF H]
    then have same: "\<forall>a\<in>A. blocks s1 a = blocks s a" using f(4) by metis
    show ?thesis
    proof (cases "length (hs_chars src) \<ge> hs_size src + 1")
      case True
      from heap_ext_free [OF H1, of ?d] obtain s2 where
        s2: "free_block ?d s1 = Some s2" "s2 = s1\<lparr>blocks := (blocks s1)(?d := None)\<rparr>" "heap_ext s0 (insert ?d A - {?d}) s2"
        by blast
      from respond_error_total [OF q] obtain r where r: "respond_error pRI RIL_E_INTERNAL_ERR (rild s) = Some r" by blast
      have "copyHidlStringToRil W src pRI allowEmpty s = Some (None, s2\<lparr>rild := r\<rparr>)"
        using copies True nb s2(1) r f(1) by (auto simp: copyHidlStringToRil_def sendErrorResponse_def s2(2) Let_def)
      moreover have "insert ?d A - {?d} = A" using new by simp
      ultimately show ?thesis using r s2 f new same True
        by (intro disjI2 exI [of _ RIL_E_INTERNAL_ERR] exI [of _ "s2\<lparr>rild := r\<rparr>"]) (auto simp: copy_errors_def)
    next
      case False
      then have "copyHidlStringToRil W src pRI allowEmpty s = Some (Some (Some ?d), s1)"
        using copies nb by (auto simp: copyHidlStringToRil_def Let_def)
      moreover have "str_at s1 (Some ?d) = Some (copied_as allowEmpty src)"
        using copies False f(3) by (simp add: str_at_def copied_as_def)
      ultimately show ?thesis using H1 f new same
        by (intro disjI1 exI [of _ "Some ?d"] exI [of _ s1]) simp
    qed
  qed
qed

subsection \<open>The copying loop\<close>

lemma ptrs_at_Some: "ptrs_at s arr = Some ps \<longleftrightarrow> blocks s arr = Some (CharPtrs ps)"
  by (auto simp: ptrs_at_def split: option.splits block.splits)

lemma fill_ok:
  assumes "heap_ext s0 (insert arr (set (somes ds))) s" "arr \<notin> set (somes ds)" "distinct (somes ds)"
    and "blocks s arr = Some (CharPtrs (ds @ replicate (length strs) None))" "i = length ds"
    and "strs_at s ds = Some cs" "answerable pRI (rild s)"
  shows "(\<exists>es s1. fill_strings W arr pRI ae i strs s = Some (True, s1) \<and> rild s1 = rild s \<and> calls s1 = calls s \<and>
      heap_ext s0 (insert arr (set (somes es))) s1 \<and> arr \<notin> set (somes es) \<and> distinct (somes es) \<and>
      blocks s1 arr = Some (CharPtrs es) \<and> strs_at s1 es = Some (cs @ map (copied_as ae) strs)) \<or>
    (\<exists>e s1. e \<in> copy_errors W strs \<and> fill_strings W arr pRI ae i strs s = Some (False, s1) \<and>
      respond_error pRI e (rild s) = Some (rild s1) \<and> calls s1 = calls s \<and> heap_ext s0 {} s1)"
  using assms
proof (induction strs arbitrary: ds i cs s)
  case Nil
  then show ?case by (intro disjI1 exI [of _ ds] exI [of _ s]) simp
next
  case (Cons str strs)
  let ?A = "insert arr (set (somes ds))"
  from copy_ok [OF Cons.prems(1,7), of W str ae] show ?case
  proof (elim disjE exE conjE)
    fix dest s1
    assume c: "copyHidlStringToRil W str pRI ae s = Some (Some dest, s1)" "rild s1 = rild s" "calls s1 = calls s"
      "heap_ext s0 (?A \<union> set (somes [dest])) s1" "set (somes [dest]) \<inter> ?A = {}"
      "str_at s1 dest = Some (copied_as ae str)" "\<forall>a\<in>?A. blocks s1 a = blocks s a"
    let ?ds = "ds @ [dest]"
    let ?s2 = "s1\<lparr>blocks := (blocks s1)(arr \<mapsto> CharPtrs (?ds @ replicate (length strs) None))\<rparr>"
    have arr: "blocks s1 arr = Some (CharPtrs (ds @ replicate (length (str # strs)) None))"
      using c(7) Cons.prems(4) by simp
    have st: "store_ptr arr i dest s1 = Some ?s2"
      using arr Cons.prems(5) by (simp add: store_ptr_def ptrs_at_def list_update_append)
    have A: "?A \<union> set (somes [dest]) = insert arr (set (somes ?ds))" by auto
    have H2: "heap_ext s0 (insert arr (set (somes ?ds))) ?s2"
      using c(4) unfolding A by (auto simp: heap_ext_def)
    have n2: "arr \<notin> set (somes ?ds)" using c(5) Cons.prems(2) by auto
    have d2: "distinct (somes ?ds)" using c(5) Cons.prems(3) by (cases dest) auto
    have "strs_at s1 ds = strs_at s ds" using c(7) by (intro strs_at_cong) auto
    moreover have "strs_at ?s2 ds = strs_at s1 ds" using Cons.prems(2) by (intro strs_at_cong) auto
    moreover have "str_at ?s2 dest = str_at s1 dest" using c(5) by (intro str_at_cong) auto
    ultimately have v2: "strs_at ?s2 ?ds = Some (cs @ [copied_as ae str])"
      using Cons.prems(6) c(6) by (simp add: strs_at_append)
    have "answerable pRI (rild ?s2)" using Cons.prems(7) c(2) by simp
    note step = Cons.IH [OF H2 n2 d2 _ _ v2 this, of "Suc i"]
    have run: "fill_strings W arr pRI ae i (str # strs) s = fill_strings W arr pRI ae (Suc i) strs ?s2"
      using c(1) st by simp
    have "copy_errors W strs \<subseteq> copy_errors W (str # strs)" by (rule copy_errors_mono) auto
    then show ?case unfolding run using step Cons.prems(5) c(2,3) by (auto dest: subsetD)
  next
    fix e s1
    assume c: "e \<in> copy_errors W [str]" "copyHidlStringToRil W str pRI ae s = Some (None, s1)"
      "respond_error pRI e (rild s) = Some (rild s1)" "calls s1 = calls s" "heap_ext s0 ?A s1"
      "\<forall>a\<in>?A. blocks s1 a = blocks s a"
    have arr: "ptrs_at s1 arr = Some (ds @ replicate (length (str # strs)) None)"
      using c(6) Cons.prems(4) by (simp add: ptrs_at_def)
    have "set (somes ds) \<subseteq> ?A" by blast
    from free_strings_ok [OF c(5) this Cons.prems(3)] obtain s2 where
      s2: "memsetAndFreeStrings ds s1 = Some s2" "heap_ext s0 (?A - set (somes ds)) s2" "rild s2 = rild s1" "calls s2 = calls s1"
      by blast
    have "?A - set (somes ds) = {arr}" using Cons.prems(2) by blast
    with s2(2) have "heap_ext s0 {arr} s2" by simp
    from heap_ext_free [OF this, of arr] obtain s3 where
      s3: "free_block arr s2 = Some s3" "s3 = s2\<lparr>blocks := (blocks s2)(arr := None)\<rparr>" "heap_ext s0 ({arr} - {arr}) s3"
      by blast
    have "fill_strings W arr pRI ae i (str # strs) s = Some (False, s3)"
      using c(2) arr s2(1) s3(1) Cons.prems(5) by simp
    moreover have "rild s3 = rild s1" "calls s3 = calls s" using s2 s3(2) c(4) by simp_all
    moreover have "e \<in> copy_errors W (str # strs)" using c(1) copy_errors_mono [of "[str]" "str # strs" W] by auto
    ultimately show ?case using c(3) s3(3) by (intro disjI2 exI [of _ e] exI [of _ s3]) simp
  qed
qed

subsection \<open>Outcomes\<close>

text \<open>
  \<open>delivers_in E W request d p s ok s'\<close>: on success the vendor was called once, with the payload \<open>d\<close> and
  the token \<open>p\<close>; otherwise it was not called and the request was answered with an error of \<open>E\<close>. Either
  way the heap is as before.
\<close>

definition delivers_in :: "int set \<Rightarrow> radio_env \<Rightarrow> int \<Rightarrow> payload \<Rightarrow> addr \<Rightarrow> svc \<Rightarrow> bool \<Rightarrow> svc \<Rightarrow> bool" where
  "delivers_in E W request d p s ok s' \<longleftrightarrow> blocks s' = blocks s \<and> heap_ok s' \<and>
     (let sock = (if 2 \<le> SIM_COUNT (rild s) then mSlotId W else 0)
      in if ok then calls s' = calls s @ [(request, d, p, sock)] \<and>
                    onRequest W request d p sock (rild s) = Some (rild s')
         else calls s' = calls s \<and> (\<exists>e\<in>E. respond_error p e (rild s) = Some (rild s')))"

abbreviation delivers :: "hidl_string list \<Rightarrow> radio_env \<Rightarrow> int \<Rightarrow> payload \<Rightarrow> addr \<Rightarrow> svc \<Rightarrow> bool \<Rightarrow> svc \<Rightarrow> bool" where
  "delivers strs W \<equiv> delivers_in (copy_errors W strs) W"

lemma delivers_mono: "delivers_in E W request d p s ok s' \<Longrightarrow> E \<subseteq> F \<Longrightarrow> delivers_in F W request d p s ok s'"
  by (cases ok) (auto simp: delivers_in_def Let_def)

definition vendor_returns :: "radio_env \<Rightarrow> bool" where
  "vendor_returns W \<longleftrightarrow> (\<forall>a b d e r. onRequest W a b d e r \<noteq> None)"

lemma call_ok_vendor:
  assumes "vendor_returns W"
  shows "\<exists>s'. CALL_ONREQUEST W request d p slot s = Some s' \<and> blocks s' = blocks s \<and> allocs s' = allocs s \<and>
    calls s' = calls s @ [(request, d, p, if 2 \<le> SIM_COUNT (rild s) then slot else 0)] \<and>
    onRequest W request d p (if 2 \<le> SIM_COUNT (rild s) then slot else 0) (rild s) = Some (rild s')"
  using assms by (fastforce simp: vendor_returns_def CALL_ONREQUEST_def Let_def)

lemma deliversI_error:
  assumes "heap_ext s {} s'" "calls s' = calls s" "e \<in> E" "respond_error p e (rild s) = Some (rild s')"
  shows "delivers_in E W request d p s False s'"
  using assms heap_ext_none [OF assms(1)] heap_ext_ok [OF assms(1)] by (auto simp: delivers_in_def)

lemma heap_ext_call:
  "heap_ext s0 A s \<Longrightarrow> blocks s' = blocks s \<Longrightarrow> allocs s' = allocs s \<Longrightarrow> heap_ext s0 A s'"
  by (simp add: heap_ext_def)

text \<open>A call with strings on the heap that are freed after it.\<close>

lemma call_and_free:
  assumes H: "heap_ext s0 (set (somes ps)) s" and d: "distinct (somes ps)" and V: "vendor_returns W"
    and same: "rild s = rild s0" "calls s = calls s0"
  shows "\<exists>s1 s2. CALL_ONREQUEST W request b p (mSlotId W) s = Some s1 \<and> memsetAndFreeStrings ps s1 = Some s2 \<and>
    delivers_in E W request b p s0 True s2"
proof -
  from call_ok_vendor [OF V, of request b p "mSlotId W" s] obtain s1 where
    s1: "CALL_ONREQUEST W request b p (mSlotId W) s = Some s1" "blocks s1 = blocks s" "allocs s1 = allocs s"
      "calls s1 = calls s @ [(request, b, p, if 2 \<le> SIM_COUNT (rild s) then mSlotId W else 0)]"
      "onRequest W request b p (if 2 \<le> SIM_COUNT (rild s) then mSlotId W else 0) (rild s) = Some (rild s1)"
    by blast
  from free_strings_ok [OF heap_ext_call [OF H s1(2,3)] subset_refl d] obtain s2 where
    s2: "memsetAndFreeStrings ps s1 = Some s2" "heap_ext s0 {} s2" "rild s2 = rild s1" "calls s2 = calls s1"
    by auto
  have "delivers_in E W request b p s0 True s2"
    using heap_ext_none [OF s2(2)] heap_ext_ok [OF s2(2)] s1(4,5) s2(3,4) same by (simp add: delivers_in_def Let_def)
  with s1(1) s2(1) show ?thesis by blast
qed

subsection \<open>The bodies\<close>

lemma copy_call_free:
  assumes "heap_ok s" "answerable p (rild s)" "vendor_returns W"
  shows "\<exists>ok s'. with_string W src p (\<lambda>dest s. do {
       c \<leftarrow> str_at s dest;
       s1 \<leftarrow> CALL_ONREQUEST W request (f c) p (mSlotId W) s;
       s2 \<leftarrow> memsetAndFreeStrings [dest] s1;
       Some (True, s2) }) s = Some (ok, s') \<and>
     delivers [src] W request (f (copied_as False src)) p s ok s'"
  using copy_ok [OF heap_ext_refl [OF assms(1)] assms(2), of W src False]
proof (elim disjE exE conjE)
  fix dest s1
  assume c: "copyHidlStringToRil W src p False s = Some (Some dest, s1)" "rild s1 = rild s" "calls s1 = calls s"
    "heap_ext s ({} \<union> set (somes [dest])) s1" "str_at s1 dest = Some (copied_as False src)"
  have "distinct (somes [dest])" by (cases dest) simp_all
  from call_and_free [OF _ this assms(3) c(2,3), where request = request and b = "f (copied_as False src)" and p = p and E = "copy_errors W [src]"] c(4) obtain s2 s3 where
    "CALL_ONREQUEST W request (f (copied_as False src)) p (mSlotId W) s1 = Some s2"
    "memsetAndFreeStrings [dest] s2 = Some s3" "delivers [src] W request (f (copied_as False src)) p s True s3"
    by auto
  with c(1,5) show ?thesis
    by (intro exI [of _ True] exI [of _ s3]) (simp add: with_string_def del: memsetAndFreeStrings.simps)
next
  fix e s1
  assume "e \<in> copy_errors W [src]" "copyHidlStringToRil W src p False s = Some (None, s1)"
    "respond_error p e (rild s) = Some (rild s1)" "calls s1 = calls s" "heap_ext s {} s1"
  then show ?thesis
    by (intro exI [of _ False] exI [of _ s1]) (simp add: with_string_def deliversI_error)
qed

lemma send_strings_ok:
  assumes "heap_ok s" "answerable p (rild s)" "vendor_returns W"
  shows "\<exists>ok s'. send_strings W request f ae strs p s = Some (ok, s') \<and>
     delivers strs W request (f (map (copied_as ae) strs)) p s ok s'"
proof (cases "oom W (allocs s)")
  case True
  let ?s = "s\<lparr>allocs := Suc (allocs s)\<rparr>"
  from respond_error_total [OF assms(2)] obtain r where r: "respond_error p RIL_E_NO_MEMORY (rild s) = Some r" by blast
  have "send_strings W request f ae strs p s = Some (False, ?s\<lparr>rild := r\<rparr>)"
    using True r by (simp add: send_strings_def new_block_def sendErrorResponse_def)
  moreover have "delivers strs W request (f (map (copied_as ae) strs)) p s False (?s\<lparr>rild := r\<rparr>)"
    by (rule deliversI_error [where e = RIL_E_NO_MEMORY])
      (use heap_ext_oom [OF heap_ext_refl [OF assms(1)]] r in \<open>simp_all add: no_memory_error [OF True]\<close>)
  ultimately show ?thesis by blast
next
  case False
  let ?d = "allocs s" and ?b = "CharPtrs (replicate (length strs) None)"
  define s1 where "s1 = snd (new_block W ?b s)"
  have nb: "new_block W ?b s = (Some ?d, s1)" using False by (simp add: s1_def new_block_def)
  have H1: "heap_ext s (insert ?d (set (somes []))) s1"
    unfolding s1_def using heap_ext_alloc [OF heap_ext_refl [OF assms(1)] False] by simp
  have f: "rild s1 = rild s" "calls s1 = calls s" "blocks s1 ?d = Some (CharPtrs ([] @ replicate (length strs) None))"
    using False by (simp_all add: s1_def new_block_def)
  have "strs_at s1 [] = Some []" "answerable p (rild s1)" using assms(2) f(1) by simp_all
  from fill_ok [OF H1 _ _ f(3) _ this, of 0 W ae] show ?thesis
  proof (simp, elim disjE exE conjE)
    fix es s2
    assume c: "fill_strings W ?d p ae 0 strs s1 = Some (True, s2)" "rild s2 = rild s1" "calls s2 = calls s1"
      "heap_ext s (insert ?d (set (somes es))) s2" "?d \<notin> set (somes es)" "distinct (somes es)"
      "blocks s2 ?d = Some (CharPtrs es)" "strs_at s2 es = Some (map (copied_as ae) strs)"
    have h: "heap_ext s (set (somes (es @ [Some ?d]))) s2" "distinct (somes (es @ [Some ?d]))" using c(4-6) by simp_all
    have split: "memsetAndFreeStrings (es @ [Some ?d]) t = do { t1 \<leftarrow> memsetAndFreeStrings es t; free_block ?d t1 }" for t
      by (simp add: free_append)
    from call_and_free [OF h assms(3), where request = request and b = "f (map (copied_as ae) strs)" and p = p and E = "copy_errors W strs"] c(2,3) f(1,2) obtain s3 s5 where
      s3: "CALL_ONREQUEST W request (f (map (copied_as ae) strs)) p (mSlotId W) s2 = Some s3"
        "memsetAndFreeStrings (es @ [Some ?d]) s3 = Some s5"
        "delivers strs W request (f (map (copied_as ae) strs)) p s True s5" by auto
    from s3(2) obtain s4 where "memsetAndFreeStrings es s3 = Some s4" "free_block ?d s4 = Some s5"
      unfolding split by (auto simp: bind_eq_Some_conv)
    with c(1,7,8) s3(1,3) nb show ?thesis
      by (intro exI [of _ True] exI [of _ s5]) (simp add: send_strings_def ptrs_at_def)
  next
    fix e s2
    assume "e \<in> copy_errors W strs" "fill_strings W ?d p ae 0 strs s1 = Some (False, s2)"
      "respond_error p e (rild s1) = Some (rild s2)" "calls s2 = calls s1" "heap_ext s {} s2"
    with nb f show ?thesis
      by (intro exI [of _ False] exI [of _ s2]) (simp add: send_strings_def deliversI_error)
  qed
qed

lemma send_ints_ok:
  assumes "heap_ok s" "answerable p (rild s)" "vendor_returns W"
  shows "\<exists>ok s'. (case new_block W (Ints ints) s of
       (None, s1) \<Rightarrow> do { s2 \<leftarrow> sendErrorResponse (Some p) RIL_E_NO_MEMORY s1; Some (False, s2) }
     | (Some pInts, s1) \<Rightarrow> do {
         s2 \<leftarrow> CALL_ONREQUEST W request (PInts ints) p (mSlotId W) s1;
         s3 \<leftarrow> free_block pInts s2;
         Some (True, s3) }) = Some (ok, s') \<and>
     delivers [] W request (PInts ints) p s ok s'"
proof (cases "oom W (allocs s)")
  case True
  let ?s = "s\<lparr>allocs := Suc (allocs s)\<rparr>"
  from respond_error_total [OF assms(2)] obtain r where r: "respond_error p RIL_E_NO_MEMORY (rild s) = Some r" by blast
  have "delivers [] W request (PInts ints) p s False (?s\<lparr>rild := r\<rparr>)"
    by (rule deliversI_error [where e = RIL_E_NO_MEMORY])
      (use heap_ext_oom [OF heap_ext_refl [OF assms(1)]] r in \<open>simp_all add: no_memory_error [OF True]\<close>)
  with True r show ?thesis
    by (intro exI [of _ False] exI [of _ "?s\<lparr>rild := r\<rparr>"]) (simp add: new_block_def sendErrorResponse_def)
next
  case False
  define s1 where "s1 = snd (new_block W (Ints ints) s)"
  have nb: "new_block W (Ints ints) s = (Some (allocs s), s1)" using False by (simp add: s1_def new_block_def)
  have H: "heap_ext s (set (somes [Some (allocs s)])) s1"
    using heap_ext_alloc [OF heap_ext_refl [OF assms(1)] False] by (simp add: s1_def)
  have "rild s1 = rild s" "calls s1 = calls s" using False by (simp_all add: s1_def new_block_def)
  from call_and_free [OF H _ assms(3) this, where request = request and b = "PInts ints" and p = p and E = "copy_errors W []"] obtain s2 s3 where
    "CALL_ONREQUEST W request (PInts ints) p (mSlotId W) s1 = Some s2" "free_block (allocs s) s2 = Some s3"
    "delivers [] W request (PInts ints) p s True s3"
    by (auto simp: bind_eq_Some_conv)
  with nb show ?thesis by (intro exI [of _ True] exI [of _ s3]) simp
qed

lemma send_plain_ok:
  assumes "heap_ok s" "vendor_returns W"
  shows "\<exists>s'. CALL_ONREQUEST W request d p (mSlotId W) s = Some s' \<and> delivers_in E W request d p s True s'"
  using call_and_free [of s "[]" s W request d p] heap_ext_refl [OF assms(1)] assms(2) by auto

subsection \<open>Whole helpers\<close>

definition handled_in :: "int set \<Rightarrow> radio_env \<Rightarrow> int \<Rightarrow> int \<Rightarrow> payload \<Rightarrow> svc \<Rightarrow> bool \<Rightarrow> svc \<Rightarrow> bool" where
  "handled_in E W serial request d s ok s' \<longleftrightarrow>
     (\<exists>p r. addRequestToList (add_env W) serial (mSlotId W) request (rild s) = Some (p, r) \<and>
        (case p of None \<Rightarrow> \<not> ok \<and> s' = s\<lparr>rild := r\<rparr>
         | Some q \<Rightarrow> delivers_in E W request d q (s\<lparr>rild := r\<rparr>) ok s'))"

abbreviation handled :: "hidl_string list \<Rightarrow> radio_env \<Rightarrow> int \<Rightarrow> int \<Rightarrow> payload \<Rightarrow> svc \<Rightarrow> bool \<Rightarrow> svc \<Rightarrow> bool" where
  "handled strs W \<equiv> handled_in (copy_errors W strs) W"

text \<open>Requests of the table that have a response function.\<close>

definition answered :: "int \<Rightarrow> bool" where
  "answered request \<longleftrightarrow> 0 \<le> request \<and> request < int (length s_commands) \<and>
     responseFunction (s_commands ! nat request) \<noteq> None"

lemma add_answerable:
  assumes "answered request"
  shows "\<exists>p r. addRequestToList en serial slot request s = Some (p, r) \<and> (\<forall>q. p = Some q \<longrightarrow> answerable q r)"
  using assms by (cases "calloc en s") (auto simp: answered_def addRequestToList_def answerable_def Let_def)

lemma handled_by_body:
  assumes "answered request" "heap_ok s"
    and body: "\<And>q t. heap_ok t \<Longrightarrow> answerable q (rild t) \<Longrightarrow> \<exists>ok s'. body q t = Some (ok, s') \<and>
      delivers_in E W request d q t ok s'"
  shows "\<exists>ok s'. with_request W serial request body s = Some (ok, s') \<and> handled_in E W serial request d s ok s'"
proof -
  from add_answerable [OF assms(1), of "add_env W" serial "mSlotId W" "rild s"] obtain p r where
    a: "addRequestToList (add_env W) serial (mSlotId W) request (rild s) = Some (p, r)" "\<forall>q. p = Some q \<longrightarrow> answerable q r"
    by blast
  show ?thesis
  proof (cases p)
    case None
    with a show ?thesis
      by (intro exI [of _ False] exI [of _ "s\<lparr>rild := r\<rparr>"]) (simp add: with_request_def addRequest_def handled_in_def)
  next
    case (Some q)
    have "heap_ok (s\<lparr>rild := r\<rparr>)" "answerable q (rild (s\<lparr>rild := r\<rparr>))"
      using assms(2) a(2) Some by (simp_all add: heap_ok_def)
    from body [OF this] obtain ok s' where
      "body q (s\<lparr>rild := r\<rparr>) = Some (ok, s')" "delivers_in E W request d q (s\<lparr>rild := r\<rparr>) ok s'" by blast
    with a Some show ?thesis
      by (intro exI [of _ ok] exI [of _ s']) (simp add: with_request_def addRequest_def handled_in_def)
  qed
qed


lemma dispatchVoid_ok:
  assumes env: "heap_ok s" "vendor_returns W" "answered request"
  shows "\<exists>ok s'. dispatchVoid W serial request s = Some (ok, s') \<and> handled_in E W serial request NoData s ok s'"
  unfolding dispatchVoid_def
proof (rule handled_by_body [OF env(3,1)])
  fix q t assume "heap_ok t"
  from send_plain_ok [OF this env(2), where request = request and d = NoData and p = q and E = E]
  show "\<exists>ok s'. do { s1 \<leftarrow> CALL_ONREQUEST W request NoData q (mSlotId W) t; Some (True, s1) } = Some (ok, s') \<and>
      delivers_in E W request NoData q t ok s'" by auto
qed

lemma dispatchRaw_ok:
  assumes env: "heap_ok s" "vendor_returns W" "answered request"
  shows "\<exists>ok s'. dispatchRaw W serial request bs s = Some (ok, s') \<and> handled_in E W serial request (PRaw bs) s ok s'"
  unfolding dispatchRaw_def
proof (rule handled_by_body [OF env(3,1)])
  fix q t assume "heap_ok t"
  from send_plain_ok [OF this env(2), where request = request and d = "PRaw bs" and p = q and E = E]
  show "\<exists>ok s'. do { s1 \<leftarrow> CALL_ONREQUEST W request (PRaw bs) q (mSlotId W) t; Some (True, s1) } = Some (ok, s') \<and>
      delivers_in E W request (PRaw bs) q t ok s'" by auto
qed

lemma dispatchInts_ok:
  assumes env: "heap_ok s" "vendor_returns W" "answered request"
  shows "\<exists>ok s'. dispatchInts W serial request ints s = Some (ok, s') \<and> handled [] W serial request (PInts ints) s ok s'"
  unfolding dispatchInts_def by (rule handled_by_body [OF env(3,1)], rule send_ints_ok [OF _ _ env(2)])

lemma dispatchString_ok:
  assumes env: "heap_ok s" "vendor_returns W" "answered request"
  shows "\<exists>ok s'. dispatchString W serial request str s = Some (ok, s') \<and>
     handled [] W serial request (PString (if str = [] then None else Some str)) s ok s'"
  unfolding dispatchString_def
proof (rule handled_by_body [OF env(3,1)])
  fix q t assume "heap_ok t" "answerable q (rild t)"
  from copy_call_free [OF this env(2), where f = PString and src = "hidl_string_of str" and request = request]
  show "\<exists>ok s'. do {
       (copied, s1) \<leftarrow> copyHidlStringToRil W (hidl_string_of str) q False t;
       case copied of
         None \<Rightarrow> Some (False, s1)
       | Some pString \<Rightarrow> do {
           c \<leftarrow> str_at s1 pString;
           s2 \<leftarrow> CALL_ONREQUEST W request (PString c) q (mSlotId W) s1;
           s3 \<leftarrow> memsetAndFreeStrings [pString] s2;
           Some (True, s3) } } = Some (ok, s') \<and>
      delivers [] W request (PString (if str = [] then None else Some str)) q t ok s'"
    unfolding with_string_def copied_as_of by simp
qed

lemma dispatchStringsVec_ok:
  assumes env: "heap_ok s" "vendor_returns W" "answered request"
  shows "\<exists>ok s'. dispatchStringsVec W serial request strs s = Some (ok, s') \<and>
     handled strs W serial request (PStrings (map (copied_as False) strs)) s ok s'"
  unfolding dispatchStringsVec_def by (rule handled_by_body [OF env(3,1)], rule send_strings_ok [OF _ _ env(2)])

lemma dispatchIccApdu_ok:
  assumes env: "heap_ok s" "vendor_returns W" "answered request"
  shows "\<exists>ok s'. dispatchIccApdu W serial request m s = Some (ok, s') \<and>
     handled [ha_data m] W serial request (PApdu \<lparr>ap_sessionid = ha_sessionId m, ap_cla = ha_cla m,
       ap_instruction = ha_instruction m, ap_p1 = ha_p1 m, ap_p2 = ha_p2 m, ap_p3 = ha_p3 m,
       ap_data = copied_as False (ha_data m)\<rparr>) s ok s'"
  unfolding dispatchIccApdu_def by (rule handled_by_body [OF env(3,1)], rule copy_call_free [OF _ _ env(2)])

lemma dispatchCallForwardStatus_ok:
  assumes env: "heap_ok s" "vendor_returns W" "answered request"
  shows "\<exists>ok s'. dispatchCallForwardStatus W serial request c s = Some (ok, s') \<and>
     handled [hc_number c] W serial request (PCallForward \<lparr>cf_status = hc_status c, cf_reason = hc_reason c,
       cf_serviceClass = hc_serviceClass c, cf_toa = hc_toa c, cf_number = copied_as False (hc_number c),
       cf_timeSeconds = hc_timeSeconds c\<rparr>) s ok s'"
  unfolding dispatchCallForwardStatus_def by (rule handled_by_body [OF env(3,1)], rule copy_call_free [OF _ _ env(2)])

lemma dispatchStrings_ok:
  assumes env: "heap_ok s" "vendor_returns W" "answered request"
    and "request \<noteq> RIL_REQUEST_SET_NETWORK_SELECTION_MANUAL"
  shows "\<exists>ok s'. dispatchStrings W serial request ae strs s = Some (ok, s') \<and>
     handled [] W serial request (PStrings (map (\<lambda>c. if c = [] \<and> \<not> ae then None else Some c) strs)) s ok s'"
  unfolding dispatchStrings_def
proof (rule handled_by_body [OF env(3,1)])
  fix q t assume "heap_ok t" "answerable q (rild t)"
  from send_strings_ok [OF this env(2), of request PStrings ae "map hidl_string_of strs"] assms(4)
  show "\<exists>ok s'. do { (sent, s1) \<leftarrow> send_strings W request PStrings ae (map hidl_string_of strs) q t;
        if sent \<and> request = RIL_REQUEST_SET_NETWORK_SELECTION_MANUAL
        then do { r \<leftarrow> RIL_onRequestComplete (done_env W) (Some q) RIL_E_SUCCESS None (rild s1);
                  Some (True, s1\<lparr>rild := r\<rparr>) }
        else Some (sent, s1) } = Some (ok, s') \<and>
      delivers [] W request (PStrings (map (\<lambda>c. if c = [] \<and> \<not> ae then None else Some c) strs)) q t ok s'"
    by (auto simp: comp_def)
qed

section \<open>Structures with several strings\<close>

text \<open>
  The methods that fill a structure copy its strings one after the other; a failed copy frees the
  earlier ones. The body gets the pointers.
\<close>

fun copy_fields ::
  "radio_env \<Rightarrow> (hidl_string \<times> bool) list \<Rightarrow> addr \<Rightarrow> addr option list \<Rightarrow> svc \<Rightarrow> (addr option list option \<times> svc) option" where
  "copy_fields W [] pRI ds s = Some (Some ds, s)"
| "copy_fields W ((src, allowEmpty) # fs) pRI ds s = do {
     (copied, s1) \<leftarrow> copyHidlStringToRil W src pRI allowEmpty s;
     case copied of
       None \<Rightarrow> do { s2 \<leftarrow> memsetAndFreeStrings ds s1; Some (None, s2) }
     | Some dest \<Rightarrow> copy_fields W fs pRI (ds @ [dest]) s1 }"

definition with_strings ::
  "radio_env \<Rightarrow> (hidl_string \<times> bool) list \<Rightarrow> addr \<Rightarrow>
   (addr option list \<Rightarrow> svc \<Rightarrow> (bool \<times> svc) option) \<Rightarrow> svc \<Rightarrow> (bool \<times> svc) option" where
  "with_strings W fs pRI body s = do {
     (copied, s1) \<leftarrow> copy_fields W fs pRI [] s;
     case copied of None \<Rightarrow> Some (False, s1) | Some ps \<Rightarrow> body ps s1 }"

definition call_with_strings ::
  "radio_env \<Rightarrow> int \<Rightarrow> (cstr list \<Rightarrow> payload) \<Rightarrow> addr \<Rightarrow> addr option list \<Rightarrow> svc \<Rightarrow> (bool \<times> svc) option" where
  "call_with_strings W request f pRI ps s = do {
     cs \<leftarrow> strs_at s ps;
     s1 \<leftarrow> CALL_ONREQUEST W request (f cs) pRI (mSlotId W) s;
     s2 \<leftarrow> memsetAndFreeStrings ps s1;
     Some (True, s2) }"

lemma fields_ok:
  assumes "heap_ext s0 (set (somes ds)) s" "distinct (somes ds)" "strs_at s ds = Some cs" "answerable pRI (rild s)"
  shows "(\<exists>es s1. copy_fields W fs pRI ds s = Some (Some es, s1) \<and> rild s1 = rild s \<and> calls s1 = calls s \<and>
      heap_ext s0 (set (somes es)) s1 \<and> distinct (somes es) \<and>
      strs_at s1 es = Some (cs @ map (\<lambda>(src, ae). copied_as ae src) fs)) \<or>
    (\<exists>e s1. e \<in> copy_errors W (map fst fs) \<and> copy_fields W fs pRI ds s = Some (None, s1) \<and>
      respond_error pRI e (rild s) = Some (rild s1) \<and> calls s1 = calls s \<and> heap_ext s0 {} s1)"
  using assms
proof (induction fs arbitrary: ds cs s)
  case Nil
  then show ?case by (intro disjI1 exI [of _ ds] exI [of _ s]) simp
next
  case (Cons f fs)
  obtain src ae where f: "f = (src, ae)" by (cases f)
  from copy_ok [OF Cons.prems(1,4), of W src ae] show ?case
  proof (elim disjE exE conjE)
    fix dest s1
    assume c: "copyHidlStringToRil W src pRI ae s = Some (Some dest, s1)" "rild s1 = rild s" "calls s1 = calls s"
      "heap_ext s0 (set (somes ds) \<union> set (somes [dest])) s1" "set (somes [dest]) \<inter> set (somes ds) = {}"
      "str_at s1 dest = Some (copied_as ae src)" "\<forall>a\<in>set (somes ds). blocks s1 a = blocks s a"
    let ?ds = "ds @ [dest]"
    have H: "heap_ext s0 (set (somes ?ds)) s1" using c(4) by (simp add: Un_commute)
    have d: "distinct (somes ?ds)" using c(5) Cons.prems(2) by (cases dest) auto
    have "strs_at s1 ds = strs_at s ds" using c(7) by (intro strs_at_cong) auto
    then have v: "strs_at s1 ?ds = Some (cs @ [copied_as ae src])"
      using Cons.prems(3) c(6) by (simp add: strs_at_append)
    have "answerable pRI (rild s1)" using Cons.prems(4) c(2) by simp
    note step = Cons.IH [OF H d v this]
    have run: "copy_fields W (f # fs) pRI ds s = copy_fields W fs pRI ?ds s1" using c(1) f by simp
    have "copy_errors W (map fst fs) \<subseteq> copy_errors W (map fst (f # fs))" by (rule copy_errors_mono) auto
    then show ?case unfolding run using step c(2,3) f by (auto dest: subsetD)
  next
    fix e s1
    assume c: "e \<in> copy_errors W [src]" "copyHidlStringToRil W src pRI ae s = Some (None, s1)"
      "respond_error pRI e (rild s) = Some (rild s1)" "calls s1 = calls s" "heap_ext s0 (set (somes ds)) s1"
    from free_strings_ok [OF c(5) subset_refl Cons.prems(2)] obtain s2 where
      "memsetAndFreeStrings ds s1 = Some s2" "heap_ext s0 {} s2" "rild s2 = rild s1" "calls s2 = calls s1" by auto
    moreover have "e \<in> copy_errors W (map fst (f # fs))" using c(1) copy_errors_mono [of "[src]" "map fst (f # fs)" W] f by auto
    ultimately show ?case using c f by (intro disjI2 exI [of _ e] exI [of _ s2]) simp
  qed
qed

lemma call_with_strings_ok:
  assumes "heap_ext s0 (set (somes ps)) s" "distinct (somes ps)" "vendor_returns W"
    and "rild s = rild s0" "calls s = calls s0" "strs_at s ps = Some cs"
  shows "\<exists>s'. call_with_strings W request f p ps s = Some (True, s') \<and> delivers_in E W request (f cs) p s0 True s'"
  using call_and_free [OF assms(1-5), where request = request and b = "f cs" and p = p and E = E] assms(6) by (auto simp: call_with_strings_def)

lemma with_strings_ok:
  assumes "heap_ok s" "answerable p (rild s)" "vendor_returns W"
  shows "\<exists>ok s'. with_strings W fs p (call_with_strings W request f p) s = Some (ok, s') \<and>
     delivers (map fst fs) W request (f (map (\<lambda>(src, ae). copied_as ae src) fs)) p s ok s'"
proof -
  have start: "heap_ext s (set (somes [])) s" "distinct (somes [])" "strs_at s [] = Some []"
    using heap_ext_refl [OF assms(1)] by simp_all
  from fields_ok [OF start assms(2), of W fs] show ?thesis
  proof (elim disjE exE conjE)
    fix es s1
    assume c: "copy_fields W fs p [] s = Some (Some es, s1)" "rild s1 = rild s" "calls s1 = calls s"
      "heap_ext s (set (somes es)) s1" "distinct (somes es)" "strs_at s1 es = Some ([] @ map (\<lambda>(src, ae). copied_as ae src) fs)"
    from call_with_strings_ok [OF c(4,5) assms(3) c(2,3,6), where request = request and f = f and p = p and E = "copy_errors W (map fst fs)"] c(1) show ?thesis
      by (auto simp: with_strings_def)
  next
    fix e s1
    assume "e \<in> copy_errors W (map fst fs)" "copy_fields W fs p [] s = Some (None, s1)"
      "respond_error p e (rild s) = Some (rild s1)" "calls s1 = calls s" "heap_ext s {} s1"
    then show ?thesis by (intro exI [of _ False] exI [of _ s1]) (simp add: with_strings_def deliversI_error)
  qed
qed

end
