(* ===== verification/RadioApi.thy ===== *)
theory RadioApi
  imports RadioDispatch RilProps
begin

text \<open>
  The methods of the radio service (\<open>RadioImpl\<close> and \<open>OemHookImpl\<close> of \<open>libril/ril_service.cpp\<close>) that are
  a single call of a dispatch helper, in the order of the file, and what all of them have in common:
  the request they enter is the one whose row of \<open>s_commands\<close> answers with the method's own response,
  the vendor is called at most once, and nothing stays on the heap. Enumerations are their integer
  values.
\<close>

section \<open>The methods\<close>

definition discard :: "(bool \<times> svc) option \<Rightarrow> svc option" where
  "discard r = map_option snd r"

definition getIccCardStatus :: "radio_env \<Rightarrow> int \<Rightarrow> svc \<Rightarrow> svc option" where
  "getIccCardStatus W serial s = discard (dispatchVoid W serial RIL_REQUEST_GET_SIM_STATUS s)"

definition supplyIccPinForApp :: "radio_env \<Rightarrow> int \<Rightarrow> hidl_string \<Rightarrow> hidl_string \<Rightarrow> svc \<Rightarrow> svc option" where
  "supplyIccPinForApp W serial pin aid s =
     discard (dispatchStrings W serial RIL_REQUEST_ENTER_SIM_PIN True [hs_chars pin, hs_chars aid] s)"

definition supplyIccPukForApp :: "radio_env \<Rightarrow> int \<Rightarrow> hidl_string \<Rightarrow> hidl_string \<Rightarrow> hidl_string \<Rightarrow> svc \<Rightarrow> svc option" where
  "supplyIccPukForApp W serial puk pin aid s =
     discard (dispatchStrings W serial RIL_REQUEST_ENTER_SIM_PUK True [hs_chars puk, hs_chars pin, hs_chars aid] s)"

definition supplyIccPin2ForApp :: "radio_env \<Rightarrow> int \<Rightarrow> hidl_string \<Rightarrow> hidl_string \<Rightarrow> svc \<Rightarrow> svc option" where
  "supplyIccPin2ForApp W serial pin2 aid s =
     discard (dispatchStrings W serial RIL_REQUEST_ENTER_SIM_PIN2 True [hs_chars pin2, hs_chars aid] s)"

definition supplyIccPuk2ForApp :: "radio_env \<Rightarrow> int \<Rightarrow> hidl_string \<Rightarrow> hidl_string \<Rightarrow> hidl_string \<Rightarrow> svc \<Rightarrow> svc option" where
  "supplyIccPuk2ForApp W serial puk2 pin2 aid s =
     discard (dispatchStrings W serial RIL_REQUEST_ENTER_SIM_PUK2 True [hs_chars puk2, hs_chars pin2, hs_chars aid] s)"

definition changeIccPinForApp :: "radio_env \<Rightarrow> int \<Rightarrow> hidl_string \<Rightarrow> hidl_string \<Rightarrow> hidl_string \<Rightarrow> svc \<Rightarrow> svc option" where
  "changeIccPinForApp W serial oldPin newPin aid s =
     discard (dispatchStrings W serial RIL_REQUEST_CHANGE_SIM_PIN True [hs_chars oldPin, hs_chars newPin, hs_chars aid] s)"

definition changeIccPin2ForApp :: "radio_env \<Rightarrow> int \<Rightarrow> hidl_string \<Rightarrow> hidl_string \<Rightarrow> hidl_string \<Rightarrow> svc \<Rightarrow> svc option" where
  "changeIccPin2ForApp W serial oldPin2 newPin2 aid s =
     discard (dispatchStrings W serial RIL_REQUEST_CHANGE_SIM_PIN2 True [hs_chars oldPin2, hs_chars newPin2, hs_chars aid] s)"

definition supplyNetworkDepersonalization :: "radio_env \<Rightarrow> int \<Rightarrow> hidl_string \<Rightarrow> svc \<Rightarrow> svc option" where
  "supplyNetworkDepersonalization W serial netPin s =
     discard (dispatchStrings W serial RIL_REQUEST_ENTER_NETWORK_DEPERSONALIZATION True [hs_chars netPin] s)"

definition getCurrentCalls :: "radio_env \<Rightarrow> int \<Rightarrow> svc \<Rightarrow> svc option" where
  "getCurrentCalls W serial s = discard (dispatchVoid W serial RIL_REQUEST_GET_CURRENT_CALLS s)"

definition getImsiForApp :: "radio_env \<Rightarrow> int \<Rightarrow> hidl_string \<Rightarrow> svc \<Rightarrow> svc option" where
  "getImsiForApp W serial aid s = discard (dispatchStrings W serial RIL_REQUEST_GET_IMSI False [hs_chars aid] s)"

definition hangup :: "radio_env \<Rightarrow> int \<Rightarrow> int \<Rightarrow> svc \<Rightarrow> svc option" where
  "hangup W serial gsmIndex s = discard (dispatchInts W serial RIL_REQUEST_HANGUP [gsmIndex] s)"

definition hangupWaitingOrBackground :: "radio_env \<Rightarrow> int \<Rightarrow> svc \<Rightarrow> svc option" where
  "hangupWaitingOrBackground W serial s = discard (dispatchVoid W serial RIL_REQUEST_HANGUP_WAITING_OR_BACKGROUND s)"

definition hangupForegroundResumeBackground :: "radio_env \<Rightarrow> int \<Rightarrow> svc \<Rightarrow> svc option" where
  "hangupForegroundResumeBackground W serial s =
     discard (dispatchVoid W serial RIL_REQUEST_HANGUP_FOREGROUND_RESUME_BACKGROUND s)"

definition switchWaitingOrHoldingAndActive :: "radio_env \<Rightarrow> int \<Rightarrow> svc \<Rightarrow> svc option" where
  "switchWaitingOrHoldingAndActive W serial s =
     discard (dispatchVoid W serial RIL_REQUEST_SWITCH_WAITING_OR_HOLDING_AND_ACTIVE s)"

definition conference :: "radio_env \<Rightarrow> int \<Rightarrow> svc \<Rightarrow> svc option" where
  "conference W serial s = discard (dispatchVoid W serial RIL_REQUEST_CONFERENCE s)"

definition rejectCall :: "radio_env \<Rightarrow> int \<Rightarrow> svc \<Rightarrow> svc option" where
  "rejectCall W serial s = discard (dispatchVoid W serial RIL_REQUEST_UDUB s)"

definition getLastCallFailCause :: "radio_env \<Rightarrow> int \<Rightarrow> svc \<Rightarrow> svc option" where
  "getLastCallFailCause W serial s = discard (dispatchVoid W serial RIL_REQUEST_LAST_CALL_FAIL_CAUSE s)"

definition getSignalStrength :: "radio_env \<Rightarrow> int \<Rightarrow> svc \<Rightarrow> svc option" where
  "getSignalStrength W serial s = discard (dispatchVoid W serial RIL_REQUEST_SIGNAL_STRENGTH s)"

definition getVoiceRegistrationState :: "radio_env \<Rightarrow> int \<Rightarrow> svc \<Rightarrow> svc option" where
  "getVoiceRegistrationState W serial s = discard (dispatchVoid W serial RIL_REQUEST_VOICE_REGISTRATION_STATE s)"

definition getDataRegistrationState :: "radio_env \<Rightarrow> int \<Rightarrow> svc \<Rightarrow> svc option" where
  "getDataRegistrationState W serial s = discard (dispatchVoid W serial RIL_REQUEST_DATA_REGISTRATION_STATE s)"

definition getOperator :: "radio_env \<Rightarrow> int \<Rightarrow> svc \<Rightarrow> svc option" where
  "getOperator W serial s = discard (dispatchVoid W serial RIL_REQUEST_OPERATOR s)"

definition setRadioPower :: "radio_env \<Rightarrow> int \<Rightarrow> bool \<Rightarrow> svc \<Rightarrow> svc option" where
  "setRadioPower W serial onArg s = discard (dispatchInts W serial RIL_REQUEST_RADIO_POWER [BOOL_TO_INT onArg] s)"

definition sendDtmf :: "radio_env \<Rightarrow> int \<Rightarrow> hidl_string \<Rightarrow> svc \<Rightarrow> svc option" where
  "sendDtmf W serial str s = discard (dispatchString W serial RIL_REQUEST_DTMF (hs_chars str) s)"

definition sendSms :: "radio_env \<Rightarrow> int \<Rightarrow> hidl_gsm_sms \<Rightarrow> svc \<Rightarrow> svc option" where
  "sendSms W serial message s =
     discard (dispatchStrings W serial RIL_REQUEST_SEND_SMS False [hs_chars (hg_smscPdu message), hs_chars (hg_pdu message)] s)"

definition sendSMSExpectMore :: "radio_env \<Rightarrow> int \<Rightarrow> hidl_gsm_sms \<Rightarrow> svc \<Rightarrow> svc option" where
  "sendSMSExpectMore W serial message s =
     discard (dispatchStrings W serial RIL_REQUEST_SEND_SMS_EXPECT_MORE False [hs_chars (hg_smscPdu message), hs_chars (hg_pdu message)] s)"

definition sendUssd :: "radio_env \<Rightarrow> int \<Rightarrow> hidl_string \<Rightarrow> svc \<Rightarrow> svc option" where
  "sendUssd W serial ussd s = discard (dispatchString W serial RIL_REQUEST_SEND_USSD (hs_chars ussd) s)"

definition cancelPendingUssd :: "radio_env \<Rightarrow> int \<Rightarrow> svc \<Rightarrow> svc option" where
  "cancelPendingUssd W serial s = discard (dispatchVoid W serial RIL_REQUEST_CANCEL_USSD s)"

definition getClir :: "radio_env \<Rightarrow> int \<Rightarrow> svc \<Rightarrow> svc option" where
  "getClir W serial s = discard (dispatchVoid W serial RIL_REQUEST_GET_CLIR s)"

definition setClir :: "radio_env \<Rightarrow> int \<Rightarrow> int \<Rightarrow> svc \<Rightarrow> svc option" where
  "setClir W serial clir s = discard (dispatchInts W serial RIL_REQUEST_SET_CLIR [clir] s)"

definition getCallForwardStatus :: "radio_env \<Rightarrow> int \<Rightarrow> hidl_call_forward \<Rightarrow> svc \<Rightarrow> svc option" where
  "getCallForwardStatus W serial callInfo s =
     discard (dispatchCallForwardStatus W serial RIL_REQUEST_QUERY_CALL_FORWARD_STATUS callInfo s)"

definition setCallForward :: "radio_env \<Rightarrow> int \<Rightarrow> hidl_call_forward \<Rightarrow> svc \<Rightarrow> svc option" where
  "setCallForward W serial callInfo s =
     discard (dispatchCallForwardStatus W serial RIL_REQUEST_SET_CALL_FORWARD callInfo s)"

definition getCallWaiting :: "radio_env \<Rightarrow> int \<Rightarrow> int \<Rightarrow> svc \<Rightarrow> svc option" where
  "getCallWaiting W serial serviceClass s =
     discard (dispatchInts W serial RIL_REQUEST_QUERY_CALL_WAITING [serviceClass] s)"

definition setCallWaiting :: "radio_env \<Rightarrow> int \<Rightarrow> bool \<Rightarrow> int \<Rightarrow> svc \<Rightarrow> svc option" where
  "setCallWaiting W serial enable serviceClass s =
     discard (dispatchInts W serial RIL_REQUEST_SET_CALL_WAITING [BOOL_TO_INT enable, serviceClass] s)"

definition acknowledgeLastIncomingGsmSms :: "radio_env \<Rightarrow> int \<Rightarrow> bool \<Rightarrow> int \<Rightarrow> svc \<Rightarrow> svc option" where
  "acknowledgeLastIncomingGsmSms W serial success cause s =
     discard (dispatchInts W serial RIL_REQUEST_SMS_ACKNOWLEDGE [BOOL_TO_INT success, cause] s)"

definition acceptCall :: "radio_env \<Rightarrow> int \<Rightarrow> svc \<Rightarrow> svc option" where
  "acceptCall W serial s = discard (dispatchVoid W serial RIL_REQUEST_ANSWER s)"

definition deactivateDataCall :: "radio_env \<Rightarrow> int \<Rightarrow> int \<Rightarrow> bool \<Rightarrow> svc \<Rightarrow> svc option" where
  "deactivateDataCall W serial cid reasonRadioShutDown s =
     discard (dispatchStrings W serial RIL_REQUEST_DEACTIVATE_DATA_CALL False [to_string cid, if reasonRadioShutDown then ''1'' else ''0''] s)"

definition getFacilityLockForApp :: "radio_env \<Rightarrow> int \<Rightarrow> hidl_string \<Rightarrow> hidl_string \<Rightarrow> int \<Rightarrow> hidl_string \<Rightarrow> svc \<Rightarrow> svc option" where
  "getFacilityLockForApp W serial facility password serviceClass appId s =
     discard (dispatchStrings W serial RIL_REQUEST_QUERY_FACILITY_LOCK True [hs_chars facility, hs_chars password, to_string serviceClass, hs_chars appId] s)"

definition setFacilityLockForApp :: "radio_env \<Rightarrow> int \<Rightarrow> hidl_string \<Rightarrow> bool \<Rightarrow> hidl_string \<Rightarrow> int \<Rightarrow> hidl_string \<Rightarrow> svc \<Rightarrow> svc option" where
  "setFacilityLockForApp W serial facility lockState password serviceClass appId s =
     discard (dispatchStrings W serial RIL_REQUEST_SET_FACILITY_LOCK True [hs_chars facility, if lockState then ''1'' else ''0'', hs_chars password, to_string serviceClass, hs_chars appId] s)"

definition setBarringPassword :: "radio_env \<Rightarrow> int \<Rightarrow> hidl_string \<Rightarrow> hidl_string \<Rightarrow> hidl_string \<Rightarrow> svc \<Rightarrow> svc option" where
  "setBarringPassword W serial facility oldPassword newPassword s =
     discard (dispatchStrings W serial RIL_REQUEST_CHANGE_BARRING_PASSWORD True [hs_chars facility, hs_chars oldPassword, hs_chars newPassword] s)"

definition getNetworkSelectionMode :: "radio_env \<Rightarrow> int \<Rightarrow> svc \<Rightarrow> svc option" where
  "getNetworkSelectionMode W serial s = discard (dispatchVoid W serial RIL_REQUEST_QUERY_NETWORK_SELECTION_MODE s)"

definition setNetworkSelectionModeAutomatic :: "radio_env \<Rightarrow> int \<Rightarrow> svc \<Rightarrow> svc option" where
  "setNetworkSelectionModeAutomatic W serial s =
     discard (dispatchStrings W serial RIL_REQUEST_SET_NETWORK_SELECTION_AUTOMATIC True [] s)"

definition getAvailableNetworks :: "radio_env \<Rightarrow> int \<Rightarrow> svc \<Rightarrow> svc option" where
  "getAvailableNetworks W serial s = discard (dispatchVoid W serial RIL_REQUEST_QUERY_AVAILABLE_NETWORKS s)"

definition stopNetworkScan :: "radio_env \<Rightarrow> int \<Rightarrow> svc \<Rightarrow> svc option" where
  "stopNetworkScan W serial s = discard (dispatchVoid W serial RIL_REQUEST_STOP_NETWORK_SCAN s)"

definition startDtmf :: "radio_env \<Rightarrow> int \<Rightarrow> hidl_string \<Rightarrow> svc \<Rightarrow> svc option" where
  "startDtmf W serial str s = discard (dispatchString W serial RIL_REQUEST_DTMF_START (hs_chars str) s)"

definition stopDtmf :: "radio_env \<Rightarrow> int \<Rightarrow> svc \<Rightarrow> svc option" where
  "stopDtmf W serial s = discard (dispatchVoid W serial RIL_REQUEST_DTMF_STOP s)"

definition getBasebandVersion :: "radio_env \<Rightarrow> int \<Rightarrow> svc \<Rightarrow> svc option" where
  "getBasebandVersion W serial s = discard (dispatchVoid W serial RIL_REQUEST_BASEBAND_VERSION s)"

definition separateConnection :: "radio_env \<Rightarrow> int \<Rightarrow> int \<Rightarrow> svc \<Rightarrow> svc option" where
  "separateConnection W serial gsmIndex s =
     discard (dispatchInts W serial RIL_REQUEST_SEPARATE_CONNECTION [gsmIndex] s)"

definition setMute :: "radio_env \<Rightarrow> int \<Rightarrow> bool \<Rightarrow> svc \<Rightarrow> svc option" where
  "setMute W serial enable s = discard (dispatchInts W serial RIL_REQUEST_SET_MUTE [BOOL_TO_INT enable] s)"

definition getMute :: "radio_env \<Rightarrow> int \<Rightarrow> svc \<Rightarrow> svc option" where
  "getMute W serial s = discard (dispatchVoid W serial RIL_REQUEST_GET_MUTE s)"

definition getClip :: "radio_env \<Rightarrow> int \<Rightarrow> svc \<Rightarrow> svc option" where
  "getClip W serial s = discard (dispatchVoid W serial RIL_REQUEST_QUERY_CLIP s)"

definition getDataCallList :: "radio_env \<Rightarrow> int \<Rightarrow> svc \<Rightarrow> svc option" where
  "getDataCallList W serial s = discard (dispatchVoid W serial RIL_REQUEST_DATA_CALL_LIST s)"

definition setSuppServiceNotifications :: "radio_env \<Rightarrow> int \<Rightarrow> bool \<Rightarrow> svc \<Rightarrow> svc option" where
  "setSuppServiceNotifications W serial enable s =
     discard (dispatchInts W serial RIL_REQUEST_SET_SUPP_SVC_NOTIFICATION [BOOL_TO_INT enable] s)"

definition deleteSmsOnSim :: "radio_env \<Rightarrow> int \<Rightarrow> int \<Rightarrow> svc \<Rightarrow> svc option" where
  "deleteSmsOnSim W serial idx s = discard (dispatchInts W serial RIL_REQUEST_DELETE_SMS_ON_SIM [idx] s)"

definition setBandMode :: "radio_env \<Rightarrow> int \<Rightarrow> int \<Rightarrow> svc \<Rightarrow> svc option" where
  "setBandMode W serial bandMode s = discard (dispatchInts W serial RIL_REQUEST_SET_BAND_MODE [bandMode] s)"

definition getAvailableBandModes :: "radio_env \<Rightarrow> int \<Rightarrow> svc \<Rightarrow> svc option" where
  "getAvailableBandModes W serial s = discard (dispatchVoid W serial RIL_REQUEST_QUERY_AVAILABLE_BAND_MODE s)"

definition sendEnvelope :: "radio_env \<Rightarrow> int \<Rightarrow> hidl_string \<Rightarrow> svc \<Rightarrow> svc option" where
  "sendEnvelope W serial command s =
     discard (dispatchString W serial RIL_REQUEST_STK_SEND_ENVELOPE_COMMAND (hs_chars command) s)"

definition sendTerminalResponseToSim :: "radio_env \<Rightarrow> int \<Rightarrow> hidl_string \<Rightarrow> svc \<Rightarrow> svc option" where
  "sendTerminalResponseToSim W serial commandResponse s =
     discard (dispatchString W serial RIL_REQUEST_STK_SEND_TERMINAL_RESPONSE (hs_chars commandResponse) s)"

definition handleStkCallSetupRequestFromSim :: "radio_env \<Rightarrow> int \<Rightarrow> bool \<Rightarrow> svc \<Rightarrow> svc option" where
  "handleStkCallSetupRequestFromSim W serial accept s =
     discard (dispatchInts W serial RIL_REQUEST_STK_HANDLE_CALL_SETUP_REQUESTED_FROM_SIM [BOOL_TO_INT accept] s)"

definition explicitCallTransfer :: "radio_env \<Rightarrow> int \<Rightarrow> svc \<Rightarrow> svc option" where
  "explicitCallTransfer W serial s = discard (dispatchVoid W serial RIL_REQUEST_EXPLICIT_CALL_TRANSFER s)"

definition setPreferredNetworkType :: "radio_env \<Rightarrow> int \<Rightarrow> int \<Rightarrow> svc \<Rightarrow> svc option" where
  "setPreferredNetworkType W serial nwType s =
     discard (dispatchInts W serial RIL_REQUEST_SET_PREFERRED_NETWORK_TYPE [nwType] s)"

definition getPreferredNetworkType :: "radio_env \<Rightarrow> int \<Rightarrow> svc \<Rightarrow> svc option" where
  "getPreferredNetworkType W serial s = discard (dispatchVoid W serial RIL_REQUEST_GET_PREFERRED_NETWORK_TYPE s)"

definition getNeighboringCids :: "radio_env \<Rightarrow> int \<Rightarrow> svc \<Rightarrow> svc option" where
  "getNeighboringCids W serial s = discard (dispatchVoid W serial RIL_REQUEST_GET_NEIGHBORING_CELL_IDS s)"

definition setLocationUpdates :: "radio_env \<Rightarrow> int \<Rightarrow> bool \<Rightarrow> svc \<Rightarrow> svc option" where
  "setLocationUpdates W serial enable s =
     discard (dispatchInts W serial RIL_REQUEST_SET_LOCATION_UPDATES [BOOL_TO_INT enable] s)"

definition setCdmaSubscriptionSource :: "radio_env \<Rightarrow> int \<Rightarrow> int \<Rightarrow> svc \<Rightarrow> svc option" where
  "setCdmaSubscriptionSource W serial cdmaSub s =
     discard (dispatchInts W serial RIL_REQUEST_CDMA_SET_SUBSCRIPTION_SOURCE [cdmaSub] s)"

definition setCdmaRoamingPreference :: "radio_env \<Rightarrow> int \<Rightarrow> int \<Rightarrow> svc \<Rightarrow> svc option" where
  "setCdmaRoamingPreference W serial type s =
     discard (dispatchInts W serial RIL_REQUEST_CDMA_SET_ROAMING_PREFERENCE [type] s)"

definition getCdmaRoamingPreference :: "radio_env \<Rightarrow> int \<Rightarrow> svc \<Rightarrow> svc option" where
  "getCdmaRoamingPreference W serial s = discard (dispatchVoid W serial RIL_REQUEST_CDMA_QUERY_ROAMING_PREFERENCE s)"

definition setTTYMode :: "radio_env \<Rightarrow> int \<Rightarrow> int \<Rightarrow> svc \<Rightarrow> svc option" where
  "setTTYMode W serial bandMode s = discard (dispatchInts W serial RIL_REQUEST_SET_TTY_MODE [bandMode] s)"

definition getTTYMode :: "radio_env \<Rightarrow> int \<Rightarrow> svc \<Rightarrow> svc option" where
  "getTTYMode W serial s = discard (dispatchVoid W serial RIL_REQUEST_QUERY_TTY_MODE s)"

definition setPreferredVoicePrivacy :: "radio_env \<Rightarrow> int \<Rightarrow> bool \<Rightarrow> svc \<Rightarrow> svc option" where
  "setPreferredVoicePrivacy W serial enable s =
     discard (dispatchInts W serial RIL_REQUEST_CDMA_SET_PREFERRED_VOICE_PRIVACY_MODE [BOOL_TO_INT enable] s)"

definition getPreferredVoicePrivacy :: "radio_env \<Rightarrow> int \<Rightarrow> svc \<Rightarrow> svc option" where
  "getPreferredVoicePrivacy W serial s =
     discard (dispatchVoid W serial RIL_REQUEST_CDMA_QUERY_PREFERRED_VOICE_PRIVACY_MODE s)"

definition sendCDMAFeatureCode :: "radio_env \<Rightarrow> int \<Rightarrow> hidl_string \<Rightarrow> svc \<Rightarrow> svc option" where
  "sendCDMAFeatureCode W serial featureCode s =
     discard (dispatchString W serial RIL_REQUEST_CDMA_FLASH (hs_chars featureCode) s)"

definition sendBurstDtmf :: "radio_env \<Rightarrow> int \<Rightarrow> hidl_string \<Rightarrow> int \<Rightarrow> int \<Rightarrow> svc \<Rightarrow> svc option" where
  "sendBurstDtmf W serial dtmf onArg offLen s =
     discard (dispatchStrings W serial RIL_REQUEST_CDMA_BURST_DTMF False [hs_chars dtmf, to_string onArg, to_string offLen] s)"

definition getGsmBroadcastConfig :: "radio_env \<Rightarrow> int \<Rightarrow> svc \<Rightarrow> svc option" where
  "getGsmBroadcastConfig W serial s = discard (dispatchVoid W serial RIL_REQUEST_GSM_GET_BROADCAST_SMS_CONFIG s)"

definition setGsmBroadcastActivation :: "radio_env \<Rightarrow> int \<Rightarrow> bool \<Rightarrow> svc \<Rightarrow> svc option" where
  "setGsmBroadcastActivation W serial activate s =
     discard (dispatchInts W serial RIL_REQUEST_GSM_SMS_BROADCAST_ACTIVATION [BOOL_TO_INT (\<not> activate)] s)"

definition getCdmaBroadcastConfig :: "radio_env \<Rightarrow> int \<Rightarrow> svc \<Rightarrow> svc option" where
  "getCdmaBroadcastConfig W serial s = discard (dispatchVoid W serial RIL_REQUEST_CDMA_GET_BROADCAST_SMS_CONFIG s)"

definition setCdmaBroadcastActivation :: "radio_env \<Rightarrow> int \<Rightarrow> bool \<Rightarrow> svc \<Rightarrow> svc option" where
  "setCdmaBroadcastActivation W serial activate s =
     discard (dispatchInts W serial RIL_REQUEST_CDMA_SMS_BROADCAST_ACTIVATION [BOOL_TO_INT (\<not> activate)] s)"

definition getCDMASubscription :: "radio_env \<Rightarrow> int \<Rightarrow> svc \<Rightarrow> svc option" where
  "getCDMASubscription W serial s = discard (dispatchVoid W serial RIL_REQUEST_CDMA_SUBSCRIPTION s)"

definition deleteSmsOnRuim :: "radio_env \<Rightarrow> int \<Rightarrow> int \<Rightarrow> svc \<Rightarrow> svc option" where
  "deleteSmsOnRuim W serial idx s = discard (dispatchInts W serial RIL_REQUEST_CDMA_DELETE_SMS_ON_RUIM [idx] s)"

definition getDeviceIdentity :: "radio_env \<Rightarrow> int \<Rightarrow> svc \<Rightarrow> svc option" where
  "getDeviceIdentity W serial s = discard (dispatchVoid W serial RIL_REQUEST_DEVICE_IDENTITY s)"

definition exitEmergencyCallbackMode :: "radio_env \<Rightarrow> int \<Rightarrow> svc \<Rightarrow> svc option" where
  "exitEmergencyCallbackMode W serial s = discard (dispatchVoid W serial RIL_REQUEST_EXIT_EMERGENCY_CALLBACK_MODE s)"

definition getSmscAddress :: "radio_env \<Rightarrow> int \<Rightarrow> svc \<Rightarrow> svc option" where
  "getSmscAddress W serial s = discard (dispatchVoid W serial RIL_REQUEST_GET_SMSC_ADDRESS s)"

definition setSmscAddress :: "radio_env \<Rightarrow> int \<Rightarrow> hidl_string \<Rightarrow> svc \<Rightarrow> svc option" where
  "setSmscAddress W serial smsc s = discard (dispatchString W serial RIL_REQUEST_SET_SMSC_ADDRESS (hs_chars smsc) s)"

definition reportSmsMemoryStatus :: "radio_env \<Rightarrow> int \<Rightarrow> bool \<Rightarrow> svc \<Rightarrow> svc option" where
  "reportSmsMemoryStatus W serial available s =
     discard (dispatchInts W serial RIL_REQUEST_REPORT_SMS_MEMORY_STATUS [BOOL_TO_INT available] s)"

definition reportStkServiceIsRunning :: "radio_env \<Rightarrow> int \<Rightarrow> svc \<Rightarrow> svc option" where
  "reportStkServiceIsRunning W serial s = discard (dispatchVoid W serial RIL_REQUEST_REPORT_STK_SERVICE_IS_RUNNING s)"

definition getCdmaSubscriptionSource :: "radio_env \<Rightarrow> int \<Rightarrow> svc \<Rightarrow> svc option" where
  "getCdmaSubscriptionSource W serial s = discard (dispatchVoid W serial RIL_REQUEST_CDMA_GET_SUBSCRIPTION_SOURCE s)"

definition requestIsimAuthentication :: "radio_env \<Rightarrow> int \<Rightarrow> hidl_string \<Rightarrow> svc \<Rightarrow> svc option" where
  "requestIsimAuthentication W serial challenge s =
     discard (dispatchString W serial RIL_REQUEST_ISIM_AUTHENTICATION (hs_chars challenge) s)"

definition acknowledgeIncomingGsmSmsWithPdu :: "radio_env \<Rightarrow> int \<Rightarrow> bool \<Rightarrow> hidl_string \<Rightarrow> svc \<Rightarrow> svc option" where
  "acknowledgeIncomingGsmSmsWithPdu W serial success ackPdu s =
     discard (dispatchStrings W serial RIL_REQUEST_ACKNOWLEDGE_INCOMING_GSM_SMS_WITH_PDU False [if success then ''1'' else ''0'', hs_chars ackPdu] s)"

definition sendEnvelopeWithStatus :: "radio_env \<Rightarrow> int \<Rightarrow> hidl_string \<Rightarrow> svc \<Rightarrow> svc option" where
  "sendEnvelopeWithStatus W serial contents s =
     discard (dispatchString W serial RIL_REQUEST_STK_SEND_ENVELOPE_WITH_STATUS (hs_chars contents) s)"

definition getVoiceRadioTechnology :: "radio_env \<Rightarrow> int \<Rightarrow> svc \<Rightarrow> svc option" where
  "getVoiceRadioTechnology W serial s = discard (dispatchVoid W serial RIL_REQUEST_VOICE_RADIO_TECH s)"

definition getCellInfoList :: "radio_env \<Rightarrow> int \<Rightarrow> svc \<Rightarrow> svc option" where
  "getCellInfoList W serial s = discard (dispatchVoid W serial RIL_REQUEST_GET_CELL_INFO_LIST s)"

definition setCellInfoListRate :: "radio_env \<Rightarrow> int \<Rightarrow> int \<Rightarrow> svc \<Rightarrow> svc option" where
  "setCellInfoListRate W serial rate s =
     discard (dispatchInts W serial RIL_REQUEST_SET_UNSOL_CELL_INFO_LIST_RATE [rate] s)"

definition getImsRegistrationState :: "radio_env \<Rightarrow> int \<Rightarrow> svc \<Rightarrow> svc option" where
  "getImsRegistrationState W serial s = discard (dispatchVoid W serial RIL_REQUEST_IMS_REGISTRATION_STATE s)"

definition iccTransmitApduBasicChannel :: "radio_env \<Rightarrow> int \<Rightarrow> hidl_sim_apdu \<Rightarrow> svc \<Rightarrow> svc option" where
  "iccTransmitApduBasicChannel W serial message s =
     discard (dispatchIccApdu W serial RIL_REQUEST_SIM_TRANSMIT_APDU_BASIC message s)"

definition iccCloseLogicalChannel :: "radio_env \<Rightarrow> int \<Rightarrow> int \<Rightarrow> svc \<Rightarrow> svc option" where
  "iccCloseLogicalChannel W serial channelId s =
     discard (dispatchInts W serial RIL_REQUEST_SIM_CLOSE_CHANNEL [channelId] s)"

definition iccTransmitApduLogicalChannel :: "radio_env \<Rightarrow> int \<Rightarrow> hidl_sim_apdu \<Rightarrow> svc \<Rightarrow> svc option" where
  "iccTransmitApduLogicalChannel W serial message s =
     discard (dispatchIccApdu W serial RIL_REQUEST_SIM_TRANSMIT_APDU_CHANNEL message s)"

definition nvWriteCdmaPrl :: "radio_env \<Rightarrow> int \<Rightarrow> u8 list \<Rightarrow> svc \<Rightarrow> svc option" where
  "nvWriteCdmaPrl W serial prl s = discard (dispatchRaw W serial RIL_REQUEST_NV_WRITE_CDMA_PRL prl s)"

definition setDataAllowed :: "radio_env \<Rightarrow> int \<Rightarrow> bool \<Rightarrow> svc \<Rightarrow> svc option" where
  "setDataAllowed W serial allow s = discard (dispatchInts W serial RIL_REQUEST_ALLOW_DATA [BOOL_TO_INT allow] s)"

definition getHardwareConfig :: "radio_env \<Rightarrow> int \<Rightarrow> svc \<Rightarrow> svc option" where
  "getHardwareConfig W serial s = discard (dispatchVoid W serial RIL_REQUEST_GET_HARDWARE_CONFIG s)"

definition requestShutdown :: "radio_env \<Rightarrow> int \<Rightarrow> svc \<Rightarrow> svc option" where
  "requestShutdown W serial s = discard (dispatchVoid W serial RIL_REQUEST_SHUTDOWN s)"

definition getRadioCapability :: "radio_env \<Rightarrow> int \<Rightarrow> svc \<Rightarrow> svc option" where
  "getRadioCapability W serial s = discard (dispatchVoid W serial RIL_REQUEST_GET_RADIO_CAPABILITY s)"

definition startLceService :: "radio_env \<Rightarrow> int \<Rightarrow> int \<Rightarrow> bool \<Rightarrow> svc \<Rightarrow> svc option" where
  "startLceService W serial reportInterval pullMode s =
     discard (dispatchInts W serial RIL_REQUEST_START_LCE [reportInterval, BOOL_TO_INT pullMode] s)"

definition stopLceService :: "radio_env \<Rightarrow> int \<Rightarrow> svc \<Rightarrow> svc option" where
  "stopLceService W serial s = discard (dispatchVoid W serial RIL_REQUEST_STOP_LCE s)"

definition pullLceData :: "radio_env \<Rightarrow> int \<Rightarrow> svc \<Rightarrow> svc option" where
  "pullLceData W serial s = discard (dispatchVoid W serial RIL_REQUEST_PULL_LCEDATA s)"

definition getModemActivityInfo :: "radio_env \<Rightarrow> int \<Rightarrow> svc \<Rightarrow> svc option" where
  "getModemActivityInfo W serial s = discard (dispatchVoid W serial RIL_REQUEST_GET_ACTIVITY_INFO s)"

definition getAllowedCarriers :: "radio_env \<Rightarrow> int \<Rightarrow> svc \<Rightarrow> svc option" where
  "getAllowedCarriers W serial s = discard (dispatchVoid W serial RIL_REQUEST_GET_CARRIER_RESTRICTIONS s)"

definition setSimCardPower :: "radio_env \<Rightarrow> int \<Rightarrow> bool \<Rightarrow> svc \<Rightarrow> svc option" where
  "setSimCardPower W serial powerUp s =
     discard (dispatchInts W serial RIL_REQUEST_SET_SIM_CARD_POWER [BOOL_TO_INT powerUp] s)"

definition setSimCardPower_1_1 :: "radio_env \<Rightarrow> int \<Rightarrow> int \<Rightarrow> svc \<Rightarrow> svc option" where
  "setSimCardPower_1_1 W serial state s = discard (dispatchInts W serial RIL_REQUEST_SET_SIM_CARD_POWER [state] s)"

definition sendRequestRaw :: "radio_env \<Rightarrow> int \<Rightarrow> u8 list \<Rightarrow> svc \<Rightarrow> svc option" where
  "sendRequestRaw W serial data s = discard (dispatchRaw W serial RIL_REQUEST_OEM_HOOK_RAW data s)"

definition sendRequestStrings :: "radio_env \<Rightarrow> int \<Rightarrow> hidl_string list \<Rightarrow> svc \<Rightarrow> svc option" where
  "sendRequestStrings W serial data s = discard (dispatchStringsVec W serial RIL_REQUEST_OEM_HOOK_STRINGS data s)"

section \<open>What a method does\<close>

text \<open>
  \<open>answers_in E name request d m\<close>: whatever the allocations do, the method \<open>m\<close> enters \<open>request\<close>, whose row answers
  under \<open>name\<close>, and then either could not (no memory for the request), or calls the vendor once with the new token and the
  payload \<open>d\<close> (not if \<open>d\<close> is \<open>None\<close>), or answers the client itself, under \<open>name\<close> and with the serial, with an error of \<open>E\<close>.
  The heap is as before. The payload and the errors may depend on the state. \<open>answers strs\<close> is the case where the only errors are those of copying
  \<open>strs\<close>, which have their causes, and \<open>reaches_vendor\<close> the one without any.
\<close>

definition outcome_in :: "int set \<Rightarrow> radio_env \<Rightarrow> int \<Rightarrow> int \<Rightarrow> string \<Rightarrow> payload option \<Rightarrow> svc \<Rightarrow> svc \<Rightarrow> bool" where
  "outcome_in E W serial request name d s s' \<longleftrightarrow>
     (\<exists>p r. addRequestToList (add_env W) serial (mSlotId W) request (rild s) = Some (p, r) \<and>
        (case p of
           None \<Rightarrow> s' = s\<lparr>rild := r\<rparr>
         | Some q \<Rightarrow>
             (let sock = (if 2 \<le> SIM_COUNT r then mSlotId W else 0)
              in \<exists>b. d = Some b \<and> calls s' = calls s @ [(request, b, q, sock)] \<and> onRequest W request b q sock r = Some (rild s')) \<or>
             (calls s' = calls s \<and>
                (\<exists>e\<in>E. rild s' = emit (Respond name (mSlotId W) RESPONSE_SOLICITED serial e None) r))))"

definition answers_in ::
  "(radio_env \<Rightarrow> svc \<Rightarrow> int set) \<Rightarrow> string \<Rightarrow> int \<Rightarrow> (radio_env \<Rightarrow> svc \<Rightarrow> payload option) \<Rightarrow> (radio_env \<Rightarrow> int \<Rightarrow> svc \<Rightarrow> svc option) \<Rightarrow> bool" where
  "answers_in E name request d m \<longleftrightarrow>
     (\<forall>W serial s. heap_ok s \<and> vendor_returns W \<longrightarrow>
        (\<exists>s'. m W serial s = Some s' \<and> blocks s' = blocks s \<and> heap_ok s' \<and>
           responseFunction (s_commands ! nat request) = Some name \<and> outcome_in (E W s) W serial request name (d W s) s s'))"

abbreviation answers ::
  "hidl_string list \<Rightarrow> string \<Rightarrow> int \<Rightarrow> payload \<Rightarrow> (radio_env \<Rightarrow> int \<Rightarrow> svc \<Rightarrow> svc option) \<Rightarrow> bool" where
  "answers strs name request d \<equiv> answers_in (\<lambda>W _. copy_errors W strs) name request (\<lambda>_ _. Some d)"

abbreviation reaches_vendor :: "string \<Rightarrow> int \<Rightarrow> payload \<Rightarrow> (radio_env \<Rightarrow> int \<Rightarrow> svc \<Rightarrow> svc option) \<Rightarrow> bool" where
  "reaches_vendor name request d \<equiv> answers_in (\<lambda>_ _. {}) name request (\<lambda>_ _. Some d)"

text \<open>What the vendor is to read: a string that may be missing, and the structures with one string.\<close>

definition nullable :: "string \<Rightarrow> cstr" where
  "nullable c = (if c = [] then None else Some c)"

definition apdu_payload :: "hidl_sim_apdu \<Rightarrow> payload" where
  "apdu_payload m = PApdu \<lparr>ap_sessionid = ha_sessionId m, ap_cla = ha_cla m, ap_instruction = ha_instruction m,
     ap_p1 = ha_p1 m, ap_p2 = ha_p2 m, ap_p3 = ha_p3 m, ap_data = copied_as False (ha_data m)\<rparr>"

definition forward_payload :: "hidl_call_forward \<Rightarrow> payload" where
  "forward_payload c = PCallForward \<lparr>cf_status = hc_status c, cf_reason = hc_reason c, cf_serviceClass = hc_serviceClass c,
     cf_toa = hc_toa c, cf_number = copied_as False (hc_number c), cf_timeSeconds = hc_timeSeconds c\<rparr>"

lemma to_string_not_Nil [simp]: "to_string n \<noteq> []"
proof -
  have "digits k \<noteq> []" for k by (subst digits.simps) simp
  then show ?thesis by (simp add: to_string_def)
qed

lemma add_record:
  assumes "addRequestToList en serial slot request s = Some (Some q, r)"
  shows "\<exists>v. requests r q = Some v \<and> token v = serial \<and> socket_id v = slot \<and> pCI v = request"
  using assms by (auto simp: addRequestToList_def Let_def split: if_splits option.splits)

lemma handled_answers:
  assumes h: "handled_in E W serial request b s ok s'" and d: "ok \<Longrightarrow> d = Some b" and n: "responseFunction (s_commands ! nat request) = Some name"
    and "heap_ok s"
  shows "blocks s' = blocks s \<and> heap_ok s' \<and> outcome_in E W serial request name d s s'"
proof -
  from h obtain p r where a: "addRequestToList (add_env W) serial (mSlotId W) request (rild s) = Some (p, r)" and
    c: "case p of None \<Rightarrow> \<not> ok \<and> s' = s\<lparr>rild := r\<rparr> | Some q \<Rightarrow> delivers_in E W request b q (s\<lparr>rild := r\<rparr>) ok s'"
    by (auto simp: handled_in_def)
  show ?thesis
  proof (cases p)
    case None
    with a c assms(4) show ?thesis by (simp add: heap_ok_def outcome_in_def)
  next
    case (Some q)
    from add_record [OF a [unfolded Some]] obtain v where
      v: "requests r q = Some v" "token v = serial" "socket_id v = mSlotId W" "pCI v = request" by blast
    from c Some have D: "delivers_in E W request b q (s\<lparr>rild := r\<rparr>) ok s'" by simp
    show ?thesis
    proof (cases ok)
      case True
      with D a d Some show ?thesis by (simp add: delivers_in_def outcome_in_def Let_def)
    next
      case False
      with D obtain e where e: "e \<in> E" "respond_error q e r = Some (rild s')" "calls s' = calls s"
        "blocks s' = blocks s" "heap_ok s'" by (auto simp: delivers_in_def Let_def)
      from e(2) v n have "rild s' = emit (Respond name (mSlotId W) RESPONSE_SOLICITED serial e None) r"
        by (simp add: respond_error_def)
      with e a Some show ?thesis by (auto simp: outcome_in_def)
    qed
  qed
qed

text \<open>The names of the response functions, row by row.\<close>

lemma response_names:
  "map responseFunction s_commands =
   [None, Some ''getIccCardStatusResponse'', Some ''supplyIccPinForAppResponse'',
    Some ''supplyIccPukForAppResponse'', Some ''supplyIccPin2ForAppResponse'', Some ''supplyIccPuk2ForAppResponse'',
    Some ''changeIccPinForAppResponse'', Some ''changeIccPin2ForAppResponse'',
    Some ''supplyNetworkDepersonalizationResponse'', Some ''getCurrentCallsResponse'', Some ''dialResponse'',
    Some ''getIMSIForAppResponse'', Some ''hangupConnectionResponse'', Some ''hangupWaitingOrBackgroundResponse'',
    Some ''hangupForegroundResumeBackgroundResponse'', Some ''switchWaitingOrHoldingAndActiveResponse'',
    Some ''conferenceResponse'', Some ''rejectCallResponse'', Some ''getLastCallFailCauseResponse'',
    Some ''getSignalStrengthResponse'', Some ''getVoiceRegistrationStateResponse'',
    Some ''getDataRegistrationStateResponse'', Some ''getOperatorResponse'', Some ''setRadioPowerResponse'',
    Some ''sendDtmfResponse'', Some ''sendSmsResponse'', Some ''sendSMSExpectMoreResponse'',
    Some ''setupDataCallResponse'', Some ''iccIOForAppResponse'', Some ''sendUssdResponse'',
    Some ''cancelPendingUssdResponse'', Some ''getClirResponse'', Some ''setClirResponse'',
    Some ''getCallForwardStatusResponse'', Some ''setCallForwardResponse'', Some ''getCallWaitingResponse'',
    Some ''setCallWaitingResponse'', Some ''acknowledgeLastIncomingGsmSmsResponse'', None, None,
    Some ''acceptCallResponse'', Some ''deactivateDataCallResponse'', Some ''getFacilityLockForAppResponse'',
    Some ''setFacilityLockForAppResponse'', Some ''setBarringPasswordResponse'',
    Some ''getNetworkSelectionModeResponse'', Some ''setNetworkSelectionModeAutomaticResponse'',
    Some ''setNetworkSelectionModeManualResponse'', Some ''getAvailableNetworksResponse'',
    Some ''startDtmfResponse'', Some ''stopDtmfResponse'', Some ''getBasebandVersionResponse'',
    Some ''separateConnectionResponse'', Some ''setMuteResponse'', Some ''getMuteResponse'',
    Some ''getClipResponse'', None, Some ''getDataCallListResponse'', None, Some ''sendRequestRawResponse'',
    Some ''sendRequestStringsResponse'', Some ''sendDeviceStateResponse'',
    Some ''setSuppServiceNotificationsResponse'', Some ''writeSmsToSimResponse'', Some ''deleteSmsOnSimResponse'',
    Some ''setBandModeResponse'', Some ''getAvailableBandModesResponse'', None, None, Some ''sendEnvelopeResponse'',
    Some ''sendTerminalResponseToSimResponse'', Some ''handleStkCallSetupRequestFromSimResponse'',
    Some ''explicitCallTransferResponse'', Some ''setPreferredNetworkTypeResponse'',
    Some ''getPreferredNetworkTypeResponse'', Some ''getNeighboringCidsResponse'',
    Some ''setLocationUpdatesResponse'', Some ''setCdmaSubscriptionSourceResponse'',
    Some ''setCdmaRoamingPreferenceResponse'', Some ''getCdmaRoamingPreferenceResponse'',
    Some ''setTTYModeResponse'', Some ''getTTYModeResponse'', Some ''setPreferredVoicePrivacyResponse'',
    Some ''getPreferredVoicePrivacyResponse'', Some ''sendCDMAFeatureCodeResponse'', Some ''sendBurstDtmfResponse'',
    None, Some ''sendCdmaSmsResponse'', Some ''acknowledgeLastIncomingCdmaSmsResponse'',
    Some ''getGsmBroadcastConfigResponse'', Some ''setGsmBroadcastConfigResponse'',
    Some ''setGsmBroadcastActivationResponse'', Some ''getCdmaBroadcastConfigResponse'',
    Some ''setCdmaBroadcastConfigResponse'', Some ''setCdmaBroadcastActivationResponse'',
    Some ''getCDMASubscriptionResponse'', Some ''writeSmsToRuimResponse'', Some ''deleteSmsOnRuimResponse'',
    Some ''getDeviceIdentityResponse'', Some ''exitEmergencyCallbackModeResponse'', Some ''getSmscAddressResponse'',
    Some ''setSmscAddressResponse'', Some ''reportSmsMemoryStatusResponse'',
    Some ''reportStkServiceIsRunningResponse'', Some ''getCdmaSubscriptionSourceResponse'',
    Some ''requestIsimAuthenticationResponse'', Some ''acknowledgeIncomingGsmSmsWithPduResponse'',
    Some ''sendEnvelopeWithStatusResponse'', Some ''getVoiceRadioTechnologyResponse'',
    Some ''getCellInfoListResponse'', Some ''setCellInfoListRateResponse'', Some ''setInitialAttachApnResponse'',
    Some ''getImsRegistrationStateResponse'', Some ''sendImsSmsResponse'',
    Some ''iccTransmitApduBasicChannelResponse'', Some ''iccOpenLogicalChannelResponse'',
    Some ''iccCloseLogicalChannelResponse'', Some ''iccTransmitApduLogicalChannelResponse'',
    Some ''nvReadItemResponse'', Some ''nvWriteItemResponse'', Some ''nvWriteCdmaPrlResponse'',
    Some ''nvResetConfigResponse'', Some ''setUiccSubscriptionResponse'', Some ''setDataAllowedResponse'',
    Some ''getHardwareConfigResponse'', Some ''requestIccSimAuthenticationResponse'', None, None,
    Some ''setDataProfileResponse'', Some ''requestShutdownResponse'', Some ''getRadioCapabilityResponse'',
    Some ''setRadioCapabilityResponse'', Some ''startLceServiceResponse'', Some ''stopLceServiceResponse'',
    Some ''pullLceDataResponse'', Some ''getModemActivityInfoResponse'', Some ''setAllowedCarriersResponse'',
    Some ''getAllowedCarriersResponse'', Some ''sendDeviceStateResponse'', Some ''setIndicationFilterResponse'',
    Some ''setSimCardPowerResponse'', Some ''setCarrierInfoForImsiEncryptionResponse'',
    Some ''startNetworkScanResponse'', Some ''stopNetworkScanResponse'', Some ''startKeepaliveResponse'',
    Some ''stopKeepaliveResponse'']"
  by (simp add: s_commands_def cmd_def)

lemma response_name: "nat request < 146 \<Longrightarrow> responseFunction (s_commands ! nat request) = map responseFunction s_commands ! nat request"
  by (simp add: length_s_commands)

lemma answersI:
  assumes "\<And>W serial s. heap_ok s \<Longrightarrow> vendor_returns W \<Longrightarrow>
      \<exists>ok s'. f W serial s = Some (ok, s') \<and> handled_in (E W s) W serial request (b W s) s ok s'"
    and "\<And>W serial s. m W serial s = discard (f W serial s)"
    and "responseFunction (s_commands ! nat request) = Some name"
  shows "answers_in E name request (\<lambda>W s. Some (b W s)) m"
  unfolding answers_in_def
proof (intro allI impI)
  fix W serial s assume env: "heap_ok s \<and> vendor_returns W"
  with assms(1) [of s W serial] obtain ok s' where
    r: "f W serial s = Some (ok, s')" and h: "handled_in (E W s) W serial request (b W s) s ok s'" by blast
  have "m W serial s = Some s'" using r by (simp add: assms(2) discard_def)
  with handled_answers [OF h refl assms(3) env [THEN conjunct1]] assms(3)
  show "\<exists>s'. m W serial s = Some s' \<and> blocks s' = blocks s \<and> heap_ok s' \<and>
      responseFunction (s_commands ! nat request) = Some name \<and> outcome_in (E W s) W serial request name (Some (b W s)) s s'"
    by blast
qed

lemma answered_row:
  assumes "0 \<le> request" "request < 146" "responseFunction (s_commands ! nat request) = Some name"
  shows "answered request"
  using assms by (simp add: answered_def length_s_commands)

lemma answers_void:
  assumes "\<And>W serial s. m W serial s = discard (dispatchVoid W serial request s)"
    and "0 \<le> request" "request < 146"
    and "map responseFunction s_commands ! nat request = Some name"
    and "d = NoData"
  shows "reaches_vendor name request d m"
proof -
  have n: "responseFunction (s_commands ! nat request) = Some name"
    using assms(2-4) by (simp add: length_s_commands)
  show ?thesis unfolding assms(5)
    by (rule answersI [OF dispatchVoid_ok [OF _ _ answered_row [OF assms(2,3) n]] assms(1) n])
qed

lemma answers_ints:
  assumes "\<And>W serial s. m W serial s = discard (dispatchInts W serial request ints s)"
    and "0 \<le> request" "request < 146"
    and "map responseFunction s_commands ! nat request = Some name"
    and "d = PInts ints"
  shows "answers [] name request d m"
proof -
  have n: "responseFunction (s_commands ! nat request) = Some name"
    using assms(2-4) by (simp add: length_s_commands)
  show ?thesis unfolding assms(5)
    by (rule answersI [OF dispatchInts_ok [OF _ _ answered_row [OF assms(2,3) n]] assms(1) n])
qed

lemma answers_string:
  assumes "\<And>W serial s. m W serial s = discard (dispatchString W serial request str s)"
    and "0 \<le> request" "request < 146"
    and "map responseFunction s_commands ! nat request = Some name"
    and "d = PString (nullable str)"
  shows "answers [] name request d m"
proof -
  have n: "responseFunction (s_commands ! nat request) = Some name"
    using assms(2-4) by (simp add: length_s_commands)
  show ?thesis unfolding assms(5) nullable_def
    by (rule answersI [OF dispatchString_ok [OF _ _ answered_row [OF assms(2,3) n]] assms(1) n])
qed

lemma answers_strings:
  assumes "\<And>W serial s. m W serial s = discard (dispatchStrings W serial request ae strs s)"
    and "0 \<le> request" "request < 146" "request \<noteq> RIL_REQUEST_SET_NETWORK_SELECTION_MANUAL"
    and "map responseFunction s_commands ! nat request = Some name"
    and "d = PStrings (map (\<lambda>c. if c = [] \<and> \<not> ae then None else Some c) strs)"
  shows "answers [] name request d m"
proof -
  have n: "responseFunction (s_commands ! nat request) = Some name"
    using assms(2-5) by (simp add: length_s_commands)
  show ?thesis unfolding assms(6)
    by (rule answersI [OF dispatchStrings_ok [OF _ _ answered_row [OF assms(2,3) n] assms(4)] assms(1) n])
qed

lemma answers_vec:
  assumes "\<And>W serial s. m W serial s = discard (dispatchStringsVec W serial request vec s)"
    and "0 \<le> request" "request < 146"
    and "map responseFunction s_commands ! nat request = Some name"
    and "d = PStrings (map (copied_as False) vec)"
  shows "answers vec name request d m"
proof -
  have n: "responseFunction (s_commands ! nat request) = Some name"
    using assms(2-4) by (simp add: length_s_commands)
  show ?thesis unfolding assms(5)
    by (rule answersI [OF dispatchStringsVec_ok [OF _ _ answered_row [OF assms(2,3) n]] assms(1) n])
qed

lemma answers_raw:
  assumes "\<And>W serial s. m W serial s = discard (dispatchRaw W serial request bs s)"
    and "0 \<le> request" "request < 146"
    and "map responseFunction s_commands ! nat request = Some name"
    and "d = PRaw bs"
  shows "reaches_vendor name request d m"
proof -
  have n: "responseFunction (s_commands ! nat request) = Some name"
    using assms(2-4) by (simp add: length_s_commands)
  show ?thesis unfolding assms(5)
    by (rule answersI [OF dispatchRaw_ok [OF _ _ answered_row [OF assms(2,3) n]] assms(1) n])
qed

lemma answers_apdu:
  assumes "\<And>W serial s. m W serial s = discard (dispatchIccApdu W serial request apdu s)"
    and "0 \<le> request" "request < 146"
    and "map responseFunction s_commands ! nat request = Some name"
    and "d = apdu_payload apdu"
  shows "answers [ha_data apdu] name request d m"
proof -
  have n: "responseFunction (s_commands ! nat request) = Some name"
    using assms(2-4) by (simp add: length_s_commands)
  show ?thesis unfolding assms(5) apdu_payload_def
    by (rule answersI [OF dispatchIccApdu_ok [OF _ _ answered_row [OF assms(2,3) n]] assms(1) n])
qed

lemma answers_forward:
  assumes "\<And>W serial s. m W serial s = discard (dispatchCallForwardStatus W serial request cf s)"
    and "0 \<le> request" "request < 146"
    and "map responseFunction s_commands ! nat request = Some name"
    and "d = forward_payload cf"
  shows "answers [hc_number cf] name request d m"
proof -
  have n: "responseFunction (s_commands ! nat request) = Some name"
    using assms(2-4) by (simp add: length_s_commands)
  show ?thesis unfolding assms(5) forward_payload_def
    by (rule answersI [OF dispatchCallForwardStatus_ok [OF _ _ answered_row [OF assms(2,3) n]] assms(1) n])
qed

lemmas method_defs =
  getIccCardStatus_def supplyIccPinForApp_def supplyIccPukForApp_def supplyIccPin2ForApp_def
  supplyIccPuk2ForApp_def changeIccPinForApp_def changeIccPin2ForApp_def supplyNetworkDepersonalization_def
  getCurrentCalls_def getImsiForApp_def hangup_def hangupWaitingOrBackground_def
  hangupForegroundResumeBackground_def switchWaitingOrHoldingAndActive_def conference_def rejectCall_def
  getLastCallFailCause_def getSignalStrength_def getVoiceRegistrationState_def getDataRegistrationState_def
  getOperator_def setRadioPower_def sendDtmf_def sendSms_def sendSMSExpectMore_def sendUssd_def
  cancelPendingUssd_def getClir_def setClir_def getCallForwardStatus_def setCallForward_def getCallWaiting_def
  setCallWaiting_def acknowledgeLastIncomingGsmSms_def acceptCall_def deactivateDataCall_def
  getFacilityLockForApp_def setFacilityLockForApp_def setBarringPassword_def getNetworkSelectionMode_def
  setNetworkSelectionModeAutomatic_def getAvailableNetworks_def stopNetworkScan_def startDtmf_def stopDtmf_def
  getBasebandVersion_def separateConnection_def setMute_def getMute_def getClip_def getDataCallList_def
  setSuppServiceNotifications_def deleteSmsOnSim_def setBandMode_def getAvailableBandModes_def sendEnvelope_def
  sendTerminalResponseToSim_def handleStkCallSetupRequestFromSim_def explicitCallTransfer_def
  setPreferredNetworkType_def getPreferredNetworkType_def getNeighboringCids_def setLocationUpdates_def
  setCdmaSubscriptionSource_def setCdmaRoamingPreference_def getCdmaRoamingPreference_def setTTYMode_def
  getTTYMode_def setPreferredVoicePrivacy_def getPreferredVoicePrivacy_def sendCDMAFeatureCode_def
  sendBurstDtmf_def getGsmBroadcastConfig_def setGsmBroadcastActivation_def getCdmaBroadcastConfig_def
  setCdmaBroadcastActivation_def getCDMASubscription_def deleteSmsOnRuim_def getDeviceIdentity_def
  exitEmergencyCallbackMode_def getSmscAddress_def setSmscAddress_def reportSmsMemoryStatus_def
  reportStkServiceIsRunning_def getCdmaSubscriptionSource_def requestIsimAuthentication_def
  acknowledgeIncomingGsmSmsWithPdu_def sendEnvelopeWithStatus_def getVoiceRadioTechnology_def
  getCellInfoList_def setCellInfoListRate_def getImsRegistrationState_def iccTransmitApduBasicChannel_def
  iccCloseLogicalChannel_def iccTransmitApduLogicalChannel_def nvWriteCdmaPrl_def setDataAllowed_def
  getHardwareConfig_def requestShutdown_def getRadioCapability_def startLceService_def stopLceService_def
  pullLceData_def getModemActivityInfo_def getAllowedCarriers_def setSimCardPower_def setSimCardPower_1_1_def
  sendRequestRaw_def sendRequestStrings_def

lemmas method_rules = answers_void answers_ints answers_string answers_strings answers_vec answers_raw answers_apdu
  answers_forward

lemma methods_answer_1:
  "reaches_vendor ''getIccCardStatusResponse'' RIL_REQUEST_GET_SIM_STATUS NoData getIccCardStatus \<and>
   answers [] ''supplyIccPinForAppResponse'' RIL_REQUEST_ENTER_SIM_PIN
     (PStrings [Some (hs_chars pin), Some (hs_chars aid)])
     (\<lambda>W serial. supplyIccPinForApp W serial pin aid) \<and>
   answers [] ''supplyIccPukForAppResponse'' RIL_REQUEST_ENTER_SIM_PUK
     (PStrings [Some (hs_chars puk), Some (hs_chars pin), Some (hs_chars aid)])
     (\<lambda>W serial. supplyIccPukForApp W serial puk pin aid) \<and>
   answers [] ''supplyIccPin2ForAppResponse'' RIL_REQUEST_ENTER_SIM_PIN2
     (PStrings [Some (hs_chars pin2), Some (hs_chars aid)])
     (\<lambda>W serial. supplyIccPin2ForApp W serial pin2 aid) \<and>
   answers [] ''supplyIccPuk2ForAppResponse'' RIL_REQUEST_ENTER_SIM_PUK2
     (PStrings [Some (hs_chars puk2), Some (hs_chars pin2), Some (hs_chars aid)])
     (\<lambda>W serial. supplyIccPuk2ForApp W serial puk2 pin2 aid) \<and>
   answers [] ''changeIccPinForAppResponse'' RIL_REQUEST_CHANGE_SIM_PIN
     (PStrings [Some (hs_chars oldPin), Some (hs_chars newPin), Some (hs_chars aid)])
     (\<lambda>W serial. changeIccPinForApp W serial oldPin newPin aid) \<and>
   answers [] ''changeIccPin2ForAppResponse'' RIL_REQUEST_CHANGE_SIM_PIN2
     (PStrings [Some (hs_chars oldPin2), Some (hs_chars newPin2), Some (hs_chars aid)])
     (\<lambda>W serial. changeIccPin2ForApp W serial oldPin2 newPin2 aid) \<and>
   answers [] ''supplyNetworkDepersonalizationResponse'' RIL_REQUEST_ENTER_NETWORK_DEPERSONALIZATION
     (PStrings [Some (hs_chars netPin)])
     (\<lambda>W serial. supplyNetworkDepersonalization W serial netPin) \<and>
   reaches_vendor ''getCurrentCallsResponse'' RIL_REQUEST_GET_CURRENT_CALLS NoData getCurrentCalls \<and>
   answers [] ''getIMSIForAppResponse'' RIL_REQUEST_GET_IMSI
     (PStrings [nullable (hs_chars aid)])
     (\<lambda>W serial. getImsiForApp W serial aid) \<and>
   answers [] ''hangupConnectionResponse'' RIL_REQUEST_HANGUP (PInts [gsmIndex]) (\<lambda>W serial. hangup W serial gsmIndex) \<and>
   reaches_vendor ''hangupWaitingOrBackgroundResponse'' RIL_REQUEST_HANGUP_WAITING_OR_BACKGROUND NoData hangupWaitingOrBackground \<and>
   reaches_vendor ''hangupForegroundResumeBackgroundResponse'' RIL_REQUEST_HANGUP_FOREGROUND_RESUME_BACKGROUND
     NoData
     hangupForegroundResumeBackground \<and>
   reaches_vendor ''switchWaitingOrHoldingAndActiveResponse'' RIL_REQUEST_SWITCH_WAITING_OR_HOLDING_AND_ACTIVE
     NoData
     switchWaitingOrHoldingAndActive \<and>
   reaches_vendor ''conferenceResponse'' RIL_REQUEST_CONFERENCE NoData conference \<and>
   reaches_vendor ''rejectCallResponse'' RIL_REQUEST_UDUB NoData rejectCall \<and>
   reaches_vendor ''getLastCallFailCauseResponse'' RIL_REQUEST_LAST_CALL_FAIL_CAUSE NoData getLastCallFailCause \<and>
   reaches_vendor ''getSignalStrengthResponse'' RIL_REQUEST_SIGNAL_STRENGTH NoData getSignalStrength \<and>
   reaches_vendor ''getVoiceRegistrationStateResponse'' RIL_REQUEST_VOICE_REGISTRATION_STATE NoData getVoiceRegistrationState \<and>
   reaches_vendor ''getDataRegistrationStateResponse'' RIL_REQUEST_DATA_REGISTRATION_STATE NoData getDataRegistrationState \<and>
   reaches_vendor ''getOperatorResponse'' RIL_REQUEST_OPERATOR NoData getOperator \<and>
   answers [] ''setRadioPowerResponse'' RIL_REQUEST_RADIO_POWER
     (PInts [if onArg then 1 else 0])
     (\<lambda>W serial. setRadioPower W serial onArg)"
  by (intro conjI; (rule method_rules, rule method_defs; simp add: req_consts response_names nullable_def BOOL_TO_INT_def))

lemma methods_answer_2:
  "answers [] ''sendDtmfResponse'' RIL_REQUEST_DTMF (PString (nullable (hs_chars str))) (\<lambda>W serial. sendDtmf W serial str) \<and>
   answers [] ''sendSmsResponse'' RIL_REQUEST_SEND_SMS
     (PStrings [nullable (hs_chars (hg_smscPdu message)), nullable (hs_chars (hg_pdu message))])
     (\<lambda>W serial. sendSms W serial message) \<and>
   answers [] ''sendSMSExpectMoreResponse'' RIL_REQUEST_SEND_SMS_EXPECT_MORE
     (PStrings [nullable (hs_chars (hg_smscPdu message)), nullable (hs_chars (hg_pdu message))])
     (\<lambda>W serial. sendSMSExpectMore W serial message) \<and>
   answers [] ''sendUssdResponse'' RIL_REQUEST_SEND_USSD (PString (nullable (hs_chars ussd))) (\<lambda>W serial. sendUssd W serial ussd) \<and>
   reaches_vendor ''cancelPendingUssdResponse'' RIL_REQUEST_CANCEL_USSD NoData cancelPendingUssd \<and>
   reaches_vendor ''getClirResponse'' RIL_REQUEST_GET_CLIR NoData getClir \<and>
   answers [] ''setClirResponse'' RIL_REQUEST_SET_CLIR (PInts [clir]) (\<lambda>W serial. setClir W serial clir) \<and>
   answers [hc_number callInfo] ''getCallForwardStatusResponse'' RIL_REQUEST_QUERY_CALL_FORWARD_STATUS
     (forward_payload callInfo)
     (\<lambda>W serial. getCallForwardStatus W serial callInfo) \<and>
   answers [hc_number callInfo] ''setCallForwardResponse'' RIL_REQUEST_SET_CALL_FORWARD
     (forward_payload callInfo)
     (\<lambda>W serial. setCallForward W serial callInfo) \<and>
   answers [] ''getCallWaitingResponse'' RIL_REQUEST_QUERY_CALL_WAITING
     (PInts [serviceClass])
     (\<lambda>W serial. getCallWaiting W serial serviceClass) \<and>
   answers [] ''setCallWaitingResponse'' RIL_REQUEST_SET_CALL_WAITING
     (PInts [if enable then 1 else 0, serviceClass])
     (\<lambda>W serial. setCallWaiting W serial enable serviceClass) \<and>
   answers [] ''acknowledgeLastIncomingGsmSmsResponse'' RIL_REQUEST_SMS_ACKNOWLEDGE
     (PInts [if success then 1 else 0, cause])
     (\<lambda>W serial. acknowledgeLastIncomingGsmSms W serial success cause) \<and>
   reaches_vendor ''acceptCallResponse'' RIL_REQUEST_ANSWER NoData acceptCall \<and>
   answers [] ''deactivateDataCallResponse'' RIL_REQUEST_DEACTIVATE_DATA_CALL
     (PStrings [Some (to_string cid), Some (if reasonRadioShutDown then ''1'' else ''0'')])
     (\<lambda>W serial. deactivateDataCall W serial cid reasonRadioShutDown) \<and>
   answers [] ''getFacilityLockForAppResponse'' RIL_REQUEST_QUERY_FACILITY_LOCK
     (PStrings [Some (hs_chars facility), Some (hs_chars password), Some (to_string serviceClass), Some (hs_chars appId)])
     (\<lambda>W serial. getFacilityLockForApp W serial facility password serviceClass appId) \<and>
   answers [] ''setFacilityLockForAppResponse'' RIL_REQUEST_SET_FACILITY_LOCK
     (PStrings [Some (hs_chars facility), Some (if lockState then ''1'' else ''0''), Some (hs_chars password), Some (to_string serviceClass), Some (hs_chars appId)])
     (\<lambda>W serial. setFacilityLockForApp W serial facility lockState password serviceClass appId) \<and>
   answers [] ''setBarringPasswordResponse'' RIL_REQUEST_CHANGE_BARRING_PASSWORD
     (PStrings [Some (hs_chars facility), Some (hs_chars oldPassword), Some (hs_chars newPassword)])
     (\<lambda>W serial. setBarringPassword W serial facility oldPassword newPassword) \<and>
   reaches_vendor ''getNetworkSelectionModeResponse'' RIL_REQUEST_QUERY_NETWORK_SELECTION_MODE NoData getNetworkSelectionMode \<and>
   answers [] ''setNetworkSelectionModeAutomaticResponse'' RIL_REQUEST_SET_NETWORK_SELECTION_AUTOMATIC
     (PStrings [])
     setNetworkSelectionModeAutomatic \<and>
   reaches_vendor ''getAvailableNetworksResponse'' RIL_REQUEST_QUERY_AVAILABLE_NETWORKS NoData getAvailableNetworks \<and>
   reaches_vendor ''stopNetworkScanResponse'' RIL_REQUEST_STOP_NETWORK_SCAN NoData stopNetworkScan \<and>
   answers [] ''startDtmfResponse'' RIL_REQUEST_DTMF_START (PString (nullable (hs_chars str))) (\<lambda>W serial. startDtmf W serial str)"
  by (intro conjI; (rule method_rules, rule method_defs; simp add: req_consts response_names nullable_def BOOL_TO_INT_def))

lemma methods_answer_3:
  "reaches_vendor ''stopDtmfResponse'' RIL_REQUEST_DTMF_STOP NoData stopDtmf \<and>
   reaches_vendor ''getBasebandVersionResponse'' RIL_REQUEST_BASEBAND_VERSION NoData getBasebandVersion \<and>
   answers [] ''separateConnectionResponse'' RIL_REQUEST_SEPARATE_CONNECTION
     (PInts [gsmIndex])
     (\<lambda>W serial. separateConnection W serial gsmIndex) \<and>
   answers [] ''setMuteResponse'' RIL_REQUEST_SET_MUTE (PInts [if enable then 1 else 0]) (\<lambda>W serial. setMute W serial enable) \<and>
   reaches_vendor ''getMuteResponse'' RIL_REQUEST_GET_MUTE NoData getMute \<and>
   reaches_vendor ''getClipResponse'' RIL_REQUEST_QUERY_CLIP NoData getClip \<and>
   reaches_vendor ''getDataCallListResponse'' RIL_REQUEST_DATA_CALL_LIST NoData getDataCallList \<and>
   answers [] ''setSuppServiceNotificationsResponse'' RIL_REQUEST_SET_SUPP_SVC_NOTIFICATION
     (PInts [if enable then 1 else 0])
     (\<lambda>W serial. setSuppServiceNotifications W serial enable) \<and>
   answers [] ''deleteSmsOnSimResponse'' RIL_REQUEST_DELETE_SMS_ON_SIM (PInts [idx]) (\<lambda>W serial. deleteSmsOnSim W serial idx) \<and>
   answers [] ''setBandModeResponse'' RIL_REQUEST_SET_BAND_MODE (PInts [bandMode]) (\<lambda>W serial. setBandMode W serial bandMode) \<and>
   reaches_vendor ''getAvailableBandModesResponse'' RIL_REQUEST_QUERY_AVAILABLE_BAND_MODE NoData getAvailableBandModes \<and>
   answers [] ''sendEnvelopeResponse'' RIL_REQUEST_STK_SEND_ENVELOPE_COMMAND
     (PString (nullable (hs_chars command)))
     (\<lambda>W serial. sendEnvelope W serial command) \<and>
   answers [] ''sendTerminalResponseToSimResponse'' RIL_REQUEST_STK_SEND_TERMINAL_RESPONSE
     (PString (nullable (hs_chars commandResponse)))
     (\<lambda>W serial. sendTerminalResponseToSim W serial commandResponse) \<and>
   answers [] ''handleStkCallSetupRequestFromSimResponse'' RIL_REQUEST_STK_HANDLE_CALL_SETUP_REQUESTED_FROM_SIM
     (PInts [if accept then 1 else 0])
     (\<lambda>W serial. handleStkCallSetupRequestFromSim W serial accept) \<and>
   reaches_vendor ''explicitCallTransferResponse'' RIL_REQUEST_EXPLICIT_CALL_TRANSFER NoData explicitCallTransfer \<and>
   answers [] ''setPreferredNetworkTypeResponse'' RIL_REQUEST_SET_PREFERRED_NETWORK_TYPE
     (PInts [nwType])
     (\<lambda>W serial. setPreferredNetworkType W serial nwType) \<and>
   reaches_vendor ''getPreferredNetworkTypeResponse'' RIL_REQUEST_GET_PREFERRED_NETWORK_TYPE NoData getPreferredNetworkType \<and>
   reaches_vendor ''getNeighboringCidsResponse'' RIL_REQUEST_GET_NEIGHBORING_CELL_IDS NoData getNeighboringCids \<and>
   answers [] ''setLocationUpdatesResponse'' RIL_REQUEST_SET_LOCATION_UPDATES
     (PInts [if enable then 1 else 0])
     (\<lambda>W serial. setLocationUpdates W serial enable) \<and>
   answers [] ''setCdmaSubscriptionSourceResponse'' RIL_REQUEST_CDMA_SET_SUBSCRIPTION_SOURCE
     (PInts [cdmaSub])
     (\<lambda>W serial. setCdmaSubscriptionSource W serial cdmaSub) \<and>
   answers [] ''setCdmaRoamingPreferenceResponse'' RIL_REQUEST_CDMA_SET_ROAMING_PREFERENCE
     (PInts [type])
     (\<lambda>W serial. setCdmaRoamingPreference W serial type) \<and>
   reaches_vendor ''getCdmaRoamingPreferenceResponse'' RIL_REQUEST_CDMA_QUERY_ROAMING_PREFERENCE NoData getCdmaRoamingPreference"
  by (intro conjI; (rule method_rules, rule method_defs; simp add: req_consts response_names nullable_def BOOL_TO_INT_def))

lemma methods_answer_4:
  "answers [] ''setTTYModeResponse'' RIL_REQUEST_SET_TTY_MODE (PInts [bandMode]) (\<lambda>W serial. setTTYMode W serial bandMode) \<and>
   reaches_vendor ''getTTYModeResponse'' RIL_REQUEST_QUERY_TTY_MODE NoData getTTYMode \<and>
   answers [] ''setPreferredVoicePrivacyResponse'' RIL_REQUEST_CDMA_SET_PREFERRED_VOICE_PRIVACY_MODE
     (PInts [if enable then 1 else 0])
     (\<lambda>W serial. setPreferredVoicePrivacy W serial enable) \<and>
   reaches_vendor ''getPreferredVoicePrivacyResponse'' RIL_REQUEST_CDMA_QUERY_PREFERRED_VOICE_PRIVACY_MODE NoData getPreferredVoicePrivacy \<and>
   answers [] ''sendCDMAFeatureCodeResponse'' RIL_REQUEST_CDMA_FLASH
     (PString (nullable (hs_chars featureCode)))
     (\<lambda>W serial. sendCDMAFeatureCode W serial featureCode) \<and>
   answers [] ''sendBurstDtmfResponse'' RIL_REQUEST_CDMA_BURST_DTMF
     (PStrings [nullable (hs_chars dtmf), Some (to_string onArg_int), Some (to_string offLen)])
     (\<lambda>W serial. sendBurstDtmf W serial dtmf onArg_int offLen) \<and>
   reaches_vendor ''getGsmBroadcastConfigResponse'' RIL_REQUEST_GSM_GET_BROADCAST_SMS_CONFIG NoData getGsmBroadcastConfig \<and>
   answers [] ''setGsmBroadcastActivationResponse'' RIL_REQUEST_GSM_SMS_BROADCAST_ACTIVATION
     (PInts [if activate then 0 else 1])
     (\<lambda>W serial. setGsmBroadcastActivation W serial activate) \<and>
   reaches_vendor ''getCdmaBroadcastConfigResponse'' RIL_REQUEST_CDMA_GET_BROADCAST_SMS_CONFIG NoData getCdmaBroadcastConfig \<and>
   answers [] ''setCdmaBroadcastActivationResponse'' RIL_REQUEST_CDMA_SMS_BROADCAST_ACTIVATION
     (PInts [if activate then 0 else 1])
     (\<lambda>W serial. setCdmaBroadcastActivation W serial activate) \<and>
   reaches_vendor ''getCDMASubscriptionResponse'' RIL_REQUEST_CDMA_SUBSCRIPTION NoData getCDMASubscription \<and>
   answers [] ''deleteSmsOnRuimResponse'' RIL_REQUEST_CDMA_DELETE_SMS_ON_RUIM
     (PInts [idx])
     (\<lambda>W serial. deleteSmsOnRuim W serial idx) \<and>
   reaches_vendor ''getDeviceIdentityResponse'' RIL_REQUEST_DEVICE_IDENTITY NoData getDeviceIdentity \<and>
   reaches_vendor ''exitEmergencyCallbackModeResponse'' RIL_REQUEST_EXIT_EMERGENCY_CALLBACK_MODE NoData exitEmergencyCallbackMode \<and>
   reaches_vendor ''getSmscAddressResponse'' RIL_REQUEST_GET_SMSC_ADDRESS NoData getSmscAddress \<and>
   answers [] ''setSmscAddressResponse'' RIL_REQUEST_SET_SMSC_ADDRESS
     (PString (nullable (hs_chars smsc)))
     (\<lambda>W serial. setSmscAddress W serial smsc) \<and>
   answers [] ''reportSmsMemoryStatusResponse'' RIL_REQUEST_REPORT_SMS_MEMORY_STATUS
     (PInts [if available then 1 else 0])
     (\<lambda>W serial. reportSmsMemoryStatus W serial available) \<and>
   reaches_vendor ''reportStkServiceIsRunningResponse'' RIL_REQUEST_REPORT_STK_SERVICE_IS_RUNNING NoData reportStkServiceIsRunning \<and>
   reaches_vendor ''getCdmaSubscriptionSourceResponse'' RIL_REQUEST_CDMA_GET_SUBSCRIPTION_SOURCE NoData getCdmaSubscriptionSource \<and>
   answers [] ''requestIsimAuthenticationResponse'' RIL_REQUEST_ISIM_AUTHENTICATION
     (PString (nullable (hs_chars challenge)))
     (\<lambda>W serial. requestIsimAuthentication W serial challenge) \<and>
   answers [] ''acknowledgeIncomingGsmSmsWithPduResponse'' RIL_REQUEST_ACKNOWLEDGE_INCOMING_GSM_SMS_WITH_PDU
     (PStrings [Some (if success then ''1'' else ''0''), nullable (hs_chars ackPdu)])
     (\<lambda>W serial. acknowledgeIncomingGsmSmsWithPdu W serial success ackPdu) \<and>
   answers [] ''sendEnvelopeWithStatusResponse'' RIL_REQUEST_STK_SEND_ENVELOPE_WITH_STATUS
     (PString (nullable (hs_chars contents)))
     (\<lambda>W serial. sendEnvelopeWithStatus W serial contents)"
  by (intro conjI; (rule method_rules, rule method_defs; simp add: req_consts response_names nullable_def BOOL_TO_INT_def))

lemma methods_answer_5:
  "reaches_vendor ''getVoiceRadioTechnologyResponse'' RIL_REQUEST_VOICE_RADIO_TECH NoData getVoiceRadioTechnology \<and>
   reaches_vendor ''getCellInfoListResponse'' RIL_REQUEST_GET_CELL_INFO_LIST NoData getCellInfoList \<and>
   answers [] ''setCellInfoListRateResponse'' RIL_REQUEST_SET_UNSOL_CELL_INFO_LIST_RATE
     (PInts [rate])
     (\<lambda>W serial. setCellInfoListRate W serial rate) \<and>
   reaches_vendor ''getImsRegistrationStateResponse'' RIL_REQUEST_IMS_REGISTRATION_STATE NoData getImsRegistrationState \<and>
   answers [ha_data message_hidlsi] ''iccTransmitApduBasicChannelResponse'' RIL_REQUEST_SIM_TRANSMIT_APDU_BASIC
     (apdu_payload message_hidlsi)
     (\<lambda>W serial. iccTransmitApduBasicChannel W serial message_hidlsi) \<and>
   answers [] ''iccCloseLogicalChannelResponse'' RIL_REQUEST_SIM_CLOSE_CHANNEL
     (PInts [channelId])
     (\<lambda>W serial. iccCloseLogicalChannel W serial channelId) \<and>
   answers [ha_data message_hidlsi] ''iccTransmitApduLogicalChannelResponse'' RIL_REQUEST_SIM_TRANSMIT_APDU_CHANNEL
     (apdu_payload message_hidlsi)
     (\<lambda>W serial. iccTransmitApduLogicalChannel W serial message_hidlsi) \<and>
   reaches_vendor ''nvWriteCdmaPrlResponse'' RIL_REQUEST_NV_WRITE_CDMA_PRL (PRaw prl) (\<lambda>W serial. nvWriteCdmaPrl W serial prl) \<and>
   answers [] ''setDataAllowedResponse'' RIL_REQUEST_ALLOW_DATA
     (PInts [if allow then 1 else 0])
     (\<lambda>W serial. setDataAllowed W serial allow) \<and>
   reaches_vendor ''getHardwareConfigResponse'' RIL_REQUEST_GET_HARDWARE_CONFIG NoData getHardwareConfig \<and>
   reaches_vendor ''requestShutdownResponse'' RIL_REQUEST_SHUTDOWN NoData requestShutdown \<and>
   reaches_vendor ''getRadioCapabilityResponse'' RIL_REQUEST_GET_RADIO_CAPABILITY NoData getRadioCapability \<and>
   answers [] ''startLceServiceResponse'' RIL_REQUEST_START_LCE
     (PInts [reportInterval, if pullMode then 1 else 0])
     (\<lambda>W serial. startLceService W serial reportInterval pullMode) \<and>
   reaches_vendor ''stopLceServiceResponse'' RIL_REQUEST_STOP_LCE NoData stopLceService \<and>
   reaches_vendor ''pullLceDataResponse'' RIL_REQUEST_PULL_LCEDATA NoData pullLceData \<and>
   reaches_vendor ''getModemActivityInfoResponse'' RIL_REQUEST_GET_ACTIVITY_INFO NoData getModemActivityInfo \<and>
   reaches_vendor ''getAllowedCarriersResponse'' RIL_REQUEST_GET_CARRIER_RESTRICTIONS NoData getAllowedCarriers \<and>
   answers [] ''setSimCardPowerResponse'' RIL_REQUEST_SET_SIM_CARD_POWER
     (PInts [if powerUp then 1 else 0])
     (\<lambda>W serial. setSimCardPower W serial powerUp) \<and>
   answers [] ''setSimCardPowerResponse'' RIL_REQUEST_SET_SIM_CARD_POWER
     (PInts [state])
     (\<lambda>W serial. setSimCardPower_1_1 W serial state) \<and>
   reaches_vendor ''sendRequestRawResponse'' RIL_REQUEST_OEM_HOOK_RAW (PRaw data) (\<lambda>W serial. sendRequestRaw W serial data) \<and>
   answers data_hidlst ''sendRequestStringsResponse'' RIL_REQUEST_OEM_HOOK_STRINGS
     (PStrings (map (copied_as False) data_hidlst))
     (\<lambda>W serial. sendRequestStrings W serial data_hidlst)"
  by (intro conjI; (rule method_rules, rule method_defs; simp add: req_consts response_names nullable_def BOOL_TO_INT_def))

text \<open>A service for the witnesses: one SIM, no request, a vendor that does not answer.\<close>

definition svc0 :: svc where
  "svc0 = \<lparr>rild = registered_ril, blocks = (\<lambda>_. None), allocs = 0, calls = []\<rparr>"

definition W0 :: radio_env where
  "W0 = \<lparr>add_env = env0, done_env = env0, mSlotId = 0, oom = (\<lambda>_. False), OLD_MNC_FORMAT = True,
         ADDRESS_MAX = 36, SUBADDRESS_MAX = 36, BEARER_DATA_MAX = 255, LOW_DATA_EXPECTED = 2,
         onRequest = (\<lambda>_ _ _ _ r. Some r)\<rparr>"

lemma svc0_simps [simp]: "rild svc0 = registered_ril" "blocks svc0 = (\<lambda>_. None)" "allocs svc0 = 0" "calls svc0 = []" "heap_ok svc0"
  by (simp_all add: svc0_def heap_ok_def)

lemma W0_simps [simp]: "add_env W0 = env0" "done_env W0 = env0" "mSlotId W0 = 0" "oom W0 n = False"
  "OLD_MNC_FORMAT W0" "ADDRESS_MAX W0 = 36" "SUBADDRESS_MAX W0 = 36" "BEARER_DATA_MAX W0 = 255" "LOW_DATA_EXPECTED W0 = 2"
  "onRequest W0 a b d e r = Some r" "vendor_returns W0"
  by (simp_all add: W0_def vendor_returns_def)

lemma add_registered:
  assumes "0 \<le> request" "request < 146"
  shows "\<exists>r. addRequestToList env0 serial slot request registered_ril = Some (Some 10, r) \<and>
    SIM_COUNT r = 1 \<and> version r = 13 \<and> out r = [RegisterService] \<and>
    requests r = [10 \<mapsto> \<lparr>token = serial, pCI = request, p_next = pendingRequests registered_ril 0,
      cancelled = 0, local_cmd = 0, socket_id = slot, wasAckSent = 0\<rparr>] \<and> pendingRequests r 0 = Some 10"
  using assms by (simp add: addRequestToList_def length_s_commands Let_def pendingRequestsHook_def)

text \<open>
  C22. Every method of the radio service that is a single dispatch (109 of them; manual network selection, which the service answers
  itself, is not one) enters its request, whose row of \<open>s_commands\<close> answers with the method's own response function, so the
  answer reaches the caller under the right name. When the request could be entered, the vendor gets exactly one call with the fresh
  token and with exactly the data of the method's arguments, or the caller gets one error with its serial: no memory only if an
  allocation fails, an internal error only if a copied string is longer than it says. Methods that copy nothing always reach the vendor.
  In every case the heap is as before. (The heap is consistent before the call, and the vendor's function returns.)
\<close>

theorem methods_answer:
  "reaches_vendor ''getIccCardStatusResponse'' RIL_REQUEST_GET_SIM_STATUS NoData getIccCardStatus \<and>
   answers [] ''supplyIccPinForAppResponse'' RIL_REQUEST_ENTER_SIM_PIN
     (PStrings [Some (hs_chars pin), Some (hs_chars aid)])
     (\<lambda>W serial. supplyIccPinForApp W serial pin aid) \<and>
   answers [] ''supplyIccPukForAppResponse'' RIL_REQUEST_ENTER_SIM_PUK
     (PStrings [Some (hs_chars puk), Some (hs_chars pin), Some (hs_chars aid)])
     (\<lambda>W serial. supplyIccPukForApp W serial puk pin aid) \<and>
   answers [] ''supplyIccPin2ForAppResponse'' RIL_REQUEST_ENTER_SIM_PIN2
     (PStrings [Some (hs_chars pin2), Some (hs_chars aid)])
     (\<lambda>W serial. supplyIccPin2ForApp W serial pin2 aid) \<and>
   answers [] ''supplyIccPuk2ForAppResponse'' RIL_REQUEST_ENTER_SIM_PUK2
     (PStrings [Some (hs_chars puk2), Some (hs_chars pin2), Some (hs_chars aid)])
     (\<lambda>W serial. supplyIccPuk2ForApp W serial puk2 pin2 aid) \<and>
   answers [] ''changeIccPinForAppResponse'' RIL_REQUEST_CHANGE_SIM_PIN
     (PStrings [Some (hs_chars oldPin), Some (hs_chars newPin), Some (hs_chars aid)])
     (\<lambda>W serial. changeIccPinForApp W serial oldPin newPin aid) \<and>
   answers [] ''changeIccPin2ForAppResponse'' RIL_REQUEST_CHANGE_SIM_PIN2
     (PStrings [Some (hs_chars oldPin2), Some (hs_chars newPin2), Some (hs_chars aid)])
     (\<lambda>W serial. changeIccPin2ForApp W serial oldPin2 newPin2 aid) \<and>
   answers [] ''supplyNetworkDepersonalizationResponse'' RIL_REQUEST_ENTER_NETWORK_DEPERSONALIZATION
     (PStrings [Some (hs_chars netPin)])
     (\<lambda>W serial. supplyNetworkDepersonalization W serial netPin) \<and>
   reaches_vendor ''getCurrentCallsResponse'' RIL_REQUEST_GET_CURRENT_CALLS NoData getCurrentCalls \<and>
   answers [] ''getIMSIForAppResponse'' RIL_REQUEST_GET_IMSI
     (PStrings [nullable (hs_chars aid)])
     (\<lambda>W serial. getImsiForApp W serial aid) \<and>
   answers [] ''hangupConnectionResponse'' RIL_REQUEST_HANGUP (PInts [gsmIndex]) (\<lambda>W serial. hangup W serial gsmIndex) \<and>
   reaches_vendor ''hangupWaitingOrBackgroundResponse'' RIL_REQUEST_HANGUP_WAITING_OR_BACKGROUND NoData hangupWaitingOrBackground \<and>
   reaches_vendor ''hangupForegroundResumeBackgroundResponse'' RIL_REQUEST_HANGUP_FOREGROUND_RESUME_BACKGROUND
     NoData
     hangupForegroundResumeBackground \<and>
   reaches_vendor ''switchWaitingOrHoldingAndActiveResponse'' RIL_REQUEST_SWITCH_WAITING_OR_HOLDING_AND_ACTIVE
     NoData
     switchWaitingOrHoldingAndActive \<and>
   reaches_vendor ''conferenceResponse'' RIL_REQUEST_CONFERENCE NoData conference \<and>
   reaches_vendor ''rejectCallResponse'' RIL_REQUEST_UDUB NoData rejectCall \<and>
   reaches_vendor ''getLastCallFailCauseResponse'' RIL_REQUEST_LAST_CALL_FAIL_CAUSE NoData getLastCallFailCause \<and>
   reaches_vendor ''getSignalStrengthResponse'' RIL_REQUEST_SIGNAL_STRENGTH NoData getSignalStrength \<and>
   reaches_vendor ''getVoiceRegistrationStateResponse'' RIL_REQUEST_VOICE_REGISTRATION_STATE NoData getVoiceRegistrationState \<and>
   reaches_vendor ''getDataRegistrationStateResponse'' RIL_REQUEST_DATA_REGISTRATION_STATE NoData getDataRegistrationState \<and>
   reaches_vendor ''getOperatorResponse'' RIL_REQUEST_OPERATOR NoData getOperator \<and>
   answers [] ''setRadioPowerResponse'' RIL_REQUEST_RADIO_POWER
     (PInts [if onArg then 1 else 0])
     (\<lambda>W serial. setRadioPower W serial onArg) \<and>
   answers [] ''sendDtmfResponse'' RIL_REQUEST_DTMF (PString (nullable (hs_chars str))) (\<lambda>W serial. sendDtmf W serial str) \<and>
   answers [] ''sendSmsResponse'' RIL_REQUEST_SEND_SMS
     (PStrings [nullable (hs_chars (hg_smscPdu message)), nullable (hs_chars (hg_pdu message))])
     (\<lambda>W serial. sendSms W serial message) \<and>
   answers [] ''sendSMSExpectMoreResponse'' RIL_REQUEST_SEND_SMS_EXPECT_MORE
     (PStrings [nullable (hs_chars (hg_smscPdu message)), nullable (hs_chars (hg_pdu message))])
     (\<lambda>W serial. sendSMSExpectMore W serial message) \<and>
   answers [] ''sendUssdResponse'' RIL_REQUEST_SEND_USSD (PString (nullable (hs_chars ussd))) (\<lambda>W serial. sendUssd W serial ussd) \<and>
   reaches_vendor ''cancelPendingUssdResponse'' RIL_REQUEST_CANCEL_USSD NoData cancelPendingUssd \<and>
   reaches_vendor ''getClirResponse'' RIL_REQUEST_GET_CLIR NoData getClir \<and>
   answers [] ''setClirResponse'' RIL_REQUEST_SET_CLIR (PInts [clir]) (\<lambda>W serial. setClir W serial clir) \<and>
   answers [hc_number callInfo] ''getCallForwardStatusResponse'' RIL_REQUEST_QUERY_CALL_FORWARD_STATUS
     (forward_payload callInfo)
     (\<lambda>W serial. getCallForwardStatus W serial callInfo) \<and>
   answers [hc_number callInfo] ''setCallForwardResponse'' RIL_REQUEST_SET_CALL_FORWARD
     (forward_payload callInfo)
     (\<lambda>W serial. setCallForward W serial callInfo) \<and>
   answers [] ''getCallWaitingResponse'' RIL_REQUEST_QUERY_CALL_WAITING
     (PInts [serviceClass])
     (\<lambda>W serial. getCallWaiting W serial serviceClass) \<and>
   answers [] ''setCallWaitingResponse'' RIL_REQUEST_SET_CALL_WAITING
     (PInts [if enable then 1 else 0, serviceClass])
     (\<lambda>W serial. setCallWaiting W serial enable serviceClass) \<and>
   answers [] ''acknowledgeLastIncomingGsmSmsResponse'' RIL_REQUEST_SMS_ACKNOWLEDGE
     (PInts [if success then 1 else 0, cause])
     (\<lambda>W serial. acknowledgeLastIncomingGsmSms W serial success cause) \<and>
   reaches_vendor ''acceptCallResponse'' RIL_REQUEST_ANSWER NoData acceptCall \<and>
   answers [] ''deactivateDataCallResponse'' RIL_REQUEST_DEACTIVATE_DATA_CALL
     (PStrings [Some (to_string cid), Some (if reasonRadioShutDown then ''1'' else ''0'')])
     (\<lambda>W serial. deactivateDataCall W serial cid reasonRadioShutDown) \<and>
   answers [] ''getFacilityLockForAppResponse'' RIL_REQUEST_QUERY_FACILITY_LOCK
     (PStrings [Some (hs_chars facility), Some (hs_chars password), Some (to_string serviceClass), Some (hs_chars appId)])
     (\<lambda>W serial. getFacilityLockForApp W serial facility password serviceClass appId) \<and>
   answers [] ''setFacilityLockForAppResponse'' RIL_REQUEST_SET_FACILITY_LOCK
     (PStrings [Some (hs_chars facility), Some (if lockState then ''1'' else ''0''), Some (hs_chars password), Some (to_string serviceClass), Some (hs_chars appId)])
     (\<lambda>W serial. setFacilityLockForApp W serial facility lockState password serviceClass appId) \<and>
   answers [] ''setBarringPasswordResponse'' RIL_REQUEST_CHANGE_BARRING_PASSWORD
     (PStrings [Some (hs_chars facility), Some (hs_chars oldPassword), Some (hs_chars newPassword)])
     (\<lambda>W serial. setBarringPassword W serial facility oldPassword newPassword) \<and>
   reaches_vendor ''getNetworkSelectionModeResponse'' RIL_REQUEST_QUERY_NETWORK_SELECTION_MODE NoData getNetworkSelectionMode \<and>
   answers [] ''setNetworkSelectionModeAutomaticResponse'' RIL_REQUEST_SET_NETWORK_SELECTION_AUTOMATIC
     (PStrings [])
     setNetworkSelectionModeAutomatic \<and>
   reaches_vendor ''getAvailableNetworksResponse'' RIL_REQUEST_QUERY_AVAILABLE_NETWORKS NoData getAvailableNetworks \<and>
   reaches_vendor ''stopNetworkScanResponse'' RIL_REQUEST_STOP_NETWORK_SCAN NoData stopNetworkScan \<and>
   answers [] ''startDtmfResponse'' RIL_REQUEST_DTMF_START (PString (nullable (hs_chars str))) (\<lambda>W serial. startDtmf W serial str) \<and>
   reaches_vendor ''stopDtmfResponse'' RIL_REQUEST_DTMF_STOP NoData stopDtmf \<and>
   reaches_vendor ''getBasebandVersionResponse'' RIL_REQUEST_BASEBAND_VERSION NoData getBasebandVersion \<and>
   answers [] ''separateConnectionResponse'' RIL_REQUEST_SEPARATE_CONNECTION
     (PInts [gsmIndex])
     (\<lambda>W serial. separateConnection W serial gsmIndex) \<and>
   answers [] ''setMuteResponse'' RIL_REQUEST_SET_MUTE (PInts [if enable then 1 else 0]) (\<lambda>W serial. setMute W serial enable) \<and>
   reaches_vendor ''getMuteResponse'' RIL_REQUEST_GET_MUTE NoData getMute \<and>
   reaches_vendor ''getClipResponse'' RIL_REQUEST_QUERY_CLIP NoData getClip \<and>
   reaches_vendor ''getDataCallListResponse'' RIL_REQUEST_DATA_CALL_LIST NoData getDataCallList \<and>
   answers [] ''setSuppServiceNotificationsResponse'' RIL_REQUEST_SET_SUPP_SVC_NOTIFICATION
     (PInts [if enable then 1 else 0])
     (\<lambda>W serial. setSuppServiceNotifications W serial enable) \<and>
   answers [] ''deleteSmsOnSimResponse'' RIL_REQUEST_DELETE_SMS_ON_SIM (PInts [idx]) (\<lambda>W serial. deleteSmsOnSim W serial idx) \<and>
   answers [] ''setBandModeResponse'' RIL_REQUEST_SET_BAND_MODE (PInts [bandMode]) (\<lambda>W serial. setBandMode W serial bandMode) \<and>
   reaches_vendor ''getAvailableBandModesResponse'' RIL_REQUEST_QUERY_AVAILABLE_BAND_MODE NoData getAvailableBandModes \<and>
   answers [] ''sendEnvelopeResponse'' RIL_REQUEST_STK_SEND_ENVELOPE_COMMAND
     (PString (nullable (hs_chars command)))
     (\<lambda>W serial. sendEnvelope W serial command) \<and>
   answers [] ''sendTerminalResponseToSimResponse'' RIL_REQUEST_STK_SEND_TERMINAL_RESPONSE
     (PString (nullable (hs_chars commandResponse)))
     (\<lambda>W serial. sendTerminalResponseToSim W serial commandResponse) \<and>
   answers [] ''handleStkCallSetupRequestFromSimResponse'' RIL_REQUEST_STK_HANDLE_CALL_SETUP_REQUESTED_FROM_SIM
     (PInts [if accept then 1 else 0])
     (\<lambda>W serial. handleStkCallSetupRequestFromSim W serial accept) \<and>
   reaches_vendor ''explicitCallTransferResponse'' RIL_REQUEST_EXPLICIT_CALL_TRANSFER NoData explicitCallTransfer \<and>
   answers [] ''setPreferredNetworkTypeResponse'' RIL_REQUEST_SET_PREFERRED_NETWORK_TYPE
     (PInts [nwType])
     (\<lambda>W serial. setPreferredNetworkType W serial nwType) \<and>
   reaches_vendor ''getPreferredNetworkTypeResponse'' RIL_REQUEST_GET_PREFERRED_NETWORK_TYPE NoData getPreferredNetworkType \<and>
   reaches_vendor ''getNeighboringCidsResponse'' RIL_REQUEST_GET_NEIGHBORING_CELL_IDS NoData getNeighboringCids \<and>
   answers [] ''setLocationUpdatesResponse'' RIL_REQUEST_SET_LOCATION_UPDATES
     (PInts [if enable then 1 else 0])
     (\<lambda>W serial. setLocationUpdates W serial enable) \<and>
   answers [] ''setCdmaSubscriptionSourceResponse'' RIL_REQUEST_CDMA_SET_SUBSCRIPTION_SOURCE
     (PInts [cdmaSub])
     (\<lambda>W serial. setCdmaSubscriptionSource W serial cdmaSub) \<and>
   answers [] ''setCdmaRoamingPreferenceResponse'' RIL_REQUEST_CDMA_SET_ROAMING_PREFERENCE
     (PInts [type])
     (\<lambda>W serial. setCdmaRoamingPreference W serial type) \<and>
   reaches_vendor ''getCdmaRoamingPreferenceResponse'' RIL_REQUEST_CDMA_QUERY_ROAMING_PREFERENCE NoData getCdmaRoamingPreference \<and>
   answers [] ''setTTYModeResponse'' RIL_REQUEST_SET_TTY_MODE (PInts [bandMode]) (\<lambda>W serial. setTTYMode W serial bandMode) \<and>
   reaches_vendor ''getTTYModeResponse'' RIL_REQUEST_QUERY_TTY_MODE NoData getTTYMode \<and>
   answers [] ''setPreferredVoicePrivacyResponse'' RIL_REQUEST_CDMA_SET_PREFERRED_VOICE_PRIVACY_MODE
     (PInts [if enable then 1 else 0])
     (\<lambda>W serial. setPreferredVoicePrivacy W serial enable) \<and>
   reaches_vendor ''getPreferredVoicePrivacyResponse'' RIL_REQUEST_CDMA_QUERY_PREFERRED_VOICE_PRIVACY_MODE NoData getPreferredVoicePrivacy \<and>
   answers [] ''sendCDMAFeatureCodeResponse'' RIL_REQUEST_CDMA_FLASH
     (PString (nullable (hs_chars featureCode)))
     (\<lambda>W serial. sendCDMAFeatureCode W serial featureCode) \<and>
   answers [] ''sendBurstDtmfResponse'' RIL_REQUEST_CDMA_BURST_DTMF
     (PStrings [nullable (hs_chars dtmf), Some (to_string onArg_int), Some (to_string offLen)])
     (\<lambda>W serial. sendBurstDtmf W serial dtmf onArg_int offLen) \<and>
   reaches_vendor ''getGsmBroadcastConfigResponse'' RIL_REQUEST_GSM_GET_BROADCAST_SMS_CONFIG NoData getGsmBroadcastConfig \<and>
   answers [] ''setGsmBroadcastActivationResponse'' RIL_REQUEST_GSM_SMS_BROADCAST_ACTIVATION
     (PInts [if activate then 0 else 1])
     (\<lambda>W serial. setGsmBroadcastActivation W serial activate) \<and>
   reaches_vendor ''getCdmaBroadcastConfigResponse'' RIL_REQUEST_CDMA_GET_BROADCAST_SMS_CONFIG NoData getCdmaBroadcastConfig \<and>
   answers [] ''setCdmaBroadcastActivationResponse'' RIL_REQUEST_CDMA_SMS_BROADCAST_ACTIVATION
     (PInts [if activate then 0 else 1])
     (\<lambda>W serial. setCdmaBroadcastActivation W serial activate) \<and>
   reaches_vendor ''getCDMASubscriptionResponse'' RIL_REQUEST_CDMA_SUBSCRIPTION NoData getCDMASubscription \<and>
   answers [] ''deleteSmsOnRuimResponse'' RIL_REQUEST_CDMA_DELETE_SMS_ON_RUIM
     (PInts [idx])
     (\<lambda>W serial. deleteSmsOnRuim W serial idx) \<and>
   reaches_vendor ''getDeviceIdentityResponse'' RIL_REQUEST_DEVICE_IDENTITY NoData getDeviceIdentity \<and>
   reaches_vendor ''exitEmergencyCallbackModeResponse'' RIL_REQUEST_EXIT_EMERGENCY_CALLBACK_MODE NoData exitEmergencyCallbackMode \<and>
   reaches_vendor ''getSmscAddressResponse'' RIL_REQUEST_GET_SMSC_ADDRESS NoData getSmscAddress \<and>
   answers [] ''setSmscAddressResponse'' RIL_REQUEST_SET_SMSC_ADDRESS
     (PString (nullable (hs_chars smsc)))
     (\<lambda>W serial. setSmscAddress W serial smsc) \<and>
   answers [] ''reportSmsMemoryStatusResponse'' RIL_REQUEST_REPORT_SMS_MEMORY_STATUS
     (PInts [if available then 1 else 0])
     (\<lambda>W serial. reportSmsMemoryStatus W serial available) \<and>
   reaches_vendor ''reportStkServiceIsRunningResponse'' RIL_REQUEST_REPORT_STK_SERVICE_IS_RUNNING NoData reportStkServiceIsRunning \<and>
   reaches_vendor ''getCdmaSubscriptionSourceResponse'' RIL_REQUEST_CDMA_GET_SUBSCRIPTION_SOURCE NoData getCdmaSubscriptionSource \<and>
   answers [] ''requestIsimAuthenticationResponse'' RIL_REQUEST_ISIM_AUTHENTICATION
     (PString (nullable (hs_chars challenge)))
     (\<lambda>W serial. requestIsimAuthentication W serial challenge) \<and>
   answers [] ''acknowledgeIncomingGsmSmsWithPduResponse'' RIL_REQUEST_ACKNOWLEDGE_INCOMING_GSM_SMS_WITH_PDU
     (PStrings [Some (if success then ''1'' else ''0''), nullable (hs_chars ackPdu)])
     (\<lambda>W serial. acknowledgeIncomingGsmSmsWithPdu W serial success ackPdu) \<and>
   answers [] ''sendEnvelopeWithStatusResponse'' RIL_REQUEST_STK_SEND_ENVELOPE_WITH_STATUS
     (PString (nullable (hs_chars contents)))
     (\<lambda>W serial. sendEnvelopeWithStatus W serial contents) \<and>
   reaches_vendor ''getVoiceRadioTechnologyResponse'' RIL_REQUEST_VOICE_RADIO_TECH NoData getVoiceRadioTechnology \<and>
   reaches_vendor ''getCellInfoListResponse'' RIL_REQUEST_GET_CELL_INFO_LIST NoData getCellInfoList \<and>
   answers [] ''setCellInfoListRateResponse'' RIL_REQUEST_SET_UNSOL_CELL_INFO_LIST_RATE
     (PInts [rate])
     (\<lambda>W serial. setCellInfoListRate W serial rate) \<and>
   reaches_vendor ''getImsRegistrationStateResponse'' RIL_REQUEST_IMS_REGISTRATION_STATE NoData getImsRegistrationState \<and>
   answers [ha_data message_hidlsi] ''iccTransmitApduBasicChannelResponse'' RIL_REQUEST_SIM_TRANSMIT_APDU_BASIC
     (apdu_payload message_hidlsi)
     (\<lambda>W serial. iccTransmitApduBasicChannel W serial message_hidlsi) \<and>
   answers [] ''iccCloseLogicalChannelResponse'' RIL_REQUEST_SIM_CLOSE_CHANNEL
     (PInts [channelId])
     (\<lambda>W serial. iccCloseLogicalChannel W serial channelId) \<and>
   answers [ha_data message_hidlsi] ''iccTransmitApduLogicalChannelResponse'' RIL_REQUEST_SIM_TRANSMIT_APDU_CHANNEL
     (apdu_payload message_hidlsi)
     (\<lambda>W serial. iccTransmitApduLogicalChannel W serial message_hidlsi) \<and>
   reaches_vendor ''nvWriteCdmaPrlResponse'' RIL_REQUEST_NV_WRITE_CDMA_PRL (PRaw prl) (\<lambda>W serial. nvWriteCdmaPrl W serial prl) \<and>
   answers [] ''setDataAllowedResponse'' RIL_REQUEST_ALLOW_DATA
     (PInts [if allow then 1 else 0])
     (\<lambda>W serial. setDataAllowed W serial allow) \<and>
   reaches_vendor ''getHardwareConfigResponse'' RIL_REQUEST_GET_HARDWARE_CONFIG NoData getHardwareConfig \<and>
   reaches_vendor ''requestShutdownResponse'' RIL_REQUEST_SHUTDOWN NoData requestShutdown \<and>
   reaches_vendor ''getRadioCapabilityResponse'' RIL_REQUEST_GET_RADIO_CAPABILITY NoData getRadioCapability \<and>
   answers [] ''startLceServiceResponse'' RIL_REQUEST_START_LCE
     (PInts [reportInterval, if pullMode then 1 else 0])
     (\<lambda>W serial. startLceService W serial reportInterval pullMode) \<and>
   reaches_vendor ''stopLceServiceResponse'' RIL_REQUEST_STOP_LCE NoData stopLceService \<and>
   reaches_vendor ''pullLceDataResponse'' RIL_REQUEST_PULL_LCEDATA NoData pullLceData \<and>
   reaches_vendor ''getModemActivityInfoResponse'' RIL_REQUEST_GET_ACTIVITY_INFO NoData getModemActivityInfo \<and>
   reaches_vendor ''getAllowedCarriersResponse'' RIL_REQUEST_GET_CARRIER_RESTRICTIONS NoData getAllowedCarriers \<and>
   answers [] ''setSimCardPowerResponse'' RIL_REQUEST_SET_SIM_CARD_POWER
     (PInts [if powerUp then 1 else 0])
     (\<lambda>W serial. setSimCardPower W serial powerUp) \<and>
   answers [] ''setSimCardPowerResponse'' RIL_REQUEST_SET_SIM_CARD_POWER
     (PInts [state])
     (\<lambda>W serial. setSimCardPower_1_1 W serial state) \<and>
   reaches_vendor ''sendRequestRawResponse'' RIL_REQUEST_OEM_HOOK_RAW (PRaw data) (\<lambda>W serial. sendRequestRaw W serial data) \<and>
   answers data_hidlst ''sendRequestStringsResponse'' RIL_REQUEST_OEM_HOOK_STRINGS
     (PStrings (map (copied_as False) data_hidlst))
     (\<lambda>W serial. sendRequestStrings W serial data_hidlst)"
  by (simp only: methods_answer_1 methods_answer_2 methods_answer_3 methods_answer_4 methods_answer_5 simp_thms)

theorem methods_answer_witness:
  "\<exists>s'. supplyIccPinForApp W0 5 (hidl_string_of ''1234'') (hidl_string_of '''') svc0 = Some s' \<and> blocks s' = blocks svc0 \<and>
     calls s' = [(RIL_REQUEST_ENTER_SIM_PIN, PStrings [Some ''1234'', Some ''''], 10, 0)]"
proof -
  have "answers [] ''supplyIccPinForAppResponse'' RIL_REQUEST_ENTER_SIM_PIN (PStrings [Some (hs_chars pin), Some (hs_chars aid)])
      (\<lambda>W serial. supplyIccPinForApp W serial pin aid)" for pin aid
    by (rule methods_answer [THEN conjunct2, THEN conjunct1])
  from this [of "hidl_string_of ''1234''" "hidl_string_of ''''"] obtain s' where
    s': "supplyIccPinForApp W0 5 (hidl_string_of ''1234'') (hidl_string_of '''') svc0 = Some s'" "blocks s' = blocks svc0"
      "outcome_in (copy_errors W0 []) W0 5 RIL_REQUEST_ENTER_SIM_PIN ''supplyIccPinForAppResponse''
         (Some (PStrings [Some ''1234'', Some ''''])) svc0 s'"
    unfolding answers_in_def using svc0_simps(5) W0_simps(11) by (metis hidl_string_of_simps(2))
  have "copy_errors W0 [] = {}" by (simp add: copy_errors_def)
  then show ?thesis
    using s' add_registered [of RIL_REQUEST_ENTER_SIM_PIN 5 0] by (auto simp: outcome_in_def req_consts)
qed

end
