(* ===== verification/RadioMethods.thy ===== *)
theory RadioMethods
  imports RadioApi
begin

text \<open>
  The methods of \<open>RadioImpl\<close> (\<open>libril/ril_service.cpp\<close>) that build a structure for the vendor: calls, data
  calls, SIM access, SMS, broadcast configuration, network selection, authentication and keepalive.
  The sizes of the arrays of \<open>ril_cdma_sms.h\<close>, which is not part of the repository, are fields of
  the environment. Array elements after the copied ones are 0 and are not kept.
\<close>

section \<open>Calls and data calls\<close>

definition dial :: "radio_env \<Rightarrow> int \<Rightarrow> hidl_dial \<Rightarrow> svc \<Rightarrow> svc option" where
  "dial W serial dialInfo s = discard (with_request W serial RIL_REQUEST_DIAL (\<lambda>pRI s. do {
     (a, s1) \<leftarrow> copyHidlStringToRil W (hd_address dialInfo) pRI False s;
     case a of None \<Rightarrow> Some (False, s1) | Some address \<Rightarrow>
       (case hd_uusInfo dialInfo of
          [] \<Rightarrow> do {
            c \<leftarrow> str_at s1 address;
            s2 \<leftarrow> CALL_ONREQUEST W RIL_REQUEST_DIAL
              (PDial \<lparr>dial_address = c, dial_clir = hd_clir dialInfo, dial_uusInfo = None\<rparr>) pRI (mSlotId W) s1;
            s3 \<leftarrow> memsetAndFreeStrings [address, None] s2;
            Some (True, s3) }
        | u # _ \<Rightarrow> do {
            (d, s2) \<leftarrow> (if hs_size (hu_data u) = 0 then Some (Some None, s1)
                        else copyHidlStringToRil W (hu_data u) pRI False s1);
            case d of
              None \<Rightarrow> do { s3 \<leftarrow> memsetAndFreeStrings [address] s2; Some (False, s3) }
            | Some data \<Rightarrow> do {
                c \<leftarrow> str_at s2 address;
                uus \<leftarrow> str_at s2 data;
                s3 \<leftarrow> CALL_ONREQUEST W RIL_REQUEST_DIAL
                  (PDial \<lparr>dial_address = c, dial_clir = hd_clir dialInfo,
                     dial_uusInfo = Some \<lparr>uusType = hu_type u, uusDcs = hu_dcs u,
                       uusLength = int (hs_size (hu_data u)), uusData = uus\<rparr>\<rparr>) pRI (mSlotId W) s2;
                s4 \<leftarrow> memsetAndFreeStrings [address, data] s3;
                Some (True, s4) } }) }) s)"

definition convertMvnoTypeToString :: "mvno_type \<Rightarrow> string option" where
  "convertMvnoTypeToString type =
     (case type of MvnoIMSI \<Rightarrow> Some ''imsi'' | MvnoGID \<Rightarrow> Some ''gid'' | MvnoSPN \<Rightarrow> Some ''spn''
      | MvnoNONE \<Rightarrow> Some '''' | MvnoOther _ \<Rightarrow> None)"

text \<open>Enter the request only to answer it with an error.\<close>

definition reject_request :: "radio_env \<Rightarrow> int \<Rightarrow> int \<Rightarrow> int \<Rightarrow> svc \<Rightarrow> svc option" where
  "reject_request W serial request e s = discard (with_request W serial request (\<lambda>pRI s. do {
     s1 \<leftarrow> sendErrorResponse (Some pRI) e s;
     Some (False, s1) }) s)"

definition setupDataCall ::
  "radio_env \<Rightarrow> int \<Rightarrow> int \<Rightarrow> hidl_data_profile \<Rightarrow> bool \<Rightarrow> bool \<Rightarrow> bool \<Rightarrow> svc \<Rightarrow> svc option" where
  "setupDataCall W serial radioTechnology p modemCognitive roamingAllowed isRoaming s =
     (if version (rild s) \<ge> 4 \<and> version (rild s) \<le> 14 then
        (let protocol = (if isRoaming then hp_roamingProtocol p else hp_protocol p)
         in discard (dispatchStrings W serial RIL_REQUEST_SETUP_DATA_CALL True
              [to_string (radioTechnology + 2), to_string (hp_profileId p), hs_chars (hp_apn p),
               hs_chars (hp_user p), hs_chars (hp_password p), to_string (hp_authType p), hs_chars protocol] s))
      else if version (rild s) \<ge> 15 then
        (case convertMvnoTypeToString (hp_mvnoType p) of
           None \<Rightarrow> reject_request W serial RIL_REQUEST_SETUP_DATA_CALL RIL_E_INVALID_ARGUMENTS s
         | Some mvnoTypeStr \<Rightarrow>
             discard (dispatchStrings W serial RIL_REQUEST_SETUP_DATA_CALL True
               [to_string (radioTechnology + 2), to_string (hp_profileId p), hs_chars (hp_apn p),
                hs_chars (hp_user p), hs_chars (hp_password p), to_string (hp_authType p),
                hs_chars (hp_protocol p), hs_chars (hp_roamingProtocol p),
                to_string (hp_supportedApnTypesBitmap p), to_string (hp_bearerBitmap p),
                (if modemCognitive then ''1'' else ''0''), to_string (hp_mtu p), mvnoTypeStr,
                hs_chars (hp_mvnoMatchData p), (if roamingAllowed then ''1'' else ''0'')] s))
      else reject_request W serial RIL_REQUEST_SETUP_DATA_CALL RIL_E_REQUEST_NOT_SUPPORTED s)"

definition setInitialAttachApn :: "radio_env \<Rightarrow> int \<Rightarrow> hidl_data_profile \<Rightarrow> bool \<Rightarrow> bool \<Rightarrow> svc \<Rightarrow> svc option" where
  "setInitialAttachApn W serial p modemCognitive isRoaming s =
     discard (with_request W serial RIL_REQUEST_SET_INITIAL_ATTACH_APN (\<lambda>pRI s.
       if version (rild s) \<le> 14 then
         with_strings W
           [(hp_apn p, True), (if isRoaming then hp_roamingProtocol p else hp_protocol p, False),
            (hp_user p, False), (hp_password p, False)] pRI
           (call_with_strings W RIL_REQUEST_SET_INITIAL_ATTACH_APN
              (\<lambda>cs. PAttachApn \<lparr>ia_apn = cs ! 0, ia_protocol = cs ! 1, ia_authtype = hp_authType p,
                 ia_username = cs ! 2, ia_password = cs ! 3\<rparr>) pRI) s
       else
         with_strings W
           [(hp_apn p, True), (hp_protocol p, False), (hp_roamingProtocol p, False), (hp_user p, False),
            (hp_password p, False)] pRI
           (\<lambda>ps s.
              case convertMvnoTypeToString (hp_mvnoType p) of
                None \<Rightarrow> do {
                  s1 \<leftarrow> sendErrorResponse (Some pRI) RIL_E_INVALID_ARGUMENTS s;
                  s2 \<leftarrow> memsetAndFreeStrings ps s1;
                  Some (False, s2) }
              | Some mvno \<Rightarrow> do {
                  (m, s1) \<leftarrow> copyHidlStringToRil W (hp_mvnoMatchData p) pRI False s;
                  case m of
                    None \<Rightarrow> do { s2 \<leftarrow> memsetAndFreeStrings ps s1; Some (False, s2) }
                  | Some mvnoMatchData \<Rightarrow>
                      call_with_strings W RIL_REQUEST_SET_INITIAL_ATTACH_APN
                        (\<lambda>cs. PAttachApn15 \<lparr>ia_apn = cs ! 0, ia_protocol = cs ! 1,
                           ia_authtype = hp_authType p, ia_username = cs ! 3, ia_password = cs ! 4,
                           ia_roamingProtocol = cs ! 2,
                           ia_supportedTypesBitmask = hp_supportedApnTypesBitmap p,
                           ia_bearerBitmask = hp_bearerBitmap p,
                           ia_modemCognitive = BOOL_TO_INT modemCognitive, ia_mtu = hp_mtu p,
                           ia_mvnoType = Some mvno, ia_mvnoMatchData = cs ! 5\<rparr>)
                        pRI (ps @ [mvnoMatchData]) s1 }) s) s)"

section \<open>SIM access\<close>

definition iccIOForApp :: "radio_env \<Rightarrow> int \<Rightarrow> hidl_icc_io \<Rightarrow> svc \<Rightarrow> svc option" where
  "iccIOForApp W serial iccIo s = discard (with_request W serial RIL_REQUEST_SIM_IO (\<lambda>pRI.
     with_strings W [(hi_path iccIo, False), (hi_data iccIo, False), (hi_pin2 iccIo, False), (hi_aid iccIo, False)] pRI
       (call_with_strings W RIL_REQUEST_SIM_IO
          (\<lambda>cs. PSimIo \<lparr>io_cla = 0, io_command = hi_command iccIo, io_fileid = hi_fileId iccIo,
             io_path = cs ! 0, io_p1 = hi_p1 iccIo, io_p2 = hi_p2 iccIo, io_p3 = hi_p3 iccIo,
             io_data = cs ! 1, io_pin2 = cs ! 2, io_aidPtr = cs ! 3\<rparr>) pRI)) s)"

definition iccOpenLogicalChannel :: "radio_env \<Rightarrow> int \<Rightarrow> hidl_string \<Rightarrow> int \<Rightarrow> svc \<Rightarrow> svc option" where
  "iccOpenLogicalChannel W serial aid p2 s =
     (if version (rild s) < 15 then discard (dispatchString W serial RIL_REQUEST_SIM_OPEN_CHANNEL (hs_chars aid) s)
      else discard (with_request W serial RIL_REQUEST_SIM_OPEN_CHANNEL (\<lambda>pRI.
             with_strings W [(aid, False)] pRI
               (call_with_strings W RIL_REQUEST_SIM_OPEN_CHANNEL
                  (\<lambda>cs. POpenChannel \<lparr>oc_aidPtr = cs ! 0, oc_p2 = p2\<rparr>) pRI)) s))"

definition nvReadItem :: "radio_env \<Rightarrow> int \<Rightarrow> int \<Rightarrow> svc \<Rightarrow> svc option" where
  "nvReadItem W serial itemId s = discard (with_request W serial RIL_REQUEST_NV_READ_ITEM (\<lambda>pRI s. do {
     s1 \<leftarrow> CALL_ONREQUEST W RIL_REQUEST_NV_READ_ITEM (PNvRead itemId) pRI (mSlotId W) s;
     Some (True, s1) }) s)"

definition nvWriteItem :: "radio_env \<Rightarrow> int \<Rightarrow> int \<Rightarrow> hidl_string \<Rightarrow> svc \<Rightarrow> svc option" where
  "nvWriteItem W serial itemId val s = discard (with_request W serial RIL_REQUEST_NV_WRITE_ITEM (\<lambda>pRI.
     with_strings W [(val, False)] pRI
       (call_with_strings W RIL_REQUEST_NV_WRITE_ITEM (\<lambda>cs. PNvWrite itemId (cs ! 0)) pRI)) s)"

definition nvResetConfig :: "radio_env \<Rightarrow> int \<Rightarrow> reset_nv_type \<Rightarrow> svc \<Rightarrow> svc option" where
  "nvResetConfig W serial resetType s =
     (let rilResetType = (case resetType of NvRELOAD \<Rightarrow> 1 | NvERASE \<Rightarrow> 2 | NvFACTORY_RESET \<Rightarrow> 3 | NvOther _ \<Rightarrow> -1)
      in discard (dispatchInts W serial RIL_REQUEST_NV_RESET_CONFIG [rilResetType] s))"

definition setUiccSubscription :: "radio_env \<Rightarrow> int \<Rightarrow> int \<Rightarrow> int \<Rightarrow> int \<Rightarrow> int \<Rightarrow> svc \<Rightarrow> svc option" where
  "setUiccSubscription W serial slot appIndex subType actStatus s =
     discard (with_request W serial RIL_REQUEST_SET_UICC_SUBSCRIPTION (\<lambda>pRI s. do {
       s1 \<leftarrow> CALL_ONREQUEST W RIL_REQUEST_SET_UICC_SUBSCRIPTION
         (PUiccSub \<lparr>su_slot = slot, su_app_index = appIndex, su_sub_type = subType, su_act_status = actStatus\<rparr>)
         pRI (mSlotId W) s;
       Some (True, s1) }) s)"

definition requestIccSimAuthentication ::
  "radio_env \<Rightarrow> int \<Rightarrow> int \<Rightarrow> hidl_string \<Rightarrow> hidl_string \<Rightarrow> svc \<Rightarrow> svc option" where
  "requestIccSimAuthentication W serial authContext authData aid s =
     discard (with_request W serial RIL_REQUEST_SIM_AUTHENTICATION (\<lambda>pRI.
       with_strings W [(authData, False), (aid, False)] pRI
         (call_with_strings W RIL_REQUEST_SIM_AUTHENTICATION
            (\<lambda>cs. PSimAuth \<lparr>sa_authContext = authContext, sa_authData = cs ! 0, sa_aid = cs ! 1\<rparr>) pRI)) s)"

section \<open>Messages\<close>

definition writeSmsToSim :: "radio_env \<Rightarrow> int \<Rightarrow> hidl_sms_write \<Rightarrow> svc \<Rightarrow> svc option" where
  "writeSmsToSim W serial args s = discard (with_request W serial RIL_REQUEST_WRITE_SMS_TO_SIM (\<lambda>pRI.
     with_strings W [(hw_pdu args, False), (hw_smsc args, False)] pRI
       (call_with_strings W RIL_REQUEST_WRITE_SMS_TO_SIM
          (\<lambda>cs. PSmsWrite \<lparr>wa_status = hw_status args, wa_pdu = cs ! 0, wa_smsc = cs ! 1\<rparr>) pRI)) s)"

text \<open>
  \<open>number_of_digits\<close> is an unsigned character that gets the number of digits, the digits are copied
  up to the minimum of it and of the size of the array.
\<close>

definition constructCdmaSms :: "radio_env \<Rightarrow> hidl_cdma_sms \<Rightarrow> RIL_CDMA_SMS_Message" where
  "constructCdmaSms W sms =
     (let number_of_digits = (word_of_nat (length (hs_digits sms)) :: u8);
          digitLimit = min (unat number_of_digits) (ADDRESS_MAX W);
          sub_number = (word_of_nat (length (hs_subDigits sms)) :: u8);
          subLimit = min (unat sub_number) (SUBADDRESS_MAX W);
          dataLimit = min (length (hs_bearerData sms)) (BEARER_DATA_MAX W)
      in \<lparr>cd_uTeleserviceID = hs_teleserviceId sms, cd_bIsServicePresent = BOOL_TO_INT (hs_isServicePresent sms),
          cd_uServicecategory = hs_serviceCategory sms, cd_digit_mode = hs_digitMode sms,
          cd_number_mode = hs_numberMode sms, cd_number_type = hs_numberType sms, cd_number_plan = hs_numberPlan sms,
          cd_number_of_digits = number_of_digits,
          cd_digits = map (\<lambda>i. hs_digits sms ! i) [0..<digitLimit],
          cd_subaddressType = hs_subaddressType sms, cd_odd = BOOL_TO_INT (hs_odd sms),
          cd_sub_number_of_digits = sub_number,
          cd_subDigits = map (\<lambda>i. hs_subDigits sms ! i) [0..<subLimit],
          cd_uBearerDataLen = int (length (hs_bearerData sms)),
          cd_aBearerData = map (\<lambda>i. hs_bearerData sms ! i) [0..<dataLimit]\<rparr>)"

text \<open>The methods that hand a structure without strings over.\<close>

definition send_struct :: "radio_env \<Rightarrow> int \<Rightarrow> int \<Rightarrow> payload \<Rightarrow> svc \<Rightarrow> svc option" where
  "send_struct W serial request b s = discard (with_request W serial request (\<lambda>pRI s. do {
     s1 \<leftarrow> CALL_ONREQUEST W request b pRI (mSlotId W) s;
     Some (True, s1) }) s)"

definition sendCdmaSms :: "radio_env \<Rightarrow> int \<Rightarrow> hidl_cdma_sms \<Rightarrow> svc \<Rightarrow> svc option" where
  "sendCdmaSms W serial sms = send_struct W serial RIL_REQUEST_CDMA_SEND_SMS (PCdmaSms (constructCdmaSms W sms))"

definition acknowledgeLastIncomingCdmaSms :: "radio_env \<Rightarrow> int \<Rightarrow> int \<Rightarrow> int \<Rightarrow> svc \<Rightarrow> svc option" where
  "acknowledgeLastIncomingCdmaSms W serial errorClass smsCauseCode =
     send_struct W serial RIL_REQUEST_CDMA_SMS_ACKNOWLEDGE (PCdmaAck errorClass smsCauseCode)"

definition setGsmBroadcastConfig :: "radio_env \<Rightarrow> int \<Rightarrow> hidl_gsm_broadcast list \<Rightarrow> svc \<Rightarrow> svc option" where
  "setGsmBroadcastConfig W serial configInfo =
     send_struct W serial RIL_REQUEST_GSM_SET_BROADCAST_SMS_CONFIG
       (PGsmBroadcast (map (\<lambda>c. \<lparr>gb_fromServiceId = hb_fromServiceId c, gb_toServiceId = hb_toServiceId c,
          gb_fromCodeScheme = hb_fromCodeScheme c, gb_toCodeScheme = hb_toCodeScheme c,
          gb_selected = word_of_int (BOOL_TO_INT (hb_selected c))\<rparr>) configInfo))"

definition setCdmaBroadcastConfig :: "radio_env \<Rightarrow> int \<Rightarrow> hidl_cdma_broadcast list \<Rightarrow> svc \<Rightarrow> svc option" where
  "setCdmaBroadcastConfig W serial configInfo =
     send_struct W serial RIL_REQUEST_CDMA_SET_BROADCAST_SMS_CONFIG
       (PCdmaBroadcast (map (\<lambda>c. (hx_serviceCategory c, hx_language c, BOOL_TO_INT (hx_selected c))) configInfo))"

definition writeSmsToRuim :: "radio_env \<Rightarrow> int \<Rightarrow> int \<Rightarrow> hidl_cdma_sms \<Rightarrow> svc \<Rightarrow> svc option" where
  "writeSmsToRuim W serial st message =
     send_struct W serial RIL_REQUEST_CDMA_WRITE_SMS_TO_RUIM (PCdmaWrite st (constructCdmaSms W message))"

definition RADIO_TECH_3GPP :: int where "RADIO_TECH_3GPP = 1"
definition RADIO_TECH_3GPP2 :: int where "RADIO_TECH_3GPP2 = 2"

text \<open>
  The request is already entered; the array of two pointers is allocated, filled and freed as in
  \<open>dispatchStrings\<close>.
\<close>

definition dispatchImsGsmSms :: "radio_env \<Rightarrow> hidl_ims_sms \<Rightarrow> addr \<Rightarrow> svc \<Rightarrow> (bool \<times> svc) option" where
  "dispatchImsGsmSms W message pRI s =
     (case hm_gsmMessage message of
        [m] \<Rightarrow>
          send_strings W RIL_REQUEST_IMS_SEND_SMS
            (\<lambda>cs. PImsGsm (BOOL_TO_INT (hm_retry message)) (hm_messageRef message) cs)
            False [hg_smscPdu m, hg_pdu m] pRI s
      | _ \<Rightarrow> do { s1 \<leftarrow> sendErrorResponse (Some pRI) RIL_E_INVALID_ARGUMENTS s; Some (False, s1) })"

definition dispatchImsCdmaSms :: "radio_env \<Rightarrow> hidl_ims_sms \<Rightarrow> addr \<Rightarrow> svc \<Rightarrow> (bool \<times> svc) option" where
  "dispatchImsCdmaSms W message pRI s =
     (case hm_cdmaMessage message of
        [m] \<Rightarrow> do {
          s1 \<leftarrow> CALL_ONREQUEST W RIL_REQUEST_IMS_SEND_SMS
            (PImsCdma (BOOL_TO_INT (hm_retry message)) (hm_messageRef message) (constructCdmaSms W m)) pRI (mSlotId W) s;
          Some (True, s1) }
      | _ \<Rightarrow> do { s1 \<leftarrow> sendErrorResponse (Some pRI) RIL_E_INVALID_ARGUMENTS s; Some (False, s1) })"

definition sendImsSms :: "radio_env \<Rightarrow> int \<Rightarrow> hidl_ims_sms \<Rightarrow> svc \<Rightarrow> svc option" where
  "sendImsSms W serial message s = discard (with_request W serial RIL_REQUEST_IMS_SEND_SMS (\<lambda>pRI s.
     if RADIO_TECH_3GPP = hm_tech message then dispatchImsGsmSms W message pRI s
     else if RADIO_TECH_3GPP2 = hm_tech message then dispatchImsCdmaSms W message pRI s
     else do { s1 \<leftarrow> sendErrorResponse (Some pRI) RIL_E_INVALID_ARGUMENTS s; Some (False, s1) }) s)"

section \<open>Network, device and keepalive\<close>

text \<open>The characters of \<open>std::string opNum = operatorNumeric; opNum.append("+")\<close> up to the first NUL.\<close>

definition setNetworkSelectionModeManual :: "radio_env \<Rightarrow> int \<Rightarrow> hidl_string \<Rightarrow> svc \<Rightarrow> svc option" where
  "setNetworkSelectionModeManual W serial operatorNumeric s =
     (let opNum = (if \<not> OLD_MNC_FORMAT W then hs_chars operatorNumeric
                   else if length (hs_chars operatorNumeric) < hs_size operatorNumeric then hs_chars operatorNumeric
                   else take (hs_size operatorNumeric) (hs_chars operatorNumeric) @ ''+'')
      in discard (dispatchStrings W serial RIL_REQUEST_SET_NETWORK_SELECTION_MANUAL True [opNum] s))"

text \<open>Two methods answer with an error without a test whether the request could be entered.\<close>

definition reject_unchecked :: "radio_env \<Rightarrow> int \<Rightarrow> int \<Rightarrow> int \<Rightarrow> svc \<Rightarrow> svc option" where
  "reject_unchecked W serial request e s = do {
     (pRI, s1) \<leftarrow> addRequest W serial request s;
     sendErrorResponse pRI e s1 }"

definition sendDeviceState :: "radio_env \<Rightarrow> int \<Rightarrow> int \<Rightarrow> bool \<Rightarrow> svc \<Rightarrow> svc option" where
  "sendDeviceState W serial deviceStateType st s =
     (if version (rild s) < 15 then
        if deviceStateType = LOW_DATA_EXPECTED W
        then discard (dispatchInts W serial RIL_REQUEST_SCREEN_STATE [BOOL_TO_INT (\<not> st)] s)
        else reject_unchecked W serial RIL_REQUEST_SEND_DEVICE_STATE RIL_E_REQUEST_NOT_SUPPORTED s
      else discard (dispatchInts W serial RIL_REQUEST_SEND_DEVICE_STATE [deviceStateType, BOOL_TO_INT st] s))"

definition setIndicationFilter :: "radio_env \<Rightarrow> int \<Rightarrow> int \<Rightarrow> svc \<Rightarrow> svc option" where
  "setIndicationFilter W serial indicationFilter s =
     (if version (rild s) < 15
      then reject_unchecked W serial RIL_REQUEST_SET_UNSOLICITED_RESPONSE_FILTER RIL_E_REQUEST_NOT_SUPPORTED s
      else discard (dispatchInts W serial RIL_REQUEST_SET_UNSOLICITED_RESPONSE_FILTER [indicationFilter] s))"

text \<open>The key is an array from \<open>new\<close>; only it is freed after the call.\<close>

definition setCarrierInfoForImsiEncryption :: "radio_env \<Rightarrow> int \<Rightarrow> hidl_imsi_encryption \<Rightarrow> svc \<Rightarrow> svc option" where
  "setCarrierInfoForImsiEncryption W serial data s =
     discard (with_request W serial RIL_REQUEST_SET_CARRIER_INFO_IMSI_ENCRYPTION (\<lambda>pRI.
       with_strings W [(he_mnc data, False), (he_mcc data, False), (he_keyIdentifier data, False)] pRI
         (\<lambda>ps s.
            case new_block W (Bytes (he_carrierKey data)) s of
              (None, _) \<Rightarrow> None
            | (Some key, s1) \<Rightarrow> do {
                cs \<leftarrow> strs_at s1 ps;
                s2 \<leftarrow> CALL_ONREQUEST W RIL_REQUEST_SET_CARRIER_INFO_IMSI_ENCRYPTION
                  (PImsiEncryption \<lparr>ie_mcc = cs ! 1, ie_mnc = cs ! 0, ie_carrierKey = he_carrierKey data,
                     ie_carrierKeyLength = int (length (he_carrierKey data)), ie_keyIdentifier = cs ! 2,
                     ie_expirationTime = he_expirationTime data\<rparr>) pRI (mSlotId W) s1;
                s3 \<leftarrow> free_block key s2;
                Some (True, s3) })) s)"

definition NATT_IPV4 :: int where "NATT_IPV4 = 0"
definition NATT_IPV6 :: int where "NATT_IPV6 = 1"

definition startKeepalive :: "radio_env \<Rightarrow> int \<Rightarrow> hidl_keepalive \<Rightarrow> svc \<Rightarrow> svc option" where
  "startKeepalive W serial k s = discard (with_request W serial RIL_REQUEST_START_KEEPALIVE (\<lambda>pRI s.
     let invalid = do { s1 \<leftarrow> sendErrorResponse (Some pRI) RIL_E_INVALID_ARGUMENTS s; Some (False, s1) };
         send = do {
           s1 \<leftarrow> CALL_ONREQUEST W RIL_REQUEST_START_KEEPALIVE
             (PKeepalive \<lparr>ka_type = hk_type k, ka_sourceAddress = hk_sourceAddress k,
                ka_sourcePort = hk_sourcePort k, ka_destinationAddress = hk_destinationAddress k,
                ka_destinationPort = hk_destinationPort k, ka_maxKeepaliveIntervalMillis = hk_interval k,
                ka_cid = hk_cid k\<rparr>) pRI (mSlotId W) s;
           Some (True, s1) }
     in if hk_type k = NATT_IPV4 then
          if length (hk_sourceAddress k) \<noteq> 4 \<or> length (hk_destinationAddress k) \<noteq> 4 then invalid else send
        else if hk_type k = NATT_IPV6 then
          if length (hk_sourceAddress k) \<noteq> 16 \<or> length (hk_destinationAddress k) \<noteq> 16 then invalid else send
        else invalid) s)"

definition stopKeepalive :: "radio_env \<Rightarrow> int \<Rightarrow> int \<Rightarrow> svc \<Rightarrow> svc option" where
  "stopKeepalive W serial sessionHandle = send_struct W serial RIL_REQUEST_STOP_KEEPALIVE (PInts [sessionHandle])"

definition responseAcknowledgement :: "svc \<Rightarrow> svc option" where
  "responseAcknowledgement s = map_option (\<lambda>r. s\<lparr>rild := r\<rparr>) (releaseWakeLock (rild s))"

section \<open>The methods answer\<close>

lemma add_version: "addRequestToList en serial slot request s = Some (p, r) \<Longrightarrow> version r = version s"
  by (auto simp: addRequestToList_def Let_def calloc_def emit_def set_link_def split: if_splits option.splits)

lemma answers_body:
  assumes body: "\<And>W q t s. heap_ok t \<Longrightarrow> answerable q (rild t) \<Longrightarrow> vendor_returns W \<Longrightarrow> version (rild t) = version (rild s) \<Longrightarrow>
      \<exists>b ok s'. body W q t = Some (ok, s') \<and> (ok \<longrightarrow> d W s = Some b) \<and> delivers_in (E W s) W request b q t ok s'"
    and m: "\<And>W serial s. m W serial s = discard (with_request W serial request (body W) s)"
    and row: "0 \<le> request" "request < 146" "map responseFunction s_commands ! nat request = Some name"
  shows "answers_in E name request d m"
  unfolding answers_in_def
proof (intro allI impI)
  fix W serial s assume env: "heap_ok s \<and> vendor_returns W"
  have n: "responseFunction (s_commands ! nat request) = Some name"
    using row by (simp add: length_s_commands)
  from add_answerable [OF answered_row [OF row(1,2) n], of "add_env W" serial "mSlotId W" "rild s"] obtain p r where
    a: "addRequestToList (add_env W) serial (mSlotId W) request (rild s) = Some (p, r)" "\<forall>q. p = Some q \<longrightarrow> answerable q r"
    by blast
  have "\<exists>b ok s'. with_request W serial request (body W) s = Some (ok, s') \<and> (ok \<longrightarrow> d W s = Some b) \<and>
      handled_in (E W s) W serial request b s ok s'"
  proof (cases p)
    case None
    with a show ?thesis
      by (intro exI [of _ NoData] exI [of _ False] exI [of _ "s\<lparr>rild := r\<rparr>"])
        (simp add: with_request_def addRequest_def handled_in_def)
  next
    case (Some q)
    have "heap_ok (s\<lparr>rild := r\<rparr>)" "answerable q (rild (s\<lparr>rild := r\<rparr>))"
      using env a(2) Some by (simp_all add: heap_ok_def)
    from body [OF this env [THEN conjunct2], of s] add_version [OF a(1)] obtain b ok s' where
      "body W q (s\<lparr>rild := r\<rparr>) = Some (ok, s')" "ok \<longrightarrow> d W s = Some b"
      "delivers_in (E W s) W request b q (s\<lparr>rild := r\<rparr>) ok s'" by auto
    with a Some show ?thesis
      by (intro exI [of _ b] exI [of _ ok] exI [of _ s']) (simp add: with_request_def addRequest_def handled_in_def)
  qed
  then obtain b ok s' where
    r: "with_request W serial request (body W) s = Some (ok, s')" "ok \<Longrightarrow> d W s = Some b" and
    h: "handled_in (E W s) W serial request b s ok s'" by blast
  have "m W serial s = Some s'" using r(1) by (simp add: m discard_def)
  with handled_answers [OF h r(2) n env [THEN conjunct1]] n
  show "\<exists>s'. m W serial s = Some s' \<and> blocks s' = blocks s \<and> heap_ok s' \<and>
      responseFunction (s_commands ! nat request) = Some name \<and> outcome_in (E W s) W serial request name (d W s) s s'"
    by blast
qed

text \<open>Bodies: a call without strings, a call with strings, an error. The payload that is expected is \<open>d\<close>.\<close>

lemma body_struct:
  assumes "heap_ok t" "vendor_returns W" "d = Some b"
  shows "\<exists>b' ok s'. do { s1 \<leftarrow> CALL_ONREQUEST W request b q (mSlotId W) t; Some (True, s1) } = Some (ok, s') \<and>
    (ok \<longrightarrow> d = Some b') \<and> delivers_in E W request b' q t ok s'"
proof -
  from send_plain_ok [OF assms(1,2), where request = request and d = b and p = q and E = E] obtain s' where
    "CALL_ONREQUEST W request b q (mSlotId W) t = Some s'" "delivers_in E W request b q t True s'" by blast
  then show ?thesis using assms(3) by (intro exI [of _ b] exI [of _ True] exI [of _ s']) simp
qed

lemma body_strings:
  assumes "heap_ok t" "answerable q (rild t)" "vendor_returns W" "copy_errors W (map fst fs) \<subseteq> E"
    and "d = Some (f (map (\<lambda>(src, ae). copied_as ae src) fs))"
  shows "\<exists>b ok s'. with_strings W fs q (call_with_strings W request f q) t = Some (ok, s') \<and>
    (ok \<longrightarrow> d = Some b) \<and> delivers_in E W request b q t ok s'"
proof -
  from with_strings_ok [OF assms(1-3), of fs request f] obtain ok s' where
    "with_strings W fs q (call_with_strings W request f q) t = Some (ok, s')"
    "delivers (map fst fs) W request (f (map (\<lambda>(src, ae). copied_as ae src) fs)) q t ok s'" by blast
  then show ?thesis using delivers_mono [OF _ assms(4)] assms(5) by blast
qed

lemma body_error:
  assumes "heap_ok t" "answerable q (rild t)" "e \<in> E"
  shows "\<exists>b ok s'. do { s1 \<leftarrow> sendErrorResponse (Some q) e t; Some (False, s1) } = Some (ok, s') \<and>
    (ok \<longrightarrow> d = Some b) \<and> delivers_in E W request b q t ok s'"
proof -
  from respond_error_total [OF assms(2)] obtain r where r: "respond_error q e (rild t) = Some r" by blast
  have "delivers_in E W request NoData q t False (t\<lparr>rild := r\<rparr>)"
    by (rule deliversI_error [where e = e]) (use heap_ext_refl [OF assms(1)] r assms(3) in simp_all)
  with r show ?thesis
    by (intro exI [of _ NoData] exI [of _ False] exI [of _ "t\<lparr>rild := r\<rparr>"]) (simp add: sendErrorResponse_def)
qed

lemma body_send_strings:
  assumes "heap_ok t" "answerable q (rild t)" "vendor_returns W" "copy_errors W strs \<subseteq> E"
    and "d = Some (f (map (copied_as ae) strs))"
  shows "\<exists>b ok s'. send_strings W request f ae strs q t = Some (ok, s') \<and> (ok \<longrightarrow> d = Some b) \<and>
    delivers_in E W request b q t ok s'"
  using send_strings_ok [OF assms(1-3), of request f ae strs] delivers_mono [OF _ assms(4)] assms(5) by blast

lemma answers_struct:
  assumes "\<And>W serial s. m W serial s = send_struct W serial request (b W) s"
    and "0 \<le> request" "request < 146" "map responseFunction s_commands ! nat request = Some name" "\<And>W. d W = Some (b W)"
  shows "answers_in (\<lambda>_ _. {}) name request (\<lambda>W _. d W) m"
proof (rule answers_body [OF _ _ assms(2-4)])
  show "m W serial s = discard (with_request W serial request
      (\<lambda>pRI s. do { s1 \<leftarrow> CALL_ONREQUEST W request (b W) pRI (mSlotId W) s; Some (True, s1) }) s)" for W serial s
    by (simp only: assms(1) send_struct_def)
qed (rule body_struct [OF _ _ assms(5)])

lemma answers_with_strings:
  assumes "\<And>W serial s. m W serial s = discard (with_request W serial request
      (\<lambda>pRI. with_strings W fs pRI (call_with_strings W request f pRI)) s)"
    and "0 \<le> request" "request < 146" "map responseFunction s_commands ! nat request = Some name"
    and "strs = map fst fs" "d = f (map (\<lambda>(src, ae). copied_as ae src) fs)"
  shows "answers strs name request d m"
proof (rule answers_body [OF _ assms(1-4)])
  fix W q t
  assume env: "heap_ok t" "answerable q (rild t)" "vendor_returns W"
  show "\<exists>b ok s'. with_strings W fs q (call_with_strings W request f q) t = Some (ok, s') \<and> (ok \<longrightarrow> Some d = Some b) \<and>
      delivers_in (copy_errors W strs) W request b q t ok s'"
    by (rule body_strings [OF env]) (simp_all only: assms(5,6) subset_refl)
qed

lemma outcome_mono: "outcome_in E W serial request name d s s' \<Longrightarrow> E \<subseteq> F \<Longrightarrow> outcome_in F W serial request name d s s'"
  unfolding outcome_in_def by (fastforce split: option.splits)

text \<open>A method that is one of several, depending on the state.\<close>

lemma answers_choice:
  assumes "\<And>W serial s. \<exists>E' d' m'. answers_in E' name request d' m' \<and> E' W s \<subseteq> E W s \<and> d' W s = d W s \<and>
    m W serial s = m' W serial s"
  shows "answers_in E name request d m"
  unfolding answers_in_def
proof (intro allI impI)
  fix W serial s assume env: "heap_ok s \<and> vendor_returns W"
  from assms obtain E' d' m' where
    a: "answers_in E' name request d' m'" and c: "E' W s \<subseteq> E W s" "d' W s = d W s" "m W serial s = m' W serial s" by blast
  from a env obtain s' where "m' W serial s = Some s'" "blocks s' = blocks s" "heap_ok s'"
    "responseFunction (s_commands ! nat request) = Some name" "outcome_in (E' W s) W serial request name (d' W s) s s'"
    unfolding answers_in_def by blast
  with c outcome_mono [OF _ c(1)]
  show "\<exists>s'. m W serial s = Some s' \<and> blocks s' = blocks s \<and> heap_ok s' \<and>
      responseFunction (s_commands ! nat request) = Some name \<and> outcome_in (E W s) W serial request name (d W s) s s'"
    by auto
qed

text \<open>An error that is only sent when there is no payload.\<close>

definition refusal :: "int \<Rightarrow> payload option \<Rightarrow> int set" where
  "refusal e d = (if d = None then {e} else {})"

lemma refusal_simps [simp]: "refusal e (Some d) = {}" "refusal e None = {e}"
  by (simp_all add: refusal_def)

lemma answers_reject:
  assumes "0 \<le> request" "request < 146" "map responseFunction s_commands ! nat request = Some name"
  shows "answers_in (\<lambda>_ _. {e}) name request (\<lambda>_ _. None) (\<lambda>W serial. reject_request W serial request e)"
proof (rule answers_body [OF _ _ assms])
  show "reject_request W serial request e s = discard (with_request W serial request
      (\<lambda>pRI s. do { s1 \<leftarrow> sendErrorResponse (Some pRI) e s; Some (False, s1) }) s)" for W serial s
    by (simp only: reject_request_def)
qed (rule body_error, assumption, assumption, rule singletonI)

section \<open>What the vendor is to get\<close>

definition setup_payload :: "int \<Rightarrow> hidl_data_profile \<Rightarrow> bool \<Rightarrow> bool \<Rightarrow> bool \<Rightarrow> svc \<Rightarrow> payload option" where
  "setup_payload tech p modemCognitive roamingAllowed isRoaming s =
     (let common = [to_string (tech + 2), to_string (hp_profileId p), hs_chars (hp_apn p), hs_chars (hp_user p),
            hs_chars (hp_password p), to_string (hp_authType p)]
      in if version (rild s) < 4 then None
         else if version (rild s) < 15
         then Some (PStrings (map Some (common @ [hs_chars (if isRoaming then hp_roamingProtocol p else hp_protocol p)])))
         else map_option (\<lambda>mvno. PStrings (map Some (common @
                [hs_chars (hp_protocol p), hs_chars (hp_roamingProtocol p), to_string (hp_supportedApnTypesBitmap p),
                 to_string (hp_bearerBitmap p), if modemCognitive then ''1'' else ''0'', to_string (hp_mtu p), mvno,
                 hs_chars (hp_mvnoMatchData p), if roamingAllowed then ''1'' else ''0''])))
              (convertMvnoTypeToString (hp_mvnoType p)))"

definition setup_refusal :: "svc \<Rightarrow> int" where
  "setup_refusal s = (if version (rild s) < 4 then RIL_E_REQUEST_NOT_SUPPORTED else RIL_E_INVALID_ARGUMENTS)"

definition dial_strings :: "hidl_dial \<Rightarrow> hidl_string list" where
  "dial_strings d = hd_address d # map hu_data (take 1 (hd_uusInfo d))"

definition dial_payload :: "hidl_dial \<Rightarrow> payload" where
  "dial_payload d = PDial \<lparr>dial_address = copied_as False (hd_address d), dial_clir = hd_clir d,
     dial_uusInfo = (case hd_uusInfo d of [] \<Rightarrow> None
       | u # _ \<Rightarrow> Some \<lparr>uusType = hu_type u, uusDcs = hu_dcs u, uusLength = int (hs_size (hu_data u)),
                        uusData = copied_as False (hu_data u)\<rparr>)\<rparr>"

definition attach_strings :: "hidl_data_profile \<Rightarrow> hidl_string list" where
  "attach_strings p = [hp_apn p, hp_protocol p, hp_roamingProtocol p, hp_user p, hp_password p, hp_mvnoMatchData p]"

definition attach_payload :: "hidl_data_profile \<Rightarrow> bool \<Rightarrow> bool \<Rightarrow> svc \<Rightarrow> payload option" where
  "attach_payload p modemCognitive isRoaming s =
     (if version (rild s) \<le> 14
      then Some (PAttachApn \<lparr>ia_apn = Some (hs_chars (hp_apn p)),
             ia_protocol = copied_as False (if isRoaming then hp_roamingProtocol p else hp_protocol p),
             ia_authtype = hp_authType p, ia_username = copied_as False (hp_user p), ia_password = copied_as False (hp_password p)\<rparr>)
      else map_option (\<lambda>mvno. PAttachApn15 \<lparr>ia_apn = Some (hs_chars (hp_apn p)), ia_protocol = copied_as False (hp_protocol p),
             ia_authtype = hp_authType p, ia_username = copied_as False (hp_user p), ia_password = copied_as False (hp_password p),
             ia_roamingProtocol = copied_as False (hp_roamingProtocol p), ia_supportedTypesBitmask = hp_supportedApnTypesBitmap p,
             ia_bearerBitmask = hp_bearerBitmap p, ia_modemCognitive = (if modemCognitive then 1 else 0), ia_mtu = hp_mtu p,
             ia_mvnoType = Some mvno, ia_mvnoMatchData = copied_as False (hp_mvnoMatchData p)\<rparr>)
           (convertMvnoTypeToString (hp_mvnoType p)))"

text \<open>The CDMA message: the numbers of digits are cut to a byte, and the digits to that number and to the array.\<close>

definition cdma_for_vendor :: "radio_env \<Rightarrow> hidl_cdma_sms \<Rightarrow> RIL_CDMA_SMS_Message" where
  "cdma_for_vendor W m =
     \<lparr>cd_uTeleserviceID = hs_teleserviceId m, cd_bIsServicePresent = (if hs_isServicePresent m then 1 else 0),
      cd_uServicecategory = hs_serviceCategory m, cd_digit_mode = hs_digitMode m, cd_number_mode = hs_numberMode m,
      cd_number_type = hs_numberType m, cd_number_plan = hs_numberPlan m, cd_number_of_digits = word_of_nat (length (hs_digits m)),
      cd_digits = take (min (length (hs_digits m) mod 256) (ADDRESS_MAX W)) (hs_digits m),
      cd_subaddressType = hs_subaddressType m, cd_odd = (if hs_odd m then 1 else 0),
      cd_sub_number_of_digits = word_of_nat (length (hs_subDigits m)),
      cd_subDigits = take (min (length (hs_subDigits m) mod 256) (SUBADDRESS_MAX W)) (hs_subDigits m),
      cd_uBearerDataLen = int (length (hs_bearerData m)), cd_aBearerData = take (BEARER_DATA_MAX W) (hs_bearerData m)\<rparr>"

definition ims_payload :: "hidl_ims_sms \<Rightarrow> radio_env \<Rightarrow> payload option" where
  "ims_payload m W =
     (let retry = (if hm_retry m then 1 else 0)
      in if hm_tech m = 1 \<and> length (hm_gsmMessage m) = 1
         then Some (PImsGsm retry (hm_messageRef m)
                [copied_as False (hg_smscPdu (hd (hm_gsmMessage m))), copied_as False (hg_pdu (hd (hm_gsmMessage m)))])
         else if hm_tech m = 2 \<and> length (hm_cdmaMessage m) = 1
         then Some (PImsCdma retry (hm_messageRef m) (cdma_for_vendor W (hd (hm_cdmaMessage m))))
         else None)"

definition ims_strings :: "hidl_ims_sms \<Rightarrow> hidl_string list" where
  "ims_strings m = concat (map (\<lambda>g. [hg_smscPdu g, hg_pdu g]) (hm_gsmMessage m))"

text \<open>The lengths of the addresses of the two families.\<close>

definition keepalive_payload :: "hidl_keepalive \<Rightarrow> payload option" where
  "keepalive_payload k =
     (if (hk_type k, length (hk_sourceAddress k), length (hk_destinationAddress k)) \<in> {(0, 4, 4), (1, 16, 16)}
      then Some (PKeepalive \<lparr>ka_type = hk_type k, ka_sourceAddress = hk_sourceAddress k, ka_sourcePort = hk_sourcePort k,
             ka_destinationAddress = hk_destinationAddress k, ka_destinationPort = hk_destinationPort k,
             ka_maxKeepaliveIntervalMillis = hk_interval k, ka_cid = hk_cid k\<rparr>)
      else None)"

definition open_payload :: "hidl_string \<Rightarrow> int \<Rightarrow> svc \<Rightarrow> payload" where
  "open_payload aid p2 s =
     (if version (rild s) < 15 then PString (nullable (hs_chars aid)) else POpenChannel \<lparr>oc_aidPtr = copied_as False aid, oc_p2 = p2\<rparr>)"

lemma constructCdmaSms_eq: "constructCdmaSms W m = cdma_for_vendor W m"
proof -
  have take_map: "map (\<lambda>i. xs ! i) [0..<n] = take n xs" if "n \<le> length xs" for n and xs :: "u8 list"
    by (rule nth_equalityI) (use that in simp_all)
  have le: "min (length xs mod 256) n \<le> length xs" for n and xs :: "u8 list"
    by (rule order_trans [OF min.cobounded1 mod_less_eq_dividend])
  have u: "unat (word_of_nat n :: u8) = n mod 256" for n by (simp add: unat_of_nat)
  have mn: "take (min (length xs) n) xs = take n xs" for n and xs :: "u8 list" by (simp add: min_def)
  show ?thesis
    unfolding constructCdmaSms_def cdma_for_vendor_def Let_def u take_map [OF le] take_map [OF min.cobounded1] mn
    by (simp add: BOOL_TO_INT_def)
qed

lemma setupDataCall_answers:
  "answers_in (\<lambda>W s. copy_errors W [] \<union> refusal (setup_refusal s) (setup_payload tech p cog roam isRoaming s))
     ''setupDataCallResponse'' RIL_REQUEST_SETUP_DATA_CALL (\<lambda>_. setup_payload tech p cog roam isRoaming)
     (\<lambda>W serial. setupDataCall W serial tech p cog roam isRoaming)"
proof (rule answers_choice)
  fix W serial s
  let ?E = "\<lambda>W s. copy_errors W [] \<union> refusal (setup_refusal s) (setup_payload tech p cog roam isRoaming s)"
  let ?name = "''setupDataCallResponse''" and ?R = RIL_REQUEST_SETUP_DATA_CALL
  have strings: "answers [] ?name ?R (PStrings (map Some strs)) (\<lambda>W serial s. discard (dispatchStrings W serial ?R True strs s))" for strs
    by (rule answers_strings [OF refl]) (simp_all add: req_consts response_names)
  have reject: "answers_in (\<lambda>_ _. {e}) ?name ?R (\<lambda>_ _. None) (\<lambda>W serial. reject_request W serial ?R e)" for e
    by (rule answers_reject) (simp_all add: req_consts response_names)
  show "\<exists>E' d' m'. answers_in E' ?name ?R d' m' \<and> E' W s \<subseteq> ?E W s \<and> d' W s = setup_payload tech p cog roam isRoaming s \<and>
      setupDataCall W serial tech p cog roam isRoaming s = m' W serial s"
  proof (cases "4 \<le> version (rild s) \<and> version (rild s) \<le> 14")
    case True
    show ?thesis
      by (intro exI, intro conjI, rule strings [of "[to_string (tech + 2), to_string (hp_profileId p), hs_chars (hp_apn p),
          hs_chars (hp_user p), hs_chars (hp_password p), to_string (hp_authType p),
          hs_chars (if isRoaming then hp_roamingProtocol p else hp_protocol p)]"])
        (use True in \<open>simp_all add: setup_payload_def setupDataCall_def Let_def\<close>)
  next
    case old: False
    show ?thesis
    proof (cases "15 \<le> version (rild s)")
      case True
      show ?thesis
      proof (cases "convertMvnoTypeToString (hp_mvnoType p)")
        case None
        show ?thesis
          by (intro exI, intro conjI, rule reject [of RIL_E_INVALID_ARGUMENTS])
            (use True None in \<open>simp_all add: setup_payload_def setup_refusal_def setupDataCall_def Let_def\<close>)
      next
        case (Some mvno)
        show ?thesis
          by (intro exI, intro conjI, rule strings [of "[to_string (tech + 2), to_string (hp_profileId p), hs_chars (hp_apn p),
              hs_chars (hp_user p), hs_chars (hp_password p), to_string (hp_authType p), hs_chars (hp_protocol p),
              hs_chars (hp_roamingProtocol p), to_string (hp_supportedApnTypesBitmap p), to_string (hp_bearerBitmap p),
              if cog then ''1'' else ''0'', to_string (hp_mtu p), mvno, hs_chars (hp_mvnoMatchData p),
              if roam then ''1'' else ''0'']"])
            (use True Some in \<open>simp_all add: setup_payload_def setupDataCall_def Let_def\<close>)
      qed
    next
      case False
      show ?thesis
        by (intro exI, intro conjI, rule reject [of RIL_E_REQUEST_NOT_SUPPORTED])
          (use old False in \<open>simp_all add: setup_payload_def setup_refusal_def setupDataCall_def Let_def\<close>)
    qed
  qed
qed

lemma dial_answers:
  "answers (dial_strings dialInfo) ''dialResponse'' RIL_REQUEST_DIAL (dial_payload dialInfo) (\<lambda>W serial. dial W serial dialInfo)"
proof (rule answers_body [OF _ dial_def])
  fix W q t
  assume ok: "heap_ok t" and q: "answerable q (rild t)" and V: "vendor_returns W"
  let ?B = "\<lambda>s. do {
     (a, s1) \<leftarrow> copyHidlStringToRil W (hd_address dialInfo) q False s;
     case a of None \<Rightarrow> Some (False, s1) | Some address \<Rightarrow>
       (case hd_uusInfo dialInfo of
          [] \<Rightarrow> do {
            c \<leftarrow> str_at s1 address;
            s2 \<leftarrow> CALL_ONREQUEST W RIL_REQUEST_DIAL
              (PDial \<lparr>dial_address = c, dial_clir = hd_clir dialInfo, dial_uusInfo = None\<rparr>) q (mSlotId W) s1;
            s3 \<leftarrow> memsetAndFreeStrings [address, None] s2;
            Some (True, s3) }
        | u # _ \<Rightarrow> do {
            (d, s2) \<leftarrow> (if hs_size (hu_data u) = 0 then Some (Some None, s1)
                        else copyHidlStringToRil W (hu_data u) q False s1);
            case d of
              None \<Rightarrow> do { s3 \<leftarrow> memsetAndFreeStrings [address] s2; Some (False, s3) }
            | Some data \<Rightarrow> do {
                c \<leftarrow> str_at s2 address;
                uus \<leftarrow> str_at s2 data;
                s3 \<leftarrow> CALL_ONREQUEST W RIL_REQUEST_DIAL
                  (PDial \<lparr>dial_address = c, dial_clir = hd_clir dialInfo,
                     dial_uusInfo = Some \<lparr>uusType = hu_type u, uusDcs = hu_dcs u,
                       uusLength = int (hs_size (hu_data u)), uusData = uus\<rparr>\<rparr>) q (mSlotId W) s2;
                s4 \<leftarrow> memsetAndFreeStrings [address, data] s3;
                Some (True, s4) } }) }"
  from copy_ok [OF heap_ext_refl [OF ok] q, of W "hd_address dialInfo" False]
  show "\<exists>b ok s'. ?B t = Some (ok, s') \<and> (ok \<longrightarrow> Some (dial_payload dialInfo) = Some b) \<and>
      delivers (dial_strings dialInfo) W RIL_REQUEST_DIAL b q t ok s'"
  proof (elim disjE exE conjE)
    fix e s1
    assume "e \<in> copy_errors W [hd_address dialInfo]" "copyHidlStringToRil W (hd_address dialInfo) q False t = Some (None, s1)"
      "respond_error q e (rild t) = Some (rild s1)" "calls s1 = calls t" "heap_ext t {} s1"
    moreover have "copy_errors W [hd_address dialInfo] \<subseteq> copy_errors W (dial_strings dialInfo)"
      by (rule copy_errors_mono) (simp add: dial_strings_def)
    ultimately show ?thesis
      by (intro exI [of _ NoData] exI [of _ False] exI [of _ s1]) (auto intro!: deliversI_error)
  next
    fix address s1
    assume c: "copyHidlStringToRil W (hd_address dialInfo) q False t = Some (Some address, s1)"
      "rild s1 = rild t" "calls s1 = calls t" "heap_ext t ({} \<union> set (somes [address])) s1"
      "str_at s1 address = Some (copied_as False (hd_address dialInfo))"
    have H1: "heap_ext t (set (somes [address])) s1" "distinct (somes [address])"
      using c(4) by (auto split: option.splits)
    show ?thesis
    proof (cases "hd_uusInfo dialInfo")
      case Nil
      let ?p = "PDial \<lparr>dial_address = copied_as False (hd_address dialInfo), dial_clir = hd_clir dialInfo, dial_uusInfo = None\<rparr>"
      have "heap_ext t (set (somes [address, None])) s1" "distinct (somes [address, None])"
        using H1 by (auto split: option.splits)
      from call_and_free [OF this V c(2,3), where request = RIL_REQUEST_DIAL and b = ?p and p = q and E = "copy_errors W (dial_strings dialInfo)"] obtain s2 s3 where
        "CALL_ONREQUEST W RIL_REQUEST_DIAL ?p q (mSlotId W) s1 = Some s2"
        "memsetAndFreeStrings [address, None] s2 = Some s3" "delivers (dial_strings dialInfo) W RIL_REQUEST_DIAL ?p q t True s3" by blast
      with c(1,5) Nil show ?thesis
        by (intro exI [of _ ?p] exI [of _ True] exI [of _ s3]) (simp add: dial_payload_def del: memsetAndFreeStrings.simps)
    next
      case (Cons u us)
      have q1: "answerable q (rild s1)" using q c(2) by simp
      have z: "(if hs_size (hu_data u) = 0 then Some (Some None, s1) else copyHidlStringToRil W (hu_data u) q False s1) =
          copyHidlStringToRil W (hu_data u) q False s1"
        by (simp add: copyHidlStringToRil_def)
      from copy_ok [OF H1(1) q1, of W "hu_data u" False] show ?thesis
      proof (elim disjE exE conjE)
        fix data s2
        assume d: "copyHidlStringToRil W (hu_data u) q False s1 = Some (Some data, s2)"
          "rild s2 = rild s1" "calls s2 = calls s1" "heap_ext t (set (somes [address]) \<union> set (somes [data])) s2"
          "set (somes [data]) \<inter> set (somes [address]) = {}"
          "str_at s2 data = Some (copied_as False (hu_data u))" "\<forall>a\<in>set (somes [address]). blocks s2 a = blocks s1 a"
        have a: "str_at s2 address = Some (copied_as False (hd_address dialInfo))"
          using str_at_cong [of address s2 s1] d(7) c(5) by simp
        let ?p = "PDial \<lparr>dial_address = copied_as False (hd_address dialInfo), dial_clir = hd_clir dialInfo,
            dial_uusInfo = Some \<lparr>uusType = hu_type u, uusDcs = hu_dcs u,
              uusLength = int (hs_size (hu_data u)), uusData = copied_as False (hu_data u)\<rparr>\<rparr>"
        have eq: "set (somes [address, data]) = set (somes [address]) \<union> set (somes [data])" by (auto split: option.splits)
        have H2: "heap_ext t (set (somes [address, data])) s2" unfolding eq by (rule d(4))
        have D2: "distinct (somes [address, data])" using d(5) by (auto split: option.splits)
        have f2: "rild s2 = rild t" "calls s2 = calls t" using d(2,3) c(2,3) by simp_all
        from call_and_free [OF H2 D2 V f2, where request = RIL_REQUEST_DIAL and b = ?p and p = q and E = "copy_errors W (dial_strings dialInfo)"] obtain s3 s4 where
          "CALL_ONREQUEST W RIL_REQUEST_DIAL ?p q (mSlotId W) s2 = Some s3"
          "memsetAndFreeStrings [address, data] s3 = Some s4" "delivers (dial_strings dialInfo) W RIL_REQUEST_DIAL ?p q t True s4" by blast
        with c(1) d(1,6) a Cons z show ?thesis
          by (intro exI [of _ ?p] exI [of _ True] exI [of _ s4]) (simp add: dial_payload_def del: memsetAndFreeStrings.simps)
      next
        fix e s2
        assume d: "e \<in> copy_errors W [hu_data u]" "copyHidlStringToRil W (hu_data u) q False s1 = Some (None, s2)"
          "respond_error q e (rild s1) = Some (rild s2)" "calls s2 = calls s1" "heap_ext t (set (somes [address])) s2"
        from free_strings_ok [OF d(5) subset_refl H1(2)] obtain s3 where
          "memsetAndFreeStrings [address] s2 = Some s3" "heap_ext t {} s3" "rild s3 = rild s2" "calls s3 = calls s2" by auto
        moreover have "e \<in> copy_errors W (dial_strings dialInfo)"
          using d(1) copy_errors_mono [of "[hu_data u]" "dial_strings dialInfo" W] by (auto simp: dial_strings_def Cons)
        ultimately show ?thesis using c(1-3) d(2-5) Cons z
          by (intro exI [of _ NoData] exI [of _ False] exI [of _ s3])
            (simp add: deliversI_error del: memsetAndFreeStrings.simps)
      qed
    qed
  qed
qed (simp_all add: req_consts response_names)

lemma sendImsSms_answers:
  "answers_in (\<lambda>W _. copy_errors W (ims_strings message) \<union> refusal RIL_E_INVALID_ARGUMENTS (ims_payload message W))
     ''sendImsSmsResponse'' RIL_REQUEST_IMS_SEND_SMS (\<lambda>W _. ims_payload message W) (\<lambda>W serial. sendImsSms W serial message)"
proof (rule answers_body [OF _ sendImsSms_def])
  fix W q t
  assume env: "heap_ok t" "answerable q (rild t)" "vendor_returns W"
  let ?d = "ims_payload message W"
  let ?E = "copy_errors W (ims_strings message) \<union> refusal RIL_E_INVALID_ARGUMENTS ?d"
  let ?goal = "\<lambda>r. \<exists>b ok s'. r = Some (ok, s') \<and> (ok \<longrightarrow> ?d = Some b) \<and> delivers_in ?E W RIL_REQUEST_IMS_SEND_SMS b q t ok s'"
  have err: "?goal (do { s1 \<leftarrow> sendErrorResponse (Some q) RIL_E_INVALID_ARGUMENTS t; Some (False, s1) })" if "?d = None"
    by (rule body_error [OF env(1,2)]) (simp add: that)
  have gsm: "?goal (dispatchImsGsmSms W message q t)" if tech: "hm_tech message = 1"
  proof (cases "\<exists>m. hm_gsmMessage message = [m]")
    case True
    then obtain m where m: "hm_gsmMessage message = [m]" by blast
    show ?thesis unfolding dispatchImsGsmSms_def m list.case
      by (rule body_send_strings [OF env]) (simp_all add: ims_strings_def m ims_payload_def tech BOOL_TO_INT_def Let_def)
  next
    case False
    then have "?d = None" by (auto simp: ims_payload_def tech length_Suc_conv Let_def)
    moreover have "dispatchImsGsmSms W message q t = do { s1 \<leftarrow> sendErrorResponse (Some q) RIL_E_INVALID_ARGUMENTS t; Some (False, s1) }"
      using False by (auto simp: dispatchImsGsmSms_def split: list.split)
    ultimately show ?thesis using err by simp
  qed
  have cdma: "?goal (dispatchImsCdmaSms W message q t)" if tech: "hm_tech message = 2"
  proof (cases "\<exists>m. hm_cdmaMessage message = [m]")
    case True
    then obtain m where m: "hm_cdmaMessage message = [m]" by blast
    show ?thesis unfolding dispatchImsCdmaSms_def m list.case
      by (rule body_struct [OF env(1,3)]) (simp add: m ims_payload_def tech BOOL_TO_INT_def constructCdmaSms_eq Let_def)
  next
    case False
    then have "?d = None" by (auto simp: ims_payload_def tech length_Suc_conv Let_def)
    moreover have "dispatchImsCdmaSms W message q t = do { s1 \<leftarrow> sendErrorResponse (Some q) RIL_E_INVALID_ARGUMENTS t; Some (False, s1) }"
      using False by (auto simp: dispatchImsCdmaSms_def split: list.split)
    ultimately show ?thesis using err by simp
  qed
  show "?goal (if RADIO_TECH_3GPP = hm_tech message then dispatchImsGsmSms W message q t
      else if RADIO_TECH_3GPP2 = hm_tech message then dispatchImsCdmaSms W message q t
      else do { s1 \<leftarrow> sendErrorResponse (Some q) RIL_E_INVALID_ARGUMENTS t; Some (False, s1) })"
  proof (cases "hm_tech message = 1")
    case True
    then show ?thesis using gsm by (simp add: RADIO_TECH_3GPP_def)
  next
    case no: False
    show ?thesis
    proof (cases "hm_tech message = 2")
      case True
      then show ?thesis using cdma by (simp add: RADIO_TECH_3GPP_def RADIO_TECH_3GPP2_def)
    next
      case False
      then have "?d = None" using no by (simp add: ims_payload_def Let_def)
      then show ?thesis using err False no by (simp add: RADIO_TECH_3GPP_def RADIO_TECH_3GPP2_def)
    qed
  qed
qed (simp_all add: req_consts response_names)

lemma startKeepalive_answers:
  "answers_in (\<lambda>_ _. refusal RIL_E_INVALID_ARGUMENTS (keepalive_payload k)) ''startKeepaliveResponse'' RIL_REQUEST_START_KEEPALIVE
     (\<lambda>_ _. keepalive_payload k) (\<lambda>W serial. startKeepalive W serial k)"
proof (rule answers_body [OF _ startKeepalive_def])
  fix W q t
  assume env: "heap_ok t" "answerable q (rild t)" "vendor_returns W"
  let ?b = "PKeepalive \<lparr>ka_type = hk_type k, ka_sourceAddress = hk_sourceAddress k, ka_sourcePort = hk_sourcePort k,
      ka_destinationAddress = hk_destinationAddress k, ka_destinationPort = hk_destinationPort k,
      ka_maxKeepaliveIntervalMillis = hk_interval k, ka_cid = hk_cid k\<rparr>"
  let ?goal = "\<lambda>r. \<exists>b ok s'. r = Some (ok, s') \<and> (ok \<longrightarrow> keepalive_payload k = Some b) \<and>
      delivers_in (refusal RIL_E_INVALID_ARGUMENTS (keepalive_payload k)) W RIL_REQUEST_START_KEEPALIVE b q t ok s'"
  have E: "?goal (do { s1 \<leftarrow> sendErrorResponse (Some q) RIL_E_INVALID_ARGUMENTS t; Some (False, s1) })" if "keepalive_payload k = None"
    by (rule body_error [OF env(1,2)]) (simp add: that)
  have S: "?goal (do { s1 \<leftarrow> CALL_ONREQUEST W RIL_REQUEST_START_KEEPALIVE ?b q (mSlotId W) t; Some (True, s1) })"
    if "keepalive_payload k = Some ?b"
    by (rule body_struct [OF env(1,3) that])
  have fits: "(keepalive_payload k = Some ?b) = (hk_type k = 0 \<and> length (hk_sourceAddress k) = 4 \<and> length (hk_destinationAddress k) = 4 \<or>
      hk_type k = 1 \<and> length (hk_sourceAddress k) = 16 \<and> length (hk_destinationAddress k) = 16)"
    by (auto simp: keepalive_payload_def)
  have not: "keepalive_payload k = None \<or> keepalive_payload k = Some ?b" by (simp add: keepalive_payload_def)
  have pick: "?goal (if c1 then if c2 then x else y else if c3 then if c4 then x else y else x)"
    if "?goal x" "\<not> (c1 \<and> \<not> c2 \<or> \<not> c1 \<and> c3 \<and> \<not> c4)" for c1 c2 c3 c4 x y
    using that by (cases c1; cases c2; cases c3; cases c4; simp)
  have pick': "?goal (if c1 then if c2 then x else y else if c3 then if c4 then x else y else x)"
    if "?goal y" "c1 \<and> \<not> c2 \<or> \<not> c1 \<and> c3 \<and> \<not> c4" for c1 c2 c3 c4 x y
    using that by (cases c1; cases c2; cases c3; cases c4; simp)
  show "?goal (let invalid = do { s1 \<leftarrow> sendErrorResponse (Some q) RIL_E_INVALID_ARGUMENTS t; Some (False, s1) };
         send = do { s1 \<leftarrow> CALL_ONREQUEST W RIL_REQUEST_START_KEEPALIVE ?b q (mSlotId W) t; Some (True, s1) }
     in if hk_type k = NATT_IPV4 then
          if length (hk_sourceAddress k) \<noteq> 4 \<or> length (hk_destinationAddress k) \<noteq> 4 then invalid else send
        else if hk_type k = NATT_IPV6 then
          if length (hk_sourceAddress k) \<noteq> 16 \<or> length (hk_destinationAddress k) \<noteq> 16 then invalid else send
        else invalid)"
  proof (cases "keepalive_payload k = Some ?b")
    case True
    then have "hk_type k = NATT_IPV4 \<and> \<not> (length (hk_sourceAddress k) \<noteq> 4 \<or> length (hk_destinationAddress k) \<noteq> 4) \<or>
        hk_type k \<noteq> NATT_IPV4 \<and> hk_type k = NATT_IPV6 \<and> \<not> (length (hk_sourceAddress k) \<noteq> 16 \<or> length (hk_destinationAddress k) \<noteq> 16)"
      unfolding fits NATT_IPV4_def NATT_IPV6_def by auto
    then show ?thesis unfolding Let_def by (rule pick' [OF S [OF True]])
  next
    case False
    then have "\<not> (hk_type k = NATT_IPV4 \<and> \<not> (length (hk_sourceAddress k) \<noteq> 4 \<or> length (hk_destinationAddress k) \<noteq> 4) \<or>
        hk_type k \<noteq> NATT_IPV4 \<and> hk_type k = NATT_IPV6 \<and> \<not> (length (hk_sourceAddress k) \<noteq> 16 \<or> length (hk_destinationAddress k) \<noteq> 16))"
      unfolding fits NATT_IPV4_def NATT_IPV6_def by auto
    moreover have "keepalive_payload k = None" using False not by simp
    ultimately show ?thesis unfolding Let_def by (intro pick E)
  qed
qed (simp_all add: req_consts response_names)

text \<open>A failure while copied strings are still on the heap: they are freed after the error was sent.\<close>

lemma free_after_error:
  assumes H: "heap_ext t (set (somes ps)) s" and d: "distinct (somes ps)"
    and r: "respond_error q e (rild t) = Some (rild s)" "calls s = calls t" "e \<in> E"
  shows "\<exists>s'. memsetAndFreeStrings ps s = Some s' \<and> delivers_in E W request b q t False s'"
proof -
  from free_strings_ok [OF H subset_refl d] obtain s' where
    "memsetAndFreeStrings ps s = Some s'" "heap_ext t {} s'" "rild s' = rild s" "calls s' = calls s" by auto
  then show ?thesis using r by (intro exI [of _ s']) (simp add: deliversI_error)
qed

lemma attach_v15_body:
  assumes ok: "heap_ok t" and q: "answerable q (rild t)" and V: "vendor_returns W" and E: "copy_errors W (map fst fs @ [src]) \<subseteq> E"
    and none: "mvno = None \<longrightarrow> RIL_E_INVALID_ARGUMENTS \<in> E"
    and d: "d = map_option (\<lambda>m. f m (map (\<lambda>(src, ae). copied_as ae src) fs @ [copied_as False src])) mvno"
  shows "\<exists>b ok s'. with_strings W fs q
      (\<lambda>ps s.
         case mvno of
           None \<Rightarrow> do {
             s1 \<leftarrow> sendErrorResponse (Some q) RIL_E_INVALID_ARGUMENTS s;
             s2 \<leftarrow> memsetAndFreeStrings ps s1;
             Some (False, s2) }
         | Some m \<Rightarrow> do {
             (c, s1) \<leftarrow> copyHidlStringToRil W src q False s;
             case c of
               None \<Rightarrow> do { s2 \<leftarrow> memsetAndFreeStrings ps s1; Some (False, s2) }
             | Some mvnoMatchData \<Rightarrow> call_with_strings W request (f m) q (ps @ [mvnoMatchData]) s1 }) t = Some (ok, s') \<and>
      (ok \<longrightarrow> d = Some b) \<and> delivers_in E W request b q t ok s'"
proof -
  have start: "heap_ext t (set (somes [])) t" "distinct (somes [])" "strs_at t [] = Some []"
    using heap_ext_refl [OF ok] by simp_all
  have E1: "copy_errors W (map fst fs) \<subseteq> E" "copy_errors W [src] \<subseteq> E"
    using E copy_errors_mono [of "map fst fs" "map fst fs @ [src]" W] copy_errors_mono [of "[src]" "map fst fs @ [src]" W] by auto
  from fields_ok [OF start q, of W fs] show ?thesis
  proof (elim disjE exE conjE)
    fix e s1
    assume "e \<in> copy_errors W (map fst fs)" "copy_fields W fs q [] t = Some (None, s1)"
      "respond_error q e (rild t) = Some (rild s1)" "calls s1 = calls t" "heap_ext t {} s1"
    with E1(1) deliversI_error [of t s1 e E q W request NoData] show ?thesis
      by (intro exI [of _ NoData] exI [of _ False] exI [of _ s1]) (auto simp: with_strings_def)
  next
    fix es s1
    assume c: "copy_fields W fs q [] t = Some (Some es, s1)" "rild s1 = rild t" "calls s1 = calls t"
      "heap_ext t (set (somes es)) s1" "distinct (somes es)"
      "strs_at s1 es = Some ([] @ map (\<lambda>(src, ae). copied_as ae src) fs)"
    show ?thesis
    proof (cases mvno)
      case None
      from respond_error_total [OF q] obtain r where
        r: "respond_error q RIL_E_INVALID_ARGUMENTS (rild t) = Some r" by blast
      have "heap_ext t (set (somes es)) (s1\<lparr>rild := r\<rparr>)" using c(4) by simp
      from free_after_error [OF this c(5) _ _ none [rule_format, OF None], of q W request NoData] r c(3) obtain s' where
        "memsetAndFreeStrings es (s1\<lparr>rild := r\<rparr>) = Some s'" "delivers_in E W request NoData q t False s'" by auto
      with c(1,2) r None show ?thesis
        by (intro exI [of _ NoData] exI [of _ False] exI [of _ s']) (simp add: with_strings_def sendErrorResponse_def)
    next
      case (Some m)
      have q1: "answerable q (rild s1)" using q c(2) by simp
      from copy_ok [OF c(4) q1, of W src False] show ?thesis
      proof (elim disjE exE conjE)
        fix dest s2
        assume d2: "copyHidlStringToRil W src q False s1 = Some (Some dest, s2)" "rild s2 = rild s1" "calls s2 = calls s1"
          "heap_ext t (set (somes es) \<union> set (somes [dest])) s2" "set (somes [dest]) \<inter> set (somes es) = {}"
          "str_at s2 dest = Some (copied_as False src)" "\<forall>a\<in>set (somes es). blocks s2 a = blocks s1 a"
        let ?cs = "map (\<lambda>(src, ae). copied_as ae src) fs @ [copied_as False src]"
        have H: "heap_ext t (set (somes (es @ [dest]))) s2" using d2(4) by (simp add: Un_commute)
        have D: "distinct (somes (es @ [dest]))" using d2(5) c(5) by (cases dest) auto
        have "strs_at s2 es = strs_at s1 es" using d2(7) by (intro strs_at_cong) auto
        then have v: "strs_at s2 (es @ [dest]) = Some ?cs"
          using c(6) d2(6) by (simp add: strs_at_append)
        have f2: "rild s2 = rild t" "calls s2 = calls t" using d2(2,3) c(2,3) by simp_all
        from call_with_strings_ok [OF H D V f2 v, where request = request and f = "f m" and p = q and E = E] obtain s' where
          "call_with_strings W request (f m) q (es @ [dest]) s2 = Some (True, s')" "delivers_in E W request (f m ?cs) q t True s'"
          by blast
        with c(1) d2(1) Some d show ?thesis
          by (intro exI [of _ "f m ?cs"] exI [of _ True] exI [of _ s']) (simp add: with_strings_def)
      next
        fix e s2
        assume d2: "e \<in> copy_errors W [src]" "copyHidlStringToRil W src q False s1 = Some (None, s2)"
          "respond_error q e (rild s1) = Some (rild s2)" "calls s2 = calls s1" "heap_ext t (set (somes es)) s2"
        have "respond_error q e (rild t) = Some (rild s2)" "calls s2 = calls t" "e \<in> E" using d2 c(2,3) E1(2) by auto
        from free_after_error [OF d2(5) c(5) this, of W request NoData] obtain s' where
          "memsetAndFreeStrings es s2 = Some s'" "delivers_in E W request NoData q t False s'" by blast
        with c(1) d2(2) Some show ?thesis
          by (intro exI [of _ NoData] exI [of _ False] exI [of _ s']) (simp add: with_strings_def)
      qed
    qed
  qed
qed

lemma setInitialAttachApn_answers:
  "answers_in (\<lambda>W s. copy_errors W (attach_strings p) \<union> refusal RIL_E_INVALID_ARGUMENTS (attach_payload p cog isRoaming s))
     ''setInitialAttachApnResponse'' RIL_REQUEST_SET_INITIAL_ATTACH_APN (\<lambda>_. attach_payload p cog isRoaming)
     (\<lambda>W serial. setInitialAttachApn W serial p cog isRoaming)"
  apply (rule answers_body [OF _ setInitialAttachApn_def])
  subgoal for W q t s
  proof (cases "version (rild t) \<le> 14")
    case True
    assume env: "heap_ok t" "answerable q (rild t)" "vendor_returns W" and v: "version (rild t) = version (rild s)"
    show ?thesis unfolding if_P [OF True]
      by (rule body_strings [OF env])
        (use True v in \<open>simp_all add: attach_payload_def copied_as_def attach_strings_def le_supI1 copy_errors_mono\<close>)
  next
    case False
    assume env: "heap_ok t" "answerable q (rild t)" "vendor_returns W" and v: "version (rild t) = version (rild s)"
    show ?thesis unfolding if_not_P [OF False]
      by (rule attach_v15_body [OF env])
        (use False v in \<open>simp_all add: attach_payload_def copied_as_def attach_strings_def BOOL_TO_INT_def le_supI1 copy_errors_mono\<close>)
  qed
  by (simp_all add: req_consts response_names)

lemma iccOpenLogicalChannel_answers:
  "answers_in (\<lambda>W _. copy_errors W [aid]) ''iccOpenLogicalChannelResponse'' RIL_REQUEST_SIM_OPEN_CHANNEL
     (\<lambda>_ s. Some (open_payload aid p2 s)) (\<lambda>W serial. iccOpenLogicalChannel W serial aid p2)"
proof (rule answers_choice)
  fix W serial s
  let ?name = "''iccOpenLogicalChannelResponse''" and ?R = RIL_REQUEST_SIM_OPEN_CHANNEL
  have a: "answers [] ?name ?R (PString (nullable (hs_chars aid)))
      (\<lambda>W serial s. discard (dispatchString W serial ?R (hs_chars aid) s))"
    by (rule answers_string [OF refl]) (simp_all add: req_consts response_names)
  have b: "answers [aid] ?name ?R (POpenChannel \<lparr>oc_aidPtr = copied_as False aid, oc_p2 = p2\<rparr>)
      (\<lambda>W serial s. discard (with_request W serial ?R
        (\<lambda>pRI. with_strings W [(aid, False)] pRI (call_with_strings W ?R (\<lambda>cs. POpenChannel \<lparr>oc_aidPtr = cs ! 0, oc_p2 = p2\<rparr>) pRI)) s))"
    by (rule answers_with_strings [OF refl]) (simp_all add: req_consts response_names)
  show "\<exists>E' d' m'. answers_in E' ?name ?R d' m' \<and> E' W s \<subseteq> copy_errors W [aid] \<and> d' W s = Some (open_payload aid p2 s) \<and>
      iccOpenLogicalChannel W serial aid p2 s = m' W serial s"
  proof (cases "version (rild s) < 15")
    case True
    show ?thesis
      by (intro exI, intro conjI, rule a)
        (use True in \<open>simp_all add: iccOpenLogicalChannel_def open_payload_def copy_errors_mono\<close>)
  next
    case False
    show ?thesis
      by (intro exI, intro conjI, rule b)
        (use False in \<open>simp_all add: iccOpenLogicalChannel_def open_payload_def\<close>)
  qed
qed

lemmas string_struct_defs = iccIOForApp_def writeSmsToSim_def nvWriteItem_def requestIccSimAuthentication_def

lemma string_structs_answer:
  "answers [hi_path iccIo, hi_data iccIo, hi_pin2 iccIo, hi_aid iccIo] ''iccIOForAppResponse'' RIL_REQUEST_SIM_IO (PSimIo \<lparr>io_cla = 0, io_command = hi_command iccIo, io_fileid = hi_fileId iccIo, io_path = copied_as False (hi_path iccIo),
        io_p1 = hi_p1 iccIo, io_p2 = hi_p2 iccIo, io_p3 = hi_p3 iccIo,
        io_data = copied_as False (hi_data iccIo), io_pin2 = copied_as False (hi_pin2 iccIo), io_aidPtr = copied_as False (hi_aid iccIo)\<rparr>)
     (\<lambda>W serial. iccIOForApp W serial iccIo) \<and>
   answers [hw_pdu args, hw_smsc args] ''writeSmsToSimResponse'' RIL_REQUEST_WRITE_SMS_TO_SIM (PSmsWrite \<lparr>wa_status = hw_status args, wa_pdu = copied_as False (hw_pdu args),
        wa_smsc = copied_as False (hw_smsc args)\<rparr>)
     (\<lambda>W serial. writeSmsToSim W serial args) \<and>
   answers [val] ''nvWriteItemResponse'' RIL_REQUEST_NV_WRITE_ITEM (PNvWrite itemId (copied_as False val))
     (\<lambda>W serial. nvWriteItem W serial itemId val) \<and>
   answers [authData, aid] ''requestIccSimAuthenticationResponse'' RIL_REQUEST_SIM_AUTHENTICATION (PSimAuth \<lparr>sa_authContext = ctx,
        sa_authData = copied_as False authData, sa_aid = copied_as False aid\<rparr>)
     (\<lambda>W serial. requestIccSimAuthentication W serial ctx authData aid)"
  by (intro conjI; (rule answers_with_strings, rule string_struct_defs; simp add: req_consts response_names))

lemmas plain_struct_defs = sendCdmaSms_def acknowledgeLastIncomingCdmaSms_def setGsmBroadcastConfig_def
  setCdmaBroadcastConfig_def writeSmsToRuim_def stopKeepalive_def

lemma gsm_selected: "word_of_int (BOOL_TO_INT c) = (if c then 1 else 0)"
  by (simp add: BOOL_TO_INT_def)

lemma plain_structs_answer:
  "answers_in (\<lambda>_ _. {}) ''sendCdmaSmsResponse'' RIL_REQUEST_CDMA_SEND_SMS
     (\<lambda>W _. Some (PCdmaSms (cdma_for_vendor W sms))) (\<lambda>W serial. sendCdmaSms W serial sms) \<and>
   reaches_vendor ''acknowledgeLastIncomingCdmaSmsResponse'' RIL_REQUEST_CDMA_SMS_ACKNOWLEDGE (PCdmaAck cls cause)
     (\<lambda>W serial. acknowledgeLastIncomingCdmaSms W serial cls cause) \<and>
   reaches_vendor ''setGsmBroadcastConfigResponse'' RIL_REQUEST_GSM_SET_BROADCAST_SMS_CONFIG (PGsmBroadcast (map (\<lambda>c. \<lparr>gb_fromServiceId = hb_fromServiceId c, gb_toServiceId = hb_toServiceId c,
        gb_fromCodeScheme = hb_fromCodeScheme c, gb_toCodeScheme = hb_toCodeScheme c, gb_selected = (if hb_selected c then 1 else 0)\<rparr>) gsm))
     (\<lambda>W serial. setGsmBroadcastConfig W serial gsm) \<and>
   reaches_vendor ''setCdmaBroadcastConfigResponse'' RIL_REQUEST_CDMA_SET_BROADCAST_SMS_CONFIG (PCdmaBroadcast (map (\<lambda>c. (hx_serviceCategory c,
        hx_language c, if hx_selected c then 1 else 0)) cdma))
     (\<lambda>W serial. setCdmaBroadcastConfig W serial cdma) \<and>
   answers_in (\<lambda>_ _. {}) ''writeSmsToRuimResponse'' RIL_REQUEST_CDMA_WRITE_SMS_TO_RUIM
     (\<lambda>W _. Some (PCdmaWrite st (cdma_for_vendor W sms))) (\<lambda>W serial. writeSmsToRuim W serial st sms) \<and>
   reaches_vendor ''stopKeepaliveResponse'' RIL_REQUEST_STOP_KEEPALIVE (PInts [handle])
     (\<lambda>W serial. stopKeepalive W serial handle)"
  by (intro conjI; (rule answers_struct, simp only: plain_struct_defs constructCdmaSms_eq gsm_selected BOOL_TO_INT_def;
      simp add: req_consts response_names))

lemma nv_uicc_answer:
  "reaches_vendor ''nvReadItemResponse'' RIL_REQUEST_NV_READ_ITEM (PNvRead itemId)
     (\<lambda>W serial. nvReadItem W serial itemId) \<and>
   reaches_vendor ''setUiccSubscriptionResponse'' RIL_REQUEST_SET_UICC_SUBSCRIPTION (PUiccSub
        \<lparr>su_slot = slot, su_app_index = app, su_sub_type = sub, su_act_status = act\<rparr>)
     (\<lambda>W serial. setUiccSubscription W serial slot app sub act) \<and>
   answers [] ''nvResetConfigResponse'' RIL_REQUEST_NV_RESET_CONFIG (PInts [case resetType of NvRELOAD \<Rightarrow> 1
        | NvERASE \<Rightarrow> 2 | NvFACTORY_RESET \<Rightarrow> 3 | NvOther _ \<Rightarrow> -1])
     (\<lambda>W serial. nvResetConfig W serial resetType)"
  by (intro conjI; (rule answers_struct, unfold nvReadItem_def setUiccSubscription_def send_struct_def, rule refl |
      rule answers_ints, unfold nvResetConfig_def Let_def, rule refl); simp add: req_consts response_names)

section \<open>Properties\<close>

text \<open>
  C23. The methods that build a structure for the vendor, on a consistent heap and with a vendor that
  returns: each enters one request, whose row answers under the method's own name, and then either had no
  memory for it, or calls the vendor once with exactly the structure of its arguments, or sends the client
  one error with its serial; every copy is freed on every path. A copy fails with no memory only if an
  allocation failed, and with an internal error only if a string is longer than its size. Data calls, the
  attach APN, IMS messages and keepalives refuse exactly the arguments and the vendor versions for which
  there is no structure. Not among these methods are \<open>setCarrierInfoForImsiEncryption\<close>, which leaks its
  copies (\<open>imsi_strings_leak\<close>), and manual network selection, \<open>sendDeviceState\<close> and
  \<open>setIndicationFilter\<close>, which behave differently (below).
\<close>

theorem structured_methods_answer:
  "answers (dial_strings dialInfo) ''dialResponse'' RIL_REQUEST_DIAL (dial_payload dialInfo) (\<lambda>W serial. dial W serial dialInfo) \<and>
   answers [hi_path iccIo, hi_data iccIo, hi_pin2 iccIo, hi_aid iccIo] ''iccIOForAppResponse'' RIL_REQUEST_SIM_IO (PSimIo \<lparr>io_cla = 0, io_command = hi_command iccIo, io_fileid = hi_fileId iccIo, io_path = copied_as False (hi_path iccIo),
        io_p1 = hi_p1 iccIo, io_p2 = hi_p2 iccIo, io_p3 = hi_p3 iccIo,
        io_data = copied_as False (hi_data iccIo), io_pin2 = copied_as False (hi_pin2 iccIo), io_aidPtr = copied_as False (hi_aid iccIo)\<rparr>)
     (\<lambda>W serial. iccIOForApp W serial iccIo) \<and>
   answers [hw_pdu args, hw_smsc args] ''writeSmsToSimResponse'' RIL_REQUEST_WRITE_SMS_TO_SIM (PSmsWrite \<lparr>wa_status = hw_status args, wa_pdu = copied_as False (hw_pdu args),
        wa_smsc = copied_as False (hw_smsc args)\<rparr>)
     (\<lambda>W serial. writeSmsToSim W serial args) \<and>
   reaches_vendor ''nvReadItemResponse'' RIL_REQUEST_NV_READ_ITEM (PNvRead itemId)
     (\<lambda>W serial. nvReadItem W serial itemId) \<and>
   answers [val] ''nvWriteItemResponse'' RIL_REQUEST_NV_WRITE_ITEM (PNvWrite itemId (copied_as False val))
     (\<lambda>W serial. nvWriteItem W serial itemId val) \<and>
   answers [] ''nvResetConfigResponse'' RIL_REQUEST_NV_RESET_CONFIG (PInts [case resetType of NvRELOAD \<Rightarrow> 1
        | NvERASE \<Rightarrow> 2 | NvFACTORY_RESET \<Rightarrow> 3 | NvOther _ \<Rightarrow> -1])
     (\<lambda>W serial. nvResetConfig W serial resetType) \<and>
   reaches_vendor ''setUiccSubscriptionResponse'' RIL_REQUEST_SET_UICC_SUBSCRIPTION (PUiccSub
        \<lparr>su_slot = slot, su_app_index = app, su_sub_type = sub, su_act_status = act\<rparr>)
     (\<lambda>W serial. setUiccSubscription W serial slot app sub act) \<and>
   answers [authData, aid] ''requestIccSimAuthenticationResponse'' RIL_REQUEST_SIM_AUTHENTICATION (PSimAuth \<lparr>sa_authContext = ctx,
        sa_authData = copied_as False authData, sa_aid = copied_as False aid\<rparr>)
     (\<lambda>W serial. requestIccSimAuthentication W serial ctx authData aid) \<and>
   answers_in (\<lambda>W _. copy_errors W [aid]) ''iccOpenLogicalChannelResponse'' RIL_REQUEST_SIM_OPEN_CHANNEL
     (\<lambda>_ s. Some (open_payload aid p2 s)) (\<lambda>W serial. iccOpenLogicalChannel W serial aid p2) \<and>
   answers_in (\<lambda>_ _. {}) ''sendCdmaSmsResponse'' RIL_REQUEST_CDMA_SEND_SMS
     (\<lambda>W _. Some (PCdmaSms (cdma_for_vendor W sms))) (\<lambda>W serial. sendCdmaSms W serial sms) \<and>
   reaches_vendor ''acknowledgeLastIncomingCdmaSmsResponse'' RIL_REQUEST_CDMA_SMS_ACKNOWLEDGE (PCdmaAck cls cause)
     (\<lambda>W serial. acknowledgeLastIncomingCdmaSms W serial cls cause) \<and>
   reaches_vendor ''setGsmBroadcastConfigResponse'' RIL_REQUEST_GSM_SET_BROADCAST_SMS_CONFIG (PGsmBroadcast (map (\<lambda>c. \<lparr>gb_fromServiceId = hb_fromServiceId c, gb_toServiceId = hb_toServiceId c,
        gb_fromCodeScheme = hb_fromCodeScheme c, gb_toCodeScheme = hb_toCodeScheme c, gb_selected = (if hb_selected c then 1 else 0)\<rparr>) gsm))
     (\<lambda>W serial. setGsmBroadcastConfig W serial gsm) \<and>
   reaches_vendor ''setCdmaBroadcastConfigResponse'' RIL_REQUEST_CDMA_SET_BROADCAST_SMS_CONFIG (PCdmaBroadcast (map (\<lambda>c. (hx_serviceCategory c,
        hx_language c, if hx_selected c then 1 else 0)) cdma))
     (\<lambda>W serial. setCdmaBroadcastConfig W serial cdma) \<and>
   answers_in (\<lambda>_ _. {}) ''writeSmsToRuimResponse'' RIL_REQUEST_CDMA_WRITE_SMS_TO_RUIM
     (\<lambda>W _. Some (PCdmaWrite st (cdma_for_vendor W sms))) (\<lambda>W serial. writeSmsToRuim W serial st sms) \<and>
   reaches_vendor ''stopKeepaliveResponse'' RIL_REQUEST_STOP_KEEPALIVE (PInts [handle])
     (\<lambda>W serial. stopKeepalive W serial handle) \<and>
   answers_in (\<lambda>W s. copy_errors W [] \<union> refusal (setup_refusal s) (setup_payload tech p cog roam isRoaming s))
     ''setupDataCallResponse'' RIL_REQUEST_SETUP_DATA_CALL (\<lambda>_. setup_payload tech p cog roam isRoaming)
     (\<lambda>W serial. setupDataCall W serial tech p cog roam isRoaming) \<and>
   answers_in (\<lambda>W s. copy_errors W (attach_strings p) \<union> refusal RIL_E_INVALID_ARGUMENTS (attach_payload p cog isRoaming s))
     ''setInitialAttachApnResponse'' RIL_REQUEST_SET_INITIAL_ATTACH_APN (\<lambda>_. attach_payload p cog isRoaming)
     (\<lambda>W serial. setInitialAttachApn W serial p cog isRoaming) \<and>
   answers_in (\<lambda>W _. copy_errors W (ims_strings message) \<union> refusal RIL_E_INVALID_ARGUMENTS (ims_payload message W))
     ''sendImsSmsResponse'' RIL_REQUEST_IMS_SEND_SMS (\<lambda>W _. ims_payload message W) (\<lambda>W serial. sendImsSms W serial message) \<and>
   answers_in (\<lambda>_ _. refusal RIL_E_INVALID_ARGUMENTS (keepalive_payload k)) ''startKeepaliveResponse'' RIL_REQUEST_START_KEEPALIVE
     (\<lambda>_ _. keepalive_payload k) (\<lambda>W serial. startKeepalive W serial k)"
  by (simp only: dial_answers string_structs_answer nv_uicc_answer iccOpenLogicalChannel_answers plain_structs_answer
      setupDataCall_answers setInitialAttachApn_answers sendImsSms_answers startKeepalive_answers simp_thms)

theorem structured_methods_answer_witness:
  "\<exists>s'. dial W0 5 \<lparr>hd_address = hidl_string_of ''112'', hd_clir = 0, hd_uusInfo = []\<rparr> svc0 = Some s' \<and> blocks s' = blocks svc0 \<and>
     calls s' = [(RIL_REQUEST_DIAL, PDial \<lparr>dial_address = Some ''112'', dial_clir = 0, dial_uusInfo = None\<rparr>, 10, 0)]"
proof -
  let ?d = "\<lparr>hd_address = hidl_string_of ''112'', hd_clir = 0, hd_uusInfo = []\<rparr>"
  have "answers (dial_strings d) ''dialResponse'' RIL_REQUEST_DIAL (dial_payload d) (\<lambda>W serial. dial W serial d)" for d
    by (rule structured_methods_answer [THEN conjunct1])
  from this [of ?d] obtain s' where s': "dial W0 5 ?d svc0 = Some s'" "blocks s' = blocks svc0"
      "outcome_in (copy_errors W0 (dial_strings ?d)) W0 5 RIL_REQUEST_DIAL ''dialResponse'' (Some (dial_payload ?d)) svc0 s'"
    unfolding answers_in_def using svc0_simps(5) W0_simps(11) by blast
  have "copy_errors W0 (dial_strings ?d) = {}" by (simp add: copy_errors_def dial_strings_def)
  then show ?thesis
    using s' add_registered [of RIL_REQUEST_DIAL 5 0] by (auto simp: outcome_in_def req_consts dial_payload_def)
qed

text \<open>
  A request that \<open>dispatchStrings\<close> cannot send is answered with an error, but it stays in the list of
  pending requests and its memory stays allocated: the vendor library never got the token, so nobody
  can complete it.
\<close>

theorem failed_request_stays_pending:
  assumes env: "heap_ok s" "vendor_returns W" "answered request"
    and req: "request \<noteq> RIL_REQUEST_SET_NETWORK_SELECTION_MANUAL"
    and add: "addRequestToList (add_env W) serial (mSlotId W) request (rild s) = Some (Some q, r)"
    and run: "dispatchStrings W serial request ae strs s = Some (False, s')"
  shows "\<exists>f e v. out (rild s') = out (rild s) @ [Respond f (mSlotId W) RESPONSE_SOLICITED serial e None] \<and>
    e \<in> copy_errors W [] \<and> calls s' = calls s \<and>
    requests (rild s') q = Some v \<and> token v = serial \<and>
    pendingRequests (rild s') (pendingRequestsHook (SIM_COUNT (rild s)) (mSlotId W)) = Some q"
proof -
  from dispatchStrings_ok [OF env req, of serial ae strs] run add have
    D: "delivers [] W request (PStrings (map (\<lambda>c. if c = [] \<and> \<not> ae then None else Some c) strs)) q (s\<lparr>rild := r\<rparr>) False s'"
    by (auto simp: handled_in_def)
  then obtain e where e: "e \<in> copy_errors W []" "respond_error q e r = Some (rild s')" "calls s' = calls s"
    by (auto simp: delivers_in_def Let_def)
  from add_record [OF add] obtain v where v: "requests r q = Some v" "token v = serial" "socket_id v = mSlotId W" by blast
  obtain f where n: "responseFunction (s_commands ! nat (pCI v)) = Some f"
    using e(2) v(1) by (cases "responseFunction (s_commands ! nat (pCI v))") (simp_all add: respond_error_def)
  have f: "rild s' = emit (Respond f (mSlotId W) RESPONSE_SOLICITED serial e None) r"
    using e(2) v n by (simp add: respond_error_def)
  have "out r = out (rild s)" "pendingRequests r (pendingRequestsHook (SIM_COUNT (rild s)) (mSlotId W)) = Some q"
    using add by (auto simp: addRequestToList_def Let_def split: if_splits option.splits)
  with e f v show ?thesis by (auto simp: emit_def)
qed

theorem failed_request_stays_pending_witness:
  "\<exists>s' f e v. dispatchStrings (W0\<lparr>oom := \<lambda>_. True\<rparr>) 5 RIL_REQUEST_ENTER_SIM_PIN True [''1234'', ''''] svc0 = Some (False, s') \<and>
    out (rild s') = [RegisterService, Respond f 0 RESPONSE_SOLICITED 5 e None] \<and> calls s' = [] \<and>
    requests (rild s') 10 = Some v \<and> token v = 5 \<and> pendingRequests (rild s') 0 = Some 10"
proof -
  let ?W = "W0\<lparr>oom := \<lambda>_. True\<rparr>" and ?R = "RIL_REQUEST_ENTER_SIM_PIN"
  have n: "responseFunction (s_commands ! nat ?R) = Some ''supplyIccPinForAppResponse''"
    by (simp add: RIL_REQUEST_ENTER_SIM_PIN_def s_commands_def cmd_def)
  have a: "answered ?R" "?R \<noteq> RIL_REQUEST_SET_NETWORK_SELECTION_MANUAL"
    using answered_row [OF _ _ n] by (simp_all add: RIL_REQUEST_ENTER_SIM_PIN_def RIL_REQUEST_SET_NETWORK_SELECTION_MANUAL_def)
  have V: "vendor_returns ?W" by (simp add: vendor_returns_def)
  obtain r where r: "addRequestToList env0 5 0 ?R registered_ril = Some (Some 10, r)"
      "requests r = [10 \<mapsto> \<lparr>token = 5, pCI = ?R, p_next = pendingRequests registered_ril 0,
        cancelled = 0, local_cmd = 0, socket_id = 0, wasAckSent = 0\<rparr>]"
    using add_registered [of ?R 5 0] by (auto simp: RIL_REQUEST_ENTER_SIM_PIN_def)
  have run: "\<exists>s'. dispatchStrings ?W 5 ?R True [''1234'', ''''] svc0 = Some (False, s')"
    using r n by (simp add: dispatchStrings_def with_request_def addRequest_def send_strings_def new_block_def
        sendErrorResponse_def respond_error_def)
  then obtain s' where s': "dispatchStrings ?W 5 ?R True [''1234'', ''''] svc0 = Some (False, s')" by blast
  from failed_request_stays_pending [OF svc0_simps(5) V a _ s', of 10 r] r(1) s' show ?thesis
    by (auto simp: pendingRequestsHook_def)
qed

text \<open>
  With a vendor library older than version 15, \<open>setIndicationFilter\<close> and \<open>sendDeviceState\<close> (for other
  states than low data) pass the result of \<open>addRequestToList\<close> on without a test: when there is no memory
  for the request they dereference NULL.
\<close>

theorem unchecked_reject_crashes:
  assumes "version (rild s) < 15" "calloc (add_env W) (rild s) = None" "deviceStateType \<noteq> LOW_DATA_EXPECTED W"
  shows "setIndicationFilter W serial indicationFilter s = None \<and> sendDeviceState W serial deviceStateType st s = None"
  using assms
  by (simp add: setIndicationFilter_def sendDeviceState_def reject_unchecked_def addRequest_def addRequestToList_def
      length_s_commands req_consts sendErrorResponse_def)

theorem unchecked_reject_crashes_witness:
  "setIndicationFilter (W0\<lparr>add_env := env0\<lparr>calloc_at := None\<rparr>\<rparr>) 7 3 svc0 = None \<and>
   sendDeviceState (W0\<lparr>add_env := env0\<lparr>calloc_at := None\<rparr>\<rparr>) 7 0 True svc0 = None"
  by (rule unchecked_reject_crashes) (simp_all add: calloc_def)

text \<open>
  \<open>copyHidlStringToRil\<close> does not detect every discrepancy between \<open>size()\<close> and \<open>c_str()\<close>: a string
  with an embedded NUL is longer than its C string, and the function reports success with the copy
  cut short at the NUL.
\<close>

theorem embedded_nul_truncates:
  assumes "length (hs_chars src) < hs_size src" "\<not> oom W (allocs s)"
  shows "\<exists>dest s'. copyHidlStringToRil W src p allowEmpty s = Some (Some (Some dest), s') \<and>
    str_at s' (Some dest) = Some (Some (hs_chars src)) \<and> rild s' = rild s"
  using assms
  by (intro exI [of _ "allocs s"] exI [of _ "snd (new_block W (Chars (take (hs_size src) (hs_chars src))) s)"])
    (auto simp: copyHidlStringToRil_def new_block_def str_at_def Let_def)

theorem embedded_nul_truncates_witness:
  "\<exists>dest s'. copyHidlStringToRil W0 \<lparr>hs_size = 5, hs_chars = ''12''\<rparr> 10 False svc0 = Some (Some (Some dest), s') \<and>
    str_at s' (Some dest) = Some (Some ''12'')"
  using embedded_nul_truncates [of "\<lparr>hs_size = 5, hs_chars = ''12''\<rparr>" W0 svc0 10 False] by simp blast

text \<open>
  The CDMA message for the vendor: the digits that are copied fit the arrays, but the lengths are not
  clamped to them: \<open>number_of_digits\<close> is the number of digits modulo 256, so for an address of more
  digits than the array holds the vendor is told more digits than were copied.
\<close>

theorem cdma_sms_lengths:
  "cd_digits (constructCdmaSms W sms) = take (min (length (hs_digits sms) mod 256) (ADDRESS_MAX W)) (hs_digits sms) \<and>
   unat (cd_number_of_digits (constructCdmaSms W sms)) = length (hs_digits sms) mod 256 \<and>
   length (cd_digits (constructCdmaSms W sms)) =
     min (unat (cd_number_of_digits (constructCdmaSms W sms))) (ADDRESS_MAX W) \<and>
   length (cd_subDigits (constructCdmaSms W sms)) =
     min (unat (cd_sub_number_of_digits (constructCdmaSms W sms))) (SUBADDRESS_MAX W) \<and>
   cd_aBearerData (constructCdmaSms W sms) = take (BEARER_DATA_MAX W) (hs_bearerData sms) \<and>
   cd_uBearerDataLen (constructCdmaSms W sms) = int (length (hs_bearerData sms))"
proof -
  have take_map: "map (\<lambda>i. xs ! i) [0..<n] = take n xs" if "n \<le> length xs" for n and xs :: "u8 list"
    by (rule nth_equalityI) (use that in simp_all)
  have le: "min (length xs mod 256) n \<le> length xs" for n and xs :: "u8 list"
    by (rule order_trans [OF min.cobounded1 mod_less_eq_dividend])
  have u: "unat (word_of_nat n :: u8) = n mod 256" for n by (simp add: unat_of_nat)
  have t: "take (min a b) xs = take (min a b) xs" for a b and xs :: "u8 list" ..
  show ?thesis
    unfolding constructCdmaSms_def Let_def RIL_CDMA_SMS_Message.simps u
    by (simp only: take_map [OF le] take_map [OF min.cobounded1])
      (simp add: min.absorb2 order_trans [OF min.cobounded1 mod_less_eq_dividend] min_def)
qed

text \<open>A body that calls the vendor with the structure it could build, and answers with an error otherwise.\<close>

definition send_checked :: "radio_env \<Rightarrow> int \<Rightarrow> payload option \<Rightarrow> addr \<Rightarrow> svc \<Rightarrow> (bool \<times> svc) option" where
  "send_checked W request c q t =
     (case c of
        None \<Rightarrow> do { s1 \<leftarrow> sendErrorResponse (Some q) RIL_E_INVALID_ARGUMENTS t; Some (False, s1) }
      | Some d \<Rightarrow> do { s1 \<leftarrow> CALL_ONREQUEST W request d q (mSlotId W) t; Some (True, s1) })"

lemma send_checked_calls:
  assumes "discard (with_request W serial request (send_checked W request c) s) = Some s'" "calls s' \<noteq> calls s"
  shows "\<exists>d q sock. c = Some d \<and> calls s' = calls s @ [(request, d, q, sock)]"
proof -
  from assms(1) obtain p s1 ok where add: "addRequest W serial request s = Some (p, s1)" and
    run: "(case p of None \<Rightarrow> Some (False, s1) | Some q \<Rightarrow> send_checked W request c q s1) = Some (ok, s')"
    by (auto simp: discard_def with_request_def bind_eq_Some_conv)
  have c1: "calls s1 = calls s" using add by (auto simp: addRequest_def bind_eq_Some_conv)
  with run assms(2) obtain q where "send_checked W request c q s1 = Some (ok, s')" by (cases p) auto
  with c1 assms(2) show ?thesis
    by (cases c) (auto simp: send_checked_def bind_eq_Some_conv sendErrorResponse_def CALL_ONREQUEST_def Let_def)
qed

text \<open>
  A keepalive reaches the vendor only with addresses of the length of its family, 4 or 16 bytes, so
  the copies stay inside the 16 bytes of \<open>RIL_KeepaliveRequest\<close>.
\<close>

theorem keepalive_addresses_fit:
  assumes "startKeepalive W serial k s = Some s'" "calls s' \<noteq> calls s"
  shows "(hk_type k = NATT_IPV4 \<and> length (hk_sourceAddress k) = 4 \<and> length (hk_destinationAddress k) = 4 \<or>
     hk_type k = NATT_IPV6 \<and> length (hk_sourceAddress k) = 16 \<and> length (hk_destinationAddress k) = 16) \<and>
    (\<exists>q sock. calls s' = calls s @ [(RIL_REQUEST_START_KEEPALIVE, PKeepalive
       \<lparr>ka_type = hk_type k, ka_sourceAddress = hk_sourceAddress k, ka_sourcePort = hk_sourcePort k,
        ka_destinationAddress = hk_destinationAddress k, ka_destinationPort = hk_destinationPort k,
        ka_maxKeepaliveIntervalMillis = hk_interval k, ka_cid = hk_cid k\<rparr>, q, sock)])"
proof -
  let ?ok = "hk_type k = NATT_IPV4 \<and> length (hk_sourceAddress k) = 4 \<and> length (hk_destinationAddress k) = 4 \<or>
     hk_type k = NATT_IPV6 \<and> length (hk_sourceAddress k) = 16 \<and> length (hk_destinationAddress k) = 16"
  let ?b = "PKeepalive \<lparr>ka_type = hk_type k, ka_sourceAddress = hk_sourceAddress k, ka_sourcePort = hk_sourcePort k,
      ka_destinationAddress = hk_destinationAddress k, ka_destinationPort = hk_destinationPort k,
      ka_maxKeepaliveIntervalMillis = hk_interval k, ka_cid = hk_cid k\<rparr>"
  have choose: "(if hk_type k = NATT_IPV4 then
        if length (hk_sourceAddress k) \<noteq> 4 \<or> length (hk_destinationAddress k) \<noteq> 4 then y else x
      else if hk_type k = NATT_IPV6 then
        if length (hk_sourceAddress k) \<noteq> 16 \<or> length (hk_destinationAddress k) \<noteq> 16 then y else x
      else y) = (if ?ok then x else y)" for x y :: "(bool \<times> svc) option"
    by (simp add: NATT_IPV4_def NATT_IPV6_def)
  have "startKeepalive W serial k s = discard (with_request W serial RIL_REQUEST_START_KEEPALIVE
      (send_checked W RIL_REQUEST_START_KEEPALIVE (if ?ok then Some ?b else None)) s)"
    unfolding startKeepalive_def send_checked_def Let_def choose by (cases ?ok) (simp_all only: if_True if_False option.case)
  from send_checked_calls [OF assms(1) [unfolded this] assms(2)] show ?thesis
    by (cases ?ok) auto
qed

theorem keepalive_addresses_fit_witness:
  "\<exists>k s' q sock. startKeepalive W0 3 k svc0 = Some s' \<and> length (hk_sourceAddress k) = 4 \<and>
    calls s' = [(RIL_REQUEST_START_KEEPALIVE, PKeepalive
       \<lparr>ka_type = 0, ka_sourceAddress = [10, 0, 0, 1], ka_sourcePort = 4500, ka_destinationAddress = [10, 0, 0, 2],
        ka_destinationPort = 4500, ka_maxKeepaliveIntervalMillis = 20000, ka_cid = 1\<rparr>, q, sock)]"
proof -
  define k where "k = \<lparr>hk_type = 0, hk_sourceAddress = [10, 0, 0, 1 :: u8], hk_sourcePort = 4500,
    hk_destinationAddress = [10, 0, 0, 2 :: u8], hk_destinationPort = 4500, hk_interval = 20000, hk_cid = 1\<rparr>"
  have k: "hk_type k = 0" "hk_sourceAddress k = [10, 0, 0, 1]" "hk_destinationAddress k = [10, 0, 0, 2]" "hk_sourcePort k = 4500"
    "hk_destinationPort k = 4500" "hk_interval k = 20000" "hk_cid k = 1"
    by (simp_all add: k_def)
  have "\<exists>s'. startKeepalive W0 3 k svc0 = Some s' \<and> calls s' \<noteq> []"
    using add_registered [of RIL_REQUEST_START_KEEPALIVE 3 0] k
    by (auto simp: RIL_REQUEST_START_KEEPALIVE_def startKeepalive_def NATT_IPV4_def discard_def with_request_def
        addRequest_def CALL_ONREQUEST_def)
  then obtain s' where s': "startKeepalive W0 3 k svc0 = Some s'" "calls s' \<noteq> calls svc0" by auto
  from keepalive_addresses_fit [OF s'] s'(1) k show ?thesis
    by (intro exI [of _ k] exI [of _ s']) (auto simp: NATT_IPV4_def NATT_IPV6_def)
qed

text \<open>
  After \<open>setCarrierInfoForImsiEncryption\<close> has handed the key over, the copies of the network codes
  and of the key identifier are still on the heap: only the key is freed.
\<close>

theorem imsi_strings_leak:
  assumes ok: "heap_ok s" and V: "vendor_returns W" and mem: "\<And>n. \<not> oom W n"
    and add: "addRequestToList (add_env W) serial (mSlotId W) RIL_REQUEST_SET_CARRIER_INFO_IMSI_ENCRYPTION (rild s) = Some (Some q, r)"
    and full: "hs_size (he_mnc d) \<noteq> 0" "hs_size (he_mcc d) \<noteq> 0" "hs_size (he_keyIdentifier d) \<noteq> 0"
    and fit: "length (hs_chars (he_mnc d)) \<le> hs_size (he_mnc d)" "length (hs_chars (he_mcc d)) \<le> hs_size (he_mcc d)"
      "length (hs_chars (he_keyIdentifier d)) \<le> hs_size (he_keyIdentifier d)"
  shows "\<exists>s'. setCarrierInfoForImsiEncryption W serial d s = Some s' \<and>
    blocks s' = (blocks s)(allocs s \<mapsto> Chars (hs_chars (he_mnc d)), allocs s + 1 \<mapsto> Chars (hs_chars (he_mcc d)),
      allocs s + 2 \<mapsto> Chars (hs_chars (he_keyIdentifier d)))"
proof -
  let ?n = "allocs s" and ?R = "RIL_REQUEST_SET_CARRIER_INFO_IMSI_ENCRYPTION"
  have copy: "copyHidlStringToRil W src q False t = Some (Some (Some (allocs t)),
      t\<lparr>allocs := Suc (allocs t), blocks := (blocks t)(allocs t \<mapsto> Chars (hs_chars src))\<rparr>)"
    if "hs_size src \<noteq> 0" "length (hs_chars src) \<le> hs_size src" for src t
    using that mem by (simp add: copyHidlStringToRil_def new_block_def Let_def)
  let ?h = "(blocks s)(?n \<mapsto> Chars (hs_chars (he_mnc d)), Suc ?n \<mapsto> Chars (hs_chars (he_mcc d)),
      Suc (Suc ?n) \<mapsto> Chars (hs_chars (he_keyIdentifier d)))"
  let ?t = "s\<lparr>rild := r, allocs := Suc (Suc (Suc ?n)), blocks := ?h\<rparr>"
  let ?ps = "[Some ?n, Some (Suc ?n), Some (Suc (Suc ?n))]"
  have fields: "copy_fields W [(he_mnc d, False), (he_mcc d, False), (he_keyIdentifier d, False)] q [] (s\<lparr>rild := r\<rparr>) =
      Some (Some ?ps, ?t)"
    by (simp add: copy [OF full(1) fit(1)] copy [OF full(2) fit(2)] copy [OF full(3) fit(3)])
  let ?k = "Suc (Suc (Suc ?n))"
  obtain t1 where nb: "new_block W (Bytes (he_carrierKey d)) ?t = (Some ?k, t1)" and
    t1: "blocks t1 = ?h(?k \<mapsto> Bytes (he_carrierKey d))"
    using mem by (simp add: new_block_def)
  let ?cs = "[Some (hs_chars (he_mnc d)), Some (hs_chars (he_mcc d)), Some (hs_chars (he_keyIdentifier d))]"
  have strs: "strs_at t1 ?ps = Some ?cs" by (simp add: str_at_def t1)
  let ?b = "PImsiEncryption \<lparr>ie_mcc = ?cs ! 1, ie_mnc = ?cs ! 0, ie_carrierKey = he_carrierKey d,
      ie_carrierKeyLength = int (length (he_carrierKey d)), ie_keyIdentifier = ?cs ! 2,
      ie_expirationTime = he_expirationTime d\<rparr>"
  from call_ok_vendor [OF V, of ?R ?b q "mSlotId W" t1] obtain t2 where
    t2: "CALL_ONREQUEST W ?R ?b q (mSlotId W) t1 = Some t2" "blocks t2 = blocks t1" by blast
  have "free_block ?k t2 = Some (t2\<lparr>blocks := (blocks t2)(?k := None)\<rparr>)" by (simp add: free_block_def t2(2) t1)
  then have "setCarrierInfoForImsiEncryption W serial d s = Some (t2\<lparr>blocks := (blocks t2)(?k := None)\<rparr>)"
    unfolding setCarrierInfoForImsiEncryption_def with_request_def addRequest_def add with_strings_def
    by (simp add: discard_def fields nb strs t2(1) [simplified] del: copy_fields.simps strs_at.simps)
  moreover have "(blocks t2)(?k := None) = ?h" using ok t2(2) t1 by (auto simp: heap_ok_def fun_eq_iff)
  ultimately show ?thesis by simp
qed

theorem imsi_strings_leak_witness:
  "\<exists>s'. setCarrierInfoForImsiEncryption W0 9
      \<lparr>he_mcc = hidl_string_of ''310'', he_mnc = hidl_string_of ''260'', he_carrierKey = [1, 2],
       he_keyIdentifier = hidl_string_of ''k'', he_expirationTime = 0\<rparr> svc0 = Some s' \<and>
    blocks s' = [0 \<mapsto> Chars ''260'', 1 \<mapsto> Chars ''310'', 2 \<mapsto> Chars ''k'']"
proof -
  obtain r where "addRequestToList env0 9 0 RIL_REQUEST_SET_CARRIER_INFO_IMSI_ENCRYPTION registered_ril = Some (Some 10, r)"
    using add_registered [of RIL_REQUEST_SET_CARRIER_INFO_IMSI_ENCRYPTION 9 0]
    by (auto simp: RIL_REQUEST_SET_CARRIER_INFO_IMSI_ENCRYPTION_def)
  then show ?thesis
    using imsi_strings_leak [of svc0 W0 9 10 r "\<lparr>he_mcc = hidl_string_of ''310'', he_mnc = hidl_string_of ''260'',
        he_carrierKey = [1, 2], he_keyIdentifier = hidl_string_of ''k'', he_expirationTime = 0\<rparr>"]
    by (simp add: numeral_2_eq_2)
qed

text \<open>
  C37. Request and answer across the two components: after a plain request (here with integers) was
  handed to a vendor library that keeps it, the vendor's completion of the token reaches the client as
  exactly one response, of the request's row, with the serial and the slot of the call and the vendor's
  error and data.
\<close>

theorem request_roundtrip:
  assumes reach: "reachable prog (rild s)" and env: "heap_ok s" "answered request"
    and keeps: "\<And>d q e r. onRequest W request d q e r = Some r"
    and mem: "\<And>n. \<not> oom W n" and c: "calloc (add_env W) (rild s) = Some q"
  shows "\<exists>s' r f. dispatchInts W serial request ints s = Some (True, s') \<and>
    calls s' = calls s @ [(request, PInts ints, q, if 2 \<le> SIM_COUNT (rild s) then mSlotId W else 0)] \<and>
    responseFunction (s_commands ! nat request) = Some f \<and>
    RIL_onRequestComplete en (Some q) e resp (rild s') = Some r \<and> requests r q = None \<and>
    filter is_response (out r) = filter is_response (out (rild s)) @
      [Respond f (mSlotId W) RESPONSE_SOLICITED serial e resp]"
proof -
  from reachable_inv [OF reach] obtain ts where I: "full_inv {} (rild s) ts []" by blast
  from full_invD(3) [OF I] obtain qs where P: "pend_inv {} (rild s) qs" by blast
  let ?h = "pendingRequestsHook (SIM_COUNT (rild s)) (mSlotId W)"
  from env(2) obtain f where n: "0 \<le> request" "request < int (length s_commands)"
    "responseFunction (s_commands ! nat request) = Some f" by (auto simp: answered_def)
  from addRequest_ok [OF P c n(1,2) refl, of serial "mSlotId W"] obtain r1 where
    a: "addRequestToList (add_env W) serial (mSlotId W) request (rild s) = Some (Some q, r1)"
      "pend_inv {} r1 (qs(?h := q # qs ?h))" and
    eq: "r1 = (rild s)\<lparr>requests := (requests (rild s))(q \<mapsto> \<lparr>token = serial, pCI = request,
           p_next = pendingRequests (rild s) ?h, cancelled = 0, local_cmd = 0, socket_id = mSlotId W, wasAckSent = 0\<rparr>),
           pendingRequests := (pendingRequests (rild s))(?h := Some q)\<rparr>"
    by blast
  have v: "requests r1 q = Some \<lparr>token = serial, pCI = request, p_next = pendingRequests (rild s) ?h,
      cancelled = 0, local_cmd = 0, socket_id = mSlotId W, wasAckSent = 0\<rparr>" and o: "out r1 = out (rild s)"
    by (simp_all add: eq)
  have L: "list_inv {} r1 ts []" "wake_inv {} r1"
    using full_invD(1,2) [OF I] inv_requests [OF eq] by simp_all
  have "q \<in> outstanding (qs(?h := q # qs ?h))" by (simp add: outstanding_upd)
  from complete_total [OF L a(2) this v, of f en e resp] n(3) obtain r2 where
    r2: "RIL_onRequestComplete en (Some q) e resp r1 = Some r2" "requests r2 q = None"
      "filter is_response (out r2) = filter is_response (out r1) @ [Respond f (mSlotId W) RESPONSE_SOLICITED serial e resp]"
    by (auto simp: completion_def)
  let ?s = "s\<lparr>rild := r1, allocs := Suc (allocs s)\<rparr>"
  have "\<exists>s'. dispatchInts W serial request ints s = Some (True, s') \<and> rild s' = r1 \<and>
      calls s' = calls s @ [(request, PInts ints, q, if 2 \<le> SIM_COUNT (rild s) then mSlotId W else 0)]"
    using a(1) mem keeps
    by (simp add: dispatchInts_def with_request_def addRequest_def new_block_def CALL_ONREQUEST_def free_block_def eq)
  with r2 n(3) o show ?thesis by metis
qed

theorem request_roundtrip_witness:
  "\<exists>s' r. dispatchInts W0 21 RIL_REQUEST_HANGUP [1] svc0 = Some (True, s') \<and>
    calls s' = [(RIL_REQUEST_HANGUP, PInts [1], 10, 0)] \<and>
    RIL_onRequestComplete env0 (Some 10) RIL_E_SUCCESS None (rild s') = Some r \<and>
    filter is_response (out r) = [Respond ''hangupConnectionResponse'' 0 RESPONSE_SOLICITED 21 RIL_E_SUCCESS None]"
proof -
  have n: "responseFunction (s_commands ! nat RIL_REQUEST_HANGUP) = Some ''hangupConnectionResponse''"
    by (simp add: RIL_REQUEST_HANGUP_def s_commands_def cmd_def)
  then have a: "answered RIL_REQUEST_HANGUP"
    by (rule answered_row [rotated 2]) (simp_all add: RIL_REQUEST_HANGUP_def)
  from request_roundtrip [where s = svc0 and W = W0 and q = 10 and serial = 21 and ints = "[1]" and en = env0
      and e = RIL_E_SUCCESS and resp = None and prog = silent, OF _ _ a] registered_reachable n show ?thesis
    by auto
qed

text \<open>
  Manual network selection with one SIM and a vendor library that takes the request without
  answering: the service itself completes the request with success, once, under the serial of the
  call; the token is retired, so a completion the vendor sends later changes nothing, and the heap is
  as before.
\<close>

theorem manual_selection_faked:
  assumes reach: "reachable prog (rild s)" and one: "SIM_COUNT (rild s) < 2" and ok: "heap_ok s"
    and keeps: "\<And>a d q e r. onRequest W a d q e r = Some r"
    and mem: "\<And>n. \<not> oom W n" and c: "calloc (add_env W) (rild s) = Some q"
  shows "\<exists>s'. setNetworkSelectionModeManual W serial operatorNumeric s = Some s' \<and> blocks s' = blocks s \<and>
    (\<exists>d. calls s' = calls s @ [(RIL_REQUEST_SET_NETWORK_SELECTION_MANUAL, d, q, 0)]) \<and>
    requests (rild s') q = None \<and>
    filter is_response (out (rild s')) = filter is_response (out (rild s)) @
      [Respond ''setNetworkSelectionModeManualResponse'' (mSlotId W) RESPONSE_SOLICITED serial RIL_E_SUCCESS None] \<and>
    (\<forall>en e resp. RIL_onRequestComplete en (Some q) e resp (rild s') = Some (rild s'))"
proof -
  let ?R = "RIL_REQUEST_SET_NETWORK_SELECTION_MANUAL" and ?f = "''setNetworkSelectionModeManualResponse''"
  have row: "0 \<le> ?R" "?R < int (length s_commands)" "responseFunction (s_commands ! nat ?R) = Some ?f"
    by (simp_all add: RIL_REQUEST_SET_NETWORK_SELECTION_MANUAL_def length_s_commands) (simp add: s_commands_def cmd_def)
  from reachable_inv [OF reach] obtain ts where I: "full_inv {} (rild s) ts []" by blast
  from full_invD(3) [OF I] obtain qs where P: "pend_inv {} (rild s) qs" by blast
  let ?h = "pendingRequestsHook (SIM_COUNT (rild s)) (mSlotId W)"
  from addRequest_ok [OF P c row(1,2) refl, of serial "mSlotId W"] obtain r1 where
    a: "addRequestToList (add_env W) serial (mSlotId W) ?R (rild s) = Some (Some q, r1)"
      "pend_inv {} r1 (qs(?h := q # qs ?h))" and
    eq: "r1 = (rild s)\<lparr>requests := (requests (rild s))(q \<mapsto> \<lparr>token = serial, pCI = ?R,
           p_next = pendingRequests (rild s) ?h, cancelled = 0, local_cmd = 0, socket_id = mSlotId W, wasAckSent = 0\<rparr>),
           pendingRequests := (pendingRequests (rild s))(?h := Some q)\<rparr>"
    by blast
  have v: "requests r1 q = Some \<lparr>token = serial, pCI = ?R, p_next = pendingRequests (rild s) ?h,
      cancelled = 0, local_cmd = 0, socket_id = mSlotId W, wasAckSent = 0\<rparr>" and o: "out r1 = out (rild s)"
    and n1: "SIM_COUNT r1 < 2"
    using one by (simp_all add: eq)
  have L: "list_inv {} r1 ts []" "wake_inv {} r1"
    using full_invD(1,2) [OF I] inv_requests [OF eq] by simp_all
  have "q \<in> outstanding (qs(?h := q # qs ?h))" by (simp add: outstanding_upd)
  from complete_total [OF L a(2) this v, of ?f "done_env W" RIL_E_SUCCESS None] row(3) obtain r2 qs' where
    r2: "RIL_onRequestComplete (done_env W) (Some q) RIL_E_SUCCESS None r1 = Some r2" "requests r2 q = None"
      "filter is_response (out r2) = filter is_response (out r1) @ [Respond ?f (mSlotId W) RESPONSE_SOLICITED serial RIL_E_SUCCESS None]"
      "SIM_COUNT r2 = SIM_COUNT r1" "pend_inv {} r2 qs'" "q \<notin> outstanding qs'"
    by (auto simp: completion_def)
  have stale: "RIL_onRequestComplete en (Some q) e resp r2 = Some r2" for en e resp
    using complete_stale(1) [OF r2(5)] r2(4,6) n1 by simp
  have V: "vendor_returns W" using keeps by (simp add: vendor_returns_def)
  obtain num where num: "setNetworkSelectionModeManual W serial operatorNumeric s =
      discard (dispatchStrings W serial ?R True [num] s)"
    unfolding setNetworkSelectionModeManual_def Let_def by blast
  have "heap_ok (s\<lparr>rild := r1\<rparr>)" "answerable q (rild (s\<lparr>rild := r1\<rparr>))"
    using ok v row(3) by (auto simp: heap_ok_def answerable_def)
  from send_strings_ok [OF this V, of ?R PStrings True "map hidl_string_of [num]"] obtain sent s1 where
    s1: "send_strings W ?R PStrings True (map hidl_string_of [num]) q (s\<lparr>rild := r1\<rparr>) = Some (sent, s1)"
      "delivers (map hidl_string_of [num]) W ?R (PStrings (map (copied_as True) (map hidl_string_of [num]))) q (s\<lparr>rild := r1\<rparr>) sent s1" by blast
  have sent
    using s1(1) mem keeps
    by (simp add: send_strings_def new_block_def copyHidlStringToRil_def store_ptr_def ptrs_at_def str_at_def
        CALL_ONREQUEST_def free_block_def Let_def split: option.splits if_splits)
  with s1(2) one keeps n1 have d: "rild s1 = r1" "blocks s1 = blocks s"
      "calls s1 = calls s @ [(?R, PStrings (map (copied_as True) (map hidl_string_of [num])), q, 0)]"
    by (auto simp: delivers_in_def Let_def)
  have "setNetworkSelectionModeManual W serial operatorNumeric s = Some (s1\<lparr>rild := r2\<rparr>)"
    unfolding num discard_def dispatchStrings_def with_request_def addRequest_def
    using a(1) s1(1) \<open>sent\<close> r2(1) d(1) by simp
  then show ?thesis using d r2(2,3) o stale by (intro exI [of _ "s1\<lparr>rild := r2\<rparr>"]) simp
qed

theorem manual_selection_faked_witness:
  "\<exists>s'. setNetworkSelectionModeManual W0 4 (hidl_string_of ''26201'') svc0 = Some s' \<and>
    filter is_response (out (rild s')) =
      [Respond ''setNetworkSelectionModeManualResponse'' 0 RESPONSE_SOLICITED 4 RIL_E_SUCCESS None] \<and>
    RIL_onRequestComplete env0 (Some 10) 1 None (rild s') = Some (rild s')"
  using manual_selection_faked [where s = svc0 and W = W0 and q = 10 and serial = 4
      and operatorNumeric = "hidl_string_of ''26201''" and prog = silent] registered_reachable
  by auto

end
