(* ===== verification/RadioProfiles.thy ===== *)
theory RadioProfiles
  imports RadioMethods "HOL-Library.Multiset"
begin

text \<open>
  The methods of \<open>RadioImpl\<close> (\<open>libril/ril_service.cpp\<close>) that hand lists of structures to the vendor:
  network scans, data profiles, radio capabilities and carrier restrictions. The arrays of
  \<open>setDataProfile\<close> hold the strings of all profiles, one profile after the other; they are freed field by
  field.
\<close>

section \<open>Network scans\<close>

definition MAX_BANDS :: nat where "MAX_BANDS = 8"
definition MAX_CHANNELS :: nat where "MAX_CHANNELS = 32"
definition MAX_RADIO_ACCESS_NETWORKS :: nat where "MAX_RADIO_ACCESS_NETWORKS = 8"
definition MAX_UUID_LENGTH :: nat where "MAX_UUID_LENGTH = 64"

definition GERAN :: int where "GERAN = 1"
definition UTRAN :: int where "UTRAN = 2"
definition EUTRAN :: int where "EUTRAN = 3"

text \<open>
  One pass of the loop; \<open>None\<close> answers the request with an error. The bands are read through a pointer
  that is cast from one vector class to another; the model reads the vector it came from.
\<close>

definition scan_specifier :: "hidl_radio_access_specifier \<Rightarrow> RIL_RadioAccessSpecifier option" where
  "scan_specifier r =
     (if MAX_BANDS < length (hn_geranBands r) \<or> MAX_BANDS < length (hn_utranBands r) \<or>
         MAX_BANDS < length (hn_eutranBands r) \<or> MAX_CHANNELS < length (hn_channels r)
      then None
      else
        let to = (\<lambda>network bands.
               let n = (word_of_nat (length bands) :: u32)
               in Some \<lparr>sp_radio_access_network = network, sp_bands_length = n,
                        sp_bands = take (unat n) bands,
                        sp_channels_length = word_of_nat (length (hn_channels r)), sp_channels = hn_channels r\<rparr>)
        in case hn_radioAccessNetwork r of
             RanGERAN \<Rightarrow> to GERAN (hn_geranBands r)
           | RanUTRAN \<Rightarrow> to UTRAN (hn_utranBands r)
           | RanEUTRAN \<Rightarrow> to EUTRAN (hn_eutranBands r)
           | RanOther _ \<Rightarrow> None)"

definition startNetworkScan :: "radio_env \<Rightarrow> int \<Rightarrow> hidl_network_scan \<Rightarrow> svc \<Rightarrow> svc option" where
  "startNetworkScan W serial request s = discard (with_request W serial RIL_REQUEST_START_NETWORK_SCAN (\<lambda>pRI s.
     let invalid = do { s1 \<leftarrow> sendErrorResponse (Some pRI) RIL_E_INVALID_ARGUMENTS s; Some (False, s1) }
     in if MAX_RADIO_ACCESS_NETWORKS < length (hn_specifiers request) then invalid
        else case those (map scan_specifier (hn_specifiers request)) of
               None \<Rightarrow> invalid
             | Some specifiers \<Rightarrow> do {
                 s1 \<leftarrow> CALL_ONREQUEST W RIL_REQUEST_START_NETWORK_SCAN
                   (PNetworkScan \<lparr>ns_type = hn_scanType request, ns_interval = hn_scanInterval request,
                      ns_specifiers_length = word_of_nat (length (hn_specifiers request)),
                      ns_specifiers = specifiers\<rparr>) pRI (mSlotId W) s;
                 Some (True, s1) }) s)"

section \<open>Data profiles\<close>

text \<open>The strings of one profile, copied in order to the places from \<open>k\<close> on; a failure stops the copying.\<close>

fun copy_profile :: "radio_env \<Rightarrow> addr \<Rightarrow> addr \<Rightarrow> nat \<Rightarrow> (hidl_string \<times> bool) list \<Rightarrow> svc \<Rightarrow> (bool \<times> svc) option" where
  "copy_profile W dataProfiles pRI k [] s = Some (True, s)"
| "copy_profile W dataProfiles pRI k ((src, allowEmpty) # fs) s = do {
     (copied, s1) \<leftarrow> copyHidlStringToRil W src pRI allowEmpty s;
     case copied of
       None \<Rightarrow> Some (False, s1)
     | Some dest \<Rightarrow> do {
         s2 \<leftarrow> store_ptr dataProfiles k dest s1;
         copy_profile W dataProfiles pRI (Suc k) fs s2 } }"

text \<open>
  The loop over the profiles: the strings of each, and whether its MVNO type has a name (in the older
  structure there is none to check).
\<close>

fun fill_profiles ::
  "radio_env \<Rightarrow> addr \<Rightarrow> addr \<Rightarrow> nat \<Rightarrow> ((hidl_string \<times> bool) list \<times> bool) list \<Rightarrow> svc \<Rightarrow> (bool \<times> svc) option" where
  "fill_profiles W dataProfiles pRI k [] s = Some (True, s)"
| "fill_profiles W dataProfiles pRI k ((fs, known) # ps) s = do {
     (success, s1) \<leftarrow> copy_profile W dataProfiles pRI k fs s;
     if \<not> success then Some (False, s1)
     else if \<not> known then do { s2 \<leftarrow> sendErrorResponse (Some pRI) RIL_E_INVALID_ARGUMENTS s1; Some (False, s2) }
     else fill_profiles W dataProfiles pRI (k + length fs) ps s1 }"

text \<open>The order in which the strings are freed: the fields one after the other, each of all profiles.\<close>

definition field_order :: "nat \<Rightarrow> nat \<Rightarrow> nat list" where
  "field_order numfields numProfiles =
     concat (map (\<lambda>i. map (\<lambda>j. j * numfields + i) [0..<numProfiles]) [0..<numfields])"

definition freeSetDataProfileData :: "nat \<Rightarrow> addr \<Rightarrow> addr \<Rightarrow> nat \<Rightarrow> svc \<Rightarrow> svc option" where
  "freeSetDataProfileData numProfiles dataProfiles dataProfilePtrs numfields s = do {
     ps \<leftarrow> ptrs_at s dataProfiles;
     s1 \<leftarrow> memsetAndFreeStrings (map ((!) ps) (field_order numfields numProfiles)) s;
     s2 \<leftarrow> free_block dataProfiles s1;
     free_block dataProfilePtrs s2 }"

text \<open>The branch for one of the two structures; \<open>f\<close> makes the payload from the strings.\<close>

definition send_profiles ::
  "radio_env \<Rightarrow> nat \<Rightarrow> ((hidl_string \<times> bool) list \<times> bool) list \<Rightarrow> (cstr list \<Rightarrow> payload) \<Rightarrow> addr \<Rightarrow> svc \<Rightarrow>
   (bool \<times> svc) option" where
  "send_profiles W numfields profiles f pRI s =
     (let num = length profiles
      in case new_block W (CharPtrs (replicate (num * numfields) None)) s of
           (None, s1) \<Rightarrow> do { s2 \<leftarrow> sendErrorResponse (Some pRI) RIL_E_NO_MEMORY s1; Some (False, s2) }
         | (Some dataProfiles, s1) \<Rightarrow>
             (case new_block W (Structs num) s1 of
                (None, s2) \<Rightarrow> do {
                  s3 \<leftarrow> free_block dataProfiles s2;
                  s4 \<leftarrow> sendErrorResponse (Some pRI) RIL_E_NO_MEMORY s3;
                  Some (False, s4) }
              | (Some dataProfilePtrs, s2) \<Rightarrow> do {
                  (success, s3) \<leftarrow> fill_profiles W dataProfiles pRI 0 profiles s2;
                  if \<not> success then do {
                    s4 \<leftarrow> freeSetDataProfileData num dataProfiles dataProfilePtrs numfields s3;
                    Some (False, s4) }
                  else do {
                    ps \<leftarrow> ptrs_at s3 dataProfiles;
                    cs \<leftarrow> strs_at s3 ps;
                    s4 \<leftarrow> CALL_ONREQUEST W RIL_REQUEST_SET_DATA_PROFILE (f cs) pRI (mSlotId W) s3;
                    s5 \<leftarrow> freeSetDataProfileData num dataProfiles dataProfilePtrs numfields s4;
                    Some (True, s5) } }))"

definition profile_v14 :: "hidl_data_profile \<Rightarrow> cstr list \<Rightarrow> RIL_DataProfileInfo" where
  "profile_v14 p cs = \<lparr>dp_profileId = hp_profileId p, dp_apn = cs ! 0, dp_protocol = cs ! 1,
     dp_authType = hp_authType p, dp_user = cs ! 2, dp_password = cs ! 3, dp_type = hp_type p,
     dp_maxConnsTime = hp_maxConnsTime p, dp_maxConns = hp_maxConns p, dp_waitTime = hp_waitTime p,
     dp_enabled = BOOL_TO_INT (hp_enabled p)\<rparr>"

definition profile_v15 :: "hidl_data_profile \<Rightarrow> cstr list \<Rightarrow> RIL_DataProfileInfo_v15" where
  "profile_v15 p cs = \<lparr>dp_profileId = hp_profileId p, dp_apn = cs ! 0, dp_protocol = cs ! 1,
     dp_authType = hp_authType p, dp_user = cs ! 3, dp_password = cs ! 4, dp_type = hp_type p,
     dp_maxConnsTime = hp_maxConnsTime p, dp_maxConns = hp_maxConns p, dp_waitTime = hp_waitTime p,
     dp_enabled = BOOL_TO_INT (hp_enabled p), dp_roamingProtocol = cs ! 2,
     dp_supportedTypesBitmask = hp_supportedApnTypesBitmap p, dp_bearerBitmask = hp_bearerBitmap p,
     dp_mtu = hp_mtu p, dp_mvnoType = convertMvnoTypeToString (hp_mvnoType p), dp_mvnoMatchData = cs ! 5\<rparr>"

text \<open>The structures of an array: each takes its number of strings.\<close>

fun with_fields :: "nat \<Rightarrow> ('a \<Rightarrow> cstr list \<Rightarrow> 'b) \<Rightarrow> 'a list \<Rightarrow> cstr list \<Rightarrow> 'b list" where
  "with_fields numfields f [] cs = []"
| "with_fields numfields f (p # ps) cs = f p (take numfields cs) # with_fields numfields f ps (drop numfields cs)"

definition setDataProfile :: "radio_env \<Rightarrow> int \<Rightarrow> hidl_data_profile list \<Rightarrow> bool \<Rightarrow> svc \<Rightarrow> svc option" where
  "setDataProfile W serial profiles isRoaming s = discard (with_request W serial RIL_REQUEST_SET_DATA_PROFILE (\<lambda>pRI s.
     if version (rild s) \<le> 14 then
       send_profiles W 4
         (map (\<lambda>p. ([(hp_apn p, True), (if isRoaming then hp_roamingProtocol p else hp_protocol p, True),
                     (hp_user p, True), (hp_password p, True)], True)) profiles)
         (\<lambda>cs. PDataProfiles (with_fields 4 profile_v14 profiles cs)) pRI s
     else
       send_profiles W 6
         (map (\<lambda>p. ([(hp_apn p, True), (hp_protocol p, False), (hp_roamingProtocol p, True), (hp_user p, True),
                     (hp_password p, True), (hp_mvnoMatchData p, True)],
                    convertMvnoTypeToString (hp_mvnoType p) \<noteq> None)) profiles)
         (\<lambda>cs. PDataProfiles15 (with_fields 6 profile_v15 profiles cs)) pRI s) s)"

section \<open>Capabilities and carriers\<close>

text \<open>\<open>strlcpy\<close> into the array of the identifier; the version stays 0.\<close>

definition setRadioCapability :: "radio_env \<Rightarrow> int \<Rightarrow> radio_capability \<Rightarrow> svc \<Rightarrow> svc option" where
  "setRadioCapability W serial rc = send_struct W serial RIL_REQUEST_SET_RADIO_CAPABILITY
     (PRadioCapability \<lparr>rp_version = 0, rp_session = hr_session rc, rp_phase = hr_phase rc, rp_rat = hr_raf rc,
        rp_logicalModemUuid = take (MAX_UUID_LENGTH - 1) (hs_chars (hr_logicalModemUuid rc)),
        rp_status = hr_status rc\<rparr>)"

definition carrier_to_ril :: "carrier \<Rightarrow> RIL_Carrier" where
  "carrier_to_ril c = \<lparr>ca_mcc = Some (hs_chars (hv_mcc c)), ca_mnc = Some (hs_chars (hv_mnc c)),
     ca_match_type = hv_matchType c, ca_match_data = Some (hs_chars (hv_matchData c))\<rparr>"

definition setAllowedCarriers :: "radio_env \<Rightarrow> int \<Rightarrow> bool \<Rightarrow> carrier list \<Rightarrow> carrier list \<Rightarrow> svc \<Rightarrow> svc option" where
  "setAllowedCarriers W serial allAllowed allowed excluded s =
     discard (with_request W serial RIL_REQUEST_SET_CARRIER_RESTRICTIONS (\<lambda>pRI s.
       case new_block W (Structs (length allowed)) s of
         (None, s1) \<Rightarrow> do { s2 \<leftarrow> sendErrorResponse (Some pRI) RIL_E_NO_MEMORY s1; Some (False, s2) }
       | (Some allowedCarriers, s1) \<Rightarrow>
           (case new_block W (Structs (length excluded)) s1 of
              (None, s2) \<Rightarrow> do {
                s3 \<leftarrow> sendErrorResponse (Some pRI) RIL_E_NO_MEMORY s2;
                s4 \<leftarrow> free_block allowedCarriers s3;
                Some (False, s4) }
            | (Some excludedCarriers, s2) \<Rightarrow> do {
                s3 \<leftarrow> CALL_ONREQUEST W RIL_REQUEST_SET_CARRIER_RESTRICTIONS
                  (PCarriers \<lparr>cr_len_allowed_carriers = int (length allowed),
                     cr_len_excluded_carriers = int (length excluded),
                     cr_allowed_carriers = map carrier_to_ril allowed,
                     cr_excluded_carriers = map carrier_to_ril excluded\<rparr>) pRI (mSlotId W) s2;
                s4 \<leftarrow> free_block allowedCarriers s3;
                s5 \<leftarrow> free_block excludedCarriers s4;
                Some (True, s5) })) s)"

section \<open>The strings of the profiles\<close>

text \<open>
  While the profiles are filled: the array at \<open>arr\<close> holds the copies made so far and \<open>m\<close> NULLs, and the
  allocations of the call are these copies, the array, and the blocks \<open>B\<close>.
\<close>

definition filling :: "svc \<Rightarrow> addr set \<Rightarrow> addr \<Rightarrow> addr option list \<Rightarrow> nat \<Rightarrow> svc \<Rightarrow> bool" where
  "filling s0 B arr ds m s \<longleftrightarrow> heap_ext s0 (insert arr (B \<union> set (somes ds))) s \<and>
     arr \<notin> B \<union> set (somes ds) \<and> set (somes ds) \<inter> B = {} \<and> distinct (somes ds) \<and>
     blocks s arr = Some (CharPtrs (ds @ replicate m None))"

lemma filling_error: "filling s0 B arr ds m s \<Longrightarrow> filling s0 B arr ds m (s\<lparr>rild := r\<rparr>)"
  by (simp add: filling_def)

lemma copy_profile_ok:
  assumes "filling s0 B arr ds (length fs + m) s" "k = length ds" "strs_at s ds = Some cs" "answerable pRI (rild s)"
  shows "(\<exists>es s1. copy_profile W arr pRI k fs s = Some (True, s1) \<and> rild s1 = rild s \<and> calls s1 = calls s \<and>
      length es = length ds + length fs \<and> filling s0 B arr es m s1 \<and>
      strs_at s1 es = Some (cs @ map (\<lambda>(src, ae). copied_as ae src) fs)) \<or>
    (\<exists>e es m' s1. e \<in> copy_errors W (map fst fs) \<and> copy_profile W arr pRI k fs s = Some (False, s1) \<and>
      respond_error pRI e (rild s) = Some (rild s1) \<and> calls s1 = calls s \<and>
      length es + m' = length ds + length fs + m \<and> filling s0 B arr es m' s1)"
  using assms
proof (induction fs arbitrary: ds k cs s)
  case Nil
  then show ?case by (intro disjI1 exI [of _ ds] exI [of _ s]) simp
next
  case (Cons f fs)
  obtain src ae where f: "f = (src, ae)" by (cases f)
  let ?A = "insert arr (B \<union> set (somes ds))"
  from Cons.prems(1) have H: "heap_ext s0 ?A s" and n: "arr \<notin> B \<union> set (somes ds)" "set (somes ds) \<inter> B = {}" "distinct (somes ds)"
    and arr: "blocks s arr = Some (CharPtrs (ds @ replicate (length (f # fs) + m) None))"
    by (simp_all add: filling_def)
  from copy_ok [OF H Cons.prems(4), of W src ae] show ?case
  proof (elim disjE exE conjE)
    fix dest s1
    assume c: "copyHidlStringToRil W src pRI ae s = Some (Some dest, s1)" "rild s1 = rild s" "calls s1 = calls s"
      "heap_ext s0 (?A \<union> set (somes [dest])) s1" "set (somes [dest]) \<inter> ?A = {}"
      "str_at s1 dest = Some (copied_as ae src)" "\<forall>a\<in>?A. blocks s1 a = blocks s a"
    let ?ds = "ds @ [dest]"
    let ?s2 = "s1\<lparr>blocks := (blocks s1)(arr \<mapsto> CharPtrs (?ds @ replicate (length fs + m) None))\<rparr>"
    have st: "store_ptr arr k dest s1 = Some ?s2"
      using arr c(7) Cons.prems(2) by (simp add: store_ptr_def ptrs_at_def list_update_append)
    have A: "?A \<union> set (somes [dest]) = insert arr (B \<union> set (somes ?ds))" by auto
    have "filling s0 B arr ?ds (length fs + m) ?s2"
      using c(4,5) n unfolding filling_def A by (cases dest) (auto simp: heap_ext_def)
    moreover have "strs_at ?s2 ?ds = Some (cs @ [copied_as ae src])"
    proof -
      have "strs_at s1 ds = strs_at s ds" using c(7) by (intro strs_at_cong) auto
      moreover have "strs_at ?s2 ds = strs_at s1 ds" using n(1) by (intro strs_at_cong) auto
      moreover have "str_at ?s2 dest = str_at s1 dest" using c(5) by (intro str_at_cong) auto
      ultimately show ?thesis using Cons.prems(3) c(6) by (simp add: strs_at_append)
    qed
    moreover have "answerable pRI (rild ?s2)" using Cons.prems(4) c(2) by simp
    ultimately have step: "filling s0 B arr ?ds (length fs + m) ?s2" "strs_at ?s2 ?ds = Some (cs @ [copied_as ae src])"
      "answerable pRI (rild ?s2)" .
    have run: "copy_profile W arr pRI k (f # fs) s = copy_profile W arr pRI (Suc k) fs ?s2"
      using c(1) st f by simp
    have mono: "e \<in> copy_errors W (map fst (f # fs))" if "e \<in> copy_errors W (map fst fs)" for e
      using that copy_errors_mono [of "map fst fs" "map fst (f # fs)" W] by auto
    show ?case unfolding run using Cons.IH [OF step(1) _ step(2,3), of "Suc k"] Cons.prems(2) c(2,3) f mono by simp blast
  next
    fix e s1
    assume c: "e \<in> copy_errors W [src]" "copyHidlStringToRil W src pRI ae s = Some (None, s1)"
      "respond_error pRI e (rild s) = Some (rild s1)" "calls s1 = calls s" "heap_ext s0 ?A s1"
      "\<forall>a\<in>?A. blocks s1 a = blocks s a"
    then have "filling s0 B arr ds (length (f # fs) + m) s1" using n arr by (simp add: filling_def)
    moreover have "e \<in> copy_errors W (map fst (f # fs))"
      using c(1) copy_errors_mono [of "[src]" "map fst (f # fs)" W] f by auto
    ultimately show ?case using c(2-5) f
      by (intro disjI2 exI [of _ e] exI [of _ ds] exI [of _ "length (f # fs) + m"] exI [of _ s1]) simp
  qed
qed

lemma fill_profiles_ok:
  assumes "filling s0 B arr ds (length (concat (map fst ps)) + m) s" "k = length ds" "strs_at s ds = Some cs"
    and "answerable pRI (rild s)"
  shows "(\<exists>es s1. fill_profiles W arr pRI k ps s = Some (True, s1) \<and> rild s1 = rild s \<and> calls s1 = calls s \<and>
      length es = length ds + length (concat (map fst ps)) \<and> filling s0 B arr es m s1 \<and> (\<forall>p\<in>set ps. snd p) \<and>
      strs_at s1 es = Some (cs @ concat (map (\<lambda>(fs, _). map (\<lambda>(src, ae). copied_as ae src) fs) ps))) \<or>
    (\<exists>e es m' s1. e \<in> copy_errors W (map fst (concat (map fst ps))) \<union> {x. x = RIL_E_INVALID_ARGUMENTS \<and> (\<exists>p\<in>set ps. \<not> snd p)} \<and>
      fill_profiles W arr pRI k ps s = Some (False, s1) \<and>
      respond_error pRI e (rild s) = Some (rild s1) \<and> calls s1 = calls s \<and>
      length es + m' = length ds + length (concat (map fst ps)) + m \<and> filling s0 B arr es m' s1)"
  using assms
proof (induction ps arbitrary: ds k cs s)
  case Nil
  then show ?case by (intro disjI1 exI [of _ ds] exI [of _ s]) simp
next
  case (Cons p ps)
  obtain fs known where p: "p = (fs, known)" by (cases p)
  from Cons.prems(1) have F: "filling s0 B arr ds (length fs + (length (concat (map fst ps)) + m)) s"
    unfolding p by (simp add: add.assoc)
  have mono: "copy_errors W (map fst fs) \<subseteq> copy_errors W (map fst (concat (map fst (p # ps))))"
    "copy_errors W (map fst (concat (map fst ps))) \<subseteq> copy_errors W (map fst (concat (map fst (p # ps))))"
    by (rule copy_errors_mono, simp add: p)+
  from copy_profile_ok [OF F Cons.prems(2-4), of W] show ?case
  proof (elim disjE exE conjE)
    fix es s1
    assume c: "copy_profile W arr pRI k fs s = Some (True, s1)" "rild s1 = rild s" "calls s1 = calls s"
      "length es = length ds + length fs" "filling s0 B arr es (length (concat (map fst ps)) + m) s1"
      "strs_at s1 es = Some (cs @ map (\<lambda>(src, ae). copied_as ae src) fs)"
    show ?case
    proof (cases known)
      case True
      have run: "fill_profiles W arr pRI k (p # ps) s = fill_profiles W arr pRI (k + length fs) ps s1"
        using c(1) True p by simp
      have a: "answerable pRI (rild s1)" using Cons.prems(4) c(2) by simp
      have k: "k + length fs = length es" using Cons.prems(2) c(4) by simp
      from Cons.IH [OF c(5) k c(6) a] show ?thesis
      proof (elim disjE exE conjE)
        fix es' s2
        assume "fill_profiles W arr pRI (k + length fs) ps s1 = Some (True, s2)" "rild s2 = rild s1" "calls s2 = calls s1"
          "length es' = length es + length (concat (map fst ps))" "filling s0 B arr es' m s2" "\<forall>p\<in>set ps. snd p"
          "strs_at s2 es' = Some ((cs @ map (\<lambda>(src, ae). copied_as ae src) fs) @
            concat (map (\<lambda>(fs, _). map (\<lambda>(src, ae). copied_as ae src) fs) ps))"
        then show ?thesis unfolding run using c(2-4) p True
          by (intro disjI1 exI [of _ es'] exI [of _ s2]) simp
      next
        fix e es' m' s2
        assume e: "e \<in> copy_errors W (map fst (concat (map fst ps))) \<union> {x. x = RIL_E_INVALID_ARGUMENTS \<and> (\<exists>p\<in>set ps. \<not> snd p)}"
          and r: "fill_profiles W arr pRI (k + length fs) ps s1 = Some (False, s2)"
          "respond_error pRI e (rild s1) = Some (rild s2)" "calls s2 = calls s1"
          "length es' + m' = length es + length (concat (map fst ps)) + m" "filling s0 B arr es' m' s2"
        have "e \<in> copy_errors W (map fst (concat (map fst (p # ps)))) \<union> {x. x = RIL_E_INVALID_ARGUMENTS \<and> (\<exists>p\<in>set (p # ps). \<not> snd p)}"
          using e mono(2) by auto
        with r show ?thesis unfolding run using c(2-4) p
          by (intro disjI2 exI [of _ e] exI [of _ es'] exI [of _ m'] exI [of _ s2]) simp
      qed
    next
      case False
      from respond_error_total [OF Cons.prems(4)] obtain r where
        r: "respond_error pRI RIL_E_INVALID_ARGUMENTS (rild s) = Some r" by blast
      have "fill_profiles W arr pRI k (p # ps) s = Some (False, s1\<lparr>rild := r\<rparr>)"
        using c(1,2) False r p by (simp add: sendErrorResponse_def)
      with filling_error [OF c(5), of r] r c(3,4) False p show ?thesis
        by (intro disjI2 exI [of _ RIL_E_INVALID_ARGUMENTS] exI [of _ es]
            exI [of _ "length (concat (map fst ps)) + m"] exI [of _ "s1\<lparr>rild := r\<rparr>"]) simp
    qed
  next
    fix e es m' s1
    assume e: "e \<in> copy_errors W (map fst fs)" and r: "copy_profile W arr pRI k fs s = Some (False, s1)"
      "respond_error pRI e (rild s) = Some (rild s1)" "calls s1 = calls s"
      "length es + m' = length ds + length fs + (length (concat (map fst ps)) + m)" "filling s0 B arr es m' s1"
    have "e \<in> copy_errors W (map fst (concat (map fst (p # ps))))" using e mono(1) by blast
    with r show ?case
      by (intro disjI2 exI [of _ e] exI [of _ es] exI [of _ m'] exI [of _ s1]) (simp add: p)
  qed
qed

text \<open>Every string is freed once: the order of the fields is a permutation of the places.\<close>

lemma field_order_perm: "mset (field_order n m) = mset [0..<m * n]"
proof (induction m)
  case (Suc m)
  have split: "mset (concat (map (\<lambda>i. map (f i) [0..<m] @ [g i]) xs)) =
      mset (concat (map (\<lambda>i. map (f i) [0..<m]) xs)) + mset (map g xs)" for f :: "nat \<Rightarrow> nat \<Rightarrow> nat" and g xs
    by (induction xs) simp_all
  have "mset (field_order n (Suc m)) = mset (field_order n m) + mset (map (\<lambda>i. m * n + i) [0..<n])"
    unfolding field_order_def upt_Suc_append [OF le0] map_append list.map split ..
  also have "map (\<lambda>i. m * n + i) [0..<n] = [m * n..<Suc m * n]"
    using map_add_upt [of "m * n" n] by (simp add: add.commute)
  also have "mset (field_order n m) + mset [m * n..<Suc m * n] = mset ([0..<m * n] @ [m * n..<Suc m * n])"
    by (simp add: Suc.IH)
  also have "[0..<m * n] @ [m * n..<Suc m * n] = [0..<Suc m * n]"
    using upt_add_eq_append [of 0 "m * n" n] by (simp add: add.commute)
  finally show ?case .
qed (simp add: field_order_def)

lemma mset_somes: "mset xs = mset ys \<Longrightarrow> mset (somes xs) = mset (somes ys)"
proof -
  have s: "somes zs = map the (filter (\<lambda>x. x \<noteq> None) zs)" for zs
    by (induction zs) (auto split: option.splits)
  assume "mset xs = mset ys"
  then show ?thesis unfolding s by simp
qed

lemma somes_field_order:
  assumes "length ps = m * n"
  shows "set (somes (map ((!) ps) (field_order n m))) = set (somes ps)"
    and "distinct (somes (map ((!) ps) (field_order n m))) = distinct (somes ps)"
proof -
  have "mset (map ((!) ps) (field_order n m)) = mset (map ((!) ps) [0..<m * n])"
    by (simp add: field_order_perm)
  also have "map ((!) ps) [0..<m * n] = ps" using assms map_nth [of ps] by simp
  finally have e: "mset (somes (map ((!) ps) (field_order n m))) = mset (somes ps)" by (rule mset_somes)
  show "set (somes (map ((!) ps) (field_order n m))) = set (somes ps)" using e by (rule mset_eq_setD)
  show "distinct (somes (map ((!) ps) (field_order n m))) = distinct (somes ps)"
    using e by (rule mset_eq_imp_distinct_iff)
qed

lemma freeSetDataProfileData_ok:
  assumes "filling s0 {q} arr ds k s" "length ds + k = m * n"
  shows "\<exists>s'. freeSetDataProfileData m arr q n s = Some s' \<and> heap_ext s0 {} s' \<and> rild s' = rild s \<and> calls s' = calls s"
proof -
  let ?ps = "ds @ replicate k None" and ?A = "insert arr ({q} \<union> set (somes ds))"
  from assms(1) have H: "heap_ext s0 ?A s" and n: "arr \<noteq> q" "arr \<notin> set (somes ds)" "q \<notin> set (somes ds)" "distinct (somes ds)"
    and arr: "blocks s arr = Some (CharPtrs ?ps)"
    by (auto simp: filling_def)
  let ?qs = "map ((!) ?ps) (field_order n m)"
  have l: "length ?ps = m * n" using assms(2) by simp
  have qs: "set (somes ?qs) = set (somes ds)" "distinct (somes ?qs)"
    using somes_field_order [OF l] n(4) by simp_all
  have "set (somes ?qs) \<subseteq> ?A" unfolding qs(1) by blast
  from free_strings_ok [OF H this qs(2)] obtain s1 where
    s1: "memsetAndFreeStrings ?qs s = Some s1" "heap_ext s0 (?A - set (somes ?qs)) s1" "rild s1 = rild s" "calls s1 = calls s"
    by blast
  have "?A - set (somes ?qs) = {arr, q}" unfolding qs(1) using n by blast
  with s1(2) have "heap_ext s0 {arr, q} s1" by simp
  from heap_ext_free [OF this, of arr] obtain s2 where
    s2: "free_block arr s1 = Some s2" "rild s2 = rild s1" "calls s2 = calls s1" "heap_ext s0 ({arr, q} - {arr}) s2"
    by auto
  have "{arr, q} - {arr} = {q}" using n(1) by blast
  with s2(4) have "heap_ext s0 {q} s2" by simp
  from heap_ext_free [OF this, of q] obtain s3 where
    s3: "free_block q s2 = Some s3" "rild s3 = rild s2" "calls s3 = calls s2" "heap_ext s0 {} s3" by auto
  have "freeSetDataProfileData m arr q n s = Some s3"
    using arr s1(1) s2(1) s3(1) by (simp add: freeSetDataProfileData_def ptrs_at_def)
  with s3 s2(2,3) s1(3,4) show ?thesis by (intro exI [of _ s3]) simp
qed

section \<open>What the methods do\<close>

lemma no_memory_delivers:
  assumes "heap_ext s {} s1" "rild s1 = rild s" "calls s1 = calls s" "answerable q (rild s)" "RIL_E_NO_MEMORY \<in> E"
  shows "\<exists>s2. sendErrorResponse (Some q) RIL_E_NO_MEMORY s1 = Some s2 \<and> delivers_in E W request d q s False s2"
proof -
  from respond_error_total [OF assms(4)] obtain r where r: "respond_error q RIL_E_NO_MEMORY (rild s) = Some r" by blast
  with assms(1-3,5) show ?thesis
    by (intro exI [of _ "s1\<lparr>rild := r\<rparr>"]) (simp add: sendErrorResponse_def deliversI_error)
qed

lemma send_profiles_ok:
  assumes env: "heap_ok s" "answerable q (rild s)" "vendor_returns W"
    and fields: "\<forall>p\<in>set ps. length (fst p) = n"
    and E: "copy_errors W (map fst (concat (map fst ps))) \<subseteq> E" "(\<exists>p\<in>set ps. \<not> snd p) \<longrightarrow> RIL_E_INVALID_ARGUMENTS \<in> E"
  shows "\<exists>ok s'. send_profiles W n ps f q s = Some (ok, s') \<and> (ok \<longrightarrow> (\<forall>p\<in>set ps. snd p)) \<and>
     delivers_in E W RIL_REQUEST_SET_DATA_PROFILE
       (f (concat (map (\<lambda>(fs, _). map (\<lambda>(src, ae). copied_as ae src) fs) ps))) q s ok s'"
proof -
  let ?N = "length ps * n" and ?m = "length ps"
  let ?d = "f (concat (map (\<lambda>(fs, _). map (\<lambda>(src, ae). copied_as ae src) fs) ps))"
  have N: "length (concat (map fst ps)) = ?N" using fields by (induction ps) auto
  have no_mem: "RIL_E_NO_MEMORY \<in> E" if "oom W a" for a
    using no_memory_error [OF that] E(1) by blast
  define s1 where "s1 = snd (new_block W (CharPtrs (replicate ?N None)) s)"
  define s2 where "s2 = snd (new_block W (Structs ?m) s1)"
  show ?thesis
  proof (cases "oom W (allocs s)")
    case True
    then have nb: "new_block W (CharPtrs (replicate ?N None)) s = (None, s\<lparr>allocs := Suc (allocs s)\<rparr>)"
      by (simp add: new_block_def)
    from no_memory_delivers [OF heap_ext_oom [OF heap_ext_refl [OF env(1)]] _ _ env(2) no_mem [OF True], of W RIL_REQUEST_SET_DATA_PROFILE ?d] obtain s' where
      "sendErrorResponse (Some q) RIL_E_NO_MEMORY (s\<lparr>allocs := Suc (allocs s)\<rparr>) = Some s'"
      "delivers_in E W RIL_REQUEST_SET_DATA_PROFILE ?d q s False s'" by auto
    with nb show ?thesis by (intro exI [of _ False] exI [of _ s']) (simp add: send_profiles_def)
  next
    case a: False
    let ?a = "allocs s"
    have nb1: "new_block W (CharPtrs (replicate ?N None)) s = (Some ?a, s1)" using a by (simp add: s1_def new_block_def)
    have H1: "heap_ext s {?a} s1" unfolding s1_def using heap_ext_alloc [OF heap_ext_refl [OF env(1)] a] by simp
    have f1: "rild s1 = rild s" "calls s1 = calls s" "blocks s1 ?a = Some (CharPtrs (replicate ?N None))"
      using a by (simp_all add: s1_def new_block_def)
    show ?thesis
    proof (cases "oom W (allocs s1)")
      case True
      let ?t = "s1\<lparr>allocs := Suc (allocs s1)\<rparr>"
      have nb2: "new_block W (Structs ?m) s1 = (None, ?t)" using True by (simp add: new_block_def)
      from heap_ext_free [OF heap_ext_oom [OF H1], of ?a] obtain s3 where
        s3: "free_block ?a ?t = Some s3" "rild s3 = rild s1" "calls s3 = calls s1" "heap_ext s {} s3" by auto
      from no_memory_delivers [OF s3(4) _ _ env(2) no_mem [OF True], of W RIL_REQUEST_SET_DATA_PROFILE ?d] s3(2,3) f1 obtain s' where
        "sendErrorResponse (Some q) RIL_E_NO_MEMORY s3 = Some s'"
        "delivers_in E W RIL_REQUEST_SET_DATA_PROFILE ?d q s False s'" by auto
      with nb1 nb2 s3(1) show ?thesis by (intro exI [of _ False] exI [of _ s']) (simp add: send_profiles_def)
    next
      case b: False
      let ?b = "allocs s1"
      have nb2: "new_block W (Structs ?m) s1 = (Some ?b, s2)" using b by (simp add: s2_def new_block_def)
      have new: "?b \<noteq> ?a" using heap_ext_new [OF H1] by simp
      have f2: "rild s2 = rild s" "calls s2 = calls s" "blocks s2 ?a = Some (CharPtrs (replicate ?N None))"
        using b f1 new by (simp_all add: s2_def new_block_def)
      have "heap_ext s {?b, ?a} s2" unfolding s2_def by (rule heap_ext_alloc [OF H1 b])
      then have F: "filling s {?b} ?a [] (length (concat (map fst ps)) + 0) s2"
        using new f2(3) by (simp add: filling_def N insert_commute)
      have "strs_at s2 [] = Some []" "answerable q (rild s2)" using env(2) f2(1) by simp_all
      from fill_profiles_ok [OF F list.size(3) [symmetric] this, of W] show ?thesis
      proof (elim disjE exE conjE)
        fix es s3
        assume c: "fill_profiles W ?a q 0 ps s2 = Some (True, s3)" "rild s3 = rild s2" "calls s3 = calls s2"
          "length es = length [] + length (concat (map fst ps))" "filling s {?b} ?a es 0 s3" "\<forall>p\<in>set ps. snd p"
          "strs_at s3 es = Some ([] @ concat (map (\<lambda>(fs, _). map (\<lambda>(src, ae). copied_as ae src) fs) ps))"
        have p: "ptrs_at s3 ?a = Some es" using c(5) by (simp add: filling_def ptrs_at_def)
        from call_ok_vendor [OF env(3), of RIL_REQUEST_SET_DATA_PROFILE ?d q "mSlotId W" s3] obtain s4 where
          s4: "CALL_ONREQUEST W RIL_REQUEST_SET_DATA_PROFILE ?d q (mSlotId W) s3 = Some s4" "blocks s4 = blocks s3"
            "allocs s4 = allocs s3"
            "calls s4 = calls s3 @ [(RIL_REQUEST_SET_DATA_PROFILE, ?d, q, if 2 \<le> SIM_COUNT (rild s3) then mSlotId W else 0)]"
            "onRequest W RIL_REQUEST_SET_DATA_PROFILE ?d q (if 2 \<le> SIM_COUNT (rild s3) then mSlotId W else 0) (rild s3) =
              Some (rild s4)" by blast
        have "filling s {?b} ?a es 0 s4" using c(5) s4(2,3) heap_ext_call [OF _ s4(2,3)] by (simp add: filling_def)
        from freeSetDataProfileData_ok [OF this, of ?m n] c(4) N obtain s5 where
          s5: "freeSetDataProfileData ?m ?a ?b n s4 = Some s5" "heap_ext s {} s5" "rild s5 = rild s4" "calls s5 = calls s4"
          by auto
        have "delivers_in E W RIL_REQUEST_SET_DATA_PROFILE ?d q s True s5"
          using heap_ext_none [OF s5(2)] heap_ext_ok [OF s5(2)] s4(4,5) s5(3,4) c(2,3) f2(1,2)
          by (simp add: delivers_in_def Let_def)
        with nb1 nb2 c(1,6,7) p s4(1) s5(1) show ?thesis
          by (intro exI [of _ True] exI [of _ s5]) (simp add: send_profiles_def Let_def)
      next
        fix e es m' s3
        assume c: "e \<in> copy_errors W (map fst (concat (map fst ps))) \<union> {x. x = RIL_E_INVALID_ARGUMENTS \<and> (\<exists>p\<in>set ps. \<not> snd p)}"
          "fill_profiles W ?a q 0 ps s2 = Some (False, s3)" "respond_error q e (rild s2) = Some (rild s3)"
          "calls s3 = calls s2" "length es + m' = length [] + length (concat (map fst ps)) + 0" "filling s {?b} ?a es m' s3"
        from freeSetDataProfileData_ok [OF c(6), of ?m n] c(5) N obtain s4 where
          s4: "freeSetDataProfileData ?m ?a ?b n s3 = Some s4" "heap_ext s {} s4" "rild s4 = rild s3" "calls s4 = calls s3"
          by auto
        have "e \<in> E" using c(1) E by blast
        with s4 c(3,4) f2(1,2) have "delivers_in E W RIL_REQUEST_SET_DATA_PROFILE ?d q s False s4"
          by (intro deliversI_error [of s s4 e]) simp_all
        with nb1 nb2 c(2) s4(1) show ?thesis
          by (intro exI [of _ False] exI [of _ s4]) (simp add: send_profiles_def Let_def)
      qed
    qed
  qed
qed

lemma with_fields_concat:
  "\<forall>p\<in>set ps. length (g p) = n \<Longrightarrow> with_fields n f ps (concat (map g ps)) = map (\<lambda>p. f p (g p)) ps"
  by (induction ps) auto

lemma copied_as_True: "copied_as True c = Some (hs_chars c)"
  by (simp add: copied_as_def)

text \<open>What the vendor is to get: the structures of the profiles, in the layout of its version.\<close>

definition profiles_payload :: "hidl_data_profile list \<Rightarrow> bool \<Rightarrow> svc \<Rightarrow> payload option" where
  "profiles_payload profiles isRoaming s =
     (if version (rild s) \<le> 14
      then Some (PDataProfiles (map (\<lambda>p. \<lparr>dp_profileId = hp_profileId p, dp_apn = Some (hs_chars (hp_apn p)),
             dp_protocol = Some (hs_chars (if isRoaming then hp_roamingProtocol p else hp_protocol p)),
             dp_authType = hp_authType p, dp_user = Some (hs_chars (hp_user p)), dp_password = Some (hs_chars (hp_password p)),
             dp_type = hp_type p, dp_maxConnsTime = hp_maxConnsTime p, dp_maxConns = hp_maxConns p,
             dp_waitTime = hp_waitTime p, dp_enabled = (if hp_enabled p then 1 else 0)\<rparr>) profiles))
      else if \<exists>p\<in>set profiles. convertMvnoTypeToString (hp_mvnoType p) = None then None
      else Some (PDataProfiles15 (map (\<lambda>p. \<lparr>dp_profileId = hp_profileId p, dp_apn = Some (hs_chars (hp_apn p)),
             dp_protocol = copied_as False (hp_protocol p), dp_authType = hp_authType p, dp_user = Some (hs_chars (hp_user p)),
             dp_password = Some (hs_chars (hp_password p)), dp_type = hp_type p, dp_maxConnsTime = hp_maxConnsTime p,
             dp_maxConns = hp_maxConns p, dp_waitTime = hp_waitTime p, dp_enabled = (if hp_enabled p then 1 else 0),
             dp_roamingProtocol = Some (hs_chars (hp_roamingProtocol p)),
             dp_supportedTypesBitmask = hp_supportedApnTypesBitmap p, dp_bearerBitmask = hp_bearerBitmap p, dp_mtu = hp_mtu p,
             dp_mvnoType = convertMvnoTypeToString (hp_mvnoType p),
             dp_mvnoMatchData = Some (hs_chars (hp_mvnoMatchData p))\<rparr>) profiles)))"

definition profile_strings :: "hidl_data_profile list \<Rightarrow> hidl_string list" where
  "profile_strings profiles = concat (map (\<lambda>p.
     [hp_apn p, hp_protocol p, hp_roamingProtocol p, hp_user p, hp_password p, hp_mvnoMatchData p]) profiles)"

text \<open>
  C36. All data profiles of a call, on a consistent heap and with a vendor that returns, reach the vendor in
  one request, in their order and with every field: for a vendor before version 15 with the protocol that
  applies, from version 15 on with both protocols and the MVNO data. Otherwise there was no memory for the
  request, or the client gets one error under its serial: no memory only if an allocation failed, an
  internal error only if a string is longer than its size, invalid arguments exactly from version 15 on and
  only if some MVNO type has no name, and then the vendor is never called. In every case the heap is
  afterwards as before.
\<close>

theorem data_profiles_delivered:
  "answers_in (\<lambda>W s. copy_errors W (profile_strings profiles) \<union> refusal RIL_E_INVALID_ARGUMENTS (profiles_payload profiles isRoaming s))
     ''setDataProfileResponse'' RIL_REQUEST_SET_DATA_PROFILE (\<lambda>_. profiles_payload profiles isRoaming)
     (\<lambda>W serial. setDataProfile W serial profiles isRoaming)"
proof (rule answers_body [OF _ setDataProfile_def])
  fix W q t and s :: svc
  assume env: "heap_ok t" "answerable q (rild t)" "vendor_returns W" and v: "version (rild t) = version (rild s)"
  let ?E = "copy_errors W (profile_strings profiles) \<union> refusal RIL_E_INVALID_ARGUMENTS (profiles_payload profiles isRoaming s)"
  let ?f14 = "\<lambda>p. [(hp_apn p, True), (if isRoaming then hp_roamingProtocol p else hp_protocol p, True),
    (hp_user p, True), (hp_password p, True)]"
  let ?f15 = "\<lambda>p. [(hp_apn p, True), (hp_protocol p, False), (hp_roamingProtocol p, True), (hp_user p, True),
    (hp_password p, True), (hp_mvnoMatchData p, True)]"
  let ?mvno = "\<lambda>p. convertMvnoTypeToString (hp_mvnoType p) \<noteq> None"
  let ?c = "\<lambda>fs. map (\<lambda>(src, ae). copied_as ae src) fs"
  have data: "concat (map (\<lambda>(fs, _). ?c fs) (map (\<lambda>p. (g p, h p)) ps)) = concat (map (\<lambda>p. ?c (g p)) ps)"
    for g and h :: "hidl_data_profile \<Rightarrow> bool" and ps by (simp add: comp_def)
  have w14: "with_fields 4 profile_v14 profiles (concat (map (\<lambda>p. ?c (?f14 p)) profiles)) =
      map (\<lambda>p. profile_v14 p (?c (?f14 p))) profiles"
    by (rule with_fields_concat) simp
  have w15: "with_fields 6 profile_v15 profiles (concat (map (\<lambda>p. ?c (?f15 p)) profiles)) =
      map (\<lambda>p. profile_v15 p (?c (?f15 p))) profiles"
    by (rule with_fields_concat) simp
  show "\<exists>b ok s'. (if version (rild t) \<le> 14 then
        send_profiles W 4 (map (\<lambda>p. (?f14 p, True)) profiles)
          (\<lambda>cs. PDataProfiles (with_fields 4 profile_v14 profiles cs)) q t
      else
        send_profiles W 6 (map (\<lambda>p. (?f15 p, ?mvno p)) profiles)
          (\<lambda>cs. PDataProfiles15 (with_fields 6 profile_v15 profiles cs)) q t) = Some (ok, s') \<and>
      (ok \<longrightarrow> profiles_payload profiles isRoaming s = Some b) \<and> delivers_in ?E W RIL_REQUEST_SET_DATA_PROFILE b q t ok s'"
  proof (cases "version (rild s) \<le> 14")
    case True
    let ?P = "map (\<lambda>p. (?f14 p, True)) profiles" and ?b = "PDataProfiles (map (\<lambda>p. profile_v14 p (?c (?f14 p))) profiles)"
    have "copy_errors W (map fst (concat (map fst ?P))) \<subseteq> copy_errors W (profile_strings profiles)"
      by (rule copy_errors_mono) (auto simp: profile_strings_def)
    then have E: "copy_errors W (map fst (concat (map fst ?P))) \<subseteq> ?E" by blast
    from send_profiles_ok [OF env, of ?P 4 ?E "\<lambda>cs. PDataProfiles (with_fields 4 profile_v14 profiles cs)", OF _ E]
    obtain ok s' where
      "send_profiles W 4 ?P (\<lambda>cs. PDataProfiles (with_fields 4 profile_v14 profiles cs)) q t = Some (ok, s')"
      "delivers_in ?E W RIL_REQUEST_SET_DATA_PROFILE ?b q t ok s'"
      unfolding data w14 by auto
    moreover have "profiles_payload profiles isRoaming s = Some ?b"
      using True by (simp add: profiles_payload_def profile_v14_def copied_as_True BOOL_TO_INT_def)
    ultimately show ?thesis using True v by (intro exI [of _ ?b] exI [of _ ok] exI [of _ s']) simp
  next
    case False
    let ?P = "map (\<lambda>p. (?f15 p, ?mvno p)) profiles" and ?b = "PDataProfiles15 (map (\<lambda>p. profile_v15 p (?c (?f15 p))) profiles)"
    have "copy_errors W (map fst (concat (map fst ?P))) \<subseteq> copy_errors W (profile_strings profiles)"
      by (rule copy_errors_mono) (auto simp: profile_strings_def)
    then have E: "copy_errors W (map fst (concat (map fst ?P))) \<subseteq> ?E" by blast
    have I: "(\<exists>p\<in>set ?P. \<not> snd p) \<longrightarrow> RIL_E_INVALID_ARGUMENTS \<in> ?E"
      using False by (auto simp: profiles_payload_def)
    from send_profiles_ok [OF env, of ?P 6 ?E "\<lambda>cs. PDataProfiles15 (with_fields 6 profile_v15 profiles cs)", OF _ E I]
    obtain ok s' where r:
      "send_profiles W 6 ?P (\<lambda>cs. PDataProfiles15 (with_fields 6 profile_v15 profiles cs)) q t = Some (ok, s')"
      "ok \<longrightarrow> (\<forall>p\<in>set ?P. snd p)" "delivers_in ?E W RIL_REQUEST_SET_DATA_PROFILE ?b q t ok s'"
      unfolding data w15 by auto
    have "ok \<longrightarrow> profiles_payload profiles isRoaming s = Some ?b"
      using False r(2) by (simp add: profiles_payload_def profile_v15_def copied_as_True BOOL_TO_INT_def) fastforce
    with r(1,3) False v show ?thesis by (intro exI [of _ ?b] exI [of _ ok] exI [of _ s']) simp
  qed
qed (simp_all add: req_consts response_names)

definition profile0 :: hidl_data_profile where
  "profile0 = \<lparr>hp_profileId = 0, hp_apn = hidl_string_of ''apn'', hp_protocol = hidl_string_of ''IP'',
     hp_roamingProtocol = hidl_string_of ''IP'', hp_authType = 0, hp_user = hidl_string_of ''u'',
     hp_password = hidl_string_of ''p'', hp_supportedApnTypesBitmap = 1, hp_bearerBitmap = 0, hp_mtu = 1500,
     hp_mvnoType = MvnoNONE, hp_mvnoMatchData = hidl_string_of [], hp_type = 0, hp_maxConnsTime = 0,
     hp_maxConns = 0, hp_waitTime = 0, hp_enabled = True\<rparr>"

theorem data_profiles_delivered_witness:
  "\<exists>s'. setDataProfile W0 7 [profile0] False svc0 = Some s' \<and> blocks s' = blocks svc0 \<and>
    calls s' = [(RIL_REQUEST_SET_DATA_PROFILE, PDataProfiles [\<lparr>dp_profileId = 0, dp_apn = Some ''apn'', dp_protocol = Some ''IP'',
       dp_authType = 0, dp_user = Some ''u'', dp_password = Some ''p'', dp_type = 0, dp_maxConnsTime = 0, dp_maxConns = 0,
       dp_waitTime = 0, dp_enabled = 1\<rparr>], 10, 0)]"
proof -
  let ?E = "copy_errors W0 (profile_strings [profile0]) \<union> refusal RIL_E_INVALID_ARGUMENTS (profiles_payload [profile0] False svc0)"
  from data_profiles_delivered [of "[profile0]" False] obtain s' where
    s': "setDataProfile W0 7 [profile0] False svc0 = Some s'" "blocks s' = blocks svc0"
      "outcome_in ?E W0 7 RIL_REQUEST_SET_DATA_PROFILE ''setDataProfileResponse'' (profiles_payload [profile0] False svc0) svc0 s'"
    unfolding answers_in_def using svc0_simps(5) W0_simps(11) by blast
  have "?E = {}" by (simp add: copy_errors_def profile_strings_def profiles_payload_def profile0_def)
  then show ?thesis
    using s' add_registered [of RIL_REQUEST_SET_DATA_PROFILE 7 0]
    by (auto simp: outcome_in_def req_consts profiles_payload_def profile0_def)
qed

section \<open>Scans, capabilities and carriers\<close>

definition scan_payload :: "hidl_network_scan \<Rightarrow> payload option" where
  "scan_payload request =
     (if 8 < length (hn_specifiers request) then None
      else map_option (\<lambda>specifiers. PNetworkScan \<lparr>ns_type = hn_scanType request, ns_interval = hn_scanInterval request,
               ns_specifiers_length = word_of_nat (length (hn_specifiers request)), ns_specifiers = specifiers\<rparr>)
             (those (map scan_specifier (hn_specifiers request))))"

lemma startNetworkScan_answers:
  "answers_in (\<lambda>_ _. refusal RIL_E_INVALID_ARGUMENTS (scan_payload request)) ''startNetworkScanResponse'' RIL_REQUEST_START_NETWORK_SCAN
     (\<lambda>_ _. scan_payload request) (\<lambda>W serial. startNetworkScan W serial request)"
proof (rule answers_body [OF _ startNetworkScan_def])
  fix W q t
  assume env: "heap_ok t" "answerable q (rild t)" "vendor_returns W"
  let ?goal = "\<lambda>r. \<exists>b ok s'. r = Some (ok, s') \<and> (ok \<longrightarrow> scan_payload request = Some b) \<and>
      delivers_in (refusal RIL_E_INVALID_ARGUMENTS (scan_payload request)) W RIL_REQUEST_START_NETWORK_SCAN b q t ok s'"
  let ?b = "\<lambda>specifiers. PNetworkScan \<lparr>ns_type = hn_scanType request, ns_interval = hn_scanInterval request,
      ns_specifiers_length = word_of_nat (length (hn_specifiers request)), ns_specifiers = specifiers\<rparr>"
  have E: "?goal (do { s1 \<leftarrow> sendErrorResponse (Some q) RIL_E_INVALID_ARGUMENTS t; Some (False, s1) })" if "scan_payload request = None"
    by (rule body_error [OF env(1,2)]) (simp add: that)
  have S: "?goal (do { s1 \<leftarrow> CALL_ONREQUEST W RIL_REQUEST_START_NETWORK_SCAN (?b specifiers) q (mSlotId W) t; Some (True, s1) })"
    if "scan_payload request = Some (?b specifiers)" for specifiers
    by (rule body_struct [OF env(1,3) that])
  show "?goal (let invalid = do { s1 \<leftarrow> sendErrorResponse (Some q) RIL_E_INVALID_ARGUMENTS t; Some (False, s1) }
     in if MAX_RADIO_ACCESS_NETWORKS < length (hn_specifiers request) then invalid
        else case those (map scan_specifier (hn_specifiers request)) of
               None \<Rightarrow> invalid
             | Some specifiers \<Rightarrow> do {
                 s1 \<leftarrow> CALL_ONREQUEST W RIL_REQUEST_START_NETWORK_SCAN (?b specifiers) q (mSlotId W) t;
                 Some (True, s1) })"
  proof (cases "8 < length (hn_specifiers request)")
    case True
    with E show ?thesis by (simp add: scan_payload_def MAX_RADIO_ACCESS_NETWORKS_def Let_def)
  next
    case small: False
    show ?thesis
    proof (cases "those (map scan_specifier (hn_specifiers request))")
      case None
      with small E show ?thesis by (simp add: scan_payload_def MAX_RADIO_ACCESS_NETWORKS_def Let_def)
    next
      case (Some specifiers)
      with small S [of specifiers] show ?thesis by (simp add: scan_payload_def MAX_RADIO_ACCESS_NETWORKS_def Let_def)
    qed
  qed
qed (simp_all add: req_consts response_names)

lemma setAllowedCarriers_answers:
  "answers [] ''setAllowedCarriersResponse'' RIL_REQUEST_SET_CARRIER_RESTRICTIONS
     (PCarriers \<lparr>cr_len_allowed_carriers = int (length allowed), cr_len_excluded_carriers = int (length excluded),
        cr_allowed_carriers = map carrier_to_ril allowed, cr_excluded_carriers = map carrier_to_ril excluded\<rparr>)
     (\<lambda>W serial. setAllowedCarriers W serial allAllowed allowed excluded)"
proof (rule answers_body [OF _ setAllowedCarriers_def])
  fix W q t
  assume env: "heap_ok t" "answerable q (rild t)" "vendor_returns W"
  let ?p = "PCarriers \<lparr>cr_len_allowed_carriers = int (length allowed), cr_len_excluded_carriers = int (length excluded),
     cr_allowed_carriers = map carrier_to_ril allowed, cr_excluded_carriers = map carrier_to_ril excluded\<rparr>"
  let ?r = RIL_REQUEST_SET_CARRIER_RESTRICTIONS
  define t1 where "t1 = snd (new_block W (Structs (length allowed)) t)"
  define t2 where "t2 = snd (new_block W (Structs (length excluded)) t1)"
  show "\<exists>b ok s'. (case new_block W (Structs (length allowed)) t of
         (None, s1) \<Rightarrow> do { s2 \<leftarrow> sendErrorResponse (Some q) RIL_E_NO_MEMORY s1; Some (False, s2) }
       | (Some allowedCarriers, s1) \<Rightarrow>
           (case new_block W (Structs (length excluded)) s1 of
              (None, s2) \<Rightarrow> do {
                s3 \<leftarrow> sendErrorResponse (Some q) RIL_E_NO_MEMORY s2;
                s4 \<leftarrow> free_block allowedCarriers s3;
                Some (False, s4) }
            | (Some excludedCarriers, s2) \<Rightarrow> do {
                s3 \<leftarrow> CALL_ONREQUEST W ?r ?p q (mSlotId W) s2;
                s4 \<leftarrow> free_block allowedCarriers s3;
                s5 \<leftarrow> free_block excludedCarriers s4;
                Some (True, s5) })) = Some (ok, s') \<and> (ok \<longrightarrow> Some ?p = Some b) \<and> delivers [] W ?r b q t ok s'"
  proof (cases "oom W (allocs t)")
    case True
    let ?t = "t\<lparr>allocs := Suc (allocs t)\<rparr>"
    from no_memory_delivers [OF heap_ext_oom [OF heap_ext_refl [OF env(1)]] _ _ env(2) no_memory_error [OF True, of "[]"], where W = W and request = ?r and d = ?p] obtain s' where
      "sendErrorResponse (Some q) RIL_E_NO_MEMORY ?t = Some s'" "delivers [] W ?r ?p q t False s'" by auto
    with True show ?thesis by (intro exI [of _ ?p] exI [of _ False] exI [of _ s']) (simp add: new_block_def)
  next
    case a: False
    let ?a = "allocs t"
    have nb1: "new_block W (Structs (length allowed)) t = (Some ?a, t1)" using a by (simp add: t1_def new_block_def)
    have H1: "heap_ext t {?a} t1" unfolding t1_def using heap_ext_alloc [OF heap_ext_refl [OF env(1)] a] by simp
    have f1: "rild t1 = rild t" "calls t1 = calls t" using a by (simp_all add: t1_def new_block_def)
    show ?thesis
    proof (cases "oom W (allocs t1)")
      case True
      let ?t = "t1\<lparr>allocs := Suc (allocs t1)\<rparr>"
      from respond_error_total [OF env(2)] obtain r where r: "respond_error q RIL_E_NO_MEMORY (rild t) = Some r" by blast
      have "heap_ext t (set (somes [Some ?a])) (?t\<lparr>rild := r\<rparr>)" using heap_ext_oom [OF H1] by simp
      from free_after_error [OF this _ _ _ _, of q RIL_E_NO_MEMORY "copy_errors W []" W ?r ?p] r f1 no_memory_error [OF True, of "[]"] obtain s' where
        s': "memsetAndFreeStrings [Some ?a] (?t\<lparr>rild := r\<rparr>) = Some s'" "delivers [] W ?r ?p q t False s'"
        by auto
      from s'(1) have "free_block ?a (?t\<lparr>rild := r\<rparr>) = Some s'" by (auto simp: bind_eq_Some_conv)
      with nb1 True r f1 s'(2) show ?thesis
        by (intro exI [of _ ?p] exI [of _ False] exI [of _ s']) (simp add: new_block_def sendErrorResponse_def)
    next
      case b: False
      let ?b = "allocs t1"
      have nb2: "new_block W (Structs (length excluded)) t1 = (Some ?b, t2)" using b by (simp add: t2_def new_block_def)
      have "heap_ext t {?b, ?a} t2" unfolding t2_def by (rule heap_ext_alloc [OF H1 b])
      then have H2: "heap_ext t (set (somes [Some ?a, Some ?b])) t2" by (simp add: insert_commute)
      have d: "distinct (somes [Some ?a, Some ?b])" using heap_ext_new [OF H1] by auto
      have f2: "rild t2 = rild t" "calls t2 = calls t" using b f1 by (simp_all add: t2_def new_block_def)
      from call_and_free [OF H2 d env(3) f2, where request = ?r and b = ?p and p = q and E = "copy_errors W []"] obtain s3 s5 where
        s: "CALL_ONREQUEST W ?r ?p q (mSlotId W) t2 = Some s3" "memsetAndFreeStrings [Some ?a, Some ?b] s3 = Some s5"
          "delivers [] W ?r ?p q t True s5" by blast
      from s(2) obtain s4 where "free_block ?a s3 = Some s4" "free_block ?b s4 = Some s5"
        by (auto simp: bind_eq_Some_conv)
      with nb1 nb2 s(1,3) show ?thesis by (intro exI [of _ ?p] exI [of _ True] exI [of _ s5]) simp
    qed
  qed
qed (simp_all add: req_consts response_names)

lemma setRadioCapability_answers:
  "reaches_vendor ''setRadioCapabilityResponse'' RIL_REQUEST_SET_RADIO_CAPABILITY
     (PRadioCapability \<lparr>rp_version = 0, rp_session = hr_session rc, rp_phase = hr_phase rc, rp_rat = hr_raf rc,
        rp_logicalModemUuid = take 63 (hs_chars (hr_logicalModemUuid rc)), rp_status = hr_status rc\<rparr>)
     (\<lambda>W serial. setRadioCapability W serial rc)"
  by (rule answers_struct, simp only: setRadioCapability_def)
    (simp_all add: req_consts response_names MAX_UUID_LENGTH_def)

text \<open>
  A network scan reaches the vendor only with arrays that fit \<open>RIL_NetworkScanRequest\<close>, and with the
  lengths of what was copied: at most 8 networks, 8 bands and 32 channels each.
\<close>

theorem network_scan_fits:
  assumes "startNetworkScan W serial request s = Some s'" "calls s' \<noteq> calls s"
  shows "\<exists>d q sock. calls s' = calls s @ [(RIL_REQUEST_START_NETWORK_SCAN, PNetworkScan d, q, sock)] \<and>
    length (ns_specifiers d) \<le> 8 \<and> unat (ns_specifiers_length d) = length (ns_specifiers d) \<and>
    map sp_channels (ns_specifiers d) = map hn_channels (hn_specifiers request) \<and>
    (\<forall>t \<in> set (ns_specifiers d). length (sp_bands t) \<le> 8 \<and> unat (sp_bands_length t) = length (sp_bands t) \<and>
       length (sp_channels t) \<le> 32 \<and> unat (sp_channels_length t) = length (sp_channels t))"
proof -
  let ?rs = "hn_specifiers request"
  let ?d = "\<lambda>ts. PNetworkScan \<lparr>ns_type = hn_scanType request, ns_interval = hn_scanInterval request,
    ns_specifiers_length = word_of_nat (length ?rs), ns_specifiers = ts\<rparr>"
  let ?c = "if MAX_RADIO_ACCESS_NETWORKS < length ?rs then None else map_option ?d (those (map scan_specifier ?rs))"
  have "startNetworkScan W serial request s = discard (with_request W serial RIL_REQUEST_START_NETWORK_SCAN
      (send_checked W RIL_REQUEST_START_NETWORK_SCAN ?c) s)"
    unfolding startNetworkScan_def send_checked_def Let_def
    by (cases "MAX_RADIO_ACCESS_NETWORKS < length ?rs"; cases "those (map scan_specifier ?rs)")
      (simp_all only: if_True if_False option.case option.map)
  from send_checked_calls [OF assms(1) [unfolded this] assms(2)] obtain ts q sock where
    c: "length ?rs \<le> 8" "those (map scan_specifier ?rs) = Some ts"
      "calls s' = calls s @ [(RIL_REQUEST_START_NETWORK_SCAN, ?d ts, q, sock)]"
    by (auto simp: MAX_RADIO_ACCESS_NETWORKS_def split: if_splits)
  have small: "unat (word_of_nat n :: u32) = n" if "n \<le> 32" for n
    using that by (simp add: unat_of_nat)
  have fits: "sp_channels t = hn_channels r \<and> length (sp_bands t) \<le> 8 \<and> unat (sp_bands_length t) = length (sp_bands t) \<and>
      length (sp_channels t) \<le> 32 \<and> unat (sp_channels_length t) = length (sp_channels t)"
    if "scan_specifier r = Some t" for r t
    using that by (auto simp: scan_specifier_def MAX_BANDS_def MAX_CHANNELS_def Let_def small split: if_splits access_network.splits)
  have "those xs = Some ys \<Longrightarrow> list_all2 (\<lambda>x y. x = Some y) xs ys" for xs :: "RIL_RadioAccessSpecifier option list" and ys
    by (induction xs arbitrary: ys) (auto split: option.splits)
  from this [OF c(2)] have l: "list_all2 (\<lambda>r t. scan_specifier r = Some t) ?rs ts" by (simp add: list_all2_map1)
  then have "length ts = length ?rs" by (auto dest: list_all2_lengthD)
  moreover have "map sp_channels ts = map hn_channels ?rs" using l by induction (use fits in auto)
  moreover have "\<forall>t\<in>set ts. \<exists>r. scan_specifier r = Some t" using l by induction auto
  ultimately show ?thesis using c fits small [of "length ?rs"]
    by (intro exI [of _ "\<lparr>ns_type = hn_scanType request, ns_interval = hn_scanInterval request,
      ns_specifiers_length = word_of_nat (length ?rs), ns_specifiers = ts\<rparr>"] exI [of _ q] exI [of _ sock]) auto
qed

theorem network_scan_fits_witness:
  "\<exists>s' d q sock. startNetworkScan W0 7 \<lparr>hn_scanType = 0, hn_scanInterval = 10, hn_specifiers =
       [\<lparr>hn_radioAccessNetwork = RanUTRAN, hn_geranBands = [], hn_utranBands = [1, 8], hn_eutranBands = [], hn_channels = []\<rparr>]\<rparr> svc0 = Some s' \<and>
     calls s' = [(RIL_REQUEST_START_NETWORK_SCAN, PNetworkScan d, q, sock)] \<and> length (ns_specifiers d) \<le> 8"
proof -
  let ?q = "\<lparr>hn_scanType = 0, hn_scanInterval = 10, hn_specifiers =
       [\<lparr>hn_radioAccessNetwork = RanUTRAN, hn_geranBands = [], hn_utranBands = [1, 8], hn_eutranBands = [], hn_channels = []\<rparr>]\<rparr>"
  have n: "0 \<le> RIL_REQUEST_START_NETWORK_SCAN" "RIL_REQUEST_START_NETWORK_SCAN < 146" by (simp_all add: req_consts)
  from add_registered [OF n, of 7 0] obtain r where
    "addRequestToList env0 7 0 RIL_REQUEST_START_NETWORK_SCAN registered_ril = Some (Some 10, r)" by blast
  then have "\<exists>s'. startNetworkScan W0 7 ?q svc0 = Some s' \<and> calls s' \<noteq> calls svc0"
    by (simp add: startNetworkScan_def with_request_def addRequest_def discard_def scan_specifier_def CALL_ONREQUEST_def
        MAX_RADIO_ACCESS_NETWORKS_def MAX_BANDS_def MAX_CHANNELS_def Let_def)
  then obtain s' where s': "startNetworkScan W0 7 ?q svc0 = Some s'" "calls s' \<noteq> calls svc0" by blast
  from network_scan_fits [OF s'] s'(1) show ?thesis by auto
qed

end
