(* ===== verification/RespTypes.thy ===== *)
theory RespTypes
  imports RadioTypes
begin

text \<open>
  Data of the response half of the radio service, \<open>libril/ril_service.cpp\<close>: the structures of
  \<open>telephony/ril.h\<close> a vendor hands back, the HIDL values they are converted to, the calls of the
  client's callbacks, and the state the response functions share (the registered callbacks and their
  counters). An enumeration of the HIDL interface is a cast integer or one of the constants the code
  names. A \<open>char *\<close> is NULL or the characters it points to; a field that is a C array is the list of
  its elements.
\<close>

section \<open>Structures of the vendor interface\<close>

record RIL_AppStatus =
  as_app_type :: int
  as_app_state :: int
  as_perso_substate :: int
  as_aid_ptr :: cstr
  as_app_label_ptr :: cstr
  as_pin1_replaced :: int
  as_pin1 :: int
  as_pin2 :: int

record RIL_CardStatus_v6 =
  cs_card_state :: int
  cs_universal_pin_state :: int
  cs_gsm_umts_subscription_app_index :: int
  cs_cdma_subscription_app_index :: int
  cs_ims_subscription_app_index :: int
  cs_num_applications :: int
  cs_applications :: "RIL_AppStatus list"

record RIL_Call =
  rc_state :: int
  rc_index :: int
  rc_toa :: int
  rc_isMpty :: u8
  rc_isMT :: u8
  rc_als :: u8
  rc_isVoice :: u8
  rc_isVoicePrivacy :: u8
  rc_number :: cstr
  rc_numberPresentation :: int
  rc_name :: cstr
  rc_namePresentation :: int
  rc_uusInfo :: "RIL_UUS_Info option"

record RIL_LastCallFailCauseInfo =
  lf_cause_code :: int
  lf_vendor_cause :: cstr

record RIL_SMS_Response =
  sr_messageRef :: int
  sr_ackPDU :: cstr
  sr_errorCode :: int

record RIL_SIM_IO_Response =
  ir_sw1 :: int
  ir_sw2 :: int
  ir_simResponse :: cstr

record RIL_NeighboringCell =
  nc_cid :: cstr
  nc_rssi :: int

text \<open>\<open>RIL_CDMA_BroadcastSmsConfigInfo\<close>, of \<open>ril_cdma_sms.h\<close>, as far as the code reads it.\<close>

record RIL_CDMA_BroadcastSmsConfigInfo =
  xb_service_category :: int
  xb_language :: int
  xb_selected :: u8

record RIL_Data_Call_Response_v6 =
  dc_status :: int
  dc_suggestedRetryTime :: int
  dc_cid :: int
  dc_active :: int
  dc_type :: cstr
  dc_ifname :: cstr
  dc_addresses :: cstr
  dc_dnses :: cstr
  dc_gateways :: cstr

record RIL_Data_Call_Response_v9 = RIL_Data_Call_Response_v6 +
  dc_pcscf :: cstr

record RIL_Data_Call_Response_v11 = RIL_Data_Call_Response_v9 +
  dc_mtu :: int

text \<open>The union of \<open>RIL_HardwareConfig\<close>: the member that was written.\<close>

record RIL_HardwareConfig_Modem =
  wm_rat :: u32
  wm_maxVoice :: int
  wm_maxData :: int
  wm_maxStandby :: int

datatype hw_cfg = HwModem RIL_HardwareConfig_Modem | HwSim "string"

record RIL_HardwareConfig =
  wc_type :: int
  wc_uuid :: string
  wc_state :: int
  wc_cfg :: hw_cfg

record RIL_LceStatusInfo =
  ls_lce_status :: u8
  ls_actual_interval_ms :: u32

record RIL_LceDataInfo =
  ld_last_hop_capacity_kbps :: u32
  ld_confidence_level :: u8
  ld_lce_suspended :: u8

record RIL_ActivityStatsInfo =
  at_sleep_mode_time_ms :: u32
  at_idle_mode_time_ms :: u32
  at_tx_mode_time_ms :: "u32 list"
  at_rx_mode_time_ms :: u32

record RIL_KeepaliveStatus =
  ks_sessionHandle :: u32
  ks_code :: int

record RIL_SuppSvcNotification =
  sn_notificationType :: int
  sn_code :: int
  sn_index :: int
  sn_type :: int
  sn_number :: cstr

record RIL_SimRefreshResponse_v7 =
  sf_result :: int
  sf_ef_id :: int
  sf_aid :: cstr

record RIL_CDMA_SignalInfoRecord =
  si_isPresent :: u8
  si_signalType :: u8
  si_alertPitch :: u8
  si_signal :: u8

record RIL_CDMA_CallWaiting_v6 =
  cw_number :: cstr
  cw_numberPresentation :: int
  cw_name :: cstr
  cw_signalInfoRecord :: RIL_CDMA_SignalInfoRecord
  cw_number_type :: int
  cw_number_plan :: int

record RIL_CDMA_DisplayInfoRecord =
  di_alpha_len :: u8
  di_alpha_buf :: "u8 list"

record RIL_CDMA_NumberInfoRecord =
  ni_len :: u8
  ni_buf :: "u8 list"
  ni_number_type :: u8
  ni_number_plan :: u8
  ni_pi :: u8
  ni_si :: u8

record RIL_CDMA_LineControlInfoRecord =
  lc_lineCtrlPolarityIncluded :: u8
  lc_lineCtrlToggle :: u8
  lc_lineCtrlReverse :: u8
  lc_lineCtrlPowerDenial :: u8

text \<open>The union of \<open>RIL_CDMA_InformationRecord\<close>.\<close>

datatype cdma_rec =
    RecDisplay RIL_CDMA_DisplayInfoRecord
  | RecNumber RIL_CDMA_NumberInfoRecord
  | RecSignal RIL_CDMA_SignalInfoRecord
  | RecRedir RIL_CDMA_NumberInfoRecord int
  | RecLineCtrl RIL_CDMA_LineControlInfoRecord
  | RecClir u8
  | RecAudioCtrl u8 u8

record RIL_CDMA_InformationRecord =
  in_name :: int
  in_rec :: cdma_rec

record RIL_CDMA_InformationRecords =
  in_numberOfInfoRecs :: u8
  in_infoRec :: "RIL_CDMA_InformationRecord list"

datatype ss_data = SsInfo "int list" | SsCf int "RIL_CallForwardInfo list"

record RIL_StkCcUnsolSsResponse =
  ss_serviceType :: int
  ss_requestType :: int
  ss_teleserviceType :: int
  ss_serviceClass :: int
  ss_result :: int
  ss_data :: ss_data

record RIL_PCO_Data =
  pd_cid :: int
  pd_bearer_proto :: cstr
  pd_pco_id :: int
  pd_contents_length :: int
  pd_contents :: "u8 list"

section \<open>Cells and signal strengths\<close>

record RIL_GW_SignalStrength =
  gw_signalStrength :: int
  gw_bitErrorRate :: int

record RIL_GSM_SignalStrength_v12 = RIL_GW_SignalStrength +
  gw_timingAdvance :: int

record RIL_CDMA_SignalStrength =
  cx_dbm :: int
  cx_ecio :: int

record RIL_EVDO_SignalStrength =
  ev_dbm :: int
  ev_ecio :: int
  ev_signalNoiseRatio :: int

record RIL_LTE_SignalStrength_v8 =
  lt_signalStrength :: int
  lt_rsrp :: int
  lt_rsrq :: int
  lt_rssnr :: int
  lt_cqi :: int
  lt_timingAdvance :: int

record RIL_SignalStrength_v8 =
  GW_SignalStrength :: RIL_GW_SignalStrength
  CDMA_SignalStrength :: RIL_CDMA_SignalStrength
  EVDO_SignalStrength :: RIL_EVDO_SignalStrength
  LTE_SignalStrength :: RIL_LTE_SignalStrength_v8

text \<open>\<open>RIL_TD_SCDMA_SignalStrength\<close> has the one member \<open>rscp\<close>.\<close>

record RIL_SignalStrength_v10 = RIL_SignalStrength_v8 +
  TD_SCDMA_rscp :: int

text \<open>
  The cell identities with \<open>mcc\<close> and \<open>mnc\<close>, over the type of these two: integers on the vendor's side,
  strings on the client's.
\<close>

record 'a cell_gsm =
  cg_mcc :: 'a
  cg_mnc :: 'a
  cg_lac :: int
  cg_cid :: int
  cg_arfcn :: int
  cg_bsic :: u8

record 'a cell_wcdma =
  cu_mcc :: 'a
  cu_mnc :: 'a
  cu_lac :: int
  cu_cid :: int
  cu_psc :: int
  cu_uarfcn :: int

record cell_cdma =
  cc_networkId :: int
  cc_systemId :: int
  cc_basestationId :: int
  cc_longitude :: int
  cc_latitude :: int

record 'a cell_lte =
  cl_mcc :: 'a
  cl_mnc :: 'a
  cl_ci :: int
  cl_pci :: int
  cl_tac :: int
  cl_earfcn :: int

record 'a cell_tdscdma =
  ct_mcc :: 'a
  ct_mnc :: 'a
  ct_lac :: int
  ct_cid :: int
  ct_cpid :: int

text \<open>The union of \<open>RIL_CellIdentity_v16\<close> and that of \<open>RIL_CellInfo_v12\<close>: the member that was written.\<close>

datatype 'a cell_identity =
    IdGsm "'a cell_gsm"
  | IdWcdma "'a cell_wcdma"
  | IdCdma cell_cdma
  | IdLte "'a cell_lte"
  | IdTdscdma "'a cell_tdscdma"

record RIL_CellIdentity_v16 =
  ci_cellInfoType :: int
  ci_identity :: "int cell_identity"

datatype 'a cell_measure =
    CellGsm "'a cell_gsm" RIL_GSM_SignalStrength_v12
  | CellWcdma "'a cell_wcdma" RIL_GW_SignalStrength
  | CellCdma cell_cdma RIL_CDMA_SignalStrength RIL_EVDO_SignalStrength
  | CellLte "'a cell_lte" RIL_LTE_SignalStrength_v8
  | CellTdscdma "'a cell_tdscdma" int

record RIL_CellInfo_v12 =
  cv_cellInfoType :: int
  cv_registered :: int
  cv_timeStampType :: int
  cv_timeStamp :: "64 word"
  cv_CellInfo :: "int cell_measure"

record RIL_VoiceRegistrationStateResponse =
  vr_regState :: int
  vr_rat :: int
  vr_cssSupported :: int
  vr_roamingIndicator :: int
  vr_systemIsInPrl :: int
  vr_defaultRoamingIndicator :: int
  vr_reasonForDenial :: int
  vr_cellIdentity :: RIL_CellIdentity_v16

record RIL_DataRegistrationStateResponse =
  dr_regState :: int
  dr_rat :: int
  dr_reasonDataDenied :: int
  dr_maxDataCalls :: int
  dr_cellIdentity :: RIL_CellIdentity_v16

record RIL_NetworkScanResult =
  nr_status :: int
  nr_network_infos_length :: u32
  nr_network_infos :: "RIL_CellInfo_v12 list"
  nr_error :: int

section \<open>Values of the client's interface\<close>

text \<open>An enumeration value: an integer the code casts, or a constant it names.\<close>

datatype henum = Cast int | Named string

text \<open>\<open>RadioResponseInfo\<close>: \<open>Unset\<close> is the value 0 the structure starts with.\<close>

datatype response_type = Unset | SOLICITED | SOLICITED_ACK_EXP

record radio_response_info =
  ri_type :: response_type
  ri_serial :: int
  ri_error :: henum

record app_status =
  ha_appType :: int
  ha_appState :: int
  ha_persoSubstate :: int
  ha_aidPtr :: hidl_string
  ha_appLabelPtr :: hidl_string
  ha_pin1Replaced :: int
  ha_pin1 :: int
  ha_pin2 :: int

record card_status =
  hq_cardState :: henum
  hq_universalPinState :: henum
  hq_gsmUmtsSubscriptionAppIndex :: int
  hq_cdmaSubscriptionAppIndex :: int
  hq_imsSubscriptionAppIndex :: int
  hq_applications :: "app_status list"

record hidl_call =
  hl_state :: int
  hl_index :: int
  hl_toa :: int
  hl_isMpty :: bool
  hl_isMT :: bool
  hl_als :: u8
  hl_isVoice :: bool
  hl_isVoicePrivacy :: bool
  hl_number :: hidl_string
  hl_numberPresentation :: int
  hl_name :: hidl_string
  hl_namePresentation :: int
  hl_uusInfo :: "hidl_uus_info list"

record setup_data_call_result =
  hy_status :: henum
  hy_suggestedRetryTime :: int
  hy_cid :: int
  hy_active :: int
  hy_type :: hidl_string
  hy_ifname :: hidl_string
  hy_addresses :: hidl_string
  hy_dnses :: hidl_string
  hy_gateways :: hidl_string
  hy_pcscf :: hidl_string
  hy_mtu :: int

record operator_info =
  ho_alphaLong :: hidl_string
  ho_alphaShort :: hidl_string
  ho_operatorNumeric :: hidl_string
  ho_status :: henum

record hardware_config =
  hh_type :: int
  hh_uuid :: hidl_string
  hh_state :: int
  hh_modem :: "(u32 \<times> int \<times> int \<times> int) list"
  hh_sim :: "hidl_string list"

record cell_identity_list =
  hz_cellInfoType :: int
  hz_gsm :: "string cell_gsm list"
  hz_wcdma :: "string cell_wcdma list"
  hz_cdma :: "cell_cdma list"
  hz_lte :: "string cell_lte list"
  hz_tdscdma :: "string cell_tdscdma list"

record cell_info =
  ht_cellInfoType :: int
  ht_registered :: bool
  ht_timeStampType :: int
  ht_timeStamp :: "64 word"
  ht_gsm :: "(string cell_gsm \<times> RIL_GSM_SignalStrength_v12) list"
  ht_wcdma :: "(string cell_wcdma \<times> RIL_GW_SignalStrength) list"
  ht_cdma :: "(cell_cdma \<times> RIL_CDMA_SignalStrength \<times> RIL_EVDO_SignalStrength) list"
  ht_lte :: "(string cell_lte \<times> RIL_LTE_SignalStrength_v8) list"
  ht_tdscdma :: "(string cell_tdscdma \<times> int) list"

record signal_strength =
  hj_gw :: RIL_GSM_SignalStrength_v12
  hj_cdma :: RIL_CDMA_SignalStrength
  hj_evdo :: RIL_EVDO_SignalStrength
  hj_lte :: RIL_LTE_SignalStrength_v8
  hj_tdScdma_rscp :: int

record voice_reg_state =
  hv_regState :: int
  hv_rat :: int
  hv_cssSupported :: bool
  hv_roamingIndicator :: int
  hv_systemIsInPrl :: int
  hv_defaultRoamingIndicator :: int
  hv_reasonForDenial :: int
  hv_cellIdentity :: cell_identity_list

record data_reg_state =
  hd_regState :: int
  hd_rat :: int
  hd_reasonDataDenied :: int
  hd_maxDataCalls :: int
  hd_cellIdentity :: cell_identity_list

record cdma_info_number =
  hn_number :: hidl_string
  hn_numberType :: u8
  hn_numberPlan :: u8
  hn_pi :: u8
  hn_si :: u8

record cdma_signal_info =
  hg_isPresent :: bool
  hg_signalType :: u8
  hg_alertPitch :: u8
  hg_signal :: u8

record cdma_line_control =
  hk_lineCtrlPolarityIncluded :: u8
  hk_lineCtrlToggle :: u8
  hk_lineCtrlReverse :: u8
  hk_lineCtrlPowerDenial :: u8

record cdma_information_record =
  hi_name :: int
  hi_display :: "hidl_string list"
  hi_number :: "cdma_info_number list"
  hi_signal :: "cdma_signal_info list"
  hi_redir :: "(cdma_info_number \<times> int) list"
  hi_lineCtrl :: "cdma_line_control list"
  hi_clir :: "u8 list"
  hi_audioCtrl :: "(u8 \<times> u8) list"

record hidl_cdma_call_waiting =
  hx_number :: hidl_string
  hx_numberPresentation :: int
  hx_name :: hidl_string
  hx_signalInfoRecord :: cdma_signal_info
  hx_numberType :: int
  hx_numberPlan :: int

record stk_cc_unsol_ss =
  hs_serviceType :: int
  hs_requestType :: int
  hs_teleserviceType :: int
  hs_serviceClass :: int
  hs_result :: int
  hs_ssInfo :: "int list list"
  hs_cfData :: "hidl_call_forward list list"

text \<open>The arguments of a call of a client's method, after the response or indication information.\<close>

datatype hidl_arg =
    AInt int
  | ABool bool
  | AEnum henum
  | AString hidl_string
  | AStrings "hidl_string list"
  | AEnums "int list"
  | ABytes "u8 list"
  | AIccIo int int hidl_string
  | ASendSms int hidl_string int
  | ACardStatus card_status
  | ACalls "hidl_call list"
  | AFailCause int hidl_string
  | ASignal signal_strength
  | AVoiceReg voice_reg_state
  | ADataReg data_reg_state
  | ADataCall setup_data_call_result
  | ADataCalls "setup_data_call_result list"
  | AForwards "hidl_call_forward list"
  | AOperators "operator_info list"
  | ANeighbors "(hidl_string \<times> int) list"
  | AGsmBroadcast "hidl_gsm_broadcast list"
  | ACdmaBroadcast "hidl_cdma_broadcast list"
  | ACells "cell_info list"
  | AHardware "hardware_config list"
  | ACapability radio_capability
  | ALceStatus int u8
  | ALceData u32 u8 bool
  | AActivity u32 u32 "u32 list" u32
  | ACarriers "carrier list" "carrier list"
  | AKeepalive u32 int
  | ASuppSvc bool int int int hidl_string
  | ASimRefresh int int hidl_string
  | ASignalInfo cdma_signal_info
  | ACdmaSms hidl_cdma_sms
  | ACallWaiting hidl_cdma_call_waiting
  | AInfoRecords "cdma_information_record list"
  | ASupplementary stk_cc_unsol_ss
  | APco int hidl_string int "u8 list"
  | AScanResult int int "cell_info list"

text \<open>
  A call of a method of a client's object: of a response object with the response information, of an
  indication object with the type of the indication, of a response object with a serial alone.
\<close>

datatype indication_type = UNSOLICITED | UNSOLICITED_ACK_EXP

datatype client_call =
    ResponseCall addr string radio_response_info "hidl_arg list"
  | IndicationCall addr string indication_type "hidl_arg list"
  | AcknowledgeCall addr int

section \<open>What the vendor hands back\<close>

text \<open>
  The memory behind \<open>void *response\<close>, by what the vendor wrote there. Reading it as something else,
  or beyond its end, is undefined; arrays of pointers may hold NULL.
\<close>

datatype vdata =
    VInts "int list"
  | VChars string
  | VStrs "cstr list"
  | VBytes "u8 list"
  | VCardStatus RIL_CardStatus_v6
  | VCalls "RIL_Call option list"
  | VFailCause RIL_LastCallFailCauseInfo
  | VSms RIL_SMS_Response
  | VSimIo RIL_SIM_IO_Response
  | VForwards "RIL_CallForwardInfo option list"
  | VNeighbors "RIL_NeighboringCell option list"
  | VGsmBroadcast "RIL_GSM_BroadcastSmsConfigInfo option list"
  | VCdmaBroadcast "RIL_CDMA_BroadcastSmsConfigInfo option list"
  | VDataCalls6 "RIL_Data_Call_Response_v6 list"
  | VDataCalls9 "RIL_Data_Call_Response_v9 list"
  | VDataCalls11 "RIL_Data_Call_Response_v11 list"
  | VHardware "RIL_HardwareConfig list"
  | VCapability RIL_RadioCapability
  | VLceStatus RIL_LceStatusInfo
  | VLceData RIL_LceDataInfo
  | VActivity RIL_ActivityStatsInfo
  | VCarriers RIL_CarrierRestrictions
  | VKeepalive RIL_KeepaliveStatus
  | VSignal8 RIL_SignalStrength_v8
  | VSignal10 RIL_SignalStrength_v10
  | VVoiceReg RIL_VoiceRegistrationStateResponse
  | VDataReg RIL_DataRegistrationStateResponse
  | VCells "RIL_CellInfo_v12 list"
  | VSuppSvc RIL_SuppSvcNotification
  | VSimRefresh RIL_SimRefreshResponse_v7
  | VSignalInfo RIL_CDMA_SignalInfoRecord
  | VCdmaSms RIL_CDMA_SMS_Message
  | VCallWaiting RIL_CDMA_CallWaiting_v6
  | VInfoRecords RIL_CDMA_InformationRecords
  | VSupplementary RIL_StkCcUnsolSsResponse
  | VPco RIL_PCO_Data
  | VScanResult RIL_NetworkScanResult

text \<open>The types whose size the code compares with \<open>responseLen\<close>; all pointers have one size.\<close>

datatype ctype =
    C_int | C_ptr | C_RIL_CardStatus_v6 | C_RIL_LastCallFailCauseInfo | C_RIL_SMS_Response
  | C_RIL_SIM_IO_Response | C_RIL_Data_Call_Response_v6 | C_RIL_Data_Call_Response_v9
  | C_RIL_Data_Call_Response_v11 | C_RIL_HardwareConfig | C_RIL_RadioCapability | C_RIL_LceStatusInfo
  | C_RIL_LceDataInfo | C_RIL_ActivityStatsInfo | C_RIL_CarrierRestrictions | C_KeepaliveStatus
  | C_RIL_SignalStrength_v8 | C_RIL_SignalStrength_v10 | C_RIL_VoiceRegistrationStateResponse
  | C_RIL_DataRegistrationStateResponse | C_RIL_CellInfo_v12 | C_RIL_SuppSvcNotification
  | C_RIL_SimRefreshResponse_v7 | C_RIL_CDMA_SignalInfoRecord | C_RIL_CDMA_SMS_Message
  | C_RIL_CDMA_CallWaiting_v6 | C_RIL_CDMA_InformationRecords | C_RIL_StkCcUnsolSsResponse | C_RIL_PCO_Data

section \<open>State\<close>

record radio_service =
  mRadioResponse :: "addr option"
  mRadioIndication :: "addr option"
  mRadioResponseV1_1 :: "addr option"
  mRadioIndicationV1_1 :: "addr option"

record oem_hook_service =
  mOemHookResponse :: "addr option"
  mOemHookIndication :: "addr option"

text \<open>
  The static data of the service by slot: the service objects, the counters of the registrations, and
  the time of the last NITZ message. \<open>sent\<close> are the calls of client objects so far.
\<close>

record rsvc =
  radioService :: "int \<Rightarrow> radio_service option"
  oemHookService :: "int \<Rightarrow> oem_hook_service option"
  mCounterRadio :: "int \<Rightarrow> u32"
  mCounterOemHook :: "int \<Rightarrow> u32"
  nitzTimeReceived :: "int \<Rightarrow> int"
  sent :: "client_call list"

text \<open>
  The outside: the sizes of the types, whether the last call of a list of calls reached its client
  process, what other threads do to the state while \<open>checkReturnStatus\<close> has released its lock, the
  version and the radio state of the vendor library, the cast to the interface version 1.1
  (\<open>None\<close>: the call failed), a system property, whether an allocation by its size
  succeeds, and the words an uninitialised variable holds. The array
  sizes and the flags of the build are those of \<open>radio_env\<close>.
\<close>

record hal =
  sizeof :: "ctype \<Rightarrow> nat"
  reached :: "client_call list \<Rightarrow> bool"
  other_threads :: "rsvc \<Rightarrow> rsvc"
  vendor_version :: int
  onStateRequest :: "int \<Rightarrow> int"
  castResponse :: "addr option \<Rightarrow> addr option option"
  castIndication :: "addr option \<Rightarrow> addr option option"
  mqanelements :: int
  kOemHookEnabled :: bool
  old_mnc_format :: bool
  malloc_ok :: "nat \<Rightarrow> bool"
  uninit :: "nat \<Rightarrow> u32"
  address_max :: nat
  subaddress_max :: nat
  bearer_data_max :: nat

end
