(* ===== verification/RespCore.thy ===== *)
theory RespCore
  imports RespTypes
begin

text \<open>
  What the response functions of \<open>libril/ril_service.cpp\<close> share: the response information, the call of
  a client's object, and the reaction to a client whose process has died. A response function
  returns its \<open>int\<close> and the new state; undefined behaviour is \<open>None\<close>.
\<close>

section \<open>Response information\<close>

definition populateResponseInfo :: "int \<Rightarrow> int \<Rightarrow> int \<Rightarrow> radio_response_info" where
  "populateResponseInfo serial responseType e =
     \<lparr>ri_type = (if responseType = RESPONSE_SOLICITED then SOLICITED
                 else if responseType = RESPONSE_SOLICITED_ACK_EXP then SOLICITED_ACK_EXP
                 else Unset),
      ri_serial = serial, ri_error = Cast e\<rparr>"

text \<open>\<open>if (e == RIL_E_SUCCESS) responseInfo.error = RadioError::INVALID_RESPONSE;\<close>\<close>

definition invalid_response :: "int \<Rightarrow> radio_response_info \<Rightarrow> radio_response_info" where
  "invalid_response e i = (if e = RIL_E_SUCCESS then i\<lparr>ri_error := Named ''INVALID_RESPONSE''\<rparr> else i)"

definition convertCharPtrToHidlString :: "cstr \<Rightarrow> hidl_string" where
  "convertCharPtrToHidlString ptr = (case ptr of None \<Rightarrow> hidl_string_of [] | Some c \<Rightarrow> hidl_string_of c)"

text \<open>Reading the vendor's memory: an \<open>int\<close> of an array, the first elements of an array.\<close>

definition int_at :: "vdata \<Rightarrow> nat \<Rightarrow> int option" where
  "int_at d i = (case d of VInts xs \<Rightarrow> (if i < length xs then Some (xs ! i) else None) | _ \<Rightarrow> None)"

definition first_elems :: "nat \<Rightarrow> 'a list \<Rightarrow> 'a list option" where
  "first_elems n xs = (if n \<le> length xs then Some (take n xs) else None)"

definition str_arg :: "vdata option \<Rightarrow> cstr option" where
  "str_arg response =
     (case response of None \<Rightarrow> Some None | Some (VChars c) \<Rightarrow> Some (Some c) | _ \<Rightarrow> None)"

definition responseIntOrEmpty ::
  "hal \<Rightarrow> int \<Rightarrow> int \<Rightarrow> int \<Rightarrow> vdata option \<Rightarrow> nat \<Rightarrow> (radio_response_info \<times> int) option" where
  "responseIntOrEmpty H serial responseType e response responseLen =
     (let i = populateResponseInfo serial responseType e
      in case response of
           None \<Rightarrow> Some (if responseLen = 0 then i else invalid_response e i, -1)
         | Some d \<Rightarrow>
             if responseLen \<noteq> sizeof H C_int then Some (invalid_response e i, -1)
             else map_option (Pair i) (int_at d 0))"

definition responseInt ::
  "hal \<Rightarrow> int \<Rightarrow> int \<Rightarrow> int \<Rightarrow> vdata option \<Rightarrow> nat \<Rightarrow> (radio_response_info \<times> int) option" where
  "responseInt H serial responseType e response responseLen =
     (let i = populateResponseInfo serial responseType e
      in case response of
           None \<Rightarrow> Some (invalid_response e i, -1)
         | Some d \<Rightarrow>
             if responseLen \<noteq> sizeof H C_int then Some (invalid_response e i, -1)
             else map_option (Pair i) (int_at d 0))"

definition makeSendSmsResult ::
  "hal \<Rightarrow> int \<Rightarrow> int \<Rightarrow> int \<Rightarrow> vdata option \<Rightarrow> nat \<Rightarrow> (radio_response_info \<times> hidl_arg) option" where
  "makeSendSmsResult H serial responseType e response responseLen =
     (let i = populateResponseInfo serial responseType e
      in if response = None \<or> responseLen \<noteq> sizeof H C_RIL_SMS_Response
         then Some (invalid_response e i, ASendSms 0 (hidl_string_of []) 0)
         else case response of
                Some (VSms r) \<Rightarrow>
                  Some (i, ASendSms (sr_messageRef r) (convertCharPtrToHidlString (sr_ackPDU r)) (sr_errorCode r))
              | _ \<Rightarrow> None)"

definition responseIccIo ::
  "hal \<Rightarrow> int \<Rightarrow> int \<Rightarrow> int \<Rightarrow> vdata option \<Rightarrow> nat \<Rightarrow> (radio_response_info \<times> hidl_arg) option" where
  "responseIccIo H serial responseType e response responseLen =
     (let i = populateResponseInfo serial responseType e
      in if response = None \<or> responseLen \<noteq> sizeof H C_RIL_SIM_IO_Response
         then Some (invalid_response e i, AIccIo 0 0 (hidl_string_of []))
         else case response of
                Some (VSimIo r) \<Rightarrow>
                  Some (i, AIccIo (ir_sw1 r) (ir_sw2 r) (convertCharPtrToHidlString (ir_simResponse r)))
              | _ \<Rightarrow> None)"

section \<open>Calls of the client\<close>

text \<open>A call is made, and \<open>Return<void>::isOk()\<close> says whether it reached the client's process.\<close>

definition transact :: "hal \<Rightarrow> client_call \<Rightarrow> rsvc \<Rightarrow> bool \<times> rsvc" where
  "transact H c s = (reached H (sent s @ [c]), s\<lparr>sent := sent s @ [c]\<rparr>)"

text \<open>
  The client's process is dead: its objects are dropped, unless another thread registered new ones
  while the lock was released.
\<close>

definition checkReturnStatus :: "hal \<Rightarrow> int \<Rightarrow> bool \<Rightarrow> bool \<Rightarrow> rsvc \<Rightarrow> rsvc option" where
  "checkReturnStatus H slotId isOk isRadioService s =
     (if isOk then Some s
      else let counter = (if isRadioService then mCounterRadio s slotId else mCounterOemHook s slotId);
               s1 = other_threads H s
           in if counter = (if isRadioService then mCounterRadio s1 slotId else mCounterOemHook s1 slotId)
              then if isRadioService
                   then case radioService s1 slotId of
                          None \<Rightarrow> None
                        | Some v \<Rightarrow>
                            Some (s1\<lparr>radioService := (radioService s1)(slotId \<mapsto>
                                       v\<lparr>mRadioResponse := None, mRadioIndication := None,
                                         mRadioResponseV1_1 := None, mRadioIndicationV1_1 := None\<rparr>),
                                     mCounterRadio := (mCounterRadio s1)(slotId := mCounterRadio s1 slotId + 1)\<rparr>)
                   else case oemHookService s1 slotId of
                          None \<Rightarrow> None
                        | Some v \<Rightarrow>
                            Some (s1\<lparr>oemHookService := (oemHookService s1)(slotId \<mapsto>
                                       v\<lparr>mOemHookResponse := None, mOemHookIndication := None\<rparr>),
                                     mCounterOemHook := (mCounterOemHook s1)(slotId := mCounterOemHook s1 slotId + 1)\<rparr>)
              else Some s1)"

definition call_client :: "hal \<Rightarrow> int \<Rightarrow> bool \<Rightarrow> client_call \<Rightarrow> rsvc \<Rightarrow> (int \<times> rsvc) option" where
  "call_client H slotId isRadioService c s =
     (case transact H c s of (isOk, s1) \<Rightarrow>
        map_option (Pair 0) (checkReturnStatus H slotId isOk isRadioService s1))"

text \<open>
  The form of most response functions: nothing happens without a registered \<open>mRadioResponse\<close>; otherwise
  the information and the arguments are computed and the client's method is called.
\<close>

definition radio_response ::
  "hal \<Rightarrow> int \<Rightarrow> string \<Rightarrow> (radio_response_info \<times> hidl_arg list) option \<Rightarrow> rsvc \<Rightarrow> (int \<times> rsvc) option" where
  "radio_response H slotId mthd result s =
     (case radioService s slotId of
        None \<Rightarrow> None
      | Some v \<Rightarrow>
          (case mRadioResponse v of
             None \<Rightarrow> Some (0, s)
           | Some c \<Rightarrow> do {
               (info, args) \<leftarrow> result;
               call_client H slotId True (ResponseCall c mthd info args) s }))"

text \<open>The same for the objects of version 1.1 of the interface and for those of the OEM hook.\<close>

definition radio_response_1_1 ::
  "hal \<Rightarrow> int \<Rightarrow> string \<Rightarrow> (radio_response_info \<times> hidl_arg list) option \<Rightarrow> rsvc \<Rightarrow> (int \<times> rsvc) option" where
  "radio_response_1_1 H slotId mthd result s =
     (case radioService s slotId of
        None \<Rightarrow> None
      | Some v \<Rightarrow>
          (case mRadioResponseV1_1 v of
             None \<Rightarrow> Some (0, s)
           | Some c \<Rightarrow> do {
               (info, args) \<leftarrow> result;
               call_client H slotId True (ResponseCall c mthd info args) s }))"

definition oem_response ::
  "hal \<Rightarrow> int \<Rightarrow> string \<Rightarrow> (radio_response_info \<times> hidl_arg list) option \<Rightarrow> rsvc \<Rightarrow> (int \<times> rsvc) option" where
  "oem_response H slotId mthd result s =
     (if \<not> kOemHookEnabled H then Some (0, s)
      else case oemHookService s slotId of
        None \<Rightarrow> None
      | Some v \<Rightarrow>
          (case mOemHookResponse v of
             None \<Rightarrow> Some (0, s)
           | Some c \<Rightarrow> do {
               (info, args) \<leftarrow> result;
               call_client H slotId False (ResponseCall c mthd info args) s }))"

text \<open>The type of a response function: slot, response type, serial, error, response and its length.\<close>

type_synonym response_function =
  "hal \<Rightarrow> int \<Rightarrow> int \<Rightarrow> int \<Rightarrow> int \<Rightarrow> vdata option \<Rightarrow> nat \<Rightarrow> rsvc \<Rightarrow> (int \<times> rsvc) option"

definition acknowledgeRequest :: "hal \<Rightarrow> int \<Rightarrow> int \<Rightarrow> rsvc \<Rightarrow> rsvc option" where
  "acknowledgeRequest H slotId serial s =
     (case radioService s slotId of
        None \<Rightarrow> None
      | Some v \<Rightarrow>
          (case mRadioResponse v of
             None \<Rightarrow> Some s
           | Some c \<Rightarrow> map_option snd (call_client H slotId True (AcknowledgeCall c serial) s)))"

section \<open>Registration of callbacks\<close>

text \<open>The part of the two \<open>setResponseFunctions\<close> under the write lock.\<close>

definition with_default :: "addr option option \<Rightarrow> addr option" where
  "with_default r = (case r of None \<Rightarrow> None | Some p \<Rightarrow> p)"

definition set_radio_callbacks :: "hal \<Rightarrow> int \<Rightarrow> addr option \<Rightarrow> addr option \<Rightarrow> rsvc \<Rightarrow> rsvc option" where
  "set_radio_callbacks H slotId resp ind s =
     (case radioService s slotId of
        None \<Rightarrow> None
      | Some v \<Rightarrow>
          let r1 = with_default (castResponse H resp);
              i1 = with_default (castIndication H ind);
              both = r1 \<noteq> None \<and> i1 \<noteq> None
          in Some (s\<lparr>radioService := (radioService s)(slotId \<mapsto>
                       v\<lparr>mRadioResponse := resp, mRadioIndication := ind,
                         mRadioResponseV1_1 := (if both then r1 else None),
                         mRadioIndicationV1_1 := (if both then i1 else None)\<rparr>),
                     mCounterRadio := (mCounterRadio s)(slotId := mCounterRadio s slotId + 1)\<rparr>))"

definition set_oem_callbacks :: "int \<Rightarrow> addr option \<Rightarrow> addr option \<Rightarrow> rsvc \<Rightarrow> rsvc option" where
  "set_oem_callbacks slotId resp ind s =
     (case oemHookService s slotId of
        None \<Rightarrow> None
      | Some v \<Rightarrow>
          Some (s\<lparr>oemHookService := (oemHookService s)(slotId \<mapsto> v\<lparr>mOemHookResponse := resp, mOemHookIndication := ind\<rparr>),
                  mCounterOemHook := (mCounterOemHook s)(slotId := mCounterOemHook s slotId + 1)\<rparr>))"

text \<open>\<open>registerService\<close>: fresh service objects without callbacks in every slot.\<close>

definition registerService :: "hal \<Rightarrow> nat \<Rightarrow> rsvc \<Rightarrow> rsvc" where
  "registerService H sim_count s =
     (let simCount = (if 2 \<le> sim_count then sim_count else 1) in
     s\<lparr>radioService := (\<lambda>i. if 0 \<le> i \<and> i < int simCount
          then Some \<lparr>mRadioResponse = None, mRadioIndication = None,
                     mRadioResponseV1_1 = None, mRadioIndicationV1_1 = None\<rparr>
          else radioService s i),
       oemHookService := (\<lambda>i. if 0 \<le> i \<and> i < int simCount \<and> kOemHookEnabled H
          then Some \<lparr>mOemHookResponse = None, mOemHookIndication = None\<rparr>
          else oemHookService s i)\<rparr>)"

definition setNitzTimeReceived :: "int \<Rightarrow> int \<Rightarrow> rsvc \<Rightarrow> rsvc" where
  "setNitzTimeReceived slotId timeReceived s =
     s\<lparr>nitzTimeReceived := (nitzTimeReceived s)(slotId := timeReceived)\<rparr>"

end
