(* ===== verification/RespSimple.thy ===== *)
theory RespSimple
  imports RespCore
begin

text \<open>
  The response functions of \<open>libril/ril_service.cpp\<close> that hand a response without data, with one integer,
  one string, the result of a SIM access or of a sent message to the client, in the order of the file.
\<close>

section \<open>Forms\<close>

definition void_response :: "string \<Rightarrow> response_function" where
  "void_response mthd H slotId responseType serial e response responseLen s =
     radio_response H slotId mthd (Some (populateResponseInfo serial responseType e, [])) s"

definition int_or_empty_response :: "string \<Rightarrow> (int \<Rightarrow> hidl_arg) \<Rightarrow> response_function" where
  "int_or_empty_response mthd arg H slotId responseType serial e response responseLen s =
     radio_response H slotId mthd
       (map_option (\<lambda>(i, n). (i, [arg n])) (responseIntOrEmpty H serial responseType e response responseLen)) s"

definition int_response :: "string \<Rightarrow> (int \<Rightarrow> hidl_arg) \<Rightarrow> response_function" where
  "int_response mthd arg H slotId responseType serial e response responseLen s =
     radio_response H slotId mthd
       (map_option (\<lambda>(i, n). (i, [arg n])) (responseInt H serial responseType e response responseLen)) s"

text \<open>A cast of the integer to an enumeration of the interface.\<close>

definition cast_arg :: "int \<Rightarrow> hidl_arg" where
  "cast_arg n = AEnum (Cast n)"

definition string_response :: "string \<Rightarrow> response_function" where
  "string_response mthd H slotId responseType serial e response responseLen s =
     radio_response H slotId mthd
       (map_option (\<lambda>c. (populateResponseInfo serial responseType e, [AString (convertCharPtrToHidlString c)]))
          (str_arg response)) s"

definition icc_io_response :: "string \<Rightarrow> response_function" where
  "icc_io_response mthd H slotId responseType serial e response responseLen s =
     radio_response H slotId mthd
       (map_option (\<lambda>(i, r). (i, [r])) (responseIccIo H serial responseType e response responseLen)) s"

definition send_sms_response :: "string \<Rightarrow> response_function" where
  "send_sms_response mthd H slotId responseType serial e response responseLen s =
     radio_response H slotId mthd
       (map_option (\<lambda>(i, r). (i, [r])) (makeSendSmsResult H serial responseType e response responseLen)) s"

section \<open>The functions\<close>

definition supplyIccPinForAppResponse :: response_function where
  "supplyIccPinForAppResponse = int_or_empty_response ''supplyIccPinForAppResponse'' AInt"

definition supplyIccPukForAppResponse :: response_function where
  "supplyIccPukForAppResponse = int_or_empty_response ''supplyIccPukForAppResponse'' AInt"

definition supplyIccPin2ForAppResponse :: response_function where
  "supplyIccPin2ForAppResponse = int_or_empty_response ''supplyIccPin2ForAppResponse'' AInt"

definition supplyIccPuk2ForAppResponse :: response_function where
  "supplyIccPuk2ForAppResponse = int_or_empty_response ''supplyIccPuk2ForAppResponse'' AInt"

definition changeIccPinForAppResponse :: response_function where
  "changeIccPinForAppResponse = int_or_empty_response ''changeIccPinForAppResponse'' AInt"

definition changeIccPin2ForAppResponse :: response_function where
  "changeIccPin2ForAppResponse = int_or_empty_response ''changeIccPin2ForAppResponse'' AInt"

definition supplyNetworkDepersonalizationResponse :: response_function where
  "supplyNetworkDepersonalizationResponse = int_or_empty_response ''supplyNetworkDepersonalizationResponse'' AInt"

definition dialResponse :: response_function where
  "dialResponse = void_response ''dialResponse''"

definition getIMSIForAppResponse :: response_function where
  "getIMSIForAppResponse = string_response ''getIMSIForAppResponse''"

definition hangupConnectionResponse :: response_function where
  "hangupConnectionResponse = void_response ''hangupConnectionResponse''"

definition hangupWaitingOrBackgroundResponse :: response_function where
  "hangupWaitingOrBackgroundResponse = void_response ''hangupWaitingOrBackgroundResponse''"

definition hangupForegroundResumeBackgroundResponse :: response_function where
  "hangupForegroundResumeBackgroundResponse = void_response ''hangupWaitingOrBackgroundResponse''"

definition switchWaitingOrHoldingAndActiveResponse :: response_function where
  "switchWaitingOrHoldingAndActiveResponse = void_response ''switchWaitingOrHoldingAndActiveResponse''"

definition conferenceResponse :: response_function where
  "conferenceResponse = void_response ''conferenceResponse''"

definition rejectCallResponse :: response_function where
  "rejectCallResponse = void_response ''rejectCallResponse''"

definition setRadioPowerResponse :: response_function where
  "setRadioPowerResponse = void_response ''setRadioPowerResponse''"

definition sendDtmfResponse :: response_function where
  "sendDtmfResponse = void_response ''sendDtmfResponse''"

definition sendSmsResponse :: response_function where
  "sendSmsResponse = send_sms_response ''sendSmsResponse''"

definition sendSMSExpectMoreResponse :: response_function where
  "sendSMSExpectMoreResponse = send_sms_response ''sendSMSExpectMoreResponse''"

definition iccIOForAppResponse :: response_function where
  "iccIOForAppResponse = icc_io_response ''iccIOForAppResponse''"

definition sendUssdResponse :: response_function where
  "sendUssdResponse = void_response ''sendUssdResponse''"

definition cancelPendingUssdResponse :: response_function where
  "cancelPendingUssdResponse = void_response ''cancelPendingUssdResponse''"

definition setClirResponse :: response_function where
  "setClirResponse = void_response ''setClirResponse''"

definition setCallForwardResponse :: response_function where
  "setCallForwardResponse = void_response ''setCallForwardResponse''"

definition setCallWaitingResponse :: response_function where
  "setCallWaitingResponse = void_response ''setCallWaitingResponse''"

definition acknowledgeLastIncomingGsmSmsResponse :: response_function where
  "acknowledgeLastIncomingGsmSmsResponse = void_response ''acknowledgeLastIncomingGsmSmsResponse''"

definition acceptCallResponse :: response_function where
  "acceptCallResponse = void_response ''acceptCallResponse''"

definition deactivateDataCallResponse :: response_function where
  "deactivateDataCallResponse = void_response ''deactivateDataCallResponse''"

definition getFacilityLockForAppResponse :: response_function where
  "getFacilityLockForAppResponse = int_response ''getFacilityLockForAppResponse'' AInt"

definition setFacilityLockForAppResponse :: response_function where
  "setFacilityLockForAppResponse = int_or_empty_response ''setFacilityLockForAppResponse'' AInt"

definition setBarringPasswordResponse :: response_function where
  "setBarringPasswordResponse = void_response ''setBarringPasswordResponse''"

definition setNetworkSelectionModeAutomaticResponse :: response_function where
  "setNetworkSelectionModeAutomaticResponse = void_response ''setNetworkSelectionModeAutomaticResponse''"

definition setNetworkSelectionModeManualResponse :: response_function where
  "setNetworkSelectionModeManualResponse = void_response ''setNetworkSelectionModeManualResponse''"

definition startDtmfResponse :: response_function where
  "startDtmfResponse = void_response ''startDtmfResponse''"

definition stopDtmfResponse :: response_function where
  "stopDtmfResponse = void_response ''stopDtmfResponse''"

definition getBasebandVersionResponse :: response_function where
  "getBasebandVersionResponse = string_response ''getBasebandVersionResponse''"

definition separateConnectionResponse :: response_function where
  "separateConnectionResponse = void_response ''separateConnectionResponse''"

definition setMuteResponse :: response_function where
  "setMuteResponse = void_response ''setMuteResponse''"

definition getClipResponse :: response_function where
  "getClipResponse = int_response ''getClipResponse'' cast_arg"

definition setSuppServiceNotificationsResponse :: response_function where
  "setSuppServiceNotificationsResponse = void_response ''setSuppServiceNotificationsResponse''"

definition deleteSmsOnSimResponse :: response_function where
  "deleteSmsOnSimResponse = void_response ''deleteSmsOnSimResponse''"

definition setBandModeResponse :: response_function where
  "setBandModeResponse = void_response ''setBandModeResponse''"

definition writeSmsToSimResponse :: response_function where
  "writeSmsToSimResponse = int_response ''writeSmsToSimResponse'' AInt"

definition sendEnvelopeResponse :: response_function where
  "sendEnvelopeResponse = string_response ''sendEnvelopeResponse''"

definition sendTerminalResponseToSimResponse :: response_function where
  "sendTerminalResponseToSimResponse = void_response ''sendTerminalResponseToSimResponse''"

definition handleStkCallSetupRequestFromSimResponse :: response_function where
  "handleStkCallSetupRequestFromSimResponse = void_response ''handleStkCallSetupRequestFromSimResponse''"

definition explicitCallTransferResponse :: response_function where
  "explicitCallTransferResponse = void_response ''explicitCallTransferResponse''"

definition setPreferredNetworkTypeResponse :: response_function where
  "setPreferredNetworkTypeResponse = void_response ''setPreferredNetworkTypeResponse''"

definition getPreferredNetworkTypeResponse :: response_function where
  "getPreferredNetworkTypeResponse = int_response ''getPreferredNetworkTypeResponse'' cast_arg"

definition setLocationUpdatesResponse :: response_function where
  "setLocationUpdatesResponse = void_response ''setLocationUpdatesResponse''"

definition setCdmaSubscriptionSourceResponse :: response_function where
  "setCdmaSubscriptionSourceResponse = void_response ''setCdmaSubscriptionSourceResponse''"

definition setCdmaRoamingPreferenceResponse :: response_function where
  "setCdmaRoamingPreferenceResponse = void_response ''setCdmaRoamingPreferenceResponse''"

definition getCdmaRoamingPreferenceResponse :: response_function where
  "getCdmaRoamingPreferenceResponse = int_response ''getCdmaRoamingPreferenceResponse'' cast_arg"

definition setTTYModeResponse :: response_function where
  "setTTYModeResponse = void_response ''setTTYModeResponse''"

definition getTTYModeResponse :: response_function where
  "getTTYModeResponse = int_response ''getTTYModeResponse'' cast_arg"

definition setPreferredVoicePrivacyResponse :: response_function where
  "setPreferredVoicePrivacyResponse = void_response ''setPreferredVoicePrivacyResponse''"

definition sendCDMAFeatureCodeResponse :: response_function where
  "sendCDMAFeatureCodeResponse = void_response ''sendCDMAFeatureCodeResponse''"

definition sendBurstDtmfResponse :: response_function where
  "sendBurstDtmfResponse = void_response ''sendBurstDtmfResponse''"

definition sendCdmaSmsResponse :: response_function where
  "sendCdmaSmsResponse = send_sms_response ''sendCdmaSmsResponse''"

definition acknowledgeLastIncomingCdmaSmsResponse :: response_function where
  "acknowledgeLastIncomingCdmaSmsResponse = void_response ''acknowledgeLastIncomingCdmaSmsResponse''"

definition setGsmBroadcastConfigResponse :: response_function where
  "setGsmBroadcastConfigResponse = void_response ''setGsmBroadcastConfigResponse''"

definition setGsmBroadcastActivationResponse :: response_function where
  "setGsmBroadcastActivationResponse = void_response ''setGsmBroadcastActivationResponse''"

definition setCdmaBroadcastConfigResponse :: response_function where
  "setCdmaBroadcastConfigResponse = void_response ''setCdmaBroadcastConfigResponse''"

definition setCdmaBroadcastActivationResponse :: response_function where
  "setCdmaBroadcastActivationResponse = void_response ''setCdmaBroadcastActivationResponse''"

definition writeSmsToRuimResponse :: response_function where
  "writeSmsToRuimResponse = int_response ''writeSmsToRuimResponse'' AInt"

definition deleteSmsOnRuimResponse :: response_function where
  "deleteSmsOnRuimResponse = void_response ''deleteSmsOnRuimResponse''"

definition exitEmergencyCallbackModeResponse :: response_function where
  "exitEmergencyCallbackModeResponse = void_response ''exitEmergencyCallbackModeResponse''"

definition getSmscAddressResponse :: response_function where
  "getSmscAddressResponse = string_response ''getSmscAddressResponse''"

definition setSmscAddressResponse :: response_function where
  "setSmscAddressResponse = void_response ''setSmscAddressResponse''"

definition reportSmsMemoryStatusResponse :: response_function where
  "reportSmsMemoryStatusResponse = void_response ''reportSmsMemoryStatusResponse''"

definition reportStkServiceIsRunningResponse :: response_function where
  "reportStkServiceIsRunningResponse = void_response ''reportStkServiceIsRunningResponse''"

definition getCdmaSubscriptionSourceResponse :: response_function where
  "getCdmaSubscriptionSourceResponse = int_response ''getCdmaSubscriptionSourceResponse'' cast_arg"

definition requestIsimAuthenticationResponse :: response_function where
  "requestIsimAuthenticationResponse = string_response ''requestIsimAuthenticationResponse''"

definition acknowledgeIncomingGsmSmsWithPduResponse :: response_function where
  "acknowledgeIncomingGsmSmsWithPduResponse = void_response ''acknowledgeIncomingGsmSmsWithPduResponse''"

definition sendEnvelopeWithStatusResponse :: response_function where
  "sendEnvelopeWithStatusResponse = icc_io_response ''sendEnvelopeWithStatusResponse''"

definition getVoiceRadioTechnologyResponse :: response_function where
  "getVoiceRadioTechnologyResponse = int_response ''getVoiceRadioTechnologyResponse'' cast_arg"

definition setCellInfoListRateResponse :: response_function where
  "setCellInfoListRateResponse = void_response ''setCellInfoListRateResponse''"

definition setInitialAttachApnResponse :: response_function where
  "setInitialAttachApnResponse = void_response ''setInitialAttachApnResponse''"

definition sendImsSmsResponse :: response_function where
  "sendImsSmsResponse = send_sms_response ''sendImsSmsResponse''"

definition iccTransmitApduBasicChannelResponse :: response_function where
  "iccTransmitApduBasicChannelResponse = icc_io_response ''iccTransmitApduBasicChannelResponse''"

definition iccCloseLogicalChannelResponse :: response_function where
  "iccCloseLogicalChannelResponse = void_response ''iccCloseLogicalChannelResponse''"

definition iccTransmitApduLogicalChannelResponse :: response_function where
  "iccTransmitApduLogicalChannelResponse = icc_io_response ''iccTransmitApduLogicalChannelResponse''"

definition nvReadItemResponse :: response_function where
  "nvReadItemResponse = string_response ''nvReadItemResponse''"

definition nvWriteItemResponse :: response_function where
  "nvWriteItemResponse = void_response ''nvWriteItemResponse''"

definition nvWriteCdmaPrlResponse :: response_function where
  "nvWriteCdmaPrlResponse = void_response ''nvWriteCdmaPrlResponse''"

definition nvResetConfigResponse :: response_function where
  "nvResetConfigResponse = void_response ''nvResetConfigResponse''"

definition setUiccSubscriptionResponse :: response_function where
  "setUiccSubscriptionResponse = void_response ''setUiccSubscriptionResponse''"

definition setDataAllowedResponse :: response_function where
  "setDataAllowedResponse = void_response ''setDataAllowedResponse''"

definition requestIccSimAuthenticationResponse :: response_function where
  "requestIccSimAuthenticationResponse = icc_io_response ''requestIccSimAuthenticationResponse''"

definition setDataProfileResponse :: response_function where
  "setDataProfileResponse = void_response ''setDataProfileResponse''"

definition requestShutdownResponse :: response_function where
  "requestShutdownResponse = void_response ''requestShutdownResponse''"

definition setAllowedCarriersResponse :: response_function where
  "setAllowedCarriersResponse = int_response ''setAllowedCarriersResponse'' AInt"

definition sendDeviceStateResponse :: response_function where
  "sendDeviceStateResponse = void_response ''sendDeviceStateResponse''"

definition setIndicationFilterResponse :: response_function where
  "setIndicationFilterResponse = void_response ''setIndicationFilterResponse''"

end
