(* ===== verification/RespConvert.thy ===== *)
theory RespConvert
  imports RespCore
begin

text \<open>
  The conversions of \<open>libril/ril_service.cpp\<close> from the vendor's structures to the client's values: mobile
  network codes (\<open>include/telephony/ril_mnc.h\<close>), numbers in strings, cell identities, cells, signal
  strengths, data calls, hardware configurations, hex strings. The code runs on a 32 bit
  processor: \<open>int\<close> and \<open>long\<close> have 32 bits.
\<close>

section \<open>Integers and strings\<close>

definition INT_MAX :: int where "INT_MAX = 2147483647"
definition INT_MIN :: int where "INT_MIN = - 2147483648"

text \<open>\<open>atoi\<close> and \<open>strtol\<close> of the C library: blanks, a sign, for base 16 a prefix, and the digits that follow.\<close>

definition digit_val :: "nat \<Rightarrow> char \<Rightarrow> nat option" where
  "digit_val base c =
     (let k = of_char c :: nat;
          v = (if 48 \<le> k \<and> k \<le> 57 then k - 48
               else if 97 \<le> k \<and> k \<le> 122 then k - 87
               else if 65 \<le> k \<and> k \<le> 90 then k - 55 else base)
      in if v < base then Some v else None)"

fun digits_value :: "nat \<Rightarrow> nat \<Rightarrow> string \<Rightarrow> nat" where
  "digits_value base acc [] = acc"
| "digits_value base acc (c # cs) =
     (case digit_val base c of None \<Rightarrow> acc | Some d \<Rightarrow> digits_value base (acc * base + d) cs)"

definition is_space :: "char \<Rightarrow> bool" where
  "is_space c \<longleftrightarrow> (of_char c :: nat) \<in> {9, 10, 11, 12, 13, 32}"

definition skip_hex_prefix :: "nat \<Rightarrow> string \<Rightarrow> string" where
  "skip_hex_prefix base s =
     (case s of
        z # x # d # t \<Rightarrow>
          (if base = 16 \<and> z = CHR ''0'' \<and> (x = CHR ''x'' \<or> x = CHR ''X'') \<and> digit_val 16 d \<noteq> None
           then d # t else s)
      | _ \<Rightarrow> s)"

definition split_sign :: "string \<Rightarrow> bool \<times> string" where
  "split_sign s =
     (case s of
        [] \<Rightarrow> (False, [])
      | c # t \<Rightarrow> if c = CHR ''-'' then (True, t) else if c = CHR ''+'' then (False, t) else (False, s))"

definition number_value :: "nat \<Rightarrow> string \<Rightarrow> int" where
  "number_value base s =
     (case split_sign (dropWhile is_space s) of (neg, t) \<Rightarrow>
        let n = int (digits_value base 0 (skip_hex_prefix base t)) in if neg then - n else n)"

definition strtol :: "nat \<Rightarrow> string \<Rightarrow> int" where
  "strtol base s = max INT_MIN (min INT_MAX (number_value base s))"

text \<open>\<open>atoi\<close> of a number that does not fit is undefined.\<close>

definition atoi :: "string \<Rightarrow> int option" where
  "atoi s = (let v = number_value 10 s in if INT_MIN \<le> v \<and> v \<le> INT_MAX then Some v else None)"

definition ATOI_NULL_HANDLED_DEF :: "cstr \<Rightarrow> int \<Rightarrow> int option" where
  "ATOI_NULL_HANDLED_DEF x defaultVal = (case x of None \<Rightarrow> Some defaultVal | Some c \<Rightarrow> atoi c)"

definition ATOI_NULL_HANDLED :: "cstr \<Rightarrow> int option" where
  "ATOI_NULL_HANDLED x = ATOI_NULL_HANDLED_DEF x (-1)"

text \<open>The string in an array of characters, which must have a NUL.\<close>

definition chars_str :: "string \<Rightarrow> cstr option" where
  "chars_str buf =
     (if CHR 0x00 \<in> set buf then Some (Some (takeWhile (\<lambda>c. c \<noteq> CHR 0x00) buf)) else None)"

section \<open>Mobile network codes\<close>

definition three_digits :: "nat \<Rightarrow> string" where
  "three_digits n = [char_of (48 + n div 100), char_of (48 + n div 10 mod 10), char_of (48 + n mod 10)]"

text \<open>The first four bits hold the number of digits.\<close>

definition mnc_decode :: "int \<Rightarrow> string" where
  "mnc_decode mnc =
     (if mnc = INT_MAX \<or> mnc < 0 then []
      else let umnc = (word_of_int mnc :: u32);
               mncNumDigits = and (drop_bit 28 umnc) 0xF;
               value = drop_bit 4 (push_bit 4 umnc)
           in if 999 < value then []
              else if mncNumDigits = 0 then to_string (uint value)
              else if mncNumDigits = 2 then tl (three_digits (unat value))
              else if mncNumDigits = 3 then three_digits (unat value)
              else [])"

definition mnc_encode :: "int \<Rightarrow> int \<Rightarrow> int" where
  "mnc_encode mnc numDigits =
     (if 999 < mnc \<or> mnc < 0 then INT_MAX
      else if numDigits \<in> {0, 2, 3}
      then sint (or (push_bit 28 (word_of_int numDigits :: u32)) (word_of_int mnc))
      else INT_MAX)"

text \<open>\<open>std::stoi\<close> throws without a digit and when the number does not fit: \<open>None\<close>.\<close>

definition stoi :: "string \<Rightarrow> int option" where
  "stoi s =
     (case split_sign (dropWhile is_space s) of (_, t) \<Rightarrow>
        if t \<noteq> [] \<and> digit_val 10 (hd t) \<noteq> None then atoi s else None)"

definition mnc_encode_string :: "string \<Rightarrow> int option" where
  "mnc_encode_string mnc = map_option (\<lambda>v. mnc_encode v (int (length mnc))) (stoi mnc)"

section \<open>Cell identities\<close>

definition RADIO_TECH_GPRS :: int where "RADIO_TECH_GPRS = 1"
definition RADIO_TECH_EDGE :: int where "RADIO_TECH_EDGE = 2"
definition RADIO_TECH_UMTS :: int where "RADIO_TECH_UMTS = 3"
definition RADIO_TECH_IS95A :: int where "RADIO_TECH_IS95A = 4"
definition RADIO_TECH_IS95B :: int where "RADIO_TECH_IS95B = 5"
definition RADIO_TECH_1xRTT :: int where "RADIO_TECH_1xRTT = 6"
definition RADIO_TECH_EVDO_0 :: int where "RADIO_TECH_EVDO_0 = 7"
definition RADIO_TECH_EVDO_A :: int where "RADIO_TECH_EVDO_A = 8"
definition RADIO_TECH_HSDPA :: int where "RADIO_TECH_HSDPA = 9"
definition RADIO_TECH_HSUPA :: int where "RADIO_TECH_HSUPA = 10"
definition RADIO_TECH_HSPA :: int where "RADIO_TECH_HSPA = 11"
definition RADIO_TECH_EVDO_B :: int where "RADIO_TECH_EVDO_B = 12"
definition RADIO_TECH_EHRPD :: int where "RADIO_TECH_EHRPD = 13"
definition RADIO_TECH_LTE :: int where "RADIO_TECH_LTE = 14"
definition RADIO_TECH_HSPAP :: int where "RADIO_TECH_HSPAP = 15"
definition RADIO_TECH_GSM :: int where "RADIO_TECH_GSM = 16"
definition RADIO_TECH_TD_SCDMA :: int where "RADIO_TECH_TD_SCDMA = 17"
definition RADIO_TECH_IWLAN :: int where "RADIO_TECH_IWLAN = 18"
definition RADIO_TECH_LTE_CA :: int where "RADIO_TECH_LTE_CA = 19"

definition RIL_CELL_INFO_TYPE_NONE :: int where "RIL_CELL_INFO_TYPE_NONE = 0"
definition RIL_CELL_INFO_TYPE_GSM :: int where "RIL_CELL_INFO_TYPE_GSM = 1"
definition RIL_CELL_INFO_TYPE_CDMA :: int where "RIL_CELL_INFO_TYPE_CDMA = 2"
definition RIL_CELL_INFO_TYPE_LTE :: int where "RIL_CELL_INFO_TYPE_LTE = 3"
definition RIL_CELL_INFO_TYPE_WCDMA :: int where "RIL_CELL_INFO_TYPE_WCDMA = 4"
definition RIL_CELL_INFO_TYPE_TD_SCDMA :: int where "RIL_CELL_INFO_TYPE_TD_SCDMA = 5"

lemmas cell_types = RIL_CELL_INFO_TYPE_NONE_def RIL_CELL_INFO_TYPE_GSM_def RIL_CELL_INFO_TYPE_CDMA_def
  RIL_CELL_INFO_TYPE_LTE_def RIL_CELL_INFO_TYPE_WCDMA_def RIL_CELL_INFO_TYPE_TD_SCDMA_def

definition getCellInfoTypeRadioTechnology :: "cstr \<Rightarrow> int option" where
  "getCellInfoTypeRadioTechnology rat =
     (case rat of
        None \<Rightarrow> Some RIL_CELL_INFO_TYPE_NONE
      | Some c \<Rightarrow> do {
          radioTech \<leftarrow> atoi c;
          Some (if radioTech \<in> {RADIO_TECH_GPRS, RADIO_TECH_EDGE, RADIO_TECH_GSM} then RIL_CELL_INFO_TYPE_GSM
                else if radioTech \<in> {RADIO_TECH_UMTS, RADIO_TECH_HSDPA, RADIO_TECH_HSUPA, RADIO_TECH_HSPA, RADIO_TECH_HSPAP}
                then RIL_CELL_INFO_TYPE_WCDMA
                else if radioTech \<in> {RADIO_TECH_IS95A, RADIO_TECH_IS95B, RADIO_TECH_1xRTT, RADIO_TECH_EVDO_0,
                                     RADIO_TECH_EVDO_A, RADIO_TECH_EVDO_B, RADIO_TECH_EHRPD}
                then RIL_CELL_INFO_TYPE_CDMA
                else if radioTech \<in> {RADIO_TECH_LTE, RADIO_TECH_LTE_CA} then RIL_CELL_INFO_TYPE_LTE
                else if radioTech = RADIO_TECH_TD_SCDMA then RIL_CELL_INFO_TYPE_TD_SCDMA
                else RIL_CELL_INFO_TYPE_NONE) })"

text \<open>In a cell identity an \<open>mcc\<close> of \<open>-1\<close> becomes the empty string.\<close>

definition mcc_string :: "int \<Rightarrow> string" where
  "mcc_string mcc = (let s = to_string mcc in if s = ''-1'' then [] else s)"

definition gsm_to_hal :: "(int \<Rightarrow> string) \<Rightarrow> int cell_gsm \<Rightarrow> string cell_gsm" where
  "gsm_to_hal f c = \<lparr>cg_mcc = f (cg_mcc c), cg_mnc = mnc_decode (cg_mnc c), cg_lac = cg_lac c,
     cg_cid = cg_cid c, cg_arfcn = cg_arfcn c, cg_bsic = cg_bsic c\<rparr>"

definition wcdma_to_hal :: "(int \<Rightarrow> string) \<Rightarrow> int cell_wcdma \<Rightarrow> string cell_wcdma" where
  "wcdma_to_hal f c = \<lparr>cu_mcc = f (cu_mcc c), cu_mnc = mnc_decode (cu_mnc c), cu_lac = cu_lac c,
     cu_cid = cu_cid c, cu_psc = cu_psc c, cu_uarfcn = cu_uarfcn c\<rparr>"

definition lte_to_hal :: "(int \<Rightarrow> string) \<Rightarrow> int cell_lte \<Rightarrow> string cell_lte" where
  "lte_to_hal f c = \<lparr>cl_mcc = f (cl_mcc c), cl_mnc = mnc_decode (cl_mnc c), cl_ci = cl_ci c,
     cl_pci = cl_pci c, cl_tac = cl_tac c, cl_earfcn = cl_earfcn c\<rparr>"

definition tdscdma_to_hal :: "(int \<Rightarrow> string) \<Rightarrow> int cell_tdscdma \<Rightarrow> string cell_tdscdma" where
  "tdscdma_to_hal f c = \<lparr>ct_mcc = f (ct_mcc c), ct_mnc = mnc_decode (ct_mnc c), ct_lac = ct_lac c,
     ct_cid = ct_cid c, ct_cpid = ct_cpid c\<rparr>"

text \<open>Reading a member of the union that was not written is undefined.\<close>

definition fillCellIdentityResponse :: "RIL_CellIdentity_v16 \<Rightarrow> cell_identity_list option" where
  "fillCellIdentityResponse ril =
     (let t = ci_cellInfoType ril;
          c = \<lparr>hz_cellInfoType = t, hz_gsm = [], hz_wcdma = [], hz_cdma = [], hz_lte = [], hz_tdscdma = []\<rparr>
      in if t = RIL_CELL_INFO_TYPE_GSM
         then case ci_identity ril of IdGsm g \<Rightarrow> Some (c\<lparr>hz_gsm := [gsm_to_hal mcc_string g]\<rparr>) | _ \<Rightarrow> None
         else if t = RIL_CELL_INFO_TYPE_WCDMA
         then case ci_identity ril of IdWcdma g \<Rightarrow> Some (c\<lparr>hz_wcdma := [wcdma_to_hal mcc_string g]\<rparr>) | _ \<Rightarrow> None
         else if t = RIL_CELL_INFO_TYPE_CDMA
         then case ci_identity ril of IdCdma g \<Rightarrow> Some (c\<lparr>hz_cdma := [g]\<rparr>) | _ \<Rightarrow> None
         else if t = RIL_CELL_INFO_TYPE_LTE
         then case ci_identity ril of IdLte g \<Rightarrow> Some (c\<lparr>hz_lte := [lte_to_hal mcc_string g]\<rparr>) | _ \<Rightarrow> None
         else if t = RIL_CELL_INFO_TYPE_TD_SCDMA
         then case ci_identity ril of IdTdscdma g \<Rightarrow> Some (c\<lparr>hz_tdscdma := [tdscdma_to_hal mcc_string g]\<rparr>) | _ \<Rightarrow> None
         else Some c)"

text \<open>
  Entries of the array of strings. \<open>numStrings\<close> is computed from the length of the response: the
  array itself must be as long.
\<close>

definition entry_at :: "cstr list \<Rightarrow> nat \<Rightarrow> cstr option" where
  "entry_at resp i = (if i < length resp then Some (resp ! i) else None)"

definition convertResponseStringEntryToInt :: "cstr list \<Rightarrow> nat \<Rightarrow> int \<Rightarrow> int option" where
  "convertResponseStringEntryToInt resp i numStrings =
     (if int i < numStrings
      then do { x \<leftarrow> entry_at resp i; case x of None \<Rightarrow> Some (-1) | Some c \<Rightarrow> atoi c }
      else Some (-1))"

definition convertResponseHexStringEntryToInt :: "cstr list \<Rightarrow> nat \<Rightarrow> int \<Rightarrow> int option" where
  "convertResponseHexStringEntryToInt resp i numStrings =
     (if int i < numStrings
      then do { x \<leftarrow> entry_at resp i; case x of None \<Rightarrow> Some (-1) | Some c \<Rightarrow> Some (strtol 16 c) }
      else Some (-1))"

text \<open>The identities after \<open>memset\<close> with \<open>-1\<close>.\<close>

definition gsm_unset :: "int cell_gsm" where
  "gsm_unset = \<lparr>cg_mcc = -1, cg_mnc = -1, cg_lac = -1, cg_cid = -1, cg_arfcn = -1, cg_bsic = 0xFF\<rparr>"

definition wcdma_unset :: "int cell_wcdma" where
  "wcdma_unset = \<lparr>cu_mcc = -1, cu_mnc = -1, cu_lac = -1, cu_cid = -1, cu_psc = -1, cu_uarfcn = -1\<rparr>"

definition lte_unset :: "int cell_lte" where
  "lte_unset = \<lparr>cl_mcc = -1, cl_mnc = -1, cl_ci = -1, cl_pci = -1, cl_tac = -1, cl_earfcn = -1\<rparr>"

definition tdscdma_unset :: "int cell_tdscdma" where
  "tdscdma_unset = \<lparr>ct_mcc = -1, ct_mnc = -1, ct_lac = -1, ct_cid = -1, ct_cpid = -1\<rparr>"

definition fillCellIdentityFromVoiceRegStateResponseString :: "int \<Rightarrow> cstr list \<Rightarrow> cell_identity_list option" where
  "fillCellIdentityFromVoiceRegStateResponseString numStrings resp = do {
     rat \<leftarrow> entry_at resp 3;
     t \<leftarrow> getCellInfoTypeRadioTechnology rat;
     identity \<leftarrow>
       (if t = RIL_CELL_INFO_TYPE_GSM then do {
          lac \<leftarrow> convertResponseHexStringEntryToInt resp 1 numStrings;
          cid \<leftarrow> convertResponseHexStringEntryToInt resp 2 numStrings;
          Some (IdGsm (gsm_unset\<lparr>cg_lac := lac, cg_cid := cid\<rparr>)) }
        else if t = RIL_CELL_INFO_TYPE_WCDMA then do {
          lac \<leftarrow> convertResponseHexStringEntryToInt resp 1 numStrings;
          cid \<leftarrow> convertResponseHexStringEntryToInt resp 2 numStrings;
          psc \<leftarrow> convertResponseStringEntryToInt resp 14 numStrings;
          Some (IdWcdma (wcdma_unset\<lparr>cu_lac := lac, cu_cid := cid, cu_psc := psc\<rparr>)) }
        else if t = RIL_CELL_INFO_TYPE_TD_SCDMA then do {
          lac \<leftarrow> convertResponseHexStringEntryToInt resp 1 numStrings;
          cid \<leftarrow> convertResponseHexStringEntryToInt resp 2 numStrings;
          Some (IdTdscdma (tdscdma_unset\<lparr>ct_lac := lac, ct_cid := cid\<rparr>)) }
        else if t = RIL_CELL_INFO_TYPE_CDMA then do {
          bs \<leftarrow> convertResponseStringEntryToInt resp 4 numStrings;
          lat \<leftarrow> convertResponseStringEntryToInt resp 5 numStrings;
          lon \<leftarrow> convertResponseStringEntryToInt resp 6 numStrings;
          sys \<leftarrow> convertResponseStringEntryToInt resp 8 numStrings;
          net \<leftarrow> convertResponseStringEntryToInt resp 9 numStrings;
          Some (IdCdma \<lparr>cc_networkId = net, cc_systemId = sys, cc_basestationId = bs,
                       cc_longitude = lon, cc_latitude = lat\<rparr>) }
        else if t = RIL_CELL_INFO_TYPE_LTE then do {
          tac \<leftarrow> convertResponseHexStringEntryToInt resp 1 numStrings;
          ci \<leftarrow> convertResponseHexStringEntryToInt resp 2 numStrings;
          Some (IdLte (lte_unset\<lparr>cl_tac := tac, cl_ci := ci\<rparr>)) }
        else Some (IdGsm gsm_unset));
     fillCellIdentityResponse \<lparr>ci_cellInfoType = t, ci_identity = identity\<rparr> }"

definition mcc_mnc_entries :: "cstr list \<Rightarrow> int \<Rightarrow> (int \<times> int) option" where
  "mcc_mnc_entries resp numStrings =
     (if 13 \<le> numStrings then do {
        mcc \<leftarrow> convertResponseStringEntryToInt resp 11 numStrings;
        mnc \<leftarrow> convertResponseStringEntryToInt resp 12 numStrings;
        Some (mcc, mnc) }
      else Some (-1, -1))"

definition fillCellIdentityFromDataRegStateResponseString :: "int \<Rightarrow> cstr list \<Rightarrow> cell_identity_list option" where
  "fillCellIdentityFromDataRegStateResponseString numStrings resp = do {
     rat \<leftarrow> entry_at resp 3;
     t \<leftarrow> getCellInfoTypeRadioTechnology rat;
     identity \<leftarrow>
       (if t = RIL_CELL_INFO_TYPE_GSM then do {
          lac \<leftarrow> convertResponseHexStringEntryToInt resp 1 numStrings;
          cid \<leftarrow> convertResponseHexStringEntryToInt resp 2 numStrings;
          (mcc, mnc) \<leftarrow> mcc_mnc_entries resp numStrings;
          Some (IdGsm (gsm_unset\<lparr>cg_lac := lac, cg_cid := cid, cg_mcc := mcc, cg_mnc := mnc\<rparr>)) }
        else if t = RIL_CELL_INFO_TYPE_WCDMA then do {
          lac \<leftarrow> convertResponseHexStringEntryToInt resp 1 numStrings;
          cid \<leftarrow> convertResponseHexStringEntryToInt resp 2 numStrings;
          (mcc, mnc) \<leftarrow> mcc_mnc_entries resp numStrings;
          Some (IdWcdma (wcdma_unset\<lparr>cu_lac := lac, cu_cid := cid, cu_mcc := mcc, cu_mnc := mnc\<rparr>)) }
        else if t = RIL_CELL_INFO_TYPE_TD_SCDMA then do {
          lac \<leftarrow> convertResponseHexStringEntryToInt resp 1 numStrings;
          cid \<leftarrow> convertResponseHexStringEntryToInt resp 2 numStrings;
          (mcc, mnc) \<leftarrow> mcc_mnc_entries resp numStrings;
          Some (IdTdscdma (tdscdma_unset\<lparr>ct_lac := lac, ct_cid := cid, ct_mcc := mcc, ct_mnc := mnc\<rparr>)) }
        else if t = RIL_CELL_INFO_TYPE_LTE then do {
          tac \<leftarrow> convertResponseStringEntryToInt resp 6 numStrings;
          pci \<leftarrow> convertResponseStringEntryToInt resp 7 numStrings;
          ci \<leftarrow> convertResponseStringEntryToInt resp 8 numStrings;
          (mcc, mnc) \<leftarrow> mcc_mnc_entries resp numStrings;
          Some (IdLte (lte_unset\<lparr>cl_tac := tac, cl_pci := pci, cl_ci := ci, cl_mcc := mcc, cl_mnc := mnc\<rparr>)) }
        else if t = RIL_CELL_INFO_TYPE_CDMA
        then Some (IdCdma \<lparr>cc_networkId = -1, cc_systemId = -1, cc_basestationId = -1,
                          cc_longitude = -1, cc_latitude = -1\<rparr>)
        else Some (IdGsm gsm_unset));
     fillCellIdentityResponse \<lparr>ci_cellInfoType = t, ci_identity = identity\<rparr> }"

section \<open>Cells\<close>

definition convertRilCellInfoToHal :: "RIL_CellInfo_v12 \<Rightarrow> cell_info option" where
  "convertRilCellInfoToHal ril =
     (let t = cv_cellInfoType ril;
          c = \<lparr>ht_cellInfoType = t, ht_registered = (cv_registered ril \<noteq> 0),
               ht_timeStampType = cv_timeStampType ril, ht_timeStamp = cv_timeStamp ril,
               ht_gsm = [], ht_wcdma = [], ht_cdma = [], ht_lte = [], ht_tdscdma = []\<rparr>
      in if t = RIL_CELL_INFO_TYPE_GSM
         then case cv_CellInfo ril of CellGsm g q \<Rightarrow> Some (c\<lparr>ht_gsm := [(gsm_to_hal to_string g, q)]\<rparr>) | _ \<Rightarrow> None
         else if t = RIL_CELL_INFO_TYPE_WCDMA
         then case cv_CellInfo ril of CellWcdma g q \<Rightarrow> Some (c\<lparr>ht_wcdma := [(wcdma_to_hal to_string g, q)]\<rparr>) | _ \<Rightarrow> None
         else if t = RIL_CELL_INFO_TYPE_CDMA
         then case cv_CellInfo ril of CellCdma g q r \<Rightarrow> Some (c\<lparr>ht_cdma := [(g, q, r)]\<rparr>) | _ \<Rightarrow> None
         else if t = RIL_CELL_INFO_TYPE_LTE
         then case cv_CellInfo ril of CellLte g q \<Rightarrow> Some (c\<lparr>ht_lte := [(lte_to_hal to_string g, q)]\<rparr>) | _ \<Rightarrow> None
         else if t = RIL_CELL_INFO_TYPE_TD_SCDMA
         then case cv_CellInfo ril of CellTdscdma g q \<Rightarrow> Some (c\<lparr>ht_tdscdma := [(tdscdma_to_hal to_string g, q)]\<rparr>) | _ \<Rightarrow> None
         else Some c)"

text \<open>The loop over an array: the conversions of the first elements, in order.\<close>

definition convert_array :: "('a \<Rightarrow> 'b option) \<Rightarrow> nat \<Rightarrow> 'a list \<Rightarrow> 'b list option" where
  "convert_array f num xs = do { ys \<leftarrow> first_elems num xs; those (map f ys) }"

text \<open>The same over an array of pointers.\<close>

definition convert_ptrs :: "('a \<Rightarrow> 'b) \<Rightarrow> nat \<Rightarrow> 'a option list \<Rightarrow> 'b list option" where
  "convert_ptrs f num xs = convert_array (map_option f) num xs"

lemma those_Some_iff: "those xs = Some ys \<longleftrightarrow> xs = map Some ys"
proof (induction xs arbitrary: ys)
  case (Cons x xs)
  then show ?case by (cases ys) (auto split: option.split)
qed auto

lemma those_None_iff: "those xs = None \<longleftrightarrow> None \<in> set xs"
  by (induction xs) (auto split: option.split)

lemma convert_array_Some_iff:
  "convert_array f n xs = Some ys \<longleftrightarrow> n \<le> length xs \<and> map f (take n xs) = map Some ys"
  by (simp add: convert_array_def first_elems_def those_Some_iff)

lemma convert_array_None_iff:
  "convert_array f n xs = None \<longleftrightarrow> length xs < n \<or> (\<exists>x \<in> set (take n xs). f x = None)"
proof -
  have "None \<in> f ` S \<longleftrightarrow> (\<exists>x \<in> S. f x = None)" for S
    by (metis imageE imageI)
  then show ?thesis by (simp add: convert_array_def first_elems_def those_None_iff)
qed

lemma convert_array_length: "convert_array f n xs = Some ys \<Longrightarrow> length ys = n"
  using map_eq_imp_length_eq by (fastforce simp: convert_array_Some_iff)

lemma convert_array_all:
  "convert_array (Some \<circ> g) n xs = (if n \<le> length xs then Some (map g (take n xs)) else None)"
  by (auto simp: convert_array_def first_elems_def those_Some_iff)

text \<open>A response of length 0 may have no memory behind it: then no element is read.\<close>

definition convertRilCellInfoListToHal :: "hal \<Rightarrow> vdata option \<Rightarrow> nat \<Rightarrow> cell_info list option" where
  "convertRilCellInfoListToHal H response responseLen =
     (let num = responseLen div sizeof H C_RIL_CellInfo_v12
      in case response of
           None \<Rightarrow> if num = 0 then Some [] else None
         | Some (VCells cs) \<Rightarrow> convert_array convertRilCellInfoToHal num cs
         | _ \<Rightarrow> if num = 0 then Some [] else None)"

section \<open>Signal strengths\<close>

text \<open>Invalid LTE measurements get the values of the client's interface; negating \<open>INT_MIN\<close> is undefined.\<close>

definition normalise_lte :: "RIL_LTE_SignalStrength_v8 \<Rightarrow> RIL_LTE_SignalStrength_v8 option" where
  "normalise_lte l =
     (if lt_rsrp l = INT_MIN then None
      else Some \<lparr>lt_signalStrength = (if lt_signalStrength l = -1 then 99 else lt_signalStrength l),
                 lt_rsrp = (if lt_rsrp l = -1 then INT_MAX else if lt_rsrp l < -1 then - lt_rsrp l else lt_rsrp l),
                 lt_rsrq = (if lt_rsrq l = -1 then INT_MAX else lt_rsrq l),
                 lt_rssnr = lt_rssnr l,
                 lt_cqi = (if lt_cqi l = -1 then INT_MAX else lt_cqi l),
                 lt_timingAdvance = lt_timingAdvance l\<rparr>)"

definition no_signal :: signal_strength where
  "no_signal = \<lparr>hj_gw = \<lparr>gw_signalStrength = 0, gw_bitErrorRate = 0, gw_timingAdvance = 0\<rparr>,
     hj_cdma = \<lparr>cx_dbm = 0, cx_ecio = 0\<rparr>, hj_evdo = \<lparr>ev_dbm = 0, ev_ecio = 0, ev_signalNoiseRatio = 0\<rparr>,
     hj_lte = \<lparr>lt_signalStrength = 0, lt_rsrp = 0, lt_rsrq = 0, lt_rssnr = 0, lt_cqi = 0, lt_timingAdvance = 0\<rparr>,
     hj_tdScdma_rscp = 0\<rparr>"

definition convertRilSignalStrengthToHalV8 :: "RIL_SignalStrength_v8 \<Rightarrow> signal_strength option" where
  "convertRilSignalStrengthToHalV8 r = do {
     l \<leftarrow> normalise_lte (LTE_SignalStrength r);
     Some \<lparr>hj_gw = \<lparr>gw_signalStrength = gw_signalStrength (GW_SignalStrength r),
                    gw_bitErrorRate = gw_bitErrorRate (GW_SignalStrength r), gw_timingAdvance = 0\<rparr>,
           hj_cdma = CDMA_SignalStrength r, hj_evdo = EVDO_SignalStrength r, hj_lte = l,
           hj_tdScdma_rscp = INT_MAX\<rparr> }"

definition convertRilSignalStrengthToHalV10 :: "RIL_SignalStrength_v10 \<Rightarrow> signal_strength option" where
  "convertRilSignalStrengthToHalV10 r = do {
     l \<leftarrow> normalise_lte (LTE_SignalStrength r);
     Some \<lparr>hj_gw = \<lparr>gw_signalStrength = gw_signalStrength (GW_SignalStrength r),
                    gw_bitErrorRate = gw_bitErrorRate (GW_SignalStrength r), gw_timingAdvance = INT_MAX\<rparr>,
           hj_cdma = CDMA_SignalStrength r, hj_evdo = EVDO_SignalStrength r, hj_lte = l,
           hj_tdScdma_rscp = TD_SCDMA_rscp r\<rparr> }"

definition convertRilSignalStrengthToHal :: "hal \<Rightarrow> vdata \<Rightarrow> nat \<Rightarrow> signal_strength option" where
  "convertRilSignalStrengthToHal H d responseLen =
     (if responseLen = sizeof H C_RIL_SignalStrength_v8
      then case d of VSignal8 r \<Rightarrow> convertRilSignalStrengthToHalV8 r
                   | VSignal10 r \<Rightarrow> convertRilSignalStrengthToHalV8 (RIL_SignalStrength_v8.truncate r)
                   | _ \<Rightarrow> None
      else case d of VSignal10 r \<Rightarrow> convertRilSignalStrengthToHalV10 r | _ \<Rightarrow> None)"

section \<open>Data calls\<close>

definition data_call_v6 :: "'a RIL_Data_Call_Response_v6_scheme \<Rightarrow> setup_data_call_result" where
  "data_call_v6 r =
     \<lparr>hy_status = Cast (dc_status r), hy_suggestedRetryTime = dc_suggestedRetryTime r, hy_cid = dc_cid r,
      hy_active = dc_active r, hy_type = convertCharPtrToHidlString (dc_type r),
      hy_ifname = convertCharPtrToHidlString (dc_ifname r),
      hy_addresses = convertCharPtrToHidlString (dc_addresses r),
      hy_dnses = convertCharPtrToHidlString (dc_dnses r),
      hy_gateways = convertCharPtrToHidlString (dc_gateways r),
      hy_pcscf = hidl_string_of [], hy_mtu = 0\<rparr>"

definition data_call_v9 :: "'a RIL_Data_Call_Response_v9_scheme \<Rightarrow> setup_data_call_result" where
  "data_call_v9 r =
     \<lparr>hy_status = Cast (dc_status r), hy_suggestedRetryTime = dc_suggestedRetryTime r, hy_cid = dc_cid r,
      hy_active = dc_active r, hy_type = convertCharPtrToHidlString (dc_type r),
      hy_ifname = convertCharPtrToHidlString (dc_ifname r),
      hy_addresses = convertCharPtrToHidlString (dc_addresses r),
      hy_dnses = convertCharPtrToHidlString (dc_dnses r),
      hy_gateways = convertCharPtrToHidlString (dc_gateways r),
      hy_pcscf = convertCharPtrToHidlString (dc_pcscf r), hy_mtu = 0\<rparr>"

definition data_call_v11 :: "RIL_Data_Call_Response_v11 \<Rightarrow> setup_data_call_result" where
  "data_call_v11 r =
     \<lparr>hy_status = Cast (dc_status r), hy_suggestedRetryTime = dc_suggestedRetryTime r, hy_cid = dc_cid r,
      hy_active = dc_active r, hy_type = convertCharPtrToHidlString (dc_type r),
      hy_ifname = convertCharPtrToHidlString (dc_ifname r),
      hy_addresses = convertCharPtrToHidlString (dc_addresses r),
      hy_dnses = convertCharPtrToHidlString (dc_dnses r),
      hy_gateways = convertCharPtrToHidlString (dc_gateways r),
      hy_pcscf = convertCharPtrToHidlString (dc_pcscf r), hy_mtu = dc_mtu r\<rparr>"

text \<open>The version is guessed from the length: the newest structure whose size divides it.\<close>

definition data_call_length_ok :: "hal \<Rightarrow> nat \<Rightarrow> bool" where
  "data_call_length_ok H n \<longleftrightarrow>
     n mod sizeof H C_RIL_Data_Call_Response_v11 = 0 \<or> n mod sizeof H C_RIL_Data_Call_Response_v9 = 0 \<or>
     n mod sizeof H C_RIL_Data_Call_Response_v6 = 0"

definition convertRilDataCallListToHal :: "hal \<Rightarrow> vdata option \<Rightarrow> nat \<Rightarrow> setup_data_call_result list option" where
  "convertRilDataCallListToHal H response responseLen =
     (let elems = (\<lambda>t. responseLen div sizeof H t)
      in if responseLen mod sizeof H C_RIL_Data_Call_Response_v11 = 0
         then let num = elems C_RIL_Data_Call_Response_v11
              in case response of Some (VDataCalls11 ds) \<Rightarrow> convert_array (Some \<circ> data_call_v11) num ds
                                | _ \<Rightarrow> if num = 0 then Some [] else None
         else if responseLen mod sizeof H C_RIL_Data_Call_Response_v9 = 0
         then let num = elems C_RIL_Data_Call_Response_v9
              in case response of Some (VDataCalls9 ds) \<Rightarrow> convert_array (Some \<circ> data_call_v9) num ds
                                | _ \<Rightarrow> if num = 0 then Some [] else None
         else if responseLen mod sizeof H C_RIL_Data_Call_Response_v6 = 0
         then let num = elems C_RIL_Data_Call_Response_v6
              in case response of Some (VDataCalls6 ds) \<Rightarrow> convert_array (Some \<circ> data_call_v6) num ds
                                | _ \<Rightarrow> if num = 0 then Some [] else None
         else Some [])"

section \<open>Other structures\<close>

definition convertRilHardwareConfigToHal :: "RIL_HardwareConfig \<Rightarrow> hardware_config option" where
  "convertRilHardwareConfigToHal r = do {
     uuid \<leftarrow> chars_str (wc_uuid r);
     let c = \<lparr>hh_type = wc_type r, hh_uuid = convertCharPtrToHidlString uuid, hh_state = wc_state r,
              hh_modem = [], hh_sim = []\<rparr>;
     if wc_type r = 0
     then case wc_cfg r of
            HwModem m \<Rightarrow> Some (c\<lparr>hh_modem := [(wm_rat m, wm_maxVoice m, wm_maxData m, wm_maxStandby m)]\<rparr>)
          | HwSim _ \<Rightarrow> None
     else if wc_type r = 1
     then case wc_cfg r of
            HwModem _ \<Rightarrow> None
          | HwSim u \<Rightarrow> do { x \<leftarrow> chars_str u; Some (c\<lparr>hh_sim := [convertCharPtrToHidlString x]\<rparr>) }
     else Some c }"

definition convertRilHardwareConfigListToHal :: "hal \<Rightarrow> vdata option \<Rightarrow> nat \<Rightarrow> hardware_config list option" where
  "convertRilHardwareConfigListToHal H response responseLen =
     (let num = responseLen div sizeof H C_RIL_HardwareConfig
      in case response of
           Some (VHardware cs) \<Rightarrow> convert_array convertRilHardwareConfigToHal num cs
         | _ \<Rightarrow> if num = 0 then Some [] else None)"

definition convertRilRadioCapabilityToHal :: "RIL_RadioCapability \<Rightarrow> radio_capability option" where
  "convertRilRadioCapabilityToHal r = do {
     uuid \<leftarrow> chars_str (rp_logicalModemUuid r);
     Some \<lparr>hr_session = rp_session r, hr_phase = rp_phase r, hr_raf = rp_rat r,
           hr_logicalModemUuid = convertCharPtrToHidlString uuid, hr_status = rp_status r\<rparr> }"

definition convertRilLceDataInfoToHal :: "RIL_LceDataInfo \<Rightarrow> hidl_arg" where
  "convertRilLceDataInfoToHal r =
     ALceData (ld_last_hop_capacity_kbps r) (ld_confidence_level r) (ld_lce_suspended r \<noteq> 0)"

definition convertRilKeepaliveStatusToHal :: "RIL_KeepaliveStatus \<Rightarrow> hidl_arg" where
  "convertRilKeepaliveStatusToHal r = AKeepalive (ks_sessionHandle r) (ks_code r)"

definition convertRilCdmaSignalInfoRecordToHal :: "RIL_CDMA_SignalInfoRecord \<Rightarrow> cdma_signal_info" where
  "convertRilCdmaSignalInfoRecordToHal r =
     \<lparr>hg_isPresent = (si_isPresent r \<noteq> 0), hg_signalType = si_signalType r,
      hg_alertPitch = si_alertPitch r, hg_signal = si_signal r\<rparr>"

section \<open>Hex strings\<close>

definition INVALID_HEX_CHAR :: u8 where "INVALID_HEX_CHAR = 16"

definition hexCharToInt :: "u8 \<Rightarrow> u8" where
  "hexCharToInt c =
     (if 48 \<le> c \<and> c \<le> 57 then c - 48
      else if 65 \<le> c \<and> c \<le> 70 then c - 65 + 10
      else if 97 \<le> c \<and> c \<le> 102 then c - 97 + 10
      else INVALID_HEX_CHAR)"

text \<open>The loop over pairs of characters; \<open>None\<close> is a character that is not a hex digit.\<close>

fun hex_pairs :: "u8 list \<Rightarrow> u8 list option" where
  "hex_pairs (a # b # cs) =
     (let hexChar1 = hexCharToInt a; hexChar2 = hexCharToInt b
      in if hexChar1 = INVALID_HEX_CHAR \<or> hexChar2 = INVALID_HEX_CHAR then None
         else map_option ((#) (or (push_bit 4 hexChar1) hexChar2)) (hex_pairs cs))"
| "hex_pairs _ = Some []"

text \<open>\<open>None\<close> is NULL; the first \<open>responseLen\<close> bytes of the response are read.\<close>

definition convertHexStringToBytes :: "hal \<Rightarrow> u8 list \<Rightarrow> u8 list option" where
  "convertHexStringToBytes H bytes =
     (if length bytes mod 2 \<noteq> 0 then None
      else if \<not> malloc_ok H (length bytes div 2) then None
      else hex_pairs bytes)"

end
