(* ===== verification/RespStruct.thy ===== *)
theory RespStruct
  imports RespSimple RespConvert
begin

text \<open>
  The response functions of \<open>libril/ril_service.cpp\<close> that hand structures or arrays to the client, in the
  order of the file. Each checks the length of the response; a malformed response of a successful
  request becomes the error \<open>INVALID_RESPONSE\<close> with an empty value.
\<close>

text \<open>
  The form of the functions: the information, and on a malformed response the default arguments with
  \<open>INVALID_RESPONSE\<close>, otherwise the converted arguments.
\<close>

definition checked ::
  "bool \<Rightarrow> int \<Rightarrow> int \<Rightarrow> int \<Rightarrow> hidl_arg list \<Rightarrow> hidl_arg list option \<Rightarrow> (radio_response_info \<times> hidl_arg list) option"
where
  "checked malformed serial responseType e dflt args =
     (let i = populateResponseInfo serial responseType e
      in if malformed then Some (invalid_response e i, dflt) else map_option (Pair i) args)"

text \<open>\<open>(response == NULL && responseLen != 0) || responseLen % sizeof(T) != 0\<close>.\<close>

definition bad_array :: "hal \<Rightarrow> ctype \<Rightarrow> vdata option \<Rightarrow> nat \<Rightarrow> bool" where
  "bad_array H t response responseLen \<longleftrightarrow>
     response = None \<and> responseLen \<noteq> 0 \<or> responseLen mod sizeof H t \<noteq> 0"

section \<open>SIM card and calls\<close>

definition RIL_CARD_MAX_APPS :: nat where "RIL_CARD_MAX_APPS = 8"

definition app_status_to_hal :: "RIL_AppStatus \<Rightarrow> app_status" where
  "app_status_to_hal r =
     \<lparr>ha_appType = as_app_type r, ha_appState = as_app_state r, ha_persoSubstate = as_perso_substate r,
      ha_aidPtr = convertCharPtrToHidlString (as_aid_ptr r),
      ha_appLabelPtr = convertCharPtrToHidlString (as_app_label_ptr r),
      ha_pin1Replaced = as_pin1_replaced r, ha_pin1 = as_pin1 r, ha_pin2 = as_pin2 r\<rparr>"

definition card_status_absent :: card_status where
  "card_status_absent = \<lparr>hq_cardState = Named ''ABSENT'', hq_universalPinState = Named ''UNKNOWN'',
     hq_gsmUmtsSubscriptionAppIndex = -1, hq_cdmaSubscriptionAppIndex = -1,
     hq_imsSubscriptionAppIndex = -1, hq_applications = []\<rparr>"

text \<open>A negative number of applications makes \<open>resize\<close> abort; the array has \<open>RIL_CARD_MAX_APPS\<close> elements.\<close>

definition card_status_to_hal :: "RIL_CardStatus_v6 \<Rightarrow> card_status option" where
  "card_status_to_hal r =
     (if cs_num_applications r < 0 then None
      else do {
        apps \<leftarrow> convert_array (Some \<circ> app_status_to_hal) (nat (cs_num_applications r))
                  (take RIL_CARD_MAX_APPS (cs_applications r));
        Some \<lparr>hq_cardState = Cast (cs_card_state r), hq_universalPinState = Cast (cs_universal_pin_state r),
              hq_gsmUmtsSubscriptionAppIndex = cs_gsm_umts_subscription_app_index r,
              hq_cdmaSubscriptionAppIndex = cs_cdma_subscription_app_index r,
              hq_imsSubscriptionAppIndex = cs_ims_subscription_app_index r, hq_applications = apps\<rparr> })"

definition getIccCardStatusResponse :: response_function where
  "getIccCardStatusResponse H slotId responseType serial e response responseLen s =
     radio_response H slotId ''getIccCardStatusResponse''
       (let i = populateResponseInfo serial responseType e;
            bad = Some (invalid_response e i, [ACardStatus card_status_absent])
        in if response = None \<or> responseLen \<noteq> sizeof H C_RIL_CardStatus_v6 then bad
           else case response of
                  Some (VCardStatus r) \<Rightarrow>
                    if cs_num_applications r \<le> cs_gsm_umts_subscription_app_index r \<or>
                       cs_num_applications r \<le> cs_cdma_subscription_app_index r \<or>
                       cs_num_applications r \<le> cs_ims_subscription_app_index r
                    then bad
                    else map_option (\<lambda>c. (i, [ACardStatus c])) (card_status_to_hal r)
                | _ \<Rightarrow> None) s"

text \<open>\<open>strndup\<close>: at most \<open>n\<close> characters; a negative length is a huge \<open>size_t\<close>.\<close>

definition strndup :: "string \<Rightarrow> int \<Rightarrow> string" where
  "strndup c n = (if n < 0 then c else take (nat n) c)"

definition call_to_hal :: "RIL_Call \<Rightarrow> hidl_call" where
  "call_to_hal r =
     \<lparr>hl_state = rc_state r, hl_index = rc_index r, hl_toa = rc_toa r, hl_isMpty = (rc_isMpty r \<noteq> 0),
      hl_isMT = (rc_isMT r \<noteq> 0), hl_als = rc_als r, hl_isVoice = (rc_isVoice r \<noteq> 0),
      hl_isVoicePrivacy = (rc_isVoicePrivacy r \<noteq> 0), hl_number = convertCharPtrToHidlString (rc_number r),
      hl_numberPresentation = rc_numberPresentation r, hl_name = convertCharPtrToHidlString (rc_name r),
      hl_namePresentation = rc_namePresentation r,
      hl_uusInfo =
        (case rc_uusInfo r of
           None \<Rightarrow> []
         | Some u \<Rightarrow>
             (case uusData u of
                None \<Rightarrow> []
              | Some c \<Rightarrow> [\<lparr>hu_type = uusType u, hu_dcs = uusDcs u,
                           hu_data = hidl_string_of (strndup c (uusLength u))\<rparr>]))\<rparr>"

definition getCurrentCallsResponse :: response_function where
  "getCurrentCallsResponse H slotId responseType serial e response responseLen s =
     radio_response H slotId ''getCurrentCallsResponse''
       (checked (bad_array H C_ptr response responseLen) serial responseType e [ACalls []]
         (let num = responseLen div sizeof H C_ptr in
          case response of
            Some (VCalls ps) \<Rightarrow> map_option (\<lambda>cs. [ACalls cs]) (convert_ptrs call_to_hal num ps)
          | _ \<Rightarrow> if num = 0 then Some [ACalls []] else None)) s"

definition getLastCallFailCauseResponse :: response_function where
  "getLastCallFailCauseResponse H slotId responseType serial e response responseLen s =
     radio_response H slotId ''getLastCallFailCauseResponse''
       (let i = populateResponseInfo serial responseType e;
            bad = Some (invalid_response e i, [AFailCause 0 (hidl_string_of [])])
        in case response of
             None \<Rightarrow> bad
           | Some d \<Rightarrow>
               if responseLen = sizeof H C_int
               then map_option (\<lambda>n. (i, [AFailCause n (hidl_string_of [])])) (int_at d 0)
               else if responseLen = sizeof H C_RIL_LastCallFailCauseInfo
               then case d of
                      VFailCause r \<Rightarrow>
                        Some (i, [AFailCause (lf_cause_code r) (convertCharPtrToHidlString (lf_vendor_cause r))])
                    | _ \<Rightarrow> None
               else bad) s"

definition getSignalStrengthResponse :: response_function where
  "getSignalStrengthResponse H slotId responseType serial e response responseLen s =
     radio_response H slotId ''getSignalStrengthResponse''
       (checked (response = None \<or> responseLen \<noteq> sizeof H C_RIL_SignalStrength_v10 \<and>
                 responseLen \<noteq> sizeof H C_RIL_SignalStrength_v8) serial responseType e [ASignal no_signal]
         (do { d \<leftarrow> response; g \<leftarrow> convertRilSignalStrengthToHal H d responseLen; Some [ASignal g] })) s"

section \<open>Registration and operators\<close>

definition no_cell :: cell_identity_list where
  "no_cell = \<lparr>hz_cellInfoType = 0, hz_gsm = [], hz_wcdma = [], hz_cdma = [], hz_lte = [], hz_tdscdma = []\<rparr>"

definition no_voice_reg :: voice_reg_state where
  "no_voice_reg = \<lparr>hv_regState = 0, hv_rat = 0, hv_cssSupported = False, hv_roamingIndicator = 0,
     hv_systemIsInPrl = 0, hv_defaultRoamingIndicator = 0, hv_reasonForDenial = 0, hv_cellIdentity = no_cell\<rparr>"

definition strs_of :: "vdata option \<Rightarrow> cstr list option" where
  "strs_of response = (case response of Some (VStrs cs) \<Rightarrow> Some cs | _ \<Rightarrow> None)"

definition voice_reg_from_strings :: "int \<Rightarrow> cstr list \<Rightarrow> voice_reg_state option" where
  "voice_reg_from_strings numStrings resp = do {
     r0 \<leftarrow> entry_at resp 0; regState \<leftarrow> ATOI_NULL_HANDLED_DEF r0 4;
     r3 \<leftarrow> entry_at resp 3; rat \<leftarrow> ATOI_NULL_HANDLED r3;
     r7 \<leftarrow> entry_at resp 7; css \<leftarrow> ATOI_NULL_HANDLED_DEF r7 0;
     r10 \<leftarrow> entry_at resp 10; roam \<leftarrow> ATOI_NULL_HANDLED r10;
     r11 \<leftarrow> entry_at resp 11; prl \<leftarrow> ATOI_NULL_HANDLED_DEF r11 0;
     r12 \<leftarrow> entry_at resp 12; droam \<leftarrow> ATOI_NULL_HANDLED_DEF r12 0;
     r13 \<leftarrow> entry_at resp 13; denial \<leftarrow> ATOI_NULL_HANDLED_DEF r13 0;
     cell \<leftarrow> fillCellIdentityFromVoiceRegStateResponseString numStrings resp;
     Some \<lparr>hv_regState = regState, hv_rat = rat, hv_cssSupported = (css \<noteq> 0), hv_roamingIndicator = roam,
           hv_systemIsInPrl = prl, hv_defaultRoamingIndicator = droam, hv_reasonForDenial = denial,
           hv_cellIdentity = cell\<rparr> }"

definition voice_reg_to_hal :: "RIL_VoiceRegistrationStateResponse \<Rightarrow> voice_reg_state option" where
  "voice_reg_to_hal r = do {
     cell \<leftarrow> fillCellIdentityResponse (vr_cellIdentity r);
     Some \<lparr>hv_regState = vr_regState r, hv_rat = vr_rat r, hv_cssSupported = (vr_cssSupported r \<noteq> 0),
           hv_roamingIndicator = vr_roamingIndicator r, hv_systemIsInPrl = vr_systemIsInPrl r,
           hv_defaultRoamingIndicator = vr_defaultRoamingIndicator r,
           hv_reasonForDenial = vr_reasonForDenial r, hv_cellIdentity = cell\<rparr> }"

definition getVoiceRegistrationStateResponse :: response_function where
  "getVoiceRegistrationStateResponse H slotId responseType serial e response responseLen s =
     radio_response H slotId ''getVoiceRegistrationStateResponse''
       (let numStrings = responseLen div sizeof H C_ptr;
            chk = (\<lambda>bad v. checked bad serial responseType e [AVoiceReg no_voice_reg]
                              (map_option (\<lambda>r. [AVoiceReg r]) v))
        in if response = None then chk True None
           else if vendor_version H \<le> 14
           then chk (numStrings \<noteq> 15)
                  (do { resp \<leftarrow> strs_of response; voice_reg_from_strings (int numStrings) resp })
           else chk (responseLen \<noteq> sizeof H C_RIL_VoiceRegistrationStateResponse)
                  (case response of Some (VVoiceReg r) \<Rightarrow> voice_reg_to_hal r | _ \<Rightarrow> None)) s"

definition no_data_reg :: data_reg_state where
  "no_data_reg = \<lparr>hd_regState = 0, hd_rat = 0, hd_reasonDataDenied = 0, hd_maxDataCalls = 0,
     hd_cellIdentity = no_cell\<rparr>"

definition data_reg_from_strings :: "int \<Rightarrow> cstr list \<Rightarrow> data_reg_state option" where
  "data_reg_from_strings numStrings resp = do {
     r0 \<leftarrow> entry_at resp 0; regState \<leftarrow> ATOI_NULL_HANDLED_DEF r0 4;
     r3 \<leftarrow> entry_at resp 3; rat \<leftarrow> ATOI_NULL_HANDLED_DEF r3 0;
     r4 \<leftarrow> entry_at resp 4; denied \<leftarrow> ATOI_NULL_HANDLED r4;
     r5 \<leftarrow> entry_at resp 5; maxCalls \<leftarrow> ATOI_NULL_HANDLED_DEF r5 1;
     cell \<leftarrow> fillCellIdentityFromDataRegStateResponseString numStrings resp;
     Some \<lparr>hd_regState = regState, hd_rat = rat, hd_reasonDataDenied = denied, hd_maxDataCalls = maxCalls,
           hd_cellIdentity = cell\<rparr> }"

definition data_reg_to_hal :: "RIL_DataRegistrationStateResponse \<Rightarrow> data_reg_state option" where
  "data_reg_to_hal r = do {
     cell \<leftarrow> fillCellIdentityResponse (dr_cellIdentity r);
     Some \<lparr>hd_regState = dr_regState r, hd_rat = dr_rat r, hd_reasonDataDenied = dr_reasonDataDenied r,
           hd_maxDataCalls = dr_maxDataCalls r, hd_cellIdentity = cell\<rparr> }"

definition getDataRegistrationStateResponse :: response_function where
  "getDataRegistrationStateResponse H slotId responseType serial e response responseLen s =
     radio_response H slotId ''getDataRegistrationStateResponse''
       (let chk = (\<lambda>bad v. checked bad serial responseType e [ADataReg no_data_reg]
                              (map_option (\<lambda>r. [ADataReg r]) v))
        in if response = None then chk True None
           else if vendor_version H \<le> 14
           then let numStrings = responseLen div sizeof H C_ptr
                in chk (numStrings \<noteq> 6 \<and> numStrings \<noteq> 11 \<and> numStrings \<noteq> 13)
                     (do { resp \<leftarrow> strs_of response; data_reg_from_strings (int numStrings) resp })
           else chk (responseLen \<noteq> sizeof H C_RIL_DataRegistrationStateResponse)
                  (case response of Some (VDataReg r) \<Rightarrow> data_reg_to_hal r | _ \<Rightarrow> None)) s"

text \<open>Handing on a fixed number of strings; on a malformed response they are empty.\<close>

definition strings_checked ::
  "hal \<Rightarrow> nat \<Rightarrow> int \<Rightarrow> int \<Rightarrow> int \<Rightarrow> vdata option \<Rightarrow> nat \<Rightarrow> (radio_response_info \<times> hidl_arg list) option" where
  "strings_checked H n serial responseType e response responseLen =
     checked (response = None \<or> responseLen div sizeof H C_ptr \<noteq> n) serial responseType e
       (replicate n (AString (hidl_string_of [])))
       (do { resp \<leftarrow> strs_of response; cs \<leftarrow> first_elems n resp;
             Some (map (AString \<circ> convertCharPtrToHidlString) cs) })"

definition getOperatorResponse :: response_function where
  "getOperatorResponse H slotId responseType serial e response responseLen s =
     radio_response H slotId ''getOperatorResponse''
       (strings_checked H 3 serial responseType e response responseLen) s"

section \<open>Data calls, supplementary services, networks\<close>

definition data_call_failed :: setup_data_call_result where
  "data_call_failed = \<lparr>hy_status = Named ''ERROR_UNSPECIFIED'', hy_suggestedRetryTime = 0, hy_cid = 0, hy_active = 0,
     hy_type = hidl_string_of [], hy_ifname = hidl_string_of [], hy_addresses = hidl_string_of [],
     hy_dnses = hidl_string_of [], hy_gateways = hidl_string_of [], hy_pcscf = hidl_string_of [], hy_mtu = 0\<rparr>"

text \<open>The first data call of the array, which a length of 0 does not promise.\<close>

definition setupDataCallResponse :: response_function where
  "setupDataCallResponse H slotId responseType serial e response responseLen s =
     radio_response H slotId ''setupDataCallResponse''
       (let i = populateResponseInfo serial responseType e in
        case response of
          None \<Rightarrow> Some (i, [ADataCall data_call_failed])
        | Some d \<Rightarrow>
            if \<not> data_call_length_ok H responseLen then Some (invalid_response e i, [ADataCall data_call_failed])
            else if responseLen mod sizeof H C_RIL_Data_Call_Response_v11 = 0
            then case d of VDataCalls11 (r # _) \<Rightarrow> Some (i, [ADataCall (data_call_v11 r)]) | _ \<Rightarrow> None
            else if responseLen mod sizeof H C_RIL_Data_Call_Response_v9 = 0
            then case d of VDataCalls9 (r # _) \<Rightarrow> Some (i, [ADataCall (data_call_v9 r)]) | _ \<Rightarrow> None
            else case d of VDataCalls6 (r # _) \<Rightarrow> Some (i, [ADataCall (data_call_v6 r)]) | _ \<Rightarrow> None) s"

text \<open>Responses made of a fixed number of integers.\<close>

definition ints_checked ::
  "bool \<Rightarrow> int \<Rightarrow> int \<Rightarrow> int \<Rightarrow> vdata option \<Rightarrow> nat \<Rightarrow> hidl_arg list \<Rightarrow> (int list \<Rightarrow> hidl_arg list) \<Rightarrow>
   (radio_response_info \<times> hidl_arg list) option" where
  "ints_checked bad serial responseType e response n dflt args =
     checked (response = None \<or> bad) serial responseType e dflt
       (do { d \<leftarrow> response; xs \<leftarrow> (case d of VInts xs \<Rightarrow> Some xs | _ \<Rightarrow> None); ys \<leftarrow> first_elems n xs; Some (args ys) })"

definition getClirResponse :: response_function where
  "getClirResponse H slotId responseType serial e response responseLen s =
     radio_response H slotId ''getClirResponse''
       (ints_checked (responseLen div sizeof H C_int \<noteq> 2) serial responseType e response 2
          [AInt (-1), AInt (-1)] (\<lambda>p. [AInt (p ! 0), AInt (p ! 1)])) s"

definition call_forward_to_hal :: "RIL_CallForwardInfo \<Rightarrow> hidl_call_forward" where
  "call_forward_to_hal r =
     \<lparr>hc_status = cf_status r, hc_reason = cf_reason r, hc_serviceClass = cf_serviceClass r, hc_toa = cf_toa r,
      hc_number = convertCharPtrToHidlString (cf_number r), hc_timeSeconds = cf_timeSeconds r\<rparr>"

definition getCallForwardStatusResponse :: response_function where
  "getCallForwardStatusResponse H slotId responseType serial e response responseLen s =
     radio_response H slotId ''getCallForwardStatusResponse''
       (checked (bad_array H C_ptr response responseLen) serial responseType e [AForwards []]
         (let num = responseLen div sizeof H C_ptr in
          case response of
            Some (VForwards ps) \<Rightarrow> map_option (\<lambda>cs. [AForwards cs]) (convert_ptrs call_forward_to_hal num ps)
          | _ \<Rightarrow> if num = 0 then Some [AForwards []] else None)) s"

definition getCallWaitingResponse :: response_function where
  "getCallWaitingResponse H slotId responseType serial e response responseLen s =
     radio_response H slotId ''getCallWaitingResponse''
       (ints_checked (responseLen div sizeof H C_int \<noteq> 2) serial responseType e response 2
          [ABool False, AInt (-1)] (\<lambda>p. [ABool (p ! 0 = 1), AInt (p ! 1)])) s"

definition getNetworkSelectionModeResponse :: response_function where
  "getNetworkSelectionModeResponse H slotId responseType serial e response responseLen s =
     radio_response H slotId ''getNetworkSelectionModeResponse''
       (ints_checked (responseLen \<noteq> sizeof H C_int) serial responseType e response 1
          [ABool False] (\<lambda>p. [ABool (p ! 0 = 1)])) s"

text \<open>\<open>strncmp\<close> of strings without their NUL.\<close>

definition strncmp_eq :: "string \<Rightarrow> string \<Rightarrow> nat \<Rightarrow> bool" where
  "strncmp_eq a b n \<longleftrightarrow> take n (a @ [CHR 0x00]) = take n (b @ [CHR 0x00])"

text \<open>\<open>None\<close> is the value \<open>-1\<close>.\<close>

definition convertOperatorStatusToInt :: "string \<Rightarrow> henum option" where
  "convertOperatorStatusToInt str =
     (if strncmp_eq ''unknown'' str 9 then Some (Named ''UNKNOWN'')
      else if strncmp_eq ''available'' str 9 then Some (Named ''AVAILABLE'')
      else if strncmp_eq ''current'' str 9 then Some (Named ''CURRENT'')
      else if strncmp_eq ''forbidden'' str 9 then Some (Named ''FORBIDDEN'')
      else None)"

text \<open>What is in front of the last \<open>+\<close>; without one the length is computed from NULL.\<close>

definition before_last_plus :: "string \<Rightarrow> string option" where
  "before_last_plus c =
     (if CHR ''+'' \<in> set c then Some (rev (tl (dropWhile (\<lambda>x. x \<noteq> CHR ''+'') (rev c)))) else None)"

text \<open>
  One operator from \<open>resp[i]\<close> to \<open>resp[i + 3]\<close>, and whether its status was valid; the status of an
  invalid one stays uninitialised.
\<close>

definition operator_to_hal :: "hal \<Rightarrow> cstr list \<Rightarrow> nat \<Rightarrow> nat \<Rightarrow> (bool \<times> operator_info) option" where
  "operator_to_hal H resp i j = do {
     l \<leftarrow> entry_at resp i;
     sh \<leftarrow> entry_at resp (i + 1);
     n \<leftarrow> entry_at resp (i + 2);
     numeric \<leftarrow> (if \<not> old_mnc_format H then Some (convertCharPtrToHidlString n)
                 else do { c \<leftarrow> n; p \<leftarrow> before_last_plus c; Some (hidl_string_of p) });
     q \<leftarrow> entry_at resp (i + 3);
     str \<leftarrow> q;
     let status = convertOperatorStatusToInt str;
     Some (status \<noteq> None,
           \<lparr>ho_alphaLong = convertCharPtrToHidlString l, ho_alphaShort = convertCharPtrToHidlString sh,
            ho_operatorNumeric = numeric,
            ho_status = (case status of None \<Rightarrow> Cast (sint (uninit H j)) | Some v \<Rightarrow> v)\<rparr>) }"

definition getAvailableNetworksResponse :: response_function where
  "getAvailableNetworksResponse H slotId responseType serial e response responseLen s =
     radio_response H slotId ''getAvailableNetworksResponse''
       (let i = populateResponseInfo serial responseType e;
            mq = mqanelements H;
            row = unat (word_of_int mq * word_of_nat (sizeof H C_ptr) :: u32);
            numStrings = responseLen div sizeof H C_ptr
        in if response = None \<and> responseLen \<noteq> 0 then Some (invalid_response e i, [AOperators []])
           else if row = 0 then None
           else if responseLen mod row \<noteq> 0 then Some (invalid_response e i, [AOperators []])
           else if numStrings = 0 then Some (i, [AOperators []])
           else if mq < 0 then None
           else do {
             resp \<leftarrow> strs_of response;
             ops \<leftarrow> those (map (\<lambda>j. operator_to_hal H resp (j * nat mq) j) [0..<numStrings div nat mq]);
             Some (if \<forall>x \<in> set ops. fst x then i else invalid_response e i, [AOperators (map snd ops)]) }) s"

definition getMuteResponse :: response_function where
  "getMuteResponse H slotId responseType serial e response responseLen s =
     radio_response H slotId ''getMuteResponse''
       (ints_checked (responseLen \<noteq> sizeof H C_int) serial responseType e response 1
          [ABool False] (\<lambda>p. [ABool (p ! 0 = 1)])) s"

definition getDataCallListResponse :: response_function where
  "getDataCallListResponse H slotId responseType serial e response responseLen s =
     radio_response H slotId ''getDataCallListResponse''
       (checked (response = None \<and> responseLen \<noteq> 0 \<or> \<not> data_call_length_ok H responseLen)
          serial responseType e [ADataCalls []]
          (map_option (\<lambda>ds. [ADataCalls ds]) (convertRilDataCallListToHal H response responseLen))) s"

definition getAvailableBandModesResponse :: response_function where
  "getAvailableBandModesResponse H slotId responseType serial e response responseLen s =
     radio_response H slotId ''getAvailableBandModesResponse''
       (checked (bad_array H C_int response responseLen) serial responseType e [AEnums []]
         (let num = responseLen div sizeof H C_int in
          case response of
            Some (VInts xs) \<Rightarrow> map_option (\<lambda>ms. [AEnums ms]) (first_elems num xs)
          | _ \<Rightarrow> if num = 0 then Some [AEnums []] else None)) s"

definition getNeighboringCidsResponse :: response_function where
  "getNeighboringCidsResponse H slotId responseType serial e response responseLen s =
     radio_response H slotId ''getNeighboringCidsResponse''
       (checked (bad_array H C_ptr response responseLen) serial responseType e [ANeighbors []]
         (let num = responseLen div sizeof H C_ptr in
          case response of
            Some (VNeighbors ps) \<Rightarrow>
              map_option (\<lambda>cs. [ANeighbors cs])
                (convert_ptrs (\<lambda>r. (convertCharPtrToHidlString (nc_cid r), nc_rssi r)) num ps)
          | _ \<Rightarrow> if num = 0 then Some [ANeighbors []] else None)) s"

definition getPreferredVoicePrivacyResponse :: response_function where
  "getPreferredVoicePrivacyResponse H slotId responseType serial e response responseLen s =
     radio_response H slotId ''getPreferredVoicePrivacyResponse''
       (ints_checked (responseLen div sizeof H C_int \<noteq> 1) serial responseType e response 1
          [ABool False] (\<lambda>p. [ABool (p ! 0 = 1)])) s"

section \<open>Broadcast messages, identities, cells\<close>

definition gsm_broadcast_to_hal :: "RIL_GSM_BroadcastSmsConfigInfo \<Rightarrow> hidl_gsm_broadcast" where
  "gsm_broadcast_to_hal r =
     \<lparr>hb_fromServiceId = gb_fromServiceId r, hb_toServiceId = gb_toServiceId r,
      hb_fromCodeScheme = gb_fromCodeScheme r, hb_toCodeScheme = gb_toCodeScheme r,
      hb_selected = (gb_selected r = 1)\<rparr>"

definition getGsmBroadcastConfigResponse :: response_function where
  "getGsmBroadcastConfigResponse H slotId responseType serial e response responseLen s =
     radio_response H slotId ''getGsmBroadcastConfigResponse''
       (checked (bad_array H C_ptr response responseLen) serial responseType e [AGsmBroadcast []]
         (let num = responseLen div sizeof H C_ptr in
          case response of
            Some (VGsmBroadcast ps) \<Rightarrow> map_option (\<lambda>cs. [AGsmBroadcast cs]) (convert_ptrs gsm_broadcast_to_hal num ps)
          | _ \<Rightarrow> if num = 0 then Some [AGsmBroadcast []] else None)) s"

definition cdma_broadcast_to_hal :: "RIL_CDMA_BroadcastSmsConfigInfo \<Rightarrow> hidl_cdma_broadcast" where
  "cdma_broadcast_to_hal r =
     \<lparr>hx_serviceCategory = xb_service_category r, hx_language = xb_language r, hx_selected = (xb_selected r = 1)\<rparr>"

definition getCdmaBroadcastConfigResponse :: response_function where
  "getCdmaBroadcastConfigResponse H slotId responseType serial e response responseLen s =
     radio_response H slotId ''getCdmaBroadcastConfigResponse''
       (checked (bad_array H C_ptr response responseLen) serial responseType e [ACdmaBroadcast []]
         (let num = responseLen div sizeof H C_ptr in
          case response of
            Some (VCdmaBroadcast ps) \<Rightarrow> map_option (\<lambda>cs. [ACdmaBroadcast cs]) (convert_ptrs cdma_broadcast_to_hal num ps)
          | _ \<Rightarrow> if num = 0 then Some [ACdmaBroadcast []] else None)) s"

definition getCDMASubscriptionResponse :: response_function where
  "getCDMASubscriptionResponse H slotId responseType serial e response responseLen s =
     radio_response H slotId ''getCDMASubscriptionResponse''
       (strings_checked H 5 serial responseType e response responseLen) s"

definition getDeviceIdentityResponse :: response_function where
  "getDeviceIdentityResponse H slotId responseType serial e response responseLen s =
     radio_response H slotId ''getDeviceIdentityResponse''
       (strings_checked H 4 serial responseType e response responseLen) s"

definition getCellInfoListResponse :: response_function where
  "getCellInfoListResponse H slotId responseType serial e response responseLen s =
     radio_response H slotId ''getCellInfoListResponse''
       (checked (bad_array H C_RIL_CellInfo_v12 response responseLen) serial responseType e [ACells []]
         (map_option (\<lambda>cs. [ACells cs]) (convertRilCellInfoListToHal H response responseLen))) s"

definition getImsRegistrationStateResponse :: response_function where
  "getImsRegistrationStateResponse H slotId responseType serial e response responseLen s =
     radio_response H slotId ''getImsRegistrationStateResponse''
       (ints_checked (responseLen div sizeof H C_int \<noteq> 2) serial responseType e response 2
          [ABool False, AEnum (Cast 0)] (\<lambda>p. [ABool (p ! 0 = 1), AEnum (Cast (p ! 1))])) s"

text \<open>
  The channel and the bytes of the select response. A response that is not NULL but empty is read at
  its first integer and resized to \<open>-1\<close> elements.
\<close>

definition iccOpenLogicalChannelResponse :: response_function where
  "iccOpenLogicalChannelResponse H slotId responseType serial e response responseLen s =
     radio_response H slotId ''iccOpenLogicalChannelResponse''
       (let i = populateResponseInfo serial responseType e;
            numInts = responseLen div sizeof H C_int
        in case response of
             None \<Rightarrow> Some (i, [AInt (-1), ABytes []])
           | Some d \<Rightarrow>
               if responseLen mod sizeof H C_int \<noteq> 0 then Some (invalid_response e i, [AInt (-1), ABytes []])
               else if numInts = 0 then None
               else do {
                 channelId \<leftarrow> int_at d 0;
                 bytes \<leftarrow> those (map (\<lambda>k. map_option word_of_int (int_at d k)) [1..<numInts]);
                 Some (i, [AInt channelId, ABytes bytes]) }) s"

section \<open>Hardware, capability, link capacity, activity, carriers\<close>

definition getHardwareConfigResponse :: response_function where
  "getHardwareConfigResponse H slotId responseType serial e response responseLen s =
     radio_response H slotId ''getHardwareConfigResponse''
       (checked (bad_array H C_RIL_HardwareConfig response responseLen) serial responseType e [AHardware []]
         (map_option (\<lambda>cs. [AHardware cs]) (convertRilHardwareConfigListToHal H response responseLen))) s"

definition no_capability :: radio_capability where
  "no_capability = \<lparr>hr_session = 0, hr_phase = 0, hr_raf = 0, hr_logicalModemUuid = hidl_string_of [], hr_status = 0\<rparr>"

definition responseRadioCapability ::
  "hal \<Rightarrow> int \<Rightarrow> int \<Rightarrow> int \<Rightarrow> vdata option \<Rightarrow> nat \<Rightarrow> (radio_response_info \<times> hidl_arg list) option" where
  "responseRadioCapability H serial responseType e response responseLen =
     checked (response = None \<or> responseLen \<noteq> sizeof H C_RIL_RadioCapability) serial responseType e
       [ACapability no_capability]
       (case response of
          Some (VCapability r) \<Rightarrow> map_option (\<lambda>c. [ACapability c]) (convertRilRadioCapabilityToHal r)
        | _ \<Rightarrow> None)"

definition getRadioCapabilityResponse :: response_function where
  "getRadioCapabilityResponse H slotId responseType serial e response responseLen s =
     radio_response H slotId ''getRadioCapabilityResponse''
       (responseRadioCapability H serial responseType e response responseLen) s"

definition setRadioCapabilityResponse :: response_function where
  "setRadioCapabilityResponse H slotId responseType serial e response responseLen s =
     radio_response H slotId ''setRadioCapabilityResponse''
       (responseRadioCapability H serial responseType e response responseLen) s"

text \<open>The interval is cut to 8 bits; \<open>lce_status\<close> is an unsigned \<open>char\<close> on this processor.\<close>

definition responseLceStatusInfo ::
  "hal \<Rightarrow> int \<Rightarrow> int \<Rightarrow> int \<Rightarrow> vdata option \<Rightarrow> nat \<Rightarrow> (radio_response_info \<times> hidl_arg list) option" where
  "responseLceStatusInfo H serial responseType e response responseLen =
     checked (response = None \<or> responseLen \<noteq> sizeof H C_RIL_LceStatusInfo) serial responseType e
       [ALceStatus 0 0]
       (case response of
          Some (VLceStatus r) \<Rightarrow> Some [ALceStatus (uint (ls_lce_status r)) (ucast (ls_actual_interval_ms r))]
        | _ \<Rightarrow> None)"

definition startLceServiceResponse :: response_function where
  "startLceServiceResponse H slotId responseType serial e response responseLen s =
     radio_response H slotId ''startLceServiceResponse''
       (responseLceStatusInfo H serial responseType e response responseLen) s"

definition stopLceServiceResponse :: response_function where
  "stopLceServiceResponse H slotId responseType serial e response responseLen s =
     radio_response H slotId ''stopLceServiceResponse''
       (responseLceStatusInfo H serial responseType e response responseLen) s"

definition pullLceDataResponse :: response_function where
  "pullLceDataResponse H slotId responseType serial e response responseLen s =
     radio_response H slotId ''pullLceDataResponse''
       (checked (response = None \<or> responseLen \<noteq> sizeof H C_RIL_LceDataInfo) serial responseType e
          [ALceData 0 0 False]
          (case response of Some (VLceData r) \<Rightarrow> Some [convertRilLceDataInfoToHal r] | _ \<Rightarrow> None)) s"

definition RIL_NUM_TX_POWER_LEVELS :: nat where "RIL_NUM_TX_POWER_LEVELS = 5"

text \<open>The structure handed out after a malformed response was never initialised.\<close>

definition getModemActivityInfoResponse :: response_function where
  "getModemActivityInfoResponse H slotId responseType serial e response responseLen s =
     radio_response H slotId ''getModemActivityInfoResponse''
       (checked (response = None \<or> responseLen \<noteq> sizeof H C_RIL_ActivityStatsInfo) serial responseType e
          [AActivity (uninit H 0) (uninit H 1) (map (\<lambda>i. uninit H (2 + i)) [0..<RIL_NUM_TX_POWER_LEVELS])
             (uninit H (2 + RIL_NUM_TX_POWER_LEVELS))]
          (case response of
             Some (VActivity r) \<Rightarrow> do {
               tx \<leftarrow> first_elems RIL_NUM_TX_POWER_LEVELS (at_tx_mode_time_ms r);
               Some [AActivity (at_sleep_mode_time_ms r) (at_idle_mode_time_ms r) tx (at_rx_mode_time_ms r)] }
           | _ \<Rightarrow> None)) s"

definition carrier_to_hal :: "RIL_Carrier \<Rightarrow> carrier" where
  "carrier_to_hal r =
     \<lparr>hv_mcc = convertCharPtrToHidlString (ca_mcc r), hv_mnc = convertCharPtrToHidlString (ca_mnc r),
      hv_matchType = ca_match_type r, hv_matchData = convertCharPtrToHidlString (ca_match_data r)\<rparr>"

definition getAllowedCarriersResponse :: response_function where
  "getAllowedCarriersResponse H slotId responseType serial e response responseLen s =
     radio_response H slotId ''getAllowedCarriersResponse''
       (let i = populateResponseInfo serial responseType e in
        if response = None then Some (i, [ABool True, ACarriers [] []])
        else if responseLen \<noteq> sizeof H C_RIL_CarrierRestrictions
        then Some (invalid_response e i, [ABool True, ACarriers [] []])
        else case response of
               Some (VCarriers r) \<Rightarrow>
                 let na = cr_len_allowed_carriers r; nx = cr_len_excluded_carriers r in
                 if na < 0 \<or> nx < 0 then None
                 else do {
                   allowed \<leftarrow> convert_array (Some \<circ> carrier_to_hal) (nat na) (cr_allowed_carriers r);
                   excluded \<leftarrow> convert_array (Some \<circ> carrier_to_hal) (nat nx) (cr_excluded_carriers r);
                   Some (i, [ABool (\<not> (0 < na \<or> 0 < nx)), ACarriers allowed excluded]) }
             | _ \<Rightarrow> None) s"

section \<open>Responses of version 1.1 and of the OEM hook\<close>

definition setCarrierInfoForImsiEncryptionResponse :: response_function where
  "setCarrierInfoForImsiEncryptionResponse H slotId responseType serial e response responseLen s =
     radio_response_1_1 H slotId ''setCarrierInfoForImsiEncryptionResponse''
       (Some (populateResponseInfo serial responseType e, [])) s"

definition setSimCardPowerResponse :: response_function where
  "setSimCardPowerResponse H slotId responseType serial e response responseLen s =
     (case radioService s slotId of
        None \<Rightarrow> None
      | Some v \<Rightarrow>
          if mRadioResponseV1_1 v \<noteq> None
          then radio_response_1_1 H slotId ''setSimCardPowerResponse_1_1''
                 (Some (populateResponseInfo serial responseType e, [])) s
          else radio_response H slotId ''setSimCardPowerResponse''
                 (Some (populateResponseInfo serial responseType e, [])) s)"

definition startNetworkScanResponse :: response_function where
  "startNetworkScanResponse H slotId responseType serial e response responseLen s =
     radio_response_1_1 H slotId ''startNetworkScanResponse''
       (Some (populateResponseInfo serial responseType e, [])) s"

definition stopNetworkScanResponse :: response_function where
  "stopNetworkScanResponse H slotId responseType serial e response responseLen s =
     radio_response_1_1 H slotId ''stopNetworkScanResponse''
       (Some (populateResponseInfo serial responseType e, [])) s"

definition startKeepaliveResponse :: response_function where
  "startKeepaliveResponse H slotId responseType serial e response responseLen s =
     radio_response_1_1 H slotId ''startKeepaliveResponse''
       (checked (response = None \<or> responseLen \<noteq> sizeof H C_KeepaliveStatus) serial responseType e
          [AKeepalive 0 0]
          (case response of Some (VKeepalive r) \<Rightarrow> Some [convertRilKeepaliveStatusToHal r] | _ \<Rightarrow> None)) s"

definition stopKeepaliveResponse :: response_function where
  "stopKeepaliveResponse H slotId responseType serial e response responseLen s =
     radio_response_1_1 H slotId ''stopKeepaliveResponse''
       (Some (populateResponseInfo serial responseType e, [])) s"

definition sendRequestRawResponse :: response_function where
  "sendRequestRawResponse H slotId responseType serial e response responseLen s =
     oem_response H slotId ''sendRequestRawResponse''
       (checked (response = None) serial responseType e [ABytes []]
          (case response of
             Some (VBytes bs) \<Rightarrow> map_option (\<lambda>xs. [ABytes xs]) (first_elems responseLen bs)
           | _ \<Rightarrow> if responseLen = 0 then Some [ABytes []] else None)) s"

definition sendRequestStringsResponse :: response_function where
  "sendRequestStringsResponse H slotId responseType serial e response responseLen s =
     oem_response H slotId ''sendRequestStringsResponse''
       (checked (bad_array H C_ptr response responseLen) serial responseType e [AStrings []]
         (let num = responseLen div sizeof H C_ptr in
          case response of
            Some (VStrs cs) \<Rightarrow> map_option (\<lambda>xs. [AStrings (map convertCharPtrToHidlString xs)]) (first_elems num cs)
          | _ \<Rightarrow> if num = 0 then Some [AStrings []] else None)) s"

end
