(* ===== verification/RespInd.thy ===== *)
theory RespInd
  imports RespStruct
begin

text \<open>
  The indication functions of \<open>libril/ril_service.cpp\<close>: they hand messages the vendor sends on its own to
  the client's indication object. A malformed message is dropped. The functions have the type of
  response functions; the serial and the error are not used.
\<close>

section \<open>Forms\<close>

definition convertIntToRadioIndicationType :: "int \<Rightarrow> indication_type" where
  "convertIntToRadioIndicationType indicationType =
     (if indicationType = RESPONSE_UNSOLICITED then UNSOLICITED else UNSOLICITED_ACK_EXP)"

text \<open>The arguments of the message: \<open>Some None\<close> when it is dropped.\<close>

definition radio_indication ::
  "hal \<Rightarrow> int \<Rightarrow> string \<Rightarrow> int \<Rightarrow> hidl_arg list option option \<Rightarrow> rsvc \<Rightarrow> (int \<times> rsvc) option" where
  "radio_indication H slotId mthd indicationType result s =
     (case Option.bind (radioService s slotId) mRadioIndication of
        None \<Rightarrow> Some (0, s)
      | Some c \<Rightarrow> do {
          args \<leftarrow> result;
          case args of
            None \<Rightarrow> Some (0, s)
          | Some xs \<Rightarrow>
              call_client H slotId True
                (IndicationCall c mthd (convertIntToRadioIndicationType indicationType) xs) s })"

definition drop_if :: "bool \<Rightarrow> hidl_arg list option \<Rightarrow> hidl_arg list option option" where
  "drop_if malformed args = (if malformed then Some None else map_option Some args)"

definition void_indication :: "string \<Rightarrow> response_function" where
  "void_indication mthd H slotId indicationType serial e response responseLen s =
     radio_indication H slotId mthd indicationType (Some (Some [])) s"

definition int_indication :: "string \<Rightarrow> (int \<Rightarrow> hidl_arg) \<Rightarrow> response_function" where
  "int_indication mthd arg H slotId indicationType serial e response responseLen s =
     radio_indication H slotId mthd indicationType
       (drop_if (response = None \<or> responseLen \<noteq> sizeof H C_int)
          (do { d \<leftarrow> response; n \<leftarrow> int_at d 0; Some [arg n] })) s"

definition string_indication :: "string \<Rightarrow> response_function" where
  "string_indication mthd H slotId indicationType serial e response responseLen s =
     radio_indication H slotId mthd indicationType
       (drop_if (response = None \<or> responseLen = 0)
          (map_option (\<lambda>c. [AString (convertCharPtrToHidlString c)]) (str_arg response))) s"

section \<open>Messages without data, with an integer or with a string\<close>

definition callStateChangedInd :: response_function where
  "callStateChangedInd = void_indication ''callStateChanged''"

definition networkStateChangedInd :: response_function where
  "networkStateChangedInd = void_indication ''networkStateChanged''"

definition newSmsOnSimInd :: response_function where
  "newSmsOnSimInd = int_indication ''newSmsOnSim'' AInt"

definition stkSessionEndInd :: response_function where
  "stkSessionEndInd = void_indication ''stkSessionEnd''"

definition stkProactiveCommandInd :: response_function where
  "stkProactiveCommandInd = string_indication ''stkProactiveCommand''"

definition stkEventNotifyInd :: response_function where
  "stkEventNotifyInd = string_indication ''stkEventNotify''"

definition stkCallSetupInd :: response_function where
  "stkCallSetupInd = int_indication ''stkCallSetup'' AInt"

definition simSmsStorageFullInd :: response_function where
  "simSmsStorageFullInd = void_indication ''simSmsStorageFull''"

definition simStatusChangedInd :: response_function where
  "simStatusChangedInd = void_indication ''simStatusChanged''"

definition cdmaRuimSmsStorageFullInd :: response_function where
  "cdmaRuimSmsStorageFullInd = void_indication ''cdmaRuimSmsStorageFull''"

definition restrictedStateChangedInd :: response_function where
  "restrictedStateChangedInd = int_indication ''restrictedStateChanged'' cast_arg"

definition enterEmergencyCallbackModeInd :: response_function where
  "enterEmergencyCallbackModeInd = void_indication ''enterEmergencyCallbackMode''"

definition cdmaOtaProvisionStatusInd :: response_function where
  "cdmaOtaProvisionStatusInd = int_indication ''cdmaOtaProvisionStatus'' cast_arg"

definition indicateRingbackToneInd :: response_function where
  "indicateRingbackToneInd = int_indication ''indicateRingbackTone'' (\<lambda>n. ABool (n \<noteq> 0))"

definition resendIncallMuteInd :: response_function where
  "resendIncallMuteInd = void_indication ''resendIncallMute''"

definition cdmaSubscriptionSourceChangedInd :: response_function where
  "cdmaSubscriptionSourceChangedInd = int_indication ''cdmaSubscriptionSourceChanged'' cast_arg"

definition cdmaPrlChangedInd :: response_function where
  "cdmaPrlChangedInd = int_indication ''cdmaPrlChanged'' AInt"

definition exitEmergencyCallbackModeInd :: response_function where
  "exitEmergencyCallbackModeInd = void_indication ''exitEmergencyCallbackMode''"

definition rilConnectedInd :: response_function where
  "rilConnectedInd = void_indication ''rilConnected''"

definition voiceRadioTechChangedInd :: response_function where
  "voiceRadioTechChangedInd = int_indication ''voiceRadioTechChanged'' cast_arg"

definition imsNetworkStateChangedInd :: response_function where
  "imsNetworkStateChangedInd = void_indication ''imsNetworkStateChanged''"

definition subscriptionStatusChangedInd :: response_function where
  "subscriptionStatusChangedInd = int_indication ''subscriptionStatusChanged'' (\<lambda>n. ABool (n \<noteq> 0))"

definition srvccStateNotifyInd :: response_function where
  "srvccStateNotifyInd = int_indication ''srvccStateNotify'' cast_arg"

definition stkCallControlAlphaNotifyInd :: response_function where
  "stkCallControlAlphaNotifyInd = string_indication ''stkCallControlAlphaNotify''"

definition modemResetInd :: response_function where
  "modemResetInd = string_indication ''modemReset''"

section \<open>Other messages\<close>

definition radioStateChangedInd :: response_function where
  "radioStateChangedInd H slotId indicationType serial e response responseLen s =
     radio_indication H slotId ''radioStateChanged'' indicationType
       (Some (Some [AEnum (Cast (onStateRequest H slotId))])) s"

text \<open>The first \<open>responseLen\<close> bytes of the message.\<close>

definition bytes_arg :: "vdata option \<Rightarrow> nat \<Rightarrow> u8 list option" where
  "bytes_arg response responseLen =
     (case response of Some (VBytes bs) \<Rightarrow> first_elems responseLen bs | _ \<Rightarrow> None)"

definition sms_pdu :: "hal \<Rightarrow> vdata option \<Rightarrow> nat \<Rightarrow> hidl_arg list option option" where
  "sms_pdu H response responseLen =
     (if response = None \<or> responseLen = 0 then Some None
      else map_option (\<lambda>bs. map_option (\<lambda>pdu. [ABytes pdu]) (convertHexStringToBytes H bs))
             (bytes_arg response responseLen))"

definition newSmsInd :: response_function where
  "newSmsInd H slotId indicationType serial e response responseLen s =
     radio_indication H slotId ''newSms'' indicationType (sms_pdu H response responseLen) s"

definition newSmsStatusReportInd :: response_function where
  "newSmsStatusReportInd H slotId indicationType serial e response responseLen s =
     radio_indication H slotId ''newSmsStatusReport'' indicationType (sms_pdu H response responseLen) s"

text \<open>\<open>atoi\<close> of the mode is called without a test for NULL.\<close>

definition onUssdInd :: response_function where
  "onUssdInd H slotId indicationType serial e response responseLen s =
     radio_indication H slotId ''onUssd'' indicationType
       (drop_if (response = None \<or> responseLen \<noteq> 2 * sizeof H C_ptr)
          (do { strings \<leftarrow> strs_of response; m \<leftarrow> entry_at strings 0; msg \<leftarrow> entry_at strings 1;
                c \<leftarrow> m; modeType \<leftarrow> atoi c;
                Some [AEnum (Cast modeType), AString (convertCharPtrToHidlString msg)] })) s"

text \<open>The caller keeps the time when the result is not 0.\<close>

definition nitzTimeReceivedInd :: response_function where
  "nitzTimeReceivedInd H slotId indicationType serial e response responseLen s =
     (if Option.bind (radioService s slotId) mRadioIndication = None then Some (-1, s)
      else radio_indication H slotId ''nitzTimeReceived'' indicationType
             (drop_if (response = None \<or> responseLen = 0)
                (map_option (\<lambda>c. [AString (convertCharPtrToHidlString c), AInt (nitzTimeReceived s slotId)])
                   (str_arg response))) s)"

definition currentSignalStrengthInd :: response_function where
  "currentSignalStrengthInd H slotId indicationType serial e response responseLen s =
     radio_indication H slotId ''currentSignalStrength'' indicationType
       (drop_if (response = None \<or> responseLen \<noteq> sizeof H C_RIL_SignalStrength_v10 \<and>
                 responseLen \<noteq> sizeof H C_RIL_SignalStrength_v8)
          (do { d \<leftarrow> response; g \<leftarrow> convertRilSignalStrengthToHal H d responseLen; Some [ASignal g] })) s"

definition dataCallListChangedInd :: response_function where
  "dataCallListChangedInd H slotId indicationType serial e response responseLen s =
     radio_indication H slotId ''dataCallListChanged'' indicationType
       (drop_if (response = None \<and> responseLen \<noteq> 0 \<or> \<not> data_call_length_ok H responseLen)
          (map_option (\<lambda>ds. [ADataCalls ds]) (convertRilDataCallListToHal H response responseLen))) s"

definition suppSvcNotifyInd :: response_function where
  "suppSvcNotifyInd H slotId indicationType serial e response responseLen s =
     radio_indication H slotId ''suppSvcNotify'' indicationType
       (drop_if (response = None \<or> responseLen \<noteq> sizeof H C_RIL_SuppSvcNotification)
          (case response of
             Some (VSuppSvc r) \<Rightarrow>
               Some [ASuppSvc (sn_notificationType r \<noteq> 0) (sn_code r) (sn_index r) (sn_type r)
                       (convertCharPtrToHidlString (sn_number r))]
           | _ \<Rightarrow> None)) s"

definition simRefreshInd :: response_function where
  "simRefreshInd H slotId indicationType serial e response responseLen s =
     radio_indication H slotId ''simRefresh'' indicationType
       (drop_if (response = None \<or> responseLen \<noteq> sizeof H C_RIL_SimRefreshResponse_v7)
          (case response of
             Some (VSimRefresh r) \<Rightarrow>
               Some [ASimRefresh (sf_result r) (sf_ef_id r) (convertCharPtrToHidlString (sf_aid r))]
           | _ \<Rightarrow> None)) s"

definition no_signal_info :: cdma_signal_info where
  "no_signal_info = \<lparr>hg_isPresent = False, hg_signalType = 0, hg_alertPitch = 0, hg_signal = 0\<rparr>"

definition callRingInd :: response_function where
  "callRingInd H slotId indicationType serial e response responseLen s =
     radio_indication H slotId ''callRing'' indicationType
       (if response = None \<or> responseLen = 0 then Some (Some [ABool True, ASignalInfo no_signal_info])
        else drop_if (responseLen \<noteq> sizeof H C_RIL_CDMA_SignalInfoRecord)
          (case response of
             Some (VSignalInfo r) \<Rightarrow> Some [ABool False, ASignalInfo (convertRilCdmaSignalInfoRecordToHal r)]
           | _ \<Rightarrow> None)) s"

text \<open>The digits that are announced, as far as the arrays go; a negative length of the data is a huge one.\<close>

definition cdma_sms_to_hal :: "hal \<Rightarrow> RIL_CDMA_SMS_Message \<Rightarrow> hidl_cdma_sms option" where
  "cdma_sms_to_hal H r =
     (if cd_uBearerDataLen r < 0 then None
      else do {
        digs \<leftarrow> first_elems (min (unat (cd_number_of_digits r)) (address_max H)) (cd_digits r);
        sub \<leftarrow> first_elems (min (unat (cd_sub_number_of_digits r)) (subaddress_max H)) (cd_subDigits r);
        bearer \<leftarrow> first_elems (min (nat (cd_uBearerDataLen r)) (bearer_data_max H)) (cd_aBearerData r);
        Some \<lparr>hs_teleserviceId = cd_uTeleserviceID r, hs_isServicePresent = (cd_bIsServicePresent r \<noteq> 0),
              hs_serviceCategory = cd_uServicecategory r, hs_digitMode = cd_digit_mode r,
              hs_numberMode = cd_number_mode r, hs_numberType = cd_number_type r, hs_numberPlan = cd_number_plan r,
              hs_digits = digs, hs_subaddressType = cd_subaddressType r, hs_odd = (cd_odd r \<noteq> 0),
              hs_subDigits = sub, hs_bearerData = bearer\<rparr> })"

definition cdmaNewSmsInd :: response_function where
  "cdmaNewSmsInd H slotId indicationType serial e response responseLen s =
     radio_indication H slotId ''cdmaNewSms'' indicationType
       (drop_if (response = None \<or> responseLen \<noteq> sizeof H C_RIL_CDMA_SMS_Message)
          (case response of
             Some (VCdmaSms r) \<Rightarrow> map_option (\<lambda>m. [ACdmaSms m]) (cdma_sms_to_hal H r)
           | _ \<Rightarrow> None)) s"

definition newBroadcastSmsInd :: response_function where
  "newBroadcastSmsInd H slotId indicationType serial e response responseLen s =
     radio_indication H slotId ''newBroadcastSms'' indicationType
       (drop_if (response = None \<or> responseLen = 0)
          (map_option (\<lambda>bs. [ABytes bs]) (bytes_arg response responseLen))) s"

definition call_waiting_to_hal :: "RIL_CDMA_CallWaiting_v6 \<Rightarrow> hidl_cdma_call_waiting" where
  "call_waiting_to_hal r =
     \<lparr>hx_number = convertCharPtrToHidlString (cw_number r), hx_numberPresentation = cw_numberPresentation r,
      hx_name = convertCharPtrToHidlString (cw_name r),
      hx_signalInfoRecord = convertRilCdmaSignalInfoRecordToHal (cw_signalInfoRecord r),
      hx_numberType = cw_number_type r, hx_numberPlan = cw_number_plan r\<rparr>"

definition cdmaCallWaitingInd :: response_function where
  "cdmaCallWaitingInd H slotId indicationType serial e response responseLen s =
     radio_indication H slotId ''cdmaCallWaiting'' indicationType
       (drop_if (response = None \<or> responseLen \<noteq> sizeof H C_RIL_CDMA_CallWaiting_v6)
          (case response of
             Some (VCallWaiting r) \<Rightarrow> Some [ACallWaiting (call_waiting_to_hal r)] | _ \<Rightarrow> None)) s"

section \<open>CDMA information records\<close>

definition CDMA_ALPHA_INFO_BUFFER_LENGTH :: nat where "CDMA_ALPHA_INFO_BUFFER_LENGTH = 64"
definition CDMA_NUMBER_INFO_BUFFER_LENGTH :: nat where "CDMA_NUMBER_INFO_BUFFER_LENGTH = 81"
definition RIL_CDMA_MAX_NUMBER_OF_INFO_RECS :: nat where "RIL_CDMA_MAX_NUMBER_OF_INFO_RECS = 10"

text \<open>
  \<open>string8\<close>: a copy of the first \<open>n\<close> bytes with a NUL, read as a string. \<open>None\<close> when the length is
  larger than the buffer or the copy has no memory.
\<close>

definition string8 :: "hal \<Rightarrow> nat \<Rightarrow> nat \<Rightarrow> u8 list \<Rightarrow> string option option" where
  "string8 H buffer_length n buf =
     (if buffer_length < n \<or> \<not> malloc_ok H (n + 1) then Some None
      else map_option (\<lambda>bs. Some (map (\<lambda>b. char_of (unat b)) (takeWhile (\<lambda>b. b \<noteq> 0) bs))) (first_elems n buf))"

definition number_to_hal :: "RIL_CDMA_NumberInfoRecord \<Rightarrow> string \<Rightarrow> cdma_info_number" where
  "number_to_hal r c =
     \<lparr>hn_number = hidl_string_of c, hn_numberType = ni_number_type r, hn_numberPlan = ni_number_plan r,
      hn_pi = ni_pi r, hn_si = ni_si r\<rparr>"

text \<open>One record; \<open>Some None\<close> drops the whole message, a mismatch of the union is undefined.\<close>

definition info_rec_to_hal :: "hal \<Rightarrow> RIL_CDMA_InformationRecord \<Rightarrow> cdma_information_record option option" where
  "info_rec_to_hal H r =
     (let nm = in_name r;
          c = \<lparr>hi_name = nm, hi_display = [], hi_number = [], hi_signal = [], hi_redir = [], hi_lineCtrl = [],
               hi_clir = [], hi_audioCtrl = []\<rparr>
      in if nm = 0 \<or> nm = 7
         then case in_rec r of
                RecDisplay d \<Rightarrow>
                  map_option (map_option (\<lambda>x. c\<lparr>hi_display := [hidl_string_of x]\<rparr>))
                    (string8 H CDMA_ALPHA_INFO_BUFFER_LENGTH (unat (di_alpha_len d)) (di_alpha_buf d))
              | _ \<Rightarrow> None
         else if nm = 1 \<or> nm = 2 \<or> nm = 3
         then case in_rec r of
                RecNumber n \<Rightarrow>
                  map_option (map_option (\<lambda>x. c\<lparr>hi_number := [number_to_hal n x]\<rparr>))
                    (string8 H CDMA_NUMBER_INFO_BUFFER_LENGTH (unat (ni_len n)) (ni_buf n))
              | _ \<Rightarrow> None
         else if nm = 4
         then case in_rec r of
                RecSignal g \<Rightarrow> Some (Some (c\<lparr>hi_signal := [convertRilCdmaSignalInfoRecordToHal g]\<rparr>))
              | _ \<Rightarrow> None
         else if nm = 5
         then case in_rec r of
                RecRedir n reason \<Rightarrow>
                  map_option (map_option (\<lambda>x. c\<lparr>hi_redir := [(number_to_hal n x, reason)]\<rparr>))
                    (string8 H CDMA_NUMBER_INFO_BUFFER_LENGTH (unat (ni_len n)) (ni_buf n))
              | _ \<Rightarrow> None
         else if nm = 6
         then case in_rec r of
                RecLineCtrl l \<Rightarrow>
                  Some (Some (c\<lparr>hi_lineCtrl :=
                    [\<lparr>hk_lineCtrlPolarityIncluded = lc_lineCtrlPolarityIncluded l, hk_lineCtrlToggle = lc_lineCtrlToggle l,
                      hk_lineCtrlReverse = lc_lineCtrlReverse l, hk_lineCtrlPowerDenial = lc_lineCtrlPowerDenial l\<rparr>]\<rparr>))
              | _ \<Rightarrow> None
         else if nm = 8
         then case in_rec r of RecClir x \<Rightarrow> Some (Some (c\<lparr>hi_clir := [x]\<rparr>)) | _ \<Rightarrow> None
         else if nm = 10
         then case in_rec r of RecAudioCtrl u d \<Rightarrow> Some (Some (c\<lparr>hi_audioCtrl := [(u, d)]\<rparr>)) | _ \<Rightarrow> None
         else Some None)"

text \<open>The loop returns at the first record that drops the message.\<close>

fun info_recs_to_hal :: "hal \<Rightarrow> RIL_CDMA_InformationRecord list \<Rightarrow> cdma_information_record list option option" where
  "info_recs_to_hal H [] = Some (Some [])"
| "info_recs_to_hal H (r # rs) = do {
     x \<leftarrow> info_rec_to_hal H r;
     case x of
       None \<Rightarrow> Some None
     | Some y \<Rightarrow> map_option (map_option ((#) y)) (info_recs_to_hal H rs) }"

definition cdmaInfoRecInd :: response_function where
  "cdmaInfoRecInd H slotId indicationType serial e response responseLen s =
     radio_indication H slotId ''cdmaInfoRec'' indicationType
       (if response = None \<or> responseLen \<noteq> sizeof H C_RIL_CDMA_InformationRecords then Some None
        else case response of
               Some (VInfoRecords r) \<Rightarrow> do {
                 rs \<leftarrow> first_elems (min (unat (in_numberOfInfoRecs r)) RIL_CDMA_MAX_NUMBER_OF_INFO_RECS) (in_infoRec r);
                 map_option (map_option (\<lambda>xs. [AInfoRecords xs])) (info_recs_to_hal H rs) }
             | _ \<Rightarrow> None) s"

section \<open>Lists, capabilities, supplementary services\<close>

definition cellInfoListInd :: response_function where
  "cellInfoListInd H slotId indicationType serial e response responseLen s =
     radio_indication H slotId ''cellInfoList'' indicationType
       (drop_if (bad_array H C_RIL_CellInfo_v12 response responseLen)
          (map_option (\<lambda>cs. [ACells cs]) (convertRilCellInfoListToHal H response responseLen))) s"

definition hardwareConfigChangedInd :: response_function where
  "hardwareConfigChangedInd H slotId indicationType serial e response responseLen s =
     radio_indication H slotId ''hardwareConfigChanged'' indicationType
       (drop_if (bad_array H C_RIL_HardwareConfig response responseLen)
          (map_option (\<lambda>cs. [AHardware cs]) (convertRilHardwareConfigListToHal H response responseLen))) s"

definition radioCapabilityIndicationInd :: response_function where
  "radioCapabilityIndicationInd H slotId indicationType serial e response responseLen s =
     radio_indication H slotId ''radioCapabilityIndication'' indicationType
       (drop_if (response = None \<or> responseLen \<noteq> sizeof H C_RIL_RadioCapability)
          (case response of
             Some (VCapability r) \<Rightarrow> map_option (\<lambda>c. [ACapability c]) (convertRilRadioCapabilityToHal r)
           | _ \<Rightarrow> None)) s"

definition SS_INFO_MAX :: nat where "SS_INFO_MAX = 4"
definition NUM_SERVICE_CLASSES :: int where "NUM_SERVICE_CLASSES = 7"
definition SS_INTERROGATION :: int where "SS_INTERROGATION = 2"

text \<open>The service types \<open>SS_CFU\<close> to \<open>SS_CF_ALL_CONDITIONAL\<close>.\<close>

definition isServiceTypeCfQuery :: "int \<Rightarrow> int \<Rightarrow> bool" where
  "isServiceTypeCfQuery serType reqType \<longleftrightarrow> reqType = SS_INTERROGATION \<and> serType \<in> {0, 1, 2, 3, 4, 5}"

definition supplementary_to_hal :: "RIL_StkCcUnsolSsResponse \<Rightarrow> stk_cc_unsol_ss option" where
  "supplementary_to_hal r =
     (let c = \<lparr>hs_serviceType = ss_serviceType r, hs_requestType = ss_requestType r,
               hs_teleserviceType = ss_teleserviceType r, hs_serviceClass = ss_serviceClass r,
               hs_result = ss_result r, hs_ssInfo = [], hs_cfData = []\<rparr>
      in if isServiceTypeCfQuery (ss_serviceType r) (ss_requestType r)
         then case ss_data r of
                SsCf num infos \<Rightarrow>
                  (let n = (if NUM_SERVICE_CLASSES < num then NUM_SERVICE_CLASSES else num)
                   in if n < 0 then None
                      else map_option (\<lambda>fs. c\<lparr>hs_cfData := [fs]\<rparr>)
                             (convert_array (Some \<circ> call_forward_to_hal) (nat n) infos))
              | SsInfo _ \<Rightarrow> None
         else case ss_data r of
                SsInfo xs \<Rightarrow> map_option (\<lambda>ys. c\<lparr>hs_ssInfo := [ys]\<rparr>) (first_elems SS_INFO_MAX xs)
              | SsCf _ _ \<Rightarrow> None)"

definition onSupplementaryServiceIndicationInd :: response_function where
  "onSupplementaryServiceIndicationInd H slotId indicationType serial e response responseLen s =
     radio_indication H slotId ''onSupplementaryServiceIndication'' indicationType
       (drop_if (response = None \<or> responseLen \<noteq> sizeof H C_RIL_StkCcUnsolSsResponse)
          (case response of
             Some (VSupplementary r) \<Rightarrow> map_option (\<lambda>x. [ASupplementary x]) (supplementary_to_hal r)
           | _ \<Rightarrow> None)) s"

definition lceDataInd :: response_function where
  "lceDataInd H slotId indicationType serial e response responseLen s =
     radio_indication H slotId ''lceData'' indicationType
       (drop_if (response = None \<or> responseLen \<noteq> sizeof H C_RIL_LceDataInfo)
          (case response of Some (VLceData r) \<Rightarrow> Some [convertRilLceDataInfoToHal r] | _ \<Rightarrow> None)) s"

definition pcoDataInd :: response_function where
  "pcoDataInd H slotId indicationType serial e response responseLen s =
     radio_indication H slotId ''pcoData'' indicationType
       (drop_if (response = None \<or> responseLen \<noteq> sizeof H C_RIL_PCO_Data)
          (case response of
             Some (VPco r) \<Rightarrow>
               (if pd_contents_length r < 0 then None
                else map_option (\<lambda>bs. [APco (pd_cid r) (convertCharPtrToHidlString (pd_bearer_proto r)) (pd_pco_id r) bs])
                       (first_elems (nat (pd_contents_length r)) (pd_contents r)))
           | _ \<Rightarrow> None)) s"

section \<open>Messages of version 1.1 and of the OEM hook\<close>

definition radio_indication_1_1 ::
  "hal \<Rightarrow> int \<Rightarrow> string \<Rightarrow> int \<Rightarrow> hidl_arg list option option \<Rightarrow> rsvc \<Rightarrow> (int \<times> rsvc) option" where
  "radio_indication_1_1 H slotId mthd indicationType result s =
     (case Option.bind (radioService s slotId) mRadioIndicationV1_1 of
        None \<Rightarrow> Some (0, s)
      | Some c \<Rightarrow> do {
          args \<leftarrow> result;
          case args of
            None \<Rightarrow> Some (0, s)
          | Some xs \<Rightarrow>
              call_client H slotId True
                (IndicationCall c mthd (convertIntToRadioIndicationType indicationType) xs) s })"

text \<open>The product of the number of cells and their size has 32 bits; the size of the result itself is not checked.\<close>

definition networkScanResultInd :: response_function where
  "networkScanResultInd H slotId indicationType serial e response responseLen s =
     radio_indication_1_1 H slotId ''networkScanResult'' indicationType
       (drop_if (response = None \<or> responseLen = 0)
          (case response of
             Some (VScanResult r) \<Rightarrow>
               map_option (\<lambda>cs. [AScanResult (nr_status r) (nr_error r) cs])
                 (convertRilCellInfoListToHal H (Some (VCells (nr_network_infos r)))
                    (unat (nr_network_infos_length r * of_nat (sizeof H C_RIL_CellInfo_v12))))
           | _ \<Rightarrow> None)) s"

definition carrierInfoForImsiEncryption :: response_function where
  "carrierInfoForImsiEncryption H slotId indicationType serial e response responseLen s =
     radio_indication_1_1 H slotId ''carrierInfoForImsiEncryption'' indicationType
       (drop_if (response = None \<or> responseLen = 0) (Some [])) s"

text \<open>The result of the cast is tested for a failed call, not for NULL.\<close>

definition keepaliveStatusInd :: response_function where
  "keepaliveStatusInd H slotId indicationType serial e response responseLen s =
     (case Option.bind (radioService s slotId) mRadioIndication of
        None \<Rightarrow> Some (0, s)
      | Some c \<Rightarrow>
          (case castIndication H (Some c) of
             None \<Rightarrow> Some (0, s)
           | Some radioIndicationV1_1 \<Rightarrow>
               if response = None \<or> responseLen \<noteq> sizeof H C_KeepaliveStatus then Some (0, s)
               else case response of
                      Some (VKeepalive r) \<Rightarrow>
                        (case radioIndicationV1_1 of
                           None \<Rightarrow> None
                         | Some c1 \<Rightarrow>
                             call_client H slotId True
                               (IndicationCall c1 ''keepaliveStatus'' (convertIntToRadioIndicationType indicationType)
                                  [convertRilKeepaliveStatusToHal r]) s)
                    | _ \<Rightarrow> None))"

definition oemHookRawInd :: response_function where
  "oemHookRawInd H slotId indicationType serial e response responseLen s =
     (if \<not> kOemHookEnabled H then Some (0, s)
      else case Option.bind (oemHookService s slotId) mOemHookIndication of
             None \<Rightarrow> Some (0, s)
           | Some c \<Rightarrow>
               if response = None \<or> responseLen = 0 then Some (0, s)
               else do {
                 bs \<leftarrow> bytes_arg response responseLen;
                 call_client H slotId False
                   (IndicationCall c ''oemHookRaw'' (convertIntToRadioIndicationType indicationType) [ABytes bs]) s })"

end
