(* ===== verification/RespTable.thy ===== *)
theory RespTable
  imports RespInd
begin

text \<open>
  All response functions by the name the dispatch tables of \<open>ril_commands.h\<close> and \<open>ril_unsol_commands.h\<close> use, and
  what they have in common: with a registered client a response makes exactly one call of the
  client's method of that name, whatever the vendor's response; without a client nothing happens.
\<close>

section \<open>Tables\<close>

text \<open>The functions that answer through \<open>mRadioResponse\<close>, those of version 1.1 and of the OEM hook, the indications.\<close>

definition radio_responses :: "(string \<times> response_function) list" where
  "radio_responses =
   [(''getIccCardStatusResponse'', getIccCardStatusResponse),
    (''supplyIccPinForAppResponse'', supplyIccPinForAppResponse),
    (''supplyIccPukForAppResponse'', supplyIccPukForAppResponse),
    (''supplyIccPin2ForAppResponse'', supplyIccPin2ForAppResponse),
    (''supplyIccPuk2ForAppResponse'', supplyIccPuk2ForAppResponse),
    (''changeIccPinForAppResponse'', changeIccPinForAppResponse),
    (''changeIccPin2ForAppResponse'', changeIccPin2ForAppResponse),
    (''supplyNetworkDepersonalizationResponse'', supplyNetworkDepersonalizationResponse),
    (''getCurrentCallsResponse'', getCurrentCallsResponse),
    (''dialResponse'', dialResponse),
    (''getIMSIForAppResponse'', getIMSIForAppResponse),
    (''hangupConnectionResponse'', hangupConnectionResponse),
    (''hangupWaitingOrBackgroundResponse'', hangupWaitingOrBackgroundResponse),
    (''hangupForegroundResumeBackgroundResponse'', hangupForegroundResumeBackgroundResponse),
    (''switchWaitingOrHoldingAndActiveResponse'', switchWaitingOrHoldingAndActiveResponse),
    (''conferenceResponse'', conferenceResponse),
    (''rejectCallResponse'', rejectCallResponse),
    (''getLastCallFailCauseResponse'', getLastCallFailCauseResponse),
    (''getSignalStrengthResponse'', getSignalStrengthResponse),
    (''getVoiceRegistrationStateResponse'', getVoiceRegistrationStateResponse),
    (''getDataRegistrationStateResponse'', getDataRegistrationStateResponse),
    (''getOperatorResponse'', getOperatorResponse),
    (''setRadioPowerResponse'', setRadioPowerResponse),
    (''sendDtmfResponse'', sendDtmfResponse),
    (''sendSmsResponse'', sendSmsResponse),
    (''sendSMSExpectMoreResponse'', sendSMSExpectMoreResponse),
    (''setupDataCallResponse'', setupDataCallResponse),
    (''iccIOForAppResponse'', iccIOForAppResponse),
    (''sendUssdResponse'', sendUssdResponse),
    (''cancelPendingUssdResponse'', cancelPendingUssdResponse),
    (''getClirResponse'', getClirResponse),
    (''setClirResponse'', setClirResponse),
    (''getCallForwardStatusResponse'', getCallForwardStatusResponse),
    (''setCallForwardResponse'', setCallForwardResponse),
    (''getCallWaitingResponse'', getCallWaitingResponse),
    (''setCallWaitingResponse'', setCallWaitingResponse),
    (''acknowledgeLastIncomingGsmSmsResponse'', acknowledgeLastIncomingGsmSmsResponse),
    (''acceptCallResponse'', acceptCallResponse),
    (''deactivateDataCallResponse'', deactivateDataCallResponse),
    (''getFacilityLockForAppResponse'', getFacilityLockForAppResponse),
    (''setFacilityLockForAppResponse'', setFacilityLockForAppResponse),
    (''setBarringPasswordResponse'', setBarringPasswordResponse),
    (''getNetworkSelectionModeResponse'', getNetworkSelectionModeResponse),
    (''setNetworkSelectionModeAutomaticResponse'', setNetworkSelectionModeAutomaticResponse),
    (''setNetworkSelectionModeManualResponse'', setNetworkSelectionModeManualResponse),
    (''getAvailableNetworksResponse'', getAvailableNetworksResponse),
    (''startDtmfResponse'', startDtmfResponse),
    (''stopDtmfResponse'', stopDtmfResponse),
    (''getBasebandVersionResponse'', getBasebandVersionResponse),
    (''separateConnectionResponse'', separateConnectionResponse),
    (''setMuteResponse'', setMuteResponse),
    (''getMuteResponse'', getMuteResponse),
    (''getClipResponse'', getClipResponse),
    (''getDataCallListResponse'', getDataCallListResponse),
    (''setSuppServiceNotificationsResponse'', setSuppServiceNotificationsResponse),
    (''deleteSmsOnSimResponse'', deleteSmsOnSimResponse),
    (''setBandModeResponse'', setBandModeResponse),
    (''writeSmsToSimResponse'', writeSmsToSimResponse),
    (''getAvailableBandModesResponse'', getAvailableBandModesResponse),
    (''sendEnvelopeResponse'', sendEnvelopeResponse),
    (''sendTerminalResponseToSimResponse'', sendTerminalResponseToSimResponse),
    (''handleStkCallSetupRequestFromSimResponse'', handleStkCallSetupRequestFromSimResponse),
    (''explicitCallTransferResponse'', explicitCallTransferResponse),
    (''setPreferredNetworkTypeResponse'', setPreferredNetworkTypeResponse),
    (''getPreferredNetworkTypeResponse'', getPreferredNetworkTypeResponse),
    (''getNeighboringCidsResponse'', getNeighboringCidsResponse),
    (''setLocationUpdatesResponse'', setLocationUpdatesResponse),
    (''setCdmaSubscriptionSourceResponse'', setCdmaSubscriptionSourceResponse),
    (''setCdmaRoamingPreferenceResponse'', setCdmaRoamingPreferenceResponse),
    (''getCdmaRoamingPreferenceResponse'', getCdmaRoamingPreferenceResponse),
    (''setTTYModeResponse'', setTTYModeResponse),
    (''getTTYModeResponse'', getTTYModeResponse),
    (''setPreferredVoicePrivacyResponse'', setPreferredVoicePrivacyResponse),
    (''getPreferredVoicePrivacyResponse'', getPreferredVoicePrivacyResponse),
    (''sendCDMAFeatureCodeResponse'', sendCDMAFeatureCodeResponse),
    (''sendBurstDtmfResponse'', sendBurstDtmfResponse),
    (''sendCdmaSmsResponse'', sendCdmaSmsResponse),
    (''acknowledgeLastIncomingCdmaSmsResponse'', acknowledgeLastIncomingCdmaSmsResponse),
    (''getGsmBroadcastConfigResponse'', getGsmBroadcastConfigResponse),
    (''setGsmBroadcastConfigResponse'', setGsmBroadcastConfigResponse),
    (''setGsmBroadcastActivationResponse'', setGsmBroadcastActivationResponse),
    (''getCdmaBroadcastConfigResponse'', getCdmaBroadcastConfigResponse),
    (''setCdmaBroadcastConfigResponse'', setCdmaBroadcastConfigResponse),
    (''setCdmaBroadcastActivationResponse'', setCdmaBroadcastActivationResponse),
    (''getCDMASubscriptionResponse'', getCDMASubscriptionResponse),
    (''writeSmsToRuimResponse'', writeSmsToRuimResponse),
    (''deleteSmsOnRuimResponse'', deleteSmsOnRuimResponse),
    (''getDeviceIdentityResponse'', getDeviceIdentityResponse),
    (''exitEmergencyCallbackModeResponse'', exitEmergencyCallbackModeResponse),
    (''getSmscAddressResponse'', getSmscAddressResponse),
    (''setSmscAddressResponse'', setSmscAddressResponse),
    (''reportSmsMemoryStatusResponse'', reportSmsMemoryStatusResponse),
    (''reportStkServiceIsRunningResponse'', reportStkServiceIsRunningResponse),
    (''getCdmaSubscriptionSourceResponse'', getCdmaSubscriptionSourceResponse),
    (''requestIsimAuthenticationResponse'', requestIsimAuthenticationResponse),
    (''acknowledgeIncomingGsmSmsWithPduResponse'', acknowledgeIncomingGsmSmsWithPduResponse),
    (''sendEnvelopeWithStatusResponse'', sendEnvelopeWithStatusResponse),
    (''getVoiceRadioTechnologyResponse'', getVoiceRadioTechnologyResponse),
    (''getCellInfoListResponse'', getCellInfoListResponse),
    (''setCellInfoListRateResponse'', setCellInfoListRateResponse),
    (''setInitialAttachApnResponse'', setInitialAttachApnResponse),
    (''getImsRegistrationStateResponse'', getImsRegistrationStateResponse),
    (''sendImsSmsResponse'', sendImsSmsResponse),
    (''iccTransmitApduBasicChannelResponse'', iccTransmitApduBasicChannelResponse),
    (''iccOpenLogicalChannelResponse'', iccOpenLogicalChannelResponse),
    (''iccCloseLogicalChannelResponse'', iccCloseLogicalChannelResponse),
    (''iccTransmitApduLogicalChannelResponse'', iccTransmitApduLogicalChannelResponse),
    (''nvReadItemResponse'', nvReadItemResponse),
    (''nvWriteItemResponse'', nvWriteItemResponse),
    (''nvWriteCdmaPrlResponse'', nvWriteCdmaPrlResponse),
    (''nvResetConfigResponse'', nvResetConfigResponse),
    (''setUiccSubscriptionResponse'', setUiccSubscriptionResponse),
    (''setDataAllowedResponse'', setDataAllowedResponse),
    (''getHardwareConfigResponse'', getHardwareConfigResponse),
    (''requestIccSimAuthenticationResponse'', requestIccSimAuthenticationResponse),
    (''setDataProfileResponse'', setDataProfileResponse),
    (''requestShutdownResponse'', requestShutdownResponse),
    (''getRadioCapabilityResponse'', getRadioCapabilityResponse),
    (''setRadioCapabilityResponse'', setRadioCapabilityResponse),
    (''startLceServiceResponse'', startLceServiceResponse),
    (''stopLceServiceResponse'', stopLceServiceResponse),
    (''pullLceDataResponse'', pullLceDataResponse),
    (''getModemActivityInfoResponse'', getModemActivityInfoResponse),
    (''setAllowedCarriersResponse'', setAllowedCarriersResponse),
    (''getAllowedCarriersResponse'', getAllowedCarriersResponse),
    (''sendDeviceStateResponse'', sendDeviceStateResponse),
    (''setIndicationFilterResponse'', setIndicationFilterResponse)]"

definition later_responses :: "(string \<times> response_function) list" where
  "later_responses =
   [(''setCarrierInfoForImsiEncryptionResponse'', setCarrierInfoForImsiEncryptionResponse),
    (''setSimCardPowerResponse'', setSimCardPowerResponse),
    (''startNetworkScanResponse'', startNetworkScanResponse),
    (''stopNetworkScanResponse'', stopNetworkScanResponse),
    (''startKeepaliveResponse'', startKeepaliveResponse),
    (''stopKeepaliveResponse'', stopKeepaliveResponse),
    (''sendRequestRawResponse'', sendRequestRawResponse),
    (''sendRequestStringsResponse'', sendRequestStringsResponse)]"

definition indications :: "(string \<times> string \<times> response_function) list" where
  "indications =
   [(''radioStateChangedInd'', ''radioStateChanged'', radioStateChangedInd),
    (''callStateChangedInd'', ''callStateChanged'', callStateChangedInd),
    (''networkStateChangedInd'', ''networkStateChanged'', networkStateChangedInd),
    (''newSmsInd'', ''newSms'', newSmsInd),
    (''newSmsStatusReportInd'', ''newSmsStatusReport'', newSmsStatusReportInd),
    (''newSmsOnSimInd'', ''newSmsOnSim'', newSmsOnSimInd),
    (''onUssdInd'', ''onUssd'', onUssdInd),
    (''nitzTimeReceivedInd'', ''nitzTimeReceived'', nitzTimeReceivedInd),
    (''currentSignalStrengthInd'', ''currentSignalStrength'', currentSignalStrengthInd),
    (''dataCallListChangedInd'', ''dataCallListChanged'', dataCallListChangedInd),
    (''suppSvcNotifyInd'', ''suppSvcNotify'', suppSvcNotifyInd),
    (''stkSessionEndInd'', ''stkSessionEnd'', stkSessionEndInd),
    (''stkProactiveCommandInd'', ''stkProactiveCommand'', stkProactiveCommandInd),
    (''stkEventNotifyInd'', ''stkEventNotify'', stkEventNotifyInd),
    (''stkCallSetupInd'', ''stkCallSetup'', stkCallSetupInd),
    (''simSmsStorageFullInd'', ''simSmsStorageFull'', simSmsStorageFullInd),
    (''simRefreshInd'', ''simRefresh'', simRefreshInd),
    (''callRingInd'', ''callRing'', callRingInd),
    (''simStatusChangedInd'', ''simStatusChanged'', simStatusChangedInd),
    (''cdmaNewSmsInd'', ''cdmaNewSms'', cdmaNewSmsInd),
    (''newBroadcastSmsInd'', ''newBroadcastSms'', newBroadcastSmsInd),
    (''cdmaRuimSmsStorageFullInd'', ''cdmaRuimSmsStorageFull'', cdmaRuimSmsStorageFullInd),
    (''restrictedStateChangedInd'', ''restrictedStateChanged'', restrictedStateChangedInd),
    (''enterEmergencyCallbackModeInd'', ''enterEmergencyCallbackMode'', enterEmergencyCallbackModeInd),
    (''cdmaCallWaitingInd'', ''cdmaCallWaiting'', cdmaCallWaitingInd),
    (''cdmaOtaProvisionStatusInd'', ''cdmaOtaProvisionStatus'', cdmaOtaProvisionStatusInd),
    (''cdmaInfoRecInd'', ''cdmaInfoRec'', cdmaInfoRecInd),
    (''indicateRingbackToneInd'', ''indicateRingbackTone'', indicateRingbackToneInd),
    (''resendIncallMuteInd'', ''resendIncallMute'', resendIncallMuteInd),
    (''cdmaSubscriptionSourceChangedInd'', ''cdmaSubscriptionSourceChanged'', cdmaSubscriptionSourceChangedInd),
    (''cdmaPrlChangedInd'', ''cdmaPrlChanged'', cdmaPrlChangedInd),
    (''exitEmergencyCallbackModeInd'', ''exitEmergencyCallbackMode'', exitEmergencyCallbackModeInd),
    (''rilConnectedInd'', ''rilConnected'', rilConnectedInd),
    (''voiceRadioTechChangedInd'', ''voiceRadioTechChanged'', voiceRadioTechChangedInd),
    (''cellInfoListInd'', ''cellInfoList'', cellInfoListInd),
    (''imsNetworkStateChangedInd'', ''imsNetworkStateChanged'', imsNetworkStateChangedInd),
    (''subscriptionStatusChangedInd'', ''subscriptionStatusChanged'', subscriptionStatusChangedInd),
    (''srvccStateNotifyInd'', ''srvccStateNotify'', srvccStateNotifyInd),
    (''hardwareConfigChangedInd'', ''hardwareConfigChanged'', hardwareConfigChangedInd),
    (''radioCapabilityIndicationInd'', ''radioCapabilityIndication'', radioCapabilityIndicationInd),
    (''onSupplementaryServiceIndicationInd'', ''onSupplementaryServiceIndication'', onSupplementaryServiceIndicationInd),
    (''stkCallControlAlphaNotifyInd'', ''stkCallControlAlphaNotify'', stkCallControlAlphaNotifyInd),
    (''lceDataInd'', ''lceData'', lceDataInd),
    (''pcoDataInd'', ''pcoData'', pcoDataInd),
    (''modemResetInd'', ''modemReset'', modemResetInd)]"

definition later_indications :: "(string \<times> response_function) list" where
  "later_indications =
   [(''networkScanResultInd'', networkScanResultInd),
    (''carrierInfoForImsiEncryption'', carrierInfoForImsiEncryption),
    (''keepaliveStatusInd'', keepaliveStatusInd),
    (''oemHookRawInd'', oemHookRawInd)]"

section \<open>What a response reports\<close>

definition info_ok :: "int \<Rightarrow> int \<Rightarrow> int \<Rightarrow> radio_response_info \<Rightarrow> bool" where
  "info_ok responseType serial e i \<longleftrightarrow>
     ri_type i = ri_type (populateResponseInfo serial responseType e) \<and> ri_serial i = serial \<and>
     (ri_error i = Cast e \<or> e = RIL_E_SUCCESS \<and> ri_error i = Named ''INVALID_RESPONSE'')"

text \<open>The row length of \<open>getAvailableNetworksResponse\<close> must not be 0 bytes: it is a divisor.\<close>

definition property_ok :: "hal \<Rightarrow> bool" where
  "property_ok H \<longleftrightarrow> (word_of_int (mqanelements H) * word_of_nat (sizeof H C_ptr) :: u32) \<noteq> 0"

definition answers_client :: "string \<Rightarrow> response_function \<Rightarrow> bool" where
  "answers_client mthd f \<longleftrightarrow>
     (\<forall>H slotId responseType serial e response responseLen s v.
        property_ok H \<and> radioService s slotId = Some v \<longrightarrow>
        (case mRadioResponse v of
           None \<Rightarrow> f H slotId responseType serial e response responseLen s = Some (0, s)
         | Some c \<Rightarrow>
             response \<noteq> None \<and> f H slotId responseType serial e response responseLen s = None \<or>
             (\<exists>info args. info_ok responseType serial e info \<and>
                f H slotId responseType serial e response responseLen s =
                  call_client H slotId True (ResponseCall c mthd info args) s)))"

definition result_ok ::
  "vdata option \<Rightarrow> int \<Rightarrow> int \<Rightarrow> int \<Rightarrow> (radio_response_info \<times> 'a) option \<Rightarrow> bool" where
  "result_ok response responseType serial e r \<longleftrightarrow>
     (case r of None \<Rightarrow> response \<noteq> None | Some (i, args) \<Rightarrow> info_ok responseType serial e i)"

lemma info_ok_populate [simp]: "info_ok t n e (populateResponseInfo n t e)"
  by (simp add: info_ok_def populateResponseInfo_def)

lemma info_ok_invalid [simp]: "info_ok t n e (invalid_response e (populateResponseInfo n t e))"
  by (simp add: info_ok_def populateResponseInfo_def invalid_response_def)

lemma result_ok_simps [simp]:
  "result_ok response t n e None \<longleftrightarrow> response \<noteq> None"
  "result_ok response t n e (Some (i, args)) \<longleftrightarrow> info_ok t n e i"
  by (simp_all add: result_ok_def)

lemma result_ok_map:
  "result_ok response t n e (map_option (\<lambda>(i, x). (i, g x)) r) \<longleftrightarrow> result_ok response t n e r"
  by (cases r) auto

lemma result_ok_pair:
  "info_ok t n e i \<Longrightarrow> result_ok response t n e (map_option (Pair i) a) \<longleftrightarrow> a \<noteq> None \<or> response \<noteq> None"
  by (cases a) auto

lemma result_ok_const:
  "info_ok t n e i \<Longrightarrow> result_ok response t n e (map_option (\<lambda>x. (i, g x)) a) \<longleftrightarrow> a \<noteq> None \<or> response \<noteq> None"
  by (cases a) auto

lemma result_ok_checked:
  "(\<not> bad \<Longrightarrow> response = None \<Longrightarrow> a \<noteq> None) \<Longrightarrow> result_ok response t n e (checked bad n t e d a)"
  by (auto simp: checked_def Let_def result_ok_pair)

lemma answers_clientI:
  assumes "\<And>H slotId t n e response responseLen s.
      f H slotId t n e response responseLen s = radio_response H slotId mthd (r H t n e response responseLen) s"
    and "\<And>H t n e response responseLen.
      property_ok H \<Longrightarrow> result_ok response t n e (r H t n e response responseLen)"
  shows "answers_client mthd f"
  unfolding answers_client_def
proof (intro allI impI, elim conjE)
  fix H slotId t n e response responseLen and s :: rsvc and v
  assume P: "property_ok H" and v: "radioService s slotId = Some v"
  from assms(2) [OF P, of response t n e responseLen]
  show "case mRadioResponse v of
          None \<Rightarrow> f H slotId t n e response responseLen s = Some (0, s)
        | Some c \<Rightarrow>
            response \<noteq> None \<and> f H slotId t n e response responseLen s = None \<or>
            (\<exists>info args. info_ok t n e info \<and>
               f H slotId t n e response responseLen s = call_client H slotId True (ResponseCall c mthd info args) s)"
    by (cases "r H t n e response responseLen")
       (auto simp: assms(1) radio_response_def v result_ok_def split: option.split)
qed

lemma answers_clientD:
  assumes "answers_client mthd f" "property_ok H" "radioService s slotId = Some v"
  shows "mRadioResponse v = None \<Longrightarrow> f H slotId t n e response len s = Some (0, s)"
    and "mRadioResponse v = Some c \<Longrightarrow>
      response \<noteq> None \<and> f H slotId t n e response len s = None \<or>
      (\<exists>info args. info_ok t n e info \<and>
         f H slotId t n e response len s = call_client H slotId True (ResponseCall c mthd info args) s)"
proof -
  have *: "case mRadioResponse v of
      None \<Rightarrow> f H slotId t n e response len s = Some (0, s)
    | Some c \<Rightarrow>
        response \<noteq> None \<and> f H slotId t n e response len s = None \<or>
        (\<exists>info args. info_ok t n e info \<and>
           f H slotId t n e response len s = call_client H slotId True (ResponseCall c mthd info args) s)"
    using assms unfolding answers_client_def by blast
  show "mRadioResponse v = None \<Longrightarrow> f H slotId t n e response len s = Some (0, s)"
    using * by simp
  show "mRadioResponse v = Some c \<Longrightarrow>
      response \<noteq> None \<and> f H slotId t n e response len s = None \<or>
      (\<exists>info args. info_ok t n e info \<and>
         f H slotId t n e response len s = call_client H slotId True (ResponseCall c mthd info args) s)"
    using * by simp
qed

section \<open>The forms\<close>

lemma responseInt_ok: "result_ok response t n e (responseInt H n t e response len)"
  by (auto simp: responseInt_def Let_def result_ok_pair split: option.split)

lemma responseIntOrEmpty_ok: "result_ok response t n e (responseIntOrEmpty H n t e response len)"
  by (auto simp: responseIntOrEmpty_def Let_def result_ok_pair split: option.split)

lemma makeSendSmsResult_ok: "result_ok response t n e (makeSendSmsResult H n t e response len)"
  by (auto simp: makeSendSmsResult_def Let_def split: option.split vdata.split)

lemma responseIccIo_ok: "result_ok response t n e (responseIccIo H n t e response len)"
  by (auto simp: responseIccIo_def Let_def split: option.split vdata.split)

lemma forms_answer:
  "answers_client m (void_response m)"
  "answers_client m (int_or_empty_response m arg)"
  "answers_client m (int_response m arg)"
  "answers_client m (string_response m)"
  "answers_client m (icc_io_response m)"
  "answers_client m (send_sms_response m)"
proof -
  show "answers_client m (void_response m)"
    by (rule answers_clientI, rule void_response_def) simp
  show "answers_client m (int_or_empty_response m arg)"
    by (rule answers_clientI, rule int_or_empty_response_def) (simp add: result_ok_map responseIntOrEmpty_ok)
  show "answers_client m (int_response m arg)"
    by (rule answers_clientI, rule int_response_def) (simp add: result_ok_map responseInt_ok)
  show "answers_client m (string_response m)"
    by (rule answers_clientI, rule string_response_def) (auto simp: result_ok_const str_arg_def)
  show "answers_client m (icc_io_response m)"
    by (rule answers_clientI, rule icc_io_response_def) (simp add: result_ok_map responseIccIo_ok)
  show "answers_client m (send_sms_response m)"
    by (rule answers_clientI, rule send_sms_response_def) (simp add: result_ok_map makeSendSmsResult_ok)
qed

section \<open>The structured responses\<close>

lemma bad_array_None: "\<not> bad_array H t None len \<Longrightarrow> len = 0"
  by (simp add: bad_array_def)

lemma strings_checked_ok: "result_ok response t n e (strings_checked H k n t e response len)"
  unfolding strings_checked_def by (rule result_ok_checked) simp

lemma ints_checked_ok: "result_ok response t n e (ints_checked bad n t e response k d a)"
  unfolding ints_checked_def by (rule result_ok_checked) simp

lemma convertRilDataCallListToHal_None:
  "convertRilDataCallListToHal H None 0 \<noteq> None"
  by (simp add: convertRilDataCallListToHal_def)

lemmas converters_None = convertRilDataCallListToHal_None convertRilCellInfoListToHal_def
  convertRilHardwareConfigListToHal_def

lemma capability_ok: "result_ok response t n e (responseRadioCapability H n t e response len)"
  unfolding responseRadioCapability_def by (rule result_ok_checked) simp

lemma lce_status_ok: "result_ok response t n e (responseLceStatusInfo H n t e response len)"
  unfolding responseLceStatusInfo_def by (rule result_ok_checked) simp

lemma structured_answer_1:
  "answers_client ''getIccCardStatusResponse'' getIccCardStatusResponse"
  "answers_client ''getCurrentCallsResponse'' getCurrentCallsResponse"
  "answers_client ''getLastCallFailCauseResponse'' getLastCallFailCauseResponse"
  "answers_client ''getSignalStrengthResponse'' getSignalStrengthResponse"
  "answers_client ''getVoiceRegistrationStateResponse'' getVoiceRegistrationStateResponse"
  "answers_client ''getDataRegistrationStateResponse'' getDataRegistrationStateResponse"
  "answers_client ''getOperatorResponse'' getOperatorResponse"
  "answers_client ''setupDataCallResponse'' setupDataCallResponse"
  "answers_client ''getClirResponse'' getClirResponse"
  "answers_client ''getCallForwardStatusResponse'' getCallForwardStatusResponse"
  "answers_client ''getCallWaitingResponse'' getCallWaitingResponse"
  "answers_client ''getNetworkSelectionModeResponse'' getNetworkSelectionModeResponse"
  "answers_client ''getAvailableNetworksResponse'' getAvailableNetworksResponse"
  "answers_client ''getMuteResponse'' getMuteResponse"
  "answers_client ''getDataCallListResponse'' getDataCallListResponse"
  "answers_client ''getAvailableBandModesResponse'' getAvailableBandModesResponse"
proof -
  show "answers_client ''getIccCardStatusResponse'' getIccCardStatusResponse"
    by (rule answers_clientI [OF getIccCardStatusResponse_def]) (auto simp: Let_def result_ok_const split: option.split vdata.split if_splits)
  show "answers_client ''getCurrentCallsResponse'' getCurrentCallsResponse"
    by (rule answers_clientI [OF getCurrentCallsResponse_def result_ok_checked]) (auto dest: bad_array_None)
  show "answers_client ''getLastCallFailCauseResponse'' getLastCallFailCauseResponse"
    by (rule answers_clientI [OF getLastCallFailCauseResponse_def]) (auto simp: Let_def result_ok_const split: option.split vdata.split)
  show "answers_client ''getSignalStrengthResponse'' getSignalStrengthResponse"
    by (rule answers_clientI [OF getSignalStrengthResponse_def result_ok_checked]) (auto)
  show "answers_client ''getVoiceRegistrationStateResponse'' getVoiceRegistrationStateResponse"
    by (rule answers_clientI [OF getVoiceRegistrationStateResponse_def]) (auto simp: Let_def intro!: result_ok_checked)
  show "answers_client ''getDataRegistrationStateResponse'' getDataRegistrationStateResponse"
    by (rule answers_clientI [OF getDataRegistrationStateResponse_def]) (auto simp: Let_def intro!: result_ok_checked)
  show "answers_client ''getOperatorResponse'' getOperatorResponse"
    by (rule answers_clientI [OF getOperatorResponse_def strings_checked_ok])
  show "answers_client ''setupDataCallResponse'' setupDataCallResponse"
    by (rule answers_clientI [OF setupDataCallResponse_def]) (auto simp: Let_def split: option.split vdata.split list.split)
  show "answers_client ''getClirResponse'' getClirResponse"
    by (rule answers_clientI [OF getClirResponse_def ints_checked_ok])
  show "answers_client ''getCallForwardStatusResponse'' getCallForwardStatusResponse"
    by (rule answers_clientI [OF getCallForwardStatusResponse_def result_ok_checked]) (auto dest: bad_array_None)
  show "answers_client ''getCallWaitingResponse'' getCallWaitingResponse"
    by (rule answers_clientI [OF getCallWaitingResponse_def ints_checked_ok])
  show "answers_client ''getNetworkSelectionModeResponse'' getNetworkSelectionModeResponse"
    by (rule answers_clientI [OF getNetworkSelectionModeResponse_def ints_checked_ok])
  show "answers_client ''getAvailableNetworksResponse'' getAvailableNetworksResponse"
    by (rule answers_clientI [OF getAvailableNetworksResponse_def]) (auto simp: Let_def property_ok_def unat_eq_0 split: Option.bind_splits)
  show "answers_client ''getMuteResponse'' getMuteResponse"
    by (rule answers_clientI [OF getMuteResponse_def ints_checked_ok])
  show "answers_client ''getDataCallListResponse'' getDataCallListResponse"
    by (rule answers_clientI [OF getDataCallListResponse_def result_ok_checked]) (auto simp: converters_None)
  show "answers_client ''getAvailableBandModesResponse'' getAvailableBandModesResponse"
    by (rule answers_clientI [OF getAvailableBandModesResponse_def result_ok_checked]) (auto dest: bad_array_None)
qed

lemma structured_answer_2:
  "answers_client ''getNeighboringCidsResponse'' getNeighboringCidsResponse"
  "answers_client ''getPreferredVoicePrivacyResponse'' getPreferredVoicePrivacyResponse"
  "answers_client ''getGsmBroadcastConfigResponse'' getGsmBroadcastConfigResponse"
  "answers_client ''getCdmaBroadcastConfigResponse'' getCdmaBroadcastConfigResponse"
  "answers_client ''getCDMASubscriptionResponse'' getCDMASubscriptionResponse"
  "answers_client ''getDeviceIdentityResponse'' getDeviceIdentityResponse"
  "answers_client ''getCellInfoListResponse'' getCellInfoListResponse"
  "answers_client ''getImsRegistrationStateResponse'' getImsRegistrationStateResponse"
  "answers_client ''iccOpenLogicalChannelResponse'' iccOpenLogicalChannelResponse"
  "answers_client ''getHardwareConfigResponse'' getHardwareConfigResponse"
  "answers_client ''getRadioCapabilityResponse'' getRadioCapabilityResponse"
  "answers_client ''setRadioCapabilityResponse'' setRadioCapabilityResponse"
  "answers_client ''startLceServiceResponse'' startLceServiceResponse"
  "answers_client ''stopLceServiceResponse'' stopLceServiceResponse"
  "answers_client ''pullLceDataResponse'' pullLceDataResponse"
  "answers_client ''getModemActivityInfoResponse'' getModemActivityInfoResponse"
  "answers_client ''getAllowedCarriersResponse'' getAllowedCarriersResponse"
proof -
  show "answers_client ''getNeighboringCidsResponse'' getNeighboringCidsResponse"
    by (rule answers_clientI [OF getNeighboringCidsResponse_def result_ok_checked]) (auto dest: bad_array_None)
  show "answers_client ''getPreferredVoicePrivacyResponse'' getPreferredVoicePrivacyResponse"
    by (rule answers_clientI [OF getPreferredVoicePrivacyResponse_def ints_checked_ok])
  show "answers_client ''getGsmBroadcastConfigResponse'' getGsmBroadcastConfigResponse"
    by (rule answers_clientI [OF getGsmBroadcastConfigResponse_def result_ok_checked]) (auto dest: bad_array_None)
  show "answers_client ''getCdmaBroadcastConfigResponse'' getCdmaBroadcastConfigResponse"
    by (rule answers_clientI [OF getCdmaBroadcastConfigResponse_def result_ok_checked]) (auto dest: bad_array_None)
  show "answers_client ''getCDMASubscriptionResponse'' getCDMASubscriptionResponse"
    by (rule answers_clientI [OF getCDMASubscriptionResponse_def strings_checked_ok])
  show "answers_client ''getDeviceIdentityResponse'' getDeviceIdentityResponse"
    by (rule answers_clientI [OF getDeviceIdentityResponse_def strings_checked_ok])
  show "answers_client ''getCellInfoListResponse'' getCellInfoListResponse"
    by (rule answers_clientI [OF getCellInfoListResponse_def result_ok_checked]) (auto simp: converters_None dest: bad_array_None)
  show "answers_client ''getImsRegistrationStateResponse'' getImsRegistrationStateResponse"
    by (rule answers_clientI [OF getImsRegistrationStateResponse_def ints_checked_ok])
  show "answers_client ''iccOpenLogicalChannelResponse'' iccOpenLogicalChannelResponse"
    by (rule answers_clientI [OF iccOpenLogicalChannelResponse_def]) (auto simp: Let_def split: option.split Option.bind_splits)
  show "answers_client ''getHardwareConfigResponse'' getHardwareConfigResponse"
    by (rule answers_clientI [OF getHardwareConfigResponse_def result_ok_checked]) (auto simp: converters_None dest: bad_array_None)
  show "answers_client ''getRadioCapabilityResponse'' getRadioCapabilityResponse"
    by (rule answers_clientI [OF getRadioCapabilityResponse_def capability_ok])
  show "answers_client ''setRadioCapabilityResponse'' setRadioCapabilityResponse"
    by (rule answers_clientI [OF setRadioCapabilityResponse_def capability_ok])
  show "answers_client ''startLceServiceResponse'' startLceServiceResponse"
    by (rule answers_clientI [OF startLceServiceResponse_def lce_status_ok])
  show "answers_client ''stopLceServiceResponse'' stopLceServiceResponse"
    by (rule answers_clientI [OF stopLceServiceResponse_def lce_status_ok])
  show "answers_client ''pullLceDataResponse'' pullLceDataResponse"
    by (rule answers_clientI [OF pullLceDataResponse_def result_ok_checked]) (auto)
  show "answers_client ''getModemActivityInfoResponse'' getModemActivityInfoResponse"
    by (rule answers_clientI [OF getModemActivityInfoResponse_def result_ok_checked]) (auto)
  show "answers_client ''getAllowedCarriersResponse'' getAllowedCarriersResponse"
    by (rule answers_clientI [OF getAllowedCarriersResponse_def]) (auto simp: Let_def split: option.split vdata.split Option.bind_splits)
qed

lemmas response_defs =
  supplyIccPinForAppResponse_def supplyIccPukForAppResponse_def supplyIccPin2ForAppResponse_def
  supplyIccPuk2ForAppResponse_def changeIccPinForAppResponse_def changeIccPin2ForAppResponse_def
  supplyNetworkDepersonalizationResponse_def dialResponse_def getIMSIForAppResponse_def
  hangupConnectionResponse_def hangupWaitingOrBackgroundResponse_def hangupForegroundResumeBackgroundResponse_def
  switchWaitingOrHoldingAndActiveResponse_def conferenceResponse_def rejectCallResponse_def
  setRadioPowerResponse_def sendDtmfResponse_def sendSmsResponse_def
  sendSMSExpectMoreResponse_def iccIOForAppResponse_def sendUssdResponse_def
  cancelPendingUssdResponse_def setClirResponse_def setCallForwardResponse_def
  setCallWaitingResponse_def acknowledgeLastIncomingGsmSmsResponse_def acceptCallResponse_def
  deactivateDataCallResponse_def getFacilityLockForAppResponse_def setFacilityLockForAppResponse_def
  setBarringPasswordResponse_def setNetworkSelectionModeAutomaticResponse_def setNetworkSelectionModeManualResponse_def
  startDtmfResponse_def stopDtmfResponse_def getBasebandVersionResponse_def
  separateConnectionResponse_def setMuteResponse_def getClipResponse_def
  setSuppServiceNotificationsResponse_def deleteSmsOnSimResponse_def setBandModeResponse_def
  writeSmsToSimResponse_def sendEnvelopeResponse_def sendTerminalResponseToSimResponse_def
  handleStkCallSetupRequestFromSimResponse_def explicitCallTransferResponse_def setPreferredNetworkTypeResponse_def
  getPreferredNetworkTypeResponse_def setLocationUpdatesResponse_def setCdmaSubscriptionSourceResponse_def
  setCdmaRoamingPreferenceResponse_def getCdmaRoamingPreferenceResponse_def setTTYModeResponse_def
  getTTYModeResponse_def setPreferredVoicePrivacyResponse_def sendCDMAFeatureCodeResponse_def
  sendBurstDtmfResponse_def sendCdmaSmsResponse_def acknowledgeLastIncomingCdmaSmsResponse_def
  setGsmBroadcastConfigResponse_def setGsmBroadcastActivationResponse_def setCdmaBroadcastConfigResponse_def
  setCdmaBroadcastActivationResponse_def writeSmsToRuimResponse_def deleteSmsOnRuimResponse_def
  exitEmergencyCallbackModeResponse_def getSmscAddressResponse_def setSmscAddressResponse_def
  reportSmsMemoryStatusResponse_def reportStkServiceIsRunningResponse_def getCdmaSubscriptionSourceResponse_def
  requestIsimAuthenticationResponse_def acknowledgeIncomingGsmSmsWithPduResponse_def sendEnvelopeWithStatusResponse_def
  getVoiceRadioTechnologyResponse_def setCellInfoListRateResponse_def setInitialAttachApnResponse_def
  sendImsSmsResponse_def iccTransmitApduBasicChannelResponse_def iccCloseLogicalChannelResponse_def
  iccTransmitApduLogicalChannelResponse_def nvReadItemResponse_def nvWriteItemResponse_def
  nvWriteCdmaPrlResponse_def nvResetConfigResponse_def setUiccSubscriptionResponse_def
  setDataAllowedResponse_def requestIccSimAuthenticationResponse_def setDataProfileResponse_def
  requestShutdownResponse_def setAllowedCarriersResponse_def sendDeviceStateResponse_def
  setIndicationFilterResponse_def

lemma hangup_foreground_answer:
  "answers_client ''hangupWaitingOrBackgroundResponse'' hangupForegroundResumeBackgroundResponse"
  by (simp only: hangupForegroundResumeBackgroundResponse_def forms_answer)

lemma radio_responses_answer:
  "\<forall>(name, f) \<in> set radio_responses.
     name \<noteq> ''hangupForegroundResumeBackgroundResponse'' \<longrightarrow> answers_client name f"
  unfolding radio_responses_def list.set Set.ball_simps prod.case
  by (simp only: structured_answer_1 structured_answer_2 response_defs forms_answer simp_thms)

section \<open>Indications\<close>

text \<open>
  An indication makes at most one call, of the client's method, with the type of the indication; a
  malformed one is dropped.
\<close>

definition informs_client :: "string \<Rightarrow> response_function \<Rightarrow> bool" where
  "informs_client mthd f \<longleftrightarrow>
     (\<forall>H slotId indicationType serial e response responseLen s.
        (case Option.bind (radioService s slotId) mRadioIndication of
           None \<Rightarrow> (\<exists>r. f H slotId indicationType serial e response responseLen s = Some (r, s))
         | Some c \<Rightarrow>
             response \<noteq> None \<and> f H slotId indicationType serial e response responseLen s = None \<or>
             f H slotId indicationType serial e response responseLen s = Some (0, s) \<or>
             (\<exists>args. f H slotId indicationType serial e response responseLen s =
                call_client H slotId True
                  (IndicationCall c mthd (convertIntToRadioIndicationType indicationType) args) s)))"

lemma informs_clientI:
  assumes "\<And>H slotId t n e response responseLen s.
      f H slotId t n e response responseLen s = radio_indication H slotId mthd t (r H slotId t e response responseLen s) s"
    and "\<And>H slotId t e responseLen s. r H slotId t e None responseLen s \<noteq> None"
  shows "informs_client mthd f"
  unfolding informs_client_def
proof (intro allI)
  fix H slotId t n e response responseLen and s :: rsvc
  from assms(2) [of H slotId t e responseLen s]
  show "case Option.bind (radioService s slotId) mRadioIndication of
          None \<Rightarrow> \<exists>r. f H slotId t n e response responseLen s = Some (r, s)
        | Some c \<Rightarrow>
            response \<noteq> None \<and> f H slotId t n e response responseLen s = None \<or>
            f H slotId t n e response responseLen s = Some (0, s) \<or>
            (\<exists>args. f H slotId t n e response responseLen s =
               call_client H slotId True (IndicationCall c mthd (convertIntToRadioIndicationType t) args) s)"
    by (cases "r H slotId t e response responseLen s"; cases response)
       (auto simp: assms(1) radio_indication_def split: option.split)
qed

lemma informs_client_silent:
  assumes "informs_client mthd f" "Option.bind (radioService s slotId) mRadioIndication = None"
  shows "\<exists>r. f H slotId t n e response len s = Some (r, s)"
proof -
  have "case Option.bind (radioService s slotId) mRadioIndication of
           None \<Rightarrow> (\<exists>r. f H slotId t n e response len s = Some (r, s))
         | Some c \<Rightarrow>
             response \<noteq> None \<and> f H slotId t n e response len s = None \<or>
             f H slotId t n e response len s = Some (0, s) \<or>
             (\<exists>args. f H slotId t n e response len s =
                call_client H slotId True
                  (IndicationCall c mthd (convertIntToRadioIndicationType t) args) s)"
    using assms(1) unfolding informs_client_def by blast
  then show ?thesis by (simp add: assms(2))
qed

lemma drop_if_None: "(\<not> bad \<Longrightarrow> a \<noteq> None) \<Longrightarrow> drop_if bad a \<noteq> None"
  by (simp add: drop_if_def)

lemma indication_forms:
  "informs_client m (void_indication m)"
  "informs_client m (int_indication m arg)"
  "informs_client m (string_indication m)"
proof -
  show "informs_client m (void_indication m)"
    by (rule informs_clientI [OF void_indication_def]) simp
  show "informs_client m (int_indication m arg)"
    by (rule informs_clientI [OF int_indication_def drop_if_None]) simp
  show "informs_client m (string_indication m)"
    by (rule informs_clientI [OF string_indication_def drop_if_None]) simp
qed

lemma structured_inform:
  "informs_client ''radioStateChanged'' radioStateChangedInd"
  "informs_client ''newSms'' newSmsInd"
  "informs_client ''newSmsStatusReport'' newSmsStatusReportInd"
  "informs_client ''onUssd'' onUssdInd"
  "informs_client ''currentSignalStrength'' currentSignalStrengthInd"
  "informs_client ''dataCallListChanged'' dataCallListChangedInd"
  "informs_client ''suppSvcNotify'' suppSvcNotifyInd"
  "informs_client ''simRefresh'' simRefreshInd"
  "informs_client ''callRing'' callRingInd"
  "informs_client ''cdmaNewSms'' cdmaNewSmsInd"
  "informs_client ''newBroadcastSms'' newBroadcastSmsInd"
  "informs_client ''cdmaCallWaiting'' cdmaCallWaitingInd"
  "informs_client ''cdmaInfoRec'' cdmaInfoRecInd"
  "informs_client ''cellInfoList'' cellInfoListInd"
  "informs_client ''hardwareConfigChanged'' hardwareConfigChangedInd"
  "informs_client ''radioCapabilityIndication'' radioCapabilityIndicationInd"
  "informs_client ''onSupplementaryServiceIndication'' onSupplementaryServiceIndicationInd"
  "informs_client ''lceData'' lceDataInd"
  "informs_client ''pcoData'' pcoDataInd"
proof -
  show "informs_client ''radioStateChanged'' radioStateChangedInd"
    by (rule informs_clientI [OF radioStateChangedInd_def]) (simp)
  show "informs_client ''newSms'' newSmsInd"
    by (rule informs_clientI [OF newSmsInd_def]) (simp add: sms_pdu_def)
  show "informs_client ''newSmsStatusReport'' newSmsStatusReportInd"
    by (rule informs_clientI [OF newSmsStatusReportInd_def]) (simp add: sms_pdu_def)
  show "informs_client ''onUssd'' onUssdInd"
    by (rule informs_clientI [OF onUssdInd_def drop_if_None]) (simp)
  show "informs_client ''currentSignalStrength'' currentSignalStrengthInd"
    by (rule informs_clientI [OF currentSignalStrengthInd_def drop_if_None]) (simp)
  show "informs_client ''dataCallListChanged'' dataCallListChangedInd"
    by (rule informs_clientI [OF dataCallListChangedInd_def drop_if_None]) (auto simp: converters_None)
  show "informs_client ''suppSvcNotify'' suppSvcNotifyInd"
    by (rule informs_clientI [OF suppSvcNotifyInd_def drop_if_None]) (simp)
  show "informs_client ''simRefresh'' simRefreshInd"
    by (rule informs_clientI [OF simRefreshInd_def drop_if_None]) (simp)
  show "informs_client ''callRing'' callRingInd"
    by (rule informs_clientI [OF callRingInd_def]) (simp)
  show "informs_client ''cdmaNewSms'' cdmaNewSmsInd"
    by (rule informs_clientI [OF cdmaNewSmsInd_def drop_if_None]) (simp)
  show "informs_client ''newBroadcastSms'' newBroadcastSmsInd"
    by (rule informs_clientI [OF newBroadcastSmsInd_def drop_if_None]) (simp)
  show "informs_client ''cdmaCallWaiting'' cdmaCallWaitingInd"
    by (rule informs_clientI [OF cdmaCallWaitingInd_def drop_if_None]) (simp)
  show "informs_client ''cdmaInfoRec'' cdmaInfoRecInd"
    by (rule informs_clientI [OF cdmaInfoRecInd_def]) (simp)
  show "informs_client ''cellInfoList'' cellInfoListInd"
    by (rule informs_clientI [OF cellInfoListInd_def drop_if_None]) (auto simp: converters_None dest: bad_array_None)
  show "informs_client ''hardwareConfigChanged'' hardwareConfigChangedInd"
    by (rule informs_clientI [OF hardwareConfigChangedInd_def drop_if_None]) (auto simp: converters_None dest: bad_array_None)
  show "informs_client ''radioCapabilityIndication'' radioCapabilityIndicationInd"
    by (rule informs_clientI [OF radioCapabilityIndicationInd_def drop_if_None]) (simp)
  show "informs_client ''onSupplementaryServiceIndication'' onSupplementaryServiceIndicationInd"
    by (rule informs_clientI [OF onSupplementaryServiceIndicationInd_def drop_if_None]) (simp)
  show "informs_client ''lceData'' lceDataInd"
    by (rule informs_clientI [OF lceDataInd_def drop_if_None]) (simp)
  show "informs_client ''pcoData'' pcoDataInd"
    by (rule informs_clientI [OF pcoDataInd_def drop_if_None]) (simp)
qed

lemma nitz_informs: "informs_client ''nitzTimeReceived'' nitzTimeReceivedInd"
  by (auto simp: informs_client_def nitzTimeReceivedInd_def radio_indication_def drop_if_def str_arg_def
      split: option.split vdata.split)

lemmas indication_defs =
  callStateChangedInd_def networkStateChangedInd_def newSmsOnSimInd_def
  stkSessionEndInd_def stkProactiveCommandInd_def stkEventNotifyInd_def
  stkCallSetupInd_def simSmsStorageFullInd_def simStatusChangedInd_def
  cdmaRuimSmsStorageFullInd_def restrictedStateChangedInd_def enterEmergencyCallbackModeInd_def
  cdmaOtaProvisionStatusInd_def indicateRingbackToneInd_def resendIncallMuteInd_def
  cdmaSubscriptionSourceChangedInd_def cdmaPrlChangedInd_def exitEmergencyCallbackModeInd_def
  rilConnectedInd_def voiceRadioTechChangedInd_def imsNetworkStateChangedInd_def
  subscriptionStatusChangedInd_def srvccStateNotifyInd_def stkCallControlAlphaNotifyInd_def
  modemResetInd_def

lemma indications_inform: "\<forall>(name, mthd, f) \<in> set indications. informs_client mthd f"
  unfolding indications_def list.set Set.ball_simps prod.case
  by (simp only: structured_inform nitz_informs indication_defs indication_forms simp_thms)

end
