(* ===== verification/RespProps.thy ===== *)
theory RespProps
  imports RespTable RilProps
begin

text \<open>
  The properties of the response half of the radio service, and of its composition with the daemon of
  \<open>libril/ril.cpp\<close>: the effects of the daemon that call the service are carried out by the functions
  of \<open>RespTable\<close>.
\<close>

section \<open>The daemon and the service together\<close>

text \<open>The function a table row names.\<close>

definition response_named :: "string \<Rightarrow> response_function option" where
  "response_named =
     map_of (radio_responses @ later_responses @ map (\<lambda>(name, _, f). (name, f)) indications @ later_indications)"

text \<open>
  A call from the daemon into the service. \<open>view\<close> is what the vendor's buffer holds; the length handed
  on is that of the buffer.
\<close>

definition deliver :: "hal \<Rightarrow> (u8 list \<Rightarrow> vdata) \<Rightarrow> effect \<Rightarrow> rsvc \<Rightarrow> (int \<times> rsvc) option" where
  "deliver H view x s =
     (case x of
        Respond name slotId t tok e data \<Rightarrow>
          (case response_named name of
             None \<Rightarrow> None
           | Some f \<Rightarrow>
               f H slotId t tok e (map_option view data) (case data of None \<Rightarrow> 0 | Some b \<Rightarrow> length b) s)
      | AcknowledgeRequest slotId serial \<Rightarrow> map_option (Pair 0) (acknowledgeRequest H slotId serial s)
      | SetNitzTimeReceived slotId t \<Rightarrow> Some (0, setNitzTimeReceived slotId t s)
      | _ \<Rightarrow> Some (0, s))"

text \<open>
  The client's method for a row: the one of the row's name, but for the row of hanging up the foreground call.
\<close>

definition client_method :: "string \<Rightarrow> string" where
  "client_method name =
     (if name = ''hangupForegroundResumeBackgroundResponse'' then ''hangupWaitingOrBackgroundResponse'' else name)"

text \<open>What the daemon relies on: a table of functions, each of which answers the client by the method of its row.\<close>

locale response_table =
  fixes table :: "(string \<times> response_function) list"
  assumes row_answers: "(name, f) \<in> set table \<Longrightarrow> answers_client (client_method name) f"
begin

lemma found_answers:
  assumes "map_of table name = Some f" "property_ok H" "radioService s slotId = Some v" "mRadioResponse v = Some c"
  shows "response \<noteq> None \<and> f H slotId t n e response len s = None \<or>
    (\<exists>info args. info_ok t n e info \<and>
       f H slotId t n e response len s = call_client H slotId True (ResponseCall c (client_method name) info args) s)"
  by (rule answers_clientD(2) [OF row_answers [OF map_of_SomeD [OF assms(1)]] assms(2-4)])

lemma row_silent:
  assumes "(name, f) \<in> set table" "property_ok H" "radioService s slotId = Some v" "mRadioResponse v = None"
  shows "f H slotId t n e response len s = Some (0, s)"
  by (rule answers_clientD(1) [OF row_answers [OF assms(1)] assms(2-4)])

end

interpretation radio: response_table radio_responses
proof
  fix name f
  assume row: "(name, f) \<in> set radio_responses"
  show "answers_client (client_method name) f"
  proof (cases "name = ''hangupForegroundResumeBackgroundResponse''")
    case True
    with row have "f = hangupForegroundResumeBackgroundResponse" by (simp add: radio_responses_def)
    then show ?thesis using True hangup_foreground_answer by (simp add: client_method_def)
  qed (use row radio_responses_answer in \<open>auto simp: client_method_def\<close>)
qed

lemma response_named_row:
  assumes "name \<in> fst ` set radio_responses"
  obtains f where "response_named name = Some f" "map_of radio_responses name = Some f"
proof -
  from assms have "map_of radio_responses name \<noteq> None" by (simp add: map_of_eq_None_iff)
  then obtain f where "map_of radio_responses name = Some f" by blast
  then show thesis by (intro that [of f]) (auto simp: response_named_def map_add_Some_iff)
qed

text \<open>The rows whose function hands no data over, as that of dialing.\<close>

definition void_row :: "string \<Rightarrow> bool" where
  "void_row name \<longleftrightarrow> response_named name = Some (void_response (client_method name))"

lemma dial_void: "void_row ''dialResponse''"
  by (simp add: void_row_def response_named_def radio_responses_def client_method_def dialResponse_def)

lemma hangup_foreground_void: "void_row ''hangupForegroundResumeBackgroundResponse''"
  by (simp add: void_row_def response_named_def radio_responses_def client_method_def hangupForegroundResumeBackgroundResponse_def)

lemmas later_response_defs = setCarrierInfoForImsiEncryptionResponse_def setSimCardPowerResponse_def startNetworkScanResponse_def
  stopNetworkScanResponse_def startKeepaliveResponse_def stopKeepaliveResponse_def

section \<open>Properties\<close>


text \<open>A 32 bit processor, a client that is alive, and one slot with a client at the addresses 1 to 4.\<close>

definition ilp32 :: "ctype \<Rightarrow> nat" where
  "ilp32 t =
     (case t of
        C_int \<Rightarrow> 4 | C_ptr \<Rightarrow> 4 | C_RIL_CardStatus_v6 \<Rightarrow> 280 | C_RIL_LastCallFailCauseInfo \<Rightarrow> 8
      | C_RIL_SMS_Response \<Rightarrow> 12 | C_RIL_SIM_IO_Response \<Rightarrow> 12 | C_RIL_Data_Call_Response_v6 \<Rightarrow> 36
      | C_RIL_Data_Call_Response_v9 \<Rightarrow> 40 | C_RIL_Data_Call_Response_v11 \<Rightarrow> 44 | C_RIL_HardwareConfig \<Rightarrow> 136
      | C_RIL_RadioCapability \<Rightarrow> 84 | C_RIL_LceStatusInfo \<Rightarrow> 8 | C_RIL_LceDataInfo \<Rightarrow> 8
      | C_RIL_ActivityStatsInfo \<Rightarrow> 32 | C_RIL_CarrierRestrictions \<Rightarrow> 16 | C_KeepaliveStatus \<Rightarrow> 8
      | C_RIL_SignalStrength_v8 \<Rightarrow> 52 | C_RIL_SignalStrength_v10 \<Rightarrow> 56
      | C_RIL_VoiceRegistrationStateResponse \<Rightarrow> 56 | C_RIL_DataRegistrationStateResponse \<Rightarrow> 44
      | C_RIL_CellInfo_v12 \<Rightarrow> 72 | C_RIL_SuppSvcNotification \<Rightarrow> 20 | C_RIL_SimRefreshResponse_v7 \<Rightarrow> 12
      | C_RIL_CDMA_SignalInfoRecord \<Rightarrow> 4 | C_RIL_CDMA_SMS_Message \<Rightarrow> 400 | C_RIL_CDMA_CallWaiting_v6 \<Rightarrow> 24
      | C_RIL_CDMA_InformationRecords \<Rightarrow> 964 | C_RIL_StkCcUnsolSsResponse \<Rightarrow> 192 | C_RIL_PCO_Data \<Rightarrow> 20)"

definition hal0 :: hal where
  "hal0 = \<lparr>sizeof = ilp32, reached = (\<lambda>_. True), other_threads = (\<lambda>s. s), vendor_version = 12,
     onStateRequest = (\<lambda>_. 10), castResponse = Some, castIndication = Some, mqanelements = 5,
     kOemHookEnabled = True, old_mnc_format = False, malloc_ok = (\<lambda>_. True), uninit = (\<lambda>_. 0),
     address_max = 36, subaddress_max = 36, bearer_data_max = 255\<rparr>"

definition svc_with :: "addr option \<Rightarrow> addr option \<Rightarrow> rsvc" where
  "svc_with resp ind = \<lparr>radioService = (\<lambda>i. if i = 0 then Some \<lparr>mRadioResponse = resp, mRadioIndication = ind,
       mRadioResponseV1_1 = None, mRadioIndicationV1_1 = None\<rparr> else None),
     oemHookService = (\<lambda>_. None), mCounterRadio = (\<lambda>_. 1), mCounterOemHook = (\<lambda>_. 0),
     nitzTimeReceived = (\<lambda>_. 0), sent = []\<rparr>"

lemma hal0_simps [simp]: "property_ok hal0" "sizeof hal0 = ilp32" "castIndication hal0 = Some"
  by (simp_all add: property_ok_def hal0_def ilp32_def)

lemma svc_with_simps [simp]:
  "radioService (svc_with resp ind) 0 = Some \<lparr>mRadioResponse = resp, mRadioIndication = ind,
       mRadioResponseV1_1 = None, mRadioIndicationV1_1 = None\<rparr>"
  "sent (svc_with resp ind) = []" "mCounterRadio (svc_with resp ind) 0 = 1"
  by (simp_all add: svc_with_def)

lemma dial_in_table: "''dialResponse'' \<in> fst ` set radio_responses"
  by (rule image_eqI [of _ _ "(''dialResponse'', dialResponse)"]) (simp_all add: radio_responses_def)


text \<open>
  C7. The callbacks of a client whose process has died are dropped: after a call that did not reach it,
  and with no other thread registering in between, the slot has no callbacks, its counter has moved,
  and from then on every response and every indication of the radio interface, of version 1.0 and 1.1, does nothing for
  this slot until a client registers again. The client of the OEM hook is another one and stays.
\<close>

theorem dead_client_dropped:
  assumes "property_ok H" "radioService s slotId = Some v" "\<not> reached H (sent s @ [call])"
    and "other_threads H (s\<lparr>sent := sent s @ [call]\<rparr>) = s\<lparr>sent := sent s @ [call]\<rparr>"
  shows "\<exists>s'. call_client H slotId True call s = Some (0, s') \<and> sent s' = sent s @ [call] \<and>
    radioService s' slotId = Some (v\<lparr>mRadioResponse := None, mRadioIndication := None,
      mRadioResponseV1_1 := None, mRadioIndicationV1_1 := None\<rparr>) \<and>
    mCounterRadio s' slotId = mCounterRadio s slotId + 1 \<and> oemHookService s' = oemHookService s \<and>
    (\<forall>(name, f) \<in> set (radio_responses @ later_responses). name \<notin> {''sendRequestRawResponse'', ''sendRequestStringsResponse''} \<longrightarrow>
       (\<forall>t n e response len. f H slotId t n e response len s' = Some (0, s'))) \<and>
    (\<forall>(name, f) \<in> set (map (\<lambda>(name, _, f). (name, f)) indications @ later_indications). name \<noteq> ''oemHookRawInd'' \<longrightarrow>
       (\<forall>t n e response len. \<exists>r. f H slotId t n e response len s' = Some (r, s')))"
proof -
  define w where "w = v\<lparr>mRadioResponse := None, mRadioIndication := None,
      mRadioResponseV1_1 := None, mRadioIndicationV1_1 := None\<rparr>"
  define s' where "s' = s\<lparr>sent := sent s @ [call], radioService := (radioService s)(slotId \<mapsto> w),
      mCounterRadio := (mCounterRadio s)(slotId := mCounterRadio s slotId + 1)\<rparr>"
  have w: "mRadioResponse w = None" "mRadioIndication w = None" "mRadioResponseV1_1 w = None" "mRadioIndicationV1_1 w = None"
    by (simp_all add: w_def)
  have s': "radioService s' slotId = Some w" "sent s' = sent s @ [call]"
    "mCounterRadio s' slotId = mCounterRadio s slotId + 1" "oemHookService s' = oemHookService s" by (simp_all add: s'_def)
  have call: "call_client H slotId True call s = Some (0, s')"
    using assms(2-4) by (simp add: call_client_def transact_def checkReturnStatus_def s'_def w_def)
  have later: "\<forall>(name, f) \<in> set later_responses. name \<notin> {''sendRequestRawResponse'', ''sendRequestStringsResponse''} \<longrightarrow>
       (\<forall>t n e response len. f H slotId t n e response len s' = Some (0, s'))"
    by (simp add: later_responses_def later_response_defs radio_response_1_1_def radio_response_def s'(1) w)
  have later_ind: "\<forall>(name, f) \<in> set later_indications. name \<noteq> ''oemHookRawInd'' \<longrightarrow>
       (\<forall>t n e response len. \<exists>r. f H slotId t n e response len s' = Some (r, s'))"
    by (simp add: later_indications_def networkScanResultInd_def carrierInfoForImsiEncryption_def keepaliveStatusInd_def
        radio_indication_1_1_def s'(1) w)
  have responses: "f H slotId t n e response len s' = Some (0, s')"
    if "(name, f) \<in> set radio_responses" for name f t n e response len
    by (rule radio.row_silent [OF that assms(1) s'(1) w(1)])
  have inds: "\<exists>r. f H slotId t n e response len s' = Some (r, s')"
    if "(name, mthd, f) \<in> set indications" for name mthd f t n e response len
    by (rule informs_client_silent [of mthd]) (use indications_inform that w(2) s'(1) in auto)
  have "\<forall>(name, f) \<in> set (radio_responses @ later_responses). name \<notin> {''sendRequestRawResponse'', ''sendRequestStringsResponse''} \<longrightarrow>
       (\<forall>t n e response len. f H slotId t n e response len s' = Some (0, s'))"
    using responses later unfolding set_append ball_Un by blast
  moreover have "\<forall>(name, f) \<in> set (map (\<lambda>(name, _, f). (name, f)) indications @ later_indications). name \<noteq> ''oemHookRawInd'' \<longrightarrow>
       (\<forall>t n e response len. \<exists>r. f H slotId t n e response len s' = Some (r, s'))"
    unfolding set_append ball_Un using inds later_ind by fastforce
  ultimately show ?thesis using call s' unfolding w_def [symmetric] by blast
qed

theorem dead_client_dropped_witness:
  "\<exists>s'. call_client (hal0\<lparr>reached := \<lambda>_. False\<rparr>) 0 True (AcknowledgeCall 1 7) (svc_with (Some 1) (Some 2)) = Some (0, s') \<and>
     Option.bind (radioService s' 0) mRadioResponse = None \<and> mCounterRadio s' 0 = 2 \<and> sent s' = [AcknowledgeCall 1 7]"
proof -
  let ?H = "hal0\<lparr>reached := \<lambda>_. False\<rparr>"
  have "property_ok ?H" "other_threads ?H S = S" for S
    using hal0_simps(1) by (simp_all add: property_ok_def hal0_def)
  from dead_client_dropped [OF this(1) svc_with_simps(1) _ this(2), of "Some 1" "Some 2" "AcknowledgeCall 1 7"]
  show ?thesis by auto
qed

text \<open>What other threads may do meanwhile: clients register, for any slot.\<close>

fun register_all :: "hal \<Rightarrow> (int \<times> addr option \<times> addr option) list \<Rightarrow> rsvc \<Rightarrow> rsvc option" where
  "register_all H [] s = Some s"
| "register_all H ((slotId, resp, ind) # rs) s = do { s1 \<leftarrow> set_radio_callbacks H slotId resp ind s; register_all H rs s1 }"

lemma register_all_counter:
  "register_all H rs s = Some s' \<Longrightarrow>
     mCounterRadio s' slotId = mCounterRadio s slotId + of_nat (length (filter (\<lambda>r. fst r = slotId) rs))"
proof (induction H rs s rule: register_all.induct)
  case (2 H sl resp ind rs s)
  from 2(2) obtain s1 where s1: "set_radio_callbacks H sl resp ind s = Some s1" "register_all H rs s1 = Some s'"
    by (auto split: Option.bind_splits)
  from s1(1) have "mCounterRadio s1 slotId = mCounterRadio s slotId + (if sl = slotId then 1 else 0)"
    by (auto simp: set_radio_callbacks_def Let_def split: option.splits)
  with 2(1) [OF s1] show ?case by simp
qed simp

text \<open>
  C8. A client that registers while the callbacks of a dead one are being dropped keeps its registration:
  when other threads registered callbacks for the slot while \<open>checkReturnStatus\<close> had released the
  lock (fewer than \<open>2 ^ 32\<close> times), it leaves the state as they made it.
\<close>

theorem registration_survives:
  assumes "register_all H rs s = Some (other_threads H s)"
    and "0 < length (filter (\<lambda>r. fst r = slotId) rs)" "length (filter (\<lambda>r. fst r = slotId) rs) < 2 ^ 32"
  shows "checkReturnStatus H slotId False True s = Some (other_threads H s)"
proof -
  let ?n = "length (filter (\<lambda>r. fst r = slotId) rs)"
  have "(of_nat ?n :: u32) \<noteq> 0"
  proof
    assume "(of_nat ?n :: u32) = 0"
    then have "unat (of_nat ?n :: u32) = 0" by simp
    with assms(2,3) show False by (simp add: unat_of_nat)
  qed
  with register_all_counter [OF assms(1), of slotId]
  have "mCounterRadio (other_threads H s) slotId \<noteq> mCounterRadio s slotId" by simp
  then show ?thesis by (simp add: checkReturnStatus_def Let_def)
qed

theorem registration_survives_witness:
  "\<exists>s'. set_radio_callbacks hal0 0 (Some 8) (Some 9) (svc_with (Some 1) None) = Some s' \<and>
     checkReturnStatus (hal0\<lparr>other_threads := \<lambda>_. s'\<rparr>) 0 False True (svc_with (Some 1) None) = Some s' \<and>
     map_option mRadioResponse (radioService s' 0) = Some (Some 8)"
proof -
  obtain s' where s': "set_radio_callbacks hal0 0 (Some 8) (Some 9) (svc_with (Some 1) None) = Some s'"
    "map_option mRadioResponse (radioService s' 0) = Some (Some 8)"
    by (simp add: set_radio_callbacks_def Let_def)
  let ?H = "hal0\<lparr>other_threads := \<lambda>_. s'\<rparr>"
  have "set_radio_callbacks ?H 0 (Some 8) (Some 9) (svc_with (Some 1) None) = Some s'"
    using s'(1) by (simp add: set_radio_callbacks_def)
  then have "register_all ?H [(0, Some 8, Some 9)] (svc_with (Some 1) None) = Some (other_threads ?H (svc_with (Some 1) None))"
    by simp
  from registration_survives [OF this, of 0] s' show ?thesis by auto
qed

text \<open>
  The response to hanging up the foreground call is sent to the wrong method: the request's row names
  \<open>hangupForegroundResumeBackgroundResponse\<close>, and the function of that name calls the
  client's \<open>hangupWaitingOrBackgroundResponse\<close>, whatever the vendor answers.
\<close>

theorem hangup_foreground_misrouted:
  assumes "radioService s slotId = Some v" "mRadioResponse v = Some c"
  shows "responseFunction (s_commands ! nat RIL_REQUEST_HANGUP_FOREGROUND_RESUME_BACKGROUND) =
      Some ''hangupForegroundResumeBackgroundResponse'' \<and>
    deliver H view (Respond ''hangupForegroundResumeBackgroundResponse'' slotId t serial e data) s =
      call_client H slotId True
        (ResponseCall c ''hangupWaitingOrBackgroundResponse'' (populateResponseInfo serial t e) []) s"
proof -
  have "map_of radio_responses ''hangupForegroundResumeBackgroundResponse'' =
      Some hangupForegroundResumeBackgroundResponse"
    by (simp add: radio_responses_def)
  then have "response_named ''hangupForegroundResumeBackgroundResponse'' = Some hangupForegroundResumeBackgroundResponse"
    by (simp add: response_named_def map_add_Some_iff)
  moreover have "responseFunction (s_commands ! nat RIL_REQUEST_HANGUP_FOREGROUND_RESUME_BACKGROUND) =
      Some ''hangupForegroundResumeBackgroundResponse''"
    by (simp add: s_commands_def RIL_REQUEST_HANGUP_FOREGROUND_RESUME_BACKGROUND_def cmd_def)
  ultimately show ?thesis
    using assms by (simp add: deliver_def hangupForegroundResumeBackgroundResponse_def void_response_def radio_response_def)
qed

theorem hangup_foreground_misrouted_witness:
  "deliver hal0 (\<lambda>_. VInts []) (Respond ''hangupForegroundResumeBackgroundResponse'' 0 0 7 0 None) (svc_with (Some 1) None) =
     call_client hal0 0 True
       (ResponseCall 1 ''hangupWaitingOrBackgroundResponse'' (populateResponseInfo 7 0 0) []) (svc_with (Some 1) None)"
  using hangup_foreground_misrouted [OF svc_with_simps(1), where c = 1 and H = hal0] by simp

text \<open>
  A well-formed keepalive status crashes the daemon for a client of version 1.0: the cast of its
  indication object succeeds with NULL, and only a failed cast is tested.
\<close>

theorem keepalive_status_crashes:
  assumes "radioService s slotId = Some v" "mRadioIndication v = Some c" "castIndication H (Some c) = Some None"
    and "responseLen = sizeof H C_KeepaliveStatus"
  shows "keepaliveStatusInd H slotId t serial e (Some (VKeepalive k)) responseLen s = None"
  using assms by (simp add: keepaliveStatusInd_def)

theorem keepalive_status_crashes_witness:
  "keepaliveStatusInd (hal0\<lparr>castIndication := \<lambda>_. Some None\<rparr>) 0 1 0 0
     (Some (VKeepalive \<lparr>ks_sessionHandle = 1, ks_code = 0\<rparr>)) 8 (svc_with None (Some 2)) = None"
  by (rule keepalive_status_crashes [OF svc_with_simps(1)]) (simp_all add: hal0_def ilp32_def)

text \<open>
  A NITZ time that does not reach a dead client is lost: the indication function reports success for
  every registered client, so the daemon does not keep the time for the next client.
\<close>

theorem nitz_lost_with_client:
  assumes "radioService s slotId = Some v" "mRadioIndication v = Some c" "\<And>calls. \<not> reached H calls"
    and "other_threads H = id" "responseLen \<noteq> 0"
  shows "\<exists>s'. nitzTimeReceivedInd H slotId t serial e (Some (VChars c1)) responseLen s = Some (0, s') \<and>
    Option.bind (radioService s' slotId) mRadioIndication = None \<and>
    (\<forall>en data r. response_ret en = 0 \<longrightarrow>
       keep_nitz en RIL_UNSOL_NITZ_TIME_RECEIVED data r = (True, r))"
  using assms
  by (simp add: nitzTimeReceivedInd_def radio_indication_def drop_if_def str_arg_def call_client_def transact_def
      checkReturnStatus_def Let_def keep_nitz_def)

theorem nitz_lost_with_client_witness:
  "\<exists>s'. nitzTimeReceivedInd (hal0\<lparr>reached := \<lambda>_. False, other_threads := id\<rparr>) 0 1 0 0 (Some (VChars ''t'')) 1
      (svc_with None (Some 2)) = Some (0, s') \<and> Option.bind (radioService s' 0) mRadioIndication = None"
proof -
  let ?H = "hal0\<lparr>reached := \<lambda>_. False, other_threads := id\<rparr>"
  have "\<exists>s'. nitzTimeReceivedInd ?H 0 1 0 0 (Some (VChars ''t'')) 1 (svc_with None (Some 2)) = Some (0, s') \<and>
    Option.bind (radioService s' 0) mRadioIndication = None \<and>
    (\<forall>en data r. response_ret en = 0 \<longrightarrow> keep_nitz en RIL_UNSOL_NITZ_TIME_RECEIVED data r = (True, r))"
    by (rule nitz_lost_with_client [OF svc_with_simps(1)]) simp_all
  then show ?thesis by blast
qed

end
