(* ===== verification/RespValues.thy ===== *)
theory RespValues
  imports RespProps
begin

text \<open>
  Properties of the values the service hands to its client: mobile network codes, message contents, card
  status, signal strengths, CDMA information records and lists of data calls.
\<close>

section \<open>Mobile network codes\<close>

lemma unat_of_nat_u32: "v < 2 ^ 32 \<Longrightarrow> unat (of_nat v :: u32) = v"
  by (simp add: unat_of_nat)

lemma sint_of_nat_u32:
  assumes "v < 2 ^ 31"
  shows "sint (of_nat v :: u32) = int v"
proof -
  have "sint (word_of_int (int v) :: u32) = signed_take_bit 31 (int v)"
    using sint_sbintrunc' [of "int v", where 'a = 32] by simp
  also have "\<dots> = int v"
    using assms by (intro signed_take_bit_int_eq_self) auto
  finally show ?thesis by simp
qed

lemma unat_drop_bit: "unat (drop_bit k w) = unat w div 2 ^ k" for w :: u32
  unfolding unat_drop_bit_eq by (rule drop_bit_eq_div)

text \<open>Bits that do not overlap are added.\<close>

lemma or_push_bit_add:
  fixes w :: "'a::len word"
  assumes "n < 2 ^ j"
  shows "or (push_bit j w) (of_nat n) = push_bit j w + of_nat n"
proof -
  have "and (push_bit j w) (of_nat n) = 0"
  proof (rule bit_word_eqI)
    fix i :: nat assume "i < LENGTH('a)"
    have "\<not> bit n i" if "j \<le> i"
    proof -
      have "n < 2 ^ i" using assms that by (meson less_le_trans one_le_numeral power_increasing)
      then show ?thesis by (simp add: bit_iff_odd)
    qed
    then show "bit (and (push_bit j w) (of_nat n)) i = bit (0 :: 'a word) i"
      by (auto simp: bit_simps)
  qed
  then show ?thesis by (simp add: disjunctive_add_eq_or)
qed

lemma mnc_word:
  assumes "n \<le> 999" "k < 8"
  shows "or (push_bit 28 (of_nat k :: u32)) (of_nat n) = of_nat (k * 2 ^ 28 + n)"
  using assms by (subst or_push_bit_add) (simp_all add: push_bit_eq_mult)

text \<open>Taking the word apart again.\<close>

lemma mnc_parts:
  assumes "n \<le> 999" "k < 8"
  shows "and (drop_bit 28 (of_nat (k * 2 ^ 28 + n) :: u32)) 0xF = of_nat k"
    and "drop_bit 4 (push_bit 4 (of_nat (k * 2 ^ 28 + n) :: u32)) = of_nat n"
proof -
  let ?v = "k * 2 ^ 28 + n"
  have v: "?v < 2 ^ 32" using assms by simp
  have "drop_bit 28 (of_nat ?v :: u32) = of_nat k"
  proof (rule word_unat_eq_iff [THEN iffD2])
    have "unat (drop_bit 28 (of_nat ?v :: u32)) = ?v div 2 ^ 28"
      by (simp only: unat_drop_bit unat_of_nat_u32 [OF v])
    also have "\<dots> = k" using assms by simp
    finally show "unat (drop_bit 28 (of_nat ?v :: u32)) = unat (of_nat k :: u32)"
      using assms(2) by (simp add: unat_of_nat_u32)
  qed
  moreover have "and (of_nat k) (0xF :: u32) = of_nat k"
  proof -
    have "k \<in> {0, 1, 2, 3, 4, 5, 6, 7}" using assms(2) by auto
    then show ?thesis by auto
  qed
  ultimately show "and (drop_bit 28 (of_nat ?v :: u32)) 0xF = of_nat k" by simp
  have p: "push_bit 4 (of_nat ?v :: u32) = of_nat (n * 16)"
  proof -
    have "push_bit 4 (of_nat ?v :: u32) = of_nat k * 2 ^ 32 + of_nat n * 16"
      by (simp add: push_bit_eq_mult algebra_simps)
    also have "(2 ^ 32 :: u32) = 0" by simp
    finally show ?thesis by simp
  qed
  have n: "n * 16 < 2 ^ 32" using assms(1) by simp
  have q: "unat (drop_bit 4 (of_nat (n * 16) :: u32)) = n"
    by (simp only: unat_drop_bit unat_of_nat_u32 [OF n]) simp
  show "drop_bit 4 (push_bit 4 (of_nat ?v :: u32)) = of_nat n"
    using assms(1) by (intro word_unat_eq_iff [THEN iffD2]) (simp only: p q, simp add: unat_of_nat_u32)
qed

text \<open>A character of a decimal digit, and reading a string of them.\<close>

definition digit_char :: "nat \<Rightarrow> char" where
  "digit_char d = char_of (48 + d)"

lemma digit_char_simps:
  assumes "d < 10"
  shows "of_char (digit_char d) = 48 + d" "digit_val 10 (digit_char d) = Some d"
    "\<not> is_space (digit_char d)" "digit_char d \<noteq> CHR ''-''" "digit_char d \<noteq> CHR ''+''"
proof -
  show v: "of_char (digit_char d) = 48 + d" using assms by (simp add: digit_char_def)
  show "digit_val 10 (digit_char d) = Some d" using assms by (simp add: digit_val_def v)
  show "\<not> is_space (digit_char d)" by (simp add: is_space_def v)
  show "digit_char d \<noteq> CHR ''-''" "digit_char d \<noteq> CHR ''+''"
    using v by (auto dest!: arg_cong [where f = "of_char :: char \<Rightarrow> nat"])
qed

lemma digits_value_chars:
  "\<forall>d \<in> set ds. d < 10 \<Longrightarrow>
     digits_value 10 acc (map digit_char ds) = foldl (\<lambda>a d. a * 10 + d) acc ds"
  by (induction ds arbitrary: acc) (auto simp: digit_char_simps)

lemma stoi_digits:
  assumes "\<forall>d \<in> set (d # ds). d < 10" "foldl (\<lambda>a d. a * 10 + d) 0 (d # ds) < 2 ^ 31"
  shows "stoi (map digit_char (d # ds)) = Some (int (foldl (\<lambda>a d. a * 10 + d) 0 (d # ds)))"
proof -
  let ?c = "map digit_char (d # ds)"
  have d: "d < 10" using assms(1) by simp
  have s: "split_sign (dropWhile is_space ?c) = (False, ?c)"
    using digit_char_simps(3-5) [OF d] by (simp add: split_sign_def)
  have p: "skip_hex_prefix 10 c = c" for c
    by (simp add: skip_hex_prefix_def split: list.split)
  have "number_value 10 ?c = int (foldl (\<lambda>a d. a * 10 + d) 0 (d # ds))"
    unfolding number_value_def s prod.case p digits_value_chars [OF assms(1)] by (simp add: Let_def)
  then show ?thesis
    unfolding stoi_def s atoi_def using assms(2) digit_char_simps(2) [OF d]
    by (simp add: Let_def INT_MIN_def INT_MAX_def)
qed

lemma mnc_decode_encode:
  assumes "n \<le> 999" "k \<in> {0, 2, 3}"
  shows "mnc_decode (mnc_encode (int n) (int k)) =
     (if k = 0 then to_string (int n) else if k = 2 then tl (three_digits n) else three_digits n)"
proof -
  let ?v = "k * 2 ^ 28 + n"
  have k: "k < 8" "k \<le> 3" using assms(2) by auto
  have v: "?v < 2 ^ 31 - 1" using assms(1) k(2) by simp
  have "or (push_bit 28 (word_of_int (int k) :: u32)) (word_of_int (int n)) = of_nat ?v"
    using mnc_word [OF assms(1) k(1)] by simp
  then have e: "mnc_encode (int n) (int k) = sint (of_nat ?v :: u32)"
    using assms by (auto simp: mnc_encode_def)
  have s: "sint (of_nat ?v :: u32) = int ?v"
    by (rule sint_of_nat_u32) (use v in simp)
  have u: "(word_of_int (int ?v) :: u32) = of_nat ?v" by (rule of_int_of_nat_eq)
  have n: "unat (of_nat n :: u32) = n" using assms(1) by (simp add: unat_of_nat_u32)
  then have "\<not> 999 < (of_nat n :: u32)" using assms(1) by (simp add: word_less_nat_alt)
  moreover have "uint (of_nat n :: u32) = int n" using n by (metis uint_nat)
  moreover have "int ?v \<noteq> INT_MAX" "\<not> int ?v < 0" using v by (auto simp: INT_MAX_def)
  ultimately show ?thesis
    unfolding e s mnc_decode_def u Let_def mnc_parts [OF assms(1) k(1)] n using assms(2) by auto
qed

lemma three_digits_value:
  fixes a b d :: nat
  assumes "b < 10" "d < 10"
  shows "((a * 10 + b) * 10 + d) div 100 = a" "((a * 10 + b) * 10 + d) div 10 mod 10 = b"
    "((a * 10 + b) * 10 + d) mod 10 = d"
proof -
  have e: "((a * 10 + b) * 10 + d) div 10 = a * 10 + b" using assms(2) by simp
  have "((a * 10 + b) * 10 + d) div (10 * 10) = (a * 10 + b) div 10"
    unfolding div_mult2_eq e ..
  then show "((a * 10 + b) * 10 + d) div 100 = a" using assms(1) by simp
  show "((a * 10 + b) * 10 + d) div 10 mod 10 = b" unfolding e using assms(1) by simp
  show "((a * 10 + b) * 10 + d) mod 10 = d"
    using mod_mult_self3 [of "a * 10 + b" 10 d] assms(2) by simp
qed

text \<open>
  C38. Mobile network codes survive their encoding: a string of two or three decimal digits is encoded
  into an integer that decodes to the same string, leading zeros included.
\<close>

theorem mnc_roundtrip:
  assumes "length c = 2 \<or> length c = 3" "\<forall>x \<in> set c. x \<in> digit_char ` {..<10}"
  shows "\<exists>v. mnc_encode_string c = Some v \<and> mnc_decode v = c"
proof -
  from assms(2) have "\<exists>ds. c = map digit_char ds \<and> (\<forall>d \<in> set ds. d < 10)"
  proof (induction c)
    case (Cons x c)
    then obtain ds d where "c = map digit_char ds" "\<forall>d \<in> set ds. d < 10" "x = digit_char d" "d < 10" by auto
    then show ?case by (intro exI [of _ "d # ds"]) simp
  qed simp
  then obtain ds where ds: "c = map digit_char ds" "\<forall>d \<in> set ds. d < 10" by blast
  consider (2) a b where "ds = [a, b]" | (3) a b d where "ds = [a, b, d]"
    using assms(1) ds(1) by (auto simp: numeral_2_eq_2 numeral_3_eq_3 length_Suc_conv)
  then show ?thesis
  proof cases
    case 2
    then have l: "a < 10" "b < 10" using ds(2) by auto
    have "stoi c = Some (int (a * 10 + b))"
      unfolding ds(1) 2 by (subst stoi_digits) (use l in auto)
    moreover have "tl (three_digits (a * 10 + b)) = c"
      using l unfolding ds(1) 2 by (simp add: three_digits_def digit_char_def)
    ultimately show ?thesis
      using mnc_decode_encode [of "a * 10 + b" 2] l by (simp add: mnc_encode_string_def ds(1) 2)
  next
    case 3
    then have l: "a < 10" "b < 10" "d < 10" using ds(2) by auto
    have "stoi c = Some (int ((a * 10 + b) * 10 + d))"
      unfolding ds(1) 3 by (subst stoi_digits) (use l in auto)
    moreover have "three_digits ((a * 10 + b) * 10 + d) = c"
      unfolding ds(1) 3 three_digits_def digit_char_def list.map three_digits_value [OF l(2,3)] ..
    ultimately show ?thesis
      using mnc_decode_encode [of "(a * 10 + b) * 10 + d" 3] l by (simp add: mnc_encode_string_def ds(1) 3)
  qed
qed

theorem mnc_roundtrip_witness:
  "\<exists>v. mnc_encode_string ''07'' = Some v \<and> mnc_decode v = ''07''"
proof (rule mnc_roundtrip)
  have "''07'' = map digit_char [0, 7]" by code_simp
  then show "\<forall>x \<in> set ''07''. x \<in> digit_char ` {..<10}" by auto
qed simp

section \<open>Messages\<close>

text \<open>The text a vendor sends for the bytes of a message: two hex digits for each.\<close>

definition hex_char :: "nat \<Rightarrow> u8" where
  "hex_char n = of_nat (if n < 10 then 48 + n else 55 + n)"

definition hex_text :: "u8 list \<Rightarrow> u8 list" where
  "hex_text bs = concat (map (\<lambda>b. [hex_char (unat b div 16), hex_char (unat b mod 16)]) bs)"

lemma hexCharToInt_hex_char:
  assumes "n < 16"
  shows "hexCharToInt (hex_char n) = of_nat n" "(of_nat n :: u8) \<noteq> INVALID_HEX_CHAR"
proof -
  have "list_all (\<lambda>n. hexCharToInt (hex_char n) = of_nat n \<and> (of_nat n :: u8) \<noteq> INVALID_HEX_CHAR) [0..<16]"
    by code_simp
  with assms show "hexCharToInt (hex_char n) = of_nat n" "(of_nat n :: u8) \<noteq> INVALID_HEX_CHAR"
    by (auto simp: list_all_iff)
qed

lemma hex_byte: "or (push_bit 4 (of_nat (unat b div 16))) (of_nat (unat b mod 16)) = b" for b :: u8
proof -
  have "or (push_bit 4 (of_nat (unat b div 16) :: u8)) (of_nat (unat b mod 16)) =
      push_bit 4 (of_nat (unat b div 16)) + of_nat (unat b mod 16)"
    by (rule or_push_bit_add) simp
  also have "\<dots> = of_nat (unat b div 16 * 16 + unat b mod 16)"
    unfolding push_bit_eq_mult of_nat_add of_nat_mult by simp
  also have "\<dots> = of_nat (unat b)" by (simp only: div_mult_mod_eq)
  finally show ?thesis by simp
qed

lemma hex_pairs_text: "hex_pairs (hex_text bs) = Some bs"
proof (induction bs)
  case (Cons b bs)
  have "unat b div 16 < 16" using unsigned_less [of b, where 'a = nat] by (simp add: less_mult_imp_div_less)
  then show ?case
    using Cons by (simp add: hex_text_def hexCharToInt_hex_char hex_byte Let_def)
qed (simp add: hex_text_def)

lemma length_hex_text: "length (hex_text bs) = 2 * length bs"
  by (induction bs) (simp_all add: hex_text_def)

text \<open>The reference: a hex digit of either case is the number of its place among the digits, a pair of them is a byte.\<close>

definition hex_digit :: "u8 \<Rightarrow> nat option" where
  "hex_digit = map_of (zip (map of_char ''0123456789abcdefABCDEF'') ([0..<16] @ [10..<16]))"

fun decode_hex :: "u8 list \<Rightarrow> u8 list option" where
  "decode_hex [] = Some []"
| "decode_hex [c] = None"
| "decode_hex (c # d # cs) = do { h \<leftarrow> hex_digit c; l \<leftarrow> hex_digit d; bs \<leftarrow> decode_hex cs; Some (of_nat (16 * h + l) # bs) }"

lemma hex_digit_bound: "hex_digit c = Some n \<Longrightarrow> n < 16"
proof -
  assume "hex_digit c = Some n"
  then have "n \<in> set ([0..<16] @ [10..<16])" unfolding hex_digit_def by (auto dest: map_of_SomeD set_zip_rightD)
  then show "n < 16" by auto
qed

lemma unat_of_nat_char: "c = of_char x \<longleftrightarrow> unat c = of_char x" for c :: u8
proof -
  have "(of_char x :: nat) < 2 ^ 8" by (cases x) (auto split: bool.splits)
  then have "unat (of_nat (of_char x) :: u8) = of_char x" by (simp add: unat_of_nat)
  then show ?thesis unfolding of_nat_of_char by (metis word_eq_iff_unsigned)
qed

lemma hex_characters:
  "c \<in> set (map of_char ''0123456789abcdefABCDEF'') \<longleftrightarrow> 48 \<le> c \<and> c \<le> 57 \<or> 65 \<le> c \<and> c \<le> 70 \<or> 97 \<le> c \<and> c \<le> (102 :: u8)"
proof -
  have "(unat c \<in> set (map of_char ''0123456789abcdefABCDEF'')) =
      (48 \<le> unat c \<and> unat c \<le> 57 \<or> 65 \<le> unat c \<and> unat c \<le> 70 \<or> 97 \<le> unat c \<and> unat c \<le> 102)"
    by (simp, presburger)
  moreover have "c \<in> set (map of_char cs) \<longleftrightarrow> unat c \<in> set (map of_char cs)" for cs
  proof -
    have "c = of_char x \<longleftrightarrow> unat c = of_char x" for x by (metis unat_of_nat_char)
    then show ?thesis by (simp add: image_iff)
  qed
  ultimately show ?thesis by (simp only: word_le_nat_alt) simp
qed

lemma hexCharToInt_digit: "hexCharToInt c = (case hex_digit c of None \<Rightarrow> INVALID_HEX_CHAR | Some n \<Rightarrow> of_nat n)"
proof (cases "hex_digit c")
  case None
  then have "c \<notin> set (map of_char ''0123456789abcdefABCDEF'')" unfolding hex_digit_def by (subst (asm) map_of_zip_is_None) simp_all
  then show ?thesis unfolding hex_characters using None by (auto simp: hexCharToInt_def)
next
  case (Some n)
  then have "c \<in> set (map of_char ''0123456789abcdefABCDEF'')" unfolding hex_digit_def by (auto dest: map_of_SomeD set_zip_leftD)
  moreover have "list_all (\<lambda>c. hexCharToInt c = (case hex_digit c of None \<Rightarrow> INVALID_HEX_CHAR | Some n \<Rightarrow> of_nat n))
      (map of_char ''0123456789abcdefABCDEF'')" by code_simp
  ultimately show ?thesis unfolding list_all_iff by blast
qed

lemma digit_valid: "n < 16 \<Longrightarrow> (of_nat n :: u8) \<noteq> INVALID_HEX_CHAR"
  using hexCharToInt_hex_char(2) by blast

lemma nibbles: "h < 16 \<Longrightarrow> l < 16 \<Longrightarrow> or (push_bit 4 (of_nat h :: u8)) (of_nat l) = of_nat (16 * h + l)"
proof -
  assume "h < 16" "l < 16"
  then have "unat (of_nat (16 * h + l) :: u8) = 16 * h + l" by (simp add: unat_of_nat del: of_nat_add of_nat_mult)
  with hex_byte [of "of_nat (16 * h + l)"] \<open>l < 16\<close> show ?thesis by (simp del: of_nat_add of_nat_mult)
qed

lemma hex_pairs_decode: "even (length cs) \<Longrightarrow> hex_pairs cs = decode_hex cs"
proof (induction cs rule: decode_hex.induct)
  case (3 c d cs)
  then show ?case
    by (auto simp: hexCharToInt_digit Let_def digit_valid [OF hex_digit_bound] nibbles [OF hex_digit_bound hex_digit_bound] map_option_case
        simp del: of_nat_add of_nat_mult split: option.split)
qed simp_all

lemma decode_hex_odd: "odd (length cs) \<Longrightarrow> decode_hex cs = None"
  by (induction cs rule: decode_hex.induct) (auto split: Option.bind_splits)

lemma decode_hex_length: "decode_hex cs = Some bs \<Longrightarrow> length bs = length cs div 2"
  by (induction cs arbitrary: bs rule: decode_hex.induct) (auto split: Option.bind_splits)

lemma decode_hex_text: "decode_hex (hex_text bs) = Some bs"
  using hex_pairs_decode [of "hex_text bs"] hex_pairs_text by (simp add: length_hex_text)

text \<open>
  C39. A message that arrives as text reaches the client as the bytes it stands for, with hex digits of both cases; a
  text of odd length or with any other character reaches nobody, and neither does any text when there is no memory for the bytes.
\<close>

theorem sms_pdu_decoded:
  assumes "Option.bind (radioService s slotId) mRadioIndication = Some c" "cs \<noteq> []"
  shows "newSmsInd H slotId t n e (Some (VBytes cs)) (length cs) s =
    (case decode_hex cs of
       Some bs \<Rightarrow>
         if malloc_ok H (length bs)
         then call_client H slotId True (IndicationCall c ''newSms'' (convertIntToRadioIndicationType t) [ABytes bs]) s
         else Some (0, s)
     | None \<Rightarrow> Some (0, s))"
proof -
  have "newSmsInd H slotId t n e (Some (VBytes cs)) (length cs) s =
    (case convertHexStringToBytes H cs of
       None \<Rightarrow> Some (0, s)
     | Some bs \<Rightarrow> call_client H slotId True (IndicationCall c ''newSms'' (convertIntToRadioIndicationType t) [ABytes bs]) s)"
    using assms by (auto simp: newSmsInd_def radio_indication_def sms_pdu_def bytes_arg_def first_elems_def split: option.split)
  moreover have "convertHexStringToBytes H cs =
      (case decode_hex cs of Some bs \<Rightarrow> if malloc_ok H (length bs) then Some bs else None | None \<Rightarrow> None)"
    using decode_hex_length [of cs]
    by (auto simp: convertHexStringToBytes_def hex_pairs_decode decode_hex_odd mod_2_eq_odd split: option.split)
  ultimately show ?thesis by (simp split: option.split)
qed

theorem sms_pdu_decoded_witness:
  "newSmsInd hal0 0 1 0 0 (Some (VBytes (map of_char ''1AfF''))) 4 (svc_with None (Some 2)) =
     call_client hal0 0 True (IndicationCall 2 ''newSms'' UNSOLICITED [ABytes [0x1A, 0xFF]]) (svc_with None (Some 2)) \<and>
   newSmsInd hal0 0 1 0 0 (Some (VBytes (map of_char ''1g''))) 2 (svc_with None (Some 2)) = Some (0, svc_with None (Some 2))"
proof -
  have client: "Option.bind (radioService (svc_with None (Some 2)) 0) mRadioIndication = Some 2" by simp
  have u: "convertIntToRadioIndicationType 1 = UNSOLICITED"
    by (simp add: convertIntToRadioIndicationType_def RESPONSE_UNSOLICITED_def)
  have d: "decode_hex (map of_char ''1AfF'') = Some [0x1A, 0xFF]" "decode_hex (map of_char ''1g'') = None" by code_simp+
  have m: "malloc_ok hal0 k" for k by (simp add: hal0_def)
  from sms_pdu_decoded [OF client, of "map of_char ''1AfF''" hal0 1 0 0] sms_pdu_decoded [OF client, of "map of_char ''1g''" hal0 1 0 0]
  show ?thesis unfolding d u by (simp add: m eval_nat_numeral)
qed

section \<open>Card status and information records\<close>

lemma radio_response_result:
  assumes "radioService s slotId = Some v" "mRadioResponse v = Some c" "radio_response H slotId m r s \<noteq> None"
  obtains info args where "r = Some (info, args)"
    "radio_response H slotId m r s = call_client H slotId True (ResponseCall c m info args) s"
  using assms by (cases r) (auto simp: radio_response_def)

definition indices_bounded :: "card_status \<Rightarrow> bool" where
  "indices_bounded st \<longleftrightarrow> length (hq_applications st) \<le> RIL_CARD_MAX_APPS \<and>
     hq_gsmUmtsSubscriptionAppIndex st < int (length (hq_applications st)) \<and>
     hq_cdmaSubscriptionAppIndex st < int (length (hq_applications st)) \<and>
     hq_imsSubscriptionAppIndex st < int (length (hq_applications st))"

lemma indices_bounded_absent: "indices_bounded card_status_absent"
  by (simp add: card_status_absent_def indices_bounded_def)

lemma indices_bounded_given:
  assumes "card_status_to_hal r = Some st" "cs_gsm_umts_subscription_app_index r < cs_num_applications r"
    "cs_cdma_subscription_app_index r < cs_num_applications r" "cs_ims_subscription_app_index r < cs_num_applications r"
  shows "indices_bounded st"
  using assms
  by (auto simp: card_status_to_hal_def indices_bounded_def convert_array_all split: if_splits Option.bind_splits)

text \<open>
  The indices the client gets are indices into the applications it gets: every card status that
  \<open>getIccCardStatusResponse\<close> hands over has all three subscription indices below the number of its
  applications (\<open>-1\<close> means none), also when the vendor's status was malformed.
\<close>

theorem card_indices_bounded:
  assumes "radioService s slotId = Some v" "mRadioResponse v = Some c"
    and "getIccCardStatusResponse H slotId t n e response len s \<noteq> None"
  shows "\<exists>info st. getIccCardStatusResponse H slotId t n e response len s =
      call_client H slotId True (ResponseCall c ''getIccCardStatusResponse'' info [ACardStatus st]) s \<and>
    length (hq_applications st) \<le> RIL_CARD_MAX_APPS \<and>
    hq_gsmUmtsSubscriptionAppIndex st < int (length (hq_applications st)) \<and>
    hq_cdmaSubscriptionAppIndex st < int (length (hq_applications st)) \<and>
    hq_imsSubscriptionAppIndex st < int (length (hq_applications st))"
proof -
  let ?r = "let i = populateResponseInfo n t e;
              bad = Some (invalid_response e i, [ACardStatus card_status_absent])
        in if response = None \<or> len \<noteq> sizeof H C_RIL_CardStatus_v6 then bad
           else case response of
                  Some (VCardStatus r) \<Rightarrow>
                    if cs_num_applications r \<le> cs_gsm_umts_subscription_app_index r \<or>
                       cs_num_applications r \<le> cs_cdma_subscription_app_index r \<or>
                       cs_num_applications r \<le> cs_ims_subscription_app_index r
                    then bad
                    else map_option (\<lambda>c. (i, [ACardStatus c])) (card_status_to_hal r)
                | _ \<Rightarrow> None"
  from radio_response_result [OF assms(1,2) assms(3) [unfolded getIccCardStatusResponse_def]]
  obtain info args where r: "?r = Some (info, args)"
    "getIccCardStatusResponse H slotId t n e response len s =
       call_client H slotId True (ResponseCall c ''getIccCardStatusResponse'' info args) s"
    unfolding getIccCardStatusResponse_def by blast
  from r(1) have "\<exists>st. args = [ACardStatus st] \<and> indices_bounded st"
    by (auto simp: Let_def indices_bounded_absent not_le intro: indices_bounded_given split: if_splits option.splits vdata.splits)
  with r(2) show ?thesis unfolding indices_bounded_def by blast
qed

theorem card_indices_bounded_witness:
  "\<exists>info st. getIccCardStatusResponse hal0 0 0 7 0 (Some (VInts [])) 3 (svc_with (Some 1) None) =
      call_client hal0 0 True (ResponseCall 1 ''getIccCardStatusResponse'' info [ACardStatus st]) (svc_with (Some 1) None) \<and>
    hq_gsmUmtsSubscriptionAppIndex st < int (length (hq_applications st))"
proof -
  have "getIccCardStatusResponse hal0 0 0 7 0 (Some (VInts [])) 3 (svc_with (Some 1) None) \<noteq> None"
    by (simp add: getIccCardStatusResponse_def radio_response_def ilp32_def Let_def call_client_def transact_def
        checkReturnStatus_def hal0_def)
  from card_indices_bounded [OF svc_with_simps(1) _ this, of 1] show ?thesis by auto
qed

text \<open>What the comment in \<open>cdmaInfoRecInd\<close> promises: one of the seven vectors has one element, the others none.\<close>

definition one_vector :: "cdma_information_record \<Rightarrow> bool" where
  "one_vector y \<longleftrightarrow>
     length (hi_display y) + length (hi_number y) + length (hi_signal y) + length (hi_redir y) +
     length (hi_lineCtrl y) + length (hi_clir y) + length (hi_audioCtrl y) = 1 \<and>
     (\<forall>x \<in> set (hi_display y). hs_size x \<le> CDMA_ALPHA_INFO_BUFFER_LENGTH) \<and>
     (\<forall>x \<in> set (hi_number y) \<union> fst ` set (hi_redir y). hs_size (hn_number x) \<le> CDMA_NUMBER_INFO_BUFFER_LENGTH)"

lemma string8_size:
  assumes "string8 H m k buf = Some (Some c)"
  shows "length c \<le> m"
proof -
  from assms have "k \<le> m" and "c = map (\<lambda>b. char_of (unat b)) (takeWhile (\<lambda>b. b \<noteq> 0) (take k buf))"
    by (auto simp: string8_def first_elems_def split: if_splits)
  then have "length c \<le> length (take k buf)" "k \<le> m" using length_takeWhile_le [of "\<lambda>b. b \<noteq> 0" "take k buf"] by auto
  then show ?thesis by simp
qed

lemma info_rec_one_vector:
  assumes "info_rec_to_hal H r = Some (Some y)"
  shows "one_vector y"
  using assms string8_size
  unfolding info_rec_to_hal_def Let_def
  by (auto simp: one_vector_def number_to_hal_def split: if_splits cdma_rec.splits)

lemma info_recs_one_vector:
  "info_recs_to_hal H rs = Some (Some ys) \<Longrightarrow> length ys = length rs \<and> (\<forall>y \<in> set ys. one_vector y)"
proof (induction rs arbitrary: ys)
  case (Cons r rs)
  then obtain y zs where "info_rec_to_hal H r = Some (Some y)" "info_recs_to_hal H rs = Some (Some zs)" "ys = y # zs"
    by (auto split: Option.bind_splits option.splits)
  with Cons.IH [of zs] info_rec_one_vector show ?case by auto
qed simp


lemma info_recs_names:
  "info_recs_to_hal H rs = Some (Some ys) \<Longrightarrow>
     map hi_name ys = map in_name rs \<and> in_name ` set rs \<subseteq> {0, 1, 2, 3, 4, 5, 6, 7, 8, 10}"
proof (induction rs arbitrary: ys)
  case (Cons r rs)
  then obtain y zs where r: "info_rec_to_hal H r = Some (Some y)" "info_recs_to_hal H rs = Some (Some zs)" "ys = y # zs"
    by (auto split: Option.bind_splits option.splits)
  from r(1) have "hi_name y = in_name r" "in_name r \<in> {0, 1, 2, 3, 4, 5, 6, 7, 8, 10}"
    unfolding info_rec_to_hal_def Let_def by (auto split: if_splits cdma_rec.splits)
  with r Cons.IH [of zs] show ?case by auto
qed simp

text \<open>
  C40. Of the CDMA information records of a message the client gets the first ten at most, each with its name
  and with exactly one of its seven vectors filled, whose texts fit the buffers they came from; a message
  whose records cannot all be converted, so one with a name the header does not define, is dropped as a
  whole and changes nothing.
\<close>

theorem cdma_records_wellformed:
  assumes "Option.bind (radioService s slotId) mRadioIndication = Some c"
    and "len = sizeof H C_RIL_CDMA_InformationRecords"
    and "cdmaInfoRecInd H slotId t n e (Some (VInfoRecords r)) len s \<noteq> None"
  defines "k \<equiv> min (unat (in_numberOfInfoRecs r)) RIL_CDMA_MAX_NUMBER_OF_INFO_RECS"
  shows "cdmaInfoRecInd H slotId t n e (Some (VInfoRecords r)) len s = Some (0, s) \<or>
    (\<exists>ys. cdmaInfoRecInd H slotId t n e (Some (VInfoRecords r)) len s =
        call_client H slotId True
          (IndicationCall c ''cdmaInfoRec'' (convertIntToRadioIndicationType t) [AInfoRecords ys]) s \<and>
      length ys = k \<and> map hi_name ys = map in_name (take k (in_infoRec r)) \<and>
      hi_name ` set ys \<subseteq> {0, 1, 2, 3, 4, 5, 6, 7, 8, 10} \<and> (\<forall>y \<in> set ys. one_vector y))"
proof -
  let ?r = "cdmaInfoRecInd H slotId t n e (Some (VInfoRecords r)) len s"
  obtain rs x where rs: "first_elems k (in_infoRec r) = Some rs" and x: "info_recs_to_hal H rs = Some x"
    using assms(1-3) unfolding k_def
    by (auto simp: cdmaInfoRecInd_def radio_indication_def split: Option.bind_splits)
  have take: "rs = take k (in_infoRec r)" "length rs = k"
    using rs by (auto simp: first_elems_def split: if_splits)
  show ?thesis
  proof (cases x)
    case None
    then have "?r = Some (0, s)"
      using assms(1,2) rs x unfolding k_def by (simp add: cdmaInfoRecInd_def radio_indication_def)
    then show ?thesis ..
  next
    case (Some ys)
    with x have y: "info_recs_to_hal H rs = Some (Some ys)" by simp
    have "?r = call_client H slotId True
        (IndicationCall c ''cdmaInfoRec'' (convertIntToRadioIndicationType t) [AInfoRecords ys]) s"
      using assms(1,2) rs y unfolding k_def by (simp add: cdmaInfoRecInd_def radio_indication_def)
    moreover have "hi_name ` set ys = in_name ` set rs"
      using info_recs_names [OF y] by (metis list.set_map)
    moreover have "hi_name ` set ys \<subseteq> {0, 1, 2, 3, 4, 5, 6, 7, 8, 10}"
      using info_recs_names [OF y] calculation(2) by simp
    moreover have "length ys = k" "map hi_name ys = map in_name (take k (in_infoRec r))" "\<forall>y \<in> set ys. one_vector y"
      using info_recs_one_vector [OF y] info_recs_names [OF y] take by simp_all
    ultimately show ?thesis by blast
  qed
qed

theorem cdma_records_wellformed_witness:
  defines "r \<equiv> \<lparr>in_numberOfInfoRecs = 1, in_infoRec = [\<lparr>in_name = 8, in_rec = RecClir 2\<rparr>]\<rparr>"
  shows "cdmaInfoRecInd hal0 0 1 0 0 (Some (VInfoRecords r)) (ilp32 C_RIL_CDMA_InformationRecords) (svc_with None (Some 2)) =
      Some (0, svc_with None (Some 2)) \<or>
    (\<exists>ys. cdmaInfoRecInd hal0 0 1 0 0 (Some (VInfoRecords r)) (ilp32 C_RIL_CDMA_InformationRecords) (svc_with None (Some 2)) =
        call_client hal0 0 True (IndicationCall 2 ''cdmaInfoRec'' UNSOLICITED [AInfoRecords ys]) (svc_with None (Some 2)) \<and>
      length ys = 1 \<and> map hi_name ys = [8] \<and> (\<forall>y \<in> set ys. one_vector y))"
proof -
  have u: "convertIntToRadioIndicationType 1 = UNSOLICITED"
    by (simp add: convertIntToRadioIndicationType_def RESPONSE_UNSOLICITED_def)
  have k: "min (unat (in_numberOfInfoRecs r)) RIL_CDMA_MAX_NUMBER_OF_INFO_RECS = 1"
    by (simp add: r_def RIL_CDMA_MAX_NUMBER_OF_INFO_RECS_def)
  have c: "Option.bind (radioService (svc_with None (Some 2)) 0) mRadioIndication = Some 2" by simp
  have "cdmaInfoRecInd hal0 0 1 0 0 (Some (VInfoRecords r)) (ilp32 C_RIL_CDMA_InformationRecords) (svc_with None (Some 2)) \<noteq> None"
    unfolding cdmaInfoRecInd_def radio_indication_def c using k
    by (simp add: r_def first_elems_def info_rec_to_hal_def Let_def call_client_def transact_def checkReturnStatus_def hal0_def)
  from cdma_records_wellformed [OF c _ this] have
    "cdmaInfoRecInd hal0 0 1 0 0 (Some (VInfoRecords r)) (ilp32 C_RIL_CDMA_InformationRecords) (svc_with None (Some 2)) =
      Some (0, svc_with None (Some 2)) \<or>
    (\<exists>ys. cdmaInfoRecInd hal0 0 1 0 0 (Some (VInfoRecords r)) (ilp32 C_RIL_CDMA_InformationRecords) (svc_with None (Some 2)) =
        call_client hal0 0 True (IndicationCall 2 ''cdmaInfoRec'' UNSOLICITED [AInfoRecords ys]) (svc_with None (Some 2)) \<and>
      length ys = 1 \<and> map hi_name ys = map in_name (take 1 (in_infoRec r)) \<and>
      hi_name ` set ys \<subseteq> {0, 1, 2, 3, 4, 5, 6, 7, 8, 10} \<and> (\<forall>y \<in> set ys. one_vector y))"
    unfolding k u hal0_simps(2) by blast
  moreover have "map in_name (take 1 (in_infoRec r)) = [8]" by (simp add: r_def)
  ultimately show ?thesis by (elim disjE exE conjE) (simp, metis)
qed

end
