(* ===== verification/VectorImpl.thy ===== *)
theory VectorImpl
  imports Prelude
begin

text \<open>
  The growable arrays of \<open>libshims/utils/VectorImpl.cpp\<close>. A vector points to a buffer that it may share
  with copies of itself; it is detached from the others before it changes. The buffers come from
  \<open>SharedBuffer\<close>, which is not part of the repository: its functions are parameters, and the lemmas
  assume what its interface promises. Item types may construct, copy and destroy objects, so the memory of
  a buffer is a list of slots, each with an object or raw.
\<close>

section \<open>Runs\<close>

text \<open>
  The outcomes of an operation: undefined behaviour (a freed or raw slot that is read, a write outside a
  buffer, an object that is overwritten or moved over while it is alive), a failed assertion that ends
  the process, or a result.
\<close>

datatype 'r vrun = VUndef | VAbort | VRet 'r

fun vthen :: "'r vrun \<Rightarrow> ('r \<Rightarrow> 's vrun) \<Rightarrow> 's vrun" where
  "vthen VUndef f = VUndef"
| "vthen VAbort f = VAbort"
| "vthen (VRet r) f = f r"

text \<open>A contract: no undefined behaviour, an abort only if \<open>A\<close>, and a result with \<open>P\<close>.\<close>

definition vok :: "bool \<Rightarrow> ('r \<Rightarrow> bool) \<Rightarrow> 'r vrun \<Rightarrow> bool" where
  "vok A P m = (case m of VUndef \<Rightarrow> False | VAbort \<Rightarrow> A | VRet r \<Rightarrow> P r)"

lemma vok_simps [simp]:
  "\<not> vok A P VUndef" "vok A P VAbort = A" "vok A P (VRet r) = P r"
  by (simp_all add: vok_def)

lemma vok_then:
  assumes "vok A P m" "\<And>r. P r \<Longrightarrow> vok A Q (f r)"
  shows "vok A Q (vthen m f)"
  using assms by (cases m) auto

lemma vok_mono:
  assumes "vok A P m" "A \<Longrightarrow> B" "\<And>r. P r \<Longrightarrow> Q r"
  shows "vok B Q m"
  using assms by (cases m) auto

section \<open>Buffers and slots\<close>

text \<open>
  The functions of \<open>SharedBuffer\<close>, on a heap of headers. A buffer is named by the address of its data.
  \<open>sb_release\<close> is the call with \<open>eKeepStorage\<close> and gives the count before. \<open>vi_malloc\<close> says
  whether the one \<open>malloc\<close> of the sort succeeds.
\<close>

record 'h shared_buffer =
  sb_alloc :: "nat \<Rightarrow> 'h \<Rightarrow> addr option \<times> 'h"
  sb_dealloc :: "addr \<Rightarrow> 'h \<Rightarrow> 'h"
  sb_acquire :: "addr \<Rightarrow> 'h \<Rightarrow> 'h"
  sb_release :: "addr \<Rightarrow> 'h \<Rightarrow> nat \<times> 'h"
  sb_attemptEdit :: "addr \<Rightarrow> 'h \<Rightarrow> addr option"
  sb_editResize :: "addr \<Rightarrow> nat \<Rightarrow> 'h \<Rightarrow> addr option \<times> 'h"
  sb_size :: "'h \<Rightarrow> addr \<Rightarrow> nat"
  vi_malloc :: "'h \<Rightarrow> bool"

record ('h, 'a) vmem =
  vm_heap :: 'h
  vm_slots :: "addr \<Rightarrow> 'a option list"

record vec =
  mStorage :: "addr option"
  mCount :: nat
  mFlags :: u32
  mItemSize :: nat

definition has_flag :: "u32 \<Rightarrow> vec \<Rightarrow> bool" where
  "has_flag f v = (and (mFlags v) f \<noteq> 0)"

abbreviation trivial_ctor :: "vec \<Rightarrow> bool" where "trivial_ctor v \<equiv> has_flag 1 v"
abbreviation trivial_dtor :: "vec \<Rightarrow> bool" where "trivial_dtor v \<equiv> has_flag 2 v"
abbreviation trivial_copy :: "vec \<Rightarrow> bool" where "trivial_copy v \<equiv> has_flag 4 v"

text \<open>\<open>size_t\<close> has 32 bits on the processor of the device.\<close>

definition size_max :: nat where
  "size_max = 2 ^ 32"

text \<open>A size that is assigned to a \<open>ssize_t\<close>.\<close>

definition to_ssize :: "nat \<Rightarrow> int" where
  "to_ssize n = (if 2 * n < size_max then int n else int n - int size_max)"

definition vector_new :: "nat \<Rightarrow> u32 \<Rightarrow> vec" where
  "vector_new itemSize flags = \<lparr>mStorage = None, mCount = 0, mFlags = flags, mItemSize = itemSize\<rparr>"

section \<open>Objects\<close>

text \<open>Where items are read from: slots of a buffer, or objects of the caller.\<close>

datatype 'a vsrc = Slots addr nat | Objects "'a list"

definition read_items :: "('h, 'a) vmem \<Rightarrow> 'a vsrc \<Rightarrow> nat \<Rightarrow> 'a list option" where
  "read_items w src num =
     (case src of
        Objects xs \<Rightarrow> if num \<le> length xs then Some (take num xs) else None
      | Slots a i \<Rightarrow> if i + num \<le> length (vm_slots w a) then those (take num (drop i (vm_slots w a))) else None)"

text \<open>Objects come to life in raw slots; a slot of a type without destructor may be written over.\<close>

definition put_items :: "vec \<Rightarrow> addr \<Rightarrow> nat \<Rightarrow> 'a list \<Rightarrow> ('h, 'a) vmem \<Rightarrow> ('h, 'a) vmem vrun" where
  "put_items v a i xs w =
     (let s = vm_slots w a; n = length xs
      in if i + n \<le> length s \<and> (trivial_dtor v \<or> set (take n (drop i s)) \<subseteq> {None})
         then VRet (w\<lparr>vm_slots := (vm_slots w)(a := take i s @ map Some xs @ drop (i + n) s)\<rparr>)
         else VUndef)"

definition end_items :: "addr \<Rightarrow> nat \<Rightarrow> nat \<Rightarrow> ('h, 'a) vmem \<Rightarrow> ('h, 'a) vmem vrun" where
  "end_items a i n w =
     (let s = vm_slots w a
      in if i + n \<le> length s \<and> None \<notin> set (take n (drop i s))
         then VRet (w\<lparr>vm_slots := (vm_slots w)(a := take i s @ replicate n None @ drop (i + n) s)\<rparr>)
         else VUndef)"

definition do_construct :: "(nat \<Rightarrow> 'a) \<Rightarrow> 'a \<Rightarrow> vec \<Rightarrow> addr \<Rightarrow> nat \<Rightarrow> nat \<Rightarrow> ('h, 'a) vmem \<Rightarrow> ('h, 'a) vmem vrun" where
  "do_construct junk dflt v a i num w =
     put_items v a i (if trivial_ctor v then map junk [i..<i + num] else replicate num dflt) w"

definition do_destroy :: "vec \<Rightarrow> addr \<Rightarrow> nat \<Rightarrow> nat \<Rightarrow> ('h, 'a) vmem \<Rightarrow> ('h, 'a) vmem vrun" where
  "do_destroy v a i num w = (if trivial_dtor v then VRet w else end_items a i num w)"

definition do_copy :: "vec \<Rightarrow> addr \<Rightarrow> nat \<Rightarrow> 'a vsrc \<Rightarrow> nat \<Rightarrow> ('h, 'a) vmem \<Rightarrow> ('h, 'a) vmem vrun" where
  "do_copy v a i src num w =
     (case read_items w src num of
        None \<Rightarrow> VUndef
      | Some xs \<Rightarrow> put_items v a i xs w)"

definition do_splat :: "vec \<Rightarrow> addr \<Rightarrow> nat \<Rightarrow> 'a vsrc \<Rightarrow> nat \<Rightarrow> ('h, 'a) vmem \<Rightarrow> ('h, 'a) vmem vrun" where
  "do_splat v a i src num w =
     (if num = 0 then VRet w
      else case read_items w src 1 of
             None \<Rightarrow> VUndef
           | Some xs \<Rightarrow> put_items v a i (replicate num (hd xs)) w)"

text \<open>Both directions move the objects within one buffer; the slots they leave are raw.\<close>

definition do_move :: "vec \<Rightarrow> addr \<Rightarrow> nat \<Rightarrow> nat \<Rightarrow> nat \<Rightarrow> ('h, 'a) vmem \<Rightarrow> ('h, 'a) vmem vrun" where
  "do_move v a dest from num w =
     (case read_items w (Slots a from) num of
        None \<Rightarrow> VUndef
      | Some xs \<Rightarrow> vthen (end_items a from num w) (put_items v a dest xs))"

section \<open>Storage\<close>

definition vm_alloc :: "'h shared_buffer \<Rightarrow> vec \<Rightarrow> nat \<Rightarrow> ('h, 'a) vmem \<Rightarrow> addr option \<times> ('h, 'a) vmem" where
  "vm_alloc B v n w =
     (case sb_alloc B n (vm_heap w) of
        (None, h) \<Rightarrow> (None, w\<lparr>vm_heap := h\<rparr>)
      | (Some a, h) \<Rightarrow>
          (Some a, w\<lparr>vm_heap := h, vm_slots := (vm_slots w)(a := replicate (n div mItemSize v) None)\<rparr>))"

text \<open>
  \<open>editResize\<close> copies the bytes: in place or to a new buffer, and if the old one had a single owner it is gone
  then.
\<close>

definition vm_editResize :: "'h shared_buffer \<Rightarrow> vec \<Rightarrow> addr \<Rightarrow> nat \<Rightarrow> ('h, 'a) vmem \<Rightarrow> addr option \<times> ('h, 'a) vmem" where
  "vm_editResize B v a n w =
     (case sb_editResize B a n (vm_heap w) of
        (None, h) \<Rightarrow> (None, w\<lparr>vm_heap := h\<rparr>)
      | (Some b, h) \<Rightarrow>
          (let k = n div mItemSize v; s = take k (vm_slots w a)
           in (Some b, w\<lparr>vm_heap := h, vm_slots :=
                (if sb_attemptEdit B a (vm_heap w) = None then vm_slots w else (vm_slots w)(a := []))
                (b := s @ replicate (k - length s) None)\<rparr>)))"

definition release_storage :: "'h shared_buffer \<Rightarrow> vec \<Rightarrow> ('h, 'a) vmem \<Rightarrow> ('h, 'a) vmem vrun" where
  "release_storage B v w =
     (case mStorage v of
        None \<Rightarrow> VRet w
      | Some sb \<Rightarrow>
          (case sb_release B sb (vm_heap w) of (prev, h) \<Rightarrow>
             if prev = 1
             then vthen (do_destroy v sb 0 (mCount v) (w\<lparr>vm_heap := h\<rparr>)) (\<lambda>w1.
               VRet (w1\<lparr>vm_heap := sb_dealloc B sb (vm_heap w1), vm_slots := (vm_slots w1)(sb := [])\<rparr>))
             else VRet (w\<lparr>vm_heap := h\<rparr>)))"

definition vector_copy :: "'h shared_buffer \<Rightarrow> vec \<Rightarrow> ('h, 'a) vmem \<Rightarrow> vec \<times> ('h, 'a) vmem" where
  "vector_copy B rhs w =
     (rhs, case mStorage rhs of None \<Rightarrow> w | Some sb \<Rightarrow> w\<lparr>vm_heap := sb_acquire B sb (vm_heap w)\<rparr>)"

text \<open>\<open>operator =\<close> of two different vectors.\<close>

definition vector_assign :: "'h shared_buffer \<Rightarrow> vec \<Rightarrow> vec \<Rightarrow> ('h, 'a) vmem \<Rightarrow> (vec \<times> ('h, 'a) vmem) vrun" where
  "vector_assign B v rhs w =
     (if mItemSize v \<noteq> mItemSize rhs then VAbort
      else vthen (release_storage B v w) (\<lambda>w1.
        if mCount rhs \<noteq> 0
        then case mStorage rhs of
               None \<Rightarrow> VUndef
             | Some sb \<Rightarrow> VRet (v\<lparr>mStorage := Some sb, mCount := mCount rhs\<rparr>,
                 w1\<lparr>vm_heap := sb_acquire B sb (vm_heap w1)\<rparr>)
        else VRet (v\<lparr>mStorage := None, mCount := 0\<rparr>, w1)))"

definition finish_vector :: "'h shared_buffer \<Rightarrow> vec \<Rightarrow> ('h, 'a) vmem \<Rightarrow> (vec \<times> ('h, 'a) vmem) vrun" where
  "finish_vector B v w = vthen (release_storage B v w) (\<lambda>w1. VRet (v\<lparr>mStorage := None, mCount := 0\<rparr>, w1))"

definition editArrayImpl :: "'h shared_buffer \<Rightarrow> vec \<Rightarrow> ('h, 'a) vmem \<Rightarrow> (vec \<times> ('h, 'a) vmem) vrun" where
  "editArrayImpl B v w =
     (case mStorage v of
        None \<Rightarrow> VRet (v, w)
      | Some sb \<Rightarrow>
          (case sb_attemptEdit B sb (vm_heap w) of
             Some _ \<Rightarrow> VRet (v, w)
           | None \<Rightarrow>
               (case vm_alloc B v (sb_size B (vm_heap w) sb) w of
                  (None, _) \<Rightarrow> VAbort
                | (Some editable, w1) \<Rightarrow>
                    vthen (do_copy v editable 0 (Slots sb 0) (mCount v) w1) (\<lambda>w2.
                    vthen (release_storage B v w2) (\<lambda>w3. VRet (v\<lparr>mStorage := Some editable\<rparr>, w3))))))"

definition capacity :: "'h shared_buffer \<Rightarrow> vec \<Rightarrow> ('h, 'a) vmem \<Rightarrow> nat" where
  "capacity B v w =
     (case mStorage v of None \<Rightarrow> 0 | Some sb \<Rightarrow> sb_size B (vm_heap w) sb div mItemSize v)"

definition itemLocation :: "'h shared_buffer \<Rightarrow> vec \<Rightarrow> nat \<Rightarrow> ('h, 'a) vmem \<Rightarrow> (addr \<times> nat) option" where
  "itemLocation B v index w =
     (if index < capacity B v w then map_option (\<lambda>a. (a, index)) (mStorage v) else None)"

definition editItemLocation ::
  "'h shared_buffer \<Rightarrow> vec \<Rightarrow> nat \<Rightarrow> ('h, 'a) vmem \<Rightarrow> ((addr \<times> nat) option \<times> vec \<times> ('h, 'a) vmem) vrun" where
  "editItemLocation B v index w =
     (if index < capacity B v w
      then vthen (editArrayImpl B v w) (\<lambda>(v1, w1). VRet (map_option (\<lambda>a. (a, index)) (mStorage v1), v1, w1))
      else VRet (None, v, w))"

section \<open>Growing and shrinking\<close>

definition grow ::
  "'h shared_buffer \<Rightarrow> nat \<Rightarrow> nat \<Rightarrow> vec \<Rightarrow> ('h, 'a) vmem \<Rightarrow> ((addr \<times> nat) option \<times> vec \<times> ('h, 'a) vmem) vrun" where
  "grow B pos amount v w =
     (let new_size = mCount v + amount;
          finish = (\<lambda>v1 w1. let v2 = v1\<lparr>mCount := new_size\<rparr> in VRet (itemLocation B v2 pos w1, v2, w1))
      in if size_max \<le> new_size then VAbort
         else if capacity B v w < new_size
         then let new_capacity = max 4 (new_size + new_size div 2 + 1)
              in if size_max \<le> new_size + new_size div 2 + 1 then VAbort
                 else if size_max \<le> new_capacity * mItemSize v then VAbort
                 else case (mStorage v, mCount v = pos \<and> trivial_copy v \<and> trivial_dtor v) of
                        (Some sb, True) \<Rightarrow>
                          (case vm_editResize B v sb (new_capacity * mItemSize v) w of
                             (None, w1) \<Rightarrow> VRet (None, v, w1)
                           | (Some a, w1) \<Rightarrow> finish (v\<lparr>mStorage := Some a\<rparr>) w1)
                      | (st, _) \<Rightarrow>
                          (case vm_alloc B v (new_capacity * mItemSize v) w of
                             (None, w1) \<Rightarrow> VRet (None, v, w1)
                           | (Some a, w1) \<Rightarrow>
                               vthen (case st of
                                        None \<Rightarrow> if pos = 0 \<and> pos = mCount v then VRet w1 else VUndef
                                      | Some sb \<Rightarrow>
                                          vthen (if pos \<noteq> 0 then do_copy v a 0 (Slots sb 0) pos w1 else VRet w1) (\<lambda>w2.
                                            if pos \<noteq> mCount v
                                            then do_copy v a (pos + amount) (Slots sb pos) (mCount v - pos) w2
                                            else VRet w2)) (\<lambda>w2.
                               vthen (release_storage B v w2) (\<lambda>w3. finish (v\<lparr>mStorage := Some a\<rparr>) w3)))
         else vthen (editArrayImpl B v w) (\<lambda>(v1, w1).
           vthen (if pos \<noteq> mCount v
                  then case mStorage v1 of
                         None \<Rightarrow> VUndef
                       | Some a \<Rightarrow> do_move v a (pos + amount) pos (mCount v - pos) w1
                  else VRet w1) (\<lambda>w2. finish v1 w2)))"

text \<open>When there is no memory for the smaller buffer the vector stays as it is, and nobody is told.\<close>

definition shrink :: "'h shared_buffer \<Rightarrow> nat \<Rightarrow> nat \<Rightarrow> vec \<Rightarrow> ('h, 'a) vmem \<Rightarrow> (vec \<times> ('h, 'a) vmem) vrun" where
  "shrink B pos amount v w =
     (case mStorage v of
        None \<Rightarrow> VRet (v, w)
      | Some sb \<Rightarrow>
          if mCount v < amount then VAbort
          else
            (let new_size = mCount v - amount; new_capacity = max 4 (new_size * 2)
             in if new_size < capacity B v w div 2
                then if pos = new_size \<and> trivial_copy v \<and> trivial_dtor v
                     then case vm_editResize B v sb (new_capacity * mItemSize v mod size_max) w of
                            (None, w1) \<Rightarrow> VRet (v, w1)
                          | (Some a, w1) \<Rightarrow> VRet (v\<lparr>mStorage := Some a, mCount := new_size\<rparr>, w1)
                     else case vm_alloc B v (new_capacity * mItemSize v mod size_max) w of
                            (None, w1) \<Rightarrow> VRet (v, w1)
                          | (Some a, w1) \<Rightarrow>
                              vthen (if pos \<noteq> 0 then do_copy v a 0 (Slots sb 0) pos w1 else VRet w1) (\<lambda>w2.
                              vthen (if pos \<noteq> new_size
                                     then do_copy v a pos (Slots sb (pos + amount)) (new_size - pos) w2
                                     else VRet w2) (\<lambda>w3.
                              vthen (release_storage B v w3) (\<lambda>w4.
                                VRet (v\<lparr>mStorage := Some a, mCount := new_size\<rparr>, w4))))
                else vthen (editArrayImpl B v w) (\<lambda>(v1, w1).
                  case mStorage v1 of
                    None \<Rightarrow> VUndef
                  | Some a \<Rightarrow>
                      vthen (do_destroy v1 a pos amount w1) (\<lambda>w2.
                      vthen (if pos \<noteq> new_size then do_move v1 a pos (pos + amount) (new_size - pos) w2
                             else VRet w2) (\<lambda>w3.
                        VRet (v1\<lparr>mCount := new_size\<rparr>, w3))))))"

section \<open>Operations\<close>

text \<open>The error codes that a \<open>ssize_t\<close> result may hold; an index or a size is \<open>Inr\<close>.\<close>

datatype vec_error = BAD_INDEX | NO_MEMORY | BAD_VALUE | NAME_NOT_FOUND

type_synonym ('h, 'a) vec_run = "((vec_error + nat) \<times> vec \<times> ('h, 'a) vmem) vrun"

definition insertArrayAt ::
  "'h shared_buffer \<Rightarrow> 'a vsrc \<Rightarrow> nat \<Rightarrow> nat \<Rightarrow> vec \<Rightarrow> ('h, 'a) vmem \<Rightarrow> ('h, 'a) vec_run" where
  "insertArrayAt B array index num v w =
     (if mCount v < index then VRet (Inl BAD_INDEX, v, w)
      else vthen (grow B index num v w) (\<lambda>(loc, v1, w1).
        case loc of
          None \<Rightarrow> VRet (Inl NO_MEMORY, v1, w1)
        | Some (a, i) \<Rightarrow> vthen (do_copy v1 a i array num w1) (\<lambda>w2. VRet (Inr index, v1, w2))))"

text \<open>The memory of an empty vector has no address, which is never read.\<close>

definition arrayImpl :: "vec \<Rightarrow> 'a vsrc" where
  "arrayImpl v = (case mStorage v of None \<Rightarrow> Objects [] | Some a \<Rightarrow> Slots a 0)"

definition insertVectorAt :: "'h shared_buffer \<Rightarrow> vec \<Rightarrow> nat \<Rightarrow> vec \<Rightarrow> ('h, 'a) vmem \<Rightarrow> ('h, 'a) vec_run" where
  "insertVectorAt B vector index v w = insertArrayAt B (arrayImpl vector) index (mCount vector) v w"

definition appendVector :: "'h shared_buffer \<Rightarrow> vec \<Rightarrow> vec \<Rightarrow> ('h, 'a) vmem \<Rightarrow> ('h, 'a) vec_run" where
  "appendVector B vector v w = insertVectorAt B vector (mCount v) v w"

definition appendArray :: "'h shared_buffer \<Rightarrow> 'a vsrc \<Rightarrow> nat \<Rightarrow> vec \<Rightarrow> ('h, 'a) vmem \<Rightarrow> ('h, 'a) vec_run" where
  "appendArray B array num v w = insertArrayAt B array (mCount v) num v w"

text \<open>
  The item types: what fresh memory holds, the value of the default constructor. \<open>item\<close> is absent for the
  variants without an argument.
\<close>

record 'a item_type =
  it_junk :: "nat \<Rightarrow> 'a"
  it_default :: 'a

definition insertAt ::
  "'h shared_buffer \<Rightarrow> 'a item_type \<Rightarrow> 'a vsrc option \<Rightarrow> nat \<Rightarrow> nat \<Rightarrow> vec \<Rightarrow> ('h, 'a) vmem \<Rightarrow> ('h, 'a) vec_run" where
  "insertAt B T item index numItems v w =
     (if mCount v < index then VRet (Inl BAD_INDEX, v, w)
      else vthen (grow B index numItems v w) (\<lambda>(loc, v1, w1).
        case loc of
          None \<Rightarrow> VRet (Inl NO_MEMORY, v1, w1)
        | Some (a, i) \<Rightarrow>
            vthen (case item of
                     Some x \<Rightarrow> do_splat v1 a i x numItems w1
                   | None \<Rightarrow> do_construct (it_junk T) (it_default T) v1 a i numItems w1)
              (\<lambda>w2. VRet (Inr index, v1, w2))))"

definition removeItemsAt :: "'h shared_buffer \<Rightarrow> nat \<Rightarrow> nat \<Rightarrow> vec \<Rightarrow> ('h, 'a) vmem \<Rightarrow> ('h, 'a) vec_run" where
  "removeItemsAt B index count v w =
     (if mCount v < (index + count) mod size_max then VRet (Inl BAD_VALUE, v, w)
      else vthen (shrink B index count v w) (\<lambda>(v1, w1). VRet (Inr index, v1, w1)))"

definition vector_pop :: "'h shared_buffer \<Rightarrow> vec \<Rightarrow> ('h, 'a) vmem \<Rightarrow> ('h, 'a) vec_run" where
  "vector_pop B v w =
     (if mCount v \<noteq> 0 then removeItemsAt B (mCount v - 1) 1 v w else VRet (Inr 0, v, w))"

definition vector_push ::
  "'h shared_buffer \<Rightarrow> 'a item_type \<Rightarrow> 'a vsrc option \<Rightarrow> vec \<Rightarrow> ('h, 'a) vmem \<Rightarrow> ('h, 'a) vec_run" where
  "vector_push B T item v w = insertAt B T item (mCount v) 1 v w"

definition vector_add ::
  "'h shared_buffer \<Rightarrow> 'a item_type \<Rightarrow> 'a vsrc option \<Rightarrow> vec \<Rightarrow> ('h, 'a) vmem \<Rightarrow> ('h, 'a) vec_run" where
  "vector_add B T item v w = insertAt B T item (mCount v) 1 v w"

text \<open>An item that is replaced by itself, at the address it has after the array was detached, is left alone.\<close>

definition replaceAt ::
  "'h shared_buffer \<Rightarrow> 'a item_type \<Rightarrow> 'a vsrc option \<Rightarrow> nat \<Rightarrow> vec \<Rightarrow> ('h, 'a) vmem \<Rightarrow> ('h, 'a) vec_run" where
  "replaceAt B T prototype index v w =
     (if mCount v \<le> index then VRet (Inl BAD_INDEX, v, w)
      else vthen (editItemLocation B v index w) (\<lambda>(item, v1, w1).
        case item of
          None \<Rightarrow> (case prototype of None \<Rightarrow> VRet (Inr index, v1, w1) | Some _ \<Rightarrow> VRet (Inl NO_MEMORY, v1, w1))
        | Some (a, i) \<Rightarrow>
            (case prototype of
               Some x \<Rightarrow>
                 if x = Slots a i then VRet (Inr index, v1, w1)
                 else vthen (do_destroy v1 a i 1 w1) (\<lambda>w2. vthen (do_copy v1 a i x 1 w2) (\<lambda>w3. VRet (Inr index, v1, w3)))
             | None \<Rightarrow>
                 vthen (do_destroy v1 a i 1 w1) (\<lambda>w2.
                 vthen (do_construct (it_junk T) (it_default T) v1 a i 1 w2) (\<lambda>w3. VRet (Inr index, v1, w3))))))"

definition clear_vector :: "'h shared_buffer \<Rightarrow> vec \<Rightarrow> ('h, 'a) vmem \<Rightarrow> (vec \<times> ('h, 'a) vmem) vrun" where
  "clear_vector B v w = shrink B 0 (mCount v) v w"

definition setCapacity :: "'h shared_buffer \<Rightarrow> nat \<Rightarrow> vec \<Rightarrow> ('h, 'a) vmem \<Rightarrow> ('h, 'a) vec_run" where
  "setCapacity B new_capacity v w =
     (if new_capacity \<le> mCount v then VRet (Inr (capacity B v w), v, w)
      else if size_max \<le> new_capacity * mItemSize v then VAbort
      else case vm_alloc B v (new_capacity * mItemSize v) w of
             (None, w1) \<Rightarrow> VRet (Inl NO_MEMORY, v, w1)
           | (Some a, w1) \<Rightarrow>
               vthen (do_copy v a 0 (arrayImpl v) (mCount v) w1) (\<lambda>w2.
               vthen (release_storage B v w2) (\<lambda>w3.
                 VRet (Inr new_capacity, v\<lparr>mStorage := Some a\<rparr>, w3))))"

definition resize_vector :: "'h shared_buffer \<Rightarrow> 'a item_type \<Rightarrow> nat \<Rightarrow> vec \<Rightarrow> ('h, 'a) vmem \<Rightarrow> ('h, 'a) vec_run" where
  "resize_vector B T newSize v w =
     vthen (if mCount v < newSize then insertAt B T None (mCount v) (newSize - mCount v) v w
            else if newSize < mCount v then removeItemsAt B newSize (mCount v - newSize) v w
            else VRet (Inr 0, v, w)) (\<lambda>(result, v1, w1).
       VRet (case result of Inl e \<Rightarrow> Inl e | Inr _ \<Rightarrow> Inr newSize, v1, w1))"


section \<open>What the buffers promise\<close>

text \<open>
  \<open>refs\<close> gives the number of owners of a buffer, 0 when it is free. A failed allocation changes nothing; a
  new buffer is one that was free. \<open>attemptEdit\<close> succeeds for a single owner. \<open>editResize\<close> resizes the buffer of a
  single owner, perhaps moving it, and gives a shared one up for a new one.
\<close>

definition sb_laws :: "'h shared_buffer \<Rightarrow> ('h \<Rightarrow> addr \<Rightarrow> nat) \<Rightarrow> bool" where
  "sb_laws B refs \<longleftrightarrow>
     (\<forall>h n. case sb_alloc B n h of
        (None, h') \<Rightarrow> refs h' = refs h \<and> sb_size B h' = sb_size B h
      | (Some a, h') \<Rightarrow> refs h a = 0 \<and> refs h' = (refs h)(a := 1) \<and> sb_size B h' = (sb_size B h)(a := n)) \<and>
     (\<forall>h a. 0 < refs h a \<longrightarrow>
        refs (sb_acquire B a h) = (refs h)(a := Suc (refs h a)) \<and> sb_size B (sb_acquire B a h) = sb_size B h) \<and>
     (\<forall>h a. 0 < refs h a \<longrightarrow> (case sb_release B a h of (n, h') \<Rightarrow>
        n = refs h a \<and> refs h' = (refs h)(a := n - 1) \<and> sb_size B h' = sb_size B h)) \<and>
     (\<forall>h a. refs h a = 0 \<longrightarrow>
        refs (sb_dealloc B a h) = refs h \<and> (\<forall>b. b \<noteq> a \<longrightarrow> sb_size B (sb_dealloc B a h) b = sb_size B h b)) \<and>
     (\<forall>h a. 0 < refs h a \<longrightarrow> sb_attemptEdit B a h = (if refs h a = 1 then Some a else None)) \<and>
     (\<forall>h a n. 0 < refs h a \<longrightarrow> (case sb_editResize B a n h of
        (None, h') \<Rightarrow> refs h' = refs h \<and> sb_size B h' = sb_size B h
      | (Some b, h') \<Rightarrow> (b = a \<and> refs h a = 1 \<or> refs h b = 0) \<and> refs h' = (refs h)(a := refs h a - 1, b := 1) \<and>
          sb_size B h' b = n \<and> (\<forall>c. c \<noteq> b \<and> 0 < refs h' c \<longrightarrow> sb_size B h' c = sb_size B h c)))"

text \<open>Memory never runs out.\<close>

definition sb_plenty :: "'h shared_buffer \<Rightarrow> bool" where
  "sb_plenty B \<longleftrightarrow> (\<forall>n h. fst (sb_alloc B n h) \<noteq> None) \<and> (\<forall>a n h. fst (sb_editResize B a n h) \<noteq> None)"

section \<open>The list a vector stands for\<close>

text \<open>The slots after the items are raw, unless the type has no destructor.\<close>

definition raw_slots :: "vec \<Rightarrow> 'a option list \<Rightarrow> bool" where
  "raw_slots v s \<longleftrightarrow> trivial_dtor v \<or> set s \<subseteq> {None}"

definition vec_holds ::
  "'h shared_buffer \<Rightarrow> ('h \<Rightarrow> addr \<Rightarrow> nat) \<Rightarrow> ('h, 'a) vmem \<Rightarrow> vec \<Rightarrow> 'a list \<Rightarrow> bool" where
  "vec_holds B refs w v xs \<longleftrightarrow>
     0 < mItemSize v \<and> 4 * mItemSize v < size_max \<and> mCount v = length xs \<and> length xs < size_max \<and>
     (case mStorage v of
        None \<Rightarrow> xs = []
      | Some a \<Rightarrow> 0 < refs (vm_heap w) a \<and> sb_size B (vm_heap w) a < size_max \<and>
          length (vm_slots w a) = sb_size B (vm_heap w) a div mItemSize v \<and>
          (\<exists>rest. vm_slots w a = map Some xs @ rest \<and> raw_slots v rest))"

text \<open>
  The owners of a buffer other than the vector. An operation leaves them as they are, with their contents, and
  so it neither frees a buffer of others nor keeps one that nobody owns.
\<close>

definition others :: "('h \<Rightarrow> addr \<Rightarrow> nat) \<Rightarrow> ('h, 'a) vmem \<Rightarrow> vec \<Rightarrow> addr \<Rightarrow> nat" where
  "others refs w v b = refs (vm_heap w) b - (if mStorage v = Some b then 1 else 0)"

definition same_buffer :: "'h shared_buffer \<Rightarrow> ('h, 'a) vmem \<Rightarrow> ('h, 'a) vmem \<Rightarrow> addr \<Rightarrow> bool" where
  "same_buffer B w w' b \<longleftrightarrow> vm_slots w' b = vm_slots w b \<and> sb_size B (vm_heap w') b = sb_size B (vm_heap w) b"

definition vec_frame ::
  "'h shared_buffer \<Rightarrow> ('h \<Rightarrow> addr \<Rightarrow> nat) \<Rightarrow> vec \<Rightarrow> ('h, 'a) vmem \<Rightarrow> vec \<Rightarrow> ('h, 'a) vmem \<Rightarrow> bool" where
  "vec_frame B refs v w v' w' \<longleftrightarrow> mFlags v' = mFlags v \<and> mItemSize v' = mItemSize v \<and>
     (\<forall>b. others refs w' v' b = others refs w v b \<and> (0 < others refs w v b \<longrightarrow> same_buffer B w w' b))"

lemma has_flag_cong: "mFlags v' = mFlags v \<Longrightarrow> has_flag f v' = has_flag f v"
  by (simp add: has_flag_def)

lemma has_flag_upd [simp]:
  "has_flag f (v\<lparr>mStorage := s\<rparr>) = has_flag f v" "has_flag f (v\<lparr>mCount := n\<rparr>) = has_flag f v"
  by (simp_all add: has_flag_def)

lemma raw_slots_simps [simp]:
  "raw_slots (v\<lparr>mStorage := st\<rparr>) s = raw_slots v s" "raw_slots (v\<lparr>mCount := k\<rparr>) s = raw_slots v s"
  "raw_slots v []" "raw_slots v (replicate n None)"
  by (simp_all add: raw_slots_def set_replicate_conv_if)

lemma raw_slots_append [simp]: "raw_slots v (xs @ ys) = (raw_slots v xs \<and> raw_slots v ys)"
  unfolding raw_slots_def by auto

lemma raw_slots_cong: "mFlags v' = mFlags v \<Longrightarrow> raw_slots v' s = raw_slots v s"
  by (simp add: raw_slots_def has_flag_def)

lemma raw_slots_take [intro]: "raw_slots v s \<Longrightarrow> raw_slots v (take n s)"
  and raw_slots_drop [intro]: "raw_slots v s \<Longrightarrow> raw_slots v (drop n s)"
  by (auto simp: raw_slots_def dest: in_set_takeD in_set_dropD)

lemma same_buffer_refl [simp]: "same_buffer B w w b"
  by (simp add: same_buffer_def)

lemma vec_frame_refl [simp]: "vec_frame B refs v w v w"
  by (simp add: vec_frame_def)

lemma vec_frame_trans:
  assumes "vec_frame B refs v w v1 w1" "vec_frame B refs v1 w1 v2 w2"
  shows "vec_frame B refs v w v2 w2"
  using assms by (simp add: vec_frame_def same_buffer_def)

lemma holds_frame:
  assumes "vec_frame B refs v w v' w'" "vec_holds B refs w u ys" "\<forall>a. mStorage u = Some a \<longrightarrow> 0 < others refs w v a"
  shows "vec_holds B refs w' u ys"
proof (cases "mStorage u")
  case (Some a)
  with assms(1,3) have "0 < others refs w' v' a" "same_buffer B w w' a" by (auto simp: vec_frame_def)
  then show ?thesis using assms(2) Some by (auto simp: vec_holds_def others_def same_buffer_def)
qed (use assms(2) in \<open>simp add: vec_holds_def\<close>)

section \<open>Slots\<close>

lemma those_map_Some [simp]: "those (map Some xs) = Some xs"
  by (induction xs) auto

lemma read_ok:
  assumes "vm_slots w a = P @ map Some xs @ R" "length P = i" "length xs = n"
  shows "read_items w (Slots a i) n = Some xs"
  using assms by (simp add: read_items_def take_map)

lemma put_ok:
  assumes "vm_slots w a = P @ Q @ R" "length P = i" "length Q = length xs" "raw_slots v Q"
  shows "put_items v a i xs w = VRet (w\<lparr>vm_slots := (vm_slots w)(a := P @ map Some xs @ R)\<rparr>)"
  using assms by (simp add: put_items_def Let_def raw_slots_def flip: assms(3))

lemma end_ok:
  assumes "vm_slots w a = P @ map Some xs @ R" "length P = i" "length xs = n"
  shows "end_items a i n w = VRet (w\<lparr>vm_slots := (vm_slots w)(a := P @ replicate n None @ R)\<rparr>)"
  using assms by (auto simp: end_items_def Let_def)

end
