(* ===== verification/VectorProps.thy ===== *)
theory VectorProps
  imports VectorImpl
begin

text \<open>
  The operations of \<open>VectorImpl\<close> refine those of lists: a vector that stands for a list stands for the
  expected list afterwards, other vectors that share its buffer keep theirs, and nothing is read
  or written that is not there.
\<close>

section \<open>Storage\<close>

lemma laws_all:
  assumes "sb_laws B refs"
  shows "\<forall>h n. case sb_alloc B n h of
      (None, h') \<Rightarrow> refs h' = refs h \<and> sb_size B h' = sb_size B h
    | (Some a, h') \<Rightarrow> refs h a = 0 \<and> refs h' = (refs h)(a := 1) \<and> sb_size B h' = (sb_size B h)(a := n)"
    "\<forall>h a. 0 < refs h a \<longrightarrow>
      refs (sb_acquire B a h) = (refs h)(a := Suc (refs h a)) \<and> sb_size B (sb_acquire B a h) = sb_size B h"
    "\<forall>h a. 0 < refs h a \<longrightarrow> (case sb_release B a h of (n, h') \<Rightarrow>
      n = refs h a \<and> refs h' = (refs h)(a := n - 1) \<and> sb_size B h' = sb_size B h)"
    "\<forall>h a. refs h a = 0 \<longrightarrow>
      refs (sb_dealloc B a h) = refs h \<and> (\<forall>b. b \<noteq> a \<longrightarrow> sb_size B (sb_dealloc B a h) b = sb_size B h b)"
    "\<forall>h a. 0 < refs h a \<longrightarrow> sb_attemptEdit B a h = (if refs h a = 1 then Some a else None)"
    "\<forall>h a n. 0 < refs h a \<longrightarrow> (case sb_editResize B a n h of
      (None, h') \<Rightarrow> refs h' = refs h \<and> sb_size B h' = sb_size B h
    | (Some b, h') \<Rightarrow> (b = a \<and> refs h a = 1 \<or> refs h b = 0) \<and> refs h' = (refs h)(a := refs h a - 1, b := 1) \<and>
        sb_size B h' b = n \<and> (\<forall>c. c \<noteq> b \<and> 0 < refs h' c \<longrightarrow> sb_size B h' c = sb_size B h c))"
  using assms by (unfold sb_laws_def) (elim conjE, assumption)+

lemma law_release:
  assumes "sb_laws B refs" "0 < refs h a"
  shows "\<exists>h'. sb_release B a h = (refs h a, h') \<and> refs h' = (refs h)(a := refs h a - 1) \<and> sb_size B h' = sb_size B h"
  using laws_all(3) [OF assms(1), rule_format, OF assms(2)] by (cases "sb_release B a h") simp

lemma law_dealloc:
  assumes "sb_laws B refs" "refs h a = 0"
  shows "refs (sb_dealloc B a h) = refs h" "b \<noteq> a \<Longrightarrow> sb_size B (sb_dealloc B a h) b = sb_size B h b"
  using laws_all(4) [OF assms(1), rule_format, OF assms(2)] by simp_all

lemma law_attempt:
  assumes "sb_laws B refs" "0 < refs h a"
  shows "sb_attemptEdit B a h = (if refs h a = 1 then Some a else None)"
  using laws_all(5) [OF assms(1), rule_format, OF assms(2)] by simp

lemma alloc_Some:
  assumes "sb_laws B refs" "vm_alloc B v n w = (Some a, w1)"
  shows "refs (vm_heap w) a = 0" "refs (vm_heap w1) = (refs (vm_heap w))(a := 1)"
    "sb_size B (vm_heap w1) = (sb_size B (vm_heap w))(a := n)"
    "vm_slots w1 = (vm_slots w)(a := replicate (n div mItemSize v) None)"
proof -
  from assms(2) obtain h where h: "sb_alloc B n (vm_heap w) = (Some a, h)"
    "w1 = w\<lparr>vm_heap := h, vm_slots := (vm_slots w)(a := replicate (n div mItemSize v) None)\<rparr>"
    by (auto simp: vm_alloc_def split: prod.splits option.splits)
  note laws_all(1) [OF assms(1), rule_format, where h = "vm_heap w" and n = n]
  with h show "refs (vm_heap w) a = 0" "refs (vm_heap w1) = (refs (vm_heap w))(a := 1)"
    "sb_size B (vm_heap w1) = (sb_size B (vm_heap w))(a := n)"
    "vm_slots w1 = (vm_slots w)(a := replicate (n div mItemSize v) None)" by simp_all
qed

lemma alloc_None:
  assumes "sb_laws B refs" "vm_alloc B v n w = (None, w1)"
  shows "vec_frame B refs v w v w1" "vec_holds B refs w v xs \<Longrightarrow> vec_holds B refs w1 v xs" "\<not> sb_plenty B"
proof -
  from assms(2) obtain h where h: "sb_alloc B n (vm_heap w) = (None, h)" "w1 = w\<lparr>vm_heap := h\<rparr>"
    by (auto simp: vm_alloc_def split: prod.splits option.splits)
  note laws_all(1) [OF assms(1), rule_format, where h = "vm_heap w" and n = n]
  with h have "refs (vm_heap w1) = refs (vm_heap w)" "sb_size B (vm_heap w1) = sb_size B (vm_heap w)"
    "vm_slots w1 = vm_slots w" by simp_all
  then show "vec_frame B refs v w v w1" "vec_holds B refs w v xs \<Longrightarrow> vec_holds B refs w1 v xs"
    by (simp_all add: vec_frame_def others_def same_buffer_def vec_holds_def cong: option.case_cong)
  show "\<not> sb_plenty B" unfolding sb_plenty_def by (metis h(1) fst_conv)
qed

text \<open>Giving the storage up: the other owners keep it, and it is freed if there are none.\<close>

lemma release_ok:
  assumes "sb_laws B refs" "vec_holds B refs w v xs"
  shows "vok False (\<lambda>w1. (\<forall>b. refs (vm_heap w1) b = others refs w v b) \<and>
      (\<forall>b. 0 < others refs w v b \<longrightarrow> same_buffer B w w1 b)) (release_storage B v w)"
proof (cases "mStorage v")
  case None
  then show ?thesis by (simp add: release_storage_def others_def)
next
  case (Some sb)
  from assms(2) Some obtain rest where r: "0 < refs (vm_heap w) sb" "vm_slots w sb = map Some xs @ rest"
    "mCount v = length xs" by (auto simp: vec_holds_def)
  obtain h where h: "sb_release B sb (vm_heap w) = (refs (vm_heap w) sb, h)"
    "refs h = (refs (vm_heap w))(sb := refs (vm_heap w) sb - 1)" "sb_size B h = sb_size B (vm_heap w)"
    using law_release [OF assms(1) r(1)] by blast
  show ?thesis
  proof (cases "refs (vm_heap w) sb = 1")
    case False
    then show ?thesis using Some h by (simp add: release_storage_def others_def same_buffer_def)
  next
    case True
    then have d: "refs (sb_dealloc B sb h) = refs h" "\<forall>b. b \<noteq> sb \<longrightarrow> sb_size B (sb_dealloc B sb h) b = sb_size B h b"
      using law_dealloc [OF assms(1), of h sb] h(2) True by simp_all
    have "\<exists>s. do_destroy v sb 0 (mCount v) (w\<lparr>vm_heap := h\<rparr>) = VRet (w\<lparr>vm_heap := h, vm_slots := (vm_slots w)(sb := s)\<rparr>)"
    proof (cases "trivial_dtor v")
      case True
      have "w\<lparr>vm_heap := h, vm_slots := (vm_slots w)(sb := vm_slots w sb)\<rparr> = w\<lparr>vm_heap := h\<rparr>" by simp
      with True show ?thesis unfolding do_destroy_def by metis
    next
      case False
      then show ?thesis
        using end_ok [of "w\<lparr>vm_heap := h\<rparr>" sb "[]" xs rest 0 "mCount v"] r by (auto simp: do_destroy_def)
    qed
    then obtain s where "do_destroy v sb 0 (mCount v) (w\<lparr>vm_heap := h\<rparr>) =
        VRet (w\<lparr>vm_heap := h, vm_slots := (vm_slots w)(sb := s)\<rparr>)" by blast
    with Some True h d show ?thesis by (simp add: release_storage_def others_def same_buffer_def)
  qed
qed

lemma vec_frame_count [simp]:
  "vec_frame B refs v w (v'\<lparr>mCount := k\<rparr>) w' = vec_frame B refs v w v' w'"
  by (simp add: vec_frame_def others_def)

text \<open>A new buffer with contents \<open>s\<close> takes the place of the old one.\<close>

lemma install_ok:
  assumes "sb_laws B refs" "vec_holds B refs w v xs" "vm_alloc B v n w = (Some a, w1)"
    "w2 = w1\<lparr>vm_slots := (vm_slots w1)(a := s)\<rparr>"
  shows "vok False (\<lambda>w3. vec_frame B refs v w (v\<lparr>mStorage := Some a\<rparr>) w3 \<and> refs (vm_heap w3) a = 1 \<and>
      vm_slots w3 a = s \<and> sb_size B (vm_heap w3) a = n) (release_storage B v w2)"
proof -
  note a = alloc_Some [OF assms(1,3)]
  have na: "mStorage v \<noteq> Some a" using assms(2) a(1) by (auto simp: vec_holds_def)
  have o: "others refs w2 v = (others refs w v)(a := 1)"
    using na a(1,2) assms(4) by (auto simp: others_def fun_eq_iff)
  have "vec_holds B refs w2 v xs"
    using assms(2,4) na a by (auto simp: vec_holds_def split: option.splits)
  from release_ok [OF assms(1) this] show ?thesis
    by (rule vok_mono) (use o a na assms(4) in \<open>auto simp: vec_frame_def others_def same_buffer_def split: if_splits\<close>)
qed

text \<open>The only owner writes to its buffer.\<close>

lemma frame_own:
  assumes "mStorage v = Some a" "refs (vm_heap w) a = 1" "mStorage v' = Some a" "mFlags v' = mFlags v" "mItemSize v' = mItemSize v"
  shows "vec_frame B refs v w v' (w\<lparr>vm_slots := (vm_slots w)(a := s)\<rparr>)"
  using assms by (auto simp: vec_frame_def others_def same_buffer_def)

lemma editArray_ok:
  assumes "sb_laws B refs" "vec_holds B refs w v xs"
  shows "vok (\<not> sb_plenty B) (\<lambda>(v', w'). vec_frame B refs v w v' w' \<and> vec_holds B refs w' v' xs \<and>
      capacity B v' w' = capacity B v w \<and> mCount v' = mCount v \<and>
      (case mStorage v of None \<Rightarrow> mStorage v' = None
       | Some _ \<Rightarrow> \<exists>a. mStorage v' = Some a \<and> refs (vm_heap w') a = 1)) (editArrayImpl B v w)"
proof (cases "mStorage v")
  case None
  then show ?thesis using assms by (simp add: editArrayImpl_def)
next
  case (Some sb)
  from assms(2) Some obtain rest where r: "0 < refs (vm_heap w) sb" "vm_slots w sb = map Some xs @ rest"
    "mCount v = length xs" "length (vm_slots w sb) = sb_size B (vm_heap w) sb div mItemSize v"
    by (auto simp: vec_holds_def)
  have ae: "sb_attemptEdit B sb (vm_heap w) = (if refs (vm_heap w) sb = 1 then Some sb else None)"
    by (rule law_attempt [OF assms(1) r(1)])
  show ?thesis
  proof (cases "refs (vm_heap w) sb = 1")
    case True
    then show ?thesis using Some ae assms by (simp add: editArrayImpl_def)
  next
    case False
    let ?n = "sb_size B (vm_heap w) sb"
    show ?thesis
    proof (cases "vm_alloc B v ?n w")
      case (Pair st w1)
      show ?thesis
      proof (cases st)
        case None
        then show ?thesis using Pair Some ae False alloc_None(3) [OF assms(1), of v ?n w w1]
          by (simp add: editArrayImpl_def)
      next
        case (Some a)
        with Pair have al: "vm_alloc B v ?n w = (Some a, w1)" by simp
        note a = alloc_Some [OF assms(1) al]
        have ne: "a \<noteq> sb" using a(1) r(1) by auto
        define k where "k = ?n div mItemSize v"
        have len: "k = length xs + length rest" using r(2,4) by (simp add: k_def)
        let ?s = "map Some xs @ replicate (length rest) None"
        have "read_items w1 (Slots sb 0) (mCount v) = Some xs"
          using r(2,3) ne a(4) by (intro read_ok [where P = "[]" and R = rest]) simp_all
        then have c: "do_copy v a 0 (Slots sb 0) (mCount v) w1 = VRet (w1\<lparr>vm_slots := (vm_slots w1)(a := ?s)\<rparr>)"
          unfolding do_copy_def using a(4) len
          by (simp add: k_def [symmetric] replicate_add put_ok [where P = "[]" and Q = "replicate (length xs) None"])
        let ?P = "\<lambda>w3. vec_frame B refs v w (v\<lparr>mStorage := Some a\<rparr>) w3 \<and> refs (vm_heap w3) a = 1 \<and>
          vm_slots w3 a = ?s \<and> sb_size B (vm_heap w3) a = ?n"
        have "vok (\<not> sb_plenty B) ?P (release_storage B v (w1\<lparr>vm_slots := (vm_slots w1)(a := ?s)\<rparr>))"
          by (rule vok_mono [OF install_ok [OF assms al refl]]) simp_all
        then show ?thesis
          using \<open>mStorage v = Some sb\<close> ae False al c assms(2) len
          by (auto simp: editArrayImpl_def k_def vec_holds_def capacity_def intro!: vok_then)
      qed
    qed
  qed
qed


text \<open>Resizing in place or by copying bytes.\<close>

lemma resize_Some:
  assumes "sb_laws B refs" "vec_holds B refs w v xs" "mStorage v = Some sb" "vm_editResize B v sb n w = (Some b, w1)"
  shows "vec_frame B refs v w (v\<lparr>mStorage := Some b\<rparr>) w1" "refs (vm_heap w1) b = 1" "sb_size B (vm_heap w1) b = n"
    "vm_slots w1 b = (let k = n div mItemSize v; s = take k (vm_slots w sb) in s @ replicate (k - length s) None)"
proof -
  have r: "0 < refs (vm_heap w) sb" using assms(2,3) by (simp add: vec_holds_def)
  note ae = law_attempt [OF assms(1) r]
  obtain h where h: "sb_editResize B sb n (vm_heap w) = (Some b, h)" "vm_heap w1 = h"
    "vm_slots w1 = (if sb_attemptEdit B sb (vm_heap w) = None then vm_slots w else (vm_slots w)(sb := []))
      (b := let k = n div mItemSize v; s = take k (vm_slots w sb) in s @ replicate (k - length s) None)"
    using assms(4) by (auto simp: vm_editResize_def Let_def split: prod.splits option.splits)
  have l: "b = sb \<and> refs (vm_heap w) sb = 1 \<or> refs (vm_heap w) b = 0"
    "refs h = (refs (vm_heap w))(sb := refs (vm_heap w) sb - 1, b := 1)" "sb_size B h b = n"
    "\<forall>c. c \<noteq> b \<and> 0 < refs h c \<longrightarrow> sb_size B h c = sb_size B (vm_heap w) c"
    using laws_all(6) [OF assms(1), rule_format, OF r, of n] h(1) by simp_all
  show "refs (vm_heap w1) b = 1" "sb_size B (vm_heap w1) b = n" using h(2) l by simp_all
  show "vm_slots w1 b = (let k = n div mItemSize v; s = take k (vm_slots w sb) in s @ replicate (k - length s) None)"
    using h(3) by simp
  show "vec_frame B refs v w (v\<lparr>mStorage := Some b\<rparr>) w1"
    unfolding vec_frame_def
  proof (intro conjI allI impI)
    fix c
    show "others refs w1 (v\<lparr>mStorage := Some b\<rparr>) c = others refs w v c"
      using l(1,2) h(2) assms(3) by (auto simp: others_def)
    assume c: "0 < others refs w v c"
    have nb: "c \<noteq> b" using c l(1) assms(3) by (auto simp: others_def)
    have "refs h c = others refs w v c" using nb l(2) assms(3) by (simp add: others_def)
    then have "sb_size B h c = sb_size B (vm_heap w) c" using l(4) nb c by simp
    moreover have "vm_slots w1 c = vm_slots w c" using nb h(3) ae c assms(3) by (auto simp: others_def split: if_splits)
    ultimately show "same_buffer B w w1 c" using h(2) by (simp add: same_buffer_def)
  qed simp_all
qed

lemma resize_None:
  assumes "sb_laws B refs" "vec_holds B refs w v xs" "mStorage v = Some sb" "vm_editResize B v sb n w = (None, w1)"
  shows "vec_frame B refs v w v w1" "vec_holds B refs w1 v xs" "\<not> sb_plenty B"
proof -
  have r: "0 < refs (vm_heap w) sb" using assms(2,3) by (simp add: vec_holds_def)
  obtain h where h: "sb_editResize B sb n (vm_heap w) = (None, h)" "w1 = w\<lparr>vm_heap := h\<rparr>"
    using assms(4) by (auto simp: vm_editResize_def Let_def split: prod.splits option.splits)
  then have "refs (vm_heap w1) = refs (vm_heap w)" "sb_size B (vm_heap w1) = sb_size B (vm_heap w)" "vm_slots w1 = vm_slots w"
    using laws_all(6) [OF assms(1), rule_format, OF r, of n] by simp_all
  then show "vec_frame B refs v w v w1" "vec_holds B refs w1 v xs" using assms(2)
    by (simp_all add: vec_frame_def others_def same_buffer_def vec_holds_def cong: option.case_cong)
  show "\<not> sb_plenty B" unfolding sb_plenty_def by (metis h(1) fst_conv)
qed

section \<open>Growing\<close>

text \<open>Room for \<open>n\<close> items.\<close>

definition vec_room :: "'h shared_buffer \<Rightarrow> vec \<Rightarrow> nat \<Rightarrow> bool" where
  "vec_room B v n \<longleftrightarrow> sb_plenty B \<and> (n + n div 2 + 4) * mItemSize v < size_max"

text \<open>A vector that grew: its only buffer has \<open>k\<close> raw slots in front of item \<open>pos\<close>.\<close>

definition vec_gap ::
  "'h shared_buffer \<Rightarrow> ('h \<Rightarrow> addr \<Rightarrow> nat) \<Rightarrow> ('h, 'a) vmem \<Rightarrow> vec \<Rightarrow> addr \<Rightarrow> 'a list \<Rightarrow> nat \<Rightarrow> nat \<Rightarrow> bool" where
  "vec_gap B refs w v a xs pos k \<longleftrightarrow> mStorage v = Some a \<and> refs (vm_heap w) a = 1 \<and> sb_size B (vm_heap w) a < size_max \<and>
     0 < mItemSize v \<and> 4 * mItemSize v < size_max \<and> mCount v = length xs + k \<and> mCount v < size_max \<and> pos \<le> length xs \<and>
     length (vm_slots w a) = sb_size B (vm_heap w) a div mItemSize v \<and>
     (\<exists>G rest. vm_slots w a = map Some (take pos xs) @ G @ map Some (drop pos xs) @ rest \<and> length G = k \<and>
        raw_slots v G \<and> raw_slots v rest)"

lemma fill_gap:
  assumes "vec_gap B refs w v a xs pos k" "length ys = k"
  shows "vok False (\<lambda>w'. vec_frame B refs v w v w' \<and> vec_holds B refs w' v (take pos xs @ ys @ drop pos xs))
    (put_items v a pos ys w)"
proof -
  from assms(1) obtain G rest where g: "mStorage v = Some a" "refs (vm_heap w) a = 1" "pos \<le> length xs"
    "vm_slots w a = map Some (take pos xs) @ G @ map Some (drop pos xs) @ rest" "length G = k"
    "raw_slots v G" "raw_slots v rest" by (auto simp: vec_gap_def)
  let ?s = "map Some (take pos xs) @ map Some ys @ map Some (drop pos xs) @ rest"
  have p: "put_items v a pos ys w = VRet (w\<lparr>vm_slots := (vm_slots w)(a := ?s)\<rparr>)"
    using g assms(2) by (intro put_ok [where Q = G]) simp_all
  have "length ?s = length (vm_slots w a)" using g(4,5) assms(2) by simp
  moreover have "\<exists>rest. ?s = map Some (take pos xs @ ys @ drop pos xs) @ rest \<and> raw_slots v rest"
    by (intro exI [of _ rest]) (simp add: g(7))
  ultimately have "vec_holds B refs (w\<lparr>vm_slots := (vm_slots w)(a := ?s)\<rparr>) v (take pos xs @ ys @ drop pos xs)"
    unfolding vec_holds_def g(1) option.case using assms(1) assms(2) [symmetric] g(2,3)
    by (intro conjI) (simp_all add: vec_gap_def)
  moreover have "vec_frame B refs v w v (w\<lparr>vm_slots := (vm_slots w)(a := ?s)\<rparr>)"
    using g(1,2) by (rule frame_own) (simp_all add: g(1))
  ultimately show ?thesis unfolding p by simp
qed

text \<open>Copying around the gap into a new buffer with \<open>c\<close> slots.\<close>

lemma copy_gap:
  assumes "vm_slots w1 sb = map Some xs @ rest" "vm_slots w1 a = replicate c None" "length xs + k \<le> c" "pos \<le> length xs" "a \<noteq> sb"
    "n = length xs"
  shows "vthen (if pos \<noteq> 0 then do_copy v a 0 (Slots sb 0) pos w1 else VRet w1) (\<lambda>w2.
      if pos \<noteq> n then do_copy v a (pos + k) (Slots sb pos) (n - pos) w2 else VRet w2) =
    VRet (w1\<lparr>vm_slots := (vm_slots w1)(a := map Some (take pos xs) @ replicate k None @ map Some (drop pos xs) @
      replicate (c - (length xs + k)) None)\<rparr>)"
proof -
  let ?P = "map Some (take pos xs)"
  define d where "d = c - (length xs + k)"
  have c: "replicate c None = replicate pos None @ replicate k None @ replicate (length xs - pos) None @ replicate d None"
    using assms(3,4) by (simp add: replicate_add [symmetric] d_def)
  define w2 where "w2 = w1\<lparr>vm_slots := (vm_slots w1)(a := ?P @ replicate k None @ replicate (length xs - pos) None @ replicate d None)\<rparr>"
  have r1: "read_items w1 (Slots sb 0) pos = Some (take pos xs)"
    by (rule read_ok [where P = "[]" and R = "map Some (drop pos xs) @ rest"])
      (use assms in \<open>simp_all flip: map_append append_assoc\<close>)
  have "put_items v a 0 (take pos xs) w1 = VRet w2"
    unfolding w2_def
    by (rule put_ok [where P = "[]" and Q = "replicate pos None", simplified]) (use assms c in simp_all)
  moreover have "w2 = w1" if "pos = 0"
  proof -
    have "w2 = w1\<lparr>vm_slots := (vm_slots w1)(a := vm_slots w1 a)\<rparr>" by (simp add: w2_def assms(2) c that)
    then show ?thesis by simp
  qed
  ultimately have first: "(if pos \<noteq> 0 then do_copy v a 0 (Slots sb 0) pos w1 else VRet w1) = VRet w2"
    using r1 by (simp add: do_copy_def)
  have r2: "read_items w2 (Slots sb pos) (n - pos) = Some (drop pos xs)"
    by (rule read_ok [where P = "map Some (take pos xs)" and R = rest])
      (use assms in \<open>simp_all add: w2_def flip: map_append append_assoc\<close>)
  let ?w3 = "w1\<lparr>vm_slots := (vm_slots w1)(a := ?P @ replicate k None @ map Some (drop pos xs) @ replicate d None)\<rparr>"
  have "put_items v a (pos + k) (drop pos xs) w2 =
      VRet (w2\<lparr>vm_slots := (vm_slots w2)(a := (?P @ replicate k None) @ map Some (drop pos xs) @ replicate d None)\<rparr>)"
    by (rule put_ok [where Q = "replicate (length xs - pos) None"]) (use assms(4) in \<open>simp_all add: w2_def\<close>)
  then have "put_items v a (pos + k) (drop pos xs) w2 = VRet ?w3" by (simp add: w2_def)
  moreover have "w2 = ?w3" if "pos = n" using that assms(6) by (simp add: w2_def)
  ultimately have second: "(if pos \<noteq> n then do_copy v a (pos + k) (Slots sb pos) (n - pos) w2 else VRet w2) = VRet ?w3"
    using r2 by (simp add: do_copy_def)
  show ?thesis unfolding first vthen.simps second d_def ..
qed


lemma vec_gap_no_room:
  assumes "size_max \<le> n \<or> size_max \<le> n + n div 2 + 1 \<or> size_max \<le> max 4 (n + n div 2 + 1) * mItemSize v" "0 < mItemSize v"
  shows "\<not> vec_room B v n"
proof
  assume "vec_room B v n"
  then have r: "(n + n div 2 + 4) * mItemSize v < size_max" by (simp add: vec_room_def)
  define q where "q = n + n div 2 + 4"
  have q: "n \<le> q" "n + n div 2 + 1 \<le> q" "max 4 (n + n div 2 + 1) \<le> q" by (simp_all add: q_def)
  have "max 4 (n + n div 2 + 1) * mItemSize v \<le> q * mItemSize v" by (rule mult_le_mono1) (rule q(3))
  moreover have "q * 1 \<le> q * mItemSize v" by (rule mult_le_mono2) (use assms(2) in simp)
  moreover have "q * mItemSize v < size_max" using r by (simp add: q_def)
  ultimately show False using q(1,2) assms(1) by linarith
qed

lemma finish_grow:
  assumes "vec_gap B refs w v a xs pos k"
  shows "itemLocation B v pos w = (if k = 0 \<and> pos = length xs \<and> capacity B v w = length xs then None else Some (a, pos))"
proof -
  from assms obtain G rest where "mStorage v = Some a" "length (vm_slots w a) = capacity B v w" "pos \<le> length xs"
    "vm_slots w a = map Some (take pos xs) @ G @ map Some (drop pos xs) @ rest" "length G = k"
    by (auto simp: vec_gap_def capacity_def)
  then have "length xs + k \<le> capacity B v w" by (simp flip: \<open>length (vm_slots w a) = capacity B v w\<close>)
  then show ?thesis using \<open>mStorage v = Some a\<close> \<open>pos \<le> length xs\<close> by (auto simp: itemLocation_def)
qed

text \<open>The move that opens the gap in place.\<close>

lemma move_gap:
  assumes "vm_slots w a = map Some xs @ rest" "pos \<le> length xs" "k \<le> length rest" "raw_slots v rest" "n = length xs"
  shows "\<exists>G rest'. (if pos \<noteq> n then do_move v a (pos + k) pos (n - pos) w else VRet w) =
      VRet (w\<lparr>vm_slots := (vm_slots w)(a := map Some (take pos xs) @ G @ map Some (drop pos xs) @ rest')\<rparr>) \<and>
    length G = k \<and> length rest' = length rest - k \<and> raw_slots v G \<and> raw_slots v rest'"
proof (cases "pos = n")
  case True
  have "w = w\<lparr>vm_slots := (vm_slots w)(a := map Some xs @ take k rest @ drop k rest)\<rparr>"
    by (simp add: fun_upd_idem [of "vm_slots w" a "map Some xs @ rest"] assms(1))
  with True assms show ?thesis by (intro exI [of _ "take k rest"] exI [of _ "drop k rest"]) auto
next
  case False
  let ?P = "map Some (take pos xs)" and ?m = "length xs - pos"
  have s: "vm_slots w a = ?P @ map Some (drop pos xs) @ rest" using assms(1) by (simp flip: map_append append_assoc)
  define M where "M = replicate ?m None @ rest"
  have r: "read_items w (Slots a pos) ?m = Some (drop pos xs)" by (rule read_ok [OF s]) (use assms(2) in simp_all)
  have e: "end_items a pos ?m w = VRet (w\<lparr>vm_slots := (vm_slots w)(a := ?P @ M)\<rparr>)"
    using end_ok [OF s, of pos ?m] assms(2) by (simp add: M_def)
  let ?G = "take k M" and ?rest = "drop (k + ?m) M"
  have raw: "raw_slots v M" using assms(4) by (simp add: M_def)
  have M: "M = ?G @ take ?m (drop k M) @ ?rest"
    by (metis append_take_drop_id drop_drop add.commute)
  have len: "length M = ?m + length rest" by (simp add: M_def)
  have "put_items v a (pos + k) (drop pos xs) (w\<lparr>vm_slots := (vm_slots w)(a := ?P @ M)\<rparr>) =
      VRet ((w\<lparr>vm_slots := (vm_slots w)(a := ?P @ M)\<rparr>)\<lparr>vm_slots :=
        ((vm_slots w)(a := ?P @ M))(a := (?P @ ?G) @ map Some (drop pos xs) @ ?rest)\<rparr>)"
    by (subst put_ok [where P = "?P @ ?G" and Q = "take ?m (drop k M)" and R = ?rest])
      (use raw M len assms(2,3) in \<open>auto simp: min_def\<close>)
  then have "do_move v a (pos + k) pos ?m w = VRet (w\<lparr>vm_slots := (vm_slots w)(a := ?P @ ?G @ map Some (drop pos xs) @ ?rest)\<rparr>)"
    using r e by (simp add: do_move_def)
  then show ?thesis using False assms(3,5) raw len
    by (intro exI [of _ ?G] exI [of _ ?rest]) (auto simp: min_def)
qed

lemma grow_ok:
  assumes L: "sb_laws B refs" and H: "vec_holds B refs w v xs" and pos: "pos \<le> length xs"
  shows "vok (\<not> vec_room B v (length xs + k)) (\<lambda>(loc, v', w'). vec_frame B refs v w v' w' \<and>
      (case loc of
         Some (a, i) \<Rightarrow> i = pos \<and> vec_gap B refs w' v' a xs pos k
       | None \<Rightarrow> vec_holds B refs w' v' xs \<and>
           (\<not> sb_plenty B \<or> k = 0 \<and> pos = length xs \<and> capacity B v w = length xs))) (grow B pos k v w)"
    (is "vok ?A ?P _")
proof -
  let ?n = "length xs + k" and ?c = "max 4 (length xs + k + (length xs + k) div 2 + 1)"
  have f: "0 < mItemSize v" "4 * mItemSize v < size_max" "mCount v = length xs" using H by (simp_all add: vec_holds_def)
  show ?thesis
  proof (cases "size_max \<le> ?n")
    case True
    with vec_gap_no_room [of ?n v B] f show ?thesis by (simp add: grow_def Let_def)
  next
    case small: False
    show ?thesis
    proof (cases "capacity B v w < ?n")
      case False
      have run: "grow B pos k v w = vthen (editArrayImpl B v w) (\<lambda>(v1, w1).
        vthen (if pos \<noteq> mCount v
           then case mStorage v1 of None \<Rightarrow> VUndef | Some a \<Rightarrow> do_move v a (pos + k) pos (mCount v - pos) w1
           else VRet w1) (\<lambda>w2. VRet (itemLocation B (v1\<lparr>mCount := ?n\<rparr>) pos w2, v1\<lparr>mCount := ?n\<rparr>, w2)))"
        using False small f(3) by (simp add: grow_def Let_def)
      have step: "vok ?A ?P (vthen (if pos \<noteq> mCount v
           then case mStorage v1 of None \<Rightarrow> VUndef | Some a \<Rightarrow> do_move v a (pos + k) pos (mCount v - pos) w1
           else VRet w1) (\<lambda>w2. VRet (itemLocation B (v1\<lparr>mCount := ?n\<rparr>) pos w2, v1\<lparr>mCount := ?n\<rparr>, w2)))"
        if e: "vec_frame B refs v w v1 w1" "vec_holds B refs w1 v1 xs" "capacity B v1 w1 = capacity B v w"
          "case mStorage v of None \<Rightarrow> mStorage v1 = None | Some _ \<Rightarrow> \<exists>a. mStorage v1 = Some a \<and> refs (vm_heap w1) a = 1"
        for v1 w1
      proof (cases "mStorage v")
        case None
        then have "xs = []" "k = 0" using H False by (simp_all add: vec_holds_def capacity_def)
        with None e pos f show ?thesis by (simp add: itemLocation_def capacity_def Let_def vec_holds_def)
      next
        case (Some _)
        with e(4) obtain a where a: "mStorage v1 = Some a" "refs (vm_heap w1) a = 1" by auto
        from e(2) a(1) obtain rest where r: "vm_slots w1 a = map Some xs @ rest" "raw_slots v1 rest"
          "length (vm_slots w1 a) = capacity B v1 w1" by (auto simp: vec_holds_def capacity_def)
        have fl: "mFlags v1 = mFlags v" "mItemSize v1 = mItemSize v" using e(1) by (simp_all add: vec_frame_def)
        have "k \<le> length rest" using r(1,3) False e(3) by simp
        from move_gap [OF r(1) pos this, of v "mCount v"] r(2) f(3) obtain G rest' where
          m: "(if pos \<noteq> mCount v then do_move v a (pos + k) pos (mCount v - pos) w1 else VRet w1) =
            VRet (w1\<lparr>vm_slots := (vm_slots w1)(a := map Some (take pos xs) @ G @ map Some (drop pos xs) @ rest')\<rparr>)"
          "length G = k" "length rest' = length rest - k" "raw_slots v G" "raw_slots v rest'"
          using raw_slots_cong [OF fl(1)] by blast
        let ?w2 = "w1\<lparr>vm_slots := (vm_slots w1)(a := map Some (take pos xs) @ G @ map Some (drop pos xs) @ rest')\<rparr>"
        have "length (map Some (take pos xs) @ G @ map Some (drop pos xs) @ rest') = length (vm_slots w1 a)"
          using r(1) m(2,3) pos \<open>k \<le> length rest\<close> by simp
        then have gap: "vec_gap B refs ?w2 (v1\<lparr>mCount := ?n\<rparr>) a xs pos k"
          using e(2) a pos small m(2,4,5) raw_slots_cong [OF fl(1)] by (auto simp: vec_gap_def vec_holds_def)
        have fr: "vec_frame B refs v w (v1\<lparr>mCount := ?n\<rparr>) ?w2"
          using vec_frame_trans [OF e(1) frame_own [where v = v1 and v' = v1 and refs = refs and w = w1 and a = a, OF a a(1) refl refl]] by simp
        have hold: "vec_holds B refs ?w2 (v1\<lparr>mCount := ?n\<rparr>) xs" if "k = 0"
        proof -
          have "G = []" using m(2) that by simp
          then show ?thesis using e(2) a m(5) that raw_slots_cong [OF fl(1)]
            \<open>length _ = length (vm_slots w1 a)\<close>
            by (auto simp: vec_holds_def simp flip: append_assoc map_append)
        qed
        have cap: "capacity B (v1\<lparr>mCount := ?n\<rparr>) ?w2 = capacity B v w"
          unfolding e(3) [symmetric] by (simp add: capacity_def a(1))
        have moved: "(if pos \<noteq> mCount v
           then case mStorage v1 of None \<Rightarrow> VUndef | Some a \<Rightarrow> do_move v a (pos + k) pos (mCount v - pos) w1
           else VRet w1) = VRet ?w2" unfolding a(1) option.case m(1) ..
        show ?thesis
        proof (cases "k = 0 \<and> pos = length xs \<and> capacity B v w = length xs")
          case True
          show ?thesis unfolding moved vthen.simps vok_simps prod.case finish_grow [OF gap] cap if_P [OF True] option.case
            using fr hold True by blast
        next
          case False
          show ?thesis unfolding moved vthen.simps vok_simps prod.case finish_grow [OF gap] cap if_not_P [OF False] option.case
            using fr gap by blast
        qed
      qed
      have ed: "vok ?A (\<lambda>(v', w'). vec_frame B refs v w v' w' \<and> vec_holds B refs w' v' xs \<and>
          capacity B v' w' = capacity B v w \<and> mCount v' = mCount v \<and>
          (case mStorage v of None \<Rightarrow> mStorage v' = None
           | Some _ \<Rightarrow> \<exists>a. mStorage v' = Some a \<and> refs (vm_heap w') a = 1)) (editArrayImpl B v w)"
        by (rule vok_mono [OF editArray_ok [OF L H]]) (simp_all add: vec_room_def)
      show ?thesis unfolding run
      proof (rule vok_then [OF ed])
        fix r
        assume r: "case r of (v', w') \<Rightarrow> vec_frame B refs v w v' w' \<and> vec_holds B refs w' v' xs \<and>
          capacity B v' w' = capacity B v w \<and> mCount v' = mCount v \<and>
          (case mStorage v of None \<Rightarrow> mStorage v' = None
           | Some _ \<Rightarrow> \<exists>a. mStorage v' = Some a \<and> refs (vm_heap w') a = 1)"
        obtain v1 w1 where p: "r = (v1, w1)" by (cases r)
        from r show "vok ?A ?P (case r of (v1, w1) \<Rightarrow> vthen (if pos \<noteq> mCount v
           then case mStorage v1 of None \<Rightarrow> VUndef | Some a \<Rightarrow> do_move v a (pos + k) pos (mCount v - pos) w1
           else VRet w1) (\<lambda>w2. VRet (itemLocation B (v1\<lparr>mCount := ?n\<rparr>) pos w2, v1\<lparr>mCount := ?n\<rparr>, w2)))"
          unfolding p prod.case by (elim conjE) (rule step)
      qed
    next
      case grows: True
      show ?thesis
      proof (cases "size_max \<le> ?n + ?n div 2 + 1 \<or> size_max \<le> ?c * mItemSize v")
        case True
        with vec_gap_no_room [of ?n v B] f have "\<not> vec_room B v ?n" by blast
        with True small grows f(3) show ?thesis by (auto simp: grow_def Let_def)
      next
        case fits: False
        define c where "c = ?c"
        have c: "?n \<le> c" "c * mItemSize v < size_max" "c * mItemSize v div mItemSize v = c"
          using fits f(1) by (simp_all add: c_def)
        have done_ok: "?P (itemLocation B (v1\<lparr>mCount := ?n\<rparr>) pos w1, v1\<lparr>mCount := ?n\<rparr>, w1)"
          if "vec_frame B refs v w v1 w1" "mStorage v1 = Some a" "refs (vm_heap w1) a = 1"
            "sb_size B (vm_heap w1) a = c * mItemSize v" "vm_slots w1 a = map Some (take pos xs) @ G @ map Some (drop pos xs) @ rest"
            "length G = k" "length (vm_slots w1 a) = c" "raw_slots v G" "raw_slots v rest" for v1 w1 a G rest
        proof -
          have fl: "mFlags v1 = mFlags v" "mItemSize v1 = mItemSize v" using that(1) by (simp_all add: vec_frame_def)
          have gap: "vec_gap B refs w1 (v1\<lparr>mCount := ?n\<rparr>) a xs pos k"
            using that(2-9) fl f small pos c raw_slots_cong [OF fl(1)] by (auto simp: vec_gap_def)
          have "capacity B (v1\<lparr>mCount := ?n\<rparr>) w1 = c" using that(2,4) fl c(3) by (simp add: capacity_def)
          moreover have "\<not> (k = 0 \<and> c = length xs)" using grows c(1) by (auto simp: c_def)
          ultimately have "itemLocation B (v1\<lparr>mCount := ?n\<rparr>) pos w1 = Some (a, pos)" using finish_grow [OF gap] by auto
          with gap that(1) show ?thesis by simp
        qed
        show ?thesis
        proof (cases "mStorage v \<noteq> None \<and> pos = mCount v \<and> trivial_copy v \<and> trivial_dtor v")
          case True
          then obtain sb where sb: "mStorage v = Some sb" by blast
          have run: "grow B pos k v w = (case vm_editResize B v sb (c * mItemSize v) w of
              (None, w1) \<Rightarrow> VRet (None, v, w1)
            | (Some a, w1) \<Rightarrow> VRet (itemLocation B (v\<lparr>mStorage := Some a\<rparr>\<lparr>mCount := ?n\<rparr>) pos w1,
                v\<lparr>mStorage := Some a\<rparr>\<lparr>mCount := ?n\<rparr>, w1))"
            using True sb small grows fits f(3)
            by (simp add: grow_def Let_def c_def cong: option.case_cong prod.case_cong)
          obtain st w1 where e: "vm_editResize B v sb (c * mItemSize v) w = (st, w1)" by (cases "vm_editResize B v sb (c * mItemSize v) w")
          show ?thesis
          proof (cases st)
            case None
            with resize_None [OF L H sb] e run show ?thesis by simp
          next
            case (Some b)
            note e = e [unfolded Some]
            note r = resize_Some [OF L H sb e]
            from H sb obtain rest where s0: "vm_slots w sb = map Some xs @ rest" by (auto simp: vec_holds_def)
            define R where "R = take (c - length xs) rest @ replicate (c - length (take c (vm_slots w sb))) None"
            have R: "vm_slots w1 b = map Some xs @ R" "length (vm_slots w1 b) = c"
              using r(4) c s0 by (simp_all add: R_def Let_def)
            then have "length xs + length R = c" by simp
            then have k: "k \<le> length R" using c(1) by linarith
            have raw: "raw_slots v s" for s using True by (simp add: raw_slots_def)
            have "?P (itemLocation B (v\<lparr>mStorage := Some b\<rparr>\<lparr>mCount := ?n\<rparr>) pos w1, v\<lparr>mStorage := Some b\<rparr>\<lparr>mCount := ?n\<rparr>, w1)"
              by (rule done_ok [where a = b and G = "take k R" and rest = "drop k R", OF r(1) _ r(2,3)])
                (use R k raw True f(3) in simp_all)
            with run e show ?thesis by simp
          qed
        next
          case False
          have run: "grow B pos k v w = (case vm_alloc B v (c * mItemSize v) w of
              (None, w1) \<Rightarrow> VRet (None, v, w1)
            | (Some a, w1) \<Rightarrow>
               vthen (case mStorage v of
                        None \<Rightarrow> if pos = 0 \<and> pos = mCount v then VRet w1 else VUndef
                      | Some sb \<Rightarrow>
                          vthen (if pos \<noteq> 0 then do_copy v a 0 (Slots sb 0) pos w1 else VRet w1) (\<lambda>w2.
                            if pos \<noteq> mCount v
                            then do_copy v a (pos + k) (Slots sb pos) (mCount v - pos) w2
                            else VRet w2)) (\<lambda>w2.
               vthen (release_storage B v w2) (\<lambda>w3.
                 VRet (itemLocation B (v\<lparr>mStorage := Some a\<rparr>\<lparr>mCount := ?n\<rparr>) pos w3, v\<lparr>mStorage := Some a\<rparr>\<lparr>mCount := ?n\<rparr>, w3))))"
            using False small grows fits f(3)
            by (cases "mStorage v") (auto simp: grow_def Let_def c_def cong: option.case_cong prod.case_cong)
          obtain st w1 where e: "vm_alloc B v (c * mItemSize v) w = (st, w1)" by (cases "vm_alloc B v (c * mItemSize v) w")
          show ?thesis
          proof (cases st)
            case None
            with alloc_None [OF L e [unfolded None]] e run H show ?thesis by simp
          next
            case (Some a)
            note e = e [unfolded Some]
            note a = alloc_Some [OF L e, unfolded c(3)]
            define s where "s = map Some (take pos xs) @ replicate k None @ map Some (drop pos xs) @ replicate (c - ?n) None"
            have copied: "(case mStorage v of
                        None \<Rightarrow> if pos = 0 \<and> pos = mCount v then VRet w1 else VUndef
                      | Some sb \<Rightarrow>
                          vthen (if pos \<noteq> 0 then do_copy v a 0 (Slots sb 0) pos w1 else VRet w1) (\<lambda>w2.
                            if pos \<noteq> mCount v
                            then do_copy v a (pos + k) (Slots sb pos) (mCount v - pos) w2
                            else VRet w2)) = VRet (w1\<lparr>vm_slots := (vm_slots w1)(a := s)\<rparr>)"
            proof (cases "mStorage v")
              case None
              then have x: "xs = []" "pos = 0" "mCount v = 0" using H pos by (simp_all add: vec_holds_def)
              then have "s = vm_slots w1 a" using a(4) c(1) by (simp add: s_def flip: replicate_add)
              with None x show ?thesis by simp
            next
              case (Some sb)
              from H Some obtain rest where "vm_slots w sb = map Some xs @ rest" "0 < refs (vm_heap w) sb"
                by (auto simp: vec_holds_def)
              note sb = this
              then have ne: "a \<noteq> sb" using a(1) by auto
              have "vm_slots w1 sb = map Some xs @ rest" "vm_slots w1 a = replicate c None" using a(4) sb ne by simp_all
              from copy_gap [OF this c(1) pos ne f(3), of v] Some show ?thesis by (simp only: option.case s_def)
            qed
            show ?thesis
              unfolding run e prod.case option.case copied vthen.simps
            proof (rule vok_then)
              show "vok ?A (\<lambda>w3. vec_frame B refs v w (v\<lparr>mStorage := Some a\<rparr>) w3 \<and> refs (vm_heap w3) a = 1 \<and>
                  vm_slots w3 a = s \<and> sb_size B (vm_heap w3) a = c * mItemSize v)
                  (release_storage B v (w1\<lparr>vm_slots := (vm_slots w1)(a := s)\<rparr>))"
                by (rule vok_mono [OF install_ok [OF L H e refl]]) simp_all
            next
              fix w3
              assume w3: "vec_frame B refs v w (v\<lparr>mStorage := Some a\<rparr>) w3 \<and> refs (vm_heap w3) a = 1 \<and>
                  vm_slots w3 a = s \<and> sb_size B (vm_heap w3) a = c * mItemSize v"
              have "?P (itemLocation B (v\<lparr>mStorage := Some a\<rparr>\<lparr>mCount := ?n\<rparr>) pos w3, v\<lparr>mStorage := Some a\<rparr>\<lparr>mCount := ?n\<rparr>, w3)"
                by (rule done_ok [where a = a and G = "replicate k None" and rest = "replicate (c - ?n) None"])
                  (use w3 c(1) pos in \<open>simp_all add: s_def\<close>)
              then show "vok ?A ?P (VRet (itemLocation B (v\<lparr>mStorage := Some a\<rparr>\<lparr>mCount := ?n\<rparr>) pos w3,
                  v\<lparr>mStorage := Some a\<rparr>\<lparr>mCount := ?n\<rparr>, w3))" by simp
            qed
          qed
        qed
      qed
    qed
  qed
qed


section \<open>Inserting\<close>

text \<open>Where \<open>n\<close> items may be read from while the vector changes: objects of the caller, or a buffer with another owner.\<close>

definition vec_source ::
  "('h \<Rightarrow> addr \<Rightarrow> nat) \<Rightarrow> ('h, 'a) vmem \<Rightarrow> vec \<Rightarrow> 'a vsrc \<Rightarrow> nat \<Rightarrow> 'a list \<Rightarrow> bool" where
  "vec_source refs w v src n ys \<longleftrightarrow>
     length ys = n \<and> read_items w src n = Some ys \<and> (case src of Objects _ \<Rightarrow> True | Slots b _ \<Rightarrow> 0 < others refs w v b)"

lemma source_frame:
  assumes "vec_frame B refs v w v' w'" "vec_source refs w v src n ys"
  shows "read_items w' src n = Some ys" "vec_source refs w' v' src n ys"
  using assms by (auto simp: vec_source_def read_items_def vec_frame_def same_buffer_def split: vsrc.splits)

lemma source_objects [simp]: "length xs = n \<Longrightarrow> vec_source refs w v (Objects xs) n xs"
  by (simp add: vec_source_def read_items_def)

text \<open>The list after an insertion, and the result: an error only without memory, or for nothing at the end of a full vector.\<close>

definition vec_inserted ::
  "'h shared_buffer \<Rightarrow> ('h \<Rightarrow> addr \<Rightarrow> nat) \<Rightarrow> vec \<Rightarrow> ('h, 'a) vmem \<Rightarrow> 'a list \<Rightarrow> nat \<Rightarrow> 'a list \<Rightarrow>
     (vec_error + nat) \<times> vec \<times> ('h, 'a) vmem \<Rightarrow> bool" where
  "vec_inserted B refs v w xs pos ys r \<longleftrightarrow>
     (case r of (res, v', w') \<Rightarrow> vec_frame B refs v w v' w' \<and>
        (res = Inr pos \<and> vec_holds B refs w' v' (take pos xs @ ys @ drop pos xs) \<or>
         res = Inl NO_MEMORY \<and> vec_holds B refs w' v' xs \<and>
           (\<not> sb_plenty B \<or> ys = [] \<and> pos = length xs \<and> capacity B v w = length xs)))"

lemma inserted_by:
  assumes L: "sb_laws B refs" and H: "vec_holds B refs w v xs" and pos: "pos \<le> length xs" and n: "length ys = n"
    and f: "\<And>a v1 w1. vec_frame B refs v w v1 w1 \<Longrightarrow> vec_gap B refs w1 v1 a xs pos n \<Longrightarrow> f a pos v1 w1 = put_items v1 a pos ys w1"
  shows "vok (\<not> vec_room B v (length xs + n)) (vec_inserted B refs v w xs pos ys)
    (vthen (grow B pos n v w) (\<lambda>(loc, v1, w1).
        case loc of
          None \<Rightarrow> VRet (Inl NO_MEMORY, v1, w1)
        | Some (a, i) \<Rightarrow> vthen (f a i v1 w1) (\<lambda>w2. VRet (Inr pos, v1, w2))))"
proof (rule vok_then [OF grow_ok [OF L H pos]])
  fix r
  assume r: "case r of (loc, v', w') \<Rightarrow> vec_frame B refs v w v' w' \<and>
      (case loc of
         Some (a, i) \<Rightarrow> i = pos \<and> vec_gap B refs w' v' a xs pos n
       | None \<Rightarrow> vec_holds B refs w' v' xs \<and>
           (\<not> sb_plenty B \<or> n = 0 \<and> pos = length xs \<and> capacity B v w = length xs))"
  obtain loc v1 w1 where p: "r = (loc, v1, w1)" by (cases r)
  show "vok (\<not> vec_room B v (length xs + n)) (vec_inserted B refs v w xs pos ys) (case r of (loc, v1, w1) \<Rightarrow>
      case loc of None \<Rightarrow> VRet (Inl NO_MEMORY, v1, w1)
      | Some (a, i) \<Rightarrow> vthen (f a i v1 w1) (\<lambda>w2. VRet (Inr pos, v1, w2)))"
  proof (cases loc)
    case None
    then show ?thesis using r p n by (auto simp: vec_inserted_def)
  next
    case (Some ai)
    obtain a i where ai: "ai = (a, i)" by (cases ai)
    have g: "vec_frame B refs v w v1 w1" "vec_gap B refs w1 v1 a xs pos n" using r p Some ai by simp_all
    have i: "i = pos" using r p Some ai by simp
    from g have fa: "f a pos v1 w1 = put_items v1 a pos ys w1" by (rule f)
    show ?thesis unfolding p Some ai prod.case option.case i fa
    proof (rule vok_then)
      show "vok (\<not> vec_room B v (length xs + n)) (\<lambda>w'. vec_frame B refs v1 w1 v1 w' \<and>
          vec_holds B refs w' v1 (take pos xs @ ys @ drop pos xs)) (put_items v1 a pos ys w1)"
        by (rule vok_mono [OF fill_gap [OF g(2) n]]) simp_all
    qed (use vec_frame_trans [OF g(1)] in \<open>simp add: vec_inserted_def\<close>)
  qed
qed

lemma insertArrayAt_ok:
  assumes "sb_laws B refs" "vec_holds B refs w v xs" "pos \<le> length xs" "vec_source refs w v src n ys"
  shows "vok (\<not> vec_room B v (length xs + n)) (vec_inserted B refs v w xs pos ys) (insertArrayAt B src pos n v w)"
proof -
  have "insertArrayAt B src pos n v w = vthen (grow B pos n v w) (\<lambda>(loc, v1, w1).
        case loc of
          None \<Rightarrow> VRet (Inl NO_MEMORY, v1, w1)
        | Some (a, i) \<Rightarrow> vthen (do_copy v1 a i src n w1) (\<lambda>w2. VRet (Inr pos, v1, w2)))"
    using assms(2,3) by (simp add: insertArrayAt_def vec_holds_def)
  then show ?thesis
    using inserted_by [OF assms(1-3), of ys n "\<lambda>a i v1 w1. do_copy v1 a i src n w1"] assms(4)
      source_frame(1) [OF _ assms(4)]
    by (simp add: do_copy_def vec_source_def)
qed

text \<open>The items that \<open>insertAt\<close> puts in.\<close>

definition new_items :: "'a item_type \<Rightarrow> vec \<Rightarrow> 'a option \<Rightarrow> nat \<Rightarrow> nat \<Rightarrow> 'a list" where
  "new_items T v x pos n =
     (case x of
        Some y \<Rightarrow> replicate n y
      | None \<Rightarrow> if trivial_ctor v then map (it_junk T) [pos..<pos + n] else replicate n (it_default T))"

definition item_source :: "('h \<Rightarrow> addr \<Rightarrow> nat) \<Rightarrow> ('h, 'a) vmem \<Rightarrow> vec \<Rightarrow> 'a vsrc option \<Rightarrow> 'a option \<Rightarrow> bool" where
  "item_source refs w v item x \<longleftrightarrow>
     (case (item, x) of
        (Some src, Some y) \<Rightarrow> vec_source refs w v src 1 [y]
      | (None, None) \<Rightarrow> True
      | _ \<Rightarrow> False)"

lemma put_nothing:
  assumes "i \<le> length (vm_slots w a)"
  shows "put_items v a i [] w = VRet w"
proof -
  have "take i (vm_slots w a) @ drop i (vm_slots w a) = vm_slots w a" by simp
  then show ?thesis using assms by (simp add: put_items_def Let_def del: append_take_drop_id)
qed

lemma length_new_items [simp]: "length (new_items T v x pos n) = n"
  by (simp add: new_items_def split: option.splits)


lemma insertAt_ok:
  assumes "sb_laws B refs" "vec_holds B refs w v xs" "pos \<le> length xs" "item_source refs w v item x"
  shows "vok (\<not> vec_room B v (length xs + n)) (vec_inserted B refs v w xs pos (new_items T v x pos n))
    (insertAt B T item pos n v w)"
proof -
  let ?f = "\<lambda>a i v1 w1. case item of
      Some y \<Rightarrow> do_splat v1 a i y n w1
    | None \<Rightarrow> do_construct (it_junk T) (it_default T) v1 a i n w1"
  have run: "insertAt B T item pos n v w = vthen (grow B pos n v w) (\<lambda>(loc, v1, w1).
        case loc of
          None \<Rightarrow> VRet (Inl NO_MEMORY, v1, w1)
        | Some (a, i) \<Rightarrow> vthen (?f a i v1 w1) (\<lambda>w2. VRet (Inr pos, v1, w2)))"
    using assms(2,3) by (simp add: insertAt_def vec_holds_def)
  show ?thesis unfolding run
  proof (rule inserted_by [OF assms(1-3) length_new_items])
    fix a v1 w1
    assume g: "vec_frame B refs v w v1 w1" "vec_gap B refs w1 v1 a xs pos n"
    then have fl: "trivial_ctor v1 = trivial_ctor v" by (simp add: vec_frame_def has_flag_def)
    from g(2) have p: "pos \<le> length (vm_slots w1 a)" by (auto simp: vec_gap_def)
    show "?f a pos v1 w1 = put_items v1 a pos (new_items T v x pos n) w1"
    proof (cases item)
      case None
      then show ?thesis using assms(4) fl by (auto simp: do_construct_def new_items_def item_source_def split: option.splits)
    next
      case (Some src)
      then obtain y where y: "x = Some y" "vec_source refs w v src 1 [y]"
        using assms(4) by (auto simp: item_source_def split: option.splits)
      from source_frame(1) [OF g(1) y(2)] show ?thesis
        by (simp add: Some y(1) do_splat_def new_items_def put_nothing [OF p])
    qed
  qed
qed

section \<open>Removing\<close>

text \<open>Copying all but the \<open>k\<close> items from \<open>pos\<close> on into a new buffer with \<open>c\<close> slots.\<close>

lemma copy_without:
  assumes "vm_slots w1 sb = map Some xs @ rest" "vm_slots w1 a = replicate c None" "pos + k \<le> length xs"
    "length xs - k \<le> c" "a \<noteq> sb" "n = length xs - k"
  shows "vthen (if pos \<noteq> 0 then do_copy v a 0 (Slots sb 0) pos w1 else VRet w1) (\<lambda>w2.
      vthen (if pos \<noteq> n then do_copy v a pos (Slots sb (pos + k)) (n - pos) w2 else VRet w2) g) =
    g (w1\<lparr>vm_slots := (vm_slots w1)(a := map Some (take pos xs @ drop (pos + k) xs) @ replicate (c - n) None)\<rparr>)"
proof -
  let ?P = "map Some (take pos xs)"
  have c: "replicate c None = replicate pos None @ replicate (n - pos) None @ replicate (c - n) None"
    using assms(3,4,6) by (simp flip: replicate_add)
  define w2 where "w2 = w1\<lparr>vm_slots := (vm_slots w1)(a := ?P @ replicate (n - pos) None @ replicate (c - n) None)\<rparr>"
  have r1: "read_items w1 (Slots sb 0) pos = Some (take pos xs)"
    by (rule read_ok [where P = "[]" and R = "map Some (drop pos xs) @ rest"])
      (use assms in \<open>simp_all flip: map_append append_assoc\<close>)
  have "put_items v a 0 (take pos xs) w1 = VRet w2"
    unfolding w2_def
    by (rule put_ok [where P = "[]" and Q = "replicate pos None", simplified]) (use assms c in simp_all)
  moreover have "w2 = w1" if "pos = 0"
  proof -
    have "w2 = w1\<lparr>vm_slots := (vm_slots w1)(a := vm_slots w1 a)\<rparr>" by (simp add: w2_def assms(2) c that)
    then show ?thesis by simp
  qed
  ultimately have first: "(if pos \<noteq> 0 then do_copy v a 0 (Slots sb 0) pos w1 else VRet w1) = VRet w2"
    using r1 by (simp add: do_copy_def)
  have "xs = take (pos + k) xs @ drop (pos + k) xs" by simp
  then have "vm_slots w1 sb = map Some (take (pos + k) xs) @ map Some (drop (pos + k) xs) @ rest"
    using assms(1) by (metis append_assoc map_append)
  then have "vm_slots w2 sb = map Some (take (pos + k) xs) @ map Some (drop (pos + k) xs) @ rest"
    using assms(5) by (simp add: w2_def)
  from read_ok [OF this] have r2: "read_items w2 (Slots sb (pos + k)) (n - pos) = Some (drop (pos + k) xs)"
    using assms(3,6) by (simp add: min_def)
  let ?w3 = "w1\<lparr>vm_slots := (vm_slots w1)(a := ?P @ map Some (drop (pos + k) xs) @ replicate (c - n) None)\<rparr>"
  have "put_items v a pos (drop (pos + k) xs) w2 =
      VRet (w2\<lparr>vm_slots := (vm_slots w2)(a := ?P @ map Some (drop (pos + k) xs) @ replicate (c - n) None)\<rparr>)"
    by (rule put_ok [where Q = "replicate (n - pos) None"]) (use assms(3,6) in \<open>simp_all add: w2_def\<close>)
  then have "put_items v a pos (drop (pos + k) xs) w2 = VRet ?w3" by (simp add: w2_def)
  moreover have "w2 = ?w3" if "pos = n" using that assms(3,6) by (simp add: w2_def)
  ultimately have second: "(if pos \<noteq> n then do_copy v a pos (Slots sb (pos + k)) (n - pos) w2 else VRet w2) = VRet ?w3"
    using r2 by (simp add: do_copy_def)
  show ?thesis unfolding first vthen.simps second by simp
qed

text \<open>The same in place.\<close>

lemma close_gap:
  assumes "vm_slots w a = map Some xs @ rest" "pos + k \<le> length xs" "raw_slots v rest" "n = length xs - k"
  shows "\<exists>rest'. vthen (do_destroy v a pos k w) (\<lambda>w2.
      vthen (if pos \<noteq> n then do_move v a pos (pos + k) (n - pos) w2 else VRet w2) g) =
      g (w\<lparr>vm_slots := (vm_slots w)(a := map Some (take pos xs @ drop (pos + k) xs) @ rest')\<rparr>) \<and>
    length rest' = length rest + k \<and> raw_slots v rest'"
proof -
  let ?P = "map Some (take pos xs)" and ?Y = "map Some (drop (pos + k) xs)"
  define K where "K = (if trivial_dtor v then map Some (take k (drop pos xs)) else replicate k None)"
  have "xs = take pos xs @ take k (drop pos xs) @ drop (pos + k) xs"
    by (metis append_take_drop_id drop_drop add.commute)
  then have s: "vm_slots w a = ?P @ map Some (take k (drop pos xs)) @ ?Y @ rest"
    using assms(1) by (metis append_assoc map_append)
  have K: "length K = k" "raw_slots v K" using assms(2) by (auto simp: K_def raw_slots_def)
  define w2 where "w2 = w\<lparr>vm_slots := (vm_slots w)(a := ?P @ K @ ?Y @ rest)\<rparr>"
  have d: "do_destroy v a pos k w = VRet w2"
  proof (cases "trivial_dtor v")
    case True
    have "w2 = w\<lparr>vm_slots := (vm_slots w)(a := vm_slots w a)\<rparr>" unfolding s w2_def K_def if_P [OF True] ..
    with True show ?thesis by (simp add: do_destroy_def)
  next
    case False
    with end_ok [OF s, of pos k] assms(2) show ?thesis by (simp add: do_destroy_def w2_def K_def)
  qed
  show ?thesis
  proof (cases "pos = n")
    case True
    then have "drop (pos + k) xs = []" using assms(2,4) by simp
    then have "w2 = w\<lparr>vm_slots := (vm_slots w)(a := map Some (take pos xs @ drop (pos + k) xs) @ K @ rest)\<rparr>"
      by (simp add: w2_def)
    with True d K assms(3) show ?thesis by (intro exI [of _ "K @ rest"]) simp
  next
    case False
    let ?m = "length xs - (pos + k)"
    have m: "n - pos = ?m" using assms(2,4) by simp
    have s2: "vm_slots w2 a = (?P @ K) @ ?Y @ rest" by (simp add: w2_def)
    have r: "read_items w2 (Slots a (pos + k)) ?m = Some (drop (pos + k) xs)"
      by (rule read_ok [OF s2]) (use assms(2) K in simp_all)
    have e: "end_items a (pos + k) ?m w2 = VRet (w2\<lparr>vm_slots := (vm_slots w2)(a := (?P @ K) @ replicate ?m None @ rest)\<rparr>)"
      by (rule end_ok [OF s2]) (use assms(2) K in simp_all)
    define M where "M = K @ replicate ?m None"
    have raw: "raw_slots v M" using K by (simp add: M_def)
    have M: "M = take ?m M @ drop ?m M" by simp
    let ?w3 = "w2\<lparr>vm_slots := (vm_slots w2)(a := (?P @ K) @ replicate ?m None @ rest)\<rparr>"
    have "vm_slots ?w3 a = ?P @ M @ rest" by (simp add: M_def)
    also have "\<dots> = ?P @ take ?m M @ (drop ?m M @ rest)" by (metis append_assoc append_take_drop_id)
    finally have "vm_slots ?w3 a = ?P @ take ?m M @ (drop ?m M @ rest)" .
    then have "put_items v a pos (drop (pos + k) xs) ?w3 =
        VRet (?w3\<lparr>vm_slots := (vm_slots ?w3)(a := ?P @ ?Y @ (drop ?m M @ rest))\<rparr>)"
      by (rule put_ok) (use assms(2) raw K in \<open>auto simp: M_def\<close>)
    then have "do_move v a pos (pos + k) (n - pos) w2 =
        VRet (w\<lparr>vm_slots := (vm_slots w)(a := map Some (take pos xs @ drop (pos + k) xs) @ drop ?m M @ rest)\<rparr>)"
      unfolding m using r e by (simp add: do_move_def w2_def)
    with False d K raw assms(3) show ?thesis
      by (intro exI [of _ "drop ?m M @ rest"]) (auto simp: M_def)
  qed
qed


text \<open>A new representation from the contents of the only buffer.\<close>

lemma holds_contents:
  assumes "0 < mItemSize v" "4 * mItemSize v < size_max" "mStorage v = Some a" "mCount v = length ys" "length ys < size_max"
    and "0 < refs (vm_heap w) a" "sb_size B (vm_heap w) a < size_max"
    and "length (vm_slots w a) = sb_size B (vm_heap w) a div mItemSize v" "vm_slots w a = map Some ys @ rest" "raw_slots v rest"
  shows "vec_holds B refs w v ys"
  unfolding vec_holds_def assms(3) option.case using assms by blast

definition vec_removed ::
  "'h shared_buffer \<Rightarrow> ('h \<Rightarrow> addr \<Rightarrow> nat) \<Rightarrow> vec \<Rightarrow> ('h, 'a) vmem \<Rightarrow> 'a list \<Rightarrow> nat \<Rightarrow> nat \<Rightarrow> vec \<Rightarrow> ('h, 'a) vmem \<Rightarrow> bool" where
  "vec_removed B refs v w xs pos k v' w' \<longleftrightarrow> vec_frame B refs v w v' w' \<and>
     (vec_holds B refs w' v' (take pos xs @ drop (pos + k) xs) \<or> \<not> sb_plenty B \<and> vec_holds B refs w' v' xs)"

lemma shrink_ok:
  assumes L: "sb_laws B refs" and H: "vec_holds B refs w v xs" and pos: "pos + k \<le> length xs"
  shows "vok (\<not> sb_plenty B) (\<lambda>(v', w'). vec_removed B refs v w xs pos k v' w') (shrink B pos k v w)"
    (is "vok ?A ?P _")
proof (cases "mStorage v")
  case None
  with H show ?thesis by (simp add: shrink_def vec_holds_def vec_removed_def)
next
  case (Some sb)
  let ?ys = "take pos xs @ drop (pos + k) xs"
  define n where "n = length xs - k"
  have f: "0 < mItemSize v" "4 * mItemSize v < size_max" "mCount v = length xs" "length xs < size_max"
    "sb_size B (vm_heap w) sb < size_max" "0 < refs (vm_heap w) sb"
    using H Some by (simp_all add: vec_holds_def)
  from H Some obtain rest where s0: "vm_slots w sb = map Some xs @ rest" "raw_slots v rest" by (auto simp: vec_holds_def)
  have ys: "length ?ys = n" "n < size_max" using pos f(4) by (simp_all add: n_def)
  show ?thesis
  proof (cases "n < capacity B v w div 2")
    case False
    have run: "shrink B pos k v w = vthen (editArrayImpl B v w) (\<lambda>(v1, w1).
        case mStorage v1 of
          None \<Rightarrow> VUndef
        | Some a \<Rightarrow>
            vthen (do_destroy v1 a pos k w1) (\<lambda>w2.
            vthen (if pos \<noteq> n then do_move v1 a pos (pos + k) (n - pos) w2 else VRet w2) (\<lambda>w3.
              VRet (v1\<lparr>mCount := n\<rparr>, w3))))"
      unfolding n_def using False [unfolded n_def] Some pos f(3) by (simp add: shrink_def Let_def)
    show ?thesis unfolding run
    proof (rule vok_then [OF editArray_ok [OF L H]])
      fix r
      assume r: "case r of (v', w') \<Rightarrow> vec_frame B refs v w v' w' \<and> vec_holds B refs w' v' xs \<and>
        capacity B v' w' = capacity B v w \<and> mCount v' = mCount v \<and>
        (case mStorage v of None \<Rightarrow> mStorage v' = None
         | Some _ \<Rightarrow> \<exists>a. mStorage v' = Some a \<and> refs (vm_heap w') a = 1)"
      obtain v1 w1 where p: "r = (v1, w1)" by (cases r)
      from r Some p obtain a where a: "mStorage v1 = Some a" "refs (vm_heap w1) a = 1" "vec_frame B refs v w v1 w1"
        "vec_holds B refs w1 v1 xs" by auto
      from a(1,4) obtain rest1 where s1: "vm_slots w1 a = map Some xs @ rest1" "raw_slots v1 rest1"
        and len: "length (vm_slots w1 a) = sb_size B (vm_heap w1) a div mItemSize v1" "sb_size B (vm_heap w1) a < size_max"
        by (auto simp: vec_holds_def)
      have fl: "mItemSize v1 = mItemSize v" using a(3) by (simp add: vec_frame_def)
      from close_gap [OF s1(1) pos s1(2) n_def, of "\<lambda>w3. VRet (v1\<lparr>mCount := n\<rparr>, w3)"] obtain rest' where
        c: "vthen (do_destroy v1 a pos k w1) (\<lambda>w2.
            vthen (if pos \<noteq> n then do_move v1 a pos (pos + k) (n - pos) w2 else VRet w2) (\<lambda>w3.
              VRet (v1\<lparr>mCount := n\<rparr>, w3))) =
          VRet (v1\<lparr>mCount := n\<rparr>, w1\<lparr>vm_slots := (vm_slots w1)(a := map Some ?ys @ rest')\<rparr>)"
        "length rest' = length rest1 + k" "raw_slots v1 rest'" by blast
      have "length (map Some ?ys @ rest') = length (vm_slots w1 a)" using s1(1) c(2) ys(1) pos by (simp add: n_def)
      then have "vec_holds B refs (w1\<lparr>vm_slots := (vm_slots w1)(a := map Some ?ys @ rest')\<rparr>) (v1\<lparr>mCount := n\<rparr>) ?ys"
        by (intro holds_contents [where a = a and rest = rest']) (use f a ys len fl c(3) in simp_all)
      moreover have "vec_frame B refs v w (v1\<lparr>mCount := n\<rparr>) (w1\<lparr>vm_slots := (vm_slots w1)(a := map Some ?ys @ rest')\<rparr>)"
        using vec_frame_trans [OF a(3) frame_own [where v = v1 and v' = v1 and refs = refs and w = w1 and a = a,
            OF a(1,2,1) refl refl]] by simp
      ultimately show "vok ?A ?P (case r of (v1, w1) \<Rightarrow> case mStorage v1 of None \<Rightarrow> VUndef
        | Some a \<Rightarrow> vthen (do_destroy v1 a pos k w1) (\<lambda>w2.
            vthen (if pos \<noteq> n then do_move v1 a pos (pos + k) (n - pos) w2 else VRet w2) (\<lambda>w3.
              VRet (v1\<lparr>mCount := n\<rparr>, w3))))"
        unfolding p prod.case a(1) option.case c(1) vok_simps vec_removed_def by blast
    qed
  next
    case small: True
    define c where "c = max 4 (n * 2)"
    have cap: "capacity B v w * mItemSize v < size_max"
      using Some f(5) by (simp add: capacity_def) (meson div_times_less_eq_dividend le_less_trans)
    have "n * 2 * mItemSize v \<le> capacity B v w * mItemSize v" using small by (intro mult_le_mono1) simp
    from le_less_trans [OF this cap] have c: "c * mItemSize v < size_max" "n \<le> c"
      using f(2) unfolding c_def max_def by (cases "4 \<le> n * 2"; simp only: if_True if_False simp_thms; simp)+
    then have cm: "c * mItemSize v mod size_max = c * mItemSize v" "c * mItemSize v div mItemSize v = c" using f(1) by simp_all
    have done_ok: "?P (v1\<lparr>mCount := n\<rparr>, w1)"
      if "vec_frame B refs v w v1 w1" "mStorage v1 = Some a" "refs (vm_heap w1) a = 1"
        "sb_size B (vm_heap w1) a = c * mItemSize v" "vm_slots w1 a = map Some ?ys @ R" "length (vm_slots w1 a) = c" "raw_slots v R"
      for v1 w1 a R
    proof -
      have fl: "mFlags v1 = mFlags v" "mItemSize v1 = mItemSize v" using that(1) by (simp_all add: vec_frame_def)
      have "raw_slots v1 R" using that(7) raw_slots_cong [OF fl(1), of R] by simp
      then have "vec_holds B refs w1 (v1\<lparr>mCount := n\<rparr>) ?ys"
        by (intro holds_contents [where a = a and rest = R]) (use that fl f c cm ys in simp_all)
      with that(1) show ?thesis by (simp add: vec_removed_def)
    qed
    show ?thesis
    proof (cases "pos = n \<and> trivial_copy v \<and> trivial_dtor v")
      case True
      note triv = this
      obtain st w1 where e: "vm_editResize B v sb (c * mItemSize v) w = (st, w1)" by (cases "vm_editResize B v sb (c * mItemSize v) w")
      have run: "shrink B pos k v w = (case st of
            None \<Rightarrow> VRet (v, w1)
          | Some a \<Rightarrow> VRet (v\<lparr>mStorage := Some a\<rparr>\<lparr>mCount := n\<rparr>, w1))"
        unfolding c_def n_def using triv small Some pos f(3) e cm(1) unfolding c_def n_def
        by (simp add: shrink_def Let_def)
      show ?thesis
      proof (cases st)
        case None
        with resize_None [OF L H Some e [unfolded None]] run show ?thesis by (simp add: vec_removed_def)
      next
        case st: (Some b)
        note r = resize_Some [OF L H Some e [unfolded st], unfolded cm(2)]
        have x: "?ys = take n xs" using triv pos by (auto simp: n_def)
        have "vm_slots w sb = map Some (take n xs) @ (map Some (drop n xs) @ rest)"
          using s0(1) by (simp flip: map_append append_assoc)
        then have c1: "vm_slots w1 b = map Some ?ys @ take (c - n) (map Some (drop n xs) @ rest) @
            replicate (c - length (take c (vm_slots w sb))) None"
          unfolding x using r(4) c(2) by (simp add: Let_def n_def)
        have c2: "length (vm_slots w1 b) = c" unfolding r(4) by (simp add: Let_def)
        have "raw_slots v s" for s using triv by (simp add: raw_slots_def)
        from done_ok [OF r(1) _ r(2,3) c1 c2 this]
        have "?P (v\<lparr>mStorage := Some b\<rparr>\<lparr>mCount := n\<rparr>, w1)" by simp
        with run st show ?thesis by simp
      qed
    next
      case triv: False
      obtain st w1 where e: "vm_alloc B v (c * mItemSize v) w = (st, w1)" by (cases "vm_alloc B v (c * mItemSize v) w")
      have run: "shrink B pos k v w = (case st of
            None \<Rightarrow> VRet (v, w1)
          | Some a \<Rightarrow>
              vthen (if pos \<noteq> 0 then do_copy v a 0 (Slots sb 0) pos w1 else VRet w1) (\<lambda>w2.
              vthen (if pos \<noteq> n then do_copy v a pos (Slots sb (pos + k)) (n - pos) w2 else VRet w2) (\<lambda>w3.
              vthen (release_storage B v w3) (\<lambda>w4. VRet (v\<lparr>mStorage := Some a\<rparr>\<lparr>mCount := n\<rparr>, w4)))))"
        unfolding c_def n_def using triv small Some pos f(3) e cm(1) unfolding c_def n_def
        by (auto simp: shrink_def Let_def)
      show ?thesis
      proof (cases st)
        case None
        with alloc_None [OF L e [unfolded None]] H run show ?thesis by (simp add: vec_removed_def)
      next
        case st: (Some a)
        note e = e [unfolded st]
        note a = alloc_Some [OF L e, unfolded cm(2)]
        have ne: "a \<noteq> sb" using a(1) f(6) by auto
        have "vm_slots w1 sb = map Some xs @ rest" "vm_slots w1 a = replicate c None" using a(4) s0 ne by simp_all
        note copied = copy_without [OF this pos _ ne n_def, folded n_def, OF c(2)]
        show ?thesis unfolding run st option.case copied
        proof (rule vok_then)
          show "vok ?A (\<lambda>w3. vec_frame B refs v w (v\<lparr>mStorage := Some a\<rparr>) w3 \<and> refs (vm_heap w3) a = 1 \<and>
              vm_slots w3 a = map Some ?ys @ replicate (c - n) None \<and> sb_size B (vm_heap w3) a = c * mItemSize v)
              (release_storage B v (w1\<lparr>vm_slots := (vm_slots w1)(a := map Some ?ys @ replicate (c - n) None)\<rparr>))"
            by (rule vok_mono [OF install_ok [OF L H e refl]]) simp_all
        next
          fix w3
          assume w3: "vec_frame B refs v w (v\<lparr>mStorage := Some a\<rparr>) w3 \<and> refs (vm_heap w3) a = 1 \<and>
              vm_slots w3 a = map Some ?ys @ replicate (c - n) None \<and> sb_size B (vm_heap w3) a = c * mItemSize v"
          have "?P (v\<lparr>mStorage := Some a\<rparr>\<lparr>mCount := n\<rparr>, w3)"
            by (rule done_ok [where a = a and R = "replicate (c - n) None"]) (use w3 c(2) ys(1) in simp_all)
          then show "vok ?A ?P (VRet (v\<lparr>mStorage := Some a\<rparr>\<lparr>mCount := n\<rparr>, w3))" by simp
        qed
      qed
    qed
  qed
qed


lemma removeItemsAt_ok:
  assumes "sb_laws B refs" "vec_holds B refs w v xs" "pos + k \<le> length xs"
  shows "vok (\<not> sb_plenty B) (\<lambda>(r, v', w'). r = Inr pos \<and> vec_removed B refs v w xs pos k v' w') (removeItemsAt B pos k v w)"
proof -
  have "(pos + k) mod size_max = pos + k" "mCount v = length xs" using assms(2,3) by (simp_all add: vec_holds_def)
  then have "removeItemsAt B pos k v w = vthen (shrink B pos k v w) (\<lambda>(v1, w1). VRet (Inr pos, v1, w1))"
    using assms(3) by (simp add: removeItemsAt_def)
  then show ?thesis by (simp only:) (rule vok_then [OF shrink_ok [OF assms]], auto)
qed

lemma clear_ok:
  assumes "sb_laws B refs" "vec_holds B refs w v xs"
  shows "vok (\<not> sb_plenty B) (\<lambda>(v', w'). vec_removed B refs v w xs 0 (length xs) v' w') (clear_vector B v w)"
  using shrink_ok [OF assms, of 0 "length xs"] assms(2) by (simp add: clear_vector_def vec_holds_def)

section \<open>Replacing\<close>

text \<open>One item of an owned buffer is destroyed; the others can be read; another takes its place.\<close>

lemma write_item:
  assumes "vm_slots w a = map Some xs @ rest" "i < length xs"
  shows "\<exists>w2. do_destroy v a i 1 w = VRet w2 \<and> vm_heap w2 = vm_heap w \<and> (\<forall>b. b \<noteq> a \<longrightarrow> vm_slots w2 b = vm_slots w b) \<and>
    (\<forall>j < length xs. j \<noteq> i \<longrightarrow> read_items w2 (Slots a j) 1 = Some [xs ! j]) \<and>
    (\<forall>y. put_items v a i [y] w2 = VRet (w\<lparr>vm_slots := (vm_slots w)(a := map Some (xs[i := y]) @ rest)\<rparr>))"
proof -
  define z where "z = (if trivial_dtor v then Some (xs ! i) else None)"
  let ?P = "map Some (take i xs)" and ?R = "map Some (drop (Suc i) xs) @ rest"
  define w2 where "w2 = w\<lparr>vm_slots := (vm_slots w)(a := ?P @ [z] @ ?R)\<rparr>"
  have "xs = take i xs @ [xs ! i] @ drop (Suc i) xs" using assms(2) by (simp add: id_take_nth_drop)
  then have s: "vm_slots w a = ?P @ map Some [xs ! i] @ ?R" using assms(1) by (metis append_assoc map_append)
  have d: "do_destroy v a i 1 w = VRet w2"
  proof (cases "trivial_dtor v")
    case True
    have "w2 = w\<lparr>vm_slots := (vm_slots w)(a := vm_slots w a)\<rparr>" unfolding s by (simp add: w2_def z_def True)
    with True show ?thesis by (simp add: do_destroy_def)
  next
    case False
    with end_ok [OF s, of i 1] assms(2) show ?thesis by (simp add: do_destroy_def w2_def z_def)
  qed
  have u: "?P @ [z] @ ?R = (map Some xs)[i := z] @ rest"
    using assms(2) by (simp add: upd_conv_take_nth_drop take_map drop_map)
  have w2s: "vm_slots w2 a = (map Some xs)[i := z] @ rest" unfolding u [symmetric] by (simp add: w2_def)
  have r: "read_items w2 (Slots a j) 1 = Some [xs ! j]" if "j < length xs" "j \<noteq> i" for j
  proof -
    have "take 1 (drop j ((map Some xs)[i := z] @ rest)) = [Some (xs ! j)]"
      using that by (simp add: nth_append hd_drop_conv_nth take_Suc)
    then show ?thesis using that(1) unfolding read_items_def vsrc.case w2s by simp
  qed
  have p: "put_items v a i [y] w2 = VRet (w\<lparr>vm_slots := (vm_slots w)(a := map Some (xs[i := y]) @ rest)\<rparr>)" for y
  proof -
    have "put_items v a i [y] w2 = VRet (w2\<lparr>vm_slots := (vm_slots w2)(a := ?P @ map Some [y] @ ?R)\<rparr>)"
      by (rule put_ok [where Q = "[z]"]) (use assms(2) in \<open>simp_all add: w2_def raw_slots_def z_def\<close>)
    moreover have "?P @ map Some [y] @ ?R = map Some (xs[i := y]) @ rest"
      using assms(2) by (simp add: upd_conv_take_nth_drop)
    moreover have "w2\<lparr>vm_slots := (vm_slots w2)(a := X)\<rparr> = w\<lparr>vm_slots := (vm_slots w)(a := X)\<rparr>" for X by (simp add: w2_def)
    ultimately show ?thesis by (simp only:)
  qed
  show ?thesis using d r p by (intro exI [of _ w2]) (simp add: w2_def)
qed

lemma holds_replaced:
  assumes "vec_holds B refs w v xs" "mStorage v = Some a" "vm_slots w a = map Some xs @ rest" "length ys = length xs"
  shows "vec_holds B refs (w\<lparr>vm_slots := (vm_slots w)(a := map Some ys @ rest)\<rparr>) v ys"
proof -
  have "raw_slots v rest" using assms(1-3) by (auto simp: vec_holds_def)
  then show ?thesis by (intro holds_contents [where a = a and rest = rest]) (use assms in \<open>simp_all add: vec_holds_def\<close>)
qed

lemma replaceAt_ok:
  assumes L: "sb_laws B refs" and H: "vec_holds B refs w v xs" and i: "i < length xs" and x: "item_source refs w v item x"
  shows "vok (\<not> sb_plenty B) (\<lambda>(r, v', w'). r = Inr i \<and> vec_frame B refs v w v' w' \<and>
      vec_holds B refs w' v' (xs[i := hd (new_items T v x i 1)])) (replaceAt B T item i v w)" (is "vok ?A ?P _")
proof -
  obtain sb where sb: "mStorage v = Some sb" using H i by (cases "mStorage v") (simp_all add: vec_holds_def)
  from H sb have "length xs \<le> length (vm_slots w sb)" "length (vm_slots w sb) = capacity B v w"
    by (auto simp: vec_holds_def capacity_def)
  then have cap: "i < capacity B v w" "\<not> mCount v \<le> i" using H i by (simp_all add: vec_holds_def)
  have run: "replaceAt B T item i v w = vthen (editArrayImpl B v w) (\<lambda>(v1, w1).
      case mStorage v1 of
        None \<Rightarrow> (case item of None \<Rightarrow> VRet (Inr i, v1, w1) | Some _ \<Rightarrow> VRet (Inl NO_MEMORY, v1, w1))
      | Some a \<Rightarrow>
          (case item of
             Some x \<Rightarrow>
               if x = Slots a i then VRet (Inr i, v1, w1)
               else vthen (do_destroy v1 a i 1 w1) (\<lambda>w2. vthen (do_copy v1 a i x 1 w2) (\<lambda>w3. VRet (Inr i, v1, w3)))
           | None \<Rightarrow>
               vthen (do_destroy v1 a i 1 w1) (\<lambda>w2.
               vthen (do_construct (it_junk T) (it_default T) v1 a i 1 w2) (\<lambda>w3. VRet (Inr i, v1, w3)))))"
    using cap by (cases "editArrayImpl B v w") (simp_all add: replaceAt_def editItemLocation_def split: prod.splits option.splits)
  show ?thesis unfolding run
  proof (rule vok_then [OF editArray_ok [OF L H]])
    fix r
    assume r: "case r of (v', w') \<Rightarrow> vec_frame B refs v w v' w' \<and> vec_holds B refs w' v' xs \<and>
      capacity B v' w' = capacity B v w \<and> mCount v' = mCount v \<and>
      (case mStorage v of None \<Rightarrow> mStorage v' = None
       | Some _ \<Rightarrow> \<exists>a. mStorage v' = Some a \<and> refs (vm_heap w') a = 1)"
    obtain v1 w1 where p: "r = (v1, w1)" by (cases r)
    from r sb p obtain a where a: "mStorage v1 = Some a" "refs (vm_heap w1) a = 1" "vec_frame B refs v w v1 w1"
      "vec_holds B refs w1 v1 xs" by auto
    from a(1,4) obtain rest where s1: "vm_slots w1 a = map Some xs @ rest" by (auto simp: vec_holds_def)
    from write_item [OF s1 i, of v1] obtain w2 where w2: "do_destroy v1 a i 1 w1 = VRet w2"
      "vm_heap w2 = vm_heap w1" "\<forall>b. b \<noteq> a \<longrightarrow> vm_slots w2 b = vm_slots w1 b"
      "\<forall>y. put_items v1 a i [y] w2 = VRet (w1\<lparr>vm_slots := (vm_slots w1)(a := map Some (xs[i := y]) @ rest)\<rparr>)" by blast
    have fl: "trivial_ctor v1 = trivial_ctor v" using a(3) by (simp add: vec_frame_def has_flag_def)
    have P: "?P (Inr i, v1, w1\<lparr>vm_slots := (vm_slots w1)(a := map Some (xs[i := hd (new_items T v x i 1)]) @ rest)\<rparr>)"
      using holds_replaced [OF a(4,1) s1, of "xs[i := hd (new_items T v x i 1)]"]
        vec_frame_trans [OF a(3) frame_own [where v = v1 and v' = v1 and refs = refs and w = w1 and a = a, OF a(1,2,1) refl refl]]
      by simp
    show "vok ?A ?P (case r of (v1, w1) \<Rightarrow> case mStorage v1 of
        None \<Rightarrow> (case item of None \<Rightarrow> VRet (Inr i, v1, w1) | Some _ \<Rightarrow> VRet (Inl NO_MEMORY, v1, w1))
      | Some a \<Rightarrow>
          (case item of
             Some x \<Rightarrow>
               if x = Slots a i then VRet (Inr i, v1, w1)
               else vthen (do_destroy v1 a i 1 w1) (\<lambda>w2. vthen (do_copy v1 a i x 1 w2) (\<lambda>w3. VRet (Inr i, v1, w3)))
           | None \<Rightarrow>
               vthen (do_destroy v1 a i 1 w1) (\<lambda>w2.
               vthen (do_construct (it_junk T) (it_default T) v1 a i 1 w2) (\<lambda>w3. VRet (Inr i, v1, w3)))))"
    proof (cases item)
      case None
      then have "x = None" using x by (auto simp: item_source_def split: option.splits)
      then have "do_construct (it_junk T) (it_default T) v1 a i 1 w2 = put_items v1 a i [hd (new_items T v x i 1)] w2"
        using fl by (simp add: do_construct_def new_items_def)
      with P w2 None a(1) p show ?thesis by simp
    next
      case (Some src)
      then obtain y where y: "x = Some y" "vec_source refs w v src 1 [y]"
        using x by (auto simp: item_source_def split: option.splits)
      from source_frame [OF a(3) y(2)] have src: "read_items w1 src 1 = Some [y]" "vec_source refs w1 v1 src 1 [y]" .
      have ne: "b \<noteq> a" if "src = Slots b j" for b j using src(2) that a(1,2) by (auto simp: vec_source_def others_def)
      have "read_items w2 src 1 = Some [y]" using src(1) ne w2(3) by (cases src) (auto simp: read_items_def split: if_splits)
      then have "do_copy v1 a i src 1 w2 = put_items v1 a i [hd (new_items T v x i 1)] w2"
        using y(1) by (simp add: do_copy_def new_items_def)
      moreover have "src \<noteq> Slots a i" using ne by blast
      ultimately show ?thesis using P w2 Some a(1) p by simp
    qed
  qed
qed


section \<open>Capacity and size\<close>

lemma setCapacity_ok:
  assumes L: "sb_laws B refs" and H: "vec_holds B refs w v xs"
  shows "vok (\<not> sb_plenty B \<or> size_max \<le> n * mItemSize v) (\<lambda>(r, v', w'). vec_frame B refs v w v' w' \<and> vec_holds B refs w' v' xs \<and>
      r = (if n \<le> length xs then Inr (capacity B v w) else if v' = v then Inl NO_MEMORY else Inr n) \<and>
      (v' = v \<longrightarrow> n \<le> length xs \<or> \<not> sb_plenty B) \<and> (length xs < n \<and> v' \<noteq> v \<longrightarrow> capacity B v' w' = n)) (setCapacity B n v w)"
    (is "vok ?A ?P _")
proof -
  have f: "0 < mItemSize v" "4 * mItemSize v < size_max" "mCount v = length xs" "length xs < size_max"
    using H by (simp_all add: vec_holds_def)
  consider "n \<le> length xs" | "length xs < n" "size_max \<le> n * mItemSize v" | "length xs < n" "n * mItemSize v < size_max"
    by linarith
  then show ?thesis
  proof cases
    case 3
    obtain st w1 where e: "vm_alloc B v (n * mItemSize v) w = (st, w1)" by (cases "vm_alloc B v (n * mItemSize v) w")
    show ?thesis
    proof (cases st)
      case None
      with alloc_None [OF L e [unfolded None]] H 3 e f(3) show ?thesis by (simp add: setCapacity_def)
    next
      case (Some a)
      note e = e [unfolded Some]
      have nn: "n * mItemSize v div mItemSize v = n" using f(1) by simp
      note a = alloc_Some [OF L e, unfolded nn]
      have na: "mStorage v \<noteq> Some a" using H a(1) by (auto simp: vec_holds_def)
      let ?s = "map Some xs @ replicate (n - length xs) None"
      have r: "read_items w1 (arrayImpl v) (mCount v) = Some xs"
      proof (cases "mStorage v")
        case None
        then show ?thesis using H f(3) by (simp add: arrayImpl_def read_items_def vec_holds_def)
      next
        case (Some sb)
        from H Some obtain rest where "vm_slots w sb = map Some xs @ rest" by (auto simp: vec_holds_def)
        then have "vm_slots w1 sb = [] @ map Some xs @ rest" using na Some a(4) by simp
        from read_ok [OF this] f(3) Some show ?thesis by (simp add: arrayImpl_def)
      qed
      have "vm_slots w1 a = [] @ replicate (length xs) None @ replicate (n - length xs) None"
        using a(4) 3(1) by (simp flip: replicate_add)
      from put_ok [OF this, of 0 xs v] r have c: "do_copy v a 0 (arrayImpl v) (mCount v) w1 =
          VRet (w1\<lparr>vm_slots := (vm_slots w1)(a := ?s)\<rparr>)" by (simp add: do_copy_def)
      have run: "setCapacity B n v w = vthen (release_storage B v (w1\<lparr>vm_slots := (vm_slots w1)(a := ?s)\<rparr>))
          (\<lambda>w3. VRet (Inr n, v\<lparr>mStorage := Some a\<rparr>, w3))"
        using 3 e c f(3) by (simp add: setCapacity_def)
      show ?thesis unfolding run
      proof (rule vok_then)
        show "vok ?A (\<lambda>w3. vec_frame B refs v w (v\<lparr>mStorage := Some a\<rparr>) w3 \<and> refs (vm_heap w3) a = 1 \<and>
            vm_slots w3 a = ?s \<and> sb_size B (vm_heap w3) a = n * mItemSize v)
            (release_storage B v (w1\<lparr>vm_slots := (vm_slots w1)(a := ?s)\<rparr>))"
          by (rule vok_mono [OF install_ok [OF L H e refl]]) simp_all
      next
        fix w3
        assume w3: "vec_frame B refs v w (v\<lparr>mStorage := Some a\<rparr>) w3 \<and> refs (vm_heap w3) a = 1 \<and>
            vm_slots w3 a = ?s \<and> sb_size B (vm_heap w3) a = n * mItemSize v"
        then have "vec_holds B refs w3 (v\<lparr>mStorage := Some a\<rparr>) xs"
          by (intro holds_contents [where a = a and rest = "replicate (n - length xs) None"]) (use w3 f 3 in simp_all)
        moreover have "v\<lparr>mStorage := Some a\<rparr> \<noteq> v" using na by (metis vec.select_convs(1) vec.surjective vec.update_convs(1))
        moreover have "capacity B (v\<lparr>mStorage := Some a\<rparr>) w3 = n" using w3 nn by (simp add: capacity_def)
        ultimately show "vok ?A ?P (VRet (Inr n, v\<lparr>mStorage := Some a\<rparr>, w3))" using w3 3(1) by simp
      qed
    qed
  qed (use H f(3) in \<open>simp_all add: setCapacity_def\<close>)
qed

lemma resize_ok:
  assumes L: "sb_laws B refs" and H: "vec_holds B refs w v xs"
  shows "vok (\<not> vec_room B v (max n (length xs))) (\<lambda>(r, v', w'). vec_frame B refs v w v' w' \<and>
      (r = Inr n \<and> vec_holds B refs w' v' (take n xs @ new_items T v None (length xs) (n - length xs)) \<or>
       \<not> sb_plenty B \<and> vec_holds B refs w' v' xs)) (resize_vector B T n v w)" (is "vok ?A ?P _")
proof -
  have f: "mCount v = length xs" using H by (simp add: vec_holds_def)
  consider "length xs < n" | "n < length xs" | "n = length xs" by linarith
  then show ?thesis
  proof cases
    case 1
    have run: "resize_vector B T n v w = vthen (insertAt B T None (length xs) (n - length xs) v w)
        (\<lambda>(result, v1, w1). VRet (case result of Inl e \<Rightarrow> Inl e | Inr _ \<Rightarrow> Inr n, v1, w1))"
      using 1 f by (simp add: resize_vector_def)
    have ins: "vok ?A (vec_inserted B refs v w xs (length xs) (new_items T v None (length xs) (n - length xs)))
        (insertAt B T None (length xs) (n - length xs) v w)"
      by (rule vok_mono [OF insertAt_ok [OF L H order_refl]]) (use 1 in \<open>simp_all add: item_source_def max_def\<close>)
    have ne: "new_items T v None (length xs) (n - length xs) \<noteq> []" using 1 length_new_items by (metis length_0_conv zero_less_diff less_numeral_extra(3))
    show ?thesis unfolding run
      by (rule vok_then [OF ins]) (use ne 1 in \<open>auto simp: vec_inserted_def\<close>)
  next
    case 2
    have run: "resize_vector B T n v w = vthen (removeItemsAt B n (length xs - n) v w)
        (\<lambda>(result, v1, w1). VRet (case result of Inl e \<Rightarrow> Inl e | Inr _ \<Rightarrow> Inr n, v1, w1))"
      using 2 f by (simp add: resize_vector_def)
    have "vok ?A (\<lambda>(r, v', w'). r = Inr n \<and> vec_removed B refs v w xs n (length xs - n) v' w')
        (removeItemsAt B n (length xs - n) v w)"
      by (rule vok_mono [OF removeItemsAt_ok [OF L H]]) (use 2 in \<open>simp_all add: vec_room_def\<close>)
    then show ?thesis unfolding run using 2
      by (elim vok_then) (auto simp: vec_removed_def new_items_def)
  next
    case 3
    then show ?thesis using H f by (simp add: resize_vector_def new_items_def)
  qed
qed

end
