(* ===== verification/VectorSort.thy ===== *)
theory VectorSort
  imports VectorProps "HOL-Library.Sorting_Algorithms"
begin

text \<open>
  \<open>VectorImpl::sort\<close>, an insertion sort in place, and its equivalence with the stable sort of the library.
\<close>

section \<open>The sort\<close>

definition item_of :: "vec \<Rightarrow> nat \<Rightarrow> ('h, 'a) vmem \<Rightarrow> 'a option" where
  "item_of v i w =
     (case mStorage v of
        None \<Rightarrow> None
      | Some a \<Rightarrow> map_option hd (read_items w (Slots a i) 1))"

text \<open>
  The inner loop: the item before the hole \<open>j + 1\<close> moves into it while it is greater than \<open>temp\<close>; the result is
  the hole at the end.
\<close>

fun sort_shift ::
  "('a \<Rightarrow> 'a \<Rightarrow> int) \<Rightarrow> vec \<Rightarrow> addr \<Rightarrow> 'a \<Rightarrow> nat \<Rightarrow> ('h, 'a) vmem \<Rightarrow> (nat \<times> ('h, 'a) vmem) vrun" where
  "sort_shift cmp v a temp 0 w =
     vthen (do_destroy v a 1 1 w) (\<lambda>w1. vthen (do_copy v a 1 (Slots a 0) 1 w1) (\<lambda>w2. VRet (0, w2)))"
| "sort_shift cmp v a temp (Suc j) w =
     vthen (do_destroy v a (Suc (Suc j)) 1 w) (\<lambda>w1.
     vthen (do_copy v a (Suc (Suc j)) (Slots a (Suc j)) 1 w1) (\<lambda>w2.
       case read_items w2 (Slots a j) 1 of
         None \<Rightarrow> VUndef
       | Some cur \<Rightarrow> if 0 < cmp (hd cur) temp then sort_shift cmp v a temp j w2 else VRet (Suc j, w2)))"

text \<open>One item is taken out and put in its place; \<open>temp\<close> is memory of its own.\<close>

definition sort_insert ::
  "('a \<Rightarrow> 'a \<Rightarrow> int) \<Rightarrow> nat \<Rightarrow> vec \<Rightarrow> ('h, 'a) vmem \<Rightarrow> ('h, 'a) vmem vrun" where
  "sort_insert cmp i v w =
     (case mStorage v of
        None \<Rightarrow> VUndef
      | Some a \<Rightarrow>
          (case item_of v i w of
             None \<Rightarrow> VUndef
           | Some temp \<Rightarrow>
               vthen (sort_shift cmp v a temp (i - 1) w) (\<lambda>(j, w1).
               vthen (do_destroy v a j 1 w1) (\<lambda>w2. do_copy v a j (Objects [temp]) 1 w2))))"

text \<open>
  The outer loop: \<open>temp\<close> says whether the array is detached and the memory of the moving item is there, which
  both happens when the first item has to move.
\<close>

function sort_from ::
  "'h shared_buffer \<Rightarrow> ('a \<Rightarrow> 'a \<Rightarrow> int) \<Rightarrow> nat \<Rightarrow> nat \<Rightarrow> bool \<Rightarrow> vec \<Rightarrow> ('h, 'a) vmem \<Rightarrow>
     (vec_error option \<times> vec \<times> ('h, 'a) vmem) vrun" where
  "sort_from B cmp num i temp v w =
     (if i < num
      then case (item_of v (i - 1) w, item_of v i w) of
             (Some cur, Some item) \<Rightarrow>
               if 0 < cmp cur item
               then vthen (if temp then VRet (v, w) else editArrayImpl B v w) (\<lambda>(v1, w1).
                 if \<not> temp \<and> \<not> vi_malloc B (vm_heap w1) then VRet (Some NO_MEMORY, v1, w1)
                 else vthen (sort_insert cmp i v1 w1) (\<lambda>w2. sort_from B cmp num (Suc i) True v1 w2))
               else sort_from B cmp num (Suc i) temp v w
           | _ \<Rightarrow> VUndef
      else VRet (None, v, w))"
  by pat_completeness auto
termination by (relation "measure (\<lambda>(B, cmp, num, i, temp, v, w). num - i)") auto

declare sort_from.simps [simp del]

definition sort_vector ::
  "'h shared_buffer \<Rightarrow> ('a \<Rightarrow> 'a \<Rightarrow> int) \<Rightarrow> vec \<Rightarrow> ('h, 'a) vmem \<Rightarrow> (vec_error option \<times> vec \<times> ('h, 'a) vmem) vrun" where
  "sort_vector B cmp v w =
     (if 1 < to_ssize (mCount v) then sort_from B cmp (mCount v) 1 False v w else VRet (None, v, w))"

section \<open>On lists\<close>

fun push_back :: "('a \<Rightarrow> 'a \<Rightarrow> int) \<Rightarrow> 'a \<Rightarrow> 'a list \<Rightarrow> 'a list" where
  "push_back cmp t [] = [t]"
| "push_back cmp t (x # xs) = (if 0 < cmp x t then x # push_back cmp t xs else t # x # xs)"

definition ins_back :: "('a \<Rightarrow> 'a \<Rightarrow> int) \<Rightarrow> 'a \<Rightarrow> 'a list \<Rightarrow> 'a list" where
  "ins_back cmp t ys = rev (push_back cmp t (rev ys))"

lemma ins_back_snoc: "ins_back cmp t (ys @ [p]) = (if 0 < cmp p t then ins_back cmp t ys @ [p] else ys @ [p, t])"
  by (simp add: ins_back_def)

lemma ins_back_Nil [simp]: "ins_back cmp t [] = [t]"
  by (simp add: ins_back_def)

lemma length_ins_back [simp]: "length (ins_back cmp t ys) = Suc (length ys)"
proof -
  have "length (push_back cmp t xs) = Suc (length xs)" for xs by (induction xs) auto
  then show ?thesis by (simp add: ins_back_def)
qed

lemma mset_ins_back [simp]: "mset (ins_back cmp t ys) = add_mset t (mset ys)"
proof -
  have "mset (push_back cmp t xs) = add_mset t (mset xs)" for xs by (induction xs) auto
  then show ?thesis by (simp add: ins_back_def)
qed

definition sort_prefix :: "('a \<Rightarrow> 'a \<Rightarrow> int) \<Rightarrow> 'a list \<Rightarrow> 'a list" where
  "sort_prefix cmp xs = fold (ins_back cmp) xs []"

lemma sort_prefix_snoc: "sort_prefix cmp (xs @ [x]) = ins_back cmp x (sort_prefix cmp xs)"
  by (simp add: sort_prefix_def)

lemma sort_prefix_Nil [simp]: "sort_prefix cmp [] = []"
  by (simp add: sort_prefix_def)

lemma mset_sort_prefix [simp]: "mset (sort_prefix cmp xs) = mset xs"
  by (induction xs rule: rev_induct) (simp_all add: sort_prefix_snoc)

lemma length_sort_prefix [simp]: "length (sort_prefix cmp xs) = length xs"
  by (metis mset_sort_prefix size_mset)

text \<open>A comparison function in the sense of \<open>strcmp\<close> that agrees with a comparator of the library.\<close>

definition compares :: "('a \<Rightarrow> 'a \<Rightarrow> int) \<Rightarrow> 'a comparator \<Rightarrow> bool" where
  "compares cmp C \<longleftrightarrow> (\<forall>x y. compare C x y = (if cmp x y < 0 then Less else if cmp x y = 0 then Equiv else Greater))"

lemma compares_greater: "compares cmp C \<Longrightarrow> 0 < cmp x y \<longleftrightarrow> compare C x y = Greater"
  by (simp add: compares_def)

lemma stable_ins_back:
  assumes "compares cmp C"
  shows "stable_segment C k (ins_back cmp t ys) = stable_segment C k (ys @ [t])"
proof (induction ys rule: rev_induct)
  case (snoc p ys)
  show ?case
  proof (cases "0 < cmp p t")
    case True
    then have "compare C p t = Greater" using assms by (simp add: compares_greater)
    then have "\<not> (compare C k p = Equiv \<and> compare C k t = Equiv)"
      by (metis comp.distinct(5) compare.sym compare.trans_equiv)
    then show ?thesis using snoc True by (auto simp: ins_back_snoc)
  qed (simp add: ins_back_snoc)
qed simp

lemma sorted_ins_back:
  assumes "compares cmp C" "Sorting_Algorithms.sorted C ys"
  shows "Sorting_Algorithms.sorted C (ins_back cmp t ys)"
  using assms(2)
proof (induction ys rule: rev_induct)
  case (snoc p ys)
  have p: "Sorting_Algorithms.sorted C ys" "\<forall>x \<in> set ys. compare C x p \<noteq> Greater"
    using snoc.prems by (simp_all add: sorted_append_iff)
  show ?case
  proof (cases "0 < cmp p t")
    case True
    then have "compare C p t = Greater" using assms(1) by (simp add: compares_greater)
    then have "compare C t p \<noteq> Greater" by (simp add: compare.greater_iff_sym_less)
    moreover have "set (ins_back cmp t ys) = insert t (set ys)" by (metis mset_ins_back set_mset_add_mset_insert set_mset_mset)
    ultimately show ?thesis using True snoc.IH [OF p(1)] p(2) by (simp add: ins_back_snoc sorted_append_iff)
  next
    case False
    then have "compare C p t \<noteq> Greater" using assms(1) by (simp add: compares_greater)
    moreover have "\<forall>x \<in> set ys. compare C x t \<noteq> Greater"
    proof
      fix x
      assume "x \<in> set ys"
      with p(2) have "compare C x p \<noteq> Greater" by blast
      then show "compare C x t \<noteq> Greater" using \<open>compare C p t \<noteq> Greater\<close> by (rule compare.trans_not_greater)
    qed
    ultimately show ?thesis using False p by (simp add: ins_back_snoc sorted_append_iff)
  qed
qed simp


theorem sort_prefix_stable:
  assumes "compares cmp C"
  shows "sort_prefix cmp xs = Sorting_Algorithms.sort C xs"
proof -
  have "Sorting_Algorithms.sorted C (sort_prefix cmp xs)"
    by (induction xs rule: rev_induct) (simp_all add: sort_prefix_snoc sorted_ins_back [OF assms])
  moreover have "stable_segment C k (sort_prefix cmp xs) = stable_segment C k xs" for k
    by (induction xs rule: rev_induct) (simp_all add: sort_prefix_snoc stable_ins_back [OF assms])
  ultimately show ?thesis by (intro sort_eqI [symmetric]) simp_all
qed

section \<open>In memory\<close>

text \<open>One item moves up into the hole behind it.\<close>

lemma shift_one:
  assumes "vm_slots w a = map Some (ys @ [p] @ [q] @ R) @ rest" "length ys = j"
  shows "vthen (do_destroy v a (Suc j) 1 w) (\<lambda>w1. vthen (do_copy v a (Suc j) (Slots a j) 1 w1) g) =
    g (w\<lparr>vm_slots := (vm_slots w)(a := map Some (ys @ [p] @ [p] @ R) @ rest)\<rparr>)"
proof -
  let ?xs = "ys @ [p] @ [q] @ R"
  have l: "Suc j < length ?xs" "j < length ?xs" "j \<noteq> Suc j" "?xs ! j = p" "?xs[Suc j := p] = ys @ [p] @ [p] @ R"
    using assms(2) by (simp_all add: nth_append list_update_append)
  from write_item [OF assms(1) l(1), of v] obtain w2 where w2: "do_destroy v a (Suc j) 1 w = VRet w2"
    "read_items w2 (Slots a j) 1 = Some [?xs ! j]"
    "\<forall>y. put_items v a (Suc j) [y] w2 = VRet (w\<lparr>vm_slots := (vm_slots w)(a := map Some (?xs[Suc j := y]) @ rest)\<rparr>)"
    using l(2,3) by blast
  then show ?thesis unfolding do_copy_def by (simp only: vthen.simps option.case l(4,5))
qed

lemma read_item:
  assumes "vm_slots w a = map Some xs @ rest" "i < length xs"
  shows "read_items w (Slots a i) 1 = Some [xs ! i]"
proof -
  have "xs = take i xs @ [xs ! i] @ drop (Suc i) xs" using assms(2) by (simp add: id_take_nth_drop)
  then have "vm_slots w a = map Some (take i xs) @ map Some [xs ! i] @ (map Some (drop (Suc i) xs) @ rest)"
    using assms(1) by (metis append_assoc map_append)
  from read_ok [OF this] assms(2) show ?thesis by simp
qed

lemma shift_ok:
  assumes "vm_slots w a = map Some (ys @ [p] @ [q] @ R) @ rest" "length ys = j" "0 < cmp p t"
  shows "\<exists>k L. sort_shift cmp v a t j w = VRet (k, w\<lparr>vm_slots := (vm_slots w)(a := map Some L @ rest)\<rparr>) \<and>
    k < length L \<and> L[k := t] = ins_back cmp t (ys @ [p]) @ R"
  using assms
proof (induction j arbitrary: w ys p q R)
  case 0
  then have "ys = []" by simp
  have run: "sort_shift cmp v a t 0 w = VRet (0, w\<lparr>vm_slots := (vm_slots w)(a := map Some ([] @ [p] @ [p] @ R) @ rest)\<rparr>)"
    unfolding sort_shift.simps One_nat_def [symmetric]
    using shift_one [where ys = "[]" and j = 0 and p = p and q = q and R = R and rest = rest and w = w and a = a and v = v
        and g = "\<lambda>w2. VRet (0, w2)", OF 0(1) [unfolded \<open>ys = []\<close>] list.size(3)]
    unfolding One_nat_def [symmetric] .
  show ?case unfolding run using 0(3) \<open>ys = []\<close>
    by (intro exI [of _ 0] exI [of _ "[] @ [p] @ [p] @ R"] conjI refl) (simp_all add: ins_back_snoc [of cmp t "[]", simplified])
next
  case (Suc j)
  obtain zs x where ys: "ys = zs @ [x]" "length zs = j" using Suc.prems(2) by (cases ys rule: rev_cases) auto
  let ?L = "ys @ [p] @ [p] @ R"
  define w2 where "w2 = w\<lparr>vm_slots := (vm_slots w)(a := map Some ?L @ rest)\<rparr>"
  have s2: "vm_slots w2 a = map Some ?L @ rest" by (simp add: w2_def)
  have x: "?L ! j = x" "j < length ?L" using ys by (simp_all add: nth_append)
  have run: "sort_shift cmp v a t (Suc j) w = (if 0 < cmp x t then sort_shift cmp v a t j w2 else VRet (Suc j, w2))"
    unfolding sort_shift.simps shift_one [OF Suc.prems(1,2)] w2_def [symmetric] read_item [OF s2 x(2)]
    unfolding x(1) by simp
  show ?case
  proof (cases "0 < cmp x t")
    case True
    have "vm_slots w2 a = map Some (zs @ [x] @ [p] @ ([p] @ R)) @ rest" unfolding s2 ys(1) by simp
    from Suc.IH [OF this ys(2) True] obtain k L where
      "sort_shift cmp v a t j w2 = VRet (k, w2\<lparr>vm_slots := (vm_slots w2)(a := map Some L @ rest)\<rparr>)"
      "k < length L" "L[k := t] = ins_back cmp t (zs @ [x]) @ [p] @ R" by blast
    moreover have "w2\<lparr>vm_slots := (vm_slots w2)(a := X)\<rparr> = w\<lparr>vm_slots := (vm_slots w)(a := X)\<rparr>" for X by (simp add: w2_def)
    moreover have "ins_back cmp t (ys @ [p]) = ins_back cmp t (zs @ [x]) @ [p]"
      using ins_back_snoc [of cmp t ys p] Suc.prems(3) unfolding ys(1) [symmetric] by simp
    ultimately show ?thesis unfolding run if_P [OF True] by (intro exI [of _ k] exI [of _ L]) (simp only: append_assoc simp_thms)
  next
    case False
    have "ins_back cmp t ys = ys @ [t]" using False ys(1) by (simp add: ins_back_snoc)
    then have "ins_back cmp t (ys @ [p]) = ys @ [t, p]" using ins_back_snoc [of cmp t ys p] Suc.prems(3) by simp
    moreover have "?L[Suc j := t] = ys @ [t, p] @ R" using Suc.prems(2) by (simp add: list_update_append)
    moreover have "Suc j < length ?L" using Suc.prems(2) by simp
    ultimately show ?thesis unfolding run if_not_P [OF False] w2_def
      by (intro exI [of _ "Suc j"] exI [of _ ?L]) (simp only: append_assoc append.simps simp_thms)
  qed
qed

lemma sort_insert_ok:
  assumes "vec_holds B refs w v (ys @ [p, t] @ R)" "mStorage v = Some a" "refs (vm_heap w) a = 1" "0 < cmp p t" "i = Suc (length ys)"
  shows "\<exists>w'. sort_insert cmp i v w = VRet w' \<and> vec_holds B refs w' v (ins_back cmp t (ys @ [p]) @ R) \<and>
    vec_frame B refs v w v w' \<and> refs (vm_heap w') a = 1"
proof -
  let ?xs = "ys @ [p, t] @ R" and ?zs = "ins_back cmp t (ys @ [p]) @ R"
  from assms(1,2) obtain rest where s: "vm_slots w a = map Some ?xs @ rest" by (auto simp: vec_holds_def)
  then have s': "vm_slots w a = map Some (ys @ [p] @ [t] @ R) @ rest" by simp
  have "?xs ! i = t" "i < length ?xs" using assms(5) by (simp_all add: nth_append)
  with read_item [OF s] have t: "item_of v i w = Some t" by (simp add: item_of_def assms(2))
  from shift_ok [where j = "length ys" and cmp = cmp and t = t and ys = ys and p = p and q = t and R = R and v = v and w = w and a = a and rest = rest,
      OF s' refl assms(4)] obtain k L where
    sh: "sort_shift cmp v a t (length ys) w = VRet (k, w\<lparr>vm_slots := (vm_slots w)(a := map Some L @ rest)\<rparr>)"
    and L: "k < length L" "L[k := t] = ?zs" by blast
  define w1 where "w1 = w\<lparr>vm_slots := (vm_slots w)(a := map Some L @ rest)\<rparr>"
  have s1: "vm_slots w1 a = map Some L @ rest" by (simp add: w1_def)
  from write_item [OF s1 L(1), of v] obtain w2 where w2: "do_destroy v a k 1 w1 = VRet w2"
    "put_items v a k [t] w2 = VRet (w1\<lparr>vm_slots := (vm_slots w1)(a := map Some (L[k := t]) @ rest)\<rparr>)" by blast
  have w1': "w1\<lparr>vm_slots := (vm_slots w1)(a := X)\<rparr> = w\<lparr>vm_slots := (vm_slots w)(a := X)\<rparr>" for X by (simp add: w1_def)
  let ?w' = "w\<lparr>vm_slots := (vm_slots w)(a := map Some ?zs @ rest)\<rparr>"
  have c: "do_copy v a k (Objects [t]) 1 w2 = VRet ?w'"
    using w2(2) unfolding L(2) w1' by (simp add: do_copy_def read_items_def)
  have "sort_insert cmp i v w = VRet ?w'"
    unfolding sort_insert_def assms(2) option.case t
    using sh assms(5) w2(1) c by (simp add: w1_def)
  moreover have "vec_holds B refs ?w' v ?zs" by (rule holds_replaced [OF assms(1,2) s]) simp
  moreover have "vec_frame B refs v w v ?w'"
    by (rule frame_own [where v = v and v' = v and refs = refs and w = w and a = a, OF assms(2,3,2) refl refl])
  moreover have "vm_heap ?w' = vm_heap w" by simp
  ultimately show ?thesis using assms(3) by (intro exI [of _ ?w']) (simp only: simp_thms)
qed

lemma item_of_ok:
  assumes "vec_holds B refs w v xs" "i < length xs"
  shows "item_of v i w = Some (xs ! i)"
proof -
  from assms obtain a where a: "mStorage v = Some a" by (cases "mStorage v") (auto simp: vec_holds_def)
  with assms(1) obtain rest where "vm_slots w a = map Some xs @ rest" by (auto simp: vec_holds_def)
  from read_item [OF this assms(2)] a show ?thesis by (simp add: item_of_def)
qed


text \<open>The outer loop, from a state in which the first \<open>i\<close> items are in order.\<close>

definition sort_ok ::
  "'h shared_buffer \<Rightarrow> ('h \<Rightarrow> addr \<Rightarrow> nat) \<Rightarrow> vec \<Rightarrow> ('h, 'a) vmem \<Rightarrow> 'a list \<Rightarrow> 'a list \<Rightarrow>
     vec_error option \<times> vec \<times> ('h, 'a) vmem \<Rightarrow> bool" where
  "sort_ok B refs v w xs ys r \<longleftrightarrow>
     (case r of (e, v', w') \<Rightarrow> vec_frame B refs v w v' w' \<and>
        (if e = None then vec_holds B refs w' v' ys
         else e = Some NO_MEMORY \<and> vec_holds B refs w' v' xs \<and> (\<exists>h. \<not> vi_malloc B h)))"

lemma sort_from_ok:
  assumes L: "sb_laws B refs" and "vec_holds B refs w v (sort_prefix cmp (take i xs) @ drop i xs)"
    and "0 < i" "i \<le> length xs" "temp \<Longrightarrow> \<exists>a. mStorage v = Some a \<and> refs (vm_heap w) a = 1" "temp \<or> sort_prefix cmp (take i xs) = take i xs"
  shows "vok (\<not> sb_plenty B) (sort_ok B refs v w xs (sort_prefix cmp xs)) (sort_from B cmp (length xs) i temp v w)"
  using assms(2-)
proof (induction "length xs - i" arbitrary: i temp v w)
  case 0
  then have "i = length xs" by simp
  with 0 show ?case by (subst sort_from.simps) (simp add: sort_ok_def)
next
  case (Suc n)
  then have i: "i < length xs" by simp
  define ys where "ys = sort_prefix cmp (take i xs)"
  have ly: "length ys = i" using Suc.prems(3) by (simp add: ys_def)
  then obtain zs p where ys: "ys = zs @ [p]" "Suc (length zs) = i" using Suc.prems(2) by (cases ys rule: rev_cases) auto
  define t where "t = xs ! i"
  have H: "vec_holds B refs w v (zs @ [p, t] @ drop (Suc i) xs)"
    using Suc.prems(1) i by (simp add: ys_def [symmetric] ys(1) t_def Cons_nth_drop_Suc)
  have items: "item_of v (i - 1) w = Some p" "item_of v i w = Some t"
    using item_of_ok [OF H, of "i - 1"] item_of_ok [OF H, of i] ys(2) by (auto simp: nth_append)
  have step: "sort_prefix cmp (take (Suc i) xs) = ins_back cmp t ys"
    using i by (simp add: take_Suc_conv_app_nth sort_prefix_snoc ys_def t_def)
  show ?case
  proof (cases "0 < cmp p t")
    case False
    have run: "sort_from B cmp (length xs) i temp v w = sort_from B cmp (length xs) (Suc i) temp v w"
      using i items False by (subst sort_from.simps) simp
    have eq: "ins_back cmp t ys = ys @ [t]" using False ys(1) by (simp add: ins_back_snoc)
    have "vec_holds B refs w v (sort_prefix cmp (take (Suc i) xs) @ drop (Suc i) xs)" unfolding step eq using H ys(1) by simp
    moreover have "temp \<or> sort_prefix cmp (take (Suc i) xs) = take (Suc i) xs"
      unfolding step eq using Suc.prems(5) i by (simp add: ys_def t_def take_Suc_conv_app_nth)
    ultimately show ?thesis unfolding run
      using Suc.hyps(2) i Suc.prems(4) by (intro Suc.hyps(1)) auto
  next
    case True
    let ?next = "\<lambda>(v1, w1). if \<not> temp \<and> \<not> vi_malloc B (vm_heap w1) then VRet (Some NO_MEMORY, v1, w1)
        else vthen (sort_insert cmp i v1 w1) (\<lambda>w2. sort_from B cmp (length xs) (Suc i) True v1 w2)"
    have run: "sort_from B cmp (length xs) i temp v w = vthen (if temp then VRet (v, w) else editArrayImpl B v w) ?next"
      using i items True by (subst sort_from.simps) simp
    have edit: "vok (\<not> sb_plenty B) (\<lambda>(v1, w1). vec_frame B refs v w v1 w1 \<and> vec_holds B refs w1 v1 (zs @ [p, t] @ drop (Suc i) xs) \<and>
        (\<exists>a. mStorage v1 = Some a \<and> refs (vm_heap w1) a = 1)) (if temp then VRet (v, w) else editArrayImpl B v w)"
    proof (cases temp)
      case True
      then show ?thesis using H Suc.prems(4) by simp
    next
      case False
      have "mStorage v \<noteq> None" using H by (cases "mStorage v") (simp_all add: vec_holds_def)
      then obtain sb where sb: "mStorage v = Some sb" by blast
      show ?thesis unfolding if_not_P [OF False]
        by (rule vok_mono [OF editArray_ok [OF L H, unfolded sb option.case]]) blast+
    qed
    show ?thesis unfolding run
    proof (rule vok_then [OF edit])
      fix r
      assume r: "case r of (v1, w1) \<Rightarrow> vec_frame B refs v w v1 w1 \<and> vec_holds B refs w1 v1 (zs @ [p, t] @ drop (Suc i) xs) \<and>
        (\<exists>a. mStorage v1 = Some a \<and> refs (vm_heap w1) a = 1)"
      obtain v1 w1 where pr: "r = (v1, w1)" by (cases r)
      from r pr obtain a where a: "vec_frame B refs v w v1 w1" "vec_holds B refs w1 v1 (zs @ [p, t] @ drop (Suc i) xs)"
        "mStorage v1 = Some a" "refs (vm_heap w1) a = 1" by auto
      show "vok (\<not> sb_plenty B) (sort_ok B refs v w xs (sort_prefix cmp xs)) (?next r)"
      proof (cases "\<not> temp \<and> \<not> vi_malloc B (vm_heap w1)")
        case True
        have "zs @ [p, t] @ drop (Suc i) xs = xs"
        proof -
          have "zs @ [p] = take i xs" using Suc.prems(5) True ys(1) by (simp add: ys_def)
          then have "zs @ [p, t] @ drop (Suc i) xs = take i xs @ t # drop (Suc i) xs" by (metis append.assoc append_Cons append_Nil)
          then show ?thesis using i by (simp add: t_def Cons_nth_drop_Suc)
        qed
        with True a pr show ?thesis by (auto simp: sort_ok_def)
      next
        case False
        from sort_insert_ok [where B = B and refs = refs and w = w1 and v = v1 and ys = zs and p = p and t = t
            and R = "drop (Suc i) xs" and a = a and cmp = cmp, OF a(2-4) \<open>0 < cmp p t\<close>, of i] ys(2) obtain w2 where
          w2: "sort_insert cmp i v1 w1 = VRet w2" "vec_holds B refs w2 v1 (ins_back cmp t (zs @ [p]) @ drop (Suc i) xs)"
          "vec_frame B refs v1 w1 v1 w2" "refs (vm_heap w2) a = 1" by blast
        have "vok (\<not> sb_plenty B) (sort_ok B refs v1 w2 xs (sort_prefix cmp xs)) (sort_from B cmp (length xs) (Suc i) True v1 w2)"
          using Suc.hyps(2) i w2(2,4) a(3) by (intro Suc.hyps(1)) (simp_all add: step ys(1))
        then have "vok (\<not> sb_plenty B) (sort_ok B refs v w xs (sort_prefix cmp xs)) (sort_from B cmp (length xs) (Suc i) True v1 w2)"
          by (rule vok_mono) (use vec_frame_trans [OF vec_frame_trans [OF a(1) w2(3)]] in \<open>auto simp: sort_ok_def\<close>)
        then show ?thesis unfolding pr prod.case if_not_P [OF False] w2(1) vthen.simps .
      qed
    qed
  qed
qed

lemma sort_vector_ok:
  assumes "sb_laws B refs" "vec_holds B refs w v xs"
  shows "vok (\<not> sb_plenty B) (sort_ok B refs v w xs (if 2 * length xs < size_max then sort_prefix cmp xs else xs))
    (sort_vector B cmp v w)"
proof (cases "1 < length xs \<and> 2 * length xs < size_max")
  case True
  then obtain x xs' where x: "xs = x # xs'" by (cases xs) auto
  have n: "mCount v = length xs" "length xs < size_max" using assms(2) by (simp_all add: vec_holds_def)
  have "sort_prefix cmp (take 1 xs) = take 1 xs" using x by (simp add: sort_prefix_def)
  then have "vok (\<not> sb_plenty B) (sort_ok B refs v w xs (sort_prefix cmp xs)) (sort_from B cmp (length xs) 1 False v w)"
    using True assms(2) by (intro sort_from_ok [OF assms(1)]) simp_all
  then show ?thesis using True n by (simp add: sort_vector_def to_ssize_def)
next
  case False
  then have "sort_prefix cmp xs = xs" if "2 * length xs < size_max" using that by (cases xs) (auto simp: sort_prefix_def)
  moreover have "mCount v = length xs" "length xs < size_max" using assms(2) by (simp_all add: vec_holds_def)
  ultimately have "\<not> 1 < to_ssize (mCount v)" "(if 2 * length xs < size_max then sort_prefix cmp xs else xs) = xs"
    using False by (auto simp: to_ssize_def)
  then show ?thesis using assms(2) by (simp add: sort_vector_def sort_ok_def)
qed

end
