(* ===== verification/VectorCalls.thy ===== *)
theory VectorCalls
  imports VectorSort "HOL-Library.Code_Target_Nat"
begin

text \<open>
  Several vectors of one type in one memory: any sequence of calls keeps every vector well formed and the
  owners of the buffers counted. The properties of the vectors follow, with a concrete heap for their
  witnesses.
\<close>

section \<open>Calls\<close>

text \<open>The calls a program makes; the first number is the vector that is called.\<close>

datatype 'a vec_call =
    VNew
  | VCopy nat
  | VAssign nat nat
  | VFinish nat
  | VInsertArray nat "'a list" nat
  | VInsertVector nat nat nat
  | VInsert nat "'a option" nat nat
  | VPop nat
  | VReplace nat "'a option" nat
  | VRemove nat nat nat
  | VClear nat
  | VCapacity nat nat
  | VResize nat nat
  | VSort nat

definition call_on ::
  "(vec \<Rightarrow> ('h, 'a) vmem \<Rightarrow> (vec \<times> ('h, 'a) vmem) vrun) \<Rightarrow> nat \<Rightarrow> vec list \<times> ('h, 'a) vmem \<Rightarrow> (vec list \<times> ('h, 'a) vmem) vrun" where
  "call_on f i s = (case s of (vs, w) \<Rightarrow>
     if i < length vs then vthen (f (vs ! i) w) (\<lambda>(v', w'). VRet (vs[i := v'], w')) else VRet s)"

definition ignoring ::
  "(vec \<Rightarrow> ('h, 'a) vmem \<Rightarrow> ('r \<times> vec \<times> ('h, 'a) vmem) vrun) \<Rightarrow> vec \<Rightarrow> ('h, 'a) vmem \<Rightarrow> (vec \<times> ('h, 'a) vmem) vrun" where
  "ignoring f v w = vthen (f v w) (\<lambda>(_, v', w'). VRet (v', w'))"

text \<open>
  A call of a vector that is not there is no call, and neither is the assignment of a vector to itself, which the code tests for. The
  insertion of a vector into itself is carried out as the code does it. The items given are objects of the caller.
\<close>

fun run_call ::
  "'h shared_buffer \<Rightarrow> 'a item_type \<Rightarrow> ('a \<Rightarrow> 'a \<Rightarrow> int) \<Rightarrow> u32 \<Rightarrow> nat \<Rightarrow> 'a vec_call \<Rightarrow> vec list \<times> ('h, 'a) vmem \<Rightarrow>
     (vec list \<times> ('h, 'a) vmem) vrun" where
  "run_call B T cmp fl sz VNew (vs, w) = VRet (vs @ [vector_new sz fl], w)"
| "run_call B T cmp fl sz (VCopy i) (vs, w) =
     (if i < length vs then (case vector_copy B (vs ! i) w of (v', w') \<Rightarrow> VRet (vs @ [v'], w')) else VRet (vs, w))"
| "run_call B T cmp fl sz (VAssign i j) (vs, w) =
     (if j < length vs \<and> i \<noteq> j then call_on (\<lambda>v. vector_assign B v (vs ! j)) i (vs, w) else VRet (vs, w))"
| "run_call B T cmp fl sz (VFinish i) (vs, w) =
     vthen (call_on (finish_vector B) i (vs, w)) (\<lambda>(vs', w'). VRet (take i vs' @ drop (Suc i) vs', w'))"
| "run_call B T cmp fl sz (VInsertArray i xs pos) s = call_on (ignoring (insertArrayAt B (Objects xs) pos (length xs))) i s"
| "run_call B T cmp fl sz (VInsertVector i j pos) (vs, w) =
     (if j < length vs then call_on (ignoring (insertVectorAt B (vs ! j) pos)) i (vs, w) else VRet (vs, w))"
| "run_call B T cmp fl sz (VInsert i x pos n) s = call_on (ignoring (insertAt B T (map_option (\<lambda>y. Objects [y]) x) pos n)) i s"
| "run_call B T cmp fl sz (VPop i) s = call_on (ignoring (vector_pop B)) i s"
| "run_call B T cmp fl sz (VReplace i x pos) s = call_on (ignoring (replaceAt B T (map_option (\<lambda>y. Objects [y]) x) pos)) i s"
| "run_call B T cmp fl sz (VRemove i pos n) s = call_on (ignoring (removeItemsAt B pos n)) i s"
| "run_call B T cmp fl sz (VClear i) s = call_on (clear_vector B) i s"
| "run_call B T cmp fl sz (VCapacity i n) s = call_on (ignoring (setCapacity B n)) i s"
| "run_call B T cmp fl sz (VResize i n) s = call_on (ignoring (resize_vector B T n)) i s"
| "run_call B T cmp fl sz (VSort i) s = call_on (ignoring (sort_vector B cmp)) i s"

fun run_calls ::
  "'h shared_buffer \<Rightarrow> 'a item_type \<Rightarrow> ('a \<Rightarrow> 'a \<Rightarrow> int) \<Rightarrow> u32 \<Rightarrow> nat \<Rightarrow> 'a vec_call list \<Rightarrow> vec list \<times> ('h, 'a) vmem \<Rightarrow>
     (vec list \<times> ('h, 'a) vmem) vrun" where
  "run_calls B T cmp fl sz [] s = VRet s"
| "run_calls B T cmp fl sz (c # cs) s = vthen (run_call B T cmp fl sz c s) (run_calls B T cmp fl sz cs)"

text \<open>
  What a caller must keep to: the sum of position and count of a removal is computed with 32 bits, and no vector is inserted
  into itself, whose buffer may be freed before the items are copied out of it.
\<close>

fun call_valid :: "'a vec_call \<Rightarrow> bool" where
  "call_valid (VRemove i pos n) = (pos + n < size_max)"
| "call_valid (VInsertVector i j pos) = (i \<noteq> j)"
| "call_valid _ = True"

section \<open>Well-formed systems\<close>

abbreviation owners :: "vec list \<Rightarrow> addr \<Rightarrow> nat" where
  "owners vs b \<equiv> length (filter (\<lambda>v. mStorage v = Some b) vs)"

definition sys_wf ::
  "'h shared_buffer \<Rightarrow> ('h \<Rightarrow> addr \<Rightarrow> nat) \<Rightarrow> u32 \<Rightarrow> nat \<Rightarrow> vec list \<times> ('h, 'a) vmem \<Rightarrow> bool" where
  "sys_wf B refs fl sz s \<longleftrightarrow> (case s of (vs, w) \<Rightarrow> 0 < sz \<and> 4 * sz < size_max \<and>
     (\<forall>v \<in> set vs. mFlags v = fl \<and> mItemSize v = sz \<and> (\<exists>xs. vec_holds B refs w v xs)) \<and>
     (\<forall>b. refs (vm_heap w) b = owners vs b))"

lemma sys_vector:
  assumes "sys_wf B refs fl sz (vs, w)" "i < length vs"
  shows "\<exists>xs. vec_holds B refs w (vs ! i) xs" "mFlags (vs ! i) = fl" "mItemSize (vs ! i) = sz"
proof -
  have "\<forall>v \<in> set vs. mFlags v = fl \<and> mItemSize v = sz \<and> (\<exists>xs. vec_holds B refs w v xs)"
    using assms(1) unfolding sys_wf_def prod.case by blast
  then have "mFlags (vs ! i) = fl \<and> mItemSize (vs ! i) = sz \<and> (\<exists>xs. vec_holds B refs w (vs ! i) xs)"
    using nth_mem [OF assms(2)] by (rule bspec)
  then show "\<exists>xs. vec_holds B refs w (vs ! i) xs" "mFlags (vs ! i) = fl" "mItemSize (vs ! i) = sz" by blast+
qed

lemma sys_owners: "sys_wf B refs fl sz (vs, w) \<Longrightarrow> \<forall>b. refs (vm_heap w) b = owners vs b"
  unfolding sys_wf_def prod.case by blast

text \<open>A call of one vector that keeps to its frame.\<close>

definition vec_keeps ::
  "'h shared_buffer \<Rightarrow> ('h \<Rightarrow> addr \<Rightarrow> nat) \<Rightarrow> vec \<Rightarrow> ('h, 'a) vmem \<Rightarrow> vec \<times> ('h, 'a) vmem \<Rightarrow> bool" where
  "vec_keeps B refs v w r \<longleftrightarrow> (case r of (v', w') \<Rightarrow> vec_frame B refs v w v' w' \<and> (\<exists>ys. vec_holds B refs w' v' ys))"

lemma others_owners:
  assumes "\<forall>b. refs (vm_heap w) b = owners vs b" "i < length vs"
  shows "others refs w (vs ! i) b = owners (take i vs) b + owners (drop (Suc i) vs) b"
proof -
  have "vs = take i vs @ vs ! i # drop (Suc i) vs" by (rule id_take_nth_drop [OF assms(2)])
  then have "owners vs b = owners (take i vs @ vs ! i # drop (Suc i) vs) b" by simp
  then show ?thesis using assms(1) by (simp add: others_def)
qed

lemma other_vector:
  assumes "\<forall>b. refs (vm_heap w) b = owners vs b" "i < length vs" "j < length vs" "i \<noteq> j" "mStorage (vs ! j) = Some a"
  shows "0 < others refs w (vs ! i) a"
proof -
  have "vs ! j \<in> set (take i vs @ drop (Suc i) vs)"
  proof (cases "j < i")
    case True
    then show ?thesis using assms(3) by (auto simp: in_set_conv_nth intro!: exI [of _ j])
  next
    case False
    then have "drop (Suc i) vs ! (j - Suc i) = vs ! j" "j - Suc i < length (drop (Suc i) vs)" using assms(3,4) by simp_all
    then show ?thesis by (metis UnI2 nth_mem set_append)
  qed
  then have "vs ! j \<in> set (filter (\<lambda>v. mStorage v = Some a) (take i vs @ drop (Suc i) vs))" using assms(5) by simp
  then have "0 < owners (take i vs @ drop (Suc i) vs) a" using length_pos_if_in_set by fast
  then show ?thesis using others_owners [where refs = refs and w = w and vs = vs and i = i, OF assms(1,2), of a] by simp
qed

lemma sys_step:
  assumes wf: "sys_wf B refs fl sz (vs, w)" and i: "i < length vs" and k: "vec_keeps B refs (vs ! i) w (v', w')"
  shows "sys_wf B refs fl sz (vs[i := v'], w')"
proof -
  let ?v = "vs ! i"
  have R: "\<forall>b. refs (vm_heap w) b = owners vs b" by (rule sys_owners [OF wf])
  from k obtain ys where F: "vec_frame B refs ?v w v' w'" and H: "vec_holds B refs w' v' ys" by (auto simp: vec_keeps_def)
  have fl: "mFlags ?v = fl" "mItemSize ?v = sz" by (rule sys_vector(2,3) [OF wf i])+
  have "mFlags u = fl \<and> mItemSize u = sz \<and> (\<exists>xs. vec_holds B refs w' u xs)" if "u \<in> set (vs[i := v'])" for u
  proof -
    from that obtain j where j: "j < length vs" "u = vs[i := v'] ! j" by (auto simp: in_set_conv_nth)
    show ?thesis
    proof (cases "j = i")
      case True
      then show ?thesis using j F H fl by (auto simp: vec_frame_def)
    next
      case False
      with j have u: "u = vs ! j" by simp
      then obtain xs where xs: "vec_holds B refs w u xs" "mFlags u = fl" "mItemSize u = sz"
        using sys_vector [OF wf j(1)] by blast
      have "\<forall>a. mStorage u = Some a \<longrightarrow> 0 < others refs w ?v a"
        using other_vector [where refs = refs and w = w and vs = vs and i = i and j = j, OF R i j(1)] False u by blast
      with holds_frame [OF F xs(1)] xs(2,3) show ?thesis by blast
    qed
  qed
  moreover have "refs (vm_heap w') b = owners (vs[i := v']) b" for b
  proof -
    have "vs[i := v'] = take i vs @ v' # drop (Suc i) vs" using i by (simp add: upd_conv_take_nth_drop)
    then have "owners (vs[i := v']) b = others refs w ?v b + (if mStorage v' = Some b then 1 else 0)"
      using others_owners [where refs = refs and w = w and vs = vs and i = i, OF R i, of b] by simp
    also have "\<dots> = others refs w' v' b + (if mStorage v' = Some b then 1 else 0)" using F by (simp add: vec_frame_def)
    also have "\<dots> = refs (vm_heap w') b" using H by (auto simp: others_def vec_holds_def)
    finally show ?thesis ..
  qed
  ultimately show ?thesis using wf by (simp add: sys_wf_def)
qed

lemma sys_call_on:
  assumes wf: "sys_wf B refs fl sz s"
    and ok: "\<And>vs w xs. s = (vs, w) \<Longrightarrow> i < length vs \<Longrightarrow> vec_holds B refs w (vs ! i) xs \<Longrightarrow> vok True (vec_keeps B refs (vs ! i) w) (f (vs ! i) w)"
  shows "vok True (sys_wf B refs fl sz) (call_on f i s)"
proof -
  obtain vs w where s: "s = (vs, w)" by (cases s)
  show ?thesis
  proof (cases "i < length vs")
    case True
    obtain xs where "vec_holds B refs w (vs ! i) xs" using sys_vector(1) [OF wf [unfolded s] True] by blast
    note k = ok [OF s True this]
    have run: "call_on f i s = vthen (f (vs ! i) w) (\<lambda>(v', w'). VRet (vs[i := v'], w'))" using True s by (simp add: call_on_def)
    show ?thesis unfolding run
      by (rule vok_then [OF k]) (use sys_step [OF wf [unfolded s] True] in auto)
  qed (use wf s in \<open>simp add: call_on_def\<close>)
qed


section \<open>Every call keeps the system well formed\<close>

lemma finish_ok:
  assumes "sb_laws B refs" "vec_holds B refs w v xs"
  shows "vok False (\<lambda>(v', w'). vec_frame B refs v w v' w' \<and> vec_holds B refs w' v' [] \<and> mStorage v' = None) (finish_vector B v w)"
  unfolding finish_vector_def
  by (rule vok_then [OF release_ok [OF assms]])
    (use assms(2) in \<open>auto simp: vec_frame_def others_def vec_holds_def size_max_def\<close>)

lemma assign_ok:
  assumes L: "sb_laws B refs" and H: "vec_holds B refs w v xs" and U: "vec_holds B refs w u ys"
    and o: "\<forall>a. mStorage u = Some a \<longrightarrow> 0 < others refs w v a" and fl: "mFlags u = mFlags v" "mItemSize u = mItemSize v"
  shows "vok False (\<lambda>(v', w'). vec_frame B refs v w v' w' \<and> vec_holds B refs w' v' ys) (vector_assign B v u w)"
proof -
  have run: "vector_assign B v u w = vthen (release_storage B v w) (\<lambda>w1.
      if mCount u \<noteq> 0
      then case mStorage u of
             None \<Rightarrow> VUndef
           | Some sb \<Rightarrow> VRet (v\<lparr>mStorage := Some sb, mCount := mCount u\<rparr>, w1\<lparr>vm_heap := sb_acquire B sb (vm_heap w1)\<rparr>)
      else VRet (v\<lparr>mStorage := None, mCount := 0\<rparr>, w1))"
    using fl by (simp add: vector_assign_def)
  show ?thesis unfolding run
  proof (rule vok_then [OF release_ok [OF L H]])
    fix w1
    assume w1: "(\<forall>b. refs (vm_heap w1) b = others refs w v b) \<and> (\<forall>b. 0 < others refs w v b \<longrightarrow> same_buffer B w w1 b)"
    show "vok False (\<lambda>(v', w'). vec_frame B refs v w v' w' \<and> vec_holds B refs w' v' ys)
      (if mCount u \<noteq> 0
       then case mStorage u of
              None \<Rightarrow> VUndef
            | Some sb \<Rightarrow> VRet (v\<lparr>mStorage := Some sb, mCount := mCount u\<rparr>, w1\<lparr>vm_heap := sb_acquire B sb (vm_heap w1)\<rparr>)
       else VRet (v\<lparr>mStorage := None, mCount := 0\<rparr>, w1))"
    proof (cases "mCount u = 0")
      case True
      then have "ys = []" using U by (simp add: vec_holds_def)
      with True w1 H show ?thesis by (simp add: vec_frame_def others_def vec_holds_def size_max_def)
    next
      case False
      then obtain sb where sb: "mStorage u = Some sb" using U by (cases "mStorage u") (simp_all add: vec_holds_def)
      with o w1 have b: "0 < others refs w v sb" "0 < refs (vm_heap w1) sb" "same_buffer B w w1 sb" by simp_all
      have acq: "refs (sb_acquire B sb (vm_heap w1)) = (refs (vm_heap w1))(sb := Suc (refs (vm_heap w1) sb))"
        "sb_size B (sb_acquire B sb (vm_heap w1)) = sb_size B (vm_heap w1)"
        using laws_all(2) [OF L, rule_format, OF b(2)] by simp_all
      let ?w = "w1\<lparr>vm_heap := sb_acquire B sb (vm_heap w1)\<rparr>" and ?v = "v\<lparr>mStorage := Some sb, mCount := mCount u\<rparr>"
      have "vec_frame B refs v w ?v ?w" using w1 acq by (auto simp: vec_frame_def others_def same_buffer_def)
      moreover have "vec_holds B refs ?w ?v ys"
      proof -
        from U sb obtain rest where r: "vm_slots w sb = map Some ys @ rest" "raw_slots u rest" by (auto simp: vec_holds_def)
        show ?thesis
          by (rule holds_contents [where a = sb and rest = rest])
            (use U sb r b(3) acq fl raw_slots_cong [OF fl(1), of rest] H in \<open>simp_all add: vec_holds_def same_buffer_def\<close>)
      qed
      ultimately show ?thesis using False sb by simp
    qed
  qed
qed

lemma vec_keepsI:
  assumes "vok A P m" "\<And>v' w'. P (v', w') \<Longrightarrow> vec_frame B refs v w v' w' \<and> (\<exists>ys. vec_holds B refs w' v' ys)"
  shows "vok True (vec_keeps B refs v w) m"
  by (rule vok_mono [OF assms(1)]) (auto simp: vec_keeps_def dest: assms(2))

lemma vec_keeps_ignoring:
  assumes "vok A P (f v w)" "\<And>r v' w'. P (r, v', w') \<Longrightarrow> vec_frame B refs v w v' w' \<and> (\<exists>ys. vec_holds B refs w' v' ys)"
  shows "vok True (vec_keeps B refs v w) (ignoring f v w)"
  unfolding ignoring_def
proof (rule vok_then)
  show "vok True P (f v w)" by (rule vok_mono [OF assms(1)]) simp_all
next
  fix r
  assume "P r"
  then show "vok True (vec_keeps B refs v w) (case r of (_, v', w') \<Rightarrow> VRet (v', w'))"
    using assms(2) by (cases r) (auto simp: vec_keeps_def)
qed

lemma inserted_keeps: "vec_inserted B refs v w xs pos ys (r, v', w') \<Longrightarrow>
    vec_frame B refs v w v' w' \<and> (\<exists>ys. vec_holds B refs w' v' ys)"
  by (auto simp: vec_inserted_def)

lemma removed_keeps: "vec_removed B refs v w xs pos k v' w' \<Longrightarrow>
    vec_frame B refs v w v' w' \<and> (\<exists>ys. vec_holds B refs w' v' ys)"
  by (auto simp: vec_removed_def)

lemma keeps_same: "vec_holds B refs w v xs \<Longrightarrow> vec_frame B refs v w v w \<and> (\<exists>ys. vec_holds B refs w v ys)"
  by auto

lemma insertArray_keeps:
  assumes "sb_laws B refs" "vec_holds B refs w v xs" "vec_source refs w v src n ys"
  shows "vok True (vec_keeps B refs v w) (ignoring (insertArrayAt B src pos n) v w)"
proof (cases "pos \<le> length xs")
  case True
  from insertArrayAt_ok [OF assms(1,2) True assms(3)] show ?thesis
    by (rule vec_keeps_ignoring) (rule inserted_keeps)
next
  case False
  then have "insertArrayAt B src pos n v w = VRet (Inl BAD_INDEX, v, w)" using assms(2) by (simp add: insertArrayAt_def vec_holds_def)
  then show ?thesis using keeps_same [OF assms(2)] by (simp add: ignoring_def vec_keeps_def)
qed

lemma insert_keeps:
  assumes "sb_laws B refs" "vec_holds B refs w v xs" "item_source refs w v item x"
  shows "vok True (vec_keeps B refs v w) (ignoring (insertAt B T item pos n) v w)"
proof (cases "pos \<le> length xs")
  case True
  from insertAt_ok [OF assms(1,2) True assms(3)] show ?thesis
    by (rule vec_keeps_ignoring) (rule inserted_keeps)
next
  case False
  then have "insertAt B T item pos n v w = VRet (Inl BAD_INDEX, v, w)" using assms(2) by (simp add: insertAt_def vec_holds_def)
  then show ?thesis using keeps_same [OF assms(2)] by (simp add: ignoring_def vec_keeps_def)
qed

lemma remove_keeps:
  assumes "sb_laws B refs" "vec_holds B refs w v xs" "pos + n < size_max"
  shows "vok True (vec_keeps B refs v w) (ignoring (removeItemsAt B pos n) v w)"
proof (cases "pos + n \<le> length xs")
  case True
  from removeItemsAt_ok [OF assms(1,2) True] show ?thesis
    by (rule vec_keeps_ignoring) (simp only: prod.case, elim conjE, erule removed_keeps)
next
  case False
  then have "removeItemsAt B pos n v w = VRet (Inl BAD_VALUE, v, w)" using assms(2,3) by (simp add: removeItemsAt_def vec_holds_def)
  then show ?thesis using keeps_same [OF assms(2)] by (simp add: ignoring_def vec_keeps_def)
qed

lemma pop_keeps:
  assumes "sb_laws B refs" "vec_holds B refs w v xs"
  shows "vok True (vec_keeps B refs v w) (ignoring (vector_pop B) v w)"
proof (cases "xs = []")
  case True
  then have "vector_pop B v w = VRet (Inr 0, v, w)" using assms(2) by (simp add: vector_pop_def vec_holds_def)
  then show ?thesis using keeps_same [OF assms(2)] by (simp add: ignoring_def vec_keeps_def)
next
  case False
  then have p: "0 < length xs" "mCount v = length xs" "length xs < size_max" using assms(2) by (simp_all add: vec_holds_def)
  then have "ignoring (vector_pop B) v w = ignoring (removeItemsAt B (length xs - 1) 1) v w" by (simp add: ignoring_def vector_pop_def)
  with remove_keeps [OF assms, of "length xs - 1" 1] p show ?thesis by simp
qed

lemma replace_keeps:
  assumes "sb_laws B refs" "vec_holds B refs w v xs" "item_source refs w v item x"
  shows "vok True (vec_keeps B refs v w) (ignoring (replaceAt B T item pos) v w)"
proof (cases "pos < length xs")
  case True
  from replaceAt_ok [OF assms(1,2) True assms(3)] show ?thesis
    by (rule vec_keeps_ignoring) auto
next
  case False
  then have "replaceAt B T item pos v w = VRet (Inl BAD_INDEX, v, w)" using assms(2) by (simp add: replaceAt_def vec_holds_def)
  then show ?thesis using keeps_same [OF assms(2)] by (simp add: ignoring_def vec_keeps_def)
qed

lemma item_source_objects: "item_source refs w v (map_option (\<lambda>y. Objects [y]) x) x"
  by (cases x) (simp_all add: item_source_def)

lemma array_source:
  assumes "vec_holds B refs w u ys" "\<forall>a. mStorage u = Some a \<longrightarrow> 0 < others refs w v a"
  shows "vec_source refs w v (arrayImpl u) (mCount u) ys"
proof (cases "mStorage u")
  case None
  with assms(1) show ?thesis by (simp add: arrayImpl_def vec_holds_def vec_source_def read_items_def)
next
  case (Some a)
  with assms(1) obtain rest where "vm_slots w a = [] @ map Some ys @ rest" "mCount u = length ys" by (auto simp: vec_holds_def)
  from read_ok [OF this(1)] this(2) Some assms(2) show ?thesis by (simp add: arrayImpl_def vec_source_def)
qed


lemma run_call_ok:
  assumes L: "sb_laws B refs" and wf: "sys_wf B refs fl sz s" and valid: "call_valid c"
  shows "vok True (sys_wf B refs fl sz) (run_call B T cmp fl sz c s)"
proof -
  obtain vs w where s: "s = (vs, w)" by (cases s)
  note wf = wf [unfolded s] and own = sys_owners [OF wf [unfolded s]]
  have sz: "0 < sz" "4 * sz < size_max" using wf by (simp_all add: sys_wf_def)
  have other: "\<forall>a. mStorage (vs ! j) = Some a \<longrightarrow> 0 < others refs w (vs ! i) a" if "i < length vs" "j < length vs" "i \<noteq> j" for i j
    using other_vector [where refs = refs and w = w and vs = vs and i = i and j = j, OF own that] by blast
  have self: "vok True (sys_wf B refs fl sz) (VRet (vs, w))" using wf by simp
  show ?thesis
  proof (cases c)
    case VNew
    have "sys_wf B refs fl sz (vs @ [vector_new sz fl], w)"
      using wf sz by (auto simp: sys_wf_def vector_new_def vec_holds_def size_max_def intro!: exI [of _ "[]"])
    with VNew s show ?thesis by simp
  next
    case (VCopy i)
    show ?thesis
    proof (cases "i < length vs")
      case True
      from sys_vector [OF wf True] obtain xs where u: "vec_holds B refs w (vs ! i) xs" "mFlags (vs ! i) = fl" "mItemSize (vs ! i) = sz"
        by blast
      show ?thesis
      proof (cases "mStorage (vs ! i)")
        case None
        have "sys_wf B refs fl sz (vs @ [vs ! i], w)"
          using wf u None by (auto simp: sys_wf_def)
        with VCopy s True None show ?thesis by (simp add: vector_copy_def)
      next
        case (Some sb)
        have r: "0 < refs (vm_heap w) sb" using u(1) Some by (simp add: vec_holds_def)
        let ?w = "w\<lparr>vm_heap := sb_acquire B sb (vm_heap w)\<rparr>"
        have acq: "refs (vm_heap ?w) = (refs (vm_heap w))(sb := Suc (refs (vm_heap w) sb))"
          "sb_size B (vm_heap ?w) = sb_size B (vm_heap w)" "vm_slots ?w = vm_slots w"
          using laws_all(2) [OF L, rule_format, OF r] by simp_all
        have hold: "vec_holds B refs ?w v ys" if "vec_holds B refs w v ys" for v ys
          using that unfolding vec_holds_def acq by (cases "mStorage v") auto
        have "\<forall>v \<in> set (vs @ [vs ! i]). mFlags v = fl \<and> mItemSize v = sz \<and> (\<exists>xs. vec_holds B refs ?w v xs)"
        proof
          fix v
          assume "v \<in> set (vs @ [vs ! i])"
          then have "v \<in> set vs" using nth_mem [OF True] by auto
          then obtain j where j: "j < length vs" "v = vs ! j" by (auto simp: in_set_conv_nth)
          from sys_vector [OF wf j(1)] hold j(2) show "mFlags v = fl \<and> mItemSize v = sz \<and> (\<exists>xs. vec_holds B refs ?w v xs)" by blast
        qed
        moreover have "\<forall>b. refs (vm_heap ?w) b = owners (vs @ [vs ! i]) b" unfolding acq using own Some by auto
        ultimately have "sys_wf B refs fl sz (vs @ [vs ! i], ?w)" unfolding sys_wf_def prod.case using sz by blast
        with VCopy s True Some show ?thesis by (simp add: vector_copy_def)
      qed
    qed (use VCopy s self in simp)
  next
    case (VAssign i j)
    show ?thesis
    proof (cases "j < length vs \<and> i \<noteq> j")
      case True
      have "vok True (sys_wf B refs fl sz) (call_on (\<lambda>v. vector_assign B v (vs ! j)) i (vs, w))"
      proof (rule sys_call_on [OF wf])
        fix vs' w' xs
        assume *: "(vs, w) = (vs', w')" "i < length vs'" "vec_holds B refs w' (vs' ! i) xs"
        from sys_vector [OF wf, of j] True obtain ys where "vec_holds B refs w (vs ! j) ys" by blast
        from assign_ok [OF L _ this other] * True sys_vector(2,3) [OF wf]
        have "vok False (\<lambda>(v', w'). vec_frame B refs (vs ! i) w v' w' \<and> vec_holds B refs w' v' ys) (vector_assign B (vs ! i) (vs ! j) w)"
          by auto
        note ok = this
        have e: "vs' = vs" "w' = w" using * by simp_all
        show "vok True (vec_keeps B refs (vs' ! i) w') (vector_assign B (vs' ! i) (vs ! j) w')"
          unfolding e by (rule vec_keepsI [OF ok]) auto
      qed
      with VAssign s True show ?thesis by simp
    qed (use VAssign s self in auto)
  next
    case (VFinish i)
    show ?thesis
    proof (cases "i < length vs")
      case True
      from sys_vector(1) [OF wf True] obtain xs where xs: "vec_holds B refs w (vs ! i) xs" by blast
      have run: "run_call B T cmp fl sz c s = vthen (finish_vector B (vs ! i) w) (\<lambda>(v', w').
          VRet (take i (vs[i := v']) @ drop (Suc i) (vs[i := v']), w'))"
        using VFinish s True by (cases "finish_vector B (vs ! i) w") (auto simp: call_on_def split: prod.splits)
      show ?thesis unfolding run
      proof (rule vok_then)
        show "vok True (\<lambda>(v', w'). vec_frame B refs (vs ! i) w v' w' \<and> vec_holds B refs w' v' [] \<and> mStorage v' = None) (finish_vector B (vs ! i) w)"
          by (rule vok_mono [OF finish_ok [OF L xs]]) simp_all
      next
        fix r
        assume r: "case r of (v', w') \<Rightarrow> vec_frame B refs (vs ! i) w v' w' \<and> vec_holds B refs w' v' [] \<and> mStorage v' = None"
        obtain v' w' where p: "r = (v', w')" by (cases r)
        have "vec_keeps B refs (vs ! i) w (v', w')" using r p by (auto simp: vec_keeps_def)
        from sys_step [OF wf True this] have wf': "sys_wf B refs fl sz (vs[i := v'], w')" .
        have split: "vs[i := v'] = take i vs @ v' # drop (Suc i) vs" using True by (simp add: upd_conv_take_nth_drop)
        have "sys_wf B refs fl sz (take i vs @ drop (Suc i) vs, w')"
          using wf' r p unfolding split by (auto simp: sys_wf_def)
        then show "vok True (sys_wf B refs fl sz) (case r of (v', w') \<Rightarrow>
            VRet (take i (vs[i := v']) @ drop (Suc i) (vs[i := v']), w'))" using p by simp
      qed
    next
      case False
      then have "run_call B T cmp fl sz c s = VRet (vs, w)" using VFinish s by (simp add: call_on_def)
      with self show ?thesis by simp
    qed
  next
    case (VInsertVector i j pos)
    show ?thesis
    proof (cases "j < length vs")
      case True
      have "i \<noteq> j" using valid VInsertVector by simp
      have "vok True (sys_wf B refs fl sz) (call_on (ignoring (insertVectorAt B (vs ! j) pos)) i (vs, w))"
      proof (rule sys_call_on [OF wf])
        fix vs' w' xs
        assume *: "(vs, w) = (vs', w')" "i < length vs'" "vec_holds B refs w' (vs' ! i) xs"
        from sys_vector [OF wf, of j] True obtain ys where "vec_holds B refs w (vs ! j) ys" by blast
        from array_source [OF this other] * True \<open>i \<noteq> j\<close> have "vec_source refs w (vs ! i) (arrayImpl (vs ! j)) (mCount (vs ! j)) ys" by auto
        from insertArray_keeps [OF L _ this] * show "vok True (vec_keeps B refs (vs' ! i) w') (ignoring (insertVectorAt B (vs ! j) pos) (vs' ! i) w')"
          by (simp add: ignoring_def insertVectorAt_def)
      qed
      with VInsertVector s True show ?thesis by simp
    qed (use VInsertVector s self in auto)
  next
    case (VRemove i pos n)
    with valid show ?thesis using s by (auto intro!: sys_call_on [OF wf] remove_keeps [OF L])
  next
    case (VInsertArray i xs pos)
    with s show ?thesis by (auto intro!: sys_call_on [OF wf] insertArray_keeps [OF L _ source_objects [OF refl]])
  next
    case (VInsert i x pos n)
    with s show ?thesis by (auto intro!: sys_call_on [OF wf] insert_keeps [OF L _ item_source_objects])
  next
    case (VPop i)
    with s show ?thesis by (auto intro!: sys_call_on [OF wf] pop_keeps [OF L])
  next
    case (VReplace i x pos)
    with s show ?thesis by (auto intro!: sys_call_on [OF wf] replace_keeps [OF L _ item_source_objects])
  next
    case (VClear i)
    with s show ?thesis
      by (auto intro!: sys_call_on [OF wf] vec_keepsI [OF clear_ok [OF L]] simp: vec_removed_def)
  next
    case (VCapacity i n)
    with s show ?thesis by (auto intro!: sys_call_on [OF wf] vec_keeps_ignoring [OF setCapacity_ok [OF L]])
  next
    case (VResize i n)
    with s show ?thesis by (auto intro!: sys_call_on [OF wf] vec_keeps_ignoring [OF resize_ok [OF L]])
  next
    case (VSort i)
    with s show ?thesis
      by (auto intro!: sys_call_on [OF wf] vec_keeps_ignoring [OF sort_vector_ok [OF L]] simp: sort_ok_def split: if_splits)
  qed
qed

lemma run_calls_ok:
  assumes "sb_laws B refs" "sys_wf B refs fl sz s" "\<forall>c \<in> set cs. call_valid c"
  shows "vok True (sys_wf B refs fl sz) (run_calls B T cmp fl sz cs s)"
  using assms(2,3)
proof (induction cs arbitrary: s)
  case (Cons c cs)
  from run_call_ok [OF assms(1) Cons.prems(1), of c] Cons show ?case
    by (auto intro!: vok_then)
qed simp


section \<open>A concrete heap\<close>

text \<open>Buffers numbered in the order of their allocation, with their owners and sizes; a full heap gives no more.\<close>

definition heap_refs :: "(nat \<times> nat) list \<Rightarrow> addr \<Rightarrow> nat" where
  "heap_refs h a = (if a < length h then fst (h ! a) else 0)"

definition heap_size :: "(nat \<times> nat) list \<Rightarrow> addr \<Rightarrow> nat" where
  "heap_size h a = (if a < length h then snd (h ! a) else 0)"

definition list_heap :: "bool \<Rightarrow> (nat \<times> nat) list shared_buffer" where
  "list_heap full = \<lparr>
     sb_alloc = (\<lambda>n h. if full then (None, h) else (Some (length h), h @ [(1, n)])),
     sb_dealloc = (\<lambda>a h. h),
     sb_acquire = (\<lambda>a h. h[a := (Suc (heap_refs h a), heap_size h a)]),
     sb_release = (\<lambda>a h. (heap_refs h a, h[a := (heap_refs h a - 1, heap_size h a)])),
     sb_attemptEdit = (\<lambda>a h. if heap_refs h a = 1 then Some a else None),
     sb_editResize = (\<lambda>a n h. if full then (None, h)
       else if heap_refs h a = 1 then (Some a, h[a := (1, n)])
       else (Some (length h), h[a := (heap_refs h a - 1, heap_size h a)] @ [(1, n)])),
     sb_size = heap_size,
     vi_malloc = (\<lambda>h. True)\<rparr>"

lemma heap_refs_simps [simp]:
  "heap_refs (h[a := (r, n)]) b = (if b = a \<and> a < length h then r else heap_refs h b)"
  "heap_refs (h @ [(r, n)]) b = (if b = length h then r else heap_refs h b)"
  "heap_size (h[a := (r, n)]) b = (if b = a \<and> a < length h then n else heap_size h b)"
  "heap_size (h @ [(r, n)]) b = (if b = length h then n else heap_size h b)"
  by (auto simp: heap_refs_def heap_size_def nth_append nth_list_update)

lemma heap_refs_pos: "0 < heap_refs h a \<Longrightarrow> a < length h"
  by (simp add: heap_refs_def split: if_splits)

lemma heap_refs_end [simp]: "heap_refs h (length h) = 0"
  by (simp add: heap_refs_def)

lemma list_heap_laws: "sb_laws (list_heap full) heap_refs"
  unfolding sb_laws_def list_heap_def
  by (intro conjI allI impI) (auto simp: fun_eq_iff dest: heap_refs_pos)

lemma list_heap_plenty: "sb_plenty (list_heap False)"
  by (simp add: sb_plenty_def list_heap_def)

definition vmem0 :: "((nat \<times> nat) list, nat) vmem" where
  "vmem0 = \<lparr>vm_heap = [], vm_slots = (\<lambda>_. [])\<rparr>"

definition nat_type :: "nat item_type" where
  "nat_type = \<lparr>it_junk = (\<lambda>i. i), it_default = 0\<rparr>"

definition nat_cmp :: "nat \<Rightarrow> nat \<Rightarrow> int" where
  "nat_cmp x y = int x - int y"

text \<open>Two vectors that share a buffer with the items 3, 1, 2; the buffer has two slots more.\<close>

definition shared_mem :: "((nat \<times> nat) list, nat) vmem" where
  "shared_mem = \<lparr>vm_heap = [(2, 20)], vm_slots = (\<lambda>_. [])(0 := [Some 3, Some 1, Some 2, None, None])\<rparr>"

definition shared_vec :: vec where
  "shared_vec = \<lparr>mStorage = Some 0, mCount = 3, mFlags = 0, mItemSize = 4\<rparr>"

lemma shared_holds: "vec_holds (list_heap full) heap_refs shared_mem shared_vec [3, 1, 2]"
  by (simp add: vec_holds_def shared_mem_def shared_vec_def list_heap_def heap_refs_def heap_size_def size_max_def
      raw_slots_def)

lemma shared_others: "others heap_refs shared_mem shared_vec 0 = 1"
  by (simp add: others_def shared_mem_def shared_vec_def heap_refs_def)

lemma shared_storage: "\<forall>a. mStorage shared_vec = Some a \<longrightarrow> 0 < others heap_refs shared_mem shared_vec a"
  using shared_others by (simp add: shared_vec_def)

lemma shared_room: "n \<le> 100 \<Longrightarrow> vec_room (list_heap False) shared_vec n"
  by (simp add: vec_room_def list_heap_plenty shared_vec_def size_max_def)

section \<open>Properties\<close>



text \<open>Both conditions are needed: what they exclude is undefined.\<close>

definition undefined_run :: "'r vrun \<Rightarrow> bool" where
  "undefined_run m = (case m of VUndef \<Rightarrow> True | _ \<Rightarrow> False)"

theorem excluded_calls_undefined:
  "undefined_run (run_calls (list_heap False) nat_type nat_cmp 0 4 [VNew, VInsertArray 0 [3, 1, 2] 0, VInsertVector 0 0 3] ([], vmem0))"
  "undefined_run (run_calls (list_heap False) nat_type nat_cmp 0 4 [VNew, VInsertArray 0 [3, 1, 2] 0, VRemove 0 4294967295 1] ([], vmem0))"
  by code_simp+

text \<open>
  C10. The operations are those of lists: on a vector that stands for \<open>xs\<close>, inserting an array, replacing,
  removing and resizing give the list that is expected, with the index as the result, and every other vector, also
  one that shares the buffer, stands for the same list as before. Nothing is undefined, and with enough
  memory nothing fails.
\<close>

theorem vector_refines_list:
  assumes "sb_laws B refs" "vec_holds B refs w v xs" "vec_room B v (length xs + length ys + n)"
    and "vec_holds B refs w u us" "\<forall>a. mStorage u = Some a \<longrightarrow> 0 < others refs w v a"
    and "pos \<le> length xs" "i < length xs" "pos + k \<le> length xs" "ys \<noteq> []"
  shows "vok False (\<lambda>(r, v', w'). r = Inr pos \<and> vec_holds B refs w' v' (take pos xs @ ys @ drop pos xs) \<and> vec_holds B refs w' u us)
      (insertArrayAt B (Objects ys) pos (length ys) v w) \<and>
    vok False (\<lambda>(r, v', w'). r = Inr i \<and> vec_holds B refs w' v' (xs[i := y]) \<and> vec_holds B refs w' u us)
      (replaceAt B T (Some (Objects [y])) i v w) \<and>
    vok False (\<lambda>(r, v', w'). r = Inr pos \<and> vec_holds B refs w' v' (take pos xs @ drop (pos + k) xs) \<and> vec_holds B refs w' u us)
      (removeItemsAt B pos k v w) \<and>
    vok False (\<lambda>(r, v', w'). r = Inr n \<and> vec_holds B refs w' u us \<and>
        vec_holds B refs w' v' (take n xs @ new_items T v None (length xs) (n - length xs)))
      (resize_vector B T n v w)"
proof (intro conjI)
  have room: "vec_room B v m" if "m \<le> length xs + length ys + n" for m
  proof -
    have "(m + m div 2 + 4) * mItemSize v \<le> (length xs + length ys + n + (length xs + length ys + n) div 2 + 4) * mItemSize v"
      using that by (intro mult_le_mono1 add_le_mono) (auto intro: div_le_mono)
    then show ?thesis using assms(3) unfolding vec_room_def by linarith
  qed
  have plenty: "sb_plenty B" using assms(3) by (simp add: vec_room_def)
  note keep = holds_frame [OF _ assms(4,5)]
  show "vok False (\<lambda>(r, v', w'). r = Inr pos \<and> vec_holds B refs w' v' (take pos xs @ ys @ drop pos xs) \<and> vec_holds B refs w' u us)
      (insertArrayAt B (Objects ys) pos (length ys) v w)"
    by (rule vok_mono [OF insertArrayAt_ok [OF assms(1,2,6) source_objects [OF refl]]])
      (use room [of "length xs + length ys"] plenty assms(9) keep in \<open>auto simp: vec_inserted_def\<close>)
  have "item_source refs w v (Some (Objects [y])) (Some y)" by (simp add: item_source_def)
  from replaceAt_ok [OF assms(1,2,7) this, of T]
  show "vok False (\<lambda>(r, v', w'). r = Inr i \<and> vec_holds B refs w' v' (xs[i := y]) \<and> vec_holds B refs w' u us)
      (replaceAt B T (Some (Objects [y])) i v w)"
    by (rule vok_mono) (use plenty keep in \<open>auto simp: new_items_def\<close>)
  show "vok False (\<lambda>(r, v', w'). r = Inr pos \<and> vec_holds B refs w' v' (take pos xs @ drop (pos + k) xs) \<and> vec_holds B refs w' u us)
      (removeItemsAt B pos k v w)"
    by (rule vok_mono [OF removeItemsAt_ok [OF assms(1,2,8)]]) (use plenty keep in \<open>auto simp: vec_removed_def\<close>)
  show "vok False (\<lambda>(r, v', w'). r = Inr n \<and> vec_holds B refs w' u us \<and>
        vec_holds B refs w' v' (take n xs @ new_items T v None (length xs) (n - length xs)))
      (resize_vector B T n v w)"
    by (rule vok_mono [OF resize_ok [OF assms(1,2)]]) (use room [of "max n (length xs)"] plenty keep in auto)
qed

theorem vector_refines_list_witness:
  "vok False (\<lambda>(r, v', w'). r = Inr 1 \<and> vec_holds (list_heap False) heap_refs w' v' [3, 7, 8, 1, 2] \<and>
      vec_holds (list_heap False) heap_refs w' shared_vec [3, 1, 2])
    (insertArrayAt (list_heap False) (Objects [7, 8]) 1 2 shared_vec shared_mem)"
proof -
  have room: "vec_room (list_heap False) shared_vec (length [3, 1, 2 :: nat] + length [7, 8 :: nat] + 0)"
    by (rule shared_room) simp
  have "vok False (\<lambda>(r, v', w'). r = Inr 1 \<and> vec_holds (list_heap False) heap_refs w' v' (take 1 [3, 1, 2] @ [7, 8] @ drop 1 [3, 1, 2]) \<and>
      vec_holds (list_heap False) heap_refs w' shared_vec [3, 1, 2])
    (insertArrayAt (list_heap False) (Objects [7, 8]) 1 (length [7, 8 :: nat]) shared_vec shared_mem)"
    using vector_refines_list [OF list_heap_laws shared_holds room shared_holds shared_storage, of 1 0 2 0 nat_type] by simp
  then show ?thesis by (simp add: eval_nat_numeral)
qed

text \<open>
  C11. \<open>sort\<close> is the stable sort: with a comparison function that agrees with a comparator, the vector stands for
  the list the library's stable sort gives, and the others that share its buffer are not sorted (more than \<open>SSIZE_MAX\<close> items are no items to the loop). If the memory
  for the moving item cannot be allocated the vector is as it was.
\<close>

theorem vector_sort_stable:
  assumes "sb_laws B refs" "vec_holds B refs w v xs" "compares cmp C" "sb_plenty B" "2 * length xs < size_max"
    and "vec_holds B refs w u us" "\<forall>a. mStorage u = Some a \<longrightarrow> 0 < others refs w v a"
  shows "vok False (\<lambda>(e, v', w'). vec_holds B refs w' u us \<and>
      (if e = None then vec_holds B refs w' v' (Sorting_Algorithms.sort C xs)
       else e = Some NO_MEMORY \<and> vec_holds B refs w' v' xs \<and> (\<exists>h. \<not> vi_malloc B h)))
    (sort_vector B cmp v w)"
  using assms(4,5) sort_vector_ok [OF assms(1,2), of cmp] holds_frame [OF _ assms(6,7)]
  unfolding sort_prefix_stable [OF assms(3)]
  by (elim vok_mono) (auto simp: sort_ok_def)

theorem vector_sort_stable_witness:
  "vok False (\<lambda>(e, v', w'). vec_holds (list_heap False) heap_refs w' shared_vec [3, 1, 2] \<and>
      vec_holds (list_heap False) heap_refs w' v' [1, 2, 3])
    (sort_vector (list_heap False) nat_cmp shared_vec shared_mem)"
proof -
  have "compares nat_cmp default" by (auto simp: compares_def nat_cmp_def)
  from vector_sort_stable [OF list_heap_laws shared_holds this list_heap_plenty _ shared_holds shared_storage]
  show ?thesis unfolding size_max_def by (rule vok_mono) (auto simp: list_heap_def split: if_splits)
qed


text \<open>
  Inserting nothing at the end of a full vector reports that there is no memory, however much there is: the
  address of the free space is looked up with a test against the capacity. Appending an empty array to an
  empty vector is such a case.
\<close>

theorem empty_insert_reports_no_memory:
  assumes "sb_laws B refs" "vec_holds B refs w v xs" "sb_plenty B" "capacity B v w = length xs"
  shows "vok False (\<lambda>(r, v', w'). r = Inl NO_MEMORY \<and> vec_holds B refs w' v' xs) (insertArrayAt B src (length xs) 0 v w)"
proof -
  have n: "mCount v = length xs" "length xs < size_max" using assms(2) by (simp_all add: vec_holds_def)
  have run: "insertArrayAt B src (length xs) 0 v w = vthen (editArrayImpl B v w) (\<lambda>(v1, w1).
      case itemLocation B (v1\<lparr>mCount := length xs\<rparr>) (length xs) w1 of
        None \<Rightarrow> VRet (Inl NO_MEMORY, v1\<lparr>mCount := length xs\<rparr>, w1)
      | Some (a, i) \<Rightarrow> vthen (do_copy (v1\<lparr>mCount := length xs\<rparr>) a i src 0 w1)
          (\<lambda>w2. VRet (Inr (length xs), v1\<lparr>mCount := length xs\<rparr>, w2)))"
    using n assms(4) by (cases "editArrayImpl B v w") (simp_all add: insertArrayAt_def grow_def Let_def split: prod.splits)
  show ?thesis unfolding run
  proof (rule vok_then)
    show "vok False (\<lambda>(v', w'). vec_holds B refs w' v' xs \<and> capacity B v' w' = length xs) (editArrayImpl B v w)"
      by (rule vok_mono [OF editArray_ok [OF assms(1,2)]]) (use assms(3,4) in auto)
  next
    fix r
    assume r: "case r of (v', w') \<Rightarrow> vec_holds B refs w' v' xs \<and> capacity B v' w' = length xs"
    obtain v1 w1 where p: "r = (v1, w1)" by (cases r)
    have "v1\<lparr>mCount := length xs\<rparr> = v1" using r p by (simp add: vec_holds_def)
    moreover have "itemLocation B v1 (length xs) w1 = None" using r p by (simp add: itemLocation_def)
    ultimately show "vok False (\<lambda>(r, v', w'). r = Inl NO_MEMORY \<and> vec_holds B refs w' v' xs) (case r of (v1, w1) \<Rightarrow>
      case itemLocation B (v1\<lparr>mCount := length xs\<rparr>) (length xs) w1 of
        None \<Rightarrow> VRet (Inl NO_MEMORY, v1\<lparr>mCount := length xs\<rparr>, w1)
      | Some (a, i) \<Rightarrow> vthen (do_copy (v1\<lparr>mCount := length xs\<rparr>) a i src 0 w1)
          (\<lambda>w2. VRet (Inr (length xs), v1\<lparr>mCount := length xs\<rparr>, w2)))" using r p by simp
  qed
qed

theorem empty_insert_reports_no_memory_witness:
  "vok False (\<lambda>(r, v', w'). r = Inl NO_MEMORY \<and> vec_holds (list_heap False) heap_refs w' v' [])
    (insertArrayAt (list_heap False) (Objects []) 0 0 (vector_new 4 0) vmem0)"
proof -
  have "vec_holds (list_heap False) heap_refs vmem0 (vector_new 4 0) []"
    by (simp add: vec_holds_def vector_new_def size_max_def)
  from empty_insert_reports_no_memory [OF list_heap_laws this list_heap_plenty, of "Objects []"]
  show ?thesis by (simp add: capacity_def vector_new_def)
qed

text \<open>
  A removal that should move the items to a smaller buffer, and cannot, is lost: the result is the index, as
  for a removal, but the items are still there.
\<close>

theorem removal_lost_without_memory:
  assumes "sb_laws B refs" "vec_holds B refs w v xs" "pos + k \<le> length xs" "length xs - k < capacity B v w div 2"
    and "\<not> (trivial_copy v \<and> trivial_dtor v)" "\<forall>n h. fst (sb_alloc B n h) = None"
  shows "\<exists>w'. removeItemsAt B pos k v w = VRet (Inr pos, v, w') \<and> vec_holds B refs w' v xs"
proof -
  have n: "mCount v = length xs" "length xs < size_max" using assms(2) by (simp_all add: vec_holds_def)
  obtain sb where sb: "mStorage v = Some sb" using assms(4) by (cases "mStorage v") (simp_all add: capacity_def)
  let ?c = "max 4 ((length xs - k) * 2) * mItemSize v mod size_max"
  have "fst (vm_alloc B v ?c w) = None"
    using assms(6) [rule_format, of ?c "vm_heap w"] by (cases "sb_alloc B ?c (vm_heap w)") (simp add: vm_alloc_def)
  then obtain w1 where e: "vm_alloc B v ?c w = (None, w1)" by (cases "vm_alloc B v ?c w") auto
  have "shrink B pos k v w = VRet (v, w1)"
    using n assms(3,4,5) sb e by (auto simp: shrink_def Let_def)
  then have "removeItemsAt B pos k v w = VRet (Inr pos, v, w1)" using n assms(3) by (simp add: removeItemsAt_def)
  with alloc_None(2) [OF assms(1) e assms(2)] show ?thesis by blast
qed

theorem removal_lost_without_memory_witness:
  "\<exists>w'. removeItemsAt (list_heap True) 0 2 shared_vec shared_mem = VRet (Inr 0, shared_vec, w') \<and>
     vec_holds (list_heap True) heap_refs w' shared_vec [3, 1, 2]"
  by (rule removal_lost_without_memory [OF list_heap_laws shared_holds])
    (simp_all add: capacity_def shared_vec_def shared_mem_def list_heap_def heap_size_def has_flag_def)

end
