(* ===== verification/SortedVector.thy ===== *)
theory SortedVector
  imports VectorCalls
begin

text \<open>
  \<open>SortedVectorImpl\<close> of \<open>libshims/utils/VectorImpl.cpp\<close>: a vector that is kept in order and searched by
  bisection. The comparison is the virtual function of the item type.
\<close>

section \<open>Operations\<close>

text \<open>
  The bisection, with positions that are \<open>ssize_t\<close>: what it found, and the place where the search ended.\<close>

function index_loop ::
  "('a \<Rightarrow> 'a \<Rightarrow> int) \<Rightarrow> vec \<Rightarrow> ('h, 'a) vmem \<Rightarrow> 'a \<Rightarrow> int \<Rightarrow> int \<Rightarrow> ((vec_error + nat) \<times> nat) option" where
  "index_loop cmp v w item l h =
     (if l \<le> h
      then let mid = l + (h - l) div 2
           in case item_of v (nat mid) w of
                None \<Rightarrow> None
              | Some cur \<Rightarrow>
                  (let c = cmp cur item
                   in if c = 0 then Some (Inr (nat mid), nat mid)
                      else if c < 0 then index_loop cmp v w item (mid + 1) h
                      else index_loop cmp v w item l (mid - 1))
      else Some (Inl NAME_NOT_FOUND, nat l))"
  by pat_completeness auto
termination by (relation "measure (\<lambda>(cmp, v, w, item, l, h). nat (h - l + 1))") auto

declare index_loop.simps [simp del]

definition indexOrderOf ::
  "('a \<Rightarrow> 'a \<Rightarrow> int) \<Rightarrow> 'a \<Rightarrow> vec \<Rightarrow> ('h, 'a) vmem \<Rightarrow> ((vec_error + nat) \<times> nat) option" where
  "indexOrderOf cmp item v w = index_loop cmp v w item 0 (to_ssize ((mCount v + size_max - 1) mod size_max))"

definition indexOf :: "('a \<Rightarrow> 'a \<Rightarrow> int) \<Rightarrow> 'a \<Rightarrow> vec \<Rightarrow> ('h, 'a) vmem \<Rightarrow> (vec_error + nat) option" where
  "indexOf cmp item v w = map_option fst (indexOrderOf cmp item v w)"

definition orderOf :: "('a \<Rightarrow> 'a \<Rightarrow> int) \<Rightarrow> 'a \<Rightarrow> vec \<Rightarrow> ('h, 'a) vmem \<Rightarrow> nat option" where
  "orderOf cmp item v w = map_option snd (indexOrderOf cmp item v w)"

definition sorted_add ::
  "'h shared_buffer \<Rightarrow> 'a item_type \<Rightarrow> ('a \<Rightarrow> 'a \<Rightarrow> int) \<Rightarrow> 'a vsrc \<Rightarrow> vec \<Rightarrow> ('h, 'a) vmem \<Rightarrow> ('h, 'a) vec_run" where
  "sorted_add B T cmp item v w =
     (case read_items w item 1 of
        None \<Rightarrow> VUndef
      | Some x \<Rightarrow>
          (case indexOrderOf cmp (hd x) v w of
             None \<Rightarrow> VUndef
           | Some (Inl _, order) \<Rightarrow> insertAt B T (Some item) order 1 v w
           | Some (Inr index, _) \<Rightarrow> replaceAt B T (Some item) index v w))"

text \<open>\<open>merge\<close> with any vector: its items are added one after the other, up to the first error.\<close>

fun source_at :: "'a vsrc \<Rightarrow> nat \<Rightarrow> 'a vsrc" where
  "source_at (Slots a i) k = Slots a (i + k)"
| "source_at (Objects xs) k = Objects (drop k xs)"

fun merge_items ::
  "'h shared_buffer \<Rightarrow> 'a item_type \<Rightarrow> ('a \<Rightarrow> 'a \<Rightarrow> int) \<Rightarrow> 'a vsrc \<Rightarrow> nat list \<Rightarrow> vec \<Rightarrow> ('h, 'a) vmem \<Rightarrow> ('h, 'a) vec_run" where
  "merge_items B T cmp buffer [] v w = VRet (Inr 0, v, w)"
| "merge_items B T cmp buffer (i # is) v w =
     vthen (sorted_add B T cmp (source_at buffer i) v w) (\<lambda>(r, v1, w1).
       case r of
         Inl err \<Rightarrow> VRet (Inl err, v1, w1)
       | Inr _ \<Rightarrow> merge_items B T cmp buffer is v1 w1)"

definition merge_vector ::
  "'h shared_buffer \<Rightarrow> 'a item_type \<Rightarrow> ('a \<Rightarrow> 'a \<Rightarrow> int) \<Rightarrow> vec \<Rightarrow> vec \<Rightarrow> ('h, 'a) vmem \<Rightarrow> ('h, 'a) vec_run" where
  "merge_vector B T cmp vector v w =
     (if mCount vector \<noteq> 0 then merge_items B T cmp (arrayImpl vector) [0..<mCount vector] v w else VRet (Inr 0, v, w))"

text \<open>\<open>merge\<close> with a sorted vector; the first item of this vector is read whether there is one or not.\<close>

definition merge_sorted ::
  "'h shared_buffer \<Rightarrow> 'a item_type \<Rightarrow> ('a \<Rightarrow> 'a \<Rightarrow> int) \<Rightarrow> vec \<Rightarrow> vec \<Rightarrow> ('h, 'a) vmem \<Rightarrow> ('h, 'a) vec_run" where
  "merge_sorted B T cmp vector v w =
     (if mCount vector = 0 then VRet (Inr 0, v, w)
      else case (item_of vector (mCount vector - 1) w, item_of v 0 w) of
             (Some last_, Some first_) \<Rightarrow>
               if cmp last_ first_ \<le> 0 then insertVectorAt B vector 0 v w
               else (case (item_of vector 0 w, item_of v (mCount v - 1) w) of
                       (Some first2, Some last2) \<Rightarrow>
                         if 0 \<le> cmp first2 last2 then appendVector B vector v w
                         else merge_vector B T cmp vector v w
                     | _ \<Rightarrow> VUndef)
           | _ \<Rightarrow> VUndef)"

definition sorted_remove ::
  "'h shared_buffer \<Rightarrow> ('a \<Rightarrow> 'a \<Rightarrow> int) \<Rightarrow> 'a \<Rightarrow> vec \<Rightarrow> ('h, 'a) vmem \<Rightarrow> ('h, 'a) vec_run" where
  "sorted_remove B cmp item v w =
     (case indexOf cmp item v w of
        None \<Rightarrow> VUndef
      | Some (Inl e) \<Rightarrow> VRet (Inl e, v, w)
      | Some (Inr i) \<Rightarrow> vthen (removeItemsAt B i 1 v w) (\<lambda>(_, v1, w1). VRet (Inr i, v1, w1)))"

section \<open>The search\<close>

text \<open>The reference: look at the items from the front until one is not smaller.\<close>

definition strictly_sorted :: "('a \<Rightarrow> 'a \<Rightarrow> int) \<Rightarrow> 'a list \<Rightarrow> bool" where
  "strictly_sorted cmp xs = sorted_wrt (\<lambda>x y. cmp x y < 0) xs"

definition smaller :: "('a \<Rightarrow> 'a \<Rightarrow> int) \<Rightarrow> 'a \<Rightarrow> 'a list \<Rightarrow> nat" where
  "smaller cmp x xs = length (takeWhile (\<lambda>y. cmp y x < 0) xs)"

definition linear_search :: "('a \<Rightarrow> 'a \<Rightarrow> int) \<Rightarrow> 'a \<Rightarrow> 'a list \<Rightarrow> (vec_error + nat) \<times> nat" where
  "linear_search cmp x xs =
     (let n = smaller cmp x xs
      in (if n < length xs \<and> cmp (xs ! n) x = 0 then Inr n else Inl NAME_NOT_FOUND, n))"

lemma compares_iff:
  assumes "compares cmp C"
  shows "cmp x y < 0 \<longleftrightarrow> compare C x y = Less" "cmp x y = 0 \<longleftrightarrow> compare C x y = Equiv" "0 < cmp x y \<longleftrightarrow> compare C x y = Greater"
  using assms by (auto simp: compares_def)

lemma compares_trans:
  assumes "compares cmp C"
  shows "cmp x y < 0 \<Longrightarrow> cmp y z < 0 \<Longrightarrow> cmp x z < 0" "cmp x y < 0 \<Longrightarrow> cmp y z = 0 \<Longrightarrow> cmp x z < 0"
    "cmp x y < 0 \<Longrightarrow> 0 < cmp x z \<Longrightarrow> 0 < cmp y z" "cmp x y < 0 \<Longrightarrow> cmp x z = 0 \<Longrightarrow> 0 < cmp y z"
proof -
  note i = compares_iff [OF assms]
  show "cmp x y < 0 \<Longrightarrow> cmp y z < 0 \<Longrightarrow> cmp x z < 0"
    unfolding i by (rule compare.trans_less)
  show "cmp x y < 0 \<Longrightarrow> cmp y z = 0 \<Longrightarrow> cmp x z < 0"
    unfolding i by (rule compare.trans_less_equiv)
  show "cmp x y < 0 \<Longrightarrow> 0 < cmp x z \<Longrightarrow> 0 < cmp y z"
    unfolding i by (metis compare.greater_iff_sym_less compare.trans_less)
  show "cmp x y < 0 \<Longrightarrow> cmp x z = 0 \<Longrightarrow> 0 < cmp y z"
    unfolding i by (metis compare.greater_iff_sym_less compare.sym compare.trans_equiv_less)
qed

lemma search_order:
  assumes "compares cmp C" "strictly_sorted cmp xs" "i < j" "j < length xs"
  shows "cmp (xs ! j) x \<le> 0 \<Longrightarrow> cmp (xs ! i) x < 0" "0 \<le> cmp (xs ! i) x \<Longrightarrow> 0 < cmp (xs ! j) x"
proof -
  have ij: "cmp (xs ! i) (xs ! j) < 0" using sorted_wrt_nth_less [OF assms(2) [unfolded strictly_sorted_def] assms(3,4)] .
  show "cmp (xs ! j) x \<le> 0 \<Longrightarrow> cmp (xs ! i) x < 0"
    using compares_trans(1,2) [OF assms(1) ij, of x] by linarith
  show "0 \<le> cmp (xs ! i) x \<Longrightarrow> 0 < cmp (xs ! j) x"
    using compares_trans(3,4) [OF assms(1) ij, of x] by linarith
qed

lemma smaller_bounds:
  shows "smaller cmp x xs \<le> length xs" "i < smaller cmp x xs \<Longrightarrow> cmp (xs ! i) x < 0"
    "smaller cmp x xs < length xs \<Longrightarrow> 0 \<le> cmp (xs ! smaller cmp x xs) x"
proof -
  show "smaller cmp x xs \<le> length xs" unfolding smaller_def by (rule length_takeWhile_le)
  show "i < smaller cmp x xs \<Longrightarrow> cmp (xs ! i) x < 0"
    unfolding smaller_def by (metis (mono_tags, lifting) nth_mem set_takeWhileD takeWhile_nth)
  show "smaller cmp x xs < length xs \<Longrightarrow> 0 \<le> cmp (xs ! smaller cmp x xs) x"
    unfolding smaller_def using nth_length_takeWhile [of "\<lambda>y. cmp y x < 0" xs] by simp
qed

lemma index_loop_ok:
  assumes H: "vec_holds B refs w v xs" and C: "compares cmp C" and S: "strictly_sorted cmp xs"
    and "0 \<le> l" "l \<le> int (smaller cmp x xs)" "int (smaller cmp x xs) \<le> h + 1" "h < int (length xs)"
    and "h + 1 < int (length xs) \<longrightarrow> 0 < cmp (xs ! nat (h + 1)) x"
  shows "index_loop cmp v w x l h = Some (linear_search cmp x xs)"
  using assms(4-)
proof (induction "nat (h - l + 1)" arbitrary: l h rule: less_induct)
  case less
  let ?n = "smaller cmp x xs"
  show ?case
  proof (cases "l \<le> h")
    case True
    define mid where "mid = l + (h - l) div 2"
    have m: "l \<le> mid" "mid \<le> h" "0 \<le> mid" "nat mid < length xs" using True less.prems by (simp_all add: mid_def)
    have item: "item_of v (nat mid) w = Some (xs ! nat mid)" by (rule item_of_ok [OF H m(4)])
    have run: "index_loop cmp v w x l h = (let c = cmp (xs ! nat mid) x
        in if c = 0 then Some (Inr (nat mid), nat mid)
           else if c < 0 then index_loop cmp v w x (mid + 1) h
           else index_loop cmp v w x l (mid - 1))"
      using True item by (subst index_loop.simps) (simp add: mid_def [symmetric] Let_def)
    consider "cmp (xs ! nat mid) x = 0" | "cmp (xs ! nat mid) x < 0" | "0 < cmp (xs ! nat mid) x" by linarith
    then show ?thesis
    proof cases
      case 1
      have "\<not> nat mid < ?n" using 1 smaller_bounds(2) [of "nat mid" cmp x xs] by auto
      moreover have "\<not> ?n < nat mid"
      proof
        assume "?n < nat mid"
        from search_order(1) [OF C S this m(4), of x] 1 smaller_bounds(3) [of cmp x xs] m(4) \<open>?n < nat mid\<close> show False by simp
      qed
      ultimately have "?n = nat mid" by simp
      with 1 m(4) show ?thesis unfolding run by (simp add: linear_search_def Let_def)
    next
      case 2
      have "nat mid < ?n"
      proof (rule ccontr)
        assume "\<not> nat mid < ?n"
        then consider "?n = nat mid" | "?n < nat mid" by linarith
        then show False
          using 2 m(4) smaller_bounds(3) [of cmp x xs] search_order(1) [OF C S _ m(4), of ?n x] by cases auto
      qed
      then have "index_loop cmp v w x (mid + 1) h = Some (linear_search cmp x xs)"
        using less.prems m True by (intro less.hyps) auto
      with 2 show ?thesis unfolding run by simp
    next
      case 3
      have "?n \<le> nat mid" using 3 smaller_bounds(2) [of "nat mid" cmp x xs] by (meson linorder_not_less order_less_asym)
      then have "index_loop cmp v w x l (mid - 1) = Some (linear_search cmp x xs)"
        using less.prems m True 3 by (intro less.hyps) auto
      with 3 show ?thesis unfolding run by simp
    qed
  next
    case False
    then have "nat l = ?n" "?n = nat (h + 1)" using less.prems by simp_all
    moreover from this have "?n < length xs \<longrightarrow> 0 < cmp (xs ! ?n) x" using less.prems by auto
    ultimately show ?thesis using False by (subst index_loop.simps) (auto simp: linear_search_def)
  qed
qed

lemma last_position:
  assumes "2 * n < size_max"
  shows "to_ssize ((n + size_max - 1) mod size_max) = int n - 1"
proof (cases n)
  case 0
  then show ?thesis by (simp add: to_ssize_def size_max_def)
next
  case (Suc m)
  then have "(n + size_max - 1) mod size_max = m" using assms by (simp add: size_max_def)
  then show ?thesis using Suc assms by (simp add: to_ssize_def)
qed

lemma search_ok:
  assumes "vec_holds B refs w v xs" "compares cmp C" "strictly_sorted cmp xs" "2 * length xs < size_max"
  shows "indexOrderOf cmp x v w = Some (linear_search cmp x xs)"
proof -
  have n: "mCount v = length xs" "length xs < size_max" using assms(1) by (simp_all add: vec_holds_def)
  have "to_ssize ((mCount v + size_max - 1) mod size_max) = int (length xs) - 1"
    unfolding n(1) by (rule last_position [OF assms(4)])
  then show ?thesis unfolding indexOrderOf_def using smaller_bounds(1) [of cmp x xs]
    by (intro index_loop_ok [OF assms(1-3)]) simp_all
qed


section \<open>Adding and removing\<close>

definition sorted_put :: "('a \<Rightarrow> 'a \<Rightarrow> int) \<Rightarrow> 'a \<Rightarrow> 'a list \<Rightarrow> 'a list" where
  "sorted_put cmp x xs =
     (case linear_search cmp x xs of
        (Inl _, n) \<Rightarrow> take n xs @ x # drop n xs
      | (Inr n, _) \<Rightarrow> xs[n := x])"

definition sorted_del :: "('a \<Rightarrow> 'a \<Rightarrow> int) \<Rightarrow> 'a \<Rightarrow> 'a list \<Rightarrow> 'a list" where
  "sorted_del cmp x xs =
     (case fst (linear_search cmp x xs) of
        Inl _ \<Rightarrow> xs
      | Inr n \<Rightarrow> take n xs @ drop (Suc n) xs)"

lemma search_sides:
  assumes C: "compares cmp C" and S: "strictly_sorted cmp xs"
  shows "\<forall>y \<in> set (take (smaller cmp x xs) xs). cmp y x < 0"
    "n = (if fst (linear_search cmp x xs) = Inl NAME_NOT_FOUND then smaller cmp x xs else Suc (smaller cmp x xs)) \<Longrightarrow>
      \<forall>y \<in> set (drop n xs). 0 < cmp y x"
proof -
  let ?n = "smaller cmp x xs"
  show "\<forall>y \<in> set (take ?n xs). cmp y x < 0"
    using smaller_bounds(2) [of _ cmp x xs] by (auto simp: in_set_conv_nth)
  assume n: "n = (if fst (linear_search cmp x xs) = Inl NAME_NOT_FOUND then ?n else Suc ?n)"
  show "\<forall>y \<in> set (drop n xs). 0 < cmp y x"
  proof
    fix y
    assume "y \<in> set (drop n xs)"
    then obtain k where "k < length (drop n xs)" "y = drop n xs ! k" by (auto simp: in_set_conv_nth)
    then have k: "n + k < length xs" "y = xs ! (n + k)" by simp_all
    have ge: "0 \<le> cmp (xs ! ?n) x" if "?n < length xs" using smaller_bounds(3) [OF that] .
    show "0 < cmp y x"
    proof (cases "n + k = ?n")
      case True
      then have "fst (linear_search cmp x xs) = Inl NAME_NOT_FOUND" "?n < length xs" using n k(1) by (auto split: if_splits)
      then have "cmp (xs ! ?n) x \<noteq> 0" by (auto simp: linear_search_def Let_def split: if_splits)
      with ge \<open>?n < length xs\<close> k(2) True show ?thesis by simp
    next
      case False
      then have "?n < n + k" using n by (auto split: if_splits)
      with search_order(2) [OF C S this k(1), of x] ge k show ?thesis by simp
    qed
  qed
qed

lemma linear_search_found:
  assumes "fst (linear_search cmp x xs) = Inr n"
  shows "n = smaller cmp x xs" "n < length xs" "cmp (xs ! n) x = 0"
  using assms by (auto simp: linear_search_def Let_def split: if_splits)

lemma linear_search_missing:
  assumes "fst (linear_search cmp x xs) = Inl e"
  shows "e = NAME_NOT_FOUND" "snd (linear_search cmp x xs) = smaller cmp x xs"
  using assms by (auto simp: linear_search_def Let_def split: if_splits)

lemma strictly_sorted_around:
  assumes "compares cmp C" "strictly_sorted cmp (as @ bs)" "\<forall>y \<in> set as. cmp y x < 0" "\<forall>y \<in> set bs. 0 < cmp y x"
  shows "strictly_sorted cmp (as @ x # bs)"
proof -
  have "\<forall>y \<in> set bs. cmp x y < 0" using assms(4) unfolding compares_iff [OF assms(1)] by (simp add: compare.greater_iff_sym_less)
  with assms(2,3) show ?thesis by (auto simp: strictly_sorted_def sorted_wrt_append)
qed

lemma sorted_put_form:
  assumes C: "compares cmp C" and S: "strictly_sorted cmp xs"
  shows "\<exists>as bs. sorted_put cmp x xs = as @ x # bs \<and> (\<forall>y \<in> set as. cmp y x < 0) \<and> (\<forall>y \<in> set bs. 0 < cmp y x) \<and>
    (xs = as @ bs \<or> (\<exists>z. xs = as @ z # bs \<and> cmp z x = 0))"
proof (cases "fst (linear_search cmp x xs)")
  case (Inl e)
  note m = linear_search_missing [OF Inl]
  have "linear_search cmp x xs = (Inl e, smaller cmp x xs)" using Inl m(2) by (metis prod.collapse)
  then have "sorted_put cmp x xs = take (smaller cmp x xs) xs @ x # drop (smaller cmp x xs) xs" by (simp add: sorted_put_def)
  with search_sides(1) [OF C S, of x] search_sides(2) [OF C S, where x = x and n = "smaller cmp x xs"] Inl m(1) show ?thesis
    by (intro exI [of _ "take (smaller cmp x xs) xs"] exI [of _ "drop (smaller cmp x xs) xs"]) simp
next
  case (Inr n)
  note f = linear_search_found [OF Inr]
  obtain k where "linear_search cmp x xs = (Inr n, k)" using Inr by (cases "linear_search cmp x xs") simp
  then have "sorted_put cmp x xs = take n xs @ x # drop (Suc n) xs" using f(2) by (simp add: sorted_put_def upd_conv_take_nth_drop)
  moreover have "xs = take n xs @ xs ! n # drop (Suc n) xs" using f(2) by (simp add: id_take_nth_drop)
  ultimately show ?thesis using search_sides(1) [OF C S, of x] search_sides(2) [OF C S, where x = x and n = "Suc n"] Inr f
    by (intro exI [of _ "take n xs"] exI [of _ "drop (Suc n) xs"]) auto
qed

lemma sorted_put_sorted:
  assumes C: "compares cmp C" and S: "strictly_sorted cmp xs"
  shows "strictly_sorted cmp (sorted_put cmp x xs)"
    "y \<in> set (sorted_put cmp x xs) \<longleftrightarrow> y = x \<or> y \<in> set xs \<and> cmp y x \<noteq> 0"
proof -
  from sorted_put_form [OF assms, of x] obtain as bs where p: "sorted_put cmp x xs = as @ x # bs"
    "\<forall>y \<in> set as. cmp y x < 0" "\<forall>y \<in> set bs. 0 < cmp y x" "xs = as @ bs \<or> (\<exists>z. xs = as @ z # bs \<and> cmp z x = 0)" by blast
  have "strictly_sorted cmp (as @ bs)" using p(4) S by (auto simp: strictly_sorted_def sorted_wrt_append)
  from strictly_sorted_around [OF C this p(2,3)] show "strictly_sorted cmp (sorted_put cmp x xs)" unfolding p(1) .
  show "y \<in> set (sorted_put cmp x xs) \<longleftrightarrow> y = x \<or> y \<in> set xs \<and> cmp y x \<noteq> 0"
    using p by force
qed

lemma sorted_del_sorted:
  assumes C: "compares cmp C" and S: "strictly_sorted cmp xs"
  shows "strictly_sorted cmp (sorted_del cmp x xs)" "y \<in> set (sorted_del cmp x xs) \<longleftrightarrow> y \<in> set xs \<and> cmp y x \<noteq> 0"
proof -
  let ?n = "smaller cmp x xs"
  have "strictly_sorted cmp (sorted_del cmp x xs) \<and> (\<forall>y. y \<in> set (sorted_del cmp x xs) \<longleftrightarrow> y \<in> set xs \<and> cmp y x \<noteq> 0)"
  proof (cases "fst (linear_search cmp x xs)")
    case (Inl e)
    have d: "sorted_del cmp x xs = xs" using Inl by (simp add: sorted_del_def)
    have "cmp y x \<noteq> 0" if "y \<in> set xs" for y
    proof -
      have "y \<in> set (take ?n xs) \<or> y \<in> set (drop ?n xs)" using that by (metis Un_iff append_take_drop_id set_append)
      then show ?thesis
        using search_sides(1) [OF C S, of x] search_sides(2) [OF C S, where x = x and n = ?n] Inl linear_search_missing(1) [OF Inl]
        by (metis order_less_irrefl)
    qed
    with d S show ?thesis by auto
  next
    case (Inr n)
    note f = linear_search_found [OF Inr]
    have d: "sorted_del cmp x xs = take n xs @ drop (Suc n) xs" using Inr by (simp add: sorted_del_def)
    have x: "xs = take n xs @ xs ! n # drop (Suc n) xs" using f(2) by (simp add: id_take_nth_drop)
    then have "strictly_sorted cmp (take n xs @ xs ! n # drop (Suc n) xs)" using S by simp
    then have "strictly_sorted cmp (take n xs @ drop (Suc n) xs)" by (auto simp: strictly_sorted_def sorted_wrt_append)
    moreover have "set xs = set (take n xs) \<union> {xs ! n} \<union> set (drop (Suc n) xs)" by (subst x) auto
    moreover have "\<forall>y \<in> set (take n xs). cmp y x \<noteq> 0" using search_sides(1) [OF C S, of x] f(1) by fastforce
    moreover have "\<forall>y \<in> set (drop (Suc n) xs). cmp y x \<noteq> 0"
      using search_sides(2) [OF C S, where x = x and n = "Suc n"] Inr f(1) by fastforce
    ultimately show ?thesis unfolding d using f(3) by auto
  qed
  then show "strictly_sorted cmp (sorted_del cmp x xs)" "y \<in> set (sorted_del cmp x xs) \<longleftrightarrow> y \<in> set xs \<and> cmp y x \<noteq> 0" by blast+
qed

lemma sorted_add_ok:
  assumes L: "sb_laws B refs" and H: "vec_holds B refs w v xs" and C: "compares cmp C" and S: "strictly_sorted cmp xs"
    and R: "vec_room B v (Suc (length xs))" and src: "vec_source refs w v src 1 [x]"
    and M: "2 * length xs < size_max"
  shows "vok False (\<lambda>(r, v', w'). r = Inr (smaller cmp x xs) \<and> vec_frame B refs v w v' w' \<and>
      vec_holds B refs w' v' (sorted_put cmp x xs)) (sorted_add B T cmp src v w)"
proof -
  have read: "read_items w src 1 = Some [x]" using src by (simp add: vec_source_def)
  have item: "item_source refs w v (Some src) (Some x)" using src by (simp add: item_source_def)
  have plenty: "sb_plenty B" using R by (simp add: vec_room_def)
  note found = search_ok [OF H C S M, of x]
  show ?thesis
  proof (cases "fst (linear_search cmp x xs)")
    case (Inl e)
    note m = linear_search_missing [OF Inl]
    have ls: "linear_search cmp x xs = (Inl e, smaller cmp x xs)" using Inl m(2) by (metis prod.collapse)
    have run: "sorted_add B T cmp src v w = insertAt B T (Some src) (smaller cmp x xs) 1 v w"
      using read found ls by (simp add: sorted_add_def)
    show ?thesis unfolding run
      by (rule vok_mono [OF insertAt_ok [OF L H smaller_bounds(1) item]])
        (use R plenty ls in \<open>auto simp: vec_inserted_def new_items_def sorted_put_def\<close>)
  next
    case (Inr n)
    note f = linear_search_found [OF Inr]
    obtain k where ls: "linear_search cmp x xs = (Inr n, k)" using Inr by (cases "linear_search cmp x xs") simp
    have run: "sorted_add B T cmp src v w = replaceAt B T (Some src) n v w"
      using read found ls by (simp add: sorted_add_def)
    show ?thesis unfolding run
      by (rule vok_mono [OF replaceAt_ok [OF L H f(2) item]])
        (use plenty ls f(1) in \<open>auto simp: new_items_def sorted_put_def\<close>)
  qed
qed


lemma sorted_remove_ok:
  assumes L: "sb_laws B refs" and H: "vec_holds B refs w v xs" and C: "compares cmp C" and S: "strictly_sorted cmp xs"
    and P: "sb_plenty B" and M: "2 * length xs < size_max"
  shows "vok False (\<lambda>(r, v', w'). r = fst (linear_search cmp x xs) \<and> vec_frame B refs v w v' w' \<and>
      vec_holds B refs w' v' (sorted_del cmp x xs)) (sorted_remove B cmp x v w)"
proof (cases "fst (linear_search cmp x xs)")
  case (Inl e)
  then have "sorted_remove B cmp x v w = VRet (Inl e, v, w)" using search_ok [OF H C S M, of x] by (simp add: sorted_remove_def indexOf_def)
  with Inl H show ?thesis by (simp add: sorted_del_def)
next
  case (Inr n)
  note f = linear_search_found [OF Inr]
  have run: "sorted_remove B cmp x v w = vthen (removeItemsAt B n 1 v w) (\<lambda>(_, v1, w1). VRet (Inr n, v1, w1))"
    using Inr search_ok [OF H C S M, of x] by (simp add: sorted_remove_def indexOf_def)
  have "vok False (\<lambda>(r, v', w'). r = Inr n \<and> vec_removed B refs v w xs n 1 v' w') (removeItemsAt B n 1 v w)"
    by (rule vok_mono [OF removeItemsAt_ok [OF L H]]) (use f(2) P in simp_all)
  then show ?thesis unfolding run
    by (rule vok_then) (use Inr P in \<open>auto simp: vec_removed_def sorted_del_def\<close>)
qed

section \<open>Merging\<close>

lemma fold_put_sorted: "compares cmp C \<Longrightarrow> strictly_sorted cmp xs \<Longrightarrow> strictly_sorted cmp (fold (sorted_put cmp) ys xs)"
  by (induction ys arbitrary: xs) (simp_all add: sorted_put_sorted(1))

lemma length_sorted_put: "length (sorted_put cmp x xs) \<le> Suc (length xs)"
  using smaller_bounds(1) [of cmp x xs] by (auto simp: sorted_put_def linear_search_def Let_def)

lemma vec_room_mono:
  assumes "vec_room B v n" "m \<le> n" "mItemSize v' = mItemSize v"
  shows "vec_room B v' m"
proof -
  have "(m + m div 2 + 4) * mItemSize v \<le> (n + n div 2 + 4) * mItemSize v"
    using assms(2) by (intro mult_le_mono1 add_le_mono) (auto intro: div_le_mono)
  also have "\<dots> < size_max" using assms(1) by (simp add: vec_room_def)
  finally show ?thesis using assms(1,3) unfolding vec_room_def by (simp only:)
qed

lemma merge_items_ok:
  assumes L: "sb_laws B refs" and C: "compares cmp C"
    and "vec_holds B refs w v xs" "strictly_sorted cmp xs" "vec_room B v (length xs + length is)"
      "2 * (length xs + length is) < size_max"
    and "\<forall>i \<in> set is. vec_source refs w v (source_at src i) 1 [f i]"
  shows "vok False (\<lambda>(r, v', w'). r = Inr 0 \<and> vec_frame B refs v w v' w' \<and>
      vec_holds B refs w' v' (fold (sorted_put cmp) (map f is) xs)) (merge_items B T cmp src is v w)"
  using assms(3-)
proof (induction "is" arbitrary: v w xs)
  case (Cons i js)
  have src: "vec_source refs w v (source_at src i) 1 [f i]" using Cons.prems(5) by simp
  have "vec_room B v (Suc (length xs))" using vec_room_mono [OF Cons.prems(3)] by simp
  from sorted_add_ok [OF L Cons.prems(1) C Cons.prems(2) this src] Cons.prems(4)
  have add: "vok False (\<lambda>(r, v', w'). r = Inr (smaller cmp (f i) xs) \<and> vec_frame B refs v w v' w' \<and>
      vec_holds B refs w' v' (sorted_put cmp (f i) xs)) (sorted_add B T cmp (source_at src i) v w)" by simp
  show ?case unfolding merge_items.simps
  proof (rule vok_then [OF add])
    fix r :: "(vec_error + nat) \<times> vec \<times> _"
    assume r: "case r of (r, v', w') \<Rightarrow> r = Inr (smaller cmp (f i) xs) \<and> vec_frame B refs v w v' w' \<and>
      vec_holds B refs w' v' (sorted_put cmp (f i) xs)"
    obtain res v1 w1 where p: "r = (res, v1, w1)" by (cases r)
    have F: "vec_frame B refs v w v1 w1" and H: "vec_holds B refs w1 v1 (sorted_put cmp (f i) xs)" using r p by auto
    have "length (sorted_put cmp (f i) xs) + length js \<le> length xs + length (i # js)" using length_sorted_put [of cmp "f i" xs] by simp
    then have "vec_room B v1 (length (sorted_put cmp (f i) xs) + length js)"
      using F by (intro vec_room_mono [OF Cons.prems(3)]) (simp_all add: vec_frame_def)
    moreover have "\<forall>j \<in> set js. vec_source refs w1 v1 (source_at src j) 1 [f j]"
      using Cons.prems(5) source_frame(2) [OF F] by simp
    ultimately have "vok False (\<lambda>(r, v', w'). r = Inr 0 \<and> vec_frame B refs v1 w1 v' w' \<and>
        vec_holds B refs w' v' (fold (sorted_put cmp) (map f js) (sorted_put cmp (f i) xs))) (merge_items B T cmp src js v1 w1)"
      using Cons.prems(4) length_sorted_put [of cmp "f i" xs]
      by (intro Cons.IH [OF H sorted_put_sorted(1) [OF C Cons.prems(2)]]) simp_all
    then have "vok False (\<lambda>(r, v', w'). r = Inr 0 \<and> vec_frame B refs v w v' w' \<and>
        vec_holds B refs w' v' (fold (sorted_put cmp) (map f (i # js)) xs)) (merge_items B T cmp src js v1 w1)"
      by (rule vok_mono) (use vec_frame_trans [OF F] in auto)
    then show "vok False (\<lambda>(r, v', w'). r = Inr 0 \<and> vec_frame B refs v w v' w' \<and>
        vec_holds B refs w' v' (fold (sorted_put cmp) (map f (i # js)) xs)) (case r of (r, v1, w1) \<Rightarrow>
          (case r of Inl err \<Rightarrow> VRet (Inl err, v1, w1) | Inr _ \<Rightarrow> merge_items B T cmp src js v1 w1))"
      using r p by simp
  qed
qed simp

lemma item_source_at:
  assumes "vec_source refs w v (arrayImpl u) n ys" "i < n"
  shows "vec_source refs w v (source_at (arrayImpl u) i) 1 [ys ! i]"
proof (cases "mStorage u")
  case None
  then show ?thesis using assms by (auto simp: arrayImpl_def vec_source_def read_items_def split: if_splits)
next
  case (Some a)
  let ?s = "vm_slots w a"
  from assms(1) Some have s: "n \<le> length ?s" "those (take n ?s) = Some ys" "0 < others refs w v a" "length ys = n"
    by (auto simp: arrayImpl_def vec_source_def read_items_def split: if_splits)
  have those_nth: "those zs = Some xs \<Longrightarrow> k < length zs \<Longrightarrow> zs ! k = Some (xs ! k)" for zs xs k
    by (induction zs arbitrary: xs k) (auto simp: nth_Cons split: option.splits nat.splits)
  have "?s ! i = Some (ys ! i)" using those_nth [OF s(2), of i] assms(2) s(1) by simp
  moreover have "take 1 (drop i ?s) = [?s ! i]" using assms(2) s(1) by (simp add: take_Suc hd_drop_conv_nth)
  ultimately show ?thesis using Some s assms(2) by (simp add: arrayImpl_def vec_source_def read_items_def)
qed

lemma merge_vector_ok:
  assumes L: "sb_laws B refs" and C: "compares cmp C" and H: "vec_holds B refs w v xs" and S: "strictly_sorted cmp xs"
    and R: "vec_room B v (length xs + length ys)" and M: "2 * (length xs + length ys) < size_max" and U: "vec_holds B refs w u ys"
    and o: "\<forall>a. mStorage u = Some a \<longrightarrow> 0 < others refs w v a"
  shows "vok False (\<lambda>(r, v', w'). r = Inr 0 \<and> vec_frame B refs v w v' w' \<and>
      vec_holds B refs w' v' (fold (sorted_put cmp) ys xs)) (merge_vector B T cmp u v w)"
proof (cases "ys = []")
  case True
  then show ?thesis using H U by (simp add: merge_vector_def vec_holds_def)
next
  case False
  have n: "mCount u = length ys" using U by (simp add: vec_holds_def)
  have "\<forall>i \<in> set [0..<length ys]. vec_source refs w v (source_at (arrayImpl u) i) 1 [ys ! i]"
    using item_source_at [OF array_source [OF U o]] n by simp
  from merge_items_ok [OF L C H S _ _ this] R M have
    "vok False (\<lambda>(r, v', w'). r = Inr 0 \<and> vec_frame B refs v w v' w' \<and>
      vec_holds B refs w' v' (fold (sorted_put cmp) (map (\<lambda>i. ys ! i) [0..<length ys]) xs))
      (merge_items B T cmp (arrayImpl u) [0..<length ys] v w)" by simp
  then show ?thesis using False n by (simp add: merge_vector_def map_nth)
qed


section \<open>Properties\<close>

text \<open>Two sorted vectors, of the items 1, 3, 5 and of 5, 6; every buffer has one owner.\<close>

definition sorted_mem :: "((nat \<times> nat) list, nat) vmem" where
  "sorted_mem = \<lparr>vm_heap = [(1, 12), (1, 8)], vm_slots = (\<lambda>_. [])(0 := [Some 1, Some 3, Some 5], 1 := [Some 5, Some 6])\<rparr>"

definition sorted_vec :: vec where
  "sorted_vec = \<lparr>mStorage = Some 0, mCount = 3, mFlags = 0, mItemSize = 4\<rparr>"

definition sorted_vec2 :: vec where
  "sorted_vec2 = \<lparr>mStorage = Some 1, mCount = 2, mFlags = 0, mItemSize = 4\<rparr>"

lemma sorted_mem_holds:
  "vec_holds (list_heap full) heap_refs sorted_mem sorted_vec [1, 3, 5]"
  "vec_holds (list_heap full) heap_refs sorted_mem sorted_vec2 [5, 6]"
  by (simp_all add: vec_holds_def sorted_mem_def sorted_vec_def sorted_vec2_def list_heap_def heap_refs_def heap_size_def
      size_max_def raw_slots_def)

lemma sorted_mem_sorted: "compares nat_cmp default" "strictly_sorted nat_cmp [1, 3, 5]" "strictly_sorted nat_cmp [5, 6]"
  by (auto simp: compares_def nat_cmp_def strictly_sorted_def)

lemma sorted_vec_room: "n \<le> 100 \<Longrightarrow> vec_room (list_heap False) sorted_vec n"
  by (simp add: vec_room_def list_heap_plenty sorted_vec_def size_max_def)

text \<open>
  C12. The bisection of a sorted vector gives what a search from the front gives: the index of the item that
  compares equal, or that there is none, and in both cases the number of the smaller items as the place where
  the item belongs.
\<close>

theorem sorted_search_linear:
  assumes "vec_holds B refs w v xs" "compares cmp C" "strictly_sorted cmp xs" "2 * length xs < size_max"
  shows "indexOrderOf cmp x v w = Some (linear_search cmp x xs) \<and>
    indexOf cmp x v w = Some (fst (linear_search cmp x xs)) \<and> orderOf cmp x v w = Some (smaller cmp x xs)"
  using search_ok [OF assms, of x] by (simp_all add: indexOf_def orderOf_def linear_search_def Let_def)

theorem sorted_search_linear_witness:
  "indexOf nat_cmp 4 sorted_vec sorted_mem = Some (Inl NAME_NOT_FOUND) \<and> orderOf nat_cmp 4 sorted_vec sorted_mem = Some 2 \<and>
   indexOf nat_cmp 5 sorted_vec sorted_mem = Some (Inr 2)"
proof -
  have "2 * length [1, 3, 5 :: nat] < size_max" by (simp add: size_max_def)
  from sorted_search_linear [OF sorted_mem_holds(1) sorted_mem_sorted(1,2) this]
  show ?thesis by (simp add: linear_search_def smaller_def nat_cmp_def)
qed

text \<open>
  C13. A sorted vector stays sorted, with no two items that compare equal: \<open>add\<close> puts the item in its place, in
  the place of an equal one if there is one, and returns the index; \<open>remove\<close> takes away the equal item and
  returns the index it had, or that there was none; \<open>merge\<close> with a vector that need not be sorted adds its items one after the
  other. There must be enough memory, no more than half as many items as 32 bits count, and a comparison that is a total order. The
  merge with another sorted vector is code of its own that does not keep this (\<open>merge_keeps_duplicate\<close> and
  \<open>merge_into_empty_undefined\<close> below).
\<close>

theorem sorted_vector_maintained:
  assumes "sb_laws B refs" "vec_holds B refs w v xs" "compares cmp C" "strictly_sorted cmp xs"
    and "vec_room B v (Suc (length xs) + length ys)" "vec_source refs w v src 1 [x]"
    and "vec_holds B refs w u ys" "\<forall>a. mStorage u = Some a \<longrightarrow> 0 < others refs w v a"
    and "2 * (length xs + length ys) < size_max"
  shows "vok False (\<lambda>(r, v', w'). \<exists>zs. r = Inr (smaller cmp x xs) \<and> vec_holds B refs w' v' zs \<and>
        strictly_sorted cmp zs \<and> set zs = insert x {y \<in> set xs. cmp y x \<noteq> 0}) (sorted_add B T cmp src v w) \<and>
    vok False (\<lambda>(r, v', w'). \<exists>zs. r = fst (linear_search cmp x xs) \<and> vec_holds B refs w' v' zs \<and>
        strictly_sorted cmp zs \<and> set zs = {y \<in> set xs. cmp y x \<noteq> 0}) (sorted_remove B cmp x v w) \<and>
    vok False (\<lambda>(r, v', w'). r = Inr 0 \<and> vec_holds B refs w' v' (fold (sorted_put cmp) ys xs) \<and>
        strictly_sorted cmp (fold (sorted_put cmp) ys xs)) (merge_vector B T cmp u v w)"
proof (intro conjI)
  have plenty: "sb_plenty B" using assms(5) by (simp add: vec_room_def)
  have M: "2 * length xs < size_max" using assms(9) by simp
  have R: "vec_room B v (Suc (length xs))" "vec_room B v (length xs + length ys)" using vec_room_mono [OF assms(5)] by simp_all
  show "vok False (\<lambda>(r, v', w'). \<exists>zs. r = Inr (smaller cmp x xs) \<and> vec_holds B refs w' v' zs \<and>
        strictly_sorted cmp zs \<and> set zs = insert x {y \<in> set xs. cmp y x \<noteq> 0}) (sorted_add B T cmp src v w)"
    by (rule vok_mono [OF sorted_add_ok [OF assms(1-4) R(1) assms(6) M]])
      (use sorted_put_sorted [OF assms(3,4)] in \<open>auto intro!: exI [of _ "sorted_put cmp x xs"]\<close>)
  show "vok False (\<lambda>(r, v', w'). \<exists>zs. r = fst (linear_search cmp x xs) \<and> vec_holds B refs w' v' zs \<and>
        strictly_sorted cmp zs \<and> set zs = {y \<in> set xs. cmp y x \<noteq> 0}) (sorted_remove B cmp x v w)"
    by (rule vok_mono [OF sorted_remove_ok [OF assms(1-4) plenty M]])
      (use sorted_del_sorted [OF assms(3,4)] in \<open>auto intro!: exI [of _ "sorted_del cmp x xs"]\<close>)
  show "vok False (\<lambda>(r, v', w'). r = Inr 0 \<and> vec_holds B refs w' v' (fold (sorted_put cmp) ys xs) \<and>
        strictly_sorted cmp (fold (sorted_put cmp) ys xs)) (merge_vector B T cmp u v w)"
    by (rule vok_mono [OF merge_vector_ok [OF assms(1,3,2,4) R(2) assms(9,7,8)]])
      (use fold_put_sorted [OF assms(3,4)] in auto)
qed

theorem sorted_vector_maintained_witness:
  "\<exists>v w. sorted_add (list_heap False) nat_type nat_cmp (Objects [4]) sorted_vec sorted_mem = VRet (Inr 2, v, w) \<and>
     vec_holds (list_heap False) heap_refs w v [1, 3, 4, 5]"
proof -
  have "vec_source heap_refs sorted_mem sorted_vec (Objects [4 :: nat]) 1 [4]" by (rule source_objects) simp_all
  have e: "vec_holds (list_heap False) heap_refs sorted_mem (vector_new 4 0) []"
    by (simp add: vec_holds_def vector_new_def size_max_def)
  have n: "\<forall>a. mStorage (vector_new 4 0) = Some a \<longrightarrow> 0 < others heap_refs sorted_mem sorted_vec a" by (simp add: vector_new_def)
  have r: "vec_room (list_heap False) sorted_vec (Suc (length [1, 3, 5 :: nat]) + length ([] :: nat list))" by (rule sorted_vec_room) simp
  have m: "2 * (length [1, 3, 5 :: nat] + length ([] :: nat list)) < size_max" by (simp add: size_max_def)
  have u: "zs = [1, 3, 4, 5]" if "strictly_sorted nat_cmp zs" "set zs = insert 4 {y \<in> set [1, 3, 5 :: nat]. nat_cmp y 4 \<noteq> 0}" for zs
  proof (rule sorted_distinct_set_unique)
    have "sorted_wrt (<) zs" using that(1) by (simp add: strictly_sorted_def nat_cmp_def)
    then show "linorder_class.sorted zs" "distinct zs" by (simp_all add: strict_sorted_iff)
    show "set zs = set [1, 3, 4, 5]" using that(2) by (auto simp: nat_cmp_def)
  qed simp_all
  show ?thesis
    using conjunct1 [OF sorted_vector_maintained [OF list_heap_laws sorted_mem_holds(1) sorted_mem_sorted(1,2) r
      \<open>vec_source heap_refs sorted_mem sorted_vec (Objects [4 :: nat]) 1 [4]\<close> e n m, where T = nat_type]] u
    by (auto simp: vok_def smaller_def nat_cmp_def split: vrun.splits)
qed

text \<open>
  The merge of two sorted vectors compares the last item of the one with the first of the other and joins the
  vectors as they are when the former is not greater. If the two compare equal both stay, and the result is
  no sorted vector of distinct items.
\<close>

theorem merge_keeps_duplicate:
  assumes "sb_laws B refs" "vec_holds B refs w v (b # vs)" "vec_holds B refs w u (us @ [a])" "cmp a b = 0"
    and "\<forall>c. mStorage u = Some c \<longrightarrow> 0 < others refs w v c" "vec_room B v (length us + length vs + 2)"
  shows "vok False (\<lambda>(r, v', w'). r = Inr 0 \<and> vec_holds B refs w' v' (us @ a # b # vs) \<and>
      \<not> strictly_sorted cmp (us @ a # b # vs)) (merge_sorted B T cmp u v w)"
proof -
  have n: "mCount u = length us + 1" using assms(3) by (simp add: vec_holds_def)
  have i: "item_of u (length us) w = Some a" "item_of v 0 w = Some b"
    using item_of_ok [OF assms(3), of "length us"] item_of_ok [OF assms(2), of 0] by simp_all
  have run: "merge_sorted B T cmp u v w = insertVectorAt B u 0 v w"
    using n i assms(4) by (simp add: merge_sorted_def)
  have "vok False (\<lambda>r. vec_inserted B refs v w (b # vs) 0 (us @ [a]) r \<and> fst r = Inr 0) (insertVectorAt B u 0 v w)"
    unfolding insertVectorAt_def n
    by (rule vok_mono [OF insertArrayAt_ok [OF assms(1,2) _ array_source [OF assms(3,5), unfolded n]]])
      (use vec_room_mono [OF assms(6), of "length (b # vs) + (length us + 1)" v] assms(6)
        in \<open>auto simp: vec_inserted_def vec_room_def\<close>)
  then show ?thesis unfolding run
    by (rule vok_mono) (auto simp: vec_inserted_def strictly_sorted_def sorted_wrt_append assms(4))
qed

theorem merge_keeps_duplicate_witness:
  "vok False (\<lambda>(r, v', w'). r = Inr 0 \<and> vec_holds (list_heap False) heap_refs w' v' [1, 3, 5, 5, 6])
    (merge_sorted (list_heap False) nat_type nat_cmp sorted_vec sorted_vec2 sorted_mem)"
proof -
  have u: "vec_holds (list_heap False) heap_refs sorted_mem sorted_vec ([1, 3] @ [5])" using sorted_mem_holds(1) by simp
  have o: "\<forall>c. mStorage sorted_vec = Some c \<longrightarrow> 0 < others heap_refs sorted_mem sorted_vec2 c"
    by (simp add: others_def sorted_mem_def sorted_vec_def sorted_vec2_def heap_refs_def)
  have r: "vec_room (list_heap False) sorted_vec2 (length [1, 3 :: nat] + length [6 :: nat] + 2)"
    by (simp add: vec_room_def list_heap_plenty sorted_vec2_def size_max_def)
  have e: "nat_cmp 5 5 = 0" by (simp add: nat_cmp_def)
  show ?thesis
    by (rule vok_mono [OF merge_keeps_duplicate [where us = "[1, 3]" and a = 5 and cmp = nat_cmp, OF list_heap_laws sorted_mem_holds(2) u e o r]]) auto
qed

text \<open>
  The merge of a sorted vector with items into an empty one reads the first item of the empty one, which is
  not there: nothing says what it then compares.
\<close>

theorem merge_into_empty_undefined:
  assumes "mStorage v = None" "mCount u \<noteq> 0"
  shows "merge_sorted B T cmp u v w = VUndef"
  using assms by (auto simp: merge_sorted_def item_of_def split: option.splits)

theorem merge_into_empty_undefined_witness:
  "vec_holds (list_heap False) heap_refs sorted_mem (vector_new 4 0) [] \<and>
   merge_sorted (list_heap False) nat_type nat_cmp sorted_vec2 (vector_new 4 0) sorted_mem = VUndef"
  using merge_into_empty_undefined [of "vector_new 4 0" sorted_vec2]
  by (simp add: vec_holds_def vector_new_def size_max_def sorted_vec2_def)

end
