(* ===== verification/Lights.thy ===== *)
theory Lights
  imports Decimal
begin

text \<open>
  The light service of \<open>hidl/lights/Light.cpp\<close>: the backlight of the screen, and the three RGB units of
  the notification LED with their blinking sequencer, which three lights of the framework share. What
  the service writes to the files of the drivers is a trace.
\<close>

unbundle bit_operations_syntax

section \<open>State\<close>

datatype flash = FlashNone | FlashTimed | FlashHardware

text \<open>The lights with a handler by name; every other value of the enumeration has none.\<close>

datatype light_type = ATTENTION | BACKLIGHT | BATTERY | NOTIFICATIONS | OtherLight nat

record light_state =
  color :: u32
  flashMode :: flash
  flashOnMs :: int
  flashOffMs :: int

datatype leds_pupdate = LEDS_PROGRAM_KEEP | LEDS_PROGRAM_WRITE
datatype leds_rgbupdate = LEDS_RGB_KEEP | LEDS_RGB_WRITE
datatype leds_sequencers = LEDS_SEQ_UNKNOWN | LEDS_SEQ_DISABLED | LEDS_SEQ_ENABLED
datatype leds_state = LEDS_OFF | LEDS_NOTIFICATIONS | LEDS_BATTERY
datatype light_status = LIGHT_SUCCESS | LIGHT_NOT_SUPPORTED

text \<open>One write to a file: the numbers are the LED, from 0 to 8, or the sequencer, from 1 to 3.\<close>

datatype light_write =
    Backlight1 u32
  | Backlight2 u32
  | LedBrightness nat u32
  | LedCurrent nat u32
  | SequencerMode nat string
  | SequencerRun nat string
  | SequencerLoad string
  | WriteFile string string

record lights =
  mNotificationBrightness :: "string list"
  mNotificationCurrent :: "string list"
  mAttentionState :: light_state
  mBatteryState :: light_state
  mNotificationState :: light_state
  mLightsARGB :: u32
  mLightsBrightness :: u32
  mLightsDelayOn :: int
  mLightsDelayOff :: int
  mLightsState :: leds_state
  mSequencer1State :: leds_sequencers
  mSequencer2State :: leds_sequencers
  mSequencer3State :: leds_sequencers
  mSequencerProgramTarget :: nat
  light_writes :: "light_write list"

definition lwrite :: "light_write \<Rightarrow> lights \<Rightarrow> lights" where
  "lwrite e s = s\<lparr>light_writes := light_writes s @ [e]\<rparr>"

definition lwrites :: "light_write list \<Rightarrow> lights \<Rightarrow> lights" where
  "lwrites es s = s\<lparr>light_writes := light_writes s @ es\<rparr>"

section \<open>Colours\<close>

definition rgbToBrightness :: "light_state \<Rightarrow> u32" where
  "rgbToBrightness state =
     (let c = color state AND 0x00ffffff
      in drop_bit 8 (77 * (drop_bit 16 c AND 0xff) + 150 * (drop_bit 8 c AND 0xff) + 29 * (c AND 0xff)))"

definition isLit :: "light_state \<Rightarrow> bool" where
  "isLit state \<longleftrightarrow> color state AND 0x00ffffff \<noteq> 0"

text \<open>The components red, green and blue, and the brightness in the highest byte.\<close>

definition led_rgb :: "u32 \<Rightarrow> u32 list" where
  "led_rgb argb = [drop_bit 16 argb AND 0xFF, drop_bit 8 argb AND 0xFF, argb AND 0xFF]"

definition leds_brightness :: "u32 \<Rightarrow> u32" where
  "leds_brightness argb = drop_bit 24 (argb AND 0xFF000000)"

section \<open>Constants\<close>

definition leds_colors :: string where
  "leds_colors = ''RGB''"

definition leds_currents :: "u32 list list" where
  "leds_currents = [[52, 66, 48], [54, 66, 52], [50, 66, 46]]"

definition leds_map :: "nat list list" where
  "leds_map = [[6, 3, 0], [7, 4, 1], [8, 5, 2]]"

section \<open>The backlight\<close>

definition lcd_limit :: "u32 \<Rightarrow> u32" where
  "lcd_limit brightness =
     (if brightness \<le> 0 then 0 else if brightness < 1 then 1 else if 255 < brightness then 255 else brightness)"

definition lcd_curve :: "u32 \<Rightarrow> u32" where
  "lcd_curve brightness =
     (if brightness = 0 then 0
      else if brightness < 128 then 1 + brightness div 2
      else 1 + 128 div 2 + ((brightness - 128) * (255 - 128 div 2 - 1)) div (255 - 128))"

definition setBacklight :: "light_state \<Rightarrow> lights \<Rightarrow> lights" where
  "setBacklight state s =
     (let brightness = lcd_curve (lcd_limit (rgbToBrightness state))
      in lwrites [Backlight1 brightness, Backlight2 brightness] s)"

section \<open>One unit of the LED\<close>

definition current_ratio :: "leds_state \<Rightarrow> u32 \<Rightarrow> u32" where
  "current_ratio st brightness =
     (if st = LEDS_BATTERY then 127
      else if 0 < brightness then min ((255 * brightness) div 255) 255
      else 255)"

definition led_current :: "leds_state \<Rightarrow> u32 \<Rightarrow> u32 \<Rightarrow> nat \<Rightarrow> nat \<Rightarrow> u32" where
  "led_current st brightness x i c =
     (let y = (x * current_ratio st brightness) div 255; z = (y * leds_currents ! (i - 1) ! c) div 255
      in if z < 1 \<and> 0 < x then 1 else z)"

definition writeLightsLED :: "nat \<Rightarrow> u32 list \<Rightarrow> u32 \<Rightarrow> leds_rgbupdate \<Rightarrow> lights \<Rightarrow> lights" where
  "writeLightsLED i leds_rgb brightness leds_rgb_update s =
     (if leds_rgb_update = LEDS_RGB_KEEP then s
      else fold (\<lambda>c s. let il = (i - 1) * 3 + c
             in lwrites [LedBrightness il (if leds_rgb ! c \<noteq> 0 then 255 else 0),
                         LedCurrent il (led_current (mLightsState s) brightness (leds_rgb ! c) i c)] s) [0..<3] s)"

section \<open>The sequencer\<close>

fun prog_hex :: "nat \<Rightarrow> string" where
  "prog_hex n = (if n < 16 then [''0123456789abcdef'' ! n] else prog_hex (n div 16) @ [''0123456789abcdef'' ! (n mod 16)])"

declare prog_hex.simps [simp del]

definition hex_pad :: "nat \<Rightarrow> nat \<Rightarrow> string" where
  "hex_pad w n = replicate (w - length (prog_hex n)) CHR ''0'' @ prog_hex n"

text \<open>
  A delay in steps of the sequencer, \<open>13.0f * delay / 1000.0\<close> cut to an unsigned number and limited to 63.
  Where the product is not exact as a float it is far above the limit. A negative number that is not cut to
  0 has no unsigned value, and the conversion is undefined.
\<close>

definition seq_steps :: "int \<Rightarrow> nat option" where
  "seq_steps ms = (if 13 * ms \<le> - 1000 then None else Some (min (nat (13 * ms div 1000)) 63))"

text \<open>The program, as far as it fits the buffer of 180 bytes.\<close>

definition sequencer_program :: "nat \<Rightarrow> nat \<Rightarrow> nat \<Rightarrow> nat \<Rightarrow> nat \<Rightarrow> string" where
  "sequencer_program v0 v1 v2 v3 target =
     take 179 (''000e0e9d009c0e9c8f9d80'' @ hex_pad 2 v0 @ ''ff9dc0'' @ hex_pad 2 v1 @ ''ff9d80'' @ hex_pad 2 v2 @ ''ff9dc0'' @
       hex_pad 2 v3 @ ''ff9d80a004c00000000'' @ hex_pad 3 target)"

definition writeLightsProgram :: "nat \<Rightarrow> int \<Rightarrow> int \<Rightarrow> lights \<Rightarrow> lights option" where
  "writeLightsProgram leds_program_target delayOn delayOff s =
     (case (seq_steps delayOn, seq_steps delayOff) of
        (Some v1, Some v3) \<Rightarrow>
          Some (lwrite (SequencerLoad (sequencer_program (min 2 255 AND 0b11111110) v1 (min 3 255 OR 0b00000001) v3
            leds_program_target)) s)
      | _ \<Rightarrow> None)"

definition sequencer_off :: "nat \<Rightarrow> light_write list" where
  "sequencer_off n = [SequencerRun n ''hold'', SequencerMode n ''disabled'']"

definition disable_unused :: "lights \<Rightarrow> lights" where
  "disable_unused s =
     (let s1 = (if mSequencer2State s \<noteq> LEDS_SEQ_DISABLED
                then lwrites (sequencer_off 2) s\<lparr>mSequencer2State := LEDS_SEQ_DISABLED\<rparr> else s)
      in if mSequencer3State s1 \<noteq> LEDS_SEQ_DISABLED
         then lwrites (sequencer_off 3) s1\<lparr>mSequencer3State := LEDS_SEQ_DISABLED\<rparr> else s1)"

text \<open>The switch over the flash mode.\<close>

definition flash_program :: "leds_pupdate \<Rightarrow> nat \<Rightarrow> flash \<Rightarrow> int \<Rightarrow> int \<Rightarrow> lights \<Rightarrow> lights option" where
  "flash_program update target mode delayOn delayOff s =
     (if mode = FlashTimed
      then if target \<noteq> 0
           then let write = (mSequencer1State s = LEDS_SEQ_UNKNOWN \<or> update = LEDS_PROGRAM_WRITE)
                in map_option (\<lambda>s1.
                     if mSequencer1State s1 \<noteq> LEDS_SEQ_ENABLED
                     then (lwrites [SequencerMode 1 ''reload'', SequencerRun 1 ''run''] s1)\<lparr>mSequencer1State := LEDS_SEQ_ENABLED\<rparr>
                     else s1)
                   (if write
                    then map_option (\<lambda>s1. s1\<lparr>mSequencer1State := LEDS_SEQ_DISABLED\<rparr>) (writeLightsProgram target delayOn delayOff s)
                    else Some s)
           else Some s
      else map_option (\<lambda>s1. (lwrites (sequencer_off 1) s1)\<lparr>mSequencer1State := LEDS_SEQ_DISABLED\<rparr>)
             (if target \<noteq> 0 \<and> update = LEDS_PROGRAM_WRITE then writeLightsProgram 0 delayOn delayOff s else Some s))"

definition setLightsProgram :: "leds_pupdate \<Rightarrow> nat \<Rightarrow> flash \<Rightarrow> int \<Rightarrow> int \<Rightarrow> lights \<Rightarrow> lights option" where
  "setLightsProgram update target mode delayOn delayOff s =
     map_option disable_unused (flash_program update target mode delayOn delayOff s)"

section \<open>The three lights of the LED\<close>

text \<open>
  Which units show the colour, and the flash mode and the delays to use: one unit is kept for the battery when it
  charges.
\<close>

definition charging_units ::
  "u32 \<Rightarrow> flash \<Rightarrow> int \<Rightarrow> int \<Rightarrow> lights \<Rightarrow> (nat \<times> nat \<times> flash \<times> int \<times> int \<times> lights) option" where
  "charging_units brightness mode delayOn delayOff s =
     (if isLit (mBatteryState s)
      then if mLightsState s = LEDS_BATTERY
           then if \<not> isLit (mNotificationState s)
                then map_option (\<lambda>s1.
                       if brightness = 100 then (1, 1, FlashTimed, 5000, 5000, s1) else (1, 1, mode, delayOn, delayOff, s1))
                     (setLightsProgram LEDS_PROGRAM_KEEP 0 mode 0 0
                       (fold (\<lambda>i. writeLightsLED i [0, 0, 0] 0 LEDS_RGB_WRITE) [2..<4] s))
                else Some (1, 1, mode, delayOn, delayOff, s)
           else Some (2, 3, mode, delayOn, delayOff,
                  (writeLightsLED 1 (led_rgb (color (mBatteryState s))) brightness LEDS_RGB_WRITE
                    (s\<lparr>mLightsState := LEDS_BATTERY\<rparr>))\<lparr>mLightsState := mLightsState s\<rparr>)
      else Some (1, 3, mode, delayOn, delayOff, s))"

definition single_unit ::
  "flash \<Rightarrow> int \<Rightarrow> int \<Rightarrow> lights \<Rightarrow> (nat \<times> nat \<times> flash \<times> int \<times> int \<times> lights) option" where
  "single_unit mode delayOn delayOff s =
     map_option (\<lambda>s1. (1, 1, mode, delayOn, delayOff, s1))
       (setLightsProgram LEDS_PROGRAM_KEEP 0 mode 0 0
         (fold (\<lambda>i. writeLightsLED i [0, 0, 0] 0 LEDS_RGB_WRITE) [2..<4] s))"

definition program_target :: "u32 list \<Rightarrow> nat \<Rightarrow> nat \<Rightarrow> nat" where
  "program_target rgb minid maxid =
     fold (\<lambda>c t. if 0 < rgb ! c then fold (\<lambda>i t. t OR push_bit (leds_map ! (i - 1) ! c) 1) [minid..<Suc maxid] t else t) [0..<3] 0"

text \<open>What has to be written, compared with the last time, and the new values to compare with.\<close>

definition store_delays :: "flash \<Rightarrow> int \<Rightarrow> int \<Rightarrow> lights \<Rightarrow> leds_pupdate \<times> leds_rgbupdate \<times> lights" where
  "store_delays mode delayOn delayOff s =
     (if delayOn \<noteq> mLightsDelayOn s \<or> delayOff \<noteq> mLightsDelayOff s
      then (if mode = FlashTimed then LEDS_PROGRAM_WRITE else LEDS_PROGRAM_KEEP,
            if mode = FlashTimed then LEDS_RGB_KEEP else LEDS_RGB_WRITE,
            s\<lparr>mLightsDelayOn := delayOn, mLightsDelayOff := delayOff\<rparr>)
      else (LEDS_PROGRAM_KEEP, LEDS_RGB_KEEP, s))"

definition detect_updates :: "nat \<Rightarrow> u32 \<Rightarrow> lights \<Rightarrow> leds_pupdate \<times> leds_rgbupdate \<Rightarrow> leds_pupdate \<times> leds_rgbupdate" where
  "detect_updates target argb s u =
     (if target \<noteq> mSequencerProgramTarget s then (LEDS_PROGRAM_WRITE, LEDS_RGB_WRITE)
      else if leds_brightness argb \<noteq> mLightsBrightness s then (fst u, LEDS_RGB_WRITE)
      else if argb \<noteq> mLightsARGB s then (fst u, LEDS_RGB_WRITE)
      else u)"

definition leds_modes :: nat where
  "leds_modes = 1"

definition setSpeakerLightLocked :: "light_state \<Rightarrow> lights \<Rightarrow> lights option" where
  "setSpeakerLightLocked state s =
     (let argb = color state; brightness = leds_brightness argb; rgb = led_rgb argb;
          mode = (if flashOnMs state = 0 \<or> flashOffMs state = 0 then FlashNone else flashMode state)
      in Option.bind
           (if leds_modes AND 1 \<noteq> 0 then charging_units brightness mode (flashOnMs state) (flashOffMs state) s
            else single_unit mode (flashOnMs state) (flashOffMs state) s)
           (\<lambda>(minid, maxid, mode, delayOn, delayOff, s1).
              case store_delays mode delayOn delayOff s1 of (pu, ru, s2) \<Rightarrow>
                (let target = program_target rgb minid maxid; u = detect_updates target argb s2 (pu, ru);
                     s3 = s2\<lparr>mLightsBrightness := brightness, mSequencerProgramTarget := target, mLightsARGB := argb\<rparr>;
                     s4 = fold (\<lambda>i. writeLightsLED i rgb brightness (snd u)) [minid..<Suc maxid] s3
                 in setLightsProgram (fst u) target mode delayOn delayOff s4)))"

definition setSpeakerBatteryLightLocked :: "lights \<Rightarrow> lights option" where
  "setSpeakerBatteryLightLocked s =
     (if isLit (mNotificationState s) then setSpeakerLightLocked (mNotificationState s) (s\<lparr>mLightsState := LEDS_NOTIFICATIONS\<rparr>)
      else if isLit (mAttentionState s) then setSpeakerLightLocked (mAttentionState s) s
      else setSpeakerLightLocked (mBatteryState s) (s\<lparr>mLightsState := LEDS_BATTERY\<rparr>))"

definition setAttentionLight :: "light_state \<Rightarrow> lights \<Rightarrow> lights option" where
  "setAttentionLight state s = setSpeakerBatteryLightLocked (s\<lparr>mAttentionState := state\<rparr>)"

definition setBatteryLight :: "light_state \<Rightarrow> lights \<Rightarrow> lights option" where
  "setBatteryLight state s = setSpeakerBatteryLightLocked (s\<lparr>mBatteryState := state\<rparr>)"

definition setNotificationLight :: "light_state \<Rightarrow> lights \<Rightarrow> lights option" where
  "setNotificationLight state s = setSpeakerBatteryLightLocked (s\<lparr>mNotificationState := state\<rparr>)"

section \<open>The service\<close>

text \<open>The handlers are kept in a table without an order; here they are in the order they were entered.\<close>

definition mLights :: "(light_type \<times> (light_state \<Rightarrow> lights \<Rightarrow> lights option)) list" where
  "mLights = [(ATTENTION, setAttentionLight), (BACKLIGHT, \<lambda>st s. Some (setBacklight st s)),
              (BATTERY, setBatteryLight), (NOTIFICATIONS, setNotificationLight)]"

definition setLight :: "light_type \<Rightarrow> light_state \<Rightarrow> lights \<Rightarrow> (light_status \<times> lights) option" where
  "setLight t state s =
     (case map_of mLights t of
        None \<Rightarrow> Some (LIGHT_NOT_SUPPORTED, s)
      | Some f \<Rightarrow> map_option (Pair LIGHT_SUCCESS) (f state s))"

definition getSupportedTypes :: "light_type list" where
  "getSupportedTypes = map fst mLights"

text \<open>\<open>snprintf\<close> with the length of the format as the size: two characters of it are replaced twice by one.\<close>

definition led_path :: "string \<Rightarrow> nat \<Rightarrow> char \<Rightarrow> string" where
  "led_path name i c =
     take (length (''/sys/class/leds/LED%d_%c/'' @ name) - 1)
       (''/sys/class/leds/LED'' @ decimal i @ ''_'' @ [c] @ ''/'' @ name)"

text \<open>
  The constructor; the first states of the lights are what the generated type has for a new object. The files of
  each unit are opened, and its colour and the current for effects are written.
\<close>

definition led_units :: "(nat \<times> nat) list" where
  "led_units = concat (map (\<lambda>i. map (Pair i) [0..<3]) [1..<4])"

definition light_new :: "light_state \<Rightarrow> light_state \<Rightarrow> light_state \<Rightarrow> lights" where
  "light_new attention battery notification =
     \<lparr>mNotificationBrightness = map (\<lambda>(i, c). led_path ''brightness'' i (leds_colors ! c)) led_units,
      mNotificationCurrent = map (\<lambda>(i, c). led_path ''led_current'' i (leds_colors ! c)) led_units,
      mAttentionState = attention, mBatteryState = battery, mNotificationState = notification,
      mLightsARGB = 0, mLightsBrightness = 0, mLightsDelayOn = - 1, mLightsDelayOff = - 1, mLightsState = LEDS_OFF,
      mSequencer1State = LEDS_SEQ_UNKNOWN, mSequencer2State = LEDS_SEQ_UNKNOWN, mSequencer3State = LEDS_SEQ_UNKNOWN,
      mSequencerProgramTarget = 0,
      light_writes = concat (map (\<lambda>(i, c).
        [WriteFile (led_path ''color_id'' i (leds_colors ! c)) [leds_colors ! c, CHR 0x00],
         WriteFile (led_path ''effects_current'' i (leds_colors ! c))
           (decimal (unat ((85 * leds_currents ! (i - 1) ! c) div 255)))]) led_units)\<rparr>"

text \<open>A sequence of calls of the framework.\<close>

fun set_lights :: "(light_type \<times> light_state) list \<Rightarrow> lights \<Rightarrow> lights option" where
  "set_lights [] s = Some s"
| "set_lights ((t, st) # cs) s = Option.bind (setLight t st s) (\<lambda>(_, s1). set_lights cs s1)"

end
