(* ===== verification/LightsProps.thy ===== *)
theory LightsProps
  imports Lights
begin

text \<open>
  The properties of the light service: what the files hold after any sequence of calls.
\<close>

section \<open>Traces\<close>

text \<open>What the last write of a kind has written.\<close>

primrec last_of :: "(light_write \<Rightarrow> 'v option) \<Rightarrow> light_write list \<Rightarrow> 'v option" where
  "last_of g [] = None"
| "last_of g (e # es) = (case last_of g es of None \<Rightarrow> g e | Some v \<Rightarrow> Some v)"

lemma last_of_append: "last_of g (ws @ es) = (case last_of g es of None \<Rightarrow> last_of g ws | Some v \<Rightarrow> Some v)"
  by (induction ws) (auto split: option.splits)

primrec led_of :: "nat \<Rightarrow> light_write \<Rightarrow> u32 option" where
  "led_of il (LedCurrent k v) = (if k = il then Some v else None)"
| "led_of il (Backlight1 v) = None"
| "led_of il (Backlight2 v) = None"
| "led_of il (LedBrightness k v) = None"
| "led_of il (SequencerMode n v) = None"
| "led_of il (SequencerRun n v) = None"
| "led_of il (SequencerLoad p) = None"
| "led_of il (WriteFile f x) = None"

datatype seq_file = ModeFile | RunFile | LoadFile

primrec seq_of :: "seq_file \<Rightarrow> light_write \<Rightarrow> string option" where
  "seq_of f (SequencerMode n v) = (if f = ModeFile \<and> n = 1 then Some v else None)"
| "seq_of f (SequencerRun n v) = (if f = RunFile \<and> n = 1 then Some v else None)"
| "seq_of f (SequencerLoad p) = (if f = LoadFile then Some p else None)"
| "seq_of f (LedCurrent k v) = None"
| "seq_of f (Backlight1 v) = None"
| "seq_of f (Backlight2 v) = None"
| "seq_of f (LedBrightness k v) = None"
| "seq_of f (WriteFile n x) = None"

section \<open>The operations on the trace\<close>

lemma lwrites_simps [simp]: "lwrites es (lwrites ds s) = lwrites (ds @ es) s" "lwrites [] s = s"
  "lwrite e s = lwrites [e] s" "light_writes (lwrites es s) = light_writes s @ es"
  by (simp_all add: lwrites_def lwrite_def)

lemma lwrites_fields [simp]:
  "mNotificationState (lwrites es s) = mNotificationState s" "mBatteryState (lwrites es s) = mBatteryState s"
  "mAttentionState (lwrites es s) = mAttentionState s" "mLightsARGB (lwrites es s) = mLightsARGB s"
  "mLightsBrightness (lwrites es s) = mLightsBrightness s" "mLightsDelayOn (lwrites es s) = mLightsDelayOn s"
  "mLightsDelayOff (lwrites es s) = mLightsDelayOff s" "mLightsState (lwrites es s) = mLightsState s"
  "mSequencer1State (lwrites es s) = mSequencer1State s" "mSequencer2State (lwrites es s) = mSequencer2State s"
  "mSequencer3State (lwrites es s) = mSequencer3State s" "mSequencerProgramTarget (lwrites es s) = mSequencerProgramTarget s"
  by (simp_all add: lwrites_def)

lemma lwrites_updates [simp]:
  "(lwrites es s)\<lparr>mLightsState := st\<rparr> = lwrites es (s\<lparr>mLightsState := st\<rparr>)"
  "(lwrites es s)\<lparr>mSequencer1State := q\<rparr> = lwrites es (s\<lparr>mSequencer1State := q\<rparr>)"
  by (cases s; simp add: lwrites_def)+

definition unit_writes :: "leds_state \<Rightarrow> nat \<Rightarrow> u32 list \<Rightarrow> u32 \<Rightarrow> light_write list" where
  "unit_writes st i rgb brightness = concat (map (\<lambda>c.
     [LedBrightness ((i - 1) * 3 + c) (if rgb ! c \<noteq> 0 then 255 else 0),
      LedCurrent ((i - 1) * 3 + c) (led_current st brightness (rgb ! c) i c)]) [0..<3])"

lemma writeLightsLED_eq:
  "writeLightsLED i rgb brightness u s = (if u = LEDS_RGB_KEEP then s else lwrites (unit_writes (mLightsState s) i rgb brightness) s)"
  by (simp add: writeLightsLED_def unit_writes_def Let_def upt_rec numeral_3_eq_3)

lemma write_units:
  "fold (\<lambda>i. writeLightsLED i rgb brightness u) is s =
     (if u = LEDS_RGB_KEEP then s else lwrites (concat (map (\<lambda>i. unit_writes (mLightsState s) i rgb brightness) is)) s)"
  by (induction "is" arbitrary: s) (simp_all add: writeLightsLED_eq)

lemma led_index: "c < 3 \<Longrightarrow> (i - 1) * 3 + c = il \<longleftrightarrow> il div 3 = i - 1 \<and> il mod 3 = c" for c :: nat
  by (metis div_mult_mod_eq div_mult_self3 mod_mult_self3 mod_less div_less add.left_neutral zero_neq_numeral add_0_right)

lemma unit_trace:
  "last_of (led_of il) (unit_writes st i rgb brightness) =
     (if il div 3 = i - 1 then Some (led_current st brightness (rgb ! (il mod 3)) i (il mod 3)) else None)"
  "last_of (seq_of f) (unit_writes st i rgb brightness) = None"
proof -
  have m: "il mod 3 = 0 \<or> il mod 3 = 1 \<or> il mod 3 = 2" by auto
  have "[0..<3] = [0, 1, 2 :: nat]" by (simp add: upt_rec numeral_3_eq_3)
  then have w: "unit_writes st i rgb brightness =
      [LedBrightness ((i - 1) * 3 + 0) (if rgb ! 0 \<noteq> 0 then 255 else 0), LedCurrent ((i - 1) * 3 + 0) (led_current st brightness (rgb ! 0) i 0),
       LedBrightness ((i - 1) * 3 + 1) (if rgb ! 1 \<noteq> 0 then 255 else 0), LedCurrent ((i - 1) * 3 + 1) (led_current st brightness (rgb ! 1) i 1),
       LedBrightness ((i - 1) * 3 + 2) (if rgb ! 2 \<noteq> 0 then 255 else 0), LedCurrent ((i - 1) * 3 + 2) (led_current st brightness (rgb ! 2) i 2)]"
    by (simp add: unit_writes_def)
  have k: "((i - 1) * 3 + 0 = il) = (il div 3 = i - 1 \<and> il mod 3 = 0)" "((i - 1) * 3 + 1 = il) = (il div 3 = i - 1 \<and> il mod 3 = 1)"
    "((i - 1) * 3 + 2 = il) = (il div 3 = i - 1 \<and> il mod 3 = 2)"
    by (rule led_index; simp)+
  show "last_of (led_of il) (unit_writes st i rgb brightness) =
     (if il div 3 = i - 1 then Some (led_current st brightness (rgb ! (il mod 3)) i (il mod 3)) else None)"
    unfolding w last_of.simps led_of.simps k using m by (elim disjE) simp_all
  show "last_of (seq_of f) (unit_writes st i rgb brightness) = None" unfolding w by simp
qed


text \<open>All that is kept of the calls before, the sequencer apart, and what the LED shows.\<close>

definition same_leds :: "lights \<Rightarrow> lights \<Rightarrow> bool" where
  "same_leds s s' \<longleftrightarrow>
     mNotificationState s' = mNotificationState s \<and> mBatteryState s' = mBatteryState s \<and> mAttentionState s' = mAttentionState s \<and>
     mLightsARGB s' = mLightsARGB s \<and> mLightsBrightness s' = mLightsBrightness s \<and> mLightsState s' = mLightsState s \<and>
     mLightsDelayOn s' = mLightsDelayOn s \<and> mLightsDelayOff s' = mLightsDelayOff s \<and>
     mSequencerProgramTarget s' = mSequencerProgramTarget s"

abbreviation shown :: "lights \<Rightarrow> nat \<Rightarrow> u32 option" where
  "shown s il \<equiv> last_of (led_of il) (light_writes s)"

abbreviation seq_text :: "lights \<Rightarrow> seq_file \<Rightarrow> string option" where
  "seq_text s f \<equiv> last_of (seq_of f) (light_writes s)"

definition program_for :: "nat \<Rightarrow> int \<Rightarrow> int \<Rightarrow> string option" where
  "program_for t a b =
     (case (seq_steps a, seq_steps b) of (Some v1, Some v3) \<Rightarrow> Some (sequencer_program 2 v1 3 v3 t) | _ \<Rightarrow> None)"

lemma writeLightsProgram_eq: "writeLightsProgram t a b s = map_option (\<lambda>p. lwrites [SequencerLoad p] s) (program_for t a b)"
  by (simp add: writeLightsProgram_def program_for_def split: option.split)

lemma disable_unused_simps:
  "same_leds s (disable_unused s)" "mSequencer1State (disable_unused s) = mSequencer1State s"
  "shown (disable_unused s) il = shown s il" "seq_text (disable_unused s) f = seq_text s f"
  by (simp_all add: disable_unused_def same_leds_def Let_def sequencer_off_def last_of_append)

text \<open>What a call does to the sequencer.\<close>

definition sequencer_step ::
  "leds_pupdate \<Rightarrow> nat \<Rightarrow> flash \<Rightarrow> int \<Rightarrow> int \<Rightarrow> lights \<Rightarrow> lights \<Rightarrow> bool" where
  "sequencer_step u t m a b s s' \<longleftrightarrow>
     (if m = FlashTimed
      then if t \<noteq> 0
           then mSequencer1State s' = LEDS_SEQ_ENABLED \<and>
                (if mSequencer1State s = LEDS_SEQ_UNKNOWN \<or> u = LEDS_PROGRAM_WRITE
                 then program_for t a b \<noteq> None \<and> seq_text s' LoadFile = program_for t a b
                 else seq_text s' LoadFile = seq_text s LoadFile) \<and>
                (if mSequencer1State s = LEDS_SEQ_ENABLED \<and> u \<noteq> LEDS_PROGRAM_WRITE
                 then seq_text s' ModeFile = seq_text s ModeFile \<and> seq_text s' RunFile = seq_text s RunFile
                 else seq_text s' ModeFile = Some ''reload'' \<and> seq_text s' RunFile = Some ''run'')
           else mSequencer1State s' = mSequencer1State s \<and> (\<forall>f. seq_text s' f = seq_text s f)
      else mSequencer1State s' = LEDS_SEQ_DISABLED \<and> seq_text s' ModeFile = Some ''disabled'' \<and> seq_text s' RunFile = Some ''hold'' \<and>
           seq_text s' LoadFile = (if t \<noteq> 0 \<and> u = LEDS_PROGRAM_WRITE then program_for 0 a b else seq_text s LoadFile))"

lemma same_leds_trans: "same_leds s s1 \<Longrightarrow> same_leds s1 s2 \<Longrightarrow> same_leds s s2"
  by (simp add: same_leds_def)

lemma program_step:
  assumes "setLightsProgram u t m a b s = Some s'"
  shows "same_leds s s'" "shown s' il = shown s il" "sequencer_step u t m a b s s'"
proof -
  from assms obtain s1 where s1: "s' = disable_unused s1" and
    r: "flash_program u t m a b s = Some s1"
    unfolding setLightsProgram_def by blast
  have k: "same_leds s s1 \<and> shown s1 il = shown s il \<and> sequencer_step u t m a b s s1"
  proof (cases "m = FlashTimed")
    case True
    then show ?thesis using r
      by (cases "mSequencer1State s"; cases u; cases "t = 0")
        (auto simp: flash_program_def writeLightsProgram_eq last_of_append sequencer_step_def same_leds_def)
  next
    case False
    then show ?thesis using r
      by (auto simp: flash_program_def writeLightsProgram_eq last_of_append sequencer_off_def sequencer_step_def same_leds_def split: if_splits)
  qed
  then show "same_leds s s'" "shown s' il = shown s il" unfolding s1
    using disable_unused_simps same_leds_trans by auto
  show "sequencer_step u t m a b s s'" using k unfolding s1 sequencer_step_def disable_unused_simps(2,4) by simp
qed

lemma program_total:
  assumes "program_for t a b \<noteq> None" "program_for 0 a b \<noteq> None"
  shows "\<exists>s'. setLightsProgram u t m a b s = Some s'"
  using assms by (auto simp: setLightsProgram_def flash_program_def Let_def writeLightsProgram_eq)

lemma program_for_Some: "0 \<le> a \<Longrightarrow> 0 \<le> b \<Longrightarrow> program_for t a b \<noteq> None"
  by (simp add: program_for_def seq_steps_def)


section \<open>Colours and units\<close>

abbreviation lit :: "u32 \<Rightarrow> bool" where
  "lit argb \<equiv> argb AND 0x00ffffff \<noteq> 0"

lemma masks: "(0xff :: u32) = mask 8" "(0xffffff :: u32) = mask 24"
  by (simp_all add: mask_eq_exp_minus_1)

lemma low_bits:
  fixes w :: u32
  assumes "k \<le> 32"
  shows "w AND mask k = 0 \<longleftrightarrow> (\<forall>n < k. \<not> bit w n)"
  using assms by (auto simp: bit_eq_iff bit_simps) (drule_tac x = n in spec, simp)

lemma lit_bytes: "lit argb \<longleftrightarrow> (\<exists>c < 3. 0 < led_rgb argb ! c)"
proof -
  have e: "led_rgb argb ! 0 = drop_bit 16 argb AND 0xff" "led_rgb argb ! 1 = drop_bit 8 argb AND 0xff"
    "led_rgb argb ! 2 = argb AND 0xff"
    unfolding led_rgb_def by simp_all
  have lb: "w AND mask 8 = 0 \<longleftrightarrow> (\<forall>n < 8. \<not> bit w n)" for w :: u32 by (rule low_bits) simp
  have "argb AND 0x00ffffff = 0 \<longleftrightarrow> (\<forall>n < 24. \<not> bit argb n)"
    unfolding masks by (rule low_bits) simp
  also have "\<dots> \<longleftrightarrow> (\<forall>n < 8. \<not> bit argb (16 + n)) \<and> (\<forall>n < 8. \<not> bit argb (8 + n)) \<and> (\<forall>n < 8. \<not> bit argb n)"
  proof (intro iffI conjI; clarsimp)
    fix n :: nat
    assume a: "\<forall>n < 8. \<not> bit argb (16 + n)" "\<forall>n < 8. \<not> bit argb (8 + n)" "\<forall>n < 8. \<not> bit argb n" "n < 24" "bit argb n"
    consider "n < 8" | "n = 8 + (n - 8)" "n - 8 < 8" | "n = 16 + (n - 16)" "n - 16 < 8" using a(4) by linarith
    then show False using a(1-3,5) by cases metis+
  qed
  also have "\<dots> \<longleftrightarrow> drop_bit 16 argb AND 0xff = 0 \<and> drop_bit 8 argb AND 0xff = 0 \<and> argb AND 0xff = 0"
    unfolding masks lb bit_drop_bit_eq by simp
  finally have f: "argb AND 0x00ffffff = 0 \<longleftrightarrow> led_rgb argb ! 0 = 0 \<and> led_rgb argb ! 1 = 0 \<and> led_rgb argb ! 2 = 0"
    unfolding e .
  have k: "(\<exists>c < 3. P c) \<longleftrightarrow> P 0 \<or> P 1 \<or> P 2" for P :: "nat \<Rightarrow> bool"
  proof -
    have "c < 3 \<longleftrightarrow> c = 0 \<or> c = 1 \<or> c = 2" for c :: nat by linarith
    then show ?thesis by auto
  qed
  show ?thesis unfolding k word_gt_0 using f by metis
qed

lemma led_current_dark [simp]: "led_current st brightness 0 u c = 0"
  by (simp add: led_current_def)

lemma led_current_battery: "led_current LEDS_BATTERY b x u c = led_current LEDS_BATTERY 0 x u c"
  by (simp add: led_current_def current_ratio_def)

definition unit_ranges :: "(nat \<times> nat) set" where
  "unit_ranges = {(1, 3), (1, 1), (2, 3)}"

text \<open>The program target says which units show a lit colour.\<close>

lemma program_target_eqs:
  "program_target [r, g, b] 1 1 = (if 0 < r then 64 else 0) + (if 0 < g then 8 else 0) + (if 0 < b then 1 else 0)"
  "program_target [r, g, b] 2 3 = (if 0 < r then 384 else 0) + (if 0 < g then 48 else 0) + (if 0 < b then 6 else 0)"
  "program_target [r, g, b] 1 3 = (if 0 < r then 448 else 0) + (if 0 < g then 56 else 0) + (if 0 < b then 7 else 0)"
proof -
  have u: "[0..<3] = [0, 1, 2 :: nat]" "[1..<Suc 1] = [1 :: nat]" "[2..<Suc 3] = [2, 3 :: nat]" "[1..<Suc 3] = [1, 2, 3 :: nat]"
    by (simp_all add: upt_rec numeral_2_eq_2 numeral_3_eq_3)
  show "program_target [r, g, b] 1 1 = (if 0 < r then 64 else 0) + (if 0 < g then 8 else 0) + (if 0 < b then 1 else 0)"
    "program_target [r, g, b] 2 3 = (if 0 < r then 384 else 0) + (if 0 < g then 48 else 0) + (if 0 < b then 6 else 0)"
    "program_target [r, g, b] 1 3 = (if 0 < r then 448 else 0) + (if 0 < g then 56 else 0) + (if 0 < b then 7 else 0)"
    unfolding program_target_def u by (simp_all add: leds_map_def push_bit_of_1)
qed

lemma program_target_range:
  assumes "program_target (led_rgb argb) a b = program_target (led_rgb argb) a' b'" "lit argb"
    and "(a, b) \<in> unit_ranges" "(a', b') \<in> unit_ranges"
  shows "a = a'" "b = b'"
proof -
  obtain x y z where rgb: "led_rgb argb = [x, y, z]" by (simp add: led_rgb_def)
  have "0 < x \<or> 0 < y \<or> 0 < z" using assms(2) unfolding lit_bytes rgb by (auto simp: numeral_3_eq_3 less_Suc_eq)
  moreover have "a = 1 \<and> b = 3 \<or> a = 1 \<and> b = 1 \<or> a = 2 \<and> b = 3" "a' = 1 \<and> b' = 3 \<or> a' = 1 \<and> b' = 1 \<or> a' = 2 \<and> b' = 3"
    using assms(3,4) by (auto simp: unit_ranges_def)
  ultimately have "a = a' \<and> b = b'" using assms(1) unfolding rgb
    by (elim disjE; simp only: program_target_eqs; simp split: if_splits)
  then show "a = a'" "b = b'" by simp_all
qed

lemma program_target_dark: "program_target (led_rgb argb) a b \<noteq> 0" if "(a, b) \<in> unit_ranges" "lit argb"
proof -
  obtain x y z where rgb: "led_rgb argb = [x, y, z]" by (simp add: led_rgb_def)
  have "0 < x \<or> 0 < y \<or> 0 < z" using that(2) unfolding lit_bytes rgb by (auto simp: numeral_3_eq_3 less_Suc_eq)
  moreover have "a = 1 \<and> b = 3 \<or> a = 1 \<and> b = 1 \<or> a = 2 \<and> b = 3" using that(1) by (auto simp: unit_ranges_def)
  ultimately show ?thesis unfolding rgb
    by (elim disjE; simp only: program_target_eqs; simp)
qed


section \<open>Which units show the light\<close>

lemma unit_index:
  fixes u c :: nat
  assumes "c < 3"
  shows "((u - 1) * 3 + c) div 3 = u - 1" "((u - 1) * 3 + c) mod 3 = c"
  using assms by simp_all

lemma shown_units:
  "shown (fold (\<lambda>i. writeLightsLED i rgb br u) us s) il =
     (if u \<noteq> LEDS_RGB_KEEP \<and> il div 3 \<in> (\<lambda>i. i - 1) ` set us
      then Some (led_current (mLightsState s) br (rgb ! (il mod 3)) (il div 3 + 1) (il mod 3)) else shown s il)"
  if "\<forall>i \<in> set us. 1 \<le> i"
  using that
proof (induction us arbitrary: s)
  case (Cons i js)
  have "i = il div 3 + 1 \<longleftrightarrow> il div 3 = i - 1" using Cons.prems by auto
  with Cons show ?case by (auto simp: writeLightsLED_eq last_of_append unit_trace)
qed simp

lemma unit_frame [simp]:
  "seq_text (writeLightsLED i rgb br u s) f = seq_text s f"
  "mSequencer1State (writeLightsLED i rgb br u s) = mSequencer1State s"
  by (simp_all add: writeLightsLED_eq last_of_append unit_trace)

lemma seq_units: "seq_text (fold (\<lambda>i. writeLightsLED i rgb br u) is s) f = seq_text s f"
  by (induction "is" arbitrary: s) simp_all

lemma same_units:
  "same_leds s (fold (\<lambda>i. writeLightsLED i rgb br u) is s)"
  "mSequencer1State (fold (\<lambda>i. writeLightsLED i rgb br u) is s) = mSequencer1State s"
  by (simp_all add: write_units same_leds_def)

definition charging_range :: "lights \<Rightarrow> nat \<times> nat" where
  "charging_range s = (if isLit (mBatteryState s) then if mLightsState s = LEDS_BATTERY then (1, 1) else (2, 3) else (1, 3))"

lemma charging_outcome:
  assumes "charging_units br m on off s = Some (a, b, m', on', off', s1)"
  shows "same_leds s s1" "(a, b) = charging_range s"
    "a \<le> u \<Longrightarrow> u \<le> b \<Longrightarrow> c < 3 \<Longrightarrow> shown s1 ((u - 1) * 3 + c) = shown s ((u - 1) * 3 + c)"
    "isLit (mBatteryState s) \<Longrightarrow> mLightsState s \<noteq> LEDS_BATTERY \<Longrightarrow> c < 3 \<Longrightarrow>
       shown s1 c = Some (led_current LEDS_BATTERY 0 (led_rgb (color (mBatteryState s)) ! c) 1 c)"
    "isLit (mBatteryState s) \<Longrightarrow> mLightsState s = LEDS_BATTERY \<Longrightarrow> \<not> isLit (mNotificationState s) \<Longrightarrow>
       2 \<le> u \<Longrightarrow> u \<le> 3 \<Longrightarrow> c < 3 \<Longrightarrow> shown s1 ((u - 1) * 3 + c) = Some 0"
    "mSequencer1State s1 = mSequencer1State s \<and> (\<forall>f. seq_text s1 f = seq_text s f) \<or>
     mSequencer1State s1 = LEDS_SEQ_DISABLED \<and> seq_text s1 ModeFile = Some ''disabled'' \<and> seq_text s1 RunFile = Some ''hold'' \<and>
       seq_text s1 LoadFile = seq_text s LoadFile"
    "(m', on', off') = (m, on, off) \<or> (m', on', off') = (FlashTimed, 5000, 5000)"
proof -
  let ?off = "fold (\<lambda>i. writeLightsLED i [0, 0, 0] 0 LEDS_RGB_WRITE) [2..<4] s"
  let ?bat = "(writeLightsLED 1 (led_rgb (color (mBatteryState s))) br LEDS_RGB_WRITE (s\<lparr>mLightsState := LEDS_BATTERY\<rparr>))
    \<lparr>mLightsState := mLightsState s\<rparr>"
  have four: "[2..<4] = [2, 3 :: nat]" by (simp add: upt_rec)
  consider (off) "isLit (mBatteryState s)" "mLightsState s = LEDS_BATTERY" "\<not> isLit (mNotificationState s)"
      "setLightsProgram LEDS_PROGRAM_KEEP 0 m 0 0 ?off = Some s1" "a = 1" "b = 1"
      "(m', on', off') = (m, on, off) \<or> (m', on', off') = (FlashTimed, 5000, 5000)"
    | (keep) "isLit (mBatteryState s)" "mLightsState s = LEDS_BATTERY" "isLit (mNotificationState s)" "s1 = s" "a = 1" "b = 1"
      "(m', on', off') = (m, on, off)"
    | (bat) "isLit (mBatteryState s)" "mLightsState s \<noteq> LEDS_BATTERY" "s1 = ?bat" "a = 2" "b = 3" "(m', on', off') = (m, on, off)"
    | (none) "\<not> isLit (mBatteryState s)" "s1 = s" "a = 1" "b = 3" "(m', on', off') = (m, on, off)"
    using assms by (auto simp: charging_units_def split: if_splits)
  then have "same_leds s s1 \<and> (a, b) = charging_range s \<and>
    (a \<le> u \<and> u \<le> b \<and> c < 3 \<longrightarrow> shown s1 ((u - 1) * 3 + c) = shown s ((u - 1) * 3 + c)) \<and>
    (isLit (mBatteryState s) \<and> mLightsState s \<noteq> LEDS_BATTERY \<and> c < 3 \<longrightarrow>
       shown s1 c = Some (led_current LEDS_BATTERY 0 (led_rgb (color (mBatteryState s)) ! c) 1 c)) \<and>
    (isLit (mBatteryState s) \<and> mLightsState s = LEDS_BATTERY \<and> \<not> isLit (mNotificationState s) \<and>
       2 \<le> u \<and> u \<le> 3 \<and> c < 3 \<longrightarrow> shown s1 ((u - 1) * 3 + c) = Some 0) \<and>
    (mSequencer1State s1 = mSequencer1State s \<and> (\<forall>f. seq_text s1 f = seq_text s f) \<or>
     mSequencer1State s1 = LEDS_SEQ_DISABLED \<and> seq_text s1 ModeFile = Some ''disabled'' \<and> seq_text s1 RunFile = Some ''hold'' \<and>
       seq_text s1 LoadFile = seq_text s LoadFile) \<and>
    ((m', on', off') = (m, on, off) \<or> (m', on', off') = (FlashTimed, 5000, 5000))"
  proof cases
    case off
    note p = program_step [OF off(4)]
    have same: "same_leds s s1" using same_leds_trans [OF same_units(1) p(1)] by simp
    have led: "shown s1 il = (if il div 3 \<in> {1, 2} then Some 0 else shown s il)" for il
      using p(2) [of il] shown_units [where us = "[2..<4]" and rgb = "[0, 0, 0]" and br = 0 and u = LEDS_RGB_WRITE and s = s and il = il] unfolding four
      by (auto simp: nth_Cons' split: if_splits)
    have seq: "mSequencer1State s1 = mSequencer1State s \<and> (\<forall>f. seq_text s1 f = seq_text s f) \<or>
     mSequencer1State s1 = LEDS_SEQ_DISABLED \<and> seq_text s1 ModeFile = Some ''disabled'' \<and> seq_text s1 RunFile = Some ''hold'' \<and>
       seq_text s1 LoadFile = seq_text s LoadFile"
      using p(3) by (auto simp: sequencer_step_def seq_units same_units split: if_splits)
    have i: "((u - 1) * 3 + c) div 3 = u - 1" if "c < 3" using unit_index(1) [OF that] .
    show ?thesis using same led seq off i by (auto simp: charging_range_def)
  next
    case bat
    have "shown s1 il = (if il div 3 = 0 then Some (led_current LEDS_BATTERY 0 (led_rgb (color (mBatteryState s)) ! (il mod 3)) 1 (il mod 3))
        else shown s il)" for il
      using bat(3) by (simp add: writeLightsLED_eq last_of_append unit_trace led_current_battery [of br])
    moreover have "((u - 1) * 3 + c) div 3 = u - 1" if "c < 3" using unit_index(1) [OF that] .
    ultimately show ?thesis using bat
      by (auto simp: charging_range_def same_leds_def writeLightsLED_eq last_of_append unit_trace
          intro: led_current_battery [of br, unfolded One_nat_def])
  qed (auto simp: charging_range_def same_leds_def)
  then show "same_leds s s1" "(a, b) = charging_range s"
    "a \<le> u \<Longrightarrow> u \<le> b \<Longrightarrow> c < 3 \<Longrightarrow> shown s1 ((u - 1) * 3 + c) = shown s ((u - 1) * 3 + c)"
    "isLit (mBatteryState s) \<Longrightarrow> mLightsState s \<noteq> LEDS_BATTERY \<Longrightarrow> c < 3 \<Longrightarrow>
       shown s1 c = Some (led_current LEDS_BATTERY 0 (led_rgb (color (mBatteryState s)) ! c) 1 c)"
    "isLit (mBatteryState s) \<Longrightarrow> mLightsState s = LEDS_BATTERY \<Longrightarrow> \<not> isLit (mNotificationState s) \<Longrightarrow>
       2 \<le> u \<Longrightarrow> u \<le> 3 \<Longrightarrow> c < 3 \<Longrightarrow> shown s1 ((u - 1) * 3 + c) = Some 0"
    "mSequencer1State s1 = mSequencer1State s \<and> (\<forall>f. seq_text s1 f = seq_text s f) \<or>
     mSequencer1State s1 = LEDS_SEQ_DISABLED \<and> seq_text s1 ModeFile = Some ''disabled'' \<and> seq_text s1 RunFile = Some ''hold'' \<and>
       seq_text s1 LoadFile = seq_text s LoadFile"
    "(m', on', off') = (m, on, off) \<or> (m', on', off') = (FlashTimed, 5000, 5000)"
    by blast+
qed

end
