(* ===== verification/LightsLeds.thy ===== *)
theory LightsLeds
  imports LightsProps
begin

text \<open>
  One call of the handler of the LED, the invariants of the service, and its properties.
\<close>

section \<open>One call\<close>

abbreviation flash_mode :: "light_state \<Rightarrow> flash" where
  "flash_mode st \<equiv> (if flashOnMs st = 0 \<or> flashOffMs st = 0 then FlashNone else flashMode st)"

text \<open>The updates that are found, for a colour, the units that show it, a mode and delays.\<close>

definition updates :: "nat \<Rightarrow> u32 \<Rightarrow> flash \<Rightarrow> int \<Rightarrow> int \<Rightarrow> lights \<Rightarrow> leds_pupdate \<times> leds_rgbupdate" where
  "updates t argb m on off s =
     (case store_delays m on off s of (pu, ru, _) \<Rightarrow> detect_updates t argb s (pu, ru))"

lemma speaker_step:
  assumes "setSpeakerLightLocked st s = Some s'"
  shows "\<exists>a b m on off s1 s4.
    charging_units (leds_brightness (color st)) (flash_mode st) (flashOnMs st) (flashOffMs st) s = Some (a, b, m, on, off, s1) \<and>
    mNotificationState s' = mNotificationState s \<and> mBatteryState s' = mBatteryState s \<and> mAttentionState s' = mAttentionState s \<and>
    mLightsState s' = mLightsState s \<and> mLightsARGB s' = color st \<and> mLightsBrightness s' = leds_brightness (color st) \<and>
    mSequencerProgramTarget s' = program_target (led_rgb (color st)) a b \<and> mLightsDelayOn s' = on \<and> mLightsDelayOff s' = off \<and>
    (\<forall>il. shown s' il =
       (if snd (updates (program_target (led_rgb (color st)) a b) (color st) m on off s1) \<noteq> LEDS_RGB_KEEP \<and>
           a \<le> il div 3 + 1 \<and> il div 3 + 1 \<le> b
        then Some (led_current (mLightsState s) (leds_brightness (color st)) (led_rgb (color st) ! (il mod 3)) (il div 3 + 1) (il mod 3))
        else shown s1 il)) \<and>
    mSequencer1State s4 = mSequencer1State s1 \<and> (\<forall>f. seq_text s4 f = seq_text s1 f) \<and>
    sequencer_step (fst (updates (program_target (led_rgb (color st)) a b) (color st) m on off s1))
      (program_target (led_rgb (color st)) a b) m on off s4 s'"
proof -
  let ?rgb = "led_rgb (color st)" and ?br = "leds_brightness (color st)"
  have "leds_modes AND 1 \<noteq> 0" by (simp add: leds_modes_def)
  with assms obtain a b m on off s1 where
    C: "charging_units ?br (flash_mode st) (flashOnMs st) (flashOffMs st) s = Some (a, b, m, on, off, s1)" and
    R: "(case store_delays m on off s1 of (pu, ru, s2) \<Rightarrow>
                (let target = program_target ?rgb a b; u = detect_updates target (color st) s2 (pu, ru);
                     s3 = s2\<lparr>mLightsBrightness := ?br, mSequencerProgramTarget := target, mLightsARGB := color st\<rparr>;
                     s4 = fold (\<lambda>i. writeLightsLED i ?rgb ?br (snd u)) [a..<Suc b] s3
                 in setLightsProgram (fst u) target m on off s4)) = Some s'"
    by (auto simp: setSpeakerLightLocked_def Let_def Option.bind_eq_Some_conv)
  obtain pu ru s2 where S: "store_delays m on off s1 = (pu, ru, s2)" by (cases "store_delays m on off s1")
  have s2: "s2 = s1\<lparr>mLightsDelayOn := on, mLightsDelayOff := off\<rparr>"
    using S by (auto simp: store_delays_def split: if_splits)
  let ?t = "program_target ?rgb a b"
  have u: "updates ?t (color st) m on off s1 = detect_updates ?t (color st) s2 (pu, ru)"
    using S by (simp add: updates_def detect_updates_def s2)
  define s3 where "s3 = s2\<lparr>mLightsBrightness := ?br, mSequencerProgramTarget := ?t, mLightsARGB := color st\<rparr>"
  define s4 where "s4 = fold (\<lambda>i. writeLightsLED i ?rgb ?br (snd (updates ?t (color st) m on off s1))) [a..<Suc b] s3"
  have P: "setLightsProgram (fst (updates ?t (color st) m on off s1)) ?t m on off s4 = Some s'"
    using R unfolding S by (simp add: Let_def u s4_def s3_def)
  note p = program_step [OF P]
  note c = charging_outcome [OF C]
  have leds: "same_leds s3 s'" using same_leds_trans [OF same_units(1) p(1) [unfolded s4_def]] .
  have "(a, b) \<in> unit_ranges" unfolding c(2) by (simp add: charging_range_def unit_ranges_def)
  then have a: "\<forall>i \<in> set [a..<Suc b]. 1 \<le> i" by (auto simp: unit_ranges_def)
  have "il div 3 \<in> (\<lambda>i. i - 1) ` set [a..<Suc b] \<longleftrightarrow> a \<le> il div 3 + 1 \<and> il div 3 + 1 \<le> b" for il
  proof -
    have "il div 3 \<in> (\<lambda>i. i - 1) ` set [a..<Suc b] \<longleftrightarrow> (\<exists>i. a \<le> i \<and> i \<le> b \<and> il div 3 = i - 1)" by auto
    also have "\<dots> \<longleftrightarrow> a \<le> il div 3 + 1 \<and> il div 3 + 1 \<le> b"
      using a by (metis add_diff_cancel_right' add.commute le_add_diff_inverse atLeastLessThan_iff less_Suc_eq_le set_upt)
    finally show ?thesis .
  qed
  then have led: "shown s' il =
       (if snd (updates ?t (color st) m on off s1) \<noteq> LEDS_RGB_KEEP \<and> a \<le> il div 3 + 1 \<and> il div 3 + 1 \<le> b
        then Some (led_current (mLightsState s) ?br (?rgb ! (il mod 3)) (il div 3 + 1) (il mod 3))
        else shown s1 il)" for il
    using p(2) [of il] shown_units [OF a, of il ?rgb ?br _ s3] c(1) unfolding s4_def
    by (simp add: s3_def s2 same_leds_def)
  show ?thesis
    by (intro exI [of _ a] exI [of _ b] exI [of _ m] exI [of _ on] exI [of _ off] exI [of _ s1] exI [of _ s4] conjI allI)
      (use C leds c(1) led p(3) in \<open>simp_all add: s4_def same_leds_def s3_def s2 seq_units same_units\<close>)
qed


section \<open>What the LED shows\<close>

text \<open>A channel that was never written is dark.\<close>

definition glows :: "u32 option \<Rightarrow> u32 \<Rightarrow> bool" where
  "glows v x \<longleftrightarrow> v = Some x \<or> v = None \<and> x = 0"

abbreviation glows_in :: "lights \<Rightarrow> leds_state \<Rightarrow> u32 \<Rightarrow> nat \<Rightarrow> nat \<Rightarrow> bool" where
  "glows_in s st argb a b \<equiv> \<forall>u c. a \<le> u \<and> u \<le> b \<and> c < 3 \<longrightarrow>
     glows (shown s ((u - 1) * 3 + c)) (led_current st (leds_brightness argb) (led_rgb argb ! c) u c)"

text \<open>What the handler has kept describes what the LED shows.\<close>

definition memo_inv :: "lights \<Rightarrow> bool" where
  "memo_inv s \<longleftrightarrow> mLightsBrightness s = leds_brightness (mLightsARGB s) \<and>
     (\<exists>a b. (a, b) \<in> unit_ranges \<and> mSequencerProgramTarget s = program_target (led_rgb (mLightsARGB s)) a b \<and>
        (lit (mLightsARGB s) \<or> (a, b) = (1, 3)) \<and>
        (lit (mLightsARGB s) \<longrightarrow> mLightsState s = (if (a, b) = (1, 1) then LEDS_BATTERY else LEDS_NOTIFICATIONS)) \<and>
        glows_in s (mLightsState s) (mLightsARGB s) a b)"

lemma charging_range_unit: "charging_range s \<in> unit_ranges"
  by (simp add: charging_range_def unit_ranges_def)

lemma updates_keep:
  assumes "snd (updates t argb m on off s) = LEDS_RGB_KEEP"
  shows "t = mSequencerProgramTarget s" "argb = mLightsARGB s"
  using assms by (auto simp: updates_def store_delays_def detect_updates_def split: if_splits)

lemma unlit_dark:
  assumes "\<not> lit argb" "c < 3"
  shows "led_rgb argb ! c = 0"
  using assms lit_bytes [of argb] by (auto simp: word_gt_0)

lemma speaker_memo:
  assumes run: "setSpeakerLightLocked st (s\<lparr>mLightsState := L\<rparr>) = Some s'" and M: "memo_inv s"
    and ab: "(a, b) = charging_range (s\<lparr>mLightsState := L\<rparr>)" and full: "isLit st \<or> (a, b) = (1, 3)"
    and L: "isLit st \<longrightarrow> L = (if (a, b) = (1, 1) then LEDS_BATTERY else LEDS_NOTIFICATIONS)"
  shows "memo_inv s'" "glows_in s' L (color st) a b"
proof -
  let ?s = "s\<lparr>mLightsState := L\<rparr>" and ?argb = "color st"
  from speaker_step [OF run] obtain a' b' m on off s1 where
    C: "charging_units (leds_brightness ?argb) (flash_mode st) (flashOnMs st) (flashOffMs st) ?s = Some (a', b', m, on, off, s1)" and
    F: "mLightsState s' = L" "mLightsARGB s' = ?argb" "mLightsBrightness s' = leds_brightness ?argb"
      "mSequencerProgramTarget s' = program_target (led_rgb ?argb) a' b'" and
    W: "\<And>il. shown s' il =
       (if snd (updates (program_target (led_rgb ?argb) a' b') ?argb m on off s1) \<noteq> LEDS_RGB_KEEP \<and>
           a' \<le> il div 3 + 1 \<and> il div 3 + 1 \<le> b'
        then Some (led_current L (leds_brightness ?argb) (led_rgb ?argb ! (il mod 3)) (il div 3 + 1) (il mod 3))
        else shown s1 il)" by auto
  note c = charging_outcome [OF C]
  have e: "a' = a" "b' = b" using trans [OF c(2) ab [symmetric]] by simp_all
  note W = W [unfolded e]
  have r: "(a, b) \<in> unit_ranges" unfolding ab by (rule charging_range_unit)
  have same: "same_leds ?s s1" by (rule c(1))
  let ?u = "updates (program_target (led_rgb ?argb) a b) ?argb m on off s1"
  show colour: "glows_in s' L ?argb a b"
  proof (intro allI impI)
    fix u c'
    assume u: "a \<le> u \<and> u \<le> b \<and> c' < (3 :: nat)"
    have u1: "u - 1 + 1 = u" using u r by (auto simp: unit_ranges_def)
    let ?il = "(u - 1) * 3 + c'"
    have d: "?il div 3 = u - 1" "?il mod 3 = c'" using unit_index u by simp_all
    show "glows (shown s' ?il) (led_current L (leds_brightness ?argb) (led_rgb ?argb ! c') u c')"
    proof (cases "snd ?u = LEDS_RGB_KEEP")
      case False
      then show ?thesis using W [of ?il] d u1 u by (simp add: glows_def)
    next
      case True
      have k: "program_target (led_rgb ?argb) a b = mSequencerProgramTarget s" "?argb = mLightsARGB s"
        using updates_keep [OF True] same by (simp_all add: same_leds_def)
      from M obtain a0 b0 where m0: "(a0, b0) \<in> unit_ranges" "mSequencerProgramTarget s = program_target (led_rgb ?argb) a0 b0"
        "lit ?argb \<or> (a0, b0) = (1, 3)"
        "lit ?argb \<longrightarrow> mLightsState s = (if (a0, b0) = (1, 1) then LEDS_BATTERY else LEDS_NOTIFICATIONS)"
        "glows_in s (mLightsState s) ?argb a0 b0" unfolding memo_inv_def k(2) by blast
      have ab0: "a0 = a" "b0 = b"
        using program_target_range [OF _ _ r m0(1)] k(1) m0(2,3) full by (auto simp: isLit_def)
      have old: "shown s' ?il = shown s ?il" using W [of ?il] True c(3) [of u c'] u e by simp
      have "glows (shown s ?il) (led_current (mLightsState s) (leds_brightness ?argb) (led_rgb ?argb ! c') u c')"
        using m0(5) u ab0 by blast
      then show ?thesis unfolding old
        using m0(4) ab0 L u unlit_dark [of ?argb c'] by (cases "lit ?argb") (auto simp: isLit_def)
    qed
  qed
  show "memo_inv s'" unfolding memo_inv_def F
    using r full L colour e by (intro conjI exI [of _ a] exI [of _ b]) (simp_all add: isLit_def)
qed

text \<open>The colours the framework has asked for: the battery keeps the first unit, a notification takes the others.\<close>

definition unit_current :: "light_state \<Rightarrow> light_state \<Rightarrow> nat \<Rightarrow> nat \<Rightarrow> u32" where
  "unit_current notification battery u c =
     (if isLit battery \<and> u = 1 then led_current LEDS_BATTERY 0 (led_rgb (color battery) ! c) 1 c
      else if isLit notification
      then led_current LEDS_NOTIFICATIONS (leds_brightness (color notification)) (led_rgb (color notification) ! c) u c
      else 0)"

definition led_inv :: "lights \<Rightarrow> bool" where
  "led_inv s \<longleftrightarrow> \<not> isLit (mAttentionState s) \<and> memo_inv s \<and>
     (\<forall>u c. 1 \<le> u \<and> u \<le> 3 \<and> c < 3 \<longrightarrow>
        glows (shown s ((u - 1) * 3 + c)) (unit_current (mNotificationState s) (mBatteryState s) u c))"

lemma locked_led_inv:
  assumes run: "setSpeakerBatteryLightLocked s = Some s'" and M: "memo_inv s" and A: "\<not> isLit (mAttentionState s)"
  shows "led_inv s'" "mNotificationState s' = mNotificationState s" "mBatteryState s' = mBatteryState s"
proof -
  let ?n = "mNotificationState s" and ?b = "mBatteryState s"
  define L where "L = (if isLit ?n then LEDS_NOTIFICATIONS else LEDS_BATTERY)"
  define st where "st = (if isLit ?n then ?n else ?b)"
  have R: "setSpeakerLightLocked st (s\<lparr>mLightsState := L\<rparr>) = Some s'"
    using run A by (simp add: setSpeakerBatteryLightLocked_def st_def L_def split: if_splits)
  obtain a b where ab: "(a, b) = charging_range (s\<lparr>mLightsState := L\<rparr>)" by (metis surj_pair)
  have cond: "isLit st \<or> (a, b) = (1, 3)" "isLit st \<longrightarrow> L = (if (a, b) = (1, 1) then LEDS_BATTERY else LEDS_NOTIFICATIONS)"
    unfolding ab by (auto simp: charging_range_def st_def L_def)
  note m = speaker_memo [OF R M ab cond]
  from speaker_step [OF R] obtain a' b' m on off s1 where
    C: "charging_units (leds_brightness (color st)) (flash_mode st) (flashOnMs st) (flashOffMs st) (s\<lparr>mLightsState := L\<rparr>)
          = Some (a', b', m, on, off, s1)" and
    F: "mNotificationState s' = ?n" "mBatteryState s' = ?b" "mAttentionState s' = mAttentionState s" and
    V: "\<And>il. shown s' il =
       (if snd (updates (program_target (led_rgb (color st)) a' b') (color st) m on off s1) \<noteq> LEDS_RGB_KEEP \<and>
           a' \<le> il div 3 + 1 \<and> il div 3 + 1 \<le> b'
        then Some (led_current L (leds_brightness (color st)) (led_rgb (color st) ! (il mod 3)) (il div 3 + 1) (il mod 3))
        else shown s1 il)" by auto
  have W: "shown s' il = shown s1 il" if "\<not> (a' \<le> il div 3 + 1 \<and> il div 3 + 1 \<le> b')" for il
    unfolding V [of il] using that by (simp only: de_Morgan_conj simp_thms if_False if_cancel split: if_split) blast
  show "mNotificationState s' = ?n" "mBatteryState s' = ?b" by (rule F)+
  note c = charging_outcome [OF C]
  have e: "a' = a" "b' = b" using trans [OF c(2) ab [symmetric]] by simp_all
  have "glows (shown s' ((u - 1) * 3 + k)) (unit_current ?n ?b u k)" if u: "1 \<le> u \<and> u \<le> 3 \<and> k < 3" for u k
  proof (cases "a \<le> u \<and> u \<le> b")
    case True
    then have "glows (shown s' ((u - 1) * 3 + k)) (led_current L (leds_brightness (color st)) (led_rgb (color st) ! k) u k)"
      using m(2) u by blast
    moreover have "led_current L (leds_brightness (color st)) (led_rgb (color st) ! k) u k = unit_current ?n ?b u k"
      using ab True u unlit_dark [of "color st" k] led_current_battery
      by (auto simp: charging_range_def unit_current_def L_def st_def isLit_def split: if_splits)
    ultimately show ?thesis by simp
  next
    case False
    then have lit: "isLit ?b" and r: "if isLit ?n then u = 1 else u = 2 \<or> u = 3"
      using ab u by (auto simp: charging_range_def L_def split: if_splits)
    have d: "((u - 1) * 3 + k) div 3 + 1 = u" using unit_index(1) [of k u] u by simp
    have "shown s' ((u - 1) * 3 + k) = shown s1 ((u - 1) * 3 + k)" using W d False e by simp
    also have "\<dots> = Some (unit_current ?n ?b u k)"
      using r lit c(4) [of k] c(5) [of u k] u by (auto simp: unit_current_def L_def split: if_splits)
    finally show ?thesis by (simp add: glows_def)
  qed
  then show "led_inv s'" using m(1) F A by (simp add: led_inv_def)
qed


section \<open>The blinking program\<close>

text \<open>The light that is in front, and the promise of the framework that a steady light has no delays.\<close>

definition front :: "lights \<Rightarrow> light_state" where
  "front s = (if isLit (mNotificationState s) then mNotificationState s
              else if isLit (mAttentionState s) then mAttentionState s else mBatteryState s)"

definition steady :: "light_state \<Rightarrow> bool" where
  "steady st \<longleftrightarrow> (flashMode st \<noteq> FlashTimed \<longrightarrow> flashOnMs st = 0 \<or> flashOffMs st = 0)"

text \<open>What was written last to the files of the sequencer, for the state the service has for it.\<close>

definition sequencer_files :: "lights \<Rightarrow> bool" where
  "sequencer_files s \<longleftrightarrow> (seq_text s ModeFile, seq_text s RunFile) =
     (case mSequencer1State s of
        LEDS_SEQ_UNKNOWN \<Rightarrow> (None, None)
      | LEDS_SEQ_DISABLED \<Rightarrow> (Some ''disabled'', Some ''hold'')
      | LEDS_SEQ_ENABLED \<Rightarrow> (Some ''reload'', Some ''run''))"

definition program_memo :: "lights \<Rightarrow> bool" where
  "program_memo s \<longleftrightarrow>
     (mLightsDelayOn s \<noteq> 0 \<and> mLightsDelayOff s \<noteq> 0 \<and> mSequencerProgramTarget s \<noteq> 0 \<longrightarrow>
        seq_text s LoadFile = program_for (mSequencerProgramTarget s) (mLightsDelayOn s) (mLightsDelayOff s)) \<and>
     (mSequencer1State s = LEDS_SEQ_ENABLED \<and> mSequencerProgramTarget s \<noteq> 0 \<longrightarrow> mLightsDelayOn s \<noteq> 0 \<and> mLightsDelayOff s \<noteq> 0)"

definition seq_inv :: "lights \<Rightarrow> bool" where
  "seq_inv s \<longleftrightarrow> sequencer_files s \<and> program_memo s \<and>
     (isLit (front s) \<and> flash_mode (front s) = FlashTimed \<longrightarrow> mSequencer1State s = LEDS_SEQ_ENABLED)"

lemma updates_program_keep:
  assumes "fst (updates t argb m on off s) \<noteq> LEDS_PROGRAM_WRITE" "m = FlashTimed"
  shows "t = mSequencerProgramTarget s" "on = mLightsDelayOn s" "off = mLightsDelayOff s"
  using assms by (auto simp: updates_def store_delays_def detect_updates_def split: if_splits)

lemma sequencer_step_files:
  assumes "sequencer_step u t m on off s s'" "sequencer_files s"
  shows "sequencer_files s'"
  using assms by (auto simp: sequencer_step_def sequencer_files_def split: if_splits leds_sequencers.splits)

lemma speaker_seq_inv:
  assumes run: "setSpeakerLightLocked st (s\<lparr>mLightsState := L\<rparr>) = Some s'" and F: "sequencer_files s" and M: "program_memo s"
    and st: "steady st"
  shows "sequencer_files s'" "program_memo s'" "isLit st \<Longrightarrow> flash_mode st = FlashTimed \<Longrightarrow> mSequencer1State s' = LEDS_SEQ_ENABLED"
proof -
  let ?argb = "color st"
  from speaker_step [OF run] obtain a b m on off s1 s4 where
    C: "charging_units (leds_brightness ?argb) (flash_mode st) (flashOnMs st) (flashOffMs st) (s\<lparr>mLightsState := L\<rparr>)
          = Some (a, b, m, on, off, s1)" and
    K: "mSequencerProgramTarget s' = program_target (led_rgb ?argb) a b" "mLightsDelayOn s' = on" "mLightsDelayOff s' = off" and
    s4: "mSequencer1State s4 = mSequencer1State s1" "\<forall>f. seq_text s4 f = seq_text s1 f" and
    Q: "sequencer_step (fst (updates (program_target (led_rgb ?argb) a b) ?argb m on off s1)) (program_target (led_rgb ?argb) a b)
          m on off s4 s'" by auto
  note c = charging_outcome [OF C]
  let ?t = "program_target (led_rgb ?argb) a b"
  let ?u = "fst (updates ?t ?argb m on off s1)"
  have same: "same_leds (s\<lparr>mLightsState := L\<rparr>) s1" by (rule c(1))
  have seq: "mSequencer1State s1 = mSequencer1State s \<and> (\<forall>f. seq_text s1 f = seq_text s f) \<or>
     mSequencer1State s1 = LEDS_SEQ_DISABLED \<and> seq_text s1 ModeFile = Some ''disabled'' \<and> seq_text s1 RunFile = Some ''hold'' \<and>
       seq_text s1 LoadFile = seq_text s LoadFile" using c(6) by simp
  then have F4: "sequencer_files s4" and L4: "seq_text s4 LoadFile = seq_text s LoadFile"
    using F s4 by (auto simp: sequencer_files_def)
  show "sequencer_files s'" by (rule sequencer_step_files [OF Q F4])
  have m: "m = FlashTimed \<and> on \<noteq> 0 \<and> off \<noteq> 0 \<or> m \<noteq> FlashTimed \<and> (on = 0 \<or> off = 0)"
    using c(7) st by (auto simp: steady_def split: if_splits)
  show "program_memo s'"
  proof (cases "m = FlashTimed \<and> ?t \<noteq> 0")
    case True
    have "seq_text s' LoadFile = program_for ?t on off"
    proof (cases "mSequencer1State s4 = LEDS_SEQ_UNKNOWN \<or> ?u = LEDS_PROGRAM_WRITE")
      case False
      then have k: "?t = mSequencerProgramTarget s" "on = mLightsDelayOn s" "off = mLightsDelayOff s"
        using updates_program_keep [of ?t ?argb m on off s1] True same by (simp_all add: same_leds_def)
      then have "seq_text s LoadFile = program_for ?t on off" using M m True by (simp add: program_memo_def)
      then show ?thesis using Q False True L4 by (simp add: sequencer_step_def)
    qed (use Q True in \<open>simp add: sequencer_step_def\<close>)
    then show ?thesis using m True by (simp add: program_memo_def K)
  next
    case False
    then have "?t = 0 \<or> m \<noteq> FlashTimed" by blast
    then show ?thesis using m Q by (auto simp: program_memo_def K sequencer_step_def)
  qed
  assume lit: "isLit st" and mode: "flash_mode st = FlashTimed"
  have "(a, b) \<in> unit_ranges" unfolding c(2) by (rule charging_range_unit)
  then have "?t \<noteq> 0" using program_target_dark lit by (simp add: isLit_def)
  moreover have "m = FlashTimed" using c(7) mode by auto
  ultimately show "mSequencer1State s' = LEDS_SEQ_ENABLED" using Q by (simp add: sequencer_step_def)
qed

lemma locked_front:
  "\<exists>L. setSpeakerBatteryLightLocked s = setSpeakerLightLocked (front s) (s\<lparr>mLightsState := L\<rparr>)"
proof -
  have "s\<lparr>mLightsState := mLightsState s\<rparr> = s" by simp
  then show ?thesis
    unfolding setSpeakerBatteryLightLocked_def front_def
    by (cases "isLit (mNotificationState s)"; cases "isLit (mAttentionState s)") (auto intro: exI [of _ "mLightsState s"])
qed

lemma locked_seq_inv:
  assumes run: "setSpeakerBatteryLightLocked s = Some s'" and F: "sequencer_files s" and M: "program_memo s" and st: "steady (front s)"
  shows "seq_inv s'" "mNotificationState s' = mNotificationState s" "mBatteryState s' = mBatteryState s"
    "mAttentionState s' = mAttentionState s"
proof -
  from locked_front [of s] run obtain L where R: "setSpeakerLightLocked (front s) (s\<lparr>mLightsState := L\<rparr>) = Some s'" by auto
  from speaker_step [OF R] show e: "mNotificationState s' = mNotificationState s" "mBatteryState s' = mBatteryState s"
    "mAttentionState s' = mAttentionState s" by auto
  then have "front s' = front s" by (simp add: front_def)
  with speaker_seq_inv [OF R F M st] show "seq_inv s'" by (simp add: seq_inv_def)
qed

section \<open>No call is undefined\<close>

definition timely :: "light_state \<Rightarrow> bool" where
  "timely st \<longleftrightarrow> 0 \<le> flashOnMs st \<and> 0 \<le> flashOffMs st"

lemma program_some: "0 \<le> on \<Longrightarrow> 0 \<le> off \<Longrightarrow> \<exists>s'. setLightsProgram u t m on off s = Some s'"
  by (rule program_total) (rule program_for_Some; assumption)+

lemma charging_total: "\<exists>r. charging_units br m on off s = Some r"
  using program_some [of 0 0 LEDS_PROGRAM_KEEP 0 m "fold (\<lambda>i. writeLightsLED i [0, 0, 0] 0 LEDS_RGB_WRITE) [2..<4] s"]
  by (cases "br = 100") (auto simp: charging_units_def)

lemma speaker_total:
  assumes "timely st"
  shows "\<exists>s'. setSpeakerLightLocked st s = Some s'"
proof -
  obtain a b m on off s1 where C: "charging_units (leds_brightness (color st)) (flash_mode st) (flashOnMs st) (flashOffMs st) s
      = Some (a, b, m, on, off, s1)"
    using charging_total [of "leds_brightness (color st)" "flash_mode st" "flashOnMs st" "flashOffMs st" s] by auto
  have "0 \<le> on" "0 \<le> off" using charging_outcome(7) [OF C] assms by (auto simp: timely_def)
  then show ?thesis using C program_some
    by (auto simp: setSpeakerLightLocked_def Let_def leds_modes_def split: prod.split)
qed

lemma locked_total: "timely (front s) \<Longrightarrow> \<exists>s'. setSpeakerBatteryLightLocked s = Some s'"
  using locked_front [of s] speaker_total by auto


section \<open>Any sequence of calls\<close>

definition last_given :: "light_type \<Rightarrow> (light_type \<times> light_state) list \<Rightarrow> light_state \<Rightarrow> light_state" where
  "last_given t cs st = fold (\<lambda>(t', st') r. if t' = t then st' else r) cs st"

lemma last_given_simps [simp]:
  "last_given t [] st = st" "last_given t ((t', st') # cs) st = last_given t cs (if t' = t then st' else st)"
  by (simp_all add: last_given_def)

text \<open>The states of the three lights of the LED after a call.\<close>

definition given :: "light_type \<Rightarrow> light_state \<Rightarrow> lights \<Rightarrow> lights" where
  "given t st s =
     (if t = NOTIFICATIONS then s\<lparr>mNotificationState := st\<rparr>
      else if t = BATTERY then s\<lparr>mBatteryState := st\<rparr>
      else if t = ATTENTION then s\<lparr>mAttentionState := st\<rparr> else s)"

lemma setLight_leds:
  assumes "t \<in> {NOTIFICATIONS, BATTERY, ATTENTION}"
  shows "setLight t st s = map_option (Pair LIGHT_SUCCESS) (setSpeakerBatteryLightLocked (given t st s))"
  using assms
  by (auto simp: setLight_def mLights_def given_def setNotificationLight_def setBatteryLight_def setAttentionLight_def)

lemma setLight_other:
  assumes "t \<notin> {NOTIFICATIONS, BATTERY, ATTENTION}"
  shows "\<exists>r es. setLight t st s = Some (r, lwrites es s) \<and> (\<forall>il. last_of (led_of il) es = None) \<and> (\<forall>f. last_of (seq_of f) es = None)"
  using assms
  by (cases t) (auto simp: setLight_def mLights_def setBacklight_def Let_def intro: exI [of _ "[]"])

lemma set_lights_inv:
  assumes "I s" "\<And>t st s. (t, st) \<in> set cs \<Longrightarrow> I s \<Longrightarrow> \<exists>r s1. setLight t st s = Some (r, s1) \<and> I s1"
  shows "\<exists>s'. set_lights cs s = Some s' \<and> I s'"
  using assms
proof (induction cs arbitrary: s)
  case (Cons c cs)
  obtain t st where c: "c = (t, st)" by (cases c)
  from Cons.prems c obtain r s1 where s1: "setLight t st s = Some (r, s1)" "I s1" by (meson list.set_intros(1))
  from Cons.IH [OF s1(2)] Cons.prems(2) obtain s' where "set_lights cs s1 = Some s'" "I s'" by (meson list.set_intros(2))
  with s1(1) c show ?case by simp
qed simp

lemma sequence_led_inv:
  assumes "led_inv s" "timely (mNotificationState s)" "timely (mBatteryState s)"
    and "\<forall>(t, st) \<in> set cs. timely st \<and> (t = ATTENTION \<longrightarrow> \<not> isLit st)"
  shows "\<exists>s'. set_lights cs s = Some s' \<and> led_inv s' \<and>
    mNotificationState s' = last_given NOTIFICATIONS cs (mNotificationState s) \<and>
    mBatteryState s' = last_given BATTERY cs (mBatteryState s)"
  using assms
proof (induction cs arbitrary: s)
  case (Cons c cs)
  obtain t st where c: "c = (t, st)" by (cases c)
  have st: "timely st" "t = ATTENTION \<longrightarrow> \<not> isLit st" using Cons.prems(4) c by simp_all
  have "\<exists>r s1. setLight t st s = Some (r, s1) \<and> led_inv s1 \<and> mNotificationState s1 = last_given NOTIFICATIONS [c] (mNotificationState s) \<and>
     mBatteryState s1 = last_given BATTERY [c] (mBatteryState s)"
  proof (cases "t \<in> {NOTIFICATIONS, BATTERY, ATTENTION}")
    case True
    let ?g = "given t st s"
    have A: "\<not> isLit (mAttentionState ?g)" using Cons.prems(1) st by (auto simp: given_def led_inv_def)
    have M: "memo_inv ?g" using Cons.prems(1) by (auto simp: given_def led_inv_def memo_inv_def)
    have "timely (front ?g)" using A st Cons.prems(2,3) by (auto simp: front_def given_def)
    with locked_total obtain s1 where s1: "setSpeakerBatteryLightLocked ?g = Some s1" by blast
    from locked_led_inv [OF s1 M A] s1 show ?thesis unfolding setLight_leds [OF True] using c True by (auto simp: given_def)
  next
    case False
    from setLight_other [OF False, of st s] obtain r es where
      e: "setLight t st s = Some (r, lwrites es s)" "\<And>il. last_of (led_of il) es = None" by blast
    have "led_inv (lwrites es s)" using Cons.prems(1) e(2) by (simp add: led_inv_def memo_inv_def last_of_append)
    with e(1) False c show ?thesis by auto
  qed
  then obtain r s1 where s1: "setLight t st s = Some (r, s1)" "led_inv s1"
    "mNotificationState s1 = last_given NOTIFICATIONS [c] (mNotificationState s)"
    "mBatteryState s1 = last_given BATTERY [c] (mBatteryState s)" by blast
  have "timely (mNotificationState s1)" "timely (mBatteryState s1)" using s1(3,4) Cons.prems(2,3) st c by auto
  from Cons.IH [OF s1(2) this] Cons.prems(4) obtain s' where s': "set_lights cs s1 = Some s'" "led_inv s'"
    "mNotificationState s' = last_given NOTIFICATIONS cs (mNotificationState s1)"
    "mBatteryState s' = last_given BATTERY cs (mBatteryState s1)" by auto
  then show ?case using s1 c by auto
qed simp

abbreviation all_given :: "(light_state \<Rightarrow> bool) \<Rightarrow> lights \<Rightarrow> bool" where
  "all_given P s \<equiv> P (mNotificationState s) \<and> P (mBatteryState s) \<and> P (mAttentionState s)"

lemma given_all: "all_given P s \<Longrightarrow> P st \<Longrightarrow> all_given P (given t st s)"
  by (simp add: given_def)

lemma front_all: "all_given P s \<Longrightarrow> P (front s)"
  by (simp add: front_def)

lemma sequence_seq_inv:
  assumes "seq_inv s" "all_given timely s" "all_given steady s" "\<forall>(t, st) \<in> set cs. timely st \<and> steady st"
  shows "\<exists>s'. set_lights cs s = Some s' \<and> seq_inv s'"
proof -
  have "\<exists>s'. set_lights cs s = Some s' \<and> seq_inv s' \<and> all_given timely s' \<and> all_given steady s'"
  proof (rule set_lights_inv)
    show "seq_inv s \<and> all_given timely s \<and> all_given steady s" using assms by simp
  next
    fix t st s
    assume t: "(t, st) \<in> set cs" and I: "seq_inv s \<and> all_given timely s \<and> all_given steady s"
    show "\<exists>r s1. setLight t st s = Some (r, s1) \<and> seq_inv s1 \<and> all_given timely s1 \<and> all_given steady s1"
    proof (cases "t \<in> {NOTIFICATIONS, BATTERY, ATTENTION}")
      case True
      let ?g = "given t st s"
      have g: "all_given timely ?g" "all_given steady ?g" using I t assms(4) by (auto intro!: given_all)
      have F: "sequencer_files ?g" "program_memo ?g" using I
        by (auto simp: given_def seq_inv_def sequencer_files_def program_memo_def)
      have "timely (front ?g)" "steady (front ?g)" using front_all g by blast+
      then obtain s1 where s1: "setSpeakerBatteryLightLocked ?g = Some s1" using locked_total by blast
      from locked_seq_inv [OF s1 F \<open>steady (front ?g)\<close>] s1 g show ?thesis unfolding setLight_leds [OF True] by auto
    next
      case False
      from setLight_other [OF False, of st s] obtain r es where
        e: "setLight t st s = Some (r, lwrites es s)" "\<And>f. last_of (seq_of f) es = None" by blast
      have "seq_inv (lwrites es s)" using I e(2)
        by (simp add: seq_inv_def sequencer_files_def program_memo_def front_def last_of_append)
      with e(1) I show ?thesis by auto
    qed
  qed
  then show ?thesis by blast
qed

lemma new_traces: "last_of (led_of il) (light_writes (light_new a b n)) = None" "last_of (seq_of f) (light_writes (light_new a b n)) = None"
  by (simp_all add: light_new_def led_units_def upt_rec)

lemma new_led_inv:
  assumes "\<not> isLit a" "\<not> isLit b" "\<not> isLit n"
  shows "led_inv (light_new a b n)"
proof -
  have t: "program_target [0, 0, 0] (Suc 0) 3 = 0" unfolding program_target_eqs [unfolded One_nat_def] by simp
  then have "memo_inv (light_new a b n)" unfolding memo_inv_def
    by (intro conjI exI [of _ 1] exI [of _ 3])
      (simp_all add: new_traces glows_def unit_ranges_def led_rgb_def leds_brightness_def, simp_all add: light_new_def led_rgb_def nth_Cons' t)
  then show ?thesis using assms unfolding led_inv_def new_traces
    by (simp add: glows_def unit_current_def light_new_def)
qed

lemma new_seq_inv: "\<not> isLit a \<Longrightarrow> \<not> isLit b \<Longrightarrow> \<not> isLit n \<Longrightarrow> seq_inv (light_new a b n)"
  unfolding seq_inv_def sequencer_files_def program_memo_def new_traces by (simp add: light_new_def front_def)

end
