(* ===== verification/LightService.thy ===== *)
theory LightService
  imports LightsLeds
begin

text \<open>
  Bounds on all that the light service writes, and the properties of the service.
\<close>

section \<open>Bounds\<close>

lemma byte_le: "(w :: u32) AND 0xff \<le> 255"
  by (rule word_and_le1)

lemma rgb_le: "c < 3 \<Longrightarrow> led_rgb argb ! c \<le> 255"
  by (auto simp: led_rgb_def nth_Cons' byte_le)

lemma scaled_unat:
  fixes x y :: u32
  assumes "x \<le> 255" "y \<le> 255"
  shows "unat ((x * y) div 255) = unat x * unat y div 255"
proof -
  have b: "unat x \<le> 255" "unat y \<le> 255" using assms by (simp_all add: word_le_nat_alt)
  have "unat x * unat y \<le> 255 * 255" using b by (rule mult_le_mono)
  then have "unat (x * y) = unat x * unat y" by (subst unat_mult_lem [symmetric]) simp
  then show ?thesis by (simp add: unat_div)
qed

lemma scaled_le:
  fixes x y :: u32
  assumes "x \<le> 255" "y \<le> 255"
  shows "(x * y) div 255 \<le> y"
proof -
  have "unat x * unat y div 255 \<le> unat y"
    using div_le_mono [OF mult_le_mono1 [of "unat x" 255 "unat y"], of 255] assms(1) by (simp add: word_le_nat_alt)
  then show ?thesis unfolding word_le_nat_alt scaled_unat [OF assms] .
qed

lemma current_ratio_le: "current_ratio st br \<le> 255"
  by (simp add: current_ratio_def)

lemma presets:
  assumes "1 \<le> i" "i \<le> 3" "c < 3"
  shows "1 \<le> leds_currents ! (i - 1) ! c" "leds_currents ! (i - 1) ! c \<le> 255"
proof -
  have "i = 1 \<or> i = 2 \<or> i = 3" "c = 0 \<or> c = 1 \<or> c = 2" using assms by linarith+
  then show "1 \<le> leds_currents ! (i - 1) ! c" "leds_currents ! (i - 1) ! c \<le> 255" by (auto simp: leds_currents_def)
qed

lemma led_current_le:
  assumes "x \<le> 255" "1 \<le> i" "i \<le> 3" "c < 3"
  shows "led_current st br x i c \<le> leds_currents ! (i - 1) ! c" "led_current st br x i c = 0 \<longleftrightarrow> x = 0"
proof -
  let ?y = "(x * current_ratio st br) div 255" and ?p = "leds_currents ! (i - 1) ! c"
  have y: "?y \<le> 255" using scaled_le [OF assms(1) current_ratio_le] current_ratio_le order_trans by blast
  have z: "(?y * ?p) div 255 \<le> ?p" using scaled_le [OF y presets(2) [OF assms(2-4)]] .
  show "led_current st br x i c \<le> ?p" using z presets(1) [OF assms(2-4)] by (simp add: led_current_def Let_def)
  show "led_current st br x i c = 0 \<longleftrightarrow> x = 0"
  proof -
    have "z < 1 \<longleftrightarrow> z = 0" for z :: u32 by unat_arith
    then show ?thesis by (auto simp: led_current_def Let_def word_gt_0)
  qed
qed

lemma length_prog_hex: "n < 16 ^ Suc w \<Longrightarrow> length (prog_hex n) \<le> Suc w"
proof (induction w arbitrary: n)
  case 0
  then show ?case by (simp add: prog_hex.simps)
next
  case (Suc w)
  have "n div 16 < 16 ^ Suc w" using Suc.prems by (simp add: less_mult_imp_div_less)
  with Suc.IH show ?case by (subst prog_hex.simps) auto
qed

lemma length_hex_pad: "n < 16 ^ Suc w \<Longrightarrow> length (hex_pad (Suc w) n) = Suc w"
  using length_prog_hex [of n w] by (simp add: hex_pad_def)

text \<open>A program has 70 characters, so it fits the buffer.\<close>

lemma length_program:
  assumes "v0 < 256" "v1 < 256" "v2 < 256" "v3 < 256" "t < 4096"
  shows "length (sequencer_program v0 v1 v2 v3 t) = 70"
  using length_hex_pad [of _ 1] length_hex_pad [of t 2] assms
  by (simp add: sequencer_program_def numeral_2_eq_2 numeral_3_eq_3)


text \<open>What may be written: the backlight and the currents within their limits, and whole programs.\<close>

primrec write_ok :: "light_write \<Rightarrow> bool" where
  "write_ok (Backlight1 v) = (v \<le> 255)"
| "write_ok (Backlight2 v) = (v \<le> 255)"
| "write_ok (LedBrightness il v) = (il < 9 \<and> (v = 0 \<or> v = 255))"
| "write_ok (LedCurrent il v) = (il < 9 \<and> v \<le> leds_currents ! (il div 3) ! (il mod 3))"
| "write_ok (SequencerMode n v) = (1 \<le> n \<and> n \<le> 3)"
| "write_ok (SequencerRun n v) = (1 \<le> n \<and> n \<le> 3)"
| "write_ok (SequencerLoad p) = (length p = 70)"
| "write_ok (WriteFile f v) = True"

abbreviation writes_ok :: "lights \<Rightarrow> bool" where
  "writes_ok s \<equiv> \<forall>e \<in> set (light_writes s). write_ok e"

lemma unit_writes_ok:
  assumes "1 \<le> i" "i \<le> 3" "\<forall>c < 3. rgb ! c \<le> 255" "e \<in> set (unit_writes st i rgb br)"
  shows "write_ok e"
proof -
  from assms(4) obtain c where c: "c < 3" and e: "e = LedBrightness ((i - 1) * 3 + c) (if rgb ! c \<noteq> 0 then 255 else 0) \<or>
      e = LedCurrent ((i - 1) * 3 + c) (led_current st br (rgb ! c) i c)" by (auto simp: unit_writes_def)
  have "(i - 1) * 3 + c < 9" using assms(2) c by linarith
  then show ?thesis using e led_current_le(1) [of "rgb ! c" i c] assms(1-3) c unit_index [OF c, of i] by auto
qed

lemma units_ok:
  assumes "\<forall>i \<in> set us. 1 \<le> i \<and> i \<le> 3" "\<forall>c < 3. rgb ! c \<le> 255" "writes_ok s"
  shows "writes_ok (fold (\<lambda>i. writeLightsLED i rgb br u) us s)"
  using assms unit_writes_ok by (auto simp: write_units)

lemma steps_le: "seq_steps ms = Some v \<Longrightarrow> v < 256"
  by (auto simp: seq_steps_def split: if_splits)

lemma loaded_ok: "program_for t a b = Some p \<Longrightarrow> t < 4096 \<Longrightarrow> length p = 70"
  by (auto simp: program_for_def dest: steps_le intro: length_program split: option.splits)

lemma program_ok:
  assumes "setLightsProgram u t m a b s = Some s'" "t < 4096" "writes_ok s"
  shows "writes_ok s'"
proof -
  have off: "writes_ok (disable_unused s1)" if "writes_ok s1" for s1
    using that by (auto simp: disable_unused_def sequencer_off_def Let_def)
  have load: "length p = 70" if "program_for t a b = Some p \<or> program_for 0 a b = Some p" for p
    using loaded_ok that assms(2) by auto
  from assms(1) obtain s1 where s1: "s' = disable_unused s1" and
    r: "flash_program u t m a b s = Some s1"
    unfolding setLightsProgram_def by blast
  have "writes_ok s1"
  proof (cases "m = FlashTimed")
    case True
    then show ?thesis using r assms(3) load
      by (cases "mSequencer1State s"; cases u; cases "t = 0") (auto simp: flash_program_def writeLightsProgram_eq)
  next
    case False
    then show ?thesis using r assms(3) load by (auto simp: flash_program_def writeLightsProgram_eq sequencer_off_def split: if_splits)
  qed
  then show ?thesis unfolding s1 by (rule off)
qed

lemma charging_ok:
  assumes "charging_units br m on off s = Some (a, b, m', on', off', s1)" "writes_ok s"
  shows "writes_ok s1"
proof -
  have "writes_ok (fold (\<lambda>i. writeLightsLED i [0, 0, 0] 0 LEDS_RGB_WRITE) [2..<4] s)"
    by (rule units_ok) (use assms(2) in \<open>auto simp: nth_Cons'\<close>)
  then have off: "writes_ok s2" if "setLightsProgram LEDS_PROGRAM_KEEP 0 m 0 0
      (fold (\<lambda>i. writeLightsLED i [0, 0, 0] 0 LEDS_RGB_WRITE) [2..<4] s) = Some s2" for s2
    using program_ok [OF that] by simp
  have "write_ok e" if "e \<in> set (unit_writes LEDS_BATTERY 1 (led_rgb (color (mBatteryState s))) br)" for e
    by (rule unit_writes_ok [OF _ _ _ that]) (simp_all add: rgb_le)
  with off assms show ?thesis
    by (auto simp: charging_units_def writeLightsLED_eq split: if_splits)
qed

lemma program_target_le: "(a, b) \<in> unit_ranges \<Longrightarrow> program_target (led_rgb argb) a b < 4096"
proof -
  assume "(a, b) \<in> unit_ranges"
  moreover obtain x y z where rgb: "led_rgb argb = [x, y, z]" by (simp add: led_rgb_def)
  ultimately show ?thesis unfolding rgb
    by (auto simp: unit_ranges_def program_target_eqs program_target_eqs [unfolded One_nat_def])
qed

lemma speaker_ok:
  assumes run: "setSpeakerLightLocked st s = Some s'" and W: "writes_ok s"
  shows "writes_ok s'"
proof -
  let ?rgb = "led_rgb (color st)" and ?br = "leds_brightness (color st)"
  have "leds_modes AND 1 \<noteq> 0" by (simp add: leds_modes_def)
  with run obtain a b m on off s1 where
    C: "charging_units ?br (flash_mode st) (flashOnMs st) (flashOffMs st) s = Some (a, b, m, on, off, s1)" and
    R: "(case store_delays m on off s1 of (pu, ru, s2) \<Rightarrow>
                (let target = program_target ?rgb a b; u = detect_updates target (color st) s2 (pu, ru);
                     s3 = s2\<lparr>mLightsBrightness := ?br, mSequencerProgramTarget := target, mLightsARGB := color st\<rparr>;
                     s4 = fold (\<lambda>i. writeLightsLED i ?rgb ?br (snd u)) [a..<Suc b] s3
                 in setLightsProgram (fst u) target m on off s4)) = Some s'"
    by (auto simp: setSpeakerLightLocked_def Let_def Option.bind_eq_Some_conv)
  obtain pu ru s2 where S: "store_delays m on off s1 = (pu, ru, s2)" by (cases "store_delays m on off s1")
  have P: "setLightsProgram (fst (detect_updates (program_target ?rgb a b) (color st) s2 (pu, ru))) (program_target ?rgb a b) m on off
      (fold (\<lambda>i. writeLightsLED i ?rgb ?br (snd (detect_updates (program_target ?rgb a b) (color st) s2 (pu, ru)))) [a..<Suc b]
        (s2\<lparr>mLightsBrightness := ?br, mSequencerProgramTarget := program_target ?rgb a b, mLightsARGB := color st\<rparr>)) = Some s'"
    using R unfolding S Let_def by simp
  have r: "(a, b) \<in> unit_ranges" unfolding charging_outcome(2) [OF C] by (rule charging_range_unit)
  have "light_writes s2 = light_writes s1" using S by (auto simp: store_delays_def split: if_splits)
  then have "writes_ok (s2\<lparr>mLightsBrightness := ?br, mSequencerProgramTarget := program_target ?rgb a b, mLightsARGB := color st\<rparr>)"
    using charging_ok [OF C W] by simp
  moreover have "\<forall>i \<in> set [a..<Suc b]. 1 \<le> i \<and> i \<le> 3" using r by (auto simp: unit_ranges_def)
  ultimately show ?thesis by (intro program_ok [OF P program_target_le [OF r]] units_ok) (simp_all add: rgb_le)
qed

section \<open>The backlight\<close>

text \<open>The brightness of a colour and the value for the backlight, as natural numbers.\<close>

definition luma :: "light_state \<Rightarrow> nat" where
  "luma st = (let rgb = map unat (led_rgb (color st)) in (77 * rgb ! 0 + 150 * rgb ! 1 + 29 * rgb ! 2) div 256)"

definition lcd_steps :: "nat \<Rightarrow> nat" where
  "lcd_steps n = (if n = 0 then 0 else if n < 128 then 1 + n div 2 else 65 + (n - 128) * 190 div 127)"

lemma luma_le: "luma st \<le> 255"
proof -
  have "unat (led_rgb (color st) ! c) \<le> 255" if "c < 3" for c
    using rgb_le [OF that, of "color st"] by (simp add: word_le_nat_alt)
  from this [of 0] this [of 1] this [of 2] show ?thesis by (simp add: luma_def Let_def led_rgb_def)
qed

lemma brightness_luma: "unat (rgbToBrightness st) = luma st"
proof -
  let ?c = "color st"
  let ?r = "drop_bit 16 ?c AND 0xff" and ?g = "drop_bit 8 ?c AND 0xff" and ?b = "?c AND 0xff"
  have cut: "drop_bit 16 (?c AND 0xffffff) AND 0xff = ?r" "drop_bit 8 (?c AND 0xffffff) AND 0xff = ?g" "(?c AND 0xffffff) AND 0xff = ?b"
    unfolding masks by (auto simp: bit_eq_iff bit_simps)
  have le: "unat ?r \<le> 255" "unat ?g \<le> 255" "unat ?b \<le> 255" using byte_le by (simp_all add: word_le_nat_alt)
  have "unat (77 * ?r + 150 * ?g + 29 * ?b) = 77 * unat ?r + 150 * unat ?g + 29 * unat ?b"
    using le by (simp add: unat_word_ariths)
  moreover have "unat (drop_bit 8 x) = unat x div 256" for x :: u32 by (simp add: drop_bit_eq_div unat_div)
  ultimately have "unat (rgbToBrightness st) = (77 * unat ?r + 150 * unat ?g + 29 * unat ?b) div 256"
    unfolding rgbToBrightness_def Let_def cut by simp
  then show ?thesis by (simp add: luma_def led_rgb_def Let_def)
qed

lemma curve_steps:
  assumes "unat w \<le> 255"
  shows "unat (lcd_curve (lcd_limit w)) = lcd_steps (unat w)"
proof -
  have "w \<le> 0 \<longleftrightarrow> w = 0" "w < 1 \<longleftrightarrow> w = 0" "\<not> 255 < w" using assms by (unat_arith; simp)+
  then have "lcd_limit w = w" by (simp add: lcd_limit_def)
  moreover have "unat (1 + w div 2) = 1 + unat w div 2" using assms by (simp add: unat_word_ariths unat_div)
  moreover have "unat (1 + 128 div 2 + ((w - 128) * (255 - 128 div 2 - 1)) div (255 - 128)) = 65 + (unat w - 128) * 190 div 127"
    if "128 \<le> unat w"
  proof -
    define x where "x = w - 128"
    have d: "unat x = unat w - 128" unfolding x_def using that by (simp add: unat_sub word_le_nat_alt)
    then have "unat (x * 190) = (unat w - 128) * 190" using assms by (simp add: unat_word_ariths)
    then have q: "unat (x * 190 div 127) = (unat w - 128) * 190 div 127" by (simp add: unat_div)
    have "(unat w - 128) * 190 div 127 \<le> 190" using assms by linarith
    then show ?thesis using q unfolding x_def [symmetric] by (simp add: unat_word_ariths)
  qed
  ultimately show ?thesis
    by (auto simp: lcd_curve_def lcd_steps_def word_less_nat_alt unat_eq_0 not_less)
qed

lemma lcd_steps_bounds: "n \<le> 255 \<Longrightarrow> lcd_steps n \<le> 255" "lcd_steps n = 0 \<longleftrightarrow> n = 0"
proof -
  assume "n \<le> 255"
  then have "(n - 128) * 190 div 127 \<le> 190" by linarith
  then show "lcd_steps n \<le> 255" by (auto simp: lcd_steps_def)
qed (simp add: lcd_steps_def)

lemma lcd_steps_mono: "n \<le> m \<Longrightarrow> lcd_steps n \<le> lcd_steps m"
  by (auto simp: lcd_steps_def div_le_mono intro: le_trans [of _ 65] add_mono div_le_mono mult_le_mono)


section \<open>Properties\<close>

abbreviation light :: "u32 \<Rightarrow> flash \<Rightarrow> int \<Rightarrow> int \<Rightarrow> light_state" where
  "light c m on off \<equiv> \<lparr>color = c, flashMode = m, flashOnMs = on, flashOffMs = off\<rparr>"

abbreviation no_light :: light_state where
  "no_light \<equiv> light 0 FlashNone 0 0"

lemma setLight_ok:
  assumes "setLight t st s = Some (r, s1)" "writes_ok s"
  shows "writes_ok s1"
proof (cases "t \<in> {NOTIFICATIONS, BATTERY, ATTENTION}")
  case True
  from locked_front [of "given t st s"] obtain L where
    "setSpeakerBatteryLightLocked (given t st s) = setSpeakerLightLocked (front (given t st s)) ((given t st s)\<lparr>mLightsState := L\<rparr>)" by blast
  then have "setSpeakerLightLocked (front (given t st s)) ((given t st s)\<lparr>mLightsState := L\<rparr>) = Some s1"
    using assms(1) unfolding setLight_leds [OF True] by auto
  then show ?thesis by (rule speaker_ok) (use assms(2) in \<open>simp add: given_def\<close>)
next
  case False
  have "lcd_curve (lcd_limit (rgbToBrightness st)) \<le> 255"
    using curve_steps [of "rgbToBrightness st"] lcd_steps_bounds(1) [OF luma_le, of st] luma_le [of st]
    by (simp add: word_le_nat_alt brightness_luma)
  then show ?thesis using False assms
    by (cases t) (auto simp: setLight_def mLights_def setBacklight_def Let_def)
qed

lemma timely_calls_return:
  assumes "\<forall>st \<in> {a, b, n}. timely st" "\<forall>(t, st) \<in> set cs. timely st"
  shows "\<exists>s. set_lights cs (light_new a b n) = Some s"
proof -
  have "\<exists>s. set_lights cs (light_new a b n) = Some s \<and> writes_ok s \<and> all_given timely s"
  proof (rule set_lights_inv)
    show "writes_ok (light_new a b n) \<and> all_given timely (light_new a b n)" using assms(1) by (auto simp: light_new_def)
  next
    fix t st s
    assume t: "(t, st) \<in> set cs" and I: "writes_ok s \<and> all_given timely s"
    show "\<exists>r s1. setLight t st s = Some (r, s1) \<and> writes_ok s1 \<and> all_given timely s1"
    proof (cases "t \<in> {NOTIFICATIONS, BATTERY, ATTENTION}")
      case True
      have g: "all_given timely (given t st s)" using I t assms(2) by (auto intro!: given_all)
      then obtain s1 where s1: "setSpeakerBatteryLightLocked (given t st s) = Some s1" using locked_total front_all by blast
      from locked_front [of "given t st s"] s1 obtain L where
        "setSpeakerLightLocked (front (given t st s)) ((given t st s)\<lparr>mLightsState := L\<rparr>) = Some s1" by auto
      from speaker_step [OF this] g have "all_given timely s1" by auto
      moreover have run: "setLight t st s = Some (LIGHT_SUCCESS, s1)" using s1 unfolding setLight_leds [OF True] by simp
      ultimately show ?thesis using setLight_ok [OF run] I by blast
    next
      case False
      from setLight_other [OF False, of st s] obtain r es where e: "setLight t st s = Some (r, lwrites es s)" by blast
      from setLight_ok [OF e] I e show ?thesis by auto
    qed
  qed
  then show ?thesis by blast
qed

lemma set_lights_ok: "set_lights cs s = Some s' \<Longrightarrow> writes_ok s \<Longrightarrow> writes_ok s'"
proof (induction cs s rule: set_lights.induct)
  case (2 t st cs s)
  then obtain r s1 where "setLight t st s = Some (r, s1)" "set_lights cs s1 = Some s'" by (auto simp: Option.bind_eq_Some_conv)
  then show ?case using "2.IH" [of "(r, s1)" r s1] setLight_ok "2.prems"(2) by simp
qed simp

text \<open>
  C26. Whatever the framework asks for, everything that is written stays in bounds: the backlight up to 255, the current
  of each of the nine LEDs up to its preset, their brightness 0 or 255, modes for the three sequencers, and programs with exactly
  70 characters. A call has undefined behaviour only when some light was given a negative delay; otherwise all calls return.
\<close>

theorem light_writes_in_bounds:
  "case set_lights cs (light_new a b n) of
     Some s \<Rightarrow> \<forall>e \<in> set (light_writes s). write_ok e
   | None \<Rightarrow> \<exists>st \<in> {a, b, n} \<union> snd ` set cs. \<not> timely st"
proof (cases "set_lights cs (light_new a b n)")
  case None
  then have "\<not> ((\<forall>st \<in> {a, b, n}. timely st) \<and> (\<forall>(t, st) \<in> set cs. timely st))" using timely_calls_return [of a b n cs] by auto
  with None show ?thesis by fastforce
next
  case (Some s)
  have "writes_ok (light_new a b n)" by (auto simp: light_new_def)
  with set_lights_ok [OF Some] Some show ?thesis by simp
qed

theorem light_writes_in_bounds_witness:
  "\<exists>s. set_lights [(BACKLIGHT, light 0xffffff FlashNone 0 0), (NOTIFICATIONS, light 0xff00ff00 FlashTimed 1000 500)]
     (light_new no_light no_light no_light) = Some s \<and> (\<forall>e \<in> set (light_writes s). write_ok e)"
proof -
  let ?cs = "[(BACKLIGHT, light 0xffffff FlashNone 0 0), (NOTIFICATIONS, light 0xff00ff00 FlashTimed 1000 500)]"
  have t: "\<not> (\<exists>st \<in> {no_light, no_light, no_light} \<union> snd ` set ?cs. \<not> timely st)" by (simp add: timely_def)
  show ?thesis
    using light_writes_in_bounds [where cs = ?cs and a = no_light and b = no_light and n = no_light] t
    by (simp only: split: option.splits) auto
qed

text \<open>
  C27. The backlight follows the brightness of the colour on two straight lines: both files get the same value, it is 0
  only for a dark colour, at most 255, and a brighter colour never gives a smaller value.
\<close>

theorem backlight_curve:
  assumes "luma st \<le> luma st'"
  shows "\<exists>v v'. light_writes (setBacklight st s) = light_writes s @ [Backlight1 v, Backlight2 v] \<and>
     light_writes (setBacklight st' s) = light_writes s @ [Backlight1 v', Backlight2 v'] \<and>
     unat v = lcd_steps (luma st) \<and> v \<le> v' \<and> v' \<le> 255 \<and> (v = 0 \<longleftrightarrow> luma st = 0)"
proof (intro exI conjI)
  let ?v = "\<lambda>st. lcd_curve (lcd_limit (rgbToBrightness st))"
  have v: "unat (?v st) = lcd_steps (luma st)" for st
    using curve_steps [of "rgbToBrightness st"] luma_le [of st] by (simp add: brightness_luma)
  show "light_writes (setBacklight st s) = light_writes s @ [Backlight1 (?v st), Backlight2 (?v st)]"
    "light_writes (setBacklight st' s) = light_writes s @ [Backlight1 (?v st'), Backlight2 (?v st')]"
    by (simp_all add: setBacklight_def Let_def)
  show "unat (?v st) = lcd_steps (luma st)" by (rule v)
  show "?v st \<le> ?v st'" using lcd_steps_mono [OF assms] by (simp add: word_le_nat_alt v)
  show "?v st' \<le> 255" using lcd_steps_bounds(1) [OF luma_le, of st'] by (simp add: word_le_nat_alt v)
  have "?v st = 0 \<longleftrightarrow> unat (?v st) = 0" by (simp add: unat_eq_0)
  then show "?v st = 0 \<longleftrightarrow> luma st = 0" unfolding v by (simp add: lcd_steps_bounds(2))
qed

theorem backlight_curve_witness:
  "\<exists>v v'. light_writes (setBacklight (light 0x808080 FlashNone 0 0) (light_new no_light no_light no_light)) =
       light_writes (light_new no_light no_light no_light) @ [Backlight1 v, Backlight2 v] \<and> unat v = 65 \<and> v \<le> v' \<and> v' \<le> 255"
proof -
  have l: "luma (light 0x808080 FlashNone 0 0) = 128" "luma (light 0xffffff FlashNone 0 0) = 255"
    by (simp_all add: luma_def led_rgb_def Let_def)
  then have "luma (light 0x808080 FlashNone 0 0) \<le> luma (light 0xffffff FlashNone 0 0)" by simp
  from backlight_curve [OF this, of "light_new no_light no_light no_light"] show ?thesis
    by (auto simp: l lcd_steps_def)
qed

text \<open>
  C24. As long as the attention light is never lit and no delay is negative, and no light is lit at the start, the LED shows what was
  asked for last, whatever was asked for before and however few of the files were written again: while the battery charges it has the
  first unit at its reduced current, a notification has the units that are left, at the brightness of its colour, and all else is dark.
  (With the attention light the LED depends on what it showed before: lemma \<open>attention_depends_on_history\<close>.)
\<close>

theorem leds_show_last_states:
  assumes "\<forall>st \<in> {a, b, n}. timely st \<and> \<not> isLit st" "\<forall>(t, st) \<in> set cs. timely st \<and> (t = ATTENTION \<longrightarrow> \<not> isLit st)"
  shows "\<exists>s. set_lights cs (light_new a b n) = Some s \<and>
    (\<forall>u c. 1 \<le> u \<and> u \<le> 3 \<and> c < 3 \<longrightarrow>
       glows (shown s ((u - 1) * 3 + c)) (unit_current (last_given NOTIFICATIONS cs n) (last_given BATTERY cs b) u c))"
proof -
  have new: "mNotificationState (light_new a b n) = n" "mBatteryState (light_new a b n) = b" by (simp_all add: light_new_def)
  show ?thesis
    using sequence_led_inv [of "light_new a b n" cs] new_led_inv [of a b n] assms unfolding new led_inv_def by auto
qed

theorem leds_show_last_states_witness:
  "\<exists>s. set_lights [(BATTERY, light 0xffff0000 FlashNone 0 0), (NOTIFICATIONS, light 0xff0000ff FlashTimed 1000 1000),
       (NOTIFICATIONS, no_light)] (light_new no_light no_light no_light) = Some s \<and> glows (shown s 0) 25 \<and> glows (shown s 5) 0"
proof -
  let ?cs = "[(BATTERY, light 0xffff0000 FlashNone 0 0), (NOTIFICATIONS, light 0xff0000ff FlashTimed 1000 1000), (NOTIFICATIONS, no_light)]"
  have "\<forall>st \<in> {no_light, no_light, no_light}. timely st \<and> \<not> isLit st"
    "\<forall>(t, st) \<in> set ?cs. timely st \<and> (t = ATTENTION \<longrightarrow> \<not> isLit st)" by (simp_all add: timely_def isLit_def)
  from leds_show_last_states [OF this] obtain s where s: "set_lights ?cs (light_new no_light no_light no_light) = Some s" and
    g: "\<And>u c. 1 \<le> u \<Longrightarrow> u \<le> 3 \<Longrightarrow> c < 3 \<Longrightarrow> glows (shown s ((u - 1) * 3 + c)) (unit_current no_light (light 0xffff0000 FlashNone 0 0) u c)"
    by auto
  have "unit_current no_light (light 0xffff0000 FlashNone 0 0) 1 0 = 25" "unit_current no_light (light 0xffff0000 FlashNone 0 0) 2 2 = 0"
    by (simp_all add: unit_current_def isLit_def led_current_def current_ratio_def led_rgb_def leds_currents_def)
  with g [of 1 0] g [of 2 2] s show ?thesis by auto
qed

text \<open>
  C25. The blinking program: as long as the framework gives steady lights no delays and gives no negative delays, and no light is lit at
  the start, a running sequencer has been told to run and, unless the light is dark, has the program of the present target and delays;
  and when the light in front is lit and blinks, the sequencer does run. (A steady light with delays stops a later blinking one: lemma
  \<open>steady_delays_stop_blinking\<close>.)
\<close>

theorem blinking_program_current:
  assumes "\<forall>st \<in> {a, b, n}. timely st \<and> steady st \<and> \<not> isLit st" "\<forall>(t, st) \<in> set cs. timely st \<and> steady st"
  shows "\<exists>s. set_lights cs (light_new a b n) = Some s \<and>
    (mSequencer1State s = LEDS_SEQ_ENABLED \<longrightarrow>
       seq_text s ModeFile = Some ''reload'' \<and> seq_text s RunFile = Some ''run'' \<and>
       (mSequencerProgramTarget s \<noteq> 0 \<longrightarrow>
          seq_text s LoadFile = program_for (mSequencerProgramTarget s) (mLightsDelayOn s) (mLightsDelayOff s))) \<and>
    (isLit (front s) \<and> flash_mode (front s) = FlashTimed \<longrightarrow> mSequencer1State s = LEDS_SEQ_ENABLED)"
proof -
  have "all_given timely (light_new a b n)" "all_given steady (light_new a b n)" using assms(1) by (simp_all add: light_new_def)
  from sequence_seq_inv [OF new_seq_inv this assms(2)] assms(1) obtain s where
    "set_lights cs (light_new a b n) = Some s" "seq_inv s" by auto
  then show ?thesis by (auto simp: seq_inv_def sequencer_files_def program_memo_def)
qed

theorem blinking_program_current_witness:
  "\<exists>s. set_lights [(NOTIFICATIONS, light 0xff00ff00 FlashTimed 1000 500)] (light_new no_light no_light no_light) = Some s \<and>
     (isLit (front s) \<and> flash_mode (front s) = FlashTimed \<longrightarrow> mSequencer1State s = LEDS_SEQ_ENABLED)"
proof -
  have "\<forall>st \<in> {no_light, no_light, no_light}. timely st \<and> steady st \<and> \<not> isLit st"
    "\<forall>(t, st) \<in> set [(NOTIFICATIONS, light 0xff00ff00 FlashTimed 1000 500)]. timely st \<and> steady st"
    by (simp_all add: timely_def steady_def isLit_def)
  from blinking_program_current [OF this] show ?thesis by blast
qed

text \<open>
  Without that promise a blinking light may not blink: a steady light with delays loads the empty program, and a
  blinking one with the same colour and delays then finds nothing to update and runs it.
\<close>

theorem steady_delays_stop_blinking:
  assumes "lit col" "0 < on" "0 < off" "\<not> isLit b"
  shows "\<exists>s. set_lights [(NOTIFICATIONS, light col FlashNone on off), (NOTIFICATIONS, light col FlashTimed on off)]
       (light_new a b n) = Some s \<and> mSequencer1State s = LEDS_SEQ_ENABLED \<and> mSequencerProgramTarget s \<noteq> 0 \<and>
     seq_text s LoadFile = program_for 0 on off"
proof -
  let ?n1 = "light col FlashNone on off" and ?n2 = "light col FlashTimed on off"
  let ?s = "light_new a b n\<lparr>mNotificationState := ?n1\<rparr>" and ?t = "program_target (led_rgb col) 1 3"
  have lit: "isLit ?n1" "isLit ?n2" using assms(1) by (simp_all add: isLit_def)
  have t: "?t \<noteq> 0" using program_target_dark [of 1 3 col] assms(1) by (simp add: unit_ranges_def)
  have range: "charging_units br m x y (s0\<lparr>mLightsState := L\<rparr>) = Some (1, 3, m, x, y, s0\<lparr>mLightsState := L\<rparr>)"
    if "mBatteryState s0 = b" for br m x y s0 L using that assms(4) by (simp add: charging_units_def)
  have "timely ?n1" "timely ?n2" using assms(2,3) by (simp_all add: timely_def)
  then obtain s1 where s1: "setSpeakerLightLocked ?n1 (?s\<lparr>mLightsState := LEDS_NOTIFICATIONS\<rparr>) = Some s1"
    using speaker_total by blast
  have b0: "mBatteryState ?s = b" by (simp add: light_new_def)
  from speaker_step [OF s1] have m1: "mBatteryState s1 = b" "mSequencerProgramTarget s1 = ?t" "mLightsDelayOn s1 = on"
    "mLightsDelayOff s1 = off" "mLightsARGB s1 = col" "mLightsBrightness s1 = leds_brightness col" and
    q1: "mSequencer1State s1 = LEDS_SEQ_DISABLED" "seq_text s1 LoadFile = program_for 0 on off"
    using t assms(2,3) unfolding range [OF b0]
    by (auto simp: sequencer_step_def updates_def store_delays_def detect_updates_def light_new_def)
  let ?s1 = "s1\<lparr>mNotificationState := ?n2\<rparr>"
  obtain s2 where s2: "setSpeakerLightLocked ?n2 (?s1\<lparr>mLightsState := LEDS_NOTIFICATIONS\<rparr>) = Some s2"
    using speaker_total \<open>timely ?n2\<close> by blast
  have b1: "mBatteryState ?s1 = b" using m1(1) by simp
  from speaker_step [OF s2] have "mSequencer1State s2 = LEDS_SEQ_ENABLED" "mSequencerProgramTarget s2 = ?t"
    "seq_text s2 LoadFile = program_for 0 on off"
    using t assms(2,3) m1 q1 unfolding range [OF b1]
    by (auto simp: sequencer_step_def updates_def store_delays_def detect_updates_def)
  moreover have "set_lights [(NOTIFICATIONS, ?n1), (NOTIFICATIONS, ?n2)] (light_new a b n) = Some s2"
    using s1 s2 lit
    by (simp add: setLight_def mLights_def setNotificationLight_def setSpeakerBatteryLightLocked_def)
  ultimately show ?thesis using t by auto
qed

theorem steady_delays_stop_blinking_witness:
  "\<exists>s. set_lights [(NOTIFICATIONS, light 0xffff0000 FlashNone 1000 500), (NOTIFICATIONS, light 0xffff0000 FlashTimed 1000 500)]
       (light_new no_light no_light no_light) = Some s \<and> mSequencer1State s = LEDS_SEQ_ENABLED \<and> mSequencerProgramTarget s \<noteq> 0 \<and>
     seq_text s LoadFile = program_for 0 1000 500"
  by (rule steady_delays_stop_blinking) (simp_all add: isLit_def)

text \<open>
  The attention light is shown in the colours of whoever had the LED before it: after the same last states of all
  lights the LED may show it bright or at the current of a charging battery.
\<close>

theorem attention_depends_on_history:
  "\<exists>cs ds s s'. set_lights cs (light_new no_light no_light no_light) = Some s \<and>
     set_lights ds (light_new no_light no_light no_light) = Some s' \<and>
     (\<forall>t. last_given t cs no_light = last_given t ds no_light) \<and> shown s 0 = Some 52 \<and> shown s' 0 = Some 25"
proof -
  let ?att = "light 0xffff0000 FlashNone 0 0" and ?new = "light_new no_light no_light no_light"
  let ?cs = "[(NOTIFICATIONS, light 0xff00ff00 FlashNone 0 0), (ATTENTION, ?att), (NOTIFICATIONS, no_light)]"
  let ?ds = "[(BATTERY, no_light), (ATTENTION, ?att), (NOTIFICATIONS, no_light)]"
  have "map_option (\<lambda>s. shown s 0) (set_lights ?cs ?new) = Some (Some 52)" by code_simp
  moreover have "map_option (\<lambda>s. shown s 0) (set_lights ?ds ?new) = Some (Some 25)" by code_simp
  ultimately show ?thesis
    by (intro exI [of _ ?cs] exI [of _ ?ds]) auto
qed

end
