(* ===== verification/Looper.thy ===== *)
theory Looper
  imports Prelude
begin

text \<open>
  The message and event loop of \<open>libshims/utils/Looper.cpp\<close>. A looper keeps a queue of messages, ordered by
  the time they are due, and a table of descriptors it watches; \<open>pollOnce\<close> waits for either, hands the messages
  that are due to their handlers, calls the callbacks of the descriptors that are ready, and returns the
  identifiers of the others one after the other. Times are nanoseconds.
\<close>

section \<open>State\<close>

definition POLL_WAKE :: int where "POLL_WAKE = - 1"
definition POLL_CALLBACK :: int where "POLL_CALLBACK = - 2"
definition POLL_TIMEOUT :: int where "POLL_TIMEOUT = - 3"
definition POLL_ERROR :: int where "POLL_ERROR = - 4"

lemmas poll_codes = POLL_WAKE_def POLL_CALLBACK_def POLL_TIMEOUT_def POLL_ERROR_def

definition LLONG_MAX :: int where "LLONG_MAX = 2 ^ 63 - 1"

text \<open>A handler, by its address; a \<open>WeakMessageHandler\<close> names the handler it stands for.\<close>

datatype message_handler = Handler addr | WeakMessageHandler addr addr

record message_envelope =
  uptime :: int
  envelope_handler :: message_handler
  what :: int

record poll_request =
  request_fd :: int
  ident :: int
  request_callback :: "addr option"
  request_data :: addr

record poll_response =
  response_events :: u32
  response_request :: poll_request

text \<open>What can be seen of a looper from outside.\<close>

datatype looper_event =
    Waited int
  | Handled addr int int
  | Called addr int u32 addr
  | NullCallback int

record looper =
  mAllowNonCallbacks :: bool
  mMessageEnvelopes :: "message_envelope list"
  mSendingMessage :: bool
  mPolling :: bool
  mRequests :: "int \<rightharpoonup> poll_request"
  mResponses :: "poll_response list"
  mResponseIndex :: nat
  mNextMessageUptime :: int
  wake_pipe :: nat
  epoll_interest :: "int \<rightharpoonup> u32"
  clock_reads :: nat
  epoll_waits :: nat
  epoll_ctls :: nat
  looper_trace :: "looper_event list"

text \<open>The calls of a looper that a handler, a callback or another thread may make.\<close>

datatype looper_call =
    SendMessageAtTime int message_handler int
  | RemoveMessages message_handler
  | RemoveMessagesWhat message_handler int
  | AddFd int int u32 "addr option" addr
  | RemoveFd int
  | Wake

text \<open>
  The world around a looper: the readings of the clock, what the calls of \<open>epoll_wait\<close> give (\<open>None\<close> and whether it was
  interrupted, or the descriptors with their events), the calls that other threads make during each of those waits,
  which calls of \<open>epoll_ctl\<close> fail, how many bytes the wake pipe holds, the conversion of a time to a timeout in milliseconds, and the code of handlers and callbacks:
  what is called while they run, by them or by other threads, and for a callback its result.
\<close>

datatype epoll_result = EpollFailed bool | EpollEvents "(int \<times> u32) list"

record looper_env =
  clock :: "nat \<Rightarrow> int"
  epoll_wait :: "nat \<Rightarrow> epoll_result"
  epoll_ctl_fails :: "nat \<Rightarrow> bool"
  calls_while_waiting :: "nat \<Rightarrow> looper_call list"
  pipe_room :: nat
  wake_read_fd :: int
  toMillisecondTimeoutDelay :: "int \<Rightarrow> int \<Rightarrow> int"
  handler_alive :: "addr \<Rightarrow> looper \<Rightarrow> bool"
  handleMessage :: "addr \<Rightarrow> int \<Rightarrow> looper \<Rightarrow> looper_call list"
  handleEvent :: "addr \<Rightarrow> int \<Rightarrow> u32 \<Rightarrow> addr \<Rightarrow> looper \<Rightarrow> looper_call list \<times> int"

definition looper_new :: "bool \<Rightarrow> looper" where
  "looper_new allowNonCallbacks =
     \<lparr>mAllowNonCallbacks = allowNonCallbacks, mMessageEnvelopes = [], mSendingMessage = False, mPolling = False,
      mRequests = Map.empty, mResponses = [], mResponseIndex = 0, mNextMessageUptime = LLONG_MAX, wake_pipe = 0,
      epoll_interest = Map.empty, clock_reads = 0, epoll_waits = 0, epoll_ctls = 0, looper_trace = []\<rparr>"

definition getAllowNonCallbacks :: "looper \<Rightarrow> bool" where
  "getAllowNonCallbacks s = mAllowNonCallbacks s"

definition isPolling :: "looper \<Rightarrow> bool" where
  "isPolling s = mPolling s"

definition looper_emit :: "looper_event \<Rightarrow> looper \<Rightarrow> looper" where
  "looper_emit e s = s\<lparr>looper_trace := looper_trace s @ [e]\<rparr>"

section \<open>The wake pipe\<close>

text \<open>A write to a full pipe fails, which is no harm.\<close>

definition wake :: "looper_env \<Rightarrow> looper \<Rightarrow> looper" where
  "wake env s = (if wake_pipe s < pipe_room env then s\<lparr>wake_pipe := wake_pipe s + 1\<rparr> else s)"

text \<open>Up to 16 bytes are read until fewer come.\<close>

fun awoken_reads :: "nat \<Rightarrow> nat" where
  "awoken_reads n = (if n < 16 then 0 else awoken_reads (n - 16))"

declare awoken_reads.simps [simp del]

definition awoken :: "looper \<Rightarrow> looper" where
  "awoken s = s\<lparr>wake_pipe := awoken_reads (wake_pipe s)\<rparr>"

section \<open>Messages\<close>

fun message_index :: "int \<Rightarrow> message_envelope list \<Rightarrow> nat" where
  "message_index t [] = 0"
| "message_index t (m # ms) = (if uptime m \<le> t then Suc (message_index t ms) else 0)"

definition sendMessageAtTime :: "looper_env \<Rightarrow> int \<Rightarrow> message_handler \<Rightarrow> int \<Rightarrow> looper \<Rightarrow> looper" where
  "sendMessageAtTime env t h msg s =
     (let i = message_index t (mMessageEnvelopes s);
          s1 = s\<lparr>mMessageEnvelopes := take i (mMessageEnvelopes s) @
                   \<lparr>uptime = t, envelope_handler = h, what = msg\<rparr> # drop i (mMessageEnvelopes s)\<rparr>
      in if mSendingMessage s then s1 else if i = 0 then wake env s1 else s1)"

definition systemTime :: "looper_env \<Rightarrow> looper \<Rightarrow> int \<times> looper" where
  "systemTime env s = (clock env (clock_reads s), s\<lparr>clock_reads := clock_reads s + 1\<rparr>)"

definition sendMessage :: "looper_env \<Rightarrow> message_handler \<Rightarrow> int \<Rightarrow> looper \<Rightarrow> looper" where
  "sendMessage env h msg s = (case systemTime env s of (now, s1) \<Rightarrow> sendMessageAtTime env now h msg s1)"

definition sendMessageDelayed :: "looper_env \<Rightarrow> int \<Rightarrow> message_handler \<Rightarrow> int \<Rightarrow> looper \<Rightarrow> looper" where
  "sendMessageDelayed env uptimeDelay h msg s =
     (case systemTime env s of (now, s1) \<Rightarrow> sendMessageAtTime env (now + uptimeDelay) h msg s1)"

text \<open>From the back, the messages of a handler are taken out.\<close>

fun remove_from :: "(message_envelope \<Rightarrow> bool) \<Rightarrow> nat \<Rightarrow> message_envelope list \<Rightarrow> message_envelope list" where
  "remove_from p 0 ms = ms"
| "remove_from p (Suc i) ms = remove_from p i (if p (ms ! i) then take i ms @ drop (Suc i) ms else ms)"

definition removeMessages :: "message_handler \<Rightarrow> looper \<Rightarrow> looper" where
  "removeMessages h s =
     s\<lparr>mMessageEnvelopes := remove_from (\<lambda>m. envelope_handler m = h) (length (mMessageEnvelopes s)) (mMessageEnvelopes s)\<rparr>"

definition removeMessages_what :: "message_handler \<Rightarrow> int \<Rightarrow> looper \<Rightarrow> looper" where
  "removeMessages_what h w s =
     s\<lparr>mMessageEnvelopes := remove_from (\<lambda>m. envelope_handler m = h \<and> what m = w) (length (mMessageEnvelopes s)) (mMessageEnvelopes s)\<rparr>"

section \<open>Descriptors\<close>

definition epoll_ctl :: "looper_env \<Rightarrow> int \<Rightarrow> u32 option \<Rightarrow> looper \<Rightarrow> bool \<times> looper" where
  "epoll_ctl env fd events s =
     (let s1 = s\<lparr>epoll_ctls := epoll_ctls s + 1\<rparr>
      in if epoll_ctl_fails env (epoll_ctls s) then (False, s1)
         else (True, s1\<lparr>epoll_interest := (epoll_interest s)(fd := events)\<rparr>))"

text \<open>Input and output are the bits 0 and 1 of the looper, and 0 and 2 of \<open>epoll\<close>; errors 2 and 3, hangups 3 and 4.\<close>

definition epoll_events :: "u32 \<Rightarrow> u32" where
  "epoll_events events = or (if and events 1 \<noteq> 0 then 1 else 0) (if and events 2 \<noteq> 0 then 4 else 0)"

definition looper_events :: "u32 \<Rightarrow> u32" where
  "looper_events e = or (if and e 1 \<noteq> 0 then 1 else 0) (or (if and e 4 \<noteq> 0 then 2 else 0)
     (or (if and e 8 \<noteq> 0 then 4 else 0) (if and e 16 \<noteq> 0 then 8 else 0)))"

definition addFd :: "looper_env \<Rightarrow> int \<Rightarrow> int \<Rightarrow> u32 \<Rightarrow> addr option \<Rightarrow> addr \<Rightarrow> looper \<Rightarrow> int \<times> looper" where
  "addFd env fd n events callback data s =
     (if callback = None \<and> (\<not> mAllowNonCallbacks s \<or> n < 0) then (- 1, s)
      else let request = \<lparr>request_fd = fd, ident = (if callback = None then n else POLL_CALLBACK),
                 request_callback = callback, request_data = data\<rparr>
           in case epoll_ctl env fd (Some (epoll_events events)) s of
                (False, s1) \<Rightarrow> (- 1, s1)
              | (True, s1) \<Rightarrow> (1, s1\<lparr>mRequests := (mRequests s)(fd \<mapsto> request)\<rparr>))"

definition removeFd :: "looper_env \<Rightarrow> int \<Rightarrow> looper \<Rightarrow> int \<times> looper" where
  "removeFd env fd s =
     (if mRequests s fd = None then (0, s)
      else case epoll_ctl env fd None s of
             (False, s1) \<Rightarrow> (- 1, s1)
           | (True, s1) \<Rightarrow> (1, s1\<lparr>mRequests := (mRequests s)(fd := None)\<rparr>))"

fun looper_step :: "looper_env \<Rightarrow> looper_call \<Rightarrow> looper \<Rightarrow> looper" where
  "looper_step env (SendMessageAtTime t h msg) s = sendMessageAtTime env t h msg s"
| "looper_step env (RemoveMessages h) s = removeMessages h s"
| "looper_step env (RemoveMessagesWhat h w) s = removeMessages_what h w s"
| "looper_step env (AddFd fd n events callback data) s = snd (addFd env fd n events callback data s)"
| "looper_step env (RemoveFd fd) s = snd (removeFd env fd s)"
| "looper_step env Wake s = wake env s"

abbreviation looper_steps :: "looper_env \<Rightarrow> looper_call list \<Rightarrow> looper \<Rightarrow> looper" where
  "looper_steps env cs s \<equiv> fold (looper_step env) cs s"

section \<open>Polling\<close>

definition pushResponse :: "u32 \<Rightarrow> poll_request \<Rightarrow> looper \<Rightarrow> looper" where
  "pushResponse events request s =
     s\<lparr>mResponses := mResponses s @ [\<lparr>response_events = events, response_request = request\<rparr>]\<rparr>"

definition poll_event :: "looper_env \<Rightarrow> int \<times> u32 \<Rightarrow> looper \<Rightarrow> looper" where
  "poll_event env e s =
     (case e of (fd, events) \<Rightarrow>
        if fd = wake_read_fd env then (if and events 1 \<noteq> 0 then awoken s else s)
        else case mRequests s fd of
               None \<Rightarrow> s
             | Some request \<Rightarrow> pushResponse (looper_events events) request s)"

text \<open>A weak handler does nothing when the handler it stands for is gone.\<close>

definition handle_message :: "looper_env \<Rightarrow> message_handler \<Rightarrow> int \<Rightarrow> int \<Rightarrow> looper \<Rightarrow> looper" where
  "handle_message env h msg now s =
     (case h of
        Handler a \<Rightarrow> looper_steps env (handleMessage env a msg s) (looper_emit (Handled a msg now) s)
      | WeakMessageHandler _ a \<Rightarrow>
          if handler_alive env a s then looper_steps env (handleMessage env a msg s) (looper_emit (Handled a msg now) s) else s)"

text \<open>The messages that are due; the clock is read before each. A loop that never ends is \<open>None\<close>.\<close>

partial_function (option) send_due :: "looper_env \<Rightarrow> int \<Rightarrow> looper \<Rightarrow> (int \<times> looper) option" where
  "send_due env result s =
     (case mMessageEnvelopes s of
        [] \<Rightarrow> Some (result, s)
      | m # ms \<Rightarrow>
          (case systemTime env s of (now, s1) \<Rightarrow>
             if uptime m \<le> now
             then send_due env POLL_CALLBACK
                    ((handle_message env (envelope_handler m) (what m) now
                       (s1\<lparr>mMessageEnvelopes := ms, mSendingMessage := True\<rparr>))\<lparr>mSendingMessage := False\<rparr>)
             else Some (result, s1\<lparr>mNextMessageUptime := uptime m\<rparr>)))"

definition call_response :: "looper_env \<Rightarrow> nat \<Rightarrow> int \<times> looper \<Rightarrow> int \<times> looper" where
  "call_response env i rs =
     (case rs of (result, s) \<Rightarrow>
        let response = mResponses s ! i; request = response_request response; fd = request_fd request
        in if ident request = POLL_CALLBACK
           then case request_callback request of
                  None \<Rightarrow> (result, looper_emit (NullCallback fd) s)
                | Some cb \<Rightarrow>
                    (case handleEvent env cb fd (response_events response) (request_data request) s of (cs, callbackResult) \<Rightarrow>
                       let s1 = looper_steps env cs (looper_emit (Called cb fd (response_events response) (request_data request)) s);
                           s2 = (if callbackResult = 0 then snd (removeFd env fd s1) else s1)
                       in (POLL_CALLBACK,
                           s2\<lparr>mResponses := (mResponses s2)[i := response\<lparr>response_request := request\<lparr>request_callback := None\<rparr>\<rparr>]\<rparr>))
           else (result, s))"

definition poll_timeout :: "looper_env \<Rightarrow> int \<Rightarrow> looper \<Rightarrow> int \<times> looper" where
  "poll_timeout env timeoutMillis s =
     (if timeoutMillis \<noteq> 0 \<and> mNextMessageUptime s \<noteq> LLONG_MAX
      then case systemTime env s of (now, s1) \<Rightarrow>
             let messageTimeoutMillis = toMillisecondTimeoutDelay env now (mNextMessageUptime s)
             in (if 0 \<le> messageTimeoutMillis \<and> (timeoutMillis < 0 \<or> messageTimeoutMillis < timeoutMillis)
                 then messageTimeoutMillis else timeoutMillis, s1)
      else (timeoutMillis, s))"

definition pollInner :: "looper_env \<Rightarrow> int \<Rightarrow> looper \<Rightarrow> (int \<times> looper) option" where
  "pollInner env timeoutMillis s =
     (case poll_timeout env timeoutMillis s of (timeout, s1) \<Rightarrow>
        let s2 = (looper_steps env (calls_while_waiting env (epoll_waits s1)) (looper_emit (Waited timeout)
              (s1\<lparr>mResponses := [], mResponseIndex := 0, epoll_waits := epoll_waits s1 + 1, mPolling := True\<rparr>)))\<lparr>mPolling := False\<rparr>
        in case (case epoll_wait env (epoll_waits s1) of
                   EpollFailed interrupted \<Rightarrow> (if interrupted then POLL_WAKE else POLL_ERROR, s2)
                 | EpollEvents [] \<Rightarrow> (POLL_TIMEOUT, s2)
                 | EpollEvents es \<Rightarrow> (POLL_WAKE, fold (poll_event env) (take 16 es) s2)) of
             (result, s3) \<Rightarrow>
               map_option (\<lambda>(result, s4). fold (call_response env) [0..<length (mResponses s4)] (result, s4))
                 (send_due env result (s3\<lparr>mNextMessageUptime := LLONG_MAX\<rparr>)))"

text \<open>The responses that are left; one with an identifier is returned.\<close>

fun next_response :: "poll_response list \<Rightarrow> nat \<Rightarrow> (poll_response \<times> nat) option" where
  "next_response [] i = None"
| "next_response (r # rs) i = (if 0 \<le> ident (response_request r) then Some (r, Suc i) else next_response rs (Suc i))"

text \<open>The result, with the descriptor, the events and the data that are stored for the caller.\<close>

type_synonym poll_result = "int \<times> int \<times> u32 \<times> addr option"

partial_function (option) poll_from :: "looper_env \<Rightarrow> int \<Rightarrow> int \<Rightarrow> looper \<Rightarrow> (poll_result \<times> looper) option" where
  "poll_from env timeoutMillis result s =
     (case next_response (drop (mResponseIndex s) (mResponses s)) (mResponseIndex s) of
        Some (r, i) \<Rightarrow>
          Some ((ident (response_request r), request_fd (response_request r), response_events r, Some (request_data (response_request r))),
                s\<lparr>mResponseIndex := i\<rparr>)
      | None \<Rightarrow>
          if result \<noteq> 0
          then Some ((result, 0, 0, None), s\<lparr>mResponseIndex := max (mResponseIndex s) (length (mResponses s))\<rparr>)
          else Option.bind (pollInner env timeoutMillis (s\<lparr>mResponseIndex := max (mResponseIndex s) (length (mResponses s))\<rparr>))
                 (\<lambda>(result, s1). poll_from env timeoutMillis result s1))"

definition pollOnce :: "looper_env \<Rightarrow> int \<Rightarrow> looper \<Rightarrow> (poll_result \<times> looper) option" where
  "pollOnce env timeoutMillis s = poll_from env timeoutMillis 0 s"

partial_function (option) poll_again :: "looper_env \<Rightarrow> int \<Rightarrow> looper \<Rightarrow> (poll_result \<times> looper) option" where
  "poll_again env timeoutMillis s =
     Option.bind (pollOnce env timeoutMillis s)
       (\<lambda>(r, s1). if fst r = POLL_CALLBACK then poll_again env timeoutMillis s1 else Some (r, s1))"

partial_function (option) poll_until :: "looper_env \<Rightarrow> int \<Rightarrow> int \<Rightarrow> looper \<Rightarrow> (poll_result \<times> looper) option" where
  "poll_until env endTime timeoutMillis s =
     Option.bind (pollOnce env timeoutMillis s)
       (\<lambda>(r, s1).
          if fst r \<noteq> POLL_CALLBACK then Some (r, s1)
          else case systemTime env s1 of (now, s2) \<Rightarrow>
                 if toMillisecondTimeoutDelay env now endTime = 0 then Some ((POLL_TIMEOUT, snd r), s2)
                 else poll_until env endTime (toMillisecondTimeoutDelay env now endTime) s2)"

definition pollAll :: "looper_env \<Rightarrow> int \<Rightarrow> looper \<Rightarrow> (poll_result \<times> looper) option" where
  "pollAll env timeoutMillis s =
     (if timeoutMillis \<le> 0 then poll_again env timeoutMillis s
      else case systemTime env s of (now, s1) \<Rightarrow> poll_until env (now + timeoutMillis * 1000000) timeoutMillis s1)"


section \<open>The looper of a thread\<close>

text \<open>
  The looper that is stored for the thread, how often the storage has counted each looper, and the option each looper was
  made with. The address of a new looper is an argument.
\<close>

record looper_thread =
  tls_looper :: "addr option"
  tls_refs :: "addr \<Rightarrow> int"
  made_loopers :: "addr \<rightharpoonup> bool"

definition getForThread :: "looper_thread \<Rightarrow> addr option" where
  "getForThread s = tls_looper s"

definition count_looper :: "int \<Rightarrow> addr option \<Rightarrow> looper_thread \<Rightarrow> looper_thread" where
  "count_looper d l s = (case l of None \<Rightarrow> s | Some a \<Rightarrow> s\<lparr>tls_refs := (tls_refs s)(a := tls_refs s a + d)\<rparr>)"

definition setForThread :: "addr option \<Rightarrow> looper_thread \<Rightarrow> looper_thread" where
  "setForThread looper s =
     (let old = getForThread s
      in count_looper (- 1) old ((count_looper 1 looper s)\<lparr>tls_looper := looper\<rparr>))"

definition threadDestructor :: "addr option \<Rightarrow> looper_thread \<Rightarrow> looper_thread" where
  "threadDestructor self s = count_looper (- 1) self s"

definition prepare_looper :: "u32 \<Rightarrow> addr \<Rightarrow> looper_thread \<Rightarrow> addr \<times> looper_thread" where
  "prepare_looper opts new_looper s =
     (case getForThread s of
        Some a \<Rightarrow> (a, s)
      | None \<Rightarrow> (new_looper, setForThread (Some new_looper) (s\<lparr>made_loopers := (made_loopers s)(new_looper \<mapsto> and opts 1 \<noteq> 0)\<rparr>)))"

end
