(* ===== verification/LooperProps.thy ===== *)
theory LooperProps
  imports Looper
begin

text \<open>
  The invariants of a looper under the calls of its clients and its own polls, and its properties.
\<close>

section \<open>The queue\<close>

lemma message_index_length: "message_index t ms = length (takeWhile (\<lambda>m. uptime m \<le> t) ms)"
  by (induction ms) simp_all

lemma queue_insert:
  "take (message_index t ms) ms @ m # drop (message_index t ms) ms = ins_at (\<lambda>m. uptime m \<le> t) m ms"
  unfolding message_index_length ins_at_def by (simp add: takeWhile_eq_take [symmetric] dropWhile_eq_drop [symmetric])

lemma remove_from_filter:
  "n \<le> length ms \<Longrightarrow> remove_from p n ms = filter (\<lambda>m. \<not> p m) (take n ms) @ drop n ms"
proof (induction n arbitrary: ms)
  case (Suc n)
  then have n: "n < length ms" by simp
  have "take (Suc n) ms = take n ms @ [ms ! n]" "drop n ms = ms ! n # drop (Suc n) ms"
    using n by (simp_all add: take_Suc_conv_app_nth Cons_nth_drop_Suc)
  then show ?case using Suc.IH [of ms] Suc.IH [of "take n ms @ drop (Suc n) ms"] n by simp
qed simp

lemma remove_all: "remove_from p (length ms) ms = filter (\<lambda>m. \<not> p m) ms"
  by (simp add: remove_from_filter)

section \<open>The invariant\<close>

definition request_ok :: "bool \<Rightarrow> int \<Rightarrow> poll_request \<Rightarrow> bool" where
  "request_ok allow fd r \<longleftrightarrow> request_fd r = fd \<and>
     (ident r = POLL_CALLBACK \<and> request_callback r \<noteq> None \<or> 0 \<le> ident r \<and> request_callback r = None \<and> allow)"

definition looper_inv :: "looper \<Rightarrow> bool" where
  "looper_inv s \<longleftrightarrow> sorted (map uptime (mMessageEnvelopes s)) \<and> dom (mRequests s) = dom (epoll_interest s) \<and>
     (\<forall>fd r. mRequests s fd = Some r \<longrightarrow> request_ok (mAllowNonCallbacks s) fd r)"

text \<open>The loop knows of the first message, or a byte in the pipe will wake it.\<close>

definition head_known :: "looper \<Rightarrow> bool" where
  "head_known s \<longleftrightarrow> mMessageEnvelopes s \<noteq> [] \<longrightarrow> mNextMessageUptime s \<le> uptime (hd (mMessageEnvelopes s)) \<or> 0 < wake_pipe s"

text \<open>What the calls of clients leave alone.\<close>

definition same_poll :: "looper \<Rightarrow> looper \<Rightarrow> bool" where
  "same_poll s s' \<longleftrightarrow> mAllowNonCallbacks s' = mAllowNonCallbacks s \<and> mSendingMessage s' = mSendingMessage s \<and>
     mResponses s' = mResponses s \<and> mResponseIndex s' = mResponseIndex s \<and> mNextMessageUptime s' = mNextMessageUptime s \<and>
     looper_trace s' = looper_trace s \<and> clock_reads s' = clock_reads s \<and> epoll_waits s' = epoll_waits s"

lemma same_poll_refl [simp]: "same_poll s s"
  by (simp add: same_poll_def)

lemma same_poll_trans: "same_poll s s1 \<Longrightarrow> same_poll s1 s2 \<Longrightarrow> same_poll s s2"
  by (simp add: same_poll_def)

lemma wake_simps [simp]:
  "same_poll s (wake env s)" "mMessageEnvelopes (wake env s) = mMessageEnvelopes s" "mRequests (wake env s) = mRequests s"
  "epoll_interest (wake env s) = epoll_interest s" "mNextMessageUptime (wake env s) = mNextMessageUptime s"
  "mAllowNonCallbacks (wake env s) = mAllowNonCallbacks s"
  by (simp_all add: wake_def same_poll_def)

lemma wake_pipe_pos: "0 < pipe_room env \<Longrightarrow> 0 < wake_pipe (wake env s)" "wake_pipe s \<le> wake_pipe (wake env s)"
  by (auto simp: wake_def)

lemma step_same: "same_poll s (looper_step env c s)"
  by (cases c)
    (auto simp: same_poll_def sendMessageAtTime_def Let_def wake_def removeMessages_def removeMessages_what_def addFd_def removeFd_def
      epoll_ctl_def split: prod.splits option.splits bool.splits)

lemma steps_same: "same_poll s (looper_steps env cs s)"
  by (induction cs arbitrary: s) (auto intro: same_poll_trans step_same)

lemma looper_inv_wake [simp]: "looper_inv (wake env s) = looper_inv s"
  by (simp add: looper_inv_def)

lemma sorted_filter_uptime: "sorted (map uptime ms) \<Longrightarrow> sorted (map uptime (filter p ms))"
  by (induction ms) auto

lemma looper_step_inv:
  assumes "looper_inv s"
  shows "looper_inv (looper_step env c s)"
proof (cases c)
  case (SendMessageAtTime t h m)
  let ?s = "s\<lparr>mMessageEnvelopes := take (message_index t (mMessageEnvelopes s)) (mMessageEnvelopes s) @
      \<lparr>uptime = t, envelope_handler = h, what = m\<rparr> # drop (message_index t (mMessageEnvelopes s)) (mMessageEnvelopes s)\<rparr>"
  have "sorted (map uptime (mMessageEnvelopes ?s))"
    using assms sorted_ins_at_le [of uptime "mMessageEnvelopes s" "\<lparr>uptime = t, envelope_handler = h, what = m\<rparr>"]
    by (simp add: looper_inv_def queue_insert del: map_append)
  then have "looper_inv ?s" using assms by (simp add: looper_inv_def del: map_append)
  moreover have "looper_step env c s = ?s \<or> looper_step env c s = wake env ?s"
    using SendMessageAtTime by (auto simp: sendMessageAtTime_def Let_def)
  ultimately show ?thesis by auto
next
  case (AddFd fd n ev cb d)
  then show ?thesis using assms
    by (auto simp: addFd_def epoll_ctl_def Let_def looper_inv_def split: if_splits) (auto simp: request_ok_def)
next
  case (RemoveFd fd)
  then show ?thesis using assms
    by (auto simp: removeFd_def epoll_ctl_def Let_def looper_inv_def split: if_splits)
next
  case Wake
  then show ?thesis using assms by (simp add: looper_inv_def)
qed (use assms in \<open>simp_all add: looper_inv_def removeMessages_def removeMessages_what_def remove_all sorted_filter_uptime\<close>)

lemma steps_inv: "looper_inv s \<Longrightarrow> looper_inv (looper_steps env cs s)"
  by (induction cs arbitrary: s) (simp_all add: looper_step_inv)

lemma hd_filter_uptime:
  assumes "sorted (map uptime ms)" "filter p ms \<noteq> []"
  shows "uptime (hd ms) \<le> uptime (hd (filter p ms))"
  using assms by (cases ms) (auto dest: hd_in_set)

lemma head_known_filter:
  assumes "head_known s" "sorted (map uptime (mMessageEnvelopes s))"
  shows "head_known (s\<lparr>mMessageEnvelopes := filter p (mMessageEnvelopes s)\<rparr>)"
  using assms hd_filter_uptime [OF assms(2), of p] by (cases "mMessageEnvelopes s = []") (auto simp: head_known_def)

lemma step_head:
  assumes "looper_inv s" "head_known s" "\<not> mSendingMessage s" "0 < pipe_room env"
  shows "head_known (looper_step env c s)"
proof (cases c)
  case (SendMessageAtTime t h m)
  let ?s = "s\<lparr>mMessageEnvelopes := take (message_index t (mMessageEnvelopes s)) (mMessageEnvelopes s) @
      \<lparr>uptime = t, envelope_handler = h, what = m\<rparr> # drop (message_index t (mMessageEnvelopes s)) (mMessageEnvelopes s)\<rparr>"
  show ?thesis
  proof (cases "message_index t (mMessageEnvelopes s) = 0")
    case True
    then show ?thesis using assms SendMessageAtTime wake_pipe_pos(1) [OF assms(4)]
      by (simp add: sendMessageAtTime_def Let_def head_known_def)
  next
    case False
    then have "mMessageEnvelopes s \<noteq> []" "hd (mMessageEnvelopes ?s) = hd (mMessageEnvelopes s)"
      by (cases "mMessageEnvelopes s"; simp split: if_splits)+
    then show ?thesis using assms False SendMessageAtTime by (simp add: sendMessageAtTime_def Let_def head_known_def)
  qed
next
  case (AddFd fd n ev cb d)
  then show ?thesis using assms(2)
    by (auto simp: addFd_def epoll_ctl_def Let_def head_known_def)
next
  case (RemoveFd fd)
  then show ?thesis using assms(2)
    by (auto simp: removeFd_def epoll_ctl_def Let_def head_known_def)
next
  case Wake
  then show ?thesis using assms(2) wake_pipe_pos(2) [of s env] by (auto simp: head_known_def)
qed (use assms(1,2) head_known_filter in \<open>simp_all add: removeMessages_def removeMessages_what_def remove_all looper_inv_def\<close>)

lemma steps_head:
  "looper_inv s \<Longrightarrow> head_known s \<Longrightarrow> \<not> mSendingMessage s \<Longrightarrow> 0 < pipe_room env \<Longrightarrow> head_known (looper_steps env cs s)"
proof (induction cs arbitrary: s)
  case (Cons c cs)
  have "\<not> mSendingMessage (looper_step env c s)" using step_same [of s env c] Cons.prems(3) by (simp add: same_poll_def)
  with Cons looper_step_inv [of s] step_head [of s] show ?case by simp
qed simp


section \<open>Polls\<close>

text \<open>Fields that the poll itself changes are not in the invariant.\<close>

lemma looper_inv_upd [simp]:
  "looper_inv (s\<lparr>clock_reads := n\<rparr>) = looper_inv s" "looper_inv (s\<lparr>mSendingMessage := b\<rparr>) = looper_inv s"
  "looper_inv (s\<lparr>mNextMessageUptime := t\<rparr>) = looper_inv s" "looper_inv (s\<lparr>mResponses := rs\<rparr>) = looper_inv s"
  "looper_inv (s\<lparr>mResponseIndex := i\<rparr>) = looper_inv s" "looper_inv (s\<lparr>mPolling := b\<rparr>) = looper_inv s"
  "looper_inv (s\<lparr>epoll_waits := n\<rparr>) = looper_inv s" "looper_inv (s\<lparr>wake_pipe := n\<rparr>) = looper_inv s"
  "looper_inv (looper_emit e s) = looper_inv s"
  by (simp_all add: looper_inv_def looper_emit_def)

lemma emit_simps [simp]:
  "mMessageEnvelopes (looper_emit e s) = mMessageEnvelopes s" "mSendingMessage (looper_emit e s) = mSendingMessage s"
  "mResponses (looper_emit e s) = mResponses s" "mNextMessageUptime (looper_emit e s) = mNextMessageUptime s"
  "mResponseIndex (looper_emit e s) = mResponseIndex s" "wake_pipe (looper_emit e s) = wake_pipe s"
  "mAllowNonCallbacks (looper_emit e s) = mAllowNonCallbacks s" "clock_reads (looper_emit e s) = clock_reads s"
  "looper_trace (looper_emit e s) = looper_trace s @ [e]" "mRequests (looper_emit e s) = mRequests s"
  "epoll_interest (looper_emit e s) = epoll_interest s" "epoll_waits (looper_emit e s) = epoll_waits s"
  by (simp_all add: looper_emit_def)

definition handler_target :: "message_handler \<Rightarrow> addr" where
  "handler_target h = (case h of Handler a \<Rightarrow> a | WeakMessageHandler _ a \<Rightarrow> a)"

lemma handle_cases:
  "handle_message env h msg now s = looper_steps env (handleMessage env (handler_target h) msg s) (looper_emit (Handled (handler_target h) msg now) s) \<or>
   handle_message env h msg now s = s \<and> (\<exists>w a. h = WeakMessageHandler w a \<and> \<not> handler_alive env a s)"
  by (auto simp: handle_message_def handler_target_def split: message_handler.splits)

lemma handle_fields:
  "mAllowNonCallbacks (handle_message env h msg now s) = mAllowNonCallbacks s"
  "mSendingMessage (handle_message env h msg now s) = mSendingMessage s"
  "mResponses (handle_message env h msg now s) = mResponses s"
  "mResponseIndex (handle_message env h msg now s) = mResponseIndex s"
  "epoll_waits (handle_message env h msg now s) = epoll_waits s"
  "mNextMessageUptime (handle_message env h msg now s) = mNextMessageUptime s"
  "clock_reads (handle_message env h msg now s) = clock_reads s"
  using handle_cases [of env h msg now s]
    steps_same [of "looper_emit (Handled (handler_target h) msg now) s" env "handleMessage env (handler_target h) msg s"]
  by (auto simp: same_poll_def)

lemma handle_inv: "looper_inv s \<Longrightarrow> looper_inv (handle_message env h msg now s)"
  using handle_cases [of env h msg now s] by (auto intro!: steps_inv)

definition only_handled :: "looper \<Rightarrow> looper \<Rightarrow> bool" where
  "only_handled s s' \<longleftrightarrow> (\<exists>es. looper_trace s' = looper_trace s @ es \<and> (\<forall>e \<in> set es. \<exists>a m now. e = Handled a m now))"

lemma only_handled_refl: "looper_trace s' = looper_trace s \<Longrightarrow> only_handled s s'"
  by (simp add: only_handled_def)

lemma only_handled_trans:
  assumes "only_handled s s1" "only_handled s1 s2"
  shows "only_handled s s2"
proof -
  from assms obtain es fs where "looper_trace s1 = looper_trace s @ es" "looper_trace s2 = looper_trace s1 @ fs"
    "\<forall>e \<in> set es. \<exists>a m now. e = Handled a m now" "\<forall>e \<in> set fs. \<exists>a m now. e = Handled a m now"
    unfolding only_handled_def by blast
  then show ?thesis unfolding only_handled_def by (intro exI [of _ "es @ fs"]) auto
qed

lemma handle_only: "only_handled s (handle_message env h msg now s)"
  using handle_cases [of env h msg now s]
    steps_same [of "looper_emit (Handled (handler_target h) msg now) s" env "handleMessage env (handler_target h) msg s"]
  by (auto simp: same_poll_def only_handled_def)

definition after_sends :: "looper \<Rightarrow> int \<Rightarrow> int \<Rightarrow> looper \<Rightarrow> bool" where
  "after_sends s result result' s' \<longleftrightarrow> looper_inv s' \<and> \<not> mSendingMessage s' \<and> result' \<in> {result, POLL_CALLBACK} \<and>
     mResponses s' = mResponses s \<and> mResponseIndex s' = mResponseIndex s \<and> epoll_waits s' = epoll_waits s \<and>
     mAllowNonCallbacks s' = mAllowNonCallbacks s \<and>
     only_handled s s' \<and> (mMessageEnvelopes s' \<noteq> [] \<longrightarrow> mNextMessageUptime s' = uptime (hd (mMessageEnvelopes s')))"

lemma send_due_ok:
  assumes "send_due env result s = Some (result', s')" "looper_inv s" "\<not> mSendingMessage s"
  shows "after_sends s result result' s'"
proof -
  have "looper_inv s \<longrightarrow> \<not> mSendingMessage s \<longrightarrow> after_sends s result (fst (result', s')) (snd (result', s'))"
  proof (rule send_due.raw_induct [where P = "\<lambda>env result s y. looper_inv s \<longrightarrow> \<not> mSendingMessage s \<longrightarrow> after_sends s result (fst y) (snd y)",
      OF _ assms(1)])
    fix send env result s y
    assume IH: "\<And>env result s y. send env result s = Some y \<Longrightarrow>
        looper_inv s \<longrightarrow> \<not> mSendingMessage s \<longrightarrow> after_sends s result (fst y) (snd y)"
      and run: "(case mMessageEnvelopes s of
        [] \<Rightarrow> Some (result, s)
      | m # ms \<Rightarrow>
          (case systemTime env s of (now, s1) \<Rightarrow>
             if uptime m \<le> now
             then send env POLL_CALLBACK
                    ((handle_message env (envelope_handler m) (what m) now
                       (s1\<lparr>mMessageEnvelopes := ms, mSendingMessage := True\<rparr>))\<lparr>mSendingMessage := False\<rparr>)
             else Some (result, s1\<lparr>mNextMessageUptime := uptime m\<rparr>))) = Some y"
    show "looper_inv s \<longrightarrow> \<not> mSendingMessage s \<longrightarrow> after_sends s result (fst y) (snd y)"
    proof (intro impI)
      assume I: "looper_inv s" and S: "\<not> mSendingMessage s"
      show "after_sends s result (fst y) (snd y)"
      proof (cases "mMessageEnvelopes s")
        case Nil
        then show ?thesis using run I S by (auto simp: after_sends_def only_handled_refl)
      next
        case (Cons m ms)
        let ?now = "clock env (clock_reads s)"
        let ?s1 = "s\<lparr>clock_reads := clock_reads s + 1, mMessageEnvelopes := ms, mSendingMessage := True\<rparr>"
        let ?s2 = "(handle_message env (envelope_handler m) (what m) ?now ?s1)\<lparr>mSendingMessage := False\<rparr>"
        show ?thesis
        proof (cases "uptime m \<le> ?now")
          case True
          have "looper_inv ?s1" using I Cons by (simp add: looper_inv_def)
          then have I2: "looper_inv ?s2" by (simp add: handle_inv)
          have "send env POLL_CALLBACK ?s2 = Some y" using run Cons True by (simp add: systemTime_def)
          from IH [OF this] I2 have A: "after_sends ?s2 POLL_CALLBACK (fst y) (snd y)" by simp
          have "only_handled s ?s2"
            using handle_only [of ?s1 env "envelope_handler m" "what m" ?now] by (simp add: only_handled_def)
          from A only_handled_trans [OF this] show ?thesis
            by (auto simp: after_sends_def handle_fields)
        next
          case False
          then show ?thesis using run Cons I S by (auto simp: systemTime_def after_sends_def only_handled_refl)
        qed
      qed
    qed
  qed
  then show ?thesis using assms(2,3) by simp
qed

text \<open>The responses that are not yet called have their callbacks.\<close>

definition responses_ok :: "nat \<Rightarrow> looper \<Rightarrow> bool" where
  "responses_ok i s \<longleftrightarrow> (\<forall>j. i \<le> j \<and> j < length (mResponses s) \<longrightarrow>
     ident (response_request (mResponses s ! j)) = POLL_CALLBACK \<longrightarrow> request_callback (response_request (mResponses s ! j)) \<noteq> None)"

definition poll_ok :: "looper \<Rightarrow> bool" where
  "poll_ok s \<longleftrightarrow> looper_inv s \<and> head_known s \<and> \<not> mSendingMessage s \<and> (\<forall>fd. NullCallback fd \<notin> set (looper_trace s))"

lemma steps_ok:
  assumes "poll_ok s" "0 < pipe_room env"
  shows "poll_ok (looper_steps env cs s)"
  using assms steps_inv [of s env cs] steps_head [of s env cs] steps_same [of s env cs]
  by (simp add: poll_ok_def same_poll_def)

lemma head_known_emit [simp]: "head_known (looper_emit e s) = head_known s" "head_known (s\<lparr>mResponses := rs\<rparr>) = head_known s"
  "head_known (s\<lparr>mResponseIndex := i\<rparr>) = head_known s"
  by (simp_all add: head_known_def)

lemma call_response_ok:
  assumes P: "poll_ok s" and R: "responses_ok i s" and i: "i < length (mResponses s)" and room: "0 < pipe_room env"
    and run: "call_response env i (result, s) = (result', s')"
  shows "poll_ok s'" "responses_ok (Suc i) s'" "length (mResponses s') = length (mResponses s)" "result' \<in> {result, POLL_CALLBACK}"
    "mResponseIndex s' = mResponseIndex s"
proof -
  let ?resp = "mResponses s ! i"
  let ?req = "response_request ?resp"
  have "poll_ok s' \<and> responses_ok (Suc i) s' \<and> length (mResponses s') = length (mResponses s) \<and> result' \<in> {result, POLL_CALLBACK} \<and>
    mResponseIndex s' = mResponseIndex s"
  proof (cases "ident ?req = POLL_CALLBACK")
    case True
    with R i obtain cb where cb: "request_callback ?req = Some cb" by (auto simp: responses_ok_def)
    obtain cs cr where h: "handleEvent env cb (request_fd ?req) (response_events ?resp) (request_data ?req) s = (cs, cr)" by fastforce
    let ?s0 = "looper_emit (Called cb (request_fd ?req) (response_events ?resp) (request_data ?req)) s"
    let ?cs = "cs @ (if cr = 0 then [RemoveFd (request_fd ?req)] else [])"
    have s': "s' = (looper_steps env ?cs ?s0)\<lparr>mResponses := (mResponses (looper_steps env ?cs ?s0))
        [i := ?resp\<lparr>response_request := ?req\<lparr>request_callback := None\<rparr>\<rparr>]\<rparr>" "result' = POLL_CALLBACK"
      using run True cb h by (auto simp: call_response_def Let_def split: if_splits)
    have "poll_ok ?s0" using P by (auto simp: poll_ok_def)
    then have K: "poll_ok (looper_steps env ?cs ?s0)" by (rule steps_ok [OF _ room])
    have same: "same_poll ?s0 (looper_steps env ?cs ?s0)" by (rule steps_same)
    have "poll_ok s'" using K unfolding s'(1) by (simp add: poll_ok_def)
    moreover have "responses_ok (Suc i) s'" using R same unfolding s'(1) by (auto simp: responses_ok_def same_poll_def)
    ultimately show ?thesis using same s' by (simp add: same_poll_def)
  next
    case False
    then have "s' = s" "result' = result" using run by (simp_all add: call_response_def Let_def)
    then show ?thesis using P R by (auto simp: responses_ok_def)
  qed
  then show "poll_ok s'" "responses_ok (Suc i) s'" "length (mResponses s') = length (mResponses s)" "result' \<in> {result, POLL_CALLBACK}"
    "mResponseIndex s' = mResponseIndex s" by blast+
qed

lemma call_responses_ok:
  assumes "poll_ok s" "responses_ok i s" "0 < pipe_room env" "i \<le> length (mResponses s)"
    and "fold (call_response env) [i..<length (mResponses s)] (result, s) = (result', s')"
  shows "poll_ok s' \<and> result' \<in> {result, POLL_CALLBACK} \<and> mResponseIndex s' = mResponseIndex s \<and> length (mResponses s') = length (mResponses s)"
  using assms
proof (induction "length (mResponses s) - i" arbitrary: i s result)
  case (Suc k)
  then have i: "i < length (mResponses s)" by linarith
  obtain r1 s1 where c: "call_response env i (result, s) = (r1, s1)" by fastforce
  note ok = call_response_ok [OF Suc.prems(1,2) i Suc.prems(3) c]
  have "[i..<length (mResponses s)] = i # [Suc i..<length (mResponses s1)]" using i ok(3) by (simp add: upt_rec)
  then have "fold (call_response env) [Suc i..<length (mResponses s1)] (r1, s1) = (result', s')" using Suc.prems(5) c by simp
  moreover have "k = length (mResponses s1) - Suc i" "Suc i \<le> length (mResponses s1)" using Suc.hyps(2) i ok(3) by simp_all
  ultimately have "poll_ok s' \<and> result' \<in> {r1, POLL_CALLBACK} \<and> mResponseIndex s' = mResponseIndex s1 \<and>
      length (mResponses s') = length (mResponses s1)"
    using Suc.hyps(1) ok(1,2) Suc.prems(3) by blast
  then show ?case using ok(3,4,5) by auto
qed simp


lemma poll_event_ok:
  assumes "looper_inv s" "responses_ok 0 s"
  shows "looper_inv (poll_event env e s)" "responses_ok 0 (poll_event env e s)" "mSendingMessage (poll_event env e s) = mSendingMessage s"
    "looper_trace (poll_event env e s) = looper_trace s" "mMessageEnvelopes (poll_event env e s) = mMessageEnvelopes s"
    "mResponseIndex (poll_event env e s) = mResponseIndex s" "clock_reads (poll_event env e s) = clock_reads s"
proof -
  obtain fd ev where e: "e = (fd, ev)" by (cases e)
  have req: "request_callback r \<noteq> None" if "mRequests s fd = Some r" "ident r = POLL_CALLBACK" for r
  proof -
    have "request_ok (mAllowNonCallbacks s) fd r" using assms(1) that(1) by (simp add: looper_inv_def)
    then show ?thesis using that(2) by (auto simp: request_ok_def poll_codes)
  qed
  have "responses_ok 0 (poll_event env e s)"
    using assms(2) req unfolding e
    by (auto simp: poll_event_def awoken_def pushResponse_def responses_ok_def nth_append less_Suc_eq split: option.splits)
  then show "looper_inv (poll_event env e s)" "responses_ok 0 (poll_event env e s)" "mSendingMessage (poll_event env e s) = mSendingMessage s"
    "looper_trace (poll_event env e s) = looper_trace s" "mMessageEnvelopes (poll_event env e s) = mMessageEnvelopes s"
    "mResponseIndex (poll_event env e s) = mResponseIndex s" "clock_reads (poll_event env e s) = clock_reads s"
    using assms unfolding e by (auto simp: poll_event_def awoken_def pushResponse_def split: option.splits)
qed

lemma poll_events_ok:
  assumes "looper_inv s" "responses_ok 0 s"
  shows "looper_inv (fold (poll_event env) es s) \<and> responses_ok 0 (fold (poll_event env) es s) \<and>
    mSendingMessage (fold (poll_event env) es s) = mSendingMessage s \<and> looper_trace (fold (poll_event env) es s) = looper_trace s \<and>
    mMessageEnvelopes (fold (poll_event env) es s) = mMessageEnvelopes s \<and>
    mResponseIndex (fold (poll_event env) es s) = mResponseIndex s \<and> clock_reads (fold (poll_event env) es s) = clock_reads s"
  using assms by (induction es arbitrary: s) (simp_all add: poll_event_ok)

text \<open>A poll up to the messages.\<close>

definition polled :: "looper_env \<Rightarrow> int \<Rightarrow> looper \<Rightarrow> int \<times> looper" where
  "polled env timeoutMillis s =
     (case poll_timeout env timeoutMillis s of (timeout, s1) \<Rightarrow>
        let s2 = (looper_steps env (calls_while_waiting env (epoll_waits s1)) (looper_emit (Waited timeout)
              (s1\<lparr>mResponses := [], mResponseIndex := 0, epoll_waits := epoll_waits s1 + 1, mPolling := True\<rparr>)))\<lparr>mPolling := False\<rparr>
        in case epoll_wait env (epoll_waits s1) of
             EpollFailed interrupted \<Rightarrow> (if interrupted then POLL_WAKE else POLL_ERROR, s2)
           | EpollEvents [] \<Rightarrow> (POLL_TIMEOUT, s2)
           | EpollEvents es \<Rightarrow> (POLL_WAKE, fold (poll_event env) (take 16 es) s2))"

lemma pollInner_eq:
  "pollInner env t s = (case polled env t s of (result, s3) \<Rightarrow>
     map_option (\<lambda>(result, s4). fold (call_response env) [0..<length (mResponses s4)] (result, s4))
       (send_due env result (s3\<lparr>mNextMessageUptime := LLONG_MAX\<rparr>)))"
  by (simp add: pollInner_def polled_def Let_def split: prod.split)

text \<open>The state after the wait, with what other threads did meanwhile.\<close>

abbreviation wait_start :: "int \<Rightarrow> looper \<Rightarrow> looper" where
  "wait_start timeout s1 \<equiv> looper_emit (Waited timeout)
     (s1\<lparr>mResponses := [], mResponseIndex := 0, epoll_waits := epoll_waits s1 + 1, mPolling := True\<rparr>)"

lemma waited_ok:
  assumes "looper_inv s" "\<not> mSendingMessage s" "poll_timeout env t s = (timeout, s1)"
  defines "cs \<equiv> calls_while_waiting env (epoll_waits s)"
  defines "s2 \<equiv> (looper_steps env (calls_while_waiting env (epoll_waits s1)) (wait_start timeout s1))\<lparr>mPolling := False\<rparr>"
  shows "looper_inv s2 \<and> \<not> mSendingMessage s2 \<and> mResponses s2 = [] \<and> looper_trace s2 = looper_trace s @ [Waited timeout] \<and>
    mResponseIndex s2 = 0 \<and> mMessageEnvelopes s2 = mMessageEnvelopes (looper_steps env cs (wait_start timeout s1)) \<and>
    looper_inv (wait_start timeout s1) \<and> mMessageEnvelopes (wait_start timeout s1) = mMessageEnvelopes s"
proof -
  have s1: "s1 = s\<lparr>clock_reads := clock_reads s1\<rparr>"
    using assms(3) by (auto simp: poll_timeout_def systemTime_def Let_def split: if_splits)
  have e: "epoll_waits s1 = epoll_waits s" by (subst s1) simp
  have I: "looper_inv (wait_start timeout s1)" by (subst s1) (use assms(1) in simp)
  have f: "\<not> mSendingMessage (wait_start timeout s1)" "looper_trace (wait_start timeout s1) = looper_trace s @ [Waited timeout]"
    "mMessageEnvelopes (wait_start timeout s1) = mMessageEnvelopes s"
    by (subst s1, use assms(2) in simp)+
  have "same_poll (wait_start timeout s1) (looper_steps env cs (wait_start timeout s1))" by (rule steps_same)
  then show ?thesis using steps_inv [OF I, of env cs] I f unfolding s2_def e cs_def [symmetric] by (simp add: same_poll_def)
qed

lemma polled_ok:
  assumes "looper_inv s" "\<not> mSendingMessage s" "polled env t s = (result, s3)"
  shows "looper_inv s3" "responses_ok 0 s3" "\<not> mSendingMessage s3" "result \<in> {POLL_WAKE, POLL_ERROR, POLL_TIMEOUT}"
    "\<exists>timeout. looper_trace s3 = looper_trace s @ [Waited timeout]" "mResponseIndex s3 = 0"
    "\<exists>s0. looper_inv s0 \<and> mMessageEnvelopes s0 = mMessageEnvelopes s \<and>
       mMessageEnvelopes s3 = mMessageEnvelopes (looper_steps env (calls_while_waiting env (epoll_waits s)) s0)"
proof -
  obtain timeout s1 where p: "poll_timeout env t s = (timeout, s1)" by fastforce
  obtain s2 where s2: "s2 = (looper_steps env (calls_while_waiting env (epoll_waits s1)) (wait_start timeout s1))\<lparr>mPolling := False\<rparr>"
    by blast
  note k = waited_ok [OF assms(1,2) p, folded s2]
  have R: "responses_ok 0 s2" using k by (simp add: responses_ok_def)
  have I: "looper_inv s2" using k by blast
  have "s3 = fold (poll_event env) [] s2 \<or> (\<exists>es. s3 = fold (poll_event env) (take 16 es) s2)"
    "result \<in> {POLL_WAKE, POLL_ERROR, POLL_TIMEOUT}"
    using assms(3) p unfolding s2
    by (cases "epoll_wait env (epoll_waits s1)"; auto simp: polled_def Let_def simp del: take_Suc_Cons take_Cons_numeral
        split: list.splits if_splits)+
  then have K: "looper_inv s3 \<and> responses_ok 0 s3 \<and> \<not> mSendingMessage s3 \<and> looper_trace s3 = looper_trace s2 \<and>
      mMessageEnvelopes s3 = mMessageEnvelopes s2 \<and> mResponseIndex s3 = mResponseIndex s2"
    using poll_events_ok [OF I R, of env] k I R by auto
  show "looper_inv s3" "responses_ok 0 s3" "\<not> mSendingMessage s3" "result \<in> {POLL_WAKE, POLL_ERROR, POLL_TIMEOUT}"
    "\<exists>timeout. looper_trace s3 = looper_trace s @ [Waited timeout]" "mResponseIndex s3 = 0"
    using K k \<open>result \<in> _\<close> by simp_all
  show "\<exists>s0. looper_inv s0 \<and> mMessageEnvelopes s0 = mMessageEnvelopes s \<and>
       mMessageEnvelopes s3 = mMessageEnvelopes (looper_steps env (calls_while_waiting env (epoll_waits s)) s0)"
    using K k by (intro exI [of _ "wait_start timeout s1"]) simp
qed

lemma pollInner_ok:
  assumes "poll_ok s" "0 < pipe_room env" "pollInner env t s = Some (result, s')"
  shows "poll_ok s'" "result \<noteq> 0" "mResponseIndex s' = 0"
proof -
  obtain r3 s3 where p: "polled env t s = (r3, s3)" by fastforce
  have I: "looper_inv s" "\<not> mSendingMessage s" using assms(1) by (simp_all add: poll_ok_def)
  note k = polled_ok [OF I p]
  from assms(3) p obtain r4 s4 where send: "send_due env r3 (s3\<lparr>mNextMessageUptime := LLONG_MAX\<rparr>) = Some (r4, s4)" and
    call: "fold (call_response env) [0..<length (mResponses s4)] (r4, s4) = (result, s')" by (auto simp: pollInner_eq)
  have A: "after_sends (s3\<lparr>mNextMessageUptime := LLONG_MAX\<rparr>) r3 r4 s4" by (rule send_due_ok [OF send]) (use k in simp_all)
  have "\<forall>fd. NullCallback fd \<notin> set (looper_trace s4)"
    using A k(5) assms(1) by (auto simp: after_sends_def only_handled_def poll_ok_def)
  then have P: "poll_ok s4" using A by (auto simp: after_sends_def poll_ok_def head_known_def)
  have R: "responses_ok 0 s4" using A k(2) by (simp add: after_sends_def responses_ok_def)
  from call_responses_ok [OF P R assms(2) _ call] show "poll_ok s'" "result \<noteq> 0" "mResponseIndex s' = 0"
    using A k(4,6) by (auto simp: after_sends_def poll_codes)
qed

lemma poll_ok_index [simp]: "poll_ok (s\<lparr>mResponseIndex := i\<rparr>) = poll_ok s" "poll_ok (s\<lparr>clock_reads := n\<rparr>) = poll_ok s"
  by (simp_all add: poll_ok_def head_known_def)

text \<open>One round of the loop of \<open>pollOnce\<close> is enough.\<close>

lemma pollOnce_eq:
  "pollOnce env t s =
     (case next_response (drop (mResponseIndex s) (mResponses s)) (mResponseIndex s) of
        Some (r, i) \<Rightarrow>
          Some ((ident (response_request r), request_fd (response_request r), response_events r, Some (request_data (response_request r))),
                s\<lparr>mResponseIndex := i\<rparr>)
      | None \<Rightarrow> Option.bind (pollInner env t (s\<lparr>mResponseIndex := max (mResponseIndex s) (length (mResponses s))\<rparr>))
                 (\<lambda>(result, s1). poll_from env t result s1))"
  unfolding pollOnce_def by (subst poll_from.simps) simp

lemma poll_from_done:
  assumes "result \<noteq> 0"
  shows "\<exists>r i. poll_from env t result s = Some (r, s\<lparr>mResponseIndex := i\<rparr>)"
  by (subst poll_from.simps) (use assms in \<open>auto split: option.splits\<close>)

lemma pollOnce_ok:
  assumes "poll_ok s" "0 < pipe_room env" "pollOnce env t s = Some (r, s')"
  shows "poll_ok s'"
proof (cases "next_response (drop (mResponseIndex s) (mResponses s)) (mResponseIndex s)")
  case None
  with assms(3) obtain result s1 where
    p: "pollInner env t (s\<lparr>mResponseIndex := max (mResponseIndex s) (length (mResponses s))\<rparr>) = Some (result, s1)" and
    f: "poll_from env t result s1 = Some (r, s')" by (auto simp: pollOnce_eq Option.bind_eq_Some_conv)
  have "poll_ok (s\<lparr>mResponseIndex := max (mResponseIndex s) (length (mResponses s))\<rparr>)" using assms(1) by simp
  note k = pollInner_ok [OF this assms(2) p]
  from poll_from_done [OF k(2), of env t s1] f k(1) show ?thesis by auto
qed (use assms in \<open>auto simp: pollOnce_eq\<close>)

lemma poll_again_ok:
  assumes "poll_again env t s = Some (r, s')" "poll_ok s" "0 < pipe_room env"
  shows "poll_ok s'"
proof -
  have "poll_ok s \<longrightarrow> 0 < pipe_room env \<longrightarrow> poll_ok (snd (r, s'))"
    by (rule poll_again.raw_induct [where P = "\<lambda>env t s y. poll_ok s \<longrightarrow> 0 < pipe_room env \<longrightarrow> poll_ok (snd y)", OF _ assms(1)])
      (auto simp: Option.bind_eq_Some_conv dest: pollOnce_ok split: if_splits)
  then show ?thesis using assms by simp
qed

lemma poll_until_ok:
  assumes "poll_until env e t s = Some (r, s')" "poll_ok s" "0 < pipe_room env"
  shows "poll_ok s'"
proof -
  have "poll_ok s \<longrightarrow> 0 < pipe_room env \<longrightarrow> poll_ok (snd (r, s'))"
  proof (rule poll_until.raw_induct [where P = "\<lambda>env e t s y. poll_ok s \<longrightarrow> 0 < pipe_room env \<longrightarrow> poll_ok (snd y)", OF _ assms(1)])
    fix next_round env e t s y
    assume IH: "\<And>env e t s y. next_round env e t s = Some y \<Longrightarrow> poll_ok s \<longrightarrow> 0 < pipe_room env \<longrightarrow> poll_ok (snd y)"
      and run: "Option.bind (pollOnce env t s)
       (\<lambda>(r, s1). if fst r \<noteq> POLL_CALLBACK then Some (r, s1)
          else case systemTime env s1 of (now, s2) \<Rightarrow>
                 if toMillisecondTimeoutDelay env now e = 0 then Some ((POLL_TIMEOUT, snd r), s2)
                 else next_round env e (toMillisecondTimeoutDelay env now e) s2) = Some y"
    show "poll_ok s \<longrightarrow> 0 < pipe_room env \<longrightarrow> poll_ok (snd y)"
    proof (intro impI)
      assume P: "poll_ok s" and R: "0 < pipe_room env"
      from run obtain r s1 where p: "pollOnce env t s = Some (r, s1)" by (auto simp: Option.bind_eq_Some_conv)
      have ok: "poll_ok s1" by (rule pollOnce_ok [OF P R p])
      have "fst r \<noteq> POLL_CALLBACK \<and> y = (r, s1) \<or> y = ((POLL_TIMEOUT, snd r), s1\<lparr>clock_reads := clock_reads s1 + 1\<rparr>) \<or>
        (\<exists>t'. next_round env e t' (s1\<lparr>clock_reads := clock_reads s1 + 1\<rparr>) = Some y)"
        using run unfolding p by (auto simp: systemTime_def split: if_splits)
      then show "poll_ok (snd y)"
      proof (elim disjE exE)
        fix t'
        assume "next_round env e t' (s1\<lparr>clock_reads := clock_reads s1 + 1\<rparr>) = Some y"
        from IH [OF this] ok R show ?thesis by simp
      qed (use ok in auto)
    qed
  qed
  then show ?thesis using assms by simp
qed

lemma pollAll_ok:
  assumes "pollAll env t s = Some (r, s')" "poll_ok s" "0 < pipe_room env"
  shows "poll_ok s'"
  using assms poll_again_ok poll_until_ok [of env _ t "s\<lparr>clock_reads := clock_reads s + 1\<rparr>" r s']
  by (auto simp: pollAll_def systemTime_def split: if_splits)

section \<open>Any sequence of calls and polls\<close>

datatype looper_op = Client looper_call | PollOnce int | PollAll int

fun run_looper :: "looper_env \<Rightarrow> looper_op list \<Rightarrow> looper \<Rightarrow> looper option" where
  "run_looper env [] s = Some s"
| "run_looper env (Client c # ops) s = run_looper env ops (looper_step env c s)"
| "run_looper env (PollOnce t # ops) s = Option.bind (pollOnce env t s) (\<lambda>(_, s1). run_looper env ops s1)"
| "run_looper env (PollAll t # ops) s = Option.bind (pollAll env t s) (\<lambda>(_, s1). run_looper env ops s1)"

lemma run_looper_ok: "run_looper env ops s = Some s' \<Longrightarrow> poll_ok s \<Longrightarrow> 0 < pipe_room env \<Longrightarrow> poll_ok s'"
proof (induction env ops s rule: run_looper.induct)
  case (2 env c ops s)
  then show ?case using steps_ok [of s env "[c]"] by simp
next
  case (3 env t ops s)
  then obtain r s1 where "pollOnce env t s = Some (r, s1)" "run_looper env ops s1 = Some s'" by (auto simp: Option.bind_eq_Some_conv)
  with 3 pollOnce_ok [of s env t r s1] show ?case by auto
next
  case (4 env t ops s)
  then obtain r s1 where "pollAll env t s = Some (r, s1)" "run_looper env ops s1 = Some s'" by (auto simp: Option.bind_eq_Some_conv)
  with 4 pollAll_ok [of env t s r s1] show ?case by auto
qed simp

lemma looper_new_ok: "poll_ok (looper_new allow)"
  by (simp add: poll_ok_def looper_inv_def head_known_def looper_new_def)


section \<open>Messages that are due\<close>

definition handled_messages :: "looper_event list \<Rightarrow> (addr \<times> int) list" where
  "handled_messages es = concat (map (\<lambda>e. case e of Handled a m now \<Rightarrow> [(a, m)] | _ \<Rightarrow> []) es)"

lemma handled_simps [simp]:
  "handled_messages [] = []" "handled_messages (xs @ ys) = handled_messages xs @ handled_messages ys"
  "handled_messages [Handled a m now] = [(a, m)]" "handled_messages [Waited t] = []"
  "handled_messages [Called cb fd ev d] = []" "handled_messages [NullCallback fd] = []"
  by (simp_all add: handled_messages_def)

text \<open>Calls that leave the messages alone that are due by a time.\<close>

primrec later_only :: "int \<Rightarrow> looper_call \<Rightarrow> bool" where
  "later_only t (SendMessageAtTime u h m) = (t < u)"
| "later_only t (RemoveMessages h) = False"
| "later_only t (RemoveMessagesWhat h m) = False"
| "later_only t (AddFd fd n ev cb d) = True"
| "later_only t (RemoveFd fd) = True"
| "later_only t Wake = True"

abbreviation due :: "int \<Rightarrow> message_envelope list \<Rightarrow> message_envelope list" where
  "due t ms \<equiv> takeWhile (\<lambda>m. uptime m \<le> t) ms"

lemma later_step:
  assumes "later_only t c" "looper_inv s"
  shows "due t (mMessageEnvelopes (looper_step env c s)) = due t (mMessageEnvelopes s) \<and>
    set (mMessageEnvelopes s) \<subseteq> set (mMessageEnvelopes (looper_step env c s)) \<and>
    (\<forall>m \<in> set (mMessageEnvelopes (looper_step env c s)) - set (mMessageEnvelopes s). t < uptime m)"
proof (cases c)
  case (SendMessageAtTime u h m)
  let ?m = "\<lparr>uptime = u, envelope_handler = h, what = m\<rparr>" and ?q = "mMessageEnvelopes s"
  have u: "t < u" using assms(1) SendMessageAtTime by simp
  have q: "mMessageEnvelopes (looper_step env c s) = ins_at (\<lambda>m. uptime m \<le> u) ?m ?q"
    using SendMessageAtTime by (simp add: sendMessageAtTime_def Let_def queue_insert [symmetric])
  have "due t (ins_at (\<lambda>m. uptime m \<le> u) ?m ms) = due t ms" for ms
    using u by (induction ms) (auto simp: ins_simps)
  moreover have "set (ins_at (\<lambda>m. uptime m \<le> u) ?m ?q) = insert ?m (set ?q)" by (rule set_ins_at)
  ultimately show ?thesis unfolding q using u by auto
qed (use assms(1) in \<open>simp_all add: addFd_def removeFd_def epoll_ctl_def Let_def\<close>)

lemma later_steps:
  assumes "\<forall>c \<in> set cs. later_only t c" "looper_inv s"
  shows "due t (mMessageEnvelopes (looper_steps env cs s)) = due t (mMessageEnvelopes s) \<and>
    set (mMessageEnvelopes s) \<subseteq> set (mMessageEnvelopes (looper_steps env cs s)) \<and>
    (\<forall>m \<in> set (mMessageEnvelopes (looper_steps env cs s)) - set (mMessageEnvelopes s). t < uptime m)"
  using assms
proof (induction cs arbitrary: s)
  case (Cons c cs)
  have "later_only t c" using Cons.prems(1) by simp
  from later_step [OF this Cons.prems(2), of env] Cons.IH [of "looper_step env c s"] Cons.prems looper_step_inv [OF Cons.prems(2), of env c]
  show ?case by auto
qed simp

text \<open>While a poll lasts the clock stays between two times, and no message is due between them.\<close>

definition poll_window :: "looper_env \<Rightarrow> int \<Rightarrow> int \<Rightarrow> bool" where
  "poll_window env t0 t1 \<longleftrightarrow> (\<forall>n. t0 \<le> clock env n \<and> clock env n \<le> t1) \<and> (\<forall>a s. handler_alive env a s) \<and>
     (\<forall>a m s. \<forall>c \<in> set (handleMessage env a m s). later_only t1 c) \<and>
     (\<forall>n. \<forall>c \<in> set (calls_while_waiting env n). later_only t1 c) \<and>
     (\<forall>cb fd ev d s. \<forall>c \<in> set (fst (handleEvent env cb fd ev d s)). later_only t1 c)"

lemma send_due_exact:
  assumes W: "poll_window env t0 t1"
    and "looper_inv s" "\<not> mSendingMessage s" "\<forall>m \<in> set (mMessageEnvelopes s). uptime m \<le> t0 \<or> t1 < uptime m"
  shows "\<exists>result' s'. send_due env result s = Some (result', s') \<and>
    handled_messages (looper_trace s') = handled_messages (looper_trace s) @
      map (\<lambda>m. (handler_target (envelope_handler m), what m)) (due t1 (mMessageEnvelopes s)) \<and>
    {m \<in> set (mMessageEnvelopes s). t1 < uptime m} \<subseteq> set (mMessageEnvelopes s') \<and> (\<forall>m \<in> set (mMessageEnvelopes s'). t1 < uptime m)"
  using assms(2-4)
proof (induction "length (due t1 (mMessageEnvelopes s))" arbitrary: s result)
  case 0
  show ?case
  proof (cases "mMessageEnvelopes s")
    case Nil
    then show ?thesis by (subst send_due.simps) simp
  next
    case (Cons m ms)
    then have m: "t1 < uptime m" using 0 by (auto split: if_splits)
    have "clock env (clock_reads s) \<le> t1" using W by (simp add: poll_window_def)
    then have "send_due env result s = Some (result, s\<lparr>clock_reads := clock_reads s + 1, mNextMessageUptime := uptime m\<rparr>)"
      using m Cons by (subst send_due.simps) (simp add: systemTime_def)
    moreover have "\<forall>m' \<in> set (mMessageEnvelopes s). t1 < uptime m'" using 0(2) Cons m by (auto simp: looper_inv_def)
    ultimately show ?thesis using Cons m by auto
  qed
next
  case (Suc n)
  then obtain m ms where q: "mMessageEnvelopes s = m # ms" and m1: "uptime m \<le> t1" by (cases "mMessageEnvelopes s") (auto split: if_splits)
  then have m0: "uptime m \<le> t0" using Suc.prems(3) by auto
  let ?now = "clock env (clock_reads s)" and ?a = "handler_target (envelope_handler m)"
  have now: "uptime m \<le> ?now" using m0 W order_trans unfolding poll_window_def by blast
  let ?s1 = "s\<lparr>clock_reads := clock_reads s + 1, mMessageEnvelopes := ms, mSendingMessage := True\<rparr>"
  let ?e = "looper_emit (Handled ?a (what m) ?now) ?s1"
  let ?cs = "handleMessage env ?a (what m) ?s1"
  have h: "handle_message env (envelope_handler m) (what m) ?now ?s1 = looper_steps env ?cs ?e"
    using W by (auto simp: handle_message_def handler_target_def poll_window_def split: message_handler.splits)
  let ?s2 = "(looper_steps env ?cs ?e)\<lparr>mSendingMessage := False\<rparr>"
  have run: "send_due env result s = send_due env POLL_CALLBACK ?s2"
    unfolding h [symmetric] using q now by (subst send_due.simps) (simp add: systemTime_def)
  have Ie: "looper_inv ?e" using Suc.prems(1) q by (simp add: looper_inv_def)
  have L: "\<forall>c \<in> set ?cs. later_only t1 c" using W by (simp add: poll_window_def)
  note ls = later_steps [OF L Ie, of env]
  have d: "due t1 (mMessageEnvelopes ?s2) = due t1 ms" using ls by simp
  have n: "n = length (due t1 (mMessageEnvelopes ?s2))" using Suc.hyps(2) q m1 unfolding d by simp
  have I2: "looper_inv ?s2" using steps_inv [OF Ie] by simp
  have between: "\<forall>m \<in> set (mMessageEnvelopes ?s2). uptime m \<le> t0 \<or> t1 < uptime m"
    using ls Suc.prems(3) q by auto
  have tr: "looper_trace ?s2 = looper_trace s @ [Handled ?a (what m) ?now]"
    using steps_same [of ?e env ?cs] by (simp add: same_poll_def)
  from Suc.hyps(1) [OF n I2 _ between, of POLL_CALLBACK] obtain result' s' where
    r: "send_due env POLL_CALLBACK ?s2 = Some (result', s')"
    "handled_messages (looper_trace s') = handled_messages (looper_trace ?s2) @ map (\<lambda>m. (handler_target (envelope_handler m), what m)) (due t1 ms)"
    "{m \<in> set (mMessageEnvelopes ?s2). t1 < uptime m} \<subseteq> set (mMessageEnvelopes s')" "\<forall>m \<in> set (mMessageEnvelopes s'). t1 < uptime m"
    unfolding d by auto
  have "{m \<in> set (mMessageEnvelopes s). t1 < uptime m} \<subseteq> {m \<in> set (mMessageEnvelopes ?s2). t1 < uptime m}"
    using ls q m1 by auto
  then show ?case using r unfolding run tr by (auto simp: q m1)
qed

end
