(* ===== verification/LooperSpec.thy ===== *)
theory LooperSpec
  imports LooperProps
begin

text \<open>
  What a looper promises: messages are handed over when they are due, the wait never outlasts the first of them, and the
  descriptors that are ready are returned one by one.
\<close>

section \<open>What is returned after a wait\<close>

definition result_of :: "poll_response \<Rightarrow> poll_result" where
  "result_of r = (ident (response_request r), request_fd (response_request r), response_events r, Some (request_data (response_request r)))"

text \<open>The results that are waiting to be returned.\<close>

definition outputs :: "looper \<Rightarrow> poll_result list" where
  "outputs s = filter (\<lambda>x. 0 \<le> fst x) (map result_of (drop (mResponseIndex s) (mResponses s)))"

lemma next_none: "next_response rs i = None \<longleftrightarrow> filter (\<lambda>x. 0 \<le> fst x) (map result_of rs) = []"
  by (induction rs arbitrary: i) (simp_all add: result_of_def)

lemma next_some:
  "next_response rs i = Some (r, j) \<Longrightarrow>
   i < j \<and> filter (\<lambda>x. 0 \<le> fst x) (map result_of rs) = result_of r # filter (\<lambda>x. 0 \<le> fst x) (map result_of (drop (j - i) rs))"
proof (induction rs arbitrary: i)
  case (Cons r' rs)
  show ?case
  proof (cases "0 \<le> ident (response_request r')")
    case False
    then have "next_response rs (Suc i) = Some (r, j)" using Cons.prems by simp
    from Cons.IH [OF this] False show ?thesis by (auto simp: result_of_def Suc_diff_Suc [symmetric] simp del: map_map)
  qed (use Cons.prems in \<open>auto simp: result_of_def\<close>)
qed simp

lemma poll_from_output:
  assumes "outputs s = x # xs"
  shows "\<exists>i. poll_from env t result s = Some (x, s\<lparr>mResponseIndex := i\<rparr>) \<and> outputs (s\<lparr>mResponseIndex := i\<rparr>) = xs"
proof (cases "next_response (drop (mResponseIndex s) (mResponses s)) (mResponseIndex s)")
  case None
  then show ?thesis using assms by (simp add: next_none outputs_def)
next
  case (Some a)
  then obtain r j where a: "next_response (drop (mResponseIndex s) (mResponses s)) (mResponseIndex s) = Some (r, j)" by (cases a) auto
  then show ?thesis using next_some [OF a] assms
    by (subst poll_from.simps) (auto simp: outputs_def result_of_def [of r] drop_map)
qed

lemma no_outputs: "outputs s = [] \<Longrightarrow> next_response (drop (mResponseIndex s) (mResponses s)) (mResponseIndex s) = None"
  unfolding outputs_def next_none .

lemma poll_from_result:
  assumes "outputs s = []" "result \<noteq> 0"
  shows "\<exists>i. poll_from env t result s = Some ((result, 0, 0, None), s\<lparr>mResponseIndex := i\<rparr>) \<and>
    outputs (s\<lparr>mResponseIndex := i\<rparr>) = []"
  by (subst poll_from.simps, simp add: no_outputs [OF assms(1)] assms(2))
    (intro exI [of _ "max (mResponseIndex s) (length (mResponses s))"], simp add: outputs_def)

lemma pollOnce_waits:
  assumes "outputs s = []"
  shows "pollOnce env t s = Option.bind (pollInner env t (s\<lparr>mResponseIndex := max (mResponseIndex s) (length (mResponses s))\<rparr>))
    (\<lambda>(result, s1). poll_from env t result s1)"
  unfolding pollOnce_eq no_outputs [OF assms] by simp

lemma due_filter: "sorted (map uptime ms) \<Longrightarrow> due t ms = filter (\<lambda>m. uptime m \<le> t) ms"
  by (induction ms) (auto intro!: filter_False [symmetric])

section \<open>What callbacks leave alone\<close>

lemma call_response_keeps:
  assumes "call_response env i (result, s) = (result', s')"
  shows "map result_of (mResponses s') = map result_of (mResponses s) \<and> handled_messages (looper_trace s') = handled_messages (looper_trace s) \<and>
    epoll_waits s' = epoll_waits s \<and> mResponseIndex s' = mResponseIndex s"
proof -
  let ?resp = "mResponses s ! i"
  let ?req = "response_request ?resp"
  show ?thesis
  proof (cases "ident ?req = POLL_CALLBACK \<and> request_callback ?req \<noteq> None")
    case True
    then obtain cb where cb: "request_callback ?req = Some cb" by auto
    obtain cs cr where h: "handleEvent env cb (request_fd ?req) (response_events ?resp) (request_data ?req) s = (cs, cr)" by fastforce
    let ?s0 = "looper_emit (Called cb (request_fd ?req) (response_events ?resp) (request_data ?req)) s"
    let ?cs = "cs @ (if cr = 0 then [RemoveFd (request_fd ?req)] else [])"
    have s': "s' = (looper_steps env ?cs ?s0)\<lparr>mResponses := (mResponses (looper_steps env ?cs ?s0))
        [i := ?resp\<lparr>response_request := ?req\<lparr>request_callback := None\<rparr>\<rparr>]\<rparr>"
      using assms True cb h by (auto simp: call_response_def Let_def split: if_splits)
    have same: "same_poll ?s0 (looper_steps env ?cs ?s0)" by (rule steps_same)
    have "(map result_of (mResponses s))[i := result_of (?resp\<lparr>response_request := ?req\<lparr>request_callback := None\<rparr>\<rparr>)] =
      map result_of (mResponses s)"
      by (cases "i < length (mResponses s)") (simp_all add: list_eq_iff_nth_eq nth_list_update result_of_def)
    then show ?thesis using same unfolding s' by (simp add: same_poll_def map_update)
  qed (use assms in \<open>auto simp: call_response_def Let_def split: if_splits option.splits; simp add: looper_emit_def\<close>)
qed

lemma call_responses_keep:
  "fold (call_response env) is (result, s) = (result', s') \<Longrightarrow>
   map result_of (mResponses s') = map result_of (mResponses s) \<and> handled_messages (looper_trace s') = handled_messages (looper_trace s) \<and>
    epoll_waits s' = epoll_waits s \<and> mResponseIndex s' = mResponseIndex s"
proof (induction "is" arbitrary: result s)
  case (Cons i js)
  obtain r1 s1 where c: "call_response env i (result, s) = (r1, s1)" by fastforce
  from Cons.IH [of r1 s1] call_response_keeps [OF c] Cons.prems c show ?case by simp
qed simp

lemma call_response_later:
  assumes "poll_window env t0 t1" "looper_inv s" "call_response env i (result, s) = (result', s')"
  shows "looper_inv s' \<and> set (mMessageEnvelopes s) \<subseteq> set (mMessageEnvelopes s') \<and>
    (\<forall>m \<in> set (mMessageEnvelopes s') - set (mMessageEnvelopes s). t1 < uptime m)"
proof -
  let ?resp = "mResponses s ! i"
  let ?req = "response_request ?resp"
  show ?thesis
  proof (cases "ident ?req = POLL_CALLBACK \<and> request_callback ?req \<noteq> None")
    case True
    then obtain cb where cb: "request_callback ?req = Some cb" by auto
    obtain cs cr where h: "handleEvent env cb (request_fd ?req) (response_events ?resp) (request_data ?req) s = (cs, cr)" by fastforce
    let ?s0 = "looper_emit (Called cb (request_fd ?req) (response_events ?resp) (request_data ?req)) s"
    let ?cs = "cs @ (if cr = 0 then [RemoveFd (request_fd ?req)] else [])"
    have s': "s' = (looper_steps env ?cs ?s0)\<lparr>mResponses := (mResponses (looper_steps env ?cs ?s0))
        [i := ?resp\<lparr>response_request := ?req\<lparr>request_callback := None\<rparr>\<rparr>]\<rparr>"
      using assms(3) True cb h by (auto simp: call_response_def Let_def split: if_splits)
    have "\<forall>c \<in> set cs. later_only t1 c" using assms(1) h unfolding poll_window_def by (metis fst_conv)
    then have L: "\<forall>c \<in> set ?cs. later_only t1 c" by auto
    have I: "looper_inv ?s0" using assms(2) by simp
    from later_steps [OF L I, of env] steps_inv [OF I, of env ?cs] show ?thesis unfolding s' by simp
  qed (use assms in \<open>auto simp: call_response_def Let_def split: if_splits option.splits\<close>)
qed

lemma call_responses_later:
  assumes "poll_window env t0 t1"
  shows "looper_inv s \<Longrightarrow> fold (call_response env) is (result, s) = (result', s') \<Longrightarrow>
    set (mMessageEnvelopes s) \<subseteq> set (mMessageEnvelopes s') \<and>
    (\<forall>m \<in> set (mMessageEnvelopes s') - set (mMessageEnvelopes s). t1 < uptime m)"
proof (induction "is" arbitrary: result s)
  case (Cons i js)
  obtain r1 s1 where c: "call_response env i (result, s) = (r1, s1)" by fastforce
  note k = call_response_later [OF assms Cons.prems(1) c]
  have "fold (call_response env) js (r1, s1) = (result', s')" using Cons.prems(2) c by simp
  from Cons.IH [OF _ this] k show ?case by blast
qed simp

section \<open>A poll in a window\<close>

abbreviation delivered :: "message_envelope list \<Rightarrow> (addr \<times> int) list" where
  "delivered ms \<equiv> map (\<lambda>m. (handler_target (envelope_handler m), what m)) ms"

text \<open>The poll ends, its messages are those that were due, and its responses are those of the wait.\<close>

lemma pollInner_window:
  assumes W: "poll_window env t0 t1" and P: "poll_ok s" "0 < pipe_room env"
    and Q: "\<forall>m \<in> set (mMessageEnvelopes s). uptime m \<le> t0 \<or> t1 < uptime m"
  shows "\<exists>result s'. pollInner env t s = Some (result, s') \<and>
    handled_messages (looper_trace s') = handled_messages (looper_trace s) @ delivered (due t1 (mMessageEnvelopes s)) \<and>
    {m \<in> set (mMessageEnvelopes s). t1 < uptime m} \<subseteq> set (mMessageEnvelopes s') \<and> (\<forall>m \<in> set (mMessageEnvelopes s'). t1 < uptime m) \<and>
    map result_of (mResponses s') = map result_of (mResponses (snd (polled env t s))) \<and>
    epoll_waits s' = epoll_waits (snd (polled env t s)) \<and> mResponseIndex s' = 0 \<and> result < 0"
proof -
  obtain r3 s3 where p: "polled env t s = (r3, s3)" by fastforce
  have I: "looper_inv s" "\<not> mSendingMessage s" using P(1) by (simp_all add: poll_ok_def)
  note k = polled_ok [OF I p]
  from k(7) obtain s0 where s0: "looper_inv s0" "mMessageEnvelopes s0 = mMessageEnvelopes s"
    "mMessageEnvelopes s3 = mMessageEnvelopes (looper_steps env (calls_while_waiting env (epoll_waits s)) s0)" by blast
  have "\<forall>c \<in> set (calls_while_waiting env (epoll_waits s)). later_only t1 c" using W by (simp add: poll_window_def)
  note l = later_steps [OF this s0(1), of env, folded s0(3), unfolded s0(2)]
  let ?s3 = "s3\<lparr>mNextMessageUptime := LLONG_MAX\<rparr>"
  have "\<exists>r4 s4. send_due env r3 ?s3 = Some (r4, s4) \<and>
    handled_messages (looper_trace s4) = handled_messages (looper_trace ?s3) @ delivered (due t1 (mMessageEnvelopes ?s3)) \<and>
    {m \<in> set (mMessageEnvelopes ?s3). t1 < uptime m} \<subseteq> set (mMessageEnvelopes s4) \<and> (\<forall>m \<in> set (mMessageEnvelopes s4). t1 < uptime m)"
    by (rule send_due_exact [OF W]) (use k l Q in auto)
  then obtain r4 s4 where send: "send_due env r3 ?s3 = Some (r4, s4)" and
    h4: "handled_messages (looper_trace s4) = handled_messages (looper_trace s3) @ delivered (due t1 (mMessageEnvelopes s3))" and
    q4: "{m \<in> set (mMessageEnvelopes s3). t1 < uptime m} \<subseteq> set (mMessageEnvelopes s4)" "\<forall>m \<in> set (mMessageEnvelopes s4). t1 < uptime m"
    by auto
  have A: "after_sends ?s3 r3 r4 s4" by (rule send_due_ok [OF send]) (use k in simp_all)
  obtain result s' where call: "fold (call_response env) [0..<length (mResponses s4)] (r4, s4) = (result, s')" by fastforce
  have run: "pollInner env t s = Some (result, s')" by (simp add: pollInner_eq p send call)
  have "looper_inv s4" using A by (simp add: after_sends_def)
  note c = call_responses_later [OF W this call] call_responses_keep [OF call]
  have R: "responses_ok 0 s4" using A k(2) by (simp add: after_sends_def responses_ok_def)
  have "\<forall>fd. NullCallback fd \<notin> set (looper_trace s4)"
    using A k(5) P(1) by (auto simp: after_sends_def only_handled_def poll_ok_def)
  then have "poll_ok s4" using A by (auto simp: after_sends_def poll_ok_def head_known_def)
  from call_responses_ok [OF this R P(2) _ call] have "result \<in> {r4, POLL_CALLBACK}" by simp
  then have neg: "result < 0" using A k(4) by (auto simp: after_sends_def poll_codes)
  have "handled_messages (looper_trace s') = handled_messages (looper_trace s) @ delivered (due t1 (mMessageEnvelopes s))"
    using c(2) h4 k(5) l by auto
  moreover have "{m \<in> set (mMessageEnvelopes s). t1 < uptime m} \<subseteq> set (mMessageEnvelopes s')" using l q4(1) c(1) by blast
  moreover have "\<forall>m \<in> set (mMessageEnvelopes s'). t1 < uptime m" using q4(2) c(1) by blast
  moreover have "mResponses s4 = mResponses s3" "epoll_waits s4 = epoll_waits s3" "mResponseIndex s4 = 0"
    using A k(6) by (simp_all add: after_sends_def)
  ultimately show ?thesis using run c(2) neg by (intro exI [of _ result] exI [of _ s']) (simp add: p)
qed

section \<open>The descriptors of a wait\<close>

definition ready_responses :: "looper_env \<Rightarrow> (int \<rightharpoonup> poll_request) \<Rightarrow> (int \<times> u32) list \<Rightarrow> poll_response list" where
  "ready_responses env q es = concat (map (\<lambda>(fd, ev). if fd = wake_read_fd env then []
     else case q fd of None \<Rightarrow> [] | Some r \<Rightarrow> [\<lparr>response_events = looper_events ev, response_request = r\<rparr>]) es)"

definition ready_results :: "looper_env \<Rightarrow> (int \<rightharpoonup> poll_request) \<Rightarrow> (int \<times> u32) list \<Rightarrow> poll_result list" where
  "ready_results env q es = concat (map (\<lambda>(fd, ev). if fd = wake_read_fd env then []
     else case q fd of None \<Rightarrow> []
          | Some r \<Rightarrow> if 0 \<le> ident r then [(ident r, fd, looper_events ev, Some (request_data r))] else []) es)"

lemma ready_results_eq:
  assumes "\<forall>fd r. q fd = Some r \<longrightarrow> request_fd r = fd"
  shows "filter (\<lambda>x. 0 \<le> fst x) (map result_of (ready_responses env q es)) = ready_results env q es"
proof (induction es)
  case (Cons e es)
  obtain fd ev where e: "e = (fd, ev)" by (cases e)
  show ?case using Cons.IH assms unfolding e
    by (auto simp: ready_responses_def ready_results_def result_of_def split: option.split)
qed (simp add: ready_responses_def ready_results_def)

lemma poll_events_responses:
  "mResponses (fold (poll_event env) es s) = mResponses s @ ready_responses env (mRequests s) es \<and>
   epoll_waits (fold (poll_event env) es s) = epoll_waits s"
proof (induction es arbitrary: s)
  case (Cons e es)
  obtain fd ev where e: "e = (fd, ev)" by (cases e)
  have "mRequests (poll_event env e s) = mRequests s \<and> epoll_waits (poll_event env e s) = epoll_waits s \<and>
    mResponses (poll_event env e s) = mResponses s @ ready_responses env (mRequests s) [e]"
    unfolding e by (auto simp: poll_event_def awoken_def pushResponse_def ready_responses_def split: option.split)
  with Cons.IH [of "poll_event env e s"] show ?case by (simp add: ready_responses_def)
qed (simp add: ready_responses_def)

lemma polled_responses:
  assumes "calls_while_waiting env (epoll_waits s) = []" "epoll_wait env (epoll_waits s) = EpollEvents es" "length es \<le> 16"
  shows "mResponses (snd (polled env t s)) = ready_responses env (mRequests s) es \<and>
    epoll_waits (snd (polled env t s)) = epoll_waits s + 1"
proof -
  obtain timeout s1 where p: "poll_timeout env t s = (timeout, s1)" by fastforce
  have s1: "mRequests s1 = mRequests s" "epoll_waits s1 = epoll_waits s"
    using p by (auto simp: poll_timeout_def systemTime_def Let_def split: if_splits)
  have "snd (polled env t s) = fold (poll_event env) es ((wait_start timeout s1)\<lparr>mPolling := False\<rparr>)"
    using assms s1(2) p by (cases es) (simp_all add: polled_def Let_def del: take_Suc_Cons take_Cons_numeral)
  then show ?thesis by (simp add: poll_events_responses s1)
qed

fun poll_times :: "looper_env \<Rightarrow> int \<Rightarrow> nat \<Rightarrow> looper \<Rightarrow> (poll_result list \<times> looper) option" where
  "poll_times env t 0 s = Some ([], s)"
| "poll_times env t (Suc n) s =
     Option.bind (pollOnce env t s) (\<lambda>(r, s1). map_option (\<lambda>(rs, s2). (r # rs, s2)) (poll_times env t n s1))"

lemma poll_times_outputs:
  assumes "outputs s = xs"
  shows "\<exists>i. poll_times env t (length xs) s = Some (xs, s\<lparr>mResponseIndex := i\<rparr>) \<and> outputs (s\<lparr>mResponseIndex := i\<rparr>) = []"
  using assms
proof (induction xs arbitrary: s)
  case Nil
  then show ?case by (intro exI [of _ "mResponseIndex s"]) simp
next
  case (Cons x xs)
  from poll_from_output [OF Cons.prems, of env t 0] obtain i where
    i: "pollOnce env t s = Some (x, s\<lparr>mResponseIndex := i\<rparr>)" "outputs (s\<lparr>mResponseIndex := i\<rparr>) = xs"
    unfolding pollOnce_def by blast
  from Cons.IH [OF i(2)] i(1) show ?case by auto
qed

text \<open>
  The documented conversion of a time to a timeout: 0 when the time has come, - 1 (for ever) when it is more than \<open>INT_MAX\<close>
  milliseconds away, and else the milliseconds, rounded up.
\<close>

definition max_wait :: int where "max_wait = (2 ^ 31 - 1) * 1000000"

definition documented_delay :: "int \<Rightarrow> int \<Rightarrow> int" where
  "documented_delay now u =
     (if u \<le> now then 0 else if max_wait < u - now then - 1 else (u - now + 999999) div 1000000)"

lemma documented_delay_near:
  assumes "u - now \<le> max_wait"
  shows "0 \<le> documented_delay now u \<and> 1000000 * documented_delay now u < max 0 (u - now) + 1000000"
proof (cases "u \<le> now")
  case False
  have "1000000 * ((u - now + 999999) div 1000000) \<le> u - now + 999999" "0 \<le> (u - now + 999999) div 1000000"
    using False by simp_all
  then show ?thesis using assms False by (simp add: documented_delay_def)
qed (simp add: documented_delay_def)

lemma documented_delay_mono:
  assumes "u \<le> v" "v - now \<le> max_wait"
  shows "documented_delay now u \<le> documented_delay now v"
  using assms by (auto simp: documented_delay_def intro: zdiv_mono1)

text \<open>As its documentation says, \<open>pollAll\<close> never returns that callbacks were called.\<close>

lemma pollAll_never_callback: "pollAll env t s = Some (r, s') \<Longrightarrow> fst r \<noteq> POLL_CALLBACK"
proof -
  have a: "fst (fst y) \<noteq> POLL_CALLBACK" if "poll_again env t s = Some y" for env t s y
    by (rule poll_again.raw_induct [OF _ that, where P = "\<lambda>env t s y. fst (fst y) \<noteq> POLL_CALLBACK"])
      (auto simp: Option.bind_eq_Some_conv split: if_splits)
  have u: "fst (fst y) \<noteq> POLL_CALLBACK" if "poll_until env e t s = Some y" for env e t s y
    by (rule poll_until.raw_induct [OF _ that, where P = "\<lambda>env e t s y. fst (fst y) \<noteq> POLL_CALLBACK"])
      (auto simp: Option.bind_eq_Some_conv systemTime_def poll_codes split: if_splits)
  show "pollAll env t s = Some (r, s') \<Longrightarrow> fst r \<noteq> POLL_CALLBACK"
    using a [of env t s "(r, s')"] u [of env _ t _ "(r, s')"] by (auto simp: pollAll_def systemTime_def split: if_splits)
qed

section \<open>The looper of a thread\<close>

text \<open>The storage of a thread counts the looper it holds once, and no other.\<close>

definition thread_counts :: "looper_thread \<Rightarrow> bool" where
  "thread_counts s \<longleftrightarrow> (\<forall>a. tls_refs s a = (if tls_looper s = Some a then 1 else 0))"

lemma setForThread_counts: "thread_counts s \<Longrightarrow> thread_counts (setForThread l s) \<and> getForThread (setForThread l s) = l"
  by (auto simp: thread_counts_def setForThread_def getForThread_def count_looper_def Let_def split: option.split)

lemma prepare_counts:
  assumes "thread_counts s" "prepare_looper opts new s = (l, s')"
  shows "thread_counts s' \<and> getForThread s' = Some l \<and> prepare_looper opts' new' s' = (l, s')"
proof (cases "tls_looper s")
  case None
  let ?s = "s\<lparr>made_loopers := (made_loopers s)(new \<mapsto> and opts 1 \<noteq> 0)\<rparr>"
  have "thread_counts ?s" using assms(1) by (simp add: thread_counts_def)
  note k = setForThread_counts [OF this, of "Some new"]
  have "l = new" "s' = setForThread (Some new) ?s" using assms(2) None by (auto simp: prepare_looper_def getForThread_def)
  with k show ?thesis by (simp add: prepare_looper_def)
qed (use assms in \<open>auto simp: prepare_looper_def getForThread_def\<close>)

lemma threadDestructor_counts: "thread_counts s \<Longrightarrow> tls_refs (threadDestructor (tls_looper s) s) a = 0"
  by (auto simp: thread_counts_def threadDestructor_def count_looper_def split: option.split)

section \<open>An example\<close>

text \<open>One descriptor with an identifier, a message that is due and one that is not, and a wait that reports the descriptor and the wake pipe.\<close>

definition example_env :: looper_env where
  "example_env = \<lparr>clock = (\<lambda>n. 10), epoll_wait = (\<lambda>n. EpollEvents [(7, 1), (3, 1)]), epoll_ctl_fails = (\<lambda>n. False),
     calls_while_waiting = (\<lambda>n. []), pipe_room = 4, wake_read_fd = 3, toMillisecondTimeoutDelay = documented_delay,
     handler_alive = (\<lambda>a s. True), handleMessage = (\<lambda>a m s. []), handleEvent = (\<lambda>cb fd ev d s. ([], 1))\<rparr>"

definition example_calls :: "looper_op list" where
  "example_calls = [Client (AddFd 7 5 1 None 9), Client (SendMessageAtTime 50 (Handler 1) 3), Client (SendMessageAtTime 4 (Handler 1) 2)]"

definition example_looper :: looper where
  "example_looper = (looper_new True)\<lparr>
     mMessageEnvelopes := [\<lparr>uptime = 4, envelope_handler = Handler 1, what = 2\<rparr>, \<lparr>uptime = 50, envelope_handler = Handler 1, what = 3\<rparr>],
     mRequests := [7 \<mapsto> \<lparr>request_fd = 7, ident = 5, request_callback = None, request_data = 9\<rparr>],
     epoll_interest := [7 \<mapsto> 1], epoll_ctls := 1, wake_pipe := 2\<rparr>"

definition polled_looper :: looper where
  "polled_looper = example_looper\<lparr>mMessageEnvelopes := [\<lparr>uptime = 50, envelope_handler = Handler 1, what = 3\<rparr>],
     mResponses := [\<lparr>response_events = 1, response_request = \<lparr>request_fd = 7, ident = 5, request_callback = None, request_data = 9\<rparr>\<rparr>],
     mResponseIndex := 1, mNextMessageUptime := 50, wake_pipe := 0, clock_reads := 2, epoll_waits := 1,
     looper_trace := [Waited 0, Handled 1 2 10]\<rparr>"

lemma example_run: "run_looper example_env example_calls (looper_new True) = Some example_looper"
  by (simp add: example_env_def example_calls_def example_looper_def looper_new_def addFd_def epoll_ctl_def epoll_events_def
      sendMessageAtTime_def wake_def Let_def)

lemma example_env_simps [simp]:
  "clock example_env n = 10" "epoll_wait example_env n = EpollEvents [(7, 1), (3, 1)]" "\<not> epoll_ctl_fails example_env n"
  "calls_while_waiting example_env n = []" "pipe_room example_env = 4" "wake_read_fd example_env = 3"
  "toMillisecondTimeoutDelay example_env t u = documented_delay t u" "handler_alive example_env a s" "handleMessage example_env a msg s = []"
  "handleEvent example_env cb fd ev d s = ([], 1)"
  by (simp_all add: example_env_def)

lemma example_due:
  "send_due example_env r s = (case mMessageEnvelopes s of [] \<Rightarrow> Some (r, s)
   | m # ms \<Rightarrow> if uptime m \<le> 10 then send_due example_env POLL_CALLBACK (s\<lparr>clock_reads := clock_reads s + 1, mMessageEnvelopes := ms,
        looper_trace := looper_trace s @ [Handled (handler_target (envelope_handler m)) (what m) 10], mSendingMessage := False\<rparr>)
      else Some (r, s\<lparr>clock_reads := clock_reads s + 1, mNextMessageUptime := uptime m\<rparr>))"
  by (subst send_due.simps)
    (auto simp: systemTime_def handle_message_def handler_target_def looper_emit_def split: list.split message_handler.split)

lemma example_poll: "pollOnce example_env 0 example_looper = Some ((5, 7, 1, Some 9), polled_looper)"
proof -
  let ?s = "example_looper\<lparr>mResponseIndex := 0\<rparr>"
  have "pollInner example_env 0 ?s = Some (POLL_CALLBACK, polled_looper\<lparr>mResponseIndex := 0\<rparr>)"
    by (simp add: pollInner_def poll_timeout_def example_looper_def polled_looper_def looper_new_def looper_emit_def Let_def
        poll_event_def pushResponse_def awoken_def awoken_reads.simps looper_events_def example_due handler_target_def
        call_response_def poll_codes LLONG_MAX_def)
  moreover have "mResponseIndex example_looper = 0" "mResponses example_looper = []"
    by (simp_all add: example_looper_def looper_new_def)
  ultimately show ?thesis
    by (simp add: pollOnce_waits outputs_def) (subst poll_from.simps, simp add: polled_looper_def)
qed

lemma example_window: "poll_window example_env 10 10"
  by (simp add: poll_window_def)

section \<open>Properties\<close>

text \<open>C28. Whatever its clients, its handlers and callbacks and the polls do, in whatever order, a looper keeps its messages sorted
  by the time they are due, watches exactly the descriptors that it has told \<open>epoll\<close> to watch, gives an identifier or a callback to each,
  and never calls a callback that it has released. Two things are left out: handlers and callbacks make every call of their looper but a
  poll of it, and no descriptor is closed before it is removed (the kernel then forgets it, and the looper does not).\<close>

theorem looper_stays_consistent:
  assumes "run_looper env ops (looper_new allow) = Some s" "0 < pipe_room env"
  shows "sorted (map uptime (mMessageEnvelopes s)) \<and> dom (mRequests s) = dom (epoll_interest s) \<and>
    (\<forall>fd r. mRequests s fd = Some r \<longrightarrow> request_ok (mAllowNonCallbacks s) fd r) \<and>
    (\<forall>fd. NullCallback fd \<notin> set (looper_trace s))"
  using run_looper_ok [OF assms(1) looper_new_ok assms(2)] by (simp add: poll_ok_def looper_inv_def)

lemma polled_run: "run_looper example_env (example_calls @ [PollOnce 0]) (looper_new True) = Some polled_looper"
proof -
  have "run_looper env (xs @ ys) s = Option.bind (run_looper env xs s) (run_looper env ys)" for env xs ys s
    by (induction env xs s rule: run_looper.induct) (auto split: Option.bind_splits)
  then show ?thesis by (simp add: example_run example_poll)
qed

lemma looper_stays_consistent_witness:
  "run_looper example_env (example_calls @ [PollOnce 0]) (looper_new True) = Some polled_looper \<and>
   dom (mRequests polled_looper) = dom (epoll_interest polled_looper) \<and> map uptime (mMessageEnvelopes polled_looper) = [50]"
  using looper_stays_consistent [OF polled_run] by (simp add: polled_run) (simp add: polled_looper_def)

text \<open>C29. No message is slept through: once the wake pipe is empty, the next wait of a looper lasts no longer than the caller asked for, and,
  when the first message is at most \<open>INT_MAX\<close> milliseconds away, no longer than until that message is due, rounded up to milliseconds
  (not for ever either). The conversion to milliseconds is taken to do what its documentation says.\<close>

theorem no_message_slept_through:
  assumes "run_looper env ops (looper_new allow) = Some s" "0 < pipe_room env" "wake_pipe s = 0"
    and "mMessageEnvelopes s = m # ms" "uptime m < LLONG_MAX" "toMillisecondTimeoutDelay env = documented_delay"
  shows "(0 \<le> t \<longrightarrow> 0 \<le> fst (poll_timeout env t s) \<and> fst (poll_timeout env t s) \<le> t) \<and>
    (uptime m - clock env (clock_reads s) \<le> max_wait \<longrightarrow>
       0 \<le> fst (poll_timeout env t s) \<and>
       1000000 * fst (poll_timeout env t s) < max 0 (uptime m - clock env (clock_reads s)) + 1000000)"
proof -
  let ?now = "clock env (clock_reads s)"
  have "head_known s" using run_looper_ok [OF assms(1) looper_new_ok assms(2)] by (simp add: poll_ok_def)
  then have le: "mNextMessageUptime s \<le> uptime m" using assms(3,4) by (simp add: head_known_def)
  then have far: "mNextMessageUptime s \<noteq> LLONG_MAX" using assms(5) by auto
  let ?d = "documented_delay ?now (mNextMessageUptime s)"
  have w: "fst (poll_timeout env t s) = (if t \<noteq> 0 \<and> 0 \<le> ?d \<and> (t < 0 \<or> ?d < t) then ?d else t)"
    using far by (auto simp: poll_timeout_def systemTime_def Let_def assms(6))
  have "0 \<le> fst (poll_timeout env t s) \<and> 1000000 * fst (poll_timeout env t s) < max 0 (uptime m - ?now) + 1000000"
    if near: "uptime m - ?now \<le> max_wait"
  proof -
    have "0 \<le> ?d" using documented_delay_near [of "mNextMessageUptime s" ?now] le near by simp
    moreover have "?d \<le> documented_delay ?now (uptime m)" by (rule documented_delay_mono [OF le near])
    moreover note documented_delay_near [OF near]
    ultimately show ?thesis unfolding w by auto
  qed
  then show ?thesis unfolding w by auto
qed

lemma polled_state:
  "wake_pipe polled_looper = 0" "mMessageEnvelopes polled_looper = [\<lparr>uptime = 50, envelope_handler = Handler 1, what = 3\<rparr>]"
  "clock_reads polled_looper = 2"
  by (simp_all add: polled_looper_def)

lemma no_message_slept_through_witness:
  "poll_timeout example_env (- 1) polled_looper = (1, polled_looper\<lparr>clock_reads := 3\<rparr>) \<and> 1000000 * (1 :: int) < max 0 (50 - 10) + 1000000"
proof -
  have e: "poll_timeout example_env (- 1) polled_looper = (1, polled_looper\<lparr>clock_reads := 3\<rparr>)"
    by (simp add: poll_timeout_def systemTime_def polled_looper_def example_looper_def LLONG_MAX_def documented_delay_def max_wait_def)
  have c: "toMillisecondTimeoutDelay example_env = documented_delay" by (simp add: example_env_def)
  have "1000000 * fst (poll_timeout example_env (- 1) polled_looper) < max 0 (50 - 10) + 1000000"
    using no_message_slept_through [OF polled_run, of "\<lparr>uptime = 50, envelope_handler = Handler 1, what = 3\<rparr>" "[]" "- 1", OF _ _ _ _ c]
    by (simp add: polled_state LLONG_MAX_def max_wait_def)
  then show ?thesis unfolding e by simp
qed

text \<open>C30. A poll ends and delivers what is due: if the clock stays between two times while it lasts, no message of a consistent looper is due
  between them, handlers, callbacks and other threads send messages only for later and remove none, and the handlers that weak handlers stand
  for are alive, then \<open>pollOnce\<close> with no results left over returns, each message that was due has been handled once, in the order of the
  times, and all the others are still in the queue. (A handler that always sends a message that is due keeps the poll from returning.)\<close>

theorem due_messages_delivered:
  assumes "run_looper env0 ops (looper_new allow) = Some s" "0 < pipe_room env0" "0 < pipe_room env"
    and "poll_window env t0 t1" "\<forall>m \<in> set (mMessageEnvelopes s). uptime m \<le> t0 \<or> t1 < uptime m" "outputs s = []"
  shows "\<exists>r s'. pollOnce env t s = Some (r, s') \<and>
    handled_messages (looper_trace s') = handled_messages (looper_trace s) @ delivered (filter (\<lambda>m. uptime m \<le> t1) (mMessageEnvelopes s)) \<and>
    {m \<in> set (mMessageEnvelopes s). t1 < uptime m} \<subseteq> set (mMessageEnvelopes s') \<and> (\<forall>m \<in> set (mMessageEnvelopes s'). t1 < uptime m)"
proof -
  let ?s = "s\<lparr>mResponseIndex := max (mResponseIndex s) (length (mResponses s))\<rparr>"
  have P: "poll_ok s" by (rule run_looper_ok [OF assms(1) looper_new_ok assms(2)])
  have F: "due t1 (mMessageEnvelopes s) = filter (\<lambda>m. uptime m \<le> t1) (mMessageEnvelopes s)"
    by (rule due_filter) (use P in \<open>simp add: poll_ok_def looper_inv_def\<close>)
  from pollInner_window [OF assms(4) _ assms(3), of ?s t] P assms(5) obtain result s1 where
    p: "pollInner env t ?s = Some (result, s1)" "result \<noteq> 0"
    "handled_messages (looper_trace s1) = handled_messages (looper_trace s) @ delivered (due t1 (mMessageEnvelopes s))"
    "{m \<in> set (mMessageEnvelopes s). t1 < uptime m} \<subseteq> set (mMessageEnvelopes s1)" "\<forall>m \<in> set (mMessageEnvelopes s1). t1 < uptime m"
    by force
  from poll_from_done [OF p(2), of env t s1] show ?thesis
    using p(3-5) by (auto simp: pollOnce_waits [OF assms(6)] p(1) F)
qed

lemma example_state:
  "mMessageEnvelopes example_looper = [\<lparr>uptime = 4, envelope_handler = Handler 1, what = 2\<rparr>, \<lparr>uptime = 50, envelope_handler = Handler 1, what = 3\<rparr>]"
  "outputs example_looper = []" "epoll_waits example_looper = 0" "looper_trace example_looper = []"
  "ready_results example_env (mRequests example_looper) [(7, 1), (3, 1)] = [(5, 7, 1, Some 9)]"
  by (simp_all add: example_looper_def looper_new_def outputs_def ready_results_def looper_events_def)

lemma due_messages_delivered_witness:
  "\<exists>r s'. pollOnce example_env (- 1) example_looper = Some (r, s') \<and> handled_messages (looper_trace s') = [(1, 2)] \<and>
     \<lparr>uptime = 50, envelope_handler = Handler 1, what = 3\<rparr> \<in> set (mMessageEnvelopes s')"
  using due_messages_delivered [OF example_run _ _ example_window, of "- 1"] by (auto simp: example_state handler_target_def)



text \<open>A callback that adds its descriptor again and returns 0 loses the new registration: the descriptor is removed by
  number, whoever added it last.\<close>

theorem registration_lost_after_callback:
  assumes "i < length (mResponses s)" "mResponses s ! i = \<lparr>response_events = ev, response_request = r\<rparr>"
    and "ident r = POLL_CALLBACK" "request_callback r = Some cb"
    and "handleEvent env cb (request_fd r) ev (request_data r) s = ([AddFd (request_fd r) n events (Some cb') data], 0)"
    and "\<forall>k. \<not> epoll_ctl_fails env k"
  shows "mRequests (snd (call_response env i (result, s))) (request_fd r) = None \<and>
    epoll_interest (snd (call_response env i (result, s))) (request_fd r) = None"
  using assms by (simp add: call_response_def addFd_def removeFd_def epoll_ctl_def Let_def)

lemma registration_lost_after_callback_witness:
  "let r = \<lparr>request_fd = 7, ident = POLL_CALLBACK, request_callback = Some 4, request_data = 9\<rparr>;
       env = example_env\<lparr>handleEvent := (\<lambda>cb fd ev d s. ([AddFd fd 0 1 (Some 5) 9], 0))\<rparr>;
       s = (looper_new False)\<lparr>mRequests := [7 \<mapsto> r], epoll_interest := [7 \<mapsto> 1], mResponses := [\<lparr>response_events = 1, response_request = r\<rparr>]\<rparr>
   in mRequests (looper_step env (AddFd 7 0 1 (Some 5) 9) s) 7 \<noteq> None \<and> mRequests (snd (call_response env 0 (POLL_WAKE, s))) 7 = None"
proof -
  let ?r = "\<lparr>request_fd = 7, ident = POLL_CALLBACK, request_callback = Some 4, request_data = 9\<rparr>"
  let ?env = "example_env\<lparr>handleEvent := (\<lambda>cb fd ev d s. ([AddFd fd 0 1 (Some 5) 9], 0))\<rparr>"
  let ?s = "(looper_new False)\<lparr>mRequests := [7 \<mapsto> ?r], epoll_interest := [7 \<mapsto> 1],
    mResponses := [\<lparr>response_events = 1, response_request = ?r\<rparr>]\<rparr>"
  have "mRequests (snd (call_response ?env 0 (POLL_WAKE, ?s))) (request_fd ?r) = None"
    using registration_lost_after_callback [of 0 ?s 1 ?r 4 ?env 0 1 5 9 POLL_WAKE] by simp
  moreover have "mRequests (looper_step ?env (AddFd 7 0 1 (Some 5) 9) ?s) 7 \<noteq> None"
    by (simp add: addFd_def epoll_ctl_def Let_def)
  ultimately show ?thesis by (simp add: Let_def)
qed

end
