(* ===== verification/GnssData.thy ===== *)
theory GnssData
  imports Prelude
begin

text \<open>
  The conversions of \<open>hidl/gnss/\<close> between the structures of the legacy GNSS libraries and those of the HIDL interface
  (\<open>GnssUtils.cpp\<close>, and the callbacks of \<open>Gnss.cpp\<close>, \<open>GnssMeasurement.cpp\<close>, \<open>GnssBatching.cpp\<close> and \<open>AGnss.cpp\<close> that convert).
  A floating point number is its bits. A field that the code leaves unwritten is \<open>None\<close>. The values of the enumerators and macros
  of both interfaces, which other projects define, are the parameter \<open>gnss_consts\<close>.
\<close>

type_synonym f32 = "32 word"
type_synonym f64 = "64 word"

section \<open>Constants\<close>

datatype location_feature = LatLong | Altitude | Speed | Bearing | Accuracy

record gnss_consts =
  gps_has :: "location_feature \<Rightarrow> 16 word"
  flp_has :: "location_feature \<Rightarrow> 16 word"
  SVS_COUNT :: nat
  sv_has_ephemeris :: u8
  sv_has_almanac :: u8
  sv_used_in_fix :: u8
  sv_has_carrier_frequency :: u8
  STATE_TOW_DECODED :: u32
  STATE_TOW_KNOWN :: u32
  STATE_GLO_TOD_DECODED :: u32
  STATE_GLO_TOD_KNOWN :: u32
  HAS_CARRIER_FREQUENCY :: u32
  HAS_CARRIER_PHASE :: u32
  HAS_CARRIER_PHASE_UNCERTAINTY :: u32
  HAS_SNR :: u32
  CLOCK_HAS_FULL_BIAS :: "16 word"
  CLOCK_TYPE_GPS_TIME :: u8
  FLP_TECH_MASK_GNSS :: u32
  FLP_TECH_MASK_SENSORS :: u32
  CAPABILITY_GNSS :: u32
  WAKEUP_ON_FIFO_FULL :: u8
  FLP_BATCH_WAKEUP_ON_FIFO_FULL :: u32
  FLP_RESULT_SUCCESS :: int
  AF_INET :: nat
  AF_INET6 :: nat
  sizeof_AGpsStatus :: nat
  sizeof_AGpsStatus_v2 :: nat
  ERROR_GENERIC :: int

section \<open>Locations\<close>

record gps_location =
  loc_flags :: "16 word"
  latitude :: f64
  longitude :: f64
  altitude :: f64
  speed :: f32
  bearing :: f32
  accuracy :: f32
  loc_timestamp :: "64 word"

record flp_location = gps_location +
  sources_used :: u32

record gnss_location =
  gnssLocationFlags :: "16 word"
  latitudeDegrees :: f64
  longitudeDegrees :: f64
  altitudeMeters :: f64
  speedMetersPerSec :: f32
  bearingDegrees :: f32
  horizontalAccuracyMeters :: f32
  verticalAccuracyMeters :: f32
  speedAccuracyMetersPerSecond :: f32
  bearingAccuracyDegrees :: f32
  timestamp :: "64 word"

definition zero_location :: gnss_location where
  "zero_location = \<lparr>gnssLocationFlags = 0, latitudeDegrees = 0, longitudeDegrees = 0, altitudeMeters = 0, speedMetersPerSec = 0,
     bearingDegrees = 0, horizontalAccuracyMeters = 0, verticalAccuracyMeters = 0, speedAccuracyMetersPerSecond = 0,
     bearingAccuracyDegrees = 0, timestamp = 0\<rparr>"

text \<open>The fields that both conversions copy; the accuracies that older chips do not have are 0.\<close>

definition copy_location :: "'a gps_location_scheme \<Rightarrow> 16 word \<Rightarrow> gnss_location" where
  "copy_location l flags = \<lparr>gnssLocationFlags = flags, latitudeDegrees = latitude l, longitudeDegrees = longitude l,
     altitudeMeters = altitude l, speedMetersPerSec = speed l, bearingDegrees = bearing l, horizontalAccuracyMeters = accuracy l,
     verticalAccuracyMeters = 0, speedAccuracyMetersPerSecond = 0, bearingAccuracyDegrees = 0, timestamp = loc_timestamp l\<rparr>"

definition convertToGnssLocation :: "gps_location option \<Rightarrow> gnss_location" where
  "convertToGnssLocation location =
     (case location of None \<Rightarrow> zero_location | Some l \<Rightarrow> copy_location l (and (loc_flags l) 0x1f))"

definition convertFlpLocation :: "gnss_consts \<Rightarrow> flp_location option \<Rightarrow> gnss_location" where
  "convertFlpLocation k flpLocation =
     (case flpLocation of None \<Rightarrow> zero_location
      | Some l \<Rightarrow> copy_location l (fold (\<lambda>f flags. if and (loc_flags l) (flp_has k f) \<noteq> 0 then or flags (gps_has k f) else flags)
                    [LatLong, Altitude, Speed, Bearing, Accuracy] 0))"

section \<open>Satellites\<close>

datatype constellation = GPS | SBAS | GLONASS | QZSS | BEIDOU | UnknownConstellation | CastConstellation u8

record gnss_sv_info =
  svid :: "16 word"
  sv_constellation :: constellation
  cN0Dbhz :: f32
  elevationDegrees :: f32
  azimuthDegrees :: f32
  svFlag :: u8
  carrierFrequencyHz :: "f32 option"

record legacy_sv_info =
  legacy_svid :: "16 word"
  legacy_constellation :: u8
  c_n0_dbhz :: f32
  legacy_elevation :: f32
  legacy_azimuth :: f32
  legacy_flags :: u8

record legacy_sv_status =
  legacy_num_svs :: "32 word"
  gnss_sv_list :: "legacy_sv_info list"

definition clamp_svs :: "gnss_consts \<Rightarrow> u32 \<Rightarrow> nat" where
  "clamp_svs k n = (if SVS_COUNT k < unat n then SVS_COUNT k else unat n)"

text \<open>Reading behind the list of the structure is undefined.\<close>

definition gnss_sv_status :: "gnss_consts \<Rightarrow> legacy_sv_status \<Rightarrow> gnss_sv_info list option" where
  "gnss_sv_status k status =
     (let n = clamp_svs k (legacy_num_svs status)
      in if n \<le> length (gnss_sv_list status)
         then Some (map (\<lambda>v. \<lparr>svid = legacy_svid v, sv_constellation = CastConstellation (legacy_constellation v),
                cN0Dbhz = c_n0_dbhz v, elevationDegrees = legacy_elevation v, azimuthDegrees = legacy_azimuth v,
                svFlag = and (legacy_flags v) (not (sv_has_carrier_frequency k)), carrierFrequencyHz = Some 0\<rparr>)
                (take n (gnss_sv_list status)))
         else None)"

definition GLONASS_SVID_OFFSET :: int where "GLONASS_SVID_OFFSET = 64"
definition GLONASS_SVID_COUNT :: int where "GLONASS_SVID_COUNT = 24"
definition BEIDOU_SVID_OFFSET :: int where "BEIDOU_SVID_OFFSET = 200"
definition BEIDOU_SVID_COUNT :: int where "BEIDOU_SVID_COUNT = 35"
definition SBAS_SVID_MIN :: int where "SBAS_SVID_MIN = 33"
definition SBAS_SVID_MAX :: int where "SBAS_SVID_MAX = 64"
definition SBAS_SVID_ADD :: int where "SBAS_SVID_ADD = 87"
definition QZSS_SVID_MIN :: int where "QZSS_SVID_MIN = 193"
definition QZSS_SVID_MAX :: int where "QZSS_SVID_MAX = 200"

lemmas svid_values = GLONASS_SVID_OFFSET_def GLONASS_SVID_COUNT_def BEIDOU_SVID_OFFSET_def BEIDOU_SVID_COUNT_def
  SBAS_SVID_MIN_def SBAS_SVID_MAX_def SBAS_SVID_ADD_def QZSS_SVID_MIN_def QZSS_SVID_MAX_def

text \<open>The number of a satellite is cut to 16 bits before it is told which constellation it belongs to.\<close>

definition convert_prn :: "32 word \<Rightarrow> constellation \<times> 16 word" where
  "convert_prn n =
     (let v = ucast n :: 16 word; i = sint v
      in if 1 \<le> i \<and> i \<le> 32 then (GPS, v)
         else if GLONASS_SVID_OFFSET < i \<and> i \<le> GLONASS_SVID_OFFSET + GLONASS_SVID_COUNT then (GLONASS, v - word_of_int GLONASS_SVID_OFFSET)
         else if BEIDOU_SVID_OFFSET < i \<and> i \<le> BEIDOU_SVID_OFFSET + BEIDOU_SVID_COUNT then (BEIDOU, v - word_of_int BEIDOU_SVID_OFFSET)
         else if SBAS_SVID_MIN \<le> i \<and> i \<le> SBAS_SVID_MAX then (SBAS, v + word_of_int SBAS_SVID_ADD)
         else if QZSS_SVID_MIN \<le> i \<and> i \<le> QZSS_SVID_MAX then (QZSS, v)
         else (UnknownConstellation, v))"

record gps_sv_info =
  prn :: "32 word"
  snr :: f32
  elevation :: f32
  azimuth :: f32

record gps_sv_status =
  num_svs :: "32 word"
  sv_list :: "gps_sv_info list"
  ephemeris_mask :: u32
  almanac_mask :: u32
  used_in_fix_mask :: u32
  word_after_used :: u32

definition gps_sv_flags :: "gnss_consts \<Rightarrow> gps_sv_status \<Rightarrow> constellation \<Rightarrow> 16 word \<Rightarrow> u8" where
  "gps_sv_flags k s c v =
     (if c = GPS \<or> c = GLONASS
      then let svidMask = push_bit (nat (sint v - 1)) 1 :: u32
           in or (if and (ephemeris_mask s) svidMask \<noteq> 0 then sv_has_ephemeris k else 0)
               (or (if and (almanac_mask s) svidMask \<noteq> 0 then sv_has_almanac k else 0)
                 (if c = GPS \<and> and (used_in_fix_mask s) svidMask \<noteq> 0 \<or> c = GLONASS \<and> and (word_after_used s) svidMask \<noteq> 0
                  then sv_used_in_fix k else 0))
      else 0)"

definition convert_gps_sv :: "gnss_consts \<Rightarrow> gps_sv_status \<Rightarrow> gps_sv_info \<Rightarrow> gnss_sv_info" where
  "convert_gps_sv k s i =
     (case convert_prn (prn i) of (c, v) \<Rightarrow>
        \<lparr>svid = v, sv_constellation = c, cN0Dbhz = snr i, elevationDegrees = elevation i, azimuthDegrees = azimuth i,
         svFlag = gps_sv_flags k s c v, carrierFrequencyHz = None\<rparr>)"

definition gps_sv_status_to_gnss :: "gnss_consts \<Rightarrow> gps_sv_status \<Rightarrow> gnss_sv_info list option" where
  "gps_sv_status_to_gnss k s =
     (let n = clamp_svs k (num_svs s)
      in if n \<le> length (sv_list s) then Some (map (convert_gps_sv k s) (take n (sv_list s))) else None)"

section \<open>Measurements\<close>

record legacy_common =
  m_flags :: u32
  time_offset_ns :: f64
  m_state :: u32
  received_time_in_ns :: "64 word"
  received_time_uncertainty_in_ns :: "64 word"
  m_c_n0_dbhz :: f64
  pseudorange_rate_mps :: f64
  pseudorange_rate_uncertainty_mps :: f64
  accumulated_delta_range_state :: "16 word"
  accumulated_delta_range_m :: f64
  accumulated_delta_range_uncertainty_m :: f64
  carrier_frequency_hz :: f32
  carrier_cycles :: "64 word"
  carrier_phase :: f64
  carrier_phase_uncertainty :: f64
  multipath_indicator :: u8
  snr_db :: f64

record legacy_measurement = legacy_common +
  m_svid :: "16 word"
  m_constellation :: u8

record gps_measurement = legacy_common +
  m_prn :: u8

record gnss_measurement =
  gm_flags :: u32
  gm_svid :: "16 word"
  gm_constellation :: constellation
  timeOffsetNs :: f64
  gm_state :: u32
  receivedSvTimeInNs :: "64 word"
  receivedSvTimeUncertaintyInNs :: "64 word"
  cN0DbHz :: f64
  pseudorangeRateMps :: f64
  pseudorangeRateUncertaintyMps :: f64
  accumulatedDeltaRangeState :: "16 word"
  accumulatedDeltaRangeM :: f64
  accumulatedDeltaRangeUncertaintyM :: f64
  gm_carrierFrequencyHz :: f32
  carrierCycles :: "64 word option"
  carrierPhase :: f64
  carrierPhaseUncertainty :: f64
  multipathIndicator :: u8
  snrDb :: f64

definition implied_state :: "gnss_consts \<Rightarrow> u32 \<Rightarrow> u32" where
  "implied_state k state =
     (let s1 = (if and state (STATE_TOW_DECODED k) \<noteq> 0 then or state (STATE_TOW_KNOWN k) else state)
      in if and s1 (STATE_GLO_TOD_DECODED k) \<noteq> 0 then or s1 (STATE_GLO_TOD_KNOWN k) else s1)"

definition copy_measurement :: "'a legacy_common_scheme \<Rightarrow> 16 word \<Rightarrow> constellation \<Rightarrow> u32 \<Rightarrow> f32 \<Rightarrow> 64 word option \<Rightarrow> f64 \<Rightarrow> f64 \<Rightarrow> f64 \<Rightarrow> gnss_measurement" where
  "copy_measurement e sv c state freq cycles phase uncertainty ratio =
     \<lparr>gm_flags = m_flags e, gm_svid = sv, gm_constellation = c, timeOffsetNs = time_offset_ns e, gm_state = state,
      receivedSvTimeInNs = received_time_in_ns e, receivedSvTimeUncertaintyInNs = received_time_uncertainty_in_ns e,
      cN0DbHz = m_c_n0_dbhz e, pseudorangeRateMps = pseudorange_rate_mps e,
      pseudorangeRateUncertaintyMps = pseudorange_rate_uncertainty_mps e,
      accumulatedDeltaRangeState = accumulated_delta_range_state e, accumulatedDeltaRangeM = accumulated_delta_range_m e,
      accumulatedDeltaRangeUncertaintyM = accumulated_delta_range_uncertainty_m e, gm_carrierFrequencyHz = freq,
      carrierCycles = cycles, carrierPhase = phase, carrierPhaseUncertainty = uncertainty,
      multipathIndicator = multipath_indicator e, snrDb = ratio\<rparr>"

definition convert_legacy_measurement :: "gnss_consts \<Rightarrow> legacy_measurement \<Rightarrow> gnss_measurement" where
  "convert_legacy_measurement k e =
     copy_measurement e (m_svid e) (CastConstellation (m_constellation e)) (implied_state k (m_state e))
       (carrier_frequency_hz e) (Some (carrier_cycles e)) (carrier_phase e) (carrier_phase_uncertainty e) (snr_db e)"

definition convert_gps_measurement :: "gnss_consts \<Rightarrow> gps_measurement \<Rightarrow> gnss_measurement" where
  "convert_gps_measurement k e =
     copy_measurement e (scast (m_prn e))
       (if 1 \<le> sint (m_prn e) \<and> sint (m_prn e) \<le> 32 then GPS else UnknownConstellation) (m_state e)
       (if and (m_flags e) (HAS_CARRIER_FREQUENCY k) \<noteq> 0 then carrier_frequency_hz e else 0) None
       (if and (m_flags e) (HAS_CARRIER_PHASE k) \<noteq> 0 then carrier_phase e else 0)
       (if and (m_flags e) (HAS_CARRIER_PHASE_UNCERTAINTY k) \<noteq> 0 then carrier_phase_uncertainty e else 0)
       (if and (m_flags e) (HAS_SNR k) \<noteq> 0 then snr_db e else 0)"

record legacy_clock =
  clock_flags :: "16 word"
  leap_second :: "16 word"
  time_ns :: "64 word"
  time_uncertainty_ns :: f64
  full_bias_ns :: "64 word"
  bias_ns :: f64
  bias_uncertainty_ns :: f64
  drift_nsps :: f64
  drift_uncertainty_nsps :: f64

record legacy_gnss_clock = legacy_clock +
  hw_clock_discontinuity_count :: u32

record gps_clock = legacy_clock +
  clock_type :: u8

record gnss_clock =
  gnssClockFlags :: "16 word"
  leapSecond :: "16 word"
  timeNs :: "64 word"
  timeUncertaintyNs :: f64
  fullBiasNs :: "64 word"
  biasNs :: f64
  biasUncertaintyNs :: f64
  driftNsps :: f64
  driftUncertaintyNsps :: f64
  hwClockDiscontinuityCount :: "u32 option"

definition convert_legacy_clock :: "legacy_gnss_clock \<Rightarrow> gnss_clock" where
  "convert_legacy_clock c =
     \<lparr>gnssClockFlags = clock_flags c, leapSecond = leap_second c, timeNs = time_ns c, timeUncertaintyNs = time_uncertainty_ns c,
      fullBiasNs = full_bias_ns c, biasNs = bias_ns c, biasUncertaintyNs = bias_uncertainty_ns c, driftNsps = drift_nsps c,
      driftUncertaintyNsps = drift_uncertainty_nsps c, hwClockDiscontinuityCount = Some (hw_clock_discontinuity_count c)\<rparr>"

text \<open>The negation of a floating point number turns its sign bit.\<close>

definition neg_f64 :: "f64 \<Rightarrow> f64" where
  "neg_f64 x = xor x (push_bit 63 1)"

text \<open>The negation of the least integer is undefined. \<open>count\<close> is the static counter of the function.\<close>

definition convert_gps_clock :: "gnss_consts \<Rightarrow> u32 \<Rightarrow> gps_clock \<Rightarrow> (gnss_clock \<times> u32) option" where
  "convert_gps_clock k count c =
     (let gps_time = (clock_type c = CLOCK_TYPE_GPS_TIME k);
          flags = (if gps_time then or (clock_flags c) (CLOCK_HAS_FULL_BIAS k) else clock_flags c);
          full = (if gps_time then time_ns c else full_bias_ns c);
          time = (if gps_time then 0 else time_ns c)
      in if full = push_bit 63 1 then None
         else Some (\<lparr>gnssClockFlags = flags, leapSecond = leap_second c, timeNs = time, timeUncertaintyNs = time_uncertainty_ns c,
             fullBiasNs = - full, biasNs = neg_f64 (bias_ns c), biasUncertaintyNs = bias_uncertainty_ns c, driftNsps = drift_nsps c,
             driftUncertaintyNsps = drift_uncertainty_nsps c, hwClockDiscontinuityCount = (if gps_time then Some count else None)\<rparr>,
           if gps_time then count + 1 else count))"

record ('m, 'c) measurement_data =
  measurement_count :: nat
  data_measurements :: "'m list"
  data_clock :: 'c

type_synonym legacy_gnss_data = "(legacy_measurement, legacy_gnss_clock) measurement_data"
type_synonym gps_data = "(gps_measurement, gps_clock) measurement_data"
type_synonym gnss_data = "gnss_measurement list \<times> gnss_clock"

definition convert_measurements :: "gnss_consts \<Rightarrow> ('m \<Rightarrow> gnss_measurement) \<Rightarrow> ('m, 'c) measurement_data \<Rightarrow> gnss_measurement list option" where
  "convert_measurements k f d =
     (let n = min (measurement_count d) (SVS_COUNT k)
      in if n \<le> length (data_measurements d) then Some (map f (take n (data_measurements d))) else None)"

definition convert_legacy_data :: "gnss_consts \<Rightarrow> legacy_gnss_data \<Rightarrow> gnss_data option" where
  "convert_legacy_data k d =
     map_option (\<lambda>ms. (ms, convert_legacy_clock (data_clock d))) (convert_measurements k (convert_legacy_measurement k) d)"

definition convert_gps_data :: "gnss_consts \<Rightarrow> u32 \<Rightarrow> gps_data \<Rightarrow> (gnss_data \<times> u32) option" where
  "convert_gps_data k count d =
     Option.bind (convert_measurements k (convert_gps_measurement k) d)
       (\<lambda>ms. map_option (\<lambda>(c, count'). ((ms, c), count')) (convert_gps_clock k count (data_clock d)))"

section \<open>Batches of locations\<close>

definition MAX_LOCATIONS_PER_BATCH :: int where "MAX_LOCATIONS_PER_BATCH = 1000"

definition FLP_TECH_MASK_GNSS_AND_SENSORS :: "gnss_consts \<Rightarrow> u32" where
  "FLP_TECH_MASK_GNSS_AND_SENSORS k = or (FLP_TECH_MASK_GNSS k) (FLP_TECH_MASK_SENSORS k)"

definition batch_count :: "int \<Rightarrow> nat" where
  "batch_count locationsCount =
     nat (if locationsCount < 0 then 0 else if MAX_LOCATIONS_PER_BATCH < locationsCount then MAX_LOCATIONS_PER_BATCH else locationsCount)"

definition batch_locations :: "gnss_consts \<Rightarrow> int \<Rightarrow> flp_location option list \<Rightarrow> gnss_location list option" where
  "batch_locations k locationsCount locations =
     (let n = batch_count locationsCount
      in if n \<le> length locations
         then Some (concat (map (\<lambda>x. case x of
                None \<Rightarrow> []
              | Some l \<Rightarrow> if and (sources_used l) (not (FLP_TECH_MASK_GNSS_AND_SENSORS k)) \<noteq> 0 then [] else [convertFlpLocation k x])
              (take n locations)))
         else None)"

section \<open>The state of the assisted connection\<close>

record agps_status =
  agps_size :: nat
  agps_type :: "16 word"
  agps_status_value :: "16 word"
  agps_ipaddr :: u32
  ss_family :: nat
  sin_addr :: u32
  sin6_addr :: "u8 list"

datatype agnss_status = AGnssStatusIpV4 u8 u8 u32 | AGnssStatusIpV6 u8 u8 "u8 list"

text \<open>The processor is little endian.\<close>

definition htonl :: "u32 \<Rightarrow> u32" where
  "htonl x = or (push_bit 24 (and x 0xff)) (or (push_bit 8 (and x 0xff00)) (or (and (drop_bit 8 x) 0xff00) (and (drop_bit 24 x) 0xff)))"

definition agnss_status_of :: "gnss_consts \<Rightarrow> agps_status \<Rightarrow> agnss_status option" where
  "agnss_status_of k s =
     (if agps_size s = sizeof_AGpsStatus k
      then if ss_family s = AF_INET k then Some (AGnssStatusIpV4 (ucast (agps_type s)) (ucast (agps_status_value s)) (sin_addr s))
           else if ss_family s = AF_INET6 k
           then Some (AGnssStatusIpV6 (ucast (agps_type s)) (ucast (agps_status_value s)) (sin6_addr s))
           else None
      else if sizeof_AGpsStatus_v2 k \<le> agps_size s
      then Some (AGnssStatusIpV4 (word_of_nat (AF_INET k)) (ucast (agps_status_value s)) (htonl (agps_ipaddr s)))
      else None)"

end
