(* ===== verification/Gnss.thy ===== *)
theory Gnss
  imports GnssData
begin

text \<open>
  The GNSS service of \<open>hidl/gnss/Gnss.cpp\<close>: between a client that registers a callback object and the legacy library of the vendor
  (the HAL). The HAL calls back, from its threads or while it is called; a callback is handed to the client. The state is
  the members and the statics of \<open>Gnss\<close>, and of the classes of its extensions, which are in \<open>GnssParts\<close>.
\<close>

section \<open>Interfaces\<close>

datatype gnss_part =
  AGnssRil | GnssConfiguration | GnssGeofencing | AGnss | GnssNi | GnssMeasurement | GnssNavigationMessage | GnssXtra | GnssDebug | GnssBatching

text \<open>The calls of the HAL, with what is handed over.\<close>

datatype (plugins only: code) hal_call =
    HalInit
  | HalStart
  | HalStop
  | HalCleanup
  | HalInjectLocation f64 f64 f32
  | HalInjectTime "64 word" "64 word" u32
  | HalDeleteAidingData "16 word"
  | HalSetPositionMode u32 u32 u32 u32 u32
  | HalGetExtension gnss_part
  | PartInit gnss_part
  | PartClose gnss_part
  | DataConnClosed
  | DataConnFailed
  | SetServer "16 word" string int
  | DataConnOpen string "16 word"
  | SetRefLocation "16 word" "16 word list"
  | SetSetId "16 word" string
  | UpdateNetworkState bool int bool
  | UpdateNetworkAvailability bool string
  | AddGeofenceArea int f64 f64 f64 int int u32 u32
  | PauseGeofence int
  | ResumeGeofence int int
  | RemoveGeofenceArea int
  | NiRespond int int
  | InjectXtraData string
  | ConfigurationUpdate string
  | GetInternalState nat
  | GetBatchSize
  | StartBatching int nat u32 u32 "64 word"
  | StopBatching int
  | FlushBatchedLocations
  | FlpCleanup

record ni_notification =
  notification_id :: int
  ni_type :: u32
  notify_flags :: u32
  ni_timeout :: u32
  default_response :: int
  requestor_id :: string
  ni_text :: string
  requestor_id_encoding :: int
  text_encoding :: int

record navigation_message =
  nav_svid :: "16 word"
  nav_type :: "16 word"
  nav_status :: "16 word"
  nav_message_id :: "16 word"
  nav_submessage_id :: "16 word"
  nav_data :: "u8 list"

text \<open>The callbacks of the HAL; \<open>None\<close> is a NULL pointer. The text of an NMEA sentence is the memory it is in.\<close>

datatype (plugins only: code) hal_callback =
    LocationCb "gps_location option"
  | StatusCb "16 word option"
  | GnssSvStatusCb "legacy_sv_status option"
  | GpsSvStatusCb "gps_sv_status option"
  | NmeaCb "64 word" "u8 list" int
  | SetCapabilitiesCb u32
  | AcquireWakelockCb
  | ReleaseWakelockCb
  | RequestUtcTimeCb
  | SetSystemInfoCb "16 word option"
  | CreateThreadCb "gnss_part option" string addr addr
  | AGnssStatusCb "agps_status option"
  | RequestSetId u32
  | RequestRefLoc u32
  | GfTransitionCb int "gps_location option" int "64 word"
  | GfStatusCb int "gps_location option"
  | GfAddCb int int
  | GfRemoveCb int int
  | GfPauseCb int int
  | GfResumeCb int int
  | GnssMeasurementCb "legacy_gnss_data option"
  | GpsMeasurementCb "gps_data option"
  | NiNotifyCb "ni_notification option"
  | XtraDownloadRequestCb
  | NavigationMessageCb "navigation_message option"
  | FlpLocationCb int "flp_location option list option"
  | FlpAcquireWakelockCb
  | FlpReleaseWakelockCb
  | FlpSetThreadEventCb
  | FlpCapabilitiesCb u32
  | FlpStatusCb int

text \<open>The calls of the callback objects of clients.\<close>

datatype (plugins only: code) gnss_message =
    LocationMsg gnss_location
  | StatusMsg u8
  | SvStatusMsg "gnss_sv_info list"
  | NmeaMsg "64 word" "u8 list"
  | SetCapabilitiesMsg u32
  | AcquireWakelockMsg
  | ReleaseWakelockMsg
  | RequestTimeMsg
  | SetSystemInfoMsg "16 word"
  | AGnssStatusMsg agnss_status
  | RequestSetIdMsg u32
  | RequestRefLocMsg
  | GeofenceTransitionMsg int gnss_location int "64 word"
  | GeofenceStatusMsg int gnss_location
  | GeofenceAddMsg int int
  | GeofenceRemoveMsg int int
  | GeofencePauseMsg int int
  | GeofenceResumeMsg int int
  | MeasurementMsg gnss_data
  | NiNotifyMsg ni_notification
  | DownloadRequestMsg
  | NavigationMsg navigation_message
  | LocationBatchMsg "gnss_location list"

datatype gnss_event =
    ToClient addr gnss_message
  | ToHal hal_call
  | LinkToDeath addr
  | UnlinkToDeath addr

section \<open>State\<close>

record gnss =
  mGnssIface :: bool
  mParts :: "gnss_part \<Rightarrow> bool"
  sInterfaceExists :: "gnss_part \<Rightarrow> bool"
  sGnssCbIface :: "addr option"
  sPartCbIface :: "gnss_part \<Rightarrow> addr option"
  sWakelockHeldGnss :: bool
  sWakelockHeldFused :: bool
  sWakelockHeld :: bool
  sCapabilitiesCached :: u32
  sYearOfHwCached :: "16 word"
  sFlpSupportsBatching :: bool
  discontinuity_count :: u32
  sThreadFuncArgsList :: "gnss_part option \<Rightarrow> (addr \<times> addr) list"
  gnss_trace :: "gnss_event list"

text \<open>
  The HAL: the result of a call and the callbacks it makes before it returns; and how the module of the batching extension is opened
  (the result of \<open>hw_get_module\<close>, whether the module and its methods are there, the result of \<open>open\<close>, and whether there is an interface).
\<close>

record gnss_env =
  gnss_k :: gnss_consts
  hal :: "hal_call \<Rightarrow> gnss \<Rightarrow> int \<times> hal_callback list"
  has_extension :: "gnss_part \<Rightarrow> gnss \<Rightarrow> bool"
  flp_module :: "gnss \<Rightarrow> int \<times> bool \<times> bool \<times> int \<times> bool"

definition gnss_emit :: "gnss_event \<Rightarrow> gnss \<Rightarrow> gnss" where
  "gnss_emit e s = s\<lparr>gnss_trace := gnss_trace s @ [e]\<rparr>"

text \<open>Without a client nothing is done; a failed call of the client is only logged.\<close>

definition tell :: "addr option \<Rightarrow> gnss_message \<Rightarrow> gnss \<Rightarrow> gnss" where
  "tell client m s = (case client of None \<Rightarrow> s | Some c \<Rightarrow> gnss_emit (ToClient c m) s)"

text \<open>A structure is only converted for a client, and a NULL pointer is only logged.\<close>

definition tell_converted :: "addr option \<Rightarrow> ('a \<Rightarrow> gnss_message option) \<Rightarrow> 'a option \<Rightarrow> gnss \<Rightarrow> gnss option" where
  "tell_converted client f x s =
     (if client = None then Some s
      else case x of None \<Rightarrow> Some s | Some y \<Rightarrow> map_option (\<lambda>m. tell client m s) (f y))"

section \<open>The callbacks\<close>

definition locationCb :: "gps_location option \<Rightarrow> gnss \<Rightarrow> gnss option" where
  "locationCb location s = tell_converted (sGnssCbIface s) (\<lambda>l. Some (LocationMsg (convertToGnssLocation (Some l)))) location s"

definition statusCb :: "16 word option \<Rightarrow> gnss \<Rightarrow> gnss option" where
  "statusCb status s = tell_converted (sGnssCbIface s) (\<lambda>v. Some (StatusMsg (ucast v))) status s"

definition gnssSvStatusCb :: "gnss_consts \<Rightarrow> legacy_sv_status option \<Rightarrow> gnss \<Rightarrow> gnss option" where
  "gnssSvStatusCb k status s = tell_converted (sGnssCbIface s) (\<lambda>v. map_option SvStatusMsg (gnss_sv_status k v)) status s"

definition gpsSvStatusCb :: "gnss_consts \<Rightarrow> gps_sv_status option \<Rightarrow> gnss \<Rightarrow> gnss option" where
  "gpsSvStatusCb k svInfo s = tell_converted (sGnssCbIface s) (\<lambda>v. map_option SvStatusMsg (gps_sv_status_to_gnss k v)) svInfo s"

text \<open>Reading behind the memory of the sentence is undefined.\<close>

definition nmea_text :: "u8 list \<Rightarrow> int \<Rightarrow> u8 list option" where
  "nmea_text nmea len =
     (if len < 0 \<or> int (length nmea) \<le> len then None
      else if nmea ! nat len \<noteq> 0 then (if 0 \<in> set nmea then Some (takeWhile (\<lambda>c. c \<noteq> 0) nmea) else None)
      else Some (take (nat len) nmea))"

definition nmeaCb :: "64 word \<Rightarrow> u8 list \<Rightarrow> int \<Rightarrow> gnss \<Rightarrow> gnss option" where
  "nmeaCb time nmea len s = tell_converted (sGnssCbIface s) (\<lambda>_. map_option (NmeaMsg time) (nmea_text nmea len)) (Some ()) s"

definition setCapabilitiesCb :: "u32 \<Rightarrow> gnss \<Rightarrow> gnss" where
  "setCapabilitiesCb capabilities s =
     (if sGnssCbIface s = None then s
      else (tell (sGnssCbIface s) (SetCapabilitiesMsg capabilities) s)\<lparr>sCapabilitiesCached := capabilities\<rparr>)"

definition updateWakelock :: "gnss \<Rightarrow> gnss" where
  "updateWakelock s =
     (if sGnssCbIface s = None then s
      else if sWakelockHeldGnss s \<or> sWakelockHeldFused s
      then if \<not> sWakelockHeld s then tell (sGnssCbIface s) AcquireWakelockMsg (s\<lparr>sWakelockHeld := True\<rparr>) else s
      else tell (sGnssCbIface s) ReleaseWakelockMsg (s\<lparr>sWakelockHeld := False\<rparr>))"

definition acquireWakelockGnss :: "gnss \<Rightarrow> gnss" where
  "acquireWakelockGnss s = updateWakelock (s\<lparr>sWakelockHeldGnss := True\<rparr>)"

definition releaseWakelockGnss :: "gnss \<Rightarrow> gnss" where
  "releaseWakelockGnss s = updateWakelock (s\<lparr>sWakelockHeldGnss := False\<rparr>)"

definition acquireWakelockFused :: "gnss \<Rightarrow> gnss" where
  "acquireWakelockFused s = updateWakelock (s\<lparr>sWakelockHeldFused := True\<rparr>)"

definition releaseWakelockFused :: "gnss \<Rightarrow> gnss" where
  "releaseWakelockFused s = updateWakelock (s\<lparr>sWakelockHeldFused := False\<rparr>)"

definition acquireWakelockCb :: "gnss \<Rightarrow> gnss" where
  "acquireWakelockCb s = acquireWakelockGnss s"

definition releaseWakelockCb :: "gnss \<Rightarrow> gnss" where
  "releaseWakelockCb s = releaseWakelockGnss s"

definition requestUtcTimeCb :: "gnss \<Rightarrow> gnss" where
  "requestUtcTimeCb s = tell (sGnssCbIface s) RequestTimeMsg s"

text \<open>The arguments of a thread are kept as long as the object of its class.\<close>

definition createPthread :: "gnss_part option \<Rightarrow> string \<Rightarrow> addr \<Rightarrow> addr \<Rightarrow> gnss \<Rightarrow> gnss" where
  "createPthread part name start arg s =
     s\<lparr>sThreadFuncArgsList := (sThreadFuncArgsList s)(part := sThreadFuncArgsList s part @ [(start, arg)])\<rparr>"

definition setSystemInfoCb :: "16 word option \<Rightarrow> gnss \<Rightarrow> gnss" where
  "setSystemInfoCb info s =
     (if sGnssCbIface s = None then s
      else case info of None \<Rightarrow> s
           | Some year \<Rightarrow> (tell (sGnssCbIface s) (SetSystemInfoMsg year) s)\<lparr>sYearOfHwCached := year\<rparr>)"

end
