(* ===== verification/GnssParts.thy ===== *)
theory GnssParts
  imports Gnss Decimal
begin

text \<open>
  The extensions of the GNSS service (\<open>AGnss.cpp\<close>, \<open>AGnssRil.cpp\<close>, \<open>GnssGeofencing.cpp\<close>, \<open>GnssBatching.cpp\<close>, \<open>GnssMeasurement.cpp\<close>,
  \<open>GnssNi.cpp\<close>, \<open>GnssXtra.cpp\<close>, \<open>GnssNavigationMessage.cpp\<close>, \<open>GnssConfiguration.cpp\<close>, \<open>GnssDebug.cpp\<close>), and the methods of
  \<open>Gnss.cpp\<close>, which call the HAL. The object of an extension is only made with its interface, so the tests of its methods for a
  NULL interface are tests whether the object is there.
\<close>

section \<open>Callbacks of the extensions\<close>

definition tell_part :: "gnss_part \<Rightarrow> gnss_message \<Rightarrow> gnss \<Rightarrow> gnss" where
  "tell_part p m s = tell (sPartCbIface s p) m s"

definition agnss_statusCb :: "gnss_consts \<Rightarrow> agps_status option \<Rightarrow> gnss \<Rightarrow> gnss" where
  "agnss_statusCb k status s =
     (if sPartCbIface s AGnss = None then s
      else case status of None \<Rightarrow> s
           | Some v \<Rightarrow> (case agnss_status_of k v of None \<Rightarrow> s | Some m \<Rightarrow> tell_part AGnss (AGnssStatusMsg m) s))"

definition requestSetId :: "u32 \<Rightarrow> gnss \<Rightarrow> gnss" where
  "requestSetId flags s = tell_part AGnssRil (RequestSetIdMsg flags) s"

definition requestRefLoc :: "u32 \<Rightarrow> gnss \<Rightarrow> gnss" where
  "requestRefLoc flags s = tell_part AGnssRil RequestRefLocMsg s"

definition gnssGfTransitionCb :: "int \<Rightarrow> gps_location option \<Rightarrow> int \<Rightarrow> 64 word \<Rightarrow> gnss \<Rightarrow> gnss" where
  "gnssGfTransitionCb geofenceId location transition time s =
     (case location of None \<Rightarrow> s
      | Some l \<Rightarrow> tell_part GnssGeofencing (GeofenceTransitionMsg geofenceId (convertToGnssLocation (Some l)) transition time) s)"

definition gnssGfStatusCb :: "int \<Rightarrow> gps_location option \<Rightarrow> gnss \<Rightarrow> gnss" where
  "gnssGfStatusCb status location s = tell_part GnssGeofencing (GeofenceStatusMsg status (convertToGnssLocation location)) s"

definition gnssGfAddCb :: "int \<Rightarrow> int \<Rightarrow> gnss \<Rightarrow> gnss" where
  "gnssGfAddCb geofenceId status s = tell_part GnssGeofencing (GeofenceAddMsg geofenceId status) s"

definition gnssGfRemoveCb :: "int \<Rightarrow> int \<Rightarrow> gnss \<Rightarrow> gnss" where
  "gnssGfRemoveCb geofenceId status s = tell_part GnssGeofencing (GeofenceRemoveMsg geofenceId status) s"

definition gnssGfPauseCb :: "int \<Rightarrow> int \<Rightarrow> gnss \<Rightarrow> gnss" where
  "gnssGfPauseCb geofenceId status s = tell_part GnssGeofencing (GeofencePauseMsg geofenceId status) s"

definition gnssGfResumeCb :: "int \<Rightarrow> int \<Rightarrow> gnss \<Rightarrow> gnss" where
  "gnssGfResumeCb geofenceId status s = tell_part GnssGeofencing (GeofenceResumeMsg geofenceId status) s"

definition gnssMeasurementCb :: "gnss_consts \<Rightarrow> legacy_gnss_data option \<Rightarrow> gnss \<Rightarrow> gnss option" where
  "gnssMeasurementCb k d s = tell_converted (sPartCbIface s GnssMeasurement) (\<lambda>d. map_option MeasurementMsg (convert_legacy_data k d)) d s"

definition gpsMeasurementCb :: "gnss_consts \<Rightarrow> gps_data option \<Rightarrow> gnss \<Rightarrow> gnss option" where
  "gpsMeasurementCb k gpsData s =
     (if sPartCbIface s GnssMeasurement = None then Some s
      else case gpsData of None \<Rightarrow> Some s
           | Some d \<Rightarrow> map_option (\<lambda>(m, count). tell_part GnssMeasurement (MeasurementMsg m) (s\<lparr>discontinuity_count := count\<rparr>))
                         (convert_gps_data k (discontinuity_count s) d))"

definition niNotifyCb :: "ni_notification option \<Rightarrow> gnss \<Rightarrow> gnss" where
  "niNotifyCb notification s = (case notification of None \<Rightarrow> s | Some n \<Rightarrow> tell_part GnssNi (NiNotifyMsg n) s)"

definition gnssXtraDownloadRequestCb :: "gnss \<Rightarrow> gnss" where
  "gnssXtraDownloadRequestCb s = tell_part GnssXtra DownloadRequestMsg s"

definition gnssNavigationMessageCb :: "navigation_message option \<Rightarrow> gnss \<Rightarrow> gnss" where
  "gnssNavigationMessageCb message s = (case message of None \<Rightarrow> s | Some m \<Rightarrow> tell_part GnssNavigationMessage (NavigationMsg m) s)"

definition flp_locationCb :: "gnss_consts \<Rightarrow> int \<Rightarrow> flp_location option list option \<Rightarrow> gnss \<Rightarrow> gnss option" where
  "flp_locationCb k locationsCount locations s =
     tell_converted (sPartCbIface s GnssBatching) (\<lambda>ls. map_option LocationBatchMsg (batch_locations k locationsCount ls)) locations s"

definition flp_acquireWakelockCb :: "gnss \<Rightarrow> gnss" where
  "flp_acquireWakelockCb s = acquireWakelockFused s"

definition flp_releaseWakelockCb :: "gnss \<Rightarrow> gnss" where
  "flp_releaseWakelockCb s = releaseWakelockFused s"

definition setThreadEventCb :: "gnss_consts \<Rightarrow> int" where
  "setThreadEventCb k = FLP_RESULT_SUCCESS k"

definition flpCapabilitiesCb :: "gnss_consts \<Rightarrow> u32 \<Rightarrow> gnss \<Rightarrow> gnss" where
  "flpCapabilitiesCb k capabilities s =
     (if and capabilities (CAPABILITY_GNSS k) \<noteq> 0 then s\<lparr>sFlpSupportsBatching := True\<rparr> else s)"

definition flpStatusCb :: "int \<Rightarrow> gnss \<Rightarrow> gnss" where
  "flpStatusCb status s = s"

fun gnss_callback :: "gnss_consts \<Rightarrow> hal_callback \<Rightarrow> gnss \<Rightarrow> gnss option" where
  "gnss_callback k (LocationCb l) s = locationCb l s"
| "gnss_callback k (StatusCb v) s = statusCb v s"
| "gnss_callback k (GnssSvStatusCb v) s = gnssSvStatusCb k v s"
| "gnss_callback k (GpsSvStatusCb v) s = gpsSvStatusCb k v s"
| "gnss_callback k (NmeaCb time nmea len) s = nmeaCb time nmea len s"
| "gnss_callback k (SetCapabilitiesCb c) s = Some (setCapabilitiesCb c s)"
| "gnss_callback k AcquireWakelockCb s = Some (acquireWakelockCb s)"
| "gnss_callback k ReleaseWakelockCb s = Some (releaseWakelockCb s)"
| "gnss_callback k RequestUtcTimeCb s = Some (requestUtcTimeCb s)"
| "gnss_callback k (SetSystemInfoCb i) s = Some (setSystemInfoCb i s)"
| "gnss_callback k (CreateThreadCb p name start arg) s = Some (createPthread p name start arg s)"
| "gnss_callback k (AGnssStatusCb v) s = Some (agnss_statusCb k v s)"
| "gnss_callback k (RequestSetId f) s = Some (requestSetId f s)"
| "gnss_callback k (RequestRefLoc f) s = Some (requestRefLoc f s)"
| "gnss_callback k (GfTransitionCb i l t time) s = Some (gnssGfTransitionCb i l t time s)"
| "gnss_callback k (GfStatusCb v l) s = Some (gnssGfStatusCb v l s)"
| "gnss_callback k (GfAddCb i v) s = Some (gnssGfAddCb i v s)"
| "gnss_callback k (GfRemoveCb i v) s = Some (gnssGfRemoveCb i v s)"
| "gnss_callback k (GfPauseCb i v) s = Some (gnssGfPauseCb i v s)"
| "gnss_callback k (GfResumeCb i v) s = Some (gnssGfResumeCb i v s)"
| "gnss_callback k (GnssMeasurementCb d) s = gnssMeasurementCb k d s"
| "gnss_callback k (GpsMeasurementCb d) s = gpsMeasurementCb k d s"
| "gnss_callback k (NiNotifyCb n) s = Some (niNotifyCb n s)"
| "gnss_callback k XtraDownloadRequestCb s = Some (gnssXtraDownloadRequestCb s)"
| "gnss_callback k (NavigationMessageCb m) s = Some (gnssNavigationMessageCb m s)"
| "gnss_callback k (FlpLocationCb n ls) s = flp_locationCb k n ls s"
| "gnss_callback k FlpAcquireWakelockCb s = Some (flp_acquireWakelockCb s)"
| "gnss_callback k FlpReleaseWakelockCb s = Some (flp_releaseWakelockCb s)"
| "gnss_callback k FlpSetThreadEventCb s = Some s"
| "gnss_callback k (FlpCapabilitiesCb c) s = Some (flpCapabilitiesCb k c s)"
| "gnss_callback k (FlpStatusCb v) s = Some (flpStatusCb v s)"

fun gnss_callbacks :: "gnss_consts \<Rightarrow> hal_callback list \<Rightarrow> gnss \<Rightarrow> gnss option" where
  "gnss_callbacks k [] s = Some s"
| "gnss_callbacks k (c # cs) s = Option.bind (gnss_callback k c s) (gnss_callbacks k cs)"

text \<open>A call of the HAL, with the callbacks it makes before it returns.\<close>

definition call_hal :: "gnss_env \<Rightarrow> hal_call \<Rightarrow> gnss \<Rightarrow> (int \<times> gnss) option" where
  "call_hal env c s =
     (case hal env c s of (r, cs) \<Rightarrow> map_option (\<lambda>s1. (r, s1)) (gnss_callbacks (gnss_k env) cs (gnss_emit (ToHal c) s)))"

section \<open>The methods of the service\<close>

text \<open>The three shapes of the methods: the result tells whether the HAL returned 0, nothing is returned, or true is.\<close>

definition hal_bool :: "gnss_env \<Rightarrow> bool \<Rightarrow> hal_call \<Rightarrow> gnss \<Rightarrow> (bool \<times> gnss) option" where
  "hal_bool env available c s = (if \<not> available then Some (False, s) else map_option (\<lambda>(r, s1). (r = 0, s1)) (call_hal env c s))"

definition hal_void :: "gnss_env \<Rightarrow> bool \<Rightarrow> hal_call \<Rightarrow> gnss \<Rightarrow> gnss option" where
  "hal_void env available c s = (if \<not> available then Some s else map_option snd (call_hal env c s))"

definition hal_true :: "gnss_env \<Rightarrow> bool \<Rightarrow> hal_call \<Rightarrow> gnss \<Rightarrow> (bool \<times> gnss) option" where
  "hal_true env available c s = (if \<not> available then Some (False, s) else map_option (\<lambda>(r, s1). (True, s1)) (call_hal env c s))"

text \<open>A second object is a fatal error, which is \<open>None\<close>; \<open>exists\<close> says whether there is one already.\<close>

definition gnss_new :: "bool \<Rightarrow> bool \<Rightarrow> gnss \<Rightarrow> gnss option" where
  "gnss_new exists device s = (if exists then None else Some (s\<lparr>mGnssIface := device\<rparr>))"

definition gnss_initial :: gnss where
  "gnss_initial = \<lparr>mGnssIface = False, mParts = (\<lambda>_. False), sInterfaceExists = (\<lambda>_. False), sGnssCbIface = None,
     sPartCbIface = (\<lambda>_. None), sWakelockHeldGnss = False, sWakelockHeldFused = False, sWakelockHeld = False,
     sCapabilitiesCached = 0, sYearOfHwCached = 0, sFlpSupportsBatching = False, discontinuity_count = 0,
     sThreadFuncArgsList = (\<lambda>_. []), gnss_trace = []\<rparr>"

definition gnss_setCallback :: "gnss_env \<Rightarrow> addr option \<Rightarrow> gnss \<Rightarrow> (bool \<times> gnss) option" where
  "gnss_setCallback env callback s =
     (if \<not> mGnssIface s then Some (False, s)
      else case callback of
             None \<Rightarrow> Some (False, s)
           | Some c \<Rightarrow>
               (let s1 = (case sGnssCbIface s of None \<Rightarrow> s | Some old \<Rightarrow> gnss_emit (UnlinkToDeath old) s);
                    s2 = gnss_emit (LinkToDeath c) (s1\<lparr>sGnssCbIface := Some c\<rparr>);
                    s3 = (if sCapabilitiesCached s2 \<noteq> 0 then setCapabilitiesCb (sCapabilitiesCached s2) s2 else s2);
                    s4 = (if sYearOfHwCached s3 \<noteq> 0 then setSystemInfoCb (Some (sYearOfHwCached s3)) s3 else s3)
                in hal_bool env True HalInit s4))"

definition start_gnss :: "gnss_env \<Rightarrow> gnss \<Rightarrow> (bool \<times> gnss) option" where
  "start_gnss env s = hal_bool env (mGnssIface s) HalStart s"

definition stop_gnss :: "gnss_env \<Rightarrow> gnss \<Rightarrow> (bool \<times> gnss) option" where
  "stop_gnss env s = hal_bool env (mGnssIface s) HalStop s"

definition cleanup_gnss :: "gnss_env \<Rightarrow> gnss \<Rightarrow> gnss option" where
  "cleanup_gnss env s = hal_void env (mGnssIface s) HalCleanup s"

definition injectLocation :: "gnss_env \<Rightarrow> f64 \<Rightarrow> f64 \<Rightarrow> f32 \<Rightarrow> gnss \<Rightarrow> (bool \<times> gnss) option" where
  "injectLocation env lat long acc s = hal_bool env (mGnssIface s) (HalInjectLocation lat long acc) s"

definition injectTime :: "gnss_env \<Rightarrow> 64 word \<Rightarrow> 64 word \<Rightarrow> u32 \<Rightarrow> gnss \<Rightarrow> (bool \<times> gnss) option" where
  "injectTime env timeMs timeReferenceMs uncertaintyMs s = hal_bool env (mGnssIface s) (HalInjectTime timeMs timeReferenceMs uncertaintyMs) s"

definition deleteAidingData :: "gnss_env \<Rightarrow> 16 word \<Rightarrow> gnss \<Rightarrow> gnss option" where
  "deleteAidingData env flags s = hal_void env (mGnssIface s) (HalDeleteAidingData flags) s"

definition setPositionMode :: "gnss_env \<Rightarrow> u32 \<Rightarrow> u32 \<Rightarrow> u32 \<Rightarrow> u32 \<Rightarrow> u32 \<Rightarrow> gnss \<Rightarrow> (bool \<times> gnss) option" where
  "setPositionMode env mode recurrence minIntervalMs preferredAccuracyMeters preferredTimeMs s =
     hal_bool env (mGnssIface s) (HalSetPositionMode mode recurrence minIntervalMs preferredAccuracyMeters preferredTimeMs) s"

text \<open>An extension is made once, when the HAL has its interface. The classes of five allow one object only.\<close>

definition single_object :: "gnss_part \<Rightarrow> bool" where
  "single_object p = (p \<in> {AGnssRil, GnssGeofencing, AGnss, GnssNi, GnssXtra})"

definition new_part :: "gnss_part \<Rightarrow> gnss \<Rightarrow> gnss option" where
  "new_part p s =
     (if single_object p \<and> sInterfaceExists s p then None
      else Some (s\<lparr>mParts := (mParts s)(p := True), sInterfaceExists := (sInterfaceExists s)(p := True)\<rparr>))"

definition get_extension :: "gnss_env \<Rightarrow> gnss_part \<Rightarrow> gnss \<Rightarrow> (bool \<times> gnss) option" where
  "get_extension env p s =
     (if \<not> mGnssIface s then Some (False, s)
      else if mParts s p then Some (True, s)
      else Option.bind (call_hal env (HalGetExtension p) s)
             (\<lambda>(_, s1). if has_extension env p s then map_option (\<lambda>s2. (True, s2)) (new_part p s1) else Some (False, s1)))"

definition getExtensionAGnssRil :: "gnss_env \<Rightarrow> gnss \<Rightarrow> (bool \<times> gnss) option" where
  "getExtensionAGnssRil env s = get_extension env AGnssRil s"

definition getExtensionGnssConfiguration :: "gnss_env \<Rightarrow> gnss \<Rightarrow> (bool \<times> gnss) option" where
  "getExtensionGnssConfiguration env s = get_extension env GnssConfiguration s"

definition getExtensionGnssGeofencing :: "gnss_env \<Rightarrow> gnss \<Rightarrow> (bool \<times> gnss) option" where
  "getExtensionGnssGeofencing env s = get_extension env GnssGeofencing s"

definition getExtensionAGnss :: "gnss_env \<Rightarrow> gnss \<Rightarrow> (bool \<times> gnss) option" where
  "getExtensionAGnss env s = get_extension env AGnss s"

definition getExtensionGnssNi :: "gnss_env \<Rightarrow> gnss \<Rightarrow> (bool \<times> gnss) option" where
  "getExtensionGnssNi env s = get_extension env GnssNi s"

definition getExtensionGnssMeasurement :: "gnss_env \<Rightarrow> gnss \<Rightarrow> (bool \<times> gnss) option" where
  "getExtensionGnssMeasurement env s = get_extension env GnssMeasurement s"

definition getExtensionGnssNavigationMessage :: "gnss_env \<Rightarrow> gnss \<Rightarrow> (bool \<times> gnss) option" where
  "getExtensionGnssNavigationMessage env s = get_extension env GnssNavigationMessage s"

definition getExtensionXtra :: "gnss_env \<Rightarrow> gnss \<Rightarrow> (bool \<times> gnss) option" where
  "getExtensionXtra env s = get_extension env GnssXtra s"

definition getExtensionGnssDebug :: "gnss_env \<Rightarrow> gnss \<Rightarrow> (bool \<times> gnss) option" where
  "getExtensionGnssDebug env s = get_extension env GnssDebug s"

text \<open>The library of batching is a module of its own.\<close>

definition getExtensionGnssBatching :: "gnss_env \<Rightarrow> gnss \<Rightarrow> (bool \<times> gnss) option" where
  "getExtensionGnssBatching env s =
     (if \<not> mGnssIface s then Some (False, s)
      else if mParts s GnssBatching then Some (True, s)
      else case flp_module env s of (err, module, methods, open_err, iface) \<Rightarrow>
             if err \<noteq> 0 \<or> \<not> module \<or> \<not> methods \<or> open_err \<noteq> 0 \<or> \<not> iface then Some (False, s)
             else map_option (\<lambda>s2. (True, s2)) (new_part GnssBatching s))"

section \<open>The methods of the extensions\<close>

abbreviation set_part_client :: "gnss_part \<Rightarrow> addr option \<Rightarrow> gnss \<Rightarrow> gnss" where
  "set_part_client p c s \<equiv> s\<lparr>sPartCbIface := (sPartCbIface s)(p := c)\<rparr>"

definition agnss_setCallback :: "gnss_env \<Rightarrow> addr option \<Rightarrow> gnss \<Rightarrow> gnss option" where
  "agnss_setCallback env c s = (if \<not> mParts s AGnss then Some s else hal_void env True (PartInit AGnss) (set_part_client AGnss c s))"

definition dataConnClosed :: "gnss_env \<Rightarrow> gnss \<Rightarrow> (bool \<times> gnss) option" where
  "dataConnClosed env s = hal_bool env (mParts s AGnss) DataConnClosed s"

definition dataConnFailed :: "gnss_env \<Rightarrow> gnss \<Rightarrow> (bool \<times> gnss) option" where
  "dataConnFailed env s = hal_bool env (mParts s AGnss) DataConnFailed s"

definition setServer :: "gnss_env \<Rightarrow> u8 \<Rightarrow> string \<Rightarrow> int \<Rightarrow> gnss \<Rightarrow> (bool \<times> gnss) option" where
  "setServer env type hostname port s = hal_bool env (mParts s AGnss) (SetServer (ucast type) hostname port) s"

definition dataConnOpen :: "gnss_env \<Rightarrow> string \<Rightarrow> u8 \<Rightarrow> gnss \<Rightarrow> (bool \<times> gnss) option" where
  "dataConnOpen env apn apnIpType s = hal_bool env (mParts s AGnss) (DataConnOpen apn (ucast apnIpType)) s"

definition agnssril_setCallback :: "gnss_env \<Rightarrow> addr option \<Rightarrow> gnss \<Rightarrow> gnss option" where
  "agnssril_setCallback env c s =
     (if \<not> mParts s AGnssRil then Some s else hal_void env True (PartInit AGnssRil) (set_part_client AGnssRil c s))"

text \<open>The cell: its type, country, network, area, identity and the two identifiers of LTE.\<close>

definition setRefLocation :: "gnss_env \<Rightarrow> u8 \<Rightarrow> u8 \<Rightarrow> 16 word list \<Rightarrow> gnss \<Rightarrow> gnss option" where
  "setRefLocation env type cell_type cell s = hal_void env (mParts s AGnssRil) (SetRefLocation (ucast type) (ucast cell_type # cell)) s"

definition setSetId :: "gnss_env \<Rightarrow> u8 \<Rightarrow> string \<Rightarrow> gnss \<Rightarrow> (bool \<times> gnss) option" where
  "setSetId env type setid s = hal_true env (mParts s AGnssRil) (SetSetId (ucast type) setid) s"

definition updateNetworkState :: "gnss_env \<Rightarrow> bool \<Rightarrow> u8 \<Rightarrow> bool \<Rightarrow> gnss \<Rightarrow> (bool \<times> gnss) option" where
  "updateNetworkState env connected type roaming s =
     hal_true env (mParts s AGnssRil) (UpdateNetworkState connected (uint type) roaming) s"

definition updateNetworkAvailability :: "gnss_env \<Rightarrow> bool \<Rightarrow> string \<Rightarrow> gnss \<Rightarrow> (bool \<times> gnss) option" where
  "updateNetworkAvailability env available apn s = hal_true env (mParts s AGnssRil) (UpdateNetworkAvailability available apn) s"

text \<open>Here the client is stored before the interface is tested.\<close>

definition geofencing_setCallback :: "gnss_env \<Rightarrow> addr option \<Rightarrow> gnss \<Rightarrow> gnss option" where
  "geofencing_setCallback env c s = hal_void env (mParts s GnssGeofencing) (PartInit GnssGeofencing) (set_part_client GnssGeofencing c s)"

definition addGeofence :: "gnss_env \<Rightarrow> int \<Rightarrow> f64 \<Rightarrow> f64 \<Rightarrow> f64 \<Rightarrow> int \<Rightarrow> int \<Rightarrow> u32 \<Rightarrow> u32 \<Rightarrow> gnss \<Rightarrow> gnss option" where
  "addGeofence env i lat long radius lastTransition monitorTransitions notificationResponsivenessMs unknownTimerMs s =
     hal_void env (mParts s GnssGeofencing)
       (AddGeofenceArea i lat long radius lastTransition monitorTransitions notificationResponsivenessMs unknownTimerMs) s"

definition pauseGeofence :: "gnss_env \<Rightarrow> int \<Rightarrow> gnss \<Rightarrow> gnss option" where
  "pauseGeofence env i s = hal_void env (mParts s GnssGeofencing) (PauseGeofence i) s"

definition resumeGeofence :: "gnss_env \<Rightarrow> int \<Rightarrow> int \<Rightarrow> gnss \<Rightarrow> gnss option" where
  "resumeGeofence env i monitorTransitions s = hal_void env (mParts s GnssGeofencing) (ResumeGeofence i monitorTransitions) s"

definition removeGeofence :: "gnss_env \<Rightarrow> int \<Rightarrow> gnss \<Rightarrow> gnss option" where
  "removeGeofence env i s = hal_void env (mParts s GnssGeofencing) (RemoveGeofenceArea i) s"

text \<open>The result of the HAL is the result.\<close>

definition status_setCallback :: "gnss_env \<Rightarrow> gnss_part \<Rightarrow> addr option \<Rightarrow> gnss \<Rightarrow> (int \<times> gnss) option" where
  "status_setCallback env p c s =
     (if \<not> mParts s p then Some (ERROR_GENERIC (gnss_k env), s) else call_hal env (PartInit p) (set_part_client p c s))"

definition measurement_setCallback :: "gnss_env \<Rightarrow> addr option \<Rightarrow> gnss \<Rightarrow> (int \<times> gnss) option" where
  "measurement_setCallback env c s = status_setCallback env GnssMeasurement c s"

definition measurement_close :: "gnss_env \<Rightarrow> gnss \<Rightarrow> gnss option" where
  "measurement_close env s = hal_void env (mParts s GnssMeasurement) (PartClose GnssMeasurement) s"

definition navigation_setCallback :: "gnss_env \<Rightarrow> addr option \<Rightarrow> gnss \<Rightarrow> (int \<times> gnss) option" where
  "navigation_setCallback env c s = status_setCallback env GnssNavigationMessage c s"

definition navigation_close :: "gnss_env \<Rightarrow> gnss \<Rightarrow> gnss option" where
  "navigation_close env s = hal_void env (mParts s GnssNavigationMessage) (PartClose GnssNavigationMessage) s"

definition ni_setCallback :: "gnss_env \<Rightarrow> addr option \<Rightarrow> gnss \<Rightarrow> gnss option" where
  "ni_setCallback env c s = (if \<not> mParts s GnssNi then Some s else hal_void env True (PartInit GnssNi) (set_part_client GnssNi c s))"

definition ni_respond :: "gnss_env \<Rightarrow> int \<Rightarrow> int \<Rightarrow> gnss \<Rightarrow> gnss option" where
  "ni_respond env notifId userResponse s = hal_void env (mParts s GnssNi) (NiRespond notifId userResponse) s"

definition xtra_setCallback :: "gnss_env \<Rightarrow> addr option \<Rightarrow> gnss \<Rightarrow> (bool \<times> gnss) option" where
  "xtra_setCallback env c s =
     (if \<not> mParts s GnssXtra then Some (False, s) else hal_bool env True (PartInit GnssXtra) (set_part_client GnssXtra c s))"

definition injectXtraData :: "gnss_env \<Rightarrow> string \<Rightarrow> gnss \<Rightarrow> (bool \<times> gnss) option" where
  "injectXtraData env xtraData s = hal_bool env (mParts s GnssXtra) (InjectXtraData xtraData) s"

definition config_line :: "string \<Rightarrow> nat \<Rightarrow> string" where
  "config_line key n = key @ ''='' @ decimal n @ [CHR 0x0A]"

definition update_config :: "gnss_env \<Rightarrow> string \<Rightarrow> nat \<Rightarrow> gnss \<Rightarrow> (bool \<times> gnss) option" where
  "update_config env key n s = hal_true env (mParts s GnssConfiguration) (ConfigurationUpdate (config_line key n)) s"

definition setSuplEs :: "gnss_env \<Rightarrow> bool \<Rightarrow> gnss \<Rightarrow> (bool \<times> gnss) option" where
  "setSuplEs env enabled s = update_config env ''SUPL_ES'' (if enabled then 1 else 0) s"

definition setSuplVersion :: "gnss_env \<Rightarrow> u32 \<Rightarrow> gnss \<Rightarrow> (bool \<times> gnss) option" where
  "setSuplVersion env version s = update_config env ''SUPL_VER'' (unat version) s"

definition setSuplMode :: "gnss_env \<Rightarrow> u8 \<Rightarrow> gnss \<Rightarrow> (bool \<times> gnss) option" where
  "setSuplMode env mode s = update_config env ''SUPL_MODE'' (unat mode) s"

definition setLppProfile :: "gnss_env \<Rightarrow> u8 \<Rightarrow> gnss \<Rightarrow> (bool \<times> gnss) option" where
  "setLppProfile env lppProfile s = update_config env ''LPP_PROFILE'' (unat lppProfile) s"

definition setGlonassPositioningProtocol :: "gnss_env \<Rightarrow> u8 \<Rightarrow> gnss \<Rightarrow> (bool \<times> gnss) option" where
  "setGlonassPositioningProtocol env protocol s = update_config env ''A_GLONASS_POS_PROTOCOL_SELECT'' (unat protocol) s"

definition setGpsLock :: "gnss_env \<Rightarrow> u8 \<Rightarrow> gnss \<Rightarrow> (bool \<times> gnss) option" where
  "setGpsLock env lock s = update_config env ''GPS_LOCK'' (unat lock) s"

definition setEmergencySuplPdn :: "gnss_env \<Rightarrow> bool \<Rightarrow> gnss \<Rightarrow> (bool \<times> gnss) option" where
  "setEmergencySuplPdn env enabled s = update_config env ''USE_EMERGENCY_PDN_FOR_EMERGENCY_SUPL'' (if enabled then 1 else 0) s"

text \<open>The text of the HAL is ended in a buffer of 2048 bytes at the length the HAL tells, or at 2047.\<close>

definition kMaxDebugStrLen :: nat where "kMaxDebugStrLen = 2047"

definition getDebugData :: "gnss_env \<Rightarrow> gnss \<Rightarrow> gnss option" where
  "getDebugData env s =
     (if \<not> mParts s GnssDebug then Some s
      else Option.bind (call_hal env (GetInternalState kMaxDebugStrLen) s)
             (\<lambda>(len, s1). if kMaxDebugStrLen + 1 \<le> max (nat len) kMaxDebugStrLen then None else Some s1))"

definition FLP_GNSS_BATCHING_CLIENT_ID :: int where "FLP_GNSS_BATCHING_CLIENT_ID = 4"

definition batching_init :: "gnss_env \<Rightarrow> addr option \<Rightarrow> gnss \<Rightarrow> (bool \<times> gnss) option" where
  "batching_init env c s =
     (if \<not> mParts s GnssBatching then Some (False, s) else hal_bool env True (PartInit GnssBatching) (set_part_client GnssBatching c s))"

definition getBatchSize :: "gnss_env \<Rightarrow> gnss \<Rightarrow> (16 word \<times> gnss) option" where
  "getBatchSize env s =
     (if \<not> mParts s GnssBatching then Some (0, s) else map_option (\<lambda>(r, s1). (word_of_int r, s1)) (call_hal env GetBatchSize s))"

definition flp_success :: "gnss_env \<Rightarrow> bool \<Rightarrow> hal_call \<Rightarrow> gnss \<Rightarrow> (bool \<times> gnss) option" where
  "flp_success env available c s =
     (if \<not> available then Some (False, s) else map_option (\<lambda>(r, s1). (r = FLP_RESULT_SUCCESS (gnss_k env), s1)) (call_hal env c s))"

text \<open>100 mW; the satellites and the sensors; the flags; the period.\<close>

definition batching_start :: "gnss_env \<Rightarrow> u8 \<Rightarrow> 64 word \<Rightarrow> gnss \<Rightarrow> (bool \<times> gnss) option" where
  "batching_start env flags periodNanos s =
     flp_success env (mParts s GnssBatching \<and> sFlpSupportsBatching s)
       (StartBatching FLP_GNSS_BATCHING_CLIENT_ID 100 (FLP_TECH_MASK_GNSS_AND_SENSORS (gnss_k env))
          (if and flags (WAKEUP_ON_FIFO_FULL (gnss_k env)) \<noteq> 0 then FLP_BATCH_WAKEUP_ON_FIFO_FULL (gnss_k env) else 0) periodNanos) s"

definition batching_flush :: "gnss_env \<Rightarrow> gnss \<Rightarrow> gnss option" where
  "batching_flush env s = hal_void env (mParts s GnssBatching) FlushBatchedLocations s"

definition batching_stop :: "gnss_env \<Rightarrow> gnss \<Rightarrow> (bool \<times> gnss) option" where
  "batching_stop env s = flp_success env (mParts s GnssBatching) (StopBatching FLP_GNSS_BATCHING_CLIENT_ID) s"

definition batching_cleanup :: "gnss_env \<Rightarrow> gnss \<Rightarrow> gnss option" where
  "batching_cleanup env s = hal_void env (mParts s GnssBatching) FlpCleanup s"

section \<open>The death of the client\<close>

definition handleHidlDeath :: "gnss_env \<Rightarrow> gnss \<Rightarrow> gnss option" where
  "handleHidlDeath env s =
     Option.bind (map_option snd (stop_gnss env s)) (\<lambda>s1.
     Option.bind (if mParts s1 GnssMeasurement then measurement_close env s1 else Some s1) (\<lambda>s2.
     Option.bind (if mParts s2 GnssNavigationMessage then navigation_close env s2 else Some s2) (\<lambda>s3.
     Option.bind (if mParts s3 GnssBatching then Option.bind (map_option snd (batching_stop env s3)) (batching_cleanup env) else Some s3) (\<lambda>s4.
     map_option (\<lambda>s5. s5\<lparr>sGnssCbIface := None\<rparr>) (cleanup_gnss env s4)))))"

text \<open>The objects of the five classes forget the arguments of their threads when they end.\<close>

definition part_destroyed :: "gnss_part \<Rightarrow> gnss \<Rightarrow> gnss" where
  "part_destroyed p s =
     (if single_object p
      then s\<lparr>mParts := (mParts s)(p := False), sInterfaceExists := (sInterfaceExists s)(p := False),
             sThreadFuncArgsList := (sThreadFuncArgsList s)(Some p := [])\<rparr>
      else s\<lparr>mParts := (mParts s)(p := False)\<rparr>)"

definition HIDL_FETCH_IGnss :: "int \<Rightarrow> int \<Rightarrow> bool \<Rightarrow> bool \<Rightarrow> gnss \<Rightarrow> (bool \<times> gnss) option" where
  "HIDL_FETCH_IGnss module_err open_err exists device s =
     (if module_err \<noteq> 0 \<or> open_err \<noteq> 0 then Some (False, s) else map_option (\<lambda>s1. (True, s1)) (gnss_new exists device s))"

end
