(* ===== verification/GnssProps.thy ===== *)
theory GnssProps
  imports GnssParts
begin

text \<open>
  The GNSS service over all sequences of calls of its clients and callbacks of the HAL: what it hands over, what becomes of the wake lock,
  and what the conversions keep.
\<close>

section \<open>Sequences of operations\<close>

text \<open>One operation, by a client, by the HAL or by the framework when the client dies. A method that returns nothing is \<open>void\<close>.\<close>

abbreviation void :: "gnss option \<Rightarrow> (unit \<times> gnss) option" where
  "void r \<equiv> map_option (Pair ()) r"

inductive gnss_step :: "gnss_env \<Rightarrow> gnss \<Rightarrow> gnss \<Rightarrow> bool" for env where
  callback: "gnss_callback (gnss_k env) c s = Some s' \<Longrightarrow> gnss_step env s s'"
| fetch: "HIDL_FETCH_IGnss e1 e2 exists device s = Some (r, s') \<Longrightarrow> gnss_step env s s'"
| set_callback: "gnss_setCallback env c s = Some (r, s') \<Longrightarrow> gnss_step env s s'"
| death: "handleHidlDeath env s = Some s' \<Longrightarrow> gnss_step env s s'"
| start: "start_gnss env s = Some (r, s') \<Longrightarrow> gnss_step env s s'"
| stop: "stop_gnss env s = Some (r, s') \<Longrightarrow> gnss_step env s s'"
| cleanup: "cleanup_gnss env s = Some s' \<Longrightarrow> gnss_step env s s'"
| inject_location: "injectLocation env x y a s = Some (r, s') \<Longrightarrow> gnss_step env s s'"
| inject_time: "injectTime env t1 t2 u s = Some (r, s') \<Longrightarrow> gnss_step env s s'"
| aiding: "deleteAidingData env f s = Some s' \<Longrightarrow> gnss_step env s s'"
| mode: "setPositionMode env m rec i1 i2 i3 s = Some (r, s') \<Longrightarrow> gnss_step env s s'"
| extension: "get_extension env p s = Some (r, s') \<Longrightarrow> gnss_step env s s'"
| batching_extension: "getExtensionGnssBatching env s = Some (r, s') \<Longrightarrow> gnss_step env s s'"
| destroyed: "s' = part_destroyed p s \<Longrightarrow> gnss_step env s s'"
| agnss_callback: "agnss_setCallback env c s = Some s' \<Longrightarrow> gnss_step env s s'"
| conn_closed: "dataConnClosed env s = Some (r, s') \<Longrightarrow> gnss_step env s s'"
| conn_failed: "dataConnFailed env s = Some (r, s') \<Longrightarrow> gnss_step env s s'"
| server: "setServer env ty host port s = Some (r, s') \<Longrightarrow> gnss_step env s s'"
| conn_open: "dataConnOpen env apn ip s = Some (r, s') \<Longrightarrow> gnss_step env s s'"
| ril_callback: "agnssril_setCallback env c s = Some s' \<Longrightarrow> gnss_step env s s'"
| ref_location: "setRefLocation env ty8 ct cell s = Some s' \<Longrightarrow> gnss_step env s s'"
| set_id: "setSetId env ty8 sid s = Some (r, s') \<Longrightarrow> gnss_step env s s'"
| network_state: "updateNetworkState env b ty8 b' s = Some (r, s') \<Longrightarrow> gnss_step env s s'"
| network_availability: "updateNetworkAvailability env b apn s = Some (r, s') \<Longrightarrow> gnss_step env s s'"
| geofence_callback: "geofencing_setCallback env c s = Some s' \<Longrightarrow> gnss_step env s s'"
| geofence_add: "addGeofence env i x y rad tr mon n u s = Some s' \<Longrightarrow> gnss_step env s s'"
| geofence_pause: "pauseGeofence env i s = Some s' \<Longrightarrow> gnss_step env s s'"
| geofence_resume: "resumeGeofence env i tr s = Some s' \<Longrightarrow> gnss_step env s s'"
| geofence_remove: "removeGeofence env i s = Some s' \<Longrightarrow> gnss_step env s s'"
| measurement_callback: "measurement_setCallback env c s = Some (v, s') \<Longrightarrow> gnss_step env s s'"
| measurement_close: "measurement_close env s = Some s' \<Longrightarrow> gnss_step env s s'"
| navigation_callback: "navigation_setCallback env c s = Some (v, s') \<Longrightarrow> gnss_step env s s'"
| navigation_close: "navigation_close env s = Some s' \<Longrightarrow> gnss_step env s s'"
| ni_callback: "ni_setCallback env c s = Some s' \<Longrightarrow> gnss_step env s s'"
| respond: "ni_respond env i v s = Some s' \<Longrightarrow> gnss_step env s s'"
| xtra_callback: "xtra_setCallback env c s = Some (r, s') \<Longrightarrow> gnss_step env s s'"
| xtra_data: "injectXtraData env data s = Some (r, s') \<Longrightarrow> gnss_step env s s'"
| config: "update_config env key n s = Some (r, s') \<Longrightarrow> gnss_step env s s'"
| debug: "getDebugData env s = Some s' \<Longrightarrow> gnss_step env s s'"
| batching_init: "batching_init env c s = Some (r, s') \<Longrightarrow> gnss_step env s s'"
| batch_size: "getBatchSize env s = Some (n, s') \<Longrightarrow> gnss_step env s s'"
| batching_start: "batching_start env fl per s = Some (r, s') \<Longrightarrow> gnss_step env s s'"
| batching_flush: "batching_flush env s = Some s' \<Longrightarrow> gnss_step env s s'"
| batching_stop: "batching_stop env s = Some (r, s') \<Longrightarrow> gnss_step env s s'"
| batching_cleanup: "batching_cleanup env s = Some s' \<Longrightarrow> gnss_step env s s'"

definition gnss_reachable :: "gnss_env \<Rightarrow> gnss \<Rightarrow> bool" where
  "gnss_reachable env s \<longleftrightarrow> (gnss_step env)\<^sup>*\<^sup>* gnss_initial s"

section \<open>What the operations are made of\<close>

text \<open>Every operation is a sequence of callbacks and of small changes, so an invariant only has to be shown for these.\<close>

inductive gnss_prim :: "gnss_consts \<Rightarrow> gnss \<Rightarrow> gnss \<Rightarrow> bool" for k where
  prim_callback: "gnss_callback k c s = Some s' \<Longrightarrow> gnss_prim k s s'"
| prim_emit: "\<forall>c m. e \<noteq> ToClient c m \<Longrightarrow> gnss_prim k s (gnss_emit e s)"
| prim_client: "gnss_prim k s (s\<lparr>sGnssCbIface := c\<rparr>)"
| prim_part_client: "gnss_prim k s (set_part_client p c s)"
| prim_new: "new_part p s = Some s' \<Longrightarrow> gnss_prim k s s'"
| prim_destroyed: "gnss_prim k s (part_destroyed p s)"
| prim_device: "gnss_prim k s (s\<lparr>mGnssIface := d\<rparr>)"

abbreviation gnss_prims :: "gnss_consts \<Rightarrow> gnss \<Rightarrow> gnss \<Rightarrow> bool" where
  "gnss_prims k \<equiv> (gnss_prim k)\<^sup>*\<^sup>*"

lemma prims_callbacks: "gnss_callbacks k cs s = Some s' \<Longrightarrow> gnss_prims k s s'"
proof (induction k cs s rule: gnss_callbacks.induct)
  case (2 k c cs s)
  then obtain s1 where "gnss_callback k c s = Some s1" "gnss_prims k s1 s'" by (auto simp: Option.bind_eq_Some_conv)
  then show ?case using prim_callback by (meson converse_rtranclp_into_rtranclp)
qed simp

lemma prims_hal: "call_hal env c s = Some (r, s') \<Longrightarrow> gnss_prims (gnss_k env) s s'"
proof -
  assume a: "call_hal env c s = Some (r, s')"
  then obtain cs where "gnss_callbacks (gnss_k env) cs (gnss_emit (ToHal c) s) = Some s'"
    by (auto simp: call_hal_def split: prod.splits)
  moreover have "gnss_prim (gnss_k env) s (gnss_emit (ToHal c) s)" by (rule prim_emit) simp
  ultimately show ?thesis using prims_callbacks by (meson converse_rtranclp_into_rtranclp)
qed

lemma prims_methods:
  "hal_bool env a c s = Some (r, s') \<Longrightarrow> gnss_prims (gnss_k env) s s'"
  "hal_void env a c s = Some s' \<Longrightarrow> gnss_prims (gnss_k env) s s'"
  "hal_true env a c s = Some (r, s') \<Longrightarrow> gnss_prims (gnss_k env) s s'"
  "flp_success env a c s = Some (r, s') \<Longrightarrow> gnss_prims (gnss_k env) s s'"
  by (auto simp: hal_bool_def hal_void_def hal_true_def flp_success_def split: if_splits dest: prims_hal)

lemma prims_part_client:
  "gnss_prims k (set_part_client p c s) s' \<Longrightarrow> gnss_prims k s s'"
  using prim_part_client by (rule converse_rtranclp_into_rtranclp)

lemma prims_setCallback:
  assumes "gnss_setCallback env c s = Some (r, s')"
  shows "gnss_prims (gnss_k env) s s'"
proof (cases "mGnssIface s \<and> c \<noteq> None")
  case True
  then obtain a where c: "c = Some a" by auto
  let ?k = "gnss_k env"
  define s1 where "s1 = (case sGnssCbIface s of None \<Rightarrow> s | Some old \<Rightarrow> gnss_emit (UnlinkToDeath old) s)"
  define s2 where "s2 = gnss_emit (LinkToDeath a) (s1\<lparr>sGnssCbIface := Some a\<rparr>)"
  define s3 where "s3 = (if sCapabilitiesCached s2 \<noteq> 0 then setCapabilitiesCb (sCapabilitiesCached s2) s2 else s2)"
  define s4 where "s4 = (if sYearOfHwCached s3 \<noteq> 0 then setSystemInfoCb (Some (sYearOfHwCached s3)) s3 else s3)"
  have "hal_bool env True HalInit s4 = Some (r, s')"
    using assms True c unfolding s4_def s3_def s2_def s1_def by (simp add: gnss_setCallback_def Let_def)
  then have 5: "gnss_prims ?k s4 s'" by (rule prims_methods)
  have 1: "gnss_prims ?k s s1"
    unfolding s1_def by (auto split: option.split intro!: r_into_rtranclp prim_emit)
  have 2: "gnss_prims ?k s1 s2"
  proof (rule converse_rtranclp_into_rtranclp)
    show "gnss_prim ?k s1 (s1\<lparr>sGnssCbIface := Some a\<rparr>)" by (rule prim_client)
    show "gnss_prims ?k (s1\<lparr>sGnssCbIface := Some a\<rparr>) s2" unfolding s2_def by (auto intro!: r_into_rtranclp prim_emit)
  qed
  have 3: "gnss_prims ?k s2 s3"
    unfolding s3_def by (auto intro!: r_into_rtranclp prim_callback [where c = "SetCapabilitiesCb (sCapabilitiesCached s2)"])
  have 4: "gnss_prims ?k s3 s4"
    unfolding s4_def by (auto intro!: r_into_rtranclp prim_callback [where c = "SetSystemInfoCb (Some (sYearOfHwCached s3))"])
  from 1 2 3 4 5 show ?thesis by simp
qed (use assms in \<open>auto simp: gnss_setCallback_def split: option.splits\<close>)

lemma prims_get_extension:
  assumes "get_extension env p s = Some (r, s')"
  shows "gnss_prims (gnss_k env) s s'"
proof (cases "mGnssIface s \<and> \<not> mParts s p")
  case True
  then obtain v s1 where h: "call_hal env (HalGetExtension p) s = Some (v, s1)" and
    r: "(if has_extension env p s then map_option (Pair True) (new_part p s1) else Some (False, s1)) = Some (r, s')"
    using assms by (auto simp: get_extension_def Option.bind_eq_Some_conv)
  from r have "s' = s1 \<or> new_part p s1 = Some s'" by (auto split: if_splits)
  with prims_hal [OF h] show ?thesis by (auto intro: rtranclp.rtrancl_into_rtrancl prim_new)
qed (use assms in \<open>auto simp: get_extension_def split: if_splits\<close>)

lemmas part_methods = measurement_close_def navigation_close_def batching_stop_def batching_cleanup_def stop_gnss_def cleanup_gnss_def

lemma prims_death:
  assumes "handleHidlDeath env s = Some s'"
  shows "gnss_prims (gnss_k env) s s'"
proof -
  from assms obtain r1 s1 s2 s3 s4 s5 where st: "stop_gnss env s = Some (r1, s1)"
    and m: "(if mParts s1 GnssMeasurement then measurement_close env s1 else Some s1) = Some s2"
    and n: "(if mParts s2 GnssNavigationMessage then navigation_close env s2 else Some s2) = Some s3"
    and b: "(if mParts s3 GnssBatching then Option.bind (map_option snd (batching_stop env s3)) (batching_cleanup env) else Some s3) = Some s4"
    and c: "cleanup_gnss env s4 = Some s5" and s': "s' = s5\<lparr>sGnssCbIface := None\<rparr>"
    unfolding handleHidlDeath_def by (auto simp: Option.bind_eq_Some_conv)
  let ?k = "gnss_k env"
  have "gnss_prims ?k s s1" using st unfolding part_methods by (rule prims_methods)
  moreover have "gnss_prims ?k s1 s2" using m prims_methods(2) unfolding part_methods by (auto split: if_splits)
  moreover have "gnss_prims ?k s2 s3" using n prims_methods(2) unfolding part_methods by (auto split: if_splits)
  moreover have "gnss_prims ?k s3 s4"
    using b unfolding part_methods by (auto split: if_splits simp: Option.bind_eq_Some_conv dest!: prims_methods(2,4))
  moreover have "gnss_prims ?k s4 s5" using c unfolding part_methods by (rule prims_methods)
  moreover have "gnss_prim ?k s5 s'" unfolding s' by (rule prim_client)
  ultimately show ?thesis by (meson rtranclp_trans rtranclp.rtrancl_into_rtrancl)
qed

lemma step_prims: "gnss_step env s s' \<Longrightarrow> gnss_prims (gnss_k env) s s'"
proof (induction rule: gnss_step.induct)
  case (fetch e1 e2 exists device s r s')
  then show ?case
    by (auto simp: HIDL_FETCH_IGnss_def gnss_new_def split: if_splits intro!: r_into_rtranclp prim_device)
next
  case (batching_extension s r s')
  then show ?case
    by (auto simp: getExtensionGnssBatching_def split: if_splits prod.splits intro!: r_into_rtranclp prim_new)
next
  case (debug s s')
  then show ?case by (auto simp: getDebugData_def Option.bind_eq_Some_conv split: if_splits dest: prims_hal)
next
  case (batch_size s n s')
  then show ?case by (auto simp: getBatchSize_def split: if_splits dest: prims_hal)
next
  case (measurement_callback c s v s')
  then show ?case
    by (auto simp: measurement_setCallback_def status_setCallback_def split: if_splits dest!: prims_hal intro: prims_part_client)
next
  case (navigation_callback c s v s')
  then show ?case
    by (auto simp: navigation_setCallback_def status_setCallback_def split: if_splits dest!: prims_hal intro: prims_part_client)
qed (simp_all only: start_gnss_def stop_gnss_def cleanup_gnss_def injectLocation_def injectTime_def deleteAidingData_def setPositionMode_def
    agnss_setCallback_def dataConnClosed_def dataConnFailed_def setServer_def dataConnOpen_def agnssril_setCallback_def setRefLocation_def
    setSetId_def updateNetworkState_def updateNetworkAvailability_def geofencing_setCallback_def addGeofence_def pauseGeofence_def
    resumeGeofence_def removeGeofence_def measurement_close_def navigation_close_def ni_setCallback_def ni_respond_def xtra_setCallback_def
    injectXtraData_def update_config_def batching_init_def batching_start_def batching_flush_def batching_stop_def batching_cleanup_def,
  (auto split: if_splits dest!: prims_methods prims_setCallback prims_get_extension prims_death
     intro: prims_part_client r_into_rtranclp gnss_prim.intros)+)

lemma reachable_induct:
  assumes "gnss_reachable env s" "P gnss_initial" "\<And>s s'. P s \<Longrightarrow> gnss_prim (gnss_k env) s s' \<Longrightarrow> P s'"
  shows "P s"
proof -
  have steps: "P t'" if "gnss_prims (gnss_k env) t t'" "P t" for t t'
    using that by (induction rule: rtranclp_induct) (auto intro: assms(3))
  from assms(1) have "(gnss_step env)\<^sup>*\<^sup>* gnss_initial s" by (simp add: gnss_reachable_def)
  then show ?thesis by (induction rule: rtranclp_induct) (auto intro: assms(2) steps step_prims)
qed

section \<open>Numbers of satellites\<close>

lemma sint16: "- 32768 \<le> j \<Longrightarrow> j < 32768 \<Longrightarrow> sint (word_of_int j :: 16 word) = j"
  by (simp add: sint_sbintrunc' signed_take_bit_int_eq_self)

lemma sint16_bounds: "- 32768 \<le> sint (v :: 16 word)" "sint (v :: 16 word) < 32768"
  using sint_ge [of v] sint_lt [of v] by simp_all

lemma sint16_shift:
  assumes "- 32768 \<le> sint (v :: 16 word) + j" "sint v + j < 32768"
  shows "sint (v + word_of_int j) = sint v + j"
  using sint16 [OF assms] by (simp add: wi_hom_add [symmetric])

lemma sint16_back:
  assumes "- 32768 \<le> sint (v :: 16 word) - j" "sint v - j < 32768"
  shows "sint (v - word_of_int j) = sint v - j"
  using sint16 [OF assms] by (simp add: wi_hom_sub [symmetric])

text \<open>
  What the number of a legacy satellite means: the constellation, its first and its last number, and the number that the first one has
  in the interface. A number outside of the table belongs to no constellation and stays what it is.
\<close>

definition sv_table :: "(constellation \<times> int \<times> int \<times> int) list" where
  "sv_table = [(GPS, 1, 32, 1), (SBAS, 33, 64, 120), (GLONASS, 65, 88, 1), (QZSS, 193, 200, 193), (BEIDOU, 201, 235, 1)]"

definition sv_reference :: "int \<Rightarrow> constellation \<times> int" where
  "sv_reference i =
     (case find (\<lambda>(c, lo, hi, start). lo \<le> i \<and> i \<le> hi) sv_table of
        None \<Rightarrow> (UnknownConstellation, i) | Some (c, lo, hi, start) \<Rightarrow> (c, i - lo + start))"

definition svid_range :: "constellation \<Rightarrow> int \<Rightarrow> bool" where
  "svid_range c i = (case c of GPS \<Rightarrow> 1 \<le> i \<and> i \<le> 32 | GLONASS \<Rightarrow> 1 \<le> i \<and> i \<le> 24 | BEIDOU \<Rightarrow> 1 \<le> i \<and> i \<le> 35
     | SBAS \<Rightarrow> 120 \<le> i \<and> i \<le> 151 | QZSS \<Rightarrow> 193 \<le> i \<and> i \<le> 200
     | UnknownConstellation \<Rightarrow> \<not> (1 \<le> i \<and> i \<le> 88) \<and> \<not> (193 \<le> i \<and> i \<le> 235) | CastConstellation _ \<Rightarrow> False)"

lemma sv_reference_cases:
  "sv_reference i =
     (if 1 \<le> i \<and> i \<le> 32 then (GPS, i) else if 33 \<le> i \<and> i \<le> 64 then (SBAS, i + 87) else if 65 \<le> i \<and> i \<le> 88 then (GLONASS, i - 64)
      else if 193 \<le> i \<and> i \<le> 200 then (QZSS, i) else if 201 \<le> i \<and> i \<le> 235 then (BEIDOU, i - 200) else (UnknownConstellation, i))"
  by (simp add: sv_reference_def sv_table_def)

lemma sv_reference_range: "svid_range (fst (sv_reference i)) (snd (sv_reference i))"
  by (auto simp: sv_reference_cases svid_range_def)

lemma sv_reference_inject: "sv_reference i = sv_reference j \<Longrightarrow> i = j"
  unfolding sv_reference_cases by (simp split: if_splits)

lemma convert_prn_reference:
  "(fst (convert_prn n), sint (snd (convert_prn n))) = sv_reference (sint (ucast n :: 16 word))"
proof -
  define v :: "16 word" where "v = ucast n"
  define i where "i = sint v"
  have conv: "convert_prn n = (if 1 \<le> i \<and> i \<le> 32 then (GPS, v)
         else if 64 < i \<and> i \<le> 88 then (GLONASS, v - word_of_int 64)
         else if 200 < i \<and> i \<le> 235 then (BEIDOU, v - word_of_int 200)
         else if 33 \<le> i \<and> i \<le> 64 then (SBAS, v + word_of_int 87)
         else if 193 \<le> i \<and> i \<le> 200 then (QZSS, v)
         else (UnknownConstellation, v))"
    unfolding convert_prn_def Let_def svid_values v_def [symmetric] i_def [symmetric] by simp
  have "64 < i \<and> i \<le> 88 \<Longrightarrow> sint (v - word_of_int 64) = i - 64" using sint16_back [of v 64] unfolding i_def by simp
  moreover have "200 < i \<and> i \<le> 235 \<Longrightarrow> sint (v - word_of_int 200) = i - 200" using sint16_back [of v 200] unfolding i_def by simp
  moreover have "33 \<le> i \<and> i \<le> 64 \<Longrightarrow> sint (v + word_of_int 87) = i + 87" using sint16_shift [of v 87] unfolding i_def by simp
  ultimately show ?thesis
    unfolding v_def [symmetric] i_def [symmetric] sv_reference_cases conv using i_def by auto
qed

section \<open>What is handed over\<close>

definition loc_ok :: "gnss_location \<Rightarrow> bool" where
  "loc_ok l \<longleftrightarrow> verticalAccuracyMeters l = 0 \<and> speedAccuracyMetersPerSecond l = 0 \<and> bearingAccuracyDegrees l = 0"

text \<open>
  The flags of a converted location are among those that the conversion knows. A satellite of the newer status has the constellation that
  the HAL tells and no carrier frequency; of the older status it has a number of its constellation, and flags only in GPS and GLONASS.
\<close>

definition location_flags :: "gnss_consts \<Rightarrow> 16 word" where
  "location_flags k = or (gps_has k LatLong) (or (gps_has k Altitude) (or (gps_has k Speed) (or (gps_has k Bearing) (gps_has k Accuracy))))"

definition flags_within :: "16 word \<Rightarrow> 16 word \<Rightarrow> bool" where
  "flags_within f m \<longleftrightarrow> and f (not m) = 0"

definition old_flags :: "gnss_consts \<Rightarrow> u8" where
  "old_flags k = or (sv_has_ephemeris k) (or (sv_has_almanac k) (sv_used_in_fix k))"

definition sv_ok :: "gnss_consts \<Rightarrow> gnss_sv_info \<Rightarrow> bool" where
  "sv_ok k v \<longleftrightarrow>
     (case sv_constellation v of
        CastConstellation _ \<Rightarrow> and (svFlag v) (sv_has_carrier_frequency k) = 0 \<and> carrierFrequencyHz v = Some 0
      | c \<Rightarrow> svid_range c (sint (svid v)) \<and> and (svFlag v) (not (old_flags k)) = 0 \<and> (c \<noteq> GPS \<and> c \<noteq> GLONASS \<longrightarrow> svFlag v = 0))"

text \<open>
  A measurement of the newer structure: a decoded time is known, where the bits are different. A measurement of the older one: the
  number is one of GPS or belongs to no constellation, and what its flags do not announce is 0.
\<close>

definition measurement_ok :: "gnss_consts \<Rightarrow> gnss_measurement \<Rightarrow> bool" where
  "measurement_ok k m \<longleftrightarrow>
     (case gm_constellation m of
        CastConstellation _ \<Rightarrow>
          (and (gm_state m) (STATE_GLO_TOD_DECODED k) \<noteq> 0 \<longrightarrow> and (not (gm_state m)) (STATE_GLO_TOD_KNOWN k) = 0) \<and>
          (and (STATE_GLO_TOD_KNOWN k) (STATE_TOW_DECODED k) = 0 \<and> and (STATE_TOW_KNOWN k) (STATE_TOW_DECODED k) = 0 \<longrightarrow>
           and (gm_state m) (STATE_TOW_DECODED k) \<noteq> 0 \<longrightarrow> and (not (gm_state m)) (STATE_TOW_KNOWN k) = 0)
      | c \<Rightarrow> (if c = GPS then sint (gm_svid m) \<in> {1..32} else c = UnknownConstellation \<and> sint (gm_svid m) \<notin> {1..32}) \<and>
          (and (gm_flags m) (HAS_CARRIER_FREQUENCY k) = 0 \<longrightarrow> gm_carrierFrequencyHz m = 0) \<and>
          (and (gm_flags m) (HAS_CARRIER_PHASE k) = 0 \<longrightarrow> carrierPhase m = 0) \<and>
          (and (gm_flags m) (HAS_CARRIER_PHASE_UNCERTAINTY k) = 0 \<longrightarrow> carrierPhaseUncertainty m = 0) \<and>
          (and (gm_flags m) (HAS_SNR k) = 0 \<longrightarrow> snrDb m = 0))"

primrec msg_ok :: "gnss_consts \<Rightarrow> gnss_message \<Rightarrow> bool" where
  "msg_ok k (LocationMsg l) = (loc_ok l \<and> flags_within (gnssLocationFlags l) 0x1f)"
| "msg_ok k (StatusMsg v) = True"
| "msg_ok k (SvStatusMsg vs) = (length vs \<le> SVS_COUNT k \<and> (\<forall>v \<in> set vs. sv_ok k v))"
| "msg_ok k (NmeaMsg t x) = True"
| "msg_ok k (SetCapabilitiesMsg c) = True"
| "msg_ok k AcquireWakelockMsg = True"
| "msg_ok k ReleaseWakelockMsg = True"
| "msg_ok k RequestTimeMsg = True"
| "msg_ok k (SetSystemInfoMsg y) = True"
| "msg_ok k (AGnssStatusMsg v) = True"
| "msg_ok k (RequestSetIdMsg f) = True"
| "msg_ok k RequestRefLocMsg = True"
| "msg_ok k (GeofenceTransitionMsg i l tr t) = (loc_ok l \<and> flags_within (gnssLocationFlags l) 0x1f)"
| "msg_ok k (GeofenceStatusMsg v l) = (loc_ok l \<and> flags_within (gnssLocationFlags l) 0x1f)"
| "msg_ok k (GeofenceAddMsg i v) = True"
| "msg_ok k (GeofenceRemoveMsg i v) = True"
| "msg_ok k (GeofencePauseMsg i v) = True"
| "msg_ok k (GeofenceResumeMsg i v) = True"
| "msg_ok k (MeasurementMsg d) = (length (fst d) \<le> SVS_COUNT k \<and> (\<forall>x \<in> set (fst d). measurement_ok k x))"
| "msg_ok k (NiNotifyMsg n) = True"
| "msg_ok k DownloadRequestMsg = True"
| "msg_ok k (NavigationMsg m) = True"
| "msg_ok k (LocationBatchMsg ls) = (length ls \<le> 1000 \<and> (\<forall>l \<in> set ls. loc_ok l \<and> flags_within (gnssLocationFlags l) (location_flags k)))"

lemma copy_location_ok [simp]: "loc_ok (copy_location l f)" "loc_ok zero_location" "gnssLocationFlags (copy_location l f) = f"
  by (simp_all add: loc_ok_def copy_location_def zero_location_def)

lemma gps_location_ok [simp]:
  "loc_ok (convertToGnssLocation l)" "flags_within (gnssLocationFlags (convertToGnssLocation l)) 0x1f"
proof -
  have "flags_within (and x 0x1f) 0x1f" for x
    unfolding flags_within_def by (rule bit_word_eqI) (simp add: bit_simps)
  then show "flags_within (gnssLocationFlags (convertToGnssLocation l)) 0x1f"
    by (simp add: convertToGnssLocation_def zero_location_def flags_within_def [of 0] split: option.split)
qed (simp add: convertToGnssLocation_def split: option.split)

lemma flags_within_if: "flags_within x m \<Longrightarrow> and g (not m) = 0 \<Longrightarrow> flags_within (if c then or x g else x) m"
  by (simp add: flags_within_def bit.conj_disj_distrib2)

lemma location_flags_has: "and (gps_has k f) (not (location_flags k)) = 0"
  unfolding location_flags_def by (rule bit_word_eqI) (cases f; auto simp: bit_simps)

lemma flp_location_ok [simp]:
  "loc_ok (convertFlpLocation k l)" "flags_within (gnssLocationFlags (convertFlpLocation k l)) (location_flags k)"
proof -
  have w: "flags_within (fold (\<lambda>f x. if P f then or x (gps_has k f) else x) fs 0) (location_flags k)" for P fs
  proof -
    have "flags_within x (location_flags k) \<Longrightarrow> flags_within (fold (\<lambda>f x. if P f then or x (gps_has k f) else x) fs x) (location_flags k)" for x
    proof (induction fs arbitrary: x)
      case (Cons f fs)
      then show ?case using flags_within_if [OF Cons.prems location_flags_has] by (simp only: fold_Cons o_apply)
    qed simp
    then show ?thesis by (simp add: flags_within_def)
  qed
  show "flags_within (gnssLocationFlags (convertFlpLocation k l)) (location_flags k)"
  proof (cases l)
    case (Some a)
    then show ?thesis using w [of "\<lambda>f. and (loc_flags a) (flp_has k f) \<noteq> 0"] by (simp only: convertFlpLocation_def option.case copy_location_ok)
  qed (simp add: convertFlpLocation_def zero_location_def flags_within_def)
qed (simp add: convertFlpLocation_def split: option.split)

lemma clamp_le: "clamp_svs k n \<le> SVS_COUNT k"
  by (simp add: clamp_svs_def)

lemma gnss_sv_ok: "gnss_sv_status k v = Some vs \<Longrightarrow> msg_ok k (SvStatusMsg vs)"
proof -
  have m: "and (and f (not c)) c = (0 :: u8)" for f c
    by (rule bit_word_eqI) (auto simp: bit_simps)
  show "gnss_sv_status k v = Some vs \<Longrightarrow> msg_ok k (SvStatusMsg vs)"
    using clamp_le by (auto simp: gnss_sv_status_def Let_def sv_ok_def m split: if_splits)
qed

lemma gps_sv_flags_within: "and (gps_sv_flags k s c v) (not (old_flags k)) = 0"
proof -
  have "and (or (if P then sv_has_ephemeris k else 0) (or (if Q then sv_has_almanac k else 0) (if R then sv_used_in_fix k else 0)))
      (not (old_flags k)) = 0" for P Q R
    unfolding old_flags_def by (rule bit_word_eqI) (auto simp: bit_simps)
  then show ?thesis by (simp only: gps_sv_flags_def Let_def split: if_split) simp
qed

lemma convert_gps_sv_ok: "sv_ok k (convert_gps_sv k s i)"
proof -
  obtain c v where cv: "convert_prn (prn i) = (c, v)" by (cases "convert_prn (prn i)")
  have r: "svid_range c (sint v)"
    using sv_reference_range [of "sint (ucast (prn i) :: 16 word)"] convert_prn_reference [of "prn i"] cv by (metis fst_conv snd_conv)
  have "c \<noteq> GPS \<and> c \<noteq> GLONASS \<longrightarrow> gps_sv_flags k s c v = 0" by (simp add: gps_sv_flags_def)
  moreover have "c \<noteq> CastConstellation x" for x using r by (auto simp: svid_range_def)
  ultimately show ?thesis using r gps_sv_flags_within [of k s c v]
    by (cases c) (simp_all add: sv_ok_def convert_gps_sv_def cv, simp add: svid_range_def)
qed

lemma implied_state_ok:
  assumes "s = implied_state k v"
  shows "and s (STATE_GLO_TOD_DECODED k) \<noteq> 0 \<Longrightarrow> and (not s) (STATE_GLO_TOD_KNOWN k) = 0"
    "and (STATE_GLO_TOD_KNOWN k) (STATE_TOW_DECODED k) = 0 \<Longrightarrow> and (STATE_TOW_KNOWN k) (STATE_TOW_DECODED k) = 0 \<Longrightarrow>
     and s (STATE_TOW_DECODED k) \<noteq> 0 \<Longrightarrow> and (not s) (STATE_TOW_KNOWN k) = 0"
proof -
  have o: "and (and x (not y)) y = (0 :: u32)" for x y by (rule bit_word_eqI) (simp add: bit_simps)
  have o2: "and (and (and x (not y)) z) y = (0 :: u32)" for x y z by (rule bit_word_eqI) (auto simp: bit_simps)
  have d: "and (or x y) z = or (and x z) (and y z)" for x y z :: u32 by (rule bit.conj_disj_distrib2)
  show "and s (STATE_GLO_TOD_DECODED k) \<noteq> 0 \<Longrightarrow> and (not s) (STATE_GLO_TOD_KNOWN k) = 0"
    unfolding assms implied_state_def Let_def by (simp add: o split: if_splits)
  assume a: "and (STATE_GLO_TOD_KNOWN k) (STATE_TOW_DECODED k) = 0" "and (STATE_TOW_KNOWN k) (STATE_TOW_DECODED k) = 0"
    "and s (STATE_TOW_DECODED k) \<noteq> 0"
  have "and v (STATE_TOW_DECODED k) \<noteq> 0"
    using a unfolding assms implied_state_def Let_def by (auto simp: d split: if_splits)
  then show "and (not s) (STATE_TOW_KNOWN k) = 0"
    unfolding assms implied_state_def Let_def by (simp add: o o2)
qed

lemma legacy_measurement_ok: "measurement_ok k (convert_legacy_measurement k e)"
  using implied_state_ok [OF refl, of k "m_state e"]
  by (simp add: measurement_ok_def convert_legacy_measurement_def copy_measurement_def)

lemma gps_measurement_ok: "measurement_ok k (convert_gps_measurement k e)"
proof -
  have "sint (scast (m_prn e) :: 16 word) = sint (m_prn e)" by (rule sint_up_scast) (simp add: is_up)
  then show ?thesis by (auto simp: measurement_ok_def convert_gps_measurement_def copy_measurement_def)
qed

lemma gps_sv_ok: "gps_sv_status_to_gnss k s = Some vs \<Longrightarrow> msg_ok k (SvStatusMsg vs)"
  using clamp_le by (auto simp: gps_sv_status_to_gnss_def Let_def convert_gps_sv_ok split: if_splits)

lemma measurements_ok:
  "convert_measurements k f d = Some ms \<Longrightarrow> (\<And>e. measurement_ok k (f e)) \<Longrightarrow>
   length ms \<le> SVS_COUNT k \<and> (\<forall>m \<in> set ms. measurement_ok k m)"
  by (auto simp: convert_measurements_def Let_def split: if_splits)

lemma batch_ok:
  assumes "batch_locations k n ls = Some xs"
  shows "msg_ok k (LocationBatchMsg xs)"
proof -
  have len: "length (concat (map (\<lambda>x. case x of None \<Rightarrow> [] | Some l \<Rightarrow> if P l then [] else [f x]) ys)) \<le> length ys" for P f ys
    by (induction ys) (auto split: option.split)
  have "batch_count n \<le> 1000" by (auto simp: batch_count_def MAX_LOCATIONS_PER_BATCH_def)
  moreover have xs: "xs = concat (map (\<lambda>x. case x of None \<Rightarrow> []
      | Some l \<Rightarrow> if and (sources_used l) (not (FLP_TECH_MASK_GNSS_AND_SENSORS k)) \<noteq> 0 then [] else [convertFlpLocation k x])
      (take (batch_count n) ls))"
    using assms by (simp add: batch_locations_def Let_def split: if_splits)
  moreover have "length xs \<le> length (take (batch_count n) ls)" unfolding xs by (rule len)
  ultimately show ?thesis by (auto split: option.splits if_splits)
qed

section \<open>Invariants\<close>

text \<open>Whether the last call about the wake lock took it.\<close>

definition lock_after :: "bool \<Rightarrow> gnss_event \<Rightarrow> bool" where
  "lock_after held e =
     (case e of ToClient c m \<Rightarrow> if m = AcquireWakelockMsg then True else if m = ReleaseWakelockMsg then False else held | _ \<Rightarrow> held)"

definition lock_view :: "gnss_event list \<Rightarrow> bool" where
  "lock_view es = foldl lock_after False es"

definition gnss_inv :: "gnss_consts \<Rightarrow> gnss \<Rightarrow> bool" where
  "gnss_inv k s \<longleftrightarrow> sWakelockHeld s = lock_view (gnss_trace s) \<and> (\<forall>p. single_object p \<longrightarrow> sInterfaceExists s p = mParts s p) \<and>
     (\<forall>c m. ToClient c m \<in> set (gnss_trace s) \<longrightarrow> msg_ok k m)"

text \<open>What a callback that has nothing to do with the wake lock may do to the trace and to what the invariant speaks of.\<close>

definition told :: "gnss_consts \<Rightarrow> gnss \<Rightarrow> gnss \<Rightarrow> bool" where
  "told k s s' \<longleftrightarrow> sWakelockHeld s' = sWakelockHeld s \<and> mParts s' = mParts s \<and> sInterfaceExists s' = sInterfaceExists s \<and>
     sGnssCbIface s' = sGnssCbIface s \<and> sWakelockHeldGnss s' = sWakelockHeldGnss s \<and> sWakelockHeldFused s' = sWakelockHeldFused s \<and>
     (gnss_trace s' = gnss_trace s \<or>
      (\<exists>c m. gnss_trace s' = gnss_trace s @ [ToClient c m] \<and> msg_ok k m \<and> m \<noteq> AcquireWakelockMsg \<and> m \<noteq> ReleaseWakelockMsg))"

lemma told_same: "told k s s"
  by (simp add: told_def)

lemma told_tell: "msg_ok k m \<Longrightarrow> m \<noteq> AcquireWakelockMsg \<Longrightarrow> m \<noteq> ReleaseWakelockMsg \<Longrightarrow> told k s (tell c m s)"
  by (auto simp: told_def tell_def gnss_emit_def split: option.split)

lemma told_converted:
  assumes "tell_converted c f x s = Some s'" "\<And>y m. f y = Some m \<Longrightarrow> msg_ok k m \<and> m \<noteq> AcquireWakelockMsg \<and> m \<noteq> ReleaseWakelockMsg"
  shows "told k s s'"
  using assms(1) assms(2) by (auto simp: tell_converted_def told_same intro!: told_tell split: if_splits option.splits)

lemma told_part: "msg_ok k m \<Longrightarrow> m \<noteq> AcquireWakelockMsg \<Longrightarrow> m \<noteq> ReleaseWakelockMsg \<Longrightarrow> told k s (tell_part p m s)"
  unfolding tell_part_def by (rule told_tell)

lemma told_update:
  "told k s s' \<Longrightarrow> told k s (s'\<lparr>sCapabilitiesCached := v\<rparr>)" "told k s s' \<Longrightarrow> told k s (s'\<lparr>sYearOfHwCached := y\<rparr>)"
  "told k s (s\<lparr>sThreadFuncArgsList := l\<rparr>)" "told k s (s\<lparr>sFlpSupportsBatching := b\<rparr>)"
  "told k (s\<lparr>discontinuity_count := n\<rparr>) s' \<Longrightarrow> told k s s'"
  by (simp_all add: told_def)

definition wake_callback :: "hal_callback \<Rightarrow> bool" where
  "wake_callback c = (c \<in> {AcquireWakelockCb, ReleaseWakelockCb, FlpAcquireWakelockCb, FlpReleaseWakelockCb})"

text \<open>The callbacks that only hand a message over.\<close>

lemma told_core:
  "told k s (setCapabilitiesCb c s)" "told k s (requestUtcTimeCb s)" "told k s (setSystemInfoCb y s)" "told k s (createPthread p name f x s)"
  by (auto simp: setCapabilitiesCb_def requestUtcTimeCb_def setSystemInfoCb_def createPthread_def told_same
      split: option.split intro!: told_update(1-4) told_tell)

lemma told_parts:
  "told k s (requestSetId f s)" "told k s (requestRefLoc f s)" "told k s (gnssGfStatusCb v l s)" "told k s (gnssGfAddCb i v s)"
  "told k s (gnssGfRemoveCb i v s)" "told k s (gnssGfPauseCb i v s)" "told k s (gnssGfResumeCb i v s)" "told k s (gnssXtraDownloadRequestCb s)"
  unfolding requestSetId_def requestRefLoc_def gnssGfStatusCb_def gnssGfAddCb_def gnssGfRemoveCb_def gnssGfPauseCb_def gnssGfResumeCb_def
    gnssXtraDownloadRequestCb_def
  by (rule told_part; simp)+

lemma told_optional:
  "told k s (gnssGfTransitionCb i l tr t s)" "told k s (niNotifyCb n s)" "told k s (gnssNavigationMessageCb m s)" "told k s (agnss_statusCb k v s)"
  "told k s (flpCapabilitiesCb k c s)" "told k s (flpStatusCb st s)"
  by (auto simp: gnssGfTransitionCb_def niNotifyCb_def gnssNavigationMessageCb_def agnss_statusCb_def flpCapabilitiesCb_def flpStatusCb_def
      told_same split: option.split intro!: told_part told_update(1-4))

lemma callback_told:
  assumes "gnss_callback k c s = Some s'" "\<not> wake_callback c"
  shows "told k s s'"
proof (cases c)
  case (GnssSvStatusCb v)
  then show ?thesis using assms(1) by (auto simp: gnssSvStatusCb_def dest!: gnss_sv_ok elim!: told_converted)
next
  case (GpsSvStatusCb v)
  then show ?thesis using assms(1) by (auto simp: gpsSvStatusCb_def dest!: gps_sv_ok elim!: told_converted)
next
  case (GnssMeasurementCb d)
  then show ?thesis using assms(1)
    by (auto simp: gnssMeasurementCb_def convert_legacy_data_def legacy_measurement_ok dest!: measurements_ok elim!: told_converted)
next
  case (GpsMeasurementCb d)
  show ?thesis
  proof (cases "sPartCbIface s GnssMeasurement = None \<or> d = None")
    case False
    then obtain x m n where "convert_gps_data k (discontinuity_count s) x = Some (m, n)"
      and s': "s' = tell_part GnssMeasurement (MeasurementMsg m) (s\<lparr>discontinuity_count := n\<rparr>)"
      using assms(1) GpsMeasurementCb by (auto simp: gpsMeasurementCb_def)
    then have ok: "msg_ok k (MeasurementMsg m)"
      by (auto simp: convert_gps_data_def Option.bind_eq_Some_conv gps_measurement_ok dest!: measurements_ok)
    show ?thesis unfolding s' by (rule told_update(5), rule told_part) (use ok in simp_all)
  qed (use assms(1) GpsMeasurementCb in \<open>auto simp: gpsMeasurementCb_def told_same split: if_splits\<close>)
next
  case (FlpLocationCb n ls)
  then show ?thesis using assms(1) by (auto simp: flp_locationCb_def dest!: batch_ok elim!: told_converted)
next
  case (LocationCb l)
  then show ?thesis using assms(1) by (auto simp: locationCb_def elim!: told_converted)
next
  case (StatusCb v)
  then show ?thesis using assms(1) by (auto simp: statusCb_def elim!: told_converted)
next
  case (NmeaCb t x n)
  then show ?thesis using assms(1) by (auto simp: nmeaCb_def elim!: told_converted)
qed (use assms in \<open>auto simp: wake_callback_def told_same told_core told_parts told_optional\<close>)

lemma lock_view_snoc [simp]:
  "lock_view (es @ [e]) = lock_after (lock_view es) e"
  by (simp add: lock_view_def)

lemma told_inv:
  assumes "told k s s'" "gnss_inv k s"
  shows "gnss_inv k s'"
  using assms by (auto simp: gnss_inv_def told_def lock_after_def)

lemma updateWakelock_inv: "gnss_inv k s \<Longrightarrow> gnss_inv k (updateWakelock s)"
  by (auto simp: updateWakelock_def tell_def gnss_emit_def gnss_inv_def lock_after_def split: option.split)

lemma wake_callback_inv:
  assumes "gnss_callback k c s = Some s'" "wake_callback c" "gnss_inv k s"
  shows "gnss_inv k s'"
proof -
  have "gnss_inv k (s\<lparr>sWakelockHeldGnss := b\<rparr>)" "gnss_inv k (s\<lparr>sWakelockHeldFused := b\<rparr>)" for b
    using assms(3) by (simp_all add: gnss_inv_def)
  with assms(1,2) show ?thesis
    by (auto simp: wake_callback_def acquireWakelockCb_def releaseWakelockCb_def flp_acquireWakelockCb_def flp_releaseWakelockCb_def
        acquireWakelockGnss_def releaseWakelockGnss_def acquireWakelockFused_def releaseWakelockFused_def updateWakelock_inv)
qed

lemma prim_inv: "gnss_prim k s s' \<Longrightarrow> gnss_inv k s \<Longrightarrow> gnss_inv k s'"
proof (induction rule: gnss_prim.induct)
  case (prim_callback c s s')
  then show ?case by (cases "wake_callback c") (auto intro: wake_callback_inv told_inv callback_told)
next
  case (prim_emit e s)
  then have "lock_after h e = h" for h by (cases e) (auto simp: lock_after_def)
  with prim_emit show ?case by (auto simp: gnss_inv_def gnss_emit_def)
next
  case (prim_new p s s')
  then show ?case by (auto simp: gnss_inv_def new_part_def split: if_splits)
qed (auto simp: gnss_inv_def part_destroyed_def)

lemma initial_inv: "gnss_inv k gnss_initial"
  by (simp add: gnss_inv_def gnss_initial_def lock_view_def)

lemma gnss_reachable_inv: "gnss_reachable env s \<Longrightarrow> gnss_inv (gnss_k env) s"
  by (erule reachable_induct [where P = "gnss_inv (gnss_k env)"]) (auto intro: prim_inv initial_inv)

section \<open>Who wants the wake lock\<close>

text \<open>The last callback of one of the two holders, or what was before.\<close>

definition wanted :: "hal_callback \<Rightarrow> hal_callback \<Rightarrow> hal_callback list \<Rightarrow> bool \<Rightarrow> bool" where
  "wanted acquire release cs = fold (\<lambda>c w. if c = acquire then True else if c = release then False else w) cs"

lemmas wake_defs = acquireWakelockCb_def releaseWakelockCb_def flp_acquireWakelockCb_def flp_releaseWakelockCb_def
  acquireWakelockGnss_def releaseWakelockGnss_def acquireWakelockFused_def releaseWakelockFused_def

lemma updateWakelock_keeps [simp]:
  "sGnssCbIface (updateWakelock s) = sGnssCbIface s"
  "sWakelockHeldGnss (updateWakelock s) = sWakelockHeldGnss s" "sWakelockHeldFused (updateWakelock s) = sWakelockHeldFused s"
  by (simp_all add: updateWakelock_def tell_def gnss_emit_def split: option.split)

lemma updateWakelock_held:
  "sGnssCbIface s \<noteq> None \<Longrightarrow> sWakelockHeld (updateWakelock s) = (sWakelockHeldGnss s \<or> sWakelockHeldFused s)"
  by (auto simp: updateWakelock_def tell_def gnss_emit_def)

lemma callback_wanted:
  assumes "gnss_callback k c s = Some s'"
  shows "sGnssCbIface s' = sGnssCbIface s"
    "sWakelockHeldGnss s' = wanted AcquireWakelockCb ReleaseWakelockCb [c] (sWakelockHeldGnss s)"
    "sWakelockHeldFused s' = wanted FlpAcquireWakelockCb FlpReleaseWakelockCb [c] (sWakelockHeldFused s)"
    "sGnssCbIface s \<noteq> None \<Longrightarrow> wake_callback c \<or> sWakelockHeld s = (sWakelockHeldGnss s \<or> sWakelockHeldFused s) \<Longrightarrow>
     sWakelockHeld s' = (sWakelockHeldGnss s' \<or> sWakelockHeldFused s')"
proof -
  have "sGnssCbIface s' = sGnssCbIface s \<and>
    sWakelockHeldGnss s' = wanted AcquireWakelockCb ReleaseWakelockCb [c] (sWakelockHeldGnss s) \<and>
    sWakelockHeldFused s' = wanted FlpAcquireWakelockCb FlpReleaseWakelockCb [c] (sWakelockHeldFused s) \<and>
    (sGnssCbIface s \<noteq> None \<longrightarrow> wake_callback c \<or> sWakelockHeld s = (sWakelockHeldGnss s \<or> sWakelockHeldFused s) \<longrightarrow>
     sWakelockHeld s' = (sWakelockHeldGnss s' \<or> sWakelockHeldFused s'))"
  proof (cases "wake_callback c")
    case True
    then show ?thesis using assms by (auto simp: wake_callback_def wake_defs wanted_def updateWakelock_held)
  next
    case False
    then show ?thesis using callback_told [OF assms False] by (auto simp: told_def wake_callback_def wanted_def)
  qed
  then show "sGnssCbIface s' = sGnssCbIface s"
    "sWakelockHeldGnss s' = wanted AcquireWakelockCb ReleaseWakelockCb [c] (sWakelockHeldGnss s)"
    "sWakelockHeldFused s' = wanted FlpAcquireWakelockCb FlpReleaseWakelockCb [c] (sWakelockHeldFused s)"
    "sGnssCbIface s \<noteq> None \<Longrightarrow> wake_callback c \<or> sWakelockHeld s = (sWakelockHeldGnss s \<or> sWakelockHeldFused s) \<Longrightarrow>
     sWakelockHeld s' = (sWakelockHeldGnss s' \<or> sWakelockHeldFused s')" by blast+
qed

lemma wanted_Cons: "wanted a r (c # cs) w = wanted a r cs (wanted a r [c] w)"
  by (simp add: wanted_def)

lemma callbacks_wanted:
  "gnss_callbacks k cs s = Some s' \<Longrightarrow>
   sWakelockHeldGnss s' = wanted AcquireWakelockCb ReleaseWakelockCb cs (sWakelockHeldGnss s) \<and>
   sWakelockHeldFused s' = wanted FlpAcquireWakelockCb FlpReleaseWakelockCb cs (sWakelockHeldFused s)"
proof (induction k cs s rule: gnss_callbacks.induct)
  case (2 k c cs s)
  then obtain s1 where s1: "gnss_callback k c s = Some s1" "gnss_callbacks k cs s1 = Some s'" by (auto simp: Option.bind_eq_Some_conv)
  show ?case unfolding wanted_Cons [of _ _ c cs] callback_wanted(2,3) [OF s1(1), symmetric] by (rule "2.IH" [OF s1])
qed (simp add: wanted_def)

lemma callbacks_held:
  assumes "gnss_callbacks k cs s = Some s'" "sGnssCbIface s \<noteq> None"
    "(\<exists>c \<in> set cs. wake_callback c) \<or> sWakelockHeld s = (sWakelockHeldGnss s \<or> sWakelockHeldFused s)"
  shows "sWakelockHeld s' = (sWakelockHeldGnss s' \<or> sWakelockHeldFused s')"
  using assms
proof (induction k cs s rule: gnss_callbacks.induct)
  case (2 k c cs s)
  then obtain s1 where s1: "gnss_callback k c s = Some s1" "gnss_callbacks k cs s1 = Some s'" by (auto simp: Option.bind_eq_Some_conv)
  have "sGnssCbIface s1 \<noteq> None" using callback_wanted(1) [OF s1(1)] "2.prems"(2) by simp
  moreover have "(\<exists>c \<in> set cs. wake_callback c) \<or> sWakelockHeld s1 = (sWakelockHeldGnss s1 \<or> sWakelockHeldFused s1)"
    using callback_wanted(4) [OF s1(1) "2.prems"(2)] "2.prems"(3) by auto
  ultimately show ?case by (rule "2.IH" [OF s1])
qed simp

lemma callbacks_inv: "gnss_callbacks k cs s = Some s' \<Longrightarrow> gnss_inv k s \<Longrightarrow> gnss_inv k s'"
proof (induction k cs s rule: gnss_callbacks.induct)
  case (2 k c cs s)
  then obtain s1 where "gnss_callback k c s = Some s1" "gnss_callbacks k cs s1 = Some s'" by (auto simp: Option.bind_eq_Some_conv)
  then show ?case using 2 prim_inv [OF prim_callback] by blast
qed simp

section \<open>A HAL that is silent during calls\<close>

definition quiet_hal :: "gnss_env \<Rightarrow> bool" where
  "quiet_hal env \<longleftrightarrow> (\<forall>c s. snd (hal env c s) = [])"

lemma quiet_call: "quiet_hal env \<Longrightarrow> call_hal env c s = Some (fst (hal env c s), gnss_emit (ToHal c) s)"
  by (auto simp: call_hal_def quiet_hal_def split: prod.splits) (metis gnss_callbacks.simps(1) option.simps(9) snd_conv)

text \<open>Nothing but calls of the HAL.\<close>

definition hal_only :: "gnss \<Rightarrow> gnss \<Rightarrow> bool" where
  "hal_only s s' \<longleftrightarrow> sWakelockHeld s' = sWakelockHeld s \<and> mGnssIface s' = mGnssIface s \<and> mParts s' = mParts s \<and>
     (\<exists>cs. gnss_trace s' = gnss_trace s @ map ToHal cs)"

lemma hal_only_trans: "hal_only s s1 \<Longrightarrow> hal_only s1 s2 \<Longrightarrow> hal_only s s2"
  unfolding hal_only_def by (metis append.assoc map_append)

lemma hal_only_refl: "hal_only s s"
  by (auto simp: hal_only_def intro: exI [of _ "[]"])

lemma hal_only_emit: "hal_only s (gnss_emit (ToHal c) s)"
  by (auto simp: hal_only_def gnss_emit_def intro: exI [of _ "[c]"])

lemma quiet_methods:
  assumes "quiet_hal env"
  shows "\<exists>r s'. hal_bool env a c s = Some (r, s') \<and> hal_only s s'" "\<exists>s'. hal_void env a c s = Some s' \<and> hal_only s s'"
    "\<exists>r s'. flp_success env a c s = Some (r, s') \<and> hal_only s s'"
  by (auto simp: hal_bool_def hal_void_def flp_success_def quiet_call [OF assms] hal_only_refl hal_only_emit)

lemma quiet_death:
  assumes "quiet_hal env"
  shows "\<exists>s'. handleHidlDeath env s = Some s' \<and> hal_only s s' \<and> sGnssCbIface s' = None"
proof -
  note q = quiet_methods [OF assms]
  obtain r1 s1 where 1: "stop_gnss env s = Some (r1, s1)" "hal_only s s1" using q(1) unfolding stop_gnss_def by blast
  obtain s2 where 2: "(if mParts s1 GnssMeasurement then measurement_close env s1 else Some s1) = Some s2" "hal_only s1 s2"
    using q(2) hal_only_refl unfolding measurement_close_def by (metis (no_types))
  obtain s3 where 3: "(if mParts s2 GnssNavigationMessage then navigation_close env s2 else Some s2) = Some s3" "hal_only s2 s3"
    using q(2) hal_only_refl unfolding navigation_close_def by (metis (no_types))
  obtain r4 t4 where 4: "batching_stop env s3 = Some (r4, t4)" "hal_only s3 t4" using q(3) unfolding batching_stop_def by blast
  obtain u4 where 5: "batching_cleanup env t4 = Some u4" "hal_only t4 u4" using q(2) unfolding batching_cleanup_def by blast
  obtain s4 where 6: "(if mParts s3 GnssBatching then Option.bind (map_option snd (batching_stop env s3)) (batching_cleanup env) else Some s3) = Some s4"
    "hal_only s3 s4"
    using 4 5 hal_only_trans [OF 4(2) 5(2)] hal_only_refl by (cases "mParts s3 GnssBatching") auto
  obtain s5 where 7: "cleanup_gnss env s4 = Some s5" "hal_only s4 s5" using q(2) unfolding cleanup_gnss_def by blast
  have "handleHidlDeath env s = Some (s5\<lparr>sGnssCbIface := None\<rparr>)"
    unfolding handleHidlDeath_def by (simp only: 1 2 3 6 7 option.map Option.bind.bind_lunit snd_conv)
  moreover have "hal_only s s5" using 1(2) 2(2) 3(2) 6(2) 7(2) hal_only_trans by blast
  then have "hal_only s (s5\<lparr>sGnssCbIface := None\<rparr>)" by (simp add: hal_only_def)
  ultimately show ?thesis by simp
qed

text \<open>A client that registers is told what was cached.\<close>

lemma quiet_setCallback:
  assumes "quiet_hal env" "mGnssIface s"
  shows "\<exists>r s' es. gnss_setCallback env (Some c) s = Some (r, s') \<and> sGnssCbIface s' = Some c \<and> sWakelockHeld s' = sWakelockHeld s \<and>
    gnss_trace s' = gnss_trace s @ es \<and> (\<forall>a. ToClient a AcquireWakelockMsg \<notin> set es)"
  using assms
  by (auto simp: gnss_setCallback_def Let_def hal_bool_def quiet_call [OF assms(1)] setCapabilitiesCb_def setSystemInfoCb_def tell_def gnss_emit_def
      split: option.split)

section \<open>Further facts\<close>

text \<open>The debug text is ended outside of its buffer when the HAL tells a length of more than 2047.\<close>

lemma debug_buffer_overrun:
  assumes "quiet_hal env" "mParts s GnssDebug"
  shows "getDebugData env s = None \<longleftrightarrow> 2047 < fst (hal env (GetInternalState 2047) s)"
  using assms(2) by (auto simp: getDebugData_def quiet_call [OF assms(1)] kMaxDebugStrLen_def)

text \<open>A status of the old size loses its type: it is handed over with the number of the address family.\<close>

lemma old_agps_status_type:
  "agps_size v \<noteq> sizeof_AGpsStatus k \<Longrightarrow> agnss_status_of k v = Some m \<Longrightarrow>
   m = AGnssStatusIpV4 (word_of_nat (AF_INET k)) (ucast (agps_status_value v)) (htonl (agps_ipaddr v))"
  by (simp add: agnss_status_of_def split: if_splits)

text \<open>The masks of ephemeris and almanac are those of GPS, but a satellite of GLONASS with the same number gets their flags too.\<close>

lemma glonass_takes_gps_masks:
  "used_in_fix_mask s = word_after_used s \<Longrightarrow> gps_sv_flags k s GLONASS v = gps_sv_flags k s GPS v"
  by (simp add: gps_sv_flags_def Let_def)

text \<open>The time of a satellite system is the same before and after the conversion of the clock, in which its sign has changed;
  a clock in that time counts as discontinuous each time.\<close>

lemma gps_clock_converted:
  assumes "convert_gps_clock k n c = Some (g, n')"
  shows "timeNs g - fullBiasNs g = (if clock_type c = CLOCK_TYPE_GPS_TIME k then time_ns c else time_ns c + full_bias_ns c) \<and>
    (clock_type c = CLOCK_TYPE_GPS_TIME k \<longrightarrow> hwClockDiscontinuityCount g = Some n \<and> n' = n + 1)"
  using assms by (auto simp: convert_gps_clock_def Let_def split: if_splits)

text \<open>Without a client the callbacks of \<open>Gnss\<close> say nothing.\<close>

lemma silent_without_client:
  assumes "sGnssCbIface s = None" "c \<in> {LocationCb l, StatusCb v, GnssSvStatusCb sv, GpsSvStatusCb gv, NmeaCb t x n, SetCapabilitiesCb cap,
      RequestUtcTimeCb, SetSystemInfoCb y, AcquireWakelockCb, ReleaseWakelockCb, FlpAcquireWakelockCb, FlpReleaseWakelockCb}"
  shows "\<exists>s'. gnss_callback k c s = Some s' \<and> gnss_trace s' = gnss_trace s"
  using assms by (auto simp: locationCb_def statusCb_def gnssSvStatusCb_def gpsSvStatusCb_def nmeaCb_def tell_converted_def setCapabilitiesCb_def
      requestUtcTimeCb_def tell_def setSystemInfoCb_def acquireWakelockCb_def releaseWakelockCb_def flp_acquireWakelockCb_def
      flp_releaseWakelockCb_def acquireWakelockGnss_def releaseWakelockGnss_def acquireWakelockFused_def releaseWakelockFused_def
      updateWakelock_def)

text \<open>An extension is only made once: in every reachable state it is there or can be made, and is the same when it is asked for again.\<close>

lemma extension_made_once:
  assumes "gnss_reachable env s" "quiet_hal env"
  shows "\<exists>r s'. get_extension env p s = Some (r, s') \<and> (r \<longrightarrow> get_extension env p s' = Some (True, s'))"
proof -
  have "single_object p \<Longrightarrow> sInterfaceExists s p = mParts s p" using gnss_reachable_inv [OF assms(1)] by (simp add: gnss_inv_def)
  then show ?thesis by (auto simp: get_extension_def quiet_call [OF assms(2)] new_part_def gnss_emit_def)
qed

section \<open>An example\<close>

definition example_consts :: gnss_consts where
  "example_consts = \<lparr>gps_has = (\<lambda>f. case f of LatLong \<Rightarrow> 1 | Altitude \<Rightarrow> 2 | Speed \<Rightarrow> 4 | Bearing \<Rightarrow> 8 | Accuracy \<Rightarrow> 16),
     flp_has = (\<lambda>f. case f of LatLong \<Rightarrow> 1 | Altitude \<Rightarrow> 2 | Speed \<Rightarrow> 4 | Bearing \<Rightarrow> 16 | Accuracy \<Rightarrow> 256),
     SVS_COUNT = 64, sv_has_ephemeris = 1, sv_has_almanac = 2, sv_used_in_fix = 4, sv_has_carrier_frequency = 8,
     STATE_TOW_DECODED = 8, STATE_TOW_KNOWN = 16384, STATE_GLO_TOD_DECODED = 128, STATE_GLO_TOD_KNOWN = 32768,
     HAS_CARRIER_FREQUENCY = 512, HAS_CARRIER_PHASE = 2048, HAS_CARRIER_PHASE_UNCERTAINTY = 4096, HAS_SNR = 1,
     CLOCK_HAS_FULL_BIAS = 4, CLOCK_TYPE_GPS_TIME = 2, FLP_TECH_MASK_GNSS = 1, FLP_TECH_MASK_SENSORS = 4, CAPABILITY_GNSS = 1,
     WAKEUP_ON_FIFO_FULL = 1, FLP_BATCH_WAKEUP_ON_FIFO_FULL = 1, FLP_RESULT_SUCCESS = 0, AF_INET = 2, AF_INET6 = 10,
     sizeof_AGpsStatus = 152, sizeof_AGpsStatus_v2 = 20, ERROR_GENERIC = - 101\<rparr>"

definition gnss_example :: gnss_env where
  "gnss_example = \<lparr>gnss_k = example_consts, hal = (\<lambda>c s. (0, [])), has_extension = (\<lambda>p s. True), flp_module = (\<lambda>s. (0, True, True, 0, True))\<rparr>"

text \<open>A satellite of GLONASS, used in the fix.\<close>

definition example_sv :: gnss_sv_info where
  "example_sv = \<lparr>svid = 6, sv_constellation = GLONASS, cN0Dbhz = 0, elevationDegrees = 0, azimuthDegrees = 0, svFlag = 4, carrierFrequencyHz = None\<rparr>"

definition registered_gnss :: gnss where
  "registered_gnss = gnss_initial\<lparr>mGnssIface := True, sGnssCbIface := Some 1,
     gnss_trace := [LinkToDeath 1, ToHal HalInit, ToClient 1 (SvStatusMsg [example_sv])]\<rparr>"

definition locked_gnss :: gnss where
  "locked_gnss = registered_gnss\<lparr>sWakelockHeldGnss := True, sWakelockHeld := True,
     gnss_trace := gnss_trace registered_gnss @ [ToClient 1 AcquireWakelockMsg]\<rparr>"

lemma example_quiet: "quiet_hal gnss_example" "gnss_k gnss_example = example_consts"
  by (simp_all add: quiet_hal_def gnss_example_def)

lemma example_convert: "gps_sv_status_to_gnss example_consts \<lparr>num_svs = 1, sv_list = [\<lparr>prn = 70, snr = 0, elevation = 0, azimuth = 0\<rparr>],
     ephemeris_mask = 0, almanac_mask = 0, used_in_fix_mask = 0, word_after_used = 32\<rparr> = Some [example_sv]"
  by (simp add: gps_sv_status_to_gnss_def clamp_svs_def example_consts_def convert_gps_sv_def convert_prn_def svid_values gps_sv_flags_def
      example_sv_def Let_def sint_uint)

lemma registered_gnss_reachable: "gnss_reachable gnss_example registered_gnss"
proof -
  let ?s1 = "gnss_initial\<lparr>mGnssIface := True\<rparr>"
  let ?s2 = "?s1\<lparr>sGnssCbIface := Some 1, gnss_trace := [LinkToDeath 1, ToHal HalInit]\<rparr>"
  have "gnss_step gnss_example gnss_initial ?s1"
    by (rule fetch [of 0 0 False True]) (simp add: HIDL_FETCH_IGnss_def gnss_new_def)
  moreover have "gnss_step gnss_example ?s1 ?s2"
    by (rule set_callback [of _ "Some 1"])
      (simp add: gnss_setCallback_def hal_bool_def quiet_call [OF example_quiet(1)] gnss_emit_def gnss_initial_def Let_def)
  moreover have "gnss_callback example_consts (GpsSvStatusCb (Some \<lparr>num_svs = 1, sv_list = [\<lparr>prn = 70, snr = 0, elevation = 0, azimuth = 0\<rparr>],
     ephemeris_mask = 0, almanac_mask = 0, used_in_fix_mask = 0, word_after_used = 32\<rparr>)) ?s2 = Some registered_gnss"
    by (simp add: gpsSvStatusCb_def tell_converted_def example_convert tell_def gnss_emit_def registered_gnss_def)
  then have "gnss_step gnss_example ?s2 registered_gnss" unfolding example_quiet(2) [symmetric] by (rule callback)
  ultimately show ?thesis unfolding gnss_reachable_def by (meson rtranclp.rtrancl_into_rtrancl rtranclp.rtrancl_refl)
qed

lemma example_acquire: "gnss_callback k AcquireWakelockCb registered_gnss = Some locked_gnss"
  by (simp add: acquireWakelockCb_def acquireWakelockGnss_def updateWakelock_def tell_def gnss_emit_def registered_gnss_def locked_gnss_def
      gnss_initial_def)

lemma locked_reachable: "gnss_reachable gnss_example locked_gnss"
  using registered_gnss_reachable callback [OF example_acquire] unfolding gnss_reachable_def by (rule rtranclp.rtrancl_into_rtrancl)

section \<open>Properties\<close>



text \<open>C33. One wake lock stands for two. While there is a client, let the HAL make any callbacks, at least one of them about a wake lock:
  the last thing clients were told is that the lock is taken if and only if the satellites or the batches want it, where each of them
  wants it as its own last callback said, and as before when it made none.\<close>

theorem wakelock_mirrored:
  assumes "gnss_reachable env s" "sGnssCbIface s \<noteq> None" "gnss_callbacks (gnss_k env) cs s = Some s'" "\<exists>c \<in> set cs. wake_callback c"
  shows "lock_view (gnss_trace s') \<longleftrightarrow>
    wanted AcquireWakelockCb ReleaseWakelockCb cs (sWakelockHeldGnss s) \<or>
    wanted FlpAcquireWakelockCb FlpReleaseWakelockCb cs (sWakelockHeldFused s)"
  using callbacks_held [OF assms(3,2) disjI1 [OF assms(4)]] callbacks_wanted [OF assms(3)] callbacks_inv [OF assms(3) gnss_reachable_inv [OF assms(1)]]
  by (simp add: gnss_inv_def)

lemma wakelock_mirrored_witness:
  "\<exists>s'. gnss_callbacks example_consts [AcquireWakelockCb, FlpAcquireWakelockCb, ReleaseWakelockCb] registered_gnss = Some s' \<and>
     lock_view (gnss_trace s')"
proof -
  let ?s = "locked_gnss\<lparr>sWakelockHeldGnss := False, sWakelockHeldFused := True\<rparr>"
  have c: "gnss_callbacks example_consts [AcquireWakelockCb, FlpAcquireWakelockCb, ReleaseWakelockCb] registered_gnss = Some ?s"
    by (simp add: example_acquire del: gnss_callback.simps(7))
      (simp add: flp_acquireWakelockCb_def acquireWakelockFused_def releaseWakelockCb_def releaseWakelockGnss_def updateWakelock_def
        locked_gnss_def registered_gnss_def gnss_initial_def)
  have "lock_view (gnss_trace ?s) \<longleftrightarrow>
      wanted AcquireWakelockCb ReleaseWakelockCb [AcquireWakelockCb, FlpAcquireWakelockCb, ReleaseWakelockCb] (sWakelockHeldGnss registered_gnss) \<or>
      wanted FlpAcquireWakelockCb FlpReleaseWakelockCb [AcquireWakelockCb, FlpAcquireWakelockCb, ReleaseWakelockCb] (sWakelockHeldFused registered_gnss)"
    by (rule wakelock_mirrored [OF registered_gnss_reachable, unfolded example_quiet(2), OF _ c])
      (simp_all add: registered_gnss_def wake_callback_def)
  then have "lock_view (gnss_trace ?s)" by (simp add: wanted_def)
  with c show ?thesis by blast
qed

text \<open>C34. Every satellite number of 16 bits is handed over with the constellation that the table of the legacy numbers gives it and
  with its number there, as unknown and unchanged only when it is in no row of the table, and no two numbers become the same.\<close>

theorem sv_numbers_roundtrip:
  assumes "- 32768 \<le> sint n" "sint n < 32768"
  shows "(fst (convert_prn n), sint (snd (convert_prn n))) = sv_reference (sint n) \<and>
    (\<forall>n'. - 32768 \<le> sint n' \<and> sint n' < 32768 \<and> convert_prn n' = convert_prn n \<longrightarrow> n' = n)"
proof -
  have r: "(fst (convert_prn m), sint (snd (convert_prn m))) = sv_reference (sint m)" if "- 32768 \<le> sint m" "sint m < 32768" for m
  proof -
    have "(ucast m :: 16 word) = word_of_int (sint m)"
      by (rule bit_word_eqI) (simp add: bit_simps bit_sint_iff)
    then have "sint (ucast m :: 16 word) = sint m" using sint16 [OF that] by simp
    then show ?thesis using convert_prn_reference [of m] by simp
  qed
  have "m = n" if "- 32768 \<le> sint m" "sint m < 32768" "convert_prn m = convert_prn n" for m
    using r [OF that(1,2)] r [OF assms] that(3) sv_reference_inject [of "sint m" "sint n"] by (simp add: signed_word_eqI)
  with r [OF assms] show ?thesis by blast
qed

lemma sv_numbers_roundtrip_witness: "convert_prn 70 = (GLONASS, 6) \<and> sv_reference 70 = (GLONASS, 6)"
proof -
  have c: "convert_prn 70 = (GLONASS, 6)" by (simp add: convert_prn_def svid_values Let_def sint_uint)
  have "(fst (convert_prn 70), sint (snd (convert_prn 70))) = sv_reference (sint (70 :: 32 word))"
    using sv_numbers_roundtrip [of 70] by (simp add: sint_uint)
  then show ?thesis unfolding c by (simp add: sint_uint)
qed

text \<open>C35. A wake lock is lost with the client that held it: let the HAL make no callbacks while it is called. When the client dies with the
  lock and another one registers, and the HAL takes the lock for it, the new client is not told, although the lock is wanted. (A HAL that
  releases the lock when it is stopped or cleaned up is not affected.)\<close>

theorem wakelock_lost_on_reconnect:
  assumes "gnss_reachable env s" "quiet_hal env" "mGnssIface s" "sWakelockHeld s" "\<forall>m. ToClient c m \<notin> set (gnss_trace s)"
  shows "\<exists>s1 r s2 s3. handleHidlDeath env s = Some s1 \<and> gnss_setCallback env (Some c) s1 = Some (r, s2) \<and>
    gnss_callback (gnss_k env) AcquireWakelockCb s2 = Some s3 \<and> sWakelockHeldGnss s3 \<and>
    ToClient c AcquireWakelockMsg \<notin> set (gnss_trace s3)"
proof -
  obtain s1 where 1: "handleHidlDeath env s = Some s1" "hal_only s s1" using quiet_death [OF assms(2)] by blast
  then have d: "mGnssIface s1" "sWakelockHeld s1" "\<forall>m. ToClient c m \<notin> set (gnss_trace s1)"
    using assms(3-5) by (auto simp: hal_only_def)
  obtain r s2 es where 2: "gnss_setCallback env (Some c) s1 = Some (r, s2)" "sGnssCbIface s2 = Some c" "sWakelockHeld s2 = sWakelockHeld s1"
    "gnss_trace s2 = gnss_trace s1 @ es" "\<forall>a. ToClient a AcquireWakelockMsg \<notin> set es"
    using quiet_setCallback [OF assms(2) d(1)] by blast
  have 3: "gnss_callback (gnss_k env) AcquireWakelockCb s2 = Some (s2\<lparr>sWakelockHeldGnss := True\<rparr>)"
    using 2(2,3) d(2) by (simp add: acquireWakelockCb_def acquireWakelockGnss_def updateWakelock_def)
  show ?thesis using 1(1) 2 3 d(3) by auto
qed

lemma wakelock_lost_on_reconnect_witness:
  "\<exists>s1 r s2 s3. handleHidlDeath gnss_example locked_gnss = Some s1 \<and> gnss_setCallback gnss_example (Some 2) s1 = Some (r, s2) \<and>
    gnss_callback example_consts AcquireWakelockCb s2 = Some s3 \<and> sWakelockHeldGnss s3 \<and> ToClient 2 AcquireWakelockMsg \<notin> set (gnss_trace s3)"
  using wakelock_lost_on_reconnect [OF locked_reachable example_quiet(1), of 2] unfolding example_quiet(2)
  by (simp add: locked_gnss_def registered_gnss_def gnss_initial_def)

end
