(* ===== verification/Spec2Isabelle.thy ===== *)
theory Spec2Isabelle
  imports RilNames RilProps SapService RadioProfiles RespValues SortedVector LightService
    LooperSpec GnssProps
begin

text \<open>
  The radio interface daemon of the device tree \<open>device/sony/huashan\<close>: \<open>libril/\<close> with its public
  header \<open>include/telephony/ril.h\<close>. The daemon stands between Android's telephony framework, which
  calls the HIDL service \<open>IRadio\<close>, and the vendor's modem library. A method of the service enters a
  request in a list and hands its arguments to the vendor (\<open>ril_service.cpp\<close>); the vendor completes
  it later, or reports something by itself, through three callbacks (\<open>ril.cpp\<close>), which look the
  request up, find the function of the service that answers it in a table (\<open>ril_commands.h\<close>,
  \<open>ril_unsol_commands.h\<close>) and call it. An event loop (\<open>ril_event.cpp\<close>) runs timers on behalf of the
  vendor and of the wake lock, which keeps the phone awake while the framework works on a response. A
  second, smaller path serves SIM access (\<open>sap_service.cpp\<close>, \<open>RilSapSocket.cpp\<close> and the queue of
  \<open>rilSocketQueue.h\<close>).

  Theories, in the order of imports.

  \<^item> \<open>Prelude\<close>: addresses, words, time values as a \<open>linorder\<close>, chains of links, ordered insertion.
  \<^item> \<open>RilEvent\<close>: \<open>ril_event.cpp\<close>. Events in memory, the timer list and the pending list as rings, the
    table of descriptors. The rings are refined to Isabelle lists; the properties give the order of
    timers, what is due, the next timeout, and the consistency of the descriptor table.
  \<^item> \<open>RilTables\<close> and \<open>RilNames\<close>: the codes of \<open>ril.h\<close>, the two dispatch tables, the names for the log.
  \<^item> \<open>PendingList\<close>: lists that are unlinked through a pointer to a link, and the locale \<open>token_store\<close>,
    the contract under which a token is granted once.
  \<^item> \<open>RilCore\<close>: the state and the operations of \<open>ril.cpp\<close>; \<open>RilWakeLock\<close>, \<open>RilRequests\<close> and
    \<open>RilDaemon\<close> prove the invariants of the wake lock, of the pending requests and of the whole
    daemon, and interpret the locales \<open>token_store\<close> and \<open>event_client\<close>; \<open>RilProps\<close> states the
    properties of the daemon.
  \<^item> \<open>SapSocket\<close>: sockets, request queues and message headers of the SAP path, and the second
    interpretation of \<open>token_store\<close>.
  \<^item> \<open>SapService\<close>: \<open>sap_service.cpp\<close> on top of these sockets: the methods that encode a request and
    dispatch it, the decoding of answers and indications, and the calls of the client. The generated
    encoders are parameters.
  \<^item> \<open>RadioTypes\<close>, \<open>RadioDispatch\<close>, \<open>RadioApi\<close>, \<open>RadioMethods\<close>, \<open>RadioProfiles\<close>: the request half of
    \<open>ril_service.cpp\<close>: data and heap, the dispatch helpers, the methods that are one call of a helper,
    those that build a structure, and those that build a list of structures. The lemmas show (\<open>answers_in\<close>) that a method enters
    one request whose row answers under the method's own name, and either calls the vendor once, with exactly the payload
    of its arguments, or answers with an error itself, and frees what it allocated, whatever allocation fails. Every error has its cause
    (\<open>copy_errors\<close>, \<open>refusal\<close>). The methods that differ have lemmas of their own in \<open>RadioMethods\<close>.
  \<^item> \<open>RespTypes\<close>, \<open>RespCore\<close>, \<open>RespSimple\<close>, \<open>RespConvert\<close>, \<open>RespStruct\<close>, \<open>RespInd\<close>: the other half of
    \<open>ril_service.cpp\<close>: the vendor's structures and the values of the interface, the client objects of a
    slot and how they are registered and dropped, and one definition per response function and per
    indication function, with the conversions they use (and \<open>ril_mnc.h\<close>).
  \<^item> \<open>RespTable\<close> lists these functions under the names the dispatch tables use and shows the form of
    each: it calls nobody without a client, and otherwise calls the method of its own name once. \<open>RespProps\<close>
    composes them with the daemon (locale \<open>response_table\<close>) and states what becomes of a completed
    request, of a dead client and of a client that registers meanwhile. \<open>RespValues\<close> states properties
    of the values handed over.
  \<^item> \<open>VectorImpl\<close>, \<open>VectorProps\<close>, \<open>VectorSort\<close>, \<open>VectorCalls\<close>, \<open>SortedVector\<close>:
    \<open>libshims/utils/VectorImpl.cpp\<close>, the untyped vector that older vendor libraries link to. A vector
    shares its buffer with its copies until one of them changes. \<open>SharedBuffer\<close> is a parameter
    (\<open>shared_buffer\<close>) and \<open>sb_laws\<close> is what its interface promises; the memory of a buffer is a list
    of slots, each raw or with a live object. \<open>vec_holds\<close> relates a vector to the list it stands for:
    the lemmas give every operation on lists and a frame for all other vectors, so any sequence of
    calls (no vector is inserted into itself, no removal wraps around) keeps them well formed, the sort is the stable sort of the library, and the bisection of a
    sorted vector is a search from the front.
  \<^item> \<open>Lights\<close>, \<open>LightsProps\<close>, \<open>LightsLeds\<close>, \<open>LightService\<close>: \<open>hidl/lights/Light.cpp\<close>, the service of the
    backlight and of the LED that notifications, the battery and the attention light share. The state is
    the fields of the class, what is written to the files of the drivers is a trace. The service
    writes only what it believes to have changed; \<open>memo_inv\<close> and \<open>program_memo\<close> say what these beliefs have to
    do with the last writes, and the properties say what the LED shows, which program its
    sequencer runs and that all values stay in bounds.
  \<^item> \<open>Looper\<close>, \<open>LooperProps\<close>, \<open>LooperSpec\<close>: \<open>libshims/utils/Looper.cpp\<close>, the loop for messages and descriptors.
    Its queue is a list sorted by time and its requests are a map (the vectors they are kept in are those of \<open>VectorImpl\<close>).
    \<open>epoll\<close>, the clock, the conversion of times to timeouts, handlers, callbacks and the
    calls of other threads are fields of \<open>looper_env\<close>: any sequence of calls may happen during a wait, while a handler
    or a callback runs, and between polls. \<open>poll_ok\<close> is kept by all of them. A
    handler that keeps sending messages that are due at once keeps the loop going, which is \<open>None\<close>;
    \<open>poll_window\<close> says when a poll ends. Times are integers, their overflow is not modelled, callbacks do not
    poll their own looper, and no descriptor is closed before it is removed, so the kernel watches what it was told to.
  \<^item> \<open>GnssData\<close>, \<open>Gnss\<close>, \<open>GnssParts\<close>, \<open>GnssProps\<close>: \<open>hidl/gnss/\<close>, which stands between clients of the location interface and
    the legacy GNSS library (the HAL). \<open>GnssData\<close> converts structures; \<open>Gnss\<close> has the state, the callbacks of the HAL and
    the wake lock that the satellites and the batches share; \<open>GnssParts\<close> the ten extensions and all methods. The HAL is a field
    of \<open>gnss_env\<close>: the result of each call and the callbacks made before it returns. \<open>gnss_step\<close> is one call of
    a client, one callback of the HAL, or the death of the client; the properties hold in all reachable states. Enumerators and macros of
    the two interfaces are the parameter \<open>gnss_consts\<close>.

  Conventions. Undefined behaviour of the C++ code (freed memory, NULL calls, failed assertions) is
  \<open>None\<close>, so a theorem that an operation is \<open>Some\<close> says that none happens. The clock, the result of
  \<open>select\<close> and of allocations, the identity of the thread and the vendor's code are arguments. Loops
  over linked memory are \<open>partial_function (option)\<close>: a loop that does not end is \<open>None\<close> as well, and
  the invariants show that it ends. No fuel is used. What the daemon does to the outside is a trace of
  effects. Vendor code that runs inside a callback is any sequence of calls within the contract of
  the header (\<open>api_call\<close>).

  Not modelled. Threads: every operation runs atomically, as the mutexes of the code intend, except
  that other threads may run while \<open>checkReturnStatus\<close> has released its lock.
  \<open>RIL_startEventLoop\<close>, \<open>initWithMmapSize\<close>, \<open>rilc_thread_pool\<close> and the locks of the services only call
  the system. The rest of the repository (camera, the graphics buffer and sensor shims, the MAC
  address tool, settings, overlays and configuration) is separate from the daemon: adapters around vendor
  libraries and data.
\<close>

end
